(* ===== verification/Tamper_Prelude.thy ===== *)
theory Tamper_Prelude
  imports Main "HOL-Library.AList" "HOL-Library.Sublist" "HOL-Library.Char_ord"
    "HOL-Library.List_Lexorder" "HOL-Library.Product_Lexorder" "HOL-Library.Word"
begin

text \<open>
  Shared vocabulary of the development.

  Conventions for the Go code: a Go \<^verbatim>\<open>string\<close> is a \<^typ>\<open>string\<close>, one
  \<^typ>\<open>char\<close> per byte, ordered bytewise as Go orders strings; a function that
  returns \<^verbatim>\<open>(T, error)\<close> returns a \<^typ>\<open>'e + 'a\<close> whose left side is the sentinel
  the error matches under \<^verbatim>\<open>errors.Is\<close> (the message prose is not modelled); a Go
  \<^verbatim>\<open>map\<close> is an association list with distinct keys, updated with
  \<^term>\<open>AList.update\<close> and \<^term>\<open>AList.delete\<close>, whose list order stands for Go's
  arbitrary iteration order; a \<^verbatim>\<open>time.Time\<close> is an \<^typ>\<open>int\<close> number of seconds.

  The collections \<^verbatim>\<open>alist_simps\<close>, \<^verbatim>\<open>string_simps\<close> and \<^verbatim>\<open>result_simps\<close> carry the
  generic facts the component proofs use.
\<close>

named_theorems alist_simps \<open>facts on association lists read through \<open>map_of\<close>\<close>
named_theorems string_simps \<open>facts on prefixes, suffixes and ASCII lowering\<close>
named_theorems result_simps \<open>facts on results of fallible code\<close>

type_synonym go_time = int
type_synonym ('e, 'a) go_result = "'e + 'a"
type_synonym ('k, 'v) go_map = "('k \<times> 'v) list"

section \<open>Fallible results\<close>

abbreviation isOk :: "'e + 'a \<Rightarrow> bool" where
  "isOk r \<equiv> \<not> isl r"

text \<open>A loop over a slice whose body may fail: the first failure ends the loop.\<close>

fun mapResult :: "('a \<Rightarrow> 'e + 'b) \<Rightarrow> 'a list \<Rightarrow> 'e + 'b list" where
  "mapResult f [] = Inr []"
| "mapResult f (x # xs) = (case f x of Inl e \<Rightarrow> Inl e | Inr y \<Rightarrow>
     (case mapResult f xs of Inl e \<Rightarrow> Inl e | Inr ys \<Rightarrow> Inr (y # ys)))"

fun filterResult :: "('a \<Rightarrow> 'e + bool) \<Rightarrow> 'a list \<Rightarrow> 'e + 'a list" where
  "filterResult f [] = Inr []"
| "filterResult f (x # xs) = (case f x of Inl e \<Rightarrow> Inl e | Inr b \<Rightarrow>
     (case filterResult f xs of Inl e \<Rightarrow> Inl e | Inr ys \<Rightarrow> Inr (if b then x # ys else ys)))"

section \<open>Strings\<close>

definition lowerChar :: "char \<Rightarrow> char" where
  "lowerChar c = (if 65 \<le> (of_char c :: nat) \<and> (of_char c :: nat) \<le> 90
                  then char_of ((of_char c :: nat) + 32) else c)"

definition toLower :: "string \<Rightarrow> string" where
  "toLower s = map lowerChar s"

definition isSpaceChar :: "char \<Rightarrow> bool" where
  "isSpaceChar c = ((of_char c :: nat) \<in> {9, 10, 11, 12, 13, 32})"

definition trimBoth :: "(char \<Rightarrow> bool) \<Rightarrow> string \<Rightarrow> string" where
  "trimBoth p s = rev (dropWhile p (rev (dropWhile p s)))"

definition trimSpace :: "string \<Rightarrow> string" where
  "trimSpace = trimBoth isSpaceChar"

abbreviation hasPrefix :: "string \<Rightarrow> string \<Rightarrow> bool" where
  "hasPrefix s p \<equiv> prefix p s"

abbreviation hasSuffix :: "string \<Rightarrow> string \<Rightarrow> bool" where
  "hasSuffix s p \<equiv> suffix p s"

fun containsStr :: "string \<Rightarrow> string \<Rightarrow> bool" where
  "containsStr [] sub = (sub = [])"
| "containsStr (c # s) sub = (hasPrefix (c # s) sub \<or> containsStr s sub)"

fun splitCommas :: "string \<Rightarrow> string list" where
  "splitCommas [] = [[]]"
| "splitCommas (c # cs) =
     (if c = CHR '','' then [] # splitCommas cs
      else (case splitCommas cs of [] \<Rightarrow> [[c]] | p # ps \<Rightarrow> (c # p) # ps))"

fun splitDots :: "string \<Rightarrow> string list" where
  "splitDots [] = [[]]"
| "splitDots (c # cs) =
     (if c = CHR ''.'' then [] # splitDots cs
      else (case splitDots cs of [] \<Rightarrow> [[c]] | p # ps \<Rightarrow> (c # p) # ps))"

definition isAsciiChar :: "char \<Rightarrow> bool" where
  "isAsciiChar c = ((of_char c :: nat) \<le> 127)"

section \<open>Generic lemmas\<close>

text \<open>Association lists are read through \<^term>\<open>map_of\<close> throughout, never as sets of pairs.\<close>

declare map_of_eq_Some_iff [simp del] Some_eq_map_of_iff [simp del]

lemma mapResult_Inr_iff [result_simps]:
  "mapResult f xs = Inr ys \<longleftrightarrow> map f xs = map Inr ys"
proof (induction xs arbitrary: ys)
  case Nil
  then show ?case by auto
next
  case (Cons x xs)
  show ?case
  proof (cases ys)
    case Nil
    then show ?thesis by (auto split: sum.splits)
  next
    case (Cons z zs)
    then show ?thesis
      using Cons.IH [of zs] by (auto split: sum.splits)
  qed
qed

lemma mapResult_length: "mapResult f xs = Inr ys \<Longrightarrow> length ys = length xs"
  by (metis length_map mapResult_Inr_iff)

lemma mapResult_Inl:
  "mapResult f xs = Inl e \<Longrightarrow> \<exists>x\<in>set xs. f x = Inl e"
  by (induction xs) (auto split: sum.splits)

lemma filterResult_Inr:
  "filterResult f xs = Inr ys \<Longrightarrow> (\<forall>x\<in>set xs. \<exists>b. f x = Inr b) \<and> ys = filter (\<lambda>x. f x = Inr True) xs"
  by (induction xs arbitrary: ys) (auto split: sum.splits)

lemma filterResult_total:
  "(\<And>x. x \<in> set xs \<Longrightarrow> f x = Inr (g x)) \<Longrightarrow> filterResult f xs = Inr (filter g xs)"
  by (induction xs) auto

lemma containsStr_iff [string_simps]: "containsStr s sub \<longleftrightarrow> (\<exists>a b. s = a @ sub @ b)"
proof (induction s)
  case Nil
  then show ?case by auto
next
  case (Cons c s)
  show ?case
  proof
    assume "containsStr (c # s) sub"
    then consider "prefix sub (c # s)" | "containsStr s sub" by auto
    then show "\<exists>a b. c # s = a @ sub @ b"
    proof cases
      case 1
      then show ?thesis by (metis append_Nil prefix_def)
    next
      case 2
      with Cons show ?thesis by (metis append_Cons)
    qed
  next
    assume "\<exists>a b. c # s = a @ sub @ b"
    then obtain a b where *: "c # s = a @ sub @ b" by blast
    show "containsStr (c # s) sub"
    proof (cases a)
      case Nil
      with * have "prefix sub (c # s)" by simp
      then show ?thesis by simp
    next
      case (Cons d a')
      with * have "s = a' @ sub @ b" by simp
      with Cons.IH show ?thesis by auto
    qed
  qed
qed

lemma map_of_update [alist_simps]: "map_of (AList.update k v m) = (map_of m)(k \<mapsto> v)"
  by (simp add: update_conv')

lemma map_of_delete [alist_simps]: "map_of (AList.delete k m) = (map_of m)(k := None)"
  by (simp add: delete_conv')

lemma keys_update [alist_simps]: "fst ` set (AList.update k v m) = insert k (fst ` set m)"
  by (simp add: dom_map_of_conv_image_fst [symmetric] map_of_update)

lemma keys_delete [alist_simps]: "fst ` set (AList.delete k m) = fst ` set m - {k}"
  by (simp add: dom_map_of_conv_image_fst [symmetric] map_of_delete)

lemma distinct_keys_update [alist_simps]:
  "distinct (map fst m) \<Longrightarrow> distinct (map fst (AList.update k v m))"
  by (rule distinct_update)

lemma distinct_keys_delete [alist_simps]:
  "distinct (map fst m) \<Longrightarrow> distinct (map fst (AList.delete k m))"
  by (rule distinct_delete)

lemma of_char_lowerChar_le: "(of_char (lowerChar c) :: nat) \<le> 127 \<longleftrightarrow> (of_char c :: nat) \<le> 127"
  by (auto simp: lowerChar_def of_char_of)

lemma lowerChar_idem [simp]: "lowerChar (lowerChar c) = lowerChar c"
proof (cases "65 \<le> (of_char c :: nat) \<and> (of_char c :: nat) \<le> 90")
  case True
  then have "(of_char (lowerChar c) :: nat) = of_char c + 32"
    by (simp add: lowerChar_def of_char_of)
  with True show ?thesis by (simp add: lowerChar_def of_char_of)
next
  case False
  then have "lowerChar c = c" by (auto simp: lowerChar_def)
  then show ?thesis by simp
qed

lemma toLower_idem [simp]: "toLower (toLower s) = toLower s"
  by (simp add: toLower_def o_def)

lemma length_toLower [simp]: "length (toLower s) = length s"
  by (simp add: toLower_def)

lemma dropWhile_idem: "dropWhile p (dropWhile p s) = dropWhile p s"
  by (induction s) auto

lemma dropWhile_rev_trim:
  "dropWhile p (rev (dropWhile p (rev (dropWhile p s)))) = rev (dropWhile p (rev (dropWhile p s)))"
proof -
  let ?t = "dropWhile p s"
  show ?thesis
  proof (cases "dropWhile p (rev ?t)")
    case Nil
    show ?thesis unfolding Nil by simp
  next
    case (Cons c cs)
    then have "\<exists>x\<in>set ?t. \<not> p x"
      by (metis dropWhile_eq_Nil_conv list.distinct(1) set_rev)
    then obtain a t where t: "?t = a # t" "\<not> p a"
      by (metis dropWhile_eq_Nil_conv hd_dropWhile list.exhaust_sel dropWhile_idem)
    have "dropWhile p (rev t @ [a]) = dropWhile p (rev t) @ [a]"
      by (induction "rev t") (use t(2) in \<open>auto simp: dropWhile_append\<close>)
    with t show ?thesis by simp
  qed
qed

lemma trimBoth_idem [simp]: "trimBoth p (trimBoth p s) = trimBoth p s"
  by (simp add: trimBoth_def dropWhile_rev_trim dropWhile_idem)

lemma splitCommas_plain: "CHR '','' \<notin> set s \<Longrightarrow> splitCommas s = [s]"
  by (induction s) auto

lemma splitCommas_append: "CHR '','' \<notin> set s \<Longrightarrow> splitCommas (s @ CHR '','' # t) = s # splitCommas t"
  by (induction s) (auto split: list.splits)

lemma trimSpace_id: "s \<noteq> [] \<Longrightarrow> \<not> isSpaceChar (hd s) \<Longrightarrow> \<not> isSpaceChar (last s) \<Longrightarrow> trimSpace s = s"
proof -
  assume "s \<noteq> []" "\<not> isSpaceChar (hd s)" "\<not> isSpaceChar (last s)"
  then have "dropWhile isSpaceChar s = s" "dropWhile isSpaceChar (rev s) = rev s"
    by (simp_all add: dropWhile_eq_self_iff hd_rev)
  then show "trimSpace s = s" by (simp add: trimSpace_def trimBoth_def)
qed

lemma trimSpace_lead: "trimSpace (CHR '' '' # s) = trimSpace s"
proof -
  have "isSpaceChar (CHR '' '')" by code_simp
  then show ?thesis by (simp add: trimSpace_def trimBoth_def)
qed

text \<open>How a map's size changes.\<close>

lemma length_delete_less:
  assumes "k \<in> fst ` set m"
  shows "length (AList.delete k m) < length m"
proof -
  obtain v where "(k, v) \<in> set m" using assms by auto
  then show ?thesis unfolding AList.delete_eq by (rule length_filter_less) simp
qed

lemma length_update_le: "length (AList.update k v m) = (if k \<in> fst ` set m then length m else Suc (length m))"
  by (induction m) auto

end
