(* ===== verification/Tenant_Id.thy ===== *)
theory Tenant_Id
  imports Tamper_Prelude
begin

text \<open>
  Package \<^verbatim>\<open>tenant\<close>, the vocabulary: the tenant identifier that separates an unset
  tenant from the explicit single-tenant value (\<^verbatim>\<open>id.go\<close>), the error sentinels
  (\<^verbatim>\<open>store.go\<close>, \<^verbatim>\<open>admin.go\<close>, \<^verbatim>\<open>hierarchy.go\<close>, \<^verbatim>\<open>domain.go\<close>, \<^verbatim>\<open>verify.go\<close>) and the
  tenant carried by a context (\<^verbatim>\<open>context.go\<close>).
\<close>

section \<open>The tenant identifier\<close>

record ID =
  idV :: string
  idSet :: bool

definition zeroID :: ID where
  "zeroID = \<lparr>idV = '''', idSet = False\<rparr>"

definition Single :: ID where
  "Single = \<lparr>idV = '''', idSet = True\<rparr>"

definition NewID :: "string \<Rightarrow> ID" where
  "NewID s = (if s = '''' then zeroID else \<lparr>idV = s, idSet = True\<rparr>)"

definition Valid :: "ID \<Rightarrow> bool" where
  "Valid i = idSet i"

definition IsSingle :: "ID \<Rightarrow> bool" where
  "IsSingle i = (idSet i \<and> idV i = '''')"

definition IDString :: "ID \<Rightarrow> string" where
  "IDString i = idV i"

definition FromStored :: "string \<Rightarrow> ID" where
  "FromStored s = (if s = '''' then Single else NewID s)"

section \<open>Errors\<close>

text \<open>
  One constructor per sentinel. \<^verbatim>\<open>ErrHierarchyDangling\<close> wraps the store's own error
  with a second \<^verbatim>\<open>%w\<close>, so it carries it; \<^verbatim>\<open>StoreFailure\<close> is any other error a
  port returns, which the package only passes on.
\<close>

datatype tenant_err =
    ErrNotFound
  | ErrSuspended
  | ErrConflict
  | ErrInvalidDescriptor
  | ErrSingleTenant
  | ErrHierarchyCycle
  | ErrHierarchyDangling tenant_err
  | ErrHierarchyDepth
  | ErrDomainNotNormalised
  | ErrPublicEmailDomain
  | ErrVerificationFailed
  | StoreFailure string

fun isNotFound :: "tenant_err \<Rightarrow> bool" where
  "isNotFound ErrNotFound = True"
| "isNotFound (ErrHierarchyDangling e) = isNotFound e"
| "isNotFound _ = False"

fun isDangling :: "tenant_err \<Rightarrow> bool" where
  "isDangling (ErrHierarchyDangling e) = True"
| "isDangling _ = False"

section \<open>The tenant of a context\<close>

text \<open>
  A context is the stack of values stored under the package's private key, the
  innermost first; every other key is invisible to these two functions.
\<close>

type_synonym tenant_ctx = "string list"

definition WithTenant :: "tenant_ctx \<Rightarrow> string \<Rightarrow> tenant_ctx" where
  "WithTenant ctx i = i # ctx"

definition FromContext :: "tenant_ctx \<Rightarrow> string \<times> bool" where
  "FromContext ctx = (case ctx of [] \<Rightarrow> ('''', False) | i # _ \<Rightarrow> (i, True))"

section \<open>Laws of the identifier\<close>

lemmas id_defs = zeroID_def Single_def NewID_def Valid_def IsSingle_def IDString_def FromStored_def

lemma Valid_zeroID [simp]: "\<not> Valid zeroID"
  by (simp add: id_defs)

lemma Valid_FromStored [simp]: "Valid (FromStored s)"
  by (simp add: id_defs)

lemma IDString_FromStored [simp]: "IDString (FromStored s) = s"
  by (simp add: id_defs)

lemma IDString_NewID [simp]: "IDString (NewID s) = s"
  by (simp add: id_defs)

lemma FromStored_inj [simp]: "FromStored s = FromStored t \<longleftrightarrow> s = t"
  by (metis IDString_FromStored)

lemma IsSingle_FromStored [simp]: "IsSingle (FromStored s) \<longleftrightarrow> s = ''''"
  by (simp add: id_defs)

text \<open>A set identifier is determined by its string: what storage writes, storage reads back.\<close>

lemma FromStored_IDString [simp]: "Valid i \<Longrightarrow> FromStored (IDString i) = i"
  by (cases i) (auto simp: id_defs)

lemma Valid_NewID_iff [simp]: "Valid (NewID s) \<longleftrightarrow> s \<noteq> ''''"
  by (simp add: id_defs)

lemma IDString_eq_iff: "Valid i \<Longrightarrow> Valid j \<Longrightarrow> IDString i = IDString j \<longleftrightarrow> i = j"
  by (metis FromStored_IDString)

end
