(* ===== verification/Tenant_Store.thy ===== *)
theory Tenant_Store
  imports Tenant_Id
begin

text \<open>
  Package \<^verbatim>\<open>tenant\<close>, the persistence ports and their reference implementation:
  \<^verbatim>\<open>Descriptor\<close> and \<^verbatim>\<open>Status\<close> (\<^verbatim>\<open>tenant.go\<close>), the write guards (\<^verbatim>\<open>admin.go\<close>) and
  \<^verbatim>\<open>MemStore\<close> (\<^verbatim>\<open>memstore.go\<close>). The contracts of the \<^verbatim>\<open>Store\<close> and \<^verbatim>\<open>AdminStore\<close>
  interfaces are the locales \<^verbatim>\<open>tenant_store\<close> and \<^verbatim>\<open>tenant_admin_store\<close>, interpreted on
  \<^verbatim>\<open>MemStore\<close>; what an operator console relies on is proved once inside them.
  Every operation holds the store's mutex throughout, so it is one atomic step.
\<close>

section \<open>Descriptors\<close>

type_synonym Status = string

definition StatusActive :: Status where "StatusActive = ''active''"
definition StatusSuspended :: Status where "StatusSuspended = ''suspended''"
definition StatusPending :: Status where "StatusPending = ''pending''"

record Descriptor =
  descID :: string
  descSlug :: string
  descParentID :: string
  descStatus :: Status

definition zeroDescriptor :: Descriptor where
  "zeroDescriptor = \<lparr>descID = '''', descSlug = '''', descParentID = '''', descStatus = ''''\<rparr>"

section \<open>Write guards\<close>

definition checkStatus :: "Status \<Rightarrow> tenant_err option" where
  "checkStatus s = (if s = StatusActive \<or> s = StatusSuspended \<or> s = StatusPending
                    then None else Some ErrInvalidDescriptor)"

definition checkWritableID :: "ID \<Rightarrow> tenant_err option" where
  "checkWritableID i =
     (if \<not> Valid i then Some ErrInvalidDescriptor
      else if IsSingle i then Some ErrSingleTenant
      else None)"

section \<open>MemStore\<close>

record TenantMem =
  tmByID :: "(string, Descriptor) go_map"
  tmSlugToID :: "(string, string) go_map"

definition NewTenantMem :: TenantMem where
  "NewTenantMem = \<lparr>tmByID = [], tmSlugToID = []\<rparr>"

text \<open>Reading an absent key of a Go map of strings gives the empty string.\<close>

definition slugOwner :: "TenantMem \<Rightarrow> string \<Rightarrow> string" where
  "slugOwner m g = (case map_of (tmSlugToID m) g of None \<Rightarrow> '''' | Some i \<Rightarrow> i)"

definition Seed :: "TenantMem \<Rightarrow> Descriptor \<Rightarrow> TenantMem" where
  "Seed m d =
     (let slugs = (case map_of (tmByID m) (descID d) of
          None \<Rightarrow> tmSlugToID m
        | Some prev \<Rightarrow>
            if descSlug prev \<noteq> descSlug d \<and> slugOwner m (descSlug prev) = descID d
            then AList.delete (descSlug prev) (tmSlugToID m) else tmSlugToID m)
      in \<lparr>tmByID = AList.update (descID d) d (tmByID m),
          tmSlugToID = AList.update (descSlug d) (descID d) slugs\<rparr>)"

definition ByID :: "TenantMem \<Rightarrow> string \<Rightarrow> tenant_err + Descriptor" where
  "ByID m i =
     (if i = '''' then Inl ErrNotFound
      else case map_of (tmByID m) i of None \<Rightarrow> Inl ErrNotFound | Some d \<Rightarrow> Inr d)"

definition BySlug :: "TenantMem \<Rightarrow> string \<Rightarrow> tenant_err + Descriptor" where
  "BySlug m g =
     (if g = '''' then Inl ErrNotFound
      else case map_of (tmSlugToID m) g of
          None \<Rightarrow> Inl ErrNotFound
        | Some i \<Rightarrow> (case map_of (tmByID m) i of None \<Rightarrow> Inr zeroDescriptor | Some d \<Rightarrow> Inr d))"

definition ListTenants :: "TenantMem \<Rightarrow> Descriptor list" where
  "ListTenants m = sort_key descID (map snd (tmByID m))"

definition CreateTenant :: "TenantMem \<Rightarrow> Descriptor \<Rightarrow> tenant_err option \<times> TenantMem" where
  "CreateTenant m d =
     (if descID d = '''' then (Some ErrSingleTenant, m)
      else case checkStatus (descStatus d) of
        Some e \<Rightarrow> (Some e, m)
      | None \<Rightarrow>
          if map_of (tmByID m) (descID d) \<noteq> None then (Some ErrConflict, m)
          else if descSlug d \<noteq> '''' \<and> map_of (tmSlugToID m) (descSlug d) \<noteq> None
          then (Some ErrConflict, m)
          else (None, \<lparr>tmByID = AList.update (descID d) d (tmByID m),
                       tmSlugToID = (if descSlug d \<noteq> ''''
                         then AList.update (descSlug d) (descID d) (tmSlugToID m)
                         else tmSlugToID m)\<rparr>))"

definition SetStatus :: "TenantMem \<Rightarrow> ID \<Rightarrow> Status \<Rightarrow> tenant_err option \<times> TenantMem" where
  "SetStatus m i st =
     (case checkWritableID i of
        Some e \<Rightarrow> (Some e, m)
      | None \<Rightarrow> (case checkStatus st of
          Some e \<Rightarrow> (Some e, m)
        | None \<Rightarrow> (case map_of (tmByID m) (IDString i) of
            None \<Rightarrow> (Some ErrNotFound, m)
          | Some d \<Rightarrow>
              (None, m\<lparr>tmByID := AList.update (IDString i) (d\<lparr>descStatus := st\<rparr>) (tmByID m)\<rparr>))))"

section \<open>Well-formed stores\<close>

text \<open>
  Rows are filed under their own id, and the slug index only ever names a row
  that carries that slug.
\<close>

definition tenantMemInv :: "TenantMem \<Rightarrow> bool" where
  "tenantMemInv m \<longleftrightarrow>
     distinct (map fst (tmByID m)) \<and>
     (\<forall>i d. map_of (tmByID m) i = Some d \<longrightarrow> descID d = i) \<and>
     (\<forall>g i. map_of (tmSlugToID m) g = Some i \<longrightarrow>
        (\<exists>d. map_of (tmByID m) i = Some d \<and> descSlug d = g))"

text \<open>The states an application reaches through the store's own operations.\<close>

inductive tenantMemReach :: "TenantMem \<Rightarrow> bool" where
  reach_new: "tenantMemReach NewTenantMem"
| reach_seed: "tenantMemReach m \<Longrightarrow> tenantMemReach (Seed m d)"
| reach_create: "tenantMemReach m \<Longrightarrow> tenantMemReach (snd (CreateTenant m d))"
| reach_status: "tenantMemReach m \<Longrightarrow> tenantMemReach (snd (SetStatus m i st))"

text \<open>A history of operator calls against the write port.\<close>

datatype admin_op = OpCreate Descriptor | OpSetStatus ID Status

fun runAdmin :: "('s \<Rightarrow> Descriptor \<Rightarrow> tenant_err option \<times> 's) \<Rightarrow>
    ('s \<Rightarrow> ID \<Rightarrow> Status \<Rightarrow> tenant_err option \<times> 's) \<Rightarrow> 's \<Rightarrow> admin_op list \<Rightarrow> 's" where
  "runAdmin create setStatus s [] = s"
| "runAdmin create setStatus s (OpCreate d # ops) =
     runAdmin create setStatus (snd (create s d)) ops"
| "runAdmin create setStatus s (OpSetStatus i st # ops) =
     runAdmin create setStatus (snd (setStatus s i st)) ops"

section \<open>The contracts of the ports\<close>

locale tenant_store =
  fixes inv :: "'s \<Rightarrow> bool"
    and byID :: "'s \<Rightarrow> string \<Rightarrow> tenant_err + Descriptor"
    and bySlug :: "'s \<Rightarrow> string \<Rightarrow> tenant_err + Descriptor"
  assumes byID_hit: "\<lbrakk>inv s; byID s k = Inr d\<rbrakk> \<Longrightarrow> k \<noteq> '''' \<and> descID d = k"
    and byID_miss: "\<lbrakk>inv s; byID s k = Inl e\<rbrakk> \<Longrightarrow> isNotFound e"
    and bySlug_hit: "\<lbrakk>inv s; bySlug s g = Inr d\<rbrakk> \<Longrightarrow> g \<noteq> '''' \<and> descSlug d = g"
    and bySlug_miss: "\<lbrakk>inv s; bySlug s g = Inl e\<rbrakk> \<Longrightarrow> isNotFound e"
    and bySlug_row: "\<lbrakk>inv s; bySlug s g = Inr d; descID d \<noteq> ''''\<rbrakk> \<Longrightarrow> byID s (descID d) = Inr d"
begin

lemma empty_key_denies: "inv s \<Longrightarrow> isl (byID s '''') \<and> isl (bySlug s '''')"
  using byID_hit bySlug_hit by (metis isl_def obj_sumE)

lemma one_handle_per_tenant:
  assumes "inv s" "bySlug s g = Inr d" "bySlug s h = Inr d'" "descID d = descID d'" "descID d \<noteq> ''''"
  shows "g = h"
proof -
  have "byID s (descID d') = Inr d"
    using bySlug_row [OF assms(1,2,5)] unfolding assms(4) .
  moreover have "byID s (descID d') = Inr d'"
    by (rule bySlug_row [OF assms(1,3)]) (use assms(4,5) in simp)
  ultimately have "d = d'" by (rule sum.inject(2) [THEN iffD1, OF trans [OF sym]])
  with bySlug_hit [OF assms(1,2)] bySlug_hit [OF assms(1,3)] show ?thesis by simp
qed

end

locale tenant_admin_store = tenant_store inv byID bySlug
  for inv :: "'s \<Rightarrow> bool" and byID bySlug +
  fixes create :: "'s \<Rightarrow> Descriptor \<Rightarrow> tenant_err option \<times> 's"
    and setStatus :: "'s \<Rightarrow> ID \<Rightarrow> Status \<Rightarrow> tenant_err option \<times> 's"
  assumes create_refused: "create s d = (Some e, s') \<Longrightarrow> s' = s"
    and create_inv: "inv s \<Longrightarrow> inv (snd (create s d))"
    and create_ok: "\<lbrakk>inv s; create s d = (None, s')\<rbrakk> \<Longrightarrow>
      isl (byID s (descID d)) \<and> checkStatus (descStatus d) = None \<and>
      byID s' = (byID s)(descID d := Inr d)"
    and setStatus_refused: "setStatus s i st = (Some e, s') \<Longrightarrow> s' = s"
    and setStatus_inv: "inv s \<Longrightarrow> inv (snd (setStatus s i st))"
    and setStatus_ok: "\<lbrakk>inv s; setStatus s i st = (None, s')\<rbrakk> \<Longrightarrow>
      checkStatus st = None \<and>
      (\<exists>d. byID s (IDString i) = Inr d \<and>
           byID s' = (byID s)(IDString i := Inr (d\<lparr>descStatus := st\<rparr>)))"
begin

lemma create_keeps:
  assumes "inv s" "byID s k = Inr d"
  shows "byID (snd (create s c)) k = Inr d"
proof (cases "create s c")
  case (Pair r s')
  with assms show ?thesis
    using create_refused create_ok [OF assms(1)]
    by (cases r) (fastforce simp: isl_def)+
qed

lemma setStatus_keeps:
  assumes "inv s" "byID s k = Inr d"
  shows "\<exists>st'. byID (snd (setStatus s i st)) k = Inr (d\<lparr>descStatus := st'\<rparr>)"
proof (cases "setStatus s i st")
  case (Pair r s')
  show ?thesis
  proof (cases r)
    case None
    with Pair assms show ?thesis
      using setStatus_ok [OF assms(1), of i st s'] by (cases "IDString i = k") (auto intro: exI [of _ "descStatus d"])
  next
    case (Some e)
    with Pair assms setStatus_refused show ?thesis
      by (metis Descriptor.surjective Descriptor.update_convs(4) snd_conv)
  qed
qed

lemma runAdmin_inv: "inv s \<Longrightarrow> inv (runAdmin create setStatus s ops)"
proof (induction ops arbitrary: s)
  case (Cons op ops)
  then show ?case by (cases op) (simp_all add: create_inv setStatus_inv)
qed simp

text \<open>No history of operator calls removes a tenant or moves its slug or its parent.\<close>

lemma runAdmin_keeps:
  assumes "inv s" "byID s k = Inr d"
  shows "\<exists>st. byID (runAdmin create setStatus s ops) k = Inr (d\<lparr>descStatus := st\<rparr>)"
  using assms
proof (induction ops arbitrary: s d)
  case Nil
  then show ?case by (auto intro: exI [of _ "descStatus d"])
next
  case (Cons op ops)
  show ?case
  proof (cases op)
    case (OpCreate c)
    with Cons show ?thesis using create_inv create_keeps by simp
  next
    case (OpSetStatus i st)
    obtain st' where "byID (snd (setStatus s i st)) k = Inr (d\<lparr>descStatus := st'\<rparr>)"
      using setStatus_keeps Cons.prems by blast
    from Cons.IH [OF setStatus_inv [OF Cons.prems(1)] this] OpSetStatus
    show ?thesis by simp
  qed
qed

end

section \<open>MemStore keeps the contracts\<close>

lemma checkStatus_None_iff:
  "checkStatus s = None \<longleftrightarrow> s \<in> {StatusActive, StatusSuspended, StatusPending}"
  by (auto simp: checkStatus_def)

lemma checkWritableID_None [simp]: "checkWritableID i = None \<longleftrightarrow> Valid i \<and> \<not> IsSingle i"
  by (simp add: checkWritableID_def)

lemma IDString_nonempty: "Valid i \<Longrightarrow> IDString i = '''' \<longleftrightarrow> IsSingle i"
  by (simp add: id_defs)

lemma tenantMemInv_New [simp]: "tenantMemInv NewTenantMem"
  by (simp add: tenantMemInv_def NewTenantMem_def)

lemma tenantMemInv_Seed [simp]:
  assumes "tenantMemInv m"
  shows "tenantMemInv (Seed m d)"
  using assms
  by (fastforce simp: tenantMemInv_def Seed_def Let_def slugOwner_def alist_simps
      split: option.splits if_splits)

lemma tenantMemInv_Create [simp]:
  assumes "tenantMemInv m"
  shows "tenantMemInv (snd (CreateTenant m d))"
  using assms
  by (fastforce simp: tenantMemInv_def CreateTenant_def alist_simps split: option.splits)

lemma tenantMemInv_SetStatus [simp]:
  assumes "tenantMemInv m"
  shows "tenantMemInv (snd (SetStatus m i st))"
  using assms
  by (fastforce simp: tenantMemInv_def SetStatus_def alist_simps split: option.splits)

lemma tenantMemReach_inv: "tenantMemReach m \<Longrightarrow> tenantMemInv m"
  by (induction rule: tenantMemReach.induct) auto

interpretation tenant_mem: tenant_store tenantMemInv ByID BySlug
  by unfold_locales
    (fastforce simp: tenantMemInv_def ByID_def BySlug_def split: if_splits option.splits)+

interpretation tenant_mem: tenant_admin_store tenantMemInv ByID BySlug CreateTenant SetStatus
proof unfold_locales
  fix m m' d e
  show "CreateTenant m d = (Some e, m') \<Longrightarrow> m' = m"
    by (auto simp: CreateTenant_def split: option.splits if_splits)
next
  fix m m' :: TenantMem and d
  show "CreateTenant m d = (None, m') \<Longrightarrow>
    isl (ByID m (descID d)) \<and> checkStatus (descStatus d) = None \<and> ByID m' = (ByID m)(descID d := Inr d)"
    by (auto simp: CreateTenant_def ByID_def alist_simps split: option.splits if_splits)
next
  fix m m' i st e
  show "SetStatus m i st = (Some e, m') \<Longrightarrow> m' = m"
    by (auto simp: SetStatus_def split: option.splits)
next
  fix m m' :: TenantMem and i st
  assume "SetStatus m i st = (None, m')"
  then show "checkStatus st = None \<and> (\<exists>d. ByID m (IDString i) = Inr d \<and>
      ByID m' = (ByID m)(IDString i := Inr (d\<lparr>descStatus := st\<rparr>)))"
    by (auto simp: SetStatus_def ByID_def IDString_nonempty alist_simps split: option.splits)
qed auto

end
