(* ===== verification/Tenant_Hierarchy.thy ===== *)
theory Tenant_Hierarchy
  imports Tenant_Store
begin

text \<open>
  Package \<^verbatim>\<open>tenant\<close>, parentage and what is inherited through it: the bounded walk
  \<^verbatim>\<open>Ancestors\<close> (\<^verbatim>\<open>hierarchy.go\<close>), the nearest-ancestor rule \<^verbatim>\<open>Inherited\<close>
  (\<^verbatim>\<open>inherited.go\<close>), plan records with their \<^verbatim>\<open>Union\<close> (\<^verbatim>\<open>entitlements.go\<close>) and the
  widening decorator \<^verbatim>\<open>InheritingEntitlements\<close> (\<^verbatim>\<open>entitlement_inherit.go\<close>).

  The ports are arguments: \<^verbatim>\<open>byID\<close> is \<^verbatim>\<open>Store.ByID\<close>, \<^verbatim>\<open>allow\<close> the \<^verbatim>\<open>Inheritance\<close>
  policy, \<^verbatim>\<open>own\<close> the axis lookup, \<^verbatim>\<open>forTenant\<close> is \<^verbatim>\<open>EntitlementStore.ForTenant\<close>; each is a
  function, so a walk reads one snapshot of its store. The nil-able ports of
  \<^verbatim>\<open>Inherited\<close> are options; the functions that panic on a nil port take it as given.
\<close>

section \<open>Ancestors\<close>

definition maxHierarchyDepth :: nat where
  "maxHierarchyDepth = 32"

function ancestorsLoop :: "(string \<Rightarrow> tenant_err + Descriptor) \<Rightarrow> ID list \<Rightarrow> ID list \<Rightarrow> Descriptor
    \<Rightarrow> tenant_err + ID list" where
  "ancestorsLoop byID seen chain desc =
     (if descParentID desc = '''' then Inr chain
      else let pid = FromStored (descParentID desc) in
        if pid \<in> set seen then Inl ErrHierarchyCycle
        else if maxHierarchyDepth \<le> length chain then Inl ErrHierarchyDepth
        else case byID (IDString pid) of
            Inl e \<Rightarrow> Inl (ErrHierarchyDangling e)
          | Inr desc' \<Rightarrow> ancestorsLoop byID (pid # seen) (chain @ [pid]) desc')"
  by pat_completeness auto
termination
  by (relation "measure (\<lambda>(byID, seen, chain, desc). maxHierarchyDepth - length chain)") auto

definition Ancestors :: "(string \<Rightarrow> tenant_err + Descriptor) \<Rightarrow> ID \<Rightarrow> tenant_err + ID list" where
  "Ancestors byID i =
     (if \<not> Valid i \<or> IsSingle i then Inr []
      else case byID (IDString i) of
          Inl e \<Rightarrow> Inl e
        | Inr desc \<Rightarrow> ancestorsLoop byID [i] [] desc)"

section \<open>The nearest ancestor with something to lend\<close>

fun inheritedWalk :: "(ID \<Rightarrow> tenant_err + bool) \<Rightarrow> (ID \<Rightarrow> tenant_err + 'a list) \<Rightarrow> ID list
    \<Rightarrow> tenant_err + 'a list" where
  "inheritedWalk allow own [] = Inr []"
| "inheritedWalk allow own (a # chain) =
     (case own a of
        Inl e \<Rightarrow> Inl e
      | Inr lent \<Rightarrow>
          if lent = [] then inheritedWalk allow own chain
          else case allow a of
              Inl e \<Rightarrow> Inl e
            | Inr allowed \<Rightarrow> if allowed then Inr lent else Inr [])"

definition Inherited :: "(string \<Rightarrow> tenant_err + Descriptor) option \<Rightarrow> (ID \<Rightarrow> tenant_err + bool) option
    \<Rightarrow> ID \<Rightarrow> (ID \<Rightarrow> tenant_err + 'a list) \<Rightarrow> tenant_err + 'a list" where
  "Inherited s allow i own =
     (case own i of
        Inl e \<Rightarrow> Inl e
      | Inr items \<Rightarrow>
          if items \<noteq> [] \<or> s = None \<or> allow = None then Inr items
          else (case Ancestors (the s) i of
              Inl e \<Rightarrow> if isDangling e then Inl e else if isNotFound e then Inr [] else Inl e
            | Inr chain \<Rightarrow> inheritedWalk (the allow) own chain))"

section \<open>Entitlements\<close>

record Entitlements =
  SSOEnabled :: bool
  SCIMEnabled :: bool
  MaxIdPConnections :: int

definition zeroEntitlements :: Entitlements where
  "zeroEntitlements = \<lparr>SSOEnabled = False, SCIMEnabled = False, MaxIdPConnections = 0\<rparr>"

definition IsZero :: "Entitlements \<Rightarrow> bool" where
  "IsZero e = (\<not> SSOEnabled e \<and> \<not> SCIMEnabled e \<and> MaxIdPConnections e = 0)"

definition unionMaxIdPConnections :: "Entitlements \<Rightarrow> Entitlements \<Rightarrow> int" where
  "unionMaxIdPConnections e other =
     (if IsZero e then MaxIdPConnections other
      else if IsZero other then MaxIdPConnections e
      else if MaxIdPConnections e \<le> 0 \<or> MaxIdPConnections other \<le> 0 then 0
      else if MaxIdPConnections e > MaxIdPConnections other then MaxIdPConnections e
      else MaxIdPConnections other)"

definition UnionE :: "Entitlements \<Rightarrow> Entitlements \<Rightarrow> Entitlements" where
  "UnionE e other =
     \<lparr>SSOEnabled = SSOEnabled e \<or> SSOEnabled other,
      SCIMEnabled = SCIMEnabled e \<or> SCIMEnabled other,
      MaxIdPConnections = unionMaxIdPConnections e other\<rparr>"

definition AllowsAnotherIdP :: "Entitlements \<Rightarrow> int \<Rightarrow> bool" where
  "AllowsAnotherIdP e current =
     (if MaxIdPConnections e \<le> 0 then True else current < MaxIdPConnections e)"

fun widenAlong :: "(ID \<Rightarrow> tenant_err + Entitlements) \<Rightarrow> Entitlements \<Rightarrow> ID list
    \<Rightarrow> tenant_err + Entitlements" where
  "widenAlong forTenant effective [] = Inr effective"
| "widenAlong forTenant effective (a # chain) =
     (case forTenant a of
        Inl e \<Rightarrow> Inl e
      | Inr inherited \<Rightarrow> widenAlong forTenant (UnionE effective inherited) chain)"

definition InheritingForTenant :: "(ID \<Rightarrow> tenant_err + Entitlements)
    \<Rightarrow> (string \<Rightarrow> tenant_err + Descriptor) \<Rightarrow> ID \<Rightarrow> tenant_err + Entitlements" where
  "InheritingForTenant forTenant byID i =
     (case forTenant i of
        Inl e \<Rightarrow> Inl e
      | Inr own \<Rightarrow> (case Ancestors byID i of
          Inl e \<Rightarrow> Inl e
        | Inr chain \<Rightarrow> widenAlong forTenant own chain))"

section \<open>The parentage relation the walk computes\<close>

text \<open>
  \<^verbatim>\<open>parentPath byID d xs r\<close>: starting at the row \<^verbatim>\<open>d\<close>, the ids \<^verbatim>\<open>xs\<close> are the successive
  parents, each of which resolves, and \<^verbatim>\<open>r\<close> is the row of the last one. It mentions
  neither the depth bound nor the set of visited ids.
\<close>

fun parentPath :: "(string \<Rightarrow> tenant_err + Descriptor) \<Rightarrow> Descriptor \<Rightarrow> ID list \<Rightarrow> Descriptor \<Rightarrow> bool" where
  "parentPath byID d [] r \<longleftrightarrow> r = d"
| "parentPath byID d (x # xs) r \<longleftrightarrow>
     descParentID d \<noteq> '''' \<and> x = FromStored (descParentID d) \<and>
     (\<exists>d'. byID (descParentID d) = Inr d' \<and> parentPath byID d' xs r)"

lemma parentPath_snoc:
  "parentPath byID d (xs @ [x]) r \<longleftrightarrow>
     (\<exists>m. parentPath byID d xs m \<and> descParentID m \<noteq> '''' \<and> x = FromStored (descParentID m) \<and>
          byID (descParentID m) = Inr r)"
  by (induction xs arbitrary: d) auto

lemma parentPath_Valid: "parentPath byID d xs r \<Longrightarrow> x \<in> set xs \<Longrightarrow> Valid x \<and> \<not> IsSingle x"
  by (induction xs arbitrary: d) auto

lemma parentPath_functional:
  "parentPath byID d xs r \<Longrightarrow> parentPath byID d ys q \<Longrightarrow> length xs = length ys \<Longrightarrow> xs = ys \<and> r = q"
proof (induction xs arbitrary: d ys)
  case Nil
  then show ?case by auto
next
  case (Cons x xs)
  then show ?case by (cases ys) auto
qed

lemma parentPath_take:
  "parentPath byID d xs r \<Longrightarrow> \<exists>m. parentPath byID d (take n xs) m"
proof (induction xs arbitrary: d n)
  case (Cons x xs)
  then show ?case by (cases n) auto
qed auto

declare ancestorsLoop.simps [simp del]

text \<open>
  How the loop ends: at the end \<^verbatim>\<open>r\<close> of the path \<^verbatim>\<open>xs\<close>, one of the four exits is taken.
\<close>

definition walkStops :: "(string \<Rightarrow> tenant_err + Descriptor) \<Rightarrow> ID \<Rightarrow> ID list \<Rightarrow> Descriptor
    \<Rightarrow> tenant_err + ID list \<Rightarrow> bool" where
  "walkStops byID i xs r out \<longleftrightarrow>
     (case out of
        Inr ys \<Rightarrow> ys = xs \<and> descParentID r = ''''
      | Inl ErrHierarchyCycle \<Rightarrow> descParentID r \<noteq> '''' \<and> FromStored (descParentID r) \<in> set (i # xs)
      | Inl ErrHierarchyDepth \<Rightarrow> descParentID r \<noteq> '''' \<and> length xs = maxHierarchyDepth \<and>
          FromStored (descParentID r) \<notin> set (i # xs)
      | Inl (ErrHierarchyDangling e) \<Rightarrow> descParentID r \<noteq> '''' \<and> length xs < maxHierarchyDepth \<and>
          byID (descParentID r) = Inl e
      | Inl _ \<Rightarrow> False)"

definition chainEnds :: "(string \<Rightarrow> tenant_err + Descriptor) \<Rightarrow> ID \<Rightarrow> Descriptor \<Rightarrow> tenant_err + ID list \<Rightarrow> bool" where
  "chainEnds byID i d out \<longleftrightarrow>
     (\<exists>xs r. parentPath byID d xs r \<and> distinct (i # xs) \<and> length xs \<le> maxHierarchyDepth \<and>
        walkStops byID i xs r out)"

lemma ancestorsLoop_ends:
  assumes "parentPath byID d chain desc" "distinct (i # chain)" "set seen = set (i # chain)"
    "length chain \<le> maxHierarchyDepth"
  shows "chainEnds byID i d (ancestorsLoop byID seen chain desc)"
  using assms
proof (induction byID seen chain desc rule: ancestorsLoop.induct)
  case (1 byID seen chain desc)
  let ?p = "descParentID desc" and ?pid = "FromStored (descParentID desc)"
  consider (root) "?p = ''''"
    | (cycle) "?p \<noteq> ''''" "?pid \<in> set seen"
    | (depth) "?p \<noteq> ''''" "?pid \<notin> set seen" "maxHierarchyDepth \<le> length chain"
    | (dangling) e where "?p \<noteq> ''''" "?pid \<notin> set seen" "length chain < maxHierarchyDepth"
        "byID ?p = Inl e"
    | (step) desc' where "?p \<noteq> ''''" "?pid \<notin> set seen" "length chain < maxHierarchyDepth"
        "byID ?p = Inr desc'"
    by (cases "byID ?p") force+
  then show ?case
  proof cases
    case root
    then have "ancestorsLoop byID seen chain desc = Inr chain"
      by (simp add: ancestorsLoop.simps)
    with root "1.prems" show ?thesis by (auto simp: chainEnds_def walkStops_def)
  next
    case cycle
    then have "ancestorsLoop byID seen chain desc = Inl ErrHierarchyCycle"
      by (simp add: ancestorsLoop.simps Let_def)
    with cycle "1.prems" show ?thesis by (auto simp: chainEnds_def walkStops_def intro!: exI [of _ chain])
  next
    case depth
    then have "ancestorsLoop byID seen chain desc = Inl ErrHierarchyDepth"
      by (simp add: ancestorsLoop.simps Let_def)
    with depth "1.prems" show ?thesis by (auto simp: chainEnds_def walkStops_def intro!: exI [of _ chain])
  next
    case dangling
    then have "ancestorsLoop byID seen chain desc = Inl (ErrHierarchyDangling e)"
      by (simp add: ancestorsLoop.simps Let_def)
    with dangling "1.prems" show ?thesis by (auto simp: chainEnds_def walkStops_def intro!: exI [of _ chain])
  next
    case step
    have "chainEnds byID i d (ancestorsLoop byID (?pid # seen) (chain @ [?pid]) desc')"
      using "1.IH" [of ?pid desc'] step "1.prems" by (auto simp: parentPath_snoc)
    moreover have "ancestorsLoop byID seen chain desc =
        ancestorsLoop byID (?pid # seen) (chain @ [?pid]) desc'"
      using step by (simp add: ancestorsLoop.simps Let_def)
    ultimately show ?thesis by simp
  qed
qed

lemma Ancestors_ends:
  assumes "Valid i" "\<not> IsSingle i" "byID (IDString i) = Inr d"
  shows "chainEnds byID i d (Ancestors byID i)"
  using assms ancestorsLoop_ends [of byID d "[]" d i "[i]"]
  by (simp add: Ancestors_def)

text \<open>Every id on a path resolves, and a path is a prefix of every longer one.\<close>

lemma parentPath_resolves:
  "parentPath byID d xs r \<Longrightarrow> x \<in> set xs \<Longrightarrow> \<exists>d'. byID (IDString x) = Inr d'"
  by (induction xs arbitrary: d) auto

lemma parentPath_prefix:
  assumes "parentPath byID d xs r" "parentPath byID d ys q" "length xs < length ys"
  shows "descParentID r \<noteq> '''' \<and> (\<exists>zs. ys = xs @ FromStored (descParentID r) # zs)"
  using assms
proof (induction xs arbitrary: d ys)
  case Nil
  then show ?case by (cases ys) auto
next
  case (Cons x xs)
  then obtain y ys' where [simp]: "ys = y # ys'" by (cases ys) auto
  obtain d' where "byID (descParentID d) = Inr d'" "parentPath byID d' xs r" "parentPath byID d' ys' q"
    using Cons.prems by auto
  from Cons.IH [OF this(2,3)] Cons.prems show ?case by auto
qed

text \<open>No admissible path goes beyond the point where the walk stops.\<close>

lemma walkStops_maximal:
  assumes "parentPath byID d xs r" "walkStops byID i xs r out"
    "parentPath byID d ys q" "distinct (i # ys)" "length ys \<le> maxHierarchyDepth"
  shows "\<not> length xs < length ys"
proof
  assume less: "length xs < length ys"
  from parentPath_prefix [OF assms(1,3) less] obtain zs where
    p: "descParentID r \<noteq> ''''" "ys = xs @ FromStored (descParentID r) # zs" by blast
  moreover obtain d' where "byID (descParentID r) = Inr d'"
    using parentPath_resolves [OF assms(3), of "FromStored (descParentID r)"] p(2) by auto
  ultimately show False
    using assms(2,4,5) by (auto simp: walkStops_def split: sum.splits tenant_err.splits)
qed

lemma walkStops_unique:
  assumes "byID (IDString i) = Inr d" "parentPath byID d xs r"
    "walkStops byID i xs r out" "walkStops byID i xs r out'"
  shows "out = out'"
proof -
  have "\<exists>d'. byID (IDString x) = Inr d'" if "x \<in> set (i # xs)" for x
    using that assms(1) parentPath_resolves [OF assms(2)] by auto
  then have "\<not> (FromStored (descParentID r) \<in> set (i # xs) \<and> byID (descParentID r) = Inl e)" for e
    by (metis IDString_FromStored Inl_Inr_False)
  with assms(3,4) show ?thesis
    by (auto simp: walkStops_def split: sum.splits tenant_err.splits)
qed

lemma chainEnds_unique:
  assumes "byID (IDString i) = Inr d" "chainEnds byID i d out" "chainEnds byID i d out'"
  shows "out = out'"
proof -
  obtain xs r where x: "parentPath byID d xs r" "distinct (i # xs)" "length xs \<le> maxHierarchyDepth"
      "walkStops byID i xs r out"
    using assms(2) unfolding chainEnds_def by blast
  obtain ys q where y: "parentPath byID d ys q" "distinct (i # ys)" "length ys \<le> maxHierarchyDepth"
      "walkStops byID i ys q out'"
    using assms(3) unfolding chainEnds_def by blast
  have "length xs = length ys"
    using walkStops_maximal [OF x(1,4) y(1,2,3)] walkStops_maximal [OF y(1,4) x(1,2,3)] by simp
  with parentPath_functional [OF x(1) y(1)] have "xs = ys" "r = q" by auto
  with walkStops_unique [OF assms(1) x(1,4)] y(4) show ?thesis by simp
qed

lemma Ancestors_iff_ends:
  assumes "Valid i" "\<not> IsSingle i" "byID (IDString i) = Inr d"
  shows "Ancestors byID i = out \<longleftrightarrow> chainEnds byID i d out"
  using Ancestors_ends [of i byID d, OF assms] chainEnds_unique [of byID i d, OF assms(3)] by blast

lemma Ancestors_no_walk: "\<not> Valid i \<or> IsSingle i \<Longrightarrow> Ancestors byID i = Inr []"
  by (simp add: Ancestors_def)

lemma Ancestors_path:
  assumes "Valid i" "\<not> IsSingle i"
  shows "Ancestors byID i = Inr xs \<longleftrightarrow>
    (\<exists>d r. byID (IDString i) = Inr d \<and> parentPath byID d xs r \<and> descParentID r = [] \<and>
       distinct (i # xs) \<and> length xs \<le> maxHierarchyDepth)"
proof (cases "byID (IDString i)")
  case (Inl e)
  with assms show ?thesis by (simp add: Ancestors_def)
next
  case (Inr d)
  with assms Ancestors_iff_ends [of i byID d "Inr xs"] show ?thesis
    by (auto simp: chainEnds_def walkStops_def)
qed

section \<open>What the walk returns\<close>

text \<open>
  C1. \<^verbatim>\<open>Ancestors\<close> always returns, and it answers a chain exactly when that chain is
  the whole parentage of the tenant, nearest parent first and ending at a root, with
  no tenant repeated and at most 32 of them. An unset id and the single tenant have
  the empty chain whatever the store holds.
\<close>

theorem Ancestors_chain_iff:
  "Ancestors byID i = Inr xs \<longleftrightarrow>
     (if Valid i \<and> \<not> IsSingle i
      then \<exists>d r. byID (IDString i) = Inr d \<and> parentPath byID d xs r \<and> descParentID r = '''' \<and>
             distinct (i # xs) \<and> length xs \<le> 32
      else xs = [])"
  by (auto simp: Ancestors_path Ancestors_no_walk maxHierarchyDepth_def)

text \<open>
  The three ways corrupt parentage is refused are told apart exactly: a cycle is
  reported iff the parents, followed without repetition for at most 32 steps, lead
  back to the tenant or to one of them; a dangling parent iff they lead to an id the
  store does not resolve (and its own error is kept inside); the depth error iff 32
  distinct ancestors still have a parent.
\<close>

theorem Ancestors_refusals_iff:
  assumes "Valid i" "\<not> IsSingle i" "byID (IDString i) = Inr d"
  shows "(Ancestors byID i = Inl ErrHierarchyCycle \<longleftrightarrow>
      (\<exists>xs r. parentPath byID d xs r \<and> distinct (i # xs) \<and> length xs \<le> 32 \<and>
         descParentID r \<noteq> '''' \<and> FromStored (descParentID r) \<in> set (i # xs))) \<and>
    (Ancestors byID i = Inl (ErrHierarchyDangling e) \<longleftrightarrow>
      (\<exists>xs r. parentPath byID d xs r \<and> distinct (i # xs) \<and> length xs < 32 \<and>
         descParentID r \<noteq> '''' \<and> byID (descParentID r) = Inl e)) \<and>
    (Ancestors byID i = Inl ErrHierarchyDepth \<longleftrightarrow>
      (\<exists>xs r. parentPath byID d xs r \<and> distinct (i # xs) \<and> length xs = 32 \<and>
         descParentID r \<noteq> '''' \<and> FromStored (descParentID r) \<notin> set (i # xs)))"
  by (intro conjI iffI; fastforce simp: Ancestors_iff_ends [of i byID d, OF assms] chainEnds_def walkStops_def maxHierarchyDepth_def)

text \<open>A tenant that is its own parent, and one whose parent is missing.\<close>

theorem Ancestors_refusals_iff_witness:
  "let byID = ByID (snd (CreateTenant (snd (CreateTenant NewTenantMem
         \<lparr>descID = ''a'', descSlug = '''', descParentID = ''a'', descStatus = StatusActive\<rparr>))
         \<lparr>descID = ''b'', descSlug = '''', descParentID = ''x'', descStatus = StatusActive\<rparr>)) in
     Ancestors byID (NewID ''a'') = Inl ErrHierarchyCycle \<and>
     Ancestors byID (NewID ''b'') = Inl (ErrHierarchyDangling ErrNotFound)"
proof -
  let ?a = "\<lparr>descID = ''a'', descSlug = '''', descParentID = ''a'', descStatus = StatusActive\<rparr>"
  let ?b = "\<lparr>descID = ''b'', descSlug = '''', descParentID = ''x'', descStatus = StatusActive\<rparr>"
  let ?byID = "ByID (snd (CreateTenant (snd (CreateTenant NewTenantMem ?a)) ?b))"
  have rows: "?byID ''a'' = Inr ?a" "?byID ''b'' = Inr ?b" "?byID ''x'' = Inl ErrNotFound"
    by (simp_all add: ByID_def CreateTenant_def NewTenantMem_def checkStatus_def)
  have ids: "Valid (NewID ''a'')" "\<not> IsSingle (NewID ''a'')" "Valid (NewID ''b'')" "\<not> IsSingle (NewID ''b'')"
    by (simp_all add: id_defs)
  have "Ancestors ?byID (NewID ''a'') = Inl ErrHierarchyCycle"
    by (rule Ancestors_refusals_iff [of "NewID ''a''" ?byID ?a, THEN conjunct1, THEN iffD2, OF ids(1,2)],
        simp only: IDString_NewID rows, rule exI [of _ "[]"], rule exI [of _ ?a],
        simp add: FromStored_def)
  moreover have "Ancestors ?byID (NewID ''b'') = Inl (ErrHierarchyDangling ErrNotFound)"
    by (rule Ancestors_refusals_iff [of "NewID ''b''" ?byID ?b, THEN conjunct2, THEN conjunct1,
          THEN iffD2, OF ids(3,4)],
        simp only: IDString_NewID rows, rule exI [of _ "[]"], rule exI [of _ ?b], simp add: rows(3))
  ultimately show ?thesis by (simp add: Let_def)
qed

section \<open>Ancestors over a store that keeps its contract\<close>

context tenant_store
begin

lemma Ancestors_exist:
  assumes "inv s" "Ancestors (byID s) i = Inr xs" "a \<in> set xs"
  shows "\<exists>d. byID s (IDString a) = Inr d \<and> descID d = IDString a"
proof -
  have "Valid i" "\<not> IsSingle i" using assms(2,3) Ancestors_no_walk [of i "byID s"] by fastforce+
  with assms(2) obtain d r where "parentPath (byID s) d xs r"
    by (auto simp: Ancestors_path)
  from parentPath_resolves [OF this assms(3)] show ?thesis
    using byID_hit [OF assms(1)] by metis
qed

end

text \<open>
  Rows that persist up to their status keep every path: the walk reads nothing but
  \<^verbatim>\<open>ParentID\<close>.
\<close>

lemma parentPath_stable:
  assumes "\<And>k d. byID k = Inr d \<Longrightarrow> \<exists>st. byID' k = Inr (d\<lparr>descStatus := st\<rparr>)"
    and "parentPath byID d xs r"
  shows "\<exists>st'. parentPath byID' (d\<lparr>descStatus := st\<rparr>) xs (r\<lparr>descStatus := st'\<rparr>)"
  using assms(2)
proof (induction xs arbitrary: d st)
  case Nil
  then show ?case by auto
next
  case (Cons x xs)
  then obtain d' where d': "byID (descParentID d) = Inr d'" "parentPath byID d' xs r" by auto
  obtain st1 where st1: "byID' (descParentID d) = Inr (d'\<lparr>descStatus := st1\<rparr>)"
    using assms(1) d'(1) by blast
  obtain st' where "parentPath byID' (d'\<lparr>descStatus := st1\<rparr>) xs (r\<lparr>descStatus := st'\<rparr>)"
    using Cons.IH [OF d'(2)] by blast
  with st1 Cons.prems show ?case by auto
qed

lemma Ancestors_stable:
  assumes "\<And>k d. byID k = Inr d \<Longrightarrow> \<exists>st. byID' k = Inr (d\<lparr>descStatus := st\<rparr>)"
    and "Ancestors byID i = Inr xs"
  shows "Ancestors byID' i = Inr xs"
proof (cases "Valid i \<and> \<not> IsSingle i")
  case True
  then obtain d r where d: "byID (IDString i) = Inr d"
    and r: "parentPath byID d xs r" "distinct (i # xs)" "length xs \<le> maxHierarchyDepth"
      "descParentID r = []"
    using assms(2) by (auto simp: Ancestors_path)
  obtain st where st: "byID' (IDString i) = Inr (d\<lparr>descStatus := st\<rparr>)"
    using assms(1) d by blast
  obtain st' where "parentPath byID' (d\<lparr>descStatus := st\<rparr>) xs (r\<lparr>descStatus := st'\<rparr>)"
    using parentPath_stable [of byID byID', OF assms(1) r(1)] by blast
  with r st True show ?thesis by (fastforce simp: Ancestors_path)
next
  case False
  with assms(2) show ?thesis by (auto simp: Ancestors_no_walk)
qed

context tenant_admin_store
begin

lemma runAdmin_Ancestors:
  assumes "inv s" "Ancestors (byID s) i = Inr xs"
  shows "Ancestors (byID (runAdmin create setStatus s ops)) i = Inr xs"
  by (rule Ancestors_stable [OF _ assms(2)]) (rule runAdmin_keeps [OF assms(1)])

end

text \<open>
  No sequence of operator calls changes who a tenant inherits from: once
  \<^verbatim>\<open>Ancestors\<close> answers a chain over a reachable \<^verbatim>\<open>MemStore\<close>, every later state reached
  by \<^verbatim>\<open>Create\<close> and \<^verbatim>\<open>SetStatus\<close> calls, refused ones included, gives the same chain, and
  every tenant of the chain is a stored row filed under its own id.
\<close>

theorem Ancestors_stable_under_admin:
  assumes "tenantMemReach m" "Ancestors (ByID m) i = Inr xs"
  shows "Ancestors (ByID (runAdmin CreateTenant SetStatus m ops)) i = Inr xs \<and>
    (\<forall>a\<in>set xs. \<exists>d. ByID m (IDString a) = Inr d \<and> descID d = IDString a)"
  using tenant_mem.runAdmin_Ancestors [OF tenantMemReach_inv [OF assms(1)] assms(2)]
    tenant_mem.Ancestors_exist [OF tenantMemReach_inv [OF assms(1)] assms(2)] by blast

theorem Ancestors_stable_under_admin_witness:
  "Ancestors (ByID (runAdmin CreateTenant SetStatus
       (Seed (Seed NewTenantMem \<lparr>descID = ''g'', descSlug = ''grp'', descParentID = '''', descStatus = StatusActive\<rparr>)
          \<lparr>descID = ''c'', descSlug = ''kid'', descParentID = ''g'', descStatus = StatusActive\<rparr>)
       [OpSetStatus (NewID ''g'') StatusSuspended,
        OpCreate \<lparr>descID = ''c'', descSlug = ''new'', descParentID = '''', descStatus = StatusActive\<rparr>]))
     (NewID ''c'') = Inr [FromStored ''g'']"
proof -
  let ?m = "Seed (Seed NewTenantMem \<lparr>descID = ''g'', descSlug = ''grp'', descParentID = '''', descStatus = StatusActive\<rparr>)
          \<lparr>descID = ''c'', descSlug = ''kid'', descParentID = ''g'', descStatus = StatusActive\<rparr>"
  have "tenantMemReach ?m" by (intro reach_seed reach_new)
  moreover have "Ancestors (ByID ?m) (NewID ''c'') = Inr [FromStored ''g'']"
    by (simp add: Ancestors_def ancestorsLoop.simps ByID_def Seed_def NewTenantMem_def slugOwner_def
        id_defs maxHierarchyDepth_def)
  ultimately show ?thesis
    by (rule Ancestors_stable_under_admin [THEN conjunct1])
qed

section \<open>Inheritance of an axis\<close>

lemma inheritedWalk_lends_iff:
  assumes "lent \<noteq> []"
  shows "inheritedWalk allow own chain = Inr lent \<longleftrightarrow>
    (\<exists>pre a post. chain = pre @ a # post \<and> (\<forall>b\<in>set pre. own b = Inr []) \<and>
       own a = Inr lent \<and> allow a = Inr True)"
proof (induction chain)
  case Nil
  then show ?case using assms by simp
next
  case (Cons c chain)
  show ?case
  proof (cases "own c = Inr []")
    case True
    have "(\<exists>pre a post. c # chain = pre @ a # post \<and> (\<forall>b\<in>set pre. own b = Inr []) \<and>
        own a = Inr lent \<and> allow a = Inr True) \<longleftrightarrow>
      (\<exists>pre a post. chain = pre @ a # post \<and> (\<forall>b\<in>set pre. own b = Inr []) \<and>
        own a = Inr lent \<and> allow a = Inr True)" (is "?L \<longleftrightarrow> ?R")
    proof
      assume ?L
      then obtain pre a post where *: "c # chain = pre @ a # post" "\<forall>b\<in>set pre. own b = Inr []"
        "own a = Inr lent" "allow a = Inr True" by blast
      then have "pre \<noteq> []" using True assms by auto
      with * have "chain = tl pre @ a # post" "\<forall>b\<in>set (tl pre). own b = Inr []"
        by (auto simp: Cons_eq_append_conv)
      with * show ?R by blast
    next
      assume ?R
      then obtain pre a post where "c # chain = (c # pre) @ a # post" "\<forall>b\<in>set (c # pre). own b = Inr []"
        "own a = Inr lent" "allow a = Inr True" using True by auto
      then show ?L by blast
    qed
    with True Cons.IH show ?thesis by simp
  next
    case False
    then have "(\<exists>pre a post. c # chain = pre @ a # post \<and> (\<forall>b\<in>set pre. own b = Inr []) \<and>
        own a = Inr lent \<and> allow a = Inr True) \<longleftrightarrow> own c = Inr lent \<and> allow c = Inr True"
      by (auto simp: Cons_eq_append_conv) (metis empty_iff empty_set)
    with False assms show ?thesis by (auto split: sum.splits)
  qed
qed

text \<open>
  A tenant that inherits is lent exactly what its nearest ancestor with anything
  to lend holds, and only on that ancestor's own switch: every nearer ancestor
  answered nothing without its switch being asked, and no farther one is consulted.
  A tenant with items of its own keeps exactly those.
\<close>

theorem Inherited_lends_iff:
  assumes "own i = Inr []" "lent \<noteq> []"
  shows "(Inherited (Some byID) (Some allow) i own = Inr lent \<longleftrightarrow>
    (\<exists>pre a post. Ancestors byID i = Inr (pre @ a # post) \<and> (\<forall>b\<in>set pre. own b = Inr []) \<and>
       own a = Inr lent \<and> allow a = Inr True)) \<and>
    (\<forall>j items s al. own j = Inr items \<and> items \<noteq> [] \<longrightarrow> Inherited s al j own = Inr items)"
proof -
  have "Inherited (Some byID) (Some allow) i own = Inr lent \<longleftrightarrow>
      (\<exists>chain. Ancestors byID i = Inr chain \<and> inheritedWalk allow own chain = Inr lent)"
    using assms by (cases "Ancestors byID i") (auto simp: Inherited_def)
  moreover have "Inherited s al j own = Inr items" if "own j = Inr items" "items \<noteq> []" for s al j items
    using that by (simp add: Inherited_def)
  ultimately show ?thesis
    using assms(2) by (auto simp: inheritedWalk_lends_iff)
qed

theorem Inherited_lends_iff_witness:
  "let byID = (\<lambda>k. if k = ''c'' then Inr \<lparr>descID = ''c'', descSlug = '''', descParentID = ''g'', descStatus = StatusActive\<rparr>
                else if k = ''g'' then Inr \<lparr>descID = ''g'', descSlug = '''', descParentID = '''', descStatus = StatusActive\<rparr>
                else Inl ErrNotFound);
       own = (\<lambda>j. if j = FromStored ''g'' then Inr [7::nat] else Inr [])
   in Inherited (Some byID) (Some (\<lambda>_. Inr True)) (NewID ''c'') own = Inr [7]"
proof -
  let ?byID = "\<lambda>k. if k = ''c'' then Inr \<lparr>descID = ''c'', descSlug = '''', descParentID = ''g'', descStatus = StatusActive\<rparr>
                else if k = ''g'' then Inr \<lparr>descID = ''g'', descSlug = '''', descParentID = '''', descStatus = StatusActive\<rparr>
                else Inl ErrNotFound"
  let ?own = "\<lambda>j. if j = FromStored ''g'' then Inr [7::nat] else Inr []"
  have "Ancestors ?byID (NewID ''c'') = Inr ([] @ FromStored ''g'' # [])"
    by (simp add: Ancestors_def ancestorsLoop.simps id_defs maxHierarchyDepth_def)
  then have "\<exists>pre a post. Ancestors ?byID (NewID ''c'') = Inr (pre @ a # post) \<and>
      (\<forall>b\<in>set pre. ?own b = Inr []) \<and> ?own a = Inr [7] \<and> (\<lambda>_. Inr True :: tenant_err + bool) a = Inr True"
    by (intro exI [of _ "[]"] exI [of _ "FromStored ''g''"]) simp
  then show ?thesis
    using Inherited_lends_iff [of ?own "NewID ''c''" "[7]" ?byID "\<lambda>_. Inr True"]
    by (auto simp: id_defs Inherited_def Let_def split: sum.splits)
qed

section \<open>Plans\<close>

lemma UnionE_commute: "UnionE e f = UnionE f e"
  by (auto simp: UnionE_def unionMaxIdPConnections_def IsZero_def)

lemma UnionE_zero [simp]: "IsZero e \<Longrightarrow> UnionE e f = f" "IsZero f \<Longrightarrow> UnionE e f = e"
  by (auto simp: UnionE_def unionMaxIdPConnections_def IsZero_def)

lemma UnionE_nonneg:
  "0 \<le> MaxIdPConnections a \<Longrightarrow> 0 \<le> MaxIdPConnections b \<Longrightarrow> 0 \<le> MaxIdPConnections (UnionE a b)"
  by (simp add: UnionE_def unionMaxIdPConnections_def)

lemma UnionE_not_zero:
  "0 \<le> MaxIdPConnections a \<Longrightarrow> 0 \<le> MaxIdPConnections b \<Longrightarrow> \<not> IsZero a \<Longrightarrow> \<not> IsZero (UnionE a b)"
  by (auto simp: UnionE_def unionMaxIdPConnections_def IsZero_def)

lemma UnionE_cap:
  "0 \<le> MaxIdPConnections a \<Longrightarrow> 0 \<le> MaxIdPConnections b \<Longrightarrow> \<not> IsZero a \<Longrightarrow> \<not> IsZero b \<Longrightarrow>
   MaxIdPConnections (UnionE a b) =
     (if MaxIdPConnections a = 0 \<or> MaxIdPConnections b = 0 then 0
      else max (MaxIdPConnections a) (MaxIdPConnections b))"
  by (auto simp: UnionE_def unionMaxIdPConnections_def)

lemma UnionE_flags [simp]:
  "SSOEnabled (UnionE a b) \<longleftrightarrow> SSOEnabled a \<or> SSOEnabled b"
  "SCIMEnabled (UnionE a b) \<longleftrightarrow> SCIMEnabled a \<or> SCIMEnabled b"
  by (simp_all add: UnionE_def)

lemma UnionE_assoc:
  assumes "0 \<le> MaxIdPConnections a" "0 \<le> MaxIdPConnections b" "0 \<le> MaxIdPConnections c"
  shows "UnionE (UnionE a b) c = UnionE a (UnionE b c)"
proof (cases "IsZero a \<or> IsZero b \<or> IsZero c")
  case True
  then show ?thesis by auto
next
  case False
  then have nz: "\<not> IsZero a" "\<not> IsZero b" "\<not> IsZero c" by auto
  note ab = UnionE_nonneg [OF assms(1,2)] UnionE_not_zero [OF assms(1,2) nz(1)] UnionE_cap [OF assms(1,2) nz(1,2)]
  note bc = UnionE_nonneg [OF assms(2,3)] UnionE_not_zero [OF assms(2,3) nz(2)] UnionE_cap [OF assms(2,3) nz(2,3)]
  have "MaxIdPConnections (UnionE (UnionE a b) c) = MaxIdPConnections (UnionE a (UnionE b c))"
    unfolding UnionE_cap [OF ab(1) assms(3) ab(2) nz(3)] UnionE_cap [OF assms(1) bc(1) nz(1) bc(2)] ab(3) bc(3)
    using assms by auto
  then show ?thesis by (intro Entitlements.equality) auto
qed

lemma UnionE_allows:
  "\<not> IsZero a \<Longrightarrow> AllowsAnotherIdP a n \<Longrightarrow> AllowsAnotherIdP (UnionE a b) n"
  by (auto simp: UnionE_def unionMaxIdPConnections_def AllowsAnotherIdP_def)

text \<open>
  \<^verbatim>\<open>Union\<close> is a widening merge: commutative, with the empty plan as identity, never
  dropping a capability or, for a plan that bought anything, an allowance; on records
  whose cap is not negative it is associative. Idempotence holds exactly there: a
  negative cap, which \<^verbatim>\<open>AllowsAnotherIdP\<close> reads as unlimited, is rewritten to 0.
\<close>

theorem UnionE_laws:
  "UnionE e f = UnionE f e \<and> (IsZero z \<longrightarrow> UnionE z e = e) \<and>
   (UnionE e e = e \<longleftrightarrow> 0 \<le> MaxIdPConnections e) \<and>
   (0 \<le> MaxIdPConnections e \<and> 0 \<le> MaxIdPConnections f \<and> 0 \<le> MaxIdPConnections g \<longrightarrow>
      UnionE (UnionE e f) g = UnionE e (UnionE f g)) \<and>
   (SSOEnabled e \<longrightarrow> SSOEnabled (UnionE e f)) \<and> (SCIMEnabled e \<longrightarrow> SCIMEnabled (UnionE e f)) \<and>
   (\<not> IsZero e \<and> AllowsAnotherIdP e n \<longrightarrow> AllowsAnotherIdP (UnionE e f) n)"
proof -
  have "UnionE e e = e \<longleftrightarrow> 0 \<le> MaxIdPConnections e"
    by (cases e) (auto simp: UnionE_def unionMaxIdPConnections_def IsZero_def)
  moreover have "SSOEnabled e \<longrightarrow> SSOEnabled (UnionE e f)" "SCIMEnabled e \<longrightarrow> SCIMEnabled (UnionE e f)"
    by (simp_all add: UnionE_def)
  ultimately show ?thesis
    using UnionE_commute UnionE_assoc UnionE_allows by auto
qed

theorem UnionE_laws_witness:
  "let e = \<lparr>SSOEnabled = True, SCIMEnabled = False, MaxIdPConnections = 3\<rparr>;
       f = \<lparr>SSOEnabled = False, SCIMEnabled = True, MaxIdPConnections = 0\<rparr>
   in UnionE zeroEntitlements e = e \<and> SSOEnabled (UnionE e f) \<and> AllowsAnotherIdP (UnionE e f) 2 \<and>
      UnionE (UnionE e f) e = UnionE e (UnionE f e)"
  using UnionE_laws [of "\<lparr>SSOEnabled = True, SCIMEnabled = False, MaxIdPConnections = 3\<rparr>"
      "\<lparr>SSOEnabled = False, SCIMEnabled = True, MaxIdPConnections = 0\<rparr>" zeroEntitlements
      "\<lparr>SSOEnabled = True, SCIMEnabled = False, MaxIdPConnections = 3\<rparr>" 2]
  by (simp add: Let_def IsZero_def zeroEntitlements_def AllowsAnotherIdP_def UnionE_def unionMaxIdPConnections_def)

lemma widenAlong_fold:
  "widenAlong forTenant e chain = Inr eff \<longleftrightarrow>
     (\<exists>plans. mapResult forTenant chain = Inr plans \<and> eff = fold (\<lambda>p acc. UnionE acc p) plans e)"
  by (induction chain arbitrary: e) (auto split: sum.splits)

lemma fold_UnionE_widens:
  assumes "0 \<le> MaxIdPConnections e" "\<forall>p\<in>set plans. 0 \<le> MaxIdPConnections p"
  shows "(SSOEnabled (fold (\<lambda>p acc. UnionE acc p) plans e) \<longleftrightarrow> SSOEnabled e \<or> (\<exists>p\<in>set plans. SSOEnabled p)) \<and>
    (SCIMEnabled (fold (\<lambda>p acc. UnionE acc p) plans e) \<longleftrightarrow> SCIMEnabled e \<or> (\<exists>p\<in>set plans. SCIMEnabled p)) \<and>
    (\<not> IsZero e \<and> AllowsAnotherIdP e n \<longrightarrow> AllowsAnotherIdP (fold (\<lambda>p acc. UnionE acc p) plans e) n)"
  using assms
proof (induction plans arbitrary: e)
  case Nil
  then show ?case by simp
next
  case (Cons p plans)
  then have "0 \<le> MaxIdPConnections (UnionE e p)" by (simp add: UnionE_nonneg)
  note IH = Cons.IH [OF this] 
  from Cons.prems IH have "(SSOEnabled (fold (\<lambda>p acc. UnionE acc p) plans (UnionE e p)) \<longleftrightarrow>
      SSOEnabled (UnionE e p) \<or> (\<exists>p\<in>set plans. SSOEnabled p)) \<and>
    (SCIMEnabled (fold (\<lambda>p acc. UnionE acc p) plans (UnionE e p)) \<longleftrightarrow>
      SCIMEnabled (UnionE e p) \<or> (\<exists>p\<in>set plans. SCIMEnabled p)) \<and>
    (\<not> IsZero (UnionE e p) \<and> AllowsAnotherIdP (UnionE e p) n \<longrightarrow>
      AllowsAnotherIdP (fold (\<lambda>p acc. UnionE acc p) plans (UnionE e p)) n)" by simp
  then show ?case
    using UnionE_allows [of e n p] UnionE_not_zero [of e p] Cons.prems by auto
qed

text \<open>
  The inheriting decorator answers exactly when the plan of the tenant, the walk
  and the plan of every ancestor are all readable; then a capability is granted iff
  the tenant or one of its ancestors bought it, and a tenant that bought anything is
  allowed every identity provider its own plan allows.
\<close>

theorem InheritingForTenant_widens:
  assumes "\<And>j p. forTenant j = Inr p \<Longrightarrow> 0 \<le> MaxIdPConnections p"
    and "InheritingForTenant forTenant byID i = Inr eff"
  shows "\<exists>own chain. forTenant i = Inr own \<and> Ancestors byID i = Inr chain \<and>
    (\<forall>a\<in>set chain. \<exists>p. forTenant a = Inr p) \<and>
    (SSOEnabled eff \<longleftrightarrow> (\<exists>a\<in>set (i # chain). \<exists>p. forTenant a = Inr p \<and> SSOEnabled p)) \<and>
    (SCIMEnabled eff \<longleftrightarrow> (\<exists>a\<in>set (i # chain). \<exists>p. forTenant a = Inr p \<and> SCIMEnabled p)) \<and>
    (\<not> IsZero own \<and> AllowsAnotherIdP own n \<longrightarrow> AllowsAnotherIdP eff n)"
proof -
  obtain own chain where own: "forTenant i = Inr own" and chain: "Ancestors byID i = Inr chain"
    and w: "widenAlong forTenant own chain = Inr eff"
    using assms(2) by (auto simp: InheritingForTenant_def split: sum.splits)
  obtain plans where plans: "map forTenant chain = map Inr plans"
    and eff: "eff = fold (\<lambda>p acc. UnionE acc p) plans own"
    using w by (auto simp: widenAlong_fold mapResult_Inr_iff)
  have mem: "(\<exists>a\<in>set chain. forTenant a = Inr p) \<longleftrightarrow> p \<in> set plans" for p
    using arg_cong [OF plans, of set] by (force simp: image_iff set_eq_iff)
  have read: "\<exists>p. forTenant a = Inr p" if "a \<in> set chain" for a
    using arg_cong [OF plans, of set] that by (metis image_iff list.set_map)
  have "0 \<le> MaxIdPConnections p" if "p \<in> set plans" for p
    using that mem assms(1) by blast
  then have "(SSOEnabled eff \<longleftrightarrow> SSOEnabled own \<or> (\<exists>p\<in>set plans. SSOEnabled p)) \<and>
    (SCIMEnabled eff \<longleftrightarrow> SCIMEnabled own \<or> (\<exists>p\<in>set plans. SCIMEnabled p)) \<and>
    (\<not> IsZero own \<and> AllowsAnotherIdP own n \<longrightarrow> AllowsAnotherIdP eff n)"
    unfolding eff using assms(1) own by (intro fold_UnionE_widens) auto
  moreover have "(\<exists>p\<in>set plans. Q p) \<longleftrightarrow> (\<exists>a\<in>set chain. \<exists>p. forTenant a = Inr p \<and> Q p)" for Q
    using mem by blast
  ultimately show ?thesis using own chain read by simp
qed

theorem InheritingForTenant_widens_witness:
  "let byID = (\<lambda>k. if k = ''c'' then Inr \<lparr>descID = ''c'', descSlug = '''', descParentID = ''g'', descStatus = StatusActive\<rparr>
                else if k = ''g'' then Inr \<lparr>descID = ''g'', descSlug = '''', descParentID = '''', descStatus = StatusActive\<rparr>
                else Inl ErrNotFound);
       forTenant = (\<lambda>j. if j = FromStored ''g'' then Inr \<lparr>SSOEnabled = True, SCIMEnabled = False, MaxIdPConnections = 3\<rparr>
                     else Inr zeroEntitlements);
       eff = \<lparr>SSOEnabled = True, SCIMEnabled = False, MaxIdPConnections = 3\<rparr>
   in InheritingForTenant forTenant byID (NewID ''c'') = Inr eff \<and>
      (\<exists>chain. Ancestors byID (NewID ''c'') = Inr chain \<and>
        (\<exists>a\<in>set (NewID ''c'' # chain). \<exists>p. forTenant a = Inr p \<and> SSOEnabled p))"
proof -
  let ?byID = "\<lambda>k. if k = ''c'' then Inr \<lparr>descID = ''c'', descSlug = '''', descParentID = ''g'', descStatus = StatusActive\<rparr>
                else if k = ''g'' then Inr \<lparr>descID = ''g'', descSlug = '''', descParentID = '''', descStatus = StatusActive\<rparr>
                else Inl ErrNotFound"
  let ?for = "\<lambda>j. if j = FromStored ''g'' then Inr \<lparr>SSOEnabled = True, SCIMEnabled = False, MaxIdPConnections = 3\<rparr>
                     else (Inr zeroEntitlements :: tenant_err + Entitlements)"
  let ?eff = "\<lparr>SSOEnabled = True, SCIMEnabled = False, MaxIdPConnections = 3\<rparr>"
  have ok: "InheritingForTenant ?for ?byID (NewID ''c'') = Inr ?eff"
    by (simp add: InheritingForTenant_def Ancestors_def ancestorsLoop.simps id_defs maxHierarchyDepth_def
        UnionE_def unionMaxIdPConnections_def IsZero_def zeroEntitlements_def)
  have caps: "0 \<le> MaxIdPConnections p" if "?for j = Inr p" for j p
    using that by (auto simp: zeroEntitlements_def split: if_splits)
  have "\<exists>own chain. ?for (NewID ''c'') = Inr own \<and> Ancestors ?byID (NewID ''c'') = Inr chain \<and>
    (\<forall>a\<in>set chain. \<exists>p. ?for a = Inr p) \<and>
    (SSOEnabled ?eff \<longleftrightarrow> (\<exists>a\<in>set (NewID ''c'' # chain). \<exists>p. ?for a = Inr p \<and> SSOEnabled p)) \<and>
    (SCIMEnabled ?eff \<longleftrightarrow> (\<exists>a\<in>set (NewID ''c'' # chain). \<exists>p. ?for a = Inr p \<and> SCIMEnabled p)) \<and>
    (\<not> IsZero own \<and> AllowsAnotherIdP own 0 \<longrightarrow> AllowsAnotherIdP ?eff 0)"
    by (rule InheritingForTenant_widens [OF _ ok]) (rule caps)
  then obtain chain where "Ancestors ?byID (NewID ''c'') = Inr chain"
    "\<exists>a\<in>set (NewID ''c'' # chain). \<exists>p. ?for a = Inr p \<and> SSOEnabled p"
    unfolding Entitlements.select_convs by blast
  with ok show ?thesis unfolding Let_def by blast
qed

end
