(* ===== verification/Tenant_Domain.thy ===== *)
theory Tenant_Domain
  imports Tenant_Hierarchy
begin

text \<open>
  Package \<^verbatim>\<open>tenant\<close>, home-realm discovery: which domains may be asked about
  (\<^verbatim>\<open>RequireNormalisedDomain\<close>, \<^verbatim>\<open>IsPublicEmailDomain\<close>), which claims are believed
  (\<^verbatim>\<open>ResolveDomain\<close>, \<^verbatim>\<open>BoundProviderID\<close>; \<^verbatim>\<open>domain.go\<close>), which ancestor's proof lets a
  tenant claim a subdomain (\<^verbatim>\<open>domain_inherit.go\<close>) and the TXT proof itself
  (\<^verbatim>\<open>verify.go\<close>). The \<^verbatim>\<open>DomainStore\<close> methods and the TXT resolver are arguments.

  On byte strings the non-ASCII check and the lowercase check give the same sentinel,
  so lowering is modelled on ASCII and every byte above 127 is refused.
\<close>

section \<open>Normalised and public domains\<close>

definition whitespaceChars :: string where
  "whitespaceChars = [CHR '' '', CHR 0x09, CHR 0x0D, CHR 0x0A]"

definition RequireNormalisedDomain :: "string \<Rightarrow> tenant_err option" where
  "RequireNormalisedDomain domain =
     (if domain = '''' then Some ErrDomainNotNormalised
      else if hasPrefix domain ''@'' then Some ErrDomainNotNormalised
      else if list_ex (\<lambda>c. c \<in> set whitespaceChars) domain then Some ErrDomainNotNormalised
      else if domain \<noteq> toLower domain then Some ErrDomainNotNormalised
      else if list_ex (\<lambda>c. \<not> isAsciiChar c) domain then Some ErrDomainNotNormalised
      else None)"

definition publicEmailDomains :: "string list" where
  "publicEmailDomains =
    [''gmail.com'', ''googlemail.com'',
     ''outlook.com'', ''hotmail.com'', ''hotmail.co.uk'', ''live.com'', ''msn.com'',
     ''yahoo.com'', ''yahoo.co.uk'', ''ymail.com'', ''rocketmail.com'',
     ''icloud.com'', ''me.com'', ''mac.com'',
     ''proton.me'', ''protonmail.com'', ''tutanota.com'', ''fastmail.com'', ''hushmail.com'',
     ''aol.com'', ''gmx.com'', ''gmx.net'', ''mail.com'', ''mail.ru'', ''yandex.com'', ''yandex.ru'',
     ''zoho.com'', ''qq.com'', ''163.com'', ''126.com'', ''naver.com'',
     ''mailinator.com'', ''guerrillamail.com'', ''10minutemail.com'', ''yopmail.com'',
     ''trashmail.com'', ''sharklasers.com'']"

definition IsPublicEmailDomain :: "string \<Rightarrow> bool" where
  "IsPublicEmailDomain domain = (domain \<in> set publicEmailDomains)"

section \<open>Claims\<close>

record DomainRecord =
  drTenantID :: string
  drDomain :: string
  drVerified :: bool
  drProviderID :: string

definition zeroDomainRecord :: DomainRecord where
  "zeroDomainRecord = \<lparr>drTenantID = '''', drDomain = '''', drVerified = False, drProviderID = ''''\<rparr>"

definition BoundProviderID :: "DomainRecord \<Rightarrow> string" where
  "BoundProviderID d = (if \<not> drVerified d then '''' else drProviderID d)"

definition ResolveDomain :: "(string \<Rightarrow> tenant_err + DomainRecord) \<Rightarrow> string \<Rightarrow> tenant_err + DomainRecord" where
  "ResolveDomain byDomain emailDomain =
     (case RequireNormalisedDomain emailDomain of
        Some e \<Rightarrow> Inl e
      | None \<Rightarrow>
          if IsPublicEmailDomain emailDomain then Inl ErrNotFound
          else (case byDomain emailDomain of
              Inl e \<Rightarrow> Inl e
            | Inr rec \<Rightarrow> if \<not> drVerified rec then Inl ErrNotFound else Inr rec))"

definition IsProperSubdomain :: "string \<Rightarrow> string \<Rightarrow> bool" where
  "IsProperSubdomain child parent =
     (if child = '''' \<or> parent = '''' then False
      else child \<noteq> parent \<and> hasSuffix child (''.'' @ parent))"

record DomainAuthority =
  daAncestorID :: ID
  daDomain :: string
  daProviderID :: string

definition confersAuthority :: "string \<Rightarrow> DomainRecord \<Rightarrow> bool" where
  "confersAuthority domain claim =
     (\<not> (\<not> drVerified claim \<or> IsPublicEmailDomain (drDomain claim) \<or>
         \<not> IsProperSubdomain domain (drDomain claim)))"

text \<open>The inner loop: the longest claim that confers authority, the first of equals.\<close>

fun bestClaim :: "string \<Rightarrow> DomainRecord \<Rightarrow> DomainRecord list \<Rightarrow> DomainRecord" where
  "bestClaim domain best [] = best"
| "bestClaim domain best (claim # claims) =
     (if \<not> confersAuthority domain claim then bestClaim domain best claims
      else if length (drDomain claim) > length (drDomain best) then bestClaim domain claim claims
      else bestClaim domain best claims)"

fun authorityAlong :: "(string \<Rightarrow> tenant_err + DomainRecord list) \<Rightarrow> string \<Rightarrow> ID list
    \<Rightarrow> tenant_err + DomainAuthority" where
  "authorityAlong listForTenant domain [] = Inl ErrNotFound"
| "authorityAlong listForTenant domain (a # chain) =
     (case listForTenant (IDString a) of
        Inl e \<Rightarrow> Inl e
      | Inr claims \<Rightarrow>
          let best = bestClaim domain zeroDomainRecord claims in
          if drDomain best \<noteq> ''''
          then Inr \<lparr>daAncestorID = a, daDomain = drDomain best, daProviderID = BoundProviderID best\<rparr>
          else authorityAlong listForTenant domain chain)"

definition InheritedDomainAuthority :: "(string \<Rightarrow> tenant_err + Descriptor)
    \<Rightarrow> (string \<Rightarrow> tenant_err + DomainRecord list) \<Rightarrow> ID \<Rightarrow> string \<Rightarrow> tenant_err + DomainAuthority" where
  "InheritedDomainAuthority byID listForTenant tenantID domain =
     (case RequireNormalisedDomain domain of
        Some e \<Rightarrow> Inl e
      | None \<Rightarrow>
          if IsPublicEmailDomain domain then Inl ErrNotFound
          else (case Ancestors byID tenantID of
              Inl e \<Rightarrow> Inl e
            | Inr chain \<Rightarrow> authorityAlong listForTenant domain chain))"

section \<open>The TXT proof\<close>

definition WithTXTRecordPrefix :: "string \<Rightarrow> string" where
  "WithTXTRecordPrefix pre = trimBoth (\<lambda>c. c = CHR ''.'') pre"

definition VerifyTXT :: "(string \<Rightarrow> 'e + string list) \<Rightarrow> string \<Rightarrow> string \<Rightarrow> string \<Rightarrow> tenant_err option" where
  "VerifyTXT lookupTXT pre domain expectedToken =
     (case RequireNormalisedDomain domain of
        Some e \<Rightarrow> Some e
      | None \<Rightarrow>
          if expectedToken = '''' then Some ErrVerificationFailed
          else let name = (if pre \<noteq> '''' then pre @ ''.'' @ domain else domain) in
            (case lookupTXT name of
               Inl _ \<Rightarrow> Some ErrVerificationFailed
             | Inr records \<Rightarrow>
                 if list_ex (\<lambda>got. trimSpace got = expectedToken) records then None
                 else Some ErrVerificationFailed))"

section \<open>Lemmas\<close>

lemma RequireNormalisedDomain_only:
  "RequireNormalisedDomain d = Some e \<Longrightarrow> e = ErrDomainNotNormalised"
  by (auto simp: RequireNormalisedDomain_def split: if_splits)

lemma IsProperSubdomain_iff:
  "IsProperSubdomain child parent \<longleftrightarrow> parent \<noteq> '''' \<and> (\<exists>label. child = label @ ''.'' @ parent)"
  by (auto simp: IsProperSubdomain_def suffix_def)

lemma confersAuthority_iff:
  "confersAuthority domain c \<longleftrightarrow>
     drVerified c \<and> \<not> IsPublicEmailDomain (drDomain c) \<and> IsProperSubdomain domain (drDomain c)"
  by (auto simp: confersAuthority_def)

lemma confersAuthority_nonempty: "confersAuthority domain c \<Longrightarrow> drDomain c \<noteq> ''''"
  by (auto simp: confersAuthority_iff IsProperSubdomain_def split: if_splits)

lemma bestClaim_cases: "bestClaim domain best claims = best \<or>
   (bestClaim domain best claims \<in> set claims \<and> confersAuthority domain (bestClaim domain best claims))"
  by (induction claims arbitrary: best) (auto split: if_splits, metis+)

lemma bestClaim_longest:
  "length (drDomain best) \<le> length (drDomain (bestClaim domain best claims)) \<and>
   (\<forall>c\<in>set claims. confersAuthority domain c \<longrightarrow>
      length (drDomain c) \<le> length (drDomain (bestClaim domain best claims)))"
proof (induction claims arbitrary: best)
  case Nil
  then show ?case by simp
next
  case (Cons c claims)
  from Cons.IH [of c] Cons.IH [of best] show ?case by (auto intro: order_trans less_imp_le)
qed

lemma bestClaim_empty_iff:
  "drDomain (bestClaim domain zeroDomainRecord claims) = '''' \<longleftrightarrow>
     (\<forall>c\<in>set claims. \<not> confersAuthority domain c)"
proof
  assume "drDomain (bestClaim domain zeroDomainRecord claims) = ''''"
  then show "\<forall>c\<in>set claims. \<not> confersAuthority domain c"
    using bestClaim_longest [of zeroDomainRecord domain claims] confersAuthority_nonempty by fastforce
next
  assume "\<forall>c\<in>set claims. \<not> confersAuthority domain c"
  then show "drDomain (bestClaim domain zeroDomainRecord claims) = ''''"
    using bestClaim_cases [of domain zeroDomainRecord claims] by (auto simp: zeroDomainRecord_def)
qed

text \<open>What it means that an ancestor decides: the nearer ones hold nothing that confers authority.\<close>

definition decidingAncestor :: "(string \<Rightarrow> tenant_err + DomainRecord list) \<Rightarrow> string \<Rightarrow> ID list \<Rightarrow> ID
    \<Rightarrow> DomainRecord list \<Rightarrow> bool" where
  "decidingAncestor listForTenant domain chain a claims \<longleftrightarrow>
     (\<exists>pre post. chain = pre @ a # post \<and>
        (\<forall>b\<in>set pre. \<exists>cs. listForTenant (IDString b) = Inr cs \<and> (\<forall>c\<in>set cs. \<not> confersAuthority domain c)) \<and>
        listForTenant (IDString a) = Inr claims \<and> (\<exists>c\<in>set claims. confersAuthority domain c))"

lemma decidingAncestor_Nil [simp]: "\<not> decidingAncestor l domain [] a claims"
  by (simp add: decidingAncestor_def)

lemma decidingAncestor_Cons:
  "decidingAncestor l domain (b # chain) a claims \<longleftrightarrow>
     (a = b \<and> l (IDString a) = Inr claims \<and> (\<exists>c\<in>set claims. confersAuthority domain c)) \<or>
     (\<exists>cs. l (IDString b) = Inr cs \<and> (\<forall>c\<in>set cs. \<not> confersAuthority domain c) \<and>
        decidingAncestor l domain chain a claims)"
  (is "?L \<longleftrightarrow> ?A \<or> ?B")
proof
  assume ?L
  then obtain pre post where *: "b # chain = pre @ a # post"
    "\<forall>b\<in>set pre. \<exists>cs. l (IDString b) = Inr cs \<and> (\<forall>c\<in>set cs. \<not> confersAuthority domain c)"
    "l (IDString a) = Inr claims" "\<exists>c\<in>set claims. confersAuthority domain c"
    unfolding decidingAncestor_def by blast
  show "?A \<or> ?B"
  proof (cases pre)
    case Nil
    with * show ?thesis by auto
  next
    case (Cons p pre')
    with * have "decidingAncestor l domain chain a claims"
      unfolding decidingAncestor_def by (intro exI [of _ pre'] exI [of _ post]) auto
    with * Cons show ?thesis by auto
  qed
next
  assume "?A \<or> ?B"
  then show ?L
  proof
    assume ?A
    then show ?L unfolding decidingAncestor_def by (intro exI [of _ "[]"] exI [of _ chain]) auto
  next
    assume ?B
    then obtain pre post where "b # chain = (b # pre) @ a # post"
      "\<forall>b\<in>set (b # pre). \<exists>cs. l (IDString b) = Inr cs \<and> (\<forall>c\<in>set cs. \<not> confersAuthority domain c)"
      "l (IDString a) = Inr claims" "\<exists>c\<in>set claims. confersAuthority domain c"
      unfolding decidingAncestor_def by auto
    then show ?L unfolding decidingAncestor_def by blast
  qed
qed

lemma authorityAlong_iff:
  "authorityAlong l domain chain = Inr auth \<longleftrightarrow>
     (\<exists>a claims. decidingAncestor l domain chain a claims \<and>
        auth = \<lparr>daAncestorID = a, daDomain = drDomain (bestClaim domain zeroDomainRecord claims),
                daProviderID = BoundProviderID (bestClaim domain zeroDomainRecord claims)\<rparr>)"
proof (induction chain)
  case Nil
  then show ?case by simp
next
  case (Cons b chain)
  show ?case
  proof (cases "l (IDString b)")
    case (Inl e)
    then show ?thesis by (simp add: decidingAncestor_Cons)
  next
    case (Inr cs)
    show ?thesis
    proof (cases "\<exists>c\<in>set cs. confersAuthority domain c")
      case True
      then have "decidingAncestor l domain (b # chain) a claims \<longleftrightarrow> a = b \<and> claims = cs" for a claims
        using Inr by (auto simp: decidingAncestor_Cons)
      with True Inr show ?thesis
        using bestClaim_empty_iff [of domain cs] by (auto simp: Let_def)
    next
      case False
      then have "decidingAncestor l domain (b # chain) a claims \<longleftrightarrow> decidingAncestor l domain chain a claims"
        for a claims using Inr by (auto simp: decidingAncestor_Cons)
      with False Inr Cons.IH show ?thesis
        using bestClaim_empty_iff [of domain cs] by (simp add: Let_def)
    qed
  qed
qed

section \<open>Properties\<close>

text \<open>
  C2. Inherited domain authority. An answer names the nearest ancestor that holds
  any proven, non-public domain strictly above the asked name; the domain is one of
  that ancestor's own such claims and no other is longer; its provider is that
  claim's binding. The asked name itself is normalised and not public.
\<close>

theorem InheritedDomainAuthority_sound:
  assumes "InheritedDomainAuthority byID listForTenant t domain = Inr auth"
  shows "RequireNormalisedDomain domain = None \<and> \<not> IsPublicEmailDomain domain \<and>
    (\<exists>chain claims c. Ancestors byID t = Inr chain \<and>
       decidingAncestor listForTenant domain chain (daAncestorID auth) claims \<and>
       c \<in> set claims \<and> drVerified c \<and> \<not> IsPublicEmailDomain (drDomain c) \<and>
       (\<exists>label. domain = label @ ''.'' @ drDomain c) \<and>
       daDomain auth = drDomain c \<and> daProviderID auth = drProviderID c \<and>
       (\<forall>c'\<in>set claims. confersAuthority domain c' \<longrightarrow> length (drDomain c') \<le> length (drDomain c)))"
proof -
  obtain chain where ok: "RequireNormalisedDomain domain = None" "\<not> IsPublicEmailDomain domain"
      "Ancestors byID t = Inr chain" "authorityAlong listForTenant domain chain = Inr auth"
    using assms by (auto simp: InheritedDomainAuthority_def split: option.splits if_splits sum.splits)
  then obtain a claims where a: "decidingAncestor listForTenant domain chain a claims"
    and auth: "auth = \<lparr>daAncestorID = a, daDomain = drDomain (bestClaim domain zeroDomainRecord claims),
                daProviderID = BoundProviderID (bestClaim domain zeroDomainRecord claims)\<rparr>"
    by (auto simp: authorityAlong_iff)
  let ?c = "bestClaim domain zeroDomainRecord claims"
  have "drDomain ?c \<noteq> ''''"
    using a bestClaim_empty_iff unfolding decidingAncestor_def by blast
  then have c: "?c \<in> set claims" "confersAuthority domain ?c"
    using bestClaim_cases [of domain zeroDomainRecord claims] by (auto simp: zeroDomainRecord_def)
  have "\<forall>c'\<in>set claims. confersAuthority domain c' \<longrightarrow> length (drDomain c') \<le> length (drDomain ?c)"
    using bestClaim_longest by blast
  with ok a c auth show ?thesis
    by (auto simp: confersAuthority_iff IsProperSubdomain_iff BoundProviderID_def intro!: exI [of _ chain] exI [of _ claims])
qed

definition exampleHierarchy :: "string \<Rightarrow> tenant_err + Descriptor" where
  "exampleHierarchy k =
     (if k = ''c'' then Inr \<lparr>descID = ''c'', descSlug = '''', descParentID = ''g'', descStatus = StatusActive\<rparr>
      else if k = ''g'' then Inr \<lparr>descID = ''g'', descSlug = '''', descParentID = '''', descStatus = StatusActive\<rparr>
      else Inl ErrNotFound)"

lemma exampleHierarchy_chain: "Ancestors exampleHierarchy (NewID ''c'') = Inr [FromStored ''g'']"
  by (simp add: Ancestors_def ancestorsLoop.simps exampleHierarchy_def id_defs maxHierarchyDepth_def)

theorem InheritedDomainAuthority_sound_witness:
  "let rows = [\<lparr>drTenantID = ''g'', drDomain = ''a.io'', drVerified = True, drProviderID = ''idp''\<rparr>,
               \<lparr>drTenantID = ''g'', drDomain = ''x.a.io'', drVerified = False, drProviderID = ''bad''\<rparr>];
       auth = \<lparr>daAncestorID = FromStored ''g'', daDomain = ''a.io'', daProviderID = ''idp''\<rparr>
   in InheritedDomainAuthority exampleHierarchy (\<lambda>_. Inr rows) (NewID ''c'') ''y.x.a.io'' = Inr auth \<and>
      \<not> IsPublicEmailDomain ''y.x.a.io''"
proof -
  let ?rows = "[\<lparr>drTenantID = ''g'', drDomain = ''a.io'', drVerified = True, drProviderID = ''idp''\<rparr>,
               \<lparr>drTenantID = ''g'', drDomain = ''x.a.io'', drVerified = False, drProviderID = ''bad''\<rparr>]"
  have "InheritedDomainAuthority exampleHierarchy (\<lambda>_. Inr ?rows) (NewID ''c'') ''y.x.a.io'' =
      Inr \<lparr>daAncestorID = FromStored ''g'', daDomain = ''a.io'', daProviderID = ''idp''\<rparr>"
    by (simp add: InheritedDomainAuthority_def exampleHierarchy_chain RequireNormalisedDomain_def
        IsPublicEmailDomain_def publicEmailDomains_def whitespaceChars_def toLower_def lowerChar_def
        isAsciiChar_def confersAuthority_def IsProperSubdomain_def zeroDomainRecord_def BoundProviderID_def
        suffix_def)
  with InheritedDomainAuthority_sound [OF this] show ?thesis by (simp add: Let_def)
qed

text \<open>
  Home-realm discovery believes proven claims only. \<^verbatim>\<open>ResolveDomain\<close> answers a
  record exactly when the name is normalised, not public, claimed and verified; and a
  public name, a missing claim and an unverified claim give one and the same error.
\<close>

theorem ResolveDomain_iff:
  "(ResolveDomain byDomain d = Inr rec \<longleftrightarrow>
      RequireNormalisedDomain d = None \<and> \<not> IsPublicEmailDomain d \<and> byDomain d = Inr rec \<and> drVerified rec) \<and>
   (RequireNormalisedDomain d = None \<and>
      (IsPublicEmailDomain d \<or> byDomain d = Inl ErrNotFound \<or> (\<exists>r. byDomain d = Inr r \<and> \<not> drVerified r)) \<longrightarrow>
      ResolveDomain byDomain d = Inl ErrNotFound)"
  by (auto simp: ResolveDomain_def split: option.splits sum.splits)

theorem ResolveDomain_iff_witness:
  "ResolveDomain (\<lambda>_. Inr \<lparr>drTenantID = ''t'', drDomain = ''a.io'', drVerified = False, drProviderID = ''p''\<rparr>) ''a.io''
     = Inl ErrNotFound"
proof -
  have "RequireNormalisedDomain ''a.io'' = None"
    by (simp add: RequireNormalisedDomain_def whitespaceChars_def toLower_def lowerChar_def isAsciiChar_def)
  then show ?thesis
    using ResolveDomain_iff [of "\<lambda>_. Inr \<lparr>drTenantID = ''t'', drDomain = ''a.io'', drVerified = False, drProviderID = ''p''\<rparr>" "''a.io''"]
    by simp
qed

end
