(* ===== verification/Authz_Policy.thy ===== *)
theory Authz_Policy
  imports Tenant_Id
begin

text \<open>
  Package \<^verbatim>\<open>authz\<close>, the vocabulary of the decision point: subjects, resources and
  decisions with the tenant gates (\<^verbatim>\<open>authz.go\<close>), role ladders and policies with their
  boot-time validation (\<^verbatim>\<open>policy.go\<close>), bindings and the in-memory \<^verbatim>\<open>BindingStore\<close>
  (\<^verbatim>\<open>store.go\<close>, \<^verbatim>\<open>memstore.go\<close>). The isolation contract of \<^verbatim>\<open>BindingStore\<close> is the locale
  \<^verbatim>\<open>binding_store\<close>, interpreted on \<^verbatim>\<open>MemStore\<close>.
\<close>

section \<open>Questions and answers\<close>

datatype authz_err =
    ErrTenantRequired
  | ErrPolicyConfig
  | ErrUnknownAction
  | ErrBindingStore string

record Subject =
  subTenant :: ID
  subType :: string
  subID :: string

record Resource =
  resType :: string
  resID :: string

type_synonym Action = string
type_synonym Role = string

record CheckRequest =
  crSubject :: Subject
  crAction :: Action
  crResource :: Resource

text \<open>The reason of a decision, without its prose: which sentence it is and what it names.\<close>

datatype decision_reason =
    UnknownAction Action
  | RoleSatisfies Role Resource Action Role
  | NoRequirement Action Resource
  | EmptyAction
  | SuperuserAllows Resource Action
  | PermissionHeld Action Resource
  | PermissionNotHeld Action Resource

record Decision =
  Allowed :: bool
  Reason :: decision_reason

definition scopeGate :: "ID \<Rightarrow> authz_err option" where
  "scopeGate tenantID = (if \<not> Valid tenantID then Some ErrTenantRequired else None)"

definition gate :: "ID \<Rightarrow> Subject \<Rightarrow> authz_err option" where
  "gate tenantID sub =
     (case scopeGate tenantID of
        Some e \<Rightarrow> Some e
      | None \<Rightarrow> if \<not> Valid (subTenant sub) then Some ErrTenantRequired else None)"

section \<open>Role ladders and policies\<close>

type_synonym Hierarchy = "(string, Role list) go_map"

fun rankFrom :: "nat \<Rightarrow> Role list \<Rightarrow> Role \<Rightarrow> nat" where
  "rankFrom i [] r = 0"
| "rankFrom i (candidate # ladder) r = (if candidate = r then i + 1 else rankFrom (i + 1) ladder r)"

definition rank :: "Hierarchy \<Rightarrow> string \<Rightarrow> Role \<Rightarrow> nat" where
  "rank h resourceType r =
     (case map_of h resourceType of None \<Rightarrow> 0 | Some ladder \<Rightarrow> rankFrom 0 ladder r)"

record Requirement =
  reqType :: string
  reqMin :: Role

type_synonym Policy = "(Action, Requirement list) go_map"

fun ladderOk :: "Role list \<Rightarrow> Role list \<Rightarrow> bool" where
  "ladderOk seen [] = True"
| "ladderOk seen (r # ladder) = (if r = '''' then False else if r \<in> set seen then False
     else ladderOk (r # seen) ladder)"

definition requirementOk :: "Hierarchy \<Rightarrow> Requirement \<Rightarrow> bool" where
  "requirementOk h req =
     (if map_of h (reqType req) = None then False
      else if rank h (reqType req) (reqMin req) = 0 then False else True)"

definition validate :: "Hierarchy \<Rightarrow> Policy \<Rightarrow> authz_err option" where
  "validate h p =
     (if list_ex (\<lambda>(resourceType, ladder). resourceType = '''' \<or> ladder = [] \<or> \<not> ladderOk [] ladder) h
      then Some ErrPolicyConfig
      else if list_ex (\<lambda>(action, reqs). action = '''' \<or> reqs = [] \<or> list_ex (\<lambda>req. \<not> requirementOk h req) reqs) p
      then Some ErrPolicyConfig
      else None)"

section \<open>Bindings\<close>

record Binding =
  bTenant :: ID
  bSubject :: Subject
  bResource :: Resource
  bRole :: Role

record BindingStore =
  BindingsFor :: "ID \<Rightarrow> Subject \<Rightarrow> Resource \<Rightarrow> authz_err + Binding list"
  BindingsForSubject :: "ID \<Rightarrow> Subject \<Rightarrow> string \<Rightarrow> authz_err + Binding list"
  BindingsOnResource :: "ID \<Rightarrow> Resource \<Rightarrow> authz_err + Binding list"

text \<open>\<^verbatim>\<open>MemStore\<close> is the slice of bindings under its lock.\<close>

type_synonym BindingMem = "Binding list"

definition GrantBinding :: "BindingMem \<Rightarrow> Binding \<Rightarrow> authz_err option \<times> BindingMem" where
  "GrantBinding m b =
     (case gate (bTenant b) (bSubject b) of
        Some e \<Rightarrow> (Some e, m)
      | None \<Rightarrow> if b \<in> set m then (None, m) else (None, m @ [b]))"

definition RevokeBinding :: "BindingMem \<Rightarrow> Binding \<Rightarrow> authz_err option \<times> BindingMem" where
  "RevokeBinding m b =
     (case gate (bTenant b) (bSubject b) of
        Some e \<Rightarrow> (Some e, m)
      | None \<Rightarrow> (None, filter (\<lambda>existing. existing \<noteq> b) m))"

text \<open>The constructor grants its seeds in order; \<^verbatim>\<open>None\<close> is its panic on a broken seed.\<close>

fun grantSeeds :: "BindingMem \<Rightarrow> Binding list \<Rightarrow> BindingMem option" where
  "grantSeeds m [] = Some m"
| "grantSeeds m (b # bs) = (case GrantBinding m b of (Some e, _) \<Rightarrow> None | (None, m') \<Rightarrow> grantSeeds m' bs)"

definition NewBindingMem :: "Binding list \<Rightarrow> BindingMem option" where
  "NewBindingMem bindings = grantSeeds [] bindings"

definition memBindingsFor :: "BindingMem \<Rightarrow> ID \<Rightarrow> Subject \<Rightarrow> Resource \<Rightarrow> authz_err + Binding list" where
  "memBindingsFor m tenantID sub res =
     (case gate tenantID sub of
        Some e \<Rightarrow> Inl e
      | None \<Rightarrow> Inr (filter (\<lambda>b. bTenant b = tenantID \<and> bSubject b = sub \<and> bResource b = res) m))"

definition memBindingsForSubject :: "BindingMem \<Rightarrow> ID \<Rightarrow> Subject \<Rightarrow> string \<Rightarrow> authz_err + Binding list" where
  "memBindingsForSubject m tenantID sub resourceType =
     (case gate tenantID sub of
        Some e \<Rightarrow> Inl e
      | None \<Rightarrow> Inr (filter (\<lambda>b. bTenant b = tenantID \<and> bSubject b = sub \<and>
          resType (bResource b) = resourceType \<and> resID (bResource b) \<noteq> '''') m))"

definition memBindingsOnResource :: "BindingMem \<Rightarrow> ID \<Rightarrow> Resource \<Rightarrow> authz_err + Binding list" where
  "memBindingsOnResource m tenantID res =
     (case scopeGate tenantID of
        Some e \<Rightarrow> Inl e
      | None \<Rightarrow> Inr (filter (\<lambda>b. bTenant b = tenantID \<and> bResource b = res) m))"

definition memBindingStore :: "BindingMem \<Rightarrow> BindingStore" where
  "memBindingStore m = \<lparr>BindingsFor = memBindingsFor m,
     BindingsForSubject = memBindingsForSubject m, BindingsOnResource = memBindingsOnResource m\<rparr>"

text \<open>What can be in a store: duplicate-free bindings that name their scope and a home tenant.\<close>

definition bindingMemInv :: "BindingMem \<Rightarrow> bool" where
  "bindingMemInv m \<longleftrightarrow> distinct m \<and> (\<forall>b\<in>set m. gate (bTenant b) (bSubject b) = None)"

section \<open>Lemmas\<close>

lemma scopeGate_None [simp]: "scopeGate t = None \<longleftrightarrow> Valid t"
  by (simp add: scopeGate_def)

lemma scopeGate_Some [simp]: "scopeGate t = Some e \<longleftrightarrow> \<not> Valid t \<and> e = ErrTenantRequired"
  by (auto simp: scopeGate_def)

lemma gate_None [simp]: "gate t sub = None \<longleftrightarrow> Valid t \<and> Valid (subTenant sub)"
  by (auto simp: gate_def scopeGate_def)

lemma gate_Some [simp]: "gate t sub = Some e \<longleftrightarrow> \<not> (Valid t \<and> Valid (subTenant sub)) \<and> e = ErrTenantRequired"
  by (auto simp: gate_def scopeGate_def)

lemma gate_eq: "gate t sub = (if Valid t \<and> Valid (subTenant sub) then None else Some ErrTenantRequired)"
  by (simp add: gate_def scopeGate_def)

lemma rankFrom_pos: "rankFrom i ladder r > 0 \<longleftrightarrow> r \<in> set ladder"
  by (induction ladder arbitrary: i) auto

lemma rankFrom_nth:
  "distinct ladder \<Longrightarrow> k < length ladder \<Longrightarrow> rankFrom i ladder (ladder ! k) = i + k + 1"
proof (induction ladder arbitrary: i k)
  case (Cons a ladder)
  then show ?case by (cases k) auto
qed simp

lemma ladderOk_iff: "ladderOk seen ladder \<longleftrightarrow> '''' \<notin> set ladder \<and> distinct ladder \<and> set seen \<inter> set ladder = {}"
  by (induction ladder arbitrary: seen) auto

lemma requirementOk_iff: "requirementOk h req \<longleftrightarrow> rank h (reqType req) (reqMin req) > 0"
  by (auto simp: requirementOk_def rank_def)

lemma validate_None_iff:
  "validate h p = None \<longleftrightarrow>
     (\<forall>(t, ladder)\<in>set h. t \<noteq> '''' \<and> ladder \<noteq> [] \<and> '''' \<notin> set ladder \<and> distinct ladder) \<and>
     (\<forall>(a, reqs)\<in>set p. a \<noteq> '''' \<and> reqs \<noteq> [] \<and> (\<forall>req\<in>set reqs. rank h (reqType req) (reqMin req) > 0))"
  unfolding validate_def list_ex_iff requirementOk_iff
  by (auto simp: ladderOk_iff split_beta)

lemma validate_rank_pos:
  assumes "validate h p = None" "map_of p act = Some reqs" "req \<in> set reqs"
  shows "rank h (reqType req) (reqMin req) > 0"
  using assms map_of_SomeD by (fastforce simp: validate_None_iff)

lemma bindingMemInv_Grant [simp]: "bindingMemInv m \<Longrightarrow> bindingMemInv (snd (GrantBinding m b))"
  by (auto simp: bindingMemInv_def GrantBinding_def split: option.splits)

lemma bindingMemInv_Revoke [simp]: "bindingMemInv m \<Longrightarrow> bindingMemInv (snd (RevokeBinding m b))"
  by (auto simp: bindingMemInv_def RevokeBinding_def split: option.splits)

lemma grantSeeds_inv: "bindingMemInv m \<Longrightarrow> grantSeeds m bs = Some m' \<Longrightarrow> bindingMemInv m'"
proof (induction bs arbitrary: m)
  case (Cons b bs)
  obtain r m1 where g: "GrantBinding m b = (r, m1)" by fastforce
  with bindingMemInv_Grant [OF Cons.prems(1), of b] have "bindingMemInv m1" by simp
  with Cons g show ?case by (auto split: option.splits)
qed simp

section \<open>The isolation contract of a binding store\<close>

text \<open>
  \<^verbatim>\<open>held s\<close> is the set of bindings a state stands for. The three queries answer
  exactly the slice of it their arguments name, and refuse a question without tenants.
\<close>

locale binding_store =
  fixes inv :: "'s \<Rightarrow> bool"
    and held :: "'s \<Rightarrow> Binding set"
    and ops :: "'s \<Rightarrow> BindingStore"
  assumes held_tenants: "\<lbrakk>inv s; b \<in> held s\<rbrakk> \<Longrightarrow> Valid (bTenant b) \<and> Valid (subTenant (bSubject b))"
    and forOk: "\<lbrakk>inv s; Valid t; Valid (subTenant sub)\<rbrakk> \<Longrightarrow>
      \<exists>bs. BindingsFor (ops s) t sub res = Inr bs \<and>
        set bs = {b \<in> held s. bTenant b = t \<and> bSubject b = sub \<and> bResource b = res}"
    and forSubjectOk: "\<lbrakk>inv s; Valid t; Valid (subTenant sub)\<rbrakk> \<Longrightarrow>
      \<exists>bs. BindingsForSubject (ops s) t sub rt = Inr bs \<and>
        set bs = {b \<in> held s. bTenant b = t \<and> bSubject b = sub \<and>
                    resType (bResource b) = rt \<and> resID (bResource b) \<noteq> ''''}"
    and onResourceOk: "\<lbrakk>inv s; Valid t\<rbrakk> \<Longrightarrow>
      \<exists>bs. BindingsOnResource (ops s) t res = Inr bs \<and>
        set bs = {b \<in> held s. bTenant b = t \<and> bResource b = res}"

interpretation mem_bindings: binding_store bindingMemInv set memBindingStore
proof unfold_locales
  fix m :: BindingMem and t and sub :: Subject and res
  assume "Valid t" "Valid (subTenant sub)"
  then show "\<exists>bs. BindingsFor (memBindingStore m) t sub res = Inr bs \<and>
      set bs = {b \<in> set m. bTenant b = t \<and> bSubject b = sub \<and> bResource b = res}"
    by (simp add: memBindingStore_def memBindingsFor_def gate_eq)
next
  fix m :: BindingMem and t and sub :: Subject and rt
  assume "Valid t" "Valid (subTenant sub)"
  then show "\<exists>bs. BindingsForSubject (memBindingStore m) t sub rt = Inr bs \<and>
      set bs = {b \<in> set m. bTenant b = t \<and> bSubject b = sub \<and>
                  resType (bResource b) = rt \<and> resID (bResource b) \<noteq> ''''}"
    by (simp add: memBindingStore_def memBindingsForSubject_def gate_eq)
next
  fix m :: BindingMem and t res
  assume "Valid t"
  then show "\<exists>bs. BindingsOnResource (memBindingStore m) t res = Inr bs \<and>
      set bs = {b \<in> set m. bTenant b = t \<and> bResource b = res}"
    by (simp add: memBindingStore_def memBindingsOnResource_def scopeGate_def)
qed (auto simp: bindingMemInv_def)

end
