(* ===== verification/Authz_RBAC.thy ===== *)
theory Authz_RBAC
  imports Authz_Policy
begin

text \<open>
  Package \<^verbatim>\<open>authz\<close>, the RBAC engine (\<^verbatim>\<open>rbac.go\<close>): scoped roles over a pluggable
  \<^verbatim>\<open>BindingStore\<close>. The store is a record of functions inside the engine's own record, so
  the engine can be studied over a store that breaks its contract as well as over one
  that keeps it. The de-duplication maps of the listings hold exactly the elements of
  the result slice, so membership in the slice stands for them.

  The interface every engine offers is the locale \<^verbatim>\<open>authorizer\<close>.
\<close>

section \<open>The engine\<close>

record RBAC =
  rbStore :: BindingStore
  rbH :: Hierarchy
  rbP :: Policy

definition NewRBAC :: "BindingStore option \<Rightarrow> Hierarchy \<Rightarrow> Policy \<Rightarrow> authz_err + RBAC" where
  "NewRBAC store h p =
     (case store of
        None \<Rightarrow> Inl ErrPolicyConfig
      | Some st \<Rightarrow> (case validate h p of Some e \<Rightarrow> Inl e | None \<Rightarrow> Inr \<lparr>rbStore = st, rbH = h, rbP = p\<rparr>))"

fun bestBinding :: "Hierarchy \<Rightarrow> ID \<Rightarrow> Subject \<Rightarrow> Resource \<Rightarrow> Role \<Rightarrow> nat \<Rightarrow> Binding list \<Rightarrow> Role \<times> nat" where
  "bestBinding h tenantID sub res bestRole best [] = (bestRole, best)"
| "bestBinding h tenantID sub res bestRole best (b # bs) =
     (if bTenant b \<noteq> tenantID \<or> bSubject b \<noteq> sub \<or> bResource b \<noteq> res
      then bestBinding h tenantID sub res bestRole best bs
      else let r = rank h (resType res) (bRole b) in
        if r > best then bestBinding h tenantID sub res (bRole b) r bs
        else bestBinding h tenantID sub res bestRole best bs)"

definition effective :: "RBAC \<Rightarrow> ID \<Rightarrow> Subject \<Rightarrow> Resource \<Rightarrow> authz_err + Role \<times> nat" where
  "effective e tenantID sub res =
     (case BindingsFor (rbStore e) tenantID sub res of
        Inl err \<Rightarrow> Inl err
      | Inr bs \<Rightarrow> Inr (bestBinding (rbH e) tenantID sub res '''' 0 bs))"

text \<open>The resource a requirement is asked on: the one checked, or the singleton of another type.\<close>

definition targetOf :: "Requirement \<Rightarrow> Resource \<Rightarrow> Resource" where
  "targetOf req res =
     (if reqType req \<noteq> resType res then \<lparr>resType = reqType req, resID = ''''\<rparr> else res)"

fun checkRequirements :: "RBAC \<Rightarrow> ID \<Rightarrow> Subject \<Rightarrow> Action \<Rightarrow> Resource \<Rightarrow> Requirement list
    \<Rightarrow> authz_err + Decision" where
  "checkRequirements e tenantID sub act res [] = Inr \<lparr>Allowed = False, Reason = NoRequirement act res\<rparr>"
| "checkRequirements e tenantID sub act res (req # reqs) =
     (case effective e tenantID sub (targetOf req res) of
        Inl err \<Rightarrow> Inl err
      | Inr (role, r) \<Rightarrow>
          if r \<ge> rank (rbH e) (reqType req) (reqMin req)
          then Inr \<lparr>Allowed = True, Reason = RoleSatisfies role (targetOf req res) act (reqMin req)\<rparr>
          else checkRequirements e tenantID sub act res reqs)"

definition Check :: "RBAC \<Rightarrow> ID \<Rightarrow> Subject \<Rightarrow> Action \<Rightarrow> Resource \<Rightarrow> authz_err + Decision" where
  "Check e tenantID sub act res =
     (case gate tenantID sub of
        Some err \<Rightarrow> Inl err
      | None \<Rightarrow> (case map_of (rbP e) act of
          None \<Rightarrow> Inr \<lparr>Allowed = False, Reason = UnknownAction act\<rparr>
        | Some reqs \<Rightarrow> checkRequirements e tenantID sub act res reqs))"

definition CheckBulk :: "RBAC \<Rightarrow> ID \<Rightarrow> CheckRequest list \<Rightarrow> authz_err + Decision list" where
  "CheckBulk e tenantID reqs =
     (case scopeGate tenantID of
        Some err \<Rightarrow> Inl err
      | None \<Rightarrow> mapResult (\<lambda>r. Check e tenantID (crSubject r) (crAction r) (crResource r)) reqs)"

fun scanRequirements :: "RBAC \<Rightarrow> ID \<Rightarrow> Subject \<Rightarrow> string \<Rightarrow> bool \<Rightarrow> nat \<Rightarrow> Requirement list
    \<Rightarrow> authz_err + bool \<times> nat" where
  "scanRequirements e tenantID sub resourceType unbounded lowest [] = Inr (unbounded, lowest)"
| "scanRequirements e tenantID sub resourceType unbounded lowest (req # reqs) =
     (if reqType req = resourceType
      then let r = rank (rbH e) resourceType (reqMin req) in
        scanRequirements e tenantID sub resourceType unbounded
          (if lowest = 0 \<or> r < lowest then r else lowest) reqs
      else if unbounded
      then scanRequirements e tenantID sub resourceType unbounded lowest reqs
      else (case effective e tenantID sub \<lparr>resType = reqType req, resID = ''''\<rparr> of
          Inl err \<Rightarrow> Inl err
        | Inr (role, r) \<Rightarrow> scanRequirements e tenantID sub resourceType
            (r \<ge> rank (rbH e) (reqType req) (reqMin req)) lowest reqs))"

fun collectResources :: "Hierarchy \<Rightarrow> ID \<Rightarrow> Subject \<Rightarrow> string \<Rightarrow> nat \<Rightarrow> Resource list \<Rightarrow> Binding list
    \<Rightarrow> Resource list" where
  "collectResources h tenantID sub resourceType lowest out [] = out"
| "collectResources h tenantID sub resourceType lowest out (b # bs) =
     (if bTenant b \<noteq> tenantID \<or> bSubject b \<noteq> sub \<or> resType (bResource b) \<noteq> resourceType \<or>
         resID (bResource b) = ''''
      then collectResources h tenantID sub resourceType lowest out bs
      else if rank h resourceType (bRole b) \<ge> lowest \<and> bResource b \<notin> set out
      then collectResources h tenantID sub resourceType lowest (out @ [bResource b]) bs
      else collectResources h tenantID sub resourceType lowest out bs)"

definition ListResources :: "RBAC \<Rightarrow> ID \<Rightarrow> Subject \<Rightarrow> Action \<Rightarrow> string \<Rightarrow> authz_err + Resource list \<times> bool" where
  "ListResources e tenantID sub act resourceType =
     (case gate tenantID sub of
        Some err \<Rightarrow> Inl err
      | None \<Rightarrow> (case map_of (rbP e) act of
          None \<Rightarrow> Inl ErrUnknownAction
        | Some reqs \<Rightarrow> (case scanRequirements e tenantID sub resourceType False 0 reqs of
            Inl err \<Rightarrow> Inl err
          | Inr (unbounded, lowest) \<Rightarrow>
              if lowest = 0 then Inr ([], unbounded)
              else (case BindingsForSubject (rbStore e) tenantID sub resourceType of
                  Inl err \<Rightarrow> Inl err
                | Inr bs \<Rightarrow> Inr (sort_key resID
                    (collectResources (rbH e) tenantID sub resourceType lowest [] bs), unbounded)))))"

fun collectSubjects :: "Hierarchy \<Rightarrow> ID \<Rightarrow> Resource \<Rightarrow> nat \<Rightarrow> Subject list \<Rightarrow> Binding list
    \<Rightarrow> authz_err + Subject list" where
  "collectSubjects h tenantID target minRank out [] = Inr out"
| "collectSubjects h tenantID target minRank out (b # bs) =
     (if bTenant b \<noteq> tenantID \<or> bResource b \<noteq> target
      then collectSubjects h tenantID target minRank out bs
      else if rank h (resType target) (bRole b) < minRank \<or> bSubject b \<in> set out
      then collectSubjects h tenantID target minRank out bs
      else if \<not> Valid (subTenant (bSubject b)) then Inl ErrTenantRequired
      else collectSubjects h tenantID target minRank (out @ [bSubject b]) bs)"

fun subjectsAlong :: "RBAC \<Rightarrow> ID \<Rightarrow> Resource \<Rightarrow> Subject list \<Rightarrow> Requirement list \<Rightarrow> authz_err + Subject list" where
  "subjectsAlong e tenantID res out [] = Inr out"
| "subjectsAlong e tenantID res out (req # reqs) =
     (case BindingsOnResource (rbStore e) tenantID (targetOf req res) of
        Inl err \<Rightarrow> Inl err
      | Inr bs \<Rightarrow> (case collectSubjects (rbH e) tenantID (targetOf req res)
            (rank (rbH e) (reqType req) (reqMin req)) out bs of
          Inl err \<Rightarrow> Inl err
        | Inr out' \<Rightarrow> subjectsAlong e tenantID res out' reqs))"

definition sortSubjects :: "Subject list \<Rightarrow> Subject list" where
  "sortSubjects = sort_key (\<lambda>s. (subType s, subID s, IDString (subTenant s)))"

definition ListSubjects :: "RBAC \<Rightarrow> ID \<Rightarrow> Action \<Rightarrow> Resource \<Rightarrow> authz_err + Subject list \<times> bool" where
  "ListSubjects e tenantID act res =
     (case scopeGate tenantID of
        Some err \<Rightarrow> Inl err
      | None \<Rightarrow> (case map_of (rbP e) act of
          None \<Rightarrow> Inl ErrUnknownAction
        | Some reqs \<Rightarrow> (case subjectsAlong e tenantID res [] reqs of
            Inl err \<Rightarrow> Inl err
          | Inr out \<Rightarrow> Inr (sortSubjects out, False))))"

section \<open>The specification: what a set of bindings grants\<close>

definition grants :: "Binding set \<Rightarrow> Hierarchy \<Rightarrow> Requirement \<Rightarrow> ID \<Rightarrow> Subject \<Rightarrow> Resource \<Rightarrow> bool" where
  "grants B h req tenantID sub res \<longleftrightarrow>
     (\<exists>b\<in>B. bTenant b = tenantID \<and> bSubject b = sub \<and> bResource b = targetOf req res \<and>
        rank h (reqType req) (reqMin req) \<le> rank h (reqType req) (bRole b))"

definition permitted :: "Binding set \<Rightarrow> Hierarchy \<Rightarrow> Policy \<Rightarrow> ID \<Rightarrow> Subject \<Rightarrow> Action \<Rightarrow> Resource \<Rightarrow> bool" where
  "permitted B h p tenantID sub act res \<longleftrightarrow>
     (\<exists>reqs req. map_of p act = Some reqs \<and> req \<in> set reqs \<and> grants B h req tenantID sub res)"

section \<open>The engine over any store\<close>

lemma resType_targetOf [simp]: "resType (targetOf req res) = reqType req"
  by (simp add: targetOf_def)

lemma bestBinding_ge: "best \<le> snd (bestBinding h t sub res role best bs)"
  by (induction bs arbitrary: role best) (auto simp: Let_def intro: order_trans [OF less_imp_le])

lemma bestBinding_threshold:
  assumes "best < n"
  shows "n \<le> snd (bestBinding h t sub res role best bs) \<longleftrightarrow>
    (\<exists>b\<in>set bs. bTenant b = t \<and> bSubject b = sub \<and> bResource b = res \<and> n \<le> rank h (resType res) (bRole b))"
  using assms
proof (induction bs arbitrary: role best)
  case Nil
  then show ?case by simp
next
  case (Cons b bs)
  let ?r = "rank h (resType res) (bRole b)"
  show ?case
  proof (cases "bTenant b = t \<and> bSubject b = sub \<and> bResource b = res \<and> best < ?r")
    case hit: True
    show ?thesis
    proof (cases "?r < n")
      case True
      with hit Cons.IH [of ?r "bRole b"] show ?thesis by auto
    next
      case False
      with hit bestBinding_ge [of ?r h t sub res "bRole b" bs] show ?thesis by (auto simp: Let_def)
    qed
  next
    case False
    with Cons show ?thesis by (auto simp: Let_def)
  qed
qed

text \<open>An engine with a validated policy, as \<^verbatim>\<open>NewRBAC\<close> returns it.\<close>

definition rbacOk :: "RBAC \<Rightarrow> bool" where
  "rbacOk e \<longleftrightarrow> validate (rbH e) (rbP e) = None"

lemma NewRBAC_ok: "NewRBAC store h p = Inr e \<Longrightarrow> rbacOk e \<and> store = Some (rbStore e) \<and> rbH e = h \<and> rbP e = p"
  by (auto simp: NewRBAC_def rbacOk_def split: option.splits)

lemma effective_threshold:
  assumes "0 < n" "effective e t sub res = Inr (role, r)"
  shows "\<exists>bs. BindingsFor (rbStore e) t sub res = Inr bs \<and>
    (n \<le> r \<longleftrightarrow> (\<exists>b\<in>set bs. bTenant b = t \<and> bSubject b = sub \<and> bResource b = res \<and>
        n \<le> rank (rbH e) (resType res) (bRole b)))"
proof -
  obtain bs where bs: "BindingsFor (rbStore e) t sub res = Inr bs"
      "bestBinding (rbH e) t sub res '''' 0 bs = (role, r)"
    using assms(2) by (auto simp: effective_def split: sum.splits)
  with bestBinding_threshold [OF assms(1), of "rbH e" t sub res "''''" bs] show ?thesis by simp
qed

lemma checkRequirements_allowed:
  assumes "checkRequirements e t sub act res reqs = Inr d" "Allowed d"
    "\<And>req. req \<in> set reqs \<Longrightarrow> 0 < rank (rbH e) (reqType req) (reqMin req)"
  shows "\<exists>req\<in>set reqs. \<exists>bs. BindingsFor (rbStore e) t sub (targetOf req res) = Inr bs \<and>
    grants (set bs) (rbH e) req t sub res"
  using assms
proof (induction reqs)
  case Nil
  then show ?case by auto
next
  case (Cons req reqs)
  obtain role r where eff: "effective e t sub (targetOf req res) = Inr (role, r)"
    using Cons.prems(1) by (auto split: sum.splits)
  show ?case
  proof (cases "r \<ge> rank (rbH e) (reqType req) (reqMin req)")
    case True
    with effective_threshold [OF Cons.prems(3) [of req] eff] show ?thesis
      by (auto simp: grants_def)
  next
    case False
    with eff Cons show ?thesis by auto
  qed
qed

text \<open>
  C3. Tenant isolation without trusting the store. Whatever the \<^verbatim>\<open>BindingStore\<close> returns,
  an engine built by \<^verbatim>\<open>NewRBAC\<close> that allows an action does so on the strength of a
  binding it was handed that lives in the asked scope, for exactly the asking subject
  (home tenant included), on the asked resource or the singleton of the requirement's
  type, with a role of that type's ladder at or above the required one.
\<close>

theorem Check_isolation:
  assumes "NewRBAC (Some store) h p = Inr e" "Check e t sub act res = Inr d" "Allowed d"
  shows "\<exists>reqs req bs b. map_of p act = Some reqs \<and> req \<in> set reqs \<and>
    BindingsFor store t sub (targetOf req res) = Inr bs \<and> b \<in> set bs \<and>
    bTenant b = t \<and> bSubject b = sub \<and> bResource b = targetOf req res \<and>
    0 < rank h (reqType req) (reqMin req) \<and>
    rank h (reqType req) (reqMin req) \<le> rank h (reqType req) (bRole b) \<and>
    Valid t \<and> Valid (subTenant sub)"
proof -
  have e: "rbacOk e" "rbStore e = store" "rbH e = h" "rbP e = p"
    using NewRBAC_ok [OF assms(1)] by auto
  obtain reqs where reqs: "map_of p act = Some reqs" "checkRequirements e t sub act res reqs = Inr d"
    and valid: "Valid t" "Valid (subTenant sub)"
    using assms(2,3) e(4) by (auto simp: Check_def split: option.splits)
  have pos: "0 < rank h (reqType req) (reqMin req)" if "req \<in> set reqs" for req
    using validate_rank_pos [OF _ reqs(1) that] e by (simp add: rbacOk_def)
  from checkRequirements_allowed [OF reqs(2) assms(3)] pos e obtain req bs where
    "req \<in> set reqs" "BindingsFor store t sub (targetOf req res) = Inr bs" "grants (set bs) h req t sub res"
    by auto
  with reqs pos valid show ?thesis unfolding grants_def by blast
qed

text \<open>A store that leaks another tenant's binding does not open the door.\<close>

definition leakyStore :: "Binding \<Rightarrow> Binding \<Rightarrow> BindingStore" where
  "leakyStore b c = \<lparr>BindingsFor = (\<lambda>_ _ _. Inr [b, c]), BindingsForSubject = (\<lambda>_ _ _. Inr [b, c]),
     BindingsOnResource = (\<lambda>_ _. Inr [b, c])\<rparr>"

theorem Check_isolation_witness:
  "let u = \<lparr>subTenant = NewID ''acme'', subType = ''user'', subID = ''u''\<rparr>;
       r = \<lparr>resType = ''doc'', resID = ''1''\<rparr>;
       b = \<lparr>bTenant = NewID ''globex'', bSubject = u, bResource = r, bRole = ''admin''\<rparr>;
       c = \<lparr>bTenant = NewID ''acme'', bSubject = u, bResource = r, bRole = ''viewer''\<rparr>;
       h = [(''doc'', [''viewer'', ''admin''])];
       p = [(''doc.read'', [\<lparr>reqType = ''doc'', reqMin = ''viewer''\<rparr>]),
            (''doc.drop'', [\<lparr>reqType = ''doc'', reqMin = ''admin''\<rparr>])];
       e = \<lparr>rbStore = leakyStore b c, rbH = h, rbP = p\<rparr>
   in NewRBAC (Some (leakyStore b c)) h p = Inr e \<and>
      Check e (NewID ''acme'') u ''doc.read'' r =
        Inr \<lparr>Allowed = True, Reason = RoleSatisfies ''viewer'' r ''doc.read'' ''viewer''\<rparr> \<and>
      (\<forall>d. Check e (NewID ''acme'') u ''doc.drop'' r = Inr d \<longrightarrow> \<not> Allowed d)"
proof -
  let ?u = "\<lparr>subTenant = NewID ''acme'', subType = ''user'', subID = ''u''\<rparr>"
  let ?r = "\<lparr>resType = ''doc'', resID = ''1''\<rparr>"
  let ?b = "\<lparr>bTenant = NewID ''globex'', bSubject = ?u, bResource = ?r, bRole = ''admin''\<rparr>"
  let ?c = "\<lparr>bTenant = NewID ''acme'', bSubject = ?u, bResource = ?r, bRole = ''viewer''\<rparr>"
  let ?h = "[(''doc'', [''viewer'', ''admin''])]"
  let ?p = "[(''doc.read'', [\<lparr>reqType = ''doc'', reqMin = ''viewer''\<rparr>]),
            (''doc.drop'', [\<lparr>reqType = ''doc'', reqMin = ''admin''\<rparr>])]"
  let ?e = "\<lparr>rbStore = leakyStore ?b ?c, rbH = ?h, rbP = ?p\<rparr>"
  have new: "NewRBAC (Some (leakyStore ?b ?c)) ?h ?p = Inr ?e"
    by (simp add: NewRBAC_def validate_def requirementOk_def rank_def)
  have ok: "Check ?e (NewID ''acme'') ?u ''doc.read'' ?r =
      Inr \<lparr>Allowed = True, Reason = RoleSatisfies ''viewer'' ?r ''doc.read'' ''viewer''\<rparr>"
    by (simp add: Check_def gate_eq effective_def leakyStore_def targetOf_def rank_def id_defs)
  have "\<not> Allowed d" if d: "Check ?e (NewID ''acme'') ?u ''doc.drop'' ?r = Inr d" for d
    using Check_isolation [OF new d] by (auto simp: leakyStore_def rank_def id_defs)
  with new ok show ?thesis by (simp add: Let_def)
qed

section \<open>The engine over a store that keeps its contract\<close>

lemma mem_collectResources:
  "set (collectResources h t sub rt lowest out bs) = set out \<union>
     {bResource b | b. b \<in> set bs \<and> bTenant b = t \<and> bSubject b = sub \<and> resType (bResource b) = rt \<and>
        resID (bResource b) \<noteq> [] \<and> lowest \<le> rank h rt (bRole b)}"
  by (induction bs arbitrary: out) (simp_all, blast)

lemma distinct_collectResources:
  "distinct out \<Longrightarrow> distinct (collectResources h t sub rt lowest out bs)"
  by (induction bs arbitrary: out) auto

lemma collectSubjects_Inr:
  assumes "\<And>b. b \<in> set bs \<Longrightarrow> Valid (subTenant (bSubject b))"
  shows "\<exists>out'. collectSubjects h t target n out bs = Inr out' \<and>
    set out' = set out \<union> {bSubject b | b. b \<in> set bs \<and> bTenant b = t \<and> bResource b = target \<and>
        n \<le> rank h (resType target) (bRole b)} \<and> (distinct out \<longrightarrow> distinct out')"
  using assms
proof (induction bs arbitrary: out)
  case Nil
  then show ?case by simp
next
  case (Cons b bs)
  then have valid: "Valid (subTenant (bSubject b))" and IH: "\<And>out. \<exists>out'. collectSubjects h t target n out bs = Inr out' \<and>
    set out' = set out \<union> {bSubject b | b. b \<in> set bs \<and> bTenant b = t \<and> bResource b = target \<and>
        n \<le> rank h (resType target) (bRole b)} \<and> (distinct out \<longrightarrow> distinct out')" by auto
  let ?take = "bTenant b = t \<and> bResource b = target \<and> n \<le> rank h (resType target) (bRole b)"
  show ?case
  proof (cases "?take \<and> bSubject b \<notin> set out")
    case True
    with valid have "collectSubjects h t target n out (b # bs) = collectSubjects h t target n (out @ [bSubject b]) bs"
      by auto
    moreover obtain out' where "collectSubjects h t target n (out @ [bSubject b]) bs = Inr out'"
      "set out' = set (out @ [bSubject b]) \<union> {bSubject b | b. b \<in> set bs \<and> bTenant b = t \<and> bResource b = target \<and>
        n \<le> rank h (resType target) (bRole b)}" "distinct (out @ [bSubject b]) \<longrightarrow> distinct out'"
      using IH by blast
    ultimately show ?thesis using True by auto
  next
    case False
    then have "collectSubjects h t target n out (b # bs) = collectSubjects h t target n out bs"
      by auto
    moreover obtain out' where "collectSubjects h t target n out bs = Inr out'"
      "set out' = set out \<union> {bSubject b | b. b \<in> set bs \<and> bTenant b = t \<and> bResource b = target \<and>
        n \<le> rank h (resType target) (bRole b)}" "distinct out \<longrightarrow> distinct out'"
      using IH by blast
    ultimately show ?thesis using False by auto
  qed
qed

context binding_store
begin

lemma effective_ok:
  assumes "inv s" "rbStore e = ops s" "Valid t" "Valid (subTenant sub)"
    "0 < rank (rbH e) (reqType req) (reqMin req)"
  shows "\<exists>role r. effective e t sub (targetOf req res) = Inr (role, r) \<and>
    (rank (rbH e) (reqType req) (reqMin req) \<le> r \<longleftrightarrow> grants (held s) (rbH e) req t sub res)"
proof -
  obtain bs where bs: "BindingsFor (rbStore e) t sub (targetOf req res) = Inr bs"
      "set bs = {b \<in> held s. bTenant b = t \<and> bSubject b = sub \<and> bResource b = targetOf req res}"
    using forOk [OF assms(1,3,4)] assms(2) by metis
  then obtain role r where eff: "effective e t sub (targetOf req res) = Inr (role, r)"
    by (metis effective_def sum.simps(6) surj_pair)
  from effective_threshold [OF assms(5) eff] bs eff show ?thesis
    by (auto simp: grants_def)
qed

lemma checkRequirements_ok:
  assumes "inv s" "rbStore e = ops s" "Valid t" "Valid (subTenant sub)"
    "\<And>req. req \<in> set reqs \<Longrightarrow> 0 < rank (rbH e) (reqType req) (reqMin req)"
  shows "\<exists>d. checkRequirements e t sub act res reqs = Inr d \<and>
    (Allowed d \<longleftrightarrow> (\<exists>req\<in>set reqs. grants (held s) (rbH e) req t sub res))"
  using assms(5)
proof (induction reqs)
  case Nil
  then show ?case by simp
next
  case (Cons req reqs)
  obtain role r where "effective e t sub (targetOf req res) = Inr (role, r)"
    "rank (rbH e) (reqType req) (reqMin req) \<le> r \<longleftrightarrow> grants (held s) (rbH e) req t sub res"
    using effective_ok [OF assms(1-4), of req res] Cons.prems by auto
  with Cons show ?case by auto
qed

text \<open>The engine implements the specification, and always decides.\<close>

lemma Check_iff_permitted:
  assumes "inv s" "rbStore e = ops s" "rbacOk e" "Valid t" "Valid (subTenant sub)"
  shows "\<exists>d. Check e t sub act res = Inr d \<and>
    (Allowed d \<longleftrightarrow> permitted (held s) (rbH e) (rbP e) t sub act res)"
proof (cases "map_of (rbP e) act")
  case None
  with assms show ?thesis by (simp add: Check_def gate_eq permitted_def)
next
  case (Some reqs)
  with assms(3) have "0 < rank (rbH e) (reqType req) (reqMin req)" if "req \<in> set reqs" for req
    using that by (auto simp: rbacOk_def intro: validate_rank_pos)
  from checkRequirements_ok [OF assms(1,2,4,5) this, of reqs act res] Some assms(4,5) show ?thesis
    by (simp add: Check_def gate_eq permitted_def Bex_def)
qed

lemma scanRequirements_ok:
  assumes "inv s" "rbStore e = ops s" "Valid t" "Valid (subTenant sub)"
    "\<And>req. req \<in> set reqs \<Longrightarrow> 0 < rank (rbH e) (reqType req) (reqMin req)"
    "resType res = rt"
  shows "\<exists>u l. scanRequirements e t sub rt unb low reqs = Inr (u, l) \<and>
    (u \<longleftrightarrow> unb \<or> (\<exists>req\<in>set reqs. reqType req \<noteq> rt \<and> grants (held s) (rbH e) req t sub res)) \<and>
    (l = 0 \<longleftrightarrow> low = 0 \<and> (\<forall>req\<in>set reqs. reqType req \<noteq> rt)) \<and>
    (l \<noteq> 0 \<longrightarrow> (\<forall>n. l \<le> n \<longleftrightarrow> (low \<noteq> 0 \<and> low \<le> n) \<or>
        (\<exists>req\<in>set reqs. reqType req = rt \<and> rank (rbH e) rt (reqMin req) \<le> n)))"
  using assms(5)
proof (induction reqs arbitrary: unb low)
  case Nil
  then show ?case by simp
next
  case (Cons req reqs)
  then have pos: "0 < rank (rbH e) (reqType req) (reqMin req)" by simp
  have IH: "\<exists>u l. scanRequirements e t sub rt unb low reqs = Inr (u, l) \<and>
    (u \<longleftrightarrow> unb \<or> (\<exists>req\<in>set reqs. reqType req \<noteq> rt \<and> grants (held s) (rbH e) req t sub res)) \<and>
    (l = 0 \<longleftrightarrow> low = 0 \<and> (\<forall>req\<in>set reqs. reqType req \<noteq> rt)) \<and>
    (l \<noteq> 0 \<longrightarrow> (\<forall>n. l \<le> n \<longleftrightarrow> (low \<noteq> 0 \<and> low \<le> n) \<or>
        (\<exists>req\<in>set reqs. reqType req = rt \<and> rank (rbH e) rt (reqMin req) \<le> n)))" for unb low
    using Cons by simp
  show ?case
  proof (cases "reqType req = rt")
    case True
    let ?r = "rank (rbH e) rt (reqMin req)"
    let ?low = "if low = 0 \<or> ?r < low then ?r else low"
    have "?low \<noteq> 0" using pos True by auto
    moreover have "(?low \<le> n) \<longleftrightarrow> (low \<noteq> 0 \<and> low \<le> n) \<or> ?r \<le> n" for n by auto
    moreover have "scanRequirements e t sub rt unb low (req # reqs) = scanRequirements e t sub rt unb ?low reqs"
      using True by (simp add: Let_def)
    ultimately show ?thesis using True IH [of unb ?low] by auto
  next
    case False
    obtain role r where eff: "effective e t sub (targetOf req res) = Inr (role, r)"
      "rank (rbH e) (reqType req) (reqMin req) \<le> r \<longleftrightarrow> grants (held s) (rbH e) req t sub res"
      using effective_ok [OF assms(1-4) pos] by blast
    moreover have "targetOf req res = \<lparr>resType = reqType req, resID = []\<rparr>"
      using False assms(6) by (simp add: targetOf_def)
    ultimately have "scanRequirements e t sub rt unb low (req # reqs) =
        scanRequirements e t sub rt (unb \<or> grants (held s) (rbH e) req t sub res) low reqs"
      using False by (cases unb) auto
    then show ?thesis
      using False IH [of "unb \<or> grants (held s) (rbH e) req t sub res" low] by auto
  qed
qed

lemma grants_same_type:
  assumes "resType res = reqType req"
  shows "grants B h req t sub res \<longleftrightarrow> (\<exists>b\<in>B. bTenant b = t \<and> bSubject b = sub \<and> bResource b = res \<and>
    rank h (reqType req) (reqMin req) \<le> rank h (reqType req) (bRole b))"
  using assms by (simp add: grants_def targetOf_def)

lemma grants_other_type:
  assumes "reqType req \<noteq> resType res" "resType res' = resType res"
  shows "grants B h req t sub res \<longleftrightarrow> grants B h req t sub res'"
  using assms by (simp add: grants_def targetOf_def)

text \<open>The reverse queries agree with the forward one, resource by resource and subject by subject.\<close>

lemma ListResources_ok:
  assumes "inv s" "rbStore e = ops s" "rbacOk e" "Valid t" "Valid (subTenant sub)"
    "map_of (rbP e) act = Some reqs"
  shows "\<exists>rs unb. ListResources e t sub act rt = Inr (rs, unb) \<and> distinct rs \<and> sorted (map resID rs) \<and>
    (\<forall>r. resType r = rt \<and> resID r \<noteq> [] \<longrightarrow>
       (permitted (held s) (rbH e) (rbP e) t sub act r \<longleftrightarrow> unb \<or> r \<in> set rs))"
proof -
  have pos: "0 < rank (rbH e) (reqType req) (reqMin req)" if "req \<in> set reqs" for req
    using that assms(3,6) by (auto simp: rbacOk_def intro: validate_rank_pos)
  let ?global = "\<lparr>resType = rt, resID = []\<rparr>"
  obtain u l where scan: "scanRequirements e t sub rt False 0 reqs = Inr (u, l)"
    and u: "u \<longleftrightarrow> (\<exists>req\<in>set reqs. reqType req \<noteq> rt \<and> grants (held s) (rbH e) req t sub ?global)"
    and l0: "l = 0 \<longleftrightarrow> (\<forall>req\<in>set reqs. reqType req \<noteq> rt)"
    and l: "l \<noteq> 0 \<Longrightarrow> l \<le> n \<longleftrightarrow> (\<exists>req\<in>set reqs. reqType req = rt \<and> rank (rbH e) rt (reqMin req) \<le> n)" for n
    using scanRequirements_ok [OF assms(1,2,4,5) pos, of reqs ?global rt False 0] by auto
  have split: "permitted (held s) (rbH e) (rbP e) t sub act r \<longleftrightarrow>
      u \<or> (\<exists>req\<in>set reqs. reqType req = rt \<and> (\<exists>b\<in>held s. bTenant b = t \<and> bSubject b = sub \<and>
        bResource b = r \<and> rank (rbH e) rt (reqMin req) \<le> rank (rbH e) rt (bRole b)))"
    if "resType r = rt" for r
  proof -
    have "grants (held s) (rbH e) req t sub r \<longleftrightarrow> grants (held s) (rbH e) req t sub ?global"
      if "reqType req \<noteq> rt" for req
      using grants_other_type [of req r ?global] that \<open>resType r = rt\<close> by simp
    moreover have "grants (held s) (rbH e) req t sub r \<longleftrightarrow> (\<exists>b\<in>held s. bTenant b = t \<and> bSubject b = sub \<and>
        bResource b = r \<and> rank (rbH e) rt (reqMin req) \<le> rank (rbH e) rt (bRole b))"
      if "reqType req = rt" for req
      using grants_same_type [of r req] that \<open>resType r = rt\<close> by simp
    moreover have "permitted (held s) (rbH e) (rbP e) t sub act r \<longleftrightarrow>
        (\<exists>req\<in>set reqs. grants (held s) (rbH e) req t sub r)"
      using assms(6) by (auto simp: permitted_def)
    ultimately show ?thesis unfolding u by blast
  qed
  show ?thesis
  proof (cases "l = 0")
    case True
    with scan assms(4,5,6) have "ListResources e t sub act rt = Inr ([], u)"
      by (simp add: ListResources_def gate_eq)
    with split True l0 show ?thesis by auto
  next
    case False
    obtain bs where bs: "BindingsForSubject (rbStore e) t sub rt = Inr bs"
      "set bs = {b \<in> held s. bTenant b = t \<and> bSubject b = sub \<and> resType (bResource b) = rt \<and> resID (bResource b) \<noteq> []}"
      using forSubjectOk [OF assms(1,4,5)] assms(2) by metis
    let ?rs = "sort_key resID (collectResources (rbH e) t sub rt l [] bs)"
    have "ListResources e t sub act rt = Inr (?rs, u)"
      using scan False bs(1) assms(4,5,6) by (simp add: ListResources_def gate_eq)
    moreover have "distinct ?rs" by (simp add: distinct_collectResources)
    moreover have "permitted (held s) (rbH e) (rbP e) t sub act r \<longleftrightarrow> u \<or> r \<in> set ?rs"
      if "resType r = rt" "resID r \<noteq> []" for r
      using that split [OF that(1)] l [OF False] bs(2) by (auto simp: mem_collectResources)
    ultimately show ?thesis by (metis sorted_sort_key)
  qed
qed

lemma subjectsAlong_ok:
  assumes "inv s" "rbStore e = ops s" "Valid t"
  shows "\<exists>out'. subjectsAlong e t res out reqs = Inr out' \<and>
    set out' = set out \<union> {sub. \<exists>req\<in>set reqs. grants (held s) (rbH e) req t sub res} \<and>
    (distinct out \<longrightarrow> distinct out')"
proof (induction reqs arbitrary: out)
  case Nil
  then show ?case by simp
next
  case (Cons req reqs)
  obtain bs where bs: "BindingsOnResource (rbStore e) t (targetOf req res) = Inr bs"
      "set bs = {b \<in> held s. bTenant b = t \<and> bResource b = targetOf req res}"
    using onResourceOk [OF assms(1,3)] assms(2) by metis
  then have "Valid (subTenant (bSubject b))" if "b \<in> set bs" for b
    using that held_tenants [OF assms(1)] by blast
  moreover have "{bSubject b | b. b \<in> set bs \<and> bTenant b = t \<and> bResource b = targetOf req res \<and>
      rank (rbH e) (reqType req) (reqMin req) \<le> rank (rbH e) (resType (targetOf req res)) (bRole b)} =
    {sub. grants (held s) (rbH e) req t sub res}"
    unfolding bs(2) grants_def by auto
  ultimately have "\<exists>mid. collectSubjects (rbH e) t (targetOf req res) (rank (rbH e) (reqType req) (reqMin req)) out bs = Inr mid \<and>
    set mid = set out \<union> {sub. grants (held s) (rbH e) req t sub res} \<and> (distinct out \<longrightarrow> distinct mid)"
    using collectSubjects_Inr [of bs "rbH e" t "targetOf req res" "rank (rbH e) (reqType req) (reqMin req)" out]
    by simp
  then obtain mid where mid: "collectSubjects (rbH e) t (targetOf req res) (rank (rbH e) (reqType req) (reqMin req)) out bs = Inr mid"
    "set mid = set out \<union> {sub. grants (held s) (rbH e) req t sub res}" "distinct out \<longrightarrow> distinct mid"
    by blast
  obtain out' where "subjectsAlong e t res mid reqs = Inr out'"
    "set out' = set mid \<union> {sub. \<exists>req\<in>set reqs. grants (held s) (rbH e) req t sub res}"
    "distinct mid \<longrightarrow> distinct out'"
    using Cons.IH by blast
  with mid bs(1) show ?case by auto
qed

lemma ListSubjects_ok:
  assumes "inv s" "rbStore e = ops s" "Valid t" "map_of (rbP e) act = Some reqs"
  shows "\<exists>subs. ListSubjects e t act res = Inr (subs, False) \<and> distinct subs \<and>
    (\<forall>sub. sub \<in> set subs \<longleftrightarrow> permitted (held s) (rbH e) (rbP e) t sub act res)"
proof -
  obtain out where "subjectsAlong e t res [] reqs = Inr out" "distinct out"
    "set out = {sub. \<exists>req\<in>set reqs. grants (held s) (rbH e) req t sub res}"
    using subjectsAlong_ok [OF assms(1-3), of res "[]" reqs] by auto
  with assms(3,4) show ?thesis
    by (auto simp: ListSubjects_def scopeGate_def sortSubjects_def permitted_def)
qed

end

section \<open>What every engine offers\<close>

locale authorizer =
  fixes check :: "ID \<Rightarrow> Subject \<Rightarrow> Action \<Rightarrow> Resource \<Rightarrow> authz_err + Decision"
    and checkBulk :: "ID \<Rightarrow> CheckRequest list \<Rightarrow> authz_err + Decision list"
  assumes check_gated: "gate t sub = Some err \<Longrightarrow> check t sub act res = Inl err"
    and bulk_gated: "scopeGate t = Some err \<Longrightarrow> checkBulk t reqs = Inl err"
    and bulk_each: "scopeGate t = None \<Longrightarrow>
      checkBulk t reqs = mapResult (\<lambda>r. check t (crSubject r) (crAction r) (crResource r)) reqs"
begin

lemma no_tenant_no_answer:
  "\<not> (Valid t \<and> Valid (subTenant sub)) \<Longrightarrow> check t sub act res = Inl ErrTenantRequired"
  by (rule check_gated) simp

text \<open>A bulk answer is index-aligned, and any question that cannot be decided fails the whole call.\<close>

lemma bulk_aligned:
  "checkBulk t reqs = Inr ds \<longleftrightarrow> Valid t \<and> length ds = length reqs \<and>
     (\<forall>i<length reqs. check t (crSubject (reqs ! i)) (crAction (reqs ! i)) (crResource (reqs ! i)) = Inr (ds ! i))"
proof (cases "Valid t")
  case True
  then have "checkBulk t reqs = Inr ds \<longleftrightarrow>
      map (\<lambda>r. check t (crSubject r) (crAction r) (crResource r)) reqs = map Inr ds"
    by (simp add: bulk_each mapResult_Inr_iff)
  also have "\<dots> \<longleftrightarrow> length ds = length reqs \<and>
     (\<forall>i<length reqs. check t (crSubject (reqs ! i)) (crAction (reqs ! i)) (crResource (reqs ! i)) = Inr (ds ! i))"
    by (auto simp: list_eq_iff_nth_eq)
  finally show ?thesis using True by simp
next
  case False
  then show ?thesis using bulk_gated [of t ErrTenantRequired reqs] by simp
qed

end

interpretation rbac: authorizer "Check e" "CheckBulk e" for e
  by unfold_locales (auto simp: Check_def CheckBulk_def split: option.splits)

section \<open>Properties of the engine over MemStore\<close>

text \<open>
  C4. Over \<^verbatim>\<open>MemStore\<close>, an engine built by \<^verbatim>\<open>NewRBAC\<close> decides every question that names
  its tenants, and allows it iff the stored bindings grant one requirement of the
  action; the two reverse queries agree with it: \<^verbatim>\<open>ListResources\<close> lists, sorted and
  without repetition, exactly the concrete resources \<^verbatim>\<open>Check\<close> allows unless it reports
  unbounded access, which it does only when every one is allowed, and \<^verbatim>\<open>ListSubjects\<close>
  lists exactly the subjects \<^verbatim>\<open>Check\<close> allows.
\<close>

theorem RBAC_refines_permitted:
  assumes "bindingMemInv m" "NewRBAC (Some (memBindingStore m)) h p = Inr e"
    "Valid t" "Valid (subTenant sub)" "map_of p act = Some reqs"
  shows "(\<exists>d. Check e t sub act res = Inr d \<and> (Allowed d \<longleftrightarrow> permitted (set m) h p t sub act res)) \<and>
    (\<exists>rs unb. ListResources e t sub act rt = Inr (rs, unb) \<and> distinct rs \<and> sorted (map resID rs) \<and>
       (\<forall>r. resType r = rt \<and> resID r \<noteq> [] \<longrightarrow> (permitted (set m) h p t sub act r \<longleftrightarrow> unb \<or> r \<in> set rs))) \<and>
    (\<exists>subs. ListSubjects e t act res = Inr (subs, False) \<and> distinct subs \<and>
       (\<forall>v. v \<in> set subs \<longleftrightarrow> permitted (set m) h p t v act res))"
proof -
  have e: "rbacOk e" "rbStore e = memBindingStore m" "rbH e = h" "rbP e = p"
    using NewRBAC_ok [OF assms(2)] by auto
  show ?thesis
    using mem_bindings.Check_iff_permitted [OF assms(1) e(2,1) assms(3,4), of act res]
      mem_bindings.ListResources_ok [OF assms(1) e(2,1) assms(3,4), of act reqs rt]
      mem_bindings.ListSubjects_ok [OF assms(1) e(2) assms(3), of act reqs res] assms(5)
    unfolding e(3,4) by blast
qed

theorem RBAC_refines_permitted_witness:
  "let u = \<lparr>subTenant = NewID ''acme'', subType = ''user'', subID = ''u''\<rparr>;
       r = \<lparr>resType = ''doc'', resID = ''1''\<rparr>;
       c = \<lparr>bTenant = NewID ''acme'', bSubject = u, bResource = r, bRole = ''viewer''\<rparr>;
       h = [(''doc'', [''viewer'', ''admin''])];
       p = [(''doc.read'', [\<lparr>reqType = ''doc'', reqMin = ''viewer''\<rparr>])];
       e = \<lparr>rbStore = memBindingStore [c], rbH = h, rbP = p\<rparr>
   in (\<exists>d. Check e (NewID ''acme'') u ''doc.read'' r = Inr d \<and> Allowed d)"
proof -
  let ?u = "\<lparr>subTenant = NewID ''acme'', subType = ''user'', subID = ''u''\<rparr>"
  let ?r = "\<lparr>resType = ''doc'', resID = ''1''\<rparr>"
  let ?c = "\<lparr>bTenant = NewID ''acme'', bSubject = ?u, bResource = ?r, bRole = ''viewer''\<rparr>"
  let ?h = "[(''doc'', [''viewer'', ''admin''])]"
  let ?p = "[(''doc.read'', [\<lparr>reqType = ''doc'', reqMin = ''viewer''\<rparr>])]"
  let ?e = "\<lparr>rbStore = memBindingStore [?c], rbH = ?h, rbP = ?p\<rparr>"
  have "NewRBAC (Some (memBindingStore [?c])) ?h ?p = Inr ?e"
    by (simp add: NewRBAC_def validate_def requirementOk_def rank_def)
  moreover have "bindingMemInv [?c]" by (simp add: bindingMemInv_def)
  moreover have "permitted (set [?c]) ?h ?p (NewID ''acme'') ?u ''doc.read'' ?r"
    by (simp add: permitted_def grants_def targetOf_def rank_def)
  ultimately show ?thesis
    using RBAC_refines_permitted [of "[?c]" ?h ?p ?e "NewID ''acme''" ?u "''doc.read''"
        "[\<lparr>reqType = ''doc'', reqMin = ''viewer''\<rparr>]" ?r]
    by (simp add: Let_def)
qed

text \<open>
  Granting and revoking are exact: after \<^verbatim>\<open>Grant\<close> the engine decides as if the one
  binding had been added to those stored, after \<^verbatim>\<open>Revoke\<close> as if it alone had been taken
  away; both keep the store free of duplicates and of bindings without tenants, so the
  decision is defined in every reachable state, and a refused call changes nothing.
\<close>

theorem Grant_Revoke_exact:
  assumes "bindingMemInv m" "validate h p = None" "Valid t" "Valid (subTenant sub)"
    "Valid (bTenant b)" "Valid (subTenant (bSubject b))"
  shows "bindingMemInv (snd (GrantBinding m b)) \<and> bindingMemInv (snd (RevokeBinding m b)) \<and>
    (\<exists>d. Check \<lparr>rbStore = memBindingStore (snd (GrantBinding m b)), rbH = h, rbP = p\<rparr> t sub act res = Inr d \<and>
       (Allowed d \<longleftrightarrow> permitted (insert b (set m)) h p t sub act res)) \<and>
    (\<exists>d. Check \<lparr>rbStore = memBindingStore (snd (RevokeBinding m b)), rbH = h, rbP = p\<rparr> t sub act res = Inr d \<and>
       (Allowed d \<longleftrightarrow> permitted (set m - {b}) h p t sub act res)) \<and>
    (\<forall>c. gate (bTenant c) (bSubject c) \<noteq> None \<longrightarrow>
       GrantBinding m c = (Some ErrTenantRequired, m) \<and> RevokeBinding m c = (Some ErrTenantRequired, m))"
proof -
  have sets: "set (snd (GrantBinding m b)) = insert b (set m)" "set (snd (RevokeBinding m b)) = set m - {b}"
    using assms(5,6) by (auto simp: GrantBinding_def RevokeBinding_def gate_eq)
  have "\<exists>d. Check \<lparr>rbStore = memBindingStore m', rbH = h, rbP = p\<rparr> t sub act res = Inr d \<and>
      (Allowed d \<longleftrightarrow> permitted (set m') h p t sub act res)" if "bindingMemInv m'" for m'
    using mem_bindings.Check_iff_permitted [OF that, of "\<lparr>rbStore = memBindingStore m', rbH = h, rbP = p\<rparr>"]
      assms(2,3,4) by (simp add: rbacOk_def)
  from this [of "snd (GrantBinding m b)"] this [of "snd (RevokeBinding m b)"]
  have "\<exists>d. Check \<lparr>rbStore = memBindingStore (snd (GrantBinding m b)), rbH = h, rbP = p\<rparr> t sub act res = Inr d \<and>
       (Allowed d \<longleftrightarrow> permitted (insert b (set m)) h p t sub act res)"
    "\<exists>d. Check \<lparr>rbStore = memBindingStore (snd (RevokeBinding m b)), rbH = h, rbP = p\<rparr> t sub act res = Inr d \<and>
       (Allowed d \<longleftrightarrow> permitted (set m - {b}) h p t sub act res)"
    unfolding sets using assms(1) by simp_all
  moreover have "GrantBinding m c = (Some ErrTenantRequired, m) \<and> RevokeBinding m c = (Some ErrTenantRequired, m)"
    if "gate (bTenant c) (bSubject c) \<noteq> None" for c
    using that by (auto simp: GrantBinding_def RevokeBinding_def gate_eq split: if_splits)
  ultimately show ?thesis using assms(1) by simp
qed

theorem Grant_Revoke_exact_witness:
  "let u = \<lparr>subTenant = NewID ''acme'', subType = ''user'', subID = ''u''\<rparr>;
       r = \<lparr>resType = ''doc'', resID = ''1''\<rparr>;
       c = \<lparr>bTenant = NewID ''acme'', bSubject = u, bResource = r, bRole = ''viewer''\<rparr>;
       h = [(''doc'', [''viewer''])];
       p = [(''doc.read'', [\<lparr>reqType = ''doc'', reqMin = ''viewer''\<rparr>])]
   in (\<exists>d. Check \<lparr>rbStore = memBindingStore (snd (GrantBinding [] c)), rbH = h, rbP = p\<rparr>
             (NewID ''acme'') u ''doc.read'' r = Inr d \<and> Allowed d) \<and>
      (\<exists>d. Check \<lparr>rbStore = memBindingStore (snd (RevokeBinding [c] c)), rbH = h, rbP = p\<rparr>
             (NewID ''acme'') u ''doc.read'' r = Inr d \<and> \<not> Allowed d)"
proof -
  let ?u = "\<lparr>subTenant = NewID ''acme'', subType = ''user'', subID = ''u''\<rparr>"
  let ?r = "\<lparr>resType = ''doc'', resID = ''1''\<rparr>"
  let ?c = "\<lparr>bTenant = NewID ''acme'', bSubject = ?u, bResource = ?r, bRole = ''viewer''\<rparr>"
  let ?h = "[(''doc'', [''viewer''])]"
  let ?p = "[(''doc.read'', [\<lparr>reqType = ''doc'', reqMin = ''viewer''\<rparr>])]"
  have "validate ?h ?p = None" by (simp add: validate_def requirementOk_def rank_def)
  moreover have "bindingMemInv [?c]" "bindingMemInv []" by (simp_all add: bindingMemInv_def)
  moreover have "permitted (insert ?c (set [])) ?h ?p (NewID ''acme'') ?u ''doc.read'' ?r"
    "\<not> permitted (set [?c] - {?c}) ?h ?p (NewID ''acme'') ?u ''doc.read'' ?r"
    by (simp_all add: permitted_def grants_def targetOf_def rank_def)
  ultimately show ?thesis
    using Grant_Revoke_exact [of "[]" ?h ?p "NewID ''acme''" ?u ?c "''doc.read''" ?r]
      Grant_Revoke_exact [of "[?c]" ?h ?p "NewID ''acme''" ?u ?c "''doc.read''" ?r]
    by (simp add: Let_def)
qed

end
