(* ===== verification/Authz_PermissionSet.thy ===== *)
theory Authz_PermissionSet
  imports Authz_RBAC
begin

text \<open>
  Package \<^verbatim>\<open>authz\<close>, the set-based engine (\<^verbatim>\<open>permissionset.go\<close>), its in-memory store
  (\<^verbatim>\<open>mempermissionstore.go\<close>) and the adapter that presents a rank model as a permission
  store (\<^verbatim>\<open>rbacpermissionstore.go\<close>), with the memoized rank reads it makes.
  The contract of \<^verbatim>\<open>PermissionStore\<close> is the locale \<^verbatim>\<open>permission_store\<close>, interpreted on both
  stores; the engine's correctness is proved once inside it. The adapter ranges over
  the policy map in an arbitrary order, here the order of the association list.
\<close>

section \<open>Permission sets\<close>

definition SuperuserKey :: string where
  "SuperuserKey = ''*''"

record PermissionSetResult =
  psKeys :: "string list"
  psSuperuser :: bool

definition allows :: "PermissionSetResult \<Rightarrow> Action \<Rightarrow> bool" where
  "allows r act = (if psSuperuser r then True else act \<in> set (psKeys r))"

record PermissionStore =
  PermissionsFor :: "ID \<Rightarrow> Subject \<Rightarrow> Resource \<Rightarrow> authz_err + PermissionSetResult"
  ResourcesWithPermission :: "ID \<Rightarrow> Subject \<Rightarrow> string \<Rightarrow> string \<Rightarrow> authz_err + Resource list \<times> bool"
  SubjectsWithPermission :: "ID \<Rightarrow> string \<Rightarrow> Resource \<Rightarrow> authz_err + Subject list"

section \<open>The engine\<close>

definition NewPermissionSet :: "PermissionStore option \<Rightarrow> authz_err + PermissionStore" where
  "NewPermissionSet store = (case store of None \<Rightarrow> Inl ErrPolicyConfig | Some st \<Rightarrow> Inr st)"

definition PSCheck :: "PermissionStore \<Rightarrow> ID \<Rightarrow> Subject \<Rightarrow> Action \<Rightarrow> Resource \<Rightarrow> authz_err + Decision" where
  "PSCheck st tenantID sub act res =
     (case gate tenantID sub of
        Some err \<Rightarrow> Inl err
      | None \<Rightarrow>
          if act = '''' then Inr \<lparr>Allowed = False, Reason = EmptyAction\<rparr>
          else (case PermissionsFor st tenantID sub res of
              Inl err \<Rightarrow> Inl err
            | Inr ps \<Rightarrow>
                if psSuperuser ps then Inr \<lparr>Allowed = True, Reason = SuperuserAllows res act\<rparr>
                else if allows ps act then Inr \<lparr>Allowed = True, Reason = PermissionHeld act res\<rparr>
                else Inr \<lparr>Allowed = False, Reason = PermissionNotHeld act res\<rparr>))"

definition PSCheckBulk :: "PermissionStore \<Rightarrow> ID \<Rightarrow> CheckRequest list \<Rightarrow> authz_err + Decision list" where
  "PSCheckBulk st tenantID reqs =
     (case scopeGate tenantID of
        Some err \<Rightarrow> Inl err
      | None \<Rightarrow> mapResult (\<lambda>r. PSCheck st tenantID (crSubject r) (crAction r) (crResource r)) reqs)"

fun dedupResources :: "string \<Rightarrow> Resource list \<Rightarrow> Resource list \<Rightarrow> Resource list" where
  "dedupResources resourceType out [] = out"
| "dedupResources resourceType out (r # rs) =
     (if resType r \<noteq> resourceType \<or> resID r = '''' \<or> r \<in> set out
      then dedupResources resourceType out rs
      else dedupResources resourceType (out @ [r]) rs)"

definition PSListResources :: "PermissionStore \<Rightarrow> ID \<Rightarrow> Subject \<Rightarrow> Action \<Rightarrow> string
    \<Rightarrow> authz_err + Resource list \<times> bool" where
  "PSListResources st tenantID sub act resourceType =
     (case gate tenantID sub of
        Some err \<Rightarrow> Inl err
      | None \<Rightarrow>
          if act = '''' then Inr ([], False)
          else (case ResourcesWithPermission st tenantID sub act resourceType of
              Inl err \<Rightarrow> Inl err
            | Inr (rs, unbounded) \<Rightarrow> Inr (sort_key resID (dedupResources resourceType [] rs), unbounded)))"

fun dedupSubjects :: "Subject list \<Rightarrow> Subject list \<Rightarrow> authz_err + Subject list" where
  "dedupSubjects out [] = Inr out"
| "dedupSubjects out (s # subs) =
     (if \<not> Valid (subTenant s) then Inl ErrTenantRequired
      else if s \<in> set out then dedupSubjects out subs
      else dedupSubjects (out @ [s]) subs)"

definition PSListSubjects :: "PermissionStore \<Rightarrow> ID \<Rightarrow> Action \<Rightarrow> Resource \<Rightarrow> authz_err + Subject list \<times> bool" where
  "PSListSubjects st tenantID act res =
     (case scopeGate tenantID of
        Some err \<Rightarrow> Inl err
      | None \<Rightarrow>
          if act = '''' then Inr ([], False)
          else (case SubjectsWithPermission st tenantID act res of
              Inl err \<Rightarrow> Inl err
            | Inr subs \<Rightarrow> (case dedupSubjects [] subs of
                Inl err \<Rightarrow> Inl err
              | Inr out \<Rightarrow> Inr (sortSubjects out, False))))"

section \<open>MemPermissionStore\<close>

record permGrantKey =
  gkTenant :: ID
  gkSub :: Subject
  gkRes :: Resource

record permSuperKey =
  skTenant :: ID
  skSub :: Subject

record PermMem =
  pmGrants :: "(permGrantKey, string list) go_map"
  pmSuperusers :: "permSuperKey list"

definition NewPermMem :: PermMem where
  "NewPermMem = \<lparr>pmGrants = [], pmSuperusers = []\<rparr>"

definition addKey :: "string \<Rightarrow> string list \<Rightarrow> string list" where
  "addKey key keys = (if key = SuperuserKey then keys else List.insert key keys)"

definition GrantKeys :: "PermMem \<Rightarrow> ID \<Rightarrow> Subject \<Rightarrow> Resource \<Rightarrow> string list \<Rightarrow> authz_err option \<times> PermMem" where
  "GrantKeys m tenantID sub res keys =
     (case gate tenantID sub of
        Some err \<Rightarrow> (Some err, m)
      | None \<Rightarrow>
          let k = \<lparr>gkTenant = tenantID, gkSub = sub, gkRes = res\<rparr>;
              ks = (case map_of (pmGrants m) k of None \<Rightarrow> [] | Some ks \<Rightarrow> ks)
          in (None, m\<lparr>pmGrants := AList.update k (fold addKey keys ks) (pmGrants m)\<rparr>))"

definition GrantSuperuser :: "PermMem \<Rightarrow> ID \<Rightarrow> Subject \<Rightarrow> authz_err option \<times> PermMem" where
  "GrantSuperuser m tenantID sub =
     (case gate tenantID sub of
        Some err \<Rightarrow> (Some err, m)
      | None \<Rightarrow> (None, m\<lparr>pmSuperusers := List.insert \<lparr>skTenant = tenantID, skSub = sub\<rparr> (pmSuperusers m)\<rparr>))"

definition isSuperuser :: "PermMem \<Rightarrow> ID \<Rightarrow> Subject \<Rightarrow> bool" where
  "isSuperuser m tenantID sub = (\<lparr>skTenant = tenantID, skSub = sub\<rparr> \<in> set (pmSuperusers m))"

definition memPermissionsFor :: "PermMem \<Rightarrow> ID \<Rightarrow> Subject \<Rightarrow> Resource \<Rightarrow> authz_err + PermissionSetResult" where
  "memPermissionsFor m tenantID sub res =
     (case gate tenantID sub of
        Some err \<Rightarrow> Inl err
      | None \<Rightarrow>
          if isSuperuser m tenantID sub then Inr \<lparr>psKeys = [], psSuperuser = True\<rparr>
          else Inr \<lparr>psKeys = (case map_of (pmGrants m) \<lparr>gkTenant = tenantID, gkSub = sub, gkRes = res\<rparr> of
                        None \<Rightarrow> [] | Some ks \<Rightarrow> ks), psSuperuser = False\<rparr>)"

definition memResourcesWithPermission :: "PermMem \<Rightarrow> ID \<Rightarrow> Subject \<Rightarrow> string \<Rightarrow> string
    \<Rightarrow> authz_err + Resource list \<times> bool" where
  "memResourcesWithPermission m tenantID sub key resourceType =
     (case gate tenantID sub of
        Some err \<Rightarrow> Inl err
      | None \<Rightarrow>
          if isSuperuser m tenantID sub then Inr ([], True)
          else Inr (map (gkRes \<circ> fst) (filter (\<lambda>(gk, ks). gkTenant gk = tenantID \<and> gkSub gk = sub \<and>
                 resType (gkRes gk) = resourceType \<and> resID (gkRes gk) \<noteq> '''' \<and> key \<in> set ks) (pmGrants m)), False))"

definition addSubject :: "Subject \<Rightarrow> Subject list \<Rightarrow> Subject list" where
  "addSubject s out = (if s \<in> set out then out else out @ [s])"

definition grantStep :: "ID \<Rightarrow> string \<Rightarrow> Resource \<Rightarrow> permGrantKey \<times> string list \<Rightarrow> Subject list \<Rightarrow> Subject list" where
  "grantStep tenantID key res g out =
     (if gkTenant (fst g) \<noteq> tenantID \<or> gkRes (fst g) \<noteq> res then out
      else if key \<in> set (snd g) then addSubject (gkSub (fst g)) out else out)"

definition superStep :: "ID \<Rightarrow> permSuperKey \<Rightarrow> Subject list \<Rightarrow> Subject list" where
  "superStep tenantID sk out = (if skTenant sk \<noteq> tenantID then out else addSubject (skSub sk) out)"

definition memSubjectsWithPermission :: "PermMem \<Rightarrow> ID \<Rightarrow> string \<Rightarrow> Resource \<Rightarrow> authz_err + Subject list" where
  "memSubjectsWithPermission m tenantID key res =
     (case scopeGate tenantID of
        Some err \<Rightarrow> Inl err
      | None \<Rightarrow> Inr (fold (superStep tenantID) (pmSuperusers m)
                     (fold (grantStep tenantID key res) (pmGrants m) [])))"

definition memPermissionStore :: "PermMem \<Rightarrow> PermissionStore" where
  "memPermissionStore m = \<lparr>PermissionsFor = memPermissionsFor m,
     ResourcesWithPermission = memResourcesWithPermission m,
     SubjectsWithPermission = memSubjectsWithPermission m\<rparr>"

section \<open>The adapter over the rank model\<close>

definition effRank :: "RBAC \<Rightarrow> ID \<Rightarrow> Subject \<Rightarrow> (Resource, nat) go_map \<Rightarrow> Resource
    \<Rightarrow> authz_err + nat \<times> (Resource, nat) go_map" where
  "effRank e tenantID sub ranks target =
     (case map_of ranks target of
        Some r \<Rightarrow> Inr (r, ranks)
      | None \<Rightarrow> (case effective e tenantID sub target of
          Inl err \<Rightarrow> Inl err
        | Inr (role, r) \<Rightarrow> Inr (r, AList.update target r ranks)))"

fun actionHeld :: "RBAC \<Rightarrow> ID \<Rightarrow> Subject \<Rightarrow> Resource \<Rightarrow> (Resource, nat) go_map \<Rightarrow> Requirement list
    \<Rightarrow> authz_err + bool \<times> (Resource, nat) go_map" where
  "actionHeld e tenantID sub res ranks [] = Inr (False, ranks)"
| "actionHeld e tenantID sub res ranks (req # reqs) =
     (case effRank e tenantID sub ranks (targetOf req res) of
        Inl err \<Rightarrow> Inl err
      | Inr (r, ranks') \<Rightarrow>
          if r \<ge> rank (rbH e) (reqType req) (reqMin req) then Inr (True, ranks')
          else actionHeld e tenantID sub res ranks' reqs)"

fun heldActions :: "RBAC \<Rightarrow> ID \<Rightarrow> Subject \<Rightarrow> Resource \<Rightarrow> (Resource, nat) go_map \<Rightarrow> string list \<Rightarrow> Policy
    \<Rightarrow> authz_err + string list" where
  "heldActions e tenantID sub res ranks keys [] = Inr keys"
| "heldActions e tenantID sub res ranks keys ((act, reqs) # p) =
     (case actionHeld e tenantID sub res ranks reqs of
        Inl err \<Rightarrow> Inl err
      | Inr (held, ranks') \<Rightarrow> heldActions e tenantID sub res ranks' (if held then List.insert act keys else keys) p)"

definition rbacPermissionsFor :: "RBAC \<Rightarrow> ID \<Rightarrow> Subject \<Rightarrow> Resource \<Rightarrow> authz_err + PermissionSetResult" where
  "rbacPermissionsFor e tenantID sub res =
     (case gate tenantID sub of
        Some err \<Rightarrow> Inl err
      | None \<Rightarrow> (case heldActions e tenantID sub res [] [] (rbP e) of
          Inl err \<Rightarrow> Inl err
        | Inr keys \<Rightarrow> Inr \<lparr>psKeys = keys, psSuperuser = False\<rparr>))"

definition rbacPermissionStore :: "RBAC \<Rightarrow> PermissionStore" where
  "rbacPermissionStore e = \<lparr>PermissionsFor = rbacPermissionsFor e,
     ResourcesWithPermission = ListResources e,
     SubjectsWithPermission = (\<lambda>tenantID key res.
       (case ListSubjects e tenantID key res of Inl err \<Rightarrow> Inl err | Inr (subs, _) \<Rightarrow> Inr subs))\<rparr>"

definition NewRBACPermissionStore :: "BindingStore option \<Rightarrow> Hierarchy \<Rightarrow> Policy \<Rightarrow> authz_err + PermissionStore" where
  "NewRBACPermissionStore store h p =
     (case NewRBAC store h p of Inl err \<Rightarrow> Inl err | Inr e \<Rightarrow> Inr (rbacPermissionStore e))"

section \<open>The engine over any store\<close>

interpretation permission_set: authorizer "PSCheck st" "PSCheckBulk st" for st
  by unfold_locales (auto simp: PSCheck_def PSCheckBulk_def split: option.splits)

lemma PSCheck_allowed:
  "act \<noteq> '''' \<Longrightarrow> PermissionsFor st t sub res = Inr ps \<Longrightarrow> Valid t \<Longrightarrow> Valid (subTenant sub) \<Longrightarrow>
   \<exists>d. PSCheck st t sub act res = Inr d \<and> (Allowed d \<longleftrightarrow> allows ps act)"
  by (auto simp: PSCheck_def gate_eq allows_def)

lemma set_dedupResources:
  "set (dedupResources rt out rs) = set out \<union> {r \<in> set rs. resType r = rt \<and> resID r \<noteq> ''''}"
  by (induction rs arbitrary: out) auto

lemma distinct_dedupResources: "distinct out \<Longrightarrow> distinct (dedupResources rt out rs)"
  by (induction rs arbitrary: out) auto

lemma dedupResources_id:
  "distinct (out @ rs) \<Longrightarrow> \<forall>r\<in>set rs. resType r = rt \<and> resID r \<noteq> '''' \<Longrightarrow> dedupResources rt out rs = out @ rs"
  by (induction rs arbitrary: out) auto

lemma dedupSubjects_ok:
  "\<forall>s\<in>set subs. Valid (subTenant s) \<Longrightarrow>
   \<exists>out'. dedupSubjects out subs = Inr out' \<and> set out' = set out \<union> set subs \<and> (distinct out \<longrightarrow> distinct out')"
proof (induction subs arbitrary: out)
  case (Cons s subs)
  show ?case
  proof (cases "s \<in> set out")
    case True
    with Cons.prems Cons.IH [of out] show ?thesis by (auto simp: insert_absorb)
  next
    case False
    with Cons.prems Cons.IH [of "out @ [s]"] show ?thesis by auto
  qed
qed simp

lemma dedupSubjects_id:
  "distinct (out @ subs) \<Longrightarrow> \<forall>s\<in>set subs. Valid (subTenant s) \<Longrightarrow> dedupSubjects out subs = Inr (out @ subs)"
  by (induction subs arbitrary: out) auto

section \<open>The contract of a permission store\<close>

locale permission_store =
  fixes inv :: "'s \<Rightarrow> bool"
    and holds :: "'s \<Rightarrow> ID \<Rightarrow> Subject \<Rightarrow> string \<Rightarrow> Resource \<Rightarrow> bool"
    and ops :: "'s \<Rightarrow> PermissionStore"
  assumes permissionsOk: "\<lbrakk>inv s; Valid t; Valid (subTenant sub)\<rbrakk> \<Longrightarrow>
      \<exists>ps. PermissionsFor (ops s) t sub res = Inr ps \<and>
        (\<forall>key. key \<noteq> '''' \<longrightarrow> (allows ps key \<longleftrightarrow> holds s t sub key res))"
    and resourcesOk: "\<lbrakk>inv s; Valid t; Valid (subTenant sub); key \<noteq> '''';
        ResourcesWithPermission (ops s) t sub key rt = Inr (rs, unb); resType r = rt; resID r \<noteq> ''''\<rbrakk> \<Longrightarrow>
      holds s t sub key r \<longleftrightarrow> unb \<or> r \<in> set rs"
    and subjectsOk: "\<lbrakk>inv s; Valid t; key \<noteq> ''''; SubjectsWithPermission (ops s) t key res = Inr subs\<rbrakk> \<Longrightarrow>
      (\<forall>v\<in>set subs. Valid (subTenant v)) \<and> (\<forall>v. Valid (subTenant v) \<longrightarrow> (v \<in> set subs \<longleftrightarrow> holds s t v key res))"
begin

lemma PSCheck_iff_holds:
  assumes "inv s" "Valid t" "Valid (subTenant sub)"
  shows "\<exists>d. PSCheck (ops s) t sub act res = Inr d \<and> (Allowed d \<longleftrightarrow> act \<noteq> '''' \<and> holds s t sub act res)"
proof (cases "act = ''''")
  case True
  with assms show ?thesis by (simp add: PSCheck_def gate_eq)
next
  case False
  with permissionsOk [OF assms, of res] PSCheck_allowed assms(2,3) show ?thesis by metis
qed

lemma PSListResources_agrees:
  assumes "inv s" "Valid t" "Valid (subTenant sub)" "act \<noteq> ''''"
    "PSListResources (ops s) t sub act rt = Inr (rs, unb)" "resType r = rt" "resID r \<noteq> ''''"
  shows "holds s t sub act r \<longleftrightarrow> unb \<or> r \<in> set rs"
proof -
  obtain rs' where "ResourcesWithPermission (ops s) t sub act rt = Inr (rs', unb)"
    "rs = sort_key resID (dedupResources rt [] rs')"
    using assms(2-5) by (auto simp: PSListResources_def gate_eq split: sum.splits)
  with resourcesOk [OF assms(1-4) this(1) assms(6,7)] assms(6,7) show ?thesis
    by (auto simp: set_dedupResources)
qed

lemma PSListSubjects_agrees:
  assumes "inv s" "Valid t" "act \<noteq> ''''" "PSListSubjects (ops s) t act res = Inr (subs, unb)" "Valid (subTenant v)"
  shows "v \<in> set subs \<longleftrightarrow> holds s t v act res"
proof -
  obtain subs' out where subs': "SubjectsWithPermission (ops s) t act res = Inr subs'"
    "dedupSubjects [] subs' = Inr out" "subs = sortSubjects out"
    using assms(2-4) by (auto simp: PSListSubjects_def scopeGate_def split: sum.splits)
  with dedupSubjects_ok [of subs' "[]"] subjectsOk [OF assms(1-3) subs'(1)] assms(5) show ?thesis
    by (auto simp: sortSubjects_def)
qed

end

section \<open>MemPermissionStore keeps the contract\<close>

definition permMemInv :: "PermMem \<Rightarrow> bool" where
  "permMemInv m \<longleftrightarrow> distinct (map fst (pmGrants m)) \<and>
     (\<forall>gk ks. map_of (pmGrants m) gk = Some ks \<longrightarrow>
        Valid (gkTenant gk) \<and> Valid (subTenant (gkSub gk)) \<and> SuperuserKey \<notin> set ks) \<and>
     (\<forall>sk\<in>set (pmSuperusers m). Valid (skTenant sk) \<and> Valid (subTenant (skSub sk)))"

definition permMemHolds :: "PermMem \<Rightarrow> ID \<Rightarrow> Subject \<Rightarrow> string \<Rightarrow> Resource \<Rightarrow> bool" where
  "permMemHolds m t sub key res \<longleftrightarrow> isSuperuser m t sub \<or>
     (\<exists>ks. map_of (pmGrants m) \<lparr>gkTenant = t, gkSub = sub, gkRes = res\<rparr> = Some ks \<and> key \<in> set ks)"

lemma set_fold_addKey: "set (fold addKey keys ks) = set ks \<union> (set keys - {SuperuserKey})"
  by (induction keys arbitrary: ks) (auto simp: addKey_def)

lemma permMemInv_New [simp]: "permMemInv NewPermMem"
  by (simp add: permMemInv_def NewPermMem_def)

lemma permMemInv_Grant [simp]:
  assumes "permMemInv m"
  shows "permMemInv (snd (GrantKeys m t sub res keys))"
  using assms
  by (auto simp: permMemInv_def GrantKeys_def Let_def alist_simps set_fold_addKey split: option.splits)

lemma permMemInv_Superuser [simp]:
  assumes "permMemInv m"
  shows "permMemInv (snd (GrantSuperuser m t sub))"
  using assms by (auto simp: permMemInv_def GrantSuperuser_def split: option.splits)

lemma fold_grants_set:
  "set (fold (grantStep t key res) gs out) =
   set out \<union> {v. \<exists>ks. (\<lparr>gkTenant = t, gkSub = v, gkRes = res\<rparr>, ks) \<in> set gs \<and> key \<in> set ks}"
proof (induction gs arbitrary: out)
  case (Cons g gs)
  obtain gt gv gr ks where g: "g = (\<lparr>gkTenant = gt, gkSub = gv, gkRes = gr\<rparr>, ks)"
    by (metis permGrantKey.cases surj_pair)
  show ?case unfolding fold_simps Cons.IH by (auto simp: g grantStep_def addSubject_def)
qed simp

lemma fold_superusers_set:
  "set (fold (superStep t) sks out) = set out \<union> {v. \<lparr>skTenant = t, skSub = v\<rparr> \<in> set sks}"
proof (induction sks arbitrary: out)
  case (Cons sk sks)
  obtain st sv where sk: "sk = \<lparr>skTenant = st, skSub = sv\<rparr>" by (metis permSuperKey.cases)
  show ?case unfolding fold_simps Cons.IH by (auto simp: sk superStep_def addSubject_def)
qed simp

lemma mem_grants_iff:
  "permMemInv m \<Longrightarrow> (gk, ks) \<in> set (pmGrants m) \<longleftrightarrow> map_of (pmGrants m) gk = Some ks"
  by (simp add: permMemInv_def map_of_eq_Some_iff)

interpretation mem_permissions: permission_store permMemInv permMemHolds memPermissionStore
proof unfold_locales
  fix m t and sub :: Subject and res
  assume "permMemInv m" "Valid t" "Valid (subTenant sub)"
  then show "\<exists>ps. PermissionsFor (memPermissionStore m) t sub res = Inr ps \<and>
      (\<forall>key. key \<noteq> '''' \<longrightarrow> (allows ps key \<longleftrightarrow> permMemHolds m t sub key res))"
    by (cases "map_of (pmGrants m) \<lparr>gkTenant = t, gkSub = sub, gkRes = res\<rparr>")
      (auto simp: memPermissionStore_def memPermissionsFor_def gate_eq allows_def permMemHolds_def)
next
  fix m t and sub :: Subject and key rt rs unb and r :: Resource
  assume a: "permMemInv m" "Valid t" "Valid (subTenant sub)"
    "ResourcesWithPermission (memPermissionStore m) t sub key rt = Inr (rs, unb)" "resType r = rt" "resID r \<noteq> ''''"
  show "permMemHolds m t sub key r \<longleftrightarrow> unb \<or> r \<in> set rs"
  proof (cases "isSuperuser m t sub")
    case True
    with a show ?thesis
      by (auto simp: memPermissionStore_def memResourcesWithPermission_def gate_eq permMemHolds_def)
  next
    case False
    let ?P = "\<lambda>gk ks. gkTenant gk = t \<and> gkSub gk = sub \<and> resType (gkRes gk) = rt \<and> resID (gkRes gk) \<noteq> [] \<and> key \<in> set ks"
    have rs: "\<not> unb" "rs = map (gkRes \<circ> fst) (filter (\<lambda>(gk, ks). ?P gk ks) (pmGrants m))"
      using a False by (auto simp: memPermissionStore_def memResourcesWithPermission_def gate_eq)
    have "r \<in> set rs \<longleftrightarrow> (\<exists>gk ks. (gk, ks) \<in> set (pmGrants m) \<and> ?P gk ks \<and> gkRes gk = r)"
      unfolding rs by force
    also have "\<dots> \<longleftrightarrow> (\<exists>ks. (\<lparr>gkTenant = t, gkSub = sub, gkRes = r\<rparr>, ks) \<in> set (pmGrants m) \<and> key \<in> set ks)"
    proof
      assume "\<exists>gk ks. (gk, ks) \<in> set (pmGrants m) \<and> ?P gk ks \<and> gkRes gk = r"
      then obtain gk ks where "(gk, ks) \<in> set (pmGrants m)" "?P gk ks" "gkRes gk = r" by blast
      then show "\<exists>ks. (\<lparr>gkTenant = t, gkSub = sub, gkRes = r\<rparr>, ks) \<in> set (pmGrants m) \<and> key \<in> set ks"
        by (cases gk) auto
    next
      assume "\<exists>ks. (\<lparr>gkTenant = t, gkSub = sub, gkRes = r\<rparr>, ks) \<in> set (pmGrants m) \<and> key \<in> set ks"
      then show "\<exists>gk ks. (gk, ks) \<in> set (pmGrants m) \<and> ?P gk ks \<and> gkRes gk = r"
        using a(5,6) by (metis permGrantKey.select_convs)
    qed
    finally show ?thesis
      using a(1) False rs(1) by (simp add: permMemHolds_def mem_grants_iff)
  qed
next
  fix m t key res subs
  assume a: "permMemInv m" "Valid t" "SubjectsWithPermission (memPermissionStore m) t key res = Inr subs"
  then have "set subs = {v. permMemHolds m t v key res}"
    by (auto simp: memPermissionStore_def memSubjectsWithPermission_def scopeGate_def Let_def
        fold_grants_set fold_superusers_set permMemHolds_def isSuperuser_def mem_grants_iff)
  moreover have "Valid (subTenant v)" if "permMemHolds m t v key res" for v
    using a(1) that by (fastforce simp: permMemHolds_def permMemInv_def isSuperuser_def)
  ultimately show "(\<forall>v\<in>set subs. Valid (subTenant v)) \<and>
      (\<forall>v. Valid (subTenant v) \<longrightarrow> (v \<in> set subs \<longleftrightarrow> permMemHolds m t v key res))"
    by auto
qed

section \<open>The adapter reproduces the rank engine\<close>

definition memoOk :: "RBAC \<Rightarrow> ID \<Rightarrow> Subject \<Rightarrow> (Resource, nat) go_map \<Rightarrow> bool" where
  "memoOk e t sub ranks \<longleftrightarrow>
     (\<forall>target r. map_of ranks target = Some r \<longrightarrow> (\<exists>role. effective e t sub target = Inr (role, r)))"

lemma effRank_ok:
  assumes "memoOk e t sub ranks" "effRank e t sub ranks target = Inr (r, ranks')"
  shows "memoOk e t sub ranks' \<and> (\<exists>role. effective e t sub target = Inr (role, r))"
  using assms by (auto simp: effRank_def memoOk_def alist_simps split: option.splits sum.splits if_splits)

lemma effRank_total:
  assumes "effective e t sub target = Inr x"
  shows "\<exists>r ranks'. effRank e t sub ranks target = Inr (r, ranks')"
  using assms by (cases x) (auto simp: effRank_def split: option.splits)

lemma actionHeld_parity:
  assumes "memoOk e t sub ranks" "actionHeld e t sub res ranks reqs = Inr (held, ranks')"
  shows "memoOk e t sub ranks' \<and> (\<exists>d. checkRequirements e t sub act res reqs = Inr d \<and> Allowed d = held)"
  using assms
proof (induction reqs arbitrary: ranks)
  case Nil
  then show ?case by auto
next
  case (Cons req reqs)
  obtain r ranks1 where r: "effRank e t sub ranks (targetOf req res) = Inr (r, ranks1)"
    using Cons.prems(2) by (auto split: sum.splits)
  with effRank_ok [OF Cons.prems(1) r] Cons show ?case by (fastforce split: if_splits)
qed

lemma actionHeld_total:
  assumes "memoOk e t sub ranks" "\<And>target. \<exists>x. effective e t sub target = Inr x"
  shows "\<exists>held ranks'. actionHeld e t sub res ranks reqs = Inr (held, ranks')"
  using assms(1)
proof (induction reqs arbitrary: ranks)
  case Nil
  then show ?case by auto
next
  case (Cons req reqs)
  obtain r ranks1 where r: "effRank e t sub ranks (targetOf req res) = Inr (r, ranks1)"
    using effRank_total assms(2) by metis
  with effRank_ok [OF Cons.prems r] Cons.IH [of ranks1] show ?case by auto
qed

lemma heldActions_parity:
  assumes "memoOk e t sub ranks" "distinct (map fst p)" "heldActions e t sub res ranks keys p = Inr keys'"
  shows "(\<forall>act reqs. map_of p act = Some reqs \<longrightarrow> (\<exists>d. checkRequirements e t sub act res reqs = Inr d \<and>
      (act \<in> set keys' \<longleftrightarrow> act \<in> set keys \<or> Allowed d))) \<and>
    (\<forall>act. map_of p act = None \<longrightarrow> (act \<in> set keys' \<longleftrightarrow> act \<in> set keys))"
  using assms
proof (induction p arbitrary: ranks keys)
  case Nil
  then show ?case by simp
next
  case (Cons ar p)
  obtain a reqs where [simp]: "ar = (a, reqs)" by (cases ar)
  obtain held ranks1 where h: "actionHeld e t sub res ranks reqs = Inr (held, ranks1)"
    and rest: "heldActions e t sub res ranks1 (if held then List.insert a keys else keys) p = Inr keys'"
    using Cons.prems(3) by (auto split: sum.splits)
  from actionHeld_parity [OF Cons.prems(1) h, of a] obtain d where
    d: "memoOk e t sub ranks1" "checkRequirements e t sub a res reqs = Inr d" "Allowed d = held" by blast
  have a: "map_of p a = None" using Cons.prems(2) by (simp add: map_of_eq_None_iff)
  have "distinct (map fst p)" using Cons.prems(2) by simp
  note IH = Cons.IH [OF d(1) this rest]
  show ?case
  proof (intro conjI allI impI)
    fix act rq
    assume "map_of (ar # p) act = Some rq"
    then consider "act = a" "rq = reqs" | "act \<noteq> a" "map_of p act = Some rq" by (auto split: if_splits)
    then show "\<exists>d. checkRequirements e t sub act res rq = Inr d \<and> (act \<in> set keys' \<longleftrightarrow> act \<in> set keys \<or> Allowed d)"
    proof cases
      case 1
      with IH a d show ?thesis by auto
    next
      case 2
      with IH obtain d' where "checkRequirements e t sub act res rq = Inr d'"
        "act \<in> set keys' \<longleftrightarrow> act \<in> set (if held then List.insert a keys else keys) \<or> Allowed d'" by blast
      with 2(1) show ?thesis by (auto split: if_splits)
    qed
  next
    fix act
    assume "map_of (ar # p) act = None"
    with IH show "act \<in> set keys' \<longleftrightarrow> act \<in> set keys" by (auto split: if_splits)
  qed
qed

lemma heldActions_total:
  assumes "memoOk e t sub ranks" "\<And>target. \<exists>x. effective e t sub target = Inr x"
  shows "\<exists>keys'. heldActions e t sub res ranks keys p = Inr keys'"
  using assms(1)
proof (induction p arbitrary: ranks keys)
  case Nil
  then show ?case by simp
next
  case (Cons ar p)
  obtain a reqs where [simp]: "ar = (a, reqs)" by (cases ar)
  obtain held ranks1 where h: "actionHeld e t sub res ranks reqs = Inr (held, ranks1)"
    using actionHeld_total [OF Cons.prems assms(2)] by blast
  with actionHeld_parity [OF Cons.prems h] Cons.IH show ?case by simp
qed

lemma rbacOk_no_empty_action: "rbacOk e \<Longrightarrow> map_of (rbP e) '''' = None"
  by (auto simp: rbacOk_def validate_None_iff map_of_eq_None_iff)

lemma rbac_adapter_parity:
  assumes "rbacOk e" "distinct (map fst (rbP e))" "PSCheck (rbacPermissionStore e) t sub act res = Inr d"
  shows "\<exists>d'. Check e t sub act res = Inr d' \<and> Allowed d' = Allowed d"
proof (cases "act = ''''")
  case True
  with assms show ?thesis
    by (auto simp: PSCheck_def Check_def gate_eq rbacOk_no_empty_action split: if_splits)
next
  case False
  have memo: "memoOk e t sub []" by (simp add: memoOk_def)
  obtain keys where k: "heldActions e t sub res [] [] (rbP e) = Inr keys" and v: "Valid t" "Valid (subTenant sub)"
    and d: "Allowed d \<longleftrightarrow> act \<in> set keys"
    using assms(3) False
    by (auto simp: PSCheck_def gate_eq rbacPermissionStore_def rbacPermissionsFor_def allows_def
        split: if_splits sum.splits)
  show ?thesis
  proof (cases "map_of (rbP e) act")
    case None
    with heldActions_parity [OF memo assms(2) k] v d show ?thesis by (simp add: Check_def gate_eq)
  next
    case (Some reqs)
    with heldActions_parity [OF memo assms(2) k] v d show ?thesis by (fastforce simp: Check_def gate_eq)
  qed
qed

lemma rbac_adapter_total:
  assumes "Valid t" "Valid (subTenant sub)" "\<And>target. \<exists>bs. BindingsFor (rbStore e) t sub target = Inr bs"
  shows "\<exists>d. PSCheck (rbacPermissionStore e) t sub act res = Inr d"
proof -
  have "\<exists>x. effective e t sub target = Inr x" for target
    using assms(3) [of target] by (auto simp: effective_def)
  then obtain keys where "heldActions e t sub res [] [] (rbP e) = Inr keys"
    using heldActions_total [of e t sub "[]" res "[]" "rbP e"] by (auto simp: memoOk_def)
  with assms(1,2) show ?thesis
    by (auto simp: PSCheck_def gate_eq rbacPermissionStore_def rbacPermissionsFor_def)
qed

lemma ListResources_shape:
  assumes "ListResources e t sub act rt = Inr (rs, unb)"
  shows "distinct rs \<and> sorted (map resID rs) \<and> (\<forall>r\<in>set rs. resType r = rt \<and> resID r \<noteq> '''')"
proof -
  have "rs = [] \<or> (\<exists>l bs. rs = sort_key resID (collectResources (rbH e) t sub rt l [] bs))"
    using assms by (fastforce simp: ListResources_def split: option.splits sum.splits if_splits)
  then show ?thesis
    by (auto simp: mem_collectResources distinct_collectResources)
qed

lemma collectSubjects_valid:
  "collectSubjects h t target n out bs = Inr out' \<Longrightarrow> \<forall>s\<in>set out. Valid (subTenant s) \<Longrightarrow> distinct out \<Longrightarrow>
   (\<forall>s\<in>set out'. Valid (subTenant s)) \<and> distinct out'"
proof (induction bs arbitrary: out)
  case (Cons b bs)
  show ?case
    using Cons.prems Cons.IH [of out] Cons.IH [of "out @ [bSubject b]"] by (simp split: if_splits)
qed simp

lemma subjectsAlong_valid:
  "subjectsAlong e t res out reqs = Inr out' \<Longrightarrow> \<forall>s\<in>set out. Valid (subTenant s) \<Longrightarrow> distinct out \<Longrightarrow>
   (\<forall>s\<in>set out'. Valid (subTenant s)) \<and> distinct out'"
proof (induction reqs arbitrary: out)
  case (Cons req reqs)
  then obtain bs mid where "collectSubjects (rbH e) t (targetOf req res) (rank (rbH e) (reqType req) (reqMin req)) out bs = Inr mid"
    "subjectsAlong e t res mid reqs = Inr out'" by (auto split: sum.splits)
  with collectSubjects_valid Cons show ?case by blast
qed simp

lemma ListSubjects_shape:
  assumes "ListSubjects e t act res = Inr (subs, unb)"
  shows "distinct subs \<and> (\<forall>s\<in>set subs. Valid (subTenant s)) \<and> sortSubjects subs = subs \<and> unb = False"
proof -
  obtain reqs out where o: "subjectsAlong e t res [] reqs = Inr out" "subs = sortSubjects out" "\<not> unb"
    using assms by (auto simp: ListSubjects_def split: option.splits sum.splits)
  with subjectsAlong_valid [OF o(1)] show ?thesis
    by (simp add: sortSubjects_def sort_key_id_if_sorted)
qed

text \<open>Over the in-memory bindings the adapter keeps the contract, with the rank model's own grants.\<close>

definition rankEngine :: "BindingMem \<times> Hierarchy \<times> Policy \<Rightarrow> RBAC" where
  "rankEngine s = (case s of (m, h, p) \<Rightarrow> \<lparr>rbStore = memBindingStore m, rbH = h, rbP = p\<rparr>)"

definition rankModelInv :: "BindingMem \<times> Hierarchy \<times> Policy \<Rightarrow> bool" where
  "rankModelInv s = (case s of (m, h, p) \<Rightarrow> bindingMemInv m \<and> validate h p = None \<and> distinct (map fst p))"

definition rankModelHolds :: "BindingMem \<times> Hierarchy \<times> Policy \<Rightarrow> ID \<Rightarrow> Subject \<Rightarrow> string \<Rightarrow> Resource \<Rightarrow> bool" where
  "rankModelHolds s = (case s of (m, h, p) \<Rightarrow> permitted (set m) h p)"

lemma rankEngine_simps [simp]:
  "rbStore (rankEngine (m, h, p)) = memBindingStore m" "rbH (rankEngine (m, h, p)) = h" "rbP (rankEngine (m, h, p)) = p"
  by (simp_all add: rankEngine_def)

lemma rankModel_permissions:
  assumes "rankModelInv (m, h, p)" "Valid t" "Valid (subTenant sub)"
  shows "\<exists>ps. rbacPermissionsFor (rankEngine (m, h, p)) t sub res = Inr ps \<and>
    (\<forall>key. allows ps key \<longleftrightarrow> permitted (set m) h p t sub key res)"
proof -
  let ?e = "rankEngine (m, h, p)"
  have inv: "bindingMemInv m" "rbacOk ?e" "distinct (map fst (rbP ?e))"
    using assms(1) by (auto simp: rankModelInv_def rbacOk_def)
  have memo: "memoOk ?e t sub []" by (simp add: memoOk_def)
  have "\<exists>x. effective ?e t sub target = Inr x" for target
    using mem_bindings.forOk [OF inv(1) assms(2,3), of target] by (auto simp: effective_def)
  from heldActions_total [OF memo this] obtain keys where
    k: "heldActions ?e t sub res [] [] (rbP ?e) = Inr keys" by blast
  have "key \<in> set keys \<longleftrightarrow> permitted (set m) h p t sub key res" for key
  proof (cases "map_of p key")
    case None
    with heldActions_parity [OF memo inv(3) k] show ?thesis by (simp add: permitted_def)
  next
    case (Some reqs)
    obtain d where "checkRequirements ?e t sub key res reqs = Inr d" "key \<in> set keys \<longleftrightarrow> Allowed d"
      using heldActions_parity [OF memo inv(3) k] Some by fastforce
    with mem_bindings.Check_iff_permitted [OF inv(1) _ inv(2) assms(2,3), of key res] Some assms(2,3)
    show ?thesis by (auto simp: Check_def gate_eq)
  qed
  with k assms(2,3) show ?thesis by (simp add: rbacPermissionsFor_def gate_eq allows_def)
qed

interpretation rank_permissions: permission_store rankModelInv rankModelHolds "\<lambda>s. rbacPermissionStore (rankEngine s)"
proof unfold_locales
  fix s t and sub :: Subject and res
  assume "rankModelInv s" "Valid t" "Valid (subTenant sub)"
  then show "\<exists>ps. PermissionsFor (rbacPermissionStore (rankEngine s)) t sub res = Inr ps \<and>
      (\<forall>key. key \<noteq> '''' \<longrightarrow> (allows ps key \<longleftrightarrow> rankModelHolds s t sub key res))"
    using rankModel_permissions by (cases s) (fastforce simp: rbacPermissionStore_def rankModelHolds_def)
next
  fix s t and sub :: Subject and key rt rs unb and r :: Resource
  assume a: "rankModelInv s" "Valid t" "Valid (subTenant sub)"
    "ResourcesWithPermission (rbacPermissionStore (rankEngine s)) t sub key rt = Inr (rs, unb)" "resType r = rt" "resID r \<noteq> ''''"
  obtain m h p where s: "s = (m, h, p)" by (cases s)
  obtain reqs where "map_of p key = Some reqs"
    using a(2-4) s by (auto simp: rbacPermissionStore_def ListResources_def gate_eq split: option.splits)
  with mem_bindings.ListResources_ok [of m "rankEngine s" t sub key reqs rt] a s show "rankModelHolds s t sub key r \<longleftrightarrow> unb \<or> r \<in> set rs"
    by (auto simp: rankModelInv_def rbacOk_def rankModelHolds_def rbacPermissionStore_def)
next
  fix s t key res subs
  assume a: "rankModelInv s" "Valid t" "SubjectsWithPermission (rbacPermissionStore (rankEngine s)) t key res = Inr subs"
  obtain m h p where s: "s = (m, h, p)" by (cases s)
  obtain unb where ls: "ListSubjects (rankEngine s) t key res = Inr (subs, unb)"
    using a(3) by (auto simp: rbacPermissionStore_def split: sum.splits)
  then obtain reqs where "map_of p key = Some reqs"
    using a(2) s by (auto simp: ListSubjects_def scopeGate_def split: option.splits)
  with mem_bindings.ListSubjects_ok [of m "rankEngine s" t key reqs res] a s ls ListSubjects_shape [OF ls]
  show "(\<forall>v\<in>set subs. Valid (subTenant v)) \<and>
      (\<forall>v. Valid (subTenant v) \<longrightarrow> (v \<in> set subs \<longleftrightarrow> rankModelHolds s t v key res))"
    by (auto simp: rankModelInv_def rankModelHolds_def)
qed

section \<open>Properties\<close>

text \<open>
  C5. Parity of the two engines. A \<^verbatim>\<open>PermissionSet\<close> over the adapter never decides
  differently from the \<^verbatim>\<open>RBAC\<close> engine it wraps: whenever it answers, \<^verbatim>\<open>RBAC\<close> answers the
  same verdict; it answers whenever every binding read succeeds; and for a named
  action both reverse queries are equal, errors included.
\<close>

theorem PermissionSet_RBAC_parity:
  assumes "NewRBAC (Some store) h p = Inr e" "distinct (map fst p)"
  shows "(PSCheck (rbacPermissionStore e) t sub act res = Inr d \<longrightarrow>
       (\<exists>d'. Check e t sub act res = Inr d' \<and> Allowed d' = Allowed d)) \<and>
    (Valid t \<and> Valid (subTenant sub) \<and> (\<forall>target. \<exists>bs. BindingsFor store t sub target = Inr bs) \<longrightarrow>
       (\<exists>d. PSCheck (rbacPermissionStore e) t sub act res = Inr d)) \<and>
    (act \<noteq> '''' \<longrightarrow> PSListResources (rbacPermissionStore e) t sub act rt = ListResources e t sub act rt \<and>
       PSListSubjects (rbacPermissionStore e) t act res = ListSubjects e t act res)"
proof -
  have e: "rbacOk e" "rbStore e = store" "rbP e = p" using NewRBAC_ok [OF assms(1)] by auto
  have "PSListResources (rbacPermissionStore e) t sub act rt = ListResources e t sub act rt" if "act \<noteq> ''''"
  proof (cases "ListResources e t sub act rt")
    case (Inl err)
    with that show ?thesis
      by (auto simp: PSListResources_def rbacPermissionStore_def ListResources_def split: option.splits)
  next
    case (Inr ru)
    obtain rs unb where ru: "ru = (rs, unb)" by (cases ru)
    have "gate t sub = None" using Inr by (auto simp: ListResources_def gate_eq split: if_splits)
    with Inr ru that show ?thesis
      using ListResources_shape [of e t sub act rt rs unb]
      by (simp add: PSListResources_def gate_eq rbacPermissionStore_def dedupResources_id sort_key_id_if_sorted)
  qed
  moreover have "PSListSubjects (rbacPermissionStore e) t act res = ListSubjects e t act res" if "act \<noteq> ''''"
  proof (cases "ListSubjects e t act res")
    case (Inl err)
    with that show ?thesis
      by (auto simp: PSListSubjects_def rbacPermissionStore_def ListSubjects_def split: option.splits)
  next
    case (Inr su)
    obtain subs unb where su: "su = (subs, unb)" by (cases su)
    have "scopeGate t = None" using Inr by (auto simp: ListSubjects_def scopeGate_def split: if_splits)
    with Inr su that show ?thesis
      using ListSubjects_shape [of e t act res subs unb]
      by (simp add: PSListSubjects_def scopeGate_def rbacPermissionStore_def dedupSubjects_id)
  qed
  ultimately show ?thesis
    using rbac_adapter_parity [OF e(1)] rbac_adapter_total [of t sub e] assms(2) e(2,3) by auto
qed

theorem PermissionSet_RBAC_parity_witness:
  "let u = \<lparr>subTenant = NewID ''acme'', subType = ''user'', subID = ''u''\<rparr>;
       r = \<lparr>resType = ''doc'', resID = ''1''\<rparr>;
       c = \<lparr>bTenant = NewID ''acme'', bSubject = u, bResource = r, bRole = ''viewer''\<rparr>;
       h = [(''doc'', [''viewer'', ''admin''])];
       p = [(''doc.read'', [\<lparr>reqType = ''doc'', reqMin = ''viewer''\<rparr>]),
            (''doc.drop'', [\<lparr>reqType = ''doc'', reqMin = ''admin''\<rparr>])];
       e = \<lparr>rbStore = leakyStore c c, rbH = h, rbP = p\<rparr>
   in PSCheck (rbacPermissionStore e) (NewID ''acme'') u ''doc.read'' r =
        Inr \<lparr>Allowed = True, Reason = PermissionHeld ''doc.read'' r\<rparr> \<and>
      (\<exists>d'. Check e (NewID ''acme'') u ''doc.read'' r = Inr d' \<and> Allowed d') \<and>
      PSListSubjects (rbacPermissionStore e) (NewID ''acme'') ''doc.drop'' r =
        ListSubjects e (NewID ''acme'') ''doc.drop'' r"
proof -
  let ?u = "\<lparr>subTenant = NewID ''acme'', subType = ''user'', subID = ''u''\<rparr>"
  let ?r = "\<lparr>resType = ''doc'', resID = ''1''\<rparr>"
  let ?c = "\<lparr>bTenant = NewID ''acme'', bSubject = ?u, bResource = ?r, bRole = ''viewer''\<rparr>"
  let ?h = "[(''doc'', [''viewer'', ''admin''])]"
  let ?p = "[(''doc.read'', [\<lparr>reqType = ''doc'', reqMin = ''viewer''\<rparr>]),
            (''doc.drop'', [\<lparr>reqType = ''doc'', reqMin = ''admin''\<rparr>])]"
  let ?e = "\<lparr>rbStore = leakyStore ?c ?c, rbH = ?h, rbP = ?p\<rparr>"
  have new: "NewRBAC (Some (leakyStore ?c ?c)) ?h ?p = Inr ?e"
    by (simp add: NewRBAC_def validate_def requirementOk_def rank_def)
  have dist: "distinct (map fst ?p)" by simp
  have ok: "PSCheck (rbacPermissionStore ?e) (NewID ''acme'') ?u ''doc.read'' ?r =
      Inr \<lparr>Allowed = True, Reason = PermissionHeld ''doc.read'' ?r\<rparr>"
    by (simp add: PSCheck_def gate_eq rbacPermissionStore_def rbacPermissionsFor_def effRank_def
        effective_def leakyStore_def targetOf_def rank_def allows_def)
  show ?thesis
    using PermissionSet_RBAC_parity [OF new dist, of "NewID ''acme''" ?u "''doc.read''" ?r
        "\<lparr>Allowed = True, Reason = PermissionHeld ''doc.read'' ?r\<rparr>"]
      PermissionSet_RBAC_parity [OF new dist, of "NewID ''acme''" ?u "''doc.drop''" ?r] ok
    by (simp add: Let_def)
qed

text \<open>
  The one way the two engines differ: a failing read of a binding that the asked
  action does not need. \<^verbatim>\<open>RBAC\<close> allows the action, the \<^verbatim>\<open>PermissionSet\<close> over the adapter
  returns the store's error (which callers read as deny), because \<^verbatim>\<open>PermissionsFor\<close>
  evaluates the whole policy.
\<close>

theorem parity_needs_every_read:
  "\<exists>store h p e t sub act res d. NewRBAC (Some store) h p = Inr e \<and> distinct (map fst p) \<and>
     Check e t sub act res = Inr d \<and> Allowed d \<and>
     PSCheck (rbacPermissionStore e) t sub act res = Inl (ErrBindingStore ''down'')"
proof -
  let ?u = "\<lparr>subTenant = Single, subType = ''user'', subID = ''u''\<rparr>"
  let ?r = "\<lparr>resType = ''doc'', resID = ''1''\<rparr>"
  let ?c = "\<lparr>bTenant = Single, bSubject = ?u, bResource = ?r, bRole = ''viewer''\<rparr>"
  let ?s = "\<lparr>BindingsFor = (\<lambda>_ _ res. if res = ?r then Inr [?c] else Inl (ErrBindingStore ''down'')),
     BindingsForSubject = (\<lambda>_ _ _. Inr []), BindingsOnResource = (\<lambda>_ _. Inr [])\<rparr>"
  let ?h = "[(''doc'', [''viewer'']), (''sys'', [''root''])]"
  let ?p = "[(''doc.read'', [\<lparr>reqType = ''doc'', reqMin = ''viewer''\<rparr>]),
            (''sys.halt'', [\<lparr>reqType = ''sys'', reqMin = ''root''\<rparr>])]"
  let ?e = "\<lparr>rbStore = ?s, rbH = ?h, rbP = ?p\<rparr>"
  have "NewRBAC (Some ?s) ?h ?p = Inr ?e"
    by (simp add: NewRBAC_def validate_def requirementOk_def rank_def)
  moreover have "Check ?e Single ?u ''doc.read'' ?r =
      Inr \<lparr>Allowed = True, Reason = RoleSatisfies ''viewer'' ?r ''doc.read'' ''viewer''\<rparr>"
    by (simp add: Check_def gate_eq effective_def targetOf_def rank_def Single_def Valid_def)
  moreover have "PSCheck (rbacPermissionStore ?e) Single ?u ''doc.read'' ?r = Inl (ErrBindingStore ''down'')"
    by (simp add: PSCheck_def gate_eq rbacPermissionStore_def rbacPermissionsFor_def effRank_def
        effective_def targetOf_def rank_def Single_def Valid_def)
  ultimately show ?thesis by (intro exI conjI) (assumption | simp)+
qed

text \<open>
  Over \<^verbatim>\<open>MemPermissionStore\<close> the set engine decides every question that names its
  tenants: an action is allowed iff the subject is a superuser of that very scope or was
  granted exactly that key on exactly that resource there; the listings agree with it,
  and no sequence of grants can make the wildcard \<^verbatim>\<open>*\<close> a key.
\<close>

theorem PermissionSet_MemPermissionStore:
  assumes "permMemInv m" "Valid t" "Valid (subTenant sub)" "act \<noteq> ''''"
  shows "(\<exists>d. PSCheck (memPermissionStore m) t sub act res = Inr d \<and> (Allowed d \<longleftrightarrow>
        isSuperuser m t sub \<or>
        (\<exists>ks. map_of (pmGrants m) \<lparr>gkTenant = t, gkSub = sub, gkRes = res\<rparr> = Some ks \<and> act \<in> set ks))) \<and>
    (PSListResources (memPermissionStore m) t sub act (resType res) = Inr (rs, unb) \<and> resID res \<noteq> '''' \<longrightarrow>
        (permMemHolds m t sub act res \<longleftrightarrow> unb \<or> res \<in> set rs)) \<and>
    (PSListSubjects (memPermissionStore m) t act res = Inr (subs, unb') \<longrightarrow>
        (sub \<in> set subs \<longleftrightarrow> permMemHolds m t sub act res)) \<and>
    (\<forall>keys. permMemInv (snd (GrantKeys m t sub res keys)) \<and> permMemInv (snd (GrantSuperuser m t sub))) \<and>
    (\<forall>gk ks. map_of (pmGrants m) gk = Some ks \<longrightarrow> SuperuserKey \<notin> set ks)"
proof -
  have "\<forall>gk ks. map_of (pmGrants m) gk = Some ks \<longrightarrow> SuperuserKey \<notin> set ks"
    using assms(1) by (simp add: permMemInv_def)
  then show ?thesis
    using mem_permissions.PSCheck_iff_holds [OF assms(1-3), of act res]
      mem_permissions.PSListResources_agrees [OF assms, of "resType res" rs unb res]
      mem_permissions.PSListSubjects_agrees [OF assms(1,2,4), of res subs unb' sub] assms
    by (auto simp: permMemHolds_def)
qed

theorem PermissionSet_MemPermissionStore_witness:
  "let u = \<lparr>subTenant = NewID ''acme'', subType = ''user'', subID = ''u''\<rparr>;
       r = \<lparr>resType = ''doc'', resID = ''1''\<rparr>;
       m = snd (GrantKeys NewPermMem (NewID ''acme'') u r [''doc.read'', ''*''])
   in (\<exists>d. PSCheck (memPermissionStore m) (NewID ''acme'') u ''doc.read'' r = Inr d \<and> Allowed d) \<and>
      (\<exists>d. PSCheck (memPermissionStore m) (NewID ''acme'') u ''*'' r = Inr d \<and> \<not> Allowed d)"
proof -
  let ?u = "\<lparr>subTenant = NewID ''acme'', subType = ''user'', subID = ''u''\<rparr>"
  let ?r = "\<lparr>resType = ''doc'', resID = ''1''\<rparr>"
  let ?m = "snd (GrantKeys NewPermMem (NewID ''acme'') ?u ?r [''doc.read'', ''*''])"
  have m: "?m = \<lparr>pmGrants = [(\<lparr>gkTenant = NewID ''acme'', gkSub = ?u, gkRes = ?r\<rparr>, [''doc.read''])], pmSuperusers = []\<rparr>"
    by (simp add: GrantKeys_def gate_eq NewPermMem_def addKey_def SuperuserKey_def)
  have inv: "permMemInv ?m" by simp
  show ?thesis
    using PermissionSet_MemPermissionStore [OF inv, of "NewID ''acme''" ?u "''doc.read''" ?r]
      PermissionSet_MemPermissionStore [OF inv, of "NewID ''acme''" ?u "''*''" ?r]
    unfolding m by (simp add: Let_def isSuperuser_def m)
qed

end
