(* ===== verification/Crypto_Keyset.thy ===== *)
theory Crypto_Keyset
  imports Tamper_Prelude
begin

text \<open>
  Package \<^verbatim>\<open>crypto\<close>, the at-rest envelopes: the versioned \<^verbatim>\<open>KeySet\<close> (\<^verbatim>\<open>keyset.go\<close>) and the
  single-key \<^verbatim>\<open>SecretBox\<close> (\<^verbatim>\<open>secretbox.go\<close>). Bytes are \<^typ>\<open>8 word\<close>s and a key id is one
  byte. AES-GCM is the record \<^verbatim>\<open>AEAD\<close> of the two operations the code calls, with the
  nonce size it reports; \<^verbatim>\<open>newGCM\<close> stands for \<^verbatim>\<open>aes.NewCipher\<close> followed by
  \<^verbatim>\<open>cipher.NewGCM\<close>. What is assumed of them is \<^verbatim>\<open>aeadOk\<close>: opening inverts sealing and
  accepts nothing else. The random nonce of a call is an argument.
\<close>

type_synonym byte = "8 word"

section \<open>Hexadecimal\<close>

definition hexDigit :: "char \<Rightarrow> nat option" where
  "hexDigit c =
     (let n = (of_char c :: nat) in
      if 48 \<le> n \<and> n \<le> 57 then Some (n - 48)
      else if 97 \<le> n \<and> n \<le> 102 then Some (n - 87)
      else if 65 \<le> n \<and> n \<le> 70 then Some (n - 55)
      else None)"

fun hexDecode :: "string \<Rightarrow> byte list option" where
  "hexDecode [] = Some []"
| "hexDecode [c] = None"
| "hexDecode (c # d # cs) =
     (case (hexDigit c, hexDigit d) of
        (Some a, Some b) \<Rightarrow> (case hexDecode cs of None \<Rightarrow> None | Some bs \<Rightarrow> Some (of_nat (16 * a + b) # bs))
      | _ \<Rightarrow> None)"

section \<open>Authenticated encryption\<close>

record AEAD =
  NonceSize :: nat
  aeadSeal :: "byte list \<Rightarrow> byte list \<Rightarrow> byte list"
  aeadOpen :: "byte list \<Rightarrow> byte list \<Rightarrow> byte list option"

definition aeadOk :: "AEAD \<Rightarrow> bool" where
  "aeadOk a \<longleftrightarrow> (\<forall>nonce ct pt. length nonce = NonceSize a \<longrightarrow>
     (aeadOpen a nonce ct = Some pt \<longleftrightarrow> ct = aeadSeal a nonce pt))"

datatype crypto_err =
    ErrUnknownKeyID
  | ErrKeyIDZero
  | ErrSecretBoxOpen
  | ErrKeyConfig
  | ErrNonce

definition kekHexLen :: nat where
  "kekHexLen = 64"

section \<open>KeySet\<close>

record KEKEntry =
  kekID :: byte
  kekKey :: string

record KeySet =
  ksKeys :: "(byte, AEAD) go_map"
  ksWriteKeyID :: byte

fun loadKeys :: "(byte list \<Rightarrow> AEAD option) \<Rightarrow> (byte, AEAD) go_map \<Rightarrow> byte \<Rightarrow> KEKEntry list
    \<Rightarrow> crypto_err + (byte, AEAD) go_map \<times> byte" where
  "loadKeys newGCM keys maxID [] = Inr (keys, maxID)"
| "loadKeys newGCM keys maxID (e # entries) =
     (if kekID e = 0 then Inl ErrKeyIDZero
      else if map_of keys (kekID e) \<noteq> None then Inl ErrKeyConfig
      else if length (kekKey e) \<noteq> kekHexLen then Inl ErrKeyConfig
      else case hexDecode (kekKey e) of
          None \<Rightarrow> Inl ErrKeyConfig
        | Some raw \<Rightarrow> (case newGCM raw of
            None \<Rightarrow> Inl ErrKeyConfig
          | Some aead \<Rightarrow> loadKeys newGCM (AList.update (kekID e) aead keys)
              (if kekID e > maxID then kekID e else maxID) entries))"

text \<open>An empty list of entries is the nil keyset with a nil error: encryption is not configured.\<close>

definition NewKeySet :: "(byte list \<Rightarrow> AEAD option) \<Rightarrow> KEKEntry list \<Rightarrow> byte \<Rightarrow> crypto_err + KeySet option" where
  "NewKeySet newGCM entries writeKeyID =
     (if entries = [] then Inr None
      else case loadKeys newGCM [] 0 entries of
          Inl e \<Rightarrow> Inl e
        | Inr (keys, maxID) \<Rightarrow>
            let w = (if writeKeyID = 0 then maxID else writeKeyID) in
            if map_of keys w = None then Inl ErrKeyConfig
            else Inr (Some \<lparr>ksKeys = keys, ksWriteKeyID = w\<rparr>))"

definition HasKeyID :: "KeySet \<Rightarrow> byte \<Rightarrow> bool" where
  "HasKeyID s i = (map_of (ksKeys s) i \<noteq> None)"

definition IDs :: "KeySet \<Rightarrow> byte list" where
  "IDs s = sort (map fst (ksKeys s))"

definition Seal :: "KeySet \<Rightarrow> byte list option \<Rightarrow> byte list \<Rightarrow> crypto_err + byte list" where
  "Seal s randomNonce plaintext =
     (case map_of (ksKeys s) (ksWriteKeyID s) of
        None \<Rightarrow> Inl ErrKeyConfig
      | Some aead \<Rightarrow> (case randomNonce of
          None \<Rightarrow> Inl ErrNonce
        | Some nonce \<Rightarrow> Inr (ksWriteKeyID s # nonce @ aeadSeal aead nonce plaintext)))"

definition OpenEnvelope :: "KeySet \<Rightarrow> byte list \<Rightarrow> crypto_err + byte list" where
  "OpenEnvelope s envelope =
     (case envelope of
        [] \<Rightarrow> Inl ErrSecretBoxOpen
      | keyID # rest \<Rightarrow> (case map_of (ksKeys s) keyID of
          None \<Rightarrow> Inl ErrUnknownKeyID
        | Some aead \<Rightarrow>
            if length envelope < 1 + NonceSize aead then Inl ErrSecretBoxOpen
            else (case aeadOpen aead (take (NonceSize aead) rest) (drop (NonceSize aead) rest) of
                None \<Rightarrow> Inl ErrSecretBoxOpen
              | Some plaintext \<Rightarrow> Inr plaintext)))"

section \<open>SecretBox\<close>

definition NewSecretBox :: "(byte list \<Rightarrow> AEAD option) \<Rightarrow> string \<Rightarrow> crypto_err + AEAD option" where
  "NewSecretBox newGCM kekHex =
     (if kekHex = '''' then Inr None
      else if length kekHex \<noteq> kekHexLen then Inl ErrKeyConfig
      else case hexDecode kekHex of
          None \<Rightarrow> Inl ErrKeyConfig
        | Some key \<Rightarrow> (case newGCM key of None \<Rightarrow> Inl ErrKeyConfig | Some aead \<Rightarrow> Inr (Some aead)))"

definition boxSeal :: "AEAD \<Rightarrow> byte list option \<Rightarrow> byte list \<Rightarrow> crypto_err + byte list" where
  "boxSeal aead randomNonce plaintext =
     (case randomNonce of None \<Rightarrow> Inl ErrNonce | Some nonce \<Rightarrow> Inr (nonce @ aeadSeal aead nonce plaintext))"

definition boxOpen :: "AEAD \<Rightarrow> byte list \<Rightarrow> crypto_err + byte list" where
  "boxOpen aead sealed =
     (if length sealed < NonceSize aead then Inl ErrSecretBoxOpen
      else case aeadOpen aead (take (NonceSize aead) sealed) (drop (NonceSize aead) sealed) of
          None \<Rightarrow> Inl ErrSecretBoxOpen
        | Some plaintext \<Rightarrow> Inr plaintext)"

section \<open>Well-formed keysets\<close>

text \<open>
  What \<^verbatim>\<open>NewKeySet\<close> returns: no key is filed under the reserved id 0, ids are not
  repeated, and the write key is one of them.
\<close>

definition keySetOk :: "KeySet \<Rightarrow> bool" where
  "keySetOk s \<longleftrightarrow> distinct (map fst (ksKeys s)) \<and> 0 \<notin> fst ` set (ksKeys s) \<and>
     map_of (ksKeys s) (ksWriteKeyID s) \<noteq> None"

lemma loadKeys_ok:
  "loadKeys g keys m es = Inr (keys', m') \<Longrightarrow> distinct (map fst keys) \<Longrightarrow> 0 \<notin> fst ` set keys \<Longrightarrow>
   distinct (map fst keys') \<and> 0 \<notin> fst ` set keys' \<and> fst ` set keys' = fst ` set keys \<union> kekID ` set es \<and>
   m' = fold (\<lambda>e m. if kekID e > m then kekID e else m) es m"
proof (induction es arbitrary: keys m)
  case (Cons e es)
  from Cons.prems(1) obtain raw aead where "hexDecode (kekKey e) = Some raw" "g raw = Some aead"
    "kekID e \<noteq> 0" "loadKeys g (AList.update (kekID e) aead keys) (if kekID e > m then kekID e else m) es = Inr (keys', m')"
    by (auto split: if_splits option.splits)
  with Cons.IH [OF this(4)] Cons.prems show ?case by (auto simp: alist_simps)
qed simp

lemma fold_maxID:
  "fold (\<lambda>e m. if kekID e > m then kekID e else m) es m = fold max (map kekID es) m"
  by (induction es arbitrary: m) (auto simp: max_def)

lemma NewKeySet_ok:
  assumes "NewKeySet g es w = Inr (Some s)"
  shows "keySetOk s \<and> fst ` set (ksKeys s) = kekID ` set es \<and>
    ksWriteKeyID s = (if w = 0 then fold max (map kekID es) 0 else w)"
proof -
  obtain keys m where l: "loadKeys g [] 0 es = Inr (keys, m)"
    and s: "s = \<lparr>ksKeys = keys, ksWriteKeyID = (if w = 0 then m else w)\<rparr>" "map_of keys (if w = 0 then m else w) \<noteq> None"
    using assms by (auto simp: NewKeySet_def Let_def split: if_splits sum.splits)
  from loadKeys_ok [OF l] s show ?thesis by (auto simp: keySetOk_def fold_maxID)
qed

text \<open>Splitting an envelope of sufficient length at the nonce is unique.\<close>

lemma split_at_nonce:
  "n \<le> length rest \<Longrightarrow> (\<exists>nonce. length nonce = n \<and> rest = nonce @ f nonce) \<longleftrightarrow> drop n rest = f (take n rest)"
  by (metis append_eq_conv_conj append_take_drop_id length_take min.absorb2)

lemma boxOpen_iff:
  assumes "aeadOk a"
  shows "boxOpen a sealed = Inr pt \<longleftrightarrow> (\<exists>nonce. length nonce = NonceSize a \<and> sealed = nonce @ aeadSeal a nonce pt)"
proof (cases "length sealed < NonceSize a")
  case True
  then show ?thesis by (auto simp: boxOpen_def)
next
  case False
  then have "boxOpen a sealed = Inr pt \<longleftrightarrow>
      aeadOpen a (take (NonceSize a) sealed) (drop (NonceSize a) sealed) = Some pt"
    by (simp add: boxOpen_def split: option.splits)
  also have "\<dots> \<longleftrightarrow> drop (NonceSize a) sealed = aeadSeal a (take (NonceSize a) sealed) pt"
    using assms False by (simp add: aeadOk_def)
  finally have "boxOpen a sealed = Inr pt \<longleftrightarrow>
      drop (NonceSize a) sealed = aeadSeal a (take (NonceSize a) sealed) pt" .
  with False split_at_nonce [of "NonceSize a" sealed "\<lambda>nonce. aeadSeal a nonce pt"] show ?thesis by simp
qed

section \<open>Properties\<close>

text \<open>
  Envelopes. \<^verbatim>\<open>Open\<close> returns a plaintext exactly for the envelopes that start with
  the id of a key of the set and are that key's sealing of it: nothing altered,
  truncated or sealed under another key opens. A sealed envelope opens under every
  keyset that still holds the writing key under the same id, whatever else was rotated
  in or out, and gives the unknown-key error, not the tamper error, once it is gone.
\<close>

theorem KeySet_envelopes:
  assumes "\<forall>i a. map_of (ksKeys s) i = Some a \<longrightarrow> aeadOk a"
  shows "(OpenEnvelope s env = Inr pt \<longleftrightarrow>
      (\<exists>i a nonce. map_of (ksKeys s) i = Some a \<and> length nonce = NonceSize a \<and>
         env = i # nonce @ aeadSeal a nonce pt)) \<and>
    (\<forall>w a nonce. map_of (ksKeys w) (ksWriteKeyID w) = Some a \<and> length nonce = NonceSize a \<longrightarrow>
      (\<exists>e. Seal w (Some nonce) pt = Inr e \<and>
        (map_of (ksKeys s) (ksWriteKeyID w) = Some a \<longrightarrow> OpenEnvelope s e = Inr pt) \<and>
        (map_of (ksKeys s) (ksWriteKeyID w) = None \<longrightarrow> OpenEnvelope s e = Inl ErrUnknownKeyID)))"
proof -
  have iff: "OpenEnvelope s env = Inr pt \<longleftrightarrow> (\<exists>i a nonce. map_of (ksKeys s) i = Some a \<and>
      length nonce = NonceSize a \<and> env = i # nonce @ aeadSeal a nonce pt)" for env pt
  proof (cases env)
    case Nil
    then show ?thesis by (simp add: OpenEnvelope_def)
  next
    case (Cons i rest)
    show ?thesis
    proof (cases "map_of (ksKeys s) i")
      case None
      with Cons show ?thesis by (auto simp: OpenEnvelope_def)
    next
      case (Some a)
      then have "OpenEnvelope s env = boxOpen a rest"
        by (simp add: OpenEnvelope_def boxOpen_def Cons)
      moreover have "aeadOk a" using assms Some by blast
      ultimately show ?thesis using Some Cons by (auto simp: boxOpen_iff)
    qed
  qed
  have "\<exists>e. Seal w (Some nonce) pt = Inr e \<and>
        (map_of (ksKeys s) (ksWriteKeyID w) = Some a \<longrightarrow> OpenEnvelope s e = Inr pt) \<and>
        (map_of (ksKeys s) (ksWriteKeyID w) = None \<longrightarrow> OpenEnvelope s e = Inl ErrUnknownKeyID)"
    if "map_of (ksKeys w) (ksWriteKeyID w) = Some a" "length nonce = NonceSize a" for w a nonce
    using that by (auto simp: Seal_def iff) (simp add: OpenEnvelope_def)
  with iff show ?thesis by blast
qed

text \<open>An instance that keeps the law: the key byte is the tag in front of the plaintext.\<close>

definition toyAEAD :: "byte \<Rightarrow> AEAD" where
  "toyAEAD k = \<lparr>NonceSize = 1, aeadSeal = (\<lambda>nonce pt. k # pt),
     aeadOpen = (\<lambda>nonce ct. case ct of [] \<Rightarrow> None | t # pt \<Rightarrow> if t = k then Some pt else None)\<rparr>"

lemma toyAEAD_size [simp]: "NonceSize (toyAEAD k) = 1"
  by (simp add: toyAEAD_def)

lemma toyAEAD_ok: "aeadOk (toyAEAD k)"
  by (auto simp: aeadOk_def toyAEAD_def split: list.splits)

theorem KeySet_envelopes_witness:
  "let old = \<lparr>ksKeys = [(1, toyAEAD 7)], ksWriteKeyID = 1\<rparr>;
       new = \<lparr>ksKeys = [(2, toyAEAD 9), (1, toyAEAD 7)], ksWriteKeyID = 2\<rparr>
   in (\<exists>e. Seal old (Some [5]) [65, 66] = Inr e \<and> OpenEnvelope new e = Inr [65, 66]) \<and>
      (\<exists>e. Seal new (Some [5]) [65, 66] = Inr e \<and> OpenEnvelope old e = Inl ErrUnknownKeyID)"
proof -
  let ?old = "\<lparr>ksKeys = [(1, toyAEAD 7)], ksWriteKeyID = 1\<rparr>"
  let ?new = "\<lparr>ksKeys = [(2, toyAEAD 9), (1, toyAEAD 7)], ksWriteKeyID = 2\<rparr>"
  have a: "\<forall>i a. map_of (ksKeys ?old) i = Some a \<longrightarrow> aeadOk a"
    and b: "\<forall>i a. map_of (ksKeys ?new) i = Some a \<longrightarrow> aeadOk a"
    by (auto simp: toyAEAD_ok split: if_splits)
  have "\<exists>e. Seal ?old (Some [5]) [65, 66] = Inr e \<and> OpenEnvelope ?new e = Inr [65, 66]"
    using KeySet_envelopes [of ?new "[]" "[65, 66]", OF b, THEN conjunct2,
        THEN spec [of _ ?old], THEN spec [of _ "toyAEAD 7"], THEN spec [of _ "[5]"]]
    by auto
  moreover have "\<exists>e. Seal ?new (Some [5]) [65, 66] = Inr e \<and> OpenEnvelope ?old e = Inl ErrUnknownKeyID"
    using KeySet_envelopes [of ?old "[]" "[65, 66]", OF a, THEN conjunct2,
        THEN spec [of _ ?new], THEN spec [of _ "toyAEAD 9"], THEN spec [of _ "[5]"]]
    by auto
  ultimately show ?thesis by (simp add: Let_def)
qed

text \<open>
  A constructed keyset always can write: it never files a key under the reserved
  id 0, holds exactly the ids of its entries, and its write id is the requested one or
  the highest of them, always with a key behind it.
\<close>

theorem NewKeySet_writable:
  assumes "NewKeySet newGCM entries w = Inr (Some s)"
  shows "keySetOk s \<and> set (IDs s) = kekID ` set entries \<and> sorted (IDs s) \<and>
    (\<forall>e\<in>set entries. kekID e \<noteq> 0) \<and> ksWriteKeyID s \<in> kekID ` set entries \<and>
    (if w = 0 then \<forall>e\<in>set entries. kekID e \<le> ksWriteKeyID s else ksWriteKeyID s = w) \<and>
    (\<exists>env. Seal s (Some nonce) pt = Inr env)"
proof -
  have ok: "keySetOk s" "fst ` set (ksKeys s) = kekID ` set entries"
    "ksWriteKeyID s = (if w = 0 then fold max (map kekID entries) 0 else w)"
    using NewKeySet_ok [OF assms] by auto
  have "kekID e \<le> fold max (map kekID entries) 0" if "e \<in> set entries" for e
  proof -
    have "Max (insert 0 (set (map kekID entries))) = fold max (map kekID entries) 0"
      using Max.set_eq_fold [of 0 "map kekID entries"] by simp
    moreover have "kekID e \<le> Max (insert 0 (set (map kekID entries)))" using that by (intro Max_ge) auto
    ultimately show ?thesis by simp
  qed
  moreover have "ksWriteKeyID s \<in> fst ` set (ksKeys s)"
    using ok(1) by (auto simp: keySetOk_def map_of_eq_None_iff dest!: map_of_SomeD)
  ultimately show ?thesis
    using ok by (auto simp: keySetOk_def IDs_def Seal_def)
qed

theorem NewKeySet_writable_witness:
  "let k = replicate 64 (CHR ''a'')
   in \<exists>s. NewKeySet (\<lambda>_. Some (toyAEAD 7)) [\<lparr>kekID = 3, kekKey = k\<rparr>, \<lparr>kekID = 9, kekKey = k\<rparr>] 0 = Inr (Some s) \<and>
        keySetOk s \<and> ksWriteKeyID s = 9"
proof -
  let ?k = "replicate 64 (CHR ''a'')"
  let ?es = "[\<lparr>kekID = 3, kekKey = ?k\<rparr>, \<lparr>kekID = 9, kekKey = ?k\<rparr>]"
  have dec: "\<exists>raw. hexDecode (replicate (2 * n) (CHR ''a'')) = Some raw" for n
    by (induction n) (auto simp: hexDigit_def)
  from dec [of 32] obtain raw where "hexDecode ?k = Some raw" by auto
  then have new: "NewKeySet (\<lambda>_. Some (toyAEAD 7)) ?es 0 =
      Inr (Some \<lparr>ksKeys = [(3, toyAEAD 7), (9, toyAEAD 7)], ksWriteKeyID = 9\<rparr>)"
    by (simp add: NewKeySet_def kekHexLen_def)
  from NewKeySet_writable [OF new] new show ?thesis by (auto simp: Let_def)
qed

end
