(* ===== verification/Crypto_Token.thy ===== *)
theory Crypto_Token
  imports Tenant_Id
begin

text \<open>
  Package \<^verbatim>\<open>crypto\<close>, the tokens (\<^verbatim>\<open>jwt.go\<close>, \<^verbatim>\<open>signer.go\<close>): the four shapes a service mints,
  the two verification paths, and what every verifier demands before it believes a
  claim. A token's payload is one record of claims; a shape that has no field leaves it
  at its zero value, which is what an absent JSON field decodes to.

  The JWT library, with the base64 and JSON codecs it is used through, is the record
  \<^verbatim>\<open>JWTLib\<close>; a \<^verbatim>\<open>Signer\<close> is the interface of that name. What the round trips rely on is
  the named hypothesis \<^verbatim>\<open>hs256Ok\<close>: parsing what was signed under the same secret gives the
  claims back exactly while the issuer matches and the token has not expired. Times are
  seconds, as in the wire format.
\<close>

section \<open>Errors\<close>

text \<open>Why a token was refused; every one matches \<^verbatim>\<open>ErrInvalidToken\<close> and prints the same text.\<close>

datatype token_cause =
    LibraryRejected
  | UnknownKid
  | MalformedToken
  | WrongAlgorithm
  | BadSignature
  | WrongPurpose
  | MissingSubject
  | MissingAuthContext
  | WrongTenant
  | BadHomeTenant
  | BadImpersonator

datatype token_err =
    InvalidToken token_cause
  | RefusedToMint
  | TokenTenantRequired
  | ErrEnteredTenants
  | ErrSelfImpersonation
  | SignFailed

section \<open>Claims\<close>

record Claims =
  cAuthTime :: int
  cACR :: string
  cAMR :: "string list"
  cPurpose :: string
  cTenantID :: string
  cHomeTenantID :: string
  cActorID :: string
  cSubject :: string
  cIssuer :: string
  cIssuedAt :: go_time
  cExpiresAt :: go_time

definition purposeAccess :: string where "purposeAccess = ''access''"
definition purposeTOTPPending :: string where "purposeTOTPPending = ''totp_pending''"

definition ACRLocalPassword :: string where "ACRLocalPassword = ''urn:tamper:auth:local-password''"
definition AMRPassword :: string where "AMRPassword = ''pwd''"
definition AMROTP :: string where "AMROTP = ''otp''"
definition AMRSAML :: string where "AMRSAML = ''saml''"

definition HasMethod :: "Claims option \<Rightarrow> string \<Rightarrow> bool" where
  "HasMethod c method =
     (case c of None \<Rightarrow> False | Some cl \<Rightarrow> if method = '''' then False else method \<in> set (cAMR cl))"

definition Entered :: "Claims \<Rightarrow> bool" where
  "Entered c = (cHomeTenantID c \<noteq> '''' \<and> cActorID c = '''')"

definition Impersonated :: "Claims \<Rightarrow> bool" where
  "Impersonated c = (cActorID c \<noteq> '''')"

definition ActorUserID :: "Claims \<Rightarrow> string" where
  "ActorUserID c = (if cActorID c \<noteq> '''' then cActorID c else cSubject c)"

definition ActorTenantID :: "Claims \<Rightarrow> string" where
  "ActorTenantID c = (if cHomeTenantID c \<noteq> '''' then cHomeTenantID c else cTenantID c)"

section \<open>The service\<close>

record Signer =
  sgAlg :: string
  sgKeyID :: string
  sgSign :: "string \<Rightarrow> string option"
  sgVerify :: "string \<Rightarrow> string \<Rightarrow> bool"

record JWTLib =
  libSignHS256 :: "string \<Rightarrow> Claims \<Rightarrow> string option"
  libSignWith :: "Signer \<Rightarrow> string \<Rightarrow> Claims \<Rightarrow> string option"
  libParse :: "string \<Rightarrow> string \<Rightarrow> go_time \<Rightarrow> string \<Rightarrow> Claims option"
  libHeader :: "string \<Rightarrow> (string \<times> string) option"
  libSignature :: "string \<Rightarrow> string option"
  libClaims :: "string \<Rightarrow> Claims option"
  libValid :: "string \<Rightarrow> go_time \<Rightarrow> Claims \<Rightarrow> bool"

record JWTService =
  jSecret :: string
  jTTL :: int
  jIssuer :: string
  jSigner :: "Signer option"
  jVerifiers :: "(string, Signer) go_map"
  jNow :: go_time

text \<open>\<^verbatim>\<open>None\<close> is the panic on an empty secret with no signer; the clock is the service's own field.\<close>

definition NewJWTService :: "string \<Rightarrow> int \<Rightarrow> string \<Rightarrow> Signer option \<Rightarrow> (string, Signer) go_map \<Rightarrow> go_time
    \<Rightarrow> JWTService option" where
  "NewJWTService secret ttl issuer signer verifiers now =
     (if signer = None \<and> secret = '''' then None
      else Some \<lparr>jSecret = secret, jTTL = ttl, jIssuer = issuer, jSigner = signer,
                 jVerifiers = verifiers, jNow = now\<rparr>)"

definition signClaims :: "JWTLib \<Rightarrow> JWTService \<Rightarrow> Claims \<Rightarrow> string option" where
  "signClaims L j claims =
     (case jSigner j of
        None \<Rightarrow> libSignHS256 L (jSecret j) claims
      | Some s \<Rightarrow> libSignWith L s (sgKeyID s) claims)"

definition resolveVerifier :: "JWTService \<Rightarrow> string \<Rightarrow> token_err + Signer" where
  "resolveVerifier j kid =
     (if jVerifiers j \<noteq> []
      then (case map_of (jVerifiers j) kid of None \<Rightarrow> Inl (InvalidToken UnknownKid) | Some s \<Rightarrow> Inr s)
      else (case jSigner j of None \<Rightarrow> Inl (InvalidToken UnknownKid) | Some s \<Rightarrow> Inr s))"

definition parseClaims :: "JWTLib \<Rightarrow> JWTService \<Rightarrow> string \<Rightarrow> token_err + Claims" where
  "parseClaims L j tok =
     (if jSigner j = None \<and> jVerifiers j = []
      then (case libParse L (jSecret j) (jIssuer j) (jNow j) tok of
          None \<Rightarrow> Inl (InvalidToken LibraryRejected)
        | Some claims \<Rightarrow> Inr claims)
      else (case splitDots tok of
          [p0, p1, p2] \<Rightarrow>
            (case libHeader L p0 of
               None \<Rightarrow> Inl (InvalidToken MalformedToken)
             | Some (alg, kid) \<Rightarrow> (case resolveVerifier j kid of
                 Inl e \<Rightarrow> Inl e
               | Inr verifier \<Rightarrow>
                   if alg \<noteq> sgAlg verifier then Inl (InvalidToken WrongAlgorithm)
                   else (case libSignature L p2 of
                       None \<Rightarrow> Inl (InvalidToken MalformedToken)
                     | Some sig \<Rightarrow>
                         if \<not> sgVerify verifier (p0 @ ''.'' @ p1) sig then Inl (InvalidToken BadSignature)
                         else (case libClaims L p1 of
                             None \<Rightarrow> Inl (InvalidToken MalformedToken)
                           | Some claims \<Rightarrow>
                               if \<not> libValid L (jIssuer j) (jNow j) claims
                               then Inl (InvalidToken LibraryRejected) else Inr claims))))
        | _ \<Rightarrow> Inl (InvalidToken MalformedToken)))"

section \<open>Minting\<close>

definition issueAccessWithActor :: "JWTLib \<Rightarrow> JWTService \<Rightarrow> string \<Rightarrow> string \<Rightarrow> string \<Rightarrow> string \<Rightarrow> int \<Rightarrow> string
    \<Rightarrow> int \<Rightarrow> string list \<Rightarrow> token_err + string" where
  "issueAccessWithActor L j userID act tid htid authTime acr ttl amr =
     (if userID = '''' then Inl RefusedToMint
      else if authTime \<le> 0 then Inl RefusedToMint
      else if acr = '''' then Inl RefusedToMint
      else if '''' \<in> set amr then Inl RefusedToMint
      else (case signClaims L j
               \<lparr>cAuthTime = authTime, cACR = acr, cAMR = amr, cPurpose = purposeAccess, cTenantID = tid,
                cHomeTenantID = htid, cActorID = act, cSubject = userID, cIssuer = jIssuer j,
                cIssuedAt = jNow j, cExpiresAt = jNow j + ttl\<rparr> of
          None \<Rightarrow> Inl SignFailed
        | Some out \<Rightarrow> Inr out))"

definition issueAccess :: "JWTLib \<Rightarrow> JWTService \<Rightarrow> string \<Rightarrow> string \<Rightarrow> string \<Rightarrow> int \<Rightarrow> string
    \<Rightarrow> int \<Rightarrow> string list \<Rightarrow> token_err + string" where
  "issueAccess L j userID tid htid authTime acr ttl amr =
     issueAccessWithActor L j userID '''' tid htid authTime acr ttl amr"

definition IssueAccess :: "JWTLib \<Rightarrow> JWTService \<Rightarrow> string \<Rightarrow> ID \<Rightarrow> int \<Rightarrow> string \<Rightarrow> string list \<Rightarrow> token_err + string" where
  "IssueAccess L j userID tenantID authTime acr amr =
     (if \<not> Valid tenantID then Inl TokenTenantRequired
      else issueAccess L j userID (IDString tenantID) '''' authTime acr (jTTL j) amr)"

definition cutTTL :: "JWTService \<Rightarrow> int \<Rightarrow> int" where
  "cutTTL j ttl = (if ttl \<le> 0 \<or> ttl > jTTL j then jTTL j else ttl)"

definition IssueAccessEntered :: "JWTLib \<Rightarrow> JWTService \<Rightarrow> string \<Rightarrow> ID \<Rightarrow> ID \<Rightarrow> int \<Rightarrow> string \<Rightarrow> int \<Rightarrow> string list
    \<Rightarrow> token_err + string" where
  "IssueAccessEntered L j userID tenantID homeTenantID authTime acr ttl amr =
     (if \<not> Valid tenantID \<or> \<not> Valid homeTenantID then Inl TokenTenantRequired
      else if IsSingle tenantID \<or> IsSingle homeTenantID \<or> tenantID = homeTenantID then Inl ErrEnteredTenants
      else issueAccess L j userID (IDString tenantID) (IDString homeTenantID) authTime acr (cutTTL j ttl) amr)"

definition IssueAccessImpersonated :: "JWTLib \<Rightarrow> JWTService \<Rightarrow> string \<Rightarrow> string \<Rightarrow> ID \<Rightarrow> ID \<Rightarrow> int \<Rightarrow> string \<Rightarrow> int
    \<Rightarrow> string list \<Rightarrow> token_err + string" where
  "IssueAccessImpersonated L j target actor tenantID actorHome authTime acr ttl amr =
     (if target = '''' \<or> actor = '''' then Inl RefusedToMint
      else if target = actor then Inl ErrSelfImpersonation
      else if \<not> Valid tenantID \<or> \<not> Valid actorHome then Inl TokenTenantRequired
      else if IsSingle tenantID \<or> IsSingle actorHome \<or> tenantID = actorHome then Inl ErrEnteredTenants
      else issueAccessWithActor L j target actor (IDString tenantID) (IDString actorHome) authTime acr
             (cutTTL j ttl) amr)"

definition totpPendingTTL :: int where
  "totpPendingTTL = 5 * 60"

definition IssueTOTPPending :: "JWTLib \<Rightarrow> JWTService \<Rightarrow> string \<Rightarrow> ID \<Rightarrow> token_err + string" where
  "IssueTOTPPending L j userID tenantID =
     (if \<not> Valid tenantID then Inl TokenTenantRequired
      else if userID = '''' then Inl RefusedToMint
      else (case signClaims L j
               \<lparr>cAuthTime = 0, cACR = '''', cAMR = [], cPurpose = purposeTOTPPending,
                cTenantID = IDString tenantID, cHomeTenantID = '''', cActorID = '''', cSubject = userID,
                cIssuer = jIssuer j, cIssuedAt = jNow j, cExpiresAt = jNow j + totpPendingTTL\<rparr> of
          None \<Rightarrow> Inl SignFailed
        | Some out \<Rightarrow> Inr out))"

section \<open>Verification\<close>

definition checkAccessClaims :: "Claims \<Rightarrow> token_err + Claims" where
  "checkAccessClaims claims =
     (if cPurpose claims \<noteq> purposeAccess then Inl (InvalidToken WrongPurpose)
      else if cSubject claims = '''' then Inl (InvalidToken MissingSubject)
      else if cAuthTime claims \<le> 0 \<or> cACR claims = '''' then Inl (InvalidToken MissingAuthContext)
      else if cHomeTenantID claims \<noteq> '''' \<and> (cTenantID claims = '''' \<or> cHomeTenantID claims = cTenantID claims)
      then Inl (InvalidToken BadHomeTenant)
      else if cActorID claims \<noteq> '''' \<and> (cHomeTenantID claims = '''' \<or> cActorID claims = cSubject claims)
      then Inl (InvalidToken BadImpersonator)
      else Inr claims)"

definition ParseAccess :: "JWTLib \<Rightarrow> JWTService \<Rightarrow> string \<Rightarrow> token_err + Claims" where
  "ParseAccess L j tok =
     (case parseClaims L j tok of Inl e \<Rightarrow> Inl e | Inr claims \<Rightarrow> checkAccessClaims claims)"

definition VerifyAccess :: "JWTLib \<Rightarrow> JWTService \<Rightarrow> string \<Rightarrow> ID \<Rightarrow> token_err + Claims" where
  "VerifyAccess L j tok tenantID =
     (if \<not> Valid tenantID then Inl TokenTenantRequired
      else (case ParseAccess L j tok of
          Inl e \<Rightarrow> Inl e
        | Inr claims \<Rightarrow>
            if cTenantID claims \<noteq> IDString tenantID then Inl (InvalidToken WrongTenant) else Inr claims))"

definition VerifyTOTPPending :: "JWTLib \<Rightarrow> JWTService \<Rightarrow> string \<Rightarrow> ID \<Rightarrow> token_err + string" where
  "VerifyTOTPPending L j tok tenantID =
     (if \<not> Valid tenantID then Inl TokenTenantRequired
      else (case parseClaims L j tok of
          Inl e \<Rightarrow> Inl e
        | Inr claims \<Rightarrow>
            if cPurpose claims \<noteq> purposeTOTPPending then Inl (InvalidToken WrongPurpose)
            else if cSubject claims = '''' then Inl (InvalidToken MissingSubject)
            else if cTenantID claims \<noteq> IDString tenantID then Inl (InvalidToken WrongTenant)
            else Inr (cSubject claims)))"

section \<open>The library hypothesis\<close>

text \<open>The default signing path: HMAC under the service's secret, no key id.\<close>

definition defaultPath :: "JWTService \<Rightarrow> bool" where
  "defaultPath j \<longleftrightarrow> jSigner j = None \<and> jVerifiers j = []"

definition hs256Ok :: "JWTLib \<Rightarrow> bool" where
  "hs256Ok L \<longleftrightarrow> (\<forall>secret claims tok issuer now. libSignHS256 L secret claims = Some tok \<longrightarrow>
     libParse L secret issuer now tok =
       (if cIssuer claims = issuer \<and> now < cExpiresAt claims then Some claims else None))"

section \<open>Lemmas\<close>

lemma checkAccessClaims_Inr_iff:
  "checkAccessClaims c = Inr c' \<longleftrightarrow> c' = c \<and> cPurpose c = purposeAccess \<and> cSubject c \<noteq> '''' \<and>
     0 < cAuthTime c \<and> cACR c \<noteq> '''' \<and>
     (cHomeTenantID c = '''' \<or> cTenantID c \<noteq> '''' \<and> cHomeTenantID c \<noteq> cTenantID c) \<and>
     (cActorID c = '''' \<or> cHomeTenantID c \<noteq> '''' \<and> cActorID c \<noteq> cSubject c)"
  by (auto simp: checkAccessClaims_def)

lemma VerifyAccess_Inr_iff:
  "VerifyAccess L j tok t = Inr c \<longleftrightarrow> Valid t \<and> ParseAccess L j tok = Inr c \<and> cTenantID c = IDString t"
  by (auto simp: VerifyAccess_def split: sum.splits)

lemma parseClaims_minted:
  assumes "hs256Ok L" "defaultPath j" "signClaims L j claims = Some tok" "jSecret v = jSecret j" "defaultPath v"
  shows "parseClaims L v tok = (if cIssuer claims = jIssuer v \<and> jNow v < cExpiresAt claims
    then Inr claims else Inl (InvalidToken LibraryRejected))"
  using assms by (auto simp: parseClaims_def signClaims_def defaultPath_def hs256Ok_def)

lemma issueAccessWithActor_Inr:
  assumes "issueAccessWithActor L j u act tid htid authTime acr ttl amr = Inr tok"
  shows "\<exists>c. signClaims L j c = Some tok \<and> cAuthTime c = authTime \<and> cACR c = acr \<and> cAMR c = amr \<and>
    cPurpose c = purposeAccess \<and> cTenantID c = tid \<and> cHomeTenantID c = htid \<and> cActorID c = act \<and>
    cSubject c = u \<and> cIssuer c = jIssuer j \<and> cExpiresAt c = jNow j + ttl \<and> u \<noteq> '''' \<and> 0 < authTime \<and> acr \<noteq> ''''"
  using assms unfolding issueAccessWithActor_def
  by (auto split: if_splits option.splits)

lemma cutTTL_le: "cutTTL j ttl \<le> jTTL j"
  by (simp add: cutTTL_def)

section \<open>Properties\<close>

text \<open>
  C6. What a verified access token guarantees, whatever library parsed it: its tenant
  is exactly the one asked about, its purpose is access, it has a subject, a positive
  authentication time and a class, and it is exactly one of an ordinary, an entered or
  an impersonated token, whose audit actor is in each case a person with a home: the
  subject at the tenant, the subject at another tenant, or somebody else from another
  tenant. An unset tenant is refused before the token is looked at, and every other
  refusal is the one invalid-token error.
\<close>

theorem VerifyAccess_guarantees:
  "(VerifyAccess L j tok t = Inr c \<longrightarrow>
      Valid t \<and> cTenantID c = IDString t \<and> cPurpose c = purposeAccess \<and> cSubject c \<noteq> '''' \<and>
      0 < cAuthTime c \<and> cACR c \<noteq> '''' \<and> \<not> (Entered c \<and> Impersonated c) \<and>
      (\<not> Entered c \<and> \<not> Impersonated c \<longrightarrow> ActorUserID c = cSubject c \<and> ActorTenantID c = IDString t) \<and>
      (Entered c \<longrightarrow> ActorUserID c = cSubject c \<and> ActorTenantID c \<noteq> IDString t \<and> \<not> IsSingle t) \<and>
      (Impersonated c \<longrightarrow> ActorUserID c \<noteq> cSubject c \<and> ActorUserID c \<noteq> '''' \<and>
         ActorTenantID c \<noteq> '''' \<and> ActorTenantID c \<noteq> IDString t \<and> \<not> IsSingle t)) \<and>
   (\<not> Valid t \<longrightarrow> VerifyAccess L j tok t = Inl TokenTenantRequired) \<and>
   (Valid t \<and> VerifyAccess L j tok t = Inl e \<longrightarrow> (\<exists>cause. e = InvalidToken cause))"
proof -
  have shape: "cPurpose c = purposeAccess" "cSubject c \<noteq> ''''" "0 < cAuthTime c" "cACR c \<noteq> ''''"
      "cHomeTenantID c = '''' \<or> cTenantID c \<noteq> '''' \<and> cHomeTenantID c \<noteq> cTenantID c"
      "cActorID c = '''' \<or> cHomeTenantID c \<noteq> '''' \<and> cActorID c \<noteq> cSubject c"
      "Valid t" "cTenantID c = IDString t" if "VerifyAccess L j tok t = Inr c"
    using that by (auto simp: VerifyAccess_Inr_iff ParseAccess_def checkAccessClaims_Inr_iff split: sum.splits)
  have "\<exists>cause. e = InvalidToken cause" if "Valid t" "VerifyAccess L j tok t = Inl e"
  proof -
    have "e = InvalidToken WrongTenant \<or> ParseAccess L j tok = Inl e"
      using that by (auto simp: VerifyAccess_def split: sum.splits if_splits)
    moreover have "\<exists>cause. e = InvalidToken cause" if "parseClaims L j tok = Inl e"
      using that unfolding parseClaims_def resolveVerifier_def
      by (auto split: if_splits option.splits list.splits sum.splits prod.splits)
    moreover have "\<exists>cause. e = InvalidToken cause" if "checkAccessClaims cl = Inl e" for cl
      using that by (auto simp: checkAccessClaims_def split: if_splits)
    ultimately show ?thesis by (auto simp: ParseAccess_def split: sum.splits)
  qed
  moreover have "cTenantID c = IDString t \<and> cPurpose c = purposeAccess \<and> cSubject c \<noteq> '''' \<and>
      0 < cAuthTime c \<and> cACR c \<noteq> '''' \<and> \<not> (Entered c \<and> Impersonated c) \<and>
      (\<not> Entered c \<and> \<not> Impersonated c \<longrightarrow> ActorUserID c = cSubject c \<and> ActorTenantID c = IDString t) \<and>
      (Entered c \<longrightarrow> ActorUserID c = cSubject c \<and> ActorTenantID c \<noteq> IDString t \<and> \<not> IsSingle t) \<and>
      (Impersonated c \<longrightarrow> ActorUserID c \<noteq> cSubject c \<and> ActorUserID c \<noteq> '''' \<and>
         ActorTenantID c \<noteq> '''' \<and> ActorTenantID c \<noteq> IDString t \<and> \<not> IsSingle t)"
    if v: "VerifyAccess L j tok t = Inr c"
  proof -
    have "IsSingle t \<longleftrightarrow> cTenantID c = ''''"
      using shape(7,8) [OF v] by (auto simp: id_defs)
    with shape(1-6,8) [OF v] show ?thesis
      by (cases "cActorID c = ''''"; cases "cHomeTenantID c = ''''")
        (simp_all add: Entered_def Impersonated_def ActorUserID_def ActorTenantID_def)
  qed
  moreover have "\<not> Valid t \<Longrightarrow> VerifyAccess L j tok t = Inl TokenTenantRequired"
    by (simp add: VerifyAccess_def)
  ultimately show ?thesis using shape(7) by (intro conjI impI) (blast | simp)+
qed

definition oneTokenLib :: "Claims \<Rightarrow> JWTLib" where
  "oneTokenLib c0 = \<lparr>libSignHS256 = (\<lambda>_ c. if c = c0 then Some ''tok'' else None),
     libSignWith = (\<lambda>_ _ _. None),
     libParse = (\<lambda>_ issuer now tok. if tok = ''tok'' \<and> cIssuer c0 = issuer \<and> now < cExpiresAt c0 then Some c0 else None),
     libHeader = (\<lambda>_. None), libSignature = (\<lambda>_. None), libClaims = (\<lambda>_. None), libValid = (\<lambda>_ _ _. False)\<rparr>"

lemma oneTokenLib_ok: "hs256Ok (oneTokenLib c0)"
  by (auto simp: hs256Ok_def oneTokenLib_def)

definition exampleService :: "go_time \<Rightarrow> JWTService" where
  "exampleService now = \<lparr>jSecret = ''s'', jTTL = 900, jIssuer = ''tamper'', jSigner = None, jVerifiers = [], jNow = now\<rparr>"

definition exampleEntered :: Claims where
  "exampleEntered = \<lparr>cAuthTime = 90, cACR = ''acr'', cAMR = [''pwd''], cPurpose = purposeAccess, cTenantID = ''acme'',
     cHomeTenantID = ''plat'', cActorID = '''', cSubject = ''u'', cIssuer = ''tamper'', cIssuedAt = 100, cExpiresAt = 400\<rparr>"

lemma exampleEntered_minted:
  "IssueAccessEntered (oneTokenLib exampleEntered) (exampleService 100) ''u'' (NewID ''acme'') (NewID ''plat'')
     90 ''acr'' 300 [''pwd''] = Inr ''tok''"
  by (simp add: IssueAccessEntered_def issueAccess_def issueAccessWithActor_def signClaims_def cutTTL_def
      exampleEntered_def exampleService_def oneTokenLib_def purposeAccess_def id_defs)

theorem VerifyAccess_guarantees_witness:
  "VerifyAccess (oneTokenLib exampleEntered) (exampleService 200) ''tok'' (NewID ''acme'') = Inr exampleEntered \<and>
   ActorTenantID exampleEntered \<noteq> IDString (NewID ''acme'')"
proof -
  have ok: "VerifyAccess (oneTokenLib exampleEntered) (exampleService 200) ''tok'' (NewID ''acme'') = Inr exampleEntered"
    by (simp add: VerifyAccess_def ParseAccess_def parseClaims_def checkAccessClaims_def exampleEntered_def
        exampleService_def oneTokenLib_def purposeAccess_def id_defs)
  moreover have "Entered exampleEntered" by (simp add: Entered_def exampleEntered_def)
  ultimately show ?thesis
    using VerifyAccess_guarantees [of "oneTokenLib exampleEntered" "exampleService 200" "''tok''" "NewID ''acme''" exampleEntered]
    by blast
qed

lemma minted_access_verifies:
  assumes "hs256Ok L" "defaultPath j" "defaultPath v" "jSecret v = jSecret j" "jIssuer v = jIssuer j"
    and "issueAccessWithActor L j u act (IDString t) htid authTime acr ttl amr = Inr tok" "Valid t"
    and "htid = '''' \<or> IDString t \<noteq> '''' \<and> htid \<noteq> IDString t" "act = '''' \<or> htid \<noteq> '''' \<and> act \<noteq> u"
  shows "(VerifyAccess L v tok t' = Inr c \<longrightarrow> cSubject c = u \<and> cActorID c = act \<and> cHomeTenantID c = htid \<and>
      cAuthTime c = authTime \<and> cACR c = acr \<and> cAMR c = amr) \<and>
    ((\<exists>c. VerifyAccess L v tok t' = Inr c) \<longleftrightarrow> t' = t \<and> jNow v < jNow j + ttl)"
proof -
  obtain c0 where c0: "signClaims L j c0 = Some tok" "cAuthTime c0 = authTime" "cACR c0 = acr" "cAMR c0 = amr"
    "cPurpose c0 = purposeAccess" "cTenantID c0 = IDString t" "cHomeTenantID c0 = htid" "cActorID c0 = act"
    "cSubject c0 = u" "cIssuer c0 = jIssuer j" "cExpiresAt c0 = jNow j + ttl" "u \<noteq> ''''" "0 < authTime" "acr \<noteq> ''''"
    using issueAccessWithActor_Inr [OF assms(6)] by blast
  have "parseClaims L v tok = (if jNow v < jNow j + ttl then Inr c0 else Inl (InvalidToken LibraryRejected))"
    using parseClaims_minted [OF assms(1,2) c0(1) assms(4,3)] c0 assms(5) by simp
  moreover have "checkAccessClaims c0 = Inr c0"
    using c0 assms(8,9) by (auto simp: checkAccessClaims_Inr_iff)
  ultimately have "VerifyAccess L v tok t' = Inr c \<longleftrightarrow> Valid t' \<and> jNow v < jNow j + ttl \<and> c = c0 \<and> IDString t = IDString t'" for c
    using c0(6) by (auto simp: VerifyAccess_Inr_iff ParseAccess_def)
  with c0 assms(7) show ?thesis by (auto simp: IDString_eq_iff)
qed

text \<open>
  Every minted access token verifies in exactly one tenant, the one it was minted
  for, exactly until its expiry, and says what was minted: an ordinary token for the
  service's lifetime, an entered or impersonated one for at most that, never accepted
  in the home tenant it names, and attributed to the entering or impersonating person.
\<close>

theorem minted_tokens_round_trip:
  assumes "hs256Ok L" "defaultPath j" "defaultPath v" "jSecret v = jSecret j" "jIssuer v = jIssuer j"
  shows "(IssueAccess L j u t at acr amr = Inr tok \<longrightarrow>
      ((\<exists>c. VerifyAccess L v tok t' = Inr c) \<longleftrightarrow> t' = t \<and> jNow v < jNow j + jTTL j) \<and>
      (VerifyAccess L v tok t' = Inr c \<longrightarrow> cSubject c = u \<and> cAuthTime c = at \<and> cACR c = acr \<and> cAMR c = amr \<and>
         \<not> Entered c \<and> \<not> Impersonated c)) \<and>
    (IssueAccessEntered L j u t home at acr ttl amr = Inr tok \<longrightarrow>
      ((\<exists>c. VerifyAccess L v tok t' = Inr c) \<longleftrightarrow> t' = t \<and> jNow v < jNow j + cutTTL j ttl) \<and>
      cutTTL j ttl \<le> jTTL j \<and> \<not> (\<exists>c. VerifyAccess L v tok home = Inr c) \<and>
      (VerifyAccess L v tok t' = Inr c \<longrightarrow> cSubject c = u \<and> Entered c \<and> ActorTenantID c = IDString home)) \<and>
    (IssueAccessImpersonated L j target actor t home at acr ttl amr = Inr tok \<longrightarrow>
      ((\<exists>c. VerifyAccess L v tok t' = Inr c) \<longleftrightarrow> t' = t \<and> jNow v < jNow j + cutTTL j ttl) \<and>
      (VerifyAccess L v tok t' = Inr c \<longrightarrow> cSubject c = target \<and> Impersonated c \<and> \<not> Entered c \<and>
         ActorUserID c = actor \<and> ActorTenantID c = IDString home))"
proof (intro conjI impI)
  assume a: "IssueAccess L j u t at acr amr = Inr tok"
  then have m: "issueAccessWithActor L j u '''' (IDString t) '''' at acr (jTTL j) amr = Inr tok" "Valid t"
    by (auto simp: IssueAccess_def issueAccess_def split: if_splits)
  note mv = minted_access_verifies [OF assms m, of t' c]
  from mv show "(\<exists>c. VerifyAccess L v tok t' = Inr c) \<longleftrightarrow> t' = t \<and> jNow v < jNow j + jTTL j" by simp
  assume "VerifyAccess L v tok t' = Inr c"
  with mv show "cSubject c = u" "cAuthTime c = at" "cACR c = acr" "cAMR c = amr" "\<not> Entered c" "\<not> Impersonated c"
    by (simp_all add: Entered_def Impersonated_def)
next
  assume a: "IssueAccessEntered L j u t home at acr ttl amr = Inr tok"
  then have m: "issueAccessWithActor L j u '''' (IDString t) (IDString home) at acr (cutTTL j ttl) amr = Inr tok" "Valid t"
    and d: "Valid home" "t \<noteq> home" "\<not> IsSingle t" "\<not> IsSingle home"
    by (auto simp: IssueAccessEntered_def issueAccess_def split: if_splits)
  have side: "IDString home = '''' \<or> IDString t \<noteq> '''' \<and> IDString home \<noteq> IDString t"
    using m(2) d IDString_eq_iff [of home t] by (auto simp: id_defs)
  note mv = minted_access_verifies [OF assms m side]
  from mv show "(\<exists>c. VerifyAccess L v tok t' = Inr c) \<longleftrightarrow> t' = t \<and> jNow v < jNow j + cutTTL j ttl" by simp
  from mv [of home] d(2) show "\<not> (\<exists>c. VerifyAccess L v tok home = Inr c)" by simp
  show "cutTTL j ttl \<le> jTTL j" by (rule cutTTL_le)
  assume v: "VerifyAccess L v tok t' = Inr c"
  have "IDString home \<noteq> ''''" using d by (auto simp: id_defs)
  with mv [of t' c] v show "cSubject c = u" "Entered c" "ActorTenantID c = IDString home"
    by (simp_all add: Entered_def ActorTenantID_def)
next
  assume a: "IssueAccessImpersonated L j target actor t home at acr ttl amr = Inr tok"
  then have m: "issueAccessWithActor L j target actor (IDString t) (IDString home) at acr (cutTTL j ttl) amr = Inr tok" "Valid t"
    and d: "Valid home" "t \<noteq> home" "\<not> IsSingle t" "\<not> IsSingle home" "target \<noteq> actor" "actor \<noteq> ''''"
    by (auto simp: IssueAccessImpersonated_def split: if_splits)
  have home: "IDString home \<noteq> ''''" using d by (auto simp: id_defs)
  have side: "IDString home = '''' \<or> IDString t \<noteq> '''' \<and> IDString home \<noteq> IDString t"
    using m(2) d IDString_eq_iff [of home t] by (auto simp: id_defs)
  have act: "actor = '''' \<or> IDString home \<noteq> '''' \<and> actor \<noteq> target" using d home by simp
  note mv = minted_access_verifies [OF assms m side act]
  from mv show "(\<exists>c. VerifyAccess L v tok t' = Inr c) \<longleftrightarrow> t' = t \<and> jNow v < jNow j + cutTTL j ttl" by simp
  assume v: "VerifyAccess L v tok t' = Inr c"
  with mv [of t' c] d(6) home show "cSubject c = target" "Impersonated c" "\<not> Entered c" "ActorUserID c = actor"
    "ActorTenantID c = IDString home"
    by (simp_all add: Entered_def Impersonated_def ActorTenantID_def ActorUserID_def)
qed

theorem minted_tokens_round_trip_witness:
  "(\<exists>c. VerifyAccess (oneTokenLib exampleEntered) (exampleService 399) ''tok'' (NewID ''acme'') = Inr c) \<and>
   \<not> (\<exists>c. VerifyAccess (oneTokenLib exampleEntered) (exampleService 400) ''tok'' (NewID ''acme'') = Inr c) \<and>
   \<not> (\<exists>c. VerifyAccess (oneTokenLib exampleEntered) (exampleService 200) ''tok'' (NewID ''plat'') = Inr c)"
proof -
  have "defaultPath (exampleService n)" "jSecret (exampleService n) = jSecret (exampleService 100)"
    "jIssuer (exampleService n) = jIssuer (exampleService 100)" for n
    by (simp_all add: exampleService_def defaultPath_def)
  note path = this
  have "cutTTL (exampleService 100) 300 = 300" "jNow (exampleService n) = n" for n
    by (simp_all add: cutTTL_def exampleService_def)
  then have "(\<exists>c. VerifyAccess (oneTokenLib exampleEntered) (exampleService n) ''tok'' t' = Inr c) \<longleftrightarrow>
      t' = NewID ''acme'' \<and> n < 400" for n t'
    using minted_tokens_round_trip [OF oneTokenLib_ok path(1) path(1-3), where t' = t' and u = "''u''"
        and t = "NewID ''acme''" and home = "NewID ''plat''" and at = 90 and acr = "''acr''" and ttl = 300
        and amr = "[''pwd'']" and tok = "''tok''", THEN conjunct2, THEN conjunct1] exampleEntered_minted
    by auto
  then show ?thesis by (simp add: id_defs)
qed

text \<open>
  Purpose separation under one secret. The token of a login whose second factor is
  still outstanding never authenticates a request, in any tenant; it finishes only in
  the tenant whose password step minted it, within five minutes, and for the same user;
  and no access token of any shape can be presented in its place.
\<close>

theorem token_purposes_disjoint:
  assumes "hs256Ok L" "defaultPath j" "defaultPath v" "jSecret v = jSecret j" "jIssuer v = jIssuer j"
  shows "(IssueTOTPPending L j u t = Inr tok \<longrightarrow>
      (VerifyTOTPPending L v tok t' = Inr u' \<longleftrightarrow> t' = t \<and> u' = u \<and> jNow v < jNow j + 300) \<and>
      isl (ParseAccess L v tok)) \<and>
    (issueAccessWithActor L j w act tid htid at acr ttl amr = Inr tok \<longrightarrow> isl (VerifyTOTPPending L v tok t'))"
proof (intro conjI impI)
  assume a: "IssueTOTPPending L j u t = Inr tok"
  let ?c = "\<lparr>cAuthTime = 0, cACR = '''', cAMR = [], cPurpose = purposeTOTPPending,
                cTenantID = IDString t, cHomeTenantID = '''', cActorID = '''', cSubject = u,
                cIssuer = jIssuer j, cIssuedAt = jNow j, cExpiresAt = jNow j + totpPendingTTL\<rparr>"
  have s: "signClaims L j ?c = Some tok" "Valid t" "u \<noteq> ''''"
    using a by (auto simp: IssueTOTPPending_def split: if_splits option.splits)
  have p: "parseClaims L v tok = (if jNow v < jNow j + 300 then Inr ?c else Inl (InvalidToken LibraryRejected))"
    using parseClaims_minted [OF assms(1,2) s(1) assms(4,3)] assms(5) by (simp add: totpPendingTTL_def)
  then show "VerifyTOTPPending L v tok t' = Inr u' \<longleftrightarrow> t' = t \<and> u' = u \<and> jNow v < jNow j + 300"
    using s(2,3) IDString_eq_iff [of t t'] by (auto simp: VerifyTOTPPending_def)
  show "isl (ParseAccess L v tok)"
    using p by (simp add: ParseAccess_def checkAccessClaims_def purposeAccess_def purposeTOTPPending_def)
next
  assume "issueAccessWithActor L j w act tid htid at acr ttl amr = Inr tok"
  then obtain c where c: "signClaims L j c = Some tok" "cPurpose c = purposeAccess"
    using issueAccessWithActor_Inr by blast
  from parseClaims_minted [OF assms(1,2) c(1) assms(4,3)] c(2) show "isl (VerifyTOTPPending L v tok t')"
    by (auto simp: VerifyTOTPPending_def purposeAccess_def purposeTOTPPending_def)
qed

theorem token_purposes_disjoint_witness:
  "isl (VerifyTOTPPending (oneTokenLib exampleEntered) (exampleService 200) ''tok'' (NewID ''acme''))"
proof -
  have "issueAccessWithActor (oneTokenLib exampleEntered) (exampleService 100) ''u'' '''' ''acme'' ''plat'' 90 ''acr''
      300 [''pwd''] = Inr ''tok''"
    by (simp add: issueAccessWithActor_def signClaims_def exampleEntered_def exampleService_def oneTokenLib_def purposeAccess_def)
  moreover have "defaultPath (exampleService n)" "jSecret (exampleService n) = jSecret (exampleService 100)"
    "jIssuer (exampleService n) = jIssuer (exampleService 100)" for n
    by (simp_all add: exampleService_def defaultPath_def)
  ultimately show ?thesis
    using token_purposes_disjoint [OF oneTokenLib_ok] by blast
qed

text \<open>
  With a signer or rotation keys configured, a token is believed only when it has
  three parts, its key id names a configured verification key (never a fallback once
  keys are configured), its header names that key's own algorithm, and that key accepts
  the signature over exactly the header and payload presented.
\<close>

theorem delegated_verification_sound:
  assumes "parseClaims L j tok = Inr c" "\<not> defaultPath j"
  shows "\<exists>p0 p1 p2 alg kid s sig. splitDots tok = [p0, p1, p2] \<and> libHeader L p0 = Some (alg, kid) \<and>
    (if jVerifiers j = [] then jSigner j = Some s else map_of (jVerifiers j) kid = Some s) \<and>
    alg = sgAlg s \<and> libSignature L p2 = Some sig \<and> sgVerify s (p0 @ ''.'' @ p1) sig \<and>
    libClaims L p1 = Some c \<and> libValid L (jIssuer j) (jNow j) c"
  using assms unfolding parseClaims_def defaultPath_def resolveVerifier_def
  by (auto split: if_splits option.splits list.splits sum.splits prod.splits)

theorem delegated_verification_sound_witness:
  "let s = \<lparr>sgAlg = ''ES256'', sgKeyID = ''k1'', sgSign = (\<lambda>_. Some ''sig''), sgVerify = (\<lambda>_ sig. sig = ''sig'')\<rparr>;
       L = \<lparr>libSignHS256 = (\<lambda>_ _. None), libSignWith = (\<lambda>_ _ _. None), libParse = (\<lambda>_ _ _ _. None),
            libHeader = (\<lambda>h. if h = ''h'' then Some (''ES256'', ''k1'') else None), libSignature = Some,
            libClaims = (\<lambda>_. Some exampleEntered), libValid = (\<lambda>_ _ _. True)\<rparr>;
       j = \<lparr>jSecret = '''', jTTL = 900, jIssuer = ''tamper'', jSigner = None, jVerifiers = [(''k1'', s)], jNow = 100\<rparr>
   in parseClaims L j ''h.p.sig'' = Inr exampleEntered \<and> (\<exists>p0 p1 p2. splitDots ''h.p.sig'' = [p0, p1, p2])"
proof -
  let ?s = "\<lparr>sgAlg = ''ES256'', sgKeyID = ''k1'', sgSign = (\<lambda>_. Some ''sig''), sgVerify = (\<lambda>_ sig. sig = ''sig'')\<rparr>"
  let ?L = "\<lparr>libSignHS256 = (\<lambda>_ _. None), libSignWith = (\<lambda>_ _ _. None), libParse = (\<lambda>_ _ _ _. None),
            libHeader = (\<lambda>h. if h = ''h'' then Some (''ES256'', ''k1'') else None), libSignature = Some,
            libClaims = (\<lambda>_. Some exampleEntered), libValid = (\<lambda>_ _ _. True)\<rparr>"
  let ?j = "\<lparr>jSecret = '''', jTTL = 900, jIssuer = ''tamper'', jSigner = None, jVerifiers = [(''k1'', ?s)], jNow = 100\<rparr>"
  have ok: "parseClaims ?L ?j ''h.p.sig'' = Inr exampleEntered"
    by (simp add: parseClaims_def resolveVerifier_def)
  moreover have "\<not> defaultPath ?j" by (simp add: defaultPath_def)
  ultimately have "\<exists>p0 p1 p2. splitDots ''h.p.sig'' = [p0, p1, p2]"
    using delegated_verification_sound [OF ok] by blast
  with ok show ?thesis unfolding Let_def by blast
qed

end
