(* ===== verification/Identity_Store.thy ===== *)
theory Identity_Store
  imports Tenant_Id Crypto_Keyset Crypto_Token
begin

text \<open>
  Package \<^verbatim>\<open>identity\<close>, the data and the persistence port: the rows (\<^verbatim>\<open>identity.go\<close>,
  \<^verbatim>\<open>invitation.go\<close>, \<^verbatim>\<open>store.go\<close>), the error sentinels (\<^verbatim>\<open>errors.go\<close>), the three store
  interfaces and the reference implementation \<^verbatim>\<open>MemStore\<close> (\<^verbatim>\<open>memstore.go\<close>).

  An interface is a record of functions over an abstract store state \<^typ>\<open>'s\<close>: a read
  returns its answer, a write the state after it. The zero \<^verbatim>\<open>time.Time\<close> is 0; a clock
  reading is a positive number of seconds. The locale \<^verbatim>\<open>identity_store\<close> states what the
  core relies on, and it is interpreted on \<^verbatim>\<open>MemStore\<close>.
\<close>

section \<open>Errors\<close>

text \<open>
  The sentinels of the package. \<^verbatim>\<open>TokenError\<close>, \<^verbatim>\<open>KeySetError\<close> and \<^verbatim>\<open>HashError\<close> are the errors
  of package \<^verbatim>\<open>crypto\<close> passed on with \<^verbatim>\<open>%w\<close>, \<^verbatim>\<open>RandError\<close> a failed random source,
  \<^verbatim>\<open>ErrUserIDRequired\<close> the unnamed error on an empty user id, and \<^verbatim>\<open>PortError\<close> any other
  error a port returned.
\<close>

datatype ident_err =
    ErrInvalidCredentials
  | ErrTOTPRequired
  | ErrInvalidSession
  | ErrUserInactive
  | ErrEmailTaken
  | ErrInvalidEmail
  | ErrPasswordPolicy
  | IErrNotFound
  | ErrInvalidInput
  | ErrNoTokenService
  | ErrNoKeySet
  | ErrInvalidTOTP
  | ErrTOTPAlreadyEnrolled
  | ErrTOTPNotEnrolled
  | ErrLinkConflict
  | ErrIdentityTaken
  | ErrLastAuthMethod
  | ErrTenantRequired
  | ErrThrottled int
  | ErrInvitationInvalid
  | ErrInvitationConsumed
  | ErrNoInvitationStore
  | ErrNoMembershipStore
  | ErrNoImpersonationPolicy
  | ErrAuthContextRequired
  | ErrUserIDRequired
  | TokenError token_err
  | KeySetError crypto_err
  | HashError
  | RandError
  | PortError string

section \<open>Rows\<close>

record User =
  uID :: string
  uTenantID :: string
  uEmail :: string
  uPasswordHash :: string
  uActive :: bool
  uTOTPEnrolled :: bool
  uCreatedAt :: go_time

record NewUser =
  nuID :: string
  nuTenantID :: string
  nuEmail :: string
  nuPasswordHash :: string
  nuCreatedAt :: go_time

record RefreshSession =
  rsID :: string
  rsUserID :: string
  rsTenantID :: string
  rsTokenHash :: string
  rsIssuedAt :: go_time
  rsExpiresAt :: go_time
  rsRevokedAt :: go_time
  rsAuthTime :: go_time
  rsACR :: string

definition Revoked :: "RefreshSession \<Rightarrow> bool" where
  "Revoked s = (rsRevokedAt s \<noteq> 0)"

record Tokens =
  tkAccess :: string
  tkRefresh :: string
  tkRefreshExpiresAt :: go_time

record Identity =
  inID :: string
  inUserID :: string
  inTenantID :: string
  inProvider :: string
  inSubject :: string
  inLinkedAt :: go_time
  inLastLoginAt :: "go_time option"

record NewIdentity =
  niID :: string
  niUserID :: string
  niTenantID :: string
  niProvider :: string
  niSubject :: string
  niLinkedAt :: go_time
  niLastLoginAt :: "go_time option"

record TOTPState =
  tsEnrolled :: bool
  tsEnvelope :: "byte list"
  tsRecoveryCodeHashes :: "string list"

record Invitation =
  ivID :: string
  ivTenantID :: string
  ivEmail :: string
  ivTokenHash :: string
  ivExpiresAt :: go_time
  ivAcceptedAt :: go_time
  ivInvitedBy :: string
  ivCreatedAt :: go_time

definition Pending :: "Invitation \<Rightarrow> bool" where
  "Pending i = (ivAcceptedAt i = 0)"

definition Expired :: "Invitation \<Rightarrow> go_time \<Rightarrow> bool" where
  "Expired i now = (\<not> ivExpiresAt i > now)"

definition Usable :: "Invitation \<Rightarrow> go_time \<Rightarrow> bool" where
  "Usable i now = (Pending i \<and> \<not> Expired i now)"

text \<open>The zero values a missing map entry reads as.\<close>

definition zeroUser :: User where
  "zeroUser = \<lparr>uID = '''', uTenantID = '''', uEmail = '''', uPasswordHash = '''', uActive = False,
     uTOTPEnrolled = False, uCreatedAt = 0\<rparr>"

definition zeroSession :: RefreshSession where
  "zeroSession = \<lparr>rsID = '''', rsUserID = '''', rsTenantID = '''', rsTokenHash = '''', rsIssuedAt = 0,
     rsExpiresAt = 0, rsRevokedAt = 0, rsAuthTime = 0, rsACR = ''''\<rparr>"

definition zeroTOTPState :: TOTPState where
  "zeroTOTPState = \<lparr>tsEnrolled = False, tsEnvelope = [], tsRecoveryCodeHashes = []\<rparr>"

section \<open>The ports\<close>

record 's Store =
  stCreateUser :: "'s \<Rightarrow> NewUser \<Rightarrow> bool \<Rightarrow> ident_err + 's"
  stUserByID :: "'s \<Rightarrow> string \<Rightarrow> ident_err + User"
  stUserByEmail :: "'s \<Rightarrow> ID \<Rightarrow> string \<Rightarrow> ident_err + User"
  stCountUsers :: "'s \<Rightarrow> ID \<Rightarrow> ident_err + int"
  stRevokeAllForTenant :: "'s \<Rightarrow> ID \<Rightarrow> go_time \<Rightarrow> ident_err + 's"
  stCreateRefreshSession :: "'s \<Rightarrow> RefreshSession \<Rightarrow> ident_err + 's"
  stRefreshSessionByHash :: "'s \<Rightarrow> string \<Rightarrow> ident_err + RefreshSession"
  stRevokeRefreshSession :: "'s \<Rightarrow> string \<Rightarrow> go_time \<Rightarrow> ident_err + 's"
  stRevokeAllForUser :: "'s \<Rightarrow> string \<Rightarrow> go_time \<Rightarrow> ident_err + 's"
  stTOTPState :: "'s \<Rightarrow> string \<Rightarrow> ident_err + TOTPState"
  stSetTOTPPending :: "'s \<Rightarrow> string \<Rightarrow> byte list \<Rightarrow> string list \<Rightarrow> ident_err + 's"
  stEnableTOTP :: "'s \<Rightarrow> string \<Rightarrow> byte list \<Rightarrow> string list \<Rightarrow> go_time \<Rightarrow> ident_err + 's"
  stSetRecoveryCodeHashes :: "'s \<Rightarrow> string \<Rightarrow> string list \<Rightarrow> ident_err + 's"
  stClearTOTP :: "'s \<Rightarrow> string \<Rightarrow> ident_err + 's"
  stIdentityByProviderSubject :: "'s \<Rightarrow> ID \<Rightarrow> string \<Rightarrow> string \<Rightarrow> ident_err + Identity"
  stIdentityByID :: "'s \<Rightarrow> string \<Rightarrow> ident_err + Identity"
  stIdentitiesByUserID :: "'s \<Rightarrow> string \<Rightarrow> ident_err + Identity list"
  stInsertIdentity :: "'s \<Rightarrow> NewIdentity \<Rightarrow> ident_err + 's"
  stTouchIdentityLastLogin :: "'s \<Rightarrow> string \<Rightarrow> go_time \<Rightarrow> ident_err + 's"
  stDeleteIdentity :: "'s \<Rightarrow> string \<Rightarrow> ident_err + 's"
  stCountIdentitiesByUserID :: "'s \<Rightarrow> string \<Rightarrow> ident_err + int"
  stProvisionUserWithIdentity :: "'s \<Rightarrow> NewUser \<Rightarrow> NewIdentity \<Rightarrow> bool \<Rightarrow> ident_err + 's \<times> User \<times> Identity"

record 's InvitationStore =
  isCreateInvitation :: "'s \<Rightarrow> Invitation \<Rightarrow> ident_err + 's"
  isInvitationByHash :: "'s \<Rightarrow> string \<Rightarrow> ident_err + Invitation"
  isMarkAccepted :: "'s \<Rightarrow> string \<Rightarrow> go_time \<Rightarrow> ident_err + 's"

record 's MembershipStore =
  msIsMember :: "'s \<Rightarrow> string \<Rightarrow> ID \<Rightarrow> ident_err + bool"
  msMembershipsFor :: "'s \<Rightarrow> string \<Rightarrow> ident_err + ID list"

section \<open>The in-memory store\<close>

record IdentMem =
  usersByID :: "(string, User) go_map"
  emailToID :: "(string, string) go_map"
  sessions :: "(string, RefreshSession) go_map"
  hashToID :: "(string, string) go_map"
  totp :: "(string, TOTPState) go_map"
  identities :: "(string, Identity) go_map"
  invitations :: "(string, Invitation) go_map"
  invHashToID :: "(string, string) go_map"
  memberships :: "(string, (ID, unit) go_map) go_map"

definition tenantKey :: "string \<Rightarrow> string \<Rightarrow> string" where
  "tenantKey tenantID v = tenantID @ CHR 0x00 # v"

definition NewIdentMem :: IdentMem where
  "NewIdentMem = \<lparr>usersByID = [], emailToID = [], sessions = [], hashToID = [], totp = [], identities = [],
     invitations = [], invHashToID = [], memberships = []\<rparr>"

definition userOf :: "NewUser \<Rightarrow> User" where
  "userOf u = \<lparr>uID = nuID u, uTenantID = nuTenantID u, uEmail = nuEmail u, uPasswordHash = nuPasswordHash u,
     uActive = True, uTOTPEnrolled = False, uCreatedAt = nuCreatedAt u\<rparr>"

definition memCreateUser :: "IdentMem \<Rightarrow> NewUser \<Rightarrow> bool \<Rightarrow> ident_err + IdentMem" where
  "memCreateUser m u firstUser =
     (if map_of (emailToID m) (tenantKey (nuTenantID u) (nuEmail u)) \<noteq> None then Inl ErrEmailTaken
      else Inr (m\<lparr>usersByID := AList.update (nuID u) (userOf u) (usersByID m),
                   emailToID := AList.update (tenantKey (nuTenantID u) (nuEmail u)) (nuID u) (emailToID m)\<rparr>))"

definition SeedUser :: "IdentMem \<Rightarrow> User \<Rightarrow> IdentMem" where
  "SeedUser m u =
     m\<lparr>usersByID := AList.update (uID u) u (usersByID m),
       emailToID := AList.update (tenantKey (uTenantID u) (uEmail u)) (uID u) (emailToID m)\<rparr>"

definition SetActive :: "IdentMem \<Rightarrow> string \<Rightarrow> bool \<Rightarrow> IdentMem" where
  "SetActive m i active =
     (case map_of (usersByID m) i of
        None \<Rightarrow> m
      | Some u \<Rightarrow> m\<lparr>usersByID := AList.update i (u\<lparr>uActive := active\<rparr>) (usersByID m)\<rparr>)"

definition memUserByID :: "IdentMem \<Rightarrow> string \<Rightarrow> ident_err + User" where
  "memUserByID m i = (case map_of (usersByID m) i of None \<Rightarrow> Inl IErrNotFound | Some u \<Rightarrow> Inr u)"

definition memUserByEmail :: "IdentMem \<Rightarrow> ID \<Rightarrow> string \<Rightarrow> ident_err + User" where
  "memUserByEmail m tenantID email =
     (case map_of (emailToID m) (tenantKey (IDString tenantID) email) of
        None \<Rightarrow> Inl IErrNotFound
      | Some i \<Rightarrow> Inr (case map_of (usersByID m) i of None \<Rightarrow> zeroUser | Some u \<Rightarrow> u))"

definition matchesIdentity :: "string \<Rightarrow> string \<Rightarrow> string \<Rightarrow> Identity \<Rightarrow> bool" where
  "matchesIdentity tenantID provider subject i =
     (inTenantID i = tenantID \<and> inProvider i = provider \<and> inSubject i = subject)"

definition memIdentityByProviderSubject :: "IdentMem \<Rightarrow> ID \<Rightarrow> string \<Rightarrow> string \<Rightarrow> ident_err + Identity" where
  "memIdentityByProviderSubject m tenantID provider subject =
     (case find (matchesIdentity (IDString tenantID) provider subject) (map snd (identities m)) of
        None \<Rightarrow> Inl IErrNotFound
      | Some i \<Rightarrow> Inr i)"

definition memCountUsers :: "IdentMem \<Rightarrow> ID \<Rightarrow> ident_err + int" where
  "memCountUsers m tenantID =
     Inr (int (length (filter (\<lambda>u. uTenantID u = IDString tenantID) (map snd (usersByID m)))))"

definition memRevokeAllForTenant :: "IdentMem \<Rightarrow> ID \<Rightarrow> go_time \<Rightarrow> ident_err + IdentMem" where
  "memRevokeAllForTenant m tenantID at =
     Inr (m\<lparr>sessions := map (\<lambda>(i, s). (i, if rsTenantID s = IDString tenantID \<and> \<not> Revoked s
                                            then s\<lparr>rsRevokedAt := at\<rparr> else s)) (sessions m)\<rparr>)"

definition memCreateRefreshSession :: "IdentMem \<Rightarrow> RefreshSession \<Rightarrow> ident_err + IdentMem" where
  "memCreateRefreshSession m s =
     Inr (m\<lparr>sessions := AList.update (rsID s) s (sessions m),
             hashToID := AList.update (rsTokenHash s) (rsID s) (hashToID m)\<rparr>)"

definition memRefreshSessionByHash :: "IdentMem \<Rightarrow> string \<Rightarrow> ident_err + RefreshSession" where
  "memRefreshSessionByHash m h =
     (case map_of (hashToID m) h of
        None \<Rightarrow> Inl IErrNotFound
      | Some i \<Rightarrow> Inr (case map_of (sessions m) i of None \<Rightarrow> zeroSession | Some s \<Rightarrow> s))"

definition memRevokeRefreshSession :: "IdentMem \<Rightarrow> string \<Rightarrow> go_time \<Rightarrow> ident_err + IdentMem" where
  "memRevokeRefreshSession m i at =
     (case map_of (sessions m) i of
        None \<Rightarrow> Inr m
      | Some s \<Rightarrow> if Revoked s then Inr m
                  else Inr (m\<lparr>sessions := AList.update i (s\<lparr>rsRevokedAt := at\<rparr>) (sessions m)\<rparr>))"

definition memRevokeAllForUser :: "IdentMem \<Rightarrow> string \<Rightarrow> go_time \<Rightarrow> ident_err + IdentMem" where
  "memRevokeAllForUser m userID at =
     Inr (m\<lparr>sessions := map (\<lambda>(i, s). (i, if rsUserID s = userID \<and> \<not> Revoked s
                                            then s\<lparr>rsRevokedAt := at\<rparr> else s)) (sessions m)\<rparr>)"

definition LiveSessionCount :: "IdentMem \<Rightarrow> string \<Rightarrow> nat" where
  "LiveSessionCount m userID =
     length (filter (\<lambda>s. rsUserID s = userID \<and> \<not> Revoked s) (map snd (sessions m)))"

text \<open>Second factor.\<close>

definition totpOf :: "IdentMem \<Rightarrow> string \<Rightarrow> TOTPState" where
  "totpOf m userID = (case map_of (totp m) userID of None \<Rightarrow> zeroTOTPState | Some s \<Rightarrow> s)"

definition setEnrolledFlag :: "string \<Rightarrow> bool \<Rightarrow> IdentMem \<Rightarrow> IdentMem" where
  "setEnrolledFlag userID b m =
     (case map_of (usersByID m) userID of
        None \<Rightarrow> m
      | Some u \<Rightarrow> m\<lparr>usersByID := AList.update userID (u\<lparr>uTOTPEnrolled := b\<rparr>) (usersByID m)\<rparr>)"

definition memTOTPState :: "IdentMem \<Rightarrow> string \<Rightarrow> ident_err + TOTPState" where
  "memTOTPState m userID =
     (if map_of (usersByID m) userID = None then Inl IErrNotFound else Inr (totpOf m userID))"

definition memSetTOTPPending :: "IdentMem \<Rightarrow> string \<Rightarrow> byte list \<Rightarrow> string list \<Rightarrow> ident_err + IdentMem" where
  "memSetTOTPPending m userID envelope hashes =
     Inr (m\<lparr>totp := AList.update userID
             \<lparr>tsEnrolled = False, tsEnvelope = envelope, tsRecoveryCodeHashes = hashes\<rparr> (totp m)\<rparr>)"

definition memEnableTOTP :: "IdentMem \<Rightarrow> string \<Rightarrow> byte list \<Rightarrow> string list \<Rightarrow> go_time \<Rightarrow> ident_err + IdentMem" where
  "memEnableTOTP m userID envelope hashes enrolledAt =
     Inr (setEnrolledFlag userID True
       (m\<lparr>totp := AList.update userID
           \<lparr>tsEnrolled = True, tsEnvelope = envelope, tsRecoveryCodeHashes = hashes\<rparr> (totp m)\<rparr>))"

definition memSetRecoveryCodeHashes :: "IdentMem \<Rightarrow> string \<Rightarrow> string list \<Rightarrow> ident_err + IdentMem" where
  "memSetRecoveryCodeHashes m userID hashes =
     Inr (m\<lparr>totp := AList.update userID ((totpOf m userID)\<lparr>tsRecoveryCodeHashes := hashes\<rparr>) (totp m)\<rparr>)"

definition memClearTOTP :: "IdentMem \<Rightarrow> string \<Rightarrow> ident_err + IdentMem" where
  "memClearTOTP m userID = Inr (setEnrolledFlag userID False (m\<lparr>totp := AList.delete userID (totp m)\<rparr>))"

text \<open>Linked identities.\<close>

definition identityOf :: "NewIdentity \<Rightarrow> Identity" where
  "identityOf ni = \<lparr>inID = niID ni, inUserID = niUserID ni, inTenantID = niTenantID ni, inProvider = niProvider ni,
     inSubject = niSubject ni, inLinkedAt = niLinkedAt ni, inLastLoginAt = niLastLoginAt ni\<rparr>"

definition identityTaken :: "IdentMem \<Rightarrow> NewIdentity \<Rightarrow> bool" where
  "identityTaken m ni = list_ex (matchesIdentity (niTenantID ni) (niProvider ni) (niSubject ni)) (map snd (identities m))"

definition memIdentityByID :: "IdentMem \<Rightarrow> string \<Rightarrow> ident_err + Identity" where
  "memIdentityByID m i = (case map_of (identities m) i of None \<Rightarrow> Inl IErrNotFound | Some x \<Rightarrow> Inr x)"

definition memIdentitiesByUserID :: "IdentMem \<Rightarrow> string \<Rightarrow> ident_err + Identity list" where
  "memIdentitiesByUserID m userID =
     Inr (sort_key inLinkedAt (filter (\<lambda>i. inUserID i = userID) (map snd (identities m))))"

definition memInsertIdentity :: "IdentMem \<Rightarrow> NewIdentity \<Rightarrow> ident_err + IdentMem" where
  "memInsertIdentity m ni =
     (if identityTaken m ni then Inl ErrIdentityTaken
      else Inr (m\<lparr>identities := AList.update (niID ni) (identityOf ni) (identities m)\<rparr>))"

definition memTouchIdentityLastLogin :: "IdentMem \<Rightarrow> string \<Rightarrow> go_time \<Rightarrow> ident_err + IdentMem" where
  "memTouchIdentityLastLogin m i at =
     (case map_of (identities m) i of
        None \<Rightarrow> Inl IErrNotFound
      | Some x \<Rightarrow> Inr (m\<lparr>identities := AList.update i (x\<lparr>inLastLoginAt := Some at\<rparr>) (identities m)\<rparr>))"

definition memDeleteIdentity :: "IdentMem \<Rightarrow> string \<Rightarrow> ident_err + IdentMem" where
  "memDeleteIdentity m i = Inr (m\<lparr>identities := AList.delete i (identities m)\<rparr>)"

definition memCountIdentitiesByUserID :: "IdentMem \<Rightarrow> string \<Rightarrow> ident_err + int" where
  "memCountIdentitiesByUserID m userID =
     Inr (int (length (filter (\<lambda>i. inUserID i = userID) (map snd (identities m)))))"

definition memProvisionUserWithIdentity :: "IdentMem \<Rightarrow> NewUser \<Rightarrow> NewIdentity \<Rightarrow> bool
    \<Rightarrow> ident_err + IdentMem \<times> User \<times> Identity" where
  "memProvisionUserWithIdentity m u ni firstUser =
     (if map_of (emailToID m) (tenantKey (nuTenantID u) (nuEmail u)) \<noteq> None then Inl ErrEmailTaken
      else if identityTaken m ni then Inl ErrIdentityTaken
      else Inr (m\<lparr>usersByID := AList.update (nuID u) (userOf u) (usersByID m),
                   emailToID := AList.update (tenantKey (nuTenantID u) (nuEmail u)) (nuID u) (emailToID m),
                   identities := AList.update (niID ni) (identityOf ni) (identities m)\<rparr>,
                userOf u, identityOf ni))"

text \<open>Invitations. The whole of \<^verbatim>\<open>memMarkAccepted\<close> runs under one exclusive lock: it is one step.\<close>

definition memCreateInvitation :: "IdentMem \<Rightarrow> Invitation \<Rightarrow> ident_err + IdentMem" where
  "memCreateInvitation m invt =
     (if map_of (invHashToID m) (ivTokenHash invt) \<noteq> None then Inl ErrInvitationConsumed
      else Inr (m\<lparr>invitations := AList.update (ivID invt) invt (invitations m),
                   invHashToID := AList.update (ivTokenHash invt) (ivID invt) (invHashToID m)\<rparr>))"

definition memInvitationByHash :: "IdentMem \<Rightarrow> string \<Rightarrow> ident_err + Invitation" where
  "memInvitationByHash m h =
     (case map_of (invHashToID m) h of
        None \<Rightarrow> Inl IErrNotFound
      | Some i \<Rightarrow> (case map_of (invitations m) i of None \<Rightarrow> Inl IErrNotFound | Some invt \<Rightarrow> Inr invt))"

definition memMarkAccepted :: "IdentMem \<Rightarrow> string \<Rightarrow> go_time \<Rightarrow> ident_err + IdentMem" where
  "memMarkAccepted m i at =
     (case map_of (invitations m) i of
        None \<Rightarrow> Inl IErrNotFound
      | Some invt \<Rightarrow>
          if ivAcceptedAt invt \<noteq> 0 then Inl ErrInvitationConsumed
          else Inr (m\<lparr>invitations := AList.update i (invt\<lparr>ivAcceptedAt := at\<rparr>) (invitations m)\<rparr>))"

text \<open>Memberships.\<close>

definition membersOf :: "IdentMem \<Rightarrow> string \<Rightarrow> (ID, unit) go_map" where
  "membersOf m userID = (case map_of (memberships m) userID of None \<Rightarrow> [] | Some ts \<Rightarrow> ts)"

definition AddMembership :: "IdentMem \<Rightarrow> string \<Rightarrow> ID \<Rightarrow> IdentMem" where
  "AddMembership m userID tenantID =
     m\<lparr>memberships := AList.update userID (AList.update tenantID () (membersOf m userID)) (memberships m)\<rparr>"

definition RemoveMembership :: "IdentMem \<Rightarrow> string \<Rightarrow> ID \<Rightarrow> IdentMem" where
  "RemoveMembership m userID tenantID =
     (case map_of (memberships m) userID of
        None \<Rightarrow> m
      | Some ts \<Rightarrow> m\<lparr>memberships := AList.update userID (AList.delete tenantID ts) (memberships m)\<rparr>)"

definition memIsMember :: "IdentMem \<Rightarrow> string \<Rightarrow> ID \<Rightarrow> ident_err + bool" where
  "memIsMember m userID tenantID = Inr (map_of (membersOf m userID) tenantID \<noteq> None)"

definition memMembershipsFor :: "IdentMem \<Rightarrow> string \<Rightarrow> ident_err + ID list" where
  "memMembershipsFor m userID = Inr (map fst (membersOf m userID))"

text \<open>\<^verbatim>\<open>MemStore\<close> as the three ports.\<close>

definition memStore :: "IdentMem Store" where
  "memStore = \<lparr>stCreateUser = memCreateUser, stUserByID = memUserByID, stUserByEmail = memUserByEmail,
     stCountUsers = memCountUsers, stRevokeAllForTenant = memRevokeAllForTenant,
     stCreateRefreshSession = memCreateRefreshSession, stRefreshSessionByHash = memRefreshSessionByHash,
     stRevokeRefreshSession = memRevokeRefreshSession, stRevokeAllForUser = memRevokeAllForUser,
     stTOTPState = memTOTPState, stSetTOTPPending = memSetTOTPPending, stEnableTOTP = memEnableTOTP,
     stSetRecoveryCodeHashes = memSetRecoveryCodeHashes, stClearTOTP = memClearTOTP,
     stIdentityByProviderSubject = memIdentityByProviderSubject, stIdentityByID = memIdentityByID,
     stIdentitiesByUserID = memIdentitiesByUserID, stInsertIdentity = memInsertIdentity,
     stTouchIdentityLastLogin = memTouchIdentityLastLogin, stDeleteIdentity = memDeleteIdentity,
     stCountIdentitiesByUserID = memCountIdentitiesByUserID,
     stProvisionUserWithIdentity = memProvisionUserWithIdentity\<rparr>"

definition memInvitationStore :: "IdentMem InvitationStore" where
  "memInvitationStore = \<lparr>isCreateInvitation = memCreateInvitation, isInvitationByHash = memInvitationByHash,
     isMarkAccepted = memMarkAccepted\<rparr>"

definition memMembershipStore :: "IdentMem MembershipStore" where
  "memMembershipStore = \<lparr>msIsMember = memIsMember, msMembershipsFor = memMembershipsFor\<rparr>"

section \<open>The invariant of the in-memory store\<close>

definition nulFree :: "string \<Rightarrow> bool" where
  "nulFree s \<longleftrightarrow> CHR 0x00 \<notin> set s"

text \<open>
  A table with a secondary index: rows are filed under their own id, and the index maps
  every row's key to the row's id and nothing else.
\<close>

definition indexOk :: "('r \<Rightarrow> string) \<Rightarrow> ('r \<Rightarrow> string) \<Rightarrow> (string, 'r) go_map \<Rightarrow> (string, string) go_map \<Rightarrow> bool" where
  "indexOk rid key tbl idx \<longleftrightarrow> distinct (map fst tbl) \<and>
     (\<forall>i r. map_of tbl i = Some r \<longrightarrow> rid r = i \<and> map_of idx (key r) = Some i) \<and>
     (\<forall>k i. map_of idx k = Some i \<longrightarrow> (\<exists>r. map_of tbl i = Some r \<and> key r = k))"

definition userKey :: "User \<Rightarrow> string" where
  "userKey u = tenantKey (uTenantID u) (uEmail u)"

definition usersOk :: "(string, User) go_map \<Rightarrow> (string, string) go_map \<Rightarrow> bool" where
  "usersOk us es \<longleftrightarrow> indexOk uID userKey us es \<and> (\<forall>i u. map_of us i = Some u \<longrightarrow> nulFree (uEmail u))"

definition identitiesOk :: "(string, Identity) go_map \<Rightarrow> bool" where
  "identitiesOk xs \<longleftrightarrow> distinct (map fst xs) \<and>
     (\<forall>i x. map_of xs i = Some x \<longrightarrow> inID x = i) \<and>
     (\<forall>i j x y. map_of xs i = Some x \<longrightarrow> map_of xs j = Some y \<longrightarrow>
        matchesIdentity (inTenantID x) (inProvider x) (inSubject x) y \<longrightarrow> i = j)"


definition identMemOk :: "IdentMem \<Rightarrow> bool" where
  "identMemOk m \<longleftrightarrow> usersOk (usersByID m) (emailToID m) \<and> indexOk rsID rsTokenHash (sessions m) (hashToID m) \<and>
     identitiesOk (identities m) \<and> indexOk ivID ivTokenHash (invitations m) (invHashToID m)"

lemma tenantKey_inj:
  assumes "tenantKey t v = tenantKey t' v'" "nulFree v" "nulFree v'"
  shows "t = t' \<and> v = v'"
  using assms
proof (induction t arbitrary: t')
  case Nil
  then show ?case by (cases t') (auto simp: tenantKey_def nulFree_def)
next
  case (Cons c t)
  then show ?case by (cases t') (auto simp: tenantKey_def nulFree_def)
qed

text \<open>Writing one row under a fresh id and a fresh key; rewriting rows that keep both.\<close>

lemma indexOk_insert:
  assumes ok: "indexOk rid key tbl idx" and fresh: "map_of tbl (rid r) = None" "map_of idx (key r) = None"
  shows "indexOk rid key (AList.update (rid r) r tbl) (AList.update (key r) (rid r) idx)"
proof -
  have "key x \<noteq> key r" if "map_of tbl i = Some x" for i x
    using ok fresh that by (metis indexOk_def option.distinct(1))
  moreover have "i \<noteq> rid r" if "map_of idx k = Some i" for k i
    using ok fresh that by (metis indexOk_def option.distinct(1))
  ultimately show ?thesis
    using ok unfolding indexOk_def by (auto simp: alist_simps)
qed

lemma indexOk_map_of:
  assumes ok: "indexOk rid key tbl idx" and "distinct (map fst tbl')"
    and same: "\<And>i. rel_option (\<lambda>r r'. rid r' = rid r \<and> key r' = key r) (map_of tbl i) (map_of tbl' i)"
  shows "indexOk rid key tbl' idx"
proof -
  have a: "\<exists>r. map_of tbl i = Some r \<and> rid r' = rid r \<and> key r' = key r" if "map_of tbl' i = Some r'" for i r'
    using same [of i] that by (auto elim: option.rel_cases)
  have b: "\<exists>r'. map_of tbl' i = Some r' \<and> key r' = key r" if "map_of tbl i = Some r" for i r
    using same [of i] that by (auto elim: option.rel_cases)
  have "rid r' = i \<and> map_of idx (key r') = Some i" if "map_of tbl' i = Some r'" for i r'
    using a [OF that] ok by (auto simp: indexOk_def)
  moreover have "\<exists>r'. map_of tbl' i = Some r' \<and> key r' = k" if "map_of idx k = Some i" for k i
    using ok b that unfolding indexOk_def by blast
  ultimately show ?thesis
    using assms(2) unfolding indexOk_def by blast
qed

lemma indexOk_modify:
  assumes "indexOk rid key tbl idx" "map_of tbl i = Some r" "rid r' = rid r" "key r' = key r"
  shows "indexOk rid key (AList.update i r' tbl) idx"
  by (rule indexOk_map_of [OF assms(1)])
    (use assms in \<open>auto simp: alist_simps indexOk_def option.rel_refl\<close>)

lemma indexOk_key: "indexOk rid key tbl idx \<Longrightarrow> map_of idx k = Some i \<Longrightarrow> \<exists>r. map_of tbl i = Some r \<and> key r = k"
  unfolding indexOk_def by blast

lemma indexOk_row:
  "indexOk rid key tbl idx \<Longrightarrow> map_of tbl i = Some r \<Longrightarrow> rid r = i \<and> map_of idx (key r) = Some i"
  unfolding indexOk_def by blast

lemma indexOk_revoke:
  "indexOk rsID rsTokenHash ss hs \<Longrightarrow> map_of ss i = Some r \<Longrightarrow>
   indexOk rsID rsTokenHash (AList.update i (r\<lparr>rsRevokedAt := at\<rparr>) ss) hs"
  by (erule indexOk_modify) simp_all

lemma indexOk_accept:
  "indexOk ivID ivTokenHash vs hs \<Longrightarrow> map_of vs i = Some v \<Longrightarrow>
   indexOk ivID ivTokenHash (AList.update i (v\<lparr>ivAcceptedAt := at\<rparr>) vs) hs"
  by (erule indexOk_modify) simp_all

lemma map_of_map_snd: "map_of (map (\<lambda>(i, s). (i, f s)) xs) i = map_option f (map_of xs i)"
  by (induction xs) auto

lemma fst_map_snd: "map fst (map (\<lambda>(i, s). (i, f s)) xs) = map fst xs"
  by (induction xs) auto

lemma indexOk_map:
  assumes "indexOk rid key tbl idx" "\<And>r. rid (f r) = rid r \<and> key (f r) = key r"
  shows "indexOk rid key (map (\<lambda>(i, s). (i, f s)) tbl) idx"
proof (rule indexOk_map_of [OF assms(1)])
  show "distinct (map fst (map (\<lambda>(i, s). (i, f s)) tbl))"
    using assms(1) by (simp only: fst_map_snd indexOk_def)
  show "rel_option (\<lambda>r r'. rid r' = rid r \<and> key r' = key r) (map_of tbl i)
      (map_of (map (\<lambda>(i, s). (i, f s)) tbl) i)" for i
    using assms(2) by (cases "map_of tbl i") (auto simp: map_of_map_snd)
qed

lemma usersOk_insert:
  assumes "usersOk us es" "map_of us (uID u) = None" "map_of es (userKey u) = None" "nulFree (uEmail u)"
  shows "usersOk (AList.update (uID u) u us) (AList.update (userKey u) (uID u) es)"
  using assms by (auto simp: usersOk_def alist_simps intro: indexOk_insert)

lemma usersOk_modify:
  assumes "usersOk us es" "map_of us i = Some u" "uID u' = uID u" "uTenantID u' = uTenantID u" "uEmail u' = uEmail u"
  shows "usersOk (AList.update i u' us) es"
  using assms by (auto simp: usersOk_def alist_simps userKey_def intro: indexOk_modify)

lemma map_of_in_snd: "map_of xs i = Some x \<Longrightarrow> x \<in> set (map snd xs)"
  by (force dest: map_of_SomeD)

lemma in_snd_map_of: "distinct (map fst xs) \<Longrightarrow> x \<in> set (map snd xs) \<Longrightarrow> \<exists>i. map_of xs i = Some x"
  by (metis (no_types, lifting) map_of_eq_Some_iff image_iff list.set_map prod.collapse)

lemma identityTaken_iff:
  "identitiesOk (identities m) \<Longrightarrow> identityTaken m ni \<longleftrightarrow>
     (\<exists>i x. map_of (identities m) i = Some x \<and> matchesIdentity (niTenantID ni) (niProvider ni) (niSubject ni) x)"
  unfolding identityTaken_def list_ex_iff identitiesOk_def
  by (meson in_snd_map_of map_of_in_snd)

lemma identitiesOk_insert:
  assumes "identitiesOk xs" "map_of xs (inID x) = None"
    "\<And>i y. map_of xs i = Some y \<Longrightarrow> \<not> matchesIdentity (inTenantID x) (inProvider x) (inSubject x) y"
  shows "identitiesOk (AList.update (inID x) x xs)"
  using assms unfolding identitiesOk_def by (auto simp: alist_simps matchesIdentity_def) metis

lemma identitiesOk_touch:
  assumes "identitiesOk xs" "map_of xs i = Some x"
  shows "identitiesOk (AList.update i (x\<lparr>inLastLoginAt := at\<rparr>) xs)"
  using assms unfolding identitiesOk_def by (simp add: alist_simps matchesIdentity_def) metis

lemma identitiesOk_delete: "identitiesOk xs \<Longrightarrow> identitiesOk (AList.delete i xs)"
  unfolding identitiesOk_def by (auto simp: alist_simps)


lemma setEnrolledFlag_ok: "identMemOk m \<Longrightarrow> identMemOk (setEnrolledFlag u b m)"
  unfolding identMemOk_def setEnrolledFlag_def
  by (auto split: option.splits intro: usersOk_modify)

end
