(* ===== verification/Identity_Contract.thy ===== *)
theory Identity_Contract
  imports Identity_Store
begin

text \<open>
  What the identity core relies on of its \<^verbatim>\<open>Store\<close>: the contract is the locale
  \<^verbatim>\<open>identity_store\<close>, its provider is \<^verbatim>\<open>MemStore\<close>. The invariant \<^verbatim>\<open>identMemOk\<close> is shown to
  be kept by every operation of \<^verbatim>\<open>MemStore\<close> and so to hold in every state the store can
  reach, where ids come from a generator that does not repeat and emails hold no NUL.
\<close>

section \<open>Reachable states of the in-memory store\<close>

inductive identReach :: "IdentMem \<Rightarrow> bool" where
  init: "identReach NewIdentMem"
| create: "identReach m \<Longrightarrow> map_of (usersByID m) (nuID u) = None \<Longrightarrow> nulFree (nuEmail u) \<Longrightarrow>
    memCreateUser m u f = Inr m' \<Longrightarrow> identReach m'"
| active: "identReach m \<Longrightarrow> identReach (SetActive m i b)"
| revokeTenant: "identReach m \<Longrightarrow> memRevokeAllForTenant m t at = Inr m' \<Longrightarrow> identReach m'"
| newSession: "identReach m \<Longrightarrow> map_of (sessions m) (rsID r) = None \<Longrightarrow>
    map_of (hashToID m) (rsTokenHash r) = None \<Longrightarrow> memCreateRefreshSession m r = Inr m' \<Longrightarrow> identReach m'"
| revoke: "identReach m \<Longrightarrow> memRevokeRefreshSession m i at = Inr m' \<Longrightarrow> identReach m'"
| revokeUser: "identReach m \<Longrightarrow> memRevokeAllForUser m i at = Inr m' \<Longrightarrow> identReach m'"
| totpPending: "identReach m \<Longrightarrow> memSetTOTPPending m i e hs = Inr m' \<Longrightarrow> identReach m'"
| totpEnable: "identReach m \<Longrightarrow> memEnableTOTP m i e hs at = Inr m' \<Longrightarrow> identReach m'"
| recovery: "identReach m \<Longrightarrow> memSetRecoveryCodeHashes m i hs = Inr m' \<Longrightarrow> identReach m'"
| totpClear: "identReach m \<Longrightarrow> memClearTOTP m i = Inr m' \<Longrightarrow> identReach m'"
| link: "identReach m \<Longrightarrow> map_of (identities m) (niID ni) = None \<Longrightarrow> memInsertIdentity m ni = Inr m' \<Longrightarrow>
    identReach m'"
| touch: "identReach m \<Longrightarrow> memTouchIdentityLastLogin m i at = Inr m' \<Longrightarrow> identReach m'"
| unlink: "identReach m \<Longrightarrow> memDeleteIdentity m i = Inr m' \<Longrightarrow> identReach m'"
| provision: "identReach m \<Longrightarrow> map_of (usersByID m) (nuID u) = None \<Longrightarrow> nulFree (nuEmail u) \<Longrightarrow>
    map_of (identities m) (niID ni) = None \<Longrightarrow> memProvisionUserWithIdentity m u ni f = Inr (m', x) \<Longrightarrow>
    identReach m'"
| invite: "identReach m \<Longrightarrow> map_of (invitations m) (ivID v) = None \<Longrightarrow> memCreateInvitation m v = Inr m' \<Longrightarrow>
    identReach m'"
| accept: "identReach m \<Longrightarrow> memMarkAccepted m i at = Inr m' \<Longrightarrow> identReach m'"
| addMember: "identReach m \<Longrightarrow> identReach (AddMembership m i t)"
| removeMember: "identReach m \<Longrightarrow> identReach (RemoveMembership m i t)"

lemma userOf_simps [simp]:
  "uID (userOf u) = nuID u" "uTenantID (userOf u) = nuTenantID u" "uEmail (userOf u) = nuEmail u"
  "uPasswordHash (userOf u) = nuPasswordHash u" "uActive (userOf u)" "\<not> uTOTPEnrolled (userOf u)"
  "userKey (userOf u) = tenantKey (nuTenantID u) (nuEmail u)"
  by (simp_all add: userOf_def userKey_def)

lemma identityOf_simps [simp]:
  "inID (identityOf n) = niID n" "inUserID (identityOf n) = niUserID n" "inTenantID (identityOf n) = niTenantID n"
  "inProvider (identityOf n) = niProvider n" "inSubject (identityOf n) = niSubject n"
  by (simp_all add: identityOf_def)

lemma memCreateUser_ok:
  assumes "identMemOk m" "map_of (usersByID m) (nuID u) = None" "nulFree (nuEmail u)"
    "memCreateUser m u f = Inr m'"
  shows "identMemOk m'"
  using assms usersOk_insert [of "usersByID m" "emailToID m" "userOf u"]
  by (auto simp: identMemOk_def memCreateUser_def split: if_splits)

lemma SetActive_ok: "identMemOk m \<Longrightarrow> identMemOk (SetActive m i b)"
  by (auto simp: identMemOk_def SetActive_def split: option.splits intro: usersOk_modify)

lemma memCreateRefreshSession_ok:
  assumes "identMemOk m" "map_of (sessions m) (rsID r) = None" "map_of (hashToID m) (rsTokenHash r) = None"
    "memCreateRefreshSession m r = Inr m'"
  shows "identMemOk m'"
  using assms by (auto simp: identMemOk_def memCreateRefreshSession_def intro: indexOk_insert)

lemma memRevokeRefreshSession_ok:
  "identMemOk m \<Longrightarrow> memRevokeRefreshSession m i at = Inr m' \<Longrightarrow> identMemOk m'"
  by (auto simp: identMemOk_def memRevokeRefreshSession_def split: option.splits if_splits intro: indexOk_revoke)

lemma revokeAll_ok:
  assumes "identMemOk m"
  shows "identMemOk (m\<lparr>sessions := map (\<lambda>(i, s). (i, if P s then s\<lparr>rsRevokedAt := at\<rparr> else s)) (sessions m)\<rparr>)"
  using assms by (auto simp: identMemOk_def intro: indexOk_map)

lemma identitiesOk_add:
  "identitiesOk (identities m) \<Longrightarrow> map_of (identities m) (niID ni) = None \<Longrightarrow> \<not> identityTaken m ni \<Longrightarrow>
   identitiesOk (AList.update (niID ni) (identityOf ni) (identities m))"
  using identitiesOk_insert [of "identities m" "identityOf ni"] by (auto simp: identityTaken_iff)

lemma memProvision_ok:
  assumes "identMemOk m" "map_of (usersByID m) (nuID u) = None" "nulFree (nuEmail u)"
    "map_of (identities m) (niID ni) = None" "memProvisionUserWithIdentity m u ni f = Inr (m', x)"
  shows "identMemOk m'"
  using assms usersOk_insert [of "usersByID m" "emailToID m" "userOf u"]
  by (auto simp: identMemOk_def memProvisionUserWithIdentity_def identitiesOk_add split: if_splits)

lemma memCreateInvitation_ok:
  assumes "identMemOk m" "map_of (invitations m) (ivID v) = None" "memCreateInvitation m v = Inr m'"
  shows "identMemOk m'"
  using assms by (auto simp: identMemOk_def memCreateInvitation_def split: if_splits intro: indexOk_insert)

lemma memMarkAccepted_ok: "identMemOk m \<Longrightarrow> memMarkAccepted m i at = Inr m' \<Longrightarrow> identMemOk m'"
  by (auto simp: identMemOk_def memMarkAccepted_def split: option.splits if_splits intro: indexOk_accept)

lemma identReach_ok: "identReach m \<Longrightarrow> identMemOk m"
proof (induction rule: identReach.induct)
  case init
  then show ?case by (simp add: NewIdentMem_def identMemOk_def usersOk_def indexOk_def identitiesOk_def)
next
  case (revokeTenant m t at m')
  then show ?case by (auto simp: memRevokeAllForTenant_def intro: revokeAll_ok)
next
  case (revokeUser m i at m')
  then show ?case by (auto simp: memRevokeAllForUser_def intro: revokeAll_ok)
next
  case (totpPending m i e hs m')
  then show ?case by (auto simp: memSetTOTPPending_def identMemOk_def)
next
  case (totpEnable m i e hs at m')
  then show ?case by (auto simp: memEnableTOTP_def intro!: setEnrolledFlag_ok) (simp add: identMemOk_def)
next
  case (recovery m i hs m')
  then show ?case by (auto simp: memSetRecoveryCodeHashes_def identMemOk_def)
next
  case (totpClear m i m')
  then show ?case by (auto simp: memClearTOTP_def intro!: setEnrolledFlag_ok) (simp add: identMemOk_def)
next
  case (link m ni m')
  then show ?case by (auto simp: memInsertIdentity_def identMemOk_def identitiesOk_add split: if_splits)
next
  case (touch m i at m')
  then show ?case
    by (auto simp: memTouchIdentityLastLogin_def identMemOk_def split: option.splits intro: identitiesOk_touch)
next
  case (unlink m i m')
  then show ?case by (auto simp: memDeleteIdentity_def identMemOk_def intro: identitiesOk_delete)
next
  case (addMember m i t)
  then show ?case by (simp add: AddMembership_def identMemOk_def)
next
  case (removeMember m i t)
  then show ?case by (auto simp: RemoveMembership_def identMemOk_def split: option.splits)
qed (erule (3) memCreateUser_ok memProvision_ok | erule (2) memCreateRefreshSession_ok memCreateInvitation_ok
    | blast intro: SetActive_ok memRevokeRefreshSession_ok memMarkAccepted_ok memCreateUser_ok memProvision_ok
        memCreateRefreshSession_ok memCreateInvitation_ok)+

section \<open>The contract\<close>

text \<open>
  Users: a row comes back under its own id, an email lookup is scoped to the tenant it
  names and finds the row of the id, and a new row changes no other. Sessions: a row
  comes back under its own hash, a new one changes no other, and revoking one marks that
  one only. User rows and sessions do not touch each other.
\<close>

locale identity_store =
  fixes S :: "'s Store" and ok :: "'s \<Rightarrow> bool"
  assumes user_self: "ok s \<Longrightarrow> stUserByID S s i = Inr u \<Longrightarrow> uID u = i"
    and email_scoped: "ok s \<Longrightarrow> nulFree e \<Longrightarrow> stUserByEmail S s t e = Inr u \<Longrightarrow>
      uTenantID u = IDString t \<and> uEmail u = e \<and> stUserByID S s (uID u) = Inr u"
    and email_complete: "ok s \<Longrightarrow> stUserByID S s i = Inr u \<Longrightarrow>
      stUserByEmail S s (FromStored (uTenantID u)) (uEmail u) = Inr u"
    and create_ok: "ok s \<Longrightarrow> stUserByID S s (nuID n) = Inl IErrNotFound \<Longrightarrow> nulFree (nuEmail n) \<Longrightarrow>
      stCreateUser S s n f = Inr s' \<Longrightarrow>
      ok s' \<and> stUserByID S s' = (stUserByID S s)(nuID n := Inr (userOf n)) \<and>
      stRefreshSessionByHash S s' = stRefreshSessionByHash S s"
    and create_taken: "ok s \<Longrightarrow> nulFree (nuEmail n) \<Longrightarrow> stCreateUser S s n f = Inl ErrEmailTaken \<longleftrightarrow>
      isOk (stUserByEmail S s (FromStored (nuTenantID n)) (nuEmail n))"
    and session_self: "ok s \<Longrightarrow> stRefreshSessionByHash S s h = Inr r \<Longrightarrow> rsTokenHash r = h"
    and session_created: "ok s \<Longrightarrow> \<forall>h r. stRefreshSessionByHash S s h = Inr r \<longrightarrow> rsID r \<noteq> rsID q \<Longrightarrow>
      stRefreshSessionByHash S s (rsTokenHash q) = Inl IErrNotFound \<Longrightarrow> stCreateRefreshSession S s q = Inr s' \<Longrightarrow>
      ok s' \<and> stRefreshSessionByHash S s' = (stRefreshSessionByHash S s)(rsTokenHash q := Inr q) \<and>
      stUserByID S s' = stUserByID S s"
    and session_revoked: "ok s \<Longrightarrow> stRefreshSessionByHash S s h = Inr r \<Longrightarrow>
      stRevokeRefreshSession S s (rsID r) at = Inr s' \<Longrightarrow>
      ok s' \<and> stRefreshSessionByHash S s' = (stRefreshSessionByHash S s)
        (h := Inr (if Revoked r then r else r\<lparr>rsRevokedAt := at\<rparr>)) \<and>
      stUserByID S s' = stUserByID S s"
begin

text \<open>One row per email of a tenant, and none seen from another tenant.\<close>

lemma email_unique:
  assumes "ok s" "nulFree (uEmail u)" "stUserByID S s i = Inr u" "stUserByID S s j = Inr v"
    "uTenantID u = uTenantID v" "uEmail u = uEmail v"
  shows "i = j"
  using assms email_complete [of s i u] email_complete [of s j v] user_self by (metis sum.inject(2))

lemma email_other_tenant:
  assumes "ok s" "nulFree e" "stUserByEmail S s t e = Inr u" "stUserByEmail S s t' e' = Inr u" "nulFree e'"
  shows "IDString t = IDString t' \<and> e = e'"
  using assms email_scoped by metis

end

lemma tenantKey_eq:
  "nulFree v \<Longrightarrow> nulFree v' \<Longrightarrow> tenantKey t v = tenantKey t' v' \<longleftrightarrow> t = t' \<and> v = v'"
  using tenantKey_inj by blast


lemma memOk_user:
  assumes "identMemOk m" "map_of (usersByID m) i = Some u"
  shows "uID u = i \<and> nulFree (uEmail u) \<and> map_of (emailToID m) (tenantKey (uTenantID u) (uEmail u)) = Some i"
  using assms indexOk_row [of uID userKey] unfolding identMemOk_def usersOk_def userKey_def by metis

lemma memOk_email:
  assumes "identMemOk m" "map_of (emailToID m) k = Some i"
  shows "\<exists>u. map_of (usersByID m) i = Some u \<and> userKey u = k"
  using assms indexOk_key [of uID userKey] unfolding identMemOk_def usersOk_def by metis

lemma memOk_session:
  assumes "identMemOk m" "map_of (sessions m) i = Some r"
  shows "rsID r = i \<and> map_of (hashToID m) (rsTokenHash r) = Some i"
  using assms indexOk_row [of rsID rsTokenHash] unfolding identMemOk_def by metis

lemma memOk_hash:
  assumes "identMemOk m" "map_of (hashToID m) h = Some i"
  shows "\<exists>r. map_of (sessions m) i = Some r \<and> rsTokenHash r = h"
  using assms indexOk_key [of rsID rsTokenHash] unfolding identMemOk_def by metis

lemma memUserByEmail_scoped:
  assumes "identMemOk m" "nulFree e" "memUserByEmail m t e = Inr u"
  shows "uTenantID u = IDString t \<and> uEmail u = e \<and> memUserByID m (uID u) = Inr u"
proof -
  obtain i where i: "map_of (emailToID m) (tenantKey (IDString t) e) = Some i"
    using assms(3) by (auto simp: memUserByEmail_def split: option.splits)
  then obtain v where v: "map_of (usersByID m) i = Some v" "userKey v = tenantKey (IDString t) e"
    using memOk_email [OF assms(1)] by blast
  with memOk_user [OF assms(1) v(1)] assms(2) have "uTenantID v = IDString t \<and> uEmail v = e \<and> uID v = i"
    by (auto simp: userKey_def tenantKey_eq)
  with i v assms(3) show ?thesis by (auto simp: memUserByEmail_def memUserByID_def)
qed

lemma memUserByID_Inr [simp]: "memUserByID m i = Inr u \<longleftrightarrow> map_of (usersByID m) i = Some u"
  by (auto simp: memUserByID_def split: option.splits)

lemma memUserByID_Inl [simp]: "memUserByID m i = Inl e \<longleftrightarrow> e = IErrNotFound \<and> map_of (usersByID m) i = None"
  by (auto simp: memUserByID_def split: option.splits)

lemma memRefreshSessionByHash_Inr:
  assumes "identMemOk m"
  shows "memRefreshSessionByHash m h = Inr r \<longleftrightarrow>
    map_of (hashToID m) h = Some (rsID r) \<and> map_of (sessions m) (rsID r) = Some r \<and> rsTokenHash r = h"
proof (cases "map_of (hashToID m) h")
  case None
  then show ?thesis by (simp add: memRefreshSessionByHash_def)
next
  case (Some i)
  then obtain q where q: "map_of (sessions m) i = Some q" "rsTokenHash q = h"
    using memOk_hash [OF assms] by blast
  have "rsID q = i" using memOk_session [OF assms q(1)] by simp
  have "memRefreshSessionByHash m h = Inr r \<longleftrightarrow> q = r"
    using Some q(1) by (simp add: memRefreshSessionByHash_def)
  also have "\<dots> \<longleftrightarrow> i = rsID r \<and> map_of (sessions m) (rsID r) = Some r"
  proof
    assume "q = r"
    with q(1) \<open>rsID q = i\<close> show "i = rsID r \<and> map_of (sessions m) (rsID r) = Some r" by (metis)
  next
    assume "i = rsID r \<and> map_of (sessions m) (rsID r) = Some r"
    with q(1) show "q = r" by (metis option.inject)
  qed
  finally show ?thesis using Some q by (metis option.inject)
qed

lemma memRevoke_byHash:
  assumes ok: "identMemOk m" and r: "memRefreshSessionByHash m h = Inr r"
    and rv: "memRevokeRefreshSession m (rsID r) at = Inr m'"
  shows "memRefreshSessionByHash m' = (memRefreshSessionByHash m)
    (h := Inr (if Revoked r then r else r\<lparr>rsRevokedAt := at\<rparr>))"
proof (cases "Revoked r")
  case True
  with rv r ok have "m' = m" by (auto simp: memRevokeRefreshSession_def memRefreshSessionByHash_Inr)
  with r True show ?thesis by (auto simp: fun_eq_iff)
next
  case False
  have h: "map_of (hashToID m) h = Some (rsID r)" "map_of (sessions m) (rsID r) = Some r"
    using r ok by (auto simp: memRefreshSessionByHash_Inr)
  with rv False have m': "m' = m\<lparr>sessions := AList.update (rsID r) (r\<lparr>rsRevokedAt := at\<rparr>) (sessions m)\<rparr>"
    by (auto simp: memRevokeRefreshSession_def)
  have rh: "rsTokenHash r = h" using r ok by (simp add: memRefreshSessionByHash_Inr)
  have other: "h' = h" if "map_of (hashToID m) h' = Some (rsID r)" for h'
    using memOk_hash [OF ok that] h(2) rh by auto
  show ?thesis
  proof (rule ext)
    fix k
    show "memRefreshSessionByHash m' k = ((memRefreshSessionByHash m)
        (h := Inr (if Revoked r then r else r\<lparr>rsRevokedAt := at\<rparr>))) k"
    proof (cases "k = h")
      case True
      then show ?thesis using h False by (simp add: m' memRefreshSessionByHash_def alist_simps)
    next
      case k: False
      then have "map_of (hashToID m) k \<noteq> Some (rsID r)" using other by blast
      then show ?thesis
        using k by (simp add: m' memRefreshSessionByHash_def alist_simps split: option.split)
    qed
  qed
qed

lemma memCreate_byHash:
  assumes ok: "identMemOk m" and "map_of (sessions m) (rsID q) = None"
    and "memCreateRefreshSession m q = Inr m'"
  shows "memRefreshSessionByHash m' = (memRefreshSessionByHash m)(rsTokenHash q := Inr q)"
proof (rule ext)
  fix k
  have "i \<noteq> rsID q" if "map_of (hashToID m) k = Some i" for i
    using memOk_hash [OF ok that] assms(2) by force
  moreover have "m' = m\<lparr>sessions := AList.update (rsID q) q (sessions m),
      hashToID := AList.update (rsTokenHash q) (rsID q) (hashToID m)\<rparr>"
    using assms(3) by (simp add: memCreateRefreshSession_def)
  ultimately show "memRefreshSessionByHash m' k = ((memRefreshSessionByHash m)(rsTokenHash q := Inr q)) k"
    by (cases "k = rsTokenHash q"; cases "map_of (hashToID m) k")
      (simp_all add: memRefreshSessionByHash_def alist_simps)
qed

interpretation mem_identity: identity_store memStore identMemOk
proof (unfold_locales, goal_cases)
  case (1 s i u)
  then show ?case by (auto simp: memStore_def memOk_user)
next
  case (2 s e t u)
  then show ?case using memUserByEmail_scoped by (simp add: memStore_def)
next
  case (3 s i u)
  then show ?case
    by (auto simp: memStore_def memOk_user memUserByEmail_def)
next
  case (4 s n f s')
  then show ?case
    using memCreateUser_ok [of s n f s']
    by (auto simp: memStore_def memCreateUser_def memUserByID_def memRefreshSessionByHash_def fun_eq_iff alist_simps
        split: if_splits option.splits)
next
  case (5 s n f)
  then show ?case
    by (auto simp: memStore_def memCreateUser_def memUserByEmail_def split: option.splits)
next
  case (6 s h r)
  then show ?case by (auto simp: memStore_def memRefreshSessionByHash_Inr)
next
  case (7 s n s')
  have fresh: "map_of (hashToID s) (rsTokenHash n) = None"
    using 7(3) by (auto simp: memStore_def memRefreshSessionByHash_def split: option.splits)
  have "map_of (sessions s) (rsID n) = None"
  proof (rule ccontr)
    assume "map_of (sessions s) (rsID n) \<noteq> None"
    then obtain r where "map_of (sessions s) (rsID n) = Some r" by blast
    with memOk_session [OF 7(1)] have "memRefreshSessionByHash s (rsTokenHash r) = Inr r" "rsID r = rsID n"
      by (auto simp: memRefreshSessionByHash_def)
    with 7(2) show False by (auto simp: memStore_def)
  qed
  moreover have "memUserByID s' = memUserByID s"
    using 7(4) by (auto simp: memStore_def memCreateRefreshSession_def memUserByID_def)
  ultimately show ?case
    using 7 fresh memCreateRefreshSession_ok [of s n s'] memCreate_byHash [of s n s'] by (simp add: memStore_def)
next
  case (8 s h r at s')
  then have "memUserByID s' = memUserByID s"
    by (auto simp: memStore_def memRevokeRefreshSession_def memUserByID_def fun_eq_iff split: option.splits if_splits)
  with 8 show ?case
    using memRevokeRefreshSession_ok [of s] memRevoke_byHash [of s h r at s'] by (auto simp: memStore_def)
qed

section \<open>Isolation\<close>

lemma count_rows:
  assumes "distinct (map fst xs)"
  shows "length (filter P (map snd xs)) = card {i. \<exists>u. map_of xs i = Some u \<and> P u}"
proof -
  have "{i. \<exists>u. map_of xs i = Some u \<and> P u} = fst ` set (filter (\<lambda>p. P (snd p)) xs)"
    using assms by (force simp: map_of_eq_Some_iff)
  moreover have "distinct (map fst (filter (\<lambda>p. P (snd p)) xs))"
    using assms by (rule distinct_map_filter)
  ultimately have "card {i. \<exists>u. map_of xs i = Some u \<and> P u} = length (filter (\<lambda>p. P (snd p)) xs)"
    by (metis distinct_card length_map list.set_map)
  then show ?thesis by (simp add: filter_map o_def)
qed

lemma memIdentityByProviderSubject_Inr:
  assumes "identitiesOk (identities m)"
  shows "memIdentityByProviderSubject m t p s = Inr x \<longleftrightarrow>
    map_of (identities m) (inID x) = Some x \<and> matchesIdentity (IDString t) p s x"
proof
  assume "memIdentityByProviderSubject m t p s = Inr x"
  then have "find (matchesIdentity (IDString t) p s) (map snd (identities m)) = Some x"
    by (auto simp: memIdentityByProviderSubject_def split: option.splits)
  then have x: "x \<in> set (map snd (identities m))" "matchesIdentity (IDString t) p s x"
    by (auto simp: find_Some_iff)
  then show "map_of (identities m) (inID x) = Some x \<and> matchesIdentity (IDString t) p s x"
    using in_snd_map_of [of "identities m" x] assms by (auto simp: identitiesOk_def)
next
  assume x: "map_of (identities m) (inID x) = Some x \<and> matchesIdentity (IDString t) p s x"
  then obtain y where y: "find (matchesIdentity (IDString t) p s) (map snd (identities m)) = Some y"
    using map_of_in_snd [of "identities m"] by (metis find_None_iff not_Some_eq)
  then have "y \<in> set (map snd (identities m))" and my: "matchesIdentity (IDString t) p s y"
    by (auto simp: find_Some_iff)
  then obtain i where i: "map_of (identities m) i = Some y"
    using in_snd_map_of assms unfolding identitiesOk_def by metis
  have "matchesIdentity (inTenantID x) (inProvider x) (inSubject x) y"
    using x my by (simp add: matchesIdentity_def)
  with i x assms have "i = inID x" unfolding identitiesOk_def by blast
  with i x y show "memIdentityByProviderSubject m t p s = Inr x"
    by (simp add: memIdentityByProviderSubject_def)
qed

lemma memIdentityByProviderSubject_Inl:
  "memIdentityByProviderSubject m t p s = Inl e \<Longrightarrow> e = IErrNotFound"
  by (auto simp: memIdentityByProviderSubject_def split: option.splits)


text \<open>Two tenants hold the same address, and each count is 1.\<close>

definition exampleNewUser :: "string \<Rightarrow> string \<Rightarrow> NewUser" where
  "exampleNewUser i t = \<lparr>nuID = i, nuTenantID = t, nuEmail = ''b@x.io'', nuPasswordHash = ''h'', nuCreatedAt = 1\<rparr>"

definition exampleIdentMem :: IdentMem where
  "exampleIdentMem = NewIdentMem
     \<lparr>usersByID := [(''u1'', userOf (exampleNewUser ''u1'' ''acme'')), (''u2'', userOf (exampleNewUser ''u2'' ''globex''))],
      emailToID := [(tenantKey ''acme'' ''b@x.io'', ''u1''), (tenantKey ''globex'' ''b@x.io'', ''u2'')]\<rparr>"

lemma exampleIdentMem_reach: "identReach exampleIdentMem"
proof -
  define m1 where "m1 = NewIdentMem
     \<lparr>usersByID := [(''u1'', userOf (exampleNewUser ''u1'' ''acme''))],
      emailToID := [(tenantKey ''acme'' ''b@x.io'', ''u1'')]\<rparr>"
  have "identReach m1"
    by (rule identReach.create [OF identReach.init, of "exampleNewUser ''u1'' ''acme''" True])
      (simp_all add: m1_def memCreateUser_def NewIdentMem_def exampleNewUser_def nulFree_def)
  then show ?thesis
    by (rule identReach.create [where u = "exampleNewUser ''u2'' ''globex''" and f = True])
      (simp_all add: m1_def exampleIdentMem_def memCreateUser_def NewIdentMem_def exampleNewUser_def nulFree_def
        tenantKey_def)
qed


end
