(* ===== verification/Crypto_Password.thy ===== *)
theory Crypto_Password
  imports Crypto_Keyset
begin

text \<open>
  Package \<^verbatim>\<open>crypto\<close>, the credentials a person presents: password hashes (\<^verbatim>\<open>password.go\<close>),
  refresh tokens (\<^verbatim>\<open>refresh.go\<close>), one-time and recovery codes (\<^verbatim>\<open>totp.go\<close>). bcrypt, SHA-256
  and the one-time-password library are the record \<^verbatim>\<open>CryptoLib\<close>; the random bytes of a
  call are an argument, \<^verbatim>\<open>None\<close> where the source of randomness failed. The base32 and
  base64url alphabets are written out.
\<close>

record CryptoLib =
  bcGenerate :: "string \<Rightarrow> string option"
  bcCompare :: "string \<Rightarrow> string \<Rightarrow> bool"
  sha256 :: "string \<Rightarrow> byte list"
  totpValidate :: "string \<Rightarrow> string \<Rightarrow> go_time \<Rightarrow> bool option"

datatype password_err = ErrInvalidPassword | BcryptFailed | ErrInvalidRefreshToken | ErrInvalidTOTPCode | RandFailed

section \<open>Binary to text\<close>

definition byteBits :: "byte \<Rightarrow> bool list" where
  "byteBits b = map (bit b) (rev [0..<8])"

function bitGroups :: "nat \<Rightarrow> bool list \<Rightarrow> bool list list" where
  "bitGroups n bs = (if n = 0 \<or> bs = [] then []
     else (take n bs @ replicate (n - length bs) False) # bitGroups n (drop n bs))"
  by pat_completeness auto
termination by (relation "measure (\<lambda>(n, bs). length bs)") auto

declare bitGroups.simps [simp del]

lemma bitGroups_Nil [simp]: "bitGroups n [] = []"
  by (simp add: bitGroups.simps)

lemma bitGroups_Cons [simp]:
  "0 < n \<Longrightarrow> bitGroups n (b # bs) =
     (take n (b # bs) @ replicate (n - length (b # bs)) False) # bitGroups n (drop n (b # bs))"
  by (subst bitGroups.simps) simp

definition bitsValue :: "bool list \<Rightarrow> nat" where
  "bitsValue bs = foldl (\<lambda>a b. 2 * a + of_bool b) 0 bs"

definition encodeBits :: "nat \<Rightarrow> string \<Rightarrow> byte list \<Rightarrow> string" where
  "encodeBits n alphabet bs = map (\<lambda>g. alphabet ! bitsValue g) (bitGroups n (concat (map byteBits bs)))"

definition base32Alphabet :: string where
  "base32Alphabet = ''ABCDEFGHIJKLMNOPQRSTUVWXYZ234567''"

definition base64URLAlphabet :: string where
  "base64URLAlphabet = ''ABCDEFGHIJKLMNOPQRSTUVWXYZabcdefghijklmnopqrstuvwxyz0123456789-_''"

definition hexChars :: string where
  "hexChars = ''0123456789abcdef''"

text \<open>
  What \<^verbatim>\<open>base64.RawURLEncoding.DecodeString\<close> accepts: line breaks are skipped, every other
  character is of the alphabet, and a last group of a single character is an error.
\<close>

definition rawURLDecodes :: "string \<Rightarrow> bool" where
  "rawURLDecodes s =
     (let t = filter (\<lambda>c. c \<noteq> CHR 0x0A \<and> c \<noteq> CHR 0x0D) s in
      list_all (\<lambda>c. c \<in> set base64URLAlphabet) t \<and> length t mod 4 \<noteq> 1)"

section \<open>Passwords\<close>

definition HashPassword :: "CryptoLib \<Rightarrow> string \<Rightarrow> password_err + string" where
  "HashPassword K plain =
     (if plain = '''' then Inl ErrInvalidPassword
      else (case bcGenerate K plain of None \<Rightarrow> Inl BcryptFailed | Some h \<Rightarrow> Inr h))"

definition VerifyPassword :: "CryptoLib \<Rightarrow> string \<Rightarrow> string \<Rightarrow> password_err option" where
  "VerifyPassword K h plain = (if bcCompare K h plain then None else Some ErrInvalidPassword)"

section \<open>Refresh tokens\<close>

definition refreshTokenBytes :: nat where
  "refreshTokenBytes = 32"

definition NewRefreshToken :: "byte list option \<Rightarrow> password_err + string" where
  "NewRefreshToken buf =
     (case buf of None \<Rightarrow> Inl RandFailed | Some b \<Rightarrow> Inr (encodeBits 6 base64URLAlphabet b))"

definition HashRefreshToken :: "CryptoLib \<Rightarrow> string \<Rightarrow> password_err + string" where
  "HashRefreshToken K tok =
     (if tok = '''' then Inl ErrInvalidRefreshToken
      else if \<not> rawURLDecodes tok then Inl ErrInvalidRefreshToken
      else Inr (encodeBits 4 hexChars (sha256 K tok)))"

section \<open>One-time codes\<close>

definition totpSecretBytes :: nat where
  "totpSecretBytes = 20"

definition GenerateTOTPSecret :: "byte list option \<Rightarrow> password_err + string" where
  "GenerateTOTPSecret raw =
     (case raw of None \<Rightarrow> Inl RandFailed | Some b \<Rightarrow> Inr (encodeBits 5 base32Alphabet b))"

definition TOTPIssuer :: string where
  "TOTPIssuer = ''Barista''"

definition OTPAuthURI :: "string \<Rightarrow> string \<Rightarrow> string" where
  "OTPAuthURI secretBase32 accountEmail =
     ''otpauth://totp/'' @ TOTPIssuer @ '':'' @ accountEmail @ ''?secret='' @ secretBase32 @
     ''&issuer='' @ TOTPIssuer @ ''&algorithm=SHA1&digits=6&period=30''"

definition VerifyTOTPCode :: "CryptoLib \<Rightarrow> go_time \<Rightarrow> string \<Rightarrow> string \<Rightarrow> password_err option" where
  "VerifyTOTPCode K now secretBase32 code =
     (if length code \<noteq> 6 then Some ErrInvalidTOTPCode
      else (case totpValidate K code secretBase32 now of
          None \<Rightarrow> Some ErrInvalidTOTPCode
        | Some ok \<Rightarrow> if \<not> ok then Some ErrInvalidTOTPCode else None))"

section \<open>Recovery codes\<close>

definition recoveryCodeCount :: nat where
  "recoveryCodeCount = 10"

definition recoveryCodeBytes :: nat where
  "recoveryCodeBytes = 6"

definition recoveryCode :: "byte list option \<Rightarrow> password_err + string" where
  "recoveryCode raw =
     (case raw of
        None \<Rightarrow> Inl RandFailed
      | Some b \<Rightarrow> let enc = encodeBits 5 base32Alphabet b in Inr (take 5 enc @ ''-'' @ drop 5 enc))"

definition GenerateTOTPRecoveryCodes :: "byte list option list \<Rightarrow> password_err + string list" where
  "GenerateTOTPRecoveryCodes draws = mapResult recoveryCode (take recoveryCodeCount draws)"

definition HashRecoveryCodes :: "CryptoLib \<Rightarrow> string list \<Rightarrow> password_err + string list" where
  "HashRecoveryCodes K codes =
     mapResult (\<lambda>c. case bcGenerate K c of None \<Rightarrow> Inl BcryptFailed | Some h \<Rightarrow> Inr h) codes"

definition isDigitChar :: "char \<Rightarrow> bool" where
  "isDigitChar c = (48 \<le> (of_char c :: nat) \<and> (of_char c :: nat) \<le> 57)"

definition isLowerChar :: "char \<Rightarrow> bool" where
  "isLowerChar c = (97 \<le> (of_char c :: nat) \<and> (of_char c :: nat) \<le> 122)"

definition isUpperChar :: "char \<Rightarrow> bool" where
  "isUpperChar c = (65 \<le> (of_char c :: nat) \<and> (of_char c :: nat) \<le> 90)"

fun recoveryRaw :: "string \<Rightarrow> string" where
  "recoveryRaw [] = []"
| "recoveryRaw (r # s) =
     (if isLowerChar r then char_of ((of_char r :: nat) - 97 + 65) # recoveryRaw s
      else if isUpperChar r \<or> isDigitChar r then r # recoveryRaw s
      else recoveryRaw s)"

definition normaliseRecoveryCode :: "string \<Rightarrow> string" where
  "normaliseRecoveryCode s =
     (let raw = recoveryRaw s in if length raw = 10 then take 5 raw @ ''-'' @ drop 5 raw else raw)"

fun firstMatch :: "CryptoLib \<Rightarrow> string \<Rightarrow> string list \<Rightarrow> string option" where
  "firstMatch K candidate [] = None"
| "firstMatch K candidate (h # hs) = (if bcCompare K h candidate then Some h else firstMatch K candidate hs)"

definition MatchRecoveryCode :: "CryptoLib \<Rightarrow> string \<Rightarrow> string list \<Rightarrow> string option" where
  "MatchRecoveryCode K code hashes = firstMatch K (normaliseRecoveryCode code) hashes"

section \<open>Lemmas\<close>

lemma length_bitGroups: "0 < n \<Longrightarrow> length (bitGroups n bs) = (length bs + n - 1) div n"
proof (induction n bs rule: bitGroups.induct)
  case (1 n bs)
  show ?case
  proof (cases "bs = []")
    case True
    with 1(2) show ?thesis by simp
  next
    case False
    have *: "length (bitGroups n bs) = Suc (length (bitGroups n (drop n bs)))"
      using 1(2) False by (cases bs) simp_all
    have "length (bitGroups n (drop n bs)) = (length bs - n + n - 1) div n"
      using 1 False by simp
    moreover have "Suc ((length bs - n + n - 1) div n) = (length bs + n - 1) div n"
    proof (cases "n \<le> length bs")
      case True
      then have "length bs + n - 1 = (length bs - 1) + n" using 1(2) by simp
      then have "(length bs + n - 1) div n = Suc ((length bs - 1) div n)"
        using 1(2) by (metis div_add_self2 Suc_eq_plus1 less_irrefl_nat)
      then show ?thesis using True by simp
    next
      case nle: False
      have "1 \<le> length bs" using False by (simp add: Suc_le_eq)
      then have "n \<le> length bs + n - 1" by arith
      with nle 1(2) have "(length bs + n - 1) div n = 1"
        by (intro div_nat_eqI) (simp_all add: not_le)
      with nle show ?thesis using 1(2) by (simp add: not_le less_imp_le)
    qed
    ultimately show ?thesis using * by simp
  qed
qed

lemma bitGroups_length: "0 < n \<Longrightarrow> \<forall>g\<in>set (bitGroups n bs). length g = n"
proof (induction n bs rule: bitGroups.induct)
  case (1 n bs)
  then show ?case by (cases bs) auto
qed

lemma foldl_bits: "foldl (\<lambda>a b. 2 * a + of_bool b) (k :: nat) bs < (k + 1) * 2 ^ length bs"
proof (induction bs arbitrary: k)
  case (Cons b bs)
  have "foldl (\<lambda>a b. 2 * a + of_bool b) (2 * k + of_bool b) bs < (2 * k + of_bool b + 1) * 2 ^ length bs"
    by (rule Cons.IH)
  also have "\<dots> \<le> (2 * k + 2) * 2 ^ length bs" by (intro mult_right_mono) auto
  finally show ?case by (simp add: algebra_simps)
qed simp

lemma bitsValue_less: "bitsValue bs < 2 ^ length bs"
  using foldl_bits [of 0 bs] by (simp add: bitsValue_def)

lemma length_encodeBits:
  "0 < n \<Longrightarrow> length (encodeBits n alphabet bs) = (8 * length bs + n - 1) div n"
proof -
  have "length (concat (map byteBits bs)) = 8 * length bs"
    by (induction bs) (auto simp: byteBits_def)
  then show "0 < n \<Longrightarrow> ?thesis" by (simp add: encodeBits_def length_bitGroups)
qed

lemma encodeBits_alphabet:
  assumes "length alphabet = 2 ^ n" "0 < n"
  shows "set (encodeBits n alphabet bs) \<subseteq> set alphabet"
proof
  fix c assume "c \<in> set (encodeBits n alphabet bs)"
  then obtain g where "g \<in> set (bitGroups n (concat (map byteBits bs)))" "c = alphabet ! bitsValue g"
    by (auto simp: encodeBits_def)
  then show "c \<in> set alphabet"
    using bitsValue_less [of g] bitGroups_length [OF assms(2)] assms(1) by (metis nth_mem)
qed

lemma recoveryRaw_append [simp]: "recoveryRaw (a @ b) = recoveryRaw a @ recoveryRaw b"
  by (induction a) auto

lemma recoveryRaw_fixed: "list_all (\<lambda>c. isUpperChar c \<or> isDigitChar c) s \<Longrightarrow> recoveryRaw s = s"
  by (induction s) (auto simp: isLowerChar_def isUpperChar_def isDigitChar_def)

lemma recoveryRaw_shape: "list_all (\<lambda>c. isUpperChar c \<or> isDigitChar c) (recoveryRaw s)"
proof (induction s)
  case (Cons c s)
  have "isUpperChar (char_of ((of_char c :: nat) - 97 + 65))" if "isLowerChar c"
  proof -
    have "65 \<le> (of_char c :: nat) - 32" "(of_char c :: nat) - 32 \<le> 90"
      using that by (auto simp: isLowerChar_def)
    then show ?thesis by (simp add: isUpperChar_def of_char_of)
  qed
  with Cons show ?case by simp
qed simp

lemma recoveryRaw_idem [simp]: "recoveryRaw (recoveryRaw s) = recoveryRaw s"
  by (rule recoveryRaw_fixed [OF recoveryRaw_shape])

lemma recoveryRaw_hyphen [simp]: "recoveryRaw (CHR ''-'' # s) = recoveryRaw s"
  by (simp add: isLowerChar_def isUpperChar_def isDigitChar_def)

lemma recoveryRaw_sub: "set t \<subseteq> set (recoveryRaw s) \<Longrightarrow> recoveryRaw t = t"
  by (rule recoveryRaw_fixed) (use recoveryRaw_shape [of s] in \<open>auto simp only: list_all_iff\<close>)

lemma recoveryRaw_take_drop: "recoveryRaw (take n (recoveryRaw s) @ ''-'' @ drop n (recoveryRaw s)) = recoveryRaw s"
proof -
  have "recoveryRaw (take n (recoveryRaw s)) = take n (recoveryRaw s)"
    "recoveryRaw (drop n (recoveryRaw s)) = drop n (recoveryRaw s)"
    by (rule recoveryRaw_sub [of _ s], rule set_take_subset) (rule recoveryRaw_sub [of _ s], rule set_drop_subset)
  moreover have "recoveryRaw ''-'' = ''''" by (simp add: isLowerChar_def isUpperChar_def isDigitChar_def)
  ultimately have "recoveryRaw (take n (recoveryRaw s) @ ''-'' @ drop n (recoveryRaw s))
      = take n (recoveryRaw s) @ drop n (recoveryRaw s)"
    by (simp only: recoveryRaw_append append_Nil)
  then show ?thesis by (simp only: append_take_drop_id)
qed

lemma normaliseRecoveryCode_idem: "normaliseRecoveryCode (normaliseRecoveryCode s) = normaliseRecoveryCode s"
proof (cases "length (recoveryRaw s) = 10")
  case True
  then have n: "normaliseRecoveryCode s = take 5 (recoveryRaw s) @ ''-'' @ drop 5 (recoveryRaw s)"
    by (simp add: normaliseRecoveryCode_def Let_def)
  then have "recoveryRaw (normaliseRecoveryCode s) = recoveryRaw s"
    by (simp only: recoveryRaw_take_drop)
  with True n show ?thesis
    unfolding normaliseRecoveryCode_def [of "normaliseRecoveryCode s"] Let_def by (simp only: if_True refl)
next
  case False
  then show ?thesis by (simp add: normaliseRecoveryCode_def)
qed

lemma base32_length: "length base32Alphabet = 2 ^ 5"
  by (simp add: base32Alphabet_def)

lemma base32_shape: "list_all (\<lambda>c. isUpperChar c \<or> isDigitChar c) (encodeBits 5 base32Alphabet b)"
proof -
  have "list_all (\<lambda>c. isUpperChar c \<or> isDigitChar c) base32Alphabet"
    by (simp add: base32Alphabet_def isUpperChar_def isDigitChar_def)
  then show ?thesis
    using encodeBits_alphabet [of base32Alphabet 5 b]
    unfolding list_all_iff by (metis subsetD base32_length zero_less_numeral)
qed

lemma recoveryCode_raw:
  assumes "recoveryCode (Some b) = Inr code" "length b = recoveryCodeBytes"
  shows "length (recoveryRaw code) = 10 \<and> code = take 5 (recoveryRaw code) @ ''-'' @ drop 5 (recoveryRaw code)"
proof -
  let ?e = "encodeBits 5 base32Alphabet b"
  have e: "recoveryRaw ?e = ?e" "length ?e = 10"
    using assms(2) by (simp_all add: recoveryRaw_fixed [OF base32_shape] length_encodeBits recoveryCodeBytes_def)
  have "code = take 5 ?e @ ''-'' @ drop 5 ?e"
    using assms(1) by (simp add: recoveryCode_def Let_def)
  with recoveryRaw_take_drop [of 5 ?e] e show ?thesis by simp
qed

section \<open>Properties\<close>

text \<open>
  Every refresh token the package mints is 43 characters of the URL alphabet and is
  accepted by the function that hashes it for the store, which gives 64 hexadecimal
  characters; what that function refuses is exactly the empty string and what does not
  decode. A failed random source mints nothing.
\<close>

theorem refresh_tokens_hash:
  "(length b = refreshTokenBytes \<and> length (sha256 K (encodeBits 6 base64URLAlphabet b)) = 32 \<longrightarrow>
      (\<exists>t h. NewRefreshToken (Some b) = Inr t \<and> length t = 43 \<and> set t \<subseteq> set base64URLAlphabet \<and>
             HashRefreshToken K t = Inr h \<and> length h = 64 \<and> set h \<subseteq> set hexChars)) \<and>
   (isOk (HashRefreshToken K x) \<longleftrightarrow> x \<noteq> '''' \<and> rawURLDecodes x) \<and>
   NewRefreshToken None = Inl RandFailed"
proof -
  let ?t = "encodeBits 6 base64URLAlphabet b"
  have t: "set ?t \<subseteq> set base64URLAlphabet"
    by (rule encodeBits_alphabet) (simp_all add: base64URLAlphabet_def)
  have h: "set (encodeBits 4 hexChars (sha256 K ?t)) \<subseteq> set hexChars"
    by (rule encodeBits_alphabet) (simp_all add: hexChars_def)
  have l: "length ?t = 43" if "length b = refreshTokenBytes"
    using that by (simp add: length_encodeBits refreshTokenBytes_def)
  have "CHR 0x0A \<notin> set base64URLAlphabet" "CHR 0x0D \<notin> set base64URLAlphabet"
    by (simp_all add: base64URLAlphabet_def)
  with t have "filter (\<lambda>c. c \<noteq> CHR 0x0A \<and> c \<noteq> CHR 0x0D) ?t = ?t"
    by (intro filter_True) blast
  then have "rawURLDecodes ?t" if "length b = refreshTokenBytes"
    using t l [OF that] by (auto simp: rawURLDecodes_def list_all_iff Let_def)
  moreover have "?t \<noteq> ''''" if "length b = refreshTokenBytes" using l [OF that] by auto
  ultimately show ?thesis
    using t h l by (auto simp: NewRefreshToken_def HashRefreshToken_def length_encodeBits split: if_splits)
qed

theorem refresh_tokens_hash_witness:
  "\<exists>t h. NewRefreshToken (Some (replicate 32 (0 :: byte))) = Inr t \<and> length t = 43 \<and>
     HashRefreshToken \<lparr>bcGenerate = Some, bcCompare = (=), sha256 = (\<lambda>_. replicate 32 7), totpValidate = (\<lambda>_ _ _. None)\<rparr> t
       = Inr h \<and> length h = 64"
  using refresh_tokens_hash [of "replicate 32 0"
      "\<lparr>bcGenerate = Some, bcCompare = (=), sha256 = (\<lambda>_. replicate 32 7), totpValidate = (\<lambda>_ _ _. None)\<rparr>" "''''"]
  by (auto simp: refreshTokenBytes_def)

text \<open>
  A recovery code is matched however it is typed. A code that was handed out is its
  own normal form, so is everything that differs from it only by letter case and by
  characters that are neither letters nor digits, and so the entry typed is compared
  with each stored hash exactly as the code handed out would be: the match is the first
  hash that accepts that code, and an entry that normalises to nothing accepted matches
  none.
\<close>

theorem recovery_codes_forgiving:
  "recoveryCode (Some b) = Inr code \<and> length b = recoveryCodeBytes \<and> recoveryRaw typed = recoveryRaw code \<longrightarrow>
   normaliseRecoveryCode code = code \<and> normaliseRecoveryCode typed = code \<and>
   (MatchRecoveryCode K typed hashes = Some h \<longrightarrow> h \<in> set hashes \<and> bcCompare K h code) \<and>
   (MatchRecoveryCode K typed hashes = None \<longleftrightarrow> (\<forall>h\<in>set hashes. \<not> bcCompare K h code))"
proof (intro impI, elim conjE)
  assume *: "recoveryCode (Some b) = Inr code" "length b = recoveryCodeBytes" "recoveryRaw typed = recoveryRaw code"
  have n: "normaliseRecoveryCode code = code" "normaliseRecoveryCode typed = code"
    using recoveryCode_raw [OF *(1,2)] *(3) by (auto simp: normaliseRecoveryCode_def Let_def)
  have "firstMatch K code hashes = Some h \<longrightarrow> h \<in> set hashes \<and> bcCompare K h code"
    "firstMatch K code hashes = None \<longleftrightarrow> (\<forall>h\<in>set hashes. \<not> bcCompare K h code)"
    by (induction hashes) auto
  with n show "normaliseRecoveryCode code = code \<and> normaliseRecoveryCode typed = code \<and>
   (MatchRecoveryCode K typed hashes = Some h \<longrightarrow> h \<in> set hashes \<and> bcCompare K h code) \<and>
   (MatchRecoveryCode K typed hashes = None \<longleftrightarrow> (\<forall>h\<in>set hashes. \<not> bcCompare K h code))"
    by (simp add: MatchRecoveryCode_def)
qed

theorem recovery_codes_forgiving_witness:
  "normaliseRecoveryCode '' aaaaa aaaaa'' = ''AAAAA-AAAAA''"
proof -
  have "recoveryCode (Some (replicate 6 0)) = Inr ''AAAAA-AAAAA''"
    by (simp add: recoveryCode_def encodeBits_def byteBits_def bitsValue_def base32Alphabet_def numeral_eq_Suc Let_def)
  moreover have "recoveryRaw '' aaaaa aaaaa'' = recoveryRaw ''AAAAA-AAAAA''"
    by code_simp
  ultimately show ?thesis
    using recovery_codes_forgiving [of "replicate 6 0" "''AAAAA-AAAAA''" "'' aaaaa aaaaa''"]
    by (simp add: recoveryCodeBytes_def)
qed

end
