(* ===== verification/Identity_Core.thy ===== *)
theory Identity_Core
  imports Identity_Contract Crypto_Password
begin

text \<open>
  Package \<^verbatim>\<open>identity\<close>, the core service: construction and options (\<^verbatim>\<open>core.go\<close>,
  \<^verbatim>\<open>throttle.go\<close>, \<^verbatim>\<open>secondfactor.go\<close>, \<^verbatim>\<open>membership.go\<close>, \<^verbatim>\<open>impersonation.go\<close>,
  \<^verbatim>\<open>invitation.go\<close>), registration, password login, the mint, refresh rotation and
  revocation (\<^verbatim>\<open>core.go\<close>, \<^verbatim>\<open>tenantcheck.go\<close>).

  A \<^verbatim>\<open>Core\<close> holds its ports as values and an operation takes the store's state and
  returns the state after it, whatever the outcome. What a call draws from outside (the
  clock, two fresh ids, random bytes) is the record \<^verbatim>\<open>Draw\<close>; the clock is read once per
  call. A hook is an update of the store's state by the application. \<^verbatim>\<open>Login\<close> also
  returns the observable work it did, in order.
\<close>

section \<open>The service\<close>

record SecondFactorRequirement =
  sfAtLogin :: bool
  sfForActions :: bool
  sfGraceUntil :: go_time

record Throttling =
  thThrottle :: "(string \<Rightarrow> bool \<times> int) option"
  thLoginKey :: "string \<Rightarrow> string \<Rightarrow> string"
  thSecondFactorKey :: "string \<Rightarrow> string \<Rightarrow> string"

definition ThrottleStepTOTP :: string where "ThrottleStepTOTP = ''totp''"
definition ThrottleStepRecovery :: string where "ThrottleStepRecovery = ''recovery''"

record 's Hooks =
  hkOnRegistered :: "('s \<Rightarrow> User \<Rightarrow> bool \<Rightarrow> 's) option"
  hkOnProvisioned :: "('s \<Rightarrow> User \<Rightarrow> Identity \<Rightarrow> bool \<Rightarrow> 's) option"
  hkOnTenantEntered :: "('s \<Rightarrow> User \<Rightarrow> ID \<Rightarrow> 's) option"

record 's Core =
  coStore :: "'s Store"
  coJWT :: "JWTService option"
  coKeys :: "KeySet option"
  coRefreshTTL :: int
  coTotpRequired :: bool
  coDefaultACR :: string
  coHooks :: "'s Hooks"
  coThrottling :: Throttling
  coInvitations :: "'s InvitationStore option"
  coMemberships :: "'s MembershipStore option"
  coSecondFactor :: "(ID \<Rightarrow> string \<Rightarrow> ident_err + SecondFactorRequirement) option"
  coImpersonation :: "(string \<Rightarrow> ID \<Rightarrow> string \<Rightarrow> ident_err + bool) option"
  coImpersonationTTL :: int
  coEnterTTL :: int

record Draw =
  drNow :: go_time
  drUserID :: string
  drRowID :: string
  drToken :: "byte list option"

section \<open>Construction\<close>

text \<open>An option is a function on the service under construction; \<^verbatim>\<open>None\<close> is its panic.\<close>

definition WithRefreshTTL :: "int \<Rightarrow> 's Core \<Rightarrow> 's Core option" where
  "WithRefreshTTL d c = Some (c\<lparr>coRefreshTTL := d\<rparr>)"

definition WithTOTPRequired :: "bool \<Rightarrow> 's Core \<Rightarrow> 's Core option" where
  "WithTOTPRequired required c = Some (c\<lparr>coTotpRequired := required\<rparr>)"

definition WithDefaultACR :: "string \<Rightarrow> 's Core \<Rightarrow> 's Core option" where
  "WithDefaultACR acr c = Some (c\<lparr>coDefaultACR := acr\<rparr>)"

definition WithHooks :: "'s Hooks \<Rightarrow> 's Core \<Rightarrow> 's Core option" where
  "WithHooks h c = Some (c\<lparr>coHooks := h\<rparr>)"

definition WithKeySet :: "KeySet option \<Rightarrow> 's Core \<Rightarrow> 's Core option" where
  "WithKeySet keys c = Some (c\<lparr>coKeys := keys\<rparr>)"

definition WithThrottling :: "(string \<Rightarrow> bool \<times> int) option \<Rightarrow> (string \<Rightarrow> string \<Rightarrow> string) option
    \<Rightarrow> (string \<Rightarrow> string \<Rightarrow> string) option \<Rightarrow> 's Core \<Rightarrow> 's Core option" where
  "WithThrottling throttle loginKey secondFactorKey c =
     (if \<not> Option.is_none throttle \<and> Option.is_none loginKey then None
      else if \<not> Option.is_none throttle \<and> Option.is_none secondFactorKey then None
      else Some (c\<lparr>coThrottling := \<lparr>thThrottle = throttle,
          thLoginKey = (case loginKey of None \<Rightarrow> (\<lambda>_ _. '''') | Some k \<Rightarrow> k),
          thSecondFactorKey = (case secondFactorKey of None \<Rightarrow> (\<lambda>_ _. '''') | Some k \<Rightarrow> k)\<rparr>\<rparr>))"

definition WithSecondFactorPolicy :: "(ID \<Rightarrow> string \<Rightarrow> ident_err + SecondFactorRequirement) option
    \<Rightarrow> 's Core \<Rightarrow> 's Core option" where
  "WithSecondFactorPolicy p c = (if Option.is_none p then None else Some (c\<lparr>coSecondFactor := p\<rparr>))"

definition WithMemberships :: "'s MembershipStore option \<Rightarrow> 's Core \<Rightarrow> 's Core option" where
  "WithMemberships m c = (if Option.is_none m then None else Some (c\<lparr>coMemberships := m\<rparr>))"

definition WithEnterTenantTTL :: "int \<Rightarrow> 's Core \<Rightarrow> 's Core option" where
  "WithEnterTenantTTL d c = (if d \<le> 0 then None else Some (c\<lparr>coEnterTTL := d\<rparr>))"

definition WithImpersonation :: "(string \<Rightarrow> ID \<Rightarrow> string \<Rightarrow> ident_err + bool) option \<Rightarrow> int
    \<Rightarrow> 's Core \<Rightarrow> 's Core option" where
  "WithImpersonation p ttl c =
     (if Option.is_none p then None
      else if ttl \<le> 0 then None
      else Some (c\<lparr>coImpersonation := p, coImpersonationTTL := ttl\<rparr>))"

definition WithInvitations :: "'s InvitationStore option \<Rightarrow> 's Core \<Rightarrow> 's Core option" where
  "WithInvitations i c = (if Option.is_none i then None else Some (c\<lparr>coInvitations := i\<rparr>))"

fun applyOptions :: "('s Core \<Rightarrow> 's Core option) list \<Rightarrow> 's Core \<Rightarrow> 's Core option" where
  "applyOptions [] c = Some c"
| "applyOptions (opt # opts) c = (case opt c of None \<Rightarrow> None | Some c' \<Rightarrow> applyOptions opts c')"

definition defaultCore :: "'s Store \<Rightarrow> JWTService option \<Rightarrow> 's Core" where
  "defaultCore store jwt = \<lparr>coStore = store, coJWT = jwt, coKeys = None, coRefreshTTL = 0, coTotpRequired = False,
     coDefaultACR = ACRLocalPassword,
     coHooks = \<lparr>hkOnRegistered = None, hkOnProvisioned = None, hkOnTenantEntered = None\<rparr>,
     coThrottling = \<lparr>thThrottle = None, thLoginKey = (\<lambda>_ _. ''''), thSecondFactorKey = (\<lambda>_ _. '''')\<rparr>,
     coInvitations = None, coMemberships = None, coSecondFactor = None, coImpersonation = None,
     coImpersonationTTL = 0, coEnterTTL = 0\<rparr>"

definition longerThanAccess :: "JWTService option \<Rightarrow> int \<Rightarrow> bool" where
  "longerThanAccess jwt ttl = (case jwt of None \<Rightarrow> False | Some j \<Rightarrow> ttl > jTTL j)"

definition NewCore :: "'s Store option \<Rightarrow> JWTService option \<Rightarrow> ('s Core \<Rightarrow> 's Core option) list \<Rightarrow> 's Core option" where
  "NewCore store jwt opts =
     (case store of None \<Rightarrow> None | Some st \<Rightarrow>
       (case applyOptions opts (defaultCore st jwt) of None \<Rightarrow> None | Some c \<Rightarrow>
          if coDefaultACR c = '''' then None
          else if longerThanAccess jwt (coEnterTTL c) then None
          else if longerThanAccess jwt (coImpersonationTTL c) then None
          else Some c))"

section \<open>Gates and shared reads\<close>

definition tenantGate :: "ID \<Rightarrow> ident_err option" where
  "tenantGate tenantID = (if \<not> Valid tenantID then Some ErrTenantRequired else None)"

definition userByEmail :: "'s Core \<Rightarrow> 's \<Rightarrow> ID \<Rightarrow> string \<Rightarrow> ident_err + User" where
  "userByEmail C s tenantID email =
     (case tenantGate tenantID of Some e \<Rightarrow> Inl e | None \<Rightarrow> stUserByEmail (coStore C) s tenantID email)"

definition countUsers :: "'s Core \<Rightarrow> 's \<Rightarrow> ID \<Rightarrow> ident_err + int" where
  "countUsers C s tenantID =
     (case tenantGate tenantID of Some e \<Rightarrow> Inl e | None \<Rightarrow> stCountUsers (coStore C) s tenantID)"

definition identityByProviderSubject :: "'s Core \<Rightarrow> 's \<Rightarrow> ID \<Rightarrow> string \<Rightarrow> string \<Rightarrow> ident_err + Identity" where
  "identityByProviderSubject C s tenantID provider subject =
     (case tenantGate tenantID of Some e \<Rightarrow> Inl e
      | None \<Rightarrow> stIdentityByProviderSubject (coStore C) s tenantID provider subject)"

definition userInTenant :: "'s Core \<Rightarrow> 's \<Rightarrow> string \<Rightarrow> ID \<Rightarrow> ident_err + User" where
  "userInTenant C s userID tenantID =
     (case stUserByID (coStore C) s userID of
        Inl e \<Rightarrow> if e \<noteq> IErrNotFound then Inl e else Inl IErrNotFound
      | Inr user \<Rightarrow> if FromStored (uTenantID user) \<noteq> tenantID then Inl IErrNotFound else Inr user)"

definition sessionInTenant :: "'s Core \<Rightarrow> 's \<Rightarrow> string \<Rightarrow> ID \<Rightarrow> ident_err + RefreshSession" where
  "sessionInTenant C s h tenantID =
     (case stRefreshSessionByHash (coStore C) s h of
        Inl e \<Rightarrow> if e = IErrNotFound then Inl IErrNotFound else Inl e
      | Inr session \<Rightarrow>
          if FromStored (rsTenantID session) \<noteq> tenantID then Inl ErrInvalidSession else Inr session)"

definition minPasswordLen :: nat where "minPasswordLen = 8"
definition maxPasswordLen :: nat where "maxPasswordLen = 72"

definition validatePassword :: "string \<Rightarrow> ident_err option" where
  "validatePassword p =
     (if length p < minPasswordLen \<or> length p > maxPasswordLen then Some ErrPasswordPolicy else None)"

fun indexByte :: "char \<Rightarrow> string \<Rightarrow> nat option" where
  "indexByte c [] = None"
| "indexByte c (d # s) = (if d = c then Some 0 else map_option Suc (indexByte c s))"

definition NormaliseEmail :: "string \<Rightarrow> ident_err + string" where
  "NormaliseEmail raw =
     (let e = toLower (trimSpace raw) in
      if e = '''' then Inl ErrInvalidEmail
      else (case indexByte (CHR ''@'') e of
          None \<Rightarrow> Inl ErrInvalidEmail
        | Some at \<Rightarrow>
            if at = 0 \<or> at = length e - 1 \<or> CHR ''@'' \<in> set (drop (at + 1) e)
               \<or> CHR ''.'' \<notin> set (drop (at + 1) e)
            then Inl ErrInvalidEmail else Inr e))"

text \<open>The limiter's answer: \<^verbatim>\<open>None\<close> to go on, or how long to wait.\<close>

definition askThrottle :: "(string \<Rightarrow> bool \<times> int) option \<Rightarrow> string \<Rightarrow> int option" where
  "askThrottle t key =
     (case t of None \<Rightarrow> None | Some allow \<Rightarrow> (case allow key of (ok, retryAfter) \<Rightarrow> if ok then None else Some retryAfter))"

definition allowLogin :: "'s Core \<Rightarrow> ID \<Rightarrow> string \<Rightarrow> int option" where
  "allowLogin C tenantID email =
     askThrottle (thThrottle (coThrottling C)) (thLoginKey (coThrottling C) (IDString tenantID) email)"

definition allowSecondFactor :: "'s Core \<Rightarrow> string \<Rightarrow> string \<Rightarrow> int option" where
  "allowSecondFactor C userID step =
     askThrottle (thThrottle (coThrottling C)) (thSecondFactorKey (coThrottling C) userID step)"

definition secondFactorRequiredAtLogin :: "'s Core \<Rightarrow> go_time \<Rightarrow> ID \<Rightarrow> string \<Rightarrow> bool" where
  "secondFactorRequiredAtLogin C now tenantID userID =
     (case coSecondFactor C of
        None \<Rightarrow> coTotpRequired C
      | Some requiredFor \<Rightarrow>
          if coTotpRequired C then True
          else (case requiredFor tenantID userID of
              Inl e \<Rightarrow> True
            | Inr req \<Rightarrow>
                if \<not> sfAtLogin req then False
                else if sfGraceUntil req = 0 then True
                else \<not> now < sfGraceUntil req))"

section \<open>The mint\<close>

definition mintGate :: "'s Core \<Rightarrow> ID \<Rightarrow> int \<Rightarrow> string \<Rightarrow> ident_err + JWTService" where
  "mintGate C tenantID authTime acr =
     (case coJWT C of
        None \<Rightarrow> Inl ErrNoTokenService
      | Some j \<Rightarrow> (case tenantGate tenantID of
          Some e \<Rightarrow> Inl e
        | None \<Rightarrow> if authTime \<le> 0 \<or> acr = '''' then Inl ErrAuthContextRequired else Inr j))"

definition issueTokens :: "'s Core \<Rightarrow> CryptoLib \<Rightarrow> JWTLib \<Rightarrow> Draw \<Rightarrow> 's \<Rightarrow> string \<Rightarrow> ID \<Rightarrow> int \<Rightarrow> string \<Rightarrow> string list
    \<Rightarrow> 's \<times> (ident_err + Tokens)" where
  "issueTokens C K L d s userID tenantID authTime acr amr =
     (case mintGate C tenantID authTime acr of
        Inl e \<Rightarrow> (s, Inl e)
      | Inr j \<Rightarrow> (case IssueAccess L j userID tenantID authTime acr amr of
          Inl e \<Rightarrow> (s, Inl (TokenError e))
        | Inr access \<Rightarrow>
            if coRefreshTTL C \<le> 0
            then (s, Inr \<lparr>tkAccess = access, tkRefresh = '''', tkRefreshExpiresAt = 0\<rparr>)
            else (case NewRefreshToken (drToken d) of
                Inl _ \<Rightarrow> (s, Inl RandError)
              | Inr refresh \<Rightarrow> (case HashRefreshToken K refresh of
                  Inl _ \<Rightarrow> (s, Inl HashError)
                | Inr h \<Rightarrow>
                    let exp = drNow d + coRefreshTTL C in
                    (case stCreateRefreshSession (coStore C) s
                        \<lparr>rsID = drRowID d, rsUserID = userID, rsTenantID = IDString tenantID, rsTokenHash = h,
                         rsIssuedAt = drNow d, rsExpiresAt = exp, rsRevokedAt = 0, rsAuthTime = authTime,
                         rsACR = acr\<rparr> of
                      Inl e \<Rightarrow> (s, Inl e)
                    | Inr s' \<Rightarrow> (s', Inr \<lparr>tkAccess = access, tkRefresh = refresh, tkRefreshExpiresAt = exp\<rparr>))))))"

definition IssueTokensForUser :: "'s Core \<Rightarrow> CryptoLib \<Rightarrow> JWTLib \<Rightarrow> Draw \<Rightarrow> 's \<Rightarrow> string \<Rightarrow> ID \<Rightarrow> int \<Rightarrow> string
    \<Rightarrow> string list \<Rightarrow> 's \<times> (ident_err + Tokens)" where
  "IssueTokensForUser C K L d s userID tenantID authTime acr amr =
     (case mintGate C tenantID authTime acr of
        Inl e \<Rightarrow> (s, Inl e)
      | Inr _ \<Rightarrow> (case stUserByID (coStore C) s userID of
          Inl e \<Rightarrow> if e \<noteq> IErrNotFound then (s, Inl e) else (s, Inl IErrNotFound)
        | Inr user \<Rightarrow>
            if FromStored (uTenantID user) \<noteq> tenantID then (s, Inl IErrNotFound)
            else if \<not> uActive user then (s, Inl ErrUserInactive)
            else issueTokens C K L d s userID tenantID authTime acr amr))"

section \<open>Registration and login\<close>

definition Register :: "'s Core \<Rightarrow> CryptoLib \<Rightarrow> JWTLib \<Rightarrow> Draw \<Rightarrow> 's \<Rightarrow> ID \<Rightarrow> string \<Rightarrow> string
    \<Rightarrow> 's \<times> (ident_err + User \<times> Tokens)" where
  "Register C K L d s tenantID email password =
     (case NormaliseEmail email of
        Inl e \<Rightarrow> (s, Inl e)
      | Inr normalised \<Rightarrow> (case validatePassword password of
          Some e \<Rightarrow> (s, Inl e)
        | None \<Rightarrow> (case HashPassword K password of
            Inl _ \<Rightarrow> (s, Inl HashError)
          | Inr h \<Rightarrow> (case countUsers C s tenantID of
              Inl e \<Rightarrow> (s, Inl e)
            | Inr count \<Rightarrow>
                let first = (count = 0);
                    u = \<lparr>nuID = drUserID d, nuTenantID = IDString tenantID, nuEmail = normalised,
                         nuPasswordHash = h, nuCreatedAt = drNow d\<rparr> in
                (case stCreateUser (coStore C) s u first of
                   Inl e \<Rightarrow> (s, Inl e)
                 | Inr s1 \<Rightarrow>
                     let user = userOf u;
                         s2 = (case hkOnRegistered (coHooks C) of None \<Rightarrow> s1 | Some hook \<Rightarrow> hook s1 user first) in
                     (case issueTokens C K L d s2 (uID user) (FromStored (uTenantID user)) (drNow d)
                             (coDefaultACR C) [] of
                        (s3, Inl e) \<Rightarrow> (s3, Inl e)
                      | (s3, Inr tokens) \<Rightarrow> (s3, Inr (user, tokens))))))))"

datatype login_event =
    AskThrottle string string
  | LookupUser ID string
  | BcryptStub string
  | BcryptVerify string string

definition amrForLogin :: "string list" where "amrForLogin = [AMRPassword]"
definition amrForSecondFactor :: "string list" where "amrForSecondFactor = [AMRPassword, AMROTP]"

text \<open>\<^verbatim>\<open>ErrTOTPRequired\<close> comes with the user; every other refusal comes with the zero user.\<close>

definition Login :: "'s Core \<Rightarrow> CryptoLib \<Rightarrow> JWTLib \<Rightarrow> Draw \<Rightarrow> 's \<Rightarrow> ID \<Rightarrow> string \<Rightarrow> string
    \<Rightarrow> 's \<times> login_event list \<times> (ident_err \<times> User + User \<times> Tokens)" where
  "Login C K L d s tenantID email password =
     (case NormaliseEmail email of
        Inl _ \<Rightarrow> (s, [BcryptStub password], Inl (ErrInvalidCredentials, zeroUser))
      | Inr normalised \<Rightarrow>
          let asked = (if Option.is_none (thThrottle (coThrottling C)) then []
                       else [AskThrottle (IDString tenantID) normalised]);
              looked = asked @ (if Valid tenantID then [LookupUser tenantID normalised] else []) in
          (case allowLogin C tenantID normalised of
             Some retryAfter \<Rightarrow> (s, asked, Inl (ErrThrottled retryAfter, zeroUser))
           | None \<Rightarrow> (case userByEmail C s tenantID normalised of
               Inl e \<Rightarrow>
                 if e = ErrTenantRequired then (s, looked, Inl (e, zeroUser))
                 else if e = IErrNotFound
                 then (s, looked @ [BcryptStub password], Inl (ErrInvalidCredentials, zeroUser))
                 else (s, looked, Inl (e, zeroUser))
             | Inr user \<Rightarrow>
                 if uPasswordHash user = '''' \<or> \<not> uActive user
                 then (s, looked @ [BcryptStub password], Inl (ErrInvalidCredentials, zeroUser))
                 else let tried = looked @ [BcryptVerify (uPasswordHash user) password] in
                   if VerifyPassword K (uPasswordHash user) password \<noteq> None
                   then (s, tried, Inl (ErrInvalidCredentials, zeroUser))
                   else if uTOTPEnrolled user
                        \<or> secondFactorRequiredAtLogin C (drNow d) (FromStored (uTenantID user)) (uID user)
                   then (s, tried, Inl (ErrTOTPRequired, user))
                   else (case issueTokens C K L d s (uID user) (FromStored (uTenantID user)) (drNow d)
                                (coDefaultACR C) amrForLogin of
                       (s1, Inl e) \<Rightarrow> (s1, tried, Inl (e, zeroUser))
                     | (s1, Inr tokens) \<Rightarrow> (s1, tried, Inr (user, tokens))))))"

section \<open>Sessions\<close>

text \<open>A write whose error is dropped.\<close>

definition bestEffort :: "'s \<Rightarrow> ident_err + 's \<Rightarrow> 's" where
  "bestEffort s r = (case r of Inl _ \<Rightarrow> s | Inr s' \<Rightarrow> s')"

definition Refresh :: "'s Core \<Rightarrow> CryptoLib \<Rightarrow> JWTLib \<Rightarrow> Draw \<Rightarrow> 's \<Rightarrow> ID \<Rightarrow> string
    \<Rightarrow> 's \<times> (ident_err + User \<times> Tokens)" where
  "Refresh C K L d s tenantID refreshToken =
     (if coRefreshTTL C \<le> 0 then (s, Inl ErrInvalidSession)
      else (case HashRefreshToken K refreshToken of
          Inl _ \<Rightarrow> (s, Inl ErrInvalidSession)
        | Inr h \<Rightarrow> (case sessionInTenant C s h tenantID of
            Inl e \<Rightarrow> if e = IErrNotFound then (s, Inl ErrInvalidSession) else (s, Inl e)
          | Inr session \<Rightarrow>
              if Revoked session \<or> \<not> rsExpiresAt session > drNow d then (s, Inl ErrInvalidSession)
              else (case stUserByID (coStore C) s (rsUserID session) of
                  Inl e \<Rightarrow> if e = IErrNotFound then (s, Inl ErrInvalidSession) else (s, Inl e)
                | Inr user \<Rightarrow>
                    let revoked = stRevokeRefreshSession (coStore C) s (rsID session) (drNow d) in
                    if FromStored (rsTenantID session) \<noteq> FromStored (uTenantID user)
                    then (bestEffort s revoked, Inl ErrInvalidSession)
                    else if rsAuthTime session \<le> 0 \<or> rsACR session = ''''
                    then (bestEffort s revoked, Inl ErrInvalidSession)
                    else if \<not> uActive user
                    then (bestEffort s revoked, Inl ErrUserInactive)
                    else (case revoked of
                        Inl e \<Rightarrow> (s, Inl e)
                      | Inr s1 \<Rightarrow> (case issueTokens C K L d s1 (rsUserID session) (FromStored (rsTenantID session))
                                         (rsAuthTime session) (rsACR session) [] of
                            (s2, Inl e) \<Rightarrow> (s2, Inl e)
                          | (s2, Inr tokens) \<Rightarrow> (s2, Inr (user, tokens))))))))"

definition Logout :: "'s Core \<Rightarrow> CryptoLib \<Rightarrow> Draw \<Rightarrow> 's \<Rightarrow> ID \<Rightarrow> string \<Rightarrow> 's \<times> ident_err option" where
  "Logout C K d s tenantID refreshToken =
     (if coRefreshTTL C \<le> 0 \<or> refreshToken = '''' then (s, None)
      else (case HashRefreshToken K refreshToken of
          Inl _ \<Rightarrow> (s, None)
        | Inr h \<Rightarrow> (case sessionInTenant C s h tenantID of
            Inl e \<Rightarrow> if e = IErrNotFound then (s, None) else (s, Some e)
          | Inr session \<Rightarrow>
              if Revoked session then (s, None)
              else (case stRevokeRefreshSession (coStore C) s (rsID session) (drNow d) of
                  Inl e \<Rightarrow> (s, Some e)
                | Inr s' \<Rightarrow> (s', None)))))"

definition RevokeAllSessions :: "'s Core \<Rightarrow> Draw \<Rightarrow> 's \<Rightarrow> ID \<Rightarrow> string \<Rightarrow> 's \<times> ident_err option" where
  "RevokeAllSessions C d s tenantID userID =
     (if userID = '''' then (s, Some ErrUserIDRequired)
      else (case userInTenant C s userID tenantID of
          Inl e \<Rightarrow> (s, Some e)
        | Inr _ \<Rightarrow> (case stRevokeAllForUser (coStore C) s userID (drNow d) of
            Inl e \<Rightarrow> (s, Some e)
          | Inr s' \<Rightarrow> (s', None))))"

definition RevokeAllSessionsForTenant :: "'s Core \<Rightarrow> Draw \<Rightarrow> 's \<Rightarrow> ID \<Rightarrow> 's \<times> ident_err option" where
  "RevokeAllSessionsForTenant C d s tenantID =
     (case tenantGate tenantID of
        Some e \<Rightarrow> (s, Some e)
      | None \<Rightarrow> (case stRevokeAllForTenant (coStore C) s tenantID (drNow d) of
          Inl e \<Rightarrow> (s, Some e)
        | Inr s' \<Rightarrow> (s', None)))"

end
