(* ===== verification/Identity_Sessions.thy ===== *)
theory Identity_Sessions
  imports Identity_Core
begin

text \<open>
  What the core service of package \<^verbatim>\<open>identity\<close> guarantees: addresses, registration, login,
  minting, refresh rotation and revocation. The facts about one operation hold for any
  store; those about what a later call sees rest on the contract \<^verbatim>\<open>identity_store\<close> and are
  read off for \<^verbatim>\<open>MemStore\<close> through its interpretation.
\<close>

section \<open>Addresses\<close>

lemma indexByte_Some:
  "indexByte c s = Some i \<longleftrightarrow> i < length s \<and> s ! i = c \<and> c \<notin> set (take i s)"
proof (induction s arbitrary: i)
  case (Cons d s)
  then show ?case by (cases i) auto
qed simp

lemma indexByte_None: "indexByte c s = None \<longleftrightarrow> c \<notin> set s"
  by (induction s) auto

lemma indexByte_split: "c \<notin> set a \<Longrightarrow> indexByte c (a @ c # b) = Some (length a)"
  by (induction a) auto

lemma NormaliseEmail_Inr_iff:
  "NormaliseEmail raw = Inr e \<longleftrightarrow> e = toLower (trimSpace raw) \<and>
     (\<exists>local domain. e = local @ CHR ''@'' # domain \<and> local \<noteq> '''' \<and> CHR ''@'' \<notin> set local \<and>
        CHR ''@'' \<notin> set domain \<and> CHR ''.'' \<in> set domain)"
proof -
  let ?e = "toLower (trimSpace raw)"
  show ?thesis
  proof (cases "indexByte (CHR ''@'') ?e")
    case None
    then have "NormaliseEmail raw = Inl ErrInvalidEmail" by (simp add: NormaliseEmail_def Let_def)
    moreover have "CHR ''@'' \<notin> set ?e" using None by (simp add: indexByte_None)
    then have "\<not> (\<exists>local domain. ?e = local @ CHR ''@'' # domain)" by (metis in_set_conv_decomp)
    ultimately show ?thesis by auto
  next
    case (Some at)
    then have at: "at < length ?e" "?e ! at = CHR ''@''" "CHR ''@'' \<notin> set (take at ?e)"
      by (simp_all add: indexByte_Some)
    have split: "?e = take at ?e @ CHR ''@'' # drop (at + 1) ?e"
      using id_take_nth_drop [OF at(1)] at(2) by simp
    have uniq: "local = take at ?e \<and> domain = drop (at + 1) ?e"
      if "?e = local @ CHR ''@'' # domain" "CHR ''@'' \<notin> set local" for "local" domain
    proof -
      have "indexByte (CHR ''@'') ?e = Some (length local)"
        using that by (metis indexByte_split)
      with Some that(1) show ?thesis by simp
    qed
    have "NormaliseEmail raw = Inr e \<longleftrightarrow> e = ?e \<and> take at ?e \<noteq> '''' \<and>
        CHR ''@'' \<notin> set (drop (at + 1) ?e) \<and> CHR ''.'' \<in> set (drop (at + 1) ?e)"
      using Some at(1) by (auto simp: NormaliseEmail_def Let_def)
    also have "\<dots> \<longleftrightarrow> e = ?e \<and> (\<exists>local domain. e = local @ CHR ''@'' # domain \<and> local \<noteq> '''' \<and>
        CHR ''@'' \<notin> set local \<and> CHR ''@'' \<notin> set domain \<and> CHR ''.'' \<in> set domain)"
      using split uniq at(3) by metis
    finally show ?thesis .
  qed
qed

lemma isSpace_lower [simp]: "isSpaceChar (lowerChar c) = isSpaceChar c"
proof (cases "65 \<le> (of_char c :: nat) \<and> (of_char c :: nat) \<le> 90")
  case True
  then have "(of_char (lowerChar c) :: nat) = of_char c + 32" by (simp add: lowerChar_def of_char_of)
  with True show ?thesis by (auto simp: isSpaceChar_def)
next
  case False
  then have "lowerChar c = c" by (auto simp: lowerChar_def)
  then show ?thesis by simp
qed

lemma trimSpace_toLower: "trimSpace (toLower s) = toLower (trimSpace s)"
  by (simp add: trimSpace_def trimBoth_def toLower_def dropWhile_map rev_map o_def)

lemma NormaliseEmail_stable:
  assumes "NormaliseEmail raw = Inr e"
  shows "NormaliseEmail e = Inr e"
proof -
  have "e = toLower (trimSpace raw)" using assms by (simp add: NormaliseEmail_Inr_iff)
  then have "toLower (trimSpace e) = e"
    by (simp add: trimSpace_toLower) (simp add: trimSpace_def)
  then show ?thesis using assms NormaliseEmail_Inr_iff by metis
qed

section \<open>Any store\<close>

definition isBcrypt :: "login_event \<Rightarrow> bool" where
  "isBcrypt ev = (case ev of BcryptStub _ \<Rightarrow> True | BcryptVerify _ _ \<Rightarrow> True | _ \<Rightarrow> False)"

definition isLookup :: "login_event \<Rightarrow> bool" where
  "isLookup ev = (case ev of LookupUser _ _ \<Rightarrow> True | _ \<Rightarrow> False)"

lemma mintGate_Inr:
  "mintGate C t authTime acr = Inr j \<longleftrightarrow> coJWT C = Some j \<and> Valid t \<and> 0 < authTime \<and> acr \<noteq> ''''"
  by (auto simp: mintGate_def tenantGate_def split: option.splits)

lemma userInTenant_Inr:
  "userInTenant C s i t = Inr u \<longleftrightarrow> stUserByID (coStore C) s i = Inr u \<and> FromStored (uTenantID u) = t"
  by (auto simp: userInTenant_def split: sum.splits)

lemma sessionInTenant_Inr:
  "sessionInTenant C s h t = Inr r \<longleftrightarrow>
     stRefreshSessionByHash (coStore C) s h = Inr r \<and> FromStored (rsTenantID r) = t"
  by (auto simp: sessionInTenant_def split: sum.splits)

text \<open>The row a mint writes.\<close>

definition mintedSession :: "'s Core \<Rightarrow> Draw \<Rightarrow> string \<Rightarrow> ID \<Rightarrow> string \<Rightarrow> int \<Rightarrow> string \<Rightarrow> RefreshSession" where
  "mintedSession C d userID t h authTime acr =
     \<lparr>rsID = drRowID d, rsUserID = userID, rsTenantID = IDString t, rsTokenHash = h, rsIssuedAt = drNow d,
      rsExpiresAt = drNow d + coRefreshTTL C, rsRevokedAt = 0, rsAuthTime = authTime, rsACR = acr\<rparr>"

lemma issueTokens_Inr:
  assumes "issueTokens C K L d s u t authTime acr amr = (s', Inr tk)"
  obtains j where "coJWT C = Some j" "Valid t" "IssueAccess L j u t authTime acr amr = Inr (tkAccess tk)"
    "coRefreshTTL C \<le> 0 \<and> s' = s \<and> tkRefresh tk = '''' \<or>
     coRefreshTTL C > 0 \<and> (\<exists>h. HashRefreshToken K (tkRefresh tk) = Inr h \<and> NewRefreshToken (drToken d) = Inr (tkRefresh tk) \<and>
       stCreateRefreshSession (coStore C) s (mintedSession C d u t h authTime acr) = Inr s')"
  using assms unfolding issueTokens_def mintedSession_def
  by (auto simp: mintGate_Inr Let_def split: sum.splits if_splits)

section \<open>A concrete deployment\<close>

definition exampleCrypto :: CryptoLib where
  "exampleCrypto = \<lparr>bcGenerate = (\<lambda>p. Some (''h'' @ p)), bcCompare = (\<lambda>h p. h = ''h'' @ p),
     sha256 = map (\<lambda>c. of_nat (of_char c)), totpValidate = (\<lambda>code secret now. Some (code = ''123456''))\<rparr>"

definition exampleJWTLib :: JWTLib where
  "exampleJWTLib = \<lparr>libSignHS256 = (\<lambda>_ _. Some ''tok''), libSignWith = (\<lambda>_ _ _. None), libParse = (\<lambda>_ _ _ _. None),
     libHeader = (\<lambda>_. None), libSignature = (\<lambda>_. None), libClaims = (\<lambda>_. None), libValid = (\<lambda>_ _ _. False)\<rparr>"

definition exampleCore :: "IdentMem Core" where
  "exampleCore = (defaultCore memStore (Some (exampleService 100)))
     \<lparr>coRefreshTTL := 1000, coMemberships := Some memMembershipStore, coInvitations := Some memInvitationStore\<rparr>"

definition exampleDraw :: Draw where
  "exampleDraw = \<lparr>drNow = 100, drUserID = ''u9'', drRowID = ''r9'', drToken = Some [9, 9, 9]\<rparr>"

lemmas example_defs = exampleCrypto_def exampleJWTLib_def exampleCore_def defaultCore_def exampleDraw_def
  exampleService_def memStore_def memMembershipStore_def memInvitationStore_def

section \<open>Properties of one operation, for any store\<close>

text \<open>
  An accepted address is the trimmed, lower-cased input with exactly one at sign, a
  non-empty local part and a dotted domain, and normalising again changes nothing, so the
  throttle key, the lookup and the row agree on one spelling. A NUL is not refused: two
  accounts of different tenants with accepted addresses can share one index key of the
  reference store, when a tenant id holds a NUL.
\<close>

theorem NormaliseEmail_shape:
  "(NormaliseEmail raw = Inr e \<longleftrightarrow> e = toLower (trimSpace raw) \<and>
      (\<exists>local domain. e = local @ CHR ''@'' # domain \<and> local \<noteq> '''' \<and> CHR ''@'' \<notin> set local \<and>
         CHR ''@'' \<notin> set domain \<and> CHR ''.'' \<in> set domain)) \<and>
   (NormaliseEmail raw = Inr e \<longrightarrow> NormaliseEmail e = Inr e) \<and>
   (\<exists>t u e1 e2. t \<noteq> u \<and> NormaliseEmail e1 = Inr e1 \<and> NormaliseEmail e2 = Inr e2 \<and> tenantKey t e1 = tenantKey u e2)"
proof (intro conjI)
  show "NormaliseEmail raw = Inr e \<longleftrightarrow> e = toLower (trimSpace raw) \<and>
      (\<exists>local domain. e = local @ CHR ''@'' # domain \<and> local \<noteq> '''' \<and> CHR ''@'' \<notin> set local \<and>
         CHR ''@'' \<notin> set domain \<and> CHR ''.'' \<in> set domain)"
    by (rule NormaliseEmail_Inr_iff)
  show "NormaliseEmail raw = Inr e \<longrightarrow> NormaliseEmail e = Inr e"
    using NormaliseEmail_stable by blast
  let ?e1 = "''b'' @ CHR 0x00 # ''c@x.io''"
  have "NormaliseEmail ?e1 = Inr ?e1" "NormaliseEmail ''c@x.io'' = Inr ''c@x.io''"
    by code_simp+
  moreover have "tenantKey ''a'' ?e1 = tenantKey (''a'' @ CHR 0x00 # ''b'') ''c@x.io''"
    by (simp add: tenantKey_def)
  moreover have "''a'' \<noteq> ''a'' @ CHR 0x00 # ''b''" by simp
  ultimately show "\<exists>t u e1 e2. t \<noteq> u \<and> NormaliseEmail e1 = Inr e1 \<and> NormaliseEmail e2 = Inr e2 \<and>
      tenantKey t e1 = tenantKey u e2" by blast
qed

theorem NormaliseEmail_shape_witness:
  "NormaliseEmail (toLower (trimSpace '' Bob@X.io'')) = Inr ''bob@x.io''"
proof -
  have "NormaliseEmail '' Bob@X.io'' = Inr ''bob@x.io''" "toLower (trimSpace '' Bob@X.io'') = ''bob@x.io''"
    by code_simp+
  with NormaliseEmail_shape [of "'' Bob@X.io''" "''bob@x.io''"] show ?thesis by simp
qed

text \<open>
  C8. A refused login says nothing about the account, whatever the store. A throttled
  attempt is answered from the tenant and the normalised address alone, before any
  lookup and without a password comparison. A wrong tenant, an unknown address, an
  account without a password, a deactivated one and a wrong password give the same
  answer, write nothing, and cost one lookup and exactly one bcrypt comparison. The user
  is disclosed, as owing a second factor or as logged in, only after that user's own
  password was verified and the account is active, and logged in only when no second
  factor is owed.
\<close>

theorem Login_uniform:
  assumes "NormaliseEmail email = Inr e"
  shows "(allowLogin C t e = Some w \<longrightarrow> Login C K L d s t email pw =
      (s, [AskThrottle (IDString t) e], Inl (ErrThrottled w, zeroUser))) \<and>
    (allowLogin C t e = None \<and> Valid t \<and>
      (stUserByEmail (coStore C) s t e = Inl IErrNotFound \<or>
       (\<exists>u. stUserByEmail (coStore C) s t e = Inr u \<and>
          (uPasswordHash u = '''' \<or> \<not> uActive u \<or> \<not> bcCompare K (uPasswordHash u) pw))) \<longrightarrow>
      (\<exists>ev. Login C K L d s t email pw = (s, ev, Inl (ErrInvalidCredentials, zeroUser)) \<and>
         length (filter isBcrypt ev) = 1 \<and> length (filter isLookup ev) = 1)) \<and>
    (Login C K L d s t email pw = (s', ev, r) \<and> (\<exists>tk. r = Inr (u, tk) \<or> r = Inl (err, u) \<and> u \<noteq> zeroUser) \<longrightarrow>
      stUserByEmail (coStore C) s t e = Inr u \<and> uActive u \<and> uPasswordHash u \<noteq> '''' \<and>
      bcCompare K (uPasswordHash u) pw \<and>
      ((uTOTPEnrolled u \<or> secondFactorRequiredAtLogin C (drNow d) (FromStored (uTenantID u)) (uID u)) \<longrightarrow>
         s' = s \<and> r = Inl (ErrTOTPRequired, u)))"
proof (rule conjI [OF _ conjI]; rule impI)
  assume a: "allowLogin C t e = Some w"
  then have "\<not> Option.is_none (thThrottle (coThrottling C))"
    by (auto simp: allowLogin_def askThrottle_def split: option.splits)
  with a assms show "Login C K L d s t email pw = (s, [AskThrottle (IDString t) e], Inl (ErrThrottled w, zeroUser))"
    by (simp add: Login_def)
next
  assume a: "allowLogin C t e = None \<and> Valid t \<and>
      (stUserByEmail (coStore C) s t e = Inl IErrNotFound \<or>
       (\<exists>u. stUserByEmail (coStore C) s t e = Inr u \<and>
          (uPasswordHash u = '''' \<or> \<not> uActive u \<or> \<not> bcCompare K (uPasswordHash u) pw)))"
  then have "userByEmail C s t e = stUserByEmail (coStore C) s t e"
    by (simp add: userByEmail_def tenantGate_def)
  with a assms show "\<exists>ev. Login C K L d s t email pw = (s, ev, Inl (ErrInvalidCredentials, zeroUser)) \<and>
         length (filter isBcrypt ev) = 1 \<and> length (filter isLookup ev) = 1"
    by (auto simp: Login_def VerifyPassword_def Let_def isBcrypt_def isLookup_def)
next
  assume "Login C K L d s t email pw = (s', ev, r) \<and> (\<exists>tk. r = Inr (u, tk) \<or> r = Inl (err, u) \<and> u \<noteq> zeroUser)"
  then obtain tk where l: "Login C K L d s t email pw = (s', ev, r)" and
    r: "r = Inr (u, tk) \<or> r = Inl (err, u) \<and> u \<noteq> zeroUser" by blast
  have n: "allowLogin C t e = None"
    using l r assms by (cases "allowLogin C t e") (auto simp: Login_def Let_def)
  obtain v where v: "userByEmail C s t e = Inr v"
    using l r assms n by (cases "userByEmail C s t e") (auto simp: Login_def Let_def split: if_splits)
  then have v': "stUserByEmail (coStore C) s t e = Inr v"
    by (auto simp: userByEmail_def split: option.splits)
  have ok: "uPasswordHash v \<noteq> ''''" "uActive v" "bcCompare K (uPasswordHash v) pw"
    using l r assms n v by (auto simp: Login_def Let_def VerifyPassword_def split: if_splits)
  show "stUserByEmail (coStore C) s t e = Inr u \<and> uActive u \<and> uPasswordHash u \<noteq> '''' \<and>
      bcCompare K (uPasswordHash u) pw \<and>
      ((uTOTPEnrolled u \<or> secondFactorRequiredAtLogin C (drNow d) (FromStored (uTenantID u)) (uID u)) \<longrightarrow>
         s' = s \<and> r = Inl (ErrTOTPRequired, u))"
  proof (cases "uTOTPEnrolled v \<or> secondFactorRequiredAtLogin C (drNow d) (FromStored (uTenantID v)) (uID v)")
    case True
    with l assms n v ok have "s' = s" "r = Inl (ErrTOTPRequired, v)"
      by (simp_all add: Login_def Let_def VerifyPassword_def)
    with r v' ok show ?thesis by auto
  next
    case False
    with l r assms n v ok have "u = v"
      by (auto simp: Login_def Let_def VerifyPassword_def split: prod.splits sum.splits)
    with False v' ok show ?thesis by simp
  qed
qed

theorem Login_uniform_witness:
  "\<exists>ev. Login exampleCore exampleCrypto exampleJWTLib exampleDraw exampleIdentMem (NewID ''initech'') ''B@x.io'' ''pw''
     = (exampleIdentMem, ev, Inl (ErrInvalidCredentials, zeroUser)) \<and> length (filter isBcrypt ev) = 1"
proof -
  have e: "NormaliseEmail ''B@x.io'' = Inr ''b@x.io''" by code_simp
  have "memUserByEmail exampleIdentMem (NewID ''initech'') ''b@x.io'' = Inl IErrNotFound"
    by (simp add: memUserByEmail_def exampleIdentMem_def NewIdentMem_def tenantKey_def NewID_def IDString_def)
  then have "allowLogin exampleCore (NewID ''initech'') ''b@x.io'' = None \<and> Valid (NewID ''initech'') \<and>
      stUserByEmail (coStore exampleCore) exampleIdentMem (NewID ''initech'') ''b@x.io'' = Inl IErrNotFound"
    by (simp add: example_defs allowLogin_def askThrottle_def NewID_def Valid_def)
  then show ?thesis
    using Login_uniform [OF e, where C = exampleCore and t = "NewID ''initech''" and s = exampleIdentMem
        and K = exampleCrypto and L = exampleJWTLib and d = exampleDraw and pw = "''pw''",
        THEN conjunct2, THEN conjunct1] by blast
qed

text \<open>
  A session is minted for a user id only in the tenant that user is stored in, and
  only for an active user, whatever the store: the access token is then the one for that
  tenant, accepted in it and in no other. An id that does not exist and an id of another
  tenant get the same answer and leave the store as it was.
\<close>

theorem IssueTokensForUser_own_tenant:
  "(IssueTokensForUser C K L d s i t authTime acr amr = (s', Inr tk) \<longrightarrow>
      (\<exists>u j. stUserByID (coStore C) s i = Inr u \<and> FromStored (uTenantID u) = t \<and> uActive u \<and> coJWT C = Some j \<and>
         0 < authTime \<and> acr \<noteq> '''' \<and>
         (hs256Ok L \<and> defaultPath j \<and> 0 < jTTL j \<longrightarrow>
            (\<forall>t'. isOk (VerifyAccess L j (tkAccess tk) t') \<longleftrightarrow> t' = t)))) \<and>
   (isOk (mintGate C t authTime acr) \<and>
      (stUserByID (coStore C) s i = Inl IErrNotFound \<or>
       (\<exists>u. stUserByID (coStore C) s i = Inr u \<and> FromStored (uTenantID u) \<noteq> t)) \<longrightarrow>
      IssueTokensForUser C K L d s i t authTime acr amr = (s, Inl IErrNotFound))"
proof (intro conjI impI)
  assume a: "IssueTokensForUser C K L d s i t authTime acr amr = (s', Inr tk)"
  then obtain u where u: "stUserByID (coStore C) s i = Inr u" "FromStored (uTenantID u) = t" "uActive u"
    "issueTokens C K L d s i t authTime acr amr = (s', Inr tk)"
    by (auto simp: IssueTokensForUser_def split: sum.splits if_splits)
  obtain j where j: "coJWT C = Some j" "Valid t" "IssueAccess L j i t authTime acr amr = Inr (tkAccess tk)"
    using issueTokens_Inr [OF u(4)] by metis
  then have m: "issueAccessWithActor L j i '''' (IDString t) '''' authTime acr (jTTL j) amr = Inr (tkAccess tk)"
    by (auto simp: IssueAccess_def issueAccess_def split: if_splits)
  have "isOk (VerifyAccess L j (tkAccess tk) t') \<longleftrightarrow> t' = t" if "hs256Ok L" "defaultPath j" "0 < jTTL j" for t'
    using minted_access_verifies [OF that(1,2,2) refl refl m j(2), of t'] that(3)
    by (auto simp: isl_def) (metis sum.exhaust)+
  moreover have "0 < authTime" "acr \<noteq> ''''"
    using m by (auto simp: issueAccessWithActor_def split: if_splits)
  ultimately show "\<exists>u j. stUserByID (coStore C) s i = Inr u \<and> FromStored (uTenantID u) = t \<and> uActive u \<and>
         coJWT C = Some j \<and> 0 < authTime \<and> acr \<noteq> '''' \<and>
         (hs256Ok L \<and> defaultPath j \<and> 0 < jTTL j \<longrightarrow>
            (\<forall>t'. isOk (VerifyAccess L j (tkAccess tk) t') \<longleftrightarrow> t' = t))"
    using u j(1) by blast
next
  assume "isOk (mintGate C t authTime acr) \<and>
      (stUserByID (coStore C) s i = Inl IErrNotFound \<or>
       (\<exists>u. stUserByID (coStore C) s i = Inr u \<and> FromStored (uTenantID u) \<noteq> t))"
  then show "IssueTokensForUser C K L d s i t authTime acr amr = (s, Inl IErrNotFound)"
    by (auto simp: IssueTokensForUser_def isl_def split: sum.splits)
qed

theorem IssueTokensForUser_own_tenant_witness:
  "IssueTokensForUser exampleCore exampleCrypto exampleJWTLib exampleDraw exampleIdentMem ''u2'' (NewID ''acme'')
     90 ''acr'' [] = (exampleIdentMem, Inl IErrNotFound)"
proof -
  have "memUserByID exampleIdentMem ''u2'' = Inr (userOf (exampleNewUser ''u2'' ''globex''))"
    by (simp add: exampleIdentMem_def NewIdentMem_def)
  moreover have "FromStored ''globex'' \<noteq> NewID ''acme''" by (simp add: FromStored_def NewID_def)
  moreover have "isOk (mintGate exampleCore (NewID ''acme'') 90 ''acr'')"
    by (simp add: mintGate_def tenantGate_def example_defs NewID_def Valid_def)
  ultimately show ?thesis
    by (intro IssueTokensForUser_own_tenant [THEN conjunct2, THEN mp])
      (auto simp: example_defs exampleNewUser_def)
qed

end
