(* ===== verification/Identity_Rotation.thy ===== *)
theory Identity_Rotation
  imports Identity_Sessions
begin

text \<open>
  What a later call sees: refresh rotation, logout and the bulk revocations, and the account
  a registration leaves behind. The facts on single sessions are proved once for every
  store under the contract \<^verbatim>\<open>identity_store\<close>.
\<close>

lemma Refresh_Inr:
  assumes "Refresh C K L d s t tok = (s', Inr (u, tk))"
  obtains h old s1 where "coRefreshTTL C > 0" "HashRefreshToken K tok = Inr h"
    "stRefreshSessionByHash (coStore C) s h = Inr old" "FromStored (rsTenantID old) = t" "\<not> Revoked old"
    "drNow d < rsExpiresAt old" "stUserByID (coStore C) s (rsUserID old) = Inr u"
    "FromStored (uTenantID u) = t" "0 < rsAuthTime old" "rsACR old \<noteq> ''''" "uActive u"
    "stRevokeRefreshSession (coStore C) s (rsID old) (drNow d) = Inr s1"
    "issueTokens C K L d s1 (rsUserID old) t (rsAuthTime old) (rsACR old) [] = (s', Inr tk)"
proof -
  obtain h where h: "coRefreshTTL C > 0" "HashRefreshToken K tok = Inr h"
    using assms by (auto simp: Refresh_def split: if_splits sum.splits)
  then obtain old where old: "sessionInTenant C s h t = Inr old"
    using assms by (cases "sessionInTenant C s h t") (auto simp: Refresh_def split: if_splits)
  then have o: "stRefreshSessionByHash (coStore C) s h = Inr old" "FromStored (rsTenantID old) = t"
    by (simp_all add: sessionInTenant_Inr)
  have live: "\<not> Revoked old" "drNow d < rsExpiresAt old"
    using assms h old by (auto simp: Refresh_def split: if_splits)
  then obtain v where v: "stUserByID (coStore C) s (rsUserID old) = Inr v"
    using assms h old by (cases "stUserByID (coStore C) s (rsUserID old)") (auto simp: Refresh_def split: if_splits)
  have c: "FromStored (rsTenantID old) = FromStored (uTenantID v)" "0 < rsAuthTime old" "rsACR old \<noteq> ''''" "uActive v"
    using assms h old live v by (auto simp: Refresh_def Let_def split: if_splits)
  then obtain s1 where s1: "stRevokeRefreshSession (coStore C) s (rsID old) (drNow d) = Inr s1"
    using assms h old live v
    by (cases "stRevokeRefreshSession (coStore C) s (rsID old) (drNow d)") (auto simp: Refresh_def Let_def)
  then have "v = u" "issueTokens C K L d s1 (rsUserID old) t (rsAuthTime old) (rsACR old) [] = (s', Inr tk)"
    using assms h old live v c o(2) by (auto simp: Refresh_def Let_def split: prod.splits sum.splits)
  with that h o live v c s1 show ?thesis by simp
qed

context identity_store begin

text \<open>A revoked or a foreign session answers every refresh with the one refusal and is left alone.\<close>

lemma dead_session_refused:
  assumes "coStore C = S" "HashRefreshToken K tok = Inr h" "stRefreshSessionByHash S s h = Inr r"
    "Revoked r \<or> FromStored (rsTenantID r) \<noteq> t"
  shows "Refresh C K L d s t tok = (s, Inl ErrInvalidSession)"
  using assms by (auto simp: Refresh_def sessionInTenant_def)

lemma refresh_rotates:
  assumes "ok s" "coStore C = S" "Refresh C K L d s t tok = (s', Inr (u, tk))" "0 < drNow d"
    and id: "\<forall>h r. stRefreshSessionByHash S s h = Inr r \<longrightarrow> rsID r \<noteq> drRowID d"
    and hash: "\<forall>h. HashRefreshToken K (tkRefresh tk) = Inr h \<longrightarrow> stRefreshSessionByHash S s h = Inl IErrNotFound"
  shows "\<exists>h old h'. HashRefreshToken K tok = Inr h \<and> HashRefreshToken K (tkRefresh tk) = Inr h' \<and>
    stRefreshSessionByHash S s h = Inr old \<and> \<not> Revoked old \<and> drNow d < rsExpiresAt old \<and>
    FromStored (rsTenantID old) = t \<and> stUserByID S s (rsUserID old) = Inr u \<and> uActive u \<and>
    FromStored (uTenantID u) = t \<and> ok s' \<and> stUserByID S s' = stUserByID S s \<and>
    stRefreshSessionByHash S s' = (stRefreshSessionByHash S s)
      (h := Inr (old\<lparr>rsRevokedAt := drNow d\<rparr>),
       h' := Inr (mintedSession C d (rsUserID old) t h' (rsAuthTime old) (rsACR old))) \<and>
    (\<forall>L' d' t'. Refresh C K L' d' s' t' tok = (s', Inl ErrInvalidSession))"
proof -
  obtain h old s1 where r: "coRefreshTTL C > 0" "HashRefreshToken K tok = Inr h"
    "stRefreshSessionByHash S s h = Inr old" "FromStored (rsTenantID old) = t" "\<not> Revoked old"
    "drNow d < rsExpiresAt old" "stUserByID S s (rsUserID old) = Inr u" "FromStored (uTenantID u) = t" "uActive u"
    "stRevokeRefreshSession S s (rsID old) (drNow d) = Inr s1"
    "issueTokens C K L d s1 (rsUserID old) t (rsAuthTime old) (rsACR old) [] = (s', Inr tk)"
    using Refresh_Inr [OF assms(3)] assms(2) by metis
  obtain h' where h': "HashRefreshToken K (tkRefresh tk) = Inr h'"
    "stCreateRefreshSession S s1 (mintedSession C d (rsUserID old) t h' (rsAuthTime old) (rsACR old)) = Inr s'"
    using issueTokens_Inr [OF r(11)] r(1) assms(2) by force
  let ?new = "mintedSession C d (rsUserID old) t h' (rsAuthTime old) (rsACR old)"
  have s1: "ok s1" "stUserByID S s1 = stUserByID S s"
    "stRefreshSessionByHash S s1 = (stRefreshSessionByHash S s)(h := Inr (old\<lparr>rsRevokedAt := drNow d\<rparr>))"
    using session_revoked [OF assms(1) r(3) r(10)] r(5) by auto
  have nh: "stRefreshSessionByHash S s h' = Inl IErrNotFound" using hash h'(1) by blast
  then have "h' \<noteq> h" using r(3) by auto
  have new: "rsID ?new = drRowID d" "rsTokenHash ?new = h'" by (simp_all add: mintedSession_def)
  have "\<forall>k q. stRefreshSessionByHash S s1 k = Inr q \<longrightarrow> rsID q \<noteq> rsID ?new"
    using s1(3) id r(3) new(1) by auto
  moreover have "stRefreshSessionByHash S s1 (rsTokenHash ?new) = Inl IErrNotFound"
    using s1(3) nh \<open>h' \<noteq> h\<close> new(2) by simp
  ultimately have s': "ok s'" "stUserByID S s' = stUserByID S s1"
    "stRefreshSessionByHash S s' = (stRefreshSessionByHash S s1)(h' := Inr ?new)"
    using session_created [OF s1(1) _ _ h'(2)] new(2) by auto
  have "stRefreshSessionByHash S s' h = Inr (old\<lparr>rsRevokedAt := drNow d\<rparr>)"
    using s'(3) s1(3) \<open>h' \<noteq> h\<close> by simp
  moreover have "Revoked (old\<lparr>rsRevokedAt := drNow d\<rparr>)" using assms(4) by (simp add: Revoked_def)
  ultimately have "Refresh C K L' d' s' t' tok = (s', Inl ErrInvalidSession)" for L' d' t'
    using dead_session_refused [OF assms(2) r(2)] by blast
  with r h'(1) s' s1 show ?thesis by auto
qed

lemma logout_ends_session:
  assumes "ok s" "coStore C = S" "coRefreshTTL C > 0" "HashRefreshToken K tok = Inr h"
    "stRefreshSessionByHash S s h = Inr r" "0 < drNow d"
  shows "(FromStored (rsTenantID r) \<noteq> t \<longrightarrow> Logout C K d s t tok = (s, Some ErrInvalidSession)) \<and>
    (Logout C K d s t tok = (s', None) \<longrightarrow>
       (\<forall>L d' t'. Refresh C K L d' s' t' tok = (s', Inl ErrInvalidSession)) \<and>
       (\<forall>d'. Logout C K d' s' t tok = (s', None)))"
proof (rule conjI; rule impI)
  have tok: "tok \<noteq> ''''" using assms(4) by (auto simp: HashRefreshToken_def)
  show "Logout C K d s t tok = (s, Some ErrInvalidSession)" if "FromStored (rsTenantID r) \<noteq> t"
    using that assms tok by (simp add: Logout_def sessionInTenant_def)
  assume l: "Logout C K d s t tok = (s', None)"
  have t: "FromStored (rsTenantID r) = t"
    using l assms tok by (auto simp: Logout_def sessionInTenant_def split: if_splits)
  have "\<exists>q. stRefreshSessionByHash S s' h = Inr q \<and> Revoked q \<and> rsTenantID q = rsTenantID r"
  proof (cases "Revoked r")
    case True
    with l t assms tok show ?thesis by (simp add: Logout_def sessionInTenant_def)
  next
    case False
    then have rv: "stRevokeRefreshSession S s (rsID r) (drNow d) = Inr s'"
      using l t assms tok by (auto simp: Logout_def sessionInTenant_def split: sum.splits)
    from session_revoked [OF assms(1,5) rv] False assms(6) show ?thesis by (simp add: Revoked_def)
  qed
  then obtain q where q: "stRefreshSessionByHash S s' h = Inr q" "Revoked q" "rsTenantID q = rsTenantID r" by blast
  then have "Refresh C K L d' s' t' tok = (s', Inl ErrInvalidSession)" for L d' t'
    using dead_session_refused [OF assms(2,4)] by blast
  moreover have "Logout C K d' s' t tok = (s', None)" for d'
    using q t assms tok by (simp add: Logout_def sessionInTenant_def)
  ultimately show "(\<forall>L d' t'. Refresh C K L d' s' t' tok = (s', Inl ErrInvalidSession)) \<and>
       (\<forall>d'. Logout C K d' s' t tok = (s', None))" by blast
qed

end

section \<open>Properties\<close>

text \<open>
  Rotation. A refresh that succeeds presented a live, unexpired session of the tenant
  asked about, whose user is active and stored in that tenant. Afterwards exactly two rows
  differ: the presented one is revoked, and one new row carries the same user, tenant,
  authentication time and class, so step-up is never re-armed. The presented token is
  refused from then on, in every tenant and at every time, without touching the store.
\<close>

theorem Refresh_rotates:
  assumes "identMemOk m" "coStore C = memStore" "Refresh C K L d m t tok = (m', Inr (u, tk))" "0 < drNow d"
    and "\<forall>h r. memRefreshSessionByHash m h = Inr r \<longrightarrow> rsID r \<noteq> drRowID d"
    and "\<forall>h. HashRefreshToken K (tkRefresh tk) = Inr h \<longrightarrow> memRefreshSessionByHash m h = Inl IErrNotFound"
  shows "\<exists>h old h'. HashRefreshToken K tok = Inr h \<and> HashRefreshToken K (tkRefresh tk) = Inr h' \<and>
    memRefreshSessionByHash m h = Inr old \<and> \<not> Revoked old \<and> drNow d < rsExpiresAt old \<and>
    FromStored (rsTenantID old) = t \<and> memUserByID m (rsUserID old) = Inr u \<and> uActive u \<and>
    FromStored (uTenantID u) = t \<and> identMemOk m' \<and> memUserByID m' = memUserByID m \<and>
    memRefreshSessionByHash m' = (memRefreshSessionByHash m)
      (h := Inr (old\<lparr>rsRevokedAt := drNow d\<rparr>),
       h' := Inr (mintedSession C d (rsUserID old) t h' (rsAuthTime old) (rsACR old))) \<and>
    (\<forall>L' d' t'. Refresh C K L' d' m' t' tok = (m', Inl ErrInvalidSession))"
  using mem_identity.refresh_rotates [of m C K L d t tok m' u tk] assms by (simp add: memStore_def)

definition exampleSession :: RefreshSession where
  "exampleSession = \<lparr>rsID = ''r1'', rsUserID = ''u1'', rsTenantID = ''acme'', rsTokenHash = ''4141'', rsIssuedAt = 50,
     rsExpiresAt = 500, rsRevokedAt = 0, rsAuthTime = 50, rsACR = ''acr''\<rparr>"

definition exampleSessionMem :: IdentMem where
  "exampleSessionMem = exampleIdentMem\<lparr>sessions := [(''r1'', exampleSession)], hashToID := [(''4141'', ''r1'')]\<rparr>"

lemma exampleSessionMem_ok: "identMemOk exampleSessionMem"
proof -
  have "memCreateRefreshSession exampleIdentMem exampleSession = Inr exampleSessionMem"
    by (simp add: memCreateRefreshSession_def exampleSessionMem_def exampleSession_def exampleIdentMem_def NewIdentMem_def)
  then show ?thesis
    using memCreateRefreshSession_ok [OF identReach_ok [OF exampleIdentMem_reach]]
    by (simp add: exampleSession_def exampleIdentMem_def NewIdentMem_def)
qed

lemma exampleRefresh:
  "snd (Refresh exampleCore exampleCrypto exampleJWTLib exampleDraw exampleSessionMem (NewID ''acme'') ''AA'') =
     Inr (userOf (exampleNewUser ''u1'' ''acme''),
          \<lparr>tkAccess = ''tok'', tkRefresh = ''CQkJ'', tkRefreshExpiresAt = 1100\<rparr>)"
  by code_simp

theorem Refresh_rotates_witness:
  "\<exists>m' x. Refresh exampleCore exampleCrypto exampleJWTLib exampleDraw exampleSessionMem (NewID ''acme'') ''AA'' = (m', Inr x) \<and>
     Refresh exampleCore exampleCrypto exampleJWTLib exampleDraw m' (NewID ''acme'') ''AA'' = (m', Inl ErrInvalidSession)"
proof -
  obtain m' where m': "Refresh exampleCore exampleCrypto exampleJWTLib exampleDraw exampleSessionMem (NewID ''acme'') ''AA''
      = (m', Inr (userOf (exampleNewUser ''u1'' ''acme''), \<lparr>tkAccess = ''tok'', tkRefresh = ''CQkJ'', tkRefreshExpiresAt = 1100\<rparr>))"
    using exampleRefresh by (metis prod.collapse)
  have h: "HashRefreshToken exampleCrypto ''CQkJ'' = Inr ''43516b4a''" by code_simp
  have "coStore exampleCore = memStore" "0 < drNow exampleDraw" "drRowID exampleDraw = ''r9''"
    by (simp_all add: example_defs)
  moreover have "rsID r = ''r1''" if "memRefreshSessionByHash exampleSessionMem h = Inr r" for h r
    using that by (auto simp: memRefreshSessionByHash_def exampleSessionMem_def exampleSession_def split: option.splits if_splits)
  moreover have "memRefreshSessionByHash exampleSessionMem ''43516b4a'' = Inl IErrNotFound"
    by (simp add: memRefreshSessionByHash_def exampleSessionMem_def)
  ultimately show ?thesis
    using Refresh_rotates [OF exampleSessionMem_ok _ m'] m' h by fastforce
qed

lemma map_of_revokeAll:
  "map_of (map (\<lambda>(i, s). (i, if P s then s\<lparr>rsRevokedAt := at\<rparr> else s)) ss) i =
     map_option (\<lambda>s. if P s then s\<lparr>rsRevokedAt := at\<rparr> else s) (map_of ss i)"
  by (rule map_of_map_snd)

text \<open>
  Signing out. A logout with a token of another tenant is refused and changes
  nothing, so a leaked token cannot end sessions elsewhere; one that succeeds ends that
  session for good, and logging out again still succeeds. Signing a user out everywhere
  revokes every live session of that user and no other user's, and is refused for a user
  of another tenant; locking a tenant out revokes every live session of that tenant and
  none of another, and an unset tenant is refused.
\<close>

theorem sign_out_exact:
  assumes "identMemOk m" "coStore C = memStore" "coRefreshTTL C > 0" "0 < drNow d" "HashRefreshToken K tok = Inr h"
    "memRefreshSessionByHash m h = Inr r"
  shows "(FromStored (rsTenantID r) \<noteq> t \<longrightarrow> Logout C K d m t tok = (m, Some ErrInvalidSession)) \<and>
    (Logout C K d m t tok = (m', None) \<longrightarrow>
       (\<forall>L d' t'. Refresh C K L d' m' t' tok = (m', Inl ErrInvalidSession)) \<and>
       (\<forall>d'. Logout C K d' m' t tok = (m', None))) \<and>
    (RevokeAllSessions C d m t u = (m', None) \<longrightarrow>
       (\<exists>v. map_of (usersByID m) u = Some v \<and> FromStored (uTenantID v) = t) \<and> LiveSessionCount m' u = 0 \<and>
       (\<forall>i q. map_of (sessions m) i = Some q \<and> rsUserID q \<noteq> u \<longrightarrow> map_of (sessions m') i = Some q)) \<and>
    (\<forall>v. map_of (usersByID m) u = Some v \<and> FromStored (uTenantID v) \<noteq> t \<and> u \<noteq> '''' \<longrightarrow>
       RevokeAllSessions C d m t u = (m, Some IErrNotFound)) \<and>
    (RevokeAllSessionsForTenant C d m t = (m', None) \<longrightarrow> Valid t \<and>
       (\<forall>i q. map_of (sessions m) i = Some q \<longrightarrow>
          (\<exists>q'. map_of (sessions m') i = Some q' \<and>
             (if rsTenantID q = IDString t then Revoked q' else q' = q))))"
proof -
  have lo: "(FromStored (rsTenantID r) \<noteq> t \<longrightarrow> Logout C K d m t tok = (m, Some ErrInvalidSession)) \<and>
    (Logout C K d m t tok = (m', None) \<longrightarrow>
       (\<forall>L d' t'. Refresh C K L d' m' t' tok = (m', Inl ErrInvalidSession)) \<and>
       (\<forall>d'. Logout C K d' m' t tok = (m', None)))"
    using mem_identity.logout_ends_session [of m C K tok h r d t m'] assms by (simp add: memStore_def)
  have uit: "userInTenant C m u t = (case map_of (usersByID m) u of None \<Rightarrow> Inl IErrNotFound
      | Some v \<Rightarrow> if FromStored (uTenantID v) \<noteq> t then Inl IErrNotFound else Inr v)"
    using assms(2) by (simp add: userInTenant_def memStore_def memUserByID_def split: option.split)
  have all: "(\<exists>v. map_of (usersByID m) u = Some v \<and> FromStored (uTenantID v) = t) \<and> LiveSessionCount m' u = 0 \<and>
       (\<forall>i q. map_of (sessions m) i = Some q \<and> rsUserID q \<noteq> u \<longrightarrow> map_of (sessions m') i = Some q)"
    if a: "RevokeAllSessions C d m t u = (m', None)"
  proof -
    obtain v where v: "map_of (usersByID m) u = Some v" "FromStored (uTenantID v) = t"
      using a uit by (auto simp: RevokeAllSessions_def split: if_splits option.splits)
    have m': "m' = m\<lparr>sessions := map (\<lambda>(i, s). (i, if rsUserID s = u \<and> \<not> Revoked s
                                            then s\<lparr>rsRevokedAt := drNow d\<rparr> else s)) (sessions m)\<rparr>"
      using a uit v assms(2) by (simp add: RevokeAllSessions_def memStore_def memRevokeAllForUser_def split: if_splits)
    have "filter (\<lambda>s. rsUserID s = u \<and> \<not> Revoked s) (map snd (sessions m')) = []"
      using assms(4) by (auto simp: m' filter_empty_conv Revoked_def split: if_splits)
    then have "LiveSessionCount m' u = 0" by (simp add: LiveSessionCount_def)
    with v m' show ?thesis by (simp add: map_of_revokeAll)
  qed
  have foreign: "RevokeAllSessions C d m t u = (m, Some IErrNotFound)"
    if "map_of (usersByID m) u = Some v" "FromStored (uTenantID v) \<noteq> t" "u \<noteq> ''''" for v
    using that uit by (simp add: RevokeAllSessions_def)
  have ten: "Valid t \<and> (\<forall>i q. map_of (sessions m) i = Some q \<longrightarrow>
          (\<exists>q'. map_of (sessions m') i = Some q' \<and> (if rsTenantID q = IDString t then Revoked q' else q' = q)))"
    if a: "RevokeAllSessionsForTenant C d m t = (m', None)"
  proof -
    have "Valid t" using a by (auto simp: RevokeAllSessionsForTenant_def tenantGate_def split: if_splits)
    with a assms(2) have m': "m' = m\<lparr>sessions := map (\<lambda>(i, s). (i, if rsTenantID s = IDString t \<and> \<not> Revoked s
                                            then s\<lparr>rsRevokedAt := drNow d\<rparr> else s)) (sessions m)\<rparr>"
      by (simp add: RevokeAllSessionsForTenant_def tenantGate_def memStore_def memRevokeAllForTenant_def)
    have "Revoked (q\<lparr>rsRevokedAt := drNow d\<rparr>)" for q using assms(4) by (simp add: Revoked_def)
    with \<open>Valid t\<close> m' show ?thesis by (simp add: map_of_revokeAll)
  qed
  from lo all foreign ten show ?thesis by blast
qed

theorem sign_out_exact_witness:
  "Logout exampleCore exampleCrypto exampleDraw exampleSessionMem (NewID ''globex'') ''AA''
     = (exampleSessionMem, Some ErrInvalidSession)"
proof -
  have h: "HashRefreshToken exampleCrypto ''AA'' = Inr ''4141''" by code_simp
  have r: "memRefreshSessionByHash exampleSessionMem ''4141'' = Inr exampleSession"
    by (simp add: memRefreshSessionByHash_def exampleSessionMem_def)
  have "coStore exampleCore = memStore" "coRefreshTTL exampleCore > 0" "0 < drNow exampleDraw"
    "FromStored (rsTenantID exampleSession) \<noteq> NewID ''globex''"
    by (simp_all add: example_defs exampleSession_def FromStored_def NewID_def)
  then show ?thesis using sign_out_exact [OF exampleSessionMem_ok _ _ _ h r] by blast
qed

lemma issueTokens_users:
  assumes "coStore C = memStore" "issueTokens C K L d m i t authTime acr amr = (m', x)"
  shows "usersByID m' = usersByID m \<and> emailToID m' = emailToID m"
  using assms unfolding issueTokens_def
  by (auto simp: memStore_def memCreateRefreshSession_def Let_def split: sum.splits if_splits)

lemma Register_Inr:
  assumes "Register C K L d m t email pw = (m', Inr (u, tk))" "coStore C = memStore"
  obtains e h m1 where "NormaliseEmail email = Inr e" "Valid t" "bcGenerate K pw = Some h"
    "minPasswordLen \<le> length pw" "length pw \<le> maxPasswordLen"
    "u = \<lparr>uID = drUserID d, uTenantID = IDString t, uEmail = e, uPasswordHash = h, uActive = True,
          uTOTPEnrolled = False, uCreatedAt = drNow d\<rparr>"
    "memCreateUser m \<lparr>nuID = drUserID d, nuTenantID = IDString t, nuEmail = e, nuPasswordHash = h, nuCreatedAt = drNow d\<rparr>
       (memCountUsers m t = Inr 0) = Inr m1"
    "issueTokens C K L d (case hkOnRegistered (coHooks C) of None \<Rightarrow> m1 | Some f \<Rightarrow> f m1 u (memCountUsers m t = Inr 0))
       (drUserID d) (FromStored (IDString t)) (drNow d) (coDefaultACR C) [] = (m', Inr tk)"
proof -
  obtain e where e: "NormaliseEmail email = Inr e"
    using assms(1) by (auto simp: Register_def split: sum.splits)
  have p: "validatePassword pw = None"
    using assms(1) e by (auto simp: Register_def split: option.splits)
  obtain h where h: "HashPassword K pw = Inr h"
    using assms(1) e p by (cases "HashPassword K pw") (auto simp: Register_def)
  have v: "Valid t"
    using assms(1) e p h by (auto simp: Register_def countUsers_def tenantGate_def split: if_splits)
  obtain n where n: "memCountUsers m t = Inr n" by (simp add: memCountUsers_def)
  let ?n = "\<lparr>nuID = drUserID d, nuTenantID = IDString t, nuEmail = e, nuPasswordHash = h, nuCreatedAt = drNow d\<rparr>"
  have c: "countUsers C m t = Inr n" using v n assms(2) by (simp add: countUsers_def tenantGate_def memStore_def)
  obtain m1 where m1: "memCreateUser m ?n (n = 0) = Inr m1"
    using assms e p h c by (cases "memCreateUser m ?n (n = 0)") (auto simp: Register_def memStore_def)
  have ui: "u = userOf ?n \<and> issueTokens C K L d (case hkOnRegistered (coHooks C) of None \<Rightarrow> m1 | Some f \<Rightarrow> f m1 u (n = 0))
       (drUserID d) (FromStored (IDString t)) (drNow d) (coDefaultACR C) [] = (m', Inr tk)"
    using assms e p h c m1 by (auto simp: Register_def memStore_def Let_def split: prod.splits sum.splits)
  have "bcGenerate K pw = Some h" "minPasswordLen \<le> length pw" "length pw \<le> maxPasswordLen"
    using h p by (auto simp: HashPassword_def validatePassword_def split: if_splits option.splits)
  moreover have n0: "(memCountUsers m t = Inr 0) = (n = 0)" using n by simp
  ultimately show ?thesis
    by (intro that [of e h m1]) (use e v m1 ui [THEN conjunct1] ui [THEN conjunct2] in
      \<open>unfold n0, simp_all add: userOf_def\<close>)
qed

text \<open>
  Registration. What a successful registration stores is one active user with the
  normalised address, in the tenant named, and nothing of any other user changes; the
  bootstrap signal handed to the application is true exactly when that tenant had no
  user, however many the other tenants have. The password just set then passes the login
  of that tenant (where no second factor is owed and bcrypt accepts what it generated),
  and the same registration a second time is refused as taken.
\<close>

theorem Register_then_Login:
  assumes "identMemOk m" "coStore C = memStore" "map_of (usersByID m) (drUserID d) = None"
    "Register C K L d m t email pw = (m', Inr (u, tk))" "hkOnRegistered (coHooks C) = Some hook"
    "\<forall>s b. hook s u b = s" "\<forall>p h. bcGenerate K p = Some h \<longrightarrow> bcCompare K h p \<and> h \<noteq> ''''"
    "thThrottle (coThrottling C) = None" "coSecondFactor C = None" "\<not> coTotpRequired C"
  shows "NormaliseEmail email = Inr (uEmail u) \<and> uTenantID u = IDString t \<and> uActive u \<and>
    usersByID m' = AList.update (uID u) u (usersByID m) \<and>
    (memCountUsers m t = Inr 0 \<longleftrightarrow> (\<forall>i v. map_of (usersByID m) i = Some v \<longrightarrow> uTenantID v \<noteq> IDString t)) \<and>
    fst (snd (Login C K L d' m' t email pw)) = [LookupUser t (uEmail u), BcryptVerify (uPasswordHash u) pw] \<and>
    (\<forall>tk'. snd (issueTokens C K L d' m' (uID u) t (drNow d') (coDefaultACR C) amrForLogin) = Inr tk' \<longrightarrow>
       snd (snd (Login C K L d' m' t email pw)) = Inr (u, tk')) \<and>
    snd (Register C K L d' m' t email pw) = Inl ErrEmailTaken"
proof -
  obtain e h m1 where r: "NormaliseEmail email = Inr e" "Valid t" "bcGenerate K pw = Some h"
    "minPasswordLen \<le> length pw" "length pw \<le> maxPasswordLen"
    "u = \<lparr>uID = drUserID d, uTenantID = IDString t, uEmail = e, uPasswordHash = h, uActive = True,
          uTOTPEnrolled = False, uCreatedAt = drNow d\<rparr>"
    "memCreateUser m \<lparr>nuID = drUserID d, nuTenantID = IDString t, nuEmail = e, nuPasswordHash = h, nuCreatedAt = drNow d\<rparr>
       (memCountUsers m t = Inr 0) = Inr m1"
    "issueTokens C K L d m1 (drUserID d) (FromStored (IDString t)) (drNow d) (coDefaultACR C) [] = (m', Inr tk)"
    by (rule Register_Inr [OF assms(4,2)]) (use assms(5,6) in simp)
  have m1: "usersByID m1 = AList.update (uID u) u (usersByID m)"
    "map_of (emailToID m1) (tenantKey (IDString t) e) = Some (uID u)"
    using r(6,7) by (auto simp: memCreateUser_def userOf_def alist_simps split: if_splits)
  have m': "usersByID m' = usersByID m1" "emailToID m' = emailToID m1"
    using issueTokens_users [OF assms(2) r(8)] by simp_all
  have "memUserByEmail m' t e = Inr u"
    using m' m1 by (simp add: memUserByEmail_def alist_simps)
  then have look: "userByEmail C m' t e = Inr u"
    using r(2) assms(2) by (simp add: userByEmail_def tenantGate_def memStore_def)
  have fs: "FromStored (uTenantID u) = t"
    using r(2,6) by (cases t) (auto simp: FromStored_def Single_def NewID_def Valid_def IDString_def)
  have vp: "VerifyPassword K h pw = None" "h \<noteq> ''''" using assms(7) r(3) by (auto simp: VerifyPassword_def)
  have login: "Login C K L d' m' t email pw =
      (let x = issueTokens C K L d' m' (uID u) t (drNow d') (coDefaultACR C) amrForLogin in
        (fst x, [LookupUser t e, BcryptVerify h pw],
           case snd x of Inl e \<Rightarrow> Inl (e, zeroUser) | Inr tokens \<Rightarrow> Inr (u, tokens)))"
    using r(1,2,6) look fs vp assms(8,9,10)
    by (auto simp: Login_def allowLogin_def askThrottle_def secondFactorRequiredAtLogin_def Let_def
        split: prod.splits sum.splits)
  have d: "distinct (map fst (usersByID m))"
    using assms(1) by (simp add: identMemOk_def usersOk_def indexOk_def)
  have cnt: "memCountUsers m t = Inr 0 \<longleftrightarrow> (\<forall>i v. map_of (usersByID m) i = Some v \<longrightarrow> uTenantID v \<noteq> IDString t)"
  proof -
    have "memCountUsers m t = Inr 0 \<longleftrightarrow> (\<forall>v\<in>set (map snd (usersByID m)). uTenantID v \<noteq> IDString t)"
      by (auto simp: memCountUsers_def filter_empty_conv)
    also have "\<dots> \<longleftrightarrow> (\<forall>i v. map_of (usersByID m) i = Some v \<longrightarrow> uTenantID v \<noteq> IDString t)"
      using in_snd_map_of [OF d] map_of_in_snd [of "usersByID m"] by metis
    finally show ?thesis .
  qed
  have "snd (Register C K L d' m' t email pw) = Inl ErrEmailTaken"
    using r(1-5) assms(2) m'(2) m1(2)
    by (auto simp: Register_def validatePassword_def HashPassword_def countUsers_def tenantGate_def memStore_def
        memCountUsers_def memCreateUser_def minPasswordLen_def)
  with login cnt m' m1 r(1,6) show ?thesis by (simp add: Let_def)
qed

theorem Register_then_Login_witness:
  "\<exists>m' u tk. Register (exampleCore\<lparr>coHooks := \<lparr>hkOnRegistered = Some (\<lambda>s _ _. s), hkOnProvisioned = None, hkOnTenantEntered = None\<rparr>\<rparr>)
       exampleCrypto exampleJWTLib exampleDraw exampleIdentMem (NewID ''initech'') ''b@x.io'' ''password'' = (m', Inr (u, tk)) \<and>
     uTenantID u = ''initech'' \<and> memCountUsers exampleIdentMem (NewID ''initech'') = Inr 0"
proof -
  let ?C = "exampleCore\<lparr>coHooks := \<lparr>hkOnRegistered = Some (\<lambda>s _ _. s), hkOnProvisioned = None, hkOnTenantEntered = None\<rparr>\<rparr>"
  have "isOk (snd (Register ?C exampleCrypto exampleJWTLib exampleDraw exampleIdentMem (NewID ''initech'') ''b@x.io'' ''password''))"
    by code_simp
  then obtain m' u tk where r: "Register ?C exampleCrypto exampleJWTLib exampleDraw exampleIdentMem
      (NewID ''initech'') ''b@x.io'' ''password'' = (m', Inr (u, tk))"
    by (cases "Register ?C exampleCrypto exampleJWTLib exampleDraw exampleIdentMem (NewID ''initech'') ''b@x.io'' ''password''")
      (auto simp: isl_def, metis sum.exhaust surj_pair)
  have "map_of (usersByID exampleIdentMem) (drUserID exampleDraw) = None"
    by (simp add: exampleIdentMem_def NewIdentMem_def exampleDraw_def)
  moreover have "memCountUsers exampleIdentMem (NewID ''initech'') = Inr 0" by code_simp
  ultimately show ?thesis
    using Register_then_Login [OF identReach_ok [OF exampleIdentMem_reach] _ _ r, of "\<lambda>s _ _. s"] r
    by (auto simp: example_defs NewID_def IDString_def)
qed

end
