(* ===== verification/Identity_Totp.thy ===== *)
theory Identity_Totp
  imports Identity_Rotation
begin

text \<open>
  Package \<^verbatim>\<open>identity\<close>, the second factor (\<^verbatim>\<open>totp.go\<close>): two-phase enrollment, the code and
  recovery-code checks, and disabling. The secret is stored sealed under the keyset of
  package \<^verbatim>\<open>crypto\<close>; the draws of one enrollment are the record \<^verbatim>\<open>EnrollDraw\<close>.
\<close>

section \<open>Operations\<close>

record TOTPEnrollment =
  teSecret :: string
  teOTPAuthURI :: string
  teRecoveryCodes :: "string list"

record EnrollDraw =
  edSecret :: "byte list option"
  edNonce :: "byte list option"
  edCodes :: "byte list option list"

definition bytesOf :: "string \<Rightarrow> byte list" where
  "bytesOf = map (\<lambda>c. of_nat (of_char c))"

definition stringOf :: "byte list \<Rightarrow> string" where
  "stringOf = map (\<lambda>b. char_of (unat b))"

definition StartTOTPEnrollment :: "'s Core \<Rightarrow> CryptoLib \<Rightarrow> EnrollDraw \<Rightarrow> 's \<Rightarrow> ID \<Rightarrow> string
    \<Rightarrow> 's \<times> (ident_err + TOTPEnrollment)" where
  "StartTOTPEnrollment C K ed s tenantID userID =
     (case coKeys C of
        None \<Rightarrow> (s, Inl ErrNoKeySet)
      | Some keys \<Rightarrow> (case userInTenant C s userID tenantID of
          Inl e \<Rightarrow> (s, Inl e)
        | Inr user \<Rightarrow>
            if uTOTPEnrolled user then (s, Inl ErrTOTPAlreadyEnrolled)
            else (case GenerateTOTPSecret (edSecret ed) of
                Inl _ \<Rightarrow> (s, Inl RandError)
              | Inr secret \<Rightarrow> (case Seal keys (edNonce ed) (bytesOf secret) of
                  Inl e \<Rightarrow> (s, Inl (KeySetError e))
                | Inr envelope \<Rightarrow> (case GenerateTOTPRecoveryCodes (edCodes ed) of
                    Inl _ \<Rightarrow> (s, Inl RandError)
                  | Inr codes \<Rightarrow> (case HashRecoveryCodes K codes of
                      Inl _ \<Rightarrow> (s, Inl HashError)
                    | Inr hashes \<Rightarrow> (case stSetTOTPPending (coStore C) s userID envelope hashes of
                        Inl e \<Rightarrow> (s, Inl e)
                      | Inr s' \<Rightarrow> (s', Inr \<lparr>teSecret = secret, teOTPAuthURI = OTPAuthURI secret (uEmail user),
                                            teRecoveryCodes = codes\<rparr>))))))))"

definition verifyAgainstEnvelope :: "KeySet \<Rightarrow> CryptoLib \<Rightarrow> go_time \<Rightarrow> byte list \<Rightarrow> string \<Rightarrow> ident_err option" where
  "verifyAgainstEnvelope keys K now envelope code =
     (case OpenEnvelope keys envelope of
        Inl e \<Rightarrow> Some (KeySetError e)
      | Inr plaintext \<Rightarrow> (case VerifyTOTPCode K now (stringOf plaintext) code of
          Some _ \<Rightarrow> Some ErrInvalidTOTP
        | None \<Rightarrow> None))"

definition CompleteTOTPEnrollment :: "'s Core \<Rightarrow> CryptoLib \<Rightarrow> JWTLib \<Rightarrow> Draw \<Rightarrow> 's \<Rightarrow> ID \<Rightarrow> string \<Rightarrow> string
    \<Rightarrow> 's \<times> (ident_err + User \<times> Tokens)" where
  "CompleteTOTPEnrollment C K L d s tenantID userID code =
     (case coKeys C of
        None \<Rightarrow> (s, Inl ErrNoKeySet)
      | Some keys \<Rightarrow> (case userInTenant C s userID tenantID of
          Inl e \<Rightarrow> (s, Inl e)
        | Inr user \<Rightarrow>
            if uTOTPEnrolled user then (s, Inl ErrTOTPAlreadyEnrolled)
            else (case stTOTPState (coStore C) s userID of
                Inl e \<Rightarrow> (s, Inl e)
              | Inr state \<Rightarrow>
                  if tsEnvelope state = [] then (s, Inl ErrInvalidTOTP)
                  else (case verifyAgainstEnvelope keys K (drNow d) (tsEnvelope state) code of
                      Some e \<Rightarrow> (s, Inl e)
                    | None \<Rightarrow> (case stEnableTOTP (coStore C) s userID (tsEnvelope state) (tsRecoveryCodeHashes state) (drNow d) of
                        Inl e \<Rightarrow> (s, Inl e)
                      | Inr s1 \<Rightarrow> (case issueTokens C K L d s1 userID tenantID (drNow d) (coDefaultACR C) amrForSecondFactor of
                            (s2, Inl e) \<Rightarrow> (s2, Inl e)
                          | (s2, Inr tokens) \<Rightarrow> (s2, Inr (user\<lparr>uTOTPEnrolled := True\<rparr>, tokens))))))))"

text \<open>\<^verbatim>\<open>VerifyTOTP\<close> writes nothing: it is the error or nothing.\<close>

definition VerifyTOTP :: "'s Core \<Rightarrow> CryptoLib \<Rightarrow> go_time \<Rightarrow> 's \<Rightarrow> ID \<Rightarrow> string \<Rightarrow> string \<Rightarrow> ident_err option" where
  "VerifyTOTP C K now s tenantID userID code =
     (case coKeys C of
        None \<Rightarrow> Some ErrNoKeySet
      | Some keys \<Rightarrow> (case allowSecondFactor C userID ThrottleStepTOTP of
          Some retryAfter \<Rightarrow> Some (ErrThrottled retryAfter)
        | None \<Rightarrow> (case userInTenant C s userID tenantID of
            Inl e \<Rightarrow> Some e
          | Inr _ \<Rightarrow> (case stTOTPState (coStore C) s userID of
              Inl e \<Rightarrow> Some e
            | Inr state \<Rightarrow>
                if \<not> tsEnrolled state \<or> tsEnvelope state = [] then Some ErrTOTPNotEnrolled
                else verifyAgainstEnvelope keys K now (tsEnvelope state) code))))"

definition VerifyRecoveryCode :: "'s Core \<Rightarrow> CryptoLib \<Rightarrow> 's \<Rightarrow> ID \<Rightarrow> string \<Rightarrow> string \<Rightarrow> 's \<times> ident_err option" where
  "VerifyRecoveryCode C K s tenantID userID code =
     (case allowSecondFactor C userID ThrottleStepRecovery of
        Some retryAfter \<Rightarrow> (s, Some (ErrThrottled retryAfter))
      | None \<Rightarrow> (case userInTenant C s userID tenantID of
          Inl e \<Rightarrow> (s, Some e)
        | Inr _ \<Rightarrow> (case stTOTPState (coStore C) s userID of
            Inl e \<Rightarrow> (s, Some e)
          | Inr state \<Rightarrow>
              if \<not> tsEnrolled state then (s, Some ErrTOTPNotEnrolled)
              else (case MatchRecoveryCode K code (tsRecoveryCodeHashes state) of
                  None \<Rightarrow> (s, Some ErrInvalidTOTP)
                | Some matched \<Rightarrow>
                    (case stSetRecoveryCodeHashes (coStore C) s userID
                        (filter (\<lambda>h. h \<noteq> matched) (tsRecoveryCodeHashes state)) of
                      Inl e \<Rightarrow> (s, Some e)
                    | Inr s' \<Rightarrow> (s', None))))))"

definition DisableTOTP :: "'s Core \<Rightarrow> CryptoLib \<Rightarrow> go_time \<Rightarrow> 's \<Rightarrow> ID \<Rightarrow> string \<Rightarrow> string \<Rightarrow> 's \<times> ident_err option" where
  "DisableTOTP C K now s tenantID userID currentCode =
     (case VerifyTOTP C K now s tenantID userID currentCode of
        Some e \<Rightarrow> (s, Some e)
      | None \<Rightarrow> (case stClearTOTP (coStore C) s userID of
          Inl e \<Rightarrow> (s, Some e)
        | Inr s' \<Rightarrow> (s', None)))"

section \<open>Lemmas\<close>

lemma stringOf_bytesOf [simp]: "stringOf (bytesOf s) = s"
proof -
  have "unat ((of_nat (of_char c)) :: byte) = (of_char c :: nat)" for c :: char
  proof -
    have "(of_char c :: nat) < 256" using nat_of_char_less_256 [of c] by simp
    then show ?thesis by (simp add: unat_of_nat take_bit_nat_eq_self)
  qed
  then show ?thesis by (simp add: stringOf_def bytesOf_def o_def)
qed

lemma Seal_Inr_open:
  assumes "Seal keys (Some nonce) pt = Inr e" "\<forall>i a. map_of (ksKeys keys) i = Some a \<longrightarrow> aeadOk a \<and> length nonce = NonceSize a"
  shows "OpenEnvelope keys e = Inr pt \<and> e \<noteq> []"
proof -
  obtain a where a: "map_of (ksKeys keys) (ksWriteKeyID keys) = Some a"
    "e = ksWriteKeyID keys # nonce @ aeadSeal a nonce pt"
    using assms(1) by (auto simp: Seal_def split: option.splits)
  with assms(2) have ok: "aeadOk a" "length nonce = NonceSize a" by blast+
  then have "aeadOpen a nonce (aeadSeal a nonce pt) = Some pt" by (simp add: aeadOk_def)
  with a ok show ?thesis by (simp add: OpenEnvelope_def)
qed

lemma totpOf_setEnrolledFlag [simp]: "totpOf (setEnrolledFlag u b m) i = totpOf m i"
  by (simp add: setEnrolledFlag_def totpOf_def split: option.split)

lemma setEnrolledFlag_users:
  "map_of (usersByID (setEnrolledFlag u b m)) i =
     (if i = u then map_option (\<lambda>x. x\<lparr>uTOTPEnrolled := b\<rparr>) (map_of (usersByID m) i) else map_of (usersByID m) i)"
  by (auto simp: setEnrolledFlag_def alist_simps split: option.split)

lemma firstMatch_Some: "firstMatch K c hs = Some h \<Longrightarrow> h \<in> set hs \<and> bcCompare K h c"
  by (induction hs) (auto split: if_splits)

lemma firstMatch_None: "firstMatch K c hs = None \<longleftrightarrow> (\<forall>h\<in>set hs. \<not> bcCompare K h c)"
  by (induction hs) auto

lemma mem_userInTenant:
  "coStore C = memStore \<Longrightarrow> userInTenant C m u t = (case map_of (usersByID m) u of None \<Rightarrow> Inl IErrNotFound
      | Some v \<Rightarrow> if FromStored (uTenantID v) \<noteq> t then Inl IErrNotFound else Inr v)"
  by (simp add: userInTenant_def memStore_def memUserByID_def split: option.split)

lemma totpOf_update: "totpOf (m\<lparr>totp := AList.update u s (totp m)\<rparr>) i = (if i = u then s else totpOf m i)"
  by (simp add: totpOf_def alist_simps)

text \<open>What a successful or refused recovery-code check comes down to on \<^verbatim>\<open>MemStore\<close>.\<close>

lemma mem_VerifyRecoveryCode:
  assumes "coStore C = memStore" "allowSecondFactor C u ThrottleStepRecovery = None"
    "map_of (usersByID m) u = Some v" "FromStored (uTenantID v) = t" "tsEnrolled (totpOf m u)"
  shows "VerifyRecoveryCode C K m t u code =
    (case MatchRecoveryCode K code (tsRecoveryCodeHashes (totpOf m u)) of
       None \<Rightarrow> (m, Some ErrInvalidTOTP)
     | Some h \<Rightarrow> (m\<lparr>totp := AList.update u ((totpOf m u)\<lparr>tsRecoveryCodeHashes :=
           filter (\<lambda>x. x \<noteq> h) (tsRecoveryCodeHashes (totpOf m u))\<rparr>) (totp m)\<rparr>, None))"
  using assms by (simp add: VerifyRecoveryCode_def mem_userInTenant)
    (simp add: memStore_def memTOTPState_def memSetRecoveryCodeHashes_def split: option.split)

section \<open>Properties\<close>

text \<open>
  C9. A recovery code works once. A check that succeeds was for an enrolled user of the
  tenant asked about and matched a stored hash; that hash is gone afterwards and no other
  user's second factor changed. Presenting the code again is refused, unless a second
  stored hash accepts it too. A refused check writes nothing, in any store.
\<close>

theorem VerifyRecoveryCode_single_use:
  assumes "coStore C = memStore"
  shows "(VerifyRecoveryCode C K m t u code = (m', None) \<longrightarrow>
      (\<exists>v h. map_of (usersByID m) u = Some v \<and> FromStored (uTenantID v) = t \<and> tsEnrolled (totpOf m u) \<and>
         h \<in> set (tsRecoveryCodeHashes (totpOf m u)) \<and> bcCompare K h (normaliseRecoveryCode code) \<and>
         tsRecoveryCodeHashes (totpOf m' u) = filter (\<lambda>x. x \<noteq> h) (tsRecoveryCodeHashes (totpOf m u)) \<and>
         (\<forall>i. i \<noteq> u \<longrightarrow> totpOf m' i = totpOf m i) \<and> usersByID m' = usersByID m \<and>
         ((\<forall>x\<in>set (tsRecoveryCodeHashes (totpOf m u)). bcCompare K x (normaliseRecoveryCode code) \<longrightarrow> x = h) \<longrightarrow>
            VerifyRecoveryCode C K m' t u code = (m', Some ErrInvalidTOTP)))) \<and>
    (VerifyRecoveryCode D K s t u code = (s', Some e) \<longrightarrow> s' = s)"
proof (rule conjI; rule impI)
  assume a: "VerifyRecoveryCode C K m t u code = (m', None)"
  have nt: "allowSecondFactor C u ThrottleStepRecovery = None"
    using a by (auto simp: VerifyRecoveryCode_def split: option.splits)
  obtain v where v: "map_of (usersByID m) u = Some v" "FromStored (uTenantID v) = t"
    using a nt assms by (auto simp: VerifyRecoveryCode_def mem_userInTenant split: option.splits if_splits)
  have en: "tsEnrolled (totpOf m u)"
    using a nt assms v by (auto simp: VerifyRecoveryCode_def mem_userInTenant memStore_def memTOTPState_def split: if_splits)
  note run = mem_VerifyRecoveryCode [OF assms nt v en, of K code]
  obtain h where h: "MatchRecoveryCode K code (tsRecoveryCodeHashes (totpOf m u)) = Some h"
    using a run by (auto split: option.splits)
  let ?hs = "filter (\<lambda>x. x \<noteq> h) (tsRecoveryCodeHashes (totpOf m u))"
  have m': "m' = m\<lparr>totp := AList.update u ((totpOf m u)\<lparr>tsRecoveryCodeHashes := ?hs\<rparr>) (totp m)\<rparr>"
    using a run h by simp
  have mh: "h \<in> set (tsRecoveryCodeHashes (totpOf m u))" "bcCompare K h (normaliseRecoveryCode code)"
    using h firstMatch_Some by (auto simp: MatchRecoveryCode_def)
  have t': "totpOf m' u = (totpOf m u)\<lparr>tsRecoveryCodeHashes := ?hs\<rparr>" "usersByID m' = usersByID m"
    "\<And>i. i \<noteq> u \<Longrightarrow> totpOf m' i = totpOf m i"
    by (simp_all add: m' totpOf_update)
  have "VerifyRecoveryCode C K m' t u code = (m', Some ErrInvalidTOTP)"
    if "\<forall>x\<in>set (tsRecoveryCodeHashes (totpOf m u)). bcCompare K x (normaliseRecoveryCode code) \<longrightarrow> x = h"
  proof -
    have "firstMatch K (normaliseRecoveryCode code) ?hs = None" using that by (auto simp: firstMatch_None)
    then have "MatchRecoveryCode K code (tsRecoveryCodeHashes (totpOf m' u)) = None"
      by (simp add: MatchRecoveryCode_def t')
    with mem_VerifyRecoveryCode [OF assms nt, of m' v t K code] v en t' show ?thesis by simp
  qed
  with v en mh t' show "\<exists>v h. map_of (usersByID m) u = Some v \<and> FromStored (uTenantID v) = t \<and> tsEnrolled (totpOf m u) \<and>
         h \<in> set (tsRecoveryCodeHashes (totpOf m u)) \<and> bcCompare K h (normaliseRecoveryCode code) \<and>
         tsRecoveryCodeHashes (totpOf m' u) = filter (\<lambda>x. x \<noteq> h) (tsRecoveryCodeHashes (totpOf m u)) \<and>
         (\<forall>i. i \<noteq> u \<longrightarrow> totpOf m' i = totpOf m i) \<and> usersByID m' = usersByID m \<and>
         ((\<forall>x\<in>set (tsRecoveryCodeHashes (totpOf m u)). bcCompare K x (normaliseRecoveryCode code) \<longrightarrow> x = h) \<longrightarrow>
            VerifyRecoveryCode C K m' t u code = (m', Some ErrInvalidTOTP))"
    by (intro exI [of _ v] exI [of _ h]) simp
next
  assume "VerifyRecoveryCode D K s t u code = (s', Some e)"
  then show "s' = s" by (auto simp: VerifyRecoveryCode_def split: option.splits sum.splits if_splits)
qed

definition exampleTotpMem :: IdentMem where
  "exampleTotpMem = exampleIdentMem\<lparr>totp := [(''u1'',
     \<lparr>tsEnrolled = True, tsEnvelope = [1], tsRecoveryCodeHashes = [''hBBBBB-BBBBB'', ''hAAAAA-AAAAA'']\<rparr>)]\<rparr>"

theorem VerifyRecoveryCode_single_use_witness:
  "\<exists>m'. VerifyRecoveryCode exampleCore exampleCrypto exampleTotpMem (NewID ''acme'') ''u1'' ''aaaaa aaaaa'' = (m', None) \<and>
     VerifyRecoveryCode exampleCore exampleCrypto m' (NewID ''acme'') ''u1'' ''aaaaa aaaaa'' = (m', Some ErrInvalidTOTP)"
proof -
  have "snd (VerifyRecoveryCode exampleCore exampleCrypto exampleTotpMem (NewID ''acme'') ''u1'' ''aaaaa aaaaa'') = None"
    by code_simp
  then obtain m' where a: "VerifyRecoveryCode exampleCore exampleCrypto exampleTotpMem (NewID ''acme'') ''u1'' ''aaaaa aaaaa''
      = (m', None)" by (metis prod.collapse)
  have n: "normaliseRecoveryCode ''aaaaa aaaaa'' = ''AAAAA-AAAAA''" by code_simp
  have t: "tsRecoveryCodeHashes (totpOf exampleTotpMem ''u1'') = [''hBBBBB-BBBBB'', ''hAAAAA-AAAAA'']"
    by (simp add: totpOf_def exampleTotpMem_def)
  have s: "coStore exampleCore = memStore" by (simp add: example_defs)
  have "\<forall>x\<in>set [''hBBBBB-BBBBB'', ''hAAAAA-AAAAA'']. bcCompare exampleCrypto x ''AAAAA-AAAAA'' \<longrightarrow> x = ''hAAAAA-AAAAA''"
    by (simp add: exampleCrypto_def)
  then show ?thesis
    using VerifyRecoveryCode_single_use [OF s, of exampleCrypto exampleTotpMem "NewID ''acme''" "''u1''" "''aaaaa aaaaa''" m',
        THEN conjunct1, THEN mp, OF a] a
    unfolding n t by (auto simp: exampleCrypto_def)
qed

lemma StartTOTPEnrollment_Inr:
  assumes "StartTOTPEnrollment C K ed m t u = (m1, Inr enr)" "coStore C = memStore"
  obtains keys v env hashes where "coKeys C = Some keys" "map_of (usersByID m) u = Some v" "FromStored (uTenantID v) = t"
    "\<not> uTOTPEnrolled v" "Seal keys (edNonce ed) (bytesOf (teSecret enr)) = Inr env"
    "HashRecoveryCodes K (teRecoveryCodes enr) = Inr hashes"
    "m1 = m\<lparr>totp := AList.update u \<lparr>tsEnrolled = False, tsEnvelope = env, tsRecoveryCodeHashes = hashes\<rparr> (totp m)\<rparr>"
proof -
  obtain keys where k: "coKeys C = Some keys"
    using assms(1) by (auto simp: StartTOTPEnrollment_def split: option.splits)
  obtain v where v: "map_of (usersByID m) u = Some v" "FromStored (uTenantID v) = t"
    using assms k by (auto simp: StartTOTPEnrollment_def mem_userInTenant split: option.splits if_splits)
  have n: "\<not> uTOTPEnrolled v"
    using assms k v by (auto simp: StartTOTPEnrollment_def mem_userInTenant)
  show ?thesis
    using assms k v n that
    by (auto simp: StartTOTPEnrollment_def mem_userInTenant memStore_def memSetTOTPPending_def split: sum.splits)
qed

lemma issueTokens_totp:
  assumes "coStore C = memStore" "issueTokens C K L d m i t authTime acr amr = (m', x)"
  shows "totp m' = totp m"
  using assms unfolding issueTokens_def
  by (auto simp: memStore_def memCreateRefreshSession_def Let_def split: sum.splits if_splits)

text \<open>
  Two-phase enrollment. Starting it stages a sealed secret for an unenrolled user of the
  tenant and turns nothing on: no code is accepted yet as a second factor. It completes only with a code the
  one-time-password check accepts for exactly the secret that was shown; any other code
  is refused and leaves the staged secret for a retry. Once complete, the user is
  enrolled, with the same secret and the recovery hashes of the codes shown, later codes
  are judged against that secret, and enrolling again is refused.
\<close>

theorem TOTP_enrollment:
  assumes "StartTOTPEnrollment C K ed m t u = (m1, Inr enr)" "coStore C = memStore" "coKeys C = Some keys"
    "edNonce ed = Some nonce" "\<forall>i a. map_of (ksKeys keys) i = Some a \<longrightarrow> aeadOk a \<and> length nonce = NonceSize a"
    "allowSecondFactor C u ThrottleStepTOTP = None"
  shows "(\<exists>hashes. HashRecoveryCodes K (teRecoveryCodes enr) = Inr hashes \<and>
      tsRecoveryCodeHashes (totpOf m1 u) = hashes) \<and> usersByID m1 = usersByID m \<and> \<not> tsEnrolled (totpOf m1 u) \<and>
    VerifyTOTP C K now m1 t u code = Some ErrTOTPNotEnrolled \<and>
    (VerifyTOTPCode K (drNow d) (teSecret enr) code \<noteq> None \<longrightarrow>
       CompleteTOTPEnrollment C K L d m1 t u code = (m1, Inl ErrInvalidTOTP)) \<and>
    (CompleteTOTPEnrollment C K L d m1 t u code = (m2, Inr (v, tk)) \<longrightarrow>
       VerifyTOTPCode K (drNow d) (teSecret enr) code = None \<and> uTOTPEnrolled v \<and>
       map_of (usersByID m2) u = Some v \<and> tsEnrolled (totpOf m2 u) \<and>
       tsRecoveryCodeHashes (totpOf m2 u) = tsRecoveryCodeHashes (totpOf m1 u) \<and>
       (VerifyTOTP C K now m2 t u code' = None \<longleftrightarrow> VerifyTOTPCode K now (teSecret enr) code' = None) \<and>
       (\<exists>e. StartTOTPEnrollment C K ed' m2 t u = (m2, Inl e) \<and> e = ErrTOTPAlreadyEnrolled))"
proof -
  obtain v0 env hashes where s: "map_of (usersByID m) u = Some v0" "FromStored (uTenantID v0) = t" "\<not> uTOTPEnrolled v0"
    "Seal keys (Some nonce) (bytesOf (teSecret enr)) = Inr env" "HashRecoveryCodes K (teRecoveryCodes enr) = Inr hashes"
    "m1 = m\<lparr>totp := AList.update u \<lparr>tsEnrolled = False, tsEnvelope = env, tsRecoveryCodeHashes = hashes\<rparr> (totp m)\<rparr>"
    using StartTOTPEnrollment_Inr [OF assms(1,2)] assms(3,4) by (metis option.inject)
  have opn: "OpenEnvelope keys env = Inr (bytesOf (teSecret enr))" "env \<noteq> []"
    using Seal_Inr_open [OF s(4)] assms(5) by blast+
  have vae: "verifyAgainstEnvelope keys K n env c = (if VerifyTOTPCode K n (teSecret enr) c = None then None else Some ErrInvalidTOTP)" for n c
    using opn(1) by (simp add: verifyAgainstEnvelope_def split: option.split)
  have u1: "usersByID m1 = usersByID m" "totpOf m1 u = \<lparr>tsEnrolled = False, tsEnvelope = env, tsRecoveryCodeHashes = hashes\<rparr>"
    by (simp_all add: s(6) totpOf_update)
  have st1: "stTOTPState (coStore C) m1 u = Inr (totpOf m1 u)" "userInTenant C m1 u t = Inr v0"
    using assms(2) s u1 by (simp_all add: memStore_def memTOTPState_def mem_userInTenant)
  have ver1: "VerifyTOTP C K now m1 t u code = Some ErrTOTPNotEnrolled"
    using assms(3,6) st1 u1 by (simp add: VerifyTOTP_def)
  have bad: "CompleteTOTPEnrollment C K L d m1 t u code = (m1, Inl ErrInvalidTOTP)"
    if "VerifyTOTPCode K (drNow d) (teSecret enr) code \<noteq> None"
    using that assms(3) st1 u1 opn(2) s(3) by (auto simp: CompleteTOTPEnrollment_def vae)
  have good: "VerifyTOTPCode K (drNow d) (teSecret enr) code = None \<and> uTOTPEnrolled v \<and>
       map_of (usersByID m2) u = Some v \<and> tsEnrolled (totpOf m2 u) \<and>
       tsRecoveryCodeHashes (totpOf m2 u) = tsRecoveryCodeHashes (totpOf m1 u) \<and>
       (VerifyTOTP C K now m2 t u code' = None \<longleftrightarrow> VerifyTOTPCode K now (teSecret enr) code' = None) \<and>
       (\<exists>e. StartTOTPEnrollment C K ed' m2 t u = (m2, Inl e) \<and> e = ErrTOTPAlreadyEnrolled)"
    if c: "CompleteTOTPEnrollment C K L d m1 t u code = (m2, Inr (v, tk))"
  proof -
    have ok: "VerifyTOTPCode K (drNow d) (teSecret enr) code = None" using bad c by force
    obtain me where me: "memEnableTOTP m1 u env hashes (drNow d) = Inr me" by (simp add: memEnableTOTP_def)
    have it: "issueTokens C K L d me u t (drNow d) (coDefaultACR C) amrForSecondFactor = (m2, Inr tk)"
      and v: "v = v0\<lparr>uTOTPEnrolled := True\<rparr>"
      using c ok me assms(2,3) st1 u1 opn(2) s(3)
      by (auto simp: CompleteTOTPEnrollment_def vae memStore_def split: prod.splits sum.splits)
    have mu: "map_of (usersByID me) u = Some v"
      using me s(1) u1(1) v by (auto simp: memEnableTOTP_def setEnrolledFlag_users)
    have mt: "totpOf me u = \<lparr>tsEnrolled = True, tsEnvelope = env, tsRecoveryCodeHashes = hashes\<rparr>"
      using me by (auto simp: memEnableTOTP_def totpOf_update)
    have m2: "map_of (usersByID m2) u = Some v" "totpOf m2 u = totpOf me u"
      using issueTokens_users [OF assms(2) it] issueTokens_totp [OF assms(2) it] mu by (simp_all add: totpOf_def)
    have st2: "stTOTPState (coStore C) m2 u = Inr (totpOf m2 u)" "userInTenant C m2 u t = Inr v"
      using assms(2) m2 s(2) v by (simp_all add: memStore_def memTOTPState_def mem_userInTenant)
    have "VerifyTOTP C K now m2 t u code' = None \<longleftrightarrow> VerifyTOTPCode K now (teSecret enr) code' = None"
      using assms(3,6) st2 m2(2) mt opn(2) by (simp add: VerifyTOTP_def vae)
    moreover have "StartTOTPEnrollment C K ed' m2 t u = (m2, Inl ErrTOTPAlreadyEnrolled)"
      using assms(3) st2 v by (simp add: StartTOTPEnrollment_def)
    ultimately show ?thesis using ok v m2 mt u1 by simp
  qed
  from s(5) u1 ver1 bad good show ?thesis by simp
qed

definition exampleKeys :: KeySet where
  "exampleKeys = \<lparr>ksKeys = [(1, toyAEAD 7)], ksWriteKeyID = 1\<rparr>"

definition exampleEnroll :: EnrollDraw where
  "exampleEnroll = \<lparr>edSecret = Some [1, 2, 3, 4, 5], edNonce = Some [9], edCodes = replicate 10 (Some (replicate 6 0))\<rparr>"

theorem TOTP_enrollment_witness:
  "\<exists>m1 enr. StartTOTPEnrollment (exampleCore\<lparr>coKeys := Some exampleKeys\<rparr>) exampleCrypto exampleEnroll exampleIdentMem
       (NewID ''acme'') ''u1'' = (m1, Inr enr) \<and>
     VerifyTOTP (exampleCore\<lparr>coKeys := Some exampleKeys\<rparr>) exampleCrypto 100 m1 (NewID ''acme'') ''u1'' ''123456'' = Some ErrTOTPNotEnrolled"
proof -
  let ?C = "exampleCore\<lparr>coKeys := Some exampleKeys\<rparr>"
  have "isOk (snd (StartTOTPEnrollment ?C exampleCrypto exampleEnroll exampleIdentMem (NewID ''acme'') ''u1''))"
    by code_simp
  then obtain m1 enr where a: "StartTOTPEnrollment ?C exampleCrypto exampleEnroll exampleIdentMem (NewID ''acme'') ''u1''
      = (m1, Inr enr)" by (metis isl_def prod.collapse sum.exhaust)
  have "\<forall>i a. map_of (ksKeys exampleKeys) i = Some a \<longrightarrow> aeadOk a \<and> length [9 :: byte] = NonceSize a"
    by (auto simp: exampleKeys_def toyAEAD_ok)
  moreover have "coStore ?C = memStore" "coKeys ?C = Some exampleKeys" "edNonce exampleEnroll = Some [9]"
    "allowSecondFactor ?C ''u1'' ThrottleStepTOTP = None"
    by (simp_all add: example_defs exampleEnroll_def allowSecondFactor_def askThrottle_def)
  ultimately show ?thesis
    using TOTP_enrollment [OF a] a by blast
qed

end
