(* ===== verification/Identity_Linking.thy ===== *)
theory Identity_Linking
  imports Identity_Rotation
begin

text \<open>
  Package \<^verbatim>\<open>identity\<close>, external credentials (\<^verbatim>\<open>linking.go\<close>): resolving, provisioning,
  linking and unlinking. Each call of the store is one atomic step. Other callers may act
  between two steps of \<^verbatim>\<open>Link\<close>, so those points are arguments: \<^verbatim>\<open>e1\<close> and \<^verbatim>\<open>e2\<close> are what the
  rest of the system does to the store before the insert and before the refetch.
\<close>

section \<open>Operations\<close>

text \<open>\<^verbatim>\<open>None\<close> is \<^verbatim>\<open>found=false\<close> with a nil error.\<close>

definition ResolveByIdentity :: "'s Core \<Rightarrow> Draw \<Rightarrow> 's \<Rightarrow> ID \<Rightarrow> string \<Rightarrow> string
    \<Rightarrow> 's \<times> (ident_err + (User \<times> Identity) option)" where
  "ResolveByIdentity C d s tenantID provider subject =
     (case identityByProviderSubject C s tenantID provider subject of
        Inl e \<Rightarrow>
          if e = ErrTenantRequired then (s, Inl e)
          else if e = IErrNotFound then (s, Inr None)
          else (s, Inl e)
      | Inr ident \<Rightarrow> (case stUserByID (coStore C) s (inUserID ident) of
          Inl e \<Rightarrow> (s, Inl e)
        | Inr user \<Rightarrow>
            if \<not> uActive user then (s, Inl ErrUserInactive)
            else (case stTouchIdentityLastLogin (coStore C) s (inID ident) (drNow d) of
                Inl e \<Rightarrow> (s, Inl e)
              | Inr s' \<Rightarrow> (s', Inr (Some (user, ident\<lparr>inLastLoginAt := Some (drNow d)\<rparr>))))))"

definition ProvisionUserWithIdentity :: "'s Core \<Rightarrow> Draw \<Rightarrow> 's \<Rightarrow> ID \<Rightarrow> string \<Rightarrow> string \<Rightarrow> string
    \<Rightarrow> 's \<times> (ident_err + User \<times> Identity)" where
  "ProvisionUserWithIdentity C d s tenantID email provider subject =
     (case countUsers C s tenantID of
        Inl e \<Rightarrow> (s, Inl e)
      | Inr count \<Rightarrow>
          let first = (count = 0);
              nu = \<lparr>nuID = drUserID d, nuTenantID = IDString tenantID, nuEmail = email, nuPasswordHash = '''',
                    nuCreatedAt = drNow d\<rparr>;
              ni = \<lparr>niID = drRowID d, niUserID = drUserID d, niTenantID = nuTenantID nu, niProvider = provider,
                    niSubject = subject, niLinkedAt = drNow d, niLastLoginAt = Some (drNow d)\<rparr> in
          (case stProvisionUserWithIdentity (coStore C) s nu ni first of
             Inl e \<Rightarrow> (s, Inl e)
           | Inr (s1, user, ident) \<Rightarrow>
               ((case hkOnProvisioned (coHooks C) of None \<Rightarrow> s1 | Some hook \<Rightarrow> hook s1 user ident first),
                Inr (user, ident))))"

definition Link :: "'s Core \<Rightarrow> Draw \<Rightarrow> ('s \<Rightarrow> 's) \<Rightarrow> ('s \<Rightarrow> 's) \<Rightarrow> 's \<Rightarrow> ID \<Rightarrow> string \<Rightarrow> string \<Rightarrow> string
    \<Rightarrow> 's \<times> (ident_err + Identity)" where
  "Link C d e1 e2 s tenantID userID provider subject =
     (case userInTenant C s userID tenantID of
        Inl e \<Rightarrow> (s, Inl e)
      | Inr target \<Rightarrow>
          let lookup = (\<lambda>s. stIdentityByProviderSubject (coStore C) s (FromStored (uTenantID target)) provider subject) in
          (case lookup s of
             Inr existing \<Rightarrow>
               if inUserID existing = userID then (s, Inr existing) else (s, Inl ErrLinkConflict)
           | Inl e \<Rightarrow>
               if e \<noteq> IErrNotFound then (s, Inl e)
               else
                 let ni = \<lparr>niID = drRowID d, niUserID = userID, niTenantID = uTenantID target, niProvider = provider,
                           niSubject = subject, niLinkedAt = drNow d, niLastLoginAt = None\<rparr>;
                     s1 = e1 s in
                 (case stInsertIdentity (coStore C) s1 ni of
                    Inr s2 \<Rightarrow> (s2, Inr (identityOf ni))
                  | Inl e \<Rightarrow>
                      if e \<noteq> ErrIdentityTaken then (s1, Inl e)
                      else
                        let s2 = e2 s1 in
                        (case lookup s2 of
                           Inl e \<Rightarrow> if e = IErrNotFound then (s2, Inl ErrLinkConflict) else (s2, Inl e)
                         | Inr raced \<Rightarrow>
                             if inUserID raced = userID then (s2, Inr raced) else (s2, Inl ErrLinkConflict)))))"

text \<open>Everything \<^verbatim>\<open>Unlink\<close> decides before it deletes.\<close>

definition unlinkAllowed :: "'s Core \<Rightarrow> 's \<Rightarrow> ID \<Rightarrow> string \<Rightarrow> string \<Rightarrow> ident_err option" where
  "unlinkAllowed C s tenantID userID identityID =
     (case stIdentityByID (coStore C) s identityID of
        Inl e \<Rightarrow> if e = IErrNotFound then Some IErrNotFound else Some e
      | Inr ident \<Rightarrow>
          if inUserID ident \<noteq> userID then Some IErrNotFound
          else (case userInTenant C s userID tenantID of
              Inl e \<Rightarrow> Some e
            | Inr user \<Rightarrow>
                if uPasswordHash user = ''''
                then (case stCountIdentitiesByUserID (coStore C) s userID of
                    Inl e \<Rightarrow> Some e
                  | Inr count \<Rightarrow> if count \<le> 1 then Some ErrLastAuthMethod else None)
                else None))"

definition unlinkDelete :: "'s Core \<Rightarrow> 's \<Rightarrow> string \<Rightarrow> 's \<times> ident_err option" where
  "unlinkDelete C s identityID =
     (case stDeleteIdentity (coStore C) s identityID of Inl e \<Rightarrow> (s, Some e) | Inr s' \<Rightarrow> (s', None))"

definition Unlink :: "'s Core \<Rightarrow> 's \<Rightarrow> ID \<Rightarrow> string \<Rightarrow> string \<Rightarrow> 's \<times> ident_err option" where
  "Unlink C s tenantID userID identityID =
     (case unlinkAllowed C s tenantID userID identityID of
        Some e \<Rightarrow> (s, Some e)
      | None \<Rightarrow> unlinkDelete C s identityID)"

definition ListIdentities :: "'s Core \<Rightarrow> 's \<Rightarrow> ID \<Rightarrow> string \<Rightarrow> ident_err + Identity list" where
  "ListIdentities C s tenantID userID =
     (case userInTenant C s userID tenantID of
        Inl e \<Rightarrow> Inl e
      | Inr _ \<Rightarrow> stIdentitiesByUserID (coStore C) s userID)"

section \<open>Lemmas\<close>

text \<open>The identities a user holds.\<close>

definition linkedIDs :: "IdentMem \<Rightarrow> string \<Rightarrow> string set" where
  "linkedIDs m u = {i. \<exists>x. map_of (identities m) i = Some x \<and> inUserID x = u}"

lemma memCount_linked:
  "identMemOk m \<Longrightarrow> memCountIdentitiesByUserID m u = Inr (int (card (linkedIDs m u)))"
  using count_rows [of "identities m" "\<lambda>x. inUserID x = u"]
  by (simp add: memCountIdentitiesByUserID_def linkedIDs_def identMemOk_def identitiesOk_def)

lemma finite_linkedIDs: "finite (linkedIDs m u)"
proof -
  have "linkedIDs m u \<subseteq> dom (map_of (identities m))" by (auto simp: linkedIDs_def)
  then show ?thesis by (rule finite_subset) (rule finite_dom_map_of)
qed

lemma linkedIDs_delete:
  "linkedIDs (m\<lparr>identities := AList.delete i (identities m)\<rparr>) u = linkedIDs m u - {i}"
  by (auto simp: linkedIDs_def alist_simps)

lemma mem_userInTenant_Inr:
  "coStore C = memStore \<Longrightarrow> userInTenant C m u t = Inr v \<longleftrightarrow>
     map_of (usersByID m) u = Some v \<and> FromStored (uTenantID v) = t"
  by (simp add: userInTenant_Inr memStore_def)

lemma Unlink_None:
  assumes "identMemOk m" "coStore C = memStore" "Unlink C m t u i = (m', None)"
  shows "\<exists>v x. map_of (usersByID m) u = Some v \<and> FromStored (uTenantID v) = t \<and>
    map_of (identities m) i = Some x \<and> inUserID x = u \<and>
    (uPasswordHash v = '''' \<longrightarrow> 1 < card (linkedIDs m u)) \<and>
    m' = m\<lparr>identities := AList.delete i (identities m)\<rparr>"
proof -
  have ua: "unlinkAllowed C m t u i = None"
    using assms(3) by (auto simp: Unlink_def split: option.splits)
  obtain x where x: "map_of (identities m) i = Some x" "inUserID x = u"
    using ua assms(2) by (auto simp: unlinkAllowed_def memStore_def memIdentityByID_def split: option.splits if_splits)
  obtain v where v: "userInTenant C m u t = Inr v"
    using ua x assms(2) by (cases "userInTenant C m u t") (auto simp: unlinkAllowed_def memStore_def memIdentityByID_def)
  have "uPasswordHash v = '''' \<longrightarrow> 1 < card (linkedIDs m u)"
    using ua x v assms(2) memCount_linked [OF assms(1), of u]
    by (auto simp: unlinkAllowed_def memStore_def memIdentityByID_def split: if_splits)
  moreover have "m' = m\<lparr>identities := AList.delete i (identities m)\<rparr>"
    using assms(2,3) ua by (simp add: Unlink_def unlinkDelete_def memStore_def memDeleteIdentity_def)
  ultimately show ?thesis using x v mem_userInTenant_Inr [OF assms(2)] by blast
qed

lemma memInsertIdentity_Inr:
  assumes "identMemOk m" "map_of (identities m) (niID ni) = None" "memInsertIdentity m ni = Inr m'"
  shows "identMemOk m' \<and> m' = m\<lparr>identities := AList.update (niID ni) (identityOf ni) (identities m)\<rparr>"
  using assms by (auto simp: memInsertIdentity_def identMemOk_def identitiesOk_add split: if_splits)

lemma memInsertIdentity_Inl: "memInsertIdentity m ni = Inl e \<Longrightarrow> e = ErrIdentityTaken"
  by (auto simp: memInsertIdentity_def split: if_splits)

lemma memIdentity_lookup:
  "identMemOk m \<Longrightarrow> memIdentityByProviderSubject m t p s = Inr x \<longleftrightarrow>
     map_of (identities m) (inID x) = Some x \<and> inTenantID x = IDString t \<and> inProvider x = p \<and> inSubject x = s"
  by (simp add: memIdentityByProviderSubject_Inr identMemOk_def matchesIdentity_def)

text \<open>The three ways \<^verbatim>\<open>Link\<close> ends well, and what it refuses with, on \<^verbatim>\<open>MemStore\<close>.\<close>

lemma Link_cases:
  assumes ok: "identMemOk m" and inv: "\<And>x. identMemOk x \<Longrightarrow> identMemOk (e1 x)" "\<And>x. identMemOk x \<Longrightarrow> identMemOk (e2 x)"
    and C: "coStore C = memStore" and fresh: "map_of (identities (e1 m)) (drRowID d) = None"
    and v: "map_of (usersByID m) u = Some v" "FromStored (uTenantID v) = t"
    and l: "Link C d e1 e2 m t u p s = (m', r)"
  shows "identMemOk m' \<and> ((\<exists>x. r = Inr x \<and> memIdentityByProviderSubject m' t p s = Inr x \<and> inUserID x = u) \<or> r = Inl ErrLinkConflict)"
proof -
  let ?look = "\<lambda>m. memIdentityByProviderSubject m t p s"
  let ?ni = "\<lparr>niID = drRowID d, niUserID = u, niTenantID = uTenantID v, niProvider = p, niSubject = s,
              niLinkedAt = drNow d, niLastLoginAt = None\<rparr>"
  have uit: "userInTenant C m u t = Inr v" using v by (simp add: mem_userInTenant_Inr [OF C])
  have vt: "uTenantID v = IDString t" using v(2) by auto
  have run: "(m', r) = (case ?look m of
       Inr x \<Rightarrow> if inUserID x = u then (m, Inr x) else (m, Inl ErrLinkConflict)
     | Inl e \<Rightarrow> (case memInsertIdentity (e1 m) ?ni of
         Inr m2 \<Rightarrow> (m2, Inr (identityOf ?ni))
       | Inl e \<Rightarrow> (case ?look (e2 (e1 m)) of
           Inl e \<Rightarrow> (e2 (e1 m), Inl ErrLinkConflict)
         | Inr x \<Rightarrow> if inUserID x = u then (e2 (e1 m), Inr x) else (e2 (e1 m), Inl ErrLinkConflict))))"
    using l uit v(2) C memInsertIdentity_Inl memIdentityByProviderSubject_Inl
    by (simp add: Link_def memStore_def Let_def split: sum.splits if_splits) (metis+)?
  show ?thesis
  proof (cases "?look m")
    case (Inr x)
    then show ?thesis using run ok by (auto split: if_splits)
  next
    case (Inl e)
    show ?thesis
    proof (cases "memInsertIdentity (e1 m) ?ni")
      case (Inr m2)
      then have m2: "identMemOk m2" "m2 = (e1 m)\<lparr>identities := AList.update (drRowID d) (identityOf ?ni) (identities (e1 m))\<rparr>"
        using memInsertIdentity_Inr [of "e1 m" ?ni m2] inv(1) [OF ok] fresh by auto
      then have "?look m2 = Inr (identityOf ?ni)"
        using vt by (subst memIdentity_lookup) (simp_all add: alist_simps)
      then show ?thesis using run Inl Inr m2 by simp
    next
      case (Inl e')
      then show ?thesis using run \<open>?look m = Inl e\<close> inv ok by (auto split: sum.splits if_splits)
    qed
  qed
qed

text \<open>
  One credential, one user. Whatever other callers do between the steps of a link
  (keeping the store well formed), a link that succeeds leaves the credential belonging to
  that user in that tenant, in the state the caller gets back, and doing it again changes
  nothing; otherwise it is a conflict, also where the winner of the race has gone again.
  Only a user who is not in the tenant is reported as not found.
\<close>

theorem Link_one_owner:
  assumes "identMemOk m" "\<forall>x. identMemOk x \<longrightarrow> identMemOk (e1 x) \<and> identMemOk (e2 x)" "coStore C = memStore"
    "map_of (identities (e1 m)) (drRowID d) = None" "Link C d e1 e2 m t u p s = (m', r)"
  shows "(\<forall>x. r = Inr x \<longrightarrow> inUserID x = u \<and> inTenantID x = IDString t \<and> inProvider x = p \<and> inSubject x = s \<and>
      memIdentityByProviderSubject m' t p s = Inr x \<and>
      (map_of (usersByID m') u = map_of (usersByID m) u \<longrightarrow> Link C d' id id m' t u p s = (m', Inr x))) \<and>
    (\<forall>e. r = Inl e \<longrightarrow> (if \<exists>v. map_of (usersByID m) u = Some v \<and> FromStored (uTenantID v) = t
                       then e = ErrLinkConflict else e = IErrNotFound \<and> m' = m))"
proof (cases "userInTenant C m u t")
  case (Inl e)
  then have none: "\<not> (\<exists>v. map_of (usersByID m) u = Some v \<and> FromStored (uTenantID v) = t)"
    using mem_userInTenant_Inr [OF assms(3), of m u t] by (metis sum.distinct(1))
  have "e = IErrNotFound"
    using Inl assms(3) by (auto simp: userInTenant_def memStore_def split: sum.splits if_splits)
  then have "m' = m \<and> r = Inl IErrNotFound" using assms(5) Inl by (simp add: Link_def)
  with none show ?thesis by simp
next
  case (Inr v)
  then have v: "map_of (usersByID m) u = Some v" "FromStored (uTenantID v) = t"
    using mem_userInTenant_Inr [OF assms(3)] by auto
  have c: "identMemOk m'" "(\<exists>x. r = Inr x \<and> memIdentityByProviderSubject m' t p s = Inr x \<and> inUserID x = u) \<or> r = Inl ErrLinkConflict"
    using Link_cases [OF assms(1) _ _ assms(3,4) v assms(5)] assms(2) by auto
  have again: "Link C d' id id m' t u p s = (m', Inr x)"
    if "r = Inr x" "map_of (usersByID m') u = map_of (usersByID m) u" for x
  proof -
    have "memIdentityByProviderSubject m' t p s = Inr x" "inUserID x = u" using c(2) that(1) by auto
    moreover have "userInTenant C m' u t = Inr v" using v that(2) by (simp add: mem_userInTenant_Inr [OF assms(3)])
    ultimately show ?thesis using assms(3) v(2) by (simp add: Link_def memStore_def)
  qed
  with c v show ?thesis using memIdentity_lookup [OF c(1)] by auto
qed

theorem Link_one_owner_witness:
  "\<exists>m' x. Link exampleCore exampleDraw id id exampleIdentMem (NewID ''acme'') ''u1'' ''google'' ''g1'' = (m', Inr x) \<and>
     Link exampleCore exampleDraw id id m' (NewID ''acme'') ''u1'' ''google'' ''g1'' = (m', Inr x)"
proof -
  have "isOk (snd (Link exampleCore exampleDraw id id exampleIdentMem (NewID ''acme'') ''u1'' ''google'' ''g1''))" by code_simp
  then obtain m' x where l: "Link exampleCore exampleDraw id id exampleIdentMem (NewID ''acme'') ''u1'' ''google'' ''g1'' = (m', Inr x)"
    by (metis isl_def prod.collapse sum.exhaust)
  have "usersByID (fst (Link exampleCore exampleDraw id id exampleIdentMem (NewID ''acme'') ''u1'' ''google'' ''g1'')) = usersByID exampleIdentMem"
    by code_simp
  then have us: "map_of (usersByID m') ''u1'' = map_of (usersByID exampleIdentMem) ''u1''" using l by simp
  have f: "map_of (identities (id exampleIdentMem)) (drRowID exampleDraw) = None"
    by (simp add: exampleIdentMem_def NewIdentMem_def)
  have "coStore exampleCore = memStore" by (simp add: example_defs)
  then show ?thesis
    using Link_one_owner [OF identReach_ok [OF exampleIdentMem_reach] _ _ f l, of exampleDraw, THEN conjunct1, rule_format, OF _ _ refl]
      us l by auto
qed

text \<open>
  The last sign-in method. An unlink that succeeds removed exactly the one identity, of
  the user's own, in the user's own tenant, and the user keeps a password or another
  identity; an identity of somebody else is answered like one that does not exist. The
  guard is not a compare-and-set: for a user with two identities and no password, two
  unlinks that both decide before either deletes leave no way to sign in.
\<close>

theorem Unlink_keeps_a_method:
  assumes "identMemOk m" "coStore C = memStore"
  shows "(Unlink C m t u i = (m', None) \<longrightarrow>
      (\<exists>v. map_of (usersByID m) u = Some v \<and> FromStored (uTenantID v) = t \<and> i \<in> linkedIDs m u \<and>
         linkedIDs m' u = linkedIDs m u - {i} \<and> (\<forall>w. w \<noteq> u \<longrightarrow> linkedIDs m' w = linkedIDs m w) \<and>
         usersByID m' = usersByID m \<and> (uPasswordHash v \<noteq> '''' \<or> linkedIDs m' u \<noteq> {}))) \<and>
    (i \<notin> linkedIDs m u \<longrightarrow> Unlink C m t u i = (m, Some IErrNotFound)) \<and>
    (\<exists>m w v a b. identMemOk m \<and> map_of (usersByID m) w = Some v \<and> uPasswordHash v = '''' \<and> linkedIDs m w = {a, b} \<and>
       unlinkAllowed C m (FromStored (uTenantID v)) w a = None \<and> unlinkAllowed C m (FromStored (uTenantID v)) w b = None \<and>
       linkedIDs (fst (unlinkDelete C (fst (unlinkDelete C m a)) b)) w = {})"
proof (intro conjI impI)
  assume "Unlink C m t u i = (m', None)"
  then obtain v x where v: "map_of (usersByID m) u = Some v" "FromStored (uTenantID v) = t"
    "map_of (identities m) i = Some x" "inUserID x = u" "uPasswordHash v = '''' \<longrightarrow> 1 < card (linkedIDs m u)"
    "m' = m\<lparr>identities := AList.delete i (identities m)\<rparr>"
    using Unlink_None [OF assms] by blast
  have i: "i \<in> linkedIDs m u" using v by (auto simp: linkedIDs_def)
  then have "card (linkedIDs m' u) = card (linkedIDs m u) - 1"
    using v(6) finite_linkedIDs by (simp add: linkedIDs_delete)
  then have "uPasswordHash v \<noteq> '''' \<or> linkedIDs m' u \<noteq> {}" using v(5) by auto
  moreover have "linkedIDs m' w = linkedIDs m w" if "w \<noteq> u" for w
    using v(3,4,6) that by (auto simp: linkedIDs_def alist_simps)
  ultimately show "\<exists>v. map_of (usersByID m) u = Some v \<and> FromStored (uTenantID v) = t \<and> i \<in> linkedIDs m u \<and>
         linkedIDs m' u = linkedIDs m u - {i} \<and> (\<forall>w. w \<noteq> u \<longrightarrow> linkedIDs m' w = linkedIDs m w) \<and>
         usersByID m' = usersByID m \<and> (uPasswordHash v \<noteq> '''' \<or> linkedIDs m' u \<noteq> {})"
    using v i by (intro exI [of _ v]) (simp add: linkedIDs_delete)
next
  assume "i \<notin> linkedIDs m u"
  then show "Unlink C m t u i = (m, Some IErrNotFound)"
    using assms(2) by (auto simp: Unlink_def unlinkAllowed_def memStore_def memIdentityByID_def linkedIDs_def split: option.splits)
next
  let ?u = "userOf \<lparr>nuID = ''u'', nuTenantID = ''acme'', nuEmail = ''b@x.io'', nuPasswordHash = '''', nuCreatedAt = 1\<rparr>"
  let ?x = "\<lambda>i. \<lparr>inID = i, inUserID = ''u'', inTenantID = ''acme'', inProvider = i, inSubject = ''s'',
                 inLinkedAt = 1, inLastLoginAt = None\<rparr>"
  let ?m = "NewIdentMem\<lparr>usersByID := [(''u'', ?u)], emailToID := [(userKey ?u, ''u'')],
                        identities := [(''a'', ?x ''a''), (''b'', ?x ''b'')]\<rparr>"
  have ok: "identMemOk ?m"
    by (auto simp: identMemOk_def usersOk_def indexOk_def identitiesOk_def NewIdentMem_def nulFree_def userKey_def
        userOf_def matchesIdentity_def)
  have ids: "linkedIDs ?m ''u'' = {''a'', ''b''}" by (auto simp: linkedIDs_def)
  have al: "unlinkAllowed C ?m (FromStored (uTenantID ?u)) ''u'' i = None" if "i = ''a'' \<or> i = ''b''" for i
    using that assms(2)
    by (auto simp: unlinkAllowed_def userInTenant_def memStore_def memIdentityByID_def memUserByID_def
        memCountIdentitiesByUserID_def userOf_def)
  have "linkedIDs (fst (unlinkDelete C (fst (unlinkDelete C ?m ''a'')) ''b'')) ''u'' = {}"
    using assms(2) by (auto simp: unlinkDelete_def memStore_def memDeleteIdentity_def linkedIDs_def)
  with ok ids al show "\<exists>m w v a b. identMemOk m \<and> map_of (usersByID m) w = Some v \<and> uPasswordHash v = '''' \<and>
       linkedIDs m w = {a, b} \<and> unlinkAllowed C m (FromStored (uTenantID v)) w a = None \<and>
       unlinkAllowed C m (FromStored (uTenantID v)) w b = None \<and>
       linkedIDs (fst (unlinkDelete C (fst (unlinkDelete C m a)) b)) w = {}"
    by (intro exI [of _ ?m] exI [of _ "''u''"] exI [of _ ?u] exI [of _ "''a''"] exI [of _ "''b''"] conjI)
      (simp_all add: userOf_def)
qed

theorem Unlink_keeps_a_method_witness:
  "Unlink exampleCore exampleIdentMem (NewID ''acme'') ''u1'' ''i9'' = (exampleIdentMem, Some IErrNotFound)"
proof -
  have "''i9'' \<notin> linkedIDs exampleIdentMem ''u1''" by (simp add: linkedIDs_def exampleIdentMem_def NewIdentMem_def)
  moreover have "coStore exampleCore = memStore" by (simp add: example_defs)
  ultimately show ?thesis
    using Unlink_keeps_a_method [OF identReach_ok [OF exampleIdentMem_reach]] by blast
qed

end
