(* ===== verification/Identity_Membership.thy ===== *)
theory Identity_Membership
  imports Identity_Rotation
begin

text \<open>
  Package \<^verbatim>\<open>identity\<close>, acting elsewhere and as somebody else: entering another tenant
  (\<^verbatim>\<open>membership.go\<close>) and impersonation (\<^verbatim>\<open>impersonation.go\<close>). Both mint from the verified
  claims of the session the caller holds; \<^verbatim>\<open>None\<close> for the claims is the nil pointer. The
  locale \<^verbatim>\<open>membership_store\<close> is the one law the two operations of \<^verbatim>\<open>membership.go\<close> need of
  the port, and it is interpreted on \<^verbatim>\<open>MemStore\<close>.
\<close>

section \<open>Operations\<close>

definition accessOnly :: "string \<Rightarrow> Tokens" where
  "accessOnly access = \<lparr>tkAccess = access, tkRefresh = '''', tkRefreshExpiresAt = 0\<rparr>"

definition sessionClaims :: "Claims option \<Rightarrow> Claims option" where
  "sessionClaims session =
     (case session of
        None \<Rightarrow> None
      | Some c \<Rightarrow> if cSubject c = '''' \<or> cAuthTime c \<le> 0 \<or> cACR c = '''' then None else Some c)"

definition EnterTenant :: "'s Core \<Rightarrow> JWTLib \<Rightarrow> 's \<Rightarrow> Claims option \<Rightarrow> ID \<Rightarrow> 's \<times> (ident_err + Tokens)" where
  "EnterTenant C L s session target =
     (case coMemberships C of
        None \<Rightarrow> (s, Inl ErrNoMembershipStore)
      | Some members \<Rightarrow> (case coJWT C of
          None \<Rightarrow> (s, Inl ErrNoTokenService)
        | Some j \<Rightarrow> (case tenantGate target of
            Some e \<Rightarrow> (s, Inl e)
          | None \<Rightarrow> (case sessionClaims session of
              None \<Rightarrow> (s, Inl ErrAuthContextRequired)
            | Some c \<Rightarrow>
                if Entered c then (s, Inl IErrNotFound)
                else (case stUserByID (coStore C) s (cSubject c) of
                    Inl e \<Rightarrow> if e \<noteq> IErrNotFound then (s, Inl e) else (s, Inl IErrNotFound)
                  | Inr user \<Rightarrow>
                      let home = FromStored (uTenantID user) in
                      if cTenantID c \<noteq> IDString home \<or> IsSingle home \<or> IsSingle target \<or> home = target
                      then (s, Inl IErrNotFound)
                      else (case msIsMember members s (cSubject c) target of
                          Inl e \<Rightarrow> (s, Inl e)
                        | Inr member \<Rightarrow>
                            if \<not> member then (s, Inl IErrNotFound)
                            else if \<not> uActive user then (s, Inl ErrUserInactive)
                            else (case IssueAccessEntered L j (cSubject c) target home (cAuthTime c) (cACR c)
                                         (coEnterTTL C) [] of
                                Inl e \<Rightarrow> (s, Inl (TokenError e))
                              | Inr access \<Rightarrow>
                                  ((case hkOnTenantEntered (coHooks C) of None \<Rightarrow> s | Some hook \<Rightarrow> hook s user target),
                                   Inr (accessOnly access)))))))))"

text \<open>The loop of \<^verbatim>\<open>EnterableTenants\<close>, with the set of ids already taken.\<close>

fun enterableLoop :: "ID \<Rightarrow> ID list \<Rightarrow> ID list \<Rightarrow> ID list" where
  "enterableLoop home seen [] = []"
| "enterableLoop home seen (i # ids) =
     (if \<not> Valid i \<or> IsSingle i \<or> i = home then enterableLoop home seen ids
      else if i \<in> set seen then enterableLoop home seen ids
      else i # enterableLoop home (i # seen) ids)"

definition EnterableTenants :: "'s Core \<Rightarrow> 's \<Rightarrow> string \<Rightarrow> ident_err + ID list" where
  "EnterableTenants C s userID =
     (case coMemberships C of
        None \<Rightarrow> Inl ErrNoMembershipStore
      | Some members \<Rightarrow> (case stUserByID (coStore C) s userID of
          Inl e \<Rightarrow> if e = IErrNotFound then Inl IErrNotFound else Inl e
        | Inr user \<Rightarrow>
            let home = FromStored (uTenantID user) in
            if IsSingle home then Inr []
            else (case msMembershipsFor members s userID of
                Inl e \<Rightarrow> Inl e
              | Inr all \<Rightarrow>
                  let out = enterableLoop home [] all in
                  if \<not> uActive user \<and> length out > 0 then Inl ErrUserInactive
                  else Inr (sort_key IDString out))))"

definition Impersonate :: "'s Core \<Rightarrow> JWTLib \<Rightarrow> 's \<Rightarrow> Claims option \<Rightarrow> string \<Rightarrow> ident_err + Tokens" where
  "Impersonate C L s session targetUserID =
     (case coImpersonation C of
        None \<Rightarrow> Inl ErrNoImpersonationPolicy
      | Some mayImpersonate \<Rightarrow> (case coJWT C of
          None \<Rightarrow> Inl ErrNoTokenService
        | Some j \<Rightarrow> (case sessionClaims session of
            None \<Rightarrow> Inl ErrAuthContextRequired
          | Some c \<Rightarrow>
              if Impersonated c then Inl IErrNotFound
              else
                let tenantID = NewID (cTenantID c); actorHome = NewID (ActorTenantID c) in
                if \<not> Valid tenantID \<or> IsSingle tenantID \<or> \<not> Valid actorHome \<or> IsSingle actorHome
                   \<or> actorHome = tenantID
                then Inl IErrNotFound
                else (case stUserByID (coStore C) s targetUserID of
                    Inl e \<Rightarrow> if e \<noteq> IErrNotFound then Inl e else Inl IErrNotFound
                  | Inr user \<Rightarrow>
                      let targetHome = FromStored (uTenantID user) in
                      if \<not> Valid targetHome \<or> IsSingle targetHome \<or> targetHome \<noteq> tenantID then Inl IErrNotFound
                      else (case mayImpersonate (cSubject c) tenantID targetUserID of
                          Inl e \<Rightarrow> Inl e
                        | Inr allowed \<Rightarrow>
                            if \<not> allowed then Inl IErrNotFound
                            else if \<not> uActive user then Inl ErrUserInactive
                            else (case IssueAccessImpersonated L j targetUserID (cSubject c) tenantID actorHome
                                         (cAuthTime c) (cACR c) (coImpersonationTTL C) [] of
                                Inl e \<Rightarrow> Inl (TokenError e)
                              | Inr access \<Rightarrow> Inr (accessOnly access)))))))"

section \<open>The membership port\<close>

text \<open>The list of a user's memberships is what the single question answers yes to.\<close>

locale membership_store =
  fixes M :: "'s MembershipStore"
  assumes member_listed: "msMembershipsFor M s u = Inr ts \<Longrightarrow> msIsMember M s u t = Inr (t \<in> set ts)"
begin

lemma not_listed: "msMembershipsFor M s u = Inr ts \<Longrightarrow> t \<notin> set ts \<Longrightarrow> msIsMember M s u t = Inr False"
  by (simp add: member_listed)

end

interpretation mem_membership: membership_store memMembershipStore
proof (unfold_locales, goal_cases)
  case (1 s u ts t)
  have "map_of (membersOf s u) t \<noteq> None \<longleftrightarrow> t \<in> fst ` set (membersOf s u)"
    by (metis domIff dom_map_of_conv_image_fst)
  moreover have "ts = map fst (membersOf s u)"
    using 1 by (simp add: memMembershipStore_def memMembershipsFor_def)
  ultimately show ?case
    by (simp only: memMembershipStore_def memIsMember_def MembershipStore.simps list.set_map)
qed

section \<open>Lemmas\<close>

lemma sessionClaims_Some [simp]:
  "sessionClaims session = Some c \<longleftrightarrow> session = Some c \<and> cSubject c \<noteq> '''' \<and> 0 < cAuthTime c \<and> cACR c \<noteq> ''''"
  by (auto simp: sessionClaims_def split: option.splits)

lemma enterableLoop_set:
  "set (enterableLoop home seen ids) = {i \<in> set ids. Valid i \<and> \<not> IsSingle i \<and> i \<noteq> home} - set seen"
  by (induction ids arbitrary: seen) auto

lemma enterableLoop_distinct: "distinct (enterableLoop home seen ids)"
  by (induction ids arbitrary: seen) (auto simp: enterableLoop_set)

text \<open>What the user is told apart from the token itself, once the wiring is in place.\<close>

definition mayEnter :: "'s Core \<Rightarrow> 's MembershipStore \<Rightarrow> 's \<Rightarrow> Claims \<Rightarrow> User \<Rightarrow> ID \<Rightarrow> bool" where
  "mayEnter C members s c user target \<longleftrightarrow> \<not> Entered c \<and> stUserByID (coStore C) s (cSubject c) = Inr user \<and>
     cTenantID c = uTenantID user \<and> uTenantID user \<noteq> '''' \<and> \<not> IsSingle target \<and>
     FromStored (uTenantID user) \<noteq> target \<and> msIsMember members s (cSubject c) target = Inr True"

lemma EnterTenant_Inr:
  assumes "EnterTenant C L s session target = (s', Inr tk)"
  obtains members j c user where "coMemberships C = Some members" "coJWT C = Some j" "Valid target" "session = Some c"
    "cSubject c \<noteq> ''''" "0 < cAuthTime c" "cACR c \<noteq> ''''" "mayEnter C members s c user target" "uActive user"
    "IssueAccessEntered L j (cSubject c) target (FromStored (uTenantID user)) (cAuthTime c) (cACR c) (coEnterTTL C) [] =
       Inr (tkAccess tk)" "tk = accessOnly (tkAccess tk)"
    "s' = (case hkOnTenantEntered (coHooks C) of None \<Rightarrow> s | Some hook \<Rightarrow> hook s user target)"
proof -
  obtain members j c where w: "coMemberships C = Some members" "coJWT C = Some j" "Valid target"
    "sessionClaims session = Some c"
    using assms unfolding EnterTenant_def tenantGate_def by (auto split: option.splits if_splits)
  have e: "\<not> Entered c" using assms w by (auto simp: EnterTenant_def tenantGate_def)
  obtain user where u: "stUserByID (coStore C) s (cSubject c) = Inr user"
    using assms w e by (cases "stUserByID (coStore C) s (cSubject c)") (auto simp: EnterTenant_def tenantGate_def split: if_splits)
  let ?h = "FromStored (uTenantID user)"
  have h: "\<not> (cTenantID c \<noteq> IDString ?h \<or> IsSingle ?h \<or> IsSingle target \<or> ?h = target)"
    using assms w e u by (auto simp: EnterTenant_def tenantGate_def Let_def split: if_splits)
  have m: "msIsMember members s (cSubject c) target = Inr True" "uActive user"
    using assms w e u h by (auto simp: EnterTenant_def tenantGate_def Let_def split: sum.splits if_splits)
  have "mayEnter C members s c user target" using e u h m by (simp add: mayEnter_def)
  moreover obtain a where "IssueAccessEntered L j (cSubject c) target ?h (cAuthTime c) (cACR c) (coEnterTTL C) [] = Inr a"
    "tk = accessOnly a" "s' = (case hkOnTenantEntered (coHooks C) of None \<Rightarrow> s | Some hook \<Rightarrow> hook s user target)"
    using assms w e u h m by (auto simp: EnterTenant_def tenantGate_def Let_def split: sum.splits if_splits)
  moreover have "tkAccess (accessOnly a) = a" by (simp add: accessOnly_def)
  ultimately show ?thesis using that w m(2) by simp
qed

lemma IssueAccessEntered_Inr:
  assumes "IssueAccessEntered L j u t h authTime acr ttl amr = Inr tok"
  shows "Valid t \<and> Valid h \<and> \<not> IsSingle t \<and> \<not> IsSingle h \<and> t \<noteq> h \<and>
    issueAccessWithActor L j u '''' (IDString t) (IDString h) authTime acr (cutTTL j ttl) amr = Inr tok"
  using assms by (auto simp: IssueAccessEntered_def issueAccess_def split: if_splits)

lemma IssueAccessImpersonated_Inr:
  assumes "IssueAccessImpersonated L j u a t h authTime acr ttl amr = Inr tok"
  shows "u \<noteq> '''' \<and> a \<noteq> '''' \<and> u \<noteq> a \<and> Valid t \<and> Valid h \<and> \<not> IsSingle t \<and> \<not> IsSingle h \<and> t \<noteq> h \<and>
    issueAccessWithActor L j u a (IDString t) (IDString h) authTime acr (cutTTL j ttl) amr = Inr tok"
  using assms by (auto simp: IssueAccessImpersonated_def split: if_splits)

lemma IDString_neq: "Valid t \<Longrightarrow> Valid h \<Longrightarrow> t \<noteq> h \<Longrightarrow> IDString h \<noteq> IDString t"
  by (simp add: IDString_eq_iff)

lemma not_single_string: "Valid t \<Longrightarrow> \<not> IsSingle t \<Longrightarrow> IDString t \<noteq> ''''"
  by (simp add: IsSingle_def IDString_def Valid_def)

text \<open>The service at another moment: what a verifier sharing the key sees.\<close>

abbreviation atTime :: "JWTService \<Rightarrow> go_time \<Rightarrow> JWTService" where
  "atTime j n \<equiv> j\<lparr>jNow := n\<rparr>"

lemma entered_verifies:
  assumes "hs256Ok L" "defaultPath j" "IssueAccessEntered L j u t h authTime acr ttl [] = Inr tok"
  shows "(VerifyAccess L (atTime j n) tok t' = Inr c \<longrightarrow> t' = t \<and> Entered c \<and> \<not> Impersonated c \<and> cSubject c = u \<and>
      cTenantID c = IDString t \<and> ActorUserID c = u \<and> ActorTenantID c = IDString h \<and> cAuthTime c = authTime \<and> cACR c = acr) \<and>
    ((\<exists>c. VerifyAccess L (atTime j n) tok t' = Inr c) \<longleftrightarrow> t' = t \<and> n < jNow j + cutTTL j ttl)"
proof -
  from IssueAccessEntered_Inr [OF assms(3)] have i: "Valid t" "Valid h" "\<not> IsSingle t" "\<not> IsSingle h" "t \<noteq> h"
    "issueAccessWithActor L j u '''' (IDString t) (IDString h) authTime acr (cutTTL j ttl) [] = Inr tok" by auto
  have v: "defaultPath (atTime j n)" using assms(2) by (simp add: defaultPath_def)
  have h: "IDString h \<noteq> ''''" "IDString t \<noteq> ''''" "IDString h \<noteq> IDString t"
    using i not_single_string IDString_neq by auto
  have m: "(VerifyAccess L (atTime j n) tok t' = Inr c \<longrightarrow> cSubject c = u \<and> cActorID c = '''' \<and>
      cHomeTenantID c = IDString h \<and> cAuthTime c = authTime \<and> cACR c = acr \<and> cAMR c = []) \<and>
    ((\<exists>c. VerifyAccess L (atTime j n) tok t' = Inr c) \<longleftrightarrow> t' = t \<and> n < jNow j + cutTTL j ttl)"
    using minted_access_verifies [OF assms(1,2) v _ _ i(6,1), of t' c] h by simp
  then show ?thesis
    using h by (auto simp: Entered_def Impersonated_def ActorUserID_def ActorTenantID_def VerifyAccess_Inr_iff)
qed

lemma impersonated_verifies:
  assumes "hs256Ok L" "defaultPath j" "IssueAccessImpersonated L j u a t h authTime acr ttl [] = Inr tok"
  shows "(VerifyAccess L (atTime j n) tok t' = Inr c \<longrightarrow> t' = t \<and> Impersonated c \<and> \<not> Entered c \<and> cSubject c = u \<and>
      cTenantID c = IDString t \<and> ActorUserID c = a \<and> ActorTenantID c = IDString h \<and> cAuthTime c = authTime \<and> cACR c = acr) \<and>
    ((\<exists>c. VerifyAccess L (atTime j n) tok t' = Inr c) \<longleftrightarrow> t' = t \<and> n < jNow j + cutTTL j ttl)"
proof -
  from IssueAccessImpersonated_Inr [OF assms(3)] have i: "Valid t" "Valid h" "\<not> IsSingle t" "\<not> IsSingle h" "t \<noteq> h"
    "u \<noteq> ''''" "a \<noteq> ''''" "u \<noteq> a"
    "issueAccessWithActor L j u a (IDString t) (IDString h) authTime acr (cutTTL j ttl) [] = Inr tok" by auto
  have v: "defaultPath (atTime j n)" using assms(2) by (simp add: defaultPath_def)
  have h: "IDString h \<noteq> ''''" "IDString t \<noteq> ''''" "IDString h \<noteq> IDString t"
    using i not_single_string IDString_neq by auto
  have m: "(VerifyAccess L (atTime j n) tok t' = Inr c \<longrightarrow> cSubject c = u \<and> cActorID c = a \<and>
      cHomeTenantID c = IDString h \<and> cAuthTime c = authTime \<and> cACR c = acr \<and> cAMR c = []) \<and>
    ((\<exists>c. VerifyAccess L (atTime j n) tok t' = Inr c) \<longleftrightarrow> t' = t \<and> n < jNow j + cutTTL j ttl)"
    using minted_access_verifies [OF assms(1,2) v _ _ i(9,1), of t' c] h i by simp
  then show ?thesis
    using h i by (auto simp: Entered_def Impersonated_def ActorUserID_def ActorTenantID_def VerifyAccess_Inr_iff)
qed

lemma EnterTenant_entered:
  assumes "coMemberships C = Some members" "coJWT C = Some j" "Valid t" "sessionClaims (Some c) = Some c" "Entered c"
  shows "EnterTenant C L s (Some c) t = (s, Inl IErrNotFound)"
  using assms by (simp add: EnterTenant_def tenantGate_def del: sessionClaims_Some)

lemma EnterTenant_mayEnter:
  assumes "coMemberships C = Some members" "coJWT C = Some j" "Valid t" "sessionClaims (Some c) = Some c"
    "mayEnter C members s c user t"
  shows "EnterTenant C L s (Some c) t =
    (if \<not> uActive user then (s, Inl ErrUserInactive)
     else (case IssueAccessEntered L j (cSubject c) t (FromStored (uTenantID user)) (cAuthTime c) (cACR c) (coEnterTTL C) [] of
         Inl e \<Rightarrow> (s, Inl (TokenError e))
       | Inr access \<Rightarrow> ((case hkOnTenantEntered (coHooks C) of None \<Rightarrow> s | Some hook \<Rightarrow> hook s user t),
                        Inr (accessOnly access))))"
  using assms by (simp add: EnterTenant_def tenantGate_def mayEnter_def del: sessionClaims_Some split: sum.split)

lemma EnterTenant_mayNot:
  assumes "coMemberships C = Some members" "coJWT C = Some j" "Valid t" "sessionClaims (Some c) = Some c"
    "\<And>user. \<not> mayEnter C members s c user t"
    "\<And>e. stUserByID (coStore C) s (cSubject c) = Inl e \<Longrightarrow> e = IErrNotFound"
    "\<And>e. msIsMember members s (cSubject c) t \<noteq> Inl e"
  shows "EnterTenant C L s (Some c) t = (s, Inl IErrNotFound)"
  using assms
  by (auto simp: EnterTenant_def tenantGate_def mayEnter_def Let_def simp del: sessionClaims_Some split: sum.split)

section \<open>Properties\<close>

text \<open>
  A guest pass, whatever the store. A token is minted for entering a tenant only for
  an active user stored in the tenant of the session presented, with a yes of the
  membership port for exactly that tenant, from a session that is not itself a guest
  pass. It comes without a refresh token and its only effect on the store is the hook.
  Where the library keeps its word, it is valid in the entered tenant only, for no longer
  than the configured time, names the user and the home tenant as the actor, copies the
  time and class of the original login, and cannot be used to enter anything. Every other
  refusal that depends on who asks for what is the one not-found answer; a deactivated
  member is told so, and only a member.
\<close>

theorem EnterTenant_guest_pass:
  assumes "coMemberships C = Some members" "coJWT C = Some j" "Valid t" "sessionClaims (Some c) = Some c"
  shows "(EnterTenant C L s (Some c) t = (s', Inr tk) \<longrightarrow>
      (\<exists>user. mayEnter C members s c user t \<and> uActive user \<and> tkRefresh tk = '''' \<and>
         (hkOnTenantEntered (coHooks C) = None \<longrightarrow> s' = s) \<and>
         (hs256Ok L \<and> defaultPath j \<longrightarrow> (\<forall>n t'.
            (isOk (VerifyAccess L (atTime j n) (tkAccess tk) t') \<longleftrightarrow> t' = t \<and> n < jNow j + cutTTL j (coEnterTTL C)) \<and>
            (\<forall>g. VerifyAccess L (atTime j n) (tkAccess tk) t' = Inr g \<longrightarrow> Entered g \<and> ActorUserID g = cSubject c \<and>
               ActorTenantID g = uTenantID user \<and> cAuthTime g = cAuthTime c \<and> cACR g = cACR c \<and>
               (\<forall>s2 t2. Valid t2 \<longrightarrow> EnterTenant C L s2 (Some g) t2 = (s2, Inl IErrNotFound))))))) \<and>
    ((\<forall>user. \<not> mayEnter C members s c user t) \<and> stUserByID (coStore C) s (cSubject c) \<in> {Inl IErrNotFound} \<union> range Inr \<and>
       msIsMember members s (cSubject c) t \<in> range Inr \<longrightarrow> EnterTenant C L s (Some c) t = (s, Inl IErrNotFound)) \<and>
    (EnterTenant C L s (Some c) t = (s', Inl ErrUserInactive) \<and> stUserByID (coStore C) s (cSubject c) \<noteq> Inl ErrUserInactive \<and>
       msIsMember members s (cSubject c) t \<noteq> Inl ErrUserInactive \<longrightarrow>
       s' = s \<and> (\<exists>user. mayEnter C members s c user t \<and> \<not> uActive user))"
proof (intro conjI impI)
  assume e: "EnterTenant C L s (Some c) t = (s', Inr tk)"
  obtain user where u: "mayEnter C members s c user t" "uActive user" "cSubject c \<noteq> ''''"
    "IssueAccessEntered L j (cSubject c) t (FromStored (uTenantID user)) (cAuthTime c) (cACR c) (coEnterTTL C) [] =
       Inr (tkAccess tk)" "tk = accessOnly (tkAccess tk)"
    "s' = (case hkOnTenantEntered (coHooks C) of None \<Rightarrow> s | Some hook \<Rightarrow> hook s user t)"
    using EnterTenant_Inr [OF e] assms by (metis option.inject)
  have tok: "(isOk (VerifyAccess L (atTime j n) (tkAccess tk) t') \<longleftrightarrow> t' = t \<and> n < jNow j + cutTTL j (coEnterTTL C)) \<and>
      (\<forall>g. VerifyAccess L (atTime j n) (tkAccess tk) t' = Inr g \<longrightarrow> Entered g \<and> ActorUserID g = cSubject c \<and>
         ActorTenantID g = uTenantID user \<and> cAuthTime g = cAuthTime c \<and> cACR g = cACR c \<and>
         (\<forall>s2 t2. Valid t2 \<longrightarrow> EnterTenant C L s2 (Some g) t2 = (s2, Inl IErrNotFound)))"
    if "hs256Ok L" "defaultPath j" for n t'
  proof (intro conjI allI impI)
    note v = entered_verifies [OF that u(4), of n t']
    show "isOk (VerifyAccess L (atTime j n) (tkAccess tk) t') \<longleftrightarrow> t' = t \<and> n < jNow j + cutTTL j (coEnterTTL C)"
      using v by (cases "VerifyAccess L (atTime j n) (tkAccess tk) t'") auto
    fix g assume g: "VerifyAccess L (atTime j n) (tkAccess tk) t' = Inr g"
    with v [of g] show "Entered g" "ActorUserID g = cSubject c" "ActorTenantID g = uTenantID user"
      "cAuthTime g = cAuthTime c" "cACR g = cACR c" by auto
    with g v [of g] u(3) assms(4) have "sessionClaims (Some g) = Some g" by simp
    with EnterTenant_entered [OF assms(1,2)] \<open>Entered g\<close>
    show "EnterTenant C L s2 (Some g) t2 = (s2, Inl IErrNotFound)" if "Valid t2" for s2 t2 using that by blast
  qed
  have "tkRefresh tk = ''''" by (subst u(5)) (simp add: accessOnly_def)
  with tok u show "\<exists>user. mayEnter C members s c user t \<and> uActive user \<and> tkRefresh tk = '''' \<and>
         (hkOnTenantEntered (coHooks C) = None \<longrightarrow> s' = s) \<and>
         (hs256Ok L \<and> defaultPath j \<longrightarrow> (\<forall>n t'.
            (isOk (VerifyAccess L (atTime j n) (tkAccess tk) t') \<longleftrightarrow> t' = t \<and> n < jNow j + cutTTL j (coEnterTTL C)) \<and>
            (\<forall>g. VerifyAccess L (atTime j n) (tkAccess tk) t' = Inr g \<longrightarrow> Entered g \<and> ActorUserID g = cSubject c \<and>
               ActorTenantID g = uTenantID user \<and> cAuthTime g = cAuthTime c \<and> cACR g = cACR c \<and>
               (\<forall>s2 t2. Valid t2 \<longrightarrow> EnterTenant C L s2 (Some g) t2 = (s2, Inl IErrNotFound)))))"
    by (intro exI [of _ user]) simp
next
  assume "(\<forall>user. \<not> mayEnter C members s c user t) \<and> stUserByID (coStore C) s (cSubject c) \<in> {Inl IErrNotFound} \<union> range Inr \<and>
       msIsMember members s (cSubject c) t \<in> range Inr"
  then show "EnterTenant C L s (Some c) t = (s, Inl IErrNotFound)"
    using EnterTenant_mayNot [OF assms] by (metis (no_types, lifting) Inl_Inr_False UnE imageE singletonD sum.inject(1))
next
  assume a: "EnterTenant C L s (Some c) t = (s', Inl ErrUserInactive) \<and> stUserByID (coStore C) s (cSubject c) \<noteq> Inl ErrUserInactive \<and>
       msIsMember members s (cSubject c) t \<noteq> Inl ErrUserInactive"
  then have "\<exists>user. mayEnter C members s c user t \<and> \<not> uActive user" "s' = s"
    using assms by (auto simp: EnterTenant_def tenantGate_def mayEnter_def Let_def simp del: sessionClaims_Some split: sum.splits if_splits)
  then show "s' = s" "\<exists>user. mayEnter C members s c user t \<and> \<not> uActive user" by blast+
qed

text \<open>A member of globex, stored in acme, and the claims of her session at home.\<close>

definition exampleMemberMem :: IdentMem where
  "exampleMemberMem = AddMembership exampleIdentMem ''u1'' (NewID ''globex'')"

definition exampleHomeClaims :: Claims where
  "exampleHomeClaims = \<lparr>cAuthTime = 90, cACR = ''acr'', cAMR = [''pwd''], cPurpose = purposeAccess, cTenantID = ''acme'',
     cHomeTenantID = '''', cActorID = '''', cSubject = ''u1'', cIssuer = ''tamper'', cIssuedAt = 90, cExpiresAt = 990\<rparr>"

lemma exampleMember_enters:
  "EnterTenant exampleCore exampleJWTLib exampleMemberMem (Some exampleHomeClaims) (NewID ''globex'') =
     (exampleMemberMem, Inr (accessOnly ''tok''))"
  by code_simp

lemma example_wired:
  "coMemberships exampleCore = Some memMembershipStore" "coJWT exampleCore = Some (exampleService 100)"
  "coStore exampleCore = memStore" "Valid (NewID ''globex'')"
  by (simp_all add: example_defs)

lemma exampleHome_claims: "sessionClaims (Some exampleHomeClaims) = Some exampleHomeClaims"
  by (simp add: exampleHomeClaims_def)

theorem EnterTenant_guest_pass_witness:
  "EnterTenant exampleCore exampleJWTLib exampleMemberMem (Some exampleHomeClaims) (NewID ''globex'') =
     (exampleMemberMem, Inr (accessOnly ''tok'')) \<and>
   (\<exists>user. mayEnter exampleCore memMembershipStore exampleMemberMem exampleHomeClaims user (NewID ''globex''))"
  using EnterTenant_guest_pass [OF example_wired(1,2,4) exampleHome_claims, of exampleJWTLib exampleMemberMem,
      THEN conjunct1, THEN mp, OF exampleMember_enters] exampleMember_enters by blast

text \<open>
  The tenant switcher tells the truth. On the reference store, the list of an active
  user is sorted, has no duplicates, and holds exactly the tenants for which entering from
  a session at home is not answered with not found; an inactive user is given the empty
  list when there is none such, and is told to be inactive exactly when entering one of
  them would say so too.
\<close>

theorem EnterableTenants_exact:
  assumes "coMemberships C = Some memMembershipStore" "coJWT C = Some j" "coStore C = memStore"
    "sessionClaims (Some c) = Some c" "\<not> Entered c" "map_of (usersByID m) (cSubject c) = Some v" "cTenantID c = uTenantID v"
  shows "(\<forall>ts. EnterableTenants C m (cSubject c) = Inr ts \<longrightarrow> sorted (map IDString ts) \<and> distinct ts \<and>
      (uActive v \<or> ts = []) \<and>
      (\<forall>t. t \<in> set ts \<longleftrightarrow> Valid t \<and> snd (EnterTenant C L m (Some c) t) \<noteq> Inl IErrNotFound)) \<and>
    (\<forall>e. EnterableTenants C m (cSubject c) = Inl e \<longrightarrow> e = ErrUserInactive \<and>
      (\<exists>t. Valid t \<and> snd (EnterTenant C L m (Some c) t) = Inl ErrUserInactive))"
proof -
  let ?all = "map fst (membersOf m (cSubject c))" and ?home = "FromStored (uTenantID v)"
  let ?out = "enterableLoop ?home [] ?all"
  have all: "msMembershipsFor memMembershipStore m (cSubject c) = Inr ?all"
    by (simp add: memMembershipStore_def memMembershipsFor_def)
  have mayE: "mayEnter C memMembershipStore m c w t \<longleftrightarrow> w = v \<and> \<not> IsSingle ?home \<and> \<not> IsSingle t \<and> ?home \<noteq> t \<and> t \<in> set ?all"
    for w t
    using assms(3,5-7) mem_membership.member_listed [OF all, of t] by (auto simp: mayEnter_def memStore_def)
  have out: "t \<in> set ?out \<longleftrightarrow> Valid t \<and> \<not> IsSingle t \<and> t \<noteq> ?home \<and> t \<in> set ?all" for t
    by (auto simp: enterableLoop_set)
  have no: "EnterTenant C L m (Some c) t = (m, Inl IErrNotFound)"
    if "Valid t" "IsSingle ?home \<or> t \<notin> set ?out" for t
  proof (rule EnterTenant_mayNot [OF assms(1,2) that(1) assms(4)])
    show "\<not> mayEnter C memMembershipStore m c w t" for w using mayE out that by blast
    show "e = IErrNotFound" if "stUserByID (coStore C) m (cSubject c) = Inl e" for e
      using that assms(3,6) by (simp add: memStore_def)
    show "msIsMember memMembershipStore m (cSubject c) t \<noteq> Inl e" for e
      by (simp add: mem_membership.member_listed [OF all])
  qed
  have yes: "snd (EnterTenant C L m (Some c) t) \<noteq> Inl IErrNotFound \<and>
      (\<not> uActive v \<longrightarrow> snd (EnterTenant C L m (Some c) t) = Inl ErrUserInactive)" if "\<not> IsSingle ?home" "t \<in> set ?out" for t
  proof -
    have "Valid t" "mayEnter C memMembershipStore m c v t" using that out [of t] mayE [of v t] by blast+
    then show ?thesis by (simp add: EnterTenant_mayEnter [OF assms(1,2) _ assms(4)] split: sum.split)
  qed
  have E: "EnterableTenants C m (cSubject c) = (if IsSingle ?home then Inr []
      else if \<not> uActive v \<and> ?out \<noteq> [] then Inl ErrUserInactive else Inr (sort_key IDString ?out))"
  proof -
    have "stUserByID (coStore C) m (cSubject c) = Inr v" using assms(3,6) by (simp add: memStore_def)
    then show ?thesis using assms(1) all by (simp add: EnterableTenants_def Let_def)
  qed
  show ?thesis
  proof (cases "IsSingle ?home")
    case True
    then show ?thesis using E no by (auto)
  next
    case False
    have eq: "t \<in> set ?out \<longleftrightarrow> Valid t \<and> snd (EnterTenant C L m (Some c) t) \<noteq> Inl IErrNotFound" for t
      using yes [OF False] no out by (metis snd_conv)
    show ?thesis
    proof (cases "\<not> uActive v \<and> ?out \<noteq> []")
      case True
      then obtain t where t: "t \<in> set ?out" by (meson list.set_sel(1))
      then have "Valid t \<and> snd (EnterTenant C L m (Some c) t) = Inl ErrUserInactive"
        using yes [OF False t] out [of t] True by blast
      moreover have l: "EnterableTenants C m (cSubject c) = Inl ErrUserInactive" using True False E by auto
      ultimately show ?thesis unfolding l sum.simps by blast
    next
      case act: False
      then have l: "EnterableTenants C m (cSubject c) = Inr (sort_key IDString ?out)" using E False by auto
      have "uActive v \<or> sort_key IDString ?out = []" using act by (metis set_empty set_sort)
      moreover have "sorted (map IDString (sort_key IDString ?out))" "distinct (sort_key IDString ?out)"
        by (simp_all add: enterableLoop_distinct)
      moreover have "t \<in> set (sort_key IDString ?out) \<longleftrightarrow> Valid t \<and> snd (EnterTenant C L m (Some c) t) \<noteq> Inl IErrNotFound" for t
        using eq [of t] by (simp only: set_sort)
      ultimately show ?thesis unfolding l sum.simps by blast
    qed
  qed
qed

theorem EnterableTenants_exact_witness:
  "EnterableTenants exampleCore exampleMemberMem ''u1'' = Inr [NewID ''globex''] \<and>
   snd (EnterTenant exampleCore exampleJWTLib exampleMemberMem (Some exampleHomeClaims) (NewID ''initech'')) = Inl IErrNotFound"
proof -
  have l: "EnterableTenants exampleCore exampleMemberMem ''u1'' = Inr [NewID ''globex'']" by code_simp
  have sub: "cSubject exampleHomeClaims = ''u1''" by (simp add: exampleHomeClaims_def)
  have "\<not> Entered exampleHomeClaims" by (simp add: Entered_def exampleHomeClaims_def)
  moreover have "map_of (usersByID exampleMemberMem) (cSubject exampleHomeClaims) = Some (userOf (exampleNewUser ''u1'' ''acme''))"
    by (simp add: exampleMemberMem_def AddMembership_def exampleIdentMem_def NewIdentMem_def exampleHomeClaims_def)
  moreover have "cTenantID exampleHomeClaims = uTenantID (userOf (exampleNewUser ''u1'' ''acme''))"
    by (simp add: exampleHomeClaims_def exampleNewUser_def)
  ultimately have "NewID ''initech'' \<in> set [NewID ''globex''] \<longleftrightarrow> Valid (NewID ''initech'') \<and>
      snd (EnterTenant exampleCore exampleJWTLib exampleMemberMem (Some exampleHomeClaims) (NewID ''initech'')) \<noteq> Inl IErrNotFound"
    using EnterableTenants_exact [OF example_wired(1-3) exampleHome_claims, of exampleMemberMem _ exampleJWTLib,
        THEN conjunct1, rule_format, THEN conjunct2, THEN conjunct2, THEN conjunct2] l sub by metis
  with l show ?thesis by (simp add: NewID_def Valid_def)
qed

lemma Impersonate_Inr:
  assumes "coImpersonation C = Some p" "coJWT C = Some j" "Impersonate C L s (Some c) u = Inr tk"
  obtains user where "\<not> Impersonated c" "cTenantID c \<noteq> ''''" "ActorTenantID c \<noteq> ''''" "ActorTenantID c \<noteq> cTenantID c"
    "stUserByID (coStore C) s u = Inr user" "uTenantID user = cTenantID c" "uActive user"
    "p (cSubject c) (NewID (cTenantID c)) u = Inr True" "tk = accessOnly (tkAccess tk)"
    "IssueAccessImpersonated L j u (cSubject c) (NewID (cTenantID c)) (NewID (ActorTenantID c)) (cAuthTime c) (cACR c)
       (coImpersonationTTL C) [] = Inr (tkAccess tk)"
proof -
  let ?t = "NewID (cTenantID c)" and ?h = "NewID (ActorTenantID c)"
  have i: "\<not> Impersonated c" "sessionClaims (Some c) = Some c"
    using assms by (auto simp: Impersonate_def simp del: sessionClaims_Some split: option.splits if_splits)
      (auto simp: sessionClaims_def split: if_splits)
  have g: "\<not> (\<not> Valid ?t \<or> IsSingle ?t \<or> \<not> Valid ?h \<or> IsSingle ?h \<or> ?h = ?t)"
    using assms i by (auto simp: Impersonate_def Let_def simp del: sessionClaims_Some split: if_splits)
  obtain user where u: "stUserByID (coStore C) s u = Inr user"
    using assms i g by (cases "stUserByID (coStore C) s u")
      (auto simp: Impersonate_def Let_def simp del: sessionClaims_Some split: if_splits)
  have h: "FromStored (uTenantID user) = ?t"
    using assms i g u by (auto simp: Impersonate_def Let_def simp del: sessionClaims_Some split: if_splits)
  have m: "p (cSubject c) ?t u = Inr True" "uActive user"
    using assms i g u h by (auto simp: Impersonate_def Let_def simp del: sessionClaims_Some split: sum.splits if_splits)
  obtain a where a: "IssueAccessImpersonated L j u (cSubject c) ?t ?h (cAuthTime c) (cACR c) (coImpersonationTTL C) [] = Inr a"
    "tk = accessOnly a"
    using assms i g u h m by (auto simp: Impersonate_def Let_def simp del: sessionClaims_Some split: sum.splits if_splits)
  have "tkAccess tk = a" using a(2) by (simp add: accessOnly_def)
  moreover have "uTenantID user = cTenantID c" using h by (metis IDString_FromStored IDString_NewID)
  moreover have "cTenantID c \<noteq> ''''" "ActorTenantID c \<noteq> ''''" "ActorTenantID c \<noteq> cTenantID c"
    using g by (auto simp: Valid_NewID_iff)
  ultimately show ?thesis using that [of user] i(1) u m a by simp
qed

text \<open>
  Impersonation names the human, whatever the store. A token is minted only inside a
  tenant other than the human's home, for an active user stored in that tenant, from a
  session that is not itself impersonated, and only on a yes of the policy for exactly
  that human, tenant and user. Where the library keeps its word it is valid in that
  tenant only and for no longer than the configured time, the subject is the user, the
  audit actor is the human at the human's home, the time and class are those of the
  human's login, and it cannot be used to impersonate anybody. A session that is already
  impersonated, one that is at home, a user that is missing or of another tenant, and a
  no of the policy are one answer.
\<close>

theorem Impersonate_names_the_human:
  assumes "coImpersonation C = Some p" "coJWT C = Some j" "sessionClaims (Some c) = Some c"
  shows "(Impersonate C L s (Some c) u = Inr tk \<longrightarrow>
      (\<exists>user. stUserByID (coStore C) s u = Inr user \<and> uActive user \<and> uTenantID user = cTenantID c \<and> cTenantID c \<noteq> '''' \<and>
         ActorTenantID c \<noteq> cTenantID c \<and> \<not> Impersonated c \<and> p (cSubject c) (NewID (cTenantID c)) u = Inr True \<and>
         tkRefresh tk = '''' \<and>
         (hs256Ok L \<and> defaultPath j \<longrightarrow> (\<forall>n t'.
            (isOk (VerifyAccess L (atTime j n) (tkAccess tk) t') \<longleftrightarrow>
               t' = NewID (cTenantID c) \<and> n < jNow j + cutTTL j (coImpersonationTTL C)) \<and>
            (\<forall>g. VerifyAccess L (atTime j n) (tkAccess tk) t' = Inr g \<longrightarrow> Impersonated g \<and> cSubject g = u \<and>
               ActorUserID g = cSubject c \<and> ActorTenantID g = ActorTenantID c \<and> cAuthTime g = cAuthTime c \<and>
               cACR g = cACR c \<and> (\<forall>s2 u2. Impersonate C L s2 (Some g) u2 = Inl IErrNotFound)))))) \<and>
    (Impersonated c \<or> cTenantID c = '''' \<or> ActorTenantID c = cTenantID c \<or> stUserByID (coStore C) s u = Inl IErrNotFound \<or>
       (\<exists>user. stUserByID (coStore C) s u = Inr user \<and>
          (uTenantID user \<noteq> cTenantID c \<or> p (cSubject c) (NewID (cTenantID c)) u = Inr False)) \<longrightarrow>
     Impersonate C L s (Some c) u = Inl IErrNotFound)"
proof (intro conjI impI)
  assume "Impersonate C L s (Some c) u = Inr tk"
  then obtain user where u: "\<not> Impersonated c" "cTenantID c \<noteq> ''''" "ActorTenantID c \<noteq> ''''" "ActorTenantID c \<noteq> cTenantID c"
    "stUserByID (coStore C) s u = Inr user" "uTenantID user = cTenantID c" "uActive user"
    "p (cSubject c) (NewID (cTenantID c)) u = Inr True" "tk = accessOnly (tkAccess tk)"
    "IssueAccessImpersonated L j u (cSubject c) (NewID (cTenantID c)) (NewID (ActorTenantID c)) (cAuthTime c) (cACR c)
       (coImpersonationTTL C) [] = Inr (tkAccess tk)"
    using Impersonate_Inr [OF assms(1,2)] by metis
  have tok: "(isOk (VerifyAccess L (atTime j n) (tkAccess tk) t') \<longleftrightarrow>
         t' = NewID (cTenantID c) \<and> n < jNow j + cutTTL j (coImpersonationTTL C)) \<and>
      (\<forall>g. VerifyAccess L (atTime j n) (tkAccess tk) t' = Inr g \<longrightarrow> Impersonated g \<and> cSubject g = u \<and>
         ActorUserID g = cSubject c \<and> ActorTenantID g = ActorTenantID c \<and> cAuthTime g = cAuthTime c \<and>
         cACR g = cACR c \<and> (\<forall>s2 u2. Impersonate C L s2 (Some g) u2 = Inl IErrNotFound))"
    if "hs256Ok L" "defaultPath j" for n t'
  proof (intro conjI allI impI)
    note v = impersonated_verifies [OF that u(10), of n t']
    show "isOk (VerifyAccess L (atTime j n) (tkAccess tk) t') \<longleftrightarrow>
         t' = NewID (cTenantID c) \<and> n < jNow j + cutTTL j (coImpersonationTTL C)"
      unfolding v [THEN conjunct2, symmetric] by (cases "VerifyAccess L (atTime j n) (tkAccess tk) t'") simp_all
    fix g assume g: "VerifyAccess L (atTime j n) (tkAccess tk) t' = Inr g"
    with v [of g] show "Impersonated g" "cSubject g = u" "ActorUserID g = cSubject c" "ActorTenantID g = ActorTenantID c"
      "cAuthTime g = cAuthTime c" "cACR g = cACR c" by auto
    have "u \<noteq> ''''" using IssueAccessImpersonated_Inr [OF u(10)] by blast
    with g v [of g] assms(3) have "sessionClaims (Some g) = Some g" by simp
    with \<open>Impersonated g\<close> show "Impersonate C L s2 (Some g) u2 = Inl IErrNotFound" for s2 u2
      using assms(1,2) by (simp add: Impersonate_def del: sessionClaims_Some)
  qed
  have "tkRefresh tk = ''''" by (subst u(9)) (simp add: accessOnly_def)
  with tok u show "\<exists>user. stUserByID (coStore C) s u = Inr user \<and> uActive user \<and> uTenantID user = cTenantID c \<and>
         cTenantID c \<noteq> '''' \<and> ActorTenantID c \<noteq> cTenantID c \<and> \<not> Impersonated c \<and>
         p (cSubject c) (NewID (cTenantID c)) u = Inr True \<and> tkRefresh tk = '''' \<and>
         (hs256Ok L \<and> defaultPath j \<longrightarrow> (\<forall>n t'.
            (isOk (VerifyAccess L (atTime j n) (tkAccess tk) t') \<longleftrightarrow>
               t' = NewID (cTenantID c) \<and> n < jNow j + cutTTL j (coImpersonationTTL C)) \<and>
            (\<forall>g. VerifyAccess L (atTime j n) (tkAccess tk) t' = Inr g \<longrightarrow> Impersonated g \<and> cSubject g = u \<and>
               ActorUserID g = cSubject c \<and> ActorTenantID g = ActorTenantID c \<and> cAuthTime g = cAuthTime c \<and>
               cACR g = cACR c \<and> (\<forall>s2 u2. Impersonate C L s2 (Some g) u2 = Inl IErrNotFound))))"
    by (intro exI [of _ user]) simp
next
  have n: "NewID a = NewID b \<longleftrightarrow> a = b" for a b by (metis IDString_NewID)
  have f: "FromStored a = NewID b \<Longrightarrow> a = b" for a b by (metis IDString_FromStored IDString_NewID)
  assume "Impersonated c \<or> cTenantID c = '''' \<or> ActorTenantID c = cTenantID c \<or> stUserByID (coStore C) s u = Inl IErrNotFound \<or>
       (\<exists>user. stUserByID (coStore C) s u = Inr user \<and>
          (uTenantID user \<noteq> cTenantID c \<or> p (cSubject c) (NewID (cTenantID c)) u = Inr False))"
  then consider "Impersonated c" | "\<not> Valid (NewID (cTenantID c)) \<or> NewID (ActorTenantID c) = NewID (cTenantID c)"
    | "stUserByID (coStore C) s u = Inl IErrNotFound"
    | user where "stUserByID (coStore C) s u = Inr user" "FromStored (uTenantID user) \<noteq> NewID (cTenantID c)"
    | user where "stUserByID (coStore C) s u = Inr user" "p (cSubject c) (NewID (cTenantID c)) u = Inr False"
    using n f by (metis Valid_NewID_iff)
  then show "Impersonate C L s (Some c) u = Inl IErrNotFound"
    using assms by cases (simp_all add: Impersonate_def Let_def del: sessionClaims_Some Valid_NewID_iff)
qed

text \<open>A support engineer of plat, inside acme, who may act as u1.\<close>

definition exampleSupportClaims :: Claims where
  "exampleSupportClaims = exampleHomeClaims\<lparr>cSubject := ''s1'', cHomeTenantID := ''plat''\<rparr>"

definition exampleSupportCore :: "IdentMem Core" where
  "exampleSupportCore = exampleCore\<lparr>coImpersonation := Some (\<lambda>a t u. Inr (a = ''s1'' \<and> t = NewID ''acme'' \<and> u = ''u1'')),
     coImpersonationTTL := 300\<rparr>"

theorem Impersonate_names_the_human_witness:
  "Impersonate exampleSupportCore exampleJWTLib exampleIdentMem (Some exampleSupportClaims) ''u1'' = Inr (accessOnly ''tok'') \<and>
   Impersonate exampleSupportCore exampleJWTLib exampleIdentMem (Some exampleSupportClaims) ''u2'' = Inl IErrNotFound \<and>
   \<not> Impersonated exampleSupportClaims"
proof -
  have ok: "Impersonate exampleSupportCore exampleJWTLib exampleIdentMem (Some exampleSupportClaims) ''u1'' =
      Inr (accessOnly ''tok'')" by code_simp
  have w: "coImpersonation exampleSupportCore = Some (\<lambda>a t u. Inr (a = ''s1'' \<and> t = NewID ''acme'' \<and> u = ''u1''))"
    "coJWT exampleSupportCore = Some (exampleService 100)"
    "sessionClaims (Some exampleSupportClaims) = Some exampleSupportClaims"
    "coStore exampleSupportCore = memStore"
    by (simp_all add: exampleSupportCore_def example_wired exampleSupportClaims_def exampleHomeClaims_def)
  note I = Impersonate_names_the_human [OF w(1-3), of exampleJWTLib exampleIdentMem]
  have "\<exists>user. stUserByID (coStore exampleSupportCore) exampleIdentMem ''u2'' = Inr user \<and> uTenantID user \<noteq> cTenantID exampleSupportClaims"
    by (simp add: w(4) memStore_def exampleIdentMem_def NewIdentMem_def exampleNewUser_def exampleSupportClaims_def exampleHomeClaims_def)
  then have "Impersonate exampleSupportCore exampleJWTLib exampleIdentMem (Some exampleSupportClaims) ''u2'' = Inl IErrNotFound"
    using I [of "''u2''", THEN conjunct2] by blast
  with I [of "''u1''", THEN conjunct1, THEN mp, OF ok] ok show ?thesis by blast
qed

text \<open>
  Where the human's name is lost. Entering refuses a guest pass but not an
  impersonated session: claims every verifier accepts, whose subject is stored in the
  tenant acted in and is a member of another, are given a token for that other tenant
  (the mint succeeding). That token is an ordinary guest pass of the user: whoever verifies
  it reads the impersonated user as the audit actor, not the human who holds it.
\<close>

theorem EnterTenant_loses_the_human:
  assumes "coMemberships C = Some members" "coJWT C = Some j" "hs256Ok L" "defaultPath j"
    "checkAccessClaims c = Inr c" "Impersonated c" "cTenantID c = uTenantID user"
    "stUserByID (coStore C) s (cSubject c) = Inr user" "uActive user" "Valid t" "\<not> IsSingle t" "uTenantID user \<noteq> IDString t"
    "msIsMember members s (cSubject c) t = Inr True"
    "isOk (IssueAccessEntered L j (cSubject c) t (FromStored (uTenantID user)) (cAuthTime c) (cACR c) (coEnterTTL C) [])"
  shows "\<exists>s' tk. EnterTenant C L s (Some c) t = (s', Inr tk) \<and>
    (\<forall>n. isOk (VerifyAccess L (atTime j n) (tkAccess tk) t) \<longleftrightarrow> n < jNow j + cutTTL j (coEnterTTL C)) \<and>
    (\<forall>n g. VerifyAccess L (atTime j n) (tkAccess tk) t = Inr g \<longrightarrow>
       \<not> Impersonated g \<and> ActorUserID g = cSubject c \<and> ActorUserID g \<noteq> ActorUserID c)"
proof -
  have c: "cSubject c \<noteq> ''''" "0 < cAuthTime c" "cACR c \<noteq> ''''" "cActorID c \<noteq> ''''" "cActorID c \<noteq> cSubject c" "cTenantID c \<noteq> ''''"
    using assms(5,6) by (auto simp: checkAccessClaims_Inr_iff Impersonated_def)
  have sc: "sessionClaims (Some c) = Some c" using c by simp
  have may: "mayEnter C members s c user t"
    using assms(6-8,11-13) c(6) by (auto simp: mayEnter_def Entered_def Impersonated_def)
  obtain tok where tok: "IssueAccessEntered L j (cSubject c) t (FromStored (uTenantID user)) (cAuthTime c) (cACR c)
      (coEnterTTL C) [] = Inr tok" using assms(14) by (metis isl_def sum.exhaust)
  have "tkAccess (accessOnly tok) = tok" by (simp add: accessOnly_def)
  moreover have "isOk (VerifyAccess L (atTime j n) tok t) \<longleftrightarrow> n < jNow j + cutTTL j (coEnterTTL C)" for n
    using entered_verifies [OF assms(3,4) tok, of n t, THEN conjunct2]
    by (cases "VerifyAccess L (atTime j n) tok t") simp_all
  moreover have "\<not> Impersonated g \<and> ActorUserID g = cSubject c \<and> ActorUserID g \<noteq> ActorUserID c"
    if "VerifyAccess L (atTime j n) tok t = Inr g" for n g
    using entered_verifies [OF assms(3,4) tok, of n t g, THEN conjunct1, THEN mp, OF that] c
    by (simp add: ActorUserID_def)
  moreover have "EnterTenant C L s (Some c) t =
      (case hkOnTenantEntered (coHooks C) of None \<Rightarrow> s | Some hook \<Rightarrow> hook s user t, Inr (accessOnly tok))"
    using EnterTenant_mayEnter [OF assms(1,2,10) sc may, of L] assms(9) tok by simp
  ultimately show ?thesis by metis
qed

definition exampleImpersonated :: Claims where
  "exampleImpersonated = exampleHomeClaims\<lparr>cHomeTenantID := ''plat'', cActorID := ''s1''\<rparr>"

definition exampleLaundered :: Claims where
  "exampleLaundered = \<lparr>cAuthTime = 90, cACR = ''acr'', cAMR = [], cPurpose = purposeAccess, cTenantID = ''globex'',
     cHomeTenantID = ''acme'', cActorID = '''', cSubject = ''u1'', cIssuer = ''tamper'', cIssuedAt = 100, cExpiresAt = 1000\<rparr>"

theorem EnterTenant_loses_the_human_witness:
  "ActorUserID exampleImpersonated = ''s1'' \<and>
   (\<exists>s' tk. EnterTenant exampleCore (oneTokenLib exampleLaundered) exampleMemberMem (Some exampleImpersonated) (NewID ''globex'') =
      (s', Inr tk) \<and> isOk (VerifyAccess (oneTokenLib exampleLaundered) (exampleService 200) (tkAccess tk) (NewID ''globex'')))"
proof -
  let ?u = "userOf (exampleNewUser ''u1'' ''acme'')"
  have h: "defaultPath (exampleService 100)" "atTime (exampleService 100) 200 = exampleService 200"
    by (simp_all add: defaultPath_def exampleService_def)
  have c: "checkAccessClaims exampleImpersonated = Inr exampleImpersonated" "Impersonated exampleImpersonated"
    "cTenantID exampleImpersonated = uTenantID ?u"
    by (simp_all add: checkAccessClaims_Inr_iff exampleImpersonated_def exampleHomeClaims_def Impersonated_def exampleNewUser_def)
  have u: "stUserByID (coStore exampleCore) exampleMemberMem (cSubject exampleImpersonated) = Inr ?u" "uActive ?u"
    by (simp_all add: example_wired(3) memStore_def exampleMemberMem_def AddMembership_def exampleIdentMem_def NewIdentMem_def
        exampleImpersonated_def exampleHomeClaims_def)
  have t: "\<not> IsSingle (NewID ''globex'')" "uTenantID ?u \<noteq> IDString (NewID ''globex'')"
    by (simp_all add: NewID_def IsSingle_def exampleNewUser_def IDString_def)
  have m: "msIsMember memMembershipStore exampleMemberMem (cSubject exampleImpersonated) (NewID ''globex'') = Inr True"
    by (simp add: memMembershipStore_def memIsMember_def membersOf_def exampleMemberMem_def AddMembership_def
        exampleImpersonated_def exampleHomeClaims_def alist_simps)
  have i: "isOk (IssueAccessEntered (oneTokenLib exampleLaundered) (exampleService 100) (cSubject exampleImpersonated)
      (NewID ''globex'') (FromStored (uTenantID ?u)) (cAuthTime exampleImpersonated) (cACR exampleImpersonated) (coEnterTTL exampleCore) [])"
    by (simp add: IssueAccessEntered_def issueAccess_def issueAccessWithActor_def signClaims_def cutTTL_def oneTokenLib_def
        exampleLaundered_def exampleImpersonated_def exampleHomeClaims_def example_defs exampleNewUser_def purposeAccess_def id_defs)
  obtain s' tk where e: "EnterTenant exampleCore (oneTokenLib exampleLaundered) exampleMemberMem (Some exampleImpersonated)
      (NewID ''globex'') = (s', Inr tk)"
    "\<forall>n. isOk (VerifyAccess (oneTokenLib exampleLaundered) (atTime (exampleService 100) n) (tkAccess tk) (NewID ''globex'')) \<longleftrightarrow>
      n < jNow (exampleService 100) + cutTTL (exampleService 100) (coEnterTTL exampleCore)"
    using EnterTenant_loses_the_human [OF example_wired(1,2) oneTokenLib_ok h(1) c u example_wired(4) t m i] by blast
  have "200 < jNow (exampleService 100) + cutTTL (exampleService 100) (coEnterTTL exampleCore)"
    by (simp add: example_defs cutTTL_def)
  with e h(2) have "isOk (VerifyAccess (oneTokenLib exampleLaundered) (exampleService 200) (tkAccess tk) (NewID ''globex''))"
    by metis
  moreover have "ActorUserID exampleImpersonated = ''s1''" by (simp add: ActorUserID_def exampleImpersonated_def)
  ultimately show ?thesis using e(1) by blast
qed

end
