(* ===== verification/Identity_Invitation.thy ===== *)
theory Identity_Invitation
  imports Identity_Rotation
begin

text \<open>
  Package \<^verbatim>\<open>identity\<close>, invitations (\<^verbatim>\<open>invitation.go\<close>). \<^verbatim>\<open>AcceptInvitation\<close> is the
  composition of its three calls to the outside: everything up to the usability check
  (\<^verbatim>\<open>acceptCheck\<close>), the compare-and-set (\<^verbatim>\<open>acceptConsume\<close>) and the registration. The step
  relation \<^verbatim>\<open>acceptStep\<close> runs any number of accepters against one store, each between any
  two of its calls, with arbitrary other work of the system in between. The locale
  \<^verbatim>\<open>invitation_store\<close> is the contract of the port, interpreted on \<^verbatim>\<open>MemStore\<close>.
\<close>

section \<open>Operations\<close>

definition DefaultInvitationTTL :: int where
  "DefaultInvitationTTL = 7 * 24 * 60 * 60"

definition Invite :: "'s Core \<Rightarrow> CryptoLib \<Rightarrow> Draw \<Rightarrow> 's \<Rightarrow> ID \<Rightarrow> string \<Rightarrow> string \<Rightarrow> int
    \<Rightarrow> 's \<times> (ident_err + Invitation \<times> string)" where
  "Invite C K d s tenantID email invitedBy ttl =
     (case coInvitations C of
        None \<Rightarrow> (s, Inl ErrNoInvitationStore)
      | Some store \<Rightarrow> (case tenantGate tenantID of
          Some e \<Rightarrow> (s, Inl e)
        | None \<Rightarrow> (case NormaliseEmail email of
            Inl e \<Rightarrow> (s, Inl e)
          | Inr normalised \<Rightarrow>
              let ttl' = (if ttl \<le> 0 then DefaultInvitationTTL else ttl) in
              (case NewRefreshToken (drToken d) of
                 Inl _ \<Rightarrow> (s, Inl RandError)
               | Inr token \<Rightarrow> (case HashRefreshToken K token of
                   Inl _ \<Rightarrow> (s, Inl HashError)
                 | Inr h \<Rightarrow>
                     let invt = \<lparr>ivID = drRowID d, ivTenantID = IDString tenantID, ivEmail = normalised,
                                 ivTokenHash = h, ivExpiresAt = drNow d + ttl', ivAcceptedAt = 0,
                                 ivInvitedBy = invitedBy, ivCreatedAt = drNow d\<rparr> in
                     (case isCreateInvitation store s invt of
                        Inl e \<Rightarrow> (s, Inl e)
                      | Inr s' \<Rightarrow> (s', Inr (invt, token))))))))"

definition acceptCheck :: "CryptoLib \<Rightarrow> 's InvitationStore \<Rightarrow> go_time \<Rightarrow> 's \<Rightarrow> ID \<Rightarrow> string \<Rightarrow> string
    \<Rightarrow> ident_err + Invitation" where
  "acceptCheck K store now s tenantID token password =
     (case tenantGate tenantID of
        Some e \<Rightarrow> Inl e
      | None \<Rightarrow> (case validatePassword password of
          Some e \<Rightarrow> Inl e
        | None \<Rightarrow> (case HashRefreshToken K token of
            Inl _ \<Rightarrow> Inl ErrInvitationInvalid
          | Inr h \<Rightarrow> (case isInvitationByHash store s h of
              Inl e \<Rightarrow> if e = IErrNotFound then Inl ErrInvitationInvalid else Inl e
            | Inr invt \<Rightarrow>
                if ivTenantID invt \<noteq> IDString tenantID then Inl ErrInvitationInvalid
                else if \<not> Usable invt now then Inl ErrInvitationInvalid
                else Inr invt))))"

definition acceptConsume :: "'s InvitationStore \<Rightarrow> go_time \<Rightarrow> 's \<Rightarrow> Invitation \<Rightarrow> 's \<times> ident_err option" where
  "acceptConsume store now s invt =
     (case isMarkAccepted store s (ivID invt) now of
        Inl e \<Rightarrow> if e = ErrInvitationConsumed \<or> e = IErrNotFound then (s, Some ErrInvitationInvalid) else (s, Some e)
      | Inr s' \<Rightarrow> (s', None))"

definition AcceptInvitation :: "'s Core \<Rightarrow> CryptoLib \<Rightarrow> JWTLib \<Rightarrow> Draw \<Rightarrow> 's \<Rightarrow> ID \<Rightarrow> string \<Rightarrow> string
    \<Rightarrow> 's \<times> (ident_err + User \<times> Tokens)" where
  "AcceptInvitation C K L d s tenantID token password =
     (case coInvitations C of
        None \<Rightarrow> (s, Inl ErrNoInvitationStore)
      | Some store \<Rightarrow> (case acceptCheck K store (drNow d) s tenantID token password of
          Inl e \<Rightarrow> (s, Inl e)
        | Inr invt \<Rightarrow> (case acceptConsume store (drNow d) s invt of
            (s1, Some e) \<Rightarrow> (s1, Inl e)
          | (s1, None) \<Rightarrow> Register C K L d s1 (FromStored (ivTenantID invt)) (ivEmail invt) password)))"

section \<open>Concurrent accepters\<close>

datatype accepter = Calling | Checked Invitation | Consumed Invitation | Turned ident_err

record acceptCall =
  acNow :: go_time
  acTenant :: ID
  acToken :: string
  acPassword :: string

text \<open>Anything that leaves the invitations there are as they are.\<close>

definition keepsInvitations :: "'s InvitationStore \<Rightarrow> ('s \<Rightarrow> bool) \<Rightarrow> 's \<Rightarrow> 's \<Rightarrow> bool" where
  "keepsInvitations I ok s s' \<longleftrightarrow>
     ok s' \<and> (\<forall>h v. isInvitationByHash I s h = Inr v \<longrightarrow> isInvitationByHash I s' h = Inr v)"

inductive acceptStep :: "CryptoLib \<Rightarrow> 's InvitationStore \<Rightarrow> ('s \<Rightarrow> bool) \<Rightarrow> (nat \<Rightarrow> acceptCall)
    \<Rightarrow> 's \<times> (nat \<Rightarrow> accepter) \<Rightarrow> 's \<times> (nat \<Rightarrow> accepter) \<Rightarrow> bool"
  for K I ok calls where
  check: "ps p = Calling \<Longrightarrow>
    acceptCheck K I (acNow (calls p)) s (acTenant (calls p)) (acToken (calls p)) (acPassword (calls p)) = Inr v \<Longrightarrow>
    acceptStep K I ok calls (s, ps) (s, ps(p := Checked v))"
| refused: "ps p = Calling \<Longrightarrow>
    acceptCheck K I (acNow (calls p)) s (acTenant (calls p)) (acToken (calls p)) (acPassword (calls p)) = Inl e \<Longrightarrow>
    acceptStep K I ok calls (s, ps) (s, ps(p := Turned e))"
| consume: "ps p = Checked v \<Longrightarrow> acceptConsume I (acNow (calls p)) s v = (s', None) \<Longrightarrow>
    acceptStep K I ok calls (s, ps) (s', ps(p := Consumed v))"
| lost: "ps p = Checked v \<Longrightarrow> acceptConsume I (acNow (calls p)) s v = (s', Some e) \<Longrightarrow>
    acceptStep K I ok calls (s, ps) (s', ps(p := Turned e))"
| other: "keepsInvitations I ok s s' \<Longrightarrow> acceptStep K I ok calls (s, ps) (s', ps)"

inductive acceptRun :: "CryptoLib \<Rightarrow> 's InvitationStore \<Rightarrow> ('s \<Rightarrow> bool) \<Rightarrow> (nat \<Rightarrow> acceptCall)
    \<Rightarrow> 's \<Rightarrow> 's \<times> (nat \<Rightarrow> accepter) \<Rightarrow> bool"
  for K I ok calls s0 where
  start: "acceptRun K I ok calls s0 (s0, \<lambda>_. Calling)"
| step: "acceptRun K I ok calls s0 c \<Longrightarrow> acceptStep K I ok calls c c' \<Longrightarrow> acceptRun K I ok calls s0 c'"

inductive_cases acceptStepE: "acceptStep K I ok calls c c'"

section \<open>The invitation port\<close>

locale invitation_store =
  fixes I :: "'s InvitationStore" and ok :: "'s \<Rightarrow> bool"
  assumes hash_self: "ok s \<Longrightarrow> isInvitationByHash I s h = Inr v \<Longrightarrow> ivTokenHash v = h"
    and id_unique: "ok s \<Longrightarrow> isInvitationByHash I s h = Inr v \<Longrightarrow> isInvitationByHash I s h' = Inr w \<Longrightarrow>
      ivID v = ivID w \<Longrightarrow> h = h'"
    and created: "ok s \<Longrightarrow> \<forall>h w. isInvitationByHash I s h = Inr w \<longrightarrow> ivID w \<noteq> ivID v \<Longrightarrow>
      isCreateInvitation I s v = Inr s' \<Longrightarrow>
      ok s' \<and> isInvitationByHash I s' = (isInvitationByHash I s)(ivTokenHash v := Inr v)"
    and marked: "ok s \<Longrightarrow> isInvitationByHash I s h = Inr v \<Longrightarrow> isMarkAccepted I s (ivID v) at = Inr s' \<Longrightarrow>
      Pending v \<and> ok s' \<and> isInvitationByHash I s' = (isInvitationByHash I s)(h := Inr (v\<lparr>ivAcceptedAt := at\<rparr>))"
    and mark_consumed: "ok s \<Longrightarrow> isInvitationByHash I s h = Inr v \<Longrightarrow>
      isMarkAccepted I s (ivID v) at = Inl e \<longleftrightarrow> \<not> Pending v \<and> e = ErrInvitationConsumed"
begin

lemma acceptConsume_ok:
  assumes "ok s" "isInvitationByHash I s (ivTokenHash v) = Inr w" "ivID w = ivID v" "acceptConsume I at s v = (s', None)"
  shows "Pending w \<and> ok s' \<and>
    isInvitationByHash I s' = (isInvitationByHash I s)(ivTokenHash v := Inr (w\<lparr>ivAcceptedAt := at\<rparr>))"
  using assms marked [OF assms(1,2), of at s'] by (auto simp: acceptConsume_def split: sum.splits if_splits)

lemma acceptConsume_lost: "acceptConsume I at s v = (s', Some e) \<Longrightarrow> s' = s"
  by (auto simp: acceptConsume_def split: sum.splits if_splits)

lemma acceptCheck_Inr:
  assumes "ok s" "acceptCheck K I now s t tok pw = Inr v"
  shows "Valid t \<and> HashRefreshToken K tok = Inr (ivTokenHash v) \<and> isInvitationByHash I s (ivTokenHash v) = Inr v \<and>
    ivTenantID v = IDString t \<and> Usable v now \<and> validatePassword pw = None"
  using assms hash_self [OF assms(1)]
  by (auto simp: acceptCheck_def tenantGate_def split: option.splits sum.splits if_splits)

text \<open>What holds of every interleaving.\<close>

definition runOk :: "'s \<times> (nat \<Rightarrow> accepter) \<Rightarrow> bool" where
  "runOk c \<longleftrightarrow> ok (fst c) \<and>
     (\<forall>p v. snd c p = Checked v \<or> snd c p = Consumed v \<longrightarrow>
        (\<exists>w. isInvitationByHash I (fst c) (ivTokenHash v) = Inr w \<and> ivID w = ivID v \<and>
           (snd c p = Consumed v \<longrightarrow> \<not> Pending w))) \<and>
     (\<forall>p q v w. snd c p = Consumed v \<and> snd c q = Consumed w \<and> ivID v = ivID w \<longrightarrow> p = q)"

lemma runOk_row:
  assumes "runOk (s, ps)" "ps p = Checked v \<or> ps p = Consumed v"
  shows "ok s \<and> (\<exists>w. isInvitationByHash I s (ivTokenHash v) = Inr w \<and> ivID w = ivID v \<and>
    (ps p = Consumed v \<longrightarrow> \<not> Pending w))"
  using assms unfolding runOk_def fst_conv snd_conv by blast

lemma runOk_start: "ok s \<Longrightarrow> runOk (s, \<lambda>_. Calling)"
  by (simp add: runOk_def)

lemma runOk_step:
  assumes st: "acceptStep K I ok calls c c'" and inv: "runOk c" and clock: "\<forall>p. acNow (calls p) \<noteq> 0"
  shows "runOk c'"
  using st
proof (cases rule: acceptStep.cases)
  case (check ps p s v)
  with acceptCheck_Inr [of s K] inv show ?thesis by (auto simp: runOk_def)
next
  case (refused ps p s e)
  with inv show ?thesis by (auto simp: runOk_def)
next
  case (lost ps p v s s' e)
  have "s' = s" by (rule acceptConsume_lost [OF lost(4)])
  with inv lost show ?thesis by (auto simp: runOk_def)
next
  case (other s s' ps)
  then have "ok s'" "isInvitationByHash I s h = Inr v \<Longrightarrow> isInvitationByHash I s' h = Inr v" for h v
    by (simp_all add: keepsInvitations_def)
  with inv show ?thesis unfolding runOk_def other(1,2) fst_conv snd_conv by blast
next
  case (consume ps p v s s')
  have inv': "runOk (s, ps)" using inv consume(1) by simp
  then obtain w where w: "ok s" "isInvitationByHash I s (ivTokenHash v) = Inr w" "ivID w = ivID v"
    using runOk_row [of s ps p v] consume(3) by blast
  let ?at = "acNow (calls p)"
  have m: "Pending w" "ok s'" "isInvitationByHash I s' = (isInvitationByHash I s)(ivTokenHash v := Inr (w\<lparr>ivAcceptedAt := ?at\<rparr>))"
    using acceptConsume_ok [OF w consume(4)] by auto
  have fresh: "ivID u \<noteq> ivID v" if qu: "ps q = Consumed u" for q u
  proof
    assume same: "ivID u = ivID v"
    obtain x where x: "isInvitationByHash I s (ivTokenHash u) = Inr x" "ivID x = ivID u" "\<not> Pending x"
      using runOk_row [OF inv', of q u] qu by blast
    have "ivTokenHash u = ivTokenHash v" using id_unique [OF w(1) x(1) w(2)] x(2) w(3) same by simp
    with x w m(1) show False by simp
  qed
  have row: "\<exists>y. isInvitationByHash I s' (ivTokenHash u) = Inr y \<and> ivID y = ivID u \<and> (ps q = Consumed u \<longrightarrow> \<not> Pending y)"
    if u: "ps q = Checked u \<or> ps q = Consumed u" for q u
  proof -
    obtain x where x: "isInvitationByHash I s (ivTokenHash u) = Inr x" "ivID x = ivID u" "ps q = Consumed u \<longrightarrow> \<not> Pending x"
      using runOk_row [OF inv' u] by blast
    show ?thesis
    proof (cases "ivTokenHash u = ivTokenHash v")
      case True
      with x w have "x = w" by simp
      with True x m(1) show ?thesis unfolding m(3) by auto
    next
      case False
      with x show ?thesis unfolding m(3) by simp
    qed
  qed
  have self: "isInvitationByHash I s' (ivTokenHash v) = Inr (w\<lparr>ivAcceptedAt := ?at\<rparr>)" unfolding m(3) by simp
  have dead: "\<not> Pending (w\<lparr>ivAcceptedAt := ?at\<rparr>)" using clock by (simp add: Pending_def)
  have "ok (fst c')" using consume m(2) by simp
  moreover have "\<exists>y. isInvitationByHash I (fst c') (ivTokenHash u) = Inr y \<and> ivID y = ivID u \<and> (snd c' q = Consumed u \<longrightarrow> \<not> Pending y)"
    if "snd c' q = Checked u \<or> snd c' q = Consumed u" for q u
    using that row [of q u] self dead w(3) consume(2) by (cases "q = p") auto
  moreover have "q = r" if "snd c' q = Consumed u \<and> snd c' r = Consumed x \<and> ivID u = ivID x" for q r u x
  proof -
    have old: "ps q = Consumed u \<Longrightarrow> ps r = Consumed x \<Longrightarrow> q = r"
      using inv' that unfolding runOk_def snd_conv by blast
    show ?thesis
      using that fresh [of q u] fresh [of r x] old unfolding consume(2) by (cases "q = p"; cases "r = p") auto
  qed
  ultimately show ?thesis unfolding runOk_def by blast
qed

lemma acceptRun_ok:
  assumes "acceptRun K I ok calls s0 c" "ok s0" "\<forall>p. acNow (calls p) \<noteq> 0"
  shows "runOk c"
  using assms(1)
proof (induction rule: acceptRun.induct)
  case start
  then show ?case using assms(2) by (rule runOk_start)
next
  case (step c c')
  then show ?case using runOk_step [OF _ _ assms(3)] by blast
qed

text \<open>Who is past the check was checked with the token and in the tenant of the call.\<close>

definition callsOk :: "CryptoLib \<Rightarrow> (nat \<Rightarrow> acceptCall) \<Rightarrow> (nat \<Rightarrow> accepter) \<Rightarrow> bool" where
  "callsOk K calls ps \<longleftrightarrow> (\<forall>p v. ps p = Checked v \<or> ps p = Consumed v \<longrightarrow>
     HashRefreshToken K (acToken (calls p)) = Inr (ivTokenHash v) \<and> ivTenantID v = IDString (acTenant (calls p)) \<and>
     Usable v (acNow (calls p)))"

lemma callsOk_step:
  assumes "acceptStep K I ok calls c c'" "ok (fst c)" "callsOk K calls (snd c)"
  shows "callsOk K calls (snd c')"
  using assms(1)
proof (cases rule: acceptStep.cases)
  case (check ps p s v)
  then have "HashRefreshToken K (acToken (calls p)) = Inr (ivTokenHash v) \<and> ivTenantID v = IDString (acTenant (calls p)) \<and>
      Usable v (acNow (calls p))"
    using acceptCheck_Inr [OF _ check(4)] assms(2) by simp
  with assms(3) check(1,2) show ?thesis by (auto simp: callsOk_def)
qed (use assms(3) in \<open>auto simp: callsOk_def\<close>)

lemma acceptRun_calls:
  assumes "acceptRun K I ok calls s0 c" "ok s0" "\<forall>p. acNow (calls p) \<noteq> 0"
  shows "callsOk K calls (snd c)"
  using assms(1)
proof (induction rule: acceptRun.induct)
  case start
  then show ?case by (simp add: callsOk_def)
next
  case (step c c')
  have "ok (fst c)" using acceptRun_ok [OF step(1) assms(2,3)] by (simp add: runOk_def)
  with step show ?case using callsOk_step by blast
qed

text \<open>A consumed invitation is dead for every token that names it.\<close>

lemma consumed_dead:
  assumes "runOk (s, ps)" "ps p = Consumed v" "HashRefreshToken K tok = Inr (ivTokenHash v)" "Valid t" "validatePassword pw = None"
  shows "acceptCheck K I now s t tok pw = Inl ErrInvitationInvalid"
proof -
  obtain w where "isInvitationByHash I s (ivTokenHash v) = Inr w" "\<not> Pending w"
    using runOk_row [OF assms(1), of p v] assms(2) by blast
  with assms(3-5) show ?thesis by (simp add: acceptCheck_def tenantGate_def Usable_def)
qed

text \<open>The one winner.\<close>

lemma single_winner:
  assumes "acceptRun K I ok calls s0 (s, ps)" "ok s0" "\<forall>p. acNow (calls p) \<noteq> 0" "ps p = Consumed v" "ps q = Consumed w"
    "HashRefreshToken K (acToken (calls q)) = HashRefreshToken K (acToken (calls p)) \<or> ivID w = ivID v"
  shows "q = p"
proof -
  have run: "runOk (s, ps)" by (rule acceptRun_ok [OF assms(1-3)])
  have c: "callsOk K calls ps" using acceptRun_calls [OF assms(1-3)] by simp
  have "ivID w = ivID v"
  proof (cases "ivID w = ivID v")
    case False
    then have "ivTokenHash w = ivTokenHash v"
      using assms(4-6) c unfolding callsOk_def by (metis sum.inject(2))
    then show ?thesis using runOk_row [OF run, of p v] runOk_row [OF run, of q w] assms(4,5) by auto
  qed
  with run assms(4,5) show ?thesis unfolding runOk_def snd_conv by blast
qed

end

section \<open>MemStore\<close>

lemma memInvitationByHash_Inr:
  assumes "identMemOk m"
  shows "memInvitationByHash m h = Inr v \<longleftrightarrow> map_of (invitations m) (ivID v) = Some v \<and> ivTokenHash v = h"
proof -
  have ix: "indexOk ivID ivTokenHash (invitations m) (invHashToID m)" using assms by (simp add: identMemOk_def)
  show ?thesis
  proof (cases "map_of (invHashToID m) h")
    case None
    have "map_of (invitations m) (ivID v) = Some v \<Longrightarrow> ivTokenHash v \<noteq> h"      using indexOk_row [OF ix, of "ivID v" v] None by (metis option.distinct(1))
    with None show ?thesis by (auto simp: memInvitationByHash_def)
  next
    case (Some i)
    then obtain w where w: "map_of (invitations m) i = Some w" "ivTokenHash w = h" using indexOk_key [OF ix] by blast
    then have i: "ivID w = i" using indexOk_row [OF ix] by blast
    have "map_of (invitations m) (ivID v) = Some v \<Longrightarrow> ivTokenHash v = h \<Longrightarrow> v = w"
      using indexOk_row [OF ix, of "ivID v" v] Some w by simp
    moreover have "memInvitationByHash m h = Inr w" using Some w(1) by (simp add: memInvitationByHash_def)
    ultimately show ?thesis using w i by (metis sum.inject(2))
  qed
qed

lemma memInvitationByHash_Inl: "memInvitationByHash m h = Inl e \<Longrightarrow> e = IErrNotFound"
  by (auto simp: memInvitationByHash_def split: option.splits)

lemma memInvitation_marked:
  assumes ok: "identMemOk m" and v: "memInvitationByHash m h = Inr v" and mk: "memMarkAccepted m (ivID v) at = Inr m'"
  shows "Pending v \<and> identMemOk m' \<and> memInvitationByHash m' = (memInvitationByHash m)(h := Inr (v\<lparr>ivAcceptedAt := at\<rparr>))"
proof -
  have r: "map_of (invitations m) (ivID v) = Some v" "ivTokenHash v = h"
    using v memInvitationByHash_Inr [OF ok] by simp_all
  have m': "m' = m\<lparr>invitations := AList.update (ivID v) (v\<lparr>ivAcceptedAt := at\<rparr>) (invitations m)\<rparr>" "Pending v"
    using mk r(1) by (auto simp: memMarkAccepted_def Pending_def split: if_splits)
  have ix: "indexOk ivID ivTokenHash (invitations m) (invHashToID m)" using ok by (simp add: identMemOk_def)
  have "memInvitationByHash m' k = ((memInvitationByHash m)(h := Inr (v\<lparr>ivAcceptedAt := at\<rparr>))) k" for k
  proof (cases "map_of (invHashToID m) k")
    case None
    moreover have "k \<noteq> h" using None indexOk_row [OF ix r(1)] r(2) by auto
    ultimately show ?thesis by (simp add: m' memInvitationByHash_def)
  next
    case (Some i)
    then obtain w where w: "map_of (invitations m) i = Some w" "ivTokenHash w = k"
      using indexOk_key [OF ix] by blast
    then have "i = ivID v \<longleftrightarrow> k = h"
      using r indexOk_row [OF ix] Some by (metis option.inject)
    with Some show ?thesis by (auto simp: m' memInvitationByHash_def alist_simps)
  qed
  with m' memMarkAccepted_ok [OF ok mk] show ?thesis by auto
qed

lemma memInvitation_created:
  assumes ok: "identMemOk m" and fresh: "map_of (invitations m) (ivID v) = None" and mk: "memCreateInvitation m v = Inr m'"
  shows "identMemOk m' \<and> memInvitationByHash m' = (memInvitationByHash m)(ivTokenHash v := Inr v)"
proof -
  have m': "m' = m\<lparr>invitations := AList.update (ivID v) v (invitations m),
      invHashToID := AList.update (ivTokenHash v) (ivID v) (invHashToID m)\<rparr>"
    using mk by (auto simp: memCreateInvitation_def split: if_splits)
  have ix: "indexOk ivID ivTokenHash (invitations m) (invHashToID m)" using ok by (simp add: identMemOk_def)
  have "i \<noteq> ivID v" if "map_of (invHashToID m) k = Some i" for k i
    using indexOk_key [OF ix that] fresh by auto
  then have "memInvitationByHash m' k = ((memInvitationByHash m)(ivTokenHash v := Inr v)) k" for k
    by (cases "map_of (invHashToID m) k") (auto simp: m' memInvitationByHash_def alist_simps)
  with memCreateInvitation_ok [OF ok fresh mk] show ?thesis by auto
qed

interpretation mem_invitation: invitation_store memInvitationStore identMemOk
proof (unfold_locales, goal_cases)
  case (1 s h v)
  then show ?case by (simp add: memInvitationStore_def memInvitationByHash_Inr)
next
  case (2 s h v h' w)
  then have "Some v = Some w" by (simp add: memInvitationStore_def memInvitationByHash_Inr)
  with 2 show ?case by (simp add: memInvitationStore_def memInvitationByHash_Inr)
next
  case (3 s v s')
  have "map_of (invitations s) (ivID v) = None"
  proof (rule ccontr)
    assume "map_of (invitations s) (ivID v) \<noteq> None"
    then obtain w where w: "map_of (invitations s) (ivID v) = Some w" by blast
    have "ivID w = ivID v" using 3(1) w indexOk_row unfolding identMemOk_def by metis
    with w have "memInvitationByHash s (ivTokenHash w) = Inr w" by (simp add: memInvitationByHash_Inr [OF 3(1)])
    with 3(2) \<open>ivID w = ivID v\<close> show False by (simp add: memInvitationStore_def)
  qed
  with 3 show ?case using memInvitation_created by (simp add: memInvitationStore_def)
next
  case (4 s h v at s')
  then show ?case using memInvitation_marked [of s h v at s'] by (simp add: memInvitationStore_def)
next
  case (5 s h v at e)
  then have "map_of (invitations s) (ivID v) = Some v" by (simp add: memInvitationStore_def memInvitationByHash_Inr)
  then show ?case by (auto simp: memInvitationStore_def memMarkAccepted_def Pending_def)
qed

text \<open>Registering leaves the invitations alone, where no hook is installed.\<close>

lemma issueTokens_invitations:
  assumes "coStore C = memStore" "issueTokens C K L d m u t authTime acr amr = (m', r)"
  shows "invitations m' = invitations m \<and> invHashToID m' = invHashToID m"
  using assms by (auto simp: issueTokens_def memStore_def memCreateRefreshSession_def Let_def split: sum.splits if_splits)

lemma Register_invitations:
  assumes "coStore C = memStore" "hkOnRegistered (coHooks C) = None" "Register C K L d m t email pw = (m', r)"
  shows "invitations m' = invitations m \<and> invHashToID m' = invHashToID m"
proof -
  have "invitations m1 = invitations m \<and> invHashToID m1 = invHashToID m" if "memCreateUser m n f = Inr m1" for n f m1
    using that by (auto simp: memCreateUser_def split: if_splits)
  then show ?thesis
    using assms issueTokens_invitations [OF assms(1)]
    by (auto simp: Register_def memStore_def Let_def split: sum.splits option.splits prod.splits)
qed

lemma memInvitationByHash_cong:
  "invitations m' = invitations m \<Longrightarrow> invHashToID m' = invHashToID m \<Longrightarrow> memInvitationByHash m' = memInvitationByHash m"
  by (rule ext) (simp add: memInvitationByHash_def cong: option.case_cong)

section \<open>Properties\<close>

lemma acceptCheck_mem_Inr:
  assumes "identMemOk m" "Valid t" "validatePassword pw = None"
  shows "acceptCheck K memInvitationStore now m t tok pw = Inr v \<longleftrightarrow> HashRefreshToken K tok = Inr (ivTokenHash v) \<and>
    map_of (invitations m) (ivID v) = Some v \<and> ivTenantID v = IDString t \<and> Usable v now"
proof (cases "HashRefreshToken K tok")
  case (Inl e)
  then show ?thesis using assms by (simp add: acceptCheck_def tenantGate_def)
next
  case (Inr h)
  have "acceptCheck K memInvitationStore now m t tok pw = Inr v \<longleftrightarrow>
      memInvitationByHash m h = Inr v \<and> ivTenantID v = IDString t \<and> Usable v now"
    using Inr assms by (auto simp: acceptCheck_def tenantGate_def memInvitationStore_def split: sum.splits)
  then show ?thesis using Inr memInvitationByHash_Inr [OF assms(1), of h v] by auto
qed

lemma acceptCheck_mem_Inl:
  assumes "Valid t" "validatePassword pw = None" "acceptCheck K memInvitationStore now m t tok pw = Inl e"
  shows "e = ErrInvitationInvalid"
  using assms memInvitationByHash_Inl
  by (auto simp: acceptCheck_def tenantGate_def memInvitationStore_def split: sum.splits if_splits)

text \<open>
  What an invitation is, on the reference store. A created one is for the caller's
  tenant and the normalised address, pending, and dies after the time asked for, or after
  seven days where none was; the row holds the hash of the token and not the token.
  Until then the token is good in that tenant, in no other, and from then on nowhere, and
  no other invitation is touched.
\<close>

theorem Invite_roundtrip:
  assumes "identMemOk m" "coInvitations C = Some memInvitationStore" "map_of (invitations m) (drRowID d) = None"
    "Invite C K d m t email by ttl = (m', Inr (v, tok))"
  shows "identMemOk m' \<and> ivTenantID v = IDString t \<and> NormaliseEmail email = Inr (ivEmail v) \<and> Pending v \<and>
    ivExpiresAt v = drNow d + (if ttl \<le> 0 then 7 * 24 * 3600 else ttl) \<and>
    HashRefreshToken K tok = Inr (ivTokenHash v) \<and>
    (\<forall>now t' pw. Valid t' \<and> validatePassword pw = None \<longrightarrow> acceptCheck K memInvitationStore now m' t' tok pw =
       (if t' = t \<and> now < ivExpiresAt v then Inr v else Inl ErrInvitationInvalid)) \<and>
    (\<forall>h. h \<noteq> ivTokenHash v \<longrightarrow> memInvitationByHash m' h = memInvitationByHash m h)"
proof -
  have t: "Valid t" using assms(2,4) by (auto simp: Invite_def tenantGate_def split: if_splits)
  obtain e where e: "NormaliseEmail email = Inr e"
    using assms(2,4) t by (auto simp: Invite_def tenantGate_def split: sum.splits)
  obtain k where k: "NewRefreshToken (drToken d) = Inr k"
    using assms(2,4) t e by (auto simp: Invite_def tenantGate_def Let_def split: sum.splits)
  obtain h where h: "HashRefreshToken K k = Inr h"
    using assms(2,4) t e k by (auto simp: Invite_def tenantGate_def Let_def split: sum.splits)
  have r: "memCreateInvitation m v = Inr m'" "tok = k" "v = \<lparr>ivID = drRowID d, ivTenantID = IDString t, ivEmail = e,
      ivTokenHash = h, ivExpiresAt = drNow d + (if ttl \<le> 0 then DefaultInvitationTTL else ttl), ivAcceptedAt = 0,
      ivInvitedBy = by, ivCreatedAt = drNow d\<rparr>"
    using assms(2,4) t e k h by (auto simp: Invite_def tenantGate_def Let_def memInvitationStore_def split: sum.splits)
  have m': "identMemOk m'" "memInvitationByHash m' = (memInvitationByHash m)(h := Inr v)"
    using memInvitation_created [OF assms(1) _ r(1)] assms(3) by (simp_all add: r(3))
  have "acceptCheck K memInvitationStore now m' t' tok pw =
      (if t' = t \<and> now < ivExpiresAt v then Inr v else Inl ErrInvitationInvalid)"
    if "Valid t'" "validatePassword pw = None" for now t' pw
    using that h r(2) m'(2) t IDString_eq_iff [of t t']
    by (auto simp: acceptCheck_def tenantGate_def memInvitationStore_def Usable_def Expired_def Pending_def r(3))
  then show ?thesis using m' e h r(2) by (simp add: r(3) Pending_def DefaultInvitationTTL_def)
qed

theorem Invite_roundtrip_witness:
  "\<exists>m' v tok. Invite exampleCore exampleCrypto exampleDraw exampleIdentMem (NewID ''acme'') ''New@x.io'' ''u1'' 0 = (m', Inr (v, tok)) \<and>
     acceptCheck exampleCrypto memInvitationStore 200 m' (NewID ''acme'') tok ''password'' = Inr v \<and>
     acceptCheck exampleCrypto memInvitationStore 200 m' (NewID ''globex'') tok ''password'' = Inl ErrInvitationInvalid"
proof -
  have "isOk (snd (Invite exampleCore exampleCrypto exampleDraw exampleIdentMem (NewID ''acme'') ''New@x.io'' ''u1'' 0))"
    by code_simp
  then obtain m' v tok where i: "Invite exampleCore exampleCrypto exampleDraw exampleIdentMem (NewID ''acme'') ''New@x.io'' ''u1'' 0
      = (m', Inr (v, tok))"
    by (metis isl_def prod.collapse sum.exhaust)
  have c: "coInvitations exampleCore = Some memInvitationStore" "map_of (invitations exampleIdentMem) (drRowID exampleDraw) = None"
    by (simp_all add: example_defs exampleIdentMem_def NewIdentMem_def)
  have pw: "validatePassword ''password'' = None" by code_simp
  note R = Invite_roundtrip [OF identReach_ok [OF exampleIdentMem_reach] c i]
  have "200 < ivExpiresAt v" using R by (simp add: exampleDraw_def)
  moreover have "NewID ''globex'' \<noteq> NewID ''acme''" by (simp add: NewID_def)
  ultimately show ?thesis using R pw i by (metis Valid_NewID_iff list.distinct(1))
qed

text \<open>
  What accepting does, on the reference store. It succeeds only for a token whose hash
  is that of a pending, unexpired invitation of the caller's tenant, and then the account
  has the invited tenant and the invited address, whatever the caller sent, the row is
  accepted at that moment, and the token is refused from then on in every tenant with
  nothing changed. A password the policy refuses burns nothing. Every other way of having
  no good token is one answer and changes nothing. The price of consuming first: when the
  account cannot be created the invitation is spent all the same.
\<close>

theorem AcceptInvitation_outcome:
  assumes "identMemOk m" "coStore C = memStore" "coInvitations C = Some memInvitationStore"
    "hkOnRegistered (coHooks C) = None" "0 < drNow d" "Valid t"
  shows "(AcceptInvitation C K L d m t tok pw = (m', r) \<and> (\<exists>v. acceptCheck K memInvitationStore (drNow d) m t tok pw = Inr v) \<longrightarrow>
      (\<exists>v. HashRefreshToken K tok = Inr (ivTokenHash v) \<and> map_of (invitations m) (ivID v) = Some v \<and>
         ivTenantID v = IDString t \<and> Pending v \<and> drNow d < ivExpiresAt v \<and>
         map_of (invitations m') (ivID v) = Some (v\<lparr>ivAcceptedAt := drNow d\<rparr>) \<and>
         (\<forall>u tk. r = Inr (u, tk) \<longrightarrow> uTenantID u = ivTenantID v \<and> NormaliseEmail (ivEmail v) = Inr (uEmail u)) \<and>
         (\<forall>d' t' pw'. Valid t' \<and> validatePassword pw' = None \<longrightarrow>
            AcceptInvitation C K L d' m' t' tok pw' = (m', Inl ErrInvitationInvalid)))) \<and>
    (\<forall>e. validatePassword pw = Some e \<longrightarrow> AcceptInvitation C K L d m t tok pw = (m, Inl e)) \<and>
    (validatePassword pw = None \<and> (\<forall>v. acceptCheck K memInvitationStore (drNow d) m t tok pw \<noteq> Inr v) \<longrightarrow>
       AcceptInvitation C K L d m t tok pw = (m, Inl ErrInvitationInvalid))"
proof (intro conjI allI impI)
  assume a: "AcceptInvitation C K L d m t tok pw = (m', r) \<and> (\<exists>v. acceptCheck K memInvitationStore (drNow d) m t tok pw = Inr v)"
  then obtain v where v: "acceptCheck K memInvitationStore (drNow d) m t tok pw = Inr v" by blast
  have pw: "validatePassword pw = None" using v assms(6) by (auto simp: acceptCheck_def tenantGate_def split: option.splits)
  have f: "HashRefreshToken K tok = Inr (ivTokenHash v)" "map_of (invitations m) (ivID v) = Some v"
    "ivTenantID v = IDString t" "Usable v (drNow d)"
    using acceptCheck_mem_Inr [OF assms(1,6) pw, of K "drNow d" tok v] v by auto
  then have u: "Pending v" "drNow d < ivExpiresAt v" by (auto simp: Usable_def Expired_def)
  obtain m1 where m1: "memMarkAccepted m (ivID v) (drNow d) = Inr m1"
    using f(2) u(1) by (simp add: memMarkAccepted_def Pending_def)
  have run: "Register C K L d m1 (FromStored (ivTenantID v)) (ivEmail v) pw = (m', r)"
    using a assms(3) v m1 by (simp add: AcceptInvitation_def acceptConsume_def memInvitationStore_def)
  have inv: "invitations m' = invitations m1" "invHashToID m' = invHashToID m1"
    using Register_invitations [OF assms(2,4) run] by simp_all
  have "memInvitationByHash m (ivTokenHash v) = Inr v" using f(2) memInvitationByHash_Inr [OF assms(1)] by simp
  then have k: "identMemOk m1" "memInvitationByHash m1 (ivTokenHash v) = Inr (v\<lparr>ivAcceptedAt := drNow d\<rparr>)"
    using memInvitation_marked [OF assms(1) _ m1, of "ivTokenHash v"] by simp_all
  have row: "map_of (invitations m') (ivID v) = Some (v\<lparr>ivAcceptedAt := drNow d\<rparr>)"
    using memInvitationByHash_Inr [OF k(1)] k(2) inv by simp
  have dead: "AcceptInvitation C K L d' m' t' tok pw' = (m', Inl ErrInvitationInvalid)"
    if "Valid t'" "validatePassword pw' = None" for d' t' pw'
  proof -
    have "memInvitationByHash m' (ivTokenHash v) = Inr (v\<lparr>ivAcceptedAt := drNow d\<rparr>)"
      using k(2) memInvitationByHash_cong [OF inv] by simp
    then have "acceptCheck K memInvitationStore (drNow d') m' t' tok pw' = Inl ErrInvitationInvalid"
      using that f(1) assms(5) by (simp add: acceptCheck_def tenantGate_def memInvitationStore_def Usable_def Pending_def)
    then show ?thesis using assms(3) by (simp add: AcceptInvitation_def)
  qed
  have acc: "uTenantID w = ivTenantID v \<and> NormaliseEmail (ivEmail v) = Inr (uEmail w)" if "r = Inr (w, tk)" for w tk
    using Register_Inr [OF run [unfolded that] assms(2)]
    by (metis IDString_FromStored User.select_convs(2,3))
  show "\<exists>v. HashRefreshToken K tok = Inr (ivTokenHash v) \<and> map_of (invitations m) (ivID v) = Some v \<and>
         ivTenantID v = IDString t \<and> Pending v \<and> drNow d < ivExpiresAt v \<and>
         map_of (invitations m') (ivID v) = Some (v\<lparr>ivAcceptedAt := drNow d\<rparr>) \<and>
         (\<forall>u tk. r = Inr (u, tk) \<longrightarrow> uTenantID u = ivTenantID v \<and> NormaliseEmail (ivEmail v) = Inr (uEmail u)) \<and>
         (\<forall>d' t' pw'. Valid t' \<and> validatePassword pw' = None \<longrightarrow>
            AcceptInvitation C K L d' m' t' tok pw' = (m', Inl ErrInvitationInvalid))"
    using f(1-3) u row dead acc by blast
next
  show "AcceptInvitation C K L d m t tok pw = (m, Inl e)" if "validatePassword pw = Some e" for e
    using that assms(3,6) by (simp add: AcceptInvitation_def acceptCheck_def tenantGate_def)
next
  assume n: "validatePassword pw = None \<and> (\<forall>v. acceptCheck K memInvitationStore (drNow d) m t tok pw \<noteq> Inr v)"
  then obtain e where "acceptCheck K memInvitationStore (drNow d) m t tok pw = Inl e" by (metis sum.exhaust)
  with n acceptCheck_mem_Inl [OF assms(6)] assms(3) show "AcceptInvitation C K L d m t tok pw = (m, Inl ErrInvitationInvalid)"
    by (simp add: AcceptInvitation_def)
qed

definition exampleInviteMem :: IdentMem where
  "exampleInviteMem = fst (Invite exampleCore exampleCrypto exampleDraw exampleIdentMem (NewID ''acme'') ''New@x.io'' ''u1'' 0)"

definition exampleInviteToken :: string where
  "exampleInviteToken = projr (NewRefreshToken (Some [9, 9, 9]))"

definition exampleAcceptDraw :: Draw where
  "exampleAcceptDraw = \<lparr>drNow = 200, drUserID = ''u7'', drRowID = ''r7'', drToken = Some [7, 7, 7]\<rparr>"

lemma exampleInviteMem_ok: "identMemOk exampleInviteMem"
proof -
  have "isOk (snd (Invite exampleCore exampleCrypto exampleDraw exampleIdentMem (NewID ''acme'') ''New@x.io'' ''u1'' 0))"
    by code_simp
  then obtain v tok where "Invite exampleCore exampleCrypto exampleDraw exampleIdentMem (NewID ''acme'') ''New@x.io'' ''u1'' 0
      = (exampleInviteMem, Inr (v, tok))"
    unfolding exampleInviteMem_def by (metis isl_def prod.collapse sum.exhaust)
  moreover have "coInvitations exampleCore = Some memInvitationStore" by (simp add: example_defs)
  ultimately obtain v where "memCreateInvitation exampleIdentMem v = Inr exampleInviteMem" "ivID v = drRowID exampleDraw"
    by (auto simp: Invite_def tenantGate_def Let_def memInvitationStore_def split: sum.splits if_splits)
  then show ?thesis
    using memCreateInvitation_ok [OF identReach_ok [OF exampleIdentMem_reach]]
    by (simp add: exampleIdentMem_def NewIdentMem_def)
qed

theorem AcceptInvitation_outcome_witness:
  "\<exists>m' r. AcceptInvitation exampleCore exampleCrypto exampleJWTLib exampleAcceptDraw exampleInviteMem (NewID ''acme'')
       exampleInviteToken ''password'' = (m', r) \<and> isOk r \<and>
     AcceptInvitation exampleCore exampleCrypto exampleJWTLib exampleAcceptDraw m' (NewID ''acme'') exampleInviteToken ''password''
       = (m', Inl ErrInvitationInvalid)"
proof -
  have ok: "isOk (snd (AcceptInvitation exampleCore exampleCrypto exampleJWTLib exampleAcceptDraw exampleInviteMem
      (NewID ''acme'') exampleInviteToken ''password''))" by code_simp
  have chk: "isOk (acceptCheck exampleCrypto memInvitationStore (drNow exampleAcceptDraw) exampleInviteMem (NewID ''acme'')
      exampleInviteToken ''password'')" by code_simp
  obtain m' r where a: "AcceptInvitation exampleCore exampleCrypto exampleJWTLib exampleAcceptDraw exampleInviteMem (NewID ''acme'')
      exampleInviteToken ''password'' = (m', r)" by (metis prod.exhaust)
  have c: "coStore exampleCore = memStore" "coInvitations exampleCore = Some memInvitationStore"
    "hkOnRegistered (coHooks exampleCore) = None" "0 < drNow exampleAcceptDraw" "Valid (NewID ''acme'')"
    by (simp_all add: example_defs exampleAcceptDraw_def)
  have pw: "validatePassword ''password'' = None" by code_simp
  have "\<exists>v. acceptCheck exampleCrypto memInvitationStore (drNow exampleAcceptDraw) exampleInviteMem (NewID ''acme'')
      exampleInviteToken ''password'' = Inr v" using chk by (metis isl_def sum.exhaust)
  with AcceptInvitation_outcome [OF exampleInviteMem_ok c, of exampleCrypto exampleJWTLib exampleInviteToken "''password''" m' r,
      THEN conjunct1, THEN mp] a c(5) pw
  have "AcceptInvitation exampleCore exampleCrypto exampleJWTLib exampleAcceptDraw m' (NewID ''acme'') exampleInviteToken ''password''
      = (m', Inl ErrInvitationInvalid)" by blast
  with ok a show ?thesis by auto
qed

text \<open>
  C10. Single use under any interleaving. Let any number of callers redeem tokens against
  the reference store, each stopped between any two of its calls, with anything else going
  on that leaves the existing invitations as they are. Whoever got past the compare-and-set
  did so in the invitation's tenant with the invitation's token, no other caller with that
  token ever does, so an invitation leads to at most one registration, and from that point
  every check of the token fails.
\<close>

theorem invitation_single_use:
  assumes "acceptRun K memInvitationStore identMemOk calls m0 (m, ps)" "identMemOk m0" "\<forall>p. acNow (calls p) \<noteq> 0"
    "ps p = Consumed v"
  shows "ivTenantID v = IDString (acTenant (calls p)) \<and> HashRefreshToken K (acToken (calls p)) = Inr (ivTokenHash v) \<and>
    Usable v (acNow (calls p)) \<and>
    (\<forall>q w. ps q = Consumed w \<and> (acToken (calls q) = acToken (calls p) \<or> ivID w = ivID v) \<longrightarrow> q = p) \<and>
    (\<forall>now t tok pw. HashRefreshToken K tok = Inr (ivTokenHash v) \<and> Valid t \<and> validatePassword pw = None \<longrightarrow>
       acceptCheck K memInvitationStore now m t tok pw = Inl ErrInvitationInvalid)"
proof -
  have "mem_invitation.callsOk K calls ps" using mem_invitation.acceptRun_calls [OF assms(1-3)] by simp
  then have c: "ivTenantID v = IDString (acTenant (calls p))" "HashRefreshToken K (acToken (calls p)) = Inr (ivTokenHash v)"
    "Usable v (acNow (calls p))"
    using assms(4) unfolding mem_invitation.callsOk_def by blast+
  have "q = p" if "ps q = Consumed w" "acToken (calls q) = acToken (calls p) \<or> ivID w = ivID v" for q w
    using mem_invitation.single_winner [OF assms(1-4) that(1)] that(2) by metis
  then show ?thesis
    using c mem_invitation.consumed_dead [OF mem_invitation.acceptRun_ok [OF assms(1-3)] assms(4)] by blast
qed

text \<open>Two callers with one token are both past the check when the first consumes.\<close>

theorem invitation_single_use_witness:
  "\<exists>m ps v. acceptRun exampleCrypto memInvitationStore identMemOk
       (\<lambda>_. \<lparr>acNow = 200, acTenant = NewID ''acme'', acToken = exampleInviteToken, acPassword = ''password''\<rparr>)
       exampleInviteMem (m, ps) \<and> ps 0 = Consumed v \<and> ps 1 = Checked v \<and>
     acceptCheck exampleCrypto memInvitationStore 200 m (NewID ''acme'') exampleInviteToken ''password'' = Inl ErrInvitationInvalid"
proof -
  let ?calls = "\<lambda>_::nat. \<lparr>acNow = 200, acTenant = NewID ''acme'', acToken = exampleInviteToken, acPassword = ''password''\<rparr>"
  let ?run = "acceptRun exampleCrypto memInvitationStore identMemOk ?calls exampleInviteMem"
  let ?chk = "acceptCheck exampleCrypto memInvitationStore 200 exampleInviteMem (NewID ''acme'') exampleInviteToken ''password''"
  have "isOk ?chk" by code_simp
  then obtain v where v: "?chk = Inr v" by (metis isl_def sum.exhaust)
  have pw: "validatePassword ''password'' = None" by code_simp
  have t: "Valid (NewID ''acme'')" by simp
  have "map_of (invitations exampleInviteMem) (ivID v) = Some v" "Pending v"
    using acceptCheck_mem_Inr [OF exampleInviteMem_ok t pw] v by (auto simp: Usable_def)
  then obtain m where m: "acceptConsume memInvitationStore 200 exampleInviteMem v = (m, None)"
    by (simp add: acceptConsume_def memInvitationStore_def memMarkAccepted_def Pending_def)
  let ?ps1 = "(\<lambda>_. Calling)(0 := Checked v)" and ?ps2 = "(\<lambda>_. Calling)(0 := Checked v, Suc 0 := Checked v)"
  have "?run (exampleInviteMem, ?ps1)"
    by (rule acceptRun.step [OF acceptRun.start acceptStep.check]) (use v in simp_all)
  then have "?run (exampleInviteMem, ?ps2)"
    by (rule acceptRun.step [OF _ acceptStep.check]) (use v in simp_all)
  then have r: "?run (m, ?ps2(0 := Consumed v))"
    by (rule acceptRun.step [OF _ acceptStep.consume]) (use m in simp_all)
  have "acceptCheck exampleCrypto memInvitationStore 200 m (NewID ''acme'') exampleInviteToken ''password'' = Inl ErrInvitationInvalid"
    using invitation_single_use [OF r exampleInviteMem_ok, of 0 v] pw t by simp
  with r show ?thesis by (intro exI [of _ m] exI [of _ "?ps2(0 := Consumed v)"] exI [of _ v]) simp
qed

end
