(* ===== verification/Scim_Nesting.thy ===== *)
theory Scim_Nesting
  imports Tamper_Prelude
begin

text \<open>
  Package \<^verbatim>\<open>scim\<close>, the error sentinels (\<^verbatim>\<open>store.go\<close>, \<^verbatim>\<open>filter.go\<close>, \<^verbatim>\<open>patch.go\<close>,
  \<^verbatim>\<open>nesting.go\<close>) and the cycle check on nested groups (\<^verbatim>\<open>nesting.go\<close>). The membership
  rows are a query \<^verbatim>\<open>parentsOf\<close>, an argument. The walk is a loop that need not end on an
  infinite graph, so \<^verbatim>\<open>None\<close> is not returning; that it returns is part of the property.
\<close>

section \<open>Errors\<close>

datatype scim_err =
    ScimNotFound
  | ScimConflict
  | ScimInvalidInput
  | ErrInvalidFilter
  | ErrInvalidPath
  | ErrInvalidValue
  | ErrCyclicGroup string string
  | NilQueries
  | NestingArgsRequired
  | ScimFailure string

section \<open>The cycle check\<close>

text \<open>The inner loop over one node's parents: \<^verbatim>\<open>None\<close> is meeting the candidate.\<close>

fun scanParents :: "string \<Rightarrow> string list \<Rightarrow> string list \<Rightarrow> string list \<Rightarrow> (string list \<times> string list) option" where
  "scanParents candidate visited queue [] = Some (visited, queue)"
| "scanParents candidate visited queue (p # ps) =
     (if p = candidate then None
      else if p \<notin> set visited then scanParents candidate (p # visited) (queue @ [p]) ps
      else scanParents candidate visited queue ps)"

partial_function (option) detectLoop :: "(string \<Rightarrow> scim_err + string list) \<Rightarrow> string \<Rightarrow> string \<Rightarrow> string list
    \<Rightarrow> string list \<Rightarrow> scim_err option option" where
  "detectLoop parentsOf parent candidate visited queue =
     (case queue of
        [] \<Rightarrow> Some None
      | nxt # rest \<Rightarrow> (case parentsOf nxt of
          Inl e \<Rightarrow> Some (Some e)
        | Inr ps \<Rightarrow> (case scanParents candidate visited rest ps of
            None \<Rightarrow> Some (Some (ErrCyclicGroup parent candidate))
          | Some (visited', queue') \<Rightarrow> detectLoop parentsOf parent candidate visited' queue')))"

definition DetectCycle :: "(string \<Rightarrow> scim_err + string list) option \<Rightarrow> string \<Rightarrow> string \<Rightarrow> scim_err option option" where
  "DetectCycle q parent candidate =
     (case q of
        None \<Rightarrow> Some (Some NilQueries)
      | Some parentsOf \<Rightarrow>
          if parent = '''' \<or> candidate = '''' then Some (Some NestingArgsRequired)
          else if parent = candidate then Some (Some (ErrCyclicGroup parent candidate))
          else detectLoop parentsOf parent candidate [parent] [parent])"

section \<open>Lemmas\<close>

lemma scanParents_None: "scanParents c v q ps = None \<longleftrightarrow> c \<in> set ps"
  by (induction ps arbitrary: v q) auto

lemma scanParents_Some:
  assumes "scanParents c v q ps = Some (v', q')" "set q \<subseteq> set v"
  shows "\<exists>new. set v' = set v \<union> set new \<and> q' = q @ new \<and> distinct new \<and> set new = set ps - set v \<and> c \<notin> set ps"
  using assms
proof (induction ps arbitrary: v q)
  case Nil
  then show ?case by auto
next
  case (Cons p ps)
  show ?case
  proof (cases "p \<in> set v")
    case True
    with Cons.prems Cons.IH [of v q] show ?thesis by (auto split: if_splits)
  next
    case False
    with Cons.prems have "scanParents c (p # v) (q @ [p]) ps = Some (v', q')" "p \<noteq> c" by (auto split: if_splits)
    moreover have "set (q @ [p]) \<subseteq> set (p # v)" using Cons.prems(2) by auto
    ultimately obtain new where
      "set v' = set (p # v) \<union> set new" "q' = (q @ [p]) @ new" "distinct new" "set new = set ps - set (p # v)" "c \<notin> set ps"
      using Cons.IH by blast
    with False \<open>p \<noteq> c\<close> show ?thesis by (intro exI [of _ "p # new"]) auto
  qed
qed

text \<open>One step up the graph: the groups that contain the given one.\<close>

definition upFrom :: "(string \<Rightarrow> scim_err + string list) \<Rightarrow> (string \<times> string) set" where
  "upFrom parentsOf = {(x, p). \<exists>ps. parentsOf x = Inr ps \<and> p \<in> set ps}"

definition loopInv :: "(string \<Rightarrow> scim_err + string list) \<Rightarrow> string \<Rightarrow> string \<Rightarrow> string list \<Rightarrow> string list \<Rightarrow> bool" where
  "loopInv parentsOf parent c v q \<longleftrightarrow> parent \<in> set v \<and> c \<notin> set v \<and> set q \<subseteq> set v \<and> distinct q \<and>
     set v \<subseteq> {x. (parent, x) \<in> (upFrom parentsOf)\<^sup>*} \<and>
     (\<forall>x \<in> set v - set q. isOk (parentsOf x) \<and> (\<forall>p. (x, p) \<in> upFrom parentsOf \<longrightarrow> p \<in> set v))"

lemma loopInv_step:
  assumes inv: "loopInv parentsOf parent c v (x # rest)" and ps: "parentsOf x = Inr ps"
    and sc: "scanParents c v rest ps = Some (v', q')"
  shows "loopInv parentsOf parent c v' q'"
    and "\<exists>new. set v' = set v \<union> set new \<and> q' = rest @ new \<and> distinct new \<and> set new = set ps - set v"
proof -
  have sub: "set rest \<subseteq> set v" using inv by (auto simp: loopInv_def)
  obtain new where new: "set v' = set v \<union> set new" "q' = rest @ new" "distinct new" "set new = set ps - set v" "c \<notin> set ps"
    using scanParents_Some [OF sc sub] by blast
  then show "\<exists>new. set v' = set v \<union> set new \<and> q' = rest @ new \<and> distinct new \<and> set new = set ps - set v" by blast
  have x: "(parent, x) \<in> (upFrom parentsOf)\<^sup>*" using inv by (auto simp: loopInv_def)
  have up: "(parent, p) \<in> (upFrom parentsOf)\<^sup>*" if "p \<in> set ps" for p
    using x that ps by (auto simp: upFrom_def intro: rtrancl_into_rtrancl)
  have xq: "x \<notin> set rest" "distinct rest" using inv by (auto simp: loopInv_def)
  have closed: "isOk (parentsOf y) \<and> (\<forall>p. (y, p) \<in> upFrom parentsOf \<longrightarrow> p \<in> set v')" if y: "y \<in> set v' - set q'" for y
  proof (cases "y = x")
    case True
    then show ?thesis using ps new(1,4) by (auto simp: upFrom_def)
  next
    case False
    with y new have "y \<in> set v - set (x # rest)" by auto
    then show ?thesis using inv new(1) unfolding loopInv_def by blast
  qed
  show "loopInv parentsOf parent c v' q'"
    unfolding loopInv_def
  proof (intro conjI)
    show "parent \<in> set v'" "set q' \<subseteq> set v'" "c \<notin> set v'"
      using inv new sub by (auto simp: loopInv_def)
    show "distinct q'" using new xq sub by auto
    show "set v' \<subseteq> {x. (parent, x) \<in> (upFrom parentsOf)\<^sup>*}"
      using inv new(1,4) up by (auto simp: loopInv_def)
    show "\<forall>y \<in> set v' - set q'. isOk (parentsOf y) \<and> (\<forall>p. (y, p) \<in> upFrom parentsOf \<longrightarrow> p \<in> set v')"
      using closed by blast
  qed
qed

text \<open>What an answer of the loop means, and that it comes when the ancestors are finite.\<close>

definition loopPost :: "(string \<Rightarrow> scim_err + string list) \<Rightarrow> string \<Rightarrow> string \<Rightarrow> scim_err option \<Rightarrow> bool" where
  "loopPost parentsOf parent c r \<longleftrightarrow>
     (case r of
        None \<Rightarrow> (parent, c) \<notin> (upFrom parentsOf)\<^sup>* \<and> (\<forall>x. (parent, x) \<in> (upFrom parentsOf)\<^sup>* \<longrightarrow> isOk (parentsOf x))
      | Some e \<Rightarrow> e = ErrCyclicGroup parent c \<and> (parent, c) \<in> (upFrom parentsOf)\<^sup>+ \<or>
          (\<exists>x. (parent, x) \<in> (upFrom parentsOf)\<^sup>* \<and> parentsOf x = Inl e))"

lemma detectLoop_returns:
  assumes "finite {x. (parent, x) \<in> (upFrom parentsOf)\<^sup>*}" "loopInv parentsOf parent c v q"
  shows "\<exists>r. detectLoop parentsOf parent c v q = Some r \<and> loopPost parentsOf parent c r"
  using assms(2)
proof (induction "2 * card ({x. (parent, x) \<in> (upFrom parentsOf)\<^sup>*} - set v) + length q" arbitrary: v q rule: less_induct)
  case less
  let ?A = "{x. (parent, x) \<in> (upFrom parentsOf)\<^sup>*}"
  show ?case
  proof (cases q)
    case Nil
    have cl: "isOk (parentsOf x) \<and> (\<forall>p. (x, p) \<in> upFrom parentsOf \<longrightarrow> p \<in> set v)" if "x \<in> set v" for x
      using less.prems Nil that by (auto simp: loopInv_def)
    have all: "x \<in> set v" if "(parent, x) \<in> (upFrom parentsOf)\<^sup>*" for x
      using that
    proof (induction rule: rtrancl_induct)
      case base
      then show ?case using less.prems by (simp add: loopInv_def)
    next
      case (step y z)
      then show ?case using cl by blast
    qed
    have "c \<notin> set v" using less.prems by (simp add: loopInv_def)
    then have "loopPost parentsOf parent c None"
      using cl all unfolding loopPost_def option.case by blast
    then show ?thesis using Nil by (subst detectLoop.simps) simp
  next
    case (Cons x rest)
    have x: "(parent, x) \<in> (upFrom parentsOf)\<^sup>*" using less.prems Cons by (auto simp: loopInv_def)
    show ?thesis
    proof (cases "parentsOf x")
      case (Inl e)
      then show ?thesis using Cons x by (subst detectLoop.simps) (auto simp: loopPost_def)
    next
      case (Inr ps)
      show ?thesis
      proof (cases "scanParents c v rest ps")
        case None
        then have "(x, c) \<in> upFrom parentsOf" using Inr by (auto simp: scanParents_None upFrom_def)
        with x have "(parent, c) \<in> (upFrom parentsOf)\<^sup>+" by (rule rtrancl_into_trancl1)
        with None Inr Cons show ?thesis by (subst detectLoop.simps) (simp add: loopPost_def)
      next
        case (Some vq)
        obtain v' q' where vq: "vq = (v', q')" by (cases vq)
        have inv: "loopInv parentsOf parent c v' q'"
          using loopInv_step(1) [of parentsOf parent c v x rest ps v' q'] less.prems Cons Inr Some vq by simp
        obtain new where new: "set v' = set v \<union> set new" "q' = rest @ new" "distinct new" "set new = set ps - set v"
          using loopInv_step(2) [of parentsOf parent c v x rest ps v' q'] less.prems Cons Inr Some vq by auto
        have sub: "set new \<subseteq> ?A - set v" using inv new by (auto simp: loopInv_def)
        have fin: "finite (?A - set v)" using assms(1) by simp
        have "?A - set v' = (?A - set v) - set new" using new(1) by auto
        then have "card (?A - set v') = card (?A - set v) - length new"
          using card_Diff_subset [OF _ sub] distinct_card [OF new(3)] by simp
        moreover have "length new \<le> card (?A - set v)"
          using card_mono [OF fin sub] distinct_card [OF new(3)] by simp
        ultimately have "2 * card (?A - set v') + length q' < 2 * card (?A - set v) + length q"
          using new(2) Cons by simp
        from less.hyps [OF this inv] show ?thesis
          using Cons Inr Some vq by (subst detectLoop.simps) simp
      qed
    qed
  qed
qed

section \<open>Properties\<close>


lemma reach_Range: "{x. (p, x) \<in> R\<^sup>*} \<subseteq> insert p (Range R)"
  by (auto elim: rtranclE)


end
