(* ===== verification/Scim_Filter.thy ===== *)
theory Scim_Filter
  imports Scim_Nesting
begin

text \<open>
  Package \<^verbatim>\<open>scim\<close>, list filters (\<^verbatim>\<open>filter.go\<close>). The parser is a library and an argument;
  its syntax tree is the datatype \<^verbatim>\<open>expression\<close>, with what the walkers read of each node. A
  decoded JSON value is a \<^verbatim>\<open>json\<close>; a number is the text \<^verbatim>\<open>fmt.Sprint\<close> prints it as, which
  identifies it apart from the two zeros. SQL text is a string, written in the order the
  walk writes it; on an error nothing that was written is returned.
\<close>

section \<open>Values and the syntax tree\<close>

datatype json =
    JNull
  | JBool bool
  | JNum string
  | JStr string
  | JArr "json list"
  | JObj "(string \<times> json) list"

text \<open>\<^verbatim>\<open>fmt.Sprint\<close> of a decoded value: a map prints its keys in order.\<close>

fun joinSpace :: "string list \<Rightarrow> string" where
  "joinSpace [] = ''''"
| "joinSpace [s] = s"
| "joinSpace (s # ss) = s @ '' '' @ joinSpace ss"

function sprint :: "json \<Rightarrow> string" where
  "sprint JNull = ''<nil>''"
| "sprint (JBool b) = (if b then ''true'' else ''false'')"
| "sprint (JNum s) = s"
| "sprint (JStr s) = s"
| "sprint (JArr xs) = ''['' @ joinSpace (map sprint xs) @ '']''"
| "sprint (JObj kvs) = ''map['' @ joinSpace (map (\<lambda>(k, s). k @ '':'' @ s)
     (sort_key fst (map (\<lambda>kv. (fst kv, sprint (snd kv))) kvs))) @ '']''"
  by pat_completeness auto
termination
proof (relation "measure size", goal_cases)
  case (2 xs x)
  then show ?case by (induction xs) auto
next
  case (3 kvs kv)
  then show ?case by (induction kvs) (auto simp: prod.size_neq)
qed simp

record AttributePath =
  apName :: string
  apSub :: "string option"

datatype compare_op = EQ | NE | CO | SW | EW | GT | GE | LT | LE | PR | OtherOp string
datatype logical_op = AND_OP | OR_OP | OtherLogical string

datatype expression =
    AttributeExpression AttributePath compare_op json
  | LogicalExpression expression logical_op expression
  | NotExpression expression
  | ValuePath AttributePath
  | OtherNode

record ColumnMapping =
  cmName :: string
  cmAttrs :: "(string, string) go_map"
  cmSpecial :: "(string, string) go_map"

section \<open>Translation\<close>

definition ParseFilter :: "(string \<Rightarrow> expression option) \<Rightarrow> string \<Rightarrow> scim_err + expression option" where
  "ParseFilter lib query =
     (if trimSpace query = '''' then Inr None
      else (case lib query of None \<Rightarrow> Inl ErrInvalidFilter | Some e \<Rightarrow> Inr (Some e)))"

definition canonicalAttrName :: "AttributePath \<Rightarrow> string" where
  "canonicalAttrName p = (case apSub p of Some sub \<Rightarrow> apName p @ ''.'' @ sub | None \<Rightarrow> apName p)"

definition stringValue :: "json \<Rightarrow> string" where
  "stringValue v = (case v of JStr s \<Rightarrow> s | _ \<Rightarrow> sprint v)"

definition emitSpecial :: "compare_op \<Rightarrow> json \<Rightarrow> string \<Rightarrow> scim_err + string \<times> json list" where
  "emitSpecial oper v sql = (if oper \<noteq> EQ then Inl ErrInvalidFilter else Inr (sql, [v]))"

definition emitAttribute :: "ColumnMapping \<Rightarrow> AttributePath \<Rightarrow> compare_op \<Rightarrow> json \<Rightarrow> scim_err + string \<times> json list" where
  "emitAttribute m p oper v =
     (case map_of (cmSpecial m) (canonicalAttrName p) of
        Some sql \<Rightarrow> emitSpecial oper v sql
      | None \<Rightarrow> (case map_of (cmAttrs m) (canonicalAttrName p) of
          None \<Rightarrow> Inl ErrInvalidFilter
        | Some col \<Rightarrow> (case oper of
            EQ \<Rightarrow> Inr (col @ '' = ?'', [v])
          | NE \<Rightarrow> Inr (col @ '' <> ?'', [v])
          | CO \<Rightarrow> Inr (col @ '' LIKE ?'', [JStr (''%'' @ stringValue v @ ''%'')])
          | SW \<Rightarrow> Inr (col @ '' LIKE ?'', [JStr (stringValue v @ ''%'')])
          | EW \<Rightarrow> Inr (col @ '' LIKE ?'', [JStr (''%'' @ stringValue v)])
          | GT \<Rightarrow> Inr (col @ '' > ?'', [v])
          | GE \<Rightarrow> Inr (col @ '' >= ?'', [v])
          | LT \<Rightarrow> Inr (col @ '' < ?'', [v])
          | LE \<Rightarrow> Inr (col @ '' <= ?'', [v])
          | PR \<Rightarrow> Inr (''('' @ col @ '' IS NOT NULL AND '' @ col @ '' <> '' @ [CHR 0x27, CHR 0x27] @ '')'', [])
          | OtherOp _ \<Rightarrow> Inl ErrInvalidFilter)))"

fun walk :: "ColumnMapping \<Rightarrow> expression \<Rightarrow> scim_err + string \<times> json list" where
  "walk m (AttributeExpression p oper v) = emitAttribute m p oper v"
| "walk m (LogicalExpression l oper r) =
     (case walk m l of
        Inl e \<Rightarrow> Inl e
      | Inr (lw, la) \<Rightarrow> (case oper of
          OtherLogical _ \<Rightarrow> Inl ErrInvalidFilter
        | _ \<Rightarrow> (case walk m r of
            Inl e \<Rightarrow> Inl e
          | Inr (rw, ra) \<Rightarrow>
              Inr (''('' @ lw @ (if oper = AND_OP then '' AND '' else '' OR '') @ rw @ '')'', la @ ra))))"
| "walk m (NotExpression e) =
     (case walk m e of Inl err \<Rightarrow> Inl err | Inr (w, a) \<Rightarrow> Inr (''NOT ('' @ w @ '')'', a))"
| "walk m (ValuePath p) = Inl ErrInvalidFilter"
| "walk m OtherNode = Inl ErrInvalidFilter"

definition Translate :: "expression option \<Rightarrow> ColumnMapping \<Rightarrow> scim_err + string \<times> json list" where
  "Translate expr m = (case expr of None \<Rightarrow> Inr ('''', []) | Some e \<Rightarrow> walk m e)"

section \<open>Properties\<close>

text \<open>The tree with its compare values replaced.\<close>

fun mapValues :: "(json \<Rightarrow> json) \<Rightarrow> expression \<Rightarrow> expression" where
  "mapValues f (AttributeExpression p oper v) = AttributeExpression p oper (f v)"
| "mapValues f (LogicalExpression l oper r) = LogicalExpression (mapValues f l) oper (mapValues f r)"
| "mapValues f (NotExpression e) = NotExpression (mapValues f e)"
| "mapValues f (ValuePath p) = ValuePath p"
| "mapValues f OtherNode = OtherNode"

text \<open>What the mapping can express.\<close>

fun filterable :: "ColumnMapping \<Rightarrow> expression \<Rightarrow> bool" where
  "filterable m (AttributeExpression p oper v) \<longleftrightarrow>
     (if canonicalAttrName p \<in> dom (map_of (cmSpecial m)) then oper = EQ
      else canonicalAttrName p \<in> dom (map_of (cmAttrs m)) \<and> \<not> (\<exists>s. oper = OtherOp s))"
| "filterable m (LogicalExpression l oper r) \<longleftrightarrow> filterable m l \<and> filterable m r \<and> \<not> (\<exists>s. oper = OtherLogical s)"
| "filterable m (NotExpression e) \<longleftrightarrow> filterable m e"
| "filterable m _ \<longleftrightarrow> False"

definition placeholders :: "string \<Rightarrow> nat" where
  "placeholders w = count_list w (CHR ''?'')"

lemma placeholders_append [simp]: "placeholders (a @ b) = placeholders a + placeholders b"
  by (simp add: placeholders_def)

definition mappingOk :: "ColumnMapping \<Rightarrow> bool" where
  "mappingOk m \<longleftrightarrow> (\<forall>a c. map_of (cmAttrs m) a = Some c \<longrightarrow> placeholders c = 0) \<and>
     (\<forall>a s. map_of (cmSpecial m) a = Some s \<longrightarrow> placeholders s = 1)"

lemma walk_filterable: "(\<exists>r. walk m e = Inr r) \<longleftrightarrow> filterable m e"
proof (induction m e rule: walk.induct)
  case (1 m p oper v)
  then show ?case
    by (cases oper) (auto simp: emitAttribute_def emitSpecial_def split: option.splits)
next
  case (2 m l oper r)
  then show ?case by (cases oper; cases "walk m l"; cases "walk m r") auto
next
  case (3 m e)
  then show ?case by (cases "walk m e") auto
qed auto

lemma walk_error: "walk m e = Inl err \<Longrightarrow> err = ErrInvalidFilter"
  by (induction m e arbitrary: err rule: walk.induct)
    (auto simp: emitAttribute_def emitSpecial_def split: sum.splits option.splits compare_op.splits logical_op.splits if_splits)

lemma emitAttribute_values:
  "emitAttribute m p oper v = Inr (w, a) \<Longrightarrow> \<exists>b. emitAttribute m p oper v' = Inr (w, b) \<and> length b = length a"
  by (auto simp: emitAttribute_def emitSpecial_def split: option.splits compare_op.splits if_splits)

lemma walk_logical_Inr:
  "walk m (LogicalExpression l oper r) = Inr (w, a) \<longleftrightarrow>
     (\<exists>lw la rw ra. walk m l = Inr (lw, la) \<and> walk m r = Inr (rw, ra) \<and> \<not> (\<exists>s. oper = OtherLogical s) \<and>
        w = ''('' @ lw @ (if oper = AND_OP then '' AND '' else '' OR '') @ rw @ '')'' \<and> a = la @ ra)"
  by (cases oper; cases "walk m l"; cases "walk m r") auto

lemma walk_not_Inr:
  "walk m (NotExpression e) = Inr (w, a) \<longleftrightarrow> (\<exists>v. walk m e = Inr (v, a) \<and> w = ''NOT ('' @ v @ '')'')"
  by (cases "walk m e") auto

lemma walk_values: "walk m e = Inr (w, a) \<Longrightarrow> \<exists>b. walk m (mapValues f e) = Inr (w, b) \<and> length b = length a"
proof (induction e arbitrary: w a)
  case (AttributeExpression p oper v)
  then show ?case using emitAttribute_values by simp
next
  case (LogicalExpression l oper r)
  then obtain lw la rw ra where lr: "walk m l = Inr (lw, la)" "walk m r = Inr (rw, ra)" "\<not> (\<exists>s. oper = OtherLogical s)"
    "w = ''('' @ lw @ (if oper = AND_OP then '' AND '' else '' OR '') @ rw @ '')''" "a = la @ ra"
    unfolding walk_logical_Inr by blast
  obtain lb where "walk m (mapValues f l) = Inr (lw, lb)" "length lb = length la"
    using LogicalExpression.IH(1) [OF lr(1)] by blast
  moreover obtain rb where "walk m (mapValues f r) = Inr (rw, rb)" "length rb = length ra"
    using LogicalExpression.IH(2) [OF lr(2)] by blast
  ultimately have "walk m (LogicalExpression (mapValues f l) oper (mapValues f r)) = Inr (w, lb @ rb)" "length (lb @ rb) = length a"
    using lr(3-5) unfolding walk_logical_Inr by auto
  then show ?case by (simp only: mapValues.simps) blast
next
  case (NotExpression e)
  then obtain v where v: "walk m e = Inr (v, a)" "w = ''NOT ('' @ v @ '')''" unfolding walk_not_Inr by blast
  then show ?case using NotExpression.IH [OF v(1)] by auto
qed auto

lemma walk_placeholders: "mappingOk m \<Longrightarrow> walk m e = Inr (w, a) \<Longrightarrow> placeholders w = length a"
proof (induction e arbitrary: w a)
  case (AttributeExpression p oper v)
  then show ?case
    by (auto simp: emitAttribute_def emitSpecial_def mappingOk_def placeholders_def split: option.splits compare_op.splits if_splits)
next
  case (LogicalExpression l oper r)
  then obtain lw la rw ra where lr: "walk m l = Inr (lw, la)" "walk m r = Inr (rw, ra)"
    "w = ''('' @ lw @ (if oper = AND_OP then '' AND '' else '' OR '') @ rw @ '')''" "a = la @ ra"
    unfolding walk_logical_Inr by blast
  with LogicalExpression.IH LogicalExpression.prems(1) have "placeholders lw = length la" "placeholders rw = length ra" by blast+
  then show ?case using lr(3,4) by (simp add: placeholders_def)
next
  case (NotExpression e)
  then obtain v where v: "walk m e = Inr (v, a)" "w = ''NOT ('' @ v @ '')''" unfolding walk_not_Inr by blast
  then show ?case using NotExpression.IH [OF NotExpression.prems(1) v(1)] by (simp add: placeholders_def)
qed auto

text \<open>
  C12. A client's filter cannot write SQL. The text of the fragment depends on the shape of
  the filter and on the caller's mapping, never on a compare value: with other values the
  text is the same and only the arguments differ. Given a mapping whose columns hold no
  placeholder and whose special fragments hold one, there are exactly as many arguments
  as placeholders. A filter is translated exactly when every attribute it names is in the
  mapping with an operator that applies, and is refused as an invalid filter otherwise.
\<close>

theorem Translate_injection_free:
  "(Translate (Some e) m = Inr (w, args) \<longrightarrow>
      (\<exists>args'. Translate (Some (mapValues f e)) m = Inr (w, args') \<and> length args' = length args) \<and>
      (mappingOk m \<longrightarrow> placeholders w = length args)) \<and>
   ((\<exists>r. Translate (Some e) m = Inr r) \<longleftrightarrow> filterable m e) \<and>
   (\<not> filterable m e \<longrightarrow> Translate (Some e) m = Inl ErrInvalidFilter)"
proof -
  have "Translate (Some e) m = Inl ErrInvalidFilter" if "\<not> filterable m e"
    using that walk_filterable [of m e] walk_error [of m e] by (cases "walk m e") (auto simp: Translate_def)
  then show ?thesis
    using walk_values [of m e w args f] walk_placeholders [of m e w args] walk_filterable [of m e]
    by (simp add: Translate_def)
qed

theorem Translate_injection_free_witness:
  "let m = \<lparr>cmName = ''User'', cmAttrs = [(''userName'', ''email'')], cmSpecial = []\<rparr>;
       e = AttributeExpression \<lparr>apName = ''userName'', apSub = None\<rparr> EQ (JStr ''x; drop table users'')
   in Translate (Some e) m = Inr (''email = ?'', [JStr ''x; drop table users'']) \<and>
      (\<exists>args'. Translate (Some (mapValues (\<lambda>_. JNull) e)) m = Inr (''email = ?'', args'))"
proof -
  let ?m = "\<lparr>cmName = ''User'', cmAttrs = [(''userName'', ''email'')], cmSpecial = []\<rparr>"
  let ?e = "AttributeExpression \<lparr>apName = ''userName'', apSub = None\<rparr> EQ (JStr ''x; drop table users'')"
  have t: "Translate (Some ?e) ?m = Inr (''email = ?'', [JStr ''x; drop table users''])"
    by (simp add: Translate_def emitAttribute_def canonicalAttrName_def)
  with Translate_injection_free [of ?e ?m "''email = ?''" "[JStr ''x; drop table users'']" "\<lambda>_. JNull"]
  show ?thesis unfolding Let_def by blast
qed

end
