(* ===== verification/Scim_Patch.thy ===== *)
theory Scim_Patch
  imports Scim_Filter
begin

text \<open>
  Package \<^verbatim>\<open>scim\<close>, PATCH (\<^verbatim>\<open>patch.go\<close>, \<^verbatim>\<open>patch_path.go\<close>). A resource is a decoded JSON
  object, an association list. The operation's raw value is its text; decoding and encoding
  JSON and the path grammar are libraries and arguments. An update in place is the updated
  object as a result; on an error the caller drops the half-updated object, so an error
  carries none. Attribute names fold by ASCII case.
\<close>

section \<open>Operations and paths\<close>

type_synonym obj = "(string \<times> json) list"

definition OpAdd :: string where "OpAdd = ''add''"
definition OpRemove :: string where "OpRemove = ''remove''"
definition OpReplace :: string where "OpReplace = ''replace''"

lemmas op_defs = OpAdd_def OpRemove_def OpReplace_def

record Operation =
  oOp :: string
  oPath :: string
  oValue :: string

definition unmarshalOperation :: "Operation \<Rightarrow> Operation" where
  "unmarshalOperation rawOp = rawOp\<lparr>oOp := toLower (oOp rawOp)\<rparr>"

record LibPath =
  lpAttributePath :: AttributePath
  lpValueExpression :: "expression option"
  lpSubAttribute :: "string option"

record Path =
  paSchemaURN :: string
  paSegments :: "string list"
  paFilterIndex :: int
  paFilter :: "expression option"

definition schemaPrefix :: string where
  "schemaPrefix = ''urn:ietf:params:scim:schemas:''"

definition stripSchemaURN :: "string \<Rightarrow> string \<times> string" where
  "stripSchemaURN s =
     (if \<not> hasPrefix s schemaPrefix then ('''', s)
      else if CHR '':'' \<notin> set s then ('''', s)
      else (rev (tl (dropWhile (\<lambda>c. c \<noteq> CHR '':'') (rev s))), rev (takeWhile (\<lambda>c. c \<noteq> CHR '':'') (rev s))))"

definition ParsePath :: "(string \<Rightarrow> LibPath option) \<Rightarrow> string \<Rightarrow> scim_err + Path" where
  "ParsePath lib raw =
     (let s = trimSpace raw in
      if s = '''' then Inl ErrInvalidPath
      else let (schemaURN, rest) = stripSchemaURN s in
        (case lib rest of
           None \<Rightarrow> Inl ErrInvalidPath
         | Some p \<Rightarrow> Inr
             \<lparr>paSchemaURN = schemaURN,
              paSegments = apName (lpAttributePath p)
                # (case apSub (lpAttributePath p) of None \<Rightarrow> [] | Some sub \<Rightarrow> [sub])
                @ (case lpSubAttribute p of None \<Rightarrow> [] | Some sub \<Rightarrow> [sub]),
              paFilterIndex = (case lpValueExpression p of None \<Rightarrow> - 1 | Some _ \<Rightarrow> 0),
              paFilter = lpValueExpression p\<rparr>))"

section \<open>Reading and writing an object\<close>

definition equalFold :: "string \<Rightarrow> string \<Rightarrow> bool" where
  "equalFold a b = (toLower a = toLower b)"

fun bestKey :: "string \<Rightarrow> string \<Rightarrow> string list \<Rightarrow> string" where
  "bestKey name best [] = best"
| "bestKey name best (k # ks) =
     bestKey name (if equalFold k name \<and> (best = '''' \<or> k < best) then k else best) ks"

definition resolveKey :: "obj \<Rightarrow> string \<Rightarrow> string" where
  "resolveKey m name =
     (if map_of m name \<noteq> None then name
      else let best = bestKey name '''' (map fst m) in if best \<noteq> '''' then best else name)"

definition applyLeaf :: "(string \<Rightarrow> json option) \<Rightarrow> obj \<Rightarrow> string \<Rightarrow> string \<Rightarrow> string \<Rightarrow> scim_err + obj" where
  "applyLeaf dec parent leaf0 value oper =
     (let leaf = resolveKey parent leaf0 in
      if oper = OpRemove then Inr (AList.delete leaf parent)
      else (case dec value of
          None \<Rightarrow> Inl ErrInvalidValue
        | Some decoded \<Rightarrow>
            (case (if oper = OpAdd then map_of parent leaf else None) of
               Some (JArr existing) \<Rightarrow>
                 (case decoded of
                    JArr incoming \<Rightarrow> Inr (AList.update leaf (JArr (existing @ incoming)) parent)
                  | _ \<Rightarrow> Inr (AList.update leaf (JArr (existing @ [decoded])) parent))
             | _ \<Rightarrow> Inr (AList.update leaf decoded parent))))"

text \<open>
  Walking to the object at the end of \<^verbatim>\<open>segments\<close> and going on there with \<^verbatim>\<open>k\<close>; a removal
  below something missing is a no-op.
\<close>

fun navigateOrCreate :: "string \<Rightarrow> string list \<Rightarrow> (obj \<Rightarrow> scim_err + obj) \<Rightarrow> obj \<Rightarrow> scim_err + obj" where
  "navigateOrCreate oper [] k cur = k cur"
| "navigateOrCreate oper (seg0 # segs) k cur =
     (let seg = resolveKey cur seg0 in
      (case map_of cur seg of
         None \<Rightarrow>
           if oper = OpRemove then Inr cur
           else (case navigateOrCreate oper segs k [] of
               Inl e \<Rightarrow> Inl e
             | Inr created \<Rightarrow> Inr (AList.update seg (JObj created) cur))
       | Some (JObj nxt) \<Rightarrow> (case navigateOrCreate oper segs k nxt of
             Inl e \<Rightarrow> Inl e
           | Inr nxt' \<Rightarrow> Inr (AList.update seg (JObj nxt') cur))
       | Some _ \<Rightarrow> Inl ErrInvalidPath))"

definition applySimple :: "(string \<Rightarrow> json option) \<Rightarrow> string list \<Rightarrow> obj \<Rightarrow> string \<Rightarrow> string \<Rightarrow> scim_err + obj" where
  "applySimple dec segments target value oper =
     (if length segments = 1 then applyLeaf dec target (hd segments) value oper
      else navigateOrCreate oper (butlast segments) (\<lambda>parent. applyLeaf dec parent (last segments) value oper) target)"

section \<open>Filters on an element\<close>

definition asString :: "json \<Rightarrow> string" where
  "asString v = (case v of JStr s \<Rightarrow> s | JNull \<Rightarrow> '''' | _ \<Rightarrow> sprint v)"

definition equalValues :: "json \<Rightarrow> json \<Rightarrow> bool" where
  "equalValues a b =
     (case a of
        JStr av \<Rightarrow> (case b of JStr bv \<Rightarrow> av = bv | _ \<Rightarrow> av = asString b)
      | JBool av \<Rightarrow> (case b of JBool bv \<Rightarrow> av = bv | _ \<Rightarrow> asString a = asString b)
      | JNum av \<Rightarrow> (case b of JNum bv \<Rightarrow> av = bv | _ \<Rightarrow> asString a = asString b)
      | _ \<Rightarrow> asString a = asString b)"

text \<open>The value at a dotted name; a missing one and a null one are both the nil value.\<close>

fun lookupPath :: "string list \<Rightarrow> json \<Rightarrow> json" where
  "lookupPath [] raw = raw"
| "lookupPath (p # ps) raw =
     (case raw of
        JObj m \<Rightarrow> (case map_of m (resolveKey m p) of None \<Rightarrow> JNull | Some v \<Rightarrow> lookupPath ps v)
      | _ \<Rightarrow> JNull)"

definition evalAttribute :: "AttributePath \<Rightarrow> compare_op \<Rightarrow> json \<Rightarrow> obj \<Rightarrow> scim_err + bool" where
  "evalAttribute p oper v elem =
     (let raw = lookupPath (splitDots (canonicalAttrName p)) (JObj elem) in
      if raw = JNull then Inr (oper = NE)
      else (case oper of
          EQ \<Rightarrow> Inr (equalValues raw v)
        | NE \<Rightarrow> Inr (\<not> equalValues raw v)
        | CO \<Rightarrow> Inr (containsStr (asString raw) (asString v))
        | SW \<Rightarrow> Inr (hasPrefix (asString raw) (asString v))
        | EW \<Rightarrow> Inr (hasSuffix (asString raw) (asString v))
        | GT \<Rightarrow> Inr (asString v < asString raw)
        | GE \<Rightarrow> Inr (asString v \<le> asString raw)
        | LT \<Rightarrow> Inr (asString raw < asString v)
        | LE \<Rightarrow> Inr (asString raw \<le> asString v)
        | PR \<Rightarrow> Inr (asString raw \<noteq> '''')
        | OtherOp _ \<Rightarrow> Inl ErrInvalidPath))"

fun evalFilter :: "expression \<Rightarrow> obj \<Rightarrow> scim_err + bool" where
  "evalFilter (AttributeExpression p oper v) elem = evalAttribute p oper v elem"
| "evalFilter (LogicalExpression l oper r) elem =
     (case evalFilter l elem of
        Inl e \<Rightarrow> Inl e
      | Inr left \<Rightarrow> (case evalFilter r elem of
          Inl e \<Rightarrow> Inl e
        | Inr right \<Rightarrow> (case oper of
            AND_OP \<Rightarrow> Inr (left \<and> right)
          | OR_OP \<Rightarrow> Inr (left \<or> right)
          | OtherLogical _ \<Rightarrow> Inl ErrInvalidPath)))"
| "evalFilter (NotExpression e) elem =
     (case evalFilter e elem of Inl err \<Rightarrow> Inl err | Inr inner \<Rightarrow> Inr (\<not> inner))"
| "evalFilter (ValuePath p) elem = Inl ErrInvalidPath"
| "evalFilter OtherNode elem = Inl ErrInvalidPath"

section \<open>Filtered paths\<close>

fun deletePath :: "obj \<Rightarrow> string list \<Rightarrow> obj" where
  "deletePath m [] = m"
| "deletePath m [seg] = AList.delete (resolveKey m seg) m"
| "deletePath m (seg # segs) =
     (case map_of m (resolveKey m seg) of
        Some (JObj nxt) \<Rightarrow> AList.update (resolveKey m seg) (JObj (deletePath nxt segs)) m
      | _ \<Rightarrow> m)"

fun overlayElem :: "obj \<Rightarrow> obj \<Rightarrow> obj" where
  "overlayElem elem [] = elem"
| "overlayElem elem ((k, v) # kvs) = overlayElem (AList.update (resolveKey elem k) v elem) kvs"

definition assignFiltered :: "(string \<Rightarrow> json option) \<Rightarrow> obj \<Rightarrow> string list \<Rightarrow> string \<Rightarrow> string \<Rightarrow> scim_err + obj" where
  "assignFiltered dec elem postFilter value oper =
     (if postFilter = [] then
        (case dec value of
           Some (JObj kvs) \<Rightarrow> Inr (overlayElem elem kvs)
         | _ \<Rightarrow> Inl ErrInvalidValue)
      else if length postFilter = 1 then applyLeaf dec elem (hd postFilter) value oper
      else navigateOrCreate oper (butlast postFilter) (\<lambda>parent. applyLeaf dec parent (last postFilter) value oper) elem)"

fun nestValue :: "string list \<Rightarrow> json \<Rightarrow> obj \<Rightarrow> obj" where
  "nestValue [] decoded cur = cur"
| "nestValue [seg] decoded cur = AList.update seg decoded cur"
| "nestValue (seg # segs) decoded cur = AList.update seg (JObj (nestValue segs decoded [])) cur"

fun overlayRaw :: "obj \<Rightarrow> obj \<Rightarrow> obj" where
  "overlayRaw seed [] = seed"
| "overlayRaw seed ((k, v) # kvs) = overlayRaw (AList.update k v seed) kvs"

definition buildFilteredAppend :: "(string \<Rightarrow> json option) \<Rightarrow> expression \<Rightarrow> string list \<Rightarrow> string
    \<Rightarrow> scim_err + obj option" where
  "buildFilteredAppend dec expr postFilter value =
     (case expr of
        AttributeExpression p oper v \<Rightarrow>
          if oper \<noteq> EQ then Inr None
          else let seed = [(canonicalAttrName p, v)] in
            if value = '''' then Inr (Some seed)
            else (case dec value of
                None \<Rightarrow> Inl ErrInvalidValue
              | Some decoded \<Rightarrow>
                  if postFilter = []
                  then (case decoded of JObj kvs \<Rightarrow> Inr (Some (overlayRaw seed kvs)) | _ \<Rightarrow> Inr (Some seed))
                  else Inr (Some (nestValue postFilter decoded seed)))
      | _ \<Rightarrow> Inr None)"

text \<open>The loop over the elements: how many matched, and the new list.\<close>

fun filterElems :: "(string \<Rightarrow> json option) \<Rightarrow> expression \<Rightarrow> string list \<Rightarrow> string \<Rightarrow> string \<Rightarrow> json list
    \<Rightarrow> scim_err + nat \<times> json list" where
  "filterElems dec expr postFilter value oper [] = Inr (0, [])"
| "filterElems dec expr postFilter value oper (elem # elems) =
     (let rest = (\<lambda>matched kept. case filterElems dec expr postFilter value oper elems of
          Inl e \<Rightarrow> Inl e
        | Inr (n, out) \<Rightarrow> Inr (matched + n, kept @ out)) in
      (case elem of
         JObj em \<Rightarrow> (case evalFilter expr em of
             Inl e \<Rightarrow> Inl e
           | Inr ok \<Rightarrow>
               if \<not> ok then rest 0 [elem]
               else if oper = OpRemove
               then (if postFilter = [] then rest 1 [] else rest 1 [JObj (deletePath em postFilter)])
               else if oper = OpReplace \<or> oper = OpAdd
               then (case assignFiltered dec em postFilter value oper of
                   Inl e \<Rightarrow> Inl e
                 | Inr em' \<Rightarrow> rest 1 [JObj em'])
               else rest 1 [])
       | _ \<Rightarrow> rest 0 [elem]))"

definition filteredAt :: "(string \<Rightarrow> json option) \<Rightarrow> expression \<Rightarrow> string \<Rightarrow> string list \<Rightarrow> string \<Rightarrow> string \<Rightarrow> obj
    \<Rightarrow> scim_err + obj" where
  "filteredAt dec expr arrayKey0 postFilter value oper parent =
     (let arrayKey = resolveKey parent arrayKey0 in
      (case (case map_of parent arrayKey of None \<Rightarrow> Some [] | Some (JArr arr) \<Rightarrow> Some arr | Some _ \<Rightarrow> None) of
         None \<Rightarrow> Inl ErrInvalidPath
       | Some arr \<Rightarrow> (case filterElems dec expr postFilter value oper arr of
           Inl e \<Rightarrow> Inl e
         | Inr (matched, newArr) \<Rightarrow>
             if matched = 0 \<and> (oper = OpAdd \<or> oper = OpReplace)
             then (case buildFilteredAppend dec expr postFilter value of
                 Inl e \<Rightarrow> Inl e
               | Inr None \<Rightarrow> Inr (AList.update arrayKey (JArr newArr) parent)
               | Inr (Some newElem) \<Rightarrow> Inr (AList.update arrayKey (JArr (newArr @ [JObj newElem])) parent))
             else Inr (AList.update arrayKey (JArr newArr) parent))))"

definition applyFiltered :: "(string \<Rightarrow> json option) \<Rightarrow> Path \<Rightarrow> expression \<Rightarrow> obj \<Rightarrow> string \<Rightarrow> string \<Rightarrow> scim_err + obj" where
  "applyFiltered dec p expr target value oper =
     (if paFilterIndex p < 0 \<or> paFilterIndex p \<ge> int (length (paSegments p)) then Inl ErrInvalidPath
      else let i = nat (paFilterIndex p) in
        navigateOrCreate oper (take i (paSegments p))
          (filteredAt dec expr (paSegments p ! i) (drop (i + 1) (paSegments p)) value oper) target)"

definition applyPath :: "(string \<Rightarrow> json option) \<Rightarrow> Path \<Rightarrow> obj \<Rightarrow> string \<Rightarrow> string \<Rightarrow> scim_err + obj" where
  "applyPath dec p target value oper =
     (if paSegments p = [] then Inl ErrInvalidPath
      else (case paFilter p of
          None \<Rightarrow> applySimple dec (paSegments p) target value oper
        | Some expr \<Rightarrow> applyFiltered dec p expr target value oper))"

section \<open>Applying operations\<close>

fun mergeOverlay :: "bool \<Rightarrow> obj \<Rightarrow> obj \<Rightarrow> obj" where
  "mergeOverlay adding target [] = target"
| "mergeOverlay adding target ((k, v) # overlay) =
     (let tk = resolveKey target k in
      mergeOverlay adding
        (case (map_of target tk, v) of
           (Some (JArr existing), JArr incoming) \<Rightarrow>
             if adding then AList.update tk (JArr (existing @ incoming)) target else AList.update tk v target
         | _ \<Rightarrow> AList.update tk v target) overlay)"

definition mergePartialResource :: "(string \<Rightarrow> json option) \<Rightarrow> obj \<Rightarrow> string \<Rightarrow> bool \<Rightarrow> scim_err + obj" where
  "mergePartialResource dec target raw adding =
     (if raw = '''' then Inl ErrInvalidValue
      else (case dec raw of
          Some (JObj overlay) \<Rightarrow> Inr (mergeOverlay adding target overlay)
        | Some JNull \<Rightarrow> Inr target
        | _ \<Rightarrow> Inl ErrInvalidValue))"

definition applyPathed :: "(string \<Rightarrow> LibPath option) \<Rightarrow> (string \<Rightarrow> json option) \<Rightarrow> obj \<Rightarrow> Operation \<Rightarrow> string
    \<Rightarrow> scim_err + obj" where
  "applyPathed lib dec target op value =
     (case ParsePath lib (oPath op) of Inl e \<Rightarrow> Inl e | Inr p \<Rightarrow> applyPath dec p target value (oOp op))"

definition applyOne :: "(string \<Rightarrow> LibPath option) \<Rightarrow> (string \<Rightarrow> json option) \<Rightarrow> obj \<Rightarrow> Operation \<Rightarrow> scim_err + obj" where
  "applyOne lib dec target op =
     (if oOp op = OpAdd \<or> oOp op = OpReplace
      then (if oPath op = '''' then mergePartialResource dec target (oValue op) (oOp op = OpAdd)
            else applyPathed lib dec target op (oValue op))
      else if oOp op = OpRemove
      then (if oPath op = '''' then Inl ErrInvalidPath else applyPathed lib dec target op '''')
      else Inl ErrInvalidValue)"

fun applyAll :: "(string \<Rightarrow> LibPath option) \<Rightarrow> (string \<Rightarrow> json option) \<Rightarrow> obj \<Rightarrow> Operation list \<Rightarrow> scim_err + obj" where
  "applyAll lib dec target [] = Inr target"
| "applyAll lib dec target (op # ops) =
     (case applyOne lib dec target op of Inl e \<Rightarrow> Inl e | Inr target' \<Rightarrow> applyAll lib dec target' ops)"

text \<open>\<^verbatim>\<open>None\<close> is the nil map.\<close>

definition Apply :: "(string \<Rightarrow> LibPath option) \<Rightarrow> (string \<Rightarrow> json option) \<Rightarrow> obj option \<Rightarrow> Operation list
    \<Rightarrow> scim_err + obj" where
  "Apply lib dec target ops = (case target of None \<Rightarrow> Inl ErrInvalidValue | Some t \<Rightarrow> applyAll lib dec t ops)"

section \<open>Redaction for the audit trail\<close>

definition sensitiveAttrs :: "string list" where
  "sensitiveAttrs = [''password'']"

definition isSensitivePath :: "string \<Rightarrow> bool" where
  "isSensitivePath path =
     (if path = '''' then False
      else
        let lower = toLower path;
            leaf = (if CHR '':'' \<in> set lower \<and> hasPrefix lower ''urn:''
                    then rev (takeWhile (\<lambda>c. c \<noteq> CHR '':'') (rev lower)) else lower) in
        leaf \<in> set sensitiveAttrs \<or> hasSuffix lower '':secret'')"

definition redactedText :: string where
  "redactedText = [CHR 0x22] @ ''***'' @ [CHR 0x22]"

definition redactOp :: "(string \<Rightarrow> json option) \<Rightarrow> (json \<Rightarrow> string option) \<Rightarrow> Operation \<Rightarrow> Operation" where
  "redactOp dec enc op =
     (if isSensitivePath (oPath op) then op\<lparr>oValue := redactedText\<rparr>
      else if oPath op = '''' \<and> oValue op \<noteq> ''''
      then (case dec (oValue op) of
          Some (JObj kvs) \<Rightarrow>
            if \<exists>kv\<in>set kvs. isSensitivePath (fst kv)
            then (case enc (JObj (map (\<lambda>(k, v). (k, if isSensitivePath k then JStr ''***'' else v)) kvs)) of
                None \<Rightarrow> op
              | Some out \<Rightarrow> op\<lparr>oValue := out\<rparr>)
            else op
        | _ \<Rightarrow> op)
      else op)"

definition RedactedOps :: "(string \<Rightarrow> json option) \<Rightarrow> (json \<Rightarrow> string option) \<Rightarrow> Operation list \<Rightarrow> Operation list" where
  "RedactedOps dec enc ops = map (redactOp dec enc) ops"

section \<open>Lemmas\<close>

lemma equalFold_refl [simp]: "equalFold a a"
  by (simp add: equalFold_def)

lemma equalFold_Nil [simp]: "equalFold k '''' \<longleftrightarrow> k = ''''" "equalFold '''' k \<longleftrightarrow> k = ''''"
  by (auto simp: equalFold_def toLower_def)

lemma bestKey_cases: "bestKey name best ks = best \<or> bestKey name best ks \<in> set ks \<and> equalFold (bestKey name best ks) name"
proof (induction ks arbitrary: best)
  case (Cons k ks)
  show ?case using Cons.IH [of "if equalFold k name \<and> (best = '''' \<or> k < best) then k else best"] by auto
qed simp

lemma bestKey_some:
  "name \<noteq> '''' \<Longrightarrow> best \<noteq> '''' \<or> (\<exists>k\<in>set ks. equalFold k name) \<Longrightarrow> bestKey name best ks \<noteq> ''''"
proof (induction ks arbitrary: best)
  case (Cons k ks)
  let ?b = "if equalFold k name \<and> (best = '''' \<or> k < best) then k else best"
  have "equalFold k name \<Longrightarrow> k \<noteq> ''''" using Cons.prems(1) by auto
  then have "?b \<noteq> '''' \<or> (\<exists>k\<in>set ks. equalFold k name)" using Cons.prems(2) by auto
  then show ?case using Cons.IH [OF Cons.prems(1)] by simp
qed simp

lemma resolveKey_fold:
  assumes "map_of m (resolveKey m name) \<noteq> None"
  shows "equalFold (resolveKey m name) name"
  using assms bestKey_cases [of name "''''" "map fst m"] by (auto simp: resolveKey_def Let_def split: if_splits)

lemma resolveKey_unique:
  assumes k: "map_of m k \<noteq> None" "equalFold k name" and u: "\<And>k'. map_of m k' \<noteq> None \<Longrightarrow> equalFold k' name \<Longrightarrow> k' = k"
  shows "resolveKey m name = k"
proof (cases "map_of m name = None")
  case False
  then show ?thesis using u [of name] by (simp add: resolveKey_def)
next
  case True
  have key: "map_of m x \<noteq> None \<longleftrightarrow> x \<in> set (map fst m)" for x by (metis map_of_eq_None_iff set_map)
  have "name \<noteq> ''''" using k True by auto
  moreover have "\<exists>x\<in>set (map fst m). equalFold x name" using k key by blast
  ultimately have b: "bestKey name '''' (map fst m) \<noteq> ''''" by (rule bestKey_some [OF _ disjI2])
  with bestKey_cases [of name "''''" "map fst m"] have "bestKey name '''' (map fst m) = k" using u key by blast
  with b True show ?thesis by (simp add: resolveKey_def)
qed

lemma resolveKey_none:
  assumes "\<And>k. map_of m k \<noteq> None \<Longrightarrow> \<not> equalFold k name"
  shows "resolveKey m name = name"
proof -
  have "x \<in> set (map fst m) \<Longrightarrow> map_of m x \<noteq> None" for x by (metis map_of_eq_None_iff set_map)
  then have "bestKey name '''' (map fst m) = ''''" using bestKey_cases [of name "''''" "map fst m"] assms by blast
  then show ?thesis by (simp add: resolveKey_def)
qed

definition matches :: "expression \<Rightarrow> json \<Rightarrow> bool" where
  "matches expr x \<longleftrightarrow> (\<exists>em. x = JObj em \<and> evalFilter expr em = Inr True)"

definition evaluates :: "expression \<Rightarrow> json list \<Rightarrow> bool" where
  "evaluates expr xs \<longleftrightarrow> (\<forall>em. JObj em \<in> set xs \<longrightarrow> isOk (evalFilter expr em))"

fun overlayOf :: "obj \<Rightarrow> json \<Rightarrow> json" where
  "overlayOf kvs (JObj em) = JObj (overlayElem em kvs)"
| "overlayOf kvs x = x"

lemma evaluates_Cons [simp]:
  "evaluates expr (x # xs) \<longleftrightarrow> (\<forall>em. x = JObj em \<longrightarrow> isOk (evalFilter expr em)) \<and> evaluates expr xs"
  by (auto simp: evaluates_def)

lemma matches_JObj [simp]: "matches expr (JObj em) \<longleftrightarrow> evalFilter expr em = Inr True"
  by (simp add: matches_def)

lemma filterElems_remove:
  "evaluates expr xs \<Longrightarrow> filterElems dec expr [] val OpRemove xs =
     Inr (length (filter (matches expr) xs), filter (\<lambda>x. \<not> matches expr x) xs)"
proof (induction xs)
  case (Cons x xs)
  then show ?case
    by (cases x) (auto simp: matches_def isl_def split: sum.splits)
qed simp

lemma filterElems_assign:
  "evaluates expr xs \<Longrightarrow> dec val = Some (JObj kvs) \<Longrightarrow> oper = OpAdd \<or> oper = OpReplace \<Longrightarrow>
   filterElems dec expr [] val oper xs =
     Inr (length (filter (matches expr) xs), map (\<lambda>x. if matches expr x then overlayOf kvs x else x) xs)"
proof (induction xs)
  case (Cons x xs)
  have "oper \<noteq> OpRemove" using Cons.prems(3) by (auto simp: op_defs)
  with Cons show ?case
    by (cases x) (auto simp: matches_def isl_def assignFiltered_def split: sum.splits)
qed simp

section \<open>Properties\<close>

text \<open>
  Attribute names ignore case, in every shape of operation. Where exactly one stored
  attribute is the named one up to case, a replace by path and a replace without a path
  both set that attribute to the value and change nothing else, a removal removes it and
  nothing else, and no second spelling of it is ever stored. With no such attribute the
  client's spelling is added.
\<close>

theorem patch_ignores_case:
  assumes "map_of t k \<noteq> None" "equalFold k n" "\<forall>k'. map_of t k' \<noteq> None \<and> equalFold k' n \<longrightarrow> k' = k"
    and "pth \<noteq> ''''" "ParsePath lib pth = Inr p" "paSegments p = [n]" "paFilter p = None"
    and "dec raw = Some v" "dec over = Some (JObj [(n, v)])" "over \<noteq> ''''"
  shows "\<exists>t1 t2 t3. Apply lib dec (Some t) [\<lparr>oOp = OpReplace, oPath = pth, oValue = raw\<rparr>] = Inr t1 \<and>
    Apply lib dec (Some t) [\<lparr>oOp = OpReplace, oPath = '''', oValue = over\<rparr>] = Inr t2 \<and>
    Apply lib dec (Some t) [\<lparr>oOp = OpRemove, oPath = pth, oValue = raw\<rparr>] = Inr t3 \<and>
    map_of t1 = (map_of t)(k \<mapsto> v) \<and> map_of t2 = (map_of t)(k \<mapsto> v) \<and> map_of t3 = (map_of t)(k := None) \<and>
    (equalFold n k' \<and> k' \<noteq> k \<longrightarrow> map_of t1 k' = None \<and> map_of t2 k' = None) \<and>
    (\<forall>t' t4. (\<forall>x. map_of t' x \<noteq> None \<longrightarrow> \<not> equalFold x n) \<and>
       Apply lib dec (Some t') [\<lparr>oOp = OpReplace, oPath = pth, oValue = raw\<rparr>] = Inr t4 \<longrightarrow> map_of t4 = (map_of t')(n \<mapsto> v))"
proof -
  have r: "resolveKey t n = k" using resolveKey_unique [OF assms(1,2)] assms(3) by blast
  have u: "mergeOverlay False t [(n, v)] = AList.update k v t"
    using r by (simp add: Let_def split: option.split json.split)
  have replace: "Apply lib dec (Some t') [\<lparr>oOp = OpReplace, oPath = pth, oValue = raw\<rparr>] =
      Inr (AList.update (resolveKey t' n) v t')" for t'
    using assms(4-8)
    by (simp add: Apply_def applyOne_def applyPathed_def applyPath_def applySimple_def applyLeaf_def Let_def op_defs)
  have overlay: "Apply lib dec (Some t) [\<lparr>oOp = OpReplace, oPath = '''', oValue = over\<rparr>] = Inr (AList.update k v t)"
    using assms(9,10) u
    by (simp add: Apply_def applyOne_def mergePartialResource_def op_defs del: mergeOverlay.simps)
  have remove: "Apply lib dec (Some t) [\<lparr>oOp = OpRemove, oPath = pth, oValue = raw\<rparr>] = Inr (AList.delete k t)"
    using assms(4-7) r
    by (simp add: Apply_def applyOne_def applyPathed_def applyPath_def applySimple_def applyLeaf_def Let_def op_defs)
  have "map_of t k' = None" if "equalFold n k'" "k' \<noteq> k"
    using assms(3) that by (auto simp: equalFold_def)
  moreover have "resolveKey t' n = n" if "\<forall>x. map_of t' x \<noteq> None \<longrightarrow> \<not> equalFold x n" for t'
    using that by (intro resolveKey_none) blast
  ultimately show ?thesis
    using replace overlay remove r by (auto simp: alist_simps)
qed

text \<open>Deprovisioning as one provider sends it, against the stored lower-case name.\<close>

definition exampleLib :: "string \<Rightarrow> LibPath option" where
  "exampleLib s = (if s = '''' then None
     else Some \<lparr>lpAttributePath = \<lparr>apName = s, apSub = None\<rparr>, lpValueExpression = None, lpSubAttribute = None\<rparr>)"

definition exampleDec :: "string \<Rightarrow> json option" where
  "exampleDec s = (if s = ''false'' then Some (JBool False)
     else if s = ''over'' then Some (JObj [(''Active'', JBool False)])
     else if s = ''pw'' then Some (JStr ''hunter2'') else None)"

theorem patch_ignores_case_witness:
  "\<exists>t1. Apply exampleLib exampleDec (Some [(''active'', JBool True)]) [\<lparr>oOp = OpReplace, oPath = ''Active'', oValue = ''false''\<rparr>] = Inr t1 \<and>
     map_of t1 ''active'' = Some (JBool False) \<and> map_of t1 ''Active'' = None"
proof -
  let ?t = "[(''active'', JBool True)]"
  have f: "equalFold ''active'' ''Active''" "equalFold ''Active'' ''active''" by code_simp+
  have k: "map_of ?t ''active'' \<noteq> None" by simp
  have u: "\<forall>k'. map_of ?t k' \<noteq> None \<and> equalFold k' ''Active'' \<longrightarrow> k' = ''active''" by (simp split: if_splits)
  have p: "ParsePath exampleLib ''Active'' = Inr \<lparr>paSchemaURN = '''', paSegments = [''Active''], paFilterIndex = -1, paFilter = None\<rparr>"
    by code_simp
  have d: "exampleDec ''false'' = Some (JBool False)" "exampleDec ''over'' = Some (JObj [(''Active'', JBool False)])"
    by (simp_all add: exampleDec_def)
  have s: "''Active'' \<noteq> ''''" "paSegments \<lparr>paSchemaURN = '''', paSegments = [''Active''], paFilterIndex = -1, paFilter = None\<rparr> = [''Active'']"
    "paFilter \<lparr>paSchemaURN = '''', paSegments = [''Active''], paFilterIndex = -1, paFilter = None\<rparr> = None" "''over'' \<noteq> ''''"
    by simp_all
  obtain t1 where t1: "Apply exampleLib exampleDec (Some ?t) [\<lparr>oOp = OpReplace, oPath = ''Active'', oValue = ''false''\<rparr>] = Inr t1"
    "map_of t1 = (map_of ?t)(''active'' \<mapsto> JBool False)"
    using patch_ignores_case [OF k f(1) u s(1) p s(2,3) d s(4)] by blast
  then show ?thesis by simp
qed

text \<open>
  What a filtered operation does to a list whose elements the filter can judge. A
  removal keeps exactly the elements that do not match, in order. An addition or a
  replacement with an object value overlays it on every matching element, leaves the
  others as they are, and keeps the length; without a match an equality on a plain name
  appends one element, and that element has the value overlaid on the name and value of
  the filter. Other attributes of the resource do not change.
\<close>

theorem filtered_patch:
  assumes "ParsePath lib pth = Inr \<lparr>paSchemaURN = urn, paSegments = [n], paFilterIndex = 0, paFilter = Some expr\<rparr>" "pth \<noteq> ''''"
    and "resolveKey t n = k" "map_of t k = Some (JArr xs)" "evaluates expr xs" "dec raw = Some (JObj kvs)" "raw \<noteq> ''''"
    and "oper = OpAdd \<or> oper = OpReplace"
  shows "(\<exists>t1. Apply lib dec (Some t) [\<lparr>oOp = OpRemove, oPath = pth, oValue = raw\<rparr>] = Inr t1 \<and>
      map_of t1 = (map_of t)(k \<mapsto> JArr (filter (\<lambda>x. \<not> matches expr x) xs))) \<and>
    ((\<exists>x\<in>set xs. matches expr x) \<longrightarrow>
      (\<exists>t1. Apply lib dec (Some t) [\<lparr>oOp = oper, oPath = pth, oValue = raw\<rparr>] = Inr t1 \<and>
         map_of t1 = (map_of t)(k \<mapsto> JArr (map (\<lambda>x. if matches expr x then overlayOf kvs x else x) xs)))) \<and>
    ((\<forall>x\<in>set xs. \<not> matches expr x) \<and> expr = AttributeExpression ap EQ w \<longrightarrow>
      (\<exists>t1. Apply lib dec (Some t) [\<lparr>oOp = oper, oPath = pth, oValue = raw\<rparr>] = Inr t1 \<and>
         map_of t1 = (map_of t)(k \<mapsto> JArr (xs @ [JObj (overlayRaw [(canonicalAttrName ap, w)] kvs)]))))"
proof -
  have nr: "oper \<noteq> OpRemove" using assms(8) by (auto simp: op_defs)
  have step: "Apply lib dec (Some t) [\<lparr>oOp = x, oPath = pth, oValue = y\<rparr>] = applyPath dec
      \<lparr>paSchemaURN = urn, paSegments = [n], paFilterIndex = 0, paFilter = Some expr\<rparr> t
      (if x = OpRemove then '''' else y) x"
    if "x = OpAdd \<or> x = OpReplace \<or> x = OpRemove" for x y
    using that assms(1,2) by (auto simp: Apply_def applyOne_def applyPathed_def op_defs split: sum.split)
  have path: "applyPath dec \<lparr>paSchemaURN = urn, paSegments = [n], paFilterIndex = 0, paFilter = Some expr\<rparr> t y x =
      filteredAt dec expr n [] y x t" for x y
    by (simp add: applyPath_def applyFiltered_def)
  have rem: "Apply lib dec (Some t) [\<lparr>oOp = OpRemove, oPath = pth, oValue = raw\<rparr>] =
      Inr (AList.update k (JArr (filter (\<lambda>x. \<not> matches expr x) xs)) t)"
    using step [of OpRemove raw] path assms(3,4) filterElems_remove [OF assms(5)]
    by (simp add: filteredAt_def Let_def op_defs)
  have asg: "filterElems dec expr [] raw oper xs =
      Inr (length (filter (matches expr) xs), map (\<lambda>x. if matches expr x then overlayOf kvs x else x) xs)"
    using filterElems_assign [of expr xs dec raw kvs oper] assms(5,6,8) by blast
  have add: "Apply lib dec (Some t) [\<lparr>oOp = oper, oPath = pth, oValue = raw\<rparr>] = filteredAt dec expr n [] raw oper t"
    using step [of oper raw] path assms(8) nr by auto
  have hit: "Apply lib dec (Some t) [\<lparr>oOp = oper, oPath = pth, oValue = raw\<rparr>] =
      Inr (AList.update k (JArr (map (\<lambda>x. if matches expr x then overlayOf kvs x else x) xs)) t)"
    if ex: "\<exists>x\<in>set xs. matches expr x"
  proof -
    obtain c where c: "length (filter (matches expr) xs) = Suc c"
      using ex by (cases "filter (matches expr) xs") (auto simp: filter_empty_conv)
    show ?thesis using add asg assms(3,4) unfolding c by (simp add: filteredAt_def Let_def)
  qed
  have miss: "Apply lib dec (Some t) [\<lparr>oOp = oper, oPath = pth, oValue = raw\<rparr>] =
      Inr (AList.update k (JArr (xs @ [JObj (overlayRaw [(canonicalAttrName ap, w)] kvs)])) t)"
    if "\<forall>x\<in>set xs. \<not> matches expr x" "expr = AttributeExpression ap EQ w"
  proof -
    have "map (\<lambda>x. if matches expr x then overlayOf kvs x else x) xs = xs"
      using that(1) by (intro map_idI) simp
    moreover have "filter (matches expr) xs = []" using that(1) by (simp add: filter_empty_conv)
    ultimately show ?thesis
      using add asg assms(3,4,6-8) that(2) by (auto simp: filteredAt_def Let_def buildFilteredAppend_def)
  qed
  show ?thesis using rem hit miss by (auto simp: alist_simps)
qed

definition exampleMembers :: "json list" where
  "exampleMembers = [JObj [(''value'', JStr ''a'')], JObj [(''value'', JStr ''b'')]]"

definition exampleFilter :: expression where
  "exampleFilter = AttributeExpression \<lparr>apName = ''value'', apSub = None\<rparr> EQ (JStr ''a'')"

theorem filtered_patch_witness:
  "\<exists>t1. Apply (\<lambda>_. Some \<lparr>lpAttributePath = \<lparr>apName = ''members'', apSub = None\<rparr>, lpValueExpression = Some exampleFilter,
        lpSubAttribute = None\<rparr>) exampleDec (Some [(''members'', JArr exampleMembers)])
        [\<lparr>oOp = OpRemove, oPath = ''members[value eq a]'', oValue = ''over''\<rparr>] = Inr t1 \<and>
     map_of t1 ''members'' = Some (JArr [JObj [(''value'', JStr ''b'')]])"
proof -
  let ?lib = "\<lambda>_. Some \<lparr>lpAttributePath = \<lparr>apName = ''members'', apSub = None\<rparr>, lpValueExpression = Some exampleFilter,
        lpSubAttribute = None\<rparr>"
  have p: "ParsePath ?lib ''members[value eq a]'' =
      Inr \<lparr>paSchemaURN = '''', paSegments = [''members''], paFilterIndex = 0, paFilter = Some exampleFilter\<rparr>"
    by code_simp
  have k: "resolveKey [(''members'', JArr exampleMembers)] ''members'' = ''members''" by (simp add: resolveKey_def)
  have e: "evalFilter exampleFilter [(''value'', JStr ''a'')] = Inr True" "evalFilter exampleFilter [(''value'', JStr ''b'')] = Inr False"
    by code_simp+
  then have ev: "evaluates exampleFilter exampleMembers" by (auto simp: evaluates_def exampleMembers_def)
  have flt: "filter (\<lambda>x. \<not> matches exampleFilter x) exampleMembers = [JObj [(''value'', JStr ''b'')]]"
    using e by (simp add: exampleMembers_def)
  have "\<exists>t1. Apply ?lib exampleDec (Some [(''members'', JArr exampleMembers)])
        [\<lparr>oOp = OpRemove, oPath = ''members[value eq a]'', oValue = ''over''\<rparr>] = Inr t1 \<and>
      map_of t1 = (map_of [(''members'', JArr exampleMembers)])(''members'' \<mapsto> JArr (filter (\<lambda>x. \<not> matches exampleFilter x) exampleMembers))"
    by (rule filtered_patch [OF p _ k _ ev, of exampleDec "''over''" "[(''Active'', JBool False)]" OpAdd, THEN conjunct1])
      (simp_all add: exampleDec_def)
  then show ?thesis unfolding flt by auto
qed

lemma splitDots_plain: "CHR ''.'' \<notin> set s \<Longrightarrow> splitDots s = [s]"
  by (induction s) auto

lemma splitDots_dot: "CHR ''.'' \<notin> set a \<Longrightarrow> splitDots (a @ CHR ''.'' # s) = a # splitDots s"
  by (induction a) auto

lemma equalFold_length: "equalFold a b \<Longrightarrow> length a = length b"
  by (metis equalFold_def length_toLower)

lemma equalValues_refl: "equalValues w w"
  by (cases w) (simp_all add: equalValues_def)

text \<open>
  An addition through a filter is an upsert, except through a dotted name. On an empty
  list, adding through an equality on a plain name leaves one element, the filter matches
  it, and the same operation again changes nothing. Through an equality on a dotted name
  it leaves one element too, but the dotted name is stored as one flat attribute: the
  filter that made the element does not match it, and each repetition appends another.
\<close>

theorem filtered_add_upserts:
  assumes "CHR ''.'' \<notin> set n" "CHR ''.'' \<notin> set a" "CHR ''.'' \<notin> set b" "w \<noteq> JNull" "raw \<noteq> ''''" "dec raw = Some (JObj [])"
  shows "let plain = AttributeExpression \<lparr>apName = n, apSub = None\<rparr> EQ w;
             dotted = AttributeExpression \<lparr>apName = a, apSub = Some b\<rparr> EQ w;
             run = (\<lambda>expr t. filteredAt dec expr k [] raw OpAdd t) in
    (\<exists>elem. run plain [(k, JArr [])] = Inr [(k, JArr [JObj elem])] \<and> evalFilter plain elem = Inr True \<and>
       run plain [(k, JArr [JObj elem])] = Inr [(k, JArr [JObj elem])]) \<and>
    (\<exists>elem. run dotted [(k, JArr [])] = Inr [(k, JArr [JObj elem])] \<and> evalFilter dotted elem = Inr False \<and>
       run dotted [(k, JArr [JObj elem])] = Inr [(k, JArr [JObj elem, JObj elem])])"
proof -
  let ?plain = "AttributeExpression \<lparr>apName = n, apSub = None\<rparr> EQ w"
  let ?dotted = "AttributeExpression \<lparr>apName = a, apSub = Some b\<rparr> EQ w"
  let ?d = "a @ ''.'' @ b"
  have rk: "resolveKey [(x, y)] x = x" for x and y :: json by (simp add: resolveKey_def)
  have p: "evalFilter ?plain [(n, w)] = Inr True"
    using assms(1,4) by (simp add: evalAttribute_def canonicalAttrName_def splitDots_plain rk equalValues_refl)
  have "resolveKey [(?d, w)] a = a"
    by (rule resolveKey_none) (auto dest: equalFold_length split: if_splits)
  then have d: "evalFilter ?dotted [(?d, w)] = Inr False"
    using assms(2,3) splitDots_dot [OF assms(2), of b] splitDots_plain [OF assms(3)]
    by (simp add: evalAttribute_def canonicalAttrName_def)
  have "filteredAt dec ?plain k [] raw OpAdd [(k, JArr [])] = Inr [(k, JArr [JObj [(n, w)]])]"
    "filteredAt dec ?dotted k [] raw OpAdd [(k, JArr [])] = Inr [(k, JArr [JObj [(?d, w)]])]"
    using assms(5,6) by (simp_all add: filteredAt_def rk buildFilteredAppend_def canonicalAttrName_def Let_def op_defs)
  moreover have "filteredAt dec ?plain k [] raw OpAdd [(k, JArr [JObj [(n, w)]])] = Inr [(k, JArr [JObj [(n, w)]])]"
    using assms(5,6) p by (simp add: filteredAt_def rk assignFiltered_def Let_def op_defs)
  moreover have "filteredAt dec ?dotted k [] raw OpAdd [(k, JArr [JObj [(?d, w)]])] =
      Inr [(k, JArr [JObj [(?d, w)], JObj [(?d, w)]])]"
    using assms(5,6) d by (simp add: filteredAt_def rk buildFilteredAppend_def canonicalAttrName_def Let_def op_defs)
  ultimately show ?thesis using p d unfolding Let_def by blast
qed

theorem filtered_add_upserts_witness:
  "evalFilter (AttributeExpression \<lparr>apName = ''name'', apSub = Some ''familyName''\<rparr> EQ (JStr ''x''))
     [(''name.familyName'', JStr ''x'')] = Inr False \<and>
   (\<exists>elem. filteredAt (\<lambda>_. Some (JObj [])) (AttributeExpression \<lparr>apName = ''value'', apSub = None\<rparr> EQ (JStr ''x'')) ''emails'' [] ''v''
      OpAdd [(''emails'', JArr [])] = Inr [(''emails'', JArr [JObj elem])])"
proof -
  have "\<exists>elem. filteredAt (\<lambda>_. Some (JObj [])) (AttributeExpression \<lparr>apName = ''value'', apSub = None\<rparr> EQ (JStr ''x'')) ''emails'' [] ''v''
      OpAdd [(''emails'', JArr [])] = Inr [(''emails'', JArr [JObj elem])]"
    using filtered_add_upserts [of "''value''" "''name''" "''familyName''" "JStr ''x''" "''v''" "\<lambda>_. Some (JObj [])" "''emails''"]
    unfolding Let_def by auto
  moreover have "evalFilter (AttributeExpression \<lparr>apName = ''name'', apSub = Some ''familyName''\<rparr> EQ (JStr ''x''))
     [(''name.familyName'', JStr ''x'')] = Inr False" by code_simp
  ultimately show ?thesis by blast
qed

text \<open>
  What reaches the audit trail of a PATCH. Redaction keeps the number, the kind and the
  path of the operations. An operation whose path, as sent, names a sensitive attribute
  has its value replaced, and a value object sent without a path has every sensitive key
  replaced, as long as it can be printed. But the path is compared as sent while it is
  applied after trimming: a password sent with a blank before the path is written to the
  resource and stays in the audit trail.
\<close>

theorem RedactedOps_hides:
  "map (\<lambda>op. (oOp op, oPath op)) (RedactedOps dec enc ops) = map (\<lambda>op. (oOp op, oPath op)) ops \<and>
   (\<forall>i < length ops. isSensitivePath (oPath (ops ! i)) \<longrightarrow> oValue (RedactedOps dec enc ops ! i) = redactedText) \<and>
   (\<forall>i < length ops. \<forall>kvs k v. oPath (ops ! i) = '''' \<and> oValue (ops ! i) \<noteq> '''' \<and> dec (oValue (ops ! i)) = Some (JObj kvs) \<and>
      (k, v) \<in> set kvs \<and> isSensitivePath k \<and> (\<forall>x. \<exists>out. enc x = Some out \<and> dec out = Some x) \<longrightarrow>
      (\<exists>kvs'. dec (oValue (RedactedOps dec enc ops ! i)) = Some (JObj kvs') \<and>
         (\<forall>k' v'. (k', v') \<in> set kvs' \<and> isSensitivePath k' \<longrightarrow> v' = JStr ''***''))) \<and>
   (lib ''password'' = Some \<lparr>lpAttributePath = \<lparr>apName = ''password'', apSub = None\<rparr>, lpValueExpression = None, lpSubAttribute = None\<rparr> \<and>
      dec secret = Some pw \<longrightarrow>
      (let op = \<lparr>oOp = OpReplace, oPath = '' password'', oValue = secret\<rparr> in
       RedactedOps dec enc [op] = [op] \<and> Apply lib dec (Some []) [op] = Inr [(''password'', pw)]))"
proof (intro conjI allI impI)
  have "oOp (redactOp dec enc op) = oOp op \<and> oPath (redactOp dec enc op) = oPath op" for op
    by (auto simp: redactOp_def split: option.split json.split)
  then show "map (\<lambda>op. (oOp op, oPath op)) (RedactedOps dec enc ops) = map (\<lambda>op. (oOp op, oPath op)) ops"
    by (simp add: RedactedOps_def)
next
  fix i assume "i < length ops" "isSensitivePath (oPath (ops ! i))"
  then show "oValue (RedactedOps dec enc ops ! i) = redactedText"
    by (simp add: RedactedOps_def redactOp_def)
next
  fix i kvs k v
  assume i: "i < length ops" and a: "oPath (ops ! i) = '''' \<and> oValue (ops ! i) \<noteq> '''' \<and> dec (oValue (ops ! i)) = Some (JObj kvs) \<and>
      (k, v) \<in> set kvs \<and> isSensitivePath k \<and> (\<forall>x. \<exists>out. enc x = Some out \<and> dec out = Some x)"
  let ?kvs = "map (\<lambda>(k, v). (k, if isSensitivePath k then JStr ''***'' else v)) kvs"
  obtain out where out: "enc (JObj ?kvs) = Some out" "dec out = Some (JObj ?kvs)" using a by blast
  have "\<exists>kv\<in>set kvs. isSensitivePath (fst kv)" using a by (intro bexI [of _ "(k, v)"]) auto
  moreover have "\<not> isSensitivePath ''''" by (simp add: isSensitivePath_def)
  ultimately have "redactOp dec enc (ops ! i) = (ops ! i)\<lparr>oValue := out\<rparr>" using a out(1) by (simp add: redactOp_def)
  then have "dec (oValue (RedactedOps dec enc ops ! i)) = Some (JObj ?kvs)" using i out(2) by (simp add: RedactedOps_def)
  moreover have "\<forall>k' v'. (k', v') \<in> set ?kvs \<and> isSensitivePath k' \<longrightarrow> v' = JStr ''***''" by auto
  ultimately show "\<exists>kvs'. dec (oValue (RedactedOps dec enc ops ! i)) = Some (JObj kvs') \<and>
         (\<forall>k' v'. (k', v') \<in> set kvs' \<and> isSensitivePath k' \<longrightarrow> v' = JStr ''***'')" by blast
next
  assume a: "lib ''password'' = Some \<lparr>lpAttributePath = \<lparr>apName = ''password'', apSub = None\<rparr>, lpValueExpression = None, lpSubAttribute = None\<rparr> \<and>
      dec secret = Some pw"
  have p: "ParsePath lib '' password'' = Inr \<lparr>paSchemaURN = '''', paSegments = [''password''], paFilterIndex = -1, paFilter = None\<rparr>"
  proof -
    have "trimSpace '' password'' = ''password''" "stripSchemaURN ''password'' = ('''', ''password'')" by code_simp+
    with a show ?thesis by (simp add: ParsePath_def)
  qed
  have "\<not> isSensitivePath '' password''" by code_simp
  then show "let op = \<lparr>oOp = OpReplace, oPath = '' password'', oValue = secret\<rparr> in
       RedactedOps dec enc [op] = [op] \<and> Apply lib dec (Some []) [op] = Inr [(''password'', pw)]"
    using a p by (simp add: RedactedOps_def redactOp_def Apply_def applyOne_def applyPathed_def applyPath_def applySimple_def
        applyLeaf_def resolveKey_def Let_def op_defs)
qed

theorem RedactedOps_hides_witness:
  "RedactedOps exampleDec (\<lambda>_. None) [\<lparr>oOp = OpReplace, oPath = '' password'', oValue = ''pw''\<rparr>] =
     [\<lparr>oOp = OpReplace, oPath = '' password'', oValue = ''pw''\<rparr>] \<and>
   Apply exampleLib exampleDec (Some []) [\<lparr>oOp = OpReplace, oPath = '' password'', oValue = ''pw''\<rparr>] = Inr [(''password'', JStr ''hunter2'')]"
proof -
  have "exampleLib ''password'' = Some \<lparr>lpAttributePath = \<lparr>apName = ''password'', apSub = None\<rparr>, lpValueExpression = None, lpSubAttribute = None\<rparr> \<and>
      exampleDec ''pw'' = Some (JStr ''hunter2'')"
    by (simp add: exampleLib_def exampleDec_def)
  with RedactedOps_hides [of exampleDec "\<lambda>_. None" "[]" exampleLib "''pw''" "JStr ''hunter2''"]
  show ?thesis unfolding Let_def by blast
qed

end
