(* ===== verification/Audit_Event.thy ===== *)
theory Audit_Event
  imports Tenant_Id
begin

text \<open>
  Package \<^verbatim>\<open>audit\<close>, the event and its hash: the actor and the two request-context slots, the
  canonical payload (\<^verbatim>\<open>audit.go\<close>, \<^verbatim>\<open>canonical_v4.go\<close>) and the salted commitments that let
  a row be redacted (\<^verbatim>\<open>redaction.go\<close>). Bytes are a \<^typ>\<open>string\<close>; SHA-256 is the parameter
  \<^verbatim>\<open>H\<close>. A \<^verbatim>\<open>time.Time\<close> is the number of nanoseconds since Go's zero time, so 0 is
  \<^verbatim>\<open>IsZero\<close>. A nil byte slice is the empty one, as every use of it here reads it.
\<close>

section \<open>Actors\<close>

definition ActorTypeUser :: string where "ActorTypeUser = ''user''"
definition ActorTypeServiceAccount :: string where "ActorTypeServiceAccount = ''service_account''"
definition ActorTypeSystem :: string where "ActorTypeSystem = ''system''"

lemmas actor_types = ActorTypeUser_def ActorTypeServiceAccount_def ActorTypeSystem_def

record Actor =
  acType :: string
  acUserID :: string
  acEmail :: string
  acName :: string
  acIP :: string
  acTenantID :: string

definition zeroActor :: Actor where
  "zeroActor = \<lparr>acType = '''', acUserID = '''', acEmail = '''', acName = '''', acIP = '''', acTenantID = ''''\<rparr>"

definition ActorService :: "string \<Rightarrow> string \<Rightarrow> ID \<Rightarrow> Actor" where
  "ActorService saID saName tenantID =
     zeroActor\<lparr>acType := ActorTypeServiceAccount, acUserID := saID, acName := saName, acTenantID := IDString tenantID\<rparr>"

definition ActorSystem :: "string \<Rightarrow> Actor" where
  "ActorSystem name = zeroActor\<lparr>acType := ActorTypeSystem, acUserID := ''system'', acName := name\<rparr>"

text \<open>
  What a context carries under this package's two keys: the actor, and the cluster slot,
  whose outer \<^verbatim>\<open>None\<close> is a context no middleware wrapped.
\<close>

record audit_ctx =
  axActor :: "Actor option"
  axClusterID :: "string option"

definition WithActor :: "'z audit_ctx_scheme \<Rightarrow> Actor \<Rightarrow> 'z audit_ctx_scheme" where
  "WithActor ctx a = ctx\<lparr>axActor := Some a\<rparr>"

definition ActorFromContext :: "'z audit_ctx_scheme \<Rightarrow> Actor" where
  "ActorFromContext ctx =
     (case axActor ctx of
        Some v \<Rightarrow> if acType v = '''' then v\<lparr>acType := ActorTypeUser\<rparr> else v
      | None \<Rightarrow> zeroActor\<lparr>acType := ActorTypeUser\<rparr>)"

definition WithClusterIDCapture :: "'z audit_ctx_scheme \<Rightarrow> 'z audit_ctx_scheme" where
  "WithClusterIDCapture ctx = ctx\<lparr>axClusterID := Some ''''\<rparr>"

definition SetClusterID :: "'z audit_ctx_scheme \<Rightarrow> string \<Rightarrow> 'z audit_ctx_scheme" where
  "SetClusterID ctx i = (case axClusterID ctx of Some _ \<Rightarrow> ctx\<lparr>axClusterID := Some i\<rparr> | None \<Rightarrow> ctx)"

definition ClusterIDFromContext :: "'z audit_ctx_scheme \<Rightarrow> string" where
  "ClusterIDFromContext ctx = (case axClusterID ctx of Some i \<Rightarrow> i | None \<Rightarrow> '''')"

section \<open>Events\<close>

record Commitments =
  ctActorEmail :: string
  ctActorName :: string
  ctActorIP :: string
  ctBefore :: string
  ctAfter :: string

record Event =
  evID :: string
  evAt :: go_time
  evActor :: Actor
  evAction :: string
  evResourceType :: string
  evResourceID :: string
  evRequestID :: string
  evClusterID :: string
  evBefore :: string
  evAfter :: string
  evPrevHash :: string
  evHash :: string
  evCanonicalVersion :: int
  evTenantID :: string
  evRowSalt :: string
  evCommitments :: Commitments

definition CanonicalVersion4 :: int where "CanonicalVersion4 = 4"
definition HashSize :: nat where "HashSize = 32"
definition RowSaltSize :: nat where "RowSaltSize = 32"

datatype audit_err =
    EventIDRequired
  | EventAtRequired
  | EventActionRequired
  | UnknownCanonicalVersion int
  | PrevHashSize
  | FreshRowSaltRequired
  | CommitmentsNotComputed
  | ErrCommitmentMismatch string
  | ErrEmptyDBPath
  | OtherVersionsPresent
  | UniqueViolation
  | BadCursor
  | ExportTenantRequired
  | ExportLeak
  | AuditStoreFailure string

section \<open>Encoding\<close>

fun bigEndian :: "nat \<Rightarrow> nat \<Rightarrow> string" where
  "bigEndian 0 n = []"
| "bigEndian (Suc k) n = bigEndian k (n div 256) @ [char_of n]"

definition putUint32 :: "32 word \<Rightarrow> string" where "putUint32 w = bigEndian 4 (unat w)"
definition putUint64 :: "64 word \<Rightarrow> string" where "putUint64 w = bigEndian 8 (unat w)"

definition appendLP :: "string \<Rightarrow> string \<Rightarrow> string" where
  "appendLP dst v = dst @ putUint32 (word_of_nat (length v)) @ v"

definition appendStringField :: "string \<Rightarrow> string \<Rightarrow> string \<Rightarrow> string" where
  "appendStringField dst name v = appendLP (appendLP dst name) v"

definition appendBytesField :: "string \<Rightarrow> string \<Rightarrow> string \<Rightarrow> string" where
  "appendBytesField dst name v = appendLP (appendLP dst name) v"

definition appendInt64Field :: "string \<Rightarrow> string \<Rightarrow> int \<Rightarrow> string" where
  "appendInt64Field dst name v = appendLP (appendLP dst name) (putUint64 (word_of_int v))"

text \<open>\<^verbatim>\<open>UnixNano\<close>: 1970 is 62135596800 seconds after the zero time.\<close>

definition UnixNano :: "go_time \<Rightarrow> int" where
  "UnixNano at = at - 62135596800 * 1000000000"

definition payloadActorType :: "Event \<Rightarrow> string" where
  "payloadActorType e = (if acType (evActor e) = '''' then ActorTypeUser else acType (evActor e))"

definition canonicalPayloadV4 :: "Event \<Rightarrow> string \<Rightarrow> string" where
  "canonicalPayloadV4 e prevHash =
     (let buf = appendStringField [] ''id'' (evID e);
          buf = appendInt64Field buf ''at'' (UnixNano (evAt e));
          buf = appendStringField buf ''actor.user_id'' (acUserID (evActor e));
          buf = appendBytesField buf ''actor.email'' (ctActorEmail (evCommitments e));
          buf = appendBytesField buf ''actor.name'' (ctActorName (evCommitments e));
          buf = appendBytesField buf ''actor.ip'' (ctActorIP (evCommitments e));
          buf = appendStringField buf ''actor.type'' (payloadActorType e);
          buf = appendStringField buf ''action'' (evAction e);
          buf = appendStringField buf ''resource_type'' (evResourceType e);
          buf = appendStringField buf ''resource_id'' (evResourceID e);
          buf = appendStringField buf ''request_id'' (evRequestID e);
          buf = appendStringField buf ''tenant_id'' (evTenantID e);
          buf = appendStringField buf ''actor.tenant_id'' (acTenantID (evActor e));
          buf = appendBytesField buf ''before'' (ctBefore (evCommitments e));
          buf = appendBytesField buf ''after'' (ctAfter (evCommitments e));
          buf = appendBytesField buf ''prev_hash'' prevHash
      in buf)"

definition canonicalPayloadForVersion :: "Event \<Rightarrow> string \<Rightarrow> int \<Rightarrow> audit_err + string" where
  "canonicalPayloadForVersion e prevHash version =
     (if version \<noteq> CanonicalVersion4 then Inl (UnknownCanonicalVersion version) else Inr (canonicalPayloadV4 e prevHash))"

definition hashChainLink :: "(string \<Rightarrow> string) \<Rightarrow> string \<Rightarrow> string \<Rightarrow> string" where
  "hashChainLink H prevHash payload = H (prevHash @ payload)"

definition validateRequiredFields :: "Event \<Rightarrow> audit_err option" where
  "validateRequiredFields e =
     (if evID e = '''' then Some EventIDRequired
      else if evAt e = 0 then Some EventAtRequired
      else if evAction e = '''' then Some EventActionRequired
      else None)"

section \<open>Commitments and redaction\<close>

definition commitField :: "(string \<Rightarrow> string) \<Rightarrow> string \<Rightarrow> string \<Rightarrow> string \<Rightarrow> string" where
  "commitField H salt field v = H (salt @ appendLP (appendLP [] field) v)"

definition ComputeCommitments :: "(string \<Rightarrow> string) \<Rightarrow> string \<Rightarrow> Event \<Rightarrow> Commitments" where
  "ComputeCommitments H salt e =
     \<lparr>ctActorEmail = commitField H salt ''actor.email'' (acEmail (evActor e)),
      ctActorName = commitField H salt ''actor.name'' (acName (evActor e)),
      ctActorIP = commitField H salt ''actor.ip'' (acIP (evActor e)),
      ctBefore = commitField H salt ''before'' (evBefore e),
      ctAfter = commitField H salt ''after'' (evAfter e)\<rparr>"

definition IsRedacted :: "string \<Rightarrow> bool" where
  "IsRedacted salt = list_all (\<lambda>b. b = CHR 0x00) salt"

text \<open>The error names the first field, in the order the code compares them.\<close>

definition VerifyCommitments :: "(string \<Rightarrow> string) \<Rightarrow> Event \<Rightarrow> bool \<times> audit_err option" where
  "VerifyCommitments H e =
     (if evCanonicalVersion e \<noteq> CanonicalVersion4 then (False, None)
      else if IsRedacted (evRowSalt e) then (False, None)
      else let want = ComputeCommitments H (evRowSalt e) e; c = evCommitments e in
        if ctActorEmail c \<noteq> ctActorEmail want then (True, Some (ErrCommitmentMismatch ''actor.email''))
        else if ctActorName c \<noteq> ctActorName want then (True, Some (ErrCommitmentMismatch ''actor.name''))
        else if ctActorIP c \<noteq> ctActorIP want then (True, Some (ErrCommitmentMismatch ''actor.ip''))
        else if ctBefore c \<noteq> ctBefore want then (True, Some (ErrCommitmentMismatch ''before''))
        else if ctAfter c \<noteq> ctAfter want then (True, Some (ErrCommitmentMismatch ''after''))
        else (True, None))"

definition Redact :: "Event \<Rightarrow> Event" where
  "Redact e =
     e\<lparr>evActor := (evActor e)\<lparr>acEmail := '''', acName := '''', acIP := ''''\<rparr>, evBefore := '''', evAfter := '''',
       evRowSalt := map (\<lambda>_. CHR 0x00) (evRowSalt e)\<rparr>"

definition ComputeHash :: "(string \<Rightarrow> string) \<Rightarrow> Event \<Rightarrow> string \<Rightarrow> audit_err + string" where
  "ComputeHash H e prevHash =
     (case validateRequiredFields e of
        Some err \<Rightarrow> Inl err
      | None \<Rightarrow>
          if length prevHash \<noteq> HashSize then Inl PrevHashSize
          else if evCanonicalVersion e \<noteq> CanonicalVersion4 then Inl (UnknownCanonicalVersion (evCanonicalVersion e))
          else if length (evRowSalt e) \<noteq> RowSaltSize \<or> IsRedacted (evRowSalt e) then Inl FreshRowSaltRequired
          else if evCommitments e \<noteq> ComputeCommitments H (evRowSalt e) e then Inl CommitmentsNotComputed
          else Inr (hashChainLink H prevHash (canonicalPayloadV4 e prevHash)))"

end
