(* ===== verification/Audit_Store.thy ===== *)
theory Audit_Store
  imports Audit_Event
begin

text \<open>
  Package \<^verbatim>\<open>audit\<close>, the SQLite logger (\<^verbatim>\<open>audit_sqlite.go\<close>, the queries of
  \<^verbatim>\<open>events.sql\<close>, the boot check of \<^verbatim>\<open>verify_boot.go\<close> and the tenant export of \<^verbatim>\<open>export.go\<close>).
  The events table is a list of rows in no meaningful order; a row has the columns of an
  \<^typ>\<open>Event\<close>, under its field names. A query is what its SQL says of that list: its condition a
  predicate, its \<^verbatim>\<open>ORDER BY\<close> a sort key, text compared bytewise. The times of the two
  formats that appear in a cursor are the parameters \<^verbatim>\<open>fmt\<close> and \<^verbatim>\<open>parse\<close>; which database
  call fails is the parameter \<^verbatim>\<open>io\<close>.
\<close>

section \<open>Rows and queries\<close>

type_synonym Table = "Event list"

definition fromRow :: "Event \<Rightarrow> Event" where
  "fromRow r = r\<lparr>evActor := (evActor r)\<lparr>acType := (if acType (evActor r) = '''' then ActorTypeUser else acType (evActor r))\<rparr>\<rparr>"

definition rowKey :: "Event \<Rightarrow> go_time \<times> int \<times> string" where
  "rowKey e = (evAt e, evCanonicalVersion e, evID e)"

definition listEventsForVerify :: "Table \<Rightarrow> Event list" where
  "listEventsForVerify rows = sort_key rowKey rows"

definition getLatestHash :: "Table \<Rightarrow> string option" where
  "getLatestHash rows = (if rows = [] then None else Some (evHash (last (sort_key rowKey rows))))"

definition getLatestAt :: "Table \<Rightarrow> go_time option" where
  "getLatestAt rows = (if rows = [] then None else Some (evAt (last (sort_key rowKey rows))))"

definition getEventByID :: "Table \<Rightarrow> string \<Rightarrow> Event option" where
  "getEventByID rows i = find (\<lambda>e. evID e = i) rows"

definition insertEvent :: "Table \<Rightarrow> Event \<Rightarrow> audit_err + Table" where
  "insertEvent rows e = (if evID e \<in> evID ` set rows then Inl UniqueViolation else Inr (rows @ [e]))"

definition latestHashFrom :: "Table \<Rightarrow> string" where
  "latestHashFrom rows =
     (case getLatestHash rows of
        None \<Rightarrow> replicate HashSize (CHR 0x00)
      | Some row \<Rightarrow> if row = '''' then replicate HashSize (CHR 0x00) else row)"

section \<open>Appending\<close>

record SQLiteLogger =
  lgLastAt :: go_time
  lgEmailLookup :: "(string \<Rightarrow> string option) option"

definition NewSQLiteLogger :: "string \<Rightarrow> audit_err + Table \<Rightarrow> (string \<Rightarrow> string option) option \<Rightarrow> audit_err + SQLiteLogger" where
  "NewSQLiteLogger dbPath opened lookup =
     (if dbPath = '''' then Inl ErrEmptyDBPath
      else (case opened of
          Inl e \<Rightarrow> Inl e
        | Inr rows \<Rightarrow>
            if filter (\<lambda>e. evCanonicalVersion e \<noteq> CanonicalVersion4) rows \<noteq> [] then Inl OtherVersionsPresent
            else Inr \<lparr>lgLastAt = (case getLatestAt rows of Some latestAt \<Rightarrow> latestAt | None \<Rightarrow> 0), lgEmailLookup = lookup\<rparr>))"

text \<open>\<^verbatim>\<open>Log\<close> up to its lock: the checks, the defaults and the email.\<close>

definition enrichEvent :: "SQLiteLogger \<Rightarrow> Event \<Rightarrow> audit_err + Event" where
  "enrichEvent l e =
     (case validateRequiredFields e of
        Some err \<Rightarrow> Inl err
      | None \<Rightarrow>
          let e = (if acType (evActor e) = '''' then e\<lparr>evActor := (evActor e)\<lparr>acType := ActorTypeUser\<rparr>\<rparr> else e) in
          if evCanonicalVersion e \<noteq> 0 \<and> evCanonicalVersion e \<noteq> CanonicalVersion4
          then Inl (UnknownCanonicalVersion (evCanonicalVersion e))
          else let e = e\<lparr>evCanonicalVersion := CanonicalVersion4\<rparr> in
            Inr (if acType (evActor e) = ActorTypeUser \<and> acEmail (evActor e) = '''' \<and> acUserID (evActor e) \<noteq> ''''
                 then (case lgEmailLookup l of
                     None \<Rightarrow> e
                   | Some lookup \<Rightarrow> (case lookup (acUserID (evActor e)) of
                       Some email \<Rightarrow> e\<lparr>evActor := (evActor e)\<lparr>acEmail := email\<rparr>\<rparr>
                     | None \<Rightarrow> e))
                 else e))"

definition watermarkOf :: "go_time \<Rightarrow> Table \<Rightarrow> go_time" where
  "watermarkOf lastAt rows =
     (case getLatestAt rows of Some dbAt \<Rightarrow> if dbAt > lastAt then dbAt else lastAt | None \<Rightarrow> lastAt)"

text \<open>Under the lock: the row that is to be inserted, from what the transaction reads.\<close>

definition chainRow :: "(string \<Rightarrow> string) \<Rightarrow> string \<Rightarrow> go_time \<Rightarrow> Table \<Rightarrow> Event \<Rightarrow> Event" where
  "chainRow H salt lastAt rows e =
     (let watermark = watermarkOf lastAt rows;
          e = (if watermark \<noteq> 0 \<and> \<not> evAt e > watermark then e\<lparr>evAt := watermark + 1\<rparr> else e);
          e = e\<lparr>evRowSalt := salt\<rparr>;
          e = e\<lparr>evCommitments := ComputeCommitments H salt e\<rparr>;
          prev = latestHashFrom rows
      in e\<lparr>evPrevHash := prev, evHash := hashChainLink H prev (canonicalPayloadV4 e prev)\<rparr>)"

datatype logStep = AtConn | AtBegin | AtWatermark | AtSalt | AtLatestHash | AtInsert | AtCommit

fun firstFailure :: "(logStep \<Rightarrow> audit_err option) \<Rightarrow> logStep list \<Rightarrow> audit_err option" where
  "firstFailure io [] = None"
| "firstFailure io (s # ss) = (case io s of Some err \<Rightarrow> Some err | None \<Rightarrow> firstFailure io ss)"

definition Log :: "(string \<Rightarrow> string) \<Rightarrow> (logStep \<Rightarrow> audit_err option) \<Rightarrow> string \<Rightarrow> SQLiteLogger \<Rightarrow> Table \<Rightarrow> Event
    \<Rightarrow> SQLiteLogger \<times> Table \<times> (audit_err + Event)" where
  "Log H io salt l rows e =
     (case enrichEvent l e of
        Inl err \<Rightarrow> (l, rows, Inl err)
      | Inr e \<Rightarrow> (case firstFailure io [AtConn, AtBegin, AtWatermark, AtSalt, AtLatestHash] of
          Some err \<Rightarrow> (l, rows, Inl err)
        | None \<Rightarrow>
            let row = chainRow H salt (lgLastAt l) rows e; l' = l\<lparr>lgLastAt := evAt row\<rparr> in
            (case io AtInsert of
               Some err \<Rightarrow> (l', rows, Inl err)
             | None \<Rightarrow> (case insertEvent rows row of
                 Inl err \<Rightarrow> (l', rows, Inl err)
               | Inr rows' \<Rightarrow> (case io AtCommit of
                   Some err \<Rightarrow> (l', rows, Inl err)
                 | None \<Rightarrow> (l', rows', Inr row))))))"

section \<open>Verifying\<close>

record VerifyResult =
  vrTotal :: nat
  vrTamper :: bool
  vrFirstBadIndex :: nat

definition badAt :: "nat \<Rightarrow> nat \<Rightarrow> VerifyResult" where
  "badAt tot i = \<lparr>vrTotal = tot, vrTamper = True, vrFirstBadIndex = i\<rparr>"

fun walkFrom :: "(string \<Rightarrow> string) \<Rightarrow> nat \<Rightarrow> nat \<Rightarrow> string \<Rightarrow> Event list \<Rightarrow> VerifyResult" where
  "walkFrom H tot i prev [] = \<lparr>vrTotal = tot, vrTamper = False, vrFirstBadIndex = 0\<rparr>"
| "walkFrom H tot i prev (r # rs) =
     (let e = fromRow r in
      if i \<noteq> 0 \<and> evPrevHash e \<noteq> prev then badAt tot i
      else let prev = (if i = 0 then evPrevHash e else prev) in
        (case canonicalPayloadForVersion e prev (evCanonicalVersion e) of
           Inl err \<Rightarrow> badAt tot i
         | Inr payload \<Rightarrow>
             if evHash e \<noteq> hashChainLink H prev payload then badAt tot i
             else walkFrom H tot (i + 1) (evHash e) rs))"

definition walkChain :: "(string \<Rightarrow> string) \<Rightarrow> Event list \<Rightarrow> VerifyResult" where
  "walkChain H rows = walkFrom H (length rows) 0 '''' rows"

definition Verify :: "(string \<Rightarrow> string) \<Rightarrow> Table \<Rightarrow> VerifyResult" where
  "Verify H rows = walkChain H (listEventsForVerify rows)"

datatype mismatch_reason = HashDiffers | PrevDiffers | VersionUnknown int

record ChainMismatch =
  mmIndex :: nat
  mmRowID :: string
  mmRowAt :: go_time
  mmCanonicalVersion :: int
  mmStoredHash :: string
  mmRecomputed :: "string option"
  mmPrev :: string
  mmStoredPrev :: string
  mmReason :: mismatch_reason

definition newChainMismatchError :: "nat \<Rightarrow> Event \<Rightarrow> string \<Rightarrow> string option \<Rightarrow> mismatch_reason \<Rightarrow> ChainMismatch" where
  "newChainMismatchError i e prev recomputed reason =
     \<lparr>mmIndex = i, mmRowID = evID e, mmRowAt = evAt e, mmCanonicalVersion = evCanonicalVersion e,
      mmStoredHash = evHash e, mmRecomputed = recomputed, mmPrev = prev, mmStoredPrev = evPrevHash e, mmReason = reason\<rparr>"

datatype boot_err = Mismatch ChainMismatch | Cancelled string

definition IsChainMismatch :: "boot_err option \<Rightarrow> bool" where
  "IsChainMismatch err = (case err of Some (Mismatch _) \<Rightarrow> True | _ \<Rightarrow> False)"

text \<open>\<^verbatim>\<open>ctxErr i\<close> is the context's error when row \<^verbatim>\<open>i\<close> is reached.\<close>

fun bootWalk :: "(string \<Rightarrow> string) \<Rightarrow> (nat \<Rightarrow> string option) \<Rightarrow> nat \<Rightarrow> string \<Rightarrow> Event list \<Rightarrow> nat \<times> boot_err option" where
  "bootWalk H ctxErr i prev [] = (i, None)"
| "bootWalk H ctxErr i prev (r # rs) =
     (case ctxErr i of
        Some msg \<Rightarrow> (0, Some (Cancelled msg))
      | None \<Rightarrow>
          let e = fromRow r in
          if i \<noteq> 0 \<and> evPrevHash e \<noteq> prev
          then (i, Some (Mismatch (newChainMismatchError i e prev None PrevDiffers)))
          else let prev = (if i = 0 then evPrevHash e else prev) in
            (case canonicalPayloadForVersion e prev (evCanonicalVersion e) of
               Inl err \<Rightarrow> (i, Some (Mismatch (newChainMismatchError i e prev None (VersionUnknown (evCanonicalVersion e)))))
             | Inr payload \<Rightarrow>
                 let recomputed = hashChainLink H prev payload in
                 if recomputed \<noteq> evHash e
                 then (i, Some (Mismatch (newChainMismatchError i e prev (Some recomputed) HashDiffers)))
                 else bootWalk H ctxErr (i + 1) recomputed rs))"

text \<open>A logger that is nil, the no-op one or another implementation has no chain to walk.\<close>

definition VerifyChainPostMigration :: "(string \<Rightarrow> string) \<Rightarrow> string option \<Rightarrow> (nat \<Rightarrow> string option) \<Rightarrow> Table option
    \<Rightarrow> nat \<times> boot_err option" where
  "VerifyChainPostMigration H cancelled ctxErr sqlite =
     (case sqlite of
        None \<Rightarrow> (0, None)
      | Some rows \<Rightarrow> (case cancelled of
          Some msg \<Rightarrow> (0, Some (Cancelled msg))
        | None \<Rightarrow> bootWalk H ctxErr 0 '''' (listEventsForVerify rows)))"

section \<open>Listing\<close>

record Filter =
  fiSince :: go_time
  fiUntil :: go_time
  fiActorUserID :: string
  fiActorEmail :: string
  fiAction :: string
  fiResourceType :: string
  fiResourceID :: string
  fiRequestID :: string
  fiTenantID :: ID
  fiActorTenantID :: ID
  fiLimit :: int
  fiCursor :: string

record Page =
  pgEvents :: "Event list"
  pgNextCursor :: string

definition formatCursor :: "(go_time \<Rightarrow> string) \<Rightarrow> go_time \<Rightarrow> string \<Rightarrow> string" where
  "formatCursor fmt at i = fmt at @ ''|'' @ i"

definition parseCursor :: "(string \<Rightarrow> go_time option) \<Rightarrow> string \<Rightarrow> audit_err + go_time \<times> string" where
  "parseCursor parse s =
     (if CHR ''|'' \<notin> set s then Inl BadCursor
      else let i = rev (takeWhile (\<lambda>c. c \<noteq> CHR ''|'') (rev s)) in
        (case parse (take (length s - length i - 1) s) of
           None \<Rightarrow> Inl BadCursor
         | Some ts \<Rightarrow> Inr (ts, i)))"

definition addCond :: "bool \<Rightarrow> (Event \<Rightarrow> bool) \<Rightarrow> (Event \<Rightarrow> bool) list \<Rightarrow> (Event \<Rightarrow> bool) list" where
  "addCond given cond conds = (if given then conds @ [cond] else conds)"

definition filterFields :: "Filter \<Rightarrow> (Event \<Rightarrow> bool) list" where
  "filterFields f =
     (let w = [];
          w = addCond (fiSince f \<noteq> 0) (\<lambda>e. evAt e \<ge> fiSince f) w;
          w = addCond (fiUntil f \<noteq> 0) (\<lambda>e. evAt e < fiUntil f) w;
          w = addCond (fiActorUserID f \<noteq> '''') (\<lambda>e. acUserID (evActor e) = fiActorUserID f) w;
          w = addCond (fiActorEmail f \<noteq> '''') (\<lambda>e. acEmail (evActor e) = fiActorEmail f) w;
          w = addCond (fiAction f \<noteq> '''') (\<lambda>e. evAction e = fiAction f) w;
          w = addCond (fiResourceType f \<noteq> '''') (\<lambda>e. evResourceType e = fiResourceType f) w;
          w = addCond (fiResourceID f \<noteq> '''') (\<lambda>e. evResourceID e = fiResourceID f) w;
          w = addCond (fiRequestID f \<noteq> '''') (\<lambda>e. evRequestID e = fiRequestID f) w;
          w = addCond (Valid (fiTenantID f))
                (if IsSingle (fiTenantID f) then (\<lambda>e. evTenantID e = '''')
                 else (\<lambda>e. evTenantID e = IDString (fiTenantID f) \<and> evTenantID e \<noteq> '''')) w;
          w = addCond (Valid (fiActorTenantID f))
                (if IsSingle (fiActorTenantID f) then (\<lambda>e. acTenantID (evActor e) = '''')
                 else (\<lambda>e. acTenantID (evActor e) = IDString (fiActorTenantID f) \<and> acTenantID (evActor e) \<noteq> '''')) w
      in w)"

definition filterWhere :: "(string \<Rightarrow> go_time option) \<Rightarrow> Filter \<Rightarrow> audit_err + (Event \<Rightarrow> bool) list" where
  "filterWhere parse f =
     (if fiCursor f = '''' then Inr (filterFields f)
      else (case parseCursor parse (fiCursor f) of
          Inl err \<Rightarrow> Inl err
        | Inr (cursorAt, cursorID) \<Rightarrow>
            Inr (addCond True (\<lambda>e. evAt e < cursorAt \<or> evAt e = cursorAt \<and> evID e < cursorID) (filterFields f))))"

definition pageFromRows :: "(go_time \<Rightarrow> string) \<Rightarrow> Event list \<Rightarrow> nat \<Rightarrow> Page" where
  "pageFromRows fmt rows limit =
     \<lparr>pgEvents = map fromRow rows,
      pgNextCursor = (if length rows = limit \<and> rows \<noteq> [] then formatCursor fmt (evAt (last rows)) (evID (last rows)) else '''')\<rparr>"

definition listOrder :: "Event \<Rightarrow> go_time \<times> string" where
  "listOrder e = (evAt e, evID e)"

definition listEvents :: "(go_time \<Rightarrow> string) \<Rightarrow> (string \<Rightarrow> go_time option) \<Rightarrow> Table \<Rightarrow> Filter \<Rightarrow> (Event \<Rightarrow> bool) list
    \<Rightarrow> audit_err + Page" where
  "listEvents fmt parse rows f conds =
     (let limit = nat (if fiLimit f \<le> 0 then 50 else fiLimit f) in
      (case filterWhere parse f of
         Inl err \<Rightarrow> Inl err
       | Inr w \<Rightarrow> Inr (pageFromRows fmt
           (take limit (rev (sort_key listOrder (filter (\<lambda>e. list_all (\<lambda>c. c e) (conds @ w)) rows)))) limit)))"

definition ListAudit :: "(go_time \<Rightarrow> string) \<Rightarrow> (string \<Rightarrow> go_time option) \<Rightarrow> Table \<Rightarrow> Filter \<Rightarrow> audit_err + Page" where
  "ListAudit fmt parse rows f = listEvents fmt parse rows f []"

definition ListScoped :: "(go_time \<Rightarrow> string) \<Rightarrow> (string \<Rightarrow> go_time option) \<Rightarrow> Table \<Rightarrow> string list \<Rightarrow> Filter
    \<Rightarrow> audit_err + Page" where
  "ListScoped fmt parse rows clusterIDs f =
     listEvents fmt parse rows f
       [if clusterIDs \<noteq> [] then (\<lambda>e. evClusterID e = '''' \<or> evClusterID e \<in> set clusterIDs) else (\<lambda>e. evClusterID e = '''')]"

section \<open>Counting, pruning, deleting, redacting, exporting\<close>

definition CountByActionSince :: "Table \<Rightarrow> go_time \<Rightarrow> (string \<times> int) list" where
  "CountByActionSince rows since =
     (let recent = filter (\<lambda>e. evAt e > since) rows in
      sort_key (\<lambda>(act, n). (- n, act))
        (map (\<lambda>act. (act, int (length (filter (\<lambda>e. evAction e = act) recent)))) (remdups (map evAction recent))))"

definition PruneOlderThan :: "Table \<Rightarrow> go_time \<Rightarrow> nat \<times> Table" where
  "PruneOlderThan rows cutoff = (length (filter (\<lambda>e. evAt e < cutoff) rows), filter (\<lambda>e. \<not> evAt e < cutoff) rows)"

definition DeleteEventByID :: "Table \<Rightarrow> string \<Rightarrow> Table" where
  "DeleteEventByID rows i = filter (\<lambda>e. evID e \<noteq> i) rows"

definition redactEventPII :: "Event \<Rightarrow> Event" where
  "redactEventPII e =
     e\<lparr>evActor := (evActor e)\<lparr>acEmail := '''', acName := '''', acIP := ''''\<rparr>, evBefore := '''', evAfter := '''', evRowSalt := ''''\<rparr>"

definition RedactEvent :: "Table \<Rightarrow> string \<Rightarrow> bool \<times> Table" where
  "RedactEvent rows i =
     (case getEventByID rows i of
        None \<Rightarrow> (False, rows)
      | Some _ \<Rightarrow> (True, map (\<lambda>e. if evID e = i \<and> evCanonicalVersion e = CanonicalVersion4 then redactEventPII e else e) rows))"

record TenantExport =
  teTenantID :: string
  teEvents :: "Event list"
  teIsChain :: bool
  teCompleteness :: string

definition CompletenessIssuerAttested :: string where
  "CompletenessIssuerAttested = ''issuer-attested''"

fun exportLoop :: "string \<Rightarrow> Event list \<Rightarrow> audit_err + Event list" where
  "exportLoop t [] = Inr []"
| "exportLoop t (r # rs) =
     (if evTenantID (fromRow r) \<noteq> t then Inl ExportLeak
      else (case exportLoop t rs of Inl err \<Rightarrow> Inl err | Inr es \<Rightarrow> Inr (fromRow r # es)))"

definition ExportForTenant :: "Table \<Rightarrow> ID \<Rightarrow> audit_err + TenantExport" where
  "ExportForTenant rows tenantID =
     (if \<not> Valid tenantID then Inl ExportTenantRequired
      else (case exportLoop (IDString tenantID) (sort_key rowKey (filter (\<lambda>e. evTenantID e = IDString tenantID) rows)) of
          Inl err \<Rightarrow> Inl err
        | Inr es \<Rightarrow> Inr \<lparr>teTenantID = IDString tenantID, teEvents = es, teIsChain = False,
                      teCompleteness = CompletenessIssuerAttested\<rparr>))"

end
