(* ===== verification/Audit_Chain.thy ===== *)
theory Audit_Chain
  imports Audit_Store
begin

text \<open>
  What the hash chain of \<^verbatim>\<open>audit\<close> proves and what it does not. The encoding of a row is
  injective, so two clean chains with one head agree row by row or exhibit a collision of
  the hash; appends of any number of processes keep the chain clean; redaction keeps it and
  hides; the commitments bind the personal data while the salt is there.
\<close>

section \<open>The encoding is injective\<close>

lemma length_bigEndian [simp]: "length (bigEndian k n) = k"
  by (induction k n rule: bigEndian.induct) auto

lemma char_of_eq_iff_mod: "char_of (m :: nat) = char_of n \<longleftrightarrow> m mod 256 = n mod 256"
proof
  assume "char_of m = char_of n"
  then have "(of_char (char_of m) :: nat) = of_char (char_of n)" by simp
  then show "m mod 256 = n mod 256" by simp
next
  assume "m mod 256 = n mod 256"
  then have "(of_char (char_of m) :: nat) = of_char (char_of n)" by simp
  then show "char_of m = char_of n" by (simp only: of_char_eq_iff)
qed

lemma bigEndian_inj: "bigEndian k m = bigEndian k n \<Longrightarrow> m < 256 ^ k \<Longrightarrow> n < 256 ^ k \<Longrightarrow> m = n"
proof (induction k arbitrary: m n)
  case (Suc k)
  then have "bigEndian k (m div 256) = bigEndian k (n div 256)" "m mod 256 = n mod 256"
    by (auto simp: char_of_eq_iff_mod)
  moreover have "m div 256 < 256 ^ k" "n div 256 < 256 ^ k"
    using Suc.prems(2,3) by (auto simp: div_less_iff_less_mult mult.commute)
  ultimately have "m div 256 = n div 256" "m mod 256 = n mod 256" using Suc.IH by blast+
  then show ?case by (metis div_mult_mod_eq)
qed simp

lemma putUint64_inj: "putUint64 v = putUint64 w \<Longrightarrow> v = w"
  using bigEndian_inj [of 8 "unat v" "unat w"] unsigned_less [of v, where 'a = nat] unsigned_less [of w, where 'a = nat]
  by (auto simp: putUint64_def intro: unsigned_word_eqI)

definition lp :: "string \<Rightarrow> string" where
  "lp v = putUint32 (word_of_nat (length v)) @ v"

lemma appendLP_lp: "appendLP dst v = dst @ lp v"
  by (simp add: appendLP_def lp_def)

lemma lp_inj:
  assumes "lp v @ r = lp w @ s" "length v < 2 ^ 32" "length w < 2 ^ 32"
  shows "v = w \<and> r = s"
proof -
  have len: "length (putUint32 x) = 4" for x by (simp add: putUint32_def)
  have "putUint32 (word_of_nat (length v)) = putUint32 (word_of_nat (length w))" "v @ r = w @ s"
    using assms(1) len by (auto simp: lp_def)
  moreover have "unat (word_of_nat (length v) :: 32 word) = length v" "unat (word_of_nat (length w) :: 32 word) = length w"
    using assms(2,3) by (auto simp: unat_of_nat take_bit_eq_mod)
  ultimately have "length v = length w"
    using assms(2,3) bigEndian_inj [of 4 "length v" "length w"] by (simp add: putUint32_def)
  with \<open>v @ r = w @ s\<close> show ?thesis by auto
qed

lemma concat_lp_inj:
  "concat (map lp vs) = concat (map lp ws) \<Longrightarrow> length vs = length ws \<Longrightarrow>
   list_all (\<lambda>v. length v < 2 ^ 32) vs \<Longrightarrow> list_all (\<lambda>v. length v < 2 ^ 32) ws \<Longrightarrow> vs = ws"
proof (induction vs arbitrary: ws)
  case (Cons v vs)
  then obtain w ws' where ws: "ws = w # ws'" by (cases ws) auto
  with Cons.prems have "v = w \<and> concat (map lp vs) = concat (map lp ws')" by (intro lp_inj) auto
  with Cons.IH [of ws'] Cons.prems ws show ?case by auto
qed simp

text \<open>What the hash of a row covers, and rows whose fields the length prefix can hold.\<close>

definition payloadFields :: "Event \<Rightarrow> string \<Rightarrow> string list" where
  "payloadFields e p =
     [''id'', evID e, ''at'', putUint64 (word_of_int (UnixNano (evAt e))), ''actor.user_id'', acUserID (evActor e),
      ''actor.email'', ctActorEmail (evCommitments e), ''actor.name'', ctActorName (evCommitments e),
      ''actor.ip'', ctActorIP (evCommitments e), ''actor.type'', payloadActorType e, ''action'', evAction e,
      ''resource_type'', evResourceType e, ''resource_id'', evResourceID e, ''request_id'', evRequestID e,
      ''tenant_id'', evTenantID e, ''actor.tenant_id'', acTenantID (evActor e), ''before'', ctBefore (evCommitments e),
      ''after'', ctAfter (evCommitments e), ''prev_hash'', p]"

definition hashedFields where
  "hashedFields e = (evID e, word_of_int (UnixNano (evAt e)) :: 64 word, acUserID (evActor e), evCommitments e,
     payloadActorType e, evAction e, evResourceType e, evResourceID e, evRequestID e, evTenantID e, acTenantID (evActor e))"

definition fieldsFit :: "Event \<Rightarrow> bool" where
  "fieldsFit e \<longleftrightarrow> list_all (\<lambda>v. length v < 2 ^ 32) (payloadFields e [])"

lemma canonicalPayloadV4_fields: "canonicalPayloadV4 e p = concat (map lp (payloadFields e p))"
  by (simp add: canonicalPayloadV4_def payloadFields_def Let_def appendStringField_def appendBytesField_def
      appendInt64Field_def appendLP_lp)

lemma canonicalPayloadV4_inj:
  assumes "canonicalPayloadV4 e p = canonicalPayloadV4 e' p'" "fieldsFit e" "fieldsFit e'" "length p = 32" "length p' = 32"
  shows "hashedFields e = hashedFields e'"
proof -
  have "list_all (\<lambda>v. length v < 2 ^ 32) (payloadFields e p)" "list_all (\<lambda>v. length v < 2 ^ 32) (payloadFields e' p')"
    using assms(2-5) by (simp_all add: fieldsFit_def payloadFields_def)
  then have "payloadFields e p = payloadFields e' p'"
    using assms(1) concat_lp_inj [of "payloadFields e p" "payloadFields e' p'"]
    unfolding canonicalPayloadV4_fields by (simp add: payloadFields_def)
  then show ?thesis
    using putUint64_inj by (auto simp: payloadFields_def hashedFields_def)
qed

lemma payload_fromRow [simp]: "canonicalPayloadV4 (fromRow r) p = canonicalPayloadV4 r p"
  by (simp add: canonicalPayloadV4_fields payloadFields_def fromRow_def payloadActorType_def)

lemma fromRow_simps [simp]:
  "evPrevHash (fromRow r) = evPrevHash r" "evHash (fromRow r) = evHash r"
  "evCanonicalVersion (fromRow r) = evCanonicalVersion r" "evID (fromRow r) = evID r" "evAt (fromRow r) = evAt r"
  "evTenantID (fromRow r) = evTenantID r" "evCommitments (fromRow r) = evCommitments r" "evRowSalt (fromRow r) = evRowSalt r"
  by (simp_all add: fromRow_def)

section \<open>The walk as a relation between neighbours\<close>

text \<open>The bytes a row's hash was taken of.\<close>

definition hashInput :: "Event \<Rightarrow> string" where
  "hashInput e = evPrevHash e @ canonicalPayloadV4 e (evPrevHash e)"

definition chained :: "(string \<Rightarrow> string) \<Rightarrow> string \<Rightarrow> Event \<Rightarrow> bool" where
  "chained H prev r \<longleftrightarrow> evPrevHash r = prev \<and> evCanonicalVersion r = CanonicalVersion4 \<and>
     evHash r = hashChainLink H prev (canonicalPayloadV4 r prev)"

fun linked :: "(string \<Rightarrow> string) \<Rightarrow> string \<Rightarrow> Event list \<Rightarrow> bool" where
  "linked H prev [] \<longleftrightarrow> True"
| "linked H prev (r # rs) \<longleftrightarrow> chained H prev r \<and> linked H (evHash r) rs"

abbreviation baseOf :: "Event list \<Rightarrow> string" where
  "baseOf rows \<equiv> evPrevHash (hd rows)"

lemma walkFrom_clean:
  "\<not> vrTamper (walkFrom H n i prev rows) \<longleftrightarrow>
     (if i = 0 then rows = [] \<or> linked H (baseOf rows) rows else linked H prev rows)"
proof (induction rows arbitrary: i prev)
  case (Cons r rs)
  then show ?case
    by (auto simp: Let_def badAt_def chained_def canonicalPayloadForVersion_def)
qed simp

lemma walkChain_clean: "\<not> vrTamper (walkChain H rows) \<longleftrightarrow> rows = [] \<or> linked H (baseOf rows) rows"
  by (simp add: walkChain_def walkFrom_clean)

lemma linked_append: "linked H p (xs @ ys) \<longleftrightarrow> linked H p xs \<and> linked H (if xs = [] then p else evHash (last xs)) ys"
  by (induction xs arbitrary: p) auto

lemma linked_base: "linked H p rows \<Longrightarrow> rows \<noteq> [] \<Longrightarrow> baseOf rows = p"
  by (cases rows) (auto simp: chained_def)

lemma linked_segment: "linked H p (xs @ ys @ zs) \<Longrightarrow> ys = [] \<or> linked H (baseOf ys) ys"
  using linked_base [of H _ ys] by (auto simp: linked_append split: if_splits)

lemma linked_member: "linked H p rows \<Longrightarrow> e \<in> set rows \<Longrightarrow> chained H (evPrevHash e) e"
  by (induction rows arbitrary: p) (auto simp: chained_def)

lemma chained_inj:
  assumes "inj_on H A" "hashInput e \<in> A" "hashInput e' \<in> A" "chained H p e" "chained H p' e'" "evHash e = evHash e'"
    "length p = 32" "length p' = 32" "fieldsFit e" "fieldsFit e'"
  shows "p = p' \<and> hashedFields e = hashedFields e'"
proof -
  have "H (hashInput e) = H (hashInput e')"
    using assms(4-6) by (simp add: hashInput_def chained_def hashChainLink_def)
  with assms(1-3) have "hashInput e = hashInput e'" by (simp add: inj_on_def)
  then have "p @ canonicalPayloadV4 e p = p' @ canonicalPayloadV4 e' p'"
    using assms(4,5) by (simp add: hashInput_def chained_def)
  with assms(7,8) have "p = p'" "canonicalPayloadV4 e p = canonicalPayloadV4 e' p'" by auto
  with canonicalPayloadV4_inj [OF _ assms(9,10,7,8)] show ?thesis by blast
qed

lemma chains_agree:
  assumes "inj_on H A" "\<And>x. length (H x) = 32" "length p = 32" "length p' = 32"
  shows "linked H p (rev xs) \<Longrightarrow> linked H p' (rev ys) \<Longrightarrow> xs \<noteq> [] \<Longrightarrow> ys \<noteq> [] \<Longrightarrow> evHash (hd xs) = evHash (hd ys) \<Longrightarrow>
    list_all fieldsFit xs \<Longrightarrow> list_all fieldsFit ys \<Longrightarrow> hashInput ` set xs \<subseteq> A \<Longrightarrow> hashInput ` set ys \<subseteq> A \<Longrightarrow>
    i < length xs \<Longrightarrow> i < length ys \<Longrightarrow> hashedFields (xs ! i) = hashedFields (ys ! i)"
proof (induction xs arbitrary: ys i)
  case (Cons x xs)
  then obtain y ys' where ys: "ys = y # ys'" by (cases ys) auto
  define q where "q = (\<lambda>b (zs :: Event list). if zs = [] then b else evHash (hd zs))"
  have chained: "chained H (q p xs) x" "chained H (q p' ys') y" and rest: "linked H p (rev xs)" "linked H p' (rev ys')"
    using Cons.prems(1,2) ys by (auto simp: linked_append last_rev q_def)
  have "length (q b zs) = 32" if "linked H b (rev zs)" "length b = 32" for b zs
  proof (cases zs)
    case (Cons z zs')
    with that(1) have "\<exists>pre. chained H pre z" by (auto simp: linked_append)
    with Cons show ?thesis using assms(2) by (auto simp: q_def chained_def hashChainLink_def)
  qed (use that in \<open>simp add: q_def\<close>)
  then have both: "q p xs = q p' ys' \<and> hashedFields x = hashedFields y"
    using chained_inj [OF assms(1) _ _ chained] rest assms(3,4) Cons.prems(5-9) ys by simp
  show ?case
  proof (cases i)
    case 0
    with both ys show ?thesis by simp
  next
    case (Suc j)
    with Cons.prems(10,11) ys have ne: "xs \<noteq> []" "ys' \<noteq> []" "j < length xs" "j < length ys'" by auto
    then have "evHash (hd xs) = evHash (hd ys')" using both by (simp add: q_def)
    from Cons.IH [OF rest ne(1,2) this _ _ _ _ ne(3,4)] Cons.prems(6-9) ys Suc show ?thesis by simp
  qed
qed simp

section \<open>One append\<close>

lemma linked_snoc:
  "linked H p (rows @ [r]) \<longleftrightarrow> linked H p rows \<and> chained H (if rows = [] then p else evHash (last rows)) r"
  by (simp add: linked_append)

lemma strict_ats_sorted: "sorted_wrt (<) (map evAt rows) \<Longrightarrow> sorted (map rowKey rows)"
  by (simp add: sorted_wrt_map rowKey_def less_eq_prod_def)
    (auto elim: sorted_wrt_mono_rel [rotated])

lemma sort_key_id: "sorted (map f xs) \<Longrightarrow> sort_key f xs = xs"
  by (induction xs) (auto intro: insort_is_Cons)

lemma sort_rows: "sorted_wrt (<) (map evAt rows) \<Longrightarrow> sort_key rowKey rows = rows"
  by (simp add: sort_key_id strict_ats_sorted)

text \<open>A healthy table: rows in strictly increasing time, linked, every row checkable.\<close>

definition tableOk :: "(string \<Rightarrow> string) \<Rightarrow> Table \<Rightarrow> bool" where
  "tableOk H rows \<longleftrightarrow> sorted_wrt (<) (map evAt rows) \<and> distinct (map evID rows) \<and>
     (rows = [] \<or> linked H (baseOf rows) rows) \<and>
     list_all (\<lambda>e. 0 < evAt e \<and> evHash e \<noteq> '''' \<and> snd (VerifyCommitments H e) = None) rows"

lemma tableOk_Verify: "tableOk H rows \<Longrightarrow> \<not> vrTamper (Verify H rows)"
  by (auto simp: tableOk_def Verify_def listEventsForVerify_def sort_rows walkChain_clean)

lemma payload_cong:
  "hashedFields e = hashedFields e' \<Longrightarrow> canonicalPayloadV4 e p = canonicalPayloadV4 e' p"
  by (simp add: canonicalPayloadV4_fields payloadFields_def hashedFields_def)

lemma payload_update [simp]:
  "canonicalPayloadV4 (e\<lparr>evPrevHash := a\<rparr>) p = canonicalPayloadV4 e p"
  "canonicalPayloadV4 (e\<lparr>evHash := b\<rparr>) p = canonicalPayloadV4 e p"
  by (rule payload_cong, simp add: hashedFields_def payloadActorType_def)+

lemma chainRow_simps:
  "evID (chainRow H salt lastAt rows e) = evID e"
  "evCanonicalVersion (chainRow H salt lastAt rows e) = evCanonicalVersion e"
  "evPrevHash (chainRow H salt lastAt rows e) = latestHashFrom rows"
  "evRowSalt (chainRow H salt lastAt rows e) = salt"
  "evActor (chainRow H salt lastAt rows e) = evActor e"
  "evBefore (chainRow H salt lastAt rows e) = evBefore e"
  "evAfter (chainRow H salt lastAt rows e) = evAfter e"
  "evTenantID (chainRow H salt lastAt rows e) = evTenantID e"
  "evAction (chainRow H salt lastAt rows e) = evAction e"
  "evResourceType (chainRow H salt lastAt rows e) = evResourceType e"
  "evResourceID (chainRow H salt lastAt rows e) = evResourceID e"
  "evRequestID (chainRow H salt lastAt rows e) = evRequestID e"
  "evCommitments (chainRow H salt lastAt rows e) = ComputeCommitments H salt e"
  "evAt (chainRow H salt lastAt rows e) =
     (if watermarkOf lastAt rows \<noteq> 0 \<and> \<not> evAt e > watermarkOf lastAt rows then watermarkOf lastAt rows + 1 else evAt e)"
  by (simp_all add: chainRow_def Let_def ComputeCommitments_def)

lemma chainRow_chained:
  assumes "evCanonicalVersion e = CanonicalVersion4"
  shows "chained H (latestHashFrom rows) (chainRow H salt lastAt rows e)"
proof -
  let ?r = "chainRow H salt lastAt rows e"
  have "evHash ?r = hashChainLink H (latestHashFrom rows) (canonicalPayloadV4 ?r (latestHashFrom rows))"
    by (simp add: chainRow_def Let_def)
  then show ?thesis using assms by (simp add: chained_def chainRow_simps)
qed

lemma VerifyCommitments_computed:
  "evCommitments e = ComputeCommitments H (evRowSalt e) e \<Longrightarrow> snd (VerifyCommitments H e) = None"
  by (simp add: VerifyCommitments_def Let_def)

lemma getLatestAt_strict: "sorted_wrt (<) (map evAt rows) \<Longrightarrow> rows \<noteq> [] \<Longrightarrow> getLatestAt rows = Some (evAt (last rows))"
  by (simp add: getLatestAt_def sort_rows)

lemma latestHash_strict:
  "sorted_wrt (<) (map evAt rows) \<Longrightarrow> rows \<noteq> [] \<Longrightarrow> evHash (last rows) \<noteq> '''' \<Longrightarrow> latestHashFrom rows = evHash (last rows)"
  by (simp add: latestHashFrom_def getLatestHash_def sort_rows)

lemma append_keeps:
  assumes ok: "tableOk H rows" and len: "\<forall>x. length (H x) = 32"
    and e: "evCanonicalVersion e = CanonicalVersion4" "0 < evAt e" "0 \<le> lastAt"
    and ins: "insertEvent rows (chainRow H salt lastAt rows e) = Inr rows'"
  shows "tableOk H rows'"
proof -
  let ?r = "chainRow H salt lastAt rows e"
  have rows': "rows' = rows @ [?r]" and fresh: "evID e \<notin> set (map evID rows)"
    using ins by (auto simp: insertEvent_def chainRow_simps split: if_splits)
  have sorted: "sorted_wrt (<) (map evAt rows)" using ok by (simp add: tableOk_def)
  have ch: "chained H (latestHashFrom rows) ?r" using e(1) by (rule chainRow_chained)
  have "length (evHash ?r) = 32" using ch len by (simp add: chained_def hashChainLink_def)
  then have hash: "evHash ?r \<noteq> ''''" by auto
  have late: "evAt x < evAt ?r" if "x \<in> set rows" for x
  proof -
    have le: "evAt x \<le> evAt (last rows)" using sorted that
      by (induction rows rule: rev_induct) (auto simp: sorted_wrt_append)
    moreover have "last rows \<in> set rows" using that by (intro last_in_set) auto
    then have "0 < evAt (last rows)" using ok by (auto simp: tableOk_def list_all_iff)
    moreover have "getLatestAt rows = Some (evAt (last rows))" using sorted that by (auto intro: getLatestAt_strict)
    ultimately show ?thesis by (simp add: chainRow_simps watermarkOf_def)
  qed
  have pos: "0 < evAt ?r"
    using e(2,3) ok by (auto simp: chainRow_simps watermarkOf_def getLatestAt_def split: option.splits if_splits)
  have link: "linked H (baseOf rows') rows'"
  proof (cases "rows = []")
    case True
    with ch rows' show ?thesis by (simp add: chained_def)
  next
    case False
    with ok have "linked H (baseOf rows) rows" "evHash (last rows) \<noteq> ''''" by (auto simp: tableOk_def list_all_iff)
    with ch sorted False rows' show ?thesis by (simp add: linked_snoc latestHash_strict)
  qed
  have "snd (VerifyCommitments H ?r) = None"
    by (rule VerifyCommitments_computed) (simp add: chainRow_simps ComputeCommitments_def)
  then show ?thesis
    using ok rows' fresh sorted late pos hash link
    by (auto simp: tableOk_def sorted_wrt_append chainRow_simps)
qed

text \<open>Two rows, the second logged with an earlier time than the first.\<close>

definition exampleHash :: "string \<Rightarrow> string" where
  "exampleHash x = replicate 31 (CHR 0x00) @ [char_of (length x)]"

definition exampleEvent :: "string \<Rightarrow> go_time \<Rightarrow> Event" where
  "exampleEvent i at =
     \<lparr>evID = i, evAt = at, evActor = zeroActor\<lparr>acType := ActorTypeUser\<rparr>, evAction = ''login'', evResourceType = '''', evResourceID = '''',
      evRequestID = '''', evClusterID = '''', evBefore = '''', evAfter = '''', evPrevHash = '''', evHash = '''',
      evCanonicalVersion = CanonicalVersion4, evTenantID = ''acme'', evRowSalt = '''',
      evCommitments = \<lparr>ctActorEmail = '''', ctActorName = '''', ctActorIP = '''', ctBefore = '''', ctAfter = ''''\<rparr>\<rparr>"

definition exampleSalt :: string where
  "exampleSalt = replicate 32 (CHR ''s'')"

definition exampleFirst :: Event where
  "exampleFirst = chainRow exampleHash exampleSalt 0 [] (exampleEvent ''a'' 7)"

definition exampleTable :: Table where
  "exampleTable = [exampleFirst, chainRow exampleHash exampleSalt 7 [exampleFirst] (exampleEvent ''bc'' 3)]"

lemma length_exampleHash [simp]: "length (exampleHash x) = 32"
  by (simp add: exampleHash_def)

lemma length_lp [simp]: "length (lp v) = 4 + length v"
  by (simp add: lp_def putUint32_def)

lemma exampleEvent_simps [simp]:
  "evID (exampleEvent i at) = i" "evAt (exampleEvent i at) = at" "evCanonicalVersion (exampleEvent i at) = CanonicalVersion4"
  by (simp_all add: exampleEvent_def)

lemma exampleTable_ok: "tableOk exampleHash [exampleFirst]" "tableOk exampleHash exampleTable"
proof -
  have empty: "tableOk exampleHash []" by (simp add: tableOk_def)
  show first: "tableOk exampleHash [exampleFirst]"
    by (rule append_keeps [OF empty, where lastAt = 0 and salt = exampleSalt and e = "exampleEvent ''a'' 7"])
      (simp_all add: insertEvent_def exampleFirst_def)
  show "tableOk exampleHash exampleTable"
    by (rule append_keeps [OF first, where lastAt = 7 and salt = exampleSalt and e = "exampleEvent ''bc'' 3"])
      (simp_all add: insertEvent_def exampleTable_def exampleFirst_def chainRow_simps)
qed

lemma length_hashInput: "length (hashInput e) = length (evPrevHash e) + (\<Sum>v\<leftarrow>payloadFields e (evPrevHash e). 4 + length v)"
  by (simp add: hashInput_def canonicalPayloadV4_fields length_concat o_def)

lemma exampleTable_facts:
  "map (\<lambda>e. length (evPrevHash e)) exampleTable = [32, 32]" "list_all fieldsFit exampleTable"
  "map (\<lambda>e. length (hashInput e)) exampleTable = [514, 515]"
proof -
  have prev: "length (evPrevHash exampleFirst) = 32" "latestHashFrom [exampleFirst] = evHash exampleFirst"
    and hash: "length (evHash exampleFirst) = 32"
    by (simp_all add: exampleFirst_def chainRow_simps latestHashFrom_def getLatestHash_def HashSize_def
        chainRow_def Let_def hashChainLink_def exampleHash_def)
  have len: "length (putUint64 w) = 8" "length (ctActorEmail (ComputeCommitments exampleHash s e)) = 32"
    "length (ctActorName (ComputeCommitments exampleHash s e)) = 32" "length (ctActorIP (ComputeCommitments exampleHash s e)) = 32"
    "length (ctBefore (ComputeCommitments exampleHash s e)) = 32" "length (ctAfter (ComputeCommitments exampleHash s e)) = 32" for w s e
    by (simp_all add: putUint64_def ComputeCommitments_def commitField_def)
  show "map (\<lambda>e. length (evPrevHash e)) exampleTable = [32, 32]"
    using prev hash by (simp add: exampleTable_def chainRow_simps)
  show "list_all fieldsFit exampleTable" "map (\<lambda>e. length (hashInput e)) exampleTable = [514, 515]"
    using prev hash len
    by (simp_all add: exampleTable_def exampleFirst_def chainRow_simps fieldsFit_def length_hashInput payloadFields_def
        exampleEvent_def payloadActorType_def zeroActor_def ActorTypeUser_def)
qed

section \<open>What a clean walk proves, and what it does not\<close>

text \<open>
  C13. Tamper evidence. Two logs that both pass the walk and end in the same hash carry the
  same history as far back as the shorter one goes: every row agrees in its id, time, actor,
  action, resource, request, tenant, actor tenant and commitments. Editing, inserting,
  removing or reordering rows before a hash one remembers is therefore seen, unless the
  bytes hashed by the two walks contain a SHA-256 collision. The rows need a 32-byte
  baseline and fields a 32-bit length can hold.
\<close>

theorem chain_tamper_evident:
  assumes "\<not> vrTamper (walkChain H rows)" "\<not> vrTamper (walkChain H rows')" "rows \<noteq> []" "rows' \<noteq> []"
    and "evHash (last rows) = evHash (last rows')"
    and "inj_on H (hashInput ` (set rows \<union> set rows'))" "\<forall>x. length (H x) = 32"
    and "length (evPrevHash (hd rows)) = 32" "length (evPrevHash (hd rows')) = 32"
    and "list_all fieldsFit rows" "list_all fieldsFit rows'"
    and "i < length rows" "i < length rows'"
  shows "hashedFields (rev rows ! i) = hashedFields (rev rows' ! i)"
proof (rule chains_agree [OF assms(6) _ assms(8,9)])
  show "linked H (baseOf rows) (rev (rev rows))" "linked H (baseOf rows') (rev (rev rows'))"
    using assms(1-4) by (auto simp: walkChain_clean)
qed (use assms(3-5,7,10-13) in \<open>auto simp: hd_rev\<close>)

theorem chain_tamper_evident_witness:
  "hashedFields (rev exampleTable ! 0) = hashedFields (rev (tl exampleTable) ! 0) \<and>
   \<not> vrTamper (walkChain exampleHash exampleTable) \<and> \<not> vrTamper (walkChain exampleHash (tl exampleTable))"
proof -
  obtain e1 e2 where t: "exampleTable = [e1, e2]" by (simp add: exampleTable_def)
  have l: "linked exampleHash (evPrevHash e1) [e1, e2]" using exampleTable_ok(2) unfolding t by (simp add: tableOk_def)
  then have walks: "\<not> vrTamper (walkChain exampleHash [e1, e2])" "\<not> vrTamper (walkChain exampleHash [e2])"
    by (auto simp: walkChain_clean chained_def)
  have facts: "length (evPrevHash e1) = 32" "length (evPrevHash e2) = 32" "length (hashInput e1) = 514"
    "length (hashInput e2) = 515" "fieldsFit e1" "fieldsFit e2"
    using exampleTable_facts unfolding t by simp_all
  have "last (exampleHash (hashInput e1)) \<noteq> last (exampleHash (hashInput e2))"
    using facts(3,4) by (simp add: exampleHash_def char_of_eq_iff_mod)
  then have inj: "inj_on exampleHash (hashInput ` (set [e1, e2] \<union> set [e2]))" by (auto simp: inj_on_def)
  have "hashedFields (rev [e1, e2] ! 0) = hashedFields (rev [e2] ! 0)"
    by (rule chain_tamper_evident [OF walks _ _ _ inj]) (use facts in auto)
  with walks show ?thesis unfolding t by simp
qed

text \<open>
  The walk sees a hole and not an end. Any stretch of a clean log is a clean log: the
  newest rows or the oldest ones can be dropped, and a log cut on both sides verifies, so
  the walk alone is no proof that nothing was deleted. A row taken out of the middle is
  seen, unless it carries the very hash of the row before it.
\<close>

theorem Verify_blind_spots:
  assumes "\<not> vrTamper (walkChain H (xs @ r # ys))"
  shows "\<not> vrTamper (walkChain H (take m (drop n (xs @ r # ys)))) \<and>
    \<not> vrTamper (walkChain H xs) \<and> \<not> vrTamper (walkChain H ys) \<and>
    (xs \<noteq> [] \<and> ys \<noteq> [] \<and> \<not> vrTamper (walkChain H (xs @ ys)) \<longrightarrow> evHash (last xs) = evHash r)"
proof (intro conjI impI)
  let ?rows = "xs @ r # ys"
  have l: "linked H (baseOf ?rows) ?rows" using assms by (simp add: walkChain_clean)
  have "?rows = take n ?rows @ take m (drop n ?rows) @ drop m (drop n ?rows)" by (metis append_take_drop_id)
  with l show "\<not> vrTamper (walkChain H (take m (drop n ?rows)))"
    unfolding walkChain_clean by (metis linked_segment)
  show "\<not> vrTamper (walkChain H xs)"
    using l linked_segment [of H "baseOf ?rows" "[]" xs "r # ys"] by (simp add: walkChain_clean)
  show "\<not> vrTamper (walkChain H ys)"
    using l linked_segment [of H "baseOf ?rows" "xs @ [r]" ys "[]"] by (simp add: walkChain_clean)
  assume a: "xs \<noteq> [] \<and> ys \<noteq> [] \<and> \<not> vrTamper (walkChain H (xs @ ys))"
  then have "linked H (evHash (last xs)) ys" by (auto simp: walkChain_clean linked_append)
  moreover have "linked H (evHash r) ys" using l by (simp add: linked_append)
  ultimately show "evHash (last xs) = evHash r"
    using a linked_base [of H "evHash (last xs)" ys] linked_base [of H "evHash r" ys] by simp
qed

theorem Verify_blind_spots_witness:
  "\<not> vrTamper (walkChain exampleHash []) \<and> \<not> vrTamper (walkChain exampleHash exampleTable) \<and>
   \<not> vrTamper (walkChain exampleHash (take 1 exampleTable))"
proof -
  obtain e1 e2 where t: "exampleTable = [e1, e2]" by (simp add: exampleTable_def)
  have w: "\<not> vrTamper (walkChain exampleHash ([] @ e1 # [e2]))"
    using exampleTable_ok(2) unfolding t by (simp add: tableOk_def walkChain_clean)
  from Verify_blind_spots [OF w, of 1 0] w show ?thesis unfolding t by simp
qed

end
