(* ===== verification/Audit_Log.thy ===== *)
theory Audit_Log
  imports Audit_Chain
begin

text \<open>
  The audit log over time and over its readers: any interleaving of appends, prunes and
  redactions keeps it verifiable; redaction hides; the commitments bind; the boot check and
  \<^verbatim>\<open>ComputeHash\<close> agree with the logger; pages and exports are exact.
\<close>

section \<open>Appends of many processes\<close>

text \<open>
  An append is a transaction: \<^verbatim>\<open>BEGIN IMMEDIATE\<close> takes the database's write lock, the reads
  compute the row, the insert and \<^verbatim>\<open>COMMIT\<close> publish it, and a failure anywhere rolls back.
  Each process has its own watermark. Events carry a time after year 1.
\<close>

record appendState =
  asTable :: Table
  asLock :: "nat option"
  asPending :: "Event option"
  asLastAt :: "nat \<Rightarrow> go_time"

inductive appendStep :: "(string \<Rightarrow> string) \<Rightarrow> appendState \<Rightarrow> appendState \<Rightarrow> bool" for H where
  open_logger: "NewSQLiteLogger path (Inr (asTable s)) lookup = Inr l \<Longrightarrow>
    appendStep H s (s\<lparr>asLastAt := (asLastAt s)(p := lgLastAt l)\<rparr>)"
| begin_immediate: "asLock s = None \<Longrightarrow> appendStep H s (s\<lparr>asLock := Some p, asPending := None\<rparr>)"
| read_and_chain: "asLock s = Some p \<Longrightarrow> asPending s = None \<Longrightarrow> enrichEvent l e0 = Inr e \<Longrightarrow> 0 < evAt e0 \<Longrightarrow>
    row = chainRow H salt (asLastAt s p) (asTable s) e \<Longrightarrow>
    appendStep H s (s\<lparr>asPending := Some row, asLastAt := (asLastAt s)(p := evAt row)\<rparr>)"
| commit_insert: "asLock s = Some p \<Longrightarrow> asPending s = Some row \<Longrightarrow> insertEvent (asTable s) row = Inr rows' \<Longrightarrow>
    appendStep H s (s\<lparr>asTable := rows', asLock := None, asPending := None\<rparr>)"
| roll_back: "asLock s = Some p \<Longrightarrow> appendStep H s (s\<lparr>asLock := None, asPending := None\<rparr>)"
| prune: "asLock s = None \<Longrightarrow> appendStep H s (s\<lparr>asTable := snd (PruneOlderThan (asTable s) cutoff)\<rparr>)"
| redact: "asLock s = None \<Longrightarrow> appendStep H s (s\<lparr>asTable := snd (RedactEvent (asTable s) i)\<rparr>)"

definition emptyLog :: appendState where
  "emptyLog = \<lparr>asTable = [], asLock = None, asPending = None, asLastAt = (\<lambda>_. 0)\<rparr>"

definition appendReach :: "(string \<Rightarrow> string) \<Rightarrow> appendState \<Rightarrow> bool" where
  "appendReach H s \<longleftrightarrow> (appendStep H)\<^sup>*\<^sup>* emptyLog s"

definition appendInv :: "(string \<Rightarrow> string) \<Rightarrow> appendState \<Rightarrow> bool" where
  "appendInv H s \<longleftrightarrow> tableOk H (asTable s) \<and> (\<forall>p. 0 \<le> asLastAt s p) \<and>
     (\<forall>row. asLock s \<noteq> None \<and> asPending s = Some row \<longrightarrow>
        (\<exists>salt lastAt e. row = chainRow H salt lastAt (asTable s) e \<and> 0 \<le> lastAt \<and> 0 < evAt e \<and>
           evCanonicalVersion e = CanonicalVersion4))"

lemma enrichEvent_Inr:
  "enrichEvent l e0 = Inr e \<Longrightarrow> evCanonicalVersion e = CanonicalVersion4 \<and> evAt e = evAt e0 \<and> evID e = evID e0 \<and> evTenantID e = evTenantID e0"
  by (auto simp: enrichEvent_def Let_def split: option.splits if_splits)

lemma chainRow_pos: "0 < evAt e \<Longrightarrow> 0 \<le> lastAt \<Longrightarrow> tableOk H rows \<Longrightarrow> 0 < evAt (chainRow H salt lastAt rows e)"
  by (auto simp: chainRow_simps watermarkOf_def split: option.splits if_splits)

lemma tableOk_latest: "tableOk H rows \<Longrightarrow> getLatestAt rows = Some at \<Longrightarrow> 0 < at"
  by (auto simp: getLatestAt_def tableOk_def list_all_iff sort_rows split: if_splits)

lemma filter_strict: "sorted_wrt (<) (map evAt rows) \<Longrightarrow> filter (\<lambda>e. \<not> evAt e < c) rows = dropWhile (\<lambda>e. evAt e < c) rows"
proof (induction rows)
  case (Cons a rows)
  then show ?case by (cases rows) auto
qed simp

lemma tableOk_prune: "tableOk H rows \<Longrightarrow> tableOk H (snd (PruneOlderThan rows cutoff))"
proof -
  assume ok: "tableOk H rows"
  let ?keep = "dropWhile (\<lambda>e. evAt e < cutoff) rows"
  have eq: "snd (PruneOlderThan rows cutoff) = ?keep"
    using ok by (simp add: PruneOlderThan_def tableOk_def filter_strict)
  have split: "rows = takeWhile (\<lambda>e. evAt e < cutoff) rows @ ?keep @ []" by simp
  have "?keep = [] \<or> linked H (baseOf ?keep) ?keep"
    using ok split linked_segment [of H "baseOf rows" "takeWhile (\<lambda>e. evAt e < cutoff) rows" ?keep "[]"]
    by (auto simp: tableOk_def)
  moreover have "sorted_wrt (<) (map evAt ?keep)"
    using ok by (simp add: tableOk_def sorted_wrt_map sorted_wrt_dropWhile)
  moreover have "distinct (map evID (takeWhile (\<lambda>e. evAt e < cutoff) rows @ ?keep))"
    using ok by (simp add: tableOk_def)
  then have "distinct (map evID ?keep)" by (simp only: map_append distinct_append)
  moreover have "set ?keep \<subseteq> set rows" using set_dropWhileD by fastforce
  ultimately show ?thesis using ok unfolding eq tableOk_def by (auto simp: list_all_iff)
qed

text \<open>Erasing the personal data of a row changes nothing the walk reads.\<close>

lemma redactEventPII_simps [simp]:
  "evPrevHash (redactEventPII e) = evPrevHash e" "evHash (redactEventPII e) = evHash e" "evAt (redactEventPII e) = evAt e"
  "evCanonicalVersion (redactEventPII e) = evCanonicalVersion e" "evID (redactEventPII e) = evID e"
  "evRowSalt (redactEventPII e) = ''''" "evCommitments (redactEventPII e) = evCommitments e"
  "evTenantID (redactEventPII e) = evTenantID e"
  "canonicalPayloadV4 (redactEventPII e) p = canonicalPayloadV4 e p"
  by (simp_all add: redactEventPII_def canonicalPayloadV4_fields payloadFields_def payloadActorType_def)

definition redactRow :: "string \<Rightarrow> Event \<Rightarrow> Event" where
  "redactRow i e = (if evID e = i \<and> evCanonicalVersion e = CanonicalVersion4 then redactEventPII e else e)"

lemma redactRow_simps [simp]:
  "evPrevHash (redactRow i e) = evPrevHash e" "evHash (redactRow i e) = evHash e" "evAt (redactRow i e) = evAt e"
  "evCanonicalVersion (redactRow i e) = evCanonicalVersion e" "evID (redactRow i e) = evID e"
  "canonicalPayloadV4 (redactRow i e) p = canonicalPayloadV4 e p" "chained H p (redactRow i e) = chained H p e"
  by (simp_all add: redactRow_def chained_def)

lemma RedactEvent_rows:
  "snd (RedactEvent rows i) = map (redactRow i) rows"
proof (cases "getEventByID rows i")
  case None
  then have "e \<in> set rows \<Longrightarrow> evID e \<noteq> i" for e by (auto simp: getEventByID_def find_None_iff)
  then have "map (redactRow i) rows = rows" by (auto simp: redactRow_def intro: map_idI)
  with None show ?thesis by (simp add: RedactEvent_def)
qed (simp add: RedactEvent_def redactRow_def [abs_def])

lemma linked_redact [simp]: "linked H p (map (redactRow i) rows) = linked H p rows"
  by (induction rows arbitrary: p) auto

lemma VerifyCommitments_redacted [simp]: "VerifyCommitments H (redactEventPII e) = (False, None)"
  by (simp add: VerifyCommitments_def IsRedacted_def)

lemma VerifyCommitments_redact: "snd (VerifyCommitments H e) = None \<Longrightarrow> snd (VerifyCommitments H (redactRow i e)) = None"
  by (simp add: redactRow_def)

lemma tableOk_redact: "tableOk H rows \<Longrightarrow> tableOk H (snd (RedactEvent rows i))"
  by (cases rows) (auto simp: RedactEvent_rows tableOk_def o_def list_all_iff VerifyCommitments_redact)

lemma appendInv_step: "\<forall>x. length (H x) = 32 \<Longrightarrow> appendInv H s \<Longrightarrow> appendStep H s s' \<Longrightarrow> appendInv H s'"
proof -
  assume len: "\<forall>x. length (H x) = 32" and inv: "appendInv H s" and step: "appendStep H s s'"
  have ok: "tableOk H (asTable s)" and at: "\<And>p. 0 \<le> asLastAt s p" using inv by (auto simp: appendInv_def)
  from step show ?thesis
  proof cases
    case (open_logger path lookup l p)
    then have "0 \<le> lgLastAt l"
      using tableOk_latest [OF ok] by (auto simp: NewSQLiteLogger_def less_imp_le split: if_splits option.splits)
    with inv open_logger show ?thesis by (simp add: appendInv_def)
  next
    case (read_and_chain p l e0 e row salt)
    note e = enrichEvent_Inr [OF read_and_chain(4)]
    with read_and_chain have "0 < evAt row" using chainRow_pos [OF _ at ok] by simp
    moreover have "\<exists>salt lastAt e. row = chainRow H salt lastAt (asTable s) e \<and> 0 \<le> lastAt \<and> 0 < evAt e \<and>
        evCanonicalVersion e = CanonicalVersion4"
      using read_and_chain e at by metis
    ultimately show ?thesis using ok at read_and_chain by (simp add: appendInv_def)
  next
    case (commit_insert p row rows')
    then obtain salt lastAt e where "row = chainRow H salt lastAt (asTable s) e" "0 \<le> lastAt" "0 < evAt e"
      "evCanonicalVersion e = CanonicalVersion4"
      using inv by (auto simp: appendInv_def)
    with commit_insert append_keeps [OF ok len] have "tableOk H rows'" by blast
    with at commit_insert show ?thesis by (simp add: appendInv_def)
  next
    case (prune cutoff)
    with ok at show ?thesis by (simp add: appendInv_def tableOk_prune)
  next
    case (redact i)
    with ok at show ?thesis by (simp add: appendInv_def tableOk_redact)
  qed (use ok at in \<open>simp_all add: appendInv_def\<close>)
qed

lemma appendReach_inv:
  assumes "\<forall>x. length (H x) = 32" "appendReach H s"
  shows "appendInv H s"
proof -
  have "(appendStep H)\<^sup>*\<^sup>* emptyLog s" using assms(2) by (simp add: appendReach_def)
  then show ?thesis
  proof (induction rule: rtranclp_induct)
    case base
    show ?case by (simp add: appendInv_def emptyLog_def tableOk_def)
  next
    case (step y z)
    then show ?case using appendInv_step [OF assms(1)] by blast
  qed
qed

text \<open>
  C14. No false alarms. Whatever appends of any number of processes, failed ones included,
  interleave with openings, prunes and redactions, the log passes the walk, its times
  strictly increase in the order the rows were chained, its ids are distinct, and no row
  fails the commitment check; so what either check reports is tampering. The write lock
  taken up front is what this rests on: between the read of the latest hash and the insert
  no other process commits.
\<close>

theorem appends_keep_the_chain:
  assumes "\<forall>x. length (H x) = 32" "appendReach H s"
  shows "\<not> vrTamper (Verify H (asTable s)) \<and> sorted_wrt (<) (map evAt (asTable s)) \<and> distinct (map evID (asTable s)) \<and>
    (\<forall>e \<in> set (asTable s). snd (VerifyCommitments H e) = None \<and> evCanonicalVersion e = CanonicalVersion4)"
proof -
  have ok: "tableOk H (asTable s)" using appendReach_inv [OF assms] by (simp add: appendInv_def)
  then have "e \<in> set (asTable s) \<Longrightarrow> evCanonicalVersion e = CanonicalVersion4" for e
    using linked_member [of H _ "asTable s" e] by (auto simp: tableOk_def chained_def)
  with ok tableOk_Verify [OF ok] show ?thesis by (auto simp: tableOk_def list_all_iff)
qed

theorem appends_keep_the_chain_witness:
  "\<exists>s. appendReach exampleHash s \<and> length (asTable s) = 1 \<and> \<not> vrTamper (Verify exampleHash (asTable s))"
proof -
  let ?e = "exampleEvent ''a'' 7" and ?l = "\<lparr>lgLastAt = 0, lgEmailLookup = None\<rparr>"
  have e: "enrichEvent ?l ?e = Inr ?e"
    by (simp add: enrichEvent_def validateRequiredFields_def exampleEvent_def ActorTypeUser_def zeroActor_def Let_def)
  let ?s1 = "emptyLog\<lparr>asLock := Some 1, asPending := None\<rparr>"
  let ?row = "chainRow exampleHash exampleSalt (asLastAt ?s1 1) (asTable ?s1) ?e"
  let ?s2 = "?s1\<lparr>asPending := Some ?row, asLastAt := (asLastAt ?s1)(1 := evAt ?row)\<rparr>"
  let ?s3 = "?s2\<lparr>asTable := [?row], asLock := None, asPending := None\<rparr>"
  have st1: "appendStep exampleHash emptyLog ?s1" by (rule begin_immediate) (simp add: emptyLog_def)
  have st2: "appendStep exampleHash ?s1 ?s2"
    by (rule read_and_chain [OF _ _ e]) simp_all
  have st3: "appendStep exampleHash ?s2 ?s3"
    by (rule commit_insert [where p = 1 and row = ?row]) (simp_all add: insertEvent_def emptyLog_def)
  have reach: "appendReach exampleHash ?s3"
    unfolding appendReach_def
    by (rule converse_rtranclp_into_rtranclp [where r = "appendStep exampleHash", OF st1],
        rule converse_rtranclp_into_rtranclp [where r = "appendStep exampleHash", OF st2], rule r_into_rtranclp, rule st3)
  from appends_keep_the_chain [OF _ reach] have "\<not> vrTamper (Verify exampleHash (asTable ?s3))" by simp
  with reach show ?thesis by (intro exI [of _ ?s3]) simp
qed

section \<open>Redaction\<close>

lemma insort_key_map: "(\<And>x. f (g x) = f x) \<Longrightarrow> insort_key f (g x) (map g xs) = map g (insort_key f x xs)"
  by (induction xs) auto

lemma sort_key_map: "(\<And>x. f (g x) = f x) \<Longrightarrow> sort_key f (map g xs) = map g (sort_key f xs)"
  by (induction xs) (simp_all add: insort_key_map)

lemma walkFrom_redact: "walkFrom H n i p (map (redactRow k) rows) = walkFrom H n i p rows"
  by (induction rows arbitrary: i p) (simp_all add: Let_def canonicalPayloadForVersion_def)

lemma Verify_redact: "Verify H (map (redactRow k) rows) = Verify H rows"
proof -
  have "rowKey (redactRow k e) = rowKey e" for e by (simp add: rowKey_def)
  then show ?thesis
    by (simp add: Verify_def listEventsForVerify_def walkChain_def sort_key_map walkFrom_redact)
qed

text \<open>
  Erasure without breaking the chain. Redacting an event answers whether the id is
  there, changes no other row, blanks the e-mail, name, address and both snapshots of the
  row and drops its salt; the hashed fields stay, so the walk gives the very verdict it gave
  before, and the row is reported as not checkable instead of as tampered. Doing it again
  changes nothing.
\<close>

theorem RedactEvent_erases:
  "Verify H (snd (RedactEvent rows i)) = Verify H rows \<and>
   (fst (RedactEvent rows i) \<longleftrightarrow> i \<in> evID ` set rows) \<and>
   snd (RedactEvent (snd (RedactEvent rows i)) i) = snd (RedactEvent rows i) \<and>
   length (snd (RedactEvent rows i)) = length rows \<and>
   (\<forall>k < length rows. let e = rows ! k; e' = snd (RedactEvent rows i) ! k in
      (evID e \<noteq> i \<longrightarrow> e' = e) \<and>
      (evID e = i \<and> evCanonicalVersion e = CanonicalVersion4 \<longrightarrow>
         acEmail (evActor e') = '''' \<and> acName (evActor e') = '''' \<and> acIP (evActor e') = '''' \<and> evBefore e' = '''' \<and>
         evAfter e' = '''' \<and> evRowSalt e' = '''' \<and> hashedFields e' = hashedFields e \<and>
         VerifyCommitments H e' = (False, None)))"
proof -
  have "fst (RedactEvent rows i) \<longleftrightarrow> i \<in> evID ` set rows"
  proof (cases "getEventByID rows i")
    case None
    then have "\<forall>e\<in>set rows. evID e \<noteq> i" by (simp add: getEventByID_def find_None_iff)
    with None show ?thesis by (auto simp: RedactEvent_def)
  next
    case (Some e)
    then have "e \<in> set rows" "evID e = i" by (auto simp: getEventByID_def find_Some_iff)
    with Some show ?thesis by (auto simp: RedactEvent_def)
  qed
  moreover have "redactRow i (redactRow i e) = redactRow i e" for e
    by (simp add: redactRow_def redactEventPII_def)
  moreover have "hashedFields (redactEventPII e) = hashedFields e" for e
    by (simp add: hashedFields_def redactEventPII_def payloadActorType_def)
  ultimately show ?thesis
    by (simp add: RedactEvent_rows Verify_redact o_def Let_def redactRow_def redactEventPII_def VerifyCommitments_def IsRedacted_def)
qed

theorem RedactEvent_erases_witness:
  "let rows = snd (RedactEvent [(exampleEvent ''a'' 7)\<lparr>evAfter := ''secret''\<rparr>] ''a'') in
   length rows = 1 \<and> evAfter (rows ! 0) = '''' \<and> VerifyCommitments exampleHash (rows ! 0) = (False, None)"
  using RedactEvent_erases [of exampleHash "[(exampleEvent ''a'' 7)\<lparr>evAfter := ''secret''\<rparr>]" "''a''"]
  by (simp add: Let_def)

section \<open>Commitments\<close>

definition commitInput :: "string \<Rightarrow> string \<Rightarrow> string \<Rightarrow> string" where
  "commitInput salt field v = salt @ lp field @ lp v"

definition commitInputs :: "Event \<Rightarrow> string set" where
  "commitInputs e =
     {commitInput (evRowSalt e) ''actor.email'' (acEmail (evActor e)), commitInput (evRowSalt e) ''actor.name'' (acName (evActor e)),
      commitInput (evRowSalt e) ''actor.ip'' (acIP (evActor e)), commitInput (evRowSalt e) ''before'' (evBefore e),
      commitInput (evRowSalt e) ''after'' (evAfter e)}"

definition personalData where
  "personalData e = (acEmail (evActor e), acName (evActor e), acIP (evActor e), evBefore e, evAfter e)"

definition personalDataFits :: "Event \<Rightarrow> bool" where
  "personalDataFits e \<longleftrightarrow> list_all (\<lambda>v. length v < 2 ^ 32)
     [acEmail (evActor e), acName (evActor e), acIP (evActor e), evBefore e, evAfter e]"

definition forge :: "string \<Rightarrow> string \<Rightarrow> string \<Rightarrow> string \<Rightarrow> string \<Rightarrow> Event \<Rightarrow> Event" where
  "forge email name ip before after e =
     e\<lparr>evActor := (evActor e)\<lparr>acEmail := email, acName := name, acIP := ip\<rparr>, evBefore := before, evAfter := after, evRowSalt := ''''\<rparr>"

lemma commitField_input: "commitField H salt field v = H (commitInput salt field v)"
  by (simp add: commitField_def commitInput_def appendLP_lp)

lemma commitInput_inj:
  assumes "commitInput s f v = commitInput s' f v'" "length s = length s'" "length f < 2 ^ 32" "length v < 2 ^ 32" "length v' < 2 ^ 32"
  shows "s = s' \<and> v = v'"
proof -
  have "s = s'" "lp v @ [] = lp v' @ []" using assms(1,2) by (auto simp: commitInput_def)
  with lp_inj [OF this(2) assms(4,5)] show ?thesis by simp
qed

lemma VerifyCommitments_True:
  "VerifyCommitments H e = (True, None) \<Longrightarrow> evCommitments e = ComputeCommitments H (evRowSalt e) e"
  by (auto simp: VerifyCommitments_def Let_def split: if_splits)

text \<open>
  What the commitments bind. Two versions of a row that carry the same commitments and
  both pass the check, under salts of one length, hold the same e-mail, name, address and
  snapshots, unless the hashed bytes collide: while the salt is there an edit of personal
  data is seen. With the salt gone nothing is: any personal data at all can be written into
  a row whose salt is emptied, and both the walk and the check pass.
\<close>

theorem commitments_bind:
  "(VerifyCommitments H e = (True, None) \<and> VerifyCommitments H e' = (True, None) \<and> evCommitments e = evCommitments e' \<and>
     length (evRowSalt e) = length (evRowSalt e') \<and> personalDataFits e \<and> personalDataFits e' \<and>
     inj_on H (commitInputs e \<union> commitInputs e') \<longrightarrow>
       personalData e = personalData e' \<and> evRowSalt e = evRowSalt e') \<and>
   (let f = forge email name ip before after e in
     personalData f = (email, name, ip, before, after) \<and> VerifyCommitments H f = (False, None) \<and>
     walkChain H (xs @ f # ys) = walkChain H (xs @ e # ys))"
proof (rule conjI, intro impI)
  assume a: "VerifyCommitments H e = (True, None) \<and> VerifyCommitments H e' = (True, None) \<and> evCommitments e = evCommitments e' \<and>
     length (evRowSalt e) = length (evRowSalt e') \<and> personalDataFits e \<and> personalDataFits e' \<and>
     inj_on H (commitInputs e \<union> commitInputs e')"
  then have c: "ComputeCommitments H (evRowSalt e) e = ComputeCommitments H (evRowSalt e') e'"
    using VerifyCommitments_True [of H e] VerifyCommitments_True [of H e'] by simp
  note fit = a [THEN conjunct2, THEN conjunct2, THEN conjunct2, THEN conjunct2]
  have same: "evRowSalt e = evRowSalt e' \<and> v = v'"
    if "commitField H (evRowSalt e) field v = commitField H (evRowSalt e') field v'"
      "commitInput (evRowSalt e) field v \<in> commitInputs e" "commitInput (evRowSalt e') field v' \<in> commitInputs e'"
      "length field < 2 ^ 32" "length v < 2 ^ 32" "length v' < 2 ^ 32" for field v v'
  proof -
    have "commitInput (evRowSalt e) field v = commitInput (evRowSalt e') field v'"
      using a that(1-3) by (auto simp: commitField_input inj_on_def)
    with commitInput_inj [OF this] a that(4-6) show ?thesis by blast
  qed
  show "personalData e = personalData e' \<and> evRowSalt e = evRowSalt e'"
    using c fit same [of "''actor.email''" "acEmail (evActor e)" "acEmail (evActor e')"]
      same [of "''actor.name''" "acName (evActor e)" "acName (evActor e')"]
      same [of "''actor.ip''" "acIP (evActor e)" "acIP (evActor e')"]
      same [of "''before''" "evBefore e" "evBefore e'"] same [of "''after''" "evAfter e" "evAfter e'"]
    unfolding personalData_def personalDataFits_def commitInputs_def by (simp add: ComputeCommitments_def)
next
  let ?f = "forge email name ip before after e"
  have f: "personalData ?f = (email, name, ip, before, after)" "VerifyCommitments H ?f = (False, None)"
    by (simp_all add: forge_def personalData_def VerifyCommitments_def IsRedacted_def)
  have eq: "evPrevHash ?f = evPrevHash e" "evHash ?f = evHash e" "evCanonicalVersion ?f = evCanonicalVersion e"
    "canonicalPayloadV4 ?f p = canonicalPayloadV4 e p" for p
    by (simp_all add: forge_def canonicalPayloadV4_fields payloadFields_def payloadActorType_def)
  have "walkFrom H n i p (xs @ ?f # ys) = walkFrom H n i p (xs @ e # ys)" for n i p
    by (induction xs arbitrary: i p) (simp_all add: Let_def canonicalPayloadForVersion_def eq)
  with f show "let f = ?f in personalData f = (email, name, ip, before, after) \<and> VerifyCommitments H f = (False, None) \<and>
     walkChain H (xs @ f # ys) = walkChain H (xs @ e # ys)"
    by (simp add: walkChain_def Let_def)
qed

theorem commitments_bind_witness:
  "personalData exampleFirst = personalData exampleFirst \<and>
   VerifyCommitments exampleHash (forge ''eve@x.io'' '''' '''' '''' '''' exampleFirst) = (False, None) \<and>
   \<not> vrTamper (walkChain exampleHash [forge ''eve@x.io'' '''' '''' '''' '''' exampleFirst])"
proof -
  have "\<not> vrTamper (walkChain exampleHash [exampleFirst])"
    using exampleTable_ok(1) by (simp add: tableOk_def walkChain_clean)
  then show ?thesis
    using commitments_bind [of exampleHash exampleFirst exampleFirst "''eve@x.io''" "''''" "''''" "''''" "''''" "[]" "[]"]
    by (simp add: Let_def)
qed

end
