(* ===== verification/Audit_Query.thy ===== *)
theory Audit_Query
  imports Audit_Log "HOL-Library.Multiset"
begin

text \<open>
  The readers of the audit log: following the cursors lists every matching event once,
  newest first; the tenant export is the tenant's rows and nothing else; the boot check and
  \<^verbatim>\<open>ComputeHash\<close> agree with the logger.
\<close>

section \<open>Pages\<close>

text \<open>What a filter selects, its cursor aside.\<close>

definition selects :: "Filter \<Rightarrow> Event \<Rightarrow> bool" where
  "selects f e \<longleftrightarrow>
     (fiSince f \<noteq> 0 \<longrightarrow> fiSince f \<le> evAt e) \<and> (fiUntil f \<noteq> 0 \<longrightarrow> evAt e < fiUntil f) \<and>
     (fiActorUserID f \<noteq> '''' \<longrightarrow> acUserID (evActor e) = fiActorUserID f) \<and>
     (fiActorEmail f \<noteq> '''' \<longrightarrow> acEmail (evActor e) = fiActorEmail f) \<and>
     (fiAction f \<noteq> '''' \<longrightarrow> evAction e = fiAction f) \<and>
     (fiResourceType f \<noteq> '''' \<longrightarrow> evResourceType e = fiResourceType f) \<and>
     (fiResourceID f \<noteq> '''' \<longrightarrow> evResourceID e = fiResourceID f) \<and>
     (fiRequestID f \<noteq> '''' \<longrightarrow> evRequestID e = fiRequestID f) \<and>
     (Valid (fiTenantID f) \<longrightarrow> evTenantID e = IDString (fiTenantID f)) \<and>
     (Valid (fiActorTenantID f) \<longrightarrow> acTenantID (evActor e) = IDString (fiActorTenantID f))"

text \<open>A caller that passes each page's cursor back until there is none.\<close>

fun followPages :: "(go_time \<Rightarrow> string) \<Rightarrow> (string \<Rightarrow> go_time option) \<Rightarrow> Table \<Rightarrow> (Event \<Rightarrow> bool) list \<Rightarrow> nat \<Rightarrow> Filter
    \<Rightarrow> Event list option" where
  "followPages fmt parse rows conds 0 f = None"
| "followPages fmt parse rows conds (Suc fuel) f =
     (case listEvents fmt parse rows f conds of
        Inl err \<Rightarrow> None
      | Inr pg \<Rightarrow>
          if pgNextCursor pg = '''' then Some (pgEvents pg)
          else (case followPages fmt parse rows conds fuel (f\<lparr>fiCursor := pgNextCursor pg\<rparr>) of
              None \<Rightarrow> None
            | Some es \<Rightarrow> Some (pgEvents pg @ es)))"

definition newestFirst :: "Event list \<Rightarrow> Event list" where
  "newestFirst rows = rev (sort_key listOrder rows)"

lemma tenant_cond:
  "(Valid t \<longrightarrow> (if IsSingle t then (\<lambda>e. v e = '''') else (\<lambda>e. v e = IDString t \<and> v e \<noteq> '''')) e) \<longleftrightarrow>
     (Valid t \<longrightarrow> v e = IDString t)"
  by (auto simp: id_defs)

lemma list_all_addCond: "list_all (\<lambda>c. c e) (addCond b cond w) \<longleftrightarrow> list_all (\<lambda>c. c e) w \<and> (b \<longrightarrow> cond e)"
  by (simp add: addCond_def)

lemma filterWhere_Inr:
  "fiCursor f = '''' \<Longrightarrow> \<exists>w. filterWhere parse f = Inr w \<and> (\<forall>e. list_all (\<lambda>c. c e) w \<longleftrightarrow> selects f e)"
  "fiCursor f \<noteq> '''' \<Longrightarrow> parseCursor parse (fiCursor f) = Inr (t, i) \<Longrightarrow>
    \<exists>w. filterWhere parse f = Inr w \<and> (\<forall>e. list_all (\<lambda>c. c e) w \<longleftrightarrow> selects f e \<and> listOrder e < (t, i))"
proof -
  have base: "list_all (\<lambda>c. c e) (filterFields f) \<longleftrightarrow> selects f e" for e
    unfolding filterFields_def Let_def list_all_addCond selects_def
    by (simp only: tenant_cond list.pred_inject conj_assoc simp_thms)
  show "fiCursor f = '''' \<Longrightarrow> \<exists>w. filterWhere parse f = Inr w \<and> (\<forall>e. list_all (\<lambda>c. c e) w \<longleftrightarrow> selects f e)"
    using base by (simp add: filterWhere_def)
  show "fiCursor f \<noteq> '''' \<Longrightarrow> parseCursor parse (fiCursor f) = Inr (t, i) \<Longrightarrow>
    \<exists>w. filterWhere parse f = Inr w \<and> (\<forall>e. list_all (\<lambda>c. c e) w \<longleftrightarrow> selects f e \<and> listOrder e < (t, i))"
    using base by (auto simp: filterWhere_def list_all_addCond listOrder_def less_prod_def)
qed

lemma parse_formatCursor:
  assumes "CHR ''|'' \<notin> set i" "parse (fmt t) = Some t"
  shows "parseCursor parse (formatCursor fmt t i) = Inr (t, i)"
proof -
  have "rev (formatCursor fmt t i) = rev i @ CHR ''|'' # rev (fmt t)" by (simp add: formatCursor_def)
  moreover have "takeWhile (\<lambda>c. c \<noteq> CHR ''|'') (rev i @ CHR ''|'' # rev (fmt t)) = rev i"
    using assms(1) by (subst takeWhile_append2) auto
  ultimately show ?thesis using assms(2) by (simp add: parseCursor_def Let_def formatCursor_def)
qed

lemma filter_after:
  assumes "sorted_wrt (\<lambda>a b. g b < (g a :: 'k :: linorder)) xs" "k < length xs"
  shows "filter (\<lambda>e. g e < g (xs ! k)) xs = drop (Suc k) xs"
proof -
  have split: "xs = take k xs @ xs ! k # drop (Suc k) xs" using assms(2) by (rule id_take_nth_drop)
  then have "sorted_wrt (\<lambda>a b. g b < g a) (take k xs @ xs ! k # drop (Suc k) xs)" using assms(1) by simp
  then have "\<forall>e\<in>set (take k xs). g (xs ! k) < g e" "\<forall>e\<in>set (drop (Suc k) xs). g e < g (xs ! k)"
    by (auto simp: sorted_wrt_append)
  then have "filter (\<lambda>e. g e < g (xs ! k)) (take k xs @ xs ! k # drop (Suc k) xs) = drop (Suc k) xs"
    by (auto simp: filter_empty_conv filter_id_conv dest: order.asym)
  with split show ?thesis by metis
qed

lemma newestFirst_strict:
  assumes "distinct (map evID rows)"
  shows "sorted_wrt (\<lambda>a b. listOrder b < listOrder a) (newestFirst rows)"
proof -
  have "sorted (map listOrder (sort_key listOrder rows))" by simp
  moreover have "distinct (map listOrder (sort_key listOrder rows))"
    using assms by (auto simp: distinct_map inj_on_def listOrder_def)
  ultimately have "sorted_wrt (<) (map listOrder (sort_key listOrder rows))"
    by (simp add: strict_sorted_iff)
  then show ?thesis by (simp add: newestFirst_def sorted_wrt_rev sorted_wrt_map)
qed

lemma newestFirst_filter: "newestFirst (filter P rows) = filter P (newestFirst rows)"
  by (simp add: newestFirst_def filter_sort flip: rev_filter)

definition pageLimit :: "Filter \<Rightarrow> nat" where
  "pageLimit f = nat (if fiLimit f \<le> 0 then 50 else fiLimit f)"

lemma pageLimit_pos: "0 < pageLimit f"
  by (simp add: pageLimit_def)

lemma listEvents_page:
  fixes fmt parse rows conds f
  defines "all \<equiv> newestFirst (filter (\<lambda>e. list_all (\<lambda>c. c e) conds \<and> selects f e) rows)"
  assumes "\<forall>t. parse (fmt t) = Some t" "\<forall>e\<in>set rows. CHR ''|'' \<notin> set (evID e)" "distinct (map evID rows)" "fiCursor f = ''''"
  shows "listEvents fmt parse rows f conds = Inr (pageFromRows fmt (take (pageLimit f) all) (pageLimit f))"
    and "k < length all \<Longrightarrow> listEvents fmt parse rows (f\<lparr>fiCursor := formatCursor fmt (evAt (all ! k)) (evID (all ! k))\<rparr>) conds =
      Inr (pageFromRows fmt (take (pageLimit f) (drop (Suc k) all)) (pageLimit f))"
proof -
  obtain w where "filterWhere parse f = Inr w" "\<forall>e. list_all (\<lambda>c. c e) w \<longleftrightarrow> selects f e"
    using filterWhere_Inr(1) [OF assms(5)] by blast
  then show "listEvents fmt parse rows f conds = Inr (pageFromRows fmt (take (pageLimit f) all) (pageLimit f))"
    by (simp add: listEvents_def Let_def all_def newestFirst_def pageLimit_def)
next
  assume k: "k < length all"
  let ?g = "f\<lparr>fiCursor := formatCursor fmt (evAt (all ! k)) (evID (all ! k))\<rparr>"
  have "all ! k \<in> set rows" using nth_mem [OF k] by (auto simp: all_def newestFirst_def)
  then have pc: "parseCursor parse (fiCursor ?g) = Inr (evAt (all ! k), evID (all ! k))"
    using parse_formatCursor [of "evID (all ! k)" parse fmt] assms(2,3) by simp
  have ne: "fiCursor ?g \<noteq> ''''" by (simp add: formatCursor_def)
  have sel: "selects ?g e = selects f e" for e by (simp add: selects_def)
  obtain w where w: "filterWhere parse ?g = Inr w"
    "\<forall>e. list_all (\<lambda>c. c e) w \<longleftrightarrow> selects f e \<and> listOrder e < listOrder (all ! k)"
    using filterWhere_Inr(2) [OF ne pc] sel by (auto simp: listOrder_def)
  have "newestFirst (filter (\<lambda>e. list_all (\<lambda>c. c e) conds \<and> selects f e \<and> listOrder e < listOrder (all ! k)) rows)
      = filter (\<lambda>e. listOrder e < listOrder (all ! k)) all"
    unfolding all_def newestFirst_filter filter_filter by (rule filter_cong) auto
  also have "\<dots> = drop (Suc k) all"
    using k by (intro filter_after)
      (simp_all add: all_def newestFirst_strict distinct_map_filter assms(4))
  finally show "listEvents fmt parse rows ?g conds = Inr (pageFromRows fmt (take (pageLimit f) (drop (Suc k) all)) (pageLimit f))"
    using w by (simp add: listEvents_def Let_def newestFirst_def pageLimit_def)
qed

lemma followPages_from:
  fixes fmt parse rows conds f
  defines "all \<equiv> newestFirst (filter (\<lambda>e. list_all (\<lambda>c. c e) conds \<and> selects f e) rows)"
  assumes ok: "\<forall>t. parse (fmt t) = Some t" "\<forall>e\<in>set rows. CHR ''|'' \<notin> set (evID e)" "distinct (map evID rows)" "fiCursor f = ''''"
  shows "length all < j + fuel \<Longrightarrow> j \<le> length all \<Longrightarrow>
    g = (if j = 0 then f else f\<lparr>fiCursor := formatCursor fmt (evAt (all ! (j - 1))) (evID (all ! (j - 1)))\<rparr>) \<Longrightarrow>
    followPages fmt parse rows conds fuel g = Some (map fromRow (drop j all))"
proof (induction fuel arbitrary: j g)
  case (Suc fuel)
  let ?n = "pageLimit f"
  define rs where "rs = take ?n (drop j all)"
  have page: "listEvents fmt parse rows g conds = Inr (pageFromRows fmt rs ?n)"
  proof (cases j)
    case 0
    then show ?thesis using Suc.prems(3) listEvents_page(1) [OF ok] by (simp add: all_def rs_def)
  next
    case (Suc k)
    then show ?thesis using Suc.prems(2,3) listEvents_page(2) [OF ok, of k] by (simp add: all_def rs_def)
  qed
  show ?case
  proof (cases "length rs = ?n \<and> rs \<noteq> []")
    case True
    then have j: "j + ?n \<le> length all" using Suc.prems(2) by (auto simp: rs_def)
    have last: "last rs = all ! (j + ?n - 1)"
      using True j pageLimit_pos [of f] by (simp add: rs_def last_conv_nth)
    have "followPages fmt parse rows conds fuel (g\<lparr>fiCursor := formatCursor fmt (evAt (last rs)) (evID (last rs))\<rparr>) =
        Some (map fromRow (drop (j + ?n) all))"
      using Suc.prems j last pageLimit_pos [of f] by (intro Suc.IH) auto
    moreover have "pgNextCursor (pageFromRows fmt rs ?n) = formatCursor fmt (evAt (last rs)) (evID (last rs))"
      "formatCursor fmt (evAt (last rs)) (evID (last rs)) \<noteq> ''''"
      using True by (simp_all add: pageFromRows_def formatCursor_def)
    moreover have "drop j all = rs @ drop (j + ?n) all"
      unfolding rs_def by (metis append_take_drop_id drop_drop add.commute)
    ultimately show ?thesis using page by (simp add: pageFromRows_def)
  next
    case False
    have "\<not> ?n \<le> length (drop j all)"
    proof
      assume "?n \<le> length (drop j all)"
      then have "length rs = ?n" by (simp add: rs_def)
      with False pageLimit_pos [of f] show False by force
    qed
    then have "rs = drop j all" by (simp add: rs_def)
    moreover have "pgNextCursor (pageFromRows fmt rs ?n) = ''''" "pgEvents (pageFromRows fmt rs ?n) = map fromRow rs"
      using False by (auto simp: pageFromRows_def)
    ultimately show ?thesis using page by simp
  qed
qed simp

text \<open>
  C15. Paging is exact. Passing each page's cursor back until there is none lists every row
  the filter and the scope select, each once, newest first, and returns for any table, page
  size and filter; the fuel is one more page than there are rows. The cursor needs ids
  without a vertical bar: an event whose id has one yields a cursor the next call refuses.
\<close>

theorem paging_is_exact:
  assumes "\<forall>t. parse (fmt t) = Some t" "\<forall>s. CHR ''|'' \<in> set s \<longrightarrow> parse s = None" "distinct (map evID rows)" "fiCursor f = ''''"
  shows "((\<forall>e\<in>set rows. CHR ''|'' \<notin> set (evID e)) \<longrightarrow>
      followPages fmt parse rows conds (length rows + 1) f =
        Some (map fromRow (newestFirst (filter (\<lambda>e. list_all (\<lambda>c. c e) conds \<and> selects f e) rows)))) \<and>
    (\<forall>t i. CHR ''|'' \<in> set i \<longrightarrow> listEvents fmt parse rows (f\<lparr>fiCursor := formatCursor fmt t i\<rparr>) conds = Inl BadCursor)"
proof (intro conjI allI impI)
  assume "\<forall>e\<in>set rows. CHR ''|'' \<notin> set (evID e)"
  from followPages_from [OF assms(1) this assms(3,4), of conds 0 "length rows + 1" f]
  show "followPages fmt parse rows conds (length rows + 1) f =
      Some (map fromRow (newestFirst (filter (\<lambda>e. list_all (\<lambda>c. c e) conds \<and> selects f e) rows)))"
    by (simp add: newestFirst_def le_imp_less_Suc)
next
  fix t i
  assume bar: "CHR ''|'' \<in> set i"
  then obtain a b where i: "i = a @ CHR ''|'' # b" "CHR ''|'' \<notin> set b" by (metis split_list_last)
  let ?s = "formatCursor fmt t i"
  have "rev ?s = rev b @ CHR ''|'' # rev (fmt t @ ''|'' @ a)" by (simp add: formatCursor_def i)
  moreover have "takeWhile (\<lambda>c. c \<noteq> CHR ''|'') (rev b @ CHR ''|'' # rev (fmt t @ ''|'' @ a)) = rev b"
    using i(2) by (subst takeWhile_append2) auto
  moreover have "take (length ?s - length b - 1) ?s = fmt t @ ''|'' @ a" by (simp add: formatCursor_def i)
  ultimately have "parseCursor parse ?s = Inl BadCursor"
    using assms(2) by (simp add: parseCursor_def Let_def formatCursor_def i)
  then show "listEvents fmt parse rows (f\<lparr>fiCursor := ?s\<rparr>) conds = Inl BadCursor"
    by (simp add: listEvents_def filterWhere_def formatCursor_def Let_def)
qed

definition exampleFilter :: Filter where
  "exampleFilter = \<lparr>fiSince = 0, fiUntil = 0, fiActorUserID = '''', fiActorEmail = '''', fiAction = '''', fiResourceType = '''',
     fiResourceID = '''', fiRequestID = '''', fiTenantID = NewID ''acme'', fiActorTenantID = zeroID, fiLimit = 1, fiCursor = ''''\<rparr>"

definition unary :: "go_time \<Rightarrow> string" where
  "unary t = (if t < 0 then replicate (nat (- t)) (CHR ''-'') else replicate (nat t) (CHR ''+''))"

definition ofUnary :: "string \<Rightarrow> go_time option" where
  "ofUnary s = (if list_all (\<lambda>c. c = CHR ''+'') s then Some (int (length s))
     else if list_all (\<lambda>c. c = CHR ''-'') s then Some (- int (length s)) else None)"

theorem paging_is_exact_witness:
  "followPages unary ofUnary [exampleEvent ''a'' 7, exampleEvent ''bc'' 3, exampleEvent ''d'' 9] [] 4 exampleFilter =
     Some (map fromRow [exampleEvent ''d'' 9, exampleEvent ''a'' 7, exampleEvent ''bc'' 3])"
proof -
  let ?rows = "[exampleEvent ''a'' 7, exampleEvent ''bc'' 3, exampleEvent ''d'' 9]"
  have inv: "\<forall>t. ofUnary (unary t) = Some t"
  proof
    fix t show "ofUnary (unary t) = Some t"
      by (cases "nat (- t)") (auto simp: ofUnary_def unary_def list_all_iff)
  qed
  have bar: "\<forall>s. CHR ''|'' \<in> set s \<longrightarrow> ofUnary s = None" by (auto simp: ofUnary_def list_all_iff)
  have pages: "followPages unary ofUnary ?rows [] (length ?rows + 1) exampleFilter =
      Some (map fromRow (newestFirst (filter (\<lambda>e. list_all (\<lambda>c. c e) [] \<and> selects exampleFilter e) ?rows)))"
    by (rule paging_is_exact [OF inv bar, THEN conjunct1, THEN mp]) (simp_all add: exampleFilter_def)
  have all: "filter (\<lambda>e. list_all (\<lambda>c. c e) [] \<and> selects exampleFilter e) ?rows = ?rows"
    by (simp add: selects_def exampleFilter_def exampleEvent_def id_defs)
  have four: "length ?rows + 1 = 4" by simp
  show ?thesis using pages unfolding all four by (simp add: newestFirst_def listOrder_def del: followPages.simps)
qed

section \<open>Export\<close>

lemma exportLoop_Inr: "\<forall>e\<in>set rs. evTenantID e = t \<Longrightarrow> exportLoop t rs = Inr (map fromRow rs)"
  by (induction rs) auto

lemma Verify_member:
  assumes "\<not> vrTamper (Verify H rows)" "e \<in> set rows"
  shows "evHash e = hashChainLink H (evPrevHash e) (canonicalPayloadV4 e (evPrevHash e))"
proof -
  have "e \<in> set (sort_key rowKey rows)" using assms(2) by simp
  moreover have "linked H (baseOf (sort_key rowKey rows)) (sort_key rowKey rows)"
    using assms calculation by (auto simp: Verify_def listEventsForVerify_def walkChain_clean)
  ultimately show ?thesis using linked_member [of H _ "sort_key rowKey rows" e] by (simp add: chained_def)
qed

text \<open>
  The tenant export is exact. For a set tenant it never fails: it holds the rows scoped
  to that tenant, all of them and no other's, oldest first, and says it is no chain; the
  exports of two tenants share no event. When the log verifies, every exported row's hash
  is recomputable from the row alone. An unset tenant is refused.
\<close>

theorem ExportForTenant_exact:
  "(Valid t \<longrightarrow> (\<exists>x. ExportForTenant rows t = Inr x \<and> teTenantID x = IDString t \<and> \<not> teIsChain x \<and>
      mset (teEvents x) = image_mset fromRow (filter_mset (\<lambda>e. evTenantID e = IDString t) (mset rows)) \<and>
      sorted (map rowKey (teEvents x)) \<and>
      (\<forall>u y. Valid u \<and> u \<noteq> t \<and> ExportForTenant rows u = Inr y \<longrightarrow> set (teEvents x) \<inter> set (teEvents y) = {}) \<and>
      (\<not> vrTamper (Verify H rows) \<longrightarrow>
         (\<forall>e\<in>set (teEvents x). evHash e = hashChainLink H (evPrevHash e) (canonicalPayloadV4 e (evPrevHash e)))))) \<and>
   (\<not> Valid t \<longrightarrow> ExportForTenant rows t = Inl ExportTenantRequired)"
proof (intro conjI impI)
  define slice where "slice = (\<lambda>u. sort_key rowKey (filter (\<lambda>e. evTenantID e = IDString u) rows))"
  have ex: "ExportForTenant rows u = Inr \<lparr>teTenantID = IDString u, teEvents = map fromRow (slice u), teIsChain = False,
      teCompleteness = CompletenessIssuerAttested\<rparr>" if "Valid u" for u
    using that exportLoop_Inr [of "slice u" "IDString u"] by (simp add: ExportForTenant_def slice_def)
  assume t: "Valid t"
  have key: "map rowKey (map fromRow es) = map rowKey es" for es by (simp add: rowKey_def)
  have tenants: "e \<in> set (map fromRow (slice u)) \<Longrightarrow> evTenantID e = IDString u" for e u by (auto simp: slice_def)
  have "set (map fromRow (slice t)) \<inter> set (teEvents y) = {}"
    if "Valid u \<and> u \<noteq> t \<and> ExportForTenant rows u = Inr y" for u y
  proof -
    have "teEvents y = map fromRow (slice u)" "IDString u \<noteq> IDString t" using that ex t by (auto simp: IDString_eq_iff)
    then show ?thesis using tenants [of _ u] tenants [of _ t] by fastforce
  qed
  moreover have "evHash e = hashChainLink H (evPrevHash e) (canonicalPayloadV4 e (evPrevHash e))"
    if "\<not> vrTamper (Verify H rows)" "e \<in> set (map fromRow (slice t))" for e
    using that Verify_member [OF that(1)] by (auto simp: slice_def)
  moreover have "sorted (map rowKey (map fromRow (slice t)))" unfolding key by (simp add: slice_def)
  moreover have "mset (map fromRow (slice t)) = image_mset fromRow (filter_mset (\<lambda>e. evTenantID e = IDString t) (mset rows))"
    by (simp add: slice_def)
  ultimately show "\<exists>x. ExportForTenant rows t = Inr x \<and> teTenantID x = IDString t \<and> \<not> teIsChain x \<and>
      mset (teEvents x) = image_mset fromRow (filter_mset (\<lambda>e. evTenantID e = IDString t) (mset rows)) \<and>
      sorted (map rowKey (teEvents x)) \<and>
      (\<forall>u y. Valid u \<and> u \<noteq> t \<and> ExportForTenant rows u = Inr y \<longrightarrow> set (teEvents x) \<inter> set (teEvents y) = {}) \<and>
      (\<not> vrTamper (Verify H rows) \<longrightarrow>
         (\<forall>e\<in>set (teEvents x). evHash e = hashChainLink H (evPrevHash e) (canonicalPayloadV4 e (evPrevHash e))))"
    using ex [OF t] by (intro exI [of _ "\<lparr>teTenantID = IDString t, teEvents = map fromRow (slice t), teIsChain = False,
      teCompleteness = CompletenessIssuerAttested\<rparr>"]) simp
qed (simp add: ExportForTenant_def)

theorem ExportForTenant_exact_witness:
  "(\<exists>x. ExportForTenant exampleTable (NewID ''acme'') = Inr x \<and> size (mset (teEvents x)) = 2) \<and>
   ExportForTenant exampleTable zeroID = Inl ExportTenantRequired"
proof -
  have "filter_mset (\<lambda>e. evTenantID e = IDString (NewID ''acme'')) (mset exampleTable) = mset exampleTable"
    by (simp add: exampleTable_def exampleFirst_def chainRow_simps exampleEvent_def id_defs)
  moreover have "size (mset exampleTable) = 2" by (simp add: exampleTable_def)
  moreover have "Valid (NewID ''acme'')" "\<not> Valid zeroID" by (simp_all add: id_defs)
  ultimately show ?thesis
    using ExportForTenant_exact [of "NewID ''acme''" exampleTable exampleHash]
      ExportForTenant_exact [of zeroID exampleTable exampleHash]
    by (metis size_image_mset)
qed

section \<open>The boot check and ComputeHash\<close>

lemma bootWalk_agrees:
  "bootWalk H (\<lambda>_. None) i p rows = (n, err) \<Longrightarrow> tot = i + length rows \<Longrightarrow>
   (err = None \<longleftrightarrow> \<not> vrTamper (walkFrom H tot i p rows)) \<and> (err = None \<longrightarrow> n = tot) \<and>
   (err \<noteq> None \<longrightarrow> n = vrFirstBadIndex (walkFrom H tot i p rows) \<and> i \<le> n \<and> n < tot \<and>
      (\<exists>m. err = Some (Mismatch m) \<and> mmIndex m = n \<and> mmRowID m = evID (rows ! (n - i)) \<and> mmStoredHash m = evHash (rows ! (n - i))))"
proof (induction rows arbitrary: i p n err)
  case (Cons r rs)
  show ?case
  proof (cases "i \<noteq> 0 \<and> evPrevHash r \<noteq> p \<or> evCanonicalVersion r \<noteq> CanonicalVersion4 \<or>
      evHash r \<noteq> hashChainLink H (if i = 0 then evPrevHash r else p) (canonicalPayloadV4 r (if i = 0 then evPrevHash r else p))")
    case True
    then show ?thesis using Cons.prems
      by (auto simp: Let_def canonicalPayloadForVersion_def badAt_def newChainMismatchError_def split: if_splits)
  next
    case False
    then have walk: "walkFrom H tot i p (r # rs) = walkFrom H tot (i + 1) (evHash r) rs"
      and boot: "bootWalk H (\<lambda>_. None) i p (r # rs) = bootWalk H (\<lambda>_. None) (i + 1) (evHash r) rs"
      by (auto simp: Let_def canonicalPayloadForVersion_def)
    have nth: "i + 1 \<le> k \<Longrightarrow> (r # rs) ! (k - i) = rs ! (k - (i + 1))" for k by (simp add: nth_Cons')
    show ?thesis
      using Cons.IH [of "i + 1" "evHash r" n err] Cons.prems nth [of n] unfolding walk boot by auto
  qed
qed simp

text \<open>
  The boot check is the walk. Run to its end, it fails exactly when \<^verbatim>\<open>Verify\<close> reports
  tampering, at the same index, naming the id and the stored hash of that row, and counts
  all the rows otherwise; it never reports a cancellation that did not happen. A logger
  without a chain passes.
\<close>

theorem boot_check_agrees:
  assumes "VerifyChainPostMigration H None (\<lambda>_. None) (Some rows) = (n, err)"
  shows "(err = None \<longleftrightarrow> \<not> vrTamper (Verify H rows)) \<and> (err = None \<longrightarrow> n = length rows) \<and> (err \<noteq> None \<longleftrightarrow> IsChainMismatch err) \<and>
    (\<forall>m. err = Some (Mismatch m) \<longrightarrow> mmIndex m = vrFirstBadIndex (Verify H rows) \<and> mmIndex m < length rows \<and>
       mmRowID m = evID (listEventsForVerify rows ! mmIndex m) \<and> mmStoredHash m = evHash (listEventsForVerify rows ! mmIndex m)) \<and>
    VerifyChainPostMigration H None (\<lambda>_. None) None = (0, None)"
proof -
  have "bootWalk H (\<lambda>_. None) 0 '''' (listEventsForVerify rows) = (n, err)"
    using assms by (simp add: VerifyChainPostMigration_def)
  from bootWalk_agrees [OF this refl] show ?thesis
    by (auto simp: Verify_def walkChain_def IsChainMismatch_def VerifyChainPostMigration_def listEventsForVerify_def)
qed

theorem boot_check_agrees_witness:
  "VerifyChainPostMigration exampleHash None (\<lambda>_. None) (Some exampleTable) = (2, None)"
proof -
  obtain n err where b: "VerifyChainPostMigration exampleHash None (\<lambda>_. None) (Some exampleTable) = (n, err)"
    by (cases "VerifyChainPostMigration exampleHash None (\<lambda>_. None) (Some exampleTable)")
  with boot_check_agrees [OF b] tableOk_Verify [OF exampleTable_ok(2)] show ?thesis by (simp add: exampleTable_def)
qed

text \<open>
  A store of one's own gets the logger's hash. For a row \<^verbatim>\<open>Log\<close> stores, \<^verbatim>\<open>ComputeHash\<close>
  over the row and the hash it was chained onto accepts it and answers the stored hash; the
  row is appended to the table with the caller's id and a time not before the caller's; and
  a call that fails stores nothing.
\<close>

theorem ComputeHash_matches_Log:
  assumes "0 < evAt e" "0 \<le> lgLastAt l" "length salt = RowSaltSize" "\<not> IsRedacted salt"
    and "\<forall>r\<in>set rows. length (evHash r) = HashSize" "Log H io salt l rows e = (l', rows', res)"
  shows "(\<forall>row. res = Inr row \<longrightarrow> rows' = rows @ [row] \<and> evID row = evID e \<and> evAt e \<le> evAt row \<and> evID e \<notin> evID ` set rows \<and>
      ComputeHash H row (evPrevHash row) = Inr (evHash row)) \<and>
    ((\<exists>err. res = Inl err) \<longrightarrow> rows' = rows)"
proof (intro conjI allI impI)
  assume "\<exists>err. res = Inl err"
  with assms(6) show "rows' = rows"
    by (auto simp: Log_def Let_def split: sum.splits option.splits)
next
  fix row
  assume "res = Inr row"
  with assms(6) obtain e' where e': "enrichEvent l e = Inr e'" "row = chainRow H salt (lgLastAt l) rows e'"
    "insertEvent rows row = Inr rows'"
    by (auto simp: Log_def Let_def split: sum.splits option.splits)
  have req: "evID e \<noteq> ''''" "evAction e' = evAction e" "evAction e \<noteq> ''''"
    using e'(1) by (auto simp: enrichEvent_def validateRequiredFields_def Let_def split: option.splits if_splits)
  note en = enrichEvent_Inr [OF e'(1)]
  have at: "evAt e \<le> evAt row" using en by (simp add: e'(2) chainRow_simps)
  have prev: "length (latestHashFrom rows) = HashSize"
  proof (cases "rows = []")
    case False
    then have "sort_key rowKey rows \<noteq> []" by (metis set_empty set_sort)
    then have "last (sort_key rowKey rows) \<in> set rows" using last_in_set by fastforce
    with assms(5) False show ?thesis by (simp add: latestHashFrom_def getLatestHash_def)
  qed (simp add: latestHashFrom_def getLatestHash_def)
  have ch: "chained H (latestHashFrom rows) row"
    using chainRow_chained [of e' H rows salt "lgLastAt l"] en e'(2) by simp
  have "evCommitments row = ComputeCommitments H salt row"
    by (simp add: e'(2) chainRow_simps ComputeCommitments_def)
  then have "ComputeHash H row (evPrevHash row) = Inr (evHash row)"
    using prev ch assms(1,3,4) at req en e'(2)
    by (simp add: ComputeHash_def validateRequiredFields_def chained_def chainRow_simps)
  moreover have "rows' = rows @ [row]" "evID row \<notin> evID ` set rows"
    using e'(3) by (auto simp: insertEvent_def split: if_splits)
  ultimately show "rows' = rows @ [row]" "evID row = evID e" "evAt e \<le> evAt row" "evID e \<notin> evID ` set rows"
    "ComputeHash H row (evPrevHash row) = Inr (evHash row)"
    using at en e'(2) by (simp_all add: chainRow_simps)
qed

theorem ComputeHash_matches_Log_witness:
  "\<exists>row. snd (snd (Log exampleHash (\<lambda>_. None) exampleSalt \<lparr>lgLastAt = 0, lgEmailLookup = None\<rparr> [] (exampleEvent ''a'' 7))) = Inr row \<and>
     ComputeHash exampleHash row (evPrevHash row) = Inr (evHash row)"
proof -
  let ?l = "\<lparr>lgLastAt = 0, lgEmailLookup = None\<rparr>"
  have "\<exists>row l'. Log exampleHash (\<lambda>_. None) exampleSalt ?l [] (exampleEvent ''a'' 7) = (l', [row], Inr row)"
    by (simp add: Log_def enrichEvent_def validateRequiredFields_def exampleEvent_def ActorTypeUser_def zeroActor_def Let_def insertEvent_def)
  then obtain row l' where l: "Log exampleHash (\<lambda>_. None) exampleSalt ?l [] (exampleEvent ''a'' 7) = (l', [row], Inr row)" by blast
  have "ComputeHash exampleHash row (evPrevHash row) = Inr (evHash row)"
    using ComputeHash_matches_Log [OF _ _ _ _ _ l] by (simp add: exampleSalt_def RowSaltSize_def IsRedacted_def list_all_iff)
  with l show ?thesis by simp
qed

end
