(* ===== verification/Espresso_Context.thy ===== *)
theory Espresso_Context
  imports Audit_Event Crypto_Token
begin

text \<open>
  Package \<^verbatim>\<open>espresso\<close>, the request and its identity: what the middleware set stores in a
  request's context and how it is read back, bearer authentication over a header or a
  WebSocket subprotocol (\<^verbatim>\<open>auth.go\<close>, \<^verbatim>\<open>authws.go\<close>), the tenant gates (\<^verbatim>\<open>tenantgate.go\<close>),
  the service-account gate (\<^verbatim>\<open>sagate.go\<close>), the source address (\<^verbatim>\<open>remoteip.go\<close>) and the cookie
  bridge (\<^verbatim>\<open>cookies.go\<close>). A middleware is a function from the request it is given to a
  response that ends it or the request the next handler gets; a constructor that panics is
  \<^verbatim>\<open>None\<close>. What an app's own writer writes is a response of its own.
\<close>

section \<open>Requests and middleware\<close>

record Principal =
  prID :: string
  prTenantID :: string
  prName :: string
  prDescription :: string
  prCreatedAt :: go_time

text \<open>The values under the package's context keys, and under those of \<^verbatim>\<open>audit\<close>.\<close>

record request_ctx = audit_ctx +
  cxUserID :: "string option"
  cxClaims :: "Claims option"
  cxActorSlot :: "Actor option"
  cxTenant :: "ID option"
  cxPrincipal :: "Principal option"
  cxRemoteIP :: "string option"
  cxCookies :: "(string, string) go_map"

record request =
  rqCtx :: request_ctx
  rqAuthorization :: string
  rqForwardedFor :: string
  rqProtocols :: "string list"
  rqRemoteAddr :: string
  rqMethod :: string
  rqPath :: string
  rqPathValues :: "(string, string) go_map"
  rqCookies :: "(string, string) go_map"

datatype response =
    Unauthenticated string
  | ConfigError string
  | CheckFailed string
  | NotFoundResponse
  | StepUpRequired int "string list" int int
  | FeatureNotEnabled string
  | TooManyRequests int
  | ScimTooManyRequests int
  | ScimErrorResponse int string string
  | AppWritten string

datatype outcome = Stop response | Next request

type_synonym middleware = "request \<Rightarrow> outcome"
type_synonym resolver = "request \<Rightarrow> ID \<times> bool"

text \<open>A stack of middleware, the outermost first.\<close>

fun serve :: "middleware list \<Rightarrow> middleware" where
  "serve [] r = Next r"
| "serve (m # ms) r = (case m r of Stop resp \<Rightarrow> Stop resp | Next r' \<Rightarrow> serve ms r')"

definition GetUserID :: "request_ctx \<Rightarrow> string \<times> bool" where
  "GetUserID ctx = (case cxUserID ctx of Some i \<Rightarrow> (i, i \<noteq> '''') | None \<Rightarrow> ('''', False))"

definition MustGetUserID :: "request_ctx \<Rightarrow> string option" where
  "MustGetUserID ctx = (case GetUserID ctx of (i, ok) \<Rightarrow> if ok then Some i else None)"

definition AccessClaimsFromContext :: "request_ctx \<Rightarrow> Claims option" where
  "AccessClaimsFromContext ctx = cxClaims ctx"

section \<open>The audit actor slot\<close>

text \<open>The slot's content is the zero actor until a handler fills it.\<close>

definition WithAuditActorCapture :: "request_ctx \<Rightarrow> request_ctx" where
  "WithAuditActorCapture ctx = ctx\<lparr>cxActorSlot := Some zeroActor\<rparr>"

definition SetAuditActor :: "request_ctx \<Rightarrow> Actor \<Rightarrow> request_ctx" where
  "SetAuditActor ctx actor =
     (case cxActorSlot ctx of
        None \<Rightarrow> ctx
      | Some _ \<Rightarrow> ctx\<lparr>cxActorSlot := Some (actor\<lparr>acType := ActorTypeUser\<rparr>)\<rparr>)"

definition AuditActorFromContext :: "request_ctx \<Rightarrow> Actor \<times> bool" where
  "AuditActorFromContext ctx =
     (case cxActorSlot ctx of
        None \<Rightarrow> (zeroActor, False)
      | Some a \<Rightarrow> (a, a \<noteq> zeroActor))"

section \<open>Bearer authentication\<close>

definition bearerToken :: "string \<Rightarrow> string + string" where
  "bearerToken header =
     (if header = '''' then Inl ''missing Authorization header''
      else if length header < 7 \<or> toLower (take 7 header) \<noteq> ''bearer ''
      then Inl (''Authorization header must be '' @ [CHR 0x27] @ ''Bearer <token>'' @ [CHR 0x27])
      else let tok = trimSpace (drop 7 header) in
        if tok = '''' then Inl ''bearer token is empty'' else Inr tok)"

definition decorateAuthed :: "request_ctx \<Rightarrow> Claims \<Rightarrow> request_ctx" where
  "decorateAuthed ctx claims =
     WithActor (ctx\<lparr>cxUserID := Some (cSubject claims), cxClaims := Some claims\<rparr>)
       (zeroActor\<lparr>acType := ActorTypeUser, acUserID := ActorUserID claims, acTenantID := ActorTenantID claims\<rparr>)"

definition RequireAuth :: "JWTLib \<Rightarrow> JWTService \<Rightarrow> middleware" where
  "RequireAuth L j r =
     (case bearerToken (rqAuthorization r) of
        Inl msg \<Rightarrow> Stop (Unauthenticated msg)
      | Inr tok \<Rightarrow> (case ParseAccess L j tok of
          Inl err \<Rightarrow> Stop (Unauthenticated ''invalid token'')
        | Inr claims \<Rightarrow> Next (r\<lparr>rqCtx := decorateAuthed (rqCtx r) claims\<rparr>)))"

text \<open>The WebSocket form; \<^verbatim>\<open>rawDec\<close> and \<^verbatim>\<open>padDec\<close> are the two base64url decoders.\<close>

definition decodeBearerSubprotocol :: "(string \<Rightarrow> string option) \<Rightarrow> (string \<Rightarrow> string option) \<Rightarrow> string \<Rightarrow> string \<Rightarrow> string + string" where
  "decodeBearerSubprotocol rawDec padDec entry pre =
     (let suf = (if hasPrefix entry pre then drop (length pre) entry else entry) in
      if suf = '''' then Inl ''bearer token is empty''
      else (case (case rawDec suf of Some d \<Rightarrow> Some d | None \<Rightarrow> padDec suf) of
          None \<Rightarrow> Inl ''invalid bearer subprotocol payload''
        | Some d \<Rightarrow> let tok = trimSpace d in if tok = '''' then Inl ''bearer token is empty'' else Inr tok))"

text \<open>The inner loop: the token found so far, and the entries kept.\<close>

fun stripParts :: "(string \<Rightarrow> string + string) \<Rightarrow> string \<Rightarrow> string option \<Rightarrow> string list \<Rightarrow> string option \<times> string list" where
  "stripParts decode pre found [] = (found, [])"
| "stripParts decode pre found (p # ps) =
     (let entry = trimSpace p in
      if entry = '''' then stripParts decode pre found ps
      else if found = None \<and> hasPrefix entry pre
      then (case decode entry of
          Inr t \<Rightarrow> stripParts decode pre (Some t) ps
        | Inl _ \<Rightarrow> stripParts decode pre found ps)
      else (case stripParts decode pre found ps of (f, kept) \<Rightarrow> (f, entry # kept)))"

fun joinCommas :: "string list \<Rightarrow> string" where
  "joinCommas [] = ''''"
| "joinCommas [s] = s"
| "joinCommas (s # ss) = s @ '', '' @ joinCommas ss"

fun stripValues :: "(string \<Rightarrow> string + string) \<Rightarrow> string \<Rightarrow> string option \<Rightarrow> string list \<Rightarrow> string option \<times> string list" where
  "stripValues decode pre found [] = (found, [])"
| "stripValues decode pre found (raw # vs) =
     (case stripParts decode pre found (splitCommas raw) of
        (found', kept) \<Rightarrow> (case stripValues decode pre found' vs of
          (f, rewritten) \<Rightarrow> (f, (if kept \<noteq> [] then [joinCommas kept] else []) @ rewritten)))"

definition stripBearerSubprotocol :: "(string \<Rightarrow> string option) \<Rightarrow> (string \<Rightarrow> string option) \<Rightarrow> string list \<Rightarrow> string
    \<Rightarrow> string option \<times> string list" where
  "stripBearerSubprotocol rawDec padDec vals pre =
     (if vals = [] then (None, vals)
      else stripValues (\<lambda>entry. decodeBearerSubprotocol rawDec padDec entry pre) pre None vals)"

definition tokenFromRequest :: "(string \<Rightarrow> string option) \<Rightarrow> (string \<Rightarrow> string option) \<Rightarrow> request \<Rightarrow> string
    \<Rightarrow> (string + string) \<times> request" where
  "tokenFromRequest rawDec padDec r pre =
     (if rqAuthorization r \<noteq> '''' then (bearerToken (rqAuthorization r), r)
      else (case stripBearerSubprotocol rawDec padDec (rqProtocols r) pre of
          (Some tok, rewritten) \<Rightarrow> (Inr tok, r\<lparr>rqProtocols := rewritten\<rparr>)
        | (None, rewritten) \<Rightarrow> (Inl ''missing Authorization header'', r\<lparr>rqProtocols := rewritten\<rparr>)))"

definition RequireAuthWS :: "(string \<Rightarrow> string option) \<Rightarrow> (string \<Rightarrow> string option) \<Rightarrow> JWTLib \<Rightarrow> JWTService \<Rightarrow> string
    \<Rightarrow> middleware option" where
  "RequireAuthWS rawDec padDec L j pre =
     (if pre = '''' then None
      else Some (\<lambda>r. case tokenFromRequest rawDec padDec r pre of
          (Inl msg, r') \<Rightarrow> Stop (Unauthenticated msg)
        | (Inr tok, r') \<Rightarrow> (case ParseAccess L j tok of
            Inl err \<Rightarrow> Stop (Unauthenticated ''invalid token'')
          | Inr claims \<Rightarrow> Next (r'\<lparr>rqCtx := decorateAuthed (rqCtx r') claims\<rparr>))))"

section \<open>Tenant gates\<close>

definition TenantFromContext :: "request_ctx \<Rightarrow> ID \<times> bool" where
  "TenantFromContext ctx = (case cxTenant ctx of Some i \<Rightarrow> (i, True) | None \<Rightarrow> (zeroID, False))"

definition tokenFitsTenant :: "Claims option \<Rightarrow> string \<Rightarrow> bool \<Rightarrow> bool \<Rightarrow> bool" where
  "tokenFitsTenant claims routed guests impersonators =
     (case claims of
        None \<Rightarrow> False
      | Some c \<Rightarrow>
          if cTenantID c \<noteq> routed then False
          else if Impersonated c then impersonators
          else if Entered c then guests
          else True)"

definition requireTenant :: "resolver option \<Rightarrow> bool \<Rightarrow> bool \<Rightarrow> middleware option" where
  "requireTenant resolve allowEntered allowImpersonated =
     (case resolve of
        None \<Rightarrow> None
      | Some res \<Rightarrow> Some (\<lambda>r.
          let claims = AccessClaimsFromContext (rqCtx r); (routed, ok) = res r in
          if \<not> ok \<or> \<not> Valid routed \<or> \<not> tokenFitsTenant claims (IDString routed) allowEntered allowImpersonated
          then Stop (Unauthenticated ''invalid token'')
          else Next (r\<lparr>rqCtx := (rqCtx r)\<lparr>cxTenant := Some routed\<rparr>\<rparr>)))"

definition RequireTenant :: "resolver option \<Rightarrow> middleware option" where
  "RequireTenant resolve = requireTenant resolve False False"

definition RequireTenantAllowEntered :: "resolver option \<Rightarrow> middleware option" where
  "RequireTenantAllowEntered resolve = requireTenant resolve True False"

definition RequireTenantAllowImpersonated :: "resolver option \<Rightarrow> middleware option" where
  "RequireTenantAllowImpersonated resolve = requireTenant resolve False True"

definition RequireTenantAllowEnteredOrImpersonated :: "resolver option \<Rightarrow> middleware option" where
  "RequireTenantAllowEnteredOrImpersonated resolve = requireTenant resolve True True"

definition ImpersonatedFromContext :: "request_ctx \<Rightarrow> ID \<times> string \<times> bool" where
  "ImpersonatedFromContext ctx =
     (case AccessClaimsFromContext ctx of
        None \<Rightarrow> (zeroID, '''', False)
      | Some c \<Rightarrow> if \<not> Impersonated c then (zeroID, '''', False) else (NewID (cHomeTenantID c), cActorID c, True))"

definition EnteredFromContext :: "request_ctx \<Rightarrow> ID \<times> bool" where
  "EnteredFromContext ctx =
     (case AccessClaimsFromContext ctx of
        None \<Rightarrow> (zeroID, False)
      | Some c \<Rightarrow> if \<not> Entered c then (zeroID, False) else (NewID (cHomeTenantID c), True))"

definition FixedRequestTenant :: "ID \<Rightarrow> resolver option" where
  "FixedRequestTenant i = (if \<not> Valid i then None else Some (\<lambda>_. (i, True)))"

definition PinTenant :: "resolver option \<Rightarrow> middleware option" where
  "PinTenant resolve =
     (case resolve of
        None \<Rightarrow> None
      | Some res \<Rightarrow> Some (\<lambda>r.
          let (routed, ok) = res r in
          if \<not> ok \<or> \<not> Valid routed then Stop NotFoundResponse
          else Next (r\<lparr>rqCtx := (rqCtx r)\<lparr>cxTenant := Some routed\<rparr>\<rparr>)))"

section \<open>Service accounts\<close>

datatype validator_err = ErrInvalidCredential | ValidatorFailure string

definition GetPrincipal :: "request_ctx \<Rightarrow> Principal option" where
  "GetPrincipal ctx = (case cxPrincipal ctx of Some p \<Rightarrow> if prID p \<noteq> '''' then Some p else None | None \<Rightarrow> None)"

definition RequireServiceAccount :: "(string \<Rightarrow> validator_err + Principal) \<Rightarrow> middleware" where
  "RequireServiceAccount validate r =
     (case bearerToken (rqAuthorization r) of
        Inl msg \<Rightarrow> Stop (ScimErrorResponse 401 msg '''')
      | Inr tok \<Rightarrow> (case validate tok of
          Inl ErrInvalidCredential \<Rightarrow> Stop (ScimErrorResponse 401 ''invalid bearer token'' '''')
        | Inl _ \<Rightarrow> Stop (ScimErrorResponse 500 ''service-account validation failed'' '''')
        | Inr p \<Rightarrow> Next (r\<lparr>rqCtx := WithActor ((rqCtx r)\<lparr>cxPrincipal := Some p\<rparr>)
            (ActorService (prID p) (prName p) (FromStored (prTenantID p)))\<rparr>)))"

definition TenantFromRoutedContext :: resolver where
  "TenantFromRoutedContext r = TenantFromContext (rqCtx r)"

definition tenantOfPrincipal :: "request_ctx \<Rightarrow> ID \<times> bool" where
  "tenantOfPrincipal ctx =
     (case GetPrincipal ctx of None \<Rightarrow> (zeroID, False) | Some p \<Rightarrow> (FromStored (prTenantID p), True))"

definition TenantFromServiceAccount :: resolver where
  "TenantFromServiceAccount r = tenantOfPrincipal (rqCtx r)"

section \<open>Source address and cookies\<close>

definition lastIndexOf :: "char \<Rightarrow> string \<Rightarrow> nat option" where
  "lastIndexOf c s = (if c \<in> set s then Some (length s - 1 - length (takeWhile (\<lambda>x. x \<noteq> c) (rev s))) else None)"

definition firstIndexOf :: "char \<Rightarrow> string \<Rightarrow> nat option" where
  "firstIndexOf c s = (if c \<in> set s then Some (length (takeWhile (\<lambda>x. x \<noteq> c) s)) else None)"

definition IPFromRequest :: "request \<Rightarrow> string" where
  "IPFromRequest r =
     (let xff = rqForwardedFor r in
      if xff \<noteq> ''''
      then (case firstIndexOf (CHR '','') xff of
          Some i \<Rightarrow> if i > 0 then trimSpace (take i xff) else trimSpace xff
        | None \<Rightarrow> trimSpace xff)
      else (case lastIndexOf (CHR '':'') (rqRemoteAddr r) of
          Some i \<Rightarrow> if i > 0 then take i (rqRemoteAddr r) else rqRemoteAddr r
        | None \<Rightarrow> rqRemoteAddr r))"

definition RemoteIP :: "(request \<Rightarrow> string) option \<Rightarrow> middleware" where
  "RemoteIP extract r =
     Next (r\<lparr>rqCtx := (rqCtx r)\<lparr>cxRemoteIP := Some ((case extract of Some f \<Rightarrow> f | None \<Rightarrow> IPFromRequest) r)\<rparr>\<rparr>)"

definition GetRemoteIP :: "request_ctx \<Rightarrow> string" where
  "GetRemoteIP ctx = (case cxRemoteIP ctx of Some v \<Rightarrow> v | None \<Rightarrow> '''')"

definition ReadNamedCookie :: "string \<Rightarrow> string \<Rightarrow> middleware" where
  "ReadNamedCookie slot cookieName r =
     Next (r\<lparr>rqCtx := (rqCtx r)\<lparr>cxCookies :=
       AList.update slot (case map_of (rqCookies r) cookieName of Some v \<Rightarrow> v | None \<Rightarrow> '''') (cxCookies (rqCtx r))\<rparr>\<rparr>)"

definition NamedCookieValue :: "request_ctx \<Rightarrow> string \<Rightarrow> string \<times> bool" where
  "NamedCookieValue ctx slot = (case map_of (cxCookies ctx) slot of Some v \<Rightarrow> (v, v \<noteq> '''') | None \<Rightarrow> ('''', False))"

end
