(* ===== verification/Espresso_Audit.thy ===== *)
theory Espresso_Audit
  imports Espresso_Context
begin

text \<open>
  Package \<^verbatim>\<open>espresso\<close>, the mutation audit (\<^verbatim>\<open>audit.go\<close>): the middleware that emits an
  event after a 2xx answer, who it names as the actor and which tenant's log it lands in.
  The handler behind it is a function from the request to a reply: what it wrote, in order,
  and what it left in the two slots of the context.
\<close>

section \<open>The actor and the scope of an event\<close>

record Auditor =
  auEmail :: "(string \<Rightarrow> string option) option"
  auIP :: "(request \<Rightarrow> string) option"

record MutationContext =
  mcAction :: string
  mcResourceType :: string
  mcResourceIDFrom :: string

definition captureActor :: "Auditor \<Rightarrow> request_ctx \<Rightarrow> request \<Rightarrow> Actor" where
  "captureActor a ctx r =
     (let ip = (case auIP a of Some extract \<Rightarrow> extract | None \<Rightarrow> IPFromRequest) r; ctxActor = ActorFromContext ctx in
      if acType ctxActor \<noteq> '''' \<and> acType ctxActor \<noteq> ActorTypeUser then ctxActor\<lparr>acIP := ip\<rparr>
      else
        let userID = fst (GetUserID ctx); tenantID = acTenantID ctxActor;
            (userID, tenantID) =
              (if userID = ''''
               then (case AuditActorFromContext ctx of
                   (stashed, ok) \<Rightarrow>
                     if ok then (acUserID stashed, if acTenantID stashed \<noteq> '''' then acTenantID stashed else tenantID)
                     else (userID, tenantID))
               else (userID, tenantID));
            email = (case auEmail a of
                Some lookup \<Rightarrow> if userID \<noteq> '''' then (case lookup userID of Some e \<Rightarrow> e | None \<Rightarrow> '''') else ''''
              | None \<Rightarrow> '''')
        in \<lparr>acType = ActorTypeUser, acUserID = userID, acEmail = email, acName = '''', acIP = ip, acTenantID = tenantID\<rparr>)"

definition eventScope :: "request_ctx \<Rightarrow> Actor \<Rightarrow> string" where
  "eventScope ctx actor =
     (case TenantFromContext ctx of
        (routed, ok) \<Rightarrow>
          if ok then IDString routed
          else if acType actor = ActorTypeServiceAccount then acTenantID actor
          else '''')"

section \<open>The middleware\<close>

datatype written = WriteHeader int | WriteBody string

text \<open>The status and whether a header was written.\<close>

fun statusWrite :: "int \<times> bool \<Rightarrow> written \<Rightarrow> int \<times> bool" where
  "statusWrite (status, wrote) (WriteHeader n) = (if wrote then (status, wrote) else (n, True))"
| "statusWrite (status, wrote) (WriteBody b) = (if \<not> wrote then (200, True) else (status, wrote))"

record reply =
  rpWrites :: "written list"
  rpActorSlot :: Actor
  rpClusterID :: string

definition replyStatus :: "reply \<Rightarrow> int" where
  "replyStatus rep = fst (foldl statusWrite (200, False) (rpWrites rep))"

text \<open>\<^verbatim>\<open>eventID\<close>, \<^verbatim>\<open>at\<close> and \<^verbatim>\<open>requestID\<close> are the fresh id, the clock and the framework's request id.\<close>

definition auditFor :: "Auditor option \<Rightarrow> MutationContext \<Rightarrow> string \<Rightarrow> go_time \<Rightarrow> string \<Rightarrow> (request \<Rightarrow> reply) \<Rightarrow> request
    \<Rightarrow> reply \<times> Event option" where
  "auditFor auditor mc eventID at requestID handler r =
     (case auditor of
        None \<Rightarrow> (handler r, None)
      | Some a \<Rightarrow>
          let ctx = WithAuditActorCapture (WithClusterIDCapture (rqCtx r)); r = r\<lparr>rqCtx := ctx\<rparr>; rep = handler r in
          if replyStatus rep < 200 \<or> replyStatus rep \<ge> 300 then (rep, None)
          else
            let ctx = ctx\<lparr>cxActorSlot := Some (rpActorSlot rep), axClusterID := Some (rpClusterID rep)\<rparr>;
                actor = captureActor a ctx r;
                resourceID = (if mcResourceIDFrom mc \<noteq> ''''
                  then (case map_of (rqPathValues r) (mcResourceIDFrom mc) of Some v \<Rightarrow> v | None \<Rightarrow> '''') else '''')
            in (rep, Some
              \<lparr>evID = eventID, evAt = at, evActor = actor, evAction = mcAction mc, evResourceType = mcResourceType mc,
               evResourceID = resourceID, evRequestID = requestID, evClusterID = ClusterIDFromContext ctx, evBefore = '''',
               evAfter = '''', evPrevHash = '''', evHash = '''', evCanonicalVersion = 0, evTenantID = eventScope ctx actor,
               evRowSalt = '''', evCommitments = \<lparr>ctActorEmail = '''', ctActorName = '''', ctActorIP = '''',
                 ctBefore = '''', ctAfter = ''''\<rparr>\<rparr>))"

section \<open>Properties\<close>

lemma statusWrite_first [simp]: "foldl statusWrite (n, True) ws = (n, True)"
proof (induction ws)
  case (Cons w ws)
  then show ?case by (cases w) auto
qed simp

lemma replyStatus_first:
  "rpWrites rep = [] \<Longrightarrow> replyStatus rep = 200"
  "rpWrites rep = WriteHeader n # ws \<Longrightarrow> replyStatus rep = n"
  "rpWrites rep = WriteBody b # ws \<Longrightarrow> replyStatus rep = 200"
  by (simp_all add: replyStatus_def)

lemma captureActor_service:
  assumes "axActor ctx = Some (ActorService sa name t)"
  shows "acType (captureActor a ctx r) = ActorTypeServiceAccount" "acUserID (captureActor a ctx r) = sa"
    "acName (captureActor a ctx r) = name" "acTenantID (captureActor a ctx r) = IDString t"
  using assms by (simp_all add: captureActor_def ActorFromContext_def ActorService_def zeroActor_def actor_types)

lemma eventScope_eq:
  "eventScope ctx actor = (case cxTenant ctx of Some t \<Rightarrow> IDString t
     | None \<Rightarrow> if acType actor = ActorTypeServiceAccount then acTenantID actor else '''')"
  by (simp add: eventScope_def TenantFromContext_def split: option.splits)

lemma auditFor_emits:
  assumes "auditFor (Some a) mc i at rid handler r = (rep, ev)"
  shows "rep = handler (r\<lparr>rqCtx := WithAuditActorCapture (WithClusterIDCapture (rqCtx r))\<rparr>)"
    and "ev \<noteq> None \<longleftrightarrow> 200 \<le> replyStatus rep \<and> replyStatus rep < 300"
    and "ev = Some e \<Longrightarrow> \<exists>ctx r'. axActor ctx = axActor (rqCtx r) \<and> cxTenant ctx = cxTenant (rqCtx r) \<and>
      evActor e = captureActor a ctx r' \<and> evTenantID e = eventScope ctx (evActor e)"
proof -
  show "rep = handler (r\<lparr>rqCtx := WithAuditActorCapture (WithClusterIDCapture (rqCtx r))\<rparr>)"
    and "ev \<noteq> None \<longleftrightarrow> 200 \<le> replyStatus rep \<and> replyStatus rep < 300"
    using assms by (auto simp: auditFor_def Let_def split: if_splits)
  assume e: "ev = Some e"
  let ?c = "WithAuditActorCapture (WithClusterIDCapture (rqCtx r))"
  let ?ctx = "?c\<lparr>cxActorSlot := Some (rpActorSlot rep), axClusterID := Some (rpClusterID rep)\<rparr>"
  have "evActor e = captureActor a ?ctx (r\<lparr>rqCtx := ?c\<rparr>)" "evTenantID e = eventScope ?ctx (evActor e)"
    using assms e by (auto simp: auditFor_def Let_def split: if_splits)
  moreover have "axActor ?ctx = axActor (rqCtx r)" "cxTenant ?ctx = cxTenant (rqCtx r)"
    by (simp_all add: WithAuditActorCapture_def WithClusterIDCapture_def)
  ultimately show "\<exists>ctx r'. axActor ctx = axActor (rqCtx r) \<and> cxTenant ctx = cxTenant (rqCtx r) \<and>
      evActor e = captureActor a ctx r' \<and> evTenantID e = eventScope ctx (evActor e)" by blast
qed

text \<open>
  Which rows a mutation leaves. A row is emitted exactly when the status the client saw,
  the first one written, is 2xx, and the handler's reply is passed on untouched. Its scope
  is the tenant a gate outside pinned; with none pinned it is the service account's own
  tenant, and for a user it is empty, whatever the token says. Behind the service-account
  gate the actor is that account.
\<close>

theorem audit_row_scope:
  assumes "auditFor (Some a) mc i at rid handler r = (rep, ev)"
  shows "rep = handler (r\<lparr>rqCtx := WithAuditActorCapture (WithClusterIDCapture (rqCtx r))\<rparr>) \<and>
    (ev \<noteq> None \<longleftrightarrow> 200 \<le> replyStatus rep \<and> replyStatus rep < 300) \<and>
    (rpWrites rep = [] \<longrightarrow> replyStatus rep = 200) \<and>
    (\<forall>ws n. rpWrites rep = WriteHeader n # ws \<longrightarrow> replyStatus rep = n) \<and>
    (\<forall>ws b. rpWrites rep = WriteBody b # ws \<longrightarrow> replyStatus rep = 200) \<and>
    (\<forall>e. ev = Some e \<longrightarrow>
       (\<forall>t. cxTenant (rqCtx r) = Some t \<longrightarrow> evTenantID e = IDString t) \<and>
       (cxTenant (rqCtx r) = None \<and> acType (evActor e) = ActorTypeServiceAccount \<longrightarrow> evTenantID e = acTenantID (evActor e)) \<and>
       (cxTenant (rqCtx r) = None \<and> acType (evActor e) = ActorTypeUser \<longrightarrow> evTenantID e = '''') \<and>
       (\<forall>sa name t. axActor (rqCtx r) = Some (ActorService sa name t) \<longrightarrow>
          acUserID (evActor e) = sa \<and> acName (evActor e) = name \<and> acTenantID (evActor e) = IDString t \<and>
          acType (evActor e) = ActorTypeServiceAccount))"
proof -
  note em = auditFor_emits [OF assms]
  have "(\<forall>t. cxTenant (rqCtx r) = Some t \<longrightarrow> evTenantID e = IDString t) \<and>
       (cxTenant (rqCtx r) = None \<and> acType (evActor e) = ActorTypeServiceAccount \<longrightarrow> evTenantID e = acTenantID (evActor e)) \<and>
       (cxTenant (rqCtx r) = None \<and> acType (evActor e) = ActorTypeUser \<longrightarrow> evTenantID e = '''') \<and>
       (\<forall>sa name t. axActor (rqCtx r) = Some (ActorService sa name t) \<longrightarrow>
          acUserID (evActor e) = sa \<and> acName (evActor e) = name \<and> acTenantID (evActor e) = IDString t \<and>
          acType (evActor e) = ActorTypeServiceAccount)" if e: "ev = Some e" for e
  proof -
    obtain ctx r' where c: "axActor ctx = axActor (rqCtx r)" "cxTenant ctx = cxTenant (rqCtx r)"
      "evActor e = captureActor a ctx r'" "evTenantID e = eventScope ctx (evActor e)" using em(3) [OF e] by blast
    then show ?thesis
      using captureActor_service [of ctx _ _ _ a r'] by (auto simp: eventScope_eq actor_types)
  qed
  moreover have "rpWrites rep = [] \<longrightarrow> replyStatus rep = 200" "\<forall>ws n. rpWrites rep = WriteHeader n # ws \<longrightarrow> replyStatus rep = n"
    "\<forall>ws b. rpWrites rep = WriteBody b # ws \<longrightarrow> replyStatus rep = 200"
    by (simp_all add: replyStatus_first)
  ultimately show ?thesis using em(1,2) by blast
qed

definition emptyCtx :: request_ctx where
  "emptyCtx = \<lparr>axActor = None, axClusterID = None, cxUserID = None, cxClaims = None, cxActorSlot = None, cxTenant = None,
     cxPrincipal = None, cxRemoteIP = None, cxCookies = []\<rparr>"

definition exampleRequest :: "string \<Rightarrow> request" where
  "exampleRequest authorization =
     \<lparr>rqCtx = emptyCtx, rqAuthorization = authorization, rqForwardedFor = ''1.2.3.4, 9.9.9.9'', rqProtocols = [],
      rqRemoteAddr = ''10.0.0.1:80'', rqMethod = ''POST'', rqPath = ''/things'', rqPathValues = [], rqCookies = []\<rparr>"

definition noContent :: "request \<Rightarrow> reply" where
  "noContent r = \<lparr>rpWrites = [WriteHeader 204], rpActorSlot = zeroActor, rpClusterID = ''''\<rparr>"

definition exampleMutation :: MutationContext where
  "exampleMutation = \<lparr>mcAction = ''thing.create'', mcResourceType = ''thing'', mcResourceIDFrom = ''''\<rparr>"

definition plainAuditor :: Auditor where
  "plainAuditor = \<lparr>auEmail = None, auIP = None\<rparr>"

theorem audit_row_scope_witness:
  "\<exists>e. snd (auditFor (Some plainAuditor) exampleMutation ''e'' 7 ''r'' noContent
       ((exampleRequest '''')\<lparr>rqCtx := emptyCtx\<lparr>axActor := Some (ActorService ''sa1'' ''okta'' (NewID ''acme''))\<rparr>\<rparr>)) = Some e \<and>
     evTenantID e = ''acme'' \<and> acUserID (evActor e) = ''sa1''"
proof -
  let ?r = "(exampleRequest '''')\<lparr>rqCtx := emptyCtx\<lparr>axActor := Some (ActorService ''sa1'' ''okta'' (NewID ''acme''))\<rparr>\<rparr>"
  obtain rep ev where f: "auditFor (Some plainAuditor) exampleMutation ''e'' 7 ''r'' noContent ?r = (rep, ev)"
    by (cases "auditFor (Some plainAuditor) exampleMutation ''e'' 7 ''r'' noContent ?r")
  note s = audit_row_scope [OF f]
  have "replyStatus rep = 204" using s by (simp add: noContent_def replyStatus_first(2))
  then obtain e where e: "ev = Some e" using s by auto
  have "acTenantID (evActor e) = ''acme''" "acUserID (evActor e) = ''sa1''" "acType (evActor e) = ActorTypeServiceAccount"
    using s e by (auto simp: id_defs)
  then show ?thesis using s e f by (simp add: emptyCtx_def)
qed

text \<open>
  Whom the row of an impersonated request blames. Bearer authentication stashes the
  human behind an impersonated token as the actor, and that is what a service-layer
  emission reads. The mutation middleware rebuilds the actor of a user from the subject, so
  its row names the impersonated user, paired with the human's home tenant; the human's id
  is in neither. For every other token the two agree.
\<close>

theorem captureActor_blames_the_user:
  assumes "RequireAuth L j r = Next r'" "ParseAccess L j tok = Inr c" "bearerToken (rqAuthorization r) = Inr tok"
  shows "acUserID (ActorFromContext (rqCtx r')) = ActorUserID c \<and>
    acUserID (captureActor a (rqCtx r') r') = cSubject c \<and>
    acTenantID (captureActor a (rqCtx r') r') = ActorTenantID c \<and>
    (Impersonated c \<longrightarrow> acUserID (captureActor a (rqCtx r') r') \<noteq> ActorUserID c \<and>
       acTenantID (captureActor a (rqCtx r') r') \<noteq> cTenantID c) \<and>
    (\<not> Impersonated c \<longrightarrow> acUserID (captureActor a (rqCtx r') r') = acUserID (ActorFromContext (rqCtx r')))"
proof -
  have r': "r' = r\<lparr>rqCtx := decorateAuthed (rqCtx r) c\<rparr>" using assms by (simp add: RequireAuth_def)
  have "checkAccessClaims c = Inr c" using assms(2)
    by (auto simp: ParseAccess_def checkAccessClaims_Inr_iff split: sum.splits)
  then have "cSubject c \<noteq> ''''" "cActorID c = '''' \<or> cHomeTenantID c \<noteq> '''' \<and> cActorID c \<noteq> cSubject c"
    "cHomeTenantID c = '''' \<or> cHomeTenantID c \<noteq> cTenantID c"
    by (auto simp: checkAccessClaims_Inr_iff)
  then show ?thesis
    by (auto simp: r' decorateAuthed_def WithActor_def ActorFromContext_def captureActor_def GetUserID_def zeroActor_def
        actor_types Impersonated_def ActorUserID_def ActorTenantID_def Let_def)
qed

definition exampleImpersonated :: Claims where
  "exampleImpersonated = \<lparr>cAuthTime = 90, cACR = ''acr'', cAMR = [''pwd''], cPurpose = purposeAccess, cTenantID = ''acme'',
     cHomeTenantID = ''plat'', cActorID = ''ops'', cSubject = ''bob'', cIssuer = ''tamper'', cIssuedAt = 100, cExpiresAt = 400\<rparr>"

lemma exampleImpersonated_parses:
  "ParseAccess (oneTokenLib exampleImpersonated) (exampleService 200) ''tok'' = Inr exampleImpersonated"
  "bearerToken ''Bearer tok'' = Inr ''tok''"
  by (simp_all add: ParseAccess_def parseClaims_def checkAccessClaims_def exampleImpersonated_def exampleService_def
      oneTokenLib_def purposeAccess_def) code_simp

theorem captureActor_blames_the_user_witness:
  "\<exists>r'. RequireAuth (oneTokenLib exampleImpersonated) (exampleService 200) (exampleRequest ''Bearer tok'') = Next r' \<and>
     acUserID (ActorFromContext (rqCtx r')) = ''ops'' \<and> acUserID (captureActor plainAuditor (rqCtx r') r') = ''bob''"
proof -
  have a: "rqAuthorization (exampleRequest ''Bearer tok'') = ''Bearer tok''" by (simp add: exampleRequest_def)
  then obtain r' where r': "RequireAuth (oneTokenLib exampleImpersonated) (exampleService 200) (exampleRequest ''Bearer tok'') = Next r'"
    using exampleImpersonated_parses by (simp add: RequireAuth_def)
  from captureActor_blames_the_user [OF r' exampleImpersonated_parses(1)] a exampleImpersonated_parses(2) r'
  show ?thesis by (simp add: ActorUserID_def exampleImpersonated_def)
qed

end
