(* ===== verification/Espresso_Gates.thy ===== *)
theory Espresso_Gates
  imports Espresso_Audit Authz_RBAC Tenant_Domain
begin

text \<open>
  Package \<^verbatim>\<open>espresso\<close>, the gates a route is stacked from: tenant status
  (\<^verbatim>\<open>activetenant.go\<close>), the decision gate in front of an \<^verbatim>\<open>Authorizer\<close> (\<^verbatim>\<open>decision.go\<close>),
  entitlements (\<^verbatim>\<open>routes.go\<close>) and rate limiting (\<^verbatim>\<open>throttle.go\<close>). Stores, the engine and the
  limiter are functions in the gate's own record; an app's writer is the response it
  writes, and one that was left out is \<^verbatim>\<open>None\<close>. A constructor that panics is \<^verbatim>\<open>None\<close>.
  Durations count nanoseconds.
\<close>

section \<open>Tenant status\<close>

record ActiveTenantGate =
  agStore :: "(string \<Rightarrow> tenant_err + Descriptor) option"
  agLabel :: string
  agWriteNotActive :: "response option"
  agWriteError :: "response option"

definition RequireActiveTenant :: "ActiveTenantGate \<Rightarrow> middleware option" where
  "RequireActiveTenant g =
     (case (agStore g, agWriteNotActive g, agWriteError g) of
        (Some byID, Some notActive, Some storeError) \<Rightarrow>
          if agLabel g = '''' then None
          else Some (\<lambda>r.
            let (i, ok) = TenantFromContext (rqCtx r) in
            if \<not> ok then Stop (ConfigError (''middleware: '' @ agLabel g @ '' gate ran without a pinned tenant''))
            else if IsSingle i then Next r
            else (case byID (IDString i) of
                Inl err \<Rightarrow> if isNotFound err then Stop notActive else Stop storeError
              | Inr desc \<Rightarrow> if descStatus desc \<noteq> StatusActive then Stop notActive else Next r))
      | _ \<Rightarrow> None)"

section \<open>The decision gate\<close>

record DecisionGate =
  dgAuthorizer :: "(ID \<Rightarrow> Subject \<Rightarrow> Action \<Rightarrow> Resource \<Rightarrow> authz_err + Decision) option"
  dgLabel :: string
  dgTenant :: "resolver option"
  dgAllowEntered :: bool
  dgAllowImpersonated :: bool
  dgSubjectType :: string
  dgResourceType :: string
  dgResourceIDFrom :: string
  dgAction :: Action
  dgVisibilityAction :: Action
  dgWriteNotVisible :: "response option"
  dgWriteDenied :: "response option"
  dgWriteProbeError :: "response option"
  dgUserExists :: "(ID \<Rightarrow> string \<Rightarrow> string + bool) option"
  dgWriteGhost :: "response option"

definition misconfigured :: "DecisionGate \<Rightarrow> bool" where
  "misconfigured g =
     (Option.is_none (dgAuthorizer g) \<or> dgAction g = '''' \<or> Option.is_none (dgWriteDenied g) \<or>
      (dgVisibilityAction g \<noteq> '''' \<and> Option.is_none (dgWriteNotVisible g)) \<or>
      (\<not> Option.is_none (dgUserExists g) \<and> Option.is_none (dgWriteGhost g)))"

definition checkFailed :: "DecisionGate \<Rightarrow> response" where
  "checkFailed g = CheckFailed (''middleware: '' @ dgLabel g @ '' check failed'')"

definition pathValue :: "request \<Rightarrow> string \<Rightarrow> string" where
  "pathValue r key = (case map_of (rqPathValues r) key of Some v \<Rightarrow> v | None \<Rightarrow> '''')"

text \<open>The deny path of check 2: a ghost is told apart from a user without the role.\<close>

definition denyOrGhost :: "DecisionGate \<Rightarrow> ID \<Rightarrow> string \<Rightarrow> response" where
  "denyOrGhost g home userID =
     (case dgUserExists g of
        None \<Rightarrow> the (dgWriteDenied g)
      | Some userExists \<Rightarrow> (case userExists home userID of
          Inl exErr \<Rightarrow> (case dgWriteProbeError g of Some w \<Rightarrow> w | None \<Rightarrow> the (dgWriteDenied g))
        | Inr exists \<Rightarrow> if \<not> exists then the (dgWriteGhost g) else the (dgWriteDenied g)))"

text \<open>The two checks over one subject and resource.\<close>

definition decide :: "DecisionGate \<Rightarrow> ID \<Rightarrow> Subject \<Rightarrow> Resource \<Rightarrow> request \<Rightarrow> outcome" where
  "decide g scope sub res r =
     (let check = the (dgAuthorizer g);
          tier = (case check scope sub (dgAction g) res of
              Inl err \<Rightarrow> Stop (checkFailed g)
            | Inr decision \<Rightarrow>
                if \<not> Allowed decision then Stop (denyOrGhost g (subTenant sub) (subID sub)) else Next r)
      in if dgVisibilityAction g \<noteq> ''''
         then (case check scope sub (dgVisibilityAction g) res of
             Inl err \<Rightarrow> Stop (checkFailed g)
           | Inr visible \<Rightarrow>
               if \<not> Allowed visible then Stop (the (dgWriteNotVisible g))
               else if dgVisibilityAction g = dgAction g then Next r
               else tier)
         else tier)"

definition RequireDecision :: "DecisionGate \<Rightarrow> middleware option" where
  "RequireDecision g =
     (case dgTenant g of
        None \<Rightarrow> None
      | Some resolve \<Rightarrow> Some (\<lambda>r.
          let (userID, ok) = GetUserID (rqCtx r) in
          if \<not> ok then Stop (Unauthenticated ''missing authentication'')
          else if misconfigured g
          then Stop (ConfigError (''middleware: '' @ dgLabel g @ '' gate misconfigured (nil authorizer or unmapped min role)''))
          else
            let claims = AccessClaimsFromContext (rqCtx r); (scope, resolved) = resolve r in
            if \<not> resolved \<or> \<not> Valid scope \<or>
               \<not> tokenFitsTenant claims (IDString scope) (dgAllowEntered g) (dgAllowImpersonated g)
            then Stop (Unauthenticated ''invalid token'')
            else
              let home = (case EnteredFromContext (rqCtx r) of (origin, entered) \<Rightarrow> if entered then origin else scope);
                  r = r\<lparr>rqCtx := (rqCtx r)\<lparr>cxTenant := Some scope\<rparr>\<rparr>;
                  resourceID = (if dgResourceIDFrom g \<noteq> '''' then pathValue r (dgResourceIDFrom g) else '''')
              in if dgResourceIDFrom g \<noteq> '''' \<and> resourceID = ''''
                 then Stop (ConfigError (''middleware: '' @ dgResourceType g @ '' id path param missing''))
                 else decide g scope \<lparr>subTenant = home, subType = dgSubjectType g, subID = userID\<rparr>
                        \<lparr>resType = dgResourceType g, resID = resourceID\<rparr> r))"

section \<open>Entitlements\<close>

type_synonym Capability = string

definition CapabilitySSO :: Capability where "CapabilitySSO = ''sso''"
definition CapabilitySCIM :: Capability where "CapabilitySCIM = ''scim''"

definition capabilityAllowed :: "Capability \<Rightarrow> Entitlements \<Rightarrow> bool" where
  "capabilityAllowed c e =
     (if c = CapabilitySSO then SSOEnabled e
      else if c = CapabilitySCIM then SCIMEnabled e
      else False)"

definition writeEntitlementDenied :: "Capability \<Rightarrow> response" where
  "writeEntitlementDenied c = FeatureNotEnabled (c @ '' is not enabled for this tenant'')"

definition WriteSCIMEntitlementDenied :: "Capability \<Rightarrow> response" where
  "WriteSCIMEntitlementDenied c = ScimErrorResponse 403 (c @ '' is not enabled for this tenant'') ''''"

text \<open>An option is the writer it was given; a nil one is skipped and the last one wins.\<close>

definition denyWriter :: "'w \<Rightarrow> 'w option list \<Rightarrow> 'w" where
  "denyWriter standard opts = foldl (\<lambda>w opt. case opt of Some fn \<Rightarrow> fn | None \<Rightarrow> w) standard opts"

definition RequireEntitlement :: "(ID \<Rightarrow> tenant_err + Entitlements) option \<Rightarrow> Capability \<Rightarrow> resolver option
    \<Rightarrow> (Capability \<Rightarrow> response) option list \<Rightarrow> middleware option" where
  "RequireEntitlement store capability resolve opts =
     (case (store, resolve) of
        (Some forTenant, Some res) \<Rightarrow> Some (\<lambda>r.
          let deny = denyWriter writeEntitlementDenied opts; (tenantID, ok) = res r in
          if \<not> ok then Stop (deny capability)
          else (case forTenant tenantID of
              Inl err \<Rightarrow> Stop (deny capability)
            | Inr ent \<Rightarrow> if \<not> capabilityAllowed capability ent then Stop (deny capability) else Next r))
      | _ \<Rightarrow> None)"

section \<open>Rate limiting\<close>

text \<open>The header's whole seconds, rounded up.\<close>

definition setRetryAfter :: "int \<Rightarrow> int" where
  "setRetryAfter retryAfter = (if retryAfter > 10 ^ 9 then - ((- retryAfter) div 10 ^ 9) else 1)"

definition writeThrottled :: "int \<Rightarrow> response" where
  "writeThrottled retryAfter = TooManyRequests (setRetryAfter retryAfter)"

definition WriteSCIMThrottled :: "int \<Rightarrow> response" where
  "WriteSCIMThrottled retryAfter = ScimTooManyRequests (setRetryAfter retryAfter)"

definition Throttled :: "(string \<Rightarrow> bool \<times> int) option \<Rightarrow> (request \<Rightarrow> string) option
    \<Rightarrow> (int \<Rightarrow> response) option list \<Rightarrow> middleware option" where
  "Throttled throttle key opts =
     (case (throttle, key) of
        (Some allow, Some k) \<Rightarrow> Some (\<lambda>r.
          case allow (k r) of (ok, retryAfter) \<Rightarrow>
            if \<not> ok then Stop (denyWriter writeThrottled opts retryAfter) else Next r)
      | _ \<Rightarrow> None)"

definition ThrottleKeyByServiceAccount :: "request \<Rightarrow> string" where
  "ThrottleKeyByServiceAccount r =
     (case GetPrincipal (rqCtx r) of
        None \<Rightarrow> ''scim:unauthenticated''
      | Some p \<Rightarrow> if prTenantID p = '''' then ''scim:sa:'' @ prID p else ''scim:tenant:'' @ prTenantID p)"

definition ThrottleKeyByRoutedTenant :: "request \<Rightarrow> string" where
  "ThrottleKeyByRoutedTenant r =
     (case TenantFromContext (rqCtx r) of (tenantID, ok) \<Rightarrow>
        if \<not> ok \<or> \<not> Valid tenantID then ''tenant:unresolved'' else ''tenant:'' @ IDString tenantID)"

definition ThrottleKeyByRemoteAddr :: "request \<Rightarrow> string" where
  "ThrottleKeyByRemoteAddr r = ''addr:'' @ rqRemoteAddr r"

section \<open>What a stack admits\<close>

lemma serve_Cons_Next: "serve (m # ms) r = Next r' \<longleftrightarrow> (\<exists>q. m r = Next q \<and> serve ms q = Next r')"
  by (auto split: outcome.splits)

lemma RequireAuth_Next:
  "RequireAuth L j r = Next r' \<longleftrightarrow>
     (\<exists>tok c. bearerToken (rqAuthorization r) = Inr tok \<and> ParseAccess L j tok = Inr c \<and>
        r' = r\<lparr>rqCtx := decorateAuthed (rqCtx r) c\<rparr>)"
  by (auto simp: RequireAuth_def split: sum.splits)

lemma tokenFitsTenant_iff:
  "tokenFitsTenant (Some c) routed guests impersonators \<longleftrightarrow>
     cTenantID c = routed \<and> (Impersonated c \<longrightarrow> impersonators) \<and> (Entered c \<longrightarrow> guests)"
  by (auto simp: tokenFitsTenant_def Impersonated_def Entered_def)

lemma requireTenant_apply:
  assumes "requireTenant (Some res) ae ai = Some g" "cxClaims (rqCtx r) = Some c" "res r = (t, ok)"
  shows "g r = (if ok \<and> Valid t \<and> cTenantID c = IDString t \<and> (Impersonated c \<longrightarrow> ai) \<and> (Entered c \<longrightarrow> ae)
     then Next (r\<lparr>rqCtx := (rqCtx r)\<lparr>cxTenant := Some t\<rparr>\<rparr>) else Stop (Unauthenticated ''invalid token''))"
proof -
  have g: "g = (\<lambda>r. let claims = AccessClaimsFromContext (rqCtx r); (routed, ok) = res r in
      if \<not> ok \<or> \<not> Valid routed \<or> \<not> tokenFitsTenant claims (IDString routed) ae ai
      then Stop (Unauthenticated ''invalid token'') else Next (r\<lparr>rqCtx := (rqCtx r)\<lparr>cxTenant := Some routed\<rparr>\<rparr>))"
    using assms(1) by (simp add: requireTenant_def)
  show ?thesis unfolding g using assms(2,3) by (simp add: AccessClaimsFromContext_def tokenFitsTenant_iff)
qed

lemma decorateAuthed_fields [simp]:
  "cxClaims (decorateAuthed ctx c) = Some c" "cxUserID (decorateAuthed ctx c) = Some (cSubject c)"
  "cxTenant (decorateAuthed ctx c) = cxTenant ctx" "cxPrincipal (decorateAuthed ctx c) = cxPrincipal ctx"
  by (simp_all add: decorateAuthed_def WithActor_def)

lemma RequireActiveTenant_Next:
  assumes "RequireActiveTenant g = Some active" "active r = Next r'" "agStore g = Some byID"
  shows "r' = r \<and> (\<exists>t. cxTenant (rqCtx r) = Some t \<and>
    (IsSingle t \<or> (\<exists>desc. byID (IDString t) = Inr desc \<and> descStatus desc = StatusActive)))"
proof -
  obtain na se where g: "agWriteNotActive g = Some na" "agWriteError g = Some se" "agLabel g \<noteq> ''''"
    using assms(1) by (auto simp: RequireActiveTenant_def split: option.splits if_splits)
  have "active = (\<lambda>r. let (i, ok) = TenantFromContext (rqCtx r) in
            if \<not> ok then Stop (ConfigError (''middleware: '' @ agLabel g @ '' gate ran without a pinned tenant''))
            else if IsSingle i then Next r
            else (case byID (IDString i) of
                Inl err \<Rightarrow> if isNotFound err then Stop na else Stop se
              | Inr desc \<Rightarrow> if descStatus desc \<noteq> StatusActive then Stop na else Next r))"
    using assms(1,3) g by (simp add: RequireActiveTenant_def)
  with assms(2) show ?thesis
    by (auto simp: TenantFromContext_def split: option.splits if_splits sum.splits)
qed

text \<open>The decision over an engine that keeps its promise: what the bindings permit.\<close>

lemma decide_permitted:
  assumes "bindingMemInv m" "NewRBAC (Some (memBindingStore m)) h p = Inr e" "dgAuthorizer g = Some (Check e)"
    "Valid t" "Valid (subTenant sub)"
  shows "decide g t sub res r =
    (if dgVisibilityAction g \<noteq> '''' \<and> \<not> permitted (set m) h p t sub (dgVisibilityAction g) res
     then Stop (the (dgWriteNotVisible g))
     else if permitted (set m) h p t sub (dgAction g) res then Next r
     else Stop (denyOrGhost g (subTenant sub) (subID sub)))"
proof -
  have e: "rbacOk e" "rbStore e = memBindingStore m" "rbH e = h" "rbP e = p"
    using NewRBAC_ok [OF assms(2)] by auto
  have "\<exists>d. Check e t sub act res = Inr d \<and> (Allowed d \<longleftrightarrow> permitted (set m) h p t sub act res)" for act
    using mem_bindings.Check_iff_permitted [OF assms(1) e(2,1) assms(4,5), of act res] unfolding e(3,4) .
  from this [of "dgAction g"] this [of "dgVisibilityAction g"] show ?thesis
    using assms(3) by (auto simp: decide_def Let_def)
qed

lemma RequireDecision_apply:
  assumes "RequireDecision g = Some decision" "dgTenant g = Some res" "\<not> misconfigured g"
    "cxClaims (rqCtx r) = Some c" "cxUserID (rqCtx r) = Some (cSubject c)" "cSubject c \<noteq> ''''" "res r = (t, True)" "Valid t"
    "tokenFitsTenant (Some c) (IDString t) (dgAllowEntered g) (dgAllowImpersonated g)"
    "dgResourceIDFrom g \<noteq> '''' \<Longrightarrow> pathValue r (dgResourceIDFrom g) \<noteq> ''''"
  shows "decision r = decide g t
     \<lparr>subTenant = (if Entered c then NewID (cHomeTenantID c) else t), subType = dgSubjectType g, subID = cSubject c\<rparr>
     \<lparr>resType = dgResourceType g, resID = (if dgResourceIDFrom g \<noteq> '''' then pathValue r (dgResourceIDFrom g) else '''')\<rparr>
     (r\<lparr>rqCtx := (rqCtx r)\<lparr>cxTenant := Some t\<rparr>\<rparr>)"
proof -
  have pv: "pathValue (r\<lparr>rqCtx := x\<rparr>) k = pathValue r k" for x k by (simp add: pathValue_def)
  show ?thesis
    using assms by (auto simp: RequireDecision_def GetUserID_def AccessClaimsFromContext_def EnteredFromContext_def pv Let_def)
qed

section \<open>Properties\<close>

text \<open>
  A foreign token is answered like a forged one. Behind bearer authentication and a
  tenant gate of any of the four kinds, a request that carries a bearer token gets one of
  two outcomes: it passes, with the routed tenant pinned, exactly when the token verifies,
  the route names a tenant, the token was minted for exactly that tenant, and it is an
  entered or impersonated one only where the gate allows that; and in every other case,
  forged, expired, foreign, unresolved or guest, the refusal is the same response.
\<close>

theorem foreign_token_like_a_forged_one:
  assumes "requireTenant (Some res) ae ai = Some tenantGate" "bearerToken (rqAuthorization r) = Inr tok"
  shows "serve [RequireAuth L j, tenantGate] r =
    (case ParseAccess L j tok of
       Inl err \<Rightarrow> Stop (Unauthenticated ''invalid token'')
     | Inr c \<Rightarrow> (case res (r\<lparr>rqCtx := decorateAuthed (rqCtx r) c\<rparr>) of (t, ok) \<Rightarrow>
         if ok \<and> Valid t \<and> cTenantID c = IDString t \<and> (Impersonated c \<longrightarrow> ai) \<and> (Entered c \<longrightarrow> ae)
         then Next (r\<lparr>rqCtx := (decorateAuthed (rqCtx r) c)\<lparr>cxTenant := Some t\<rparr>\<rparr>)
         else Stop (Unauthenticated ''invalid token'')))"
proof (cases "ParseAccess L j tok")
  case (Inl err)
  then show ?thesis using assms(2) by (simp add: RequireAuth_def)
next
  case (Inr c)
  let ?q = "r\<lparr>rqCtx := decorateAuthed (rqCtx r) c\<rparr>"
  obtain t ok where t: "res ?q = (t, ok)" by (cases "res ?q")
  have "serve [RequireAuth L j, tenantGate] r = tenantGate ?q"
    using assms(2) Inr by (simp add: RequireAuth_def split: outcome.splits)
  with requireTenant_apply [OF assms(1) _ t, of c] Inr t show ?thesis by simp
qed

text \<open>
  C16. What a protected route admits. Through bearer authentication, the tenant gate, the
  status gate and a decision gate on the RBAC engine over \<^verbatim>\<open>MemStore\<close>, a request reaches the
  handler only if its token verified, was minted for exactly the routed tenant for one of
  the tenant's own users, that tenant is active (or the deployment is the single tenant),
  and the stored bindings permit the gate's action, and its visibility action where it has
  one, to that very user in that tenant on the resource the path names. The handler sees
  that tenant pinned.
\<close>

theorem protected_route:
  assumes "bindingMemInv m" "NewRBAC (Some (memBindingStore m)) h p = Inr e"
    "RequireTenant (Some res) = Some tenantGate"
    "RequireActiveTenant ag = Some active" "agStore ag = Some byID"
    "RequireDecision dg = Some decision" "dgAuthorizer dg = Some (Check e)" "dgTenant dg = Some TenantFromRoutedContext"
    "serve [RequireAuth L j, tenantGate, active, decision] r = Next r'"
  shows "\<exists>tok c t. bearerToken (rqAuthorization r) = Inr tok \<and> ParseAccess L j tok = Inr c \<and>
    cTenantID c = IDString t \<and> Valid t \<and> \<not> Impersonated c \<and> \<not> Entered c \<and>
    res (r\<lparr>rqCtx := decorateAuthed (rqCtx r) c\<rparr>) = (t, True) \<and>
    (IsSingle t \<or> (\<exists>desc. byID (IDString t) = Inr desc \<and> descStatus desc = StatusActive)) \<and>
    r' = r\<lparr>rqCtx := (decorateAuthed (rqCtx r) c)\<lparr>cxTenant := Some t\<rparr>\<rparr> \<and>
    (\<forall>act. act = dgAction dg \<or> act = dgVisibilityAction dg \<and> act \<noteq> '''' \<longrightarrow>
       permitted (set m) h p t \<lparr>subTenant = t, subType = dgSubjectType dg, subID = cSubject c\<rparr> act
         \<lparr>resType = dgResourceType dg, resID = (if dgResourceIDFrom dg \<noteq> '''' then pathValue r (dgResourceIDFrom dg) else '''')\<rparr>)"
proof -
  obtain q1 q2 q3 where q: "RequireAuth L j r = Next q1" "tenantGate q1 = Next q2" "active q2 = Next q3" "decision q3 = Next r'"
    using assms(9) by (auto simp: serve_Cons_Next simp del: serve.simps(2))
  obtain tok c where c: "bearerToken (rqAuthorization r) = Inr tok" "ParseAccess L j tok = Inr c"
    and q1: "q1 = r\<lparr>rqCtx := decorateAuthed (rqCtx r) c\<rparr>" using q(1) by (auto simp: RequireAuth_Next)
  have "checkAccessClaims c = Inr c" using c(2)
    by (auto simp: ParseAccess_def checkAccessClaims_Inr_iff split: sum.splits)
  then have sub: "cSubject c \<noteq> ''''" by (auto simp: checkAccessClaims_Inr_iff)
  obtain t ok where t: "res q1 = (t, ok)" by (cases "res q1")
  have fit: "ok" "Valid t" "cTenantID c = IDString t" "\<not> Impersonated c" "\<not> Entered c"
    and q2: "q2 = r\<lparr>rqCtx := (decorateAuthed (rqCtx r) c)\<lparr>cxTenant := Some t\<rparr>\<rparr>"
    using requireTenant_apply [OF assms(3) [unfolded RequireTenant_def] _ t, of c] q(2)
    by (auto simp: q1 split: if_splits)
  have act: "q3 = q2" "IsSingle t \<or> (\<exists>desc. byID (IDString t) = Inr desc \<and> descStatus desc = StatusActive)"
    using RequireActiveTenant_Next [OF assms(4) q(3) assms(5)] by (auto simp: q2)
  let ?sub = "\<lparr>subTenant = t, subType = dgSubjectType dg, subID = cSubject c\<rparr>"
  let ?res = "\<lparr>resType = dgResourceType dg, resID = (if dgResourceIDFrom dg \<noteq> '''' then pathValue r (dgResourceIDFrom dg) else '''')\<rparr>"
  have cfg: "\<not> misconfigured dg" "dgResourceIDFrom dg \<noteq> '''' \<Longrightarrow> pathValue q2 (dgResourceIDFrom dg) \<noteq> ''''"
    using q(4) assms(6,8) sub unfolding act(1)
    by (auto simp: q2 RequireDecision_def GetUserID_def Let_def pathValue_def split: if_splits prod.splits)
  have "decision q2 = decide dg t ?sub ?res q2"
    using RequireDecision_apply [OF assms(6,8) cfg(1), of q2 c t] cfg(2) sub fit
    by (simp add: q2 TenantFromRoutedContext_def TenantFromContext_def tokenFitsTenant_iff pathValue_def)
  with q(4) act(1) have d: "decide dg t ?sub ?res q2 = Next r'" by simp
  have "r' = q2 \<and> permitted (set m) h p t ?sub (dgAction dg) ?res \<and>
    (dgVisibilityAction dg = '''' \<or> permitted (set m) h p t ?sub (dgVisibilityAction dg) ?res)"
    using d decide_permitted [OF assms(1,2,7) fit(2), of ?sub ?res q2] fit(2) by (auto split: if_splits)
  moreover have "res (r\<lparr>rqCtx := decorateAuthed (rqCtx r) c\<rparr>) = (t, True)" using t fit(1) q1 by simp
  ultimately show ?thesis using c fit(2-) act(2) unfolding q2
    by (intro exI [of _ tok] exI [of _ c] exI [of _ t] conjI) auto
qed

text \<open>
  What a configured decision gate answers, over the RBAC engine on \<^verbatim>\<open>MemStore\<close>, to a
  token that fits its tenant: a caller the bindings do not let see the resource gets the
  not-visible answer, whatever else they may do and whether or not the resource exists;
  one who may see it but not act gets the deny answer, or the ghost answer when their row
  is gone from the tenant they are stored in; everyone else passes. The subject asked about
  is one of the routed tenant's own users, except a guest who entered, who is asked about
  under their home tenant.
\<close>

theorem decision_gate_exact:
  assumes "bindingMemInv m" "NewRBAC (Some (memBindingStore m)) h p = Inr e"
    "RequireDecision dg = Some decision" "dgAuthorizer dg = Some (Check e)" "dgTenant dg = Some res" "\<not> misconfigured dg"
    "ParseAccess L j tok = Inr c" "rqCtx r = decorateAuthed ctx c" "res r = (t, True)" "Valid t"
    "tokenFitsTenant (Some c) (IDString t) (dgAllowEntered dg) (dgAllowImpersonated dg)"
    "dgResourceIDFrom dg \<noteq> '''' \<Longrightarrow> pathValue r (dgResourceIDFrom dg) \<noteq> ''''"
    "home = (if Entered c then NewID (cHomeTenantID c) else t)"
    "sub = \<lparr>subTenant = home, subType = dgSubjectType dg, subID = cSubject c\<rparr>"
    "resource = \<lparr>resType = dgResourceType dg, resID = (if dgResourceIDFrom dg \<noteq> '''' then pathValue r (dgResourceIDFrom dg) else '''')\<rparr>"
  shows "decision r =
    (if dgVisibilityAction dg \<noteq> '''' \<and> \<not> permitted (set m) h p t sub (dgVisibilityAction dg) resource
     then Stop (the (dgWriteNotVisible dg))
     else if permitted (set m) h p t sub (dgAction dg) resource
     then Next (r\<lparr>rqCtx := (rqCtx r)\<lparr>cxTenant := Some t\<rparr>\<rparr>)
     else Stop (case dgUserExists dg of
         None \<Rightarrow> the (dgWriteDenied dg)
       | Some userExists \<Rightarrow> (case userExists home (cSubject c) of
           Inl err \<Rightarrow> (case dgWriteProbeError dg of Some w \<Rightarrow> w | None \<Rightarrow> the (dgWriteDenied dg))
         | Inr found \<Rightarrow> if found then the (dgWriteDenied dg) else the (dgWriteGhost dg))))"
proof -
  have "checkAccessClaims c = Inr c" using assms(7)
    by (auto simp: ParseAccess_def checkAccessClaims_Inr_iff split: sum.splits)
  then have sub: "cSubject c \<noteq> ''''" by (auto simp: checkAccessClaims_Inr_iff)
  have home: "Valid home" using assms(10,13) by (auto simp: id_defs Entered_def)
  have "decision r = decide dg t sub resource (r\<lparr>rqCtx := (rqCtx r)\<lparr>cxTenant := Some t\<rparr>\<rparr>)"
    using RequireDecision_apply [OF assms(3,5,6), of r c t] assms(8-15) sub by simp
  also have "\<dots> = (if dgVisibilityAction dg \<noteq> '''' \<and> \<not> permitted (set m) h p t sub (dgVisibilityAction dg) resource
     then Stop (the (dgWriteNotVisible dg))
     else if permitted (set m) h p t sub (dgAction dg) resource
     then Next (r\<lparr>rqCtx := (rqCtx r)\<lparr>cxTenant := Some t\<rparr>\<rparr>)
     else Stop (denyOrGhost dg home (cSubject c)))"
    using decide_permitted [OF assms(1,2,4,10), of sub resource] home assms(14) by simp
  also have "denyOrGhost dg home (cSubject c) = (case dgUserExists dg of
         None \<Rightarrow> the (dgWriteDenied dg)
       | Some userExists \<Rightarrow> (case userExists home (cSubject c) of
           Inl err \<Rightarrow> (case dgWriteProbeError dg of Some w \<Rightarrow> w | None \<Rightarrow> the (dgWriteDenied dg))
         | Inr found \<Rightarrow> if found then the (dgWriteDenied dg) else the (dgWriteGhost dg)))"
    by (simp add: denyOrGhost_def split: option.splits sum.splits)
  finally show ?thesis .
qed

text \<open>
  The rate-limited route. The gate consults the limiter on the key of the request
  alone and passes the request on untouched or refuses it; the wait it announces is at
  least one second, covers the whole wait, and by less than a second too much. Two requests
  share a service-account bucket exactly when both are anonymous, both belong to one
  tenant, or both are the same account of the single tenant. The routed-tenant buckets are
  not as clean: a tenant whose id is \<^verbatim>\<open>unresolved\<close> shares one with every unrouted request.
\<close>

theorem throttle_exact:
  assumes "Throttled (Some allow) (Some key) opts = Some g"
  shows "(fst (allow (key r)) \<longrightarrow> g r = Next r) \<and>
    (\<not> fst (allow (key r)) \<longrightarrow> g r = Stop (denyWriter writeThrottled opts (snd (allow (key r))))) \<and>
    (let w = snd (allow (key r)); n = setRetryAfter w in
       1 \<le> n \<and> w \<le> n * 10 ^ 9 \<and> (n = 1 \<or> (n - 1) * 10 ^ 9 < w)) \<and>
    (ThrottleKeyByServiceAccount r = ThrottleKeyByServiceAccount q \<longleftrightarrow>
       (case (GetPrincipal (rqCtx r), GetPrincipal (rqCtx q)) of
          (None, None) \<Rightarrow> True
        | (Some a, Some b) \<Rightarrow> prTenantID a = prTenantID b \<and> (prTenantID a = '''' \<longrightarrow> prID a = prID b)
        | _ \<Rightarrow> False)) \<and>
    (cxTenant (rqCtx r) = Some (NewID ''unresolved'') \<and> cxTenant (rqCtx q) = None \<longrightarrow>
       ThrottleKeyByRoutedTenant r = ThrottleKeyByRoutedTenant q)"
proof -
  have g: "g = (\<lambda>r. case allow (key r) of (ok, w) \<Rightarrow> if \<not> ok then Stop (denyWriter writeThrottled opts w) else Next r)"
    using assms by (simp add: Throttled_def)
  have "1 \<le> setRetryAfter w \<and> w \<le> setRetryAfter w * 10 ^ 9 \<and> (setRetryAfter w = 1 \<or> (setRetryAfter w - 1) * 10 ^ 9 < w)" for w
    by (auto simp: setRetryAfter_def)
  moreover have "ThrottleKeyByServiceAccount r = ThrottleKeyByServiceAccount q \<longleftrightarrow>
       (case (GetPrincipal (rqCtx r), GetPrincipal (rqCtx q)) of
          (None, None) \<Rightarrow> True
        | (Some a, Some b) \<Rightarrow> prTenantID a = prTenantID b \<and> (prTenantID a = '''' \<longrightarrow> prID a = prID b)
        | _ \<Rightarrow> False)"
    by (auto simp: ThrottleKeyByServiceAccount_def split: option.splits)
  moreover have "cxTenant (rqCtx r) = Some (NewID ''unresolved'') \<and> cxTenant (rqCtx q) = None \<longrightarrow>
       ThrottleKeyByRoutedTenant r = ThrottleKeyByRoutedTenant q"
    by (simp add: ThrottleKeyByRoutedTenant_def TenantFromContext_def id_defs)
  ultimately show ?thesis by (auto simp: g Let_def split: prod.splits)
qed

section \<open>A concrete stack\<close>

definition exampleOwn :: Claims where
  "exampleOwn = \<lparr>cAuthTime = 90, cACR = ''acr'', cAMR = [''pwd''], cPurpose = purposeAccess, cTenantID = ''acme'',
     cHomeTenantID = '''', cActorID = '''', cSubject = ''u'', cIssuer = ''tamper'', cIssuedAt = 100, cExpiresAt = 400\<rparr>"

lemma exampleOwn_parses:
  "ParseAccess (oneTokenLib exampleOwn) (exampleService 200) ''tok'' = Inr exampleOwn"
  by (simp add: ParseAccess_def parseClaims_def checkAccessClaims_def exampleOwn_def exampleService_def
      oneTokenLib_def purposeAccess_def)

definition exampleBinding :: Binding where
  "exampleBinding = \<lparr>bTenant = NewID ''acme'', bSubject = \<lparr>subTenant = NewID ''acme'', subType = ''user'', subID = ''u''\<rparr>,
     bResource = \<lparr>resType = ''doc'', resID = ''''\<rparr>, bRole = ''viewer''\<rparr>"

definition exampleRBAC :: RBAC where
  "exampleRBAC = \<lparr>rbStore = memBindingStore [exampleBinding], rbH = [(''doc'', [''viewer'', ''admin''])],
     rbP = [(''doc.read'', [\<lparr>reqType = ''doc'', reqMin = ''viewer''\<rparr>]), (''doc.write'', [\<lparr>reqType = ''doc'', reqMin = ''admin''\<rparr>])]\<rparr>"

definition exampleGate :: "Action \<Rightarrow> DecisionGate" where
  "exampleGate act = \<lparr>dgAuthorizer = Some (Check exampleRBAC), dgLabel = ''doc'', dgTenant = Some TenantFromRoutedContext,
     dgAllowEntered = False, dgAllowImpersonated = False, dgSubjectType = ''user'', dgResourceType = ''doc'',
     dgResourceIDFrom = '''', dgAction = act, dgVisibilityAction = ''doc.read'',
     dgWriteNotVisible = Some (AppWritten ''404''), dgWriteDenied = Some (AppWritten ''403''), dgWriteProbeError = None,
     dgUserExists = None, dgWriteGhost = None\<rparr>"

definition exampleActive :: ActiveTenantGate where
  "exampleActive = \<lparr>agStore = Some (\<lambda>i. if i = ''acme''
       then Inr \<lparr>descID = ''acme'', descSlug = ''acme'', descParentID = '''', descStatus = StatusActive\<rparr> else Inl ErrNotFound),
     agLabel = ''tenant status'', agWriteNotActive = Some (AppWritten ''404''), agWriteError = Some (AppWritten ''503'')\<rparr>"

definition acmeRoute :: resolver where
  "acmeRoute r = (NewID ''acme'', True)"

lemmas example_stack_defs = exampleGate_def exampleActive_def acmeRoute_def exampleOwn_def

lemma exampleRBAC_built:
  "NewRBAC (Some (memBindingStore [exampleBinding])) (rbH exampleRBAC) (rbP exampleRBAC) = Inr exampleRBAC"
  "bindingMemInv [exampleBinding]"
  by (simp_all add: exampleRBAC_def NewRBAC_def validate_def requirementOk_def rank_def bindingMemInv_def exampleBinding_def)

lemma exampleRBAC_permitted:
  "permitted (set [exampleBinding]) (rbH exampleRBAC) (rbP exampleRBAC) (NewID ''acme'')
     \<lparr>subTenant = NewID ''acme'', subType = ''user'', subID = ''u''\<rparr> ''doc.read'' \<lparr>resType = ''doc'', resID = ''''\<rparr>"
  "\<not> permitted (set [exampleBinding]) (rbH exampleRBAC) (rbP exampleRBAC) (NewID ''acme'')
     \<lparr>subTenant = NewID ''acme'', subType = ''user'', subID = ''u''\<rparr> ''doc.write'' \<lparr>resType = ''doc'', resID = ''''\<rparr>"
  by (simp_all add: permitted_def grants_def targetOf_def rank_def exampleRBAC_def exampleBinding_def)

lemma bearer_tok: "bearerToken ''Bearer tok'' = Inr ''tok''"
  by code_simp

theorem foreign_token_like_a_forged_one_witness:
  "(\<exists>g. requireTenant (Some acmeRoute) False False = Some g \<and>
     serve [RequireAuth (oneTokenLib exampleImpersonated) (exampleService 200), g] (exampleRequest ''Bearer tok'') =
       Stop (Unauthenticated ''invalid token'') \<and>
     serve [RequireAuth (oneTokenLib exampleImpersonated) (exampleService 500), g] (exampleRequest ''Bearer tok'') =
       Stop (Unauthenticated ''invalid token''))"
proof -
  obtain g where g: "requireTenant (Some acmeRoute) False False = Some g" by (simp add: requireTenant_def)
  have b: "bearerToken (rqAuthorization (exampleRequest ''Bearer tok'')) = Inr ''tok''"
    by (simp add: exampleRequest_def bearer_tok)
  have late: "\<exists>err. ParseAccess (oneTokenLib exampleImpersonated) (exampleService 500) ''tok'' = Inl err"
    by (simp add: ParseAccess_def parseClaims_def exampleImpersonated_def exampleService_def oneTokenLib_def)
  have "Impersonated exampleImpersonated" by (simp add: Impersonated_def exampleImpersonated_def)
  then show ?thesis
    using g foreign_token_like_a_forged_one [OF g b, of "oneTokenLib exampleImpersonated"] exampleImpersonated_parses(1) late
    by (auto simp: acmeRoute_def)
qed

lemma example_gates_built:
  "\<exists>tg. RequireTenant (Some acmeRoute) = Some tg"
  "\<exists>ac. RequireActiveTenant exampleActive = Some ac"
  "\<exists>dc. RequireDecision (exampleGate act) = Some dc"
  by (simp_all add: RequireTenant_def requireTenant_def RequireActiveTenant_def RequireDecision_def example_stack_defs)

lemma example_stack_passes:
  assumes "RequireTenant (Some acmeRoute) = Some tg" "RequireActiveTenant exampleActive = Some ac"
    "RequireDecision (exampleGate ''doc.read'') = Some dc"
  shows "\<exists>r'. serve [RequireAuth (oneTokenLib exampleOwn) (exampleService 200), tg, ac, dc] (exampleRequest ''Bearer tok'') = Next r'"
proof -
  let ?r = "exampleRequest ''Bearer tok''"
  let ?q1 = "?r\<lparr>rqCtx := decorateAuthed (rqCtx ?r) exampleOwn\<rparr>"
  let ?q2 = "?q1\<lparr>rqCtx := (rqCtx ?q1)\<lparr>cxTenant := Some (NewID ''acme'')\<rparr>\<rparr>"
  have own: "cTenantID exampleOwn = ''acme''" "cSubject exampleOwn = ''u''" "\<not> Impersonated exampleOwn" "\<not> Entered exampleOwn"
    by (simp_all add: exampleOwn_def Impersonated_def Entered_def)
  have 1: "RequireAuth (oneTokenLib exampleOwn) (exampleService 200) ?r = Next ?q1"
    using exampleOwn_parses bearer_tok by (auto simp: RequireAuth_Next exampleRequest_def)
  have 2: "tg ?q1 = Next ?q2"
    using requireTenant_apply [OF assms(1) [unfolded RequireTenant_def], of ?q1 exampleOwn] own
    by (simp add: acmeRoute_def id_defs)
  have 3: "ac ?q2 = Next ?q2"
    using assms(2) by (auto simp: RequireActiveTenant_def exampleActive_def TenantFromContext_def id_defs)
  have "dc ?q2 = decide (exampleGate ''doc.read'') (NewID ''acme'')
      \<lparr>subTenant = NewID ''acme'', subType = ''user'', subID = ''u''\<rparr> \<lparr>resType = ''doc'', resID = ''''\<rparr> ?q2"
    using RequireDecision_apply [OF assms(3), of TenantFromRoutedContext ?q2 exampleOwn "NewID ''acme''"] own
    by (simp add: exampleGate_def misconfigured_def TenantFromRoutedContext_def TenantFromContext_def tokenFitsTenant_iff id_defs)
  also have "\<dots> = Next ?q2"
    using decide_permitted [OF exampleRBAC_built(2,1), of "exampleGate ''doc.read''"] exampleRBAC_permitted(1)
    by (simp add: exampleGate_def id_defs)
  finally show ?thesis using 1 2 3 by simp
qed

theorem protected_route_witness:
  "\<exists>tg ac dc r'. RequireTenant (Some acmeRoute) = Some tg \<and> RequireActiveTenant exampleActive = Some ac \<and>
     RequireDecision (exampleGate ''doc.read'') = Some dc \<and>
     serve [RequireAuth (oneTokenLib exampleOwn) (exampleService 200), tg, ac, dc] (exampleRequest ''Bearer tok'') = Next r' \<and>
     cxTenant (rqCtx r') = Some (NewID ''acme'')"
proof -
  obtain tg ac dc where b: "RequireTenant (Some acmeRoute) = Some tg" "RequireActiveTenant exampleActive = Some ac"
    "RequireDecision (exampleGate ''doc.read'') = Some dc" using example_gates_built by blast
  obtain r' where r': "serve [RequireAuth (oneTokenLib exampleOwn) (exampleService 200), tg, ac, dc] (exampleRequest ''Bearer tok'') = Next r'"
    using example_stack_passes [OF b] by blast
  obtain byID where "agStore exampleActive = Some byID" by (simp add: exampleActive_def)
  moreover have "dgAuthorizer (exampleGate ''doc.read'') = Some (Check exampleRBAC)"
    "dgTenant (exampleGate ''doc.read'') = Some TenantFromRoutedContext" by (simp_all add: exampleGate_def)
  ultimately obtain c t where "acmeRoute ((exampleRequest ''Bearer tok'')\<lparr>rqCtx := decorateAuthed (rqCtx (exampleRequest ''Bearer tok'')) c\<rparr>) = (t, True)"
    "r' = (exampleRequest ''Bearer tok'')\<lparr>rqCtx := (decorateAuthed (rqCtx (exampleRequest ''Bearer tok'')) c)\<lparr>cxTenant := Some t\<rparr>\<rparr>"
    using protected_route [OF exampleRBAC_built(2,1) b(1,2) _ b(3) _ _ r'] by blast
  then have "cxTenant (rqCtx r') = Some (NewID ''acme'')" by (simp add: acmeRoute_def)
  with b r' show ?thesis by blast
qed

theorem decision_gate_exact_witness:
  "\<exists>dc. RequireDecision (exampleGate ''doc.write'') = Some dc \<and>
     dc ((exampleRequest ''Bearer tok'')\<lparr>rqCtx := (decorateAuthed emptyCtx exampleOwn)\<lparr>cxTenant := Some (NewID ''acme'')\<rparr>\<rparr>) =
       Stop (AppWritten ''403'')"
proof -
  let ?ctx = "emptyCtx\<lparr>cxTenant := Some (NewID ''acme'')\<rparr>"
  let ?r = "(exampleRequest ''Bearer tok'')\<lparr>rqCtx := decorateAuthed ?ctx exampleOwn\<rparr>"
  obtain dc where dc: "RequireDecision (exampleGate ''doc.write'') = Some dc" using example_gates_built(3) by blast
  have pre: "dgAuthorizer (exampleGate ''doc.write'') = Some (Check exampleRBAC)"
    "dgTenant (exampleGate ''doc.write'') = Some TenantFromRoutedContext" "\<not> misconfigured (exampleGate ''doc.write'')"
    "TenantFromRoutedContext ?r = (NewID ''acme'', True)" "Valid (NewID ''acme'')"
    "tokenFitsTenant (Some exampleOwn) (IDString (NewID ''acme'')) (dgAllowEntered (exampleGate ''doc.write''))
      (dgAllowImpersonated (exampleGate ''doc.write''))"
    by (simp_all add: exampleGate_def misconfigured_def TenantFromRoutedContext_def TenantFromContext_def id_defs
        tokenFitsTenant_iff exampleOwn_def Impersonated_def Entered_def)
  have "dc ?r = Stop (AppWritten ''403'')"
    using decision_gate_exact [OF exampleRBAC_built(2,1) dc pre(1-3) exampleOwn_parses _ pre(4-6) _ refl refl refl, of ?ctx]
      exampleRBAC_permitted
    by (simp add: exampleGate_def exampleOwn_def Entered_def)
  moreover have "decorateAuthed ?ctx exampleOwn = (decorateAuthed emptyCtx exampleOwn)\<lparr>cxTenant := Some (NewID ''acme'')\<rparr>"
    by (simp add: decorateAuthed_def WithActor_def)
  ultimately show ?thesis using dc by auto
qed

theorem throttle_exact_witness:
  "\<exists>g. Throttled (Some (\<lambda>k. (False, 1500000000))) (Some ThrottleKeyByRemoteAddr) [] = Some g \<and>
     g (exampleRequest '''') = Stop (TooManyRequests 2)"
proof -
  obtain g where g: "Throttled (Some (\<lambda>k. (False, 1500000000))) (Some ThrottleKeyByRemoteAddr) [] = Some g"
    by (simp add: Throttled_def)
  show ?thesis using g throttle_exact [OF g, of "exampleRequest ''''" "exampleRequest ''''"]
    by (auto simp: denyWriter_def writeThrottled_def setRetryAfter_def)
qed

section \<open>Entitlements over a hierarchy\<close>

lemma InheritingForTenant_readable:
  assumes "forTenant i = Inr own" "Ancestors byID i = Inr chain" "\<forall>a\<in>set chain. \<exists>p. forTenant a = Inr p"
  shows "\<exists>eff. InheritingForTenant forTenant byID i = Inr eff"
proof -
  have "\<exists>eff. widenAlong forTenant e chain = Inr eff" for e
    using assms(3) by (induction chain arbitrary: e) auto
  then show ?thesis using assms(1,2) by (simp add: InheritingForTenant_def)
qed

text \<open>
  An entitled route over the inheriting decorator opens exactly when a tenant resolves,
  every plan on the way up from it can be read, and the tenant or one of its ancestors
  bought the capability; a capability other than the two known ones never opens it. In
  every other case, an unresolved tenant, a broken hierarchy, an outage or a typo in the
  gate, the answer is the gate's one deny response, and the request is passed on untouched
  when it is passed on.
\<close>

theorem entitled_route_exact:
  assumes "RequireEntitlement (Some (InheritingForTenant forTenant byID)) capability (Some res) opts = Some g"
    and "\<And>i p. forTenant i = Inr p \<Longrightarrow> 0 \<le> MaxIdPConnections p"
  shows "(g r = Next r \<longleftrightarrow> (\<exists>t chain. res r = (t, True) \<and> Ancestors byID t = Inr chain \<and>
      (\<forall>a\<in>set (t # chain). \<exists>p. forTenant a = Inr p) \<and>
      (\<exists>a\<in>set (t # chain). \<exists>p. forTenant a = Inr p \<and>
         (capability = CapabilitySSO \<and> SSOEnabled p \<or> capability = CapabilitySCIM \<and> SCIMEnabled p)))) \<and>
    (g r = Next r \<or> g r = Stop (denyWriter writeEntitlementDenied opts capability))"
proof -
  have g: "g = (\<lambda>r. let deny = denyWriter writeEntitlementDenied opts; (tenantID, ok) = res r in
          if \<not> ok then Stop (deny capability)
          else (case InheritingForTenant forTenant byID tenantID of
              Inl err \<Rightarrow> Stop (deny capability)
            | Inr ent \<Rightarrow> if \<not> capabilityAllowed capability ent then Stop (deny capability) else Next r))"
    using assms(1) by (simp add: RequireEntitlement_def)
  have cap: "capabilityAllowed capability e \<longleftrightarrow>
      capability = CapabilitySSO \<and> SSOEnabled e \<or> capability = CapabilitySCIM \<and> SCIMEnabled e" for e
    by (auto simp: capabilityAllowed_def CapabilitySSO_def CapabilitySCIM_def)
  obtain t ok where t: "res r = (t, ok)" by (cases "res r")
  show ?thesis
  proof (cases "InheritingForTenant forTenant byID t")
    case (Inl err)
    then have "\<not> (Ancestors byID t = Inr chain \<and> (\<forall>a\<in>set (t # chain). \<exists>p. forTenant a = Inr p))" for chain
      using InheritingForTenant_readable [of forTenant t _ byID chain] by (metis list.set_intros sum.distinct(1))
    moreover have "g r = Stop (denyWriter writeEntitlementDenied opts capability)" using Inl t by (simp add: g Let_def)
    ultimately show ?thesis using t by (metis outcome.distinct(1) prod.inject)
  next
    case (Inr eff)
    obtain own chain where w: "forTenant t = Inr own" "Ancestors byID t = Inr chain" "\<forall>a\<in>set chain. \<exists>p. forTenant a = Inr p"
      "SSOEnabled eff \<longleftrightarrow> (\<exists>a\<in>set (t # chain). \<exists>p. forTenant a = Inr p \<and> SSOEnabled p)"
      "SCIMEnabled eff \<longleftrightarrow> (\<exists>a\<in>set (t # chain). \<exists>p. forTenant a = Inr p \<and> SCIMEnabled p)"
      using InheritingForTenant_widens [of forTenant byID t eff 0] assms(2) Inr by blast
    have gr: "g r = (if ok \<and> capabilityAllowed capability eff then Next r
        else Stop (denyWriter writeEntitlementDenied opts capability))" using Inr t by (simp add: g Let_def)
    have al: "capabilityAllowed capability eff \<longleftrightarrow> (\<exists>a\<in>set (t # chain). \<exists>p. forTenant a = Inr p \<and>
         (capability = CapabilitySSO \<and> SSOEnabled p \<or> capability = CapabilitySCIM \<and> SCIMEnabled p))"
      unfolding cap w(4,5) by blast
    have "\<forall>a\<in>set (t # chain). \<exists>p. forTenant a = Inr p" using w(1,3) by simp
    with gr w(2) t show ?thesis unfolding al by (simp del: list.set)
  qed
qed

theorem entitled_route_exact_witness:
  "\<exists>g. RequireEntitlement (Some (InheritingForTenant (\<lambda>_. Inr \<lparr>SSOEnabled = True, SCIMEnabled = False, MaxIdPConnections = 1\<rparr>)
       (\<lambda>_. Inl ErrNotFound))) CapabilitySCIM (Some (\<lambda>_. (Single, True))) [] = Some g \<and>
     g (exampleRequest '''') = Stop (FeatureNotEnabled ''scim is not enabled for this tenant'')"
proof -
  let ?plan = "\<lambda>_::ID. Inr \<lparr>SSOEnabled = True, SCIMEnabled = False, MaxIdPConnections = 1\<rparr> :: tenant_err + Entitlements"
  obtain g where g: "RequireEntitlement (Some (InheritingForTenant ?plan (\<lambda>_. Inl ErrNotFound))) CapabilitySCIM
      (Some (\<lambda>_. (Single, True))) [] = Some g"
    by (simp add: RequireEntitlement_def)
  have "\<And>i p. ?plan i = Inr p \<Longrightarrow> 0 \<le> MaxIdPConnections p" by auto
  from entitled_route_exact [OF g this, of "exampleRequest ''''"] g show ?thesis
    by (auto simp: denyWriter_def writeEntitlementDenied_def CapabilitySCIM_def CapabilitySSO_def)
qed

end
