(* ===== verification/Espresso_StepUp.thy ===== *)
theory Espresso_StepUp
  imports Espresso_Audit
begin

text \<open>
  Package \<^verbatim>\<open>espresso\<close>, the step-up gate (\<^verbatim>\<open>stepup.go\<close>), the entity-tag preconditions
  (\<^verbatim>\<open>etag.go\<close>) and the federation state cookie (\<^verbatim>\<open>statecookie.go\<close>). A duration counts
  nanoseconds; its whole seconds are the floor, which is what the code's conversion
  through \<^verbatim>\<open>float64\<close> gives for whole seconds and below 194 days. The gate's clock is read once
  per request, as Unix seconds; the JSON encoder, the id generator and the printing of an
  integer are arguments.
\<close>

section \<open>Configuration\<close>

definition Seconds :: "int \<Rightarrow> int" where
  "Seconds d = (if d \<ge> 0 then d div 10 ^ 9 else - ((- d) div 10 ^ 9))"

datatype StepUpDenialReason = StepUpDenyStaleAuth | StepUpDenyWeakACR | StepUpDenyMissingMethod | StepUpDenyMissingClaims

definition denialString :: "StepUpDenialReason \<Rightarrow> string" where
  "denialString reason = (case reason of
      StepUpDenyStaleAuth \<Rightarrow> ''stale_auth_time''
    | StepUpDenyWeakACR \<Rightarrow> ''weak_acr''
    | StepUpDenyMissingMethod \<Rightarrow> ''missing_amr_method''
    | StepUpDenyMissingClaims \<Rightarrow> ''missing_claims'')"

record stepUpConfig =
  suNow :: int
  suRequireMethods :: "string list"

datatype StepUpOption = StepUpRequireMethods "string list" | WithStepUpClock "int option"

fun applyStepUp :: "stepUpConfig \<Rightarrow> StepUpOption \<Rightarrow> stepUpConfig" where
  "applyStepUp c (StepUpRequireMethods methods) = c\<lparr>suRequireMethods := methods\<rparr>"
| "applyStepUp c (WithStepUpClock clock) = (case clock of Some n \<Rightarrow> c\<lparr>suNow := n\<rparr> | None \<Rightarrow> c)"

definition stepUpClock :: "int \<Rightarrow> StepUpOption list \<Rightarrow> int" where
  "stepUpClock systemNow opts = suNow (foldl applyStepUp \<lparr>suNow = systemNow, suRequireMethods = []\<rparr> opts)"

definition stepUpMethods :: "StepUpOption list \<Rightarrow> string list" where
  "stepUpMethods opts = suRequireMethods (foldl applyStepUp \<lparr>suNow = 0, suRequireMethods = []\<rparr> opts)"

definition prepareStepUpConfig :: "int \<Rightarrow> string list \<Rightarrow> (string list \<times> string set) option" where
  "prepareStepUpConfig maxAge acrValues =
     (if maxAge \<le> 0 then None else if acrValues = [] then None else Some (acrValues, set acrValues))"

section \<open>The gate\<close>

definition evaluateStepUpGate :: "Claims option \<Rightarrow> int \<Rightarrow> string set \<Rightarrow> int \<Rightarrow> string list
    \<Rightarrow> string \<times> StepUpDenialReason option \<times> int \<times> bool" where
  "evaluateStepUpGate claims maxAge acrSet now requireMethods =
     (case claims of
        None \<Rightarrow> ('''', Some StepUpDenyMissingClaims, 0, False)
      | Some c \<Rightarrow>
          let authTime = cAuthTime c; maxAgeSec = Seconds maxAge in
          if now - authTime > maxAgeSec then (cACR c, Some StepUpDenyStaleAuth, authTime, False)
          else if cACR c \<notin> acrSet then (cACR c, Some StepUpDenyWeakACR, authTime, False)
          else if requireMethods \<noteq> [] \<and> \<not> list_ex (HasMethod (Some c)) requireMethods
          then (cACR c, Some StepUpDenyMissingMethod, authTime, False)
          else (cACR c, None, authTime, True))"

definition writeStepUpError :: "int \<Rightarrow> string list \<Rightarrow> int \<Rightarrow> int \<Rightarrow> response" where
  "writeStepUpError maxAge acrValues authTime now = StepUpRequired (Seconds maxAge) acrValues authTime now"

definition RequireFreshAuth :: "int \<Rightarrow> string list \<Rightarrow> StepUpOption list \<Rightarrow> int \<Rightarrow> middleware option" where
  "RequireFreshAuth maxAge acrValues opts systemNow =
     (case prepareStepUpConfig maxAge acrValues of
        None \<Rightarrow> None
      | Some (frozenACR, acrSet) \<Rightarrow> Some (\<lambda>r.
          let now = stepUpClock systemNow opts; claims = AccessClaimsFromContext (rqCtx r) in
          case evaluateStepUpGate claims maxAge acrSet now (stepUpMethods opts) of
            (_, _, authTime, ok) \<Rightarrow>
              if \<not> ok then Stop (writeStepUpError maxAge frozenACR authTime now) else Next r))"

record stepUpDeniedAfter =
  sdEndpoint :: string
  sdMethod :: string
  sdPath :: string
  sdDenialReason :: string
  sdRequestedMaxAgeSeconds :: int
  sdRequestedACRValues :: "string list"
  sdCurrentACR :: string
  sdCurrentAuthTime :: int
  sdNow :: int

text \<open>\<^verbatim>\<open>hasLog\<close>: a logger was wired. \<^verbatim>\<open>marshal\<close> fails with \<^verbatim>\<open>None\<close>; the row is handed to the logger, whose error is dropped.\<close>

definition emitStepUpDenied :: "(stepUpDeniedAfter \<Rightarrow> string option) \<Rightarrow> string \<Rightarrow> go_time \<Rightarrow> bool \<Rightarrow> Claims option \<Rightarrow> request
    \<Rightarrow> string \<Rightarrow> string \<Rightarrow> StepUpDenialReason \<Rightarrow> int \<Rightarrow> string list \<Rightarrow> int \<Rightarrow> int \<Rightarrow> Event option" where
  "emitStepUpDenied marshal eventID at hasLog claims r deniedAction endpoint reason maxAge acrValues authTime now =
     (if \<not> hasLog then None
      else
        let (actorID, actorTenant, currentACR) =
              (case claims of None \<Rightarrow> ('''', '''', '''') | Some c \<Rightarrow> (cSubject c, ActorTenantID c, cACR c));
            actor = \<lparr>acType = ActorTypeUser, acUserID = actorID, acEmail = '''', acName = '''',
              acIP = IPFromRequest r, acTenantID = actorTenant\<rparr>;
            after = \<lparr>sdEndpoint = endpoint, sdMethod = rqMethod r, sdPath = rqPath r, sdDenialReason = denialString reason,
              sdRequestedMaxAgeSeconds = Seconds maxAge, sdRequestedACRValues = acrValues, sdCurrentACR = currentACR,
              sdCurrentAuthTime = authTime, sdNow = now\<rparr>;
            afterJSON = (case marshal after of Some j \<Rightarrow> j | None \<Rightarrow> '''')
        in Some
          \<lparr>evID = eventID, evAt = at, evActor = actor, evAction = deniedAction, evResourceType = ''auth'',
           evResourceID = '''', evRequestID = '''', evClusterID = '''', evBefore = '''', evAfter = afterJSON,
           evPrevHash = '''', evHash = '''', evCanonicalVersion = 0, evTenantID = eventScope (rqCtx r) actor,
           evRowSalt = '''', evCommitments = \<lparr>ctActorEmail = '''', ctActorName = '''', ctActorIP = '''',
             ctBefore = '''', ctAfter = ''''\<rparr>\<rparr>)"

definition RequireFreshAuthWithAudit :: "(stepUpDeniedAfter \<Rightarrow> string option) \<Rightarrow> string \<Rightarrow> go_time \<Rightarrow> int \<Rightarrow> string list \<Rightarrow> bool
    \<Rightarrow> string \<Rightarrow> string \<Rightarrow> StepUpOption list \<Rightarrow> int \<Rightarrow> (request \<Rightarrow> outcome \<times> Event option) option" where
  "RequireFreshAuthWithAudit marshal eventID at maxAge acrValues hasLog deniedAction endpoint opts systemNow =
     (case prepareStepUpConfig maxAge acrValues of
        None \<Rightarrow> None
      | Some (frozenACR, acrSet) \<Rightarrow> Some (\<lambda>r.
          let now = stepUpClock systemNow opts; claims = AccessClaimsFromContext (rqCtx r) in
          case evaluateStepUpGate claims maxAge acrSet now (stepUpMethods opts) of
            (_, reason, authTime, ok) \<Rightarrow>
              if \<not> ok
              then (Stop (writeStepUpError maxAge frozenACR authTime now),
                    emitStepUpDenied marshal eventID at hasLog claims r deniedAction endpoint (the reason) maxAge frozenACR authTime now)
              else (Next r, None)))"

definition StepUpSatisfied :: "int \<Rightarrow> string list \<Rightarrow> int \<Rightarrow> string \<Rightarrow> int \<Rightarrow> bool" where
  "StepUpSatisfied requestedMaxAge requestedACRValues deliveredAuthTime deliveredACR now =
     (if requestedMaxAge \<le> 0 \<and> requestedACRValues = [] then False
      else if requestedMaxAge > 0 \<and> deliveredAuthTime \<le> 0 then False
      else if requestedMaxAge > 0 \<and> now - deliveredAuthTime > requestedMaxAge then False
      else if requestedACRValues \<noteq> [] \<and> deliveredACR \<notin> set requestedACRValues then False
      else True)"

section \<open>Entity tags\<close>

definition etagWeakPrefix :: string where "etagWeakPrefix = ''W/''"

definition trimPrefix :: "string \<Rightarrow> string \<Rightarrow> string" where
  "trimPrefix s pre = (if hasPrefix s pre then drop (length pre) s else s)"

text \<open>The version instant in Unix nanoseconds, \<^verbatim>\<open>None\<close> for the zero time.\<close>

definition ResourceETag :: "(int \<Rightarrow> string) \<Rightarrow> int option \<Rightarrow> string" where
  "ResourceETag printInt t = (case t of
      None \<Rightarrow> ''''
    | Some nanos \<Rightarrow> etagWeakPrefix @ [CHR 0x22] @ printInt nanos @ [CHR 0x22])"

definition NormalizeETag :: "string \<Rightarrow> string" where
  "NormalizeETag s = trimPrefix (trimPrefix (trimSpace s) etagWeakPrefix) ''w/''"

text \<open>The first argument is the request's \<^verbatim>\<open>If-Match\<close> header; the result, ok with status and code.\<close>

definition CheckIfMatch :: "string \<Rightarrow> string \<Rightarrow> bool \<times> int \<times> string" where
  "CheckIfMatch header currentETag =
     (let ifMatch = trimSpace header in
      if ifMatch = '''' then (True, 0, '''')
      else if ifMatch = ''*'' then (True, 0, '''')
      else
        let want = NormalizeETag currentETag in
        if list_ex (\<lambda>part. NormalizeETag part = want) (splitCommas ifMatch) then (True, 0, '''')
        else (False, 412, ''PRECONDITION_FAILED''))"

section \<open>State cookies\<close>

datatype SameSite = SameSiteUnset | SameSiteDefaultMode | SameSiteLaxMode | SameSiteStrictMode | SameSiteNoneMode

record Cookie =
  ckName :: string
  ckValue :: string
  ckPath :: string
  ckHttpOnly :: bool
  ckSecure :: bool
  ckSameSite :: SameSite
  ckMaxAge :: int

record StateCookieConfig =
  scBaseName :: string
  scSecure :: bool
  scPath :: string
  scTTL :: int
  scSameSite :: SameSite

definition effectiveSameSite :: "StateCookieConfig \<Rightarrow> SameSite" where
  "effectiveSameSite c = (if scSameSite c = SameSiteUnset then SameSiteLaxMode else scSameSite c)"

definition cookieName :: "StateCookieConfig \<Rightarrow> string" where
  "cookieName c = (if scSecure c then ''__Host-'' @ scBaseName c else scBaseName c)"

definition SetCookie :: "StateCookieConfig \<Rightarrow> string \<Rightarrow> Cookie" where
  "SetCookie c v = \<lparr>ckName = cookieName c, ckValue = v, ckPath = scPath c, ckHttpOnly = True, ckSecure = scSecure c,
     ckSameSite = effectiveSameSite c, ckMaxAge = Seconds (scTTL c)\<rparr>"

definition ClearCookie :: "StateCookieConfig \<Rightarrow> Cookie" where
  "ClearCookie c = \<lparr>ckName = cookieName c, ckValue = '''', ckPath = scPath c, ckHttpOnly = True, ckSecure = scSecure c,
     ckSameSite = effectiveSameSite c, ckMaxAge = -1\<rparr>"

section \<open>Properties\<close>

lemma Seconds_pos [simp]: "0 \<le> d \<Longrightarrow> Seconds d = d div 10 ^ 9"
  by (simp add: Seconds_def)

lemma prepareStepUpConfig_Some:
  "prepareStepUpConfig maxAge acrValues = Some cfg \<longleftrightarrow> 0 < maxAge \<and> acrValues \<noteq> [] \<and> cfg = (acrValues, set acrValues)"
  by (auto simp: prepareStepUpConfig_def)

lemma evaluateStepUpGate_ok:
  assumes "0 < maxAge"
  shows "snd (snd (snd (evaluateStepUpGate (Some c) maxAge acrSet now methods))) \<longleftrightarrow>
    now - cAuthTime c \<le> maxAge div 10 ^ 9 \<and> cACR c \<in> acrSet \<and>
    (methods = [] \<or> (\<exists>m\<in>set methods. m \<noteq> '''' \<and> m \<in> set (cAMR c)))"
    "fst (snd (snd (evaluateStepUpGate (Some c) maxAge acrSet now methods))) = cAuthTime c"
  using assms by (auto simp: evaluateStepUpGate_def Let_def HasMethod_def list_ex_iff split: if_splits)

text \<open>
  The step-up gate, with and without its audit row. It can be built only with a
  positive age and at least one class. Behind bearer authentication it passes exactly the
  tokens whose authentication is no older than the age in whole seconds, whose class is
  listed, and that name one required method where any is required; every refusal is the one
  envelope that echoes the policy and the instant. The audited form decides the same and
  leaves a row exactly when it refuses and a logger is wired, in the tenant the route
  pinned. That row names the token's subject, not the actor bearer authentication stashed:
  under impersonation it is the impersonated user beside the human's home tenant.
\<close>

theorem step_up_gate_exact:
  assumes "RequireFreshAuth maxAge acrValues opts systemNow = Some g"
    "RequireFreshAuthWithAudit marshal i at maxAge acrValues hasLog act endpoint opts systemNow = Some audited"
    "rqCtx r = decorateAuthed ctx c" "now = stepUpClock systemNow opts"
  shows "0 < maxAge \<and> acrValues \<noteq> [] \<and>
    g r = (if now - cAuthTime c \<le> maxAge div 10 ^ 9 \<and> cACR c \<in> set acrValues \<and>
        (stepUpMethods opts = [] \<or> (\<exists>m\<in>set (stepUpMethods opts). m \<noteq> '''' \<and> m \<in> set (cAMR c)))
      then Next r else Stop (StepUpRequired (maxAge div 10 ^ 9) acrValues (cAuthTime c) now)) \<and>
    fst (audited r) = g r \<and>
    (snd (audited r) \<noteq> None \<longleftrightarrow> hasLog \<and> g r \<noteq> Next r) \<and>
    (\<forall>e. snd (audited r) = Some e \<longrightarrow> evAction e = act \<and> acUserID (evActor e) = cSubject c \<and>
       acTenantID (evActor e) = ActorTenantID c \<and>
       (\<forall>t. cxTenant ctx = Some t \<longrightarrow> evTenantID e = IDString t) \<and> (cxTenant ctx = None \<longrightarrow> evTenantID e = '''') \<and>
       (Impersonated c \<longrightarrow> acUserID (ActorFromContext (rqCtx r)) = cActorID c))"
proof -
  have pos: "0 < maxAge" "acrValues \<noteq> []" and cfg: "prepareStepUpConfig maxAge acrValues = Some (acrValues, set acrValues)"
    using assms(1) by (auto simp: RequireFreshAuth_def prepareStepUpConfig_Some split: option.splits)
  obtain x reason a ok where ev: "evaluateStepUpGate (Some c) maxAge (set acrValues) now (stepUpMethods opts) = (x, reason, a, ok)"
    by (cases "evaluateStepUpGate (Some c) maxAge (set acrValues) now (stepUpMethods opts)") auto
  note ok = evaluateStepUpGate_ok [OF pos(1), of c "set acrValues" now "stepUpMethods opts", unfolded ev, simplified]
  have claims: "AccessClaimsFromContext (rqCtx r) = Some c"
    using assms(3) by (simp add: AccessClaimsFromContext_def decorateAuthed_def WithActor_def)
  have g: "g r = (if ok then Next r else Stop (StepUpRequired (maxAge div 10 ^ 9) acrValues (cAuthTime c) now))"
    using assms(1) cfg claims ev ok(2) pos(1) by (auto simp: RequireFreshAuth_def assms(4) writeStepUpError_def Let_def)
  have ga: "audited r = (g r, if ok then None else
      emitStepUpDenied marshal i at hasLog (Some c) r act endpoint (the reason) maxAge acrValues (cAuthTime c) now)"
    using assms(2) cfg claims ev ok(2) pos(1) g
    by (auto simp: RequireFreshAuthWithAudit_def assms(4) writeStepUpError_def Let_def)
  have em: "emitStepUpDenied marshal i at hasLog (Some c) r act endpoint (the reason) maxAge acrValues (cAuthTime c) now = Some e \<Longrightarrow>
     evAction e = act \<and> acUserID (evActor e) = cSubject c \<and> acTenantID (evActor e) = ActorTenantID c \<and>
     acType (evActor e) = ActorTypeUser \<and> evTenantID e = eventScope (rqCtx r) (evActor e)" for e
    by (auto simp: emitStepUpDenied_def Let_def split: if_splits)
  have hl: "emitStepUpDenied marshal i at hasLog (Some c) r act endpoint (the reason) maxAge acrValues (cAuthTime c) now \<noteq> None \<longleftrightarrow> hasLog"
    by (simp add: emitStepUpDenied_def Let_def)
  have "cxTenant (rqCtx r) = cxTenant ctx" "Impersonated c \<longrightarrow> acUserID (ActorFromContext (rqCtx r)) = cActorID c"
    using assms(3) by (simp_all add: decorateAuthed_def WithActor_def ActorFromContext_def ActorUserID_def Impersonated_def)
  then have rows: "\<forall>e. snd (audited r) = Some e \<longrightarrow> evAction e = act \<and> acUserID (evActor e) = cSubject c \<and>
       acTenantID (evActor e) = ActorTenantID c \<and>
       (\<forall>t. cxTenant ctx = Some t \<longrightarrow> evTenantID e = IDString t) \<and> (cxTenant ctx = None \<longrightarrow> evTenantID e = '''') \<and>
       (Impersonated c \<longrightarrow> acUserID (ActorFromContext (rqCtx r)) = cActorID c)"
    using em by (auto simp: ga eventScope_eq actor_types split: if_splits)
  show ?thesis using pos g ga hl rows by (auto simp: ok(1))
qed

theorem step_up_gate_exact_witness:
  "\<exists>g. RequireFreshAuth (300 * 10 ^ 9) [''acr''] [] 391 = Some g \<and>
     g ((exampleRequest '''')\<lparr>rqCtx := decorateAuthed emptyCtx exampleImpersonated\<rparr>) = Stop (StepUpRequired 300 [''acr''] 90 391)"
proof -
  let ?r = "(exampleRequest '''')\<lparr>rqCtx := decorateAuthed emptyCtx exampleImpersonated\<rparr>"
  obtain g ga where g: "RequireFreshAuth (300 * 10 ^ 9) [''acr''] [] 391 = Some g"
    "RequireFreshAuthWithAudit (\<lambda>_. None) ''e'' 7 (300 * 10 ^ 9) [''acr''] True ''denied'' ''x'' [] 391 = Some ga"
    by (simp add: RequireFreshAuth_def RequireFreshAuthWithAudit_def prepareStepUpConfig_def)
  from step_up_gate_exact [OF g, of ?r emptyCtx exampleImpersonated 391] g(1) show ?thesis
    by (simp add: stepUpClock_def exampleImpersonated_def)
qed

text \<open>
  The success signal and the gate agree. When a step-up asked for an age of at least
  a second and for classes, the federated flow reports it satisfied exactly when the
  delivered authentication carries an instant and a token minted from it would pass a gate
  of that policy at that moment; with nothing asked for, nothing is satisfied.
\<close>

theorem step_up_signal_agrees:
  assumes "10 ^ 9 \<le> maxAge" "acrValues \<noteq> []"
  shows "(StepUpSatisfied (Seconds maxAge) acrValues (cAuthTime c) (cACR c) now \<longleftrightarrow>
      0 < cAuthTime c \<and> snd (snd (snd (evaluateStepUpGate (Some c) maxAge (set acrValues) now [])))) \<and>
    \<not> StepUpSatisfied 0 [] (cAuthTime c) (cACR c) now"
proof -
  have pos: "0 < maxAge" using assms(1) by simp
  have s: "Seconds maxAge = maxAge div 10 ^ 9" "0 < maxAge div 10 ^ 9" using assms(1) pos by simp_all
  show ?thesis
    unfolding evaluateStepUpGate_ok(1) [OF pos] s(1) StepUpSatisfied_def using s(2) assms(2) by auto
qed

theorem step_up_signal_agrees_witness:
  "StepUpSatisfied 300 [''acr''] 90 ''acr'' 390 \<and> \<not> StepUpSatisfied 300 [''acr''] 90 ''acr'' 391"
proof -
  have "(10::int) ^ 9 \<le> 300 * 10 ^ 9" "[''acr''] \<noteq> []" by simp_all
  from step_up_signal_agrees [OF this, of exampleImpersonated 390] step_up_signal_agrees [OF this, of exampleImpersonated 391]
  show ?thesis by (simp add: evaluateStepUpGate_ok exampleImpersonated_def)
qed

section \<open>Entity tags on the wire\<close>

lemma splitCommas_joinCommas:
  assumes "\<forall>s\<in>set (p # ps). CHR '','' \<notin> set s"
  shows "splitCommas (joinCommas (p # ps)) = p # map (\<lambda>q. CHR '' '' # q) ps"
  using assms
proof (induction ps arbitrary: p)
  case Nil
  then show ?case by (simp add: splitCommas_plain)
next
  case (Cons q ps)
  have "splitCommas (CHR '' '' # joinCommas (q # ps)) = (CHR '' '' # q) # map (\<lambda>q. CHR '' '' # q) ps"
    using Cons by (simp split: list.splits)
  then show ?case using Cons.prems by (simp add: splitCommas_append)
qed

text \<open>A served tag starts with its prefix and ends with a quote, so nothing is trimmed from it.\<close>

lemma served_tag_normal:
  assumes "t = ''W/'' @ [CHR 0x22] @ b @ [CHR 0x22]"
  shows "NormalizeETag t = [CHR 0x22] @ b @ [CHR 0x22]" "NormalizeETag (CHR '' '' # t) = [CHR 0x22] @ b @ [CHR 0x22]"
proof -
  have "\<not> isSpaceChar (CHR ''W'')" "\<not> isSpaceChar (CHR 0x22)" by code_simp+
  then have "trimSpace t = t" using assms by (intro trimSpace_id) auto
  then show "NormalizeETag t = [CHR 0x22] @ b @ [CHR 0x22]" "NormalizeETag (CHR '' '' # t) = [CHR 0x22] @ b @ [CHR 0x22]"
    by (simp_all add: NormalizeETag_def trimSpace_lead assms trimPrefix_def etagWeakPrefix_def)
qed

text \<open>
  Conditional writes. With the decimal printing of instants injective and free of
  commas, a client that sends back any list of tags it was served passes the precondition
  exactly when the resource's current version is among them; otherwise it is told 412. No
  header, or the wildcard, asks for nothing.
\<close>

theorem if_match_exact:
  assumes "inj printInt" "\<And>n. CHR '','' \<notin> set (printInt n)"
    "header = joinCommas (map (\<lambda>v. ResourceETag printInt (Some v)) (k # ks))"
  shows "CheckIfMatch header (ResourceETag printInt (Some n)) =
      (if n \<in> set (k # ks) then (True, 0, '''') else (False, 412, ''PRECONDITION_FAILED'')) \<and>
    CheckIfMatch '''' (ResourceETag printInt (Some n)) = (True, 0, '''') \<and>
    CheckIfMatch ''*'' (ResourceETag printInt (Some n)) = (True, 0, '''')"
proof -
  let ?tag = "\<lambda>v. ResourceETag printInt (Some v)"
  have tag: "?tag v = ''W/'' @ [CHR 0x22] @ printInt v @ [CHR 0x22]" for v
    by (simp add: ResourceETag_def etagWeakPrefix_def)
  have norm: "NormalizeETag (?tag v) = [CHR 0x22] @ printInt v @ [CHR 0x22]"
    "NormalizeETag (CHR '' '' # ?tag v) = [CHR 0x22] @ printInt v @ [CHR 0x22]" for v
    using served_tag_normal [OF tag] by blast+
  have eq: "printInt v = printInt n \<longleftrightarrow> v = n" for v using assms(1) by (simp add: inj_eq)
  have sp: "splitCommas header = ?tag k # map (\<lambda>q. CHR '' '' # q) (map ?tag ks)"
    unfolding assms(3) list.map(2) by (rule splitCommas_joinCommas) (use assms(2) in \<open>auto simp: tag\<close>)
  have ends: "\<exists>m. header = ''W/'' @ [CHR 0x22] @ m @ [CHR 0x22]"
  proof -
    have "\<exists>m. joinCommas (map ?tag (v # vs)) = ''W/'' @ [CHR 0x22] @ m @ [CHR 0x22]" for v vs
    proof (induction vs arbitrary: v)
      case (Cons w vs)
      then obtain m where "joinCommas (map ?tag (w # vs)) = ''W/'' @ [CHR 0x22] @ m @ [CHR 0x22]" by blast
      then show ?case by (intro exI [of _ "printInt v @ [CHR 0x22] @ '', '' @ ''W/'' @ [CHR 0x22] @ m"]) (simp add: tag)
    qed (auto simp: tag)
    then show ?thesis using assms(3) by blast
  qed
  then have "trimSpace header = header"
  proof -
    have "\<not> isSpaceChar (CHR ''W'')" "\<not> isSpaceChar (CHR 0x22)" by code_simp+
    with ends show ?thesis by (intro trimSpace_id) auto
  qed
  moreover have "header \<noteq> ''''" "header \<noteq> ''*''" using ends by auto
  moreover have "list_ex (\<lambda>part. NormalizeETag part = NormalizeETag (?tag n)) (splitCommas header) \<longleftrightarrow> n \<in> set (k # ks)"
    unfolding sp by (auto simp: list_ex_iff norm eq)
  moreover have "trimSpace '''' = ''''" "trimSpace ''*'' = ''*''" by code_simp+
  ultimately show ?thesis by (simp add: CheckIfMatch_def)
qed

theorem if_match_exact_witness:
  "CheckIfMatch ([CHR ''W'', CHR ''/'', CHR 0x22, CHR ''1'', CHR 0x22])
     ([CHR ''W'', CHR ''/'', CHR 0x22, CHR ''1'', CHR ''1'', CHR 0x22]) = (False, 412, ''PRECONDITION_FAILED'')"
proof -
  let ?p = "\<lambda>n::int. (if n < 0 then ''-'' else '''') @ replicate (nat \<bar>n\<bar>) (CHR ''1'')"
  have "?p m = ?p n \<Longrightarrow> m = n" for m n
  proof -
    assume a: "?p m = ?p n"
    then have "length (filter (\<lambda>c. c = CHR ''1'') (?p m)) = length (filter (\<lambda>c. c = CHR ''1'') (?p n))" by simp
    then have "nat \<bar>m\<bar> = nat \<bar>n\<bar>" by (simp split: if_splits)
    moreover have "m < 0 \<longleftrightarrow> n < 0"
      using arg_cong [OF a, of "\<lambda>s. CHR ''-'' \<in> set s"] by (auto split: if_splits)
    ultimately show "m = n" by linarith
  qed
  then have "inj ?p" by (rule injI)
  moreover have "\<And>n. CHR '','' \<notin> set (?p n)" by auto
  ultimately have "CheckIfMatch (joinCommas (map (\<lambda>v. ResourceETag ?p (Some v)) [1])) (ResourceETag ?p (Some 2)) =
      (if 2 \<in> set [1::int] then (True, 0, '''') else (False, 412, ''PRECONDITION_FAILED''))"
    using if_match_exact [of ?p "joinCommas (map (\<lambda>v. ResourceETag ?p (Some v)) [1])" 1 "[]" 2] by simp
  then show ?thesis by (simp add: ResourceETag_def etagWeakPrefix_def numeral_2_eq_2)
qed

end
