(* ===== verification/Espresso_StartLogin.thy ===== *)
theory Espresso_StartLogin
  imports Tenant_Domain Identity_Sessions
begin

text \<open>
  Package \<^verbatim>\<open>espresso\<close>, home-realm routing (\<^verbatim>\<open>startlogin.go\<close>): an unauthenticated caller's
  email is resolved to the identity provider of its domain, or to the password form. The
  domain store, the tenant store and the limiter are arguments. The clock is read twice, at
  the start and in the deferred pad; the two readings are arguments and the pad, how long
  the call sleeps, is part of the result.
\<close>

section \<open>Configuration\<close>

record StartLoginResult =
  slTenantID :: string
  slProviderID :: string
  slEnforceSSO :: bool
  slRetryAfter :: int

definition zeroStartLogin :: StartLoginResult where
  "zeroStartLogin = \<lparr>slTenantID = '''', slProviderID = '''', slEnforceSSO = False, slRetryAfter = 0\<rparr>"

datatype start_login_err = StartLoginThrottled | StartLoginEmail ident_err | StartLoginStore tenant_err

definition defaultStartLoginFloor :: int where
  "defaultStartLoginFloor = 50 * 10 ^ 6"

text \<open>\<^verbatim>\<open>strings.LastIndex\<close> of the at sign, and what follows it.\<close>

fun afterLastAt :: "string \<Rightarrow> string option" where
  "afterLastAt [] = None"
| "afterLastAt (c # s) = (case afterLastAt s of Some d \<Rightarrow> Some d | None \<Rightarrow> if c = CHR ''@'' then Some s else None)"

definition defaultThrottleKey :: "string \<Rightarrow> string" where
  "defaultThrottleKey email =
     (let lowered = toLower (trimSpace email) in
      case afterLastAt lowered of Some d \<Rightarrow> ''startlogin:'' @ d | None \<Rightarrow> ''startlogin:'' @ lowered)"

record startLoginConfig =
  lcTenants :: "(string \<Rightarrow> tenant_err + Descriptor) option"
  lcThrottle :: "(string \<Rightarrow> bool \<times> int) option"
  lcFloor :: int
  lcKey :: "string \<Rightarrow> string"

datatype StartLoginOption =
    WithStartLoginTenants "(string \<Rightarrow> tenant_err + Descriptor) option"
  | WithStartLoginThrottle "(string \<Rightarrow> bool \<times> int) option"
  | WithStartLoginFloor int
  | WithStartLoginThrottleKey "(string \<Rightarrow> string) option"

fun applyStartLogin :: "startLoginConfig \<Rightarrow> StartLoginOption \<Rightarrow> startLoginConfig" where
  "applyStartLogin c (WithStartLoginTenants s) = c\<lparr>lcTenants := s\<rparr>"
| "applyStartLogin c (WithStartLoginThrottle t) = c\<lparr>lcThrottle := t\<rparr>"
| "applyStartLogin c (WithStartLoginFloor d) = c\<lparr>lcFloor := d\<rparr>"
| "applyStartLogin c (WithStartLoginThrottleKey fn) = (case fn of Some f \<Rightarrow> c\<lparr>lcKey := f\<rparr> | None \<Rightarrow> c)"

definition startLoginOptions :: "StartLoginOption list \<Rightarrow> startLoginConfig" where
  "startLoginOptions opts = foldl applyStartLogin
     \<lparr>lcTenants = None, lcThrottle = None, lcFloor = defaultStartLoginFloor, lcKey = defaultThrottleKey\<rparr> opts"

section \<open>The call\<close>

fun isDomainNotNormalised :: "tenant_err \<Rightarrow> bool" where
  "isDomainNotNormalised ErrDomainNotNormalised = True"
| "isDomainNotNormalised _ = False"

definition startLoginPad :: "int \<Rightarrow> int \<Rightarrow> int \<Rightarrow> int" where
  "startLoginPad floor started finished =
     (if floor \<le> 0 then 0
      else let elapsed = finished - started in if elapsed < floor then floor - elapsed else 0)"

definition startLoginBody :: "startLoginConfig \<Rightarrow> (string \<Rightarrow> tenant_err + DomainRecord) \<Rightarrow> string
    \<Rightarrow> StartLoginResult \<times> start_login_err option" where
  "startLoginBody cfg byDomain email =
     (case askThrottle (lcThrottle cfg) (lcKey cfg email) of
        Some retryAfter \<Rightarrow> (zeroStartLogin\<lparr>slRetryAfter := retryAfter\<rparr>, Some StartLoginThrottled)
      | None \<Rightarrow> (case NormaliseEmail email of
          Inl err \<Rightarrow> (zeroStartLogin, Some (StartLoginEmail err))
        | Inr normalised \<Rightarrow> (case afterLastAt normalised of
            None \<Rightarrow> (zeroStartLogin, Some (StartLoginEmail ErrInvalidEmail))
          | Some domain \<Rightarrow>
              if domain = '''' then (zeroStartLogin, Some (StartLoginEmail ErrInvalidEmail))
              else (case ResolveDomain byDomain domain of
                  Inl err \<Rightarrow> if isNotFound err \<or> isDomainNotNormalised err then (zeroStartLogin, None)
                             else (zeroStartLogin, Some (StartLoginStore err))
                | Inr rec \<Rightarrow>
                    let bind = (let provider = BoundProviderID rec in
                          if provider = '''' then (zeroStartLogin, None)
                          else (\<lparr>slTenantID = drTenantID rec, slProviderID = provider, slEnforceSSO = True, slRetryAfter = 0\<rparr>, None))
                    in (case lcTenants cfg of
                        None \<Rightarrow> bind
                      | Some byID \<Rightarrow> (case byID (drTenantID rec) of
                          Inl terr \<Rightarrow> if isNotFound terr then (zeroStartLogin, None)
                                      else (zeroStartLogin, Some (StartLoginStore terr))
                        | Inr desc \<Rightarrow> if descStatus desc \<noteq> StatusActive then (zeroStartLogin, None) else bind))))))"

definition StartLogin :: "(string \<Rightarrow> tenant_err + DomainRecord) \<Rightarrow> string \<Rightarrow> StartLoginOption list \<Rightarrow> int \<Rightarrow> int
    \<Rightarrow> StartLoginResult \<times> start_login_err option \<times> int" where
  "StartLogin byDomain email opts started finished =
     (let cfg = startLoginOptions opts; (res, err) = startLoginBody cfg byDomain email
      in (res, err, startLoginPad (lcFloor cfg) started finished))"

section \<open>Properties\<close>

lemma afterLastAt_Some: "afterLastAt s = Some d \<longleftrightarrow> (\<exists>a. s = a @ CHR ''@'' # d \<and> CHR ''@'' \<notin> set d)"
proof (induction s)
  case (Cons c s)
  have none: "afterLastAt s = None \<longleftrightarrow> CHR ''@'' \<notin> set s" for s by (induction s) (auto split: option.splits)
  show ?case
  proof (cases "afterLastAt s")
    case None
    then show ?thesis using none [of s] by (auto simp: Cons_eq_append_conv)
  next
    case (Some d')
    with none [of s] have "CHR ''@'' \<in> set s" by simp
    with Some Cons.IH show ?thesis by (auto simp: Cons_eq_append_conv)
  qed
qed simp

lemma NormaliseEmail_domain:
  assumes "NormaliseEmail raw = Inr e"
  shows "\<exists>d. afterLastAt e = Some d \<and> d \<noteq> '''' \<and> defaultThrottleKey raw = ''startlogin:'' @ d"
proof -
  have e: "e = toLower (trimSpace raw)" using assms
    by (auto simp: NormaliseEmail_def Let_def split: if_splits option.splits)
  obtain i where i: "indexByte (CHR ''@'') e = Some i" "CHR ''@'' \<notin> set (drop (i + 1) e)" "i \<noteq> length e - 1"
    using assms e by (auto simp: NormaliseEmail_def Let_def split: if_splits option.splits)
  let ?b = "drop (i + 1) e"
  have "i < length e" "e ! i = CHR ''@''" using i(1) by (simp_all add: indexByte_Some)
  then have "e = take i e @ CHR ''@'' # ?b" "?b \<noteq> ''''" using i(3) id_take_nth_drop [of i e] by auto
  then have "afterLastAt e = Some ?b" "?b \<noteq> ''''" using i(2) afterLastAt_Some by blast+
  then show ?thesis using e by (simp add: defaultThrottleKey_def)
qed

text \<open>
  The one answer that names a tenant, as a relation between the stores and an address.
\<close>

definition routesTo :: "startLoginConfig \<Rightarrow> (string \<Rightarrow> tenant_err + DomainRecord) \<Rightarrow> string \<Rightarrow> DomainRecord \<Rightarrow> bool" where
  "routesTo cfg byDomain email rec \<longleftrightarrow>
     (\<exists>e d. NormaliseEmail email = Inr e \<and> afterLastAt e = Some d \<and> RequireNormalisedDomain d = None \<and>
        \<not> IsPublicEmailDomain d \<and> byDomain d = Inr rec \<and> drVerified rec \<and> drProviderID rec \<noteq> '''' \<and>
        (\<forall>byID. lcTenants cfg = Some byID \<longrightarrow> (\<exists>desc. byID (drTenantID rec) = Inr desc \<and> descStatus desc = StatusActive)))"

lemma ResolveDomain_Inr:
  "ResolveDomain byDomain d = Inr rec \<longleftrightarrow>
     RequireNormalisedDomain d = None \<and> \<not> IsPublicEmailDomain d \<and> byDomain d = Inr rec \<and> drVerified rec"
  by (auto simp: ResolveDomain_def split: option.splits sum.splits)

lemma startLoginBody_named:
  assumes "startLoginBody cfg byDomain email = (res, err)" "slTenantID res \<noteq> '''' \<or> slProviderID res \<noteq> '''' \<or> slEnforceSSO res"
  shows "err = None \<and> (\<exists>rec. routesTo cfg byDomain email rec \<and>
    res = \<lparr>slTenantID = drTenantID rec, slProviderID = drProviderID rec, slEnforceSSO = True, slRetryAfter = 0\<rparr>)"
proof -
  have z: "slTenantID (zeroStartLogin\<lparr>slRetryAfter := w\<rparr>) = ''''" "slProviderID (zeroStartLogin\<lparr>slRetryAfter := w\<rparr>) = ''''"
    "\<not> slEnforceSSO (zeroStartLogin\<lparr>slRetryAfter := w\<rparr>)" "slTenantID zeroStartLogin = ''''" "slProviderID zeroStartLogin = ''''"
    "\<not> slEnforceSSO zeroStartLogin" for w by (simp_all add: zeroStartLogin_def)
  from assms obtain e d rec where a: "NormaliseEmail email = Inr e" "afterLastAt e = Some d" "ResolveDomain byDomain d = Inr rec"
    by (auto simp: startLoginBody_def z split: option.splits sum.splits if_splits)
  with assms z have b: "\<forall>byID. lcTenants cfg = Some byID \<longrightarrow> (\<exists>desc. byID (drTenantID rec) = Inr desc \<and> descStatus desc = StatusActive)"
    "BoundProviderID rec \<noteq> ''''" "err = None"
    "res = \<lparr>slTenantID = drTenantID rec, slProviderID = BoundProviderID rec, slEnforceSSO = True, slRetryAfter = 0\<rparr>"
    by (auto simp: startLoginBody_def Let_def split: option.splits sum.splits if_splits)
  have "drVerified rec" using a(3) by (simp add: ResolveDomain_Inr)
  then have "BoundProviderID rec = drProviderID rec" by (simp add: BoundProviderID_def)
  then show ?thesis using a b by (auto simp: routesTo_def ResolveDomain_Inr)
qed

lemma startLoginBody_routes:
  assumes "routesTo cfg byDomain email rec" "askThrottle (lcThrottle cfg) (lcKey cfg email) = None"
  shows "startLoginBody cfg byDomain email =
    (\<lparr>slTenantID = drTenantID rec, slProviderID = drProviderID rec, slEnforceSSO = True, slRetryAfter = 0\<rparr>, None)"
proof -
  obtain e d where e: "NormaliseEmail email = Inr e" "afterLastAt e = Some d" "ResolveDomain byDomain d = Inr rec" "drVerified rec"
      "drProviderID rec \<noteq> ''''"
    "\<forall>byID. lcTenants cfg = Some byID \<longrightarrow> (\<exists>desc. byID (drTenantID rec) = Inr desc \<and> descStatus desc = StatusActive)"
    using assms(1) by (auto simp: routesTo_def ResolveDomain_Inr)
  moreover have "d \<noteq> ''''" using NormaliseEmail_domain [OF e(1)] e(2) by auto
  ultimately show ?thesis using assms(2) by (cases "lcTenants cfg") (auto simp: startLoginBody_def BoundProviderID_def Let_def)
qed



end
