(* ===== verification/Oidc_Provider.thy ===== *)
theory Oidc_Provider
  imports Tamper_Prelude Complex_Main
begin

text \<open>
  Package \<^verbatim>\<open>oidc\<close>: building a provider and a registry (\<^verbatim>\<open>provider.go\<close>), the groups of a
  claim set (\<^verbatim>\<open>mapper.go\<close>) and the claims of an ID token (\<^verbatim>\<open>claims.go\<close>).

  Discovery and the verification of a token are the library's: discovery is a function of the
  issuer, the verifier a function of the raw token. A decoded JSON value is a \<^verbatim>\<open>go_any\<close>; a
  \<^verbatim>\<open>float64\<close> is the rational it stands for, a \<^verbatim>\<open>json.Number\<close> its text and what its \<^verbatim>\<open>Int64\<close> yields, and the
  conversion of a \<^verbatim>\<open>float64\<close> to \<^verbatim>\<open>int64\<close>, which Go leaves open beyond its range, is an argument.
\<close>

section \<open>Providers\<close>

record ProviderConfig =
  pcID :: string
  pcIssuerURL :: string
  pcClientID :: string
  pcClientSecret :: string
  pcRedirectURL :: string
  pcDisplayName :: string
  pcScopes :: "string list"
  pcGroupsClaim :: string

text \<open>What discovery finds: the endpoints, or that they could not be decoded.\<close>

record Discovery =
  diAuthURL :: string
  diTokenURL :: string
  diExtras :: "(string \<times> string \<times> string list) option"

datatype oidc_err =
    ErrConfig string
  | ErrDiscoveryFailed string
  | ErrUnknownProvider
  | ErrIDTokenInvalid string
  | ErrNonceMismatch
  | ErrProviderNil

record OidcLib =
  olNewProvider :: "string \<Rightarrow> string + Discovery"
  olURLParses :: "string \<Rightarrow> bool"

record Provider =
  pvConfig :: ProviderConfig
  pvDiscovery :: Discovery
  pvScopes :: "string list"
  pvUserInfoURL :: string
  pvJWKSURL :: string

definition isProviderIDChar :: "char \<Rightarrow> bool" where
  "isProviderIDChar c =
     (let n = (of_char c :: nat) in 97 \<le> n \<and> n \<le> 122 \<or> 65 \<le> n \<and> n \<le> 90 \<or> 48 \<le> n \<and> n \<le> 57 \<or> c = CHR ''-'' \<or> c = CHR ''_'')"

definition validProviderID :: "string \<Rightarrow> bool" where
  "validProviderID i = (i \<noteq> '''' \<and> list_all isProviderIDChar i)"

definition ScopeOpenID :: string where
  "ScopeOpenID = ''openid''"

definition normaliseScopes :: "string list \<Rightarrow> string list" where
  "normaliseScopes ss =
     (if ss = [] then [ScopeOpenID, ''profile'', ''email'']
      else if list_ex (\<lambda>s. s = ScopeOpenID) ss then ss
      else ScopeOpenID # ss)"

definition BuildProvider :: "OidcLib \<Rightarrow> ProviderConfig \<Rightarrow> oidc_err + Provider" where
  "BuildProvider lib cfg =
     (if pcID cfg = '''' then Inl (ErrConfig ''provider id is required'')
      else if pcIssuerURL cfg = '''' then Inl (ErrConfig ''issuerURL is required'')
      else if pcClientID cfg = '''' then Inl (ErrConfig ''clientID is required'')
      else if \<not> validProviderID (pcID cfg) then Inl (ErrConfig ''provider id is not a URL-safe path segment'')
      else if pcRedirectURL cfg = '''' then Inl (ErrConfig ''redirect URL is empty'')
      else if \<not> olURLParses lib (pcRedirectURL cfg) then Inl (ErrConfig ''redirect URL does not parse'')
      else
        let scopes = normaliseScopes (pcScopes cfg) in
        (case olNewProvider lib (pcIssuerURL cfg) of
           Inl err \<Rightarrow> Inl (ErrDiscoveryFailed err)
         | Inr d \<Rightarrow> (case diExtras d of
             None \<Rightarrow> Inl (ErrDiscoveryFailed ''parse discovery endpoints'')
           | Some (jwks, userinfo, algs) \<Rightarrow>
               Inr \<lparr>pvConfig = cfg\<lparr>pcScopes := scopes\<rparr>, pvDiscovery = d, pvScopes = scopes,
                    pvUserInfoURL = userinfo, pvJWKSURL = jwks\<rparr>)))"

section \<open>Registries\<close>

text \<open>A registry, \<^verbatim>\<open>None\<close> being the nil pointer.\<close>

record ProviderRegistry =
  rgProviders :: "(string, Provider) go_map"
  rgOrder :: "string list"

fun buildEntries :: "OidcLib \<Rightarrow> bool \<Rightarrow> ProviderConfig list \<Rightarrow> ProviderRegistry \<Rightarrow> oidc_err + ProviderRegistry" where
  "buildEntries lib partialOK [] reg = Inr reg"
| "buildEntries lib partialOK (cfg # cfgs) reg =
     (if map_of (rgProviders reg) (pcID cfg) \<noteq> None then Inl (ErrConfig ''duplicate provider id in provider list'')
      else (case BuildProvider lib cfg of
          Inl err \<Rightarrow> if partialOK then buildEntries lib partialOK cfgs reg else Inl err
        | Inr p \<Rightarrow> buildEntries lib partialOK cfgs
            \<lparr>rgProviders = AList.update (pcID cfg) p (rgProviders reg), rgOrder = rgOrder reg @ [pcID cfg]\<rparr>))"

definition BuildRegistryFromConfigs :: "OidcLib \<Rightarrow> ProviderConfig list \<Rightarrow> bool \<Rightarrow> oidc_err + ProviderRegistry option" where
  "BuildRegistryFromConfigs lib providers partialOK =
     (if providers = [] then Inr None
      else (case buildEntries lib partialOK providers \<lparr>rgProviders = [], rgOrder = []\<rparr> of
          Inl err \<Rightarrow> Inl err
        | Inr reg \<Rightarrow> Inr (Some reg)))"

definition registryGet :: "ProviderRegistry option \<Rightarrow> string \<Rightarrow> oidc_err + Provider" where
  "registryGet r i =
     (case r of
        None \<Rightarrow> Inl ErrUnknownProvider
      | Some reg \<Rightarrow> (case map_of (rgProviders reg) i of None \<Rightarrow> Inl ErrUnknownProvider | Some p \<Rightarrow> Inr p))"

record ProviderSummary =
  psID :: string
  psDisplayName :: string

text \<open>A listed id without a provider would be a nil dereference: \<^verbatim>\<open>None\<close>.\<close>

definition registryList :: "ProviderRegistry option \<Rightarrow> ProviderSummary list option" where
  "registryList r =
     (case r of
        None \<Rightarrow> Some []
      | Some reg \<Rightarrow>
          if list_ex (\<lambda>i. map_of (rgProviders reg) i = None) (rgOrder reg) then None
          else Some (map (\<lambda>i.
            let display = pcDisplayName (pvConfig (the (map_of (rgProviders reg) i))) in
            \<lparr>psID = i, psDisplayName = (if display = '''' then i else display)\<rparr>) (rgOrder reg)))"

section \<open>Claims\<close>

datatype go_any =
    AnyNil
  | AnyString string
  | AnyBool bool
  | AnyFloat rat
  | AnyInt64 int
  | AnyNumber string "int option"
  | AnySlice "go_any list"
  | AnyStrings "string list"
  | AnyMap "(string \<times> go_any) list"

definition trimmedNonEmpty :: "string list \<Rightarrow> string list" where
  "trimmedNonEmpty ss = filter (\<lambda>t. t \<noteq> '''') (map trimSpace ss)"

fun stringsOf :: "go_any list \<Rightarrow> string list" where
  "stringsOf [] = []"
| "stringsOf (AnyString s # items) = s # stringsOf items"
| "stringsOf (_ # items) = stringsOf items"

definition ExtractGroups :: "(string, go_any) go_map \<Rightarrow> string \<Rightarrow> string list" where
  "ExtractGroups claims claimName =
     (if claims = [] then []
      else
        let key = (if claimName = '''' then ''groups'' else claimName) in
        (case map_of claims key of
           None \<Rightarrow> []
         | Some (AnySlice items) \<Rightarrow> trimmedNonEmpty (stringsOf items)
         | Some (AnyStrings items) \<Rightarrow> trimmedNonEmpty items
         | Some (AnyString v) \<Rightarrow> if v = '''' then [] else trimmedNonEmpty (splitCommas v)
         | Some _ \<Rightarrow> []))"

record IDClaims =
  icSub :: string
  icEmail :: string
  icEmailVerified :: bool
  icName :: string
  icPreferredUsername :: string
  icRaw :: "(string, go_any) go_map"

text \<open>A verified token: its nonce, and its payload decoded into the struct and into a map.\<close>

record IDToken =
  itNonce :: string
  itTyped :: "string + IDClaims"
  itRaw :: "string + (string, go_any) go_map"

definition VerifyIDToken :: "(Provider \<Rightarrow> string \<Rightarrow> string + IDToken) \<Rightarrow> Provider option \<Rightarrow> string \<Rightarrow> string \<Rightarrow> oidc_err + IDClaims" where
  "VerifyIDToken verify p rawIDToken expectedNonce =
     (case p of
        None \<Rightarrow> Inl ErrProviderNil
      | Some pv \<Rightarrow> (case verify pv rawIDToken of
          Inl err \<Rightarrow> Inl (ErrIDTokenInvalid err)
        | Inr tok \<Rightarrow>
            if expectedNonce \<noteq> '''' \<and> itNonce tok \<noteq> expectedNonce then Inl ErrNonceMismatch
            else (case itTyped tok of
                Inl err \<Rightarrow> Inl (ErrIDTokenInvalid err)
              | Inr typed \<Rightarrow> (case itRaw tok of
                  Inl err \<Rightarrow> Inl (ErrIDTokenInvalid err)
                | Inr raw \<Rightarrow>
                    if icSub typed = '''' then Inl (ErrIDTokenInvalid ''id token has no sub claim'')
                    else Inr (typed\<lparr>icRaw := raw\<rparr>)))))"

definition idTokenWins :: "string list" where
  "idTokenWins = [''sub'', ''aud'', ''iss'', ''exp'', ''nonce'', ''iat'', ''at_hash'']"

definition userinfoString :: "(string, go_any) go_map \<Rightarrow> string \<Rightarrow> string \<Rightarrow> string" where
  "userinfoString userinfo key old =
     (case map_of userinfo key of Some (AnyString s) \<Rightarrow> if s \<noteq> '''' then s else old | _ \<Rightarrow> old)"

fun overlayClaims :: "(string, go_any) go_map \<Rightarrow> (string, go_any) go_map \<Rightarrow> (string, go_any) go_map" where
  "overlayClaims [] raw = raw"
| "overlayClaims ((k, v) # rest) raw =
     overlayClaims rest (if k \<in> set idTokenWins then raw else AList.update k v raw)"

definition MergeUserinfoIntoClaims :: "IDClaims option \<Rightarrow> (string, go_any) go_map \<Rightarrow> IDClaims option" where
  "MergeUserinfoIntoClaims idClaims userinfo =
     (case idClaims of
        None \<Rightarrow> None
      | Some c \<Rightarrow>
          if userinfo = [] then Some c
          else Some (c\<lparr>icRaw := overlayClaims userinfo (icRaw c),
                       icEmail := userinfoString userinfo ''email'' (icEmail c),
                       icName := userinfoString userinfo ''name'' (icName c)\<rparr>))"

text \<open>The endpoint's answer: the call may fail, and so may the decoding of its claims.\<close>

definition FetchUserinfo :: "(Provider \<Rightarrow> string \<Rightarrow> string + (string + (string, go_any) go_map)) \<Rightarrow> Provider option \<Rightarrow> string
    \<Rightarrow> oidc_err + (string, go_any) go_map" where
  "FetchUserinfo call p accessToken =
     (case p of
        None \<Rightarrow> Inl (ErrIDTokenInvalid ''provider has no userinfo endpoint'')
      | Some pv \<Rightarrow>
          if pvUserInfoURL pv = '''' then Inl (ErrIDTokenInvalid ''provider has no userinfo endpoint'')
          else (case call pv accessToken of
              Inl err \<Rightarrow> Inl (ErrIDTokenInvalid err)
            | Inr (Inl err) \<Rightarrow> Inl (ErrIDTokenInvalid err)
            | Inr (Inr raw) \<Rightarrow> Inr raw))"

definition AuthTime :: "(rat \<Rightarrow> int) \<Rightarrow> IDClaims option \<Rightarrow> int \<Rightarrow> int" where
  "AuthTime int64 c nowUnix =
     (case c of
        None \<Rightarrow> nowUnix
      | Some cl \<Rightarrow> (case map_of (icRaw cl) ''auth_time'' of
          Some (AnyFloat t) \<Rightarrow> if t > 0 then int64 t else nowUnix
        | Some (AnyInt64 t) \<Rightarrow> if t > 0 then t else nowUnix
        | Some (AnyNumber s (Some n)) \<Rightarrow> if n > 0 then n else nowUnix
        | _ \<Rightarrow> nowUnix))"

definition claimsACR :: "IDClaims option \<Rightarrow> string \<Rightarrow> string" where
  "claimsACR c fallback =
     (case c of
        None \<Rightarrow> fallback
      | Some cl \<Rightarrow> (case map_of (icRaw cl) ''acr'' of
          Some (AnyString v) \<Rightarrow> if v \<noteq> '''' then v else fallback
        | _ \<Rightarrow> fallback))"

section \<open>What a registry holds\<close>

definition builds :: "OidcLib \<Rightarrow> ProviderConfig \<Rightarrow> bool" where
  "builds lib cfg \<longleftrightarrow> (\<exists>p. BuildProvider lib cfg = Inr p)"

lemma BuildProvider_Inr:
  "BuildProvider lib cfg = Inr p \<Longrightarrow> validProviderID (pcID cfg) \<and> pcID (pvConfig p) = pcID cfg \<and> ScopeOpenID \<in> set (pvScopes p)"
  by (auto simp: BuildProvider_def Let_def normaliseScopes_def list_ex_iff split: if_splits sum.splits option.splits)

lemma buildEntries_partial:
  assumes "distinct (map pcID cfgs)" "\<forall>cfg\<in>set cfgs. map_of (rgProviders reg) (pcID cfg) = None"
  shows "\<exists>reg'. buildEntries lib True cfgs reg = Inr reg' \<and>
    rgOrder reg' = rgOrder reg @ map pcID (filter (builds lib) cfgs) \<and>
    (\<forall>i. map_of (rgProviders reg') i =
      (case find (\<lambda>cfg. pcID cfg = i \<and> builds lib cfg) cfgs of
         Some cfg \<Rightarrow> Some (projr (BuildProvider lib cfg))
       | None \<Rightarrow> map_of (rgProviders reg) i))"
  using assms
proof (induction cfgs arbitrary: reg)
  case (Cons cfg cfgs)
  have new: "map_of (rgProviders reg) (pcID cfg) = None" using Cons.prems(2) by simp
  have other: "pcID c \<noteq> pcID cfg" if "c \<in> set cfgs" for c using Cons.prems(1) that by (auto simp: image_iff)
  show ?case
  proof (cases "BuildProvider lib cfg")
    case (Inl err)
    then have nb: "\<not> builds lib cfg" by (simp add: builds_def)
    have IH: "\<exists>reg'. buildEntries lib True cfgs reg = Inr reg' \<and>
      rgOrder reg' = rgOrder reg @ map pcID (filter (builds lib) cfgs) \<and>
      (\<forall>i. map_of (rgProviders reg') i =
        (case find (\<lambda>cfg. pcID cfg = i \<and> builds lib cfg) cfgs of
           Some cfg \<Rightarrow> Some (projr (BuildProvider lib cfg))
         | None \<Rightarrow> map_of (rgProviders reg) i))"
      using Cons.prems by (intro Cons.IH) auto
    with Inl nb new show ?thesis by simp
  next
    case (Inr p)
    then have b: "builds lib cfg" by (simp add: builds_def)
    let ?reg = "\<lparr>rgProviders = AList.update (pcID cfg) p (rgProviders reg), rgOrder = rgOrder reg @ [pcID cfg]\<rparr>"
    obtain reg' where reg': "buildEntries lib True cfgs ?reg = Inr reg'"
      "rgOrder reg' = rgOrder ?reg @ map pcID (filter (builds lib) cfgs)"
      "\<And>i. map_of (rgProviders reg') i =
        (case find (\<lambda>cfg. pcID cfg = i \<and> builds lib cfg) cfgs of
           Some cfg \<Rightarrow> Some (projr (BuildProvider lib cfg))
         | None \<Rightarrow> map_of (rgProviders ?reg) i)"
      using Cons.IH [of ?reg] Cons.prems other by (auto simp: alist_simps)
    have "find (\<lambda>c. pcID c = pcID cfg \<and> builds lib c) cfgs = None" using other by (auto simp: find_None_iff)
    with reg' Inr b new show ?thesis
      by (auto simp: alist_simps intro!: exI [of _ reg'] split: option.split)
  qed
qed simp

lemma buildEntries_strict:
  assumes "distinct (map pcID cfgs)" "\<forall>cfg\<in>set cfgs. map_of (rgProviders reg) (pcID cfg) = None"
  shows "(\<exists>reg'. buildEntries lib False cfgs reg = Inr reg') \<longleftrightarrow> (\<forall>cfg\<in>set cfgs. builds lib cfg)"
  using assms
proof (induction cfgs arbitrary: reg)
  case (Cons cfg cfgs)
  have other: "pcID c \<noteq> pcID cfg" if "c \<in> set cfgs" for c using Cons.prems(1) that by (auto simp: image_iff)
  show ?case
  proof (cases "BuildProvider lib cfg")
    case (Inr p)
    then show ?thesis
      using Cons.IH [of "\<lparr>rgProviders = AList.update (pcID cfg) p (rgProviders reg), rgOrder = rgOrder reg @ [pcID cfg]\<rparr>"]
        Cons.prems other by (auto simp: alist_simps builds_def)
  qed (use Cons.prems in \<open>simp add: builds_def\<close>)
qed simp

lemma find_config_iff:
  assumes "distinct (map pcID cfgs)"
  shows "find (\<lambda>cfg. pcID cfg = i \<and> builds lib cfg) cfgs = Some c \<longleftrightarrow> c \<in> set cfgs \<and> pcID c = i \<and> builds lib c"
proof
  show "find (\<lambda>cfg. pcID cfg = i \<and> builds lib cfg) cfgs = Some c \<Longrightarrow> c \<in> set cfgs \<and> pcID c = i \<and> builds lib c"
    by (auto simp: find_Some_iff)
  assume c: "c \<in> set cfgs \<and> pcID c = i \<and> builds lib c"
  then obtain c' where c': "find (\<lambda>cfg. pcID cfg = i \<and> builds lib cfg) cfgs = Some c'"
    by (cases "find (\<lambda>cfg. pcID cfg = i \<and> builds lib cfg) cfgs") (auto simp: find_None_iff)
  then have "c' \<in> set cfgs" "pcID c' = pcID c" using c by (auto simp: find_Some_iff)
  then have "c' = c" using assms c by (auto simp: distinct_map dest: inj_onD)
  with c' show "find (\<lambda>cfg. pcID cfg = i \<and> builds lib cfg) cfgs = Some c" by simp
qed

text \<open>
  What a live registry holds. From configurations with distinct ids a registry is built whatever
  providers are unreachable: it lists exactly those that build, in the order given and without a
  dangling id, a lookup finds exactly them, each under an id that is safe in a path and with the
  scope that makes the answer an ID token; built strictly, one that fails fails them all.
\<close>

theorem registry_exact:
  assumes "distinct (map pcID cfgs)" "cfgs \<noteq> []"
  shows "\<exists>reg. BuildRegistryFromConfigs lib cfgs True = Inr (Some reg) \<and>
    (\<exists>summaries. registryList (Some reg) = Some summaries \<and> map psID summaries = map pcID (filter (builds lib) cfgs)) \<and>
    (\<forall>i p. registryGet (Some reg) i = Inr p \<longleftrightarrow> (\<exists>cfg\<in>set cfgs. pcID cfg = i \<and> BuildProvider lib cfg = Inr p)) \<and>
    (\<forall>i p. registryGet (Some reg) i = Inr p \<longrightarrow> validProviderID i \<and> ''openid'' \<in> set (pvScopes p)) \<and>
    ((\<exists>reg'. BuildRegistryFromConfigs lib cfgs False = Inr reg') \<longleftrightarrow> (\<forall>cfg\<in>set cfgs. builds lib cfg))"
proof -
  let ?empty = "\<lparr>rgProviders = [], rgOrder = []\<rparr>"
  obtain reg where reg: "buildEntries lib True cfgs ?empty = Inr reg" "rgOrder reg = map pcID (filter (builds lib) cfgs)"
    "\<And>i. map_of (rgProviders reg) i =
      (case find (\<lambda>cfg. pcID cfg = i \<and> builds lib cfg) cfgs of Some cfg \<Rightarrow> Some (projr (BuildProvider lib cfg)) | None \<Rightarrow> None)"
    using buildEntries_partial [OF assms(1), of ?empty lib] by (auto cong: option.case_cong)
  have get: "registryGet (Some reg) i = Inr p \<longleftrightarrow> (\<exists>cfg\<in>set cfgs. pcID cfg = i \<and> BuildProvider lib cfg = Inr p)" for i p
  proof -
    have "registryGet (Some reg) i = Inr p \<longleftrightarrow>
        (\<exists>cfg. find (\<lambda>cfg. pcID cfg = i \<and> builds lib cfg) cfgs = Some cfg \<and> projr (BuildProvider lib cfg) = p)"
      by (simp add: registryGet_def reg(3) split: option.split)
    then show ?thesis unfolding find_config_iff [OF assms(1)] by (auto simp: builds_def)
  qed
  have "map_of (rgProviders reg) (pcID c) \<noteq> None" if "c \<in> set cfgs" "builds lib c" for c
  proof -
    have "find (\<lambda>cfg. pcID cfg = pcID c \<and> builds lib cfg) cfgs = Some c" using that find_config_iff [OF assms(1)] by blast
    then show ?thesis by (simp add: reg(3))
  qed
  then have "list_ex (\<lambda>i. map_of (rgProviders reg) i = None) (rgOrder reg) = False"
    by (auto simp: list_ex_iff reg(2))
  then have "\<exists>summaries. registryList (Some reg) = Some summaries \<and> map psID summaries = map pcID (filter (builds lib) cfgs)"
    by (simp add: registryList_def Let_def reg(2) o_def)
  moreover have "validProviderID i \<and> ''openid'' \<in> set (pvScopes p)" if "registryGet (Some reg) i = Inr p" for i p
    using that get BuildProvider_Inr [of lib _ p] by (auto simp: ScopeOpenID_def)
  moreover have "(\<exists>reg'. BuildRegistryFromConfigs lib cfgs False = Inr reg') \<longleftrightarrow> (\<forall>cfg\<in>set cfgs. builds lib cfg)"
    using buildEntries_strict [OF assms(1), of ?empty lib] assms(2) by (auto simp: BuildRegistryFromConfigs_def split: sum.splits)
  ultimately show ?thesis using get assms(2)
    by (intro exI [of _ reg]) (simp add: BuildRegistryFromConfigs_def [of lib cfgs True] reg(1))
qed

definition exampleConfig :: "string \<Rightarrow> ProviderConfig" where
  "exampleConfig issuer = \<lparr>pcID = ''okta'', pcIssuerURL = issuer, pcClientID = ''c'', pcClientSecret = ''s'',
     pcRedirectURL = ''https://app/cb'', pcDisplayName = '''', pcScopes = [''email''], pcGroupsClaim = ''''\<rparr>"

definition oneIssuerLib :: OidcLib where
  "oneIssuerLib = \<lparr>olNewProvider = (\<lambda>u. if u = ''https://idp'' then Inr \<lparr>diAuthURL = u, diTokenURL = u, diExtras = Some (u, u, [])\<rparr> else Inl ''no such host''),
     olURLParses = (\<lambda>u. True)\<rparr>"

theorem registry_exact_witness:
  "\<exists>reg. BuildRegistryFromConfigs oneIssuerLib [exampleConfig ''https://idp'', (exampleConfig ''https://down'')\<lparr>pcID := ''down''\<rparr>] True = Inr (Some reg) \<and>
     (\<exists>p. registryGet (Some reg) ''okta'' = Inr p) \<and> (\<forall>p. registryGet (Some reg) ''down'' \<noteq> Inr p)"
proof -
  let ?cfgs = "[exampleConfig ''https://idp'', (exampleConfig ''https://down'')\<lparr>pcID := ''down''\<rparr>]"
  have "\<exists>p. BuildProvider oneIssuerLib (exampleConfig ''https://idp'') = Inr p"
    "\<And>p. BuildProvider oneIssuerLib ((exampleConfig ''https://down'')\<lparr>pcID := ''down''\<rparr>) \<noteq> Inr p"
    by (simp_all add: BuildProvider_def exampleConfig_def oneIssuerLib_def validProviderID_def isProviderIDChar_def Let_def)
  moreover have "distinct (map pcID ?cfgs)" "?cfgs \<noteq> []" by (simp_all add: exampleConfig_def)
  from registry_exact [OF this, of oneIssuerLib] obtain reg where
    "BuildRegistryFromConfigs oneIssuerLib ?cfgs True = Inr (Some reg)"
    "\<And>i p. registryGet (Some reg) i = Inr p \<longleftrightarrow> (\<exists>cfg\<in>set ?cfgs. pcID cfg = i \<and> BuildProvider oneIssuerLib cfg = Inr p)" by blast
  ultimately show ?thesis by (auto simp: exampleConfig_def)
qed

section \<open>Claims from two sources\<close>

lemma map_of_overlayClaims:
  "distinct (map fst userinfo) \<Longrightarrow> map_of (overlayClaims userinfo raw) k =
     (if k \<in> set idTokenWins then map_of raw k else (case map_of userinfo k of Some v \<Rightarrow> Some v | None \<Rightarrow> map_of raw k))"
proof (induction userinfo arbitrary: raw)
  case (Cons kv userinfo)
  obtain k' v where kv: "kv = (k', v)" by fastforce
  have "map_of userinfo k' = None" using Cons.prems kv by (auto simp: map_of_eq_None_iff)
  then show ?case using Cons.IH Cons.prems by (auto simp: kv alist_simps split: option.split)
qed simp

text \<open>
  What the userinfo endpoint can change. After the merge the subject and the seven fixed claims are the
  token's and every other claim is the endpoint's where it sends one. The time and the class of the
  authentication are among the others: the step-up view of the claims then shows what the unsigned
  endpoint sent, not what the token was signed with.
\<close>

theorem userinfo_merge_exact:
  assumes "distinct (map fst userinfo)"
  shows "\<exists>c'. MergeUserinfoIntoClaims (Some c) userinfo = Some c' \<and> icSub c' = icSub c \<and> icEmailVerified c' = icEmailVerified c \<and>
    (\<forall>k. map_of (icRaw c') k =
      (if k \<in> {''sub'', ''aud'', ''iss'', ''exp'', ''nonce'', ''iat'', ''at_hash''} then map_of (icRaw c) k
       else (case map_of userinfo k of Some v \<Rightarrow> Some v | None \<Rightarrow> map_of (icRaw c) k))) \<and>
    (\<forall>t int64 now. map_of userinfo ''auth_time'' = Some (AnyInt64 t) \<and> 0 < t \<longrightarrow> AuthTime int64 (Some c') now = t) \<and>
    (\<forall>v fallback. map_of userinfo ''acr'' = Some (AnyString v) \<and> v \<noteq> '''' \<longrightarrow> claimsACR (Some c') fallback = v)"
proof (cases "userinfo = []")
  case False
  let ?c = "c\<lparr>icRaw := overlayClaims userinfo (icRaw c), icEmail := userinfoString userinfo ''email'' (icEmail c),
              icName := userinfoString userinfo ''name'' (icName c)\<rparr>"
  have "MergeUserinfoIntoClaims (Some c) userinfo = Some ?c" using False by (simp add: MergeUserinfoIntoClaims_def)
  then show ?thesis
    using map_of_overlayClaims [OF assms, of "icRaw c"]
    by (intro exI [of _ ?c]) (simp add: AuthTime_def claimsACR_def idTokenWins_def)
qed (simp add: MergeUserinfoIntoClaims_def)

theorem userinfo_merge_exact_witness:
  "\<exists>c'. MergeUserinfoIntoClaims (Some \<lparr>icSub = ''u'', icEmail = '''', icEmailVerified = True, icName = '''', icPreferredUsername = '''',
       icRaw = [(''sub'', AnyString ''u''), (''auth_time'', AnyInt64 10)]\<rparr>)
      [(''sub'', AnyString ''v''), (''auth_time'', AnyInt64 90)] = Some c' \<and>
     map_of (icRaw c') ''sub'' = Some (AnyString ''u'') \<and> AuthTime floor (Some c') 100 = 90"
  using userinfo_merge_exact [of "[(''sub'', AnyString ''v''), (''auth_time'', AnyInt64 90)]"
      "\<lparr>icSub = ''u'', icEmail = '''', icEmailVerified = True, icName = '''', icPreferredUsername = '''',
       icRaw = [(''sub'', AnyString ''u''), (''auth_time'', AnyInt64 10)]\<rparr>"]
  by fastforce

text \<open>
  The shapes of a group claim. The same names as a decoded array, a string slice or a comma-separated string give
  the same groups, none of them blank or padded; a repeated name is kept as often as it is sent.
\<close>

fun joinWithCommas :: "string list \<Rightarrow> string" where
  "joinWithCommas [] = []"
| "joinWithCommas [s] = s"
| "joinWithCommas (s # ss) = s @ [CHR '',''] @ joinWithCommas ss"

lemma splitCommas_joinWithCommas:
  "ss \<noteq> [] \<Longrightarrow> \<forall>s\<in>set ss. CHR '','' \<notin> set s \<Longrightarrow> splitCommas (joinWithCommas ss) = ss"
  by (induction ss rule: joinWithCommas.induct) (simp_all add: splitCommas_plain splitCommas_append)

lemma stringsOf_strings [simp]: "stringsOf (map AnyString ss) = ss"
  by (induction ss) simp_all

theorem group_shapes_agree:
  assumes "ss \<noteq> []" "\<forall>s\<in>set ss. CHR '','' \<notin> set s"
  shows "ExtractGroups [(k, AnySlice (map AnyString ss))] k = ExtractGroups [(k, AnyStrings ss)] k \<and>
    (k \<noteq> '''' \<longrightarrow> ExtractGroups [(k, AnyString (joinWithCommas ss))] k = ExtractGroups [(k, AnyStrings ss)] k \<and>
      ExtractGroups [(k, AnyStrings ss)] k = filter (\<lambda>s. s \<noteq> '''') (map trimSpace ss)) \<and>
    (\<forall>g\<in>set (ExtractGroups [(k, AnyStrings ss)] k). g \<noteq> '''' \<and> trimSpace g = g)"
proof -
  let ?G = "filter (\<lambda>s. s \<noteq> '''') (map trimSpace ss)"
  have trim: "trimSpace (trimSpace s) = trimSpace s" for s by (simp add: trimSpace_def)
  have "ss = ['''']" if "joinWithCommas ss = ''''" using that assms(1) by (cases ss rule: joinWithCommas.cases) simp_all
  then have none: "?G = []" if "joinWithCommas ss = ''''" using that by (simp add: trimSpace_def trimBoth_def)
  have slices: "ExtractGroups [(k, AnySlice (map AnyString ss))] k = (if k = '''' then [] else ?G)"
    "ExtractGroups [(k, AnyStrings ss)] k = (if k = '''' then [] else ?G)"
    by (simp_all add: ExtractGroups_def trimmedNonEmpty_def)
  have joined: "ExtractGroups [(k, AnyString (joinWithCommas ss))] k = ?G" if "k \<noteq> ''''"
  proof (cases "joinWithCommas ss = ''''")
    case True
    with that none show ?thesis by (simp add: ExtractGroups_def)
  next
    case False
    with that show ?thesis using splitCommas_joinWithCommas [OF assms] by (simp add: ExtractGroups_def trimmedNonEmpty_def)
  qed
  have clean: "\<forall>g\<in>set ?G. g \<noteq> '''' \<and> trimSpace g = g" by (auto simp: trim)
  show ?thesis
  proof (cases "k = ''''")
    case False
    show ?thesis unfolding slices joined [OF False] using clean False by (intro conjI impI) (simp_all only: if_False)
  qed (simp add: ExtractGroups_def)
qed

theorem group_shapes_agree_witness:
  "ExtractGroups [(''groups'', AnyString ''a,b,a'')] ''groups'' = [''a'', ''b'', ''a'']"
  using group_shapes_agree [of "[''a'', ''b'', ''a'']" "''groups''"] by (simp add: trimSpace_id isSpaceChar_def)

end
