(* ===== verification/Registry_Cache.thy ===== *)
theory Registry_Cache
  imports Tenant_Hierarchy
begin

text \<open>
  The registry cache that \<^verbatim>\<open>oidc/manager.go\<close> and \<^verbatim>\<open>saml/manager.go\<close> keep in the same words: entries
  per tenant with the time they were built, freshness, the bound on the map, invalidation,
  and the two ways a miss is served. Without inheritance the store is read under the lock; with it
  the records are resolved before the lock is taken.

  The definitions take what the two packages differ in as arguments: how records are read and how a
  registry is built from them. A critical section reads the clock once. Times count nanoseconds from
  the zero time. Go ranges over a map in no fixed order; the eviction scan takes the order of
  the association list.
\<close>

section \<open>Entries\<close>

record 'r cachedRegistry =
  crRegistry :: "'r option"
  crCachedAt :: go_time

type_synonym 'r registries = "(ID, 'r cachedRegistry) go_map"

definition nsPerDay :: int where
  "nsPerDay = 86400 * 10 ^ 9"

text \<open>The year 9999 starts 3651694 days after the zero time and has 365 days.\<close>

definition pinnedCacheYear :: "go_time \<Rightarrow> bool" where
  "pinnedCacheYear t = (3651694 * nsPerDay \<le> t \<and> t < 3652059 * nsPerDay)"

definition cacheFresh :: "int \<Rightarrow> go_time \<Rightarrow> go_time \<Rightarrow> bool" where
  "cacheFresh ttl now cachedAt =
     (if cachedAt = 0 then False
      else if pinnedCacheYear cachedAt then True
      else if ttl = 0 then False
      else now - cachedAt < ttl)"

definition maxCachedTenants :: nat where
  "maxCachedTenants = 1024"

fun oldestEntry :: "'r registries \<Rightarrow> ID \<Rightarrow> go_time \<Rightarrow> ID" where
  "oldestEntry [] oldestKey oldest = oldestKey"
| "oldestEntry ((k, e) # rest) oldestKey oldest =
     (if oldest = 0 \<or> crCachedAt e < oldest then oldestEntry rest k (crCachedAt e)
      else oldestEntry rest oldestKey oldest)"

definition storeLocked :: "'r registries \<Rightarrow> ID \<Rightarrow> 'r option \<Rightarrow> go_time \<Rightarrow> 'r registries" where
  "storeLocked m tenantID reg now =
     (let m' = (if map_of m tenantID = None \<and> length m \<ge> maxCachedTenants
                then AList.delete (oldestEntry m zeroID 0) m else m)
      in AList.update tenantID \<lparr>crRegistry = reg, crCachedAt = now\<rparr> m')"

definition InvalidateTenant :: "bool \<Rightarrow> 'r registries \<Rightarrow> ID \<Rightarrow> 'r registries" where
  "InvalidateTenant inherit m tenantID = (if inherit then [] else AList.delete tenantID m)"

definition PinRegistry :: "'r registries \<Rightarrow> ID \<Rightarrow> 'r option \<Rightarrow> 'r registries" where
  "PinRegistry m tenantID reg =
     (case reg of
        None \<Rightarrow> AList.delete tenantID m
      | Some r \<Rightarrow> AList.update tenantID \<lparr>crRegistry = Some r, crCachedAt = 3652059 * nsPerDay - 10 ^ 9\<rparr> m)"

section \<open>Serving a registry\<close>

text \<open>The check on both sides of the lock, and the build that ends a critical section.\<close>

definition cachedHit :: "int \<Rightarrow> go_time \<Rightarrow> 'r registries \<Rightarrow> ID \<Rightarrow> 'r option option" where
  "cachedHit ttl now m tenantID =
     (case map_of m tenantID of
        Some e \<Rightarrow> if cacheFresh ttl now (crCachedAt e) then Some (crRegistry e) else None
      | None \<Rightarrow> None)"

definition storeBuilt :: "'r registries \<Rightarrow> ID \<Rightarrow> go_time \<Rightarrow> 'e + 'r option \<Rightarrow> ('e + 'r option) \<times> 'r registries" where
  "storeBuilt m tenantID now built =
     (case built of Inl err \<Rightarrow> (Inl err, m) | Inr reg \<Rightarrow> (Inr reg, storeLocked m tenantID reg now))"

definition rebuildLocked :: "(ID \<Rightarrow> 'e + 'rec list) \<Rightarrow> (ID \<Rightarrow> 'rec list \<Rightarrow> 'e + 'r option) \<Rightarrow> 'r registries \<Rightarrow> ID \<Rightarrow> go_time
    \<Rightarrow> ('e + 'r option) \<times> 'r registries" where
  "rebuildLocked listEnabled build m tenantID now =
     (case listEnabled tenantID of
        Inl err \<Rightarrow> (Inl err, m)
      | Inr recs \<Rightarrow> storeBuilt m tenantID now (build tenantID recs))"

text \<open>What \<^verbatim>\<open>GetRegistry\<close> does once it holds the lock, with records resolved before it.\<close>

definition lockedWith :: "int \<Rightarrow> (ID \<Rightarrow> 'rec list \<Rightarrow> 'e + 'r option) \<Rightarrow> 'r registries \<Rightarrow> ID \<Rightarrow> 'rec list \<Rightarrow> go_time
    \<Rightarrow> ('e + 'r option) \<times> 'r registries" where
  "lockedWith ttl build m tenantID recs now =
     (case cachedHit ttl now m tenantID of
        Some reg \<Rightarrow> (Inr reg, m)
      | None \<Rightarrow> storeBuilt m tenantID now (build tenantID recs))"

text \<open>\<^verbatim>\<open>recordsFor\<close> is \<^verbatim>\<open>None\<close> without inheritance.\<close>

definition getRegistry :: "int \<Rightarrow> (ID \<Rightarrow> 'e + 'rec list) \<Rightarrow> (ID \<Rightarrow> 'e + 'rec list) option \<Rightarrow> (ID \<Rightarrow> 'rec list \<Rightarrow> 'e + 'r option)
    \<Rightarrow> 'r registries \<Rightarrow> ID \<Rightarrow> go_time \<Rightarrow> ('e + 'r option) \<times> 'r registries" where
  "getRegistry ttl listEnabled recordsFor build m tenantID now =
     (case cachedHit ttl now m tenantID of
        Some reg \<Rightarrow> (Inr reg, m)
      | None \<Rightarrow> (case recordsFor of
          None \<Rightarrow> (case cachedHit ttl now m tenantID of
              Some reg \<Rightarrow> (Inr reg, m)
            | None \<Rightarrow> rebuildLocked listEnabled build m tenantID now)
        | Some resolve \<Rightarrow> (case resolve tenantID of
              Inl err \<Rightarrow> (Inl err, m)
            | Inr recs \<Rightarrow> lockedWith ttl build m tenantID recs now)))"

definition reloadRegistry :: "(ID \<Rightarrow> 'e + 'rec list) \<Rightarrow> (ID \<Rightarrow> 'e + 'rec list) option \<Rightarrow> (ID \<Rightarrow> 'rec list \<Rightarrow> 'e + 'r option)
    \<Rightarrow> 'r registries \<Rightarrow> ID \<Rightarrow> go_time \<Rightarrow> 'e option \<times> 'r registries" where
  "reloadRegistry listEnabled recordsFor build m tenantID now =
     (let m' = AList.delete tenantID m;
          (out, m'') = (case recordsFor of
              None \<Rightarrow> rebuildLocked listEnabled build m' tenantID now
            | Some resolve \<Rightarrow> (case resolve tenantID of
                Inl err \<Rightarrow> (Inl err, m')
              | Inr recs \<Rightarrow> storeBuilt m' tenantID now (build tenantID recs)))
      in (case out of Inl err \<Rightarrow> Some err | Inr reg \<Rightarrow> None, m''))"

section \<open>The bound on the map\<close>

lemma oldestEntry_in: "m \<noteq> [] \<Longrightarrow> oldestEntry m k 0 \<in> fst ` set m"
proof (cases m)
  case (Cons p rest)
  have "oldestEntry m' k' o' \<in> insert k' (fst ` set m')" for m' :: "'r registries" and k' o'
    by (induction m' k' o' rule: oldestEntry.induct) auto
  then show ?thesis by (cases p) (simp add: Cons)
qed simp

lemma storeLocked_bound:
  assumes "length m \<le> maxCachedTenants"
  shows "length (storeLocked m t reg now) \<le> maxCachedTenants"
proof (cases "map_of m t = None \<and> length m \<ge> maxCachedTenants")
  case True
  then have "m \<noteq> []" by (auto simp: maxCachedTenants_def)
  then have "length (AList.delete (oldestEntry m zeroID 0) m) < length m"
    by (intro length_delete_less oldestEntry_in)
  with True assms show ?thesis by (simp add: storeLocked_def length_update_le)
next
  case False
  then have "t \<in> fst ` set m \<or> length m < maxCachedTenants"
    by (auto simp: map_of_eq_None_iff)
  with False assms show ?thesis by (auto simp: storeLocked_def length_update_le)
qed

lemma storeLocked_own: "map_of (storeLocked m t reg now) t = Some \<lparr>crRegistry = reg, crCachedAt = now\<rparr>"
  by (simp add: storeLocked_def Let_def alist_simps)

lemma storeLocked_other:
  "t' \<noteq> t \<Longrightarrow> map_of (storeLocked m t reg now) t' = Some e \<Longrightarrow> map_of m t' = Some e"
  by (auto simp: storeLocked_def Let_def alist_simps split: if_splits)

section \<open>Callers in between\<close>

text \<open>
  The process between the critical sections: the rows, the cache, the instant, the records that callers
  have resolved and not yet brought to the lock, and, as a ghost, the tenants whose records have
  changed and whose invalidation has not run. A regime says whether inheritance is wired, whether an
  invalidation may run while a caller holds resolved records, and whether rows are written.
\<close>

record ('s, 'rec, 'r) world =
  wStore :: 's
  wCache :: "'r registries"
  wNow :: go_time
  wLocal :: "(ID \<times> 'rec list) list"
  wOwed :: "ID \<Rightarrow> bool"

record regime =
  rgInherit :: bool
  rgRace :: bool
  rgWrites :: bool

inductive cache_step :: "regime \<Rightarrow> int \<Rightarrow> ('s \<Rightarrow> ID \<Rightarrow> 'e + 'rec list) \<Rightarrow> ('net \<Rightarrow> ID \<Rightarrow> 'rec list \<Rightarrow> 'e + 'r option)
    \<Rightarrow> ('s, 'rec, 'r) world \<Rightarrow> ('s, 'rec, 'r) world \<Rightarrow> bool"
  for R ttl read build where
  rows_written: "rgWrites R \<Longrightarrow>
    cache_step R ttl read build w (w\<lparr>wStore := s', wOwed := (\<lambda>t. wOwed w t \<or> read s' t \<noteq> read (wStore w) t)\<rparr>)"
| invalidated: "rgInherit R \<longrightarrow> rgRace R \<or> wLocal w = [] \<Longrightarrow>
    cache_step R ttl read build w (w\<lparr>wCache := InvalidateTenant (rgInherit R) (wCache w) t,
      wOwed := (\<lambda>t'. wOwed w t' \<and> \<not> rgInherit R \<and> t' \<noteq> t)\<rparr>)"
| served_unwired: "\<lbrakk>\<not> rgInherit R; wNow w \<le> now;
      getRegistry ttl (read (wStore w)) None (build net) (wCache w) t now = (out, m)\<rbrakk> \<Longrightarrow>
    cache_step R ttl read build w (w\<lparr>wCache := m, wNow := now\<rparr>)"
| reloaded_unwired: "\<lbrakk>\<not> rgInherit R; wNow w \<le> now;
      reloadRegistry (read (wStore w)) None (build net) (wCache w) t now = (err, m)\<rbrakk> \<Longrightarrow>
    cache_step R ttl read build w (w\<lparr>wCache := m, wNow := now\<rparr>)"
| reload_dropped: "rgInherit R \<Longrightarrow> cache_step R ttl read build w (w\<lparr>wCache := AList.delete t (wCache w)\<rparr>)"
| resolved: "\<lbrakk>rgInherit R; read (wStore w) t = Inr recs\<rbrakk> \<Longrightarrow>
    cache_step R ttl read build w (w\<lparr>wLocal := (t, recs) # wLocal w\<rparr>)"
| served_wired: "\<lbrakk>rgInherit R; wNow w \<le> now; (t, recs) \<in> set (wLocal w);
      lockedWith ttl (build net) (wCache w) t recs now = (out, m)\<rbrakk> \<Longrightarrow>
    cache_step R ttl read build w (w\<lparr>wCache := m, wNow := now, wLocal := remove1 (t, recs) (wLocal w)\<rparr>)"
| reloaded_wired: "\<lbrakk>rgInherit R; wNow w \<le> now; (t, recs) \<in> set (wLocal w);
      storeBuilt (wCache w) t now (build net t recs) = (out, m)\<rbrakk> \<Longrightarrow>
    cache_step R ttl read build w (w\<lparr>wCache := m, wNow := now, wLocal := remove1 (t, recs) (wLocal w)\<rparr>)"

abbreviation cache_run :: "regime \<Rightarrow> int \<Rightarrow> ('s \<Rightarrow> ID \<Rightarrow> 'e + 'rec list) \<Rightarrow> ('net \<Rightarrow> ID \<Rightarrow> 'rec list \<Rightarrow> 'e + 'r option)
    \<Rightarrow> ('s, 'rec, 'r) world \<Rightarrow> ('s, 'rec, 'r) world \<Rightarrow> bool" where
  "cache_run R ttl read build \<equiv> (cache_step R ttl read build)\<^sup>*\<^sup>*"

text \<open>A registry that the rows of a store give, in some state of the network.\<close>

definition builtFrom :: "('s \<Rightarrow> ID \<Rightarrow> 'e + 'rec list) \<Rightarrow> ('net \<Rightarrow> ID \<Rightarrow> 'rec list \<Rightarrow> 'e + 'r option) \<Rightarrow> 's \<Rightarrow> ID \<Rightarrow> 'r option \<Rightarrow> bool" where
  "builtFrom read build s t reg \<longleftrightarrow> (\<exists>recs net. read s t = Inr recs \<and> build net t recs = Inr reg)"

text \<open>Where the entries of a critical section come from: they were there, or it built them.\<close>

lemma storeBuilt_entry:
  assumes "storeBuilt m t now built = (out, m')" "map_of m' t' = Some e"
  shows "map_of m t' = Some e \<or> t' = t \<and> built = Inr (crRegistry e) \<and> crCachedAt e = now"
  using assms by (cases "t' = t") (auto simp: storeBuilt_def storeLocked_own dest: storeLocked_other split: sum.splits)

lemma rebuildLocked_entry:
  assumes "rebuildLocked listEnabled build m t now = (out, m')" "map_of m' t' = Some e"
  shows "map_of m t' = Some e \<or>
    t' = t \<and> crCachedAt e = now \<and> (\<exists>recs. listEnabled t = Inr recs \<and> build t recs = Inr (crRegistry e))"
  using assms storeBuilt_entry [of m t now _ out m' t' e]
  by (auto simp: rebuildLocked_def split: sum.splits)

lemma getRegistry_unwired:
  "getRegistry ttl listEnabled None build m t now =
     (case cachedHit ttl now m t of Some reg \<Rightarrow> (Inr reg, m) | None \<Rightarrow> rebuildLocked listEnabled build m t now)"
  by (simp add: getRegistry_def split: option.split)

lemma getRegistry_unwired_entry:
  assumes "getRegistry ttl listEnabled None build m t now = (out, m')" "map_of m' t' = Some e"
  shows "map_of m t' = Some e \<or>
    t' = t \<and> crCachedAt e = now \<and> (\<exists>recs. listEnabled t = Inr recs \<and> build t recs = Inr (crRegistry e))"
  using assms rebuildLocked_entry [of listEnabled build m t now out m' t' e]
  by (auto simp: getRegistry_unwired split: option.splits)

lemma reloadRegistry_unwired_entry:
  assumes "reloadRegistry listEnabled None build m t now = (err, m')" "map_of m' t' = Some e"
  shows "map_of (AList.delete t m) t' = Some e \<or>
    t' = t \<and> crCachedAt e = now \<and> (\<exists>recs. listEnabled t = Inr recs \<and> build t recs = Inr (crRegistry e))"
proof -
  obtain out where "rebuildLocked listEnabled build (AList.delete t m) t now = (out, m')"
    using assms(1) by (auto simp: reloadRegistry_def Let_def split: prod.splits)
  from rebuildLocked_entry [OF this assms(2)] show ?thesis .
qed

lemma lockedWith_entry:
  assumes "lockedWith ttl build m t recs now = (out, m')" "map_of m' t' = Some e"
  shows "map_of m t' = Some e \<or> t' = t \<and> crCachedAt e = now \<and> build t recs = Inr (crRegistry e)"
  using assms storeBuilt_entry [of m t now "build t recs" out m' t' e]
  by (auto simp: lockedWith_def split: option.splits)

text \<open>The invariant: an entry nobody owes an invalidation for was built from the rows that are
  there, and so will be the records a caller carries to the lock.\<close>

definition cacheCurrent :: "regime \<Rightarrow> ('s \<Rightarrow> ID \<Rightarrow> 'e + 'rec list) \<Rightarrow> ('net \<Rightarrow> ID \<Rightarrow> 'rec list \<Rightarrow> 'e + 'r option)
    \<Rightarrow> ('s, 'rec, 'r) world \<Rightarrow> bool" where
  "cacheCurrent R read build w \<longleftrightarrow>
     (\<forall>t. \<not> wOwed w t \<longrightarrow>
        (\<forall>e. map_of (wCache w) t = Some e \<longrightarrow> builtFrom read build (wStore w) t (crRegistry e)) \<and>
        (\<forall>recs. (t, recs) \<in> set (wLocal w) \<longrightarrow> read (wStore w) t = Inr recs)) \<and>
     (\<not> rgInherit R \<longrightarrow> wLocal w = [])"

lemma cacheCurrentD:
  assumes "cacheCurrent R read build w" "\<not> wOwed w t"
  shows "map_of (wCache w) t = Some e \<Longrightarrow> builtFrom read build (wStore w) t (crRegistry e)"
    and "(t, recs) \<in> set (wLocal w) \<Longrightarrow> read (wStore w) t = Inr recs"
  using assms by (auto simp: cacheCurrent_def)

lemma cacheCurrent_entries:
  assumes "cacheCurrent R read build w" "wStore w' = wStore w" "wOwed w' = wOwed w" "set (wLocal w') \<subseteq> set (wLocal w)"
    and "\<And>t e. \<not> wOwed w t \<Longrightarrow> map_of (wCache w') t = Some e \<Longrightarrow>
      map_of (wCache w) t = Some e \<or> builtFrom read build (wStore w) t (crRegistry e)"
  shows "cacheCurrent R read build w'"
  unfolding cacheCurrent_def
proof (intro conjI allI impI)
  fix t e assume "\<not> wOwed w' t" "map_of (wCache w') t = Some e"
  then show "builtFrom read build (wStore w') t (crRegistry e)"
    using assms(2,3) assms(5) [of t e] cacheCurrentD(1) [OF assms(1), of t e] by auto
next
  fix t recs assume "\<not> wOwed w' t" "(t, recs) \<in> set (wLocal w')"
  then show "read (wStore w') t = Inr recs"
    using assms(2-4) cacheCurrentD(2) [OF assms(1), of t recs] by auto
next
  assume "\<not> rgInherit R"
  then show "wLocal w' = []" using assms(1,4) by (simp add: cacheCurrent_def)
qed

lemma cache_step_current:
  assumes "cache_step R ttl read build w w'" "cacheCurrent R read build w" "rgInherit R \<longrightarrow> \<not> rgRace R"
  shows "cacheCurrent R read build w'"
  using assms(1)
proof cases
  case (rows_written s')
  then show ?thesis using assms(2) by (auto simp: cacheCurrent_def builtFrom_def)
next
  case (invalidated t)
  then show ?thesis using assms(2,3)
    by (auto simp: cacheCurrent_def InvalidateTenant_def alist_simps)
next
  case (served_unwired now net t out m)
  then show ?thesis
    by (intro cacheCurrent_entries [OF assms(2)])
      (auto dest!: getRegistry_unwired_entry [OF served_unwired(4)] simp: builtFrom_def)
next
  case (reloaded_unwired now net t err m)
  then show ?thesis
    by (intro cacheCurrent_entries [OF assms(2)])
      (auto dest!: reloadRegistry_unwired_entry [OF reloaded_unwired(4)] simp: builtFrom_def alist_simps split: if_splits)
next
  case (reload_dropped t)
  then show ?thesis using assms(2) by (auto simp: cacheCurrent_def alist_simps)
next
  case (resolved t recs)
  then show ?thesis using assms(2) by (auto simp: cacheCurrent_def)
next
  case (served_wired now t recs net out m)
  then show ?thesis
    by (intro cacheCurrent_entries [OF assms(2)])
      (auto dest!: lockedWith_entry [OF served_wired(5)] cacheCurrentD(2) [OF assms(2)] simp: builtFrom_def dest: subsetD [OF set_remove1_subset])
next
  case (reloaded_wired now t recs net out m)
  then show ?thesis
    by (intro cacheCurrent_entries [OF assms(2)])
      (auto dest!: storeBuilt_entry [OF reloaded_wired(5)] cacheCurrentD(2) [OF assms(2)] simp: builtFrom_def dest: subsetD [OF set_remove1_subset])
qed

lemma cache_run_current:
  assumes "cache_run R ttl read build w w'" "cacheCurrent R read build w" "rgInherit R \<longrightarrow> \<not> rgRace R"
  shows "cacheCurrent R read build w'"
  using assms by (induction rule: rtranclp_induct) (auto intro: cache_step_current)

lemma hit_builtFrom:
  assumes "cacheCurrent R read build w" "\<not> wOwed w t" "cachedHit ttl now (wCache w) t = Some reg"
  shows "builtFrom read build (wStore w) t reg"
  using assms cacheCurrentD(1) [OF assms(1,2)] by (auto simp: cachedHit_def split: option.splits if_splits)

lemma unwired_builtFrom:
  assumes "cacheCurrent R read build w" "\<not> wOwed w t"
    and "getRegistry ttl (read (wStore w)) None (build net) (wCache w) t now = (Inr reg, m)"
  shows "builtFrom read build (wStore w) t reg"
  using assms(3) hit_builtFrom [OF assms(1,2), of ttl now reg]
  by (auto simp: getRegistry_unwired rebuildLocked_def storeBuilt_def builtFrom_def split: option.splits sum.splits)

text \<open>A lookup after such a run serves the rows that are there.\<close>

lemma getRegistry_current:
  assumes "cache_run R ttl read build w0 w" "wCache w0 = []" "wLocal w0 = []" "rgInherit R \<longrightarrow> \<not> rgRace R" "\<not> wOwed w t"
    and "\<not> rgInherit R \<longrightarrow> listEnabled = read (wStore w)"
    and "getRegistry ttl listEnabled (if rgInherit R then Some (read (wStore w)) else None) (build net) (wCache w) t now = (Inr reg, m)"
  shows "builtFrom read build (wStore w) t reg"
proof -
  have "cacheCurrent R read build w0" using assms(2,3) by (simp add: cacheCurrent_def)
  from cache_run_current [OF assms(1) this assms(4)] have cur: "cacheCurrent R read build w" .
  show ?thesis
  proof (cases "rgInherit R")
    case True
    with assms(7) show ?thesis using hit_builtFrom [OF cur assms(5)]
      by (auto simp: getRegistry_def lockedWith_def storeBuilt_def builtFrom_def split: option.splits sum.splits)
  qed (use assms(6,7) unwired_builtFrom [OF cur assms(5)] in auto)
qed

text \<open>The bound on age: with no rows written, an entry stored since an instant was built from them.\<close>

definition settledSince :: "('s \<Rightarrow> ID \<Rightarrow> 'e + 'rec list) \<Rightarrow> ('net \<Rightarrow> ID \<Rightarrow> 'rec list \<Rightarrow> 'e + 'r option) \<Rightarrow> go_time
    \<Rightarrow> ('s, 'rec, 'r) world \<Rightarrow> bool" where
  "settledSince read build since w \<longleftrightarrow>
     since \<le> wNow w \<and> (\<forall>t recs. (t, recs) \<in> set (wLocal w) \<longrightarrow> read (wStore w) t = Inr recs) \<and>
     (\<forall>t e. map_of (wCache w) t = Some e \<longrightarrow>
        crCachedAt e \<le> since \<and> \<not> pinnedCacheYear (crCachedAt e) \<or> builtFrom read build (wStore w) t (crRegistry e))"

lemma settledSince_entries:
  assumes "settledSince read build since w" "wStore w' = wStore w" "set (wLocal w') \<subseteq> set (wLocal w)" "wNow w \<le> wNow w'"
    and "\<And>t e. map_of (wCache w') t = Some e \<Longrightarrow> map_of (wCache w) t = Some e \<or> builtFrom read build (wStore w) t (crRegistry e)"
  shows "settledSince read build since w'"
  unfolding settledSince_def
proof (intro conjI allI impI)
  show "since \<le> wNow w'" using assms(1,4) by (simp add: settledSince_def)
next
  fix t recs assume "(t, recs) \<in> set (wLocal w')"
  then show "read (wStore w') t = Inr recs" using assms(1-3) by (auto simp: settledSince_def)
next
  fix t e assume "map_of (wCache w') t = Some e"
  from assms(5) [OF this] show "crCachedAt e \<le> since \<and> \<not> pinnedCacheYear (crCachedAt e) \<or> builtFrom read build (wStore w') t (crRegistry e)"
    using assms(1,2) by (auto simp: settledSince_def)
qed

lemma cache_step_settled:
  assumes "cache_step R ttl read build w w'" "settledSince read build since w" "\<not> rgWrites R"
  shows "settledSince read build since w' \<and> wStore w' = wStore w"
  using assms(1)
proof cases
  case (invalidated t)
  then show ?thesis
    by (auto intro!: settledSince_entries [OF assms(2)] simp: InvalidateTenant_def alist_simps split: if_splits)
next
  case (served_unwired now net t out m)
  then show ?thesis
    by (auto intro!: settledSince_entries [OF assms(2)] dest!: getRegistry_unwired_entry [OF served_unwired(4)] simp: builtFrom_def)
next
  case (reloaded_unwired now net t err m)
  then show ?thesis
    by (auto intro!: settledSince_entries [OF assms(2)] dest!: reloadRegistry_unwired_entry [OF reloaded_unwired(4)]
      simp: builtFrom_def alist_simps split: if_splits)
next
  case (reload_dropped t)
  then show ?thesis by (auto intro!: settledSince_entries [OF assms(2)] simp: alist_simps split: if_splits)
next
  case (resolved t recs)
  then show ?thesis using assms(2) by (auto simp: settledSince_def)
next
  case (served_wired now t recs net out m)
  then have "read (wStore w) t = Inr recs" using assms(2) by (auto simp: settledSince_def)
  with served_wired show ?thesis
    by (auto intro!: settledSince_entries [OF assms(2)] dest!: lockedWith_entry [OF served_wired(5)]
      simp: builtFrom_def dest: subsetD [OF set_remove1_subset])
next
  case (reloaded_wired now t recs net out m)
  then have "read (wStore w) t = Inr recs" using assms(2) by (auto simp: settledSince_def)
  with reloaded_wired show ?thesis
    by (auto intro!: settledSince_entries [OF assms(2)] dest!: storeBuilt_entry [OF reloaded_wired(5)]
      simp: builtFrom_def dest: subsetD [OF set_remove1_subset])
qed (use assms(3) in simp)

lemma cache_run_settled:
  assumes "cache_run R ttl read build w w'" "settledSince read build since w" "\<not> rgWrites R"
  shows "settledSince read build since w' \<and> wStore w' = wStore w"
  using assms by (induction rule: rtranclp_induct) (auto dest: cache_step_settled)

lemma hit_settled:
  assumes "settledSince read build since w" "since + ttl \<le> now" "0 \<le> ttl" "cachedHit ttl now (wCache w) t = Some reg"
  shows "builtFrom read build (wStore w) t reg"
proof -
  obtain e where e: "map_of (wCache w) t = Some e" "cacheFresh ttl now (crCachedAt e)" "reg = crRegistry e"
    using assms(4) by (auto simp: cachedHit_def split: option.splits if_splits)
  then have "\<not> (crCachedAt e \<le> since \<and> \<not> pinnedCacheYear (crCachedAt e))"
    using assms(2,3) by (auto simp: cacheFresh_def split: if_splits)
  with assms(1) e show ?thesis by (auto simp: settledSince_def)
qed

section \<open>The contract of a builder\<close>

text \<open>Both managers build nothing from no records, without error and whatever the network.\<close>

locale registry_builder =
  fixes build :: "'net \<Rightarrow> ID \<Rightarrow> 'rec list \<Rightarrow> 'e + 'r option"
  assumes build_none: "build net t [] = Inr None"
begin

text \<open>A tenant without providers caches its emptiness: the call that finds it returns no registry
  and no error, and until the window has passed the rows are not read again.\<close>

lemma emptiness_is_cached:
  assumes "cachedHit ttl now m t = None" "listEnabled t = Inr []" "0 < now" "0 \<le> later - now" "later - now < ttl" "\<not> pinnedCacheYear now"
  shows "\<exists>m'. getRegistry ttl listEnabled None (build net) m t now = (Inr None, m') \<and>
    getRegistry ttl listEnabled' None (build net') m' t later = (Inr None, m')"
  using assms
  by (auto simp: getRegistry_unwired rebuildLocked_def storeBuilt_def build_none cachedHit_def storeLocked_own cacheFresh_def)

text \<open>The map of registries never outgrows its bound.\<close>

lemma getRegistry_bound:
  assumes "length m \<le> maxCachedTenants"
  shows "length (snd (getRegistry ttl listEnabled recordsFor (build net) m t now)) \<le> maxCachedTenants"
  using assms storeLocked_bound [OF assms]
  by (auto simp: getRegistry_def rebuildLocked_def lockedWith_def storeBuilt_def split: option.split sum.split)

end

end
