(* ===== verification/Oidc_Manager.thy ===== *)
theory Oidc_Manager
  imports Oidc_Provider Registry_Cache Crypto_Keyset
begin

text \<open>
  Package \<^verbatim>\<open>oidc\<close>, the managed providers: the rows and the port (\<^verbatim>\<open>store.go\<close>), its in-memory
  implementation (\<^verbatim>\<open>memstore.go\<close>), the manager (\<^verbatim>\<open>manager.go\<close>) and the borrowing of an ancestor's
  providers (\<^verbatim>\<open>inheritance.go\<close>).

  A sealed secret is a list of bytes, a secret a string; a nonce of the sealing, or its failure, is an
  argument, as are the instant of a call and the network a registry is built over.
\<close>

section \<open>Rows and definitions\<close>

record ProviderRecord =
  prID :: string
  prIssuerURL :: string
  prClientID :: string
  prSealedClientSecret :: "byte list"
  prDisplayName :: string
  prScopes :: "string list"
  prGroupsClaim :: string
  prGroupClaimFormat :: string
  prEnabled :: bool
  prCreatedAt :: go_time
  prUpdatedAt :: go_time

record ProviderDefinition =
  pdID :: string
  pdIssuerURL :: string
  pdClientID :: string
  pdClientSecret :: string
  pdDisplayName :: string
  pdScopes :: "string list"
  pdGroupsClaim :: string
  pdGroupClaimFormat :: string
  pdEnabled :: bool
  pdCreatedAt :: go_time
  pdUpdatedAt :: go_time

datatype manager_err =
    ErrNoKeySet
  | ErrProviderNotFound
  | ErrProviderExists
  | ErrManagerInput string
  | ErrManagerStore string
  | ErrManagerSecret crypto_err
  | ErrManagerBuild oidc_err
  | ErrManagerTenant tenant_err

text \<open>The bytes of a Go string.\<close>

definition bytesOf :: "string \<Rightarrow> byte list" where
  "bytesOf s = map (\<lambda>c. word_of_nat (of_char c)) s"

definition stringOfBytes :: "byte list \<Rightarrow> string" where
  "stringOfBytes bs = map (\<lambda>b. char_of (unat b)) bs"

section \<open>The port and its in-memory store\<close>

record 's provider_port =
  ppInsert :: "'s \<Rightarrow> ProviderRecord \<Rightarrow> manager_err option \<times> 's"
  ppGet :: "'s \<Rightarrow> string \<Rightarrow> manager_err + ProviderRecord"
  ppList :: "'s \<Rightarrow> manager_err + ProviderRecord list"
  ppListEnabled :: "'s \<Rightarrow> ID \<Rightarrow> manager_err + ProviderRecord list"
  ppUpdate :: "'s \<Rightarrow> ProviderRecord \<Rightarrow> manager_err option \<times> 's"
  ppUpdateSealed :: "'s \<Rightarrow> string \<Rightarrow> byte list \<Rightarrow> go_time \<Rightarrow> manager_err option \<times> 's"
  ppDelete :: "'s \<Rightarrow> string \<Rightarrow> manager_err option \<times> 's"

type_synonym MemProviderStore = "(string, ProviderRecord) go_map"

definition memInsertProvider :: "MemProviderStore \<Rightarrow> ProviderRecord \<Rightarrow> manager_err option \<times> MemProviderStore" where
  "memInsertProvider s rec =
     (if map_of s (prID rec) \<noteq> None then (Some ErrProviderExists, s) else (None, AList.update (prID rec) rec s))"

definition memGetProvider :: "MemProviderStore \<Rightarrow> string \<Rightarrow> manager_err + ProviderRecord" where
  "memGetProvider s i = (case map_of s i of None \<Rightarrow> Inl ErrProviderNotFound | Some rec \<Rightarrow> Inr rec)"

text \<open>Strings compare by their bytes, a proper prefix first.\<close>

fun bytesLess :: "string \<Rightarrow> string \<Rightarrow> bool" where
  "bytesLess _ [] = False"
| "bytesLess [] (_ # _) = True"
| "bytesLess (a # s) (b # t) =
     ((of_char a :: nat) < of_char b \<or> a = b \<and> bytesLess s t)"

definition rowBefore :: "ProviderRecord \<Rightarrow> ProviderRecord \<Rightarrow> bool" where
  "rowBefore a b =
     (if prDisplayName a \<noteq> prDisplayName b then bytesLess (prDisplayName a) (prDisplayName b)
      else bytesLess (prID a) (prID b))"

fun insertRow :: "ProviderRecord \<Rightarrow> ProviderRecord list \<Rightarrow> ProviderRecord list" where
  "insertRow r [] = [r]"
| "insertRow r (x # xs) = (if rowBefore r x then r # x # xs else x # insertRow r xs)"

definition sortedLocked :: "MemProviderStore \<Rightarrow> (ProviderRecord \<Rightarrow> bool) \<Rightarrow> ProviderRecord list" where
  "sortedLocked s match = foldr insertRow (filter match (map snd s)) []"

definition memListProviders :: "MemProviderStore \<Rightarrow> manager_err + ProviderRecord list" where
  "memListProviders s = Inr (sortedLocked s (\<lambda>r. True))"

definition memListEnabledProviders :: "MemProviderStore \<Rightarrow> ID \<Rightarrow> manager_err + ProviderRecord list" where
  "memListEnabledProviders s tenantID = Inr (sortedLocked s prEnabled)"

definition memUpdateProvider :: "MemProviderStore \<Rightarrow> ProviderRecord \<Rightarrow> manager_err option \<times> MemProviderStore" where
  "memUpdateProvider s rec =
     (case map_of s (prID rec) of
        None \<Rightarrow> (Some ErrProviderNotFound, s)
      | Some existing \<Rightarrow> (None, AList.update (prID rec) (rec\<lparr>prCreatedAt := prCreatedAt existing\<rparr>) s))"

definition memUpdateProviderSealedSecret :: "MemProviderStore \<Rightarrow> string \<Rightarrow> byte list \<Rightarrow> go_time \<Rightarrow> manager_err option \<times> MemProviderStore" where
  "memUpdateProviderSealedSecret s i sealed updatedAt =
     (case map_of s i of
        None \<Rightarrow> (Some ErrProviderNotFound, s)
      | Some rec \<Rightarrow> (None, AList.update i (rec\<lparr>prSealedClientSecret := sealed, prUpdatedAt := updatedAt\<rparr>) s))"

definition memDeleteProvider :: "MemProviderStore \<Rightarrow> string \<Rightarrow> manager_err option \<times> MemProviderStore" where
  "memDeleteProvider s i = (None, AList.delete i s)"

definition memProviderPort :: "MemProviderStore provider_port" where
  "memProviderPort = \<lparr>ppInsert = memInsertProvider, ppGet = memGetProvider, ppList = memListProviders,
     ppListEnabled = memListEnabledProviders, ppUpdate = memUpdateProvider,
     ppUpdateSealed = memUpdateProviderSealedSecret, ppDelete = memDeleteProvider\<rparr>"

section \<open>The manager\<close>

record inheritConfig =
  ihStore :: "string \<Rightarrow> tenant_err + Descriptor"
  ihAllow :: "ID \<Rightarrow> tenant_err + bool"

record 's Manager =
  mgPort :: "'s provider_port"
  mgKeys :: "KeySet option"
  mgRedirectURL :: "(string \<Rightarrow> string) option"
  mgRedirectURLForTenant :: "(ID \<Rightarrow> string \<Rightarrow> string) option"
  mgTTL :: int
  mgInherit :: "inheritConfig option"

record 's manager_state =
  msStore :: 's
  msRegistries :: "ProviderRegistry registries"

datatype ManagerOption =
    WithRedirectURLForTenant "(ID \<Rightarrow> string \<Rightarrow> string) option"
  | WithTTL int
  | WithRedirectURL "(string \<Rightarrow> string) option"
  | WithInheritance "(string \<Rightarrow> tenant_err + Descriptor) option" "(ID \<Rightarrow> tenant_err + bool) option"

fun applyManagerOption :: "ManagerOption \<Rightarrow> 's Manager \<Rightarrow> 's Manager" where
  "applyManagerOption (WithRedirectURLForTenant fn) m = (if fn = None then m else m\<lparr>mgRedirectURLForTenant := fn\<rparr>)"
| "applyManagerOption (WithTTL d) m = m\<lparr>mgTTL := d\<rparr>"
| "applyManagerOption (WithRedirectURL fn) m = (if fn = None then m else m\<lparr>mgRedirectURL := fn\<rparr>)"
| "applyManagerOption (WithInheritance s allow) m =
     (case (s, allow) of
        (Some st, Some al) \<Rightarrow> m\<lparr>mgInherit := Some \<lparr>ihStore = st, ihAllow = al\<rparr>\<rparr>
      | _ \<Rightarrow> m)"

definition NewManager :: "'s provider_port \<Rightarrow> KeySet option \<Rightarrow> ManagerOption list \<Rightarrow> 's Manager" where
  "NewManager store keys opts = fold applyManagerOption opts
     \<lparr>mgPort = store, mgKeys = keys, mgRedirectURL = None, mgRedirectURLForTenant = None, mgTTL = 0, mgInherit = None\<rparr>"

definition recordFromDefinition :: "ProviderDefinition \<Rightarrow> byte list \<Rightarrow> ProviderRecord" where
  "recordFromDefinition def sealed =
     \<lparr>prID = pdID def, prIssuerURL = pdIssuerURL def, prClientID = pdClientID def, prSealedClientSecret = sealed,
      prDisplayName = pdDisplayName def, prScopes = pdScopes def, prGroupsClaim = pdGroupsClaim def,
      prGroupClaimFormat = pdGroupClaimFormat def, prEnabled = pdEnabled def, prCreatedAt = pdCreatedAt def,
      prUpdatedAt = pdUpdatedAt def\<rparr>"

definition definitionFromRecord :: "KeySet option \<Rightarrow> ProviderRecord \<Rightarrow> manager_err + ProviderDefinition" where
  "definitionFromRecord keys rec =
     (let opened = (case keys of
            Some ks \<Rightarrow> if prSealedClientSecret rec \<noteq> []
                then (case OpenEnvelope ks (prSealedClientSecret rec) of Inl err \<Rightarrow> Inl (ErrManagerSecret err) | Inr pt \<Rightarrow> Inr pt)
                else Inr []
          | None \<Rightarrow> Inr [])
      in (case opened of
            Inl err \<Rightarrow> Inl err
          | Inr plaintext \<Rightarrow> Inr
              \<lparr>pdID = prID rec, pdIssuerURL = prIssuerURL rec, pdClientID = prClientID rec,
               pdClientSecret = stringOfBytes plaintext, pdDisplayName = prDisplayName rec, pdScopes = prScopes rec,
               pdGroupsClaim = prGroupsClaim rec, pdGroupClaimFormat = prGroupClaimFormat rec, pdEnabled = prEnabled rec,
               pdCreatedAt = prCreatedAt rec, pdUpdatedAt = prUpdatedAt rec\<rparr>))"

definition invalidateCache :: "'s Manager \<Rightarrow> 's manager_state \<Rightarrow> 's manager_state" where
  "invalidateCache m st = st\<lparr>msRegistries := InvalidateTenant (mgInherit m \<noteq> None) (msRegistries st) Single\<rparr>"

definition managerCreate :: "'s Manager \<Rightarrow> 's manager_state \<Rightarrow> byte list option \<Rightarrow> go_time \<Rightarrow> ProviderDefinition
    \<Rightarrow> manager_err option \<times> 's manager_state" where
  "managerCreate m st nonce now def =
     (if pdID def = '''' then (Some (ErrManagerInput ''provider id is required''), st)
      else (case mgKeys m of
          None \<Rightarrow> (Some ErrNoKeySet, st)
        | Some ks \<Rightarrow> (case Seal ks nonce (bytesOf (pdClientSecret def)) of
            Inl err \<Rightarrow> (Some (ErrManagerSecret err), st)
          | Inr sealed \<Rightarrow>
              let rec = (recordFromDefinition def sealed)\<lparr>prCreatedAt := now, prUpdatedAt := now\<rparr> in
              (case ppInsert (mgPort m) (msStore st) rec of
                 (Some err, s') \<Rightarrow> (Some err, st\<lparr>msStore := s'\<rparr>)
               | (None, s') \<Rightarrow> (None, invalidateCache m (st\<lparr>msStore := s'\<rparr>))))))"

definition managerGet :: "'s Manager \<Rightarrow> 's manager_state \<Rightarrow> string \<Rightarrow> manager_err + ProviderDefinition" where
  "managerGet m st i =
     (if i = '''' then Inl (ErrManagerInput ''provider id is required'')
      else (case ppGet (mgPort m) (msStore st) i of
          Inl err \<Rightarrow> Inl err
        | Inr rec \<Rightarrow> definitionFromRecord (mgKeys m) rec))"

definition managerList :: "'s Manager \<Rightarrow> 's manager_state \<Rightarrow> manager_err + ProviderDefinition list" where
  "managerList m st =
     (case ppList (mgPort m) (msStore st) of
        Inl err \<Rightarrow> Inl err
      | Inr recs \<Rightarrow> mapResult (definitionFromRecord (mgKeys m)) recs)"

definition managerUpdate :: "'s Manager \<Rightarrow> 's manager_state \<Rightarrow> byte list option \<Rightarrow> go_time \<Rightarrow> ProviderDefinition
    \<Rightarrow> manager_err option \<times> 's manager_state" where
  "managerUpdate m st nonce now def =
     (if pdID def = '''' then (Some (ErrManagerInput ''provider id is required''), st)
      else (case mgKeys m of
          None \<Rightarrow> (Some ErrNoKeySet, st)
        | Some ks \<Rightarrow> (case ppGet (mgPort m) (msStore st) (pdID def) of
            Inl err \<Rightarrow> (Some err, st)
          | Inr existing \<Rightarrow> (case Seal ks nonce (bytesOf (pdClientSecret def)) of
              Inl err \<Rightarrow> (Some (ErrManagerSecret err), st)
            | Inr sealed \<Rightarrow>
                let rec = (recordFromDefinition def sealed)\<lparr>prUpdatedAt := now\<rparr> in
                (case ppUpdate (mgPort m) (msStore st) rec of
                   (Some err, s') \<Rightarrow> (Some err, st\<lparr>msStore := s'\<rparr>)
                 | (None, s') \<Rightarrow> (None, invalidateCache m (st\<lparr>msStore := s'\<rparr>)))))))"

definition managerDelete :: "'s Manager \<Rightarrow> 's manager_state \<Rightarrow> string \<Rightarrow> manager_err option \<times> 's manager_state" where
  "managerDelete m st i =
     (if i = '''' then (Some (ErrManagerInput ''provider id is required''), st)
      else (case ppDelete (mgPort m) (msStore st) i of
          (Some err, s') \<Rightarrow> (Some err, st\<lparr>msStore := s'\<rparr>)
        | (None, s') \<Rightarrow> (None, invalidateCache m (st\<lparr>msStore := s'\<rparr>))))"

record DiscoveryResult =
  drIssuerURL :: string
  drAuthURL :: string
  drTokenURL :: string
  drJWKSURL :: string
  drUserInfoURL :: string
  drSupportedAlgs :: "string list"

definition TestDiscovery :: "OidcLib \<Rightarrow> string \<Rightarrow> oidc_err + DiscoveryResult" where
  "TestDiscovery lib issuerURL =
     (case olNewProvider lib issuerURL of
        Inl err \<Rightarrow> Inl (ErrDiscoveryFailed err)
      | Inr d \<Rightarrow> (case diExtras d of
          None \<Rightarrow> Inl (ErrDiscoveryFailed ''parse discovery extras'')
        | Some (jwks, userinfo, algs) \<Rightarrow> Inr
            \<lparr>drIssuerURL = issuerURL, drAuthURL = diAuthURL d, drTokenURL = diTokenURL d, drJWKSURL = jwks,
             drUserInfoURL = userinfo, drSupportedAlgs = algs\<rparr>))"

section \<open>The live registry\<close>

text \<open>One of the two mappings is set when this runs.\<close>

definition redirectFor :: "'s Manager \<Rightarrow> ID \<Rightarrow> string \<Rightarrow> string" where
  "redirectFor m tenantID providerID =
     (case mgRedirectURLForTenant m of
        Some fn \<Rightarrow> fn tenantID providerID
      | None \<Rightarrow> (case mgRedirectURL m of Some fn \<Rightarrow> fn providerID | None \<Rightarrow> ''''))"

definition configOf :: "'s Manager \<Rightarrow> ID \<Rightarrow> ProviderDefinition \<Rightarrow> ProviderConfig" where
  "configOf m tenantID def =
     \<lparr>pcID = pdID def, pcIssuerURL = pdIssuerURL def, pcClientID = pdClientID def, pcClientSecret = pdClientSecret def,
      pcRedirectURL = redirectFor m tenantID (pdID def), pcDisplayName = pdDisplayName def, pcScopes = pdScopes def,
      pcGroupsClaim = pdGroupsClaim def\<rparr>"

definition buildRegistry :: "'s Manager \<Rightarrow> OidcLib \<Rightarrow> ID \<Rightarrow> ProviderRecord list \<Rightarrow> manager_err + ProviderRegistry option" where
  "buildRegistry m lib tenantID recs =
     (if recs = [] then Inr None
      else if mgRedirectURL m = None \<and> mgRedirectURLForTenant m = None then Inl (ErrManagerInput ''manager has no redirect-URL mapping'')
      else (case mapResult (definitionFromRecord (mgKeys m)) recs of
          Inl err \<Rightarrow> Inl err
        | Inr defs \<Rightarrow> (case BuildRegistryFromConfigs lib (map (configOf m tenantID) defs) True of
            Inl err \<Rightarrow> Inl (ErrManagerBuild err)
          | Inr reg \<Rightarrow> Inr reg)))"

definition listEnabled :: "'s Manager \<Rightarrow> 's \<Rightarrow> ID \<Rightarrow> manager_err + ProviderRecord list" where
  "listEnabled m s tenantID = ppListEnabled (mgPort m) s tenantID"

text \<open>A failing read inside the walk names its tenant; the walk's own errors pass through.\<close>

definition recordsFor :: "'s Manager \<Rightarrow> 's \<Rightarrow> ID \<Rightarrow> manager_err + ProviderRecord list" where
  "recordsFor m s tenantID =
     (case mgInherit m of
        None \<Rightarrow> listEnabled m s tenantID
      | Some inh \<Rightarrow>
          (case Inherited (Some (ihStore inh)) (Some (ihAllow inh)) tenantID
              (\<lambda>i. case listEnabled m s i of Inl err \<Rightarrow> Inl (StoreFailure (idV i)) | Inr recs \<Rightarrow> Inr recs) of
             Inl err \<Rightarrow> Inl (ErrManagerTenant err)
           | Inr recs \<Rightarrow> Inr recs))"

definition GetRegistry :: "'s Manager \<Rightarrow> OidcLib \<Rightarrow> 's manager_state \<Rightarrow> go_time \<Rightarrow> ID
    \<Rightarrow> (manager_err + ProviderRegistry option) \<times> 's manager_state" where
  "GetRegistry m lib st now tenantID =
     (let (out, regs) = getRegistry (mgTTL m) (listEnabled m (msStore st))
            (case mgInherit m of None \<Rightarrow> None | Some inh \<Rightarrow> Some (recordsFor m (msStore st)))
            (buildRegistry m lib) (msRegistries st) tenantID now
      in (out, st\<lparr>msRegistries := regs\<rparr>))"

definition Reload :: "'s Manager \<Rightarrow> OidcLib \<Rightarrow> 's manager_state \<Rightarrow> go_time \<Rightarrow> ID \<Rightarrow> manager_err option \<times> 's manager_state" where
  "Reload m lib st now tenantID =
     (let (err, regs) = reloadRegistry (listEnabled m (msStore st))
            (case mgInherit m of None \<Rightarrow> None | Some inh \<Rightarrow> Some (recordsFor m (msStore st)))
            (buildRegistry m lib) (msRegistries st) tenantID now
      in (err, st\<lparr>msRegistries := regs\<rparr>))"

section \<open>Rotation\<close>

record RotateResult =
  rrScanned :: nat
  rrRotated :: nat

text \<open>The loop over the rows read at the start, with one nonce and instant per sealing.\<close>

fun rotateRows :: "KeySet \<Rightarrow> 's provider_port \<Rightarrow> (byte list option \<times> go_time) list \<Rightarrow> ProviderRecord list \<Rightarrow> 's \<Rightarrow> RotateResult
    \<Rightarrow> (RotateResult \<times> manager_err option) \<times> 's" where
  "rotateRows ks port draws [] s result = ((result, None), s)"
| "rotateRows ks port draws (rec # recs) s result =
     (case prSealedClientSecret rec of
        [] \<Rightarrow> rotateRows ks port draws recs s result
      | keyID # sealedRest \<Rightarrow>
          let result = result\<lparr>rrScanned := rrScanned result + 1\<rparr> in
          if keyID = ksWriteKeyID ks then rotateRows ks port draws recs s result
          else (case OpenEnvelope ks (prSealedClientSecret rec) of
              Inl err \<Rightarrow> ((result, Some (ErrManagerSecret err)), s)
            | Inr plaintext \<Rightarrow>
                let (nonce, now) = (case draws of [] \<Rightarrow> (None, 0) | d # _ \<Rightarrow> d) in
                (case Seal ks nonce plaintext of
                   Inl err \<Rightarrow> ((result, Some (ErrManagerSecret err)), s)
                 | Inr sealed \<Rightarrow> (case ppUpdateSealed port s (prID rec) sealed now of
                     (Some err, s') \<Rightarrow> ((result, Some err), s')
                   | (None, s') \<Rightarrow> rotateRows ks port (tl draws) recs s' (result\<lparr>rrRotated := rrRotated result + 1\<rparr>)))))"

definition RotateSealedSecrets :: "'s Manager \<Rightarrow> (byte list option \<times> go_time) list \<Rightarrow> 's manager_state
    \<Rightarrow> (RotateResult \<times> manager_err option) \<times> 's manager_state" where
  "RotateSealedSecrets m draws st =
     (case mgKeys m of
        None \<Rightarrow> ((\<lparr>rrScanned = 0, rrRotated = 0\<rparr>, Some ErrNoKeySet), st)
      | Some ks \<Rightarrow> (case ppList (mgPort m) (msStore st) of
          Inl err \<Rightarrow> ((\<lparr>rrScanned = 0, rrRotated = 0\<rparr>, Some err), st)
        | Inr recs \<Rightarrow>
            let (out, s') = rotateRows ks (mgPort m) draws recs (msStore st) \<lparr>rrScanned = 0, rrRotated = 0\<rparr> in
            (out, st\<lparr>msStore := s'\<rparr>)))"

section \<open>The cache of the manager\<close>

lemma stringOfBytes_bytesOf [simp]: "stringOfBytes (bytesOf s) = s"
  by (simp add: stringOfBytes_def bytesOf_def o_def unat_of_nat map_idI)

interpretation oidc_builder: registry_builder "buildRegistry m"
  by unfold_locales (simp add: buildRegistry_def)

lemma recordsFor_unwired: "mgInherit m = None \<Longrightarrow> listEnabled m s = recordsFor m s"
  by (rule ext) (simp add: recordsFor_def)

lemma GetRegistry_unwired:
  assumes "mgInherit m = None" "GetRegistry m lib st now t = (out, st')"
  shows "\<exists>regs. getRegistry (mgTTL m) (listEnabled m (msStore st)) None (buildRegistry m lib) (msRegistries st) t now = (out, regs)"
  using assms by (auto simp: GetRegistry_def Let_def split: prod.splits)

lemma GetRegistry_wired:
  assumes "mgInherit m \<noteq> None" "GetRegistry m lib st now t = (Inr reg, st')"
  shows "cachedHit (mgTTL m) now (msRegistries st) t = Some reg \<or> builtFrom (recordsFor m) (buildRegistry m) (msStore st) t reg"
  using assms
  by (auto simp: GetRegistry_def getRegistry_def lockedWith_def storeBuilt_def builtFrom_def Let_def
      split: prod.splits option.splits sum.splits)

text \<open>
  C20. A registry is never stale. Under any interleaving of row writes, invalidations, lookups and reloads from
  an empty cache, a tenant whose invalidations have all run is served a registry built from the rows
  that are stored now: without inheritance always, with inheritance as long as no invalidation runs
  while a caller is between resolving its records and taking the lock.
\<close>

theorem registry_never_stale:
  assumes "cache_run R (mgTTL m) (recordsFor m) (buildRegistry m) w0 w" "wCache w0 = []" "wLocal w0 = []"
    and "rgInherit R \<longleftrightarrow> mgInherit m \<noteq> None" "rgInherit R \<longrightarrow> \<not> rgRace R" "\<not> wOwed w t"
    and "GetRegistry m lib \<lparr>msStore = wStore w, msRegistries = wCache w\<rparr> now t = (Inr reg, st')"
  shows "builtFrom (recordsFor m) (buildRegistry m) (wStore w) t reg"
proof -
  have "cacheCurrent R (recordsFor m) (buildRegistry m) w0" using assms(2,3) by (simp add: cacheCurrent_def)
  from cache_run_current [OF assms(1) this assms(5)] have cur: "cacheCurrent R (recordsFor m) (buildRegistry m) w" .
  show ?thesis
  proof (cases "mgInherit m = None")
    case True
    with GetRegistry_unwired [OF True assms(7)] show ?thesis
      using unwired_builtFrom [OF cur assms(6)] by (auto simp: recordsFor_unwired)
  next
    case False
    from GetRegistry_wired [OF this assms(7)] show ?thesis using hit_builtFrom [OF cur assms(6)] by auto
  qed
qed


section \<open>A registry that outlives its rows\<close>

definition exampleRow :: ProviderRecord where
  "exampleRow = \<lparr>prID = ''okta'', prIssuerURL = ''https://idp'', prClientID = ''c'', prSealedClientSecret = [],
     prDisplayName = ''Okta'', prScopes = [], prGroupsClaim = '''', prGroupClaimFormat = '''', prEnabled = True,
     prCreatedAt = 1, prUpdatedAt = 1\<rparr>"

definition exampleManager :: "ManagerOption list \<Rightarrow> MemProviderStore Manager" where
  "exampleManager opts = NewManager memProviderPort None ([WithTTL 100, WithRedirectURL (Some (\<lambda>i. ''https://app/cb''))] @ opts)"

definition inheritAll :: ManagerOption where
  "inheritAll = WithInheritance (Some (\<lambda>i. Inl tenant_err.ErrNotFound)) (Some (\<lambda>i. Inr True))"

definition exampleOidcLib :: OidcLib where
  "exampleOidcLib = \<lparr>olNewProvider = (\<lambda>u. Inr \<lparr>diAuthURL = u, diTokenURL = u, diExtras = Some (u, u, [])\<rparr>), olURLParses = (\<lambda>u. True)\<rparr>"

definition exampleRegistry :: ProviderRegistry where
  "exampleRegistry = \<lparr>rgProviders = [(''okta'', \<lparr>pvConfig =
       \<lparr>pcID = ''okta'', pcIssuerURL = ''https://idp'', pcClientID = ''c'', pcClientSecret = '''', pcRedirectURL = ''https://app/cb'',
        pcDisplayName = ''Okta'', pcScopes = [''openid'', ''profile'', ''email''], pcGroupsClaim = ''''\<rparr>,
       pvDiscovery = \<lparr>diAuthURL = ''https://idp'', diTokenURL = ''https://idp'', diExtras = Some (''https://idp'', ''https://idp'', [])\<rparr>,
       pvScopes = [''openid'', ''profile'', ''email''], pvUserInfoURL = ''https://idp'', pvJWKSURL = ''https://idp''\<rparr>)],
     rgOrder = [''okta'']\<rparr>"

lemma example_build: "buildRegistry (exampleManager opts) exampleOidcLib t [exampleRow] = Inr (Some exampleRegistry)"
  if "opts = [] \<or> opts = [inheritAll]"
  using that
  by (auto simp: buildRegistry_def exampleManager_def inheritAll_def NewManager_def definitionFromRecord_def exampleRow_def stringOfBytes_def
      configOf_def redirectFor_def BuildRegistryFromConfigs_def BuildProvider_def validProviderID_def isProviderIDChar_def
      exampleOidcLib_def normaliseScopes_def ScopeOpenID_def exampleRegistry_def Let_def)

lemma example_read:
  assumes "opts = [] \<or> opts = [inheritAll]"
  shows "recordsFor (exampleManager opts) [(''okta'', exampleRow)] Single = Inr [exampleRow]"
    and "recordsFor (exampleManager opts) [] Single = Inr []"
    and "mgTTL (exampleManager opts) = 100"
  using assms
  by (auto simp: recordsFor_def exampleManager_def inheritAll_def NewManager_def listEnabled_def memProviderPort_def
      memListEnabledProviders_def sortedLocked_def Inherited_def exampleRow_def Ancestors_def Single_def id_defs)

abbreviation exampleWorld :: "MemProviderStore \<Rightarrow> ProviderRegistry registries \<Rightarrow> go_time \<Rightarrow> (ID \<times> ProviderRecord list) list
    \<Rightarrow> (ID \<Rightarrow> bool) \<Rightarrow> (MemProviderStore, ProviderRecord, ProviderRegistry) world" where
  "exampleWorld s regs now carried owed \<equiv> \<lparr>wStore = s, wCache = regs, wNow = now, wLocal = carried, wOwed = owed\<rparr>"

abbreviation exampleEntry :: "go_time \<Rightarrow> ProviderRegistry registries" where
  "exampleEntry cat \<equiv> [(Single, \<lparr>crRegistry = Some exampleRegistry, crCachedAt = cat\<rparr>)]"

lemma example_stored: "storeBuilt [] Single 5 (Inr (Some r)) = (Inr (Some r), [(Single, \<lparr>crRegistry = Some r, crCachedAt = 5\<rparr>)])"
  by (simp add: storeBuilt_def storeLocked_def maxCachedTenants_def)

lemma example_hit: "fst (GetRegistry (exampleManager opts) lib \<lparr>msStore = s, msRegistries = exampleEntry 5\<rparr> 104 Single) = Inr (Some exampleRegistry)"
  if "opts = [] \<or> opts = [inheritAll]"
proof -
  have "cachedHit 100 104 (exampleEntry 5) Single = Some (Some exampleRegistry)"
    by (simp add: cachedHit_def cacheFresh_def pinnedCacheYear_def nsPerDay_def)
  then show ?thesis using that by (auto simp: GetRegistry_def getRegistry_def example_read(3) split: prod.split)
qed

text \<open>
  C22. With inheritance wired, an invalidation can be lost. A lookup resolves its records, the last provider
  is then deleted and the cache cleared, and the lookup, which reads nothing again under the lock, stores
  what it resolved before: with every invalidation run and no caller under way, the deleted provider
  is served for the rest of the window.
\<close>

theorem invalidation_lost_under_inheritance:
  "\<exists>w. cache_run \<lparr>rgInherit = True, rgRace = True, rgWrites = True\<rparr> 100 (recordsFor (exampleManager [inheritAll]))
       (buildRegistry (exampleManager [inheritAll])) (exampleWorld [(''okta'', exampleRow)] [] 1 [] (\<lambda>t. False)) w \<and>
     wStore w = [] \<and> (\<forall>t. \<not> wOwed w t) \<and> wLocal w = [] \<and>
     recordsFor (exampleManager [inheritAll]) (wStore w) Single = Inr [] \<and>
     fst (GetRegistry (exampleManager [inheritAll]) exampleOidcLib \<lparr>msStore = wStore w, msRegistries = wCache w\<rparr> 104 Single)
       = Inr (Some exampleRegistry)"
proof -
  let ?R = "\<lparr>rgInherit = True, rgRace = True, rgWrites = True\<rparr>" and ?M = "exampleManager [inheritAll]"
  let ?step = "cache_step ?R 100 (recordsFor ?M) (buildRegistry ?M)"
  let ?rows = "[(''okta'', exampleRow)]" and ?none = "\<lambda>t::ID. False"
  let ?owed = "\<lambda>t. False \<or> recordsFor ?M [] t \<noteq> recordsFor ?M ?rows t"
  have "?step (exampleWorld ?rows [] 1 [] ?none) (exampleWorld ?rows [] 1 [(Single, [exampleRow])] ?none)"
    using cache_step.resolved [of ?R "recordsFor ?M" "exampleWorld ?rows [] 1 [] ?none" Single "[exampleRow]" 100 "buildRegistry ?M"]
    by (simp add: example_read)
  moreover have "?step (exampleWorld ?rows [] 1 [(Single, [exampleRow])] ?none) (exampleWorld [] [] 1 [(Single, [exampleRow])] ?owed)"
    using cache_step.rows_written [of ?R 100 "recordsFor ?M" "buildRegistry ?M" "exampleWorld ?rows [] 1 [(Single, [exampleRow])] ?none" "[]"]
    by simp
  moreover have "?step (exampleWorld [] [] 1 [(Single, [exampleRow])] ?owed) (exampleWorld [] [] 1 [(Single, [exampleRow])] ?none)"
    using cache_step.invalidated [of ?R "exampleWorld [] [] 1 [(Single, [exampleRow])] ?owed" 100 "recordsFor ?M" "buildRegistry ?M" Single]
    by (simp add: InvalidateTenant_def)
  moreover have "lockedWith 100 (buildRegistry ?M exampleOidcLib) [] Single [exampleRow] 5 = (Inr (Some exampleRegistry), exampleEntry 5)"
    by (simp add: lockedWith_def cachedHit_def example_build example_stored)
  then have "?step (exampleWorld [] [] 1 [(Single, [exampleRow])] ?none) (exampleWorld [] (exampleEntry 5) 5 [] ?none)"
    using cache_step.served_wired [of ?R "exampleWorld [] [] 1 [(Single, [exampleRow])] ?none" 5 Single "[exampleRow]" 100
        "buildRegistry ?M" exampleOidcLib _ _ "recordsFor ?M"]
    by simp
  ultimately have "?step\<^sup>*\<^sup>* (exampleWorld ?rows [] 1 [] ?none) (exampleWorld [] (exampleEntry 5) 5 [] ?none)"
    by (meson rtranclp.rtrancl_refl rtranclp.rtrancl_into_rtrancl)
  moreover have "recordsFor ?M [] Single = Inr []" by (simp add: example_read)
  moreover have "fst (GetRegistry ?M exampleOidcLib \<lparr>msStore = [], msRegistries = exampleEntry 5\<rparr> 104 Single) = Inr (Some exampleRegistry)"
    by (rule example_hit) simp
  ultimately show ?thesis by (intro exI [of _ "exampleWorld [] (exampleEntry 5) 5 [] ?none"]) simp
qed

theorem registry_never_stale_witness:
  "builtFrom (recordsFor (exampleManager [])) (buildRegistry (exampleManager [])) [(''okta'', exampleRow)] Single (Some exampleRegistry)"
proof -
  let ?R = "\<lparr>rgInherit = False, rgRace = True, rgWrites = True\<rparr>" and ?M = "exampleManager []" and ?rows = "[(''okta'', exampleRow)]"
  have unwired: "mgInherit ?M = None" by (simp add: exampleManager_def NewManager_def)
  have "getRegistry 100 (recordsFor ?M ?rows) None (buildRegistry ?M exampleOidcLib) [] Single 5 = (Inr (Some exampleRegistry), exampleEntry 5)"
    by (simp add: getRegistry_unwired cachedHit_def rebuildLocked_def example_read example_build example_stored)
  then have run: "cache_run ?R (mgTTL ?M) (recordsFor ?M) (buildRegistry ?M) (exampleWorld ?rows [] 1 [] (\<lambda>t. False))
      (exampleWorld ?rows (exampleEntry 5) 5 [] (\<lambda>t. False))"
    using cache_step.served_unwired [of ?R "exampleWorld ?rows [] 1 [] (\<lambda>t. False)" 5 100 "recordsFor ?M" "buildRegistry ?M" exampleOidcLib Single]
    by (simp add: example_read r_into_rtranclp)
  obtain st' where "GetRegistry ?M exampleOidcLib \<lparr>msStore = ?rows, msRegistries = exampleEntry 5\<rparr> 104 Single = (Inr (Some exampleRegistry), st')"
    using example_hit [of "[]" exampleOidcLib ?rows] by (auto simp: fst_def split: prod.splits)
  then show ?thesis using registry_never_stale [OF run, of Single exampleOidcLib 104 "Some exampleRegistry" st'] by (simp add: unwired)
qed


end
