(* ===== verification/Oidc_Lifecycle.thy ===== *)
theory Oidc_Lifecycle
  imports Oidc_Manager "HOL-Library.Multiset"
begin

text \<open>
  What the calls of the OIDC manager do to the rows of the in-memory store: a definition that is created or
  updated is read back, its secret is stored sealed, the next lookup sees it, and a rotation
  of the key-encryption keys changes no secret.
\<close>

section \<open>Sealing and opening\<close>

lemma Seal_Inr:
  assumes "map_of (ksKeys ks) (ksWriteKeyID ks) = Some a" "aeadOk a" "length nonce = NonceSize a"
  shows "\<exists>rest. Seal ks (Some nonce) pt = Inr (ksWriteKeyID ks # rest) \<and> OpenEnvelope ks (ksWriteKeyID ks # rest) = Inr pt"
proof -
  have "aeadOpen a nonce (aeadSeal a nonce pt) = Some pt" using assms(2,3) by (simp add: aeadOk_def)
  then show ?thesis using assms(1,3) by (simp add: Seal_def OpenEnvelope_def)
qed

text \<open>A key set that can write, with the nonces a call draws.\<close>

definition writableKeys :: "KeySet \<Rightarrow> byte list \<Rightarrow> bool" where
  "writableKeys ks nonce \<longleftrightarrow>
     (\<exists>a. map_of (ksKeys ks) (ksWriteKeyID ks) = Some a \<and> aeadOk a \<and> length nonce = NonceSize a)"

lemma Seal_writable:
  "writableKeys ks nonce \<Longrightarrow> \<exists>rest. Seal ks (Some nonce) pt = Inr (ksWriteKeyID ks # rest) \<and> OpenEnvelope ks (ksWriteKeyID ks # rest) = Inr pt"
  by (auto simp: writableKeys_def intro: Seal_Inr)

lemma definitionFromRecord_sealed:
  assumes "OpenEnvelope ks sealed = Inr (bytesOf (pdClientSecret def))" "sealed \<noteq> []"
  shows "definitionFromRecord (Some ks) ((recordFromDefinition def sealed)\<lparr>prCreatedAt := c, prUpdatedAt := u\<rparr>) =
    Inr (def\<lparr>pdCreatedAt := c, pdUpdatedAt := u\<rparr>)"
  using assms by (simp add: definitionFromRecord_def recordFromDefinition_def)

section \<open>Create, update and delete\<close>

lemma memPort_simps [simp]:
  "ppInsert memProviderPort = memInsertProvider" "ppGet memProviderPort = memGetProvider" "ppList memProviderPort = memListProviders"
  "ppListEnabled memProviderPort = memListEnabledProviders" "ppUpdate memProviderPort = memUpdateProvider"
  "ppUpdateSealed memProviderPort = memUpdateProviderSealedSecret" "ppDelete memProviderPort = memDeleteProvider"
  by (simp_all add: memProviderPort_def)

lemma invalidateCache_Single: "map_of (msRegistries (invalidateCache m st)) Single = None" "msStore (invalidateCache m st) = msStore st"
  by (simp_all add: invalidateCache_def InvalidateTenant_def alist_simps)

lemma GetRegistry_after_invalidation:
  assumes "mgPort m = memProviderPort" "mgInherit m = None" "map_of (msRegistries st) Single = None"
  shows "fst (GetRegistry m lib st now Single) = buildRegistry m lib Single (sortedLocked (msStore st) prEnabled)"
  using assms
  by (simp add: GetRegistry_def getRegistry_unwired cachedHit_def rebuildLocked_def listEnabled_def memListEnabledProviders_def storeBuilt_def
      split: sum.split prod.split)


definition exampleKeys :: KeySet where
  "exampleKeys = \<lparr>ksKeys = [(1, toyAEAD 7), (2, toyAEAD 9)], ksWriteKeyID = 2\<rparr>"

definition sealingManager :: "MemProviderStore Manager" where
  "sealingManager = NewManager memProviderPort (Some exampleKeys) [WithTTL 100, WithRedirectURL (Some (\<lambda>i. ''https://app/cb''))]"

definition exampleDefinition :: "string \<Rightarrow> ProviderDefinition" where
  "exampleDefinition secret = \<lparr>pdID = ''okta'', pdIssuerURL = ''https://idp'', pdClientID = ''c'', pdClientSecret = secret,
     pdDisplayName = ''Okta'', pdScopes = [], pdGroupsClaim = '''', pdGroupClaimFormat = '''', pdEnabled = True,
     pdCreatedAt = 0, pdUpdatedAt = 0\<rparr>"

lemma exampleKeys_writable: "writableKeys exampleKeys [5]"
  by (simp add: writableKeys_def exampleKeys_def toyAEAD_ok)

lemma sealingManager_simps:
  "mgPort sealingManager = memProviderPort" "mgInherit sealingManager = None" "mgKeys sealingManager = Some exampleKeys"
  by (simp_all add: sealingManager_def NewManager_def)


section \<open>Rotation\<close>

lemma mset_insertRow [simp]: "mset (insertRow r rs) = add_mset r (mset rs)"
  by (induction r rs rule: insertRow.induct) simp_all

lemma mset_sortedLocked: "mset (sortedLocked s match) = mset (filter match (map snd s))"
proof -
  have "mset (foldr insertRow rs []) = mset rs" for rs by (induction rs) simp_all
  then show ?thesis by (simp only: sortedLocked_def)
qed

text \<open>A row after rotation: the times and the sealing may differ, the secret does not.\<close>

definition resealed :: "KeySet \<Rightarrow> ProviderRecord \<Rightarrow> ProviderRecord \<Rightarrow> bool" where
  "resealed ks old new \<longleftrightarrow>
     new = old\<lparr>prSealedClientSecret := prSealedClientSecret new, prUpdatedAt := prUpdatedAt new\<rparr> \<and>
     (prSealedClientSecret old = [] \<longrightarrow> new = old) \<and>
     (prSealedClientSecret old \<noteq> [] \<longrightarrow> prSealedClientSecret new \<noteq> [] \<and> hd (prSealedClientSecret new) = ksWriteKeyID ks) \<and>
     definitionFromRecord (Some ks) new =
       map_sum id (\<lambda>d. d\<lparr>pdUpdatedAt := prUpdatedAt new\<rparr>) (definitionFromRecord (Some ks) old)"

definition opens :: "KeySet \<Rightarrow> ProviderRecord \<Rightarrow> bool" where
  "opens ks rec \<longleftrightarrow> prSealedClientSecret rec \<noteq> [] \<longrightarrow> (\<exists>pt. OpenEnvelope ks (prSealedClientSecret rec) = Inr pt)"

lemma resealed_refl: "prSealedClientSecret r = [] \<or> hd (prSealedClientSecret r) = ksWriteKeyID ks \<Longrightarrow> resealed ks r r"
  by (cases "definitionFromRecord (Some ks) r")
    (auto simp: resealed_def definitionFromRecord_def Let_def split: if_splits sum.splits)

lemma resealed_step:
  assumes "OpenEnvelope ks (prSealedClientSecret r) = Inr pt" "OpenEnvelope ks (ksWriteKeyID ks # rest) = Inr pt" "prSealedClientSecret r \<noteq> []"
  shows "resealed ks r (r\<lparr>prSealedClientSecret := ksWriteKeyID ks # rest, prUpdatedAt := now\<rparr>)"
  using assms by (simp add: resealed_def definitionFromRecord_def)

text \<open>The loop, over rows that are still what was read.\<close>

lemma rotateRows_mem:
  assumes "distinct (map prID recs)" "\<forall>r\<in>set recs. map_of s (prID r) = Some r \<and> opens ks r"
    and "length recs \<le> length draws" "\<forall>d\<in>set draws. \<exists>nonce. fst d = Some nonce \<and> writableKeys ks nonce"
  shows "\<exists>result' s'. rotateRows ks memProviderPort draws recs s result = ((result', None), s') \<and>
    (\<forall>i. i \<notin> prID ` set recs \<longrightarrow> map_of s' i = map_of s i) \<and>
    (\<forall>r\<in>set recs. \<exists>r'. map_of s' (prID r) = Some r' \<and> resealed ks r r')"
  using assms
proof (induction recs arbitrary: draws s result)
  case (Cons r recs)
  have untouched: "\<exists>result' s'. rotateRows ks memProviderPort draws recs s res = ((result', None), s') \<and>
      (\<forall>i. i \<notin> prID ` set (r # recs) \<longrightarrow> map_of s' i = map_of s i) \<and>
      (\<forall>q\<in>set (r # recs). \<exists>q'. map_of s' (prID q) = Some q' \<and> resealed ks q q')"
    if "resealed ks r r" for res
  proof -
    have "\<exists>result' s'. rotateRows ks memProviderPort draws recs s res = ((result', None), s') \<and>
        (\<forall>i. i \<notin> prID ` set recs \<longrightarrow> map_of s' i = map_of s i) \<and>
        (\<forall>q\<in>set recs. \<exists>q'. map_of s' (prID q) = Some q' \<and> resealed ks q q')"
      using Cons.prems by (intro Cons.IH) auto
    with that Cons.prems(1,2) show ?thesis by fastforce
  qed
  show ?case
  proof (cases "prSealedClientSecret r")
    case Nil
    then show ?thesis using untouched [OF resealed_refl] by simp
  next
    case (Cons keyID sealedRest)
    show ?thesis
    proof (cases "keyID = ksWriteKeyID ks")
      case True
      then show ?thesis using untouched [OF resealed_refl] \<open>prSealedClientSecret r = _\<close> by (simp add: Let_def)
    next
      case False
      obtain d ds where d: "draws = d # ds" using Cons.prems(3) by (cases draws) auto
      then obtain nonce t where nonce: "d = (Some nonce, t)" "writableKeys ks nonce" using Cons.prems(4) by (cases d) auto
      obtain pt where pt: "OpenEnvelope ks (prSealedClientSecret r) = Inr pt"
        using Cons.prems(2) \<open>prSealedClientSecret r = _\<close> by (auto simp: opens_def)
      obtain rest where seal: "Seal ks (Some nonce) pt = Inr (ksWriteKeyID ks # rest)" "OpenEnvelope ks (ksWriteKeyID ks # rest) = Inr pt"
        using Seal_writable [OF nonce(2)] by blast
      let ?r = "r\<lparr>prSealedClientSecret := ksWriteKeyID ks # rest, prUpdatedAt := t\<rparr>"
      let ?s = "AList.update (prID r) ?r s"
      have now: "map_of s (prID r) = Some r" using Cons.prems(2) by simp
      let ?result = "result\<lparr>rrScanned := rrScanned result + 1, rrRotated := rrRotated result + 1\<rparr>"
      have "rotateRows ks memProviderPort draws (r # recs) s result = rotateRows ks memProviderPort ds recs ?s ?result"
        using False pt seal(1) now \<open>prSealedClientSecret r = _\<close> d nonce(1)
        by (simp add: Let_def memUpdateProviderSealedSecret_def)
      moreover have "\<exists>result' s'. rotateRows ks memProviderPort ds recs ?s ?result = ((result', None), s') \<and>
          (\<forall>i. i \<notin> prID ` set recs \<longrightarrow> map_of s' i = map_of ?s i) \<and>
          (\<forall>q\<in>set recs. \<exists>q'. map_of s' (prID q) = Some q' \<and> resealed ks q q')"
      proof (rule Cons.IH)
        have "prID q \<noteq> prID r" if "q \<in> set recs" for q using Cons.prems(1) that by (auto simp: image_iff)
        then show "\<forall>q\<in>set recs. map_of ?s (prID q) = Some q \<and> opens ks q" using Cons.prems(2) by (simp add: alist_simps)
      qed (use Cons.prems d in simp_all)
      moreover have "resealed ks r ?r" using resealed_step [OF pt seal(2)] \<open>prSealedClientSecret r = _\<close> by simp
      ultimately obtain result' s' where out: "rotateRows ks memProviderPort draws (r # recs) s result = ((result', None), s')"
        "\<And>i. i \<notin> prID ` set recs \<Longrightarrow> map_of s' i = map_of ?s i"
        "\<forall>q\<in>set recs. \<exists>q'. map_of s' (prID q) = Some q' \<and> resealed ks q q'" and r: "resealed ks r ?r" by auto
      have "prID r \<notin> prID ` set recs" using Cons.prems(1) by auto
      then have "map_of s' (prID r) = Some ?r" using out(2) by (simp add: alist_simps)
      with r out(3) have "\<forall>q\<in>set (r # recs). \<exists>q'. map_of s' (prID q) = Some q' \<and> resealed ks q q'" by simp
      moreover have "\<forall>i. i \<notin> prID ` set (r # recs) \<longrightarrow> map_of s' i = map_of s i" using out(2) by (simp add: alist_simps)
      ultimately show ?thesis using out(1) by blast
    qed
  qed
qed simp

lemma rotateRows_distinct:
  "distinct (map fst s) \<Longrightarrow> distinct (map fst (snd (rotateRows ks memProviderPort draws recs s result)))"
  by (induction ks "memProviderPort" draws recs s result rule: rotateRows.induct)
    (auto simp: Let_def memUpdateProviderSealedSecret_def alist_simps split: list.splits sum.splits option.splits prod.splits)

lemma rotateRows_done:
  "\<forall>r\<in>set recs. prSealedClientSecret r = [] \<or> hd (prSealedClientSecret r) = ksWriteKeyID ks \<Longrightarrow>
     \<exists>result'. rotateRows ks port draws recs s result = ((result', None), s) \<and> rrRotated result' = rrRotated result"
proof (induction recs arbitrary: result)
  case (Cons r recs)
  then have IH: "\<exists>result'. rotateRows ks port draws recs s res = ((result', None), s) \<and> rrRotated result' = rrRotated res" for res
    by simp
  show ?case
    using Cons.prems IH [of result] IH [of "result\<lparr>rrScanned := rrScanned result + 1\<rparr>"]
    by (cases "prSealedClientSecret r") (simp_all add: Let_def)
qed simp

text \<open>
  Rotating the keys. Over rows that open, a rotation finishes without error, leaves every row as it was
  but for its sealing and its time, puts every stored secret under the writing key and changes none, so
  that each definition reads back the same; run again, whatever is drawn, it re-seals nothing.
\<close>

theorem rotation_keeps_secrets:
  assumes "mgPort m = memProviderPort" "mgKeys m = Some ks"
    and "distinct (map fst (msStore st))" "\<forall>(i, r)\<in>set (msStore st). prID r = i \<and> opens ks r"
    and "length (msStore st) \<le> length draws" "\<forall>d\<in>set draws. \<exists>nonce. fst d = Some nonce \<and> writableKeys ks nonce"
  shows "\<exists>result st'. RotateSealedSecrets m draws st = ((result, None), st') \<and>
    (\<forall>i. rel_option (resealed ks) (map_of (msStore st) i) (map_of (msStore st') i)) \<and>
    (\<forall>draws'. \<exists>result'. RotateSealedSecrets m draws' st' = ((result', None), st') \<and> rrRotated result' = 0)"
proof -
  let ?recs = "sortedLocked (msStore st) (\<lambda>r. True)" and ?zero = "\<lparr>rrScanned = 0, rrRotated = 0\<rparr>"
  have perm: "mset ?recs = mset (map snd (msStore st))" by (simp add: mset_sortedLocked)
  then have set: "set ?recs = snd ` set (msStore st)" "length ?recs = length (msStore st)"
    by (metis mset_eq_setD set_map, metis mset_eq_length length_map)
  have ids: "map prID (map snd (msStore st)) = map fst (msStore st)" using assms(4) by (auto simp: case_prod_beta)
  have "mset (map prID ?recs) = mset (map fst (msStore st))" using perm by (metis ids mset_map)
  then have dist: "distinct (map prID ?recs)" using assms(3) by (metis mset_eq_imp_distinct_iff)
  have rows: "\<forall>r\<in>set ?recs. map_of (msStore st) (prID r) = Some r \<and> opens ks r"
    using assms(3,4) by (auto simp: set intro: map_of_is_SomeI)
  obtain result s' where out: "rotateRows ks memProviderPort draws ?recs (msStore st) ?zero = ((result, None), s')"
      "\<forall>i. i \<notin> prID ` set ?recs \<longrightarrow> map_of s' i = map_of (msStore st) i"
      "\<forall>r\<in>set ?recs. \<exists>r'. map_of s' (prID r) = Some r' \<and> resealed ks r r'"
    using rotateRows_mem [OF dist rows, of draws ?zero] assms(5,6) set(2) by auto
  have rel: "rel_option (resealed ks) (map_of (msStore st) i) (map_of s' i)" for i
  proof (cases "map_of (msStore st) i")
    case None
    then have "i \<notin> prID ` set ?recs" using rows by force
    with None out(2) show ?thesis by simp
  next
    case (Some r)
    then have "(i, r) \<in> set (msStore st)" by (rule map_of_SomeD)
    then have "r \<in> set ?recs" "prID r = i" using assms(4) by (auto simp: set rev_image_eqI)
    with out(3) Some show ?thesis by auto
  qed
  have s': "distinct (map fst s')" using rotateRows_distinct [OF assms(3), of ks draws ?recs ?zero] out(1) by simp
  have under: "prSealedClientSecret r = [] \<or> hd (prSealedClientSecret r) = ksWriteKeyID ks" if "(i, r) \<in> set s'" for i r
  proof -
    have "map_of s' i = Some r" using s' that by simp
    with rel [of i] obtain old where "resealed ks old r" by (cases "map_of (msStore st) i") auto
    then show ?thesis by (cases "prSealedClientSecret old = []") (auto simp: resealed_def)
  qed
  have "set (sortedLocked s' (\<lambda>r. True)) = snd ` set s'"
    using mset_sortedLocked [of s' "\<lambda>r. True"] by (metis filter_True mset_eq_setD set_map)
  then have settled: "\<forall>r\<in>set (sortedLocked s' (\<lambda>r. True)). prSealedClientSecret r = [] \<or> hd (prSealedClientSecret r) = ksWriteKeyID ks"
    by (auto dest: under)
  have "\<exists>result'. RotateSealedSecrets m draws' (st\<lparr>msStore := s'\<rparr>) = ((result', None), st\<lparr>msStore := s'\<rparr>) \<and> rrRotated result' = 0" for draws'
    using rotateRows_done [OF settled, of memProviderPort draws' s' ?zero] assms(1,2)
    by (clarsimp simp: RotateSealedSecrets_def memListProviders_def)
  moreover have "RotateSealedSecrets m draws st = ((result, None), st\<lparr>msStore := s'\<rparr>)"
    using out(1) assms(1,2) by (simp add: RotateSealedSecrets_def memListProviders_def)
  ultimately show ?thesis using rel by (intro exI [of _ result] exI [of _ "st\<lparr>msStore := s'\<rparr>"]) simp
qed

definition oldRow :: ProviderRecord where
  "oldRow = exampleRow\<lparr>prSealedClientSecret := [1, 5, 7, 97]\<rparr>"

theorem rotation_keeps_secrets_witness:
  "\<exists>result st'. RotateSealedSecrets sealingManager [(Some [6], 40)] \<lparr>msStore = [(''okta'', oldRow)], msRegistries = []\<rparr> = ((result, None), st') \<and>
    (\<exists>new. map_of (msStore st') ''okta'' = Some new \<and> resealed exampleKeys oldRow new)"
proof -
  let ?st = "\<lparr>msStore = [(''okta'', oldRow)], msRegistries = []\<rparr>"
  have row: "prID oldRow = ''okta'' \<and> opens exampleKeys oldRow"
    by (simp add: oldRow_def exampleRow_def opens_def exampleKeys_def OpenEnvelope_def toyAEAD_def)
  have "writableKeys exampleKeys [6]" by (simp add: writableKeys_def exampleKeys_def toyAEAD_ok)
  then have "\<exists>result st'. RotateSealedSecrets sealingManager [(Some [6], 40)] ?st = ((result, None), st') \<and>
      (\<forall>i. rel_option (resealed exampleKeys) (map_of (msStore ?st) i) (map_of (msStore st') i)) \<and>
      (\<forall>draws'. \<exists>result'. RotateSealedSecrets sealingManager draws' st' = ((result', None), st') \<and> rrRotated result' = 0)"
    using row by (intro rotation_keeps_secrets) (simp_all add: sealingManager_simps)
  then obtain result st' where out: "RotateSealedSecrets sealingManager [(Some [6], 40)] ?st = ((result, None), st')"
    "rel_option (resealed exampleKeys) (map_of (msStore ?st) ''okta'') (map_of (msStore st') ''okta'')" by blast
  from out(2) have "\<exists>new. map_of (msStore st') ''okta'' = Some new \<and> resealed exampleKeys oldRow new"
    by (simp add: option_rel_Some1)
  with out(1) show ?thesis by blast
qed

lemma example_chars: "char_of (97::nat) = CHR ''a''" "char_of (98::nat) = CHR ''b''"
  by code_simp+

text \<open>
  A rotation undoes a concurrent update. The rows are read once at the start and each new sealing is
  written without looking again: a secret updated in between, which is already under the writing
  key, is replaced by the old one, both calls reporting success.
\<close>

theorem rotation_undoes_an_update:
  "\<exists>st1 st2 result. let st0 = \<lparr>msStore = [(''okta'', oldRow)], msRegistries = []\<rparr> in
     managerGet sealingManager st0 ''okta'' = Inr ((exampleDefinition ''a'')\<lparr>pdCreatedAt := 1, pdUpdatedAt := 1\<rparr>) \<and>
     ppList (mgPort sealingManager) (msStore st0) = Inr [oldRow] \<and>
     managerUpdate sealingManager st0 (Some [5]) 30 (exampleDefinition ''b'') = (None, st1) \<and>
     managerGet sealingManager st1 ''okta'' = Inr ((exampleDefinition ''b'')\<lparr>pdCreatedAt := 1, pdUpdatedAt := 30\<rparr>) \<and>
     rotateRows exampleKeys (mgPort sealingManager) [(Some [6], 40)] [oldRow] (msStore st1) \<lparr>rrScanned = 0, rrRotated = 0\<rparr> = ((result, None), st2) \<and>
     managerGet sealingManager (st1\<lparr>msStore := st2\<rparr>) ''okta'' = Inr ((exampleDefinition ''a'')\<lparr>pdCreatedAt := 1, pdUpdatedAt := 40\<rparr>)"
  unfolding Let_def
  by (simp add: sealingManager_simps memListProviders_def sortedLocked_def managerGet_def managerUpdate_def memGetProvider_def
      memUpdateProvider_def oldRow_def exampleRow_def exampleDefinition_def exampleKeys_def Seal_def OpenEnvelope_def toyAEAD_def
      recordFromDefinition_def definitionFromRecord_def bytesOf_def stringOfBytes_def invalidateCache_def InvalidateTenant_def
      memUpdateProviderSealedSecret_def example_chars)

end
