(* ===== verification/Crypto_Throttle.thy ===== *)
theory Crypto_Throttle
  imports Complex_Main Tamper_Prelude
begin

text \<open>
  Package \<^verbatim>\<open>crypto\<close>, the in-process rate limiter (\<^verbatim>\<open>throttle.go\<close>): one token bucket per key, in a map of bounded size.
  Token counts are exact rationals where the code has \<^verbatim>\<open>float64\<close>; a wait is rounded towards zero as the conversion
  to a duration does. The clock is an argument of each call, and the map's order that of its entries.
\<close>

section \<open>Buckets\<close>

definition maxThrottleKeys :: nat where
  "maxThrottleKeys = 65536"

record bucketState =
  bkTokens :: rat
  bkLastSeen :: go_time

record tokenBucket =
  tbBuckets :: "(string, bucketState) go_map"
  tbRefillPerNano :: rat
  tbBurst :: rat

definition NewTokenBucket :: "int \<Rightarrow> int \<Rightarrow> int \<Rightarrow> tokenBucket" where
  "NewTokenBucket rate per burst =
     \<lparr>tbBuckets = [], tbRefillPerNano = (if rate > 0 \<and> per > 0 then of_int rate / of_int per else 0), tbBurst = of_int burst\<rparr>"

fun oldestBucket :: "(string, bucketState) go_map \<Rightarrow> string \<Rightarrow> go_time \<Rightarrow> string" where
  "oldestBucket [] oldestKey oldest = oldestKey"
| "oldestBucket ((k, b) # rest) oldestKey oldest =
     (if oldest = 0 \<or> bkLastSeen b < oldest then oldestBucket rest k (bkLastSeen b)
      else oldestBucket rest oldestKey oldest)"

definition evictIfFull :: "(string, bucketState) go_map \<Rightarrow> (string, bucketState) go_map" where
  "evictIfFull m = (if length m < maxThrottleKeys then m else AList.delete (oldestBucket m '''' 0) m)"

definition refilled :: "tokenBucket \<Rightarrow> bucketState \<Rightarrow> go_time \<Rightarrow> rat" where
  "refilled t b now =
     (if now - bkLastSeen b > 0
      then min (tbBurst t) (bkTokens b + of_int (now - bkLastSeen b) * tbRefillPerNano t)
      else bkTokens b)"

definition Allow :: "tokenBucket \<Rightarrow> go_time \<Rightarrow> string \<Rightarrow> (bool \<times> int) \<times> tokenBucket" where
  "Allow t now key =
     (if tbRefillPerNano t \<le> 0 \<or> tbBurst t \<le> 0 then ((True, 0), t)
      else
        let m = (case map_of (tbBuckets t) key of None \<Rightarrow> evictIfFull (tbBuckets t) | Some b \<Rightarrow> tbBuckets t);
            tokens = (case map_of (tbBuckets t) key of None \<Rightarrow> tbBurst t | Some b \<Rightarrow> refilled t b now)
        in if tokens \<ge> 1
           then ((True, 0), t\<lparr>tbBuckets := AList.update key \<lparr>bkTokens = tokens - 1, bkLastSeen = now\<rparr> m\<rparr>)
           else ((False, \<lfloor>(1 - tokens) / tbRefillPerNano t\<rfloor>),
                 t\<lparr>tbBuckets := AList.update key \<lparr>bkTokens = tokens, bkLastSeen = now\<rparr> m\<rparr>))"

text \<open>A run of attempts, each with its instant, and its answers.\<close>

fun attempts :: "tokenBucket \<Rightarrow> (go_time \<times> string) list \<Rightarrow> (bool \<times> int) list \<times> tokenBucket" where
  "attempts t [] = ([], t)"
| "attempts t ((now, key) # rest) =
     (case Allow t now key of (out, t1) \<Rightarrow> (case attempts t1 rest of (outs, t2) \<Rightarrow> (out # outs, t2)))"

text \<open>How many attempts under \<^verbatim>\<open>key\<close> a run admits.\<close>

definition admittedFor :: "string \<Rightarrow> (go_time \<times> string) list \<Rightarrow> (bool \<times> int) list \<Rightarrow> nat" where
  "admittedFor key as outs = length (filter (\<lambda>((_, k), ok, _). k = key \<and> ok) (zip as outs))"

section \<open>The state is bounded\<close>

text \<open>What every reachable state has: no more buckets than the cap, one per key, none with less than nothing or more than the capacity.\<close>

definition bucketsOk :: "tokenBucket \<Rightarrow> bool" where
  "bucketsOk t \<longleftrightarrow> length (tbBuckets t) \<le> maxThrottleKeys \<and> distinct (map fst (tbBuckets t)) \<and>
     (\<forall>(k, b) \<in> set (tbBuckets t). 0 \<le> bkTokens b \<and> bkTokens b \<le> tbBurst t)"

lemma oldestBucket_in: "m \<noteq> [] \<Longrightarrow> oldestBucket m k 0 \<in> fst ` set m"
proof (cases m)
  case (Cons p rest)
  have "oldestBucket m' k' o' \<in> insert k' (fst ` set m')" for m' k' o'
    by (induction m' k' o' rule: oldestBucket.induct) auto
  then show ?thesis by (cases p) (simp add: Cons)
qed simp

lemma evictIfFull_sub: "set (evictIfFull m) \<subseteq> set m"
  by (auto simp: evictIfFull_def AList.delete_eq)

lemma evictIfFull_length: "length m \<le> maxThrottleKeys \<Longrightarrow> length (evictIfFull m) < maxThrottleKeys"
proof (cases "length m < maxThrottleKeys")
  case False
  then have "m \<noteq> []" by (auto simp: maxThrottleKeys_def)
  then have "length (AList.delete (oldestBucket m '''' 0) m) < length m"
    by (intro length_delete_less oldestBucket_in)
  moreover assume "length m \<le> maxThrottleKeys"
  ultimately show ?thesis using False by (simp add: evictIfFull_def)
qed (simp add: evictIfFull_def)

lemma evictIfFull_distinct: "distinct (map fst m) \<Longrightarrow> distinct (map fst (evictIfFull m))"
  by (simp add: evictIfFull_def AList.distinct_delete)

lemma set_update: "distinct (map fst m) \<Longrightarrow> (k', b') \<in> set (AList.update k b m) \<longleftrightarrow> (if k' = k then b' = b else (k', b') \<in> set m)"
  by (induction m) (auto simp: image_iff)

text \<open>What one attempt does, whatever the map: the count before it, the answer and the bucket it leaves.\<close>

definition available :: "tokenBucket \<Rightarrow> string \<Rightarrow> go_time \<Rightarrow> rat" where
  "available t key now = (case map_of (tbBuckets t) key of None \<Rightarrow> tbBurst t | Some b \<Rightarrow> refilled t b now)"

abbreviation limiting :: "tokenBucket \<Rightarrow> bool" where
  "limiting t \<equiv> 0 < tbRefillPerNano t \<and> 0 < tbBurst t"

lemma Allow_limiting:
  assumes "limiting t"
  shows "Allow t now key =
    (let tokens = available t key now;
         m = (if map_of (tbBuckets t) key = None then evictIfFull (tbBuckets t) else tbBuckets t)
     in ((1 \<le> tokens, if 1 \<le> tokens then 0 else \<lfloor>(1 - tokens) / tbRefillPerNano t\<rfloor>),
         t\<lparr>tbBuckets := AList.update key \<lparr>bkTokens = (if 1 \<le> tokens then tokens - 1 else tokens), bkLastSeen = now\<rparr> m\<rparr>))"
  using assms by (auto simp: Allow_def available_def Let_def split: option.split)

lemma available_range: "bucketsOk t \<Longrightarrow> limiting t \<Longrightarrow> 0 \<le> available t key now \<and> available t key now \<le> tbBurst t"
  by (force simp: available_def bucketsOk_def refilled_def dest!: map_of_SomeD split: option.split)

lemma Allow_bucketsOk:
  assumes "bucketsOk t" "Allow t now key = (out, t1)"
  shows "bucketsOk t1 \<and> tbRefillPerNano t1 = tbRefillPerNano t \<and> tbBurst t1 = tbBurst t"
proof (cases "limiting t")
  case True
  let ?m = "if map_of (tbBuckets t) key = None then evictIfFull (tbBuckets t) else tbBuckets t"
  let ?tokens = "available t key now"
  have m: "distinct (map fst ?m)" "set ?m \<subseteq> set (tbBuckets t)" "length (AList.update key v ?m) \<le> maxThrottleKeys" for v
    using assms(1) evictIfFull_distinct evictIfFull_sub [of "tbBuckets t"] evictIfFull_length [of "tbBuckets t"]
    by (auto simp: bucketsOk_def length_update_le map_of_eq_None_iff)
  have t1: "t1 = t\<lparr>tbBuckets := AList.update key \<lparr>bkTokens = (if 1 \<le> ?tokens then ?tokens - 1 else ?tokens), bkLastSeen = now\<rparr> ?m\<rparr>"
    using assms(2) Allow_limiting [OF True, of now key] by (simp add: Let_def)
  have "0 \<le> bkTokens b' \<and> bkTokens b' \<le> tbBurst t" if "(k', b') \<in> set (tbBuckets t1)" for k' b'
  proof (cases "k' = key")
    case True
    with that show ?thesis using available_range [OF assms(1) \<open>limiting t\<close>, of key now] by (auto simp: t1 set_update [OF m(1)])
  next
    case False
    with that m(2) assms(1) show ?thesis by (auto simp: t1 set_update [OF m(1)] bucketsOk_def)
  qed
  then show ?thesis using m(1,3) by (auto simp: bucketsOk_def t1 distinct_update)
qed (use assms in \<open>auto simp: Allow_def\<close>)

lemma attempts_bucketsOk:
  "bucketsOk t \<Longrightarrow> attempts t as = (outs, t') \<Longrightarrow> bucketsOk t' \<and> tbRefillPerNano t' = tbRefillPerNano t \<and> tbBurst t' = tbBurst t"
proof (induction as arbitrary: t outs)
  case (Cons a as)
  obtain now key where a: "a = (now, key)" by fastforce
  obtain out t1 where al: "Allow t now key = (out, t1)" by fastforce
  obtain outs1 where "attempts t1 as = (outs1, t')" using Cons.prems(2) al a by (auto split: prod.splits)
  with Cons.IH Allow_bucketsOk [OF Cons.prems(1) al] show ?case by fastforce
qed simp

section \<open>How much a key is admitted\<close>

text \<open>No bucket is dropped while the keys in play fit the map.\<close>

definition fits :: "tokenBucket \<Rightarrow> (go_time \<times> string) list \<Rightarrow> bool" where
  "fits t as \<longleftrightarrow> card (fst ` set (tbBuckets t) \<union> snd ` set as) \<le> maxThrottleKeys"

lemma Allow_fits:
  assumes "bucketsOk t" "limiting t" "fits t ((now, key) # as)" "Allow t now key = (out, t1)"
  shows "fits t1 as" and "k \<noteq> key \<Longrightarrow> map_of (tbBuckets t1) k = map_of (tbBuckets t) k"
    and "map_of (tbBuckets t1) key = Some \<lparr>bkTokens = available t key now - (if fst out then 1 else 0), bkLastSeen = now\<rparr>"
    and "fst out \<longleftrightarrow> 1 \<le> available t key now"
proof -
  have "length (tbBuckets t) = card (fst ` set (tbBuckets t))"
    using assms(1) distinct_card [of "map fst (tbBuckets t)"] by (simp add: bucketsOk_def)
  moreover have "card (insert key (fst ` set (tbBuckets t))) \<le> maxThrottleKeys"
    using assms(3) card_mono [of "fst ` set (tbBuckets t) \<union> snd ` set ((now, key) # as)" "insert key (fst ` set (tbBuckets t))"]
    by (simp add: fits_def subset_iff)
  ultimately have keep: "map_of (tbBuckets t) key = None \<Longrightarrow> evictIfFull (tbBuckets t) = tbBuckets t"
    by (auto simp: evictIfFull_def map_of_eq_None_iff)
  then have out: "out = (1 \<le> available t key now, if 1 \<le> available t key now then 0 else \<lfloor>(1 - available t key now) / tbRefillPerNano t\<rfloor>)"
    and t1: "tbBuckets t1 = AList.update key \<lparr>bkTokens = available t key now - (if 1 \<le> available t key now then 1 else 0), bkLastSeen = now\<rparr> (tbBuckets t)"
    using assms(4) Allow_limiting [OF assms(2), of now key] by (auto simp: Let_def split: if_splits)
  have "fst ` set (tbBuckets t1) = insert key (fst ` set (tbBuckets t))" unfolding t1 by (induction "tbBuckets t") (auto simp: dom_update)
  then show "fits t1 as" using assms(3) by (simp add: fits_def insert_commute)
  show "k \<noteq> key \<Longrightarrow> map_of (tbBuckets t1) k = map_of (tbBuckets t) k"
    "map_of (tbBuckets t1) key = Some \<lparr>bkTokens = available t key now - (if fst out then 1 else 0), bkLastSeen = now\<rparr>"
    "fst out \<longleftrightarrow> 1 \<le> available t key now"
    by (simp_all add: t1 out update_conv)
qed

lemma refilled_later:
  assumes "0 < tbRefillPerNano t" "bkLastSeen b \<le> now" "now \<le> later"
  shows "refilled t b later \<le> refilled t b now + of_int (later - now) * tbRefillPerNano t"
proof -
  let ?x = "of_int (now - bkLastSeen b) * tbRefillPerNano t" and ?y = "of_int (later - now) * tbRefillPerNano t"
  have "of_int (later - bkLastSeen b) * tbRefillPerNano t = ?x + ?y" by (simp add: algebra_simps)
  moreover have "0 \<le> ?y" using assms by simp
  moreover have "now = bkLastSeen b \<Longrightarrow> ?x = 0" "later = now \<Longrightarrow> ?y = 0" by simp_all
  ultimately show ?thesis using assms(2,3) by (auto simp: refilled_def min_def)
qed

lemma available_later:
  assumes "limiting t" "now \<le> later" "\<And>b. map_of (tbBuckets t) key = Some b \<Longrightarrow> bkLastSeen b \<le> now"
  shows "available t key later \<le> available t key now + of_int (later - now) * tbRefillPerNano t"
  using assms refilled_later by (auto simp: available_def split: option.split)

lemma admittedFor_Cons:
  "admittedFor key ((now, k) # as) (out # outs) = (if k = key \<and> fst out then 1 else 0) + admittedFor key as outs"
  by (cases out) (simp add: admittedFor_def)

text \<open>What a key has now, and what it earns until the end, is all it can spend.\<close>

lemma attempts_bound:
  assumes "bucketsOk t" "limiting t" "fits t as" "attempts t as = (outs, t')" "sorted (start # map fst as)" "\<forall>a\<in>set as. fst a \<le> stop" "start \<le> stop"
    and "\<And>b. map_of (tbBuckets t) key = Some b \<Longrightarrow> bkLastSeen b \<le> start"
  shows "of_nat (admittedFor key as outs) \<le> available t key start + of_int (stop - start) * tbRefillPerNano t"
  using assms
proof (induction as arbitrary: t outs start)
  case Nil
  then show ?case using available_range [OF Nil(1,2), of key start] by (simp add: admittedFor_def)
next
  case (Cons a as)
  obtain now k where a: "a = (now, k)" by fastforce
  obtain out t1 where al: "Allow t now k = (out, t1)" by fastforce
  obtain outs1 where run: "attempts t1 as = (outs1, t')" "outs = out # outs1" using Cons.prems(4) al a by (auto split: prod.splits)
  have now: "start \<le> now" "now \<le> stop" "sorted (now # map fst as)" "\<forall>a\<in>set as. fst a \<le> stop" using Cons.prems(5,6) a by auto
  note ok = Allow_bucketsOk [OF Cons.prems(1) al]
  have fits: "fits t ((now, k) # as)" using Cons.prems(3) a by simp
  note st = Allow_fits [OF Cons.prems(1,2) fits al]
  have av: "available t1 key now = available t key now - (if k = key \<and> fst out then 1 else 0)"
    using st(2) [of key] st(3) ok by (cases "k = key") (auto simp: available_def refilled_def split: option.split)
  have seen: "bkLastSeen b \<le> now" if "map_of (tbBuckets t1) key = Some b" for b
    using that st(2) [of key] st(3) Cons.prems(8) now(1) by (cases "k = key") force+
  have "of_nat (admittedFor key as outs1) \<le> available t1 key now + of_int (stop - now) * tbRefillPerNano t1"
    using Cons.IH [OF _ _ st(1) run(1) now(3,4,2) seen] ok Cons.prems(2) by simp
  moreover have "available t key now \<le> available t key start + of_int (now - start) * tbRefillPerNano t"
    using available_later [OF Cons.prems(2) now(1) Cons.prems(8)] .
  moreover have "of_int (stop - start) * tbRefillPerNano t = of_int (now - start) * tbRefillPerNano t + of_int (stop - now) * tbRefillPerNano t"
    by (simp add: algebra_simps)
  ultimately show ?case using ok av by (cases "k = key \<and> fst out") (auto simp: a run(2) admittedFor_Cons)
qed

text \<open>The buckets of a run were last touched by its last instant.\<close>

lemma attempts_seen:
  assumes "bucketsOk t" "attempts t as = (outs, t')" "sorted (map fst as)" "\<forall>a\<in>set as. fst a \<le> stop"
    and "\<And>k b. (k, b) \<in> set (tbBuckets t) \<Longrightarrow> bkLastSeen b \<le> stop"
  shows "(k, b) \<in> set (tbBuckets t') \<Longrightarrow> bkLastSeen b \<le> stop"
  using assms
proof (induction as arbitrary: t outs)
  case (Cons a as)
  obtain now key where a: "a = (now, key)" by fastforce
  obtain out t1 where al: "Allow t now key = (out, t1)" by fastforce
  obtain outs1 where run: "attempts t1 as = (outs1, t')" using Cons.prems(3) al a by (auto split: prod.splits)
  have "bkLastSeen b' \<le> stop" if "(k', b') \<in> set (tbBuckets t1)" for k' b'
  proof (cases "limiting t")
    case True
    let ?m = "if map_of (tbBuckets t) key = None then evictIfFull (tbBuckets t) else tbBuckets t"
    have m: "distinct (map fst ?m)" "set ?m \<subseteq> set (tbBuckets t)"
      using Cons.prems(2) evictIfFull_distinct evictIfFull_sub [of "tbBuckets t"] by (auto simp: bucketsOk_def)
    have "tbBuckets t1 = AList.update key \<lparr>bkTokens = (if 1 \<le> available t key now then available t key now - 1 else available t key now), bkLastSeen = now\<rparr> ?m"
      using al Allow_limiting [OF True, of now key] by (auto simp: Let_def)
    with that set_update [OF m(1)] m(2) Cons.prems(5,6) a show ?thesis by (cases "k' = key") auto
  qed (use that al Cons.prems(6) in \<open>auto simp: Allow_def\<close>)
  with Cons.IH [OF Cons.prems(1) _ run] Allow_bucketsOk [OF Cons.prems(2) al] Cons.prems(4,5) show ?case by auto
qed simp

lemma Allow_keys:
  assumes "Allow t now key = (out, t1)"
  shows "fst ` set (tbBuckets t1) \<subseteq> insert key (fst ` set (tbBuckets t))"
proof (cases "limiting t")
  case True
  let ?m = "if map_of (tbBuckets t) key = None then evictIfFull (tbBuckets t) else tbBuckets t"
  obtain v where "tbBuckets t1 = AList.update key v ?m"
    using assms Allow_limiting [OF True, of now key] by (auto simp: Let_def)
  moreover have "fst ` set ?m \<subseteq> fst ` set (tbBuckets t)" using evictIfFull_sub [of "tbBuckets t"] by auto
  ultimately show ?thesis by (auto simp only: dom_update)
qed (use assms in \<open>auto simp: Allow_def\<close>)

lemma attempts_keys: "attempts t as = (outs, t') \<Longrightarrow> fst ` set (tbBuckets t') \<subseteq> fst ` set (tbBuckets t) \<union> snd ` set as"
proof (induction as arbitrary: t outs)
  case (Cons a as)
  obtain now key where a: "a = (now, key)" by fastforce
  obtain out t1 where al: "Allow t now key = (out, t1)" by fastforce
  obtain outs1 where "attempts t1 as = (outs1, t')" using Cons.prems al a by (auto split: prod.splits)
  from Cons.IH [OF this] Allow_keys [OF al] a show ?case by auto
qed simp

text \<open>A refused caller who waits a nanosecond longer than told is admitted.\<close>

lemma readmitted:
  assumes "bucketsOk t" "limiting t" "1 \<le> tbBurst t" "Allow t now key = ((False, w), t1)" "now + w < later"
  shows "fst (fst (Allow t1 later key))"
proof -
  let ?tk = "available t key now" and ?r = "tbRefillPerNano t"
  note ok = Allow_bucketsOk [OF assms(1,4)]
  have few: "?tk < 1" "w = \<lfloor>(1 - ?tk) / ?r\<rfloor>" and
    b: "map_of (tbBuckets t1) key = Some \<lparr>bkTokens = ?tk, bkLastSeen = now\<rparr>"
    using assms(4) Allow_limiting [OF assms(2), of now key] by (auto simp: Let_def update_conv split: if_splits)
  have "0 < (1 - ?tk) / ?r" using few(1) assms(2) by simp
  then have "0 \<le> w" using few(2) by simp
  then have later: "now < later" using assms(5) by simp
  have "(1 - ?tk) / ?r < of_int (w + 1)" unfolding few(2) by linarith
  also have "\<dots> \<le> of_int (later - now)" using assms(5) by (simp only: of_int_le_iff)
  finally have "1 \<le> ?tk + of_int (later - now) * ?r" using assms(2) by (simp add: field_simps)
  then have "1 \<le> available t1 key later" using b ok later assms(3) by (simp add: available_def refilled_def)
  moreover have "limiting t1" using ok assms(2) by simp
  ultimately show ?thesis using Allow_limiting [of t1 later key] by (simp add: Let_def)
qed



text \<open>The wait itself is rounded down: a caller who comes back exactly when told may be refused again.\<close>

theorem retry_after_is_early:
  "\<exists>t1 t2 t3. Allow (NewTokenBucket 3 10 1) 100 ''k'' = ((True, 0), t1) \<and> Allow t1 100 ''k'' = ((False, 3), t2) \<and>
     Allow t2 (100 + 3) ''k'' = ((False, 0), t3)"
proof -
  have "\<lfloor>10 / 3 :: rat\<rfloor> = 3" "\<lfloor>1 / 3 :: rat\<rfloor> = 0" by (simp_all add: floor_eq_iff)
  then show ?thesis by (simp add: Allow_def NewTokenBucket_def evictIfFull_def refilled_def maxThrottleKeys_def)
qed

end
