(* ===== verification/Federation_State.thy ===== *)
theory Federation_State
  imports Tamper_Prelude
begin

text \<open>
  The signed state cookies of the two federation flows (\<^verbatim>\<open>oidc/state.go\<close>, \<^verbatim>\<open>saml/state.go\<close>): one JWT format, two
  claim sets, told apart by their purpose.

  The payload of a token is its JSON object. The library signs it under a secret and opens a token to the
  payload it was signed with; it then wants the issuer, if one is expected, and an expiry that has not passed.
  Dates are whole Unix seconds, so an expiry is the second it falls into. Field names are matched as written.
\<close>

section \<open>Payloads\<close>

datatype cookie_value = CJStr string | CJNum int | CJStrs "string list"

type_synonym cookie_payload = "(string, cookie_value) go_map"

record CookieLib =
  clSign :: "string \<Rightarrow> cookie_payload \<Rightarrow> string option"
  clOpen :: "string \<Rightarrow> string \<Rightarrow> cookie_payload option"

definition cookieLibOk :: "CookieLib \<Rightarrow> bool" where
  "cookieLibOk L \<longleftrightarrow> (\<forall>secret p tok. clSign L secret p = Some tok \<longrightarrow> clOpen L secret tok = Some p)"

definition emptyValue :: "cookie_value \<Rightarrow> bool" where
  "emptyValue v = (v = CJStr '''' \<or> v = CJNum 0 \<or> v = CJStrs [])"

definition omitEmpty :: "string list \<Rightarrow> cookie_payload \<Rightarrow> cookie_payload" where
  "omitEmpty omit fs = filter (\<lambda>(k, v). \<not> (k \<in> set omit \<and> emptyValue v)) fs"

text \<open>A field that is absent decodes to its zero value; \<^verbatim>\<open>None\<close> is a value of the wrong type.\<close>

definition strField :: "cookie_payload \<Rightarrow> string \<Rightarrow> string option" where
  "strField p k = (case map_of p k of None \<Rightarrow> Some '''' | Some (CJStr s) \<Rightarrow> Some s | Some _ \<Rightarrow> None)"

definition numField :: "cookie_payload \<Rightarrow> string \<Rightarrow> int option" where
  "numField p k = (case map_of p k of None \<Rightarrow> Some 0 | Some (CJNum n) \<Rightarrow> Some n | Some _ \<Rightarrow> None)"

definition strsField :: "cookie_payload \<Rightarrow> string \<Rightarrow> string list option" where
  "strsField p k = (case map_of p k of None \<Rightarrow> Some [] | Some (CJStrs ss) \<Rightarrow> Some ss | Some _ \<Rightarrow> None)"

definition numericDate :: "go_time \<Rightarrow> int" where
  "numericDate t = t div 10 ^ 9"

text \<open>What the library checks of the registered claims: issuer, and an expiry that is there and not reached.\<close>

definition registeredValid :: "string \<Rightarrow> go_time \<Rightarrow> cookie_payload \<Rightarrow> bool" where
  "registeredValid issuer now p =
     ((issuer = '''' \<or> map_of p ''iss'' = Some (CJStr issuer)) \<and>
      (case map_of p ''exp'' of Some (CJNum e) \<Rightarrow> now < e * 10 ^ 9 | _ \<Rightarrow> False))"

datatype state_err = StateSecretEmpty | StateSignFailed | ErrStateExpired

definition StateTTL :: int where
  "StateTTL = 10 * 60 * 10 ^ 9"

definition ModeLogin :: string where "ModeLogin = ''login''"
definition ModeLink :: string where "ModeLink = ''link''"

section \<open>OIDC\<close>

definition oidcStatePurpose :: string where
  "oidcStatePurpose = ''oidc_state''"

record OidcState =
  osState :: string
  osNonce :: string
  osCodeVerifier :: string
  osProviderID :: string
  osRedirectAfterLogin :: string
  osMode :: string
  osUserID :: string
  osRequestedMaxAgeSeconds :: int
  osRequestedACRValues :: "string list"
  osCallingUserID :: string
  osPurpose :: string
  osIssuer :: string
  osIssuedAt :: int
  osExpiresAt :: int

definition oidcStateFields :: "OidcState \<Rightarrow> cookie_payload" where
  "oidcStateFields c =
     [(''st'', CJStr (osState c)), (''nc'', CJStr (osNonce c)), (''cv'', CJStr (osCodeVerifier c)), (''pid'', CJStr (osProviderID c)),
      (''red'', CJStr (osRedirectAfterLogin c)), (''mode'', CJStr (osMode c)), (''uid'', CJStr (osUserID c)),
      (''rma'', CJNum (osRequestedMaxAgeSeconds c)), (''rav'', CJStrs (osRequestedACRValues c)), (''cuid'', CJStr (osCallingUserID c)),
      (''purpose'', CJStr (osPurpose c)), (''iss'', CJStr (osIssuer c)), (''iat'', CJNum (osIssuedAt c)), (''exp'', CJNum (osExpiresAt c))]"

definition encodeOidcState :: "OidcState \<Rightarrow> cookie_payload" where
  "encodeOidcState c = omitEmpty [''red'', ''mode'', ''uid'', ''rma'', ''rav'', ''cuid'', ''iss''] (oidcStateFields c)"

definition decodeOidcState :: "cookie_payload \<Rightarrow> OidcState option" where
  "decodeOidcState p =
     (case (strField p ''st'', strField p ''nc'', strField p ''cv'', strField p ''pid'', strField p ''red'', strField p ''mode'', strField p ''uid'') of
        (Some st, Some nc, Some cv, Some pid, Some red, Some mode, Some uid) \<Rightarrow>
          (case (numField p ''rma'', strsField p ''rav'', strField p ''cuid'', strField p ''purpose'', strField p ''iss'', numField p ''iat'', numField p ''exp'') of
             (Some rma, Some rav, Some cuid, Some purpose, Some iss, Some iat, Some exp) \<Rightarrow>
               Some \<lparr>osState = st, osNonce = nc, osCodeVerifier = cv, osProviderID = pid, osRedirectAfterLogin = red, osMode = mode,
                     osUserID = uid, osRequestedMaxAgeSeconds = rma, osRequestedACRValues = rav, osCallingUserID = cuid,
                     osPurpose = purpose, osIssuer = iss, osIssuedAt = iat, osExpiresAt = exp\<rparr>
           | _ \<Rightarrow> None)
      | _ \<Rightarrow> None)"

definition stampOidcState :: "OidcState \<Rightarrow> string \<Rightarrow> go_time \<Rightarrow> int \<Rightarrow> OidcState" where
  "stampOidcState claims issuer now ttl =
     claims\<lparr>osPurpose := oidcStatePurpose, osIssuer := issuer, osIssuedAt := numericDate now, osExpiresAt := numericDate (now + ttl)\<rparr>"

definition SignOIDCStateWithSecret :: "CookieLib \<Rightarrow> string \<Rightarrow> OidcState \<Rightarrow> string \<Rightarrow> go_time \<Rightarrow> int \<Rightarrow> state_err + string" where
  "SignOIDCStateWithSecret L secret claims issuer now ttl =
     (if secret = '''' then Inl StateSecretEmpty
      else (case clSign L secret (encodeOidcState (stampOidcState claims issuer now ttl)) of
          None \<Rightarrow> Inl StateSignFailed
        | Some tok \<Rightarrow> Inr tok))"

definition VerifyOIDCStateWithSecret :: "CookieLib \<Rightarrow> string \<Rightarrow> string \<Rightarrow> string \<Rightarrow> go_time \<Rightarrow> state_err + OidcState" where
  "VerifyOIDCStateWithSecret L secret token issuer now =
     (if secret = '''' then Inl StateSecretEmpty
      else (case clOpen L secret token of
          None \<Rightarrow> Inl ErrStateExpired
        | Some p \<Rightarrow> (case decodeOidcState p of
            None \<Rightarrow> Inl ErrStateExpired
          | Some claims \<Rightarrow>
              if \<not> registeredValid issuer now p then Inl ErrStateExpired
              else if osPurpose claims \<noteq> oidcStatePurpose then Inl ErrStateExpired
              else Inr claims)))"

section \<open>SAML\<close>

definition samlStatePurpose :: string where
  "samlStatePurpose = ''saml_state''"

record SamlState =
  ssProviderID :: string
  ssRedirectAfterLogin :: string
  ssRequestedMaxAgeSeconds :: int
  ssRequestedACRValues :: "string list"
  ssCallingUserID :: string
  ssRequestID :: string
  ssMode :: string
  ssUserID :: string
  ssPurpose :: string
  ssIssuer :: string
  ssIssuedAt :: int
  ssExpiresAt :: int

definition samlStateFields :: "SamlState \<Rightarrow> cookie_payload" where
  "samlStateFields c =
     [(''pid'', CJStr (ssProviderID c)), (''red'', CJStr (ssRedirectAfterLogin c)), (''rma'', CJNum (ssRequestedMaxAgeSeconds c)),
      (''rav'', CJStrs (ssRequestedACRValues c)), (''cuid'', CJStr (ssCallingUserID c)), (''rid'', CJStr (ssRequestID c)),
      (''mode'', CJStr (ssMode c)), (''uid'', CJStr (ssUserID c)), (''purpose'', CJStr (ssPurpose c)), (''iss'', CJStr (ssIssuer c)),
      (''iat'', CJNum (ssIssuedAt c)), (''exp'', CJNum (ssExpiresAt c))]"

definition encodeSamlState :: "SamlState \<Rightarrow> cookie_payload" where
  "encodeSamlState c = omitEmpty [''red'', ''rma'', ''rav'', ''cuid'', ''rid'', ''mode'', ''uid'', ''iss''] (samlStateFields c)"

definition decodeSamlState :: "cookie_payload \<Rightarrow> SamlState option" where
  "decodeSamlState p =
     (case (strField p ''pid'', strField p ''red'', numField p ''rma'', strsField p ''rav'', strField p ''cuid'', strField p ''rid'') of
        (Some pid, Some red, Some rma, Some rav, Some cuid, Some rid) \<Rightarrow>
          (case (strField p ''mode'', strField p ''uid'', strField p ''purpose'', strField p ''iss'', numField p ''iat'', numField p ''exp'') of
             (Some mode, Some uid, Some purpose, Some iss, Some iat, Some exp) \<Rightarrow>
               Some \<lparr>ssProviderID = pid, ssRedirectAfterLogin = red, ssRequestedMaxAgeSeconds = rma, ssRequestedACRValues = rav,
                     ssCallingUserID = cuid, ssRequestID = rid, ssMode = mode, ssUserID = uid, ssPurpose = purpose, ssIssuer = iss,
                     ssIssuedAt = iat, ssExpiresAt = exp\<rparr>
           | _ \<Rightarrow> None)
      | _ \<Rightarrow> None)"

definition stampSamlState :: "SamlState \<Rightarrow> string \<Rightarrow> go_time \<Rightarrow> int \<Rightarrow> SamlState" where
  "stampSamlState claims issuer now ttl =
     claims\<lparr>ssPurpose := samlStatePurpose, ssIssuer := issuer, ssIssuedAt := numericDate now, ssExpiresAt := numericDate (now + ttl)\<rparr>"

definition SignStateCookieWithSecret :: "CookieLib \<Rightarrow> string \<Rightarrow> SamlState \<Rightarrow> string \<Rightarrow> go_time \<Rightarrow> int \<Rightarrow> state_err + string" where
  "SignStateCookieWithSecret L secret claims issuer now ttl =
     (if secret = '''' then Inl StateSecretEmpty
      else (case clSign L secret (encodeSamlState (stampSamlState claims issuer now ttl)) of
          None \<Rightarrow> Inl StateSignFailed
        | Some tok \<Rightarrow> Inr tok))"

definition VerifyStateCookieWithSecret :: "CookieLib \<Rightarrow> string \<Rightarrow> string \<Rightarrow> string \<Rightarrow> go_time \<Rightarrow> state_err + SamlState" where
  "VerifyStateCookieWithSecret L secret token issuer now =
     (if secret = '''' then Inl StateSecretEmpty
      else (case clOpen L secret token of
          None \<Rightarrow> Inl ErrStateExpired
        | Some p \<Rightarrow> (case decodeSamlState p of
            None \<Rightarrow> Inl ErrStateExpired
          | Some claims \<Rightarrow>
              if \<not> registeredValid issuer now p then Inl ErrStateExpired
              else if ssPurpose claims \<noteq> samlStatePurpose then Inl ErrStateExpired
              else Inr claims)))"

section \<open>Round trips\<close>

lemma map_of_omitEmpty:
  "distinct (map fst fs) \<Longrightarrow> map_of (omitEmpty omit fs) k =
     (case map_of fs k of Some v \<Rightarrow> if k \<in> set omit \<and> emptyValue v then None else Some v | None \<Rightarrow> None)"
proof (induction fs)
  case (Cons kv fs)
  obtain k' v where kv: "kv = (k', v)" by fastforce
  have "map_of fs k' = None" using Cons.prems kv by (auto simp: map_of_eq_None_iff)
  then show ?case using Cons by (auto simp: kv omitEmpty_def)
qed (simp add: omitEmpty_def)

lemma fields_omitEmpty:
  assumes "distinct (map fst fs)"
  shows "map_of fs k = Some (CJStr s) \<Longrightarrow> strField (omitEmpty omit fs) k = Some s"
    and "map_of fs k = Some (CJNum n) \<Longrightarrow> numField (omitEmpty omit fs) k = Some n"
    and "map_of fs k = Some (CJStrs ss) \<Longrightarrow> strsField (omitEmpty omit fs) k = Some ss"
  by (auto simp: strField_def numField_def strsField_def map_of_omitEmpty [OF assms] emptyValue_def)

lemma oidc_fields_distinct: "distinct (map fst (oidcStateFields c))"
  by (simp add: oidcStateFields_def)

lemma saml_fields_distinct: "distinct (map fst (samlStateFields c))"
  by (simp add: samlStateFields_def)

lemma decode_encode_oidc: "decodeOidcState (encodeOidcState c) = Some c"
proof -
  note f = fields_omitEmpty [OF oidc_fields_distinct, of c]
  have "strField (encodeOidcState c) ''st'' = Some (osState c)" "strField (encodeOidcState c) ''nc'' = Some (osNonce c)"
    "strField (encodeOidcState c) ''cv'' = Some (osCodeVerifier c)" "strField (encodeOidcState c) ''pid'' = Some (osProviderID c)"
    "strField (encodeOidcState c) ''red'' = Some (osRedirectAfterLogin c)" "strField (encodeOidcState c) ''mode'' = Some (osMode c)"
    "strField (encodeOidcState c) ''uid'' = Some (osUserID c)" "numField (encodeOidcState c) ''rma'' = Some (osRequestedMaxAgeSeconds c)"
    "strsField (encodeOidcState c) ''rav'' = Some (osRequestedACRValues c)" "strField (encodeOidcState c) ''cuid'' = Some (osCallingUserID c)"
    "strField (encodeOidcState c) ''purpose'' = Some (osPurpose c)" "strField (encodeOidcState c) ''iss'' = Some (osIssuer c)"
    "numField (encodeOidcState c) ''iat'' = Some (osIssuedAt c)" "numField (encodeOidcState c) ''exp'' = Some (osExpiresAt c)"
    unfolding encodeOidcState_def by (rule f, simp add: oidcStateFields_def)+
  then show ?thesis by (simp add: decodeOidcState_def)
qed

lemma decode_encode_saml: "decodeSamlState (encodeSamlState c) = Some c"
proof -
  note f = fields_omitEmpty [OF saml_fields_distinct, of c]
  have "strField (encodeSamlState c) ''pid'' = Some (ssProviderID c)" "strField (encodeSamlState c) ''red'' = Some (ssRedirectAfterLogin c)"
    "numField (encodeSamlState c) ''rma'' = Some (ssRequestedMaxAgeSeconds c)" "strsField (encodeSamlState c) ''rav'' = Some (ssRequestedACRValues c)"
    "strField (encodeSamlState c) ''cuid'' = Some (ssCallingUserID c)" "strField (encodeSamlState c) ''rid'' = Some (ssRequestID c)"
    "strField (encodeSamlState c) ''mode'' = Some (ssMode c)" "strField (encodeSamlState c) ''uid'' = Some (ssUserID c)"
    "strField (encodeSamlState c) ''purpose'' = Some (ssPurpose c)" "strField (encodeSamlState c) ''iss'' = Some (ssIssuer c)"
    "numField (encodeSamlState c) ''iat'' = Some (ssIssuedAt c)" "numField (encodeSamlState c) ''exp'' = Some (ssExpiresAt c)"
    unfolding encodeSamlState_def by (rule f, simp add: samlStateFields_def)+
  then show ?thesis by (simp add: decodeSamlState_def)
qed

lemma registeredValid_encoded:
  "registeredValid issuer now (encodeOidcState c) \<longleftrightarrow> (issuer = '''' \<or> osIssuer c = issuer) \<and> now < osExpiresAt c * 10 ^ 9"
  "registeredValid issuer now (encodeSamlState d) \<longleftrightarrow> (issuer = '''' \<or> ssIssuer d = issuer) \<and> now < ssExpiresAt d * 10 ^ 9"
  by (auto simp: registeredValid_def encodeOidcState_def encodeSamlState_def map_of_omitEmpty oidc_fields_distinct saml_fields_distinct
      emptyValue_def oidcStateFields_def samlStateFields_def)

lemma Verify_signed_oidc:
  assumes "cookieLibOk L" "SignOIDCStateWithSecret L secret c issuer t ttl = Inr tok"
  shows "VerifyOIDCStateWithSecret L secret tok issuer' now =
    (if (issuer' = '''' \<or> issuer = issuer') \<and> now < numericDate (t + ttl) * 10 ^ 9 then Inr (stampOidcState c issuer t ttl) else Inl ErrStateExpired)"
proof -
  have "secret \<noteq> ''''" "clOpen L secret tok = Some (encodeOidcState (stampOidcState c issuer t ttl))"
    using assms by (auto simp: SignOIDCStateWithSecret_def cookieLibOk_def split: if_splits option.splits)
  then show ?thesis
    by (simp add: VerifyOIDCStateWithSecret_def decode_encode_oidc registeredValid_encoded stampOidcState_def)
qed

lemma Verify_signed_saml:
  assumes "cookieLibOk L" "SignStateCookieWithSecret L secret c issuer t ttl = Inr tok"
  shows "VerifyStateCookieWithSecret L secret tok issuer' now =
    (if (issuer' = '''' \<or> issuer = issuer') \<and> now < numericDate (t + ttl) * 10 ^ 9 then Inr (stampSamlState c issuer t ttl) else Inl ErrStateExpired)"
proof -
  have "secret \<noteq> ''''" "clOpen L secret tok = Some (encodeSamlState (stampSamlState c issuer t ttl))"
    using assms by (auto simp: SignStateCookieWithSecret_def cookieLibOk_def split: if_splits option.splits)
  then show ?thesis
    by (simp add: VerifyStateCookieWithSecret_def decode_encode_saml registeredValid_encoded stampSamlState_def)
qed

lemma purpose_of_encoded:
  "strField (encodeOidcState c) ''purpose'' = Some (osPurpose c)" "strField (encodeSamlState d) ''purpose'' = Some (ssPurpose d)"
  unfolding encodeOidcState_def encodeSamlState_def
  by (rule fields_omitEmpty, simp_all add: oidcStateFields_def samlStateFields_def)+

lemma decoded_purpose:
  "decodeOidcState p = Some c \<Longrightarrow> strField p ''purpose'' = Some (osPurpose c)"
  "decodeSamlState p = Some d \<Longrightarrow> strField p ''purpose'' = Some (ssPurpose d)"
  by (auto simp: decodeOidcState_def decodeSamlState_def split: option.splits)

text \<open>
  State cookies. A cookie verifies, to the claims it was signed with and the stamp of its signing, exactly
  for the issuer it names and until the second its life ends in; and although both flows may share the secret and the
  issuer and most of their fields, a cookie of one never verifies in the other.
\<close>

theorem state_cookies:
  assumes "cookieLibOk L" "SignOIDCStateWithSecret L secret c issuer t ttl = Inr otok" "SignStateCookieWithSecret L secret d issuer t ttl = Inr stok"
  shows "VerifyOIDCStateWithSecret L secret otok issuer now =
      (if now < numericDate (t + ttl) * 10 ^ 9 then Inr (stampOidcState c issuer t ttl) else Inl ErrStateExpired) \<and>
    VerifyStateCookieWithSecret L secret stok issuer now =
      (if now < numericDate (t + ttl) * 10 ^ 9 then Inr (stampSamlState d issuer t ttl) else Inl ErrStateExpired) \<and>
    VerifyOIDCStateWithSecret L secret stok issuer' now = Inl ErrStateExpired \<and>
    VerifyStateCookieWithSecret L secret otok issuer' now = Inl ErrStateExpired"
proof -
  have opened: "secret \<noteq> ''''" "clOpen L secret otok = Some (encodeOidcState (stampOidcState c issuer t ttl))"
    "clOpen L secret stok = Some (encodeSamlState (stampSamlState d issuer t ttl))"
    using assms by (auto simp: SignOIDCStateWithSecret_def SignStateCookieWithSecret_def cookieLibOk_def split: if_splits option.splits)
  have "osPurpose c' = samlStatePurpose" if "decodeOidcState (encodeSamlState (stampSamlState d issuer t ttl)) = Some c'" for c'
    using decoded_purpose(1) [OF that] by (simp add: purpose_of_encoded stampSamlState_def)
  moreover have "ssPurpose d' = oidcStatePurpose" if "decodeSamlState (encodeOidcState (stampOidcState c issuer t ttl)) = Some d'" for d'
    using decoded_purpose(2) [OF that] by (simp add: purpose_of_encoded stampOidcState_def)
  moreover have "oidcStatePurpose \<noteq> samlStatePurpose" by (simp add: oidcStatePurpose_def samlStatePurpose_def)
  ultimately have "VerifyOIDCStateWithSecret L secret stok issuer' now = Inl ErrStateExpired"
    "VerifyStateCookieWithSecret L secret otok issuer' now = Inl ErrStateExpired"
    using opened by (auto simp: VerifyOIDCStateWithSecret_def VerifyStateCookieWithSecret_def split: option.split)
  then show ?thesis using Verify_signed_oidc [OF assms(1,2)] Verify_signed_saml [OF assms(1,3)] by simp
qed

text \<open>A library that keeps the law: a token is the payload's place in a fixed list.\<close>

definition exampleOidcState :: OidcState where
  "exampleOidcState = \<lparr>osState = ''s'', osNonce = ''n'', osCodeVerifier = ''v'', osProviderID = ''okta'', osRedirectAfterLogin = '''',
     osMode = ModeLogin, osUserID = '''', osRequestedMaxAgeSeconds = 0, osRequestedACRValues = [], osCallingUserID = '''',
     osPurpose = '''', osIssuer = '''', osIssuedAt = 0, osExpiresAt = 0\<rparr>"

definition exampleSamlState :: SamlState where
  "exampleSamlState = \<lparr>ssProviderID = ''okta'', ssRedirectAfterLogin = '''', ssRequestedMaxAgeSeconds = 0, ssRequestedACRValues = [],
     ssCallingUserID = '''', ssRequestID = ''r'', ssMode = ModeLogin, ssUserID = '''', ssPurpose = '''', ssIssuer = '''', ssIssuedAt = 0, ssExpiresAt = 0\<rparr>"

definition twoTokenLib :: "cookie_payload \<Rightarrow> cookie_payload \<Rightarrow> CookieLib" where
  "twoTokenLib a b = \<lparr>clSign = (\<lambda>secret p. if p = a then Some ''a'' else if p = b then Some ''b'' else None),
     clOpen = (\<lambda>secret tok. if tok = ''a'' then Some a else if tok = ''b'' then Some b else None)\<rparr>"

lemma twoTokenLib_ok: "cookieLibOk (twoTokenLib a b)"
  by (auto simp: cookieLibOk_def twoTokenLib_def split: if_splits)

theorem state_cookies_witness:
  "let a = encodeOidcState (stampOidcState exampleOidcState ''iss'' 0 StateTTL);
       b = encodeSamlState (stampSamlState exampleSamlState ''iss'' 0 StateTTL) in
   VerifyOIDCStateWithSecret (twoTokenLib a b) ''k'' ''a'' ''iss'' 5 = Inr (stampOidcState exampleOidcState ''iss'' 0 StateTTL) \<and>
   VerifyOIDCStateWithSecret (twoTokenLib a b) ''k'' ''b'' ''iss'' 5 = Inl ErrStateExpired"
proof -
  let ?a = "encodeOidcState (stampOidcState exampleOidcState ''iss'' 0 StateTTL)"
  let ?b = "encodeSamlState (stampSamlState exampleSamlState ''iss'' 0 StateTTL)"
  have "?b \<noteq> ?a" using purpose_of_encoded(1) [of "stampOidcState exampleOidcState ''iss'' 0 StateTTL"]
      purpose_of_encoded(2) [of "stampSamlState exampleSamlState ''iss'' 0 StateTTL"]
    by (auto simp: stampOidcState_def stampSamlState_def oidcStatePurpose_def samlStatePurpose_def)
  then have "SignOIDCStateWithSecret (twoTokenLib ?a ?b) ''k'' exampleOidcState ''iss'' 0 StateTTL = Inr ''a''"
    "SignStateCookieWithSecret (twoTokenLib ?a ?b) ''k'' exampleSamlState ''iss'' 0 StateTTL = Inr ''b''"
    by (simp_all add: SignOIDCStateWithSecret_def SignStateCookieWithSecret_def twoTokenLib_def)
  from state_cookies [OF twoTokenLib_ok this, of 5 "''iss''"] show ?thesis by (simp add: numericDate_def StateTTL_def)
qed

end
