(* ===== verification/Oauth2_Social.thy ===== *)
theory Oauth2_Social
  imports Oidc_Provider
begin

text \<open>
  Package \<^verbatim>\<open>oauth2social\<close>: providers that speak OAuth 2 without OpenID Connect (\<^verbatim>\<open>provider.go\<close>), the identity read from
  their userinfo endpoint (\<^verbatim>\<open>claims.go\<close>) and the preset for Discord (\<^verbatim>\<open>discord.go\<close>). Parsing a URL into scheme and host, the HTTP
  call and the decoding of its body, and the printing of a \<^verbatim>\<open>float64\<close> are arguments.
\<close>

section \<open>Providers\<close>

record ClaimMap =
  cmSubject :: string
  cmEmail :: string
  cmEmailVerified :: string
  cmName :: string
  cmUsername :: string
  cmRequireEmail :: bool
  cmRejectUnverifiedEmail :: bool

record SocialConfig =
  soID :: string
  soDisplayName :: string
  soClientID :: string
  soClientSecret :: string
  soRedirectURL :: string
  soAuthURL :: string
  soTokenURL :: string
  soUserinfoURL :: string
  soScopes :: "string list"
  soClaimMap :: ClaimMap

datatype social_err =
    ErrSocialConfig
  | ErrUserinfo
  | ErrNoSubject
  | ErrEmailRequired
  | ErrEmailUnverified

definition requireHTTPSURL :: "(string \<Rightarrow> (string \<times> string) option) \<Rightarrow> string \<Rightarrow> bool" where
  "requireHTTPSURL parse raw =
     (trimSpace raw \<noteq> '''' \<and>
      (case parse raw of None \<Rightarrow> False | Some (scheme, host) \<Rightarrow> scheme = ''https'' \<and> host \<noteq> ''''))"

definition NewSocial :: "(string \<Rightarrow> (string \<times> string) option) \<Rightarrow> SocialConfig \<Rightarrow> social_err + SocialConfig" where
  "NewSocial parse cfg =
     (if trimSpace (soID cfg) = '''' then Inl ErrSocialConfig
      else if trimSpace (soClientID cfg) = '''' then Inl ErrSocialConfig
      else if trimSpace (soClientSecret cfg) = '''' then Inl ErrSocialConfig
      else if list_ex (\<lambda>raw. \<not> requireHTTPSURL parse raw) [soAuthURL cfg, soTokenURL cfg, soUserinfoURL cfg] then Inl ErrSocialConfig
      else if trimSpace (cmSubject (soClaimMap cfg)) = '''' then Inl ErrSocialConfig
      else if cmRejectUnverifiedEmail (soClaimMap cfg) \<and> trimSpace (cmEmailVerified (soClaimMap cfg)) = '''' then Inl ErrSocialConfig
      else Inr cfg)"

definition Discord :: "string \<Rightarrow> string \<Rightarrow> string \<Rightarrow> SocialConfig" where
  "Discord clientID clientSecret redirectURL =
     \<lparr>soID = ''discord'', soDisplayName = ''Discord'', soClientID = clientID, soClientSecret = clientSecret, soRedirectURL = redirectURL,
      soAuthURL = ''https://discord.com/oauth2/authorize'', soTokenURL = ''https://discord.com/api/oauth2/token'',
      soUserinfoURL = ''https://discord.com/api/users/@me'', soScopes = [''identify'', ''email''],
      soClaimMap = \<lparr>cmSubject = ''id'', cmEmail = ''email'', cmEmailVerified = ''verified'', cmName = ''global_name'', cmUsername = ''username'',
        cmRequireEmail = True, cmRejectUnverifiedEmail = True\<rparr>\<rparr>"

section \<open>Identities\<close>

definition stringField :: "(rat \<Rightarrow> string) \<Rightarrow> (string, go_any) go_map \<Rightarrow> string \<Rightarrow> string" where
  "stringField printFloat raw field =
     (if field = '''' then ''''
      else (case map_of raw field of
          Some (AnyString s) \<Rightarrow> s
        | Some (AnyNumber s n) \<Rightarrow> s
        | Some (AnyFloat t) \<Rightarrow> printFloat t
        | Some (AnyBool b) \<Rightarrow> if b then ''true'' else ''false''
        | _ \<Rightarrow> ''''))"

definition parsesTrue :: "string \<Rightarrow> bool" where
  "parsesTrue s = (s \<in> set [''1'', ''t'', ''T'', ''TRUE'', ''true'', ''True''])"

definition boolField :: "(string, go_any) go_map \<Rightarrow> string \<Rightarrow> bool" where
  "boolField raw field =
     (if field = '''' then False
      else (case map_of raw field of
          Some (AnyBool b) \<Rightarrow> b
        | Some (AnyString s) \<Rightarrow> parsesTrue (trimSpace s)
        | _ \<Rightarrow> False))"

definition claimsFromUserinfo :: "(rat \<Rightarrow> string) \<Rightarrow> SocialConfig \<Rightarrow> (string, go_any) go_map \<Rightarrow> social_err + IDClaims" where
  "claimsFromUserinfo printFloat cfg raw =
     (let cm = soClaimMap cfg; sub = stringField printFloat raw (cmSubject cm) in
      if sub = '''' then Inl ErrNoSubject
      else
        let email = trimSpace (stringField printFloat raw (cmEmail cm)) in
        if email = '''' \<and> cmRequireEmail cm then Inl ErrEmailRequired
        else
          let verified = boolField raw (cmEmailVerified cm) in
          if email \<noteq> '''' \<and> cmRejectUnverifiedEmail cm \<and> \<not> verified then Inl ErrEmailUnverified
          else Inr \<lparr>icSub = sub, icEmail = email, icEmailVerified = verified, icName = stringField printFloat raw (cmName cm),
                    icPreferredUsername = stringField printFloat raw (cmUsername cm), icRaw = raw\<rparr>)"

text \<open>The call yields a status and a body, \<^verbatim>\<open>None\<close> when it fails; the body decodes to a map or not at all.\<close>

record SocialHTTP =
  shGet :: "string \<Rightarrow> string \<Rightarrow> (int \<times> string) option"
  shDecode :: "string \<Rightarrow> (string, go_any) go_map option"
  shPrintFloat :: "rat \<Rightarrow> string"

definition maxUserinfoBytes :: nat where
  "maxUserinfoBytes = 2 ^ 20"

definition FetchIdentity :: "SocialHTTP \<Rightarrow> SocialConfig option \<Rightarrow> string option \<Rightarrow> social_err + IDClaims" where
  "FetchIdentity H p token =
     (case p of
        None \<Rightarrow> Inl ErrSocialConfig
      | Some cfg \<Rightarrow> (case token of
          None \<Rightarrow> Inl ErrUserinfo
        | Some access \<Rightarrow>
            if access = '''' then Inl ErrUserinfo
            else (case shGet H (soUserinfoURL cfg) access of
                None \<Rightarrow> Inl ErrUserinfo
              | Some (status, body) \<Rightarrow>
                  if status \<noteq> 200 then Inl ErrUserinfo
                  else (case shDecode H (take maxUserinfoBytes body) of
                      None \<Rightarrow> Inl ErrUserinfo
                    | Some raw \<Rightarrow> claimsFromUserinfo (shPrintFloat H) cfg raw))))"

section \<open>What an identity has passed\<close>

lemma FetchIdentity_Inr:
  assumes "FetchIdentity H (Some cfg) token = Inr c"
  shows "\<exists>access body raw. token = Some access \<and> access \<noteq> '''' \<and> shGet H (soUserinfoURL cfg) access = Some (200, body) \<and>
    shDecode H (take maxUserinfoBytes body) = Some raw \<and> claimsFromUserinfo (shPrintFloat H) cfg raw = Inr c"
  using assms by (auto simp: FetchIdentity_def split: option.splits if_splits)

lemma claimsFromUserinfo_Inr:
  assumes "claimsFromUserinfo printFloat cfg raw = Inr c"
  shows "icSub c = stringField printFloat raw (cmSubject (soClaimMap cfg)) \<and> icSub c \<noteq> '''' \<and> icRaw c = raw \<and>
    (cmRequireEmail (soClaimMap cfg) \<longrightarrow> icEmail c \<noteq> '''') \<and>
    (cmRejectUnverifiedEmail (soClaimMap cfg) \<longrightarrow> icEmail c \<noteq> '''' \<longrightarrow> icEmailVerified c) \<and>
    icEmailVerified c = boolField raw (cmEmailVerified (soClaimMap cfg))"
  using assms by (auto simp: claimsFromUserinfo_def Let_def split: if_splits)

text \<open>
  Social identities. A provider that is built talks to its endpoints over https alone and never demands a verified
  address it has no field to read from. An identity it yields came with the token of this exchange, has the subject
  the endpoint sent, has an address where one is required and a verified one where that is required, and an unverified
  address is refused rather than dropped; for Discord every identity has a verified address.
\<close>

theorem social_identity_verified:
  assumes "NewSocial parse cfg = Inr p" "FetchIdentity H (Some p) token = Inr c"
  shows "p = cfg \<and> requireHTTPSURL parse (soUserinfoURL cfg) \<and> requireHTTPSURL parse (soTokenURL cfg) \<and> requireHTTPSURL parse (soAuthURL cfg) \<and>
    (\<exists>access. token = Some access \<and> access \<noteq> '''') \<and> icSub c \<noteq> '''' \<and> (cmRequireEmail (soClaimMap cfg) \<longrightarrow> icEmail c \<noteq> '''') \<and>
    (cmRejectUnverifiedEmail (soClaimMap cfg) \<longrightarrow> cmEmailVerified (soClaimMap cfg) \<noteq> '''' \<and> (icEmail c \<noteq> '''' \<longrightarrow> icEmailVerified c)) \<and>
    (cfg = Discord cid sec red \<longrightarrow> icEmail c \<noteq> '''' \<and> icEmailVerified c)"
proof -
  obtain access raw where access: "token = Some access" "access \<noteq> ''''" and raw: "claimsFromUserinfo (shPrintFloat H) p raw = Inr c"
    using FetchIdentity_Inr [OF assms(2)] by blast
  have cfg: "p = cfg" "list_all (requireHTTPSURL parse) [soAuthURL cfg, soTokenURL cfg, soUserinfoURL cfg]"
    "cmRejectUnverifiedEmail (soClaimMap cfg) \<longrightarrow> trimSpace (cmEmailVerified (soClaimMap cfg)) \<noteq> ''''"
    using assms(1) by (auto simp: NewSocial_def split: if_splits)
  have field: "cmEmailVerified (soClaimMap cfg) \<noteq> ''''" if "cmRejectUnverifiedEmail (soClaimMap cfg)"
    using cfg(3) that by (auto simp: trimSpace_def trimBoth_def)
  have disc: "cmRequireEmail (soClaimMap cfg) \<and> cmRejectUnverifiedEmail (soClaimMap cfg)" if "cfg = Discord cid sec red"
    using that by (simp add: Discord_def)
  have c: "icSub c \<noteq> ''''" "cmRequireEmail (soClaimMap cfg) \<Longrightarrow> icEmail c \<noteq> ''''"
    "cmRejectUnverifiedEmail (soClaimMap cfg) \<Longrightarrow> icEmail c \<noteq> '''' \<Longrightarrow> icEmailVerified c"
    using claimsFromUserinfo_Inr [OF raw [unfolded cfg(1)]] by metis+
  have "\<exists>access. token = Some access \<and> access \<noteq> ''''" using access by simp
  moreover have "requireHTTPSURL parse (soUserinfoURL cfg)" "requireHTTPSURL parse (soTokenURL cfg)" "requireHTTPSURL parse (soAuthURL cfg)"
    using cfg(2) by simp_all
  ultimately show ?thesis using cfg(1) field disc c by blast
qed

theorem social_identity_verified_witness:
  "\<exists>c. FetchIdentity \<lparr>shGet = (\<lambda>u t. Some (200, ''body'')), shDecode = (\<lambda>b. Some [(''id'', AnyString ''1''), (''email'', AnyString ''a@b''), (''verified'', AnyBool True)]),
       shPrintFloat = (\<lambda>t. '''')\<rparr> (Some (Discord ''c'' ''s'' ''r'')) (Some ''tok'') = Inr c \<and> icEmail c \<noteq> '''' \<and> icEmailVerified c"
proof -
  let ?H = "\<lparr>shGet = (\<lambda>u t. Some (200, ''body'')), shDecode = (\<lambda>b. Some [(''id'', AnyString ''1''), (''email'', AnyString ''a@b''), (''verified'', AnyBool True)]),
       shPrintFloat = (\<lambda>t. '''')\<rparr>"
  have new: "NewSocial (\<lambda>u. Some (''https'', ''discord.com'')) (Discord ''c'' ''s'' ''r'') = Inr (Discord ''c'' ''s'' ''r'')"
    by (simp add: NewSocial_def Discord_def requireHTTPSURL_def trimSpace_id isSpaceChar_def)
  obtain c where c: "FetchIdentity ?H (Some (Discord ''c'' ''s'' ''r'')) (Some ''tok'') = Inr c"
    by (simp add: FetchIdentity_def Discord_def claimsFromUserinfo_def stringField_def boolField_def trimSpace_id isSpaceChar_def Let_def)
  from social_identity_verified [OF new c, of "''c''" "''s''" "''r''"] c show ?thesis by auto
qed

end
