(* ===== verification/Espresso_Flow.thy ===== *)
theory Espresso_Flow
  imports Federation_State Oauth2_Social Espresso_StepUp
begin

text \<open>
  Package \<^verbatim>\<open>espresso\<close>, the two redirect flows without their routes: \<^verbatim>\<open>StartOIDCFlow\<close> and \<^verbatim>\<open>VerifyOIDCCallback\<close>
  (\<^verbatim>\<open>oidcflow.go\<close>), and the pair for social providers (\<^verbatim>\<open>oauth2flow.go\<close>), over the flow randomness of
  \<^verbatim>\<open>oidc/state.go\<close>. The authorize URL, the token exchange, the S256 challenge and the printing of an integer are the
  record \<^verbatim>\<open>FlowLib\<close>; the random values of a flow are arguments, \<^verbatim>\<open>None\<close> where the source failed.
\<close>

section \<open>Randomness and libraries\<close>

record FlowDraw =
  fdState :: "string option"
  fdNonce :: "string option"
  fdVerifier :: string

record Flow =
  flState :: string
  flNonce :: string
  flCodeVerifier :: string
  flCodeChallenge :: string

record FlowLib =
  fbChallenge :: "string \<Rightarrow> string"
  fbPrintInt :: "int \<Rightarrow> string"
  fbOidcAuthURL :: "Provider \<Rightarrow> string \<Rightarrow> (string \<times> string) list \<Rightarrow> string"
  fbOidcExchange :: "Provider \<Rightarrow> string \<Rightarrow> string \<Rightarrow> string option option"
  fbOidcVerify :: "Provider \<Rightarrow> string \<Rightarrow> string + IDToken"
  fbSocialAuthURL :: "SocialConfig \<Rightarrow> string \<Rightarrow> (string \<times> string) list \<Rightarrow> string"
  fbSocialExchange :: "SocialConfig \<Rightarrow> string \<Rightarrow> string \<Rightarrow> string option option"
  fbSocialHTTP :: SocialHTTP

datatype flow_err =
    FlowNilProvider
  | FlowRandomness
  | FlowSign state_err
  | ErrOIDCState
  | ErrOIDCExchange
  | ErrOIDCNoIDToken
  | FlowIDToken oidc_err
  | ErrOAuth2State
  | ErrOAuth2Exchange
  | FlowSocial social_err

definition NewFlow :: "FlowLib \<Rightarrow> FlowDraw \<Rightarrow> flow_err + Flow" where
  "NewFlow B d =
     (case fdState d of
        None \<Rightarrow> Inl FlowRandomness
      | Some state \<Rightarrow> (case fdNonce d of
          None \<Rightarrow> Inl FlowRandomness
        | Some nonce \<Rightarrow> Inr \<lparr>flState = state, flNonce = nonce, flCodeVerifier = fdVerifier d,
            flCodeChallenge = fbChallenge B (fdVerifier d)\<rparr>))"

record StartOptions =
  soptRedirect :: string
  soptMaxAge :: int
  soptACRValues :: "string list"
  soptMode :: string
  soptUserID :: string
  soptCallingUserID :: string

fun joinSpaces :: "string list \<Rightarrow> string" where
  "joinSpaces [] = []"
| "joinSpaces [s] = s"
| "joinSpaces (s # ss) = s @ '' '' @ joinSpaces ss"

definition s256ChallengeOption :: "FlowLib \<Rightarrow> string \<Rightarrow> (string \<times> string) list" where
  "s256ChallengeOption B verifier = [(''code_challenge_method'', ''S256''), (''code_challenge'', fbChallenge B verifier)]"

section \<open>OpenID Connect\<close>

definition startClaims :: "Flow \<Rightarrow> string \<Rightarrow> StartOptions \<Rightarrow> OidcState" where
  "startClaims flow providerID opts =
     \<lparr>osState = flState flow, osNonce = flNonce flow, osCodeVerifier = flCodeVerifier flow, osProviderID = providerID,
      osRedirectAfterLogin = soptRedirect opts, osMode = (if soptMode opts = '''' then ModeLogin else soptMode opts),
      osUserID = soptUserID opts, osRequestedMaxAgeSeconds = max 0 (soptMaxAge opts), osRequestedACRValues = soptACRValues opts,
      osCallingUserID = soptCallingUserID opts, osPurpose = '''', osIssuer = '''', osIssuedAt = 0, osExpiresAt = 0\<rparr>"

definition authParams :: "FlowLib \<Rightarrow> Flow \<Rightarrow> StartOptions \<Rightarrow> (string \<times> string) list" where
  "authParams B flow opts =
     (let maxAge = max 0 (soptMaxAge opts);
          isStepUp = (maxAge > 0 \<or> soptACRValues opts \<noteq> [])
      in [(''access_type'', ''online''), (''nonce'', flNonce flow)] @ s256ChallengeOption B (flCodeVerifier flow)
         @ (if maxAge > 0 then [(''max_age'', fbPrintInt B maxAge)] else [])
         @ (if soptACRValues opts \<noteq> [] then [(''acr_values'', joinSpaces (soptACRValues opts))] else [])
         @ (if isStepUp then [(''prompt'', ''login'')] else []))"

definition StartOIDCFlow :: "CookieLib \<Rightarrow> FlowLib \<Rightarrow> FlowDraw \<Rightarrow> Provider option \<Rightarrow> string \<Rightarrow> string \<Rightarrow> go_time \<Rightarrow> StateCookieConfig \<Rightarrow> StartOptions
    \<Rightarrow> flow_err + string \<times> Cookie" where
  "StartOIDCFlow L B d p secret issuer now cookie opts =
     (case p of
        None \<Rightarrow> Inl FlowNilProvider
      | Some pv \<Rightarrow> (case NewFlow B d of
          Inl err \<Rightarrow> Inl err
        | Inr flow \<Rightarrow> (case SignOIDCStateWithSecret L secret (startClaims flow (pcID (pvConfig pv)) opts) issuer now StateTTL of
            Inl err \<Rightarrow> Inl (FlowSign err)
          | Inr cookieValue \<Rightarrow>
              Inr (fbOidcAuthURL B pv (flState flow) (authParams B flow opts), SetCookie cookie cookieValue))))"

record OIDCVerified =
  ovProviderID :: string
  ovClaims :: IDClaims
  ovState :: OidcState

definition VerifyOIDCCallback :: "CookieLib \<Rightarrow> FlowLib \<Rightarrow> Provider option \<Rightarrow> string \<Rightarrow> string \<Rightarrow> string \<Rightarrow> string \<Rightarrow> string \<Rightarrow> go_time
    \<Rightarrow> flow_err + OIDCVerified" where
  "VerifyOIDCCallback L B p code state cookieVal secret issuer now =
     (case p of
        None \<Rightarrow> Inl FlowNilProvider
      | Some pv \<Rightarrow> (case VerifyOIDCStateWithSecret L secret cookieVal issuer now of
          Inl err \<Rightarrow> Inl ErrOIDCState
        | Inr claims \<Rightarrow>
            if osProviderID claims \<noteq> pcID (pvConfig pv) then Inl ErrOIDCState
            else if osState claims \<noteq> state then Inl ErrOIDCState
            else (case fbOidcExchange B pv code (osCodeVerifier claims) of
                None \<Rightarrow> Inl ErrOIDCExchange
              | Some None \<Rightarrow> Inl ErrOIDCNoIDToken
              | Some (Some rawIDToken) \<Rightarrow>
                  if rawIDToken = '''' then Inl ErrOIDCNoIDToken
                  else (case VerifyIDToken (fbOidcVerify B) (Some pv) rawIDToken (osNonce claims) of
                      Inl err \<Rightarrow> Inl (FlowIDToken err)
                    | Inr verified \<Rightarrow> Inr \<lparr>ovProviderID = pcID (pvConfig pv), ovClaims = verified, ovState = claims\<rparr>))))"

section \<open>Social providers\<close>

definition socialClaims :: "Flow \<Rightarrow> string \<Rightarrow> StartOptions \<Rightarrow> OidcState" where
  "socialClaims flow providerID opts =
     \<lparr>osState = flState flow, osNonce = '''', osCodeVerifier = flCodeVerifier flow, osProviderID = providerID,
      osRedirectAfterLogin = soptRedirect opts, osMode = (if soptMode opts = '''' then ModeLogin else soptMode opts),
      osUserID = soptUserID opts, osRequestedMaxAgeSeconds = 0, osRequestedACRValues = [],
      osCallingUserID = soptCallingUserID opts, osPurpose = '''', osIssuer = '''', osIssuedAt = 0, osExpiresAt = 0\<rparr>"

definition StartOAuth2Flow :: "CookieLib \<Rightarrow> FlowLib \<Rightarrow> FlowDraw \<Rightarrow> SocialConfig option \<Rightarrow> string \<Rightarrow> string \<Rightarrow> go_time \<Rightarrow> StateCookieConfig \<Rightarrow> StartOptions
    \<Rightarrow> flow_err + string \<times> Cookie" where
  "StartOAuth2Flow L B d p secret issuer now cookie opts =
     (case p of
        None \<Rightarrow> Inl FlowNilProvider
      | Some cfg \<Rightarrow> (case NewFlow B d of
          Inl err \<Rightarrow> Inl err
        | Inr flow \<Rightarrow> (case SignOIDCStateWithSecret L secret (socialClaims flow (soID cfg) opts) issuer now (scTTL cookie) of
            Inl err \<Rightarrow> Inl (FlowSign err)
          | Inr signedValue \<Rightarrow>
              Inr (fbSocialAuthURL B cfg (flState flow) (s256ChallengeOption B (flCodeVerifier flow)), SetCookie cookie signedValue))))"

text \<open>The exchanged token's access token, \<^verbatim>\<open>None\<close> inside when the response held none.\<close>

definition VerifyOAuth2Callback :: "CookieLib \<Rightarrow> FlowLib \<Rightarrow> SocialConfig option \<Rightarrow> string \<Rightarrow> string \<Rightarrow> string \<Rightarrow> string \<Rightarrow> string \<Rightarrow> go_time
    \<Rightarrow> flow_err + OIDCVerified" where
  "VerifyOAuth2Callback L B p code state cookieVal secret issuer now =
     (case p of
        None \<Rightarrow> Inl FlowNilProvider
      | Some cfg \<Rightarrow> (case VerifyOIDCStateWithSecret L secret cookieVal issuer now of
          Inl err \<Rightarrow> Inl ErrOAuth2State
        | Inr claims \<Rightarrow>
            if osProviderID claims \<noteq> soID cfg then Inl ErrOAuth2State
            else if osState claims \<noteq> state then Inl ErrOAuth2State
            else (case fbSocialExchange B cfg code (osCodeVerifier claims) of
                None \<Rightarrow> Inl ErrOAuth2Exchange
              | Some token \<Rightarrow> (case FetchIdentity (fbSocialHTTP B) (Some cfg) token of
                  Inl err \<Rightarrow> Inl (FlowSocial err)
                | Inr idn \<Rightarrow> Inr \<lparr>ovProviderID = soID cfg, ovClaims = idn, ovState = claims\<rparr>))))"

section \<open>What a verified callback has passed\<close>

lemma VerifyIDToken_Inr:
  "VerifyIDToken verify (Some pv) raw nonce = Inr c \<longleftrightarrow>
     (\<exists>tok typed m. verify pv raw = Inr tok \<and> (nonce = '''' \<or> itNonce tok = nonce) \<and> itTyped tok = Inr typed \<and> itRaw tok = Inr m \<and>
        icSub typed \<noteq> '''' \<and> c = typed\<lparr>icRaw := m\<rparr>)"
  by (auto simp: VerifyIDToken_def split: sum.splits)

lemma VerifyOIDCCallback_Inr:
  "VerifyOIDCCallback L B (Some pv) code state cookieVal secret issuer now = Inr v \<longleftrightarrow>
     (\<exists>claims raw c. VerifyOIDCStateWithSecret L secret cookieVal issuer now = Inr claims \<and> osProviderID claims = pcID (pvConfig pv) \<and>
        osState claims = state \<and> fbOidcExchange B pv code (osCodeVerifier claims) = Some (Some raw) \<and> raw \<noteq> '''' \<and>
        VerifyIDToken (fbOidcVerify B) (Some pv) raw (osNonce claims) = Inr c \<and>
        v = \<lparr>ovProviderID = pcID (pvConfig pv), ovClaims = c, ovState = claims\<rparr>)"
  by (auto simp: VerifyOIDCCallback_def split: sum.splits option.splits)

lemma StartOIDCFlow_Inr:
  assumes "StartOIDCFlow L B d (Some pv) secret issuer t cookie opts = Inr (url, ck)"
  shows "\<exists>flow tok. NewFlow B d = Inr flow \<and>
    SignOIDCStateWithSecret L secret (startClaims flow (pcID (pvConfig pv)) opts) issuer t StateTTL = Inr tok \<and>
    url = fbOidcAuthURL B pv (flState flow) (authParams B flow opts) \<and> ck = SetCookie cookie tok"
  using assms by (auto simp: StartOIDCFlow_def split: sum.splits)

text \<open>
  C24. The OpenID Connect flow. The callback with the cookie that a start set succeeds exactly within the ten minutes of its
  state, at a provider of the id it was started for, with the state it sent, and with an ID token whose nonce is the one
  it sent, for the code exchanged with its own PKCE verifier; what it returns is that token's claims and the options of the
  start. Step-up parameters are sent with a demand to log in anew.
\<close>

theorem oidc_flow_binds:
  assumes "cookieLibOk L" "StartOIDCFlow L B d (Some pv) secret issuer t cookie opts = Inr (url, ck)" "fdState d = Some st" "fdNonce d = Some nc" "nc \<noteq> ''''"
  shows "(\<exists>params. url = fbOidcAuthURL B pv st params \<and> (''nonce'', nc) \<in> set params \<and>
        ((''prompt'', ''login'') \<in> set params \<longleftrightarrow> 0 < soptMaxAge opts \<or> soptACRValues opts \<noteq> [])) \<and>
     ((VerifyOIDCCallback L B (Some pv') code state (ckValue ck) secret issuer now = Inr v) \<longleftrightarrow>
     (\<exists>raw tok typed m. now < numericDate (t + StateTTL) * 10 ^ 9 \<and> pcID (pvConfig pv') = pcID (pvConfig pv) \<and> state = st \<and>
        fbOidcExchange B pv' code (fdVerifier d) = Some (Some raw) \<and> raw \<noteq> '''' \<and> fbOidcVerify B pv' raw = Inr tok \<and> itNonce tok = nc \<and>
        itTyped tok = Inr typed \<and> itRaw tok = Inr m \<and> icSub typed \<noteq> '''' \<and> ovClaims v = typed\<lparr>icRaw := m\<rparr> \<and>
        ovProviderID v = pcID (pvConfig pv') \<and>
        ovState v = stampOidcState (startClaims \<lparr>flState = st, flNonce = nc, flCodeVerifier = fdVerifier d,
            flCodeChallenge = fbChallenge B (fdVerifier d)\<rparr> (pcID (pvConfig pv)) opts) issuer t StateTTL))"
proof -
  let ?flow = "\<lparr>flState = st, flNonce = nc, flCodeVerifier = fdVerifier d, flCodeChallenge = fbChallenge B (fdVerifier d)\<rparr>"
  let ?st = "stampOidcState (startClaims ?flow (pcID (pvConfig pv)) opts) issuer t StateTTL"
  have flow: "NewFlow B d = Inr ?flow" using assms(3,4) by (simp add: NewFlow_def)
  have url: "\<exists>params. url = fbOidcAuthURL B pv st params \<and> (''nonce'', nc) \<in> set params \<and>
        ((''prompt'', ''login'') \<in> set params \<longleftrightarrow> 0 < soptMaxAge opts \<or> soptACRValues opts \<noteq> [])"
    using StartOIDCFlow_Inr [OF assms(2)] flow by (auto simp: authParams_def s256ChallengeOption_def Let_def)
  from flow StartOIDCFlow_Inr [OF assms(2)] obtain tok where
    tok: "SignOIDCStateWithSecret L secret (startClaims ?flow (pcID (pvConfig pv)) opts) issuer t StateTTL = Inr tok" "ckValue ck = tok"
    by (auto simp: SetCookie_def)
  have ver: "VerifyOIDCStateWithSecret L secret tok issuer now = (if now < numericDate (t + StateTTL) * 10 ^ 9 then Inr ?st else Inl ErrStateExpired)"
    using Verify_signed_oidc [OF assms(1) tok(1)] by simp
  have st: "osProviderID ?st = pcID (pvConfig pv)" "osState ?st = st" "osCodeVerifier ?st = fdVerifier d" "osNonce ?st = nc"
    by (simp_all add: stampOidcState_def startClaims_def)
  obtain vp vc vs where v: "v = \<lparr>ovProviderID = vp, ovClaims = vc, ovState = vs\<rparr>" by (cases v)
  show ?thesis
  proof (rule conjI [OF url])
    show "(VerifyOIDCCallback L B (Some pv') code state (ckValue ck) secret issuer now = Inr v) \<longleftrightarrow>
     (\<exists>raw tok typed m. now < numericDate (t + StateTTL) * 10 ^ 9 \<and> pcID (pvConfig pv') = pcID (pvConfig pv) \<and> state = st \<and>
        fbOidcExchange B pv' code (fdVerifier d) = Some (Some raw) \<and> raw \<noteq> '''' \<and> fbOidcVerify B pv' raw = Inr tok \<and> itNonce tok = nc \<and>
        itTyped tok = Inr typed \<and> itRaw tok = Inr m \<and> icSub typed \<noteq> '''' \<and> ovClaims v = typed\<lparr>icRaw := m\<rparr> \<and>
        ovProviderID v = pcID (pvConfig pv') \<and> ovState v = ?st)"
      unfolding VerifyOIDCCallback_Inr tok(2) ver VerifyIDToken_Inr v using st assms(5) by (auto split: if_splits)
  qed
qed

definition exampleProvider :: Provider where
  "exampleProvider = \<lparr>pvConfig = exampleConfig ''https://idp'', pvDiscovery = \<lparr>diAuthURL = '''', diTokenURL = '''', diExtras = None\<rparr>,
     pvScopes = [''openid''], pvUserInfoURL = '''', pvJWKSURL = ''''\<rparr>"

definition exampleIDClaims :: IDClaims where
  "exampleIDClaims = \<lparr>icSub = ''u'', icEmail = ''a@b'', icEmailVerified = True, icName = '''', icPreferredUsername = '''', icRaw = []\<rparr>"

definition exampleFlowLib :: "string \<Rightarrow> FlowLib" where
  "exampleFlowLib nonce = \<lparr>fbChallenge = (\<lambda>v. v), fbPrintInt = (\<lambda>n. ''1''), fbOidcAuthURL = (\<lambda>p st ps. st),
     fbOidcExchange = (\<lambda>p code v. Some (Some ''raw'')),
     fbOidcVerify = (\<lambda>p raw. Inr \<lparr>itNonce = nonce, itTyped = Inr exampleIDClaims, itRaw = Inr []\<rparr>),
     fbSocialAuthURL = (\<lambda>p st ps. st), fbSocialExchange = (\<lambda>p code v. None),
     fbSocialHTTP = \<lparr>shGet = (\<lambda>u t. None), shDecode = (\<lambda>b. None), shPrintFloat = (\<lambda>t. '''')\<rparr>\<rparr>"

definition exampleDraw :: FlowDraw where
  "exampleDraw = \<lparr>fdState = Some ''s'', fdNonce = Some ''n'', fdVerifier = ''v''\<rparr>"

definition exampleFlow :: Flow where
  "exampleFlow = \<lparr>flState = ''s'', flNonce = ''n'', flCodeVerifier = ''v'', flCodeChallenge = ''v''\<rparr>"

definition exampleStateCookie :: StateCookieConfig where
  "exampleStateCookie = \<lparr>scBaseName = ''st'', scSecure = True, scPath = ''/'', scTTL = StateTTL, scSameSite = SameSiteLaxMode\<rparr>"

definition exampleStart :: StartOptions where
  "exampleStart = \<lparr>soptRedirect = ''/'', soptMaxAge = 0, soptACRValues = [], soptMode = '''', soptUserID = '''', soptCallingUserID = ''''\<rparr>"

definition exampleOidcPayload :: cookie_payload where
  "exampleOidcPayload = encodeOidcState (stampOidcState (startClaims exampleFlow ''okta'' exampleStart) ''iss'' 0 StateTTL)"

definition exampleSocialPayload :: cookie_payload where
  "exampleSocialPayload = encodeOidcState (stampOidcState (socialClaims exampleFlow ''okta'' exampleStart) ''iss'' 0 StateTTL)"

definition exampleCookieLib :: CookieLib where
  "exampleCookieLib = twoTokenLib exampleOidcPayload exampleSocialPayload"

lemma example_payloads: "exampleSocialPayload \<noteq> exampleOidcPayload"
proof
  assume "exampleSocialPayload = exampleOidcPayload"
  then have "decodeOidcState exampleSocialPayload = decodeOidcState exampleOidcPayload" by simp
  then show False
    by (simp add: exampleSocialPayload_def exampleOidcPayload_def decode_encode_oidc stampOidcState_def socialClaims_def startClaims_def exampleFlow_def)
qed

lemma example_start:
  "StartOIDCFlow exampleCookieLib (exampleFlowLib nonce) exampleDraw (Some exampleProvider) ''k'' ''iss'' 0 exampleStateCookie exampleStart
     = Inr (''s'', SetCookie exampleStateCookie ''a'')"
  by (simp add: StartOIDCFlow_def NewFlow_def exampleDraw_def exampleFlowLib_def SignOIDCStateWithSecret_def exampleCookieLib_def twoTokenLib_def
      exampleOidcPayload_def exampleProvider_def exampleConfig_def exampleFlow_def)

theorem oidc_flow_binds_witness:
  "\<exists>v. VerifyOIDCCallback exampleCookieLib (exampleFlowLib ''n'') (Some exampleProvider) ''c'' ''s'' ''a'' ''k'' ''iss'' 5 = Inr v \<and>
     ovClaims v = exampleIDClaims"
proof -
  let ?v = "\<lparr>ovProviderID = ''okta'', ovClaims = exampleIDClaims,
    ovState = stampOidcState (startClaims exampleFlow ''okta'' exampleStart) ''iss'' 0 StateTTL\<rparr>"
  have "VerifyOIDCCallback exampleCookieLib (exampleFlowLib ''n'') (Some exampleProvider) ''c'' ''s'' (ckValue (SetCookie exampleStateCookie ''a'')) ''k'' ''iss'' 5 = Inr ?v"
    unfolding oidc_flow_binds [OF twoTokenLib_ok [of exampleOidcPayload exampleSocialPayload, folded exampleCookieLib_def] example_start,
        of "''s''" "''n''", simplified exampleDraw_def FlowDraw.simps, OF refl refl, simplified, THEN conjunct2]
    by (simp add: numericDate_def StateTTL_def exampleFlowLib_def exampleProvider_def exampleConfig_def exampleIDClaims_def exampleFlow_def)
  then show ?thesis by (auto simp: SetCookie_def)
qed

text \<open>
  The cookie of a social flow has the purpose of an OpenID Connect one and an empty nonce. Where a social provider and an
  OpenID Connect provider share an id, the callback of the latter takes it and then checks no nonce: an ID token obtained in
  any other flow is accepted.
\<close>

theorem social_cookie_drops_the_nonce:
  assumes "cookieLibOk L" "StartOAuth2Flow L B d (Some cfg) secret issuer t cookie opts = Inr (url, ck)" "fdState d = Some st"
    and "soID cfg = pcID (pvConfig pv)" "now < numericDate (t + scTTL cookie) * 10 ^ 9"
    and "fbOidcExchange B pv code (fdVerifier d) = Some (Some raw)" "raw \<noteq> ''''"
    and "fbOidcVerify B pv raw = Inr tok" "itTyped tok = Inr typed" "itRaw tok = Inr m" "icSub typed \<noteq> ''''"
  shows "\<exists>v. VerifyOIDCCallback L B (Some pv) code st (ckValue ck) secret issuer now = Inr v \<and> ovClaims v = typed\<lparr>icRaw := m\<rparr>"
proof -
  obtain flow tk where flow: "NewFlow B d = Inr flow" and
    tk: "SignOIDCStateWithSecret L secret (socialClaims flow (soID cfg) opts) issuer t (scTTL cookie) = Inr tk" "ckValue ck = tk"
    using assms(2) by (auto simp: StartOAuth2Flow_def SetCookie_def split: sum.splits)
  have fl: "flState flow = st" "flCodeVerifier flow = fdVerifier d" using flow assms(3) by (auto simp: NewFlow_def split: option.splits)
  let ?st = "stampOidcState (socialClaims flow (soID cfg) opts) issuer t (scTTL cookie)"
  have ver: "VerifyOIDCStateWithSecret L secret tk issuer now = Inr ?st"
    using Verify_signed_oidc [OF assms(1) tk(1)] assms(5) by simp
  have st: "osProviderID ?st = pcID (pvConfig pv)" "osState ?st = st" "osCodeVerifier ?st = fdVerifier d" "osNonce ?st = ''''"
    using assms(4) fl by (simp_all add: stampOidcState_def socialClaims_def)
  have "VerifyIDToken (fbOidcVerify B) (Some pv) raw (osNonce ?st) = Inr (typed\<lparr>icRaw := m\<rparr>)"
    using assms(8-11) st(4) by (simp add: VerifyIDToken_def)
  then have "VerifyOIDCCallback L B (Some pv) code st (ckValue ck) secret issuer now =
      Inr \<lparr>ovProviderID = pcID (pvConfig pv), ovClaims = typed\<lparr>icRaw := m\<rparr>, ovState = ?st\<rparr>"
    unfolding VerifyOIDCCallback_Inr tk(2) using ver st assms(6,7) by (intro exI conjI) auto
  then show ?thesis by auto
qed

end
