(* ===== verification/Espresso_Federation.thy ===== *)
theory Espresso_Federation
  imports Espresso_Flow Identity_Store
begin

text \<open>
  Package \<^verbatim>\<open>espresso\<close>, the OpenID Connect routes (\<^verbatim>\<open>federation.go\<close>, with the answers and error codes of \<^verbatim>\<open>wire.go\<close>):
  start, link-start, callback and exchange. The application's hooks are functions in the record of the routes. An error is the
  status and the code of its envelope, or what a hook returned; the projected user is its JSON text. A handler reads the
  clock once. What a start leg reports to the step-up hook is part of its result.
\<close>

section \<open>Configuration\<close>

record CookieConfig =
  ccName :: string
  ccSecure :: bool
  ccMaxAgeSeconds :: int

datatype route_err = Wire int string | AppErr string

record FederationOutcome =
  foTokens :: Tokens
  foUser :: string
  foRedirect :: string
  foLinked :: bool

record FederationHooks =
  fhRegistry :: "(request_ctx \<Rightarrow> ID \<Rightarrow> route_err + ProviderRegistry option) option"
  fhOnFederatedExchange :: "(request_ctx \<Rightarrow> Provider \<Rightarrow> OIDCVerified \<Rightarrow> route_err + FederationOutcome) option"
  fhSanitizeRedirect :: "(string \<Rightarrow> string) option"
  fhOnStepUpInitiated :: bool
  fhCallingUserID :: "(request_ctx \<Rightarrow> string) option"

record FederationConfig =
  fcLandingPath :: string
  fcStateCookie :: StateCookieConfig
  fcStateSecret :: string
  fcStateIssuer :: string
  fcCookies :: CookieConfig
  fcMountPrefix :: string

record FederationRoutes =
  frCfg :: FederationConfig
  frRegistry :: "request_ctx \<Rightarrow> ID \<Rightarrow> route_err + ProviderRegistry option"
  frOnFederatedExchange :: "request_ctx \<Rightarrow> Provider \<Rightarrow> OIDCVerified \<Rightarrow> route_err + FederationOutcome"
  frSanitizeRedirect :: "string \<Rightarrow> string"
  frOnStepUpInitiated :: bool
  frCallingUserID :: "request_ctx \<Rightarrow> string"

definition denyAllRedirect :: "string \<Rightarrow> string" where
  "denyAllRedirect raw = ''/''"

definition defaultCallingUserID :: "request_ctx \<Rightarrow> string" where
  "defaultCallingUserID ctx = fst (GetUserID ctx)"

text \<open>The checks on the state cookie, which the SAML routes share.\<close>

definition stateCookieProblem :: "StateCookieConfig \<Rightarrow> string option" where
  "stateCookieProblem c =
     (if scBaseName c = '''' then Some ''state cookie base name is required''
      else if scSecure c \<and> scPath c \<noteq> ''/'' then Some ''a Secure state cookie requires Path=/''
      else if scSameSite c = SameSiteUnset then Some ''StateCookie.SameSite must be set explicitly''
      else if scSameSite c = SameSiteNoneMode \<and> \<not> scSecure c then Some ''SameSite=None requires Secure''
      else None)"

definition NewFederationRoutes :: "FederationConfig \<Rightarrow> FederationHooks \<Rightarrow> string + FederationRoutes" where
  "NewFederationRoutes cfg hooks =
     (case fhRegistry hooks of
        None \<Rightarrow> Inl ''federation routes require a Registry hook''
      | Some registry \<Rightarrow> (case fhOnFederatedExchange hooks of
          None \<Rightarrow> Inl ''federation routes require an OnFederatedExchange hook''
        | Some onExchange \<Rightarrow>
            if \<not> hasPrefix (fcLandingPath cfg) ''/'' then Inl ''LandingPath must start with /''
            else if \<not> hasPrefix (fcMountPrefix cfg) ''/'' \<or> hasSuffix (fcMountPrefix cfg) ''/'' then Inl ''MountPrefix must start with / and not end with one''
            else (case stateCookieProblem (fcStateCookie cfg) of
                Some problem \<Rightarrow> Inl problem
              | None \<Rightarrow>
                  if fcStateSecret cfg = '''' then Inl ''state cookie signing secret is required''
                  else if fcStateIssuer cfg = '''' then Inl ''state cookie issuer is required''
                  else if ccName (fcCookies cfg) = '''' then Inl ''refresh cookie name is required''
                  else Inr \<lparr>frCfg = cfg, frRegistry = registry, frOnFederatedExchange = onExchange,
                      frSanitizeRedirect = (case fhSanitizeRedirect hooks of None \<Rightarrow> denyAllRedirect | Some fn \<Rightarrow> fn),
                      frOnStepUpInitiated = fhOnStepUpInitiated hooks,
                      frCallingUserID = (case fhCallingUserID hooks of None \<Rightarrow> defaultCallingUserID | Some fn \<Rightarrow> fn)\<rparr>)))"

definition oidcStateCookieSlotName :: string where
  "oidcStateCookieSlotName = ''tamper_oidc_state''"

definition ReadStateCookie :: "FederationRoutes \<Rightarrow> middleware" where
  "ReadStateCookie f = ReadNamedCookie oidcStateCookieSlotName (cookieName (fcStateCookie (frCfg f)))"

definition federationProvider :: "FederationRoutes \<Rightarrow> request_ctx \<Rightarrow> string \<Rightarrow> route_err + Provider" where
  "federationProvider f ctx i =
     (case TenantFromContext ctx of (tid, ok) \<Rightarrow>
        if \<not> ok then Inl (Wire 404 ''OIDC_PROVIDER_NOT_FOUND'')
        else (case frRegistry f ctx tid of
            Inl err \<Rightarrow> Inl err
          | Inr None \<Rightarrow> Inl (Wire 404 ''OIDC_NOT_CONFIGURED'')
          | Inr (Some registry) \<Rightarrow> (case registryGet (Some registry) i of
              Inl err \<Rightarrow> Inl (Wire 404 ''UNKNOWN_OIDC_PROVIDER'')
            | Inr p \<Rightarrow> Inr p)))"

section \<open>Start\<close>

fun splitSpaces :: "string \<Rightarrow> string list" where
  "splitSpaces [] = [[]]"
| "splitSpaces (c # cs) =
     (if isSpaceChar c then [] # splitSpaces cs
      else (case splitSpaces cs of [] \<Rightarrow> [[c]] | p # ps \<Rightarrow> (c # p) # ps))"

definition SplitACRValues :: "string \<Rightarrow> string list" where
  "SplitACRValues raw =
     (let raw = trimSpace raw in
      if raw = '''' then []
      else filter (\<lambda>s. s \<noteq> '''') (splitSpaces (map (\<lambda>c. if c = CHR '','' then CHR '' '' else c) raw)))"

record StartParams =
  stRedirect :: string
  stMaxAge :: int
  stACRValues :: string

type_synonym step_up_event = "string \<times> int \<times> string list"

definition Start :: "CookieLib \<Rightarrow> FlowLib \<Rightarrow> FlowDraw \<Rightarrow> FederationRoutes \<Rightarrow> request_ctx \<Rightarrow> go_time \<Rightarrow> string \<Rightarrow> StartParams
    \<Rightarrow> (route_err + string \<times> Cookie list) \<times> step_up_event list" where
  "Start L B d f ctx now providerID p =
     (case federationProvider f ctx providerID of
        Inl err \<Rightarrow> (Inl err, [])
      | Inr prov \<Rightarrow>
          let maxAge = (if stMaxAge p < 0 then 0 else stMaxAge p);
              acrValues = SplitACRValues (stACRValues p);
              isStepUp = (maxAge > 0 \<or> acrValues \<noteq> []);
              callingUserID = frCallingUserID f ctx
          in (case StartOIDCFlow L B d (Some prov) (fcStateSecret (frCfg f)) (fcStateIssuer (frCfg f)) now (fcStateCookie (frCfg f))
                \<lparr>soptRedirect = frSanitizeRedirect f (stRedirect p), soptMaxAge = maxAge, soptACRValues = acrValues,
                 soptMode = ModeLogin, soptUserID = '''', soptCallingUserID = callingUserID\<rparr> of
                Inl err \<Rightarrow> (Inl (Wire 500 ''INTERNAL''), [])
              | Inr (authURL, cookie) \<Rightarrow>
                  (Inr (authURL, [cookie]),
                   if isStepUp \<and> frOnStepUpInitiated f then [(callingUserID, maxAge, acrValues)] else [])))"

definition LinkStart :: "CookieLib \<Rightarrow> FlowLib \<Rightarrow> FlowDraw \<Rightarrow> FederationRoutes \<Rightarrow> request_ctx \<Rightarrow> go_time \<Rightarrow> string \<Rightarrow> string
    \<Rightarrow> route_err + string \<times> Cookie list" where
  "LinkStart L B d f ctx now providerID userID =
     (case federationProvider f ctx providerID of
        Inl err \<Rightarrow> Inl err
      | Inr prov \<Rightarrow> (case StartOIDCFlow L B d (Some prov) (fcStateSecret (frCfg f)) (fcStateIssuer (frCfg f)) now (fcStateCookie (frCfg f))
            \<lparr>soptRedirect = '''', soptMaxAge = 0, soptACRValues = [], soptMode = ModeLink, soptUserID = userID, soptCallingUserID = ''''\<rparr> of
          Inl err \<Rightarrow> Inl (Wire 500 ''INTERNAL'')
        | Inr (authURL, cookie) \<Rightarrow> Inr (authURL, [cookie])))"

section \<open>Callback\<close>

definition fragmentByte :: "char \<Rightarrow> bool" where
  "fragmentByte c = (c \<noteq> CHR ''#'' \<and> c \<noteq> CHR 0x26 \<and> c \<noteq> CHR 0x25)"

definition FragmentValue :: "string \<Rightarrow> string" where
  "FragmentValue s = (if list_all fragmentByte s then s else filter fragmentByte s)"

definition idpErrorFragment :: "string \<Rightarrow> string \<Rightarrow> string" where
  "idpErrorFragment errVal providerID = ''#error='' @ FragmentValue errVal @ [CHR 0x26] @ ''provider='' @ FragmentValue providerID"

definition BuildLandingFragment :: "string \<Rightarrow> string \<Rightarrow> string \<Rightarrow> string" where
  "BuildLandingFragment code state providerID =
     ''#code='' @ FragmentValue code @ [CHR 0x26] @ ''state='' @ FragmentValue state @ [CHR 0x26] @ ''provider='' @ FragmentValue providerID"

record CallbackParams =
  cbCode :: string
  cbState :: string
  cbError :: string

definition Callback :: "FederationRoutes \<Rightarrow> request_ctx \<Rightarrow> string \<Rightarrow> CallbackParams \<Rightarrow> route_err + string" where
  "Callback f ctx providerID p =
     (case federationProvider f ctx providerID of
        Inl err \<Rightarrow> Inl err
      | Inr prov \<Rightarrow>
          if cbError p \<noteq> '''' then Inr (fcLandingPath (frCfg f) @ idpErrorFragment (cbError p) providerID)
          else if cbCode p = '''' \<or> cbState p = '''' then Inr (fcLandingPath (frCfg f) @ idpErrorFragment ''missing_params'' providerID)
          else Inr (fcLandingPath (frCfg f) @ BuildLandingFragment (cbCode p) (cbState p) providerID))"

section \<open>Exchange\<close>

definition refreshCookies :: "CookieConfig \<Rightarrow> string \<Rightarrow> Tokens \<Rightarrow> Cookie list" where
  "refreshCookies c mountPrefix tokens =
     (if tkRefresh tokens = '''' then []
      else [\<lparr>ckName = ccName c, ckValue = tkRefresh tokens, ckPath = mountPrefix, ckHttpOnly = True, ckSecure = ccSecure c,
             ckSameSite = SameSiteLaxMode, ckMaxAge = ccMaxAgeSeconds c\<rparr>])"

fun mapFederationVerifyError :: "flow_err \<Rightarrow> route_err" where
  "mapFederationVerifyError ErrOIDCState = Wire 401 ''INVALID_STATE''"
| "mapFederationVerifyError ErrOIDCExchange = Wire 502 ''IDP_ERROR''"
| "mapFederationVerifyError ErrOIDCNoIDToken = Wire 401 ''INVALID_IDTOKEN''"
| "mapFederationVerifyError (FlowIDToken ErrNonceMismatch) = Wire 401 ''INVALID_NONCE''"
| "mapFederationVerifyError _ = Wire 401 ''INVALID_IDTOKEN''"

record ExchangeReq =
  exProviderID :: string
  exCode :: string
  exState :: string

record ExchangeRes =
  erToken :: string
  erUser :: string
  erRedirect :: string
  erCookies :: "Cookie list"

definition dispatchMode :: "OIDCVerified \<Rightarrow> route_err + OIDCVerified" where
  "dispatchMode v =
     (let v = (if osMode (ovState v) = '''' then v\<lparr>ovState := (ovState v)\<lparr>osMode := ModeLogin\<rparr>\<rparr> else v) in
      if osMode (ovState v) = ModeLink
      then (if osUserID (ovState v) = '''' then Inl (Wire 400 ''INVALID_STATE'') else Inr v)
      else if osMode (ovState v) = ModeLogin then Inr v
      else Inl (Wire 400 ''INVALID_STATE''))"

definition answerOutcome :: "FederationConfig \<Rightarrow> FederationOutcome \<Rightarrow> route_err + ExchangeRes" where
  "answerOutcome cfg out =
     (if foLinked out \<and> (tkAccess (foTokens out) \<noteq> '''' \<or> tkRefresh (foTokens out) \<noteq> '''') then Inl (Wire 500 ''INTERNAL'')
      else Inr \<lparr>erToken = (if foLinked out then '''' else tkAccess (foTokens out)), erUser = foUser out, erRedirect = foRedirect out,
                erCookies = (if foLinked out then [] else refreshCookies (fcCookies cfg) (fcMountPrefix cfg) (foTokens out))
                  @ [ClearCookie (fcStateCookie cfg)]\<rparr>)"

definition Exchange :: "CookieLib \<Rightarrow> FlowLib \<Rightarrow> FederationRoutes \<Rightarrow> request_ctx \<Rightarrow> go_time \<Rightarrow> ExchangeReq \<Rightarrow> route_err + ExchangeRes" where
  "Exchange L B f ctx now req =
     (case federationProvider f ctx (exProviderID req) of
        Inl err \<Rightarrow> Inl err
      | Inr prov \<Rightarrow> (case NamedCookieValue ctx oidcStateCookieSlotName of (cookieVal, ok) \<Rightarrow>
          if \<not> ok then Inl (Wire 401 ''INVALID_STATE'')
          else (case VerifyOIDCCallback L B (Some prov) (exCode req) (exState req) cookieVal (fcStateSecret (frCfg f)) (fcStateIssuer (frCfg f)) now of
              Inl err \<Rightarrow> Inl (mapFederationVerifyError err)
            | Inr vres \<Rightarrow> (case dispatchMode vres of
                Inl err \<Rightarrow> Inl err
              | Inr vres \<Rightarrow> (case frOnFederatedExchange f ctx prov vres of
                  Inl err \<Rightarrow> Inl err
                | Inr out \<Rightarrow> answerOutcome (frCfg f) out)))))"

section \<open>What an exchange has passed\<close>

lemma federationProvider_Inr:
  "federationProvider f ctx i = Inr p \<longleftrightarrow>
     (\<exists>tid reg. cxTenant ctx = Some tid \<and> frRegistry f ctx tid = Inr (Some reg) \<and> registryGet (Some reg) i = Inr p)"
  by (auto simp: federationProvider_def TenantFromContext_def split: option.splits sum.splits)

lemma dispatchMode_Inr:
  "dispatchMode v = Inr v' \<Longrightarrow> ovClaims v' = ovClaims v \<and> ovProviderID v' = ovProviderID v \<and>
     ovState v' = (if osMode (ovState v) = '''' then (ovState v)\<lparr>osMode := ModeLogin\<rparr> else ovState v) \<and>
     (osMode (ovState v') = ModeLogin \<or> osMode (ovState v') = ModeLink \<and> osUserID (ovState v') \<noteq> '''')"
  by (auto simp: dispatchMode_def Let_def split: if_splits)

lemma answerOutcome_Inr:
  "answerOutcome cfg out = Inr res \<longleftrightarrow>
     (foLinked out \<longrightarrow> tkAccess (foTokens out) = '''' \<and> tkRefresh (foTokens out) = '''') \<and>
     res = \<lparr>erToken = tkAccess (foTokens out), erUser = foUser out, erRedirect = foRedirect out,
            erCookies = refreshCookies (fcCookies cfg) (fcMountPrefix cfg) (foTokens out) @ [ClearCookie (fcStateCookie cfg)]\<rparr>"
  by (auto simp: answerOutcome_def refreshCookies_def)

lemma Exchange_Inr:
  assumes "Exchange L B f ctx now req = Inr res"
  shows "\<exists>prov cookieVal v v' out. federationProvider f ctx (exProviderID req) = Inr prov \<and>
    NamedCookieValue ctx oidcStateCookieSlotName = (cookieVal, True) \<and>
    VerifyOIDCCallback L B (Some prov) (exCode req) (exState req) cookieVal (fcStateSecret (frCfg f)) (fcStateIssuer (frCfg f)) now = Inr v \<and>
    dispatchMode v = Inr v' \<and> frOnFederatedExchange f ctx prov v' = Inr out \<and> answerOutcome (frCfg f) out = Inr res"
  using assms by (auto simp: Exchange_def split: sum.splits prod.splits if_splits)


definition exampleCtx :: "ID \<Rightarrow> request_ctx" where
  "exampleCtx tid = \<lparr>axActor = None, axClusterID = None, cxUserID = None, cxClaims = None, cxActorSlot = None, cxTenant = Some tid,
     cxPrincipal = None, cxRemoteIP = None, cxCookies = [(oidcStateCookieSlotName, ''a'')]\<rparr>"

definition exampleRoutes :: FederationRoutes where
  "exampleRoutes = \<lparr>frCfg = \<lparr>fcLandingPath = ''/landing'', fcStateCookie = exampleStateCookie, fcStateSecret = ''k'', fcStateIssuer = ''iss'',
       fcCookies = \<lparr>ccName = ''rt'', ccSecure = True, ccMaxAgeSeconds = 60\<rparr>, fcMountPrefix = ''/auth''\<rparr>,
     frRegistry = (\<lambda>ctx tid. Inr (Some \<lparr>rgProviders = [(''okta'', exampleProvider)], rgOrder = [''okta'']\<rparr>)),
     frOnFederatedExchange = (\<lambda>ctx p v. Inr \<lparr>foTokens = \<lparr>tkAccess = ''at'', tkRefresh = ''rt'', tkRefreshExpiresAt = 0\<rparr>,
        foUser = icSub (ovClaims v), foRedirect = ''/'', foLinked = False\<rparr>),
     frSanitizeRedirect = denyAllRedirect, frOnStepUpInitiated = False, frCallingUserID = defaultCallingUserID\<rparr>"

lemma example_callback:
  "VerifyOIDCCallback exampleCookieLib (exampleFlowLib ''n'') (Some exampleProvider) ''c'' ''s'' ''a'' ''k'' ''iss'' 5 =
     Inr \<lparr>ovProviderID = ''okta'', ovClaims = exampleIDClaims,
       ovState = stampOidcState (startClaims exampleFlow ''okta'' exampleStart) ''iss'' 0 StateTTL\<rparr>"
proof -
  have s: "SignOIDCStateWithSecret exampleCookieLib ''k'' (startClaims exampleFlow ''okta'' exampleStart) ''iss'' 0 StateTTL = Inr ''a''"
    by (simp add: SignOIDCStateWithSecret_def exampleCookieLib_def twoTokenLib_def exampleOidcPayload_def exampleFlow_def)
  have "VerifyOIDCStateWithSecret exampleCookieLib ''k'' ''a'' ''iss'' 5 = Inr (stampOidcState (startClaims exampleFlow ''okta'' exampleStart) ''iss'' 0 StateTTL)"
    using Verify_signed_oidc [OF twoTokenLib_ok [of exampleOidcPayload exampleSocialPayload, folded exampleCookieLib_def] s]
    by (simp add: numericDate_def StateTTL_def)
  then show ?thesis unfolding VerifyOIDCCallback_Inr
    by (simp add: stampOidcState_def startClaims_def exampleFlow_def exampleFlowLib_def exampleProvider_def exampleConfig_def VerifyIDToken_def exampleIDClaims_def)
qed

lemma example_exchange:
  "Exchange exampleCookieLib (exampleFlowLib ''n'') exampleRoutes (exampleCtx tid) 5 \<lparr>exProviderID = ''okta'', exCode = ''c'', exState = ''s''\<rparr> =
     Inr \<lparr>erToken = ''at'', erUser = ''u'', erRedirect = ''/'',
       erCookies = refreshCookies (fcCookies (frCfg exampleRoutes)) ''/auth'' \<lparr>tkAccess = ''at'', tkRefresh = ''rt'', tkRefreshExpiresAt = 0\<rparr>
         @ [ClearCookie exampleStateCookie]\<rparr>"
  by (simp add: Exchange_def federationProvider_def TenantFromContext_def exampleCtx_def exampleRoutes_def registryGet_def NamedCookieValue_def
      example_callback dispatchMode_def stampOidcState_def startClaims_def exampleStart_def answerOutcome_def exampleIDClaims_def ModeLogin_def ModeLink_def)


section \<open>Landing\<close>

fun splitAmps :: "string \<Rightarrow> string list" where
  "splitAmps [] = [[]]"
| "splitAmps (c # cs) =
     (if c = CHR 0x26 then [] # splitAmps cs
      else (case splitAmps cs of [] \<Rightarrow> [[c]] | p # ps \<Rightarrow> (c # p) # ps))"

lemma splitAmps_plain: "CHR 0x26 \<notin> set s \<Longrightarrow> splitAmps s = [s]"
  by (induction s) auto

lemma splitAmps_append: "CHR 0x26 \<notin> set s \<Longrightarrow> splitAmps (s @ CHR 0x26 # t) = s # splitAmps t"
  by (induction s) (auto split: list.splits)

lemma FragmentValue_filter: "FragmentValue s = filter fragmentByte s"
  by (simp add: FragmentValue_def list_all_iff filter_id_conv)

lemma amp_notin_FragmentValue [simp]: "CHR 0x26 \<notin> set (FragmentValue s)"
  by (simp add: FragmentValue_filter fragmentByte_def)

text \<open>
  Nothing an identity provider sends adds a parameter to the landing page: read at its separators, the fragment of a callback has
  exactly the code, the state and the provider, or exactly the error and the provider, each with the value sent but for the three
  bytes that separate; and the page is the configured one.
\<close>

theorem landing_fragment_exact:
  assumes "Callback f ctx providerID p = Inr url"
  shows "\<exists>fragment. url = fcLandingPath (frCfg f) @ ''#'' @ fragment \<and>
    (splitAmps fragment =
       [''code='' @ filter fragmentByte (cbCode p), ''state='' @ filter fragmentByte (cbState p), ''provider='' @ filter fragmentByte providerID] \<and>
       cbError p = '''' \<and> cbCode p \<noteq> '''' \<and> cbState p \<noteq> '''' \<or>
     (\<exists>e. splitAmps fragment = [''error='' @ filter fragmentByte e, ''provider='' @ filter fragmentByte providerID] \<and>
       e = (if cbError p \<noteq> '''' then cbError p else ''missing_params'') \<and> (cbError p \<noteq> '''' \<or> cbCode p = '''' \<or> cbState p = '''')))"
proof -
  have two: "splitAmps (''error='' @ FragmentValue e @ [CHR 0x26] @ ''provider='' @ FragmentValue providerID) =
      [''error='' @ filter fragmentByte e, ''provider='' @ filter fragmentByte providerID]" for e
    using splitAmps_append [of "''error='' @ FragmentValue e" "''provider='' @ FragmentValue providerID"]
      splitAmps_plain [of "''provider='' @ FragmentValue providerID"] by (simp add: FragmentValue_filter [symmetric])
  have three: "splitAmps (''code='' @ FragmentValue a @ [CHR 0x26] @ ''state='' @ FragmentValue b @ [CHR 0x26] @ ''provider='' @ FragmentValue providerID) =
      [''code='' @ filter fragmentByte a, ''state='' @ filter fragmentByte b, ''provider='' @ filter fragmentByte providerID]" for a b
    using splitAmps_append [of "''code='' @ FragmentValue a" "''state='' @ FragmentValue b @ [CHR 0x26] @ ''provider='' @ FragmentValue providerID"]
      splitAmps_append [of "''state='' @ FragmentValue b" "''provider='' @ FragmentValue providerID"]
      splitAmps_plain [of "''provider='' @ FragmentValue providerID"] by (simp add: FragmentValue_filter [symmetric])
  consider (err) e where "url = fcLandingPath (frCfg f) @ idpErrorFragment e providerID" "e = (if cbError p \<noteq> '''' then cbError p else ''missing_params'')"
      "cbError p \<noteq> '''' \<or> cbCode p = '''' \<or> cbState p = ''''"
    | (ok) "url = fcLandingPath (frCfg f) @ BuildLandingFragment (cbCode p) (cbState p) providerID" "cbError p = ''''" "cbCode p \<noteq> ''''" "cbState p \<noteq> ''''"
    using assms by (auto simp: Callback_def split: sum.splits if_splits)
  then show ?thesis
  proof cases
    case err
    let ?fr = "''error='' @ FragmentValue e @ [CHR 0x26] @ ''provider='' @ FragmentValue providerID"
    have "url = fcLandingPath (frCfg f) @ ''#'' @ ?fr" using err(1) by (simp add: idpErrorFragment_def)
    with two [of e] err(2,3) show ?thesis by blast
  next
    case ok
    let ?fr = "''code='' @ FragmentValue (cbCode p) @ [CHR 0x26] @ ''state='' @ FragmentValue (cbState p) @ [CHR 0x26] @ ''provider='' @ FragmentValue providerID"
    have "url = fcLandingPath (frCfg f) @ ''#'' @ ?fr" using ok(1) by (simp add: BuildLandingFragment_def)
    with three [of "cbCode p" "cbState p"] ok(2-4) show ?thesis by blast
  qed
qed

theorem landing_fragment_exact_witness:
  "\<exists>fragment. ''/landing#code=ab&state=s&provider=okta'' = ''/landing#'' @ fragment \<and> splitAmps fragment = [''code=ab'', ''state=s'', ''provider=okta'']"
proof -
  have "Callback exampleRoutes (exampleCtx zeroID) ''okta'' \<lparr>cbCode = ''a&b'', cbState = ''s'', cbError = ''''\<rparr> = Inr ''/landing#code=ab&state=s&provider=okta''"
    by (simp add: Callback_def federationProvider_def TenantFromContext_def exampleCtx_def exampleRoutes_def registryGet_def BuildLandingFragment_def
        FragmentValue_def fragmentByte_def)
  from landing_fragment_exact [OF this] show ?thesis by (simp add: exampleRoutes_def fragmentByte_def)
qed

end
