(* ===== verification/Saml_Assertion.thy ===== *)
theory Saml_Assertion
  imports Tamper_Prelude
begin

text \<open>
  Package \<^verbatim>\<open>saml\<close>, the assertion consumer: reading a validated assertion
  (\<^verbatim>\<open>assertion.go\<close>), the two layers of replay defence (\<^verbatim>\<open>replay.go\<close>, the ledger of
  \<^verbatim>\<open>memstore.go\<close>), the bound on a response (\<^verbatim>\<open>maxresponse.go\<close>), the foreign-namespace check
  (\<^verbatim>\<open>nameid_ns.go\<close>) and \<^verbatim>\<open>ParseAssertion\<close> itself (\<^verbatim>\<open>parse.go\<close>).

  The SAML library validates signature, audience and timing; it is a function of the
  instant, the endpoint and the form, and may fail or panic. The start elements of a
  decoded response, in document order and up to the first error, and whether an endpoint
  is absolute are functions too, as is the hexadecimal SHA-256. Times count nanoseconds, zero being the
  zero time.
\<close>

section \<open>What the library returns\<close>

record SamlAttribute =
  atName :: string
  atFriendlyName :: string
  atValues :: "string list"

record AuthnStatement =
  auAuthnInstant :: go_time
  auClassRef :: "string option"

text \<open>A confirmation is the \<^verbatim>\<open>InResponseTo\<close> of its data, if it has data.\<close>

record SamlSubject =
  sjNameID :: "string option"
  sjConfirmations :: "string option list"

record Assertion =
  asID :: string
  asIssuer :: string
  asIssueInstant :: go_time
  asSubject :: "SamlSubject option"
  asAttributeStatements :: "SamlAttribute list list"
  asAuthnStatements :: "AuthnStatement list"

datatype parse_outcome = Panicked string | Refused string | Parsed Assertion

record SamlLib =
  slParseResponse :: "go_time \<Rightarrow> string \<Rightarrow> string \<Rightarrow> string \<Rightarrow> string list \<Rightarrow> parse_outcome"
  slStartElements :: "string \<Rightarrow> (string \<times> string) list option"
  slAbsolute :: "string \<Rightarrow> bool"
  slSHA256Hex :: "string \<Rightarrow> string"
  slMaxIssueDelay :: int
  slMaxClockSkew :: int

datatype saml_err =
    ErrAssertionInvalid string
  | ErrUncorrelated
  | ErrIdPInitiatedDisabled
  | ErrNoSubjectConfirmation
  | ErrAssertionReplayed
  | ErrReplayStoreUnavailable

section \<open>Reading an assertion\<close>

definition nonEmptyTrimmed :: "string list \<Rightarrow> string list" where
  "nonEmptyTrimmed ss = filter (\<lambda>t. t \<noteq> '''') (map trimSpace ss)"

definition splitCommaSeparated :: "string \<Rightarrow> string list" where
  "splitCommaSeparated s =
     (let out = nonEmptyTrimmed (splitCommas s) in if length out \<le> 1 then [s] else out)"

definition AttributeValues :: "Assertion option \<Rightarrow> string \<Rightarrow> string list" where
  "AttributeValues a name =
     (case a of
        None \<Rightarrow> []
      | Some asn \<Rightarrow>
          if name = '''' then []
          else
            let out = concat (map (\<lambda>attr. if atName attr \<noteq> name \<and> atFriendlyName attr \<noteq> name then []
                    else nonEmptyTrimmed (atValues attr)) (concat (asAttributeStatements asn)))
            in if length out = 1 \<and> CHR '','' \<in> set (hd out)
               then let parts = splitCommaSeparated (hd out) in if length parts > 1 then parts else out
               else out)"

definition AttributeValue :: "Assertion option \<Rightarrow> string \<Rightarrow> string" where
  "AttributeValue a name = (case AttributeValues a name of [] \<Rightarrow> '''' | v # _ \<Rightarrow> v)"

definition SubjectNameID :: "Assertion option \<Rightarrow> string" where
  "SubjectNameID a =
     (case a of
        Some asn \<Rightarrow> (case asSubject asn of
            Some sj \<Rightarrow> (case sjNameID sj of Some n \<Rightarrow> trimSpace n | None \<Rightarrow> '''')
          | None \<Rightarrow> '''')
      | None \<Rightarrow> '''')"

text \<open>\<^verbatim>\<open>unix\<close> is the time's Unix seconds.\<close>

definition AuthnTime :: "(go_time \<Rightarrow> int) \<Rightarrow> Assertion option \<Rightarrow> go_time \<Rightarrow> int" where
  "AuthnTime unix a now =
     (case a of
        Some asn \<Rightarrow>
          if asAuthnStatements asn \<noteq> [] \<and> auAuthnInstant (hd (asAuthnStatements asn)) \<noteq> 0
          then unix (auAuthnInstant (hd (asAuthnStatements asn)))
          else if asIssueInstant asn \<noteq> 0 then unix (asIssueInstant asn)
          else unix now
      | None \<Rightarrow> unix now)"

definition samlACR :: "Assertion option \<Rightarrow> string \<Rightarrow> string" where
  "samlACR a fallback =
     (case a of
        Some asn \<Rightarrow> (case asAuthnStatements asn of
            st # _ \<Rightarrow> (case auClassRef st of
                Some ref \<Rightarrow> if trimSpace ref \<noteq> '''' then trimSpace ref else fallback
              | None \<Rightarrow> fallback)
          | [] \<Rightarrow> fallback)
      | None \<Rightarrow> fallback)"

section \<open>Layer 1: correlation on signed material\<close>

definition confirmationOf :: "string option \<Rightarrow> string" where
  "confirmationOf c = (case c of Some v \<Rightarrow> v | None \<Rightarrow> '''')"

definition signedInResponseTo :: "Assertion option \<Rightarrow> saml_err + string" where
  "signedInResponseTo a =
     (case a of
        None \<Rightarrow> Inl ErrNoSubjectConfirmation
      | Some asn \<Rightarrow> (case asSubject asn of
          None \<Rightarrow> Inl ErrNoSubjectConfirmation
        | Some sj \<Rightarrow> (case sjConfirmations sj of
            [] \<Rightarrow> Inl ErrNoSubjectConfirmation
          | c # cs \<Rightarrow>
              let seen = confirmationOf c in
              if list_ex (\<lambda>d. confirmationOf d \<noteq> seen) cs then Inl ErrUncorrelated else Inr seen)))"

definition correlate :: "Assertion option \<Rightarrow> string \<Rightarrow> bool \<Rightarrow> saml_err option" where
  "correlate a expectedRequestID allowIDPInitiated =
     (case signedInResponseTo a of
        Inl err \<Rightarrow> Some err
      | Inr got \<Rightarrow>
          if expectedRequestID \<noteq> '''' \<and> got = expectedRequestID then None
          else if expectedRequestID \<noteq> '''' then Some ErrUncorrelated
          else if got \<noteq> '''' then Some ErrUncorrelated
          else if allowIDPInitiated then None
          else Some ErrIdPInitiatedDisabled)"

definition IdPInitiated :: "Assertion option \<Rightarrow> bool" where
  "IdPInitiated a = (case signedInResponseTo a of Inl err \<Rightarrow> True | Inr got \<Rightarrow> got = '''')"

section \<open>Layer 2: the ledger\<close>

definition assertionReplayKey :: "SamlLib \<Rightarrow> string \<Rightarrow> Assertion option \<Rightarrow> saml_err + string" where
  "assertionReplayKey L providerID a =
     (case a of
        None \<Rightarrow> Inl (ErrAssertionInvalid ''nil assertion cannot be tracked for replay'')
      | Some asn \<Rightarrow>
          if trimSpace (asID asn) = '''' then Inl (ErrAssertionInvalid ''assertion carries no ID, cannot be tracked for replay'')
          else Inr (slSHA256Hex L
            (providerID @ [CHR 0x00] @ trimSpace (asIssuer asn) @ [CHR 0x00] @ trimSpace (asID asn))))"

definition replayExpiry :: "SamlLib \<Rightarrow> Assertion option \<Rightarrow> go_time \<Rightarrow> go_time" where
  "replayExpiry L a now =
     (let base = (case a of Some asn \<Rightarrow> if asIssueInstant asn > now then asIssueInstant asn else now | None \<Rightarrow> now);
          exp = base + slMaxIssueDelay L + slMaxClockSkew L;
          floor = now + slMaxClockSkew L
      in if exp < floor then floor else exp)"

text \<open>The port: consuming a key at the store's instant, \<^verbatim>\<open>None\<close> when the store fails.\<close>

type_synonym 's replay_port = "'s \<Rightarrow> go_time \<Rightarrow> string \<Rightarrow> go_time \<Rightarrow> bool option \<times> 's"

type_synonym MemAssertionReplay = "(string, go_time) go_map"

definition memConsume :: "MemAssertionReplay replay_port" where
  "memConsume seen now key expiresAt =
     (let seen = filter (\<lambda>(k, exp). exp > now) seen in
      (case map_of seen key of
         Some exp \<Rightarrow> if exp > now then (Some False, seen) else (Some True, AList.update key expiresAt seen)
       | None \<Rightarrow> (Some True, AList.update key expiresAt seen)))"

definition noReplayDefence :: "'s replay_port" where
  "noReplayDefence s now key expiresAt = (Some True, s)"

section \<open>ParseAssertion\<close>

definition DefaultMaxSAMLResponseBytes :: int where
  "DefaultMaxSAMLResponseBytes = 2 ^ 20"

definition assertionNS :: string where
  "assertionNS = ''urn:oasis:names:tc:SAML:2.0:assertion''"

definition rejectForeignNameID :: "SamlLib \<Rightarrow> string \<Rightarrow> saml_err option" where
  "rejectForeignNameID L samlResponse =
     (case slStartElements L samlResponse of
        None \<Rightarrow> None
      | Some els \<Rightarrow>
          if list_ex (\<lambda>(space, local). local = ''NameID'' \<and> space \<noteq> assertionNS) els
          then Some (ErrAssertionInvalid ''NameID element in a foreign namespace'') else None)"

record 's SamlProvider =
  spID :: string
  spAllowIDPInitiated :: bool
  spAcsURL :: "string option"
  spReplay :: "'s replay_port option"
  spMaxResponseBytes :: int

definition responseLimit :: "'s SamlProvider \<Rightarrow> int" where
  "responseLimit p =
     (if spMaxResponseBytes p < 0 then 0
      else if spMaxResponseBytes p = 0 then DefaultMaxSAMLResponseBytes
      else spMaxResponseBytes p)"

definition buildPostFormRequest :: "SamlLib \<Rightarrow> string \<Rightarrow> saml_err option" where
  "buildPostFormRequest L acsURL =
     (if \<not> slAbsolute L acsURL then Some (ErrAssertionInvalid ''acs url is not absolute'') else None)"

text \<open>The recover barrier and the error it wraps: neither says more than \<^verbatim>\<open>ErrAssertionInvalid\<close>.\<close>

definition safeParseResponse :: "SamlLib \<Rightarrow> go_time \<Rightarrow> string \<Rightarrow> string \<Rightarrow> string \<Rightarrow> string list \<Rightarrow> saml_err + Assertion" where
  "safeParseResponse L now acsURL samlResponse relayState possible =
     (case slParseResponse L now acsURL samlResponse relayState possible of
        Panicked msg \<Rightarrow> Inl (ErrAssertionInvalid msg)
      | Refused msg \<Rightarrow> Inl (ErrAssertionInvalid msg)
      | Parsed a \<Rightarrow> Inr a)"

text \<open>A provider without a service provider has no endpoint: \<^verbatim>\<open>spAcsURL\<close> is \<^verbatim>\<open>None\<close>.\<close>

definition ParseAssertion :: "SamlLib \<Rightarrow> 's SamlProvider \<Rightarrow> 's \<Rightarrow> go_time \<Rightarrow> string \<Rightarrow> string \<Rightarrow> string
    \<Rightarrow> (saml_err + Assertion) \<times> 's" where
  "ParseAssertion L p s now samlResponse relayState expectedRequestID =
     (case spAcsURL p of
        None \<Rightarrow> (Inl (ErrAssertionInvalid ''provider service provider is nil''), s)
      | Some acsURL \<Rightarrow>
          let limit = responseLimit p in
          if limit > 0 \<and> int (length samlResponse) > limit then (Inl (ErrAssertionInvalid ''response exceeds the limit''), s)
          else (case rejectForeignNameID L samlResponse of
              Some err \<Rightarrow> (Inl err, s)
            | None \<Rightarrow> (case spReplay p of
                None \<Rightarrow> (Inl ErrReplayStoreUnavailable, s)
              | Some consume \<Rightarrow>
                  let possible = (if expectedRequestID \<noteq> '''' then [expectedRequestID] else []) in
                  (case buildPostFormRequest L acsURL of
                     Some err \<Rightarrow> (Inl err, s)
                   | None \<Rightarrow> (case safeParseResponse L now acsURL samlResponse relayState possible of
                       Inl err \<Rightarrow> (Inl err, s)
                     | Inr a \<Rightarrow> (case correlate (Some a) expectedRequestID (spAllowIDPInitiated p) of
                         Some err \<Rightarrow> (Inl err, s)
                       | None \<Rightarrow> (case assertionReplayKey L (spID p) (Some a) of
                           Inl err \<Rightarrow> (Inl err, s)
                         | Inr key \<Rightarrow> (case consume s now key (replayExpiry L (Some a) now) of
                             (None, s') \<Rightarrow> (Inl ErrReplayStoreUnavailable, s')
                           | (Some fresh, s') \<Rightarrow> if \<not> fresh then (Inl ErrAssertionReplayed, s') else (Inr a, s')))))))))"

section \<open>What an accepted assertion has passed\<close>

lemma signedInResponseTo_Inr:
  "signedInResponseTo (Some a) = Inr v \<longleftrightarrow>
     (\<exists>sj. asSubject a = Some sj \<and> sjConfirmations sj \<noteq> [] \<and> (\<forall>c\<in>set (sjConfirmations sj). confirmationOf c = v))"
  by (auto simp: signedInResponseTo_def Let_def list_ex_iff split: option.splits list.splits)

lemma correlate_None:
  "correlate (Some a) expected allow = None \<longleftrightarrow>
     signedInResponseTo (Some a) = Inr expected \<and> (expected = '''' \<longrightarrow> allow)"
  by (auto simp: correlate_def split: sum.splits if_splits)

lemma correlate_captured:
  "signedInResponseTo (Some a) = Inr v \<Longrightarrow> v \<noteq> '''' \<Longrightarrow> correlate (Some a) '''' allow = Some ErrUncorrelated"
  by (simp add: correlate_def)

text \<open>The stages before the ledger, and the call as those stages and then the ledger.\<close>

definition admitted :: "SamlLib \<Rightarrow> 's SamlProvider \<Rightarrow> go_time \<Rightarrow> string \<Rightarrow> string \<Rightarrow> string \<Rightarrow> Assertion \<Rightarrow> bool" where
  "admitted L p now resp relay expected a \<longleftrightarrow>
     (\<exists>acs. spAcsURL p = Some acs \<and> slAbsolute L acs \<and>
        slParseResponse L now acs resp relay (if expected \<noteq> '''' then [expected] else []) = Parsed a) \<and>
     (responseLimit p > 0 \<longrightarrow> int (length resp) \<le> responseLimit p) \<and> rejectForeignNameID L resp = None \<and>
     correlate (Some a) expected (spAllowIDPInitiated p) = None"

lemma ParseAssertion_admitted:
  assumes "admitted L p now resp relay expected a" "spReplay p = Some consume" "assertionReplayKey L (spID p) (Some a) = Inr key"
  shows "ParseAssertion L p s now resp relay expected =
    (case consume s now key (replayExpiry L (Some a) now) of
       (None, s') \<Rightarrow> (Inl ErrReplayStoreUnavailable, s')
     | (Some fresh, s') \<Rightarrow> if fresh then (Inr a, s') else (Inl ErrAssertionReplayed, s'))"
proof -
  obtain acs where acs: "spAcsURL p = Some acs" "slAbsolute L acs"
    "slParseResponse L now acs resp relay (if expected \<noteq> '''' then [expected] else []) = Parsed a"
    using assms(1) by (auto simp: admitted_def)
  have lim: "(0 < responseLimit p \<and> responseLimit p < int (length resp)) = False" "rejectForeignNameID L resp = None"
    "correlate (Some a) expected (spAllowIDPInitiated p) = None"
    using assms(1) by (auto simp: admitted_def)
  have "safeParseResponse L now acs resp relay (if expected \<noteq> '''' then [expected] else []) = Inr a"
    "buildPostFormRequest L acs = None"
    using acs by (simp_all add: safeParseResponse_def buildPostFormRequest_def)
  then show ?thesis unfolding ParseAssertion_def Let_def
    using acs(1) lim assms(2,3) by (simp split: option.split prod.split)
qed

lemma ParseAssertion_not_admitted:
  assumes "\<nexists>a key. admitted L p now resp relay expected a \<and> assertionReplayKey L (spID p) (Some a) = Inr key"
  shows "\<exists>err. ParseAssertion L p s now resp relay expected = (Inl err, s)"
proof (cases "spAcsURL p")
  case acs: (Some acs)
  let ?parse = "safeParseResponse L now acs resp relay (if expected \<noteq> '''' then [expected] else [])"
  show ?thesis
  proof (cases "?parse")
    case (Inr a)
    then have pa: "slParseResponse L now acs resp relay (if expected \<noteq> '''' then [expected] else []) = Parsed a"
      by (auto simp: safeParseResponse_def split: parse_outcome.splits)
    have "\<not> slAbsolute L acs \<or> 0 < responseLimit p \<and> responseLimit p < int (length resp) \<or> rejectForeignNameID L resp \<noteq> None \<or>
        correlate (Some a) expected (spAllowIDPInitiated p) \<noteq> None \<or> (\<exists>err. assertionReplayKey L (spID p) (Some a) = Inl err)"
      using assms pa acs unfolding admitted_def by (metis linorder_not_less sumE)
    with Inr acs show ?thesis
      by (auto simp: ParseAssertion_def Let_def buildPostFormRequest_def split: option.split)
  next
    case (Inl err)
    with acs show ?thesis by (auto simp: ParseAssertion_def Let_def split: option.split)
  qed
qed (simp add: ParseAssertion_def)

lemma ParseAssertion_Inr:
  assumes "ParseAssertion L p s now resp relay expected = (Inr a, s')"
  shows "\<exists>consume key. admitted L p now resp relay expected a \<and> spReplay p = Some consume \<and>
    assertionReplayKey L (spID p) (Some a) = Inr key \<and> consume s now key (replayExpiry L (Some a) now) = (Some True, s')"
proof -
  obtain b key where b: "admitted L p now resp relay expected b" "assertionReplayKey L (spID p) (Some b) = Inr key"
    using ParseAssertion_not_admitted [of L p now resp relay expected s] assms by fastforce
  have "spReplay p \<noteq> None"
    using assms b(1) by (auto simp: ParseAssertion_def Let_def admitted_def split: option.splits if_splits)
  then obtain consume where c: "spReplay p = Some consume" by blast
  with ParseAssertion_admitted [OF b(1) c b(2), of s] assms show ?thesis
    using b by (auto split: prod.splits option.splits if_splits)
qed

section \<open>The promise of a ledger\<close>

text \<open>
  \<^verbatim>\<open>held s k x\<close> says that the ledger has key \<^verbatim>\<open>k\<close> until \<^verbatim>\<open>x\<close>. A key is fresh exactly when none is
  held beyond the store's instant; taking it records the expiry; a held one survives every
  call until it has passed.
\<close>

locale replay_ledger =
  fixes consume :: "'s replay_port"
    and held :: "'s \<Rightarrow> string \<Rightarrow> go_time \<Rightarrow> bool"
  assumes fresh_iff: "consume s now k e = (Some fresh, s') \<Longrightarrow> fresh \<longleftrightarrow> (\<nexists>x. held s k x \<and> now < x)"
    and taken: "consume s now k e = (Some True, s') \<Longrightarrow> held s' k e"
    and kept: "consume s now k e = (out, s') \<Longrightarrow> held s k' x \<Longrightarrow> now < x \<Longrightarrow> held s' k' x"

text \<open>
  A run: presentations of responses at successive instants, each to a provider of the
  registry that shares the ledger, with the provider's id and the outcome.
\<close>

inductive presented :: "SamlLib \<Rightarrow> 's replay_port \<Rightarrow> 's \<Rightarrow> go_time \<Rightarrow> (go_time \<times> string \<times> (saml_err + Assertion)) list \<Rightarrow> 's \<Rightarrow> bool"
  for L consume where
  presented_none: "presented L consume s now [] s"
| presented_one: "\<lbrakk>now \<le> t; spReplay p = Some consume; ParseAssertion L p s t resp relay expected = (out, s1);
     presented L consume s1 t rest s'\<rbrakk> \<Longrightarrow> presented L consume s now ((t, spID p, out) # rest) s'"

lemma presented_times: "presented L consume s now ps s' \<Longrightarrow> (t, pid, out) \<in> set ps \<Longrightarrow> now \<le> t"
  by (induction rule: presented.induct) auto

lemma accepted_admitted:
  "presented L consume s now ps s' \<Longrightarrow> (t, pid, Inr a) \<in> set ps \<Longrightarrow>
     \<exists>p resp relay expected. spID p = pid \<and> spReplay p = Some consume \<and> admitted L p t resp relay expected a"
  by (induction rule: presented.induct) (simp, fastforce dest: ParseAssertion_Inr)

context replay_ledger
begin

lemma step_kept:
  assumes "spReplay p = Some consume" "ParseAssertion L p s t resp relay expected = (out, s1)" "held s k x" "t < x"
  shows "held s1 k x"
proof (cases "\<exists>a key. admitted L p t resp relay expected a \<and> assertionReplayKey L (spID p) (Some a) = Inr key")
  case True
  then obtain a key where a: "admitted L p t resp relay expected a" "assertionReplayKey L (spID p) (Some a) = Inr key" by blast
  obtain o' s'' where c: "consume s t key (replayExpiry L (Some a) t) = (o', s'')" by fastforce
  then have "s1 = s''" using ParseAssertion_admitted [OF a(1) assms(1) a(2), of s] assms(2)
    by (auto split: option.splits if_splits)
  then show ?thesis using kept [OF c assms(3,4)] by simp
next
  case False
  then show ?thesis using ParseAssertion_not_admitted [of L p t resp relay expected s] assms(2,3) by auto
qed

lemma held_key_refuses:
  assumes "presented L consume s now ps s'" "held s k x" "(t, pid, Inr a) \<in> set ps" "assertionReplayKey L pid (Some a) = Inr k"
  shows "x \<le> t"
  using assms
proof (induction rule: presented.induct)
  case (presented_one now t1 p s resp relay expected out s1 rest s')
  have "t1 \<le> t" using presented_times [OF presented_one(4)] presented_one.prems(2) by auto
  show ?case
  proof (cases "t1 < x")
    case True
    have "(t, pid, Inr a) \<noteq> (t1, spID p, out)"
      using ParseAssertion_Inr [of L p s t1 resp relay expected a s1] fresh_iff [of s t1 k "replayExpiry L (Some a) t1" True s1]
        presented_one(2,3) presented_one.prems(1,3) True by auto
    then show ?thesis
      using presented_one.IH [OF step_kept [OF presented_one(2,3) presented_one.prems(1) True]] presented_one.prems by auto
  qed (use \<open>t1 \<le> t\<close> in simp)
qed simp

lemma accepted_once:
  assumes "presented L consume s now ps s'" "0 < slMaxClockSkew L"
    and lib: "\<And>t acs resp relay possible. slParseResponse L t acs resp relay possible = Parsed a \<Longrightarrow>
      t \<le> asIssueInstant a + slMaxIssueDelay L"
  shows "length (filter (\<lambda>(t, q, out). q = pid \<and> out = Inr a) ps) \<le> 1"
  using assms(1)
proof (induction rule: presented.induct)
  case (presented_one now t p s resp relay expected out s1 rest s')
  show ?case
  proof (cases "spID p = pid \<and> out = Inr a")
    case True
    then obtain key where key: "assertionReplayKey L pid (Some a) = Inr key"
      "consume s t key (replayExpiry L (Some a) t) = (Some True, s1)"
      using ParseAssertion_Inr [of L p s t resp relay expected a s1] presented_one(2,3) by auto
    have "asIssueInstant a + slMaxIssueDelay L < replayExpiry L (Some a) t"
      using assms(2) by (auto simp: replayExpiry_def Let_def)
    then have "(t', pid, Inr a) \<notin> set rest" for t'
      using held_key_refuses [OF presented_one(4) taken [OF key(2)] _ key(1), of t']
        accepted_admitted [OF presented_one(4), of t' pid a] lib by (fastforce simp: admitted_def)
    then have "filter (\<lambda>(t, q, out). q = pid \<and> out = Inr a) rest = []" by (auto simp: filter_empty_conv)
    then show ?thesis by simp
  next
    case False
    then show ?thesis using presented_one.IH by auto
  qed
qed simp

end

lemma memConsume_eq:
  "memConsume seen now k e =
     (let seen' = filter (\<lambda>(k, exp). exp > now) seen in
      if \<exists>x. (k, x) \<in> set seen \<and> now < x then (Some False, seen') else (Some True, AList.update k e seen'))"
proof (cases "map_of (filter (\<lambda>(k, exp). exp > now) seen) k")
  case None
  then have "\<nexists>x. (k, x) \<in> set seen \<and> now < x"
    by (auto simp: map_of_eq_None_iff image_iff)
  then show ?thesis using None by (simp add: memConsume_def Let_def)
next
  case (Some x)
  then have "(k, x) \<in> set seen \<and> now < x" by (auto dest: map_of_SomeD)
  then show ?thesis using Some by (auto simp: memConsume_def Let_def)
qed

lemma update_keeps: "(k', x) \<in> set al \<Longrightarrow> k' \<noteq> k \<Longrightarrow> (k', x) \<in> set (AList.update k e al)"
  by (induction al) auto

lemma update_adds: "(k, e) \<in> set (AList.update k e al)"
  by (induction al) auto

interpretation mem_replay: replay_ledger memConsume "\<lambda>seen k x. (k, x) \<in> set seen"
proof
  fix s now k e fresh s'
  assume "memConsume s now k e = (Some fresh, s')"
  then show "fresh \<longleftrightarrow> (\<nexists>x. (k, x) \<in> set s \<and> now < x)"
    by (auto simp: memConsume_eq Let_def split: if_splits)
next
  fix s now k e s'
  assume "memConsume s now k e = (Some True, s')"
  then show "(k, e) \<in> set s'" by (auto simp: memConsume_eq Let_def update_adds split: if_splits)
next
  fix s now k e out s' k' x
  assume "memConsume s now k e = (out, s')" "(k', x) \<in> set s" "now < x"
  then show "(k', x) \<in> set s'"
    by (auto simp: memConsume_eq Let_def split: if_splits intro!: update_keeps)
qed

section \<open>The properties of the consumer\<close>

lemma ParseAssertion_answers:
  assumes "ParseAssertion L p s now resp relay expected = (Inr a, s')"
  shows "\<exists>sj. asSubject a = Some sj \<and> sjConfirmations sj \<noteq> [] \<and> (\<forall>c\<in>set (sjConfirmations sj). confirmationOf c = expected)"
    and "expected = '''' \<Longrightarrow> spAllowIDPInitiated p" and "rejectForeignNameID L resp = None" and "trimSpace (asID a) \<noteq> ''''"
    and "responseLimit p > 0 \<Longrightarrow> int (length resp) \<le> responseLimit p"
  using ParseAssertion_Inr [OF assms]
  by (auto simp: admitted_def correlate_None signedInResponseTo_Inr assertionReplayKey_def split: if_splits)

lemma ParseAssertion_captured:
  assumes "\<And>acs possible. slParseResponse L now acs resp relay possible = Parsed b"
    and "asSubject b = Some sj" "c \<in> set (sjConfirmations sj)" "confirmationOf c \<noteq> expected"
  shows "\<exists>err. ParseAssertion L p s now resp relay expected = (Inl err, s)"
proof (rule ParseAssertion_not_admitted)
  show "\<nexists>a key. admitted L p now resp relay expected a \<and> assertionReplayKey L (spID p) (Some a) = Inr key"
  proof clarify
    fix a key assume a: "admitted L p now resp relay expected a"
    then have "a = b" using assms(1) by (auto simp: admitted_def)
    with a assms(2-4) show False by (auto simp: admitted_def correlate_None signedInResponseTo_Inr)
  qed
qed


definition exampleAssertion :: Assertion where
  "exampleAssertion = \<lparr>asID = ''a1'', asIssuer = ''idp'', asIssueInstant = 100,
     asSubject = Some \<lparr>sjNameID = Some ''ann'', sjConfirmations = [Some ''r1'']\<rparr>,
     asAttributeStatements = [[\<lparr>atName = ''name'', atFriendlyName = '''', atValues = [''Smith, John'']\<rparr>]],
     asAuthnStatements = []\<rparr>"

definition exampleSamlLib :: SamlLib where
  "exampleSamlLib = \<lparr>slParseResponse = (\<lambda>t acs resp relay possible. if t \<le> 190 then Parsed exampleAssertion else Refused ''expired''),
     slStartElements = (\<lambda>resp. None), slAbsolute = (\<lambda>u. True), slSHA256Hex = (\<lambda>x. x), slMaxIssueDelay = 90, slMaxClockSkew = 180\<rparr>"

definition exampleSamlProvider :: "MemAssertionReplay SamlProvider" where
  "exampleSamlProvider = \<lparr>spID = ''okta'', spAllowIDPInitiated = True, spAcsURL = Some ''https://sp/acs'', spReplay = Some memConsume,
     spMaxResponseBytes = 0\<rparr>"

definition exampleReplayKey :: string where
  "exampleReplayKey = ''okta'' @ [CHR 0x00] @ ''idp'' @ [CHR 0x00] @ ''a1''"

lemma example_first: "ParseAssertion exampleSamlLib exampleSamlProvider [] 120 ''xml'' '''' ''r1'' = (Inr exampleAssertion, [(exampleReplayKey, 390)])"
  by code_simp

lemma example_second: "ParseAssertion exampleSamlLib exampleSamlProvider [(exampleReplayKey, 390)] 130 ''xml'' '''' ''r1'' =
    (Inl ErrAssertionReplayed, [(exampleReplayKey, 390)])"
  by code_simp


text \<open>C18. A signed assertion opens one session per provider: in any run of presentations
  against the ledger of the process, each at its own instant and to any provider that shares it, the
  same assertion is accepted at most once, provided the library refuses an assertion
  older than its issue delay.\<close>

theorem assertion_single_use:
  assumes "presented L memConsume s now ps s'" "0 < slMaxClockSkew L"
    and "\<And>t acs resp relay possible. slParseResponse L t acs resp relay possible = Parsed a \<Longrightarrow>
      t \<le> asIssueInstant a + slMaxIssueDelay L"
  shows "length (filter (\<lambda>(t, q, out). q = pid \<and> out = Inr a) ps) \<le> 1"
  using assms by (rule mem_replay.accepted_once)

theorem assertion_single_use_witness:
  "\<exists>s'. presented exampleSamlLib memConsume [] 0
     [(120, ''okta'', Inr exampleAssertion), (130, ''okta'', Inl ErrAssertionReplayed)] s' \<and>
   length (filter (\<lambda>(t, q, out). q = ''okta'' \<and> out = Inr exampleAssertion)
     [(120::int, ''okta'', Inr exampleAssertion), (130, ''okta'', Inl ErrAssertionReplayed)]) \<le> 1"
proof -
  have p: "spID exampleSamlProvider = ''okta''" "spReplay exampleSamlProvider = Some memConsume"
    by (simp_all add: exampleSamlProvider_def)
  have run: "presented exampleSamlLib memConsume [] 0
     [(120, ''okta'', Inr exampleAssertion), (130, ''okta'', Inl ErrAssertionReplayed)] [(exampleReplayKey, 390)]"
    using presented_one [of 0 120 exampleSamlProvider memConsume exampleSamlLib "[]", OF _ p(2) example_first
        presented_one [of 120 130 exampleSamlProvider memConsume exampleSamlLib, OF _ p(2) example_second presented_none]]
    by (simp add: p)
  have lib: "t \<le> asIssueInstant exampleAssertion + slMaxIssueDelay exampleSamlLib"
    if "slParseResponse exampleSamlLib t acs resp relay possible = Parsed exampleAssertion" for t acs resp relay possible
    using that by (simp add: exampleSamlLib_def exampleAssertion_def split: if_splits)
  have "0 < slMaxClockSkew exampleSamlLib" by (simp add: exampleSamlLib_def)
  then have "length (filter (\<lambda>(t, q, out). q = ''okta'' \<and> out = Inr exampleAssertion)
     [(120::int, ''okta'', Inr exampleAssertion), (130, ''okta'', Inl ErrAssertionReplayed)]) \<le> 1"
    by (intro assertion_single_use [OF run]) (auto intro: lib)
  with run show ?thesis by blast
qed

text \<open>A single value with a comma is always split: an attribute whose one value is
  a display name written family name, comma, given name comes back as two values, and the
  single-value reading is the family name alone, with or without a space after the comma.\<close>

theorem display_name_is_split:
  assumes "concat (asAttributeStatements a) = [attr]" "atName attr = name \<or> atFriendlyName attr = name" "name \<noteq> ''''"
    and "atValues attr = [family @ '','' @ sp @ given]" "sp = '''' \<or> sp = '' ''"
    and "\<forall>w\<in>{family, given}. w \<noteq> '''' \<and> CHR '','' \<notin> set w \<and> \<not> isSpaceChar (hd w) \<and> \<not> isSpaceChar (last w)"
  shows "AttributeValues (Some a) name = [family, given] \<and> AttributeValue (Some a) name = family"
proof -
  let ?v = "family @ '','' @ sp @ given"
  have t: "trimSpace family = family" "trimSpace (sp @ given) = given"
    using assms(5,6) trimSpace_lead [of given] by (auto intro!: trimSpace_id)
  have "trimSpace ?v = ?v" using assms(6) by (intro trimSpace_id) auto
  then have "nonEmptyTrimmed (atValues attr) = [?v]" using assms(4) by (simp add: nonEmptyTrimmed_def)
  moreover have "splitCommas ?v = [family, sp @ given]"
    using assms(5,6) by (auto simp: splitCommas_append splitCommas_plain)
  then have "splitCommaSeparated ?v = [family, given]"
    using t assms(6) by (simp add: splitCommaSeparated_def nonEmptyTrimmed_def)
  ultimately show ?thesis using assms(1-3) by (auto simp: AttributeValues_def AttributeValue_def Let_def)
qed

theorem display_name_is_split_witness:
  "AttributeValues (Some exampleAssertion) ''name'' = [''Smith'', ''John''] \<and> AttributeValue (Some exampleAssertion) ''name'' = ''Smith''"
  by (rule display_name_is_split [of _ "\<lparr>atName = ''name'', atFriendlyName = '''', atValues = [''Smith, John'']\<rparr>" _ _ "'' ''"])
    (simp_all add: exampleAssertion_def isSpaceChar_def)

end
