(* ===== verification/Saml_Provider.thy ===== *)
theory Saml_Provider
  imports Saml_Assertion Oidc_Provider
begin

text \<open>
  Package \<^verbatim>\<open>saml\<close>, providers: PEM material (\<^verbatim>\<open>pem.go\<close>), building a provider (\<^verbatim>\<open>provider.go\<close>, the options of \<^verbatim>\<open>maxresponse.go\<close>), a
  registry (\<^verbatim>\<open>builder.go\<close>), the metadata fetch and the clock-skew pin (\<^verbatim>\<open>metadata.go\<close>) and the authentication request
  (\<^verbatim>\<open>authn_request.go\<close>). PEM blocks, X.509 and key parsing, URLs, the metadata request and the request builder of the SAML library are the
  record \<^verbatim>\<open>SamlWire\<close>; a certificate, a key and an entity descriptor are opaque strings, the latter with its count of
  IdP descriptors.
\<close>

section \<open>The libraries\<close>

record SamlWire =
  swPEM :: "string \<Rightarrow> (string \<times> string) option"
  swParseCertificate :: "string \<Rightarrow> string option"
  swParsePKCS1 :: "string \<Rightarrow> string option"
  swParseEC :: "string \<Rightarrow> string option"
  swParsePKCS8 :: "string \<Rightarrow> string option"
  swIsSigner :: "string \<Rightarrow> bool"
  swParseURL :: "string \<Rightarrow> (bool \<times> string) option"
  swFetchMetadata :: "string \<Rightarrow> (string \<times> nat) option option"
  swMakeRequest :: "string \<Rightarrow> string \<Rightarrow> string option"
  swRedirect :: "string \<Rightarrow> string \<Rightarrow> bool \<Rightarrow> (string \<times> string) option \<Rightarrow> string option"

datatype sp_err =
    ErrSamlConfig string
  | ErrMetadataInvalid
  | ErrMetadataFetchFailed
  | ErrUnknownSamlProvider
  | ErrAuthnRequest

definition ParseCertPEM :: "SamlWire \<Rightarrow> string \<Rightarrow> string option" where
  "ParseCertPEM W pemStr =
     (case swPEM W pemStr of
        None \<Rightarrow> None
      | Some (ty, bytes) \<Rightarrow> if ty \<noteq> ''CERTIFICATE'' then None else swParseCertificate W bytes)"

definition ParsePrivateKeyPEM :: "SamlWire \<Rightarrow> string \<Rightarrow> string option" where
  "ParsePrivateKeyPEM W pemStr =
     (case swPEM W pemStr of
        None \<Rightarrow> None
      | Some (ty, bytes) \<Rightarrow>
          if ty = ''RSA PRIVATE KEY'' then swParsePKCS1 W bytes
          else if ty = ''EC PRIVATE KEY'' then swParseEC W bytes
          else if ty = ''PRIVATE KEY'' then swParsePKCS8 W bytes
          else None)"

section \<open>Providers\<close>

record SamlConfig =
  pfID :: string
  pfIdPMetadataURL :: string
  pfEntityID :: string
  pfACSURL :: string
  pfMetadataURL :: string
  pfSPCert :: "string option"
  pfSPKey :: "string option"
  pfDisplayName :: string
  pfAttributeMappingGroups :: string
  pfAttributeMappingEmail :: string
  pfAttributeMappingName :: string
  pfAllowIDPInitiated :: bool
  pfSkewTolerance :: int

record 's SamlBuilt =
  sbConfig :: SamlConfig
  sbMetadata :: string
  sbProvider :: "'s SamlProvider"

datatype ProviderOption = WithMaxResponseBytes int | WithMaxResponseBytesUnbounded

fun applyProviderOption :: "ProviderOption \<Rightarrow> 's SamlProvider \<Rightarrow> 's SamlProvider" where
  "applyProviderOption (WithMaxResponseBytes n) p = (if n > 0 then p\<lparr>spMaxResponseBytes := n\<rparr> else p)"
| "applyProviderOption WithMaxResponseBytesUnbounded p = p\<lparr>spMaxResponseBytes := -1\<rparr>"

definition BuildSamlProvider :: "SamlWire \<Rightarrow> SamlConfig \<Rightarrow> string \<Rightarrow> 's replay_port option \<Rightarrow> ProviderOption list \<Rightarrow> sp_err + 's SamlBuilt" where
  "BuildSamlProvider W cfg idpMetadata replay opts =
     (if pfID cfg = '''' then Inl (ErrSamlConfig ''provider id is required'')
      else if replay = None then Inl (ErrSamlConfig ''an AssertionReplayStore is required'')
      else if \<not> validProviderID (pfID cfg) then Inl (ErrSamlConfig ''provider id is not a URL-safe path segment'')
      else if pfSPCert cfg = None then Inl (ErrSamlConfig ''sp_cert is required'')
      else if pfSPKey cfg = None then Inl (ErrSamlConfig ''sp_key is required'')
      else if pfACSURL cfg = '''' then Inl (ErrSamlConfig ''acs_url is required'')
      else (case swParseURL W (pfACSURL cfg) of
          None \<Rightarrow> Inl (ErrSamlConfig ''parse acs_url'')
        | Some (isAbs, host) \<Rightarrow>
            if \<not> isAbs \<or> host = '''' then Inl (ErrSamlConfig ''acs_url must be an absolute URL with a host'')
            else if pfMetadataURL cfg = '''' then Inl (ErrSamlConfig ''metadata_url is required'')
            else if swParseURL W (pfMetadataURL cfg) = None then Inl (ErrSamlConfig ''parse metadata_url'')
            else Inr \<lparr>sbConfig = cfg, sbMetadata = idpMetadata,
              sbProvider = fold applyProviderOption opts
                \<lparr>spID = pfID cfg, spAllowIDPInitiated = pfAllowIDPInitiated cfg, spAcsURL = Some (pfACSURL cfg), spReplay = replay,
                 spMaxResponseBytes = 0\<rparr>\<rparr>))"

text \<open>The response-level check the provider installs in the library: the signed confirmations are compared elsewhere.\<close>

definition validateRequestID :: "string \<Rightarrow> string list \<Rightarrow> bool" where
  "validateRequestID inResponseTo possible = (possible = [] \<or> list_ex (\<lambda>i. i \<noteq> '''' \<and> inResponseTo = i) possible)"

section \<open>Metadata\<close>

text \<open>The outer option is the request, the inner one a nil descriptor.\<close>

definition DefaultMetadataFetcher :: "SamlWire \<Rightarrow> string \<Rightarrow> sp_err + string" where
  "DefaultMetadataFetcher W metadataURL =
     (case swParseURL W metadataURL of
        None \<Rightarrow> Inl ErrMetadataInvalid
      | Some u \<Rightarrow> (case swFetchMetadata W metadataURL of
          None \<Rightarrow> Inl ErrMetadataFetchFailed
        | Some None \<Rightarrow> Inl ErrMetadataInvalid
        | Some (Some (entity, descriptors)) \<Rightarrow> if descriptors = 0 then Inl ErrMetadataInvalid else Inr entity))"

definition SetMaxClockSkew :: "int \<Rightarrow> SamlLib \<Rightarrow> SamlLib" where
  "SetMaxClockSkew d L =
     (let maxBound = 3600 * 10 ^ 9 in
      if d \<le> 0 then L
      else L\<lparr>slMaxClockSkew := (if d > maxBound then maxBound else d)\<rparr>)"

section \<open>Registries\<close>

record 's SamlRegistry =
  sgProviders :: "(string, 's SamlBuilt) go_map"
  sgOrder :: "string list"

fun samlBuildEntries :: "SamlWire \<Rightarrow> (string \<Rightarrow> sp_err + string) \<Rightarrow> bool \<Rightarrow> 's replay_port option \<Rightarrow> SamlConfig list \<Rightarrow> 's SamlRegistry
    \<Rightarrow> sp_err + 's SamlRegistry" where
  "samlBuildEntries W fetch partialOK replay [] reg = Inr reg"
| "samlBuildEntries W fetch partialOK replay (cfg # cfgs) reg =
     (if map_of (sgProviders reg) (pfID cfg) \<noteq> None then Inl (ErrSamlConfig ''duplicate provider id in provider list'')
      else (case fetch (pfIdPMetadataURL cfg) of
          Inl err \<Rightarrow> if partialOK then samlBuildEntries W fetch partialOK replay cfgs reg else Inl err
        | Inr entity \<Rightarrow> (case BuildSamlProvider W cfg entity replay [] of
            Inl err \<Rightarrow> if partialOK then samlBuildEntries W fetch partialOK replay cfgs reg else Inl err
          | Inr p \<Rightarrow> samlBuildEntries W fetch partialOK replay cfgs
              \<lparr>sgProviders = AList.update (pfID cfg) p (sgProviders reg), sgOrder = sgOrder reg @ [pfID cfg]\<rparr>)))"

definition BuildSamlRegistry :: "SamlWire \<Rightarrow> SamlConfig list \<Rightarrow> (string \<Rightarrow> sp_err + string) option \<Rightarrow> bool \<Rightarrow> 's replay_port option
    \<Rightarrow> sp_err + 's SamlRegistry option" where
  "BuildSamlRegistry W configs fetcher partialOK replay =
     (if configs = [] then Inr None
      else
        let fetch = (case fetcher of None \<Rightarrow> DefaultMetadataFetcher W | Some fn \<Rightarrow> fn) in
        (case samlBuildEntries W fetch partialOK replay configs \<lparr>sgProviders = [], sgOrder = []\<rparr> of
           Inl err \<Rightarrow> Inl err
         | Inr reg \<Rightarrow> Inr (Some reg)))"

definition samlRegistryGet :: "'s SamlRegistry option \<Rightarrow> string \<Rightarrow> sp_err + 's SamlBuilt" where
  "samlRegistryGet r i =
     (case r of
        None \<Rightarrow> Inl ErrUnknownSamlProvider
      | Some reg \<Rightarrow> (case map_of (sgProviders reg) i of None \<Rightarrow> Inl ErrUnknownSamlProvider | Some p \<Rightarrow> Inr p))"

definition samlRegistryList :: "'s SamlRegistry option \<Rightarrow> ProviderSummary list option" where
  "samlRegistryList r =
     (case r of
        None \<Rightarrow> Some []
      | Some reg \<Rightarrow>
          if list_ex (\<lambda>i. map_of (sgProviders reg) i = None) (sgOrder reg) then None
          else Some (map (\<lambda>i.
            let display = pfDisplayName (sbConfig (the (map_of (sgProviders reg) i))) in
            \<lparr>psID = i, psDisplayName = (if display = '''' then i else display)\<rparr>) (sgOrder reg)))"

section \<open>Authentication requests\<close>

record AuthnRequestOptions =
  aoForceAuthn :: bool
  aoRequestedACRClass :: string
  aoComparison :: string

text \<open>The library makes a request with its id for the provider's metadata and endpoint and encodes it into the URL with the relay state.\<close>

definition BuildAuthnRequestURL :: "SamlWire \<Rightarrow> 's SamlBuilt option \<Rightarrow> string \<Rightarrow> AuthnRequestOptions \<Rightarrow> sp_err + string \<times> string" where
  "BuildAuthnRequestURL W p relayState opts =
     (case p of
        None \<Rightarrow> Inl (ErrSamlConfig ''provider service provider is nil'')
      | Some pv \<Rightarrow> (case swMakeRequest W (sbMetadata pv) (pfACSURL (sbConfig pv)) of
          None \<Rightarrow> Inl ErrAuthnRequest
        | Some reqID \<Rightarrow>
            let context = (if aoRequestedACRClass opts \<noteq> ''''
                then Some (if aoComparison opts = '''' then ''minimum'' else aoComparison opts, aoRequestedACRClass opts) else None)
            in (case swRedirect W reqID relayState (aoForceAuthn opts) context of
                  None \<Rightarrow> Inl ErrAuthnRequest
                | Some u \<Rightarrow> Inr (u, reqID))))"

section \<open>What a built provider has\<close>

lemma BuildSamlProvider_Inr:
  assumes "BuildSamlProvider W cfg md replay opts = Inr p"
  shows "sbConfig p = cfg \<and> spID (sbProvider p) = pfID cfg \<and> validProviderID (pfID cfg) \<and> spReplay (sbProvider p) = replay \<and> replay \<noteq> None \<and>
    spAcsURL (sbProvider p) = Some (pfACSURL cfg) \<and> spAllowIDPInitiated (sbProvider p) = pfAllowIDPInitiated cfg \<and>
    (\<exists>host. swParseURL W (pfACSURL cfg) = Some (True, host) \<and> host \<noteq> '''')"
proof -
  have opts: "spID (fold applyProviderOption opts q) = spID q" "spReplay (fold applyProviderOption opts q) = spReplay q"
    "spAcsURL (fold applyProviderOption opts q) = spAcsURL q" "spAllowIDPInitiated (fold applyProviderOption opts q) = spAllowIDPInitiated q" for q :: "'a SamlProvider"
    by (induction opts arbitrary: q, simp_all) (rename_tac a os q; case_tac a; simp)+
  show ?thesis using assms by (auto simp: BuildSamlProvider_def opts split: if_splits option.splits)
qed

text \<open>
  The size bound of a provider can be raised or lowered to a positive number and lifted by name only: a zero or
  negative number changes nothing, so no configured value removes it.
\<close>

lemma responseLimit_positive:
  assumes "BuildSamlProvider W cfg md replay opts = Inr p" "WithMaxResponseBytesUnbounded \<notin> set opts"
  shows "0 < responseLimit (sbProvider p)"
proof -
  have "0 \<le> spMaxResponseBytes q \<Longrightarrow> WithMaxResponseBytesUnbounded \<notin> set os \<Longrightarrow> 0 \<le> spMaxResponseBytes (fold applyProviderOption os q)"
    for os and q :: "'a SamlProvider"
  proof (induction os arbitrary: q)
    case (Cons x os)
    then show ?case by (cases x) auto
  qed simp
  from this [of "\<lparr>spID = pfID cfg, spAllowIDPInitiated = pfAllowIDPInitiated cfg, spAcsURL = Some (pfACSURL cfg), spReplay = replay,
      spMaxResponseBytes = 0\<rparr>" opts] assms
  have "0 \<le> spMaxResponseBytes (sbProvider p)" by (auto simp: BuildSamlProvider_def split: if_splits option.splits)
  then show ?thesis by (auto simp: responseLimit_def DefaultMaxSAMLResponseBytes_def)
qed

end
