(* ===== verification/Saml_Manager.thy ===== *)
theory Saml_Manager
  imports Saml_Provider Oidc_Manager
begin

text \<open>
  Package \<^verbatim>\<open>saml\<close>, the managed providers: rows and port (\<^verbatim>\<open>store.go\<close>), the in-memory store (\<^verbatim>\<open>memstore.go\<close>), the manager
  (\<^verbatim>\<open>manager.go\<close>) and inheritance (\<^verbatim>\<open>inheritance.go\<close>). The cache is that of \<^verbatim>\<open>Registry_Cache\<close>. A sealed signing key is a list
  of bytes, a nonce of the sealing an argument. The keys, the clock and the fetcher are read through the manager's record; the log lines
  are left out.
\<close>

section \<open>Rows and definitions\<close>

record SamlRecord =
  mrID :: string
  mrIdPMetadataURL :: string
  mrEntityID :: string
  mrACSURL :: string
  mrSPSigningCertPEM :: string
  mrSealedSigningKey :: "byte list"
  mrAttributeMappingGroups :: string
  mrAttributeMappingEmail :: string
  mrAttributeMappingName :: string
  mrDisplayName :: string
  mrEnabled :: bool
  mrCreatedAt :: go_time
  mrUpdatedAt :: go_time

record SamlDefinition =
  mdID :: string
  mdIdPMetadataURL :: string
  mdEntityID :: string
  mdACSURL :: string
  mdSPSigningCertPEM :: string
  mdSPSigningKey :: string
  mdAttributeMappingGroups :: string
  mdAttributeMappingEmail :: string
  mdAttributeMappingName :: string
  mdDisplayName :: string
  mdEnabled :: bool
  mdCreatedAt :: go_time
  mdUpdatedAt :: go_time

datatype saml_manager_err =
    SamlNoKeySet
  | SamlProviderNotFound
  | SamlProviderExists
  | SamlInput string
  | SamlStore string
  | SamlSecret crypto_err
  | SamlBuild sp_err
  | SamlTenant tenant_err

section \<open>The port and its in-memory store\<close>

record 's saml_port =
  spoInsert :: "'s \<Rightarrow> SamlRecord \<Rightarrow> saml_manager_err option \<times> 's"
  spoGet :: "'s \<Rightarrow> string \<Rightarrow> saml_manager_err + SamlRecord"
  spoList :: "'s \<Rightarrow> saml_manager_err + SamlRecord list"
  spoListEnabled :: "'s \<Rightarrow> ID \<Rightarrow> saml_manager_err + SamlRecord list"
  spoUpdate :: "'s \<Rightarrow> SamlRecord \<Rightarrow> saml_manager_err option \<times> 's"
  spoUpdateSealed :: "'s \<Rightarrow> string \<Rightarrow> byte list \<Rightarrow> go_time \<Rightarrow> saml_manager_err option \<times> 's"
  spoDelete :: "'s \<Rightarrow> string \<Rightarrow> saml_manager_err option \<times> 's"

type_synonym MemSamlStore = "(string, SamlRecord) go_map"

definition memInsertSaml :: "MemSamlStore \<Rightarrow> SamlRecord \<Rightarrow> saml_manager_err option \<times> MemSamlStore" where
  "memInsertSaml s rec =
     (if map_of s (mrID rec) \<noteq> None then (Some SamlProviderExists, s) else (None, AList.update (mrID rec) rec s))"

definition memGetSaml :: "MemSamlStore \<Rightarrow> string \<Rightarrow> saml_manager_err + SamlRecord" where
  "memGetSaml s i = (case map_of s i of None \<Rightarrow> Inl SamlProviderNotFound | Some rec \<Rightarrow> Inr rec)"

definition samlRowBefore :: "SamlRecord \<Rightarrow> SamlRecord \<Rightarrow> bool" where
  "samlRowBefore a b =
     (if mrDisplayName a \<noteq> mrDisplayName b then bytesLess (mrDisplayName a) (mrDisplayName b)
      else bytesLess (mrID a) (mrID b))"

fun insertSamlRow :: "SamlRecord \<Rightarrow> SamlRecord list \<Rightarrow> SamlRecord list" where
  "insertSamlRow r [] = [r]"
| "insertSamlRow r (x # xs) = (if samlRowBefore r x then r # x # xs else x # insertSamlRow r xs)"

definition samlSortedLocked :: "MemSamlStore \<Rightarrow> (SamlRecord \<Rightarrow> bool) \<Rightarrow> SamlRecord list" where
  "samlSortedLocked s match = foldr insertSamlRow (filter match (map snd s)) []"

definition memListSaml :: "MemSamlStore \<Rightarrow> saml_manager_err + SamlRecord list" where
  "memListSaml s = Inr (samlSortedLocked s (\<lambda>r. True))"

definition memListEnabledSaml :: "MemSamlStore \<Rightarrow> ID \<Rightarrow> saml_manager_err + SamlRecord list" where
  "memListEnabledSaml s tenantID = Inr (samlSortedLocked s mrEnabled)"

definition memUpdateSaml :: "MemSamlStore \<Rightarrow> SamlRecord \<Rightarrow> saml_manager_err option \<times> MemSamlStore" where
  "memUpdateSaml s rec =
     (case map_of s (mrID rec) of
        None \<Rightarrow> (Some SamlProviderNotFound, s)
      | Some existing \<Rightarrow> (None, AList.update (mrID rec) (rec\<lparr>mrCreatedAt := mrCreatedAt existing\<rparr>) s))"

definition memUpdateSamlSealedKey :: "MemSamlStore \<Rightarrow> string \<Rightarrow> byte list \<Rightarrow> go_time \<Rightarrow> saml_manager_err option \<times> MemSamlStore" where
  "memUpdateSamlSealedKey s i sealed updatedAt =
     (case map_of s i of
        None \<Rightarrow> (Some SamlProviderNotFound, s)
      | Some rec \<Rightarrow> (None, AList.update i (rec\<lparr>mrSealedSigningKey := sealed, mrUpdatedAt := updatedAt\<rparr>) s))"

definition memDeleteSaml :: "MemSamlStore \<Rightarrow> string \<Rightarrow> saml_manager_err option \<times> MemSamlStore" where
  "memDeleteSaml s i = (None, AList.delete i s)"

definition memSamlPort :: "MemSamlStore saml_port" where
  "memSamlPort = \<lparr>spoInsert = memInsertSaml, spoGet = memGetSaml, spoList = memListSaml, spoListEnabled = memListEnabledSaml,
     spoUpdate = memUpdateSaml, spoUpdateSealed = memUpdateSamlSealedKey, spoDelete = memDeleteSaml\<rparr>"

section \<open>The manager\<close>

record ('s, 'l) SamlManager =
  smPort :: "'s saml_port"
  smKeys :: "KeySet option"
  smFetcher :: "(string \<Rightarrow> sp_err + string) option"
  smMetadataURL :: "(string \<Rightarrow> string \<Rightarrow> string) option"
  smMetadataURLForTenant :: "(ID \<Rightarrow> string \<Rightarrow> string \<Rightarrow> string) option"
  smAllowIDPInitiated :: bool
  smSkewTolerance :: int
  smReplay :: "'l replay_port option"
  smTTL :: int
  smInherit :: "inheritConfig option"

record ('s, 'l) saml_manager_state =
  ssStore :: 's
  ssRegistries :: "'l SamlRegistry registries"

datatype 'l SamlManagerOption =
    WithSPMetadataURLForTenant "(ID \<Rightarrow> string \<Rightarrow> string \<Rightarrow> string) option"
  | WithSamlTTL int
  | WithMetadataFetcher "(string \<Rightarrow> sp_err + string) option"
  | WithSPMetadataURL "(string \<Rightarrow> string \<Rightarrow> string) option"
  | WithAllowIDPInitiated bool
  | WithSkewTolerance int
  | WithAssertionReplayStore "'l replay_port option"
  | WithSamlInheritance "(string \<Rightarrow> tenant_err + Descriptor) option" "(ID \<Rightarrow> tenant_err + bool) option"

fun applySamlManagerOption :: "'l SamlManagerOption \<Rightarrow> ('s, 'l) SamlManager \<Rightarrow> ('s, 'l) SamlManager" where
  "applySamlManagerOption (WithSPMetadataURLForTenant fn) m = (if fn = None then m else m\<lparr>smMetadataURLForTenant := fn\<rparr>)"
| "applySamlManagerOption (WithSamlTTL d) m = m\<lparr>smTTL := d\<rparr>"
| "applySamlManagerOption (WithMetadataFetcher fn) m = (if fn = None then m else m\<lparr>smFetcher := fn\<rparr>)"
| "applySamlManagerOption (WithSPMetadataURL fn) m = (if fn = None then m else m\<lparr>smMetadataURL := fn\<rparr>)"
| "applySamlManagerOption (WithAllowIDPInitiated v) m = m\<lparr>smAllowIDPInitiated := v\<rparr>"
| "applySamlManagerOption (WithSkewTolerance d) m = m\<lparr>smSkewTolerance := d\<rparr>"
| "applySamlManagerOption (WithAssertionReplayStore s) m = m\<lparr>smReplay := s\<rparr>"
| "applySamlManagerOption (WithSamlInheritance s allow) m =
     (case (s, allow) of
        (Some st, Some al) \<Rightarrow> m\<lparr>smInherit := Some \<lparr>ihStore = st, ihAllow = al\<rparr>\<rparr>
      | _ \<Rightarrow> m)"

text \<open>\<^verbatim>\<open>smFetcher\<close> is \<^verbatim>\<open>None\<close> for the default fetcher.\<close>

definition NewSamlManager :: "'s saml_port \<Rightarrow> KeySet option \<Rightarrow> 'l SamlManagerOption list \<Rightarrow> ('s, 'l) SamlManager" where
  "NewSamlManager store keys opts = fold applySamlManagerOption opts
     \<lparr>smPort = store, smKeys = keys, smFetcher = None, smMetadataURL = None, smMetadataURLForTenant = None, smAllowIDPInitiated = False,
      smSkewTolerance = 0, smReplay = None, smTTL = 0, smInherit = None\<rparr>"

definition samlRecordFromDefinition :: "SamlDefinition \<Rightarrow> byte list \<Rightarrow> SamlRecord" where
  "samlRecordFromDefinition def sealed =
     \<lparr>mrID = mdID def, mrIdPMetadataURL = mdIdPMetadataURL def, mrEntityID = mdEntityID def, mrACSURL = mdACSURL def,
      mrSPSigningCertPEM = mdSPSigningCertPEM def, mrSealedSigningKey = sealed,
      mrAttributeMappingGroups = mdAttributeMappingGroups def, mrAttributeMappingEmail = mdAttributeMappingEmail def,
      mrAttributeMappingName = mdAttributeMappingName def, mrDisplayName = mdDisplayName def, mrEnabled = mdEnabled def,
      mrCreatedAt = mdCreatedAt def, mrUpdatedAt = mdUpdatedAt def\<rparr>"

definition samlDefinitionFromRecord :: "KeySet option \<Rightarrow> SamlRecord \<Rightarrow> saml_manager_err + SamlDefinition" where
  "samlDefinitionFromRecord keys rec =
     (let opened = (case keys of
            Some ks \<Rightarrow> if mrSealedSigningKey rec \<noteq> []
                then (case OpenEnvelope ks (mrSealedSigningKey rec) of Inl err \<Rightarrow> Inl (SamlSecret err) | Inr pt \<Rightarrow> Inr pt)
                else Inr []
          | None \<Rightarrow> Inr [])
      in (case opened of
            Inl err \<Rightarrow> Inl err
          | Inr plaintext \<Rightarrow> Inr
              \<lparr>mdID = mrID rec, mdIdPMetadataURL = mrIdPMetadataURL rec, mdEntityID = mrEntityID rec, mdACSURL = mrACSURL rec,
               mdSPSigningCertPEM = mrSPSigningCertPEM rec, mdSPSigningKey = stringOfBytes plaintext,
               mdAttributeMappingGroups = mrAttributeMappingGroups rec, mdAttributeMappingEmail = mrAttributeMappingEmail rec,
               mdAttributeMappingName = mrAttributeMappingName rec, mdDisplayName = mrDisplayName rec, mdEnabled = mrEnabled rec,
               mdCreatedAt = mrCreatedAt rec, mdUpdatedAt = mrUpdatedAt rec\<rparr>))"

definition samlInvalidateCache :: "('s, 'l) SamlManager \<Rightarrow> ('s, 'l) saml_manager_state \<Rightarrow> ('s, 'l) saml_manager_state" where
  "samlInvalidateCache m st = st\<lparr>ssRegistries := InvalidateTenant (smInherit m \<noteq> None) (ssRegistries st) Single\<rparr>"

definition samlCreate :: "('s, 'l) SamlManager \<Rightarrow> ('s, 'l) saml_manager_state \<Rightarrow> byte list option \<Rightarrow> go_time \<Rightarrow> SamlDefinition
    \<Rightarrow> saml_manager_err option \<times> ('s, 'l) saml_manager_state" where
  "samlCreate m st nonce now def =
     (if mdID def = '''' then (Some (SamlInput ''provider id is required''), st)
      else (case smKeys m of
          None \<Rightarrow> (Some SamlNoKeySet, st)
        | Some ks \<Rightarrow> (case Seal ks nonce (bytesOf (mdSPSigningKey def)) of
            Inl err \<Rightarrow> (Some (SamlSecret err), st)
          | Inr sealed \<Rightarrow>
              let rec = (samlRecordFromDefinition def sealed)\<lparr>mrCreatedAt := now, mrUpdatedAt := now\<rparr> in
              (case spoInsert (smPort m) (ssStore st) rec of
                 (Some err, s') \<Rightarrow> (Some err, st\<lparr>ssStore := s'\<rparr>)
               | (None, s') \<Rightarrow> (None, samlInvalidateCache m (st\<lparr>ssStore := s'\<rparr>))))))"

definition samlGet :: "('s, 'l) SamlManager \<Rightarrow> ('s, 'l) saml_manager_state \<Rightarrow> string \<Rightarrow> saml_manager_err + SamlDefinition" where
  "samlGet m st i =
     (if i = '''' then Inl (SamlInput ''provider id is required'')
      else (case spoGet (smPort m) (ssStore st) i of
          Inl err \<Rightarrow> Inl err
        | Inr rec \<Rightarrow> samlDefinitionFromRecord (smKeys m) rec))"

definition samlList :: "('s, 'l) SamlManager \<Rightarrow> ('s, 'l) saml_manager_state \<Rightarrow> saml_manager_err + SamlDefinition list" where
  "samlList m st =
     (case spoList (smPort m) (ssStore st) of
        Inl err \<Rightarrow> Inl err
      | Inr recs \<Rightarrow> mapResult (samlDefinitionFromRecord (smKeys m)) recs)"

definition samlUpdate :: "('s, 'l) SamlManager \<Rightarrow> ('s, 'l) saml_manager_state \<Rightarrow> byte list option \<Rightarrow> go_time \<Rightarrow> SamlDefinition
    \<Rightarrow> saml_manager_err option \<times> ('s, 'l) saml_manager_state" where
  "samlUpdate m st nonce now def =
     (if mdID def = '''' then (Some (SamlInput ''provider id is required''), st)
      else (case smKeys m of
          None \<Rightarrow> (Some SamlNoKeySet, st)
        | Some ks \<Rightarrow> (case spoGet (smPort m) (ssStore st) (mdID def) of
            Inl err \<Rightarrow> (Some err, st)
          | Inr existing \<Rightarrow> (case Seal ks nonce (bytesOf (mdSPSigningKey def)) of
              Inl err \<Rightarrow> (Some (SamlSecret err), st)
            | Inr sealed \<Rightarrow>
                let rec = (samlRecordFromDefinition def sealed)\<lparr>mrUpdatedAt := now\<rparr> in
                (case spoUpdate (smPort m) (ssStore st) rec of
                   (Some err, s') \<Rightarrow> (Some err, st\<lparr>ssStore := s'\<rparr>)
                 | (None, s') \<Rightarrow> (None, samlInvalidateCache m (st\<lparr>ssStore := s'\<rparr>)))))))"

definition samlDelete :: "('s, 'l) SamlManager \<Rightarrow> ('s, 'l) saml_manager_state \<Rightarrow> string \<Rightarrow> saml_manager_err option \<times> ('s, 'l) saml_manager_state" where
  "samlDelete m st i =
     (if i = '''' then (Some (SamlInput ''provider id is required''), st)
      else (case spoDelete (smPort m) (ssStore st) i of
          (Some err, s') \<Rightarrow> (Some err, st\<lparr>ssStore := s'\<rparr>)
        | (None, s') \<Rightarrow> (None, samlInvalidateCache m (st\<lparr>ssStore := s'\<rparr>))))"

section \<open>Metadata of an identity provider\<close>

record IdPDescriptor =
  idServices :: "(string \<times> string) list"
  idKeys :: "(string \<times> nat) list"

record MetadataTestResult =
  mtEntityID :: string
  mtSSOServiceURL :: string
  mtSSOServiceBinding :: string
  mtSigningCertCount :: nat

definition HTTPRedirectBinding :: string where
  "HTTPRedirectBinding = ''urn:oasis:names:tc:SAML:2.0:bindings:HTTP-Redirect''"

text \<open>The library's reading of a descriptor, its entity id and its IdP parts, is an argument. A service is its binding and location, a key descriptor its use and count of certificates.\<close>

definition TestMetadata :: "SamlWire \<Rightarrow> (string \<Rightarrow> string \<times> IdPDescriptor list) \<Rightarrow> ('s, 'l) SamlManager \<Rightarrow> string
    \<Rightarrow> sp_err + MetadataTestResult" where
  "TestMetadata W describe m idpMetadataURL =
     (case (case smFetcher m of None \<Rightarrow> DefaultMetadataFetcher W | Some fn \<Rightarrow> fn) idpMetadataURL of
        Inl err \<Rightarrow> Inl err
      | Inr entity \<Rightarrow> (case describe entity of (entityID, descs) \<Rightarrow>
          (case descs of
             [] \<Rightarrow> Inr \<lparr>mtEntityID = entityID, mtSSOServiceURL = '''', mtSSOServiceBinding = '''', mtSigningCertCount = 0\<rparr>
           | desc # _ \<Rightarrow>
               let (binding, location) = (case find (\<lambda>(b, l). b = HTTPRedirectBinding) (idServices desc) of
                     Some svc \<Rightarrow> svc | None \<Rightarrow> ('''', ''''));
                   (binding, location) = (case idServices desc of
                     first # _ \<Rightarrow> if location = '''' then first else (binding, location)
                   | [] \<Rightarrow> (binding, location))
               in Inr \<lparr>mtEntityID = entityID, mtSSOServiceURL = location, mtSSOServiceBinding = binding,
                    mtSigningCertCount = sum_list (map snd (filter (\<lambda>(use, n). use = '''' \<or> use = ''signing'') (idKeys desc)))\<rparr>)))"

section \<open>The live registry\<close>

text \<open>One of the two mappings is set when this runs.\<close>

definition spMetadataFor :: "('s, 'l) SamlManager \<Rightarrow> ID \<Rightarrow> string \<Rightarrow> string \<Rightarrow> string" where
  "spMetadataFor m tenantID providerID acsURL =
     (case smMetadataURLForTenant m of
        Some fn \<Rightarrow> fn tenantID providerID acsURL
      | None \<Rightarrow> (case smMetadataURL m of Some fn \<Rightarrow> fn providerID acsURL | None \<Rightarrow> ''''))"

text \<open>The configuration of one row, \<^verbatim>\<open>None\<close> where the code skips it.\<close>

definition samlConfigOf :: "('s, 'l) SamlManager \<Rightarrow> SamlWire \<Rightarrow> ID \<Rightarrow> SamlDefinition \<Rightarrow> SamlConfig option" where
  "samlConfigOf m W tenantID def =
     (case ParseCertPEM W (mdSPSigningCertPEM def) of
        None \<Rightarrow> None
      | Some cert \<Rightarrow> (case ParsePrivateKeyPEM W (mdSPSigningKey def) of
          None \<Rightarrow> None
        | Some key \<Rightarrow>
            if \<not> swIsSigner W key then None
            else Some \<lparr>pfID = mdID def, pfIdPMetadataURL = mdIdPMetadataURL def, pfEntityID = mdEntityID def, pfACSURL = mdACSURL def,
              pfMetadataURL = spMetadataFor m tenantID (mdID def) (mdACSURL def), pfSPCert = Some cert, pfSPKey = Some key,
              pfDisplayName = mdDisplayName def, pfAttributeMappingGroups = mdAttributeMappingGroups def,
              pfAttributeMappingEmail = mdAttributeMappingEmail def, pfAttributeMappingName = mdAttributeMappingName def,
              pfAllowIDPInitiated = smAllowIDPInitiated m, pfSkewTolerance = smSkewTolerance m\<rparr>))"

definition samlBuildRegistry :: "('s, 'l) SamlManager \<Rightarrow> SamlWire \<Rightarrow> ID \<Rightarrow> SamlRecord list \<Rightarrow> saml_manager_err + 'l SamlRegistry option" where
  "samlBuildRegistry m W tenantID recs =
     (if recs = [] then Inr None
      else if smMetadataURL m = None \<and> smMetadataURLForTenant m = None then Inl (SamlInput ''manager has no SP-metadata-URL mapping'')
      else if smReplay m = None then Inl (SamlInput ''manager has no assertion replay store'')
      else (case mapResult (samlDefinitionFromRecord (smKeys m)) recs of
          Inl err \<Rightarrow> Inl err
        | Inr defs \<Rightarrow>
            let configs = List.map_filter (samlConfigOf m W tenantID) defs in
            if configs = [] then Inr None
            else (case BuildSamlRegistry W configs (smFetcher m) True (smReplay m) of
                Inl err \<Rightarrow> Inl (SamlBuild err)
              | Inr reg \<Rightarrow> Inr reg)))"

definition samlListEnabled :: "('s, 'l) SamlManager \<Rightarrow> 's \<Rightarrow> ID \<Rightarrow> saml_manager_err + SamlRecord list" where
  "samlListEnabled m s tenantID = spoListEnabled (smPort m) s tenantID"

definition samlRecordsFor :: "('s, 'l) SamlManager \<Rightarrow> 's \<Rightarrow> ID \<Rightarrow> saml_manager_err + SamlRecord list" where
  "samlRecordsFor m s tenantID =
     (case smInherit m of
        None \<Rightarrow> samlListEnabled m s tenantID
      | Some inh \<Rightarrow>
          (case Inherited (Some (ihStore inh)) (Some (ihAllow inh)) tenantID
              (\<lambda>i. case samlListEnabled m s i of Inl err \<Rightarrow> Inl (StoreFailure (idV i)) | Inr recs \<Rightarrow> Inr recs) of
             Inl err \<Rightarrow> Inl (SamlTenant err)
           | Inr recs \<Rightarrow> Inr recs))"

definition samlGetRegistry :: "('s, 'l) SamlManager \<Rightarrow> SamlWire \<Rightarrow> ('s, 'l) saml_manager_state \<Rightarrow> go_time \<Rightarrow> ID
    \<Rightarrow> (saml_manager_err + 'l SamlRegistry option) \<times> ('s, 'l) saml_manager_state" where
  "samlGetRegistry m W st now tenantID =
     (let (out, regs) = getRegistry (smTTL m) (samlListEnabled m (ssStore st))
            (case smInherit m of None \<Rightarrow> None | Some inh \<Rightarrow> Some (samlRecordsFor m (ssStore st)))
            (samlBuildRegistry m W) (ssRegistries st) tenantID now
      in (out, st\<lparr>ssRegistries := regs\<rparr>))"

definition samlReload :: "('s, 'l) SamlManager \<Rightarrow> SamlWire \<Rightarrow> ('s, 'l) saml_manager_state \<Rightarrow> go_time \<Rightarrow> ID
    \<Rightarrow> saml_manager_err option \<times> ('s, 'l) saml_manager_state" where
  "samlReload m W st now tenantID =
     (let (err, regs) = reloadRegistry (samlListEnabled m (ssStore st))
            (case smInherit m of None \<Rightarrow> None | Some inh \<Rightarrow> Some (samlRecordsFor m (ssStore st)))
            (samlBuildRegistry m W) (ssRegistries st) tenantID now
      in (err, st\<lparr>ssRegistries := regs\<rparr>))"

section \<open>Rotation\<close>

fun rotateSamlRows :: "KeySet \<Rightarrow> 's saml_port \<Rightarrow> (byte list option \<times> go_time) list \<Rightarrow> SamlRecord list \<Rightarrow> 's \<Rightarrow> RotateResult
    \<Rightarrow> (RotateResult \<times> saml_manager_err option) \<times> 's" where
  "rotateSamlRows ks port draws [] s result = ((result, None), s)"
| "rotateSamlRows ks port draws (rec # recs) s result =
     (case mrSealedSigningKey rec of
        [] \<Rightarrow> rotateSamlRows ks port draws recs s result
      | keyID # sealedRest \<Rightarrow>
          let result = result\<lparr>rrScanned := rrScanned result + 1\<rparr> in
          if keyID = ksWriteKeyID ks then rotateSamlRows ks port draws recs s result
          else (case OpenEnvelope ks (mrSealedSigningKey rec) of
              Inl err \<Rightarrow> ((result, Some (SamlSecret err)), s)
            | Inr plaintext \<Rightarrow>
                let (nonce, now) = (case draws of [] \<Rightarrow> (None, 0) | d # _ \<Rightarrow> d) in
                (case Seal ks nonce plaintext of
                   Inl err \<Rightarrow> ((result, Some (SamlSecret err)), s)
                 | Inr sealed \<Rightarrow> (case spoUpdateSealed port s (mrID rec) sealed now of
                     (Some err, s') \<Rightarrow> ((result, Some err), s')
                   | (None, s') \<Rightarrow> rotateSamlRows ks port (tl draws) recs s' (result\<lparr>rrRotated := rrRotated result + 1\<rparr>)))))"

definition RotateSealedKeys :: "('s, 'l) SamlManager \<Rightarrow> (byte list option \<times> go_time) list \<Rightarrow> ('s, 'l) saml_manager_state
    \<Rightarrow> (RotateResult \<times> saml_manager_err option) \<times> ('s, 'l) saml_manager_state" where
  "RotateSealedKeys m draws st =
     (case smKeys m of
        None \<Rightarrow> ((\<lparr>rrScanned = 0, rrRotated = 0\<rparr>, Some SamlNoKeySet), st)
      | Some ks \<Rightarrow> (case spoList (smPort m) (ssStore st) of
          Inl err \<Rightarrow> ((\<lparr>rrScanned = 0, rrRotated = 0\<rparr>, Some err), st)
        | Inr recs \<Rightarrow>
            let (out, s') = rotateSamlRows ks (smPort m) draws recs (ssStore st) \<lparr>rrScanned = 0, rrRotated = 0\<rparr> in
            (out, st\<lparr>ssStore := s'\<rparr>)))"

section \<open>What a built registry holds\<close>

interpretation saml_builder: registry_builder "samlBuildRegistry m"
  by unfold_locales (simp add: samlBuildRegistry_def)

text \<open>A configuration that the network can complete: its metadata is fetched and the provider builds over it.\<close>

definition samlCompletes :: "SamlWire \<Rightarrow> (string \<Rightarrow> sp_err + string) \<Rightarrow> 'l replay_port option \<Rightarrow> SamlConfig \<Rightarrow> 'l SamlBuilt \<Rightarrow> bool" where
  "samlCompletes W fetch replay cfg p \<longleftrightarrow>
     (\<exists>entity. fetch (pfIdPMetadataURL cfg) = Inr entity \<and> BuildSamlProvider W cfg entity replay [] = Inr p)"

lemma samlBuildEntries_fresh:
  assumes "samlBuildEntries W fetch True replay cfgs reg = Inr reg'" "cfg \<in> set cfgs"
  shows "map_of (sgProviders reg) (pfID cfg) = None"
  using assms
proof (induction cfgs arbitrary: reg)
  case (Cons c cfgs)
  have fresh: "map_of (sgProviders reg) (pfID c) = None" using Cons.prems(1) by (auto split: if_splits)
  show ?case
  proof (cases "cfg = c")
    case False
    then have "cfg \<in> set cfgs" using Cons.prems(2) by simp
    moreover have "samlBuildEntries W fetch True replay cfgs reg = Inr reg' \<or>
        (\<exists>q. samlBuildEntries W fetch True replay cfgs \<lparr>sgProviders = AList.update (pfID c) q (sgProviders reg), sgOrder = sgOrder reg @ [pfID c]\<rparr> = Inr reg')"
      using Cons.prems(1) fresh by (auto split: sum.splits)
    ultimately show ?thesis using Cons.IH by (fastforce simp: alist_simps split: if_splits)
  qed (use fresh in simp)
qed simp

lemma samlBuildEntries_get:
  assumes "samlBuildEntries W fetch True replay cfgs reg = Inr reg'"
  shows "map_of (sgProviders reg') i = Some p \<longleftrightarrow>
    map_of (sgProviders reg) i = Some p \<or> map_of (sgProviders reg) i = None \<and> (\<exists>cfg\<in>set cfgs. pfID cfg = i \<and> samlCompletes W fetch replay cfg p)"
  using assms
proof (induction cfgs arbitrary: reg)
  case (Cons cfg cfgs)
  have fresh: "map_of (sgProviders reg) (pfID cfg) = None" using Cons.prems by (auto split: if_splits)
  show ?case
  proof (cases "\<exists>q. samlCompletes W fetch replay cfg q")
    case True
    then obtain entity q where q: "fetch (pfIdPMetadataURL cfg) = Inr entity" "BuildSamlProvider W cfg entity replay [] = Inr q"
      by (auto simp: samlCompletes_def)
    let ?reg = "\<lparr>sgProviders = AList.update (pfID cfg) q (sgProviders reg), sgOrder = sgOrder reg @ [pfID cfg]\<rparr>"
    have step: "samlBuildEntries W fetch True replay cfgs ?reg = Inr reg'" using Cons.prems fresh q by simp
    have "samlCompletes W fetch replay cfg p \<longleftrightarrow> p = q" using q by (auto simp: samlCompletes_def)
    moreover have "pfID c \<noteq> pfID cfg" if "c \<in> set cfgs" for c
      using samlBuildEntries_fresh [OF step that] by (auto simp: alist_simps)
    ultimately show ?thesis using Cons.IH [OF step] fresh by (auto simp: alist_simps)
  next
    case False
    then have "samlBuildEntries W fetch True replay cfgs reg = Inr reg'"
      using Cons.prems fresh by (auto simp: samlCompletes_def split: sum.splits)
    from Cons.IH [OF this] False show ?thesis by auto
  qed
qed simp


lemma samlDefinitionFromRecord_ids:
  "samlDefinitionFromRecord keys rec = Inr def \<Longrightarrow> mdID def = mrID rec"
  "samlDefinitionFromRecord keys rec = Inr def \<Longrightarrow> mdACSURL def = mrACSURL rec"
  by (auto simp: samlDefinitionFromRecord_def Let_def split: sum.splits)

lemma samlConfigOf_ids:
  "samlConfigOf m W t def = Some cfg \<Longrightarrow> pfID cfg = mdID def"
  "samlConfigOf m W t def = Some cfg \<Longrightarrow> pfACSURL cfg = mdACSURL def"
  "samlConfigOf m W t def = Some cfg \<Longrightarrow> pfMetadataURL cfg = spMetadataFor m t (mdID def) (mdACSURL def)"
  "samlConfigOf m W t def = Some cfg \<Longrightarrow> pfAllowIDPInitiated cfg = smAllowIDPInitiated m"
  by (auto simp: samlConfigOf_def split: option.splits if_splits)

lemma mapResult_bex: "mapResult f xs = Inr ys \<Longrightarrow> (\<exists>y\<in>set ys. P y) \<longleftrightarrow> (\<exists>x\<in>set xs. \<exists>y. f x = Inr y \<and> P y)"
  by (induction xs arbitrary: ys) (auto split: sum.splits)

lemma map_filter_bex: "(\<exists>y\<in>set (List.map_filter f xs). P y) \<longleftrightarrow> (\<exists>x\<in>set xs. \<exists>y. f x = Some y \<and> P y)"
  by (induction xs) (auto simp: map_filter_simps split: option.splits)

lemma samlRegistryGet_Inr: "samlRegistryGet (Some reg) i = Inr p \<longleftrightarrow> map_of (sgProviders reg) i = Some p"
  by (simp add: samlRegistryGet_def split: option.split)

lemma saml_registry_get:
  assumes "samlBuildRegistry m W t recs = Inr (Some reg)"
  shows "samlRegistryGet (Some reg) i = Inr p \<longleftrightarrow>
      (\<exists>rec\<in>set recs. \<exists>def cfg. mrID rec = i \<and> samlDefinitionFromRecord (smKeys m) rec = Inr def \<and> samlConfigOf m W t def = Some cfg \<and>
         samlCompletes W (case smFetcher m of None \<Rightarrow> DefaultMetadataFetcher W | Some fn \<Rightarrow> fn) (smReplay m) cfg p)"
proof -
  let ?fetch = "case smFetcher m of None \<Rightarrow> DefaultMetadataFetcher W | Some fn \<Rightarrow> fn"
  obtain defs where defs: "mapResult (samlDefinitionFromRecord (smKeys m)) recs = Inr defs"
    "BuildSamlRegistry W (List.map_filter (samlConfigOf m W t) defs) (smFetcher m) True (smReplay m) = Inr (Some reg)"
    using assms by (auto simp: samlBuildRegistry_def Let_def split: if_splits sum.splits)
  from defs(2) have "samlBuildEntries W ?fetch True (smReplay m) (List.map_filter (samlConfigOf m W t) defs) \<lparr>sgProviders = [], sgOrder = []\<rparr> = Inr reg"
    by (auto simp: BuildSamlRegistry_def Let_def split: if_splits sum.splits)
  from samlBuildEntries_get [OF this]
  have get: "samlRegistryGet (Some reg) i = Inr p \<longleftrightarrow> (\<exists>cfg\<in>set (List.map_filter (samlConfigOf m W t) defs). pfID cfg = i \<and> samlCompletes W ?fetch (smReplay m) cfg p)"
    unfolding samlRegistryGet_Inr by simp
  have "samlRegistryGet (Some reg) i = Inr p \<longleftrightarrow> (\<exists>rec\<in>set recs. \<exists>def. samlDefinitionFromRecord (smKeys m) rec = Inr def \<and>
      (\<exists>cfg. samlConfigOf m W t def = Some cfg \<and> pfID cfg = i \<and> samlCompletes W ?fetch (smReplay m) cfg p))"
    unfolding get map_filter_bex mapResult_bex [OF defs(1)] ..
  moreover have "(\<exists>cfg. samlConfigOf m W t def = Some cfg \<and> pfID cfg = i \<and> Q cfg) \<longleftrightarrow> (\<exists>cfg. mrID rec = i \<and> samlConfigOf m W t def = Some cfg \<and> Q cfg)"
    if "samlDefinitionFromRecord (smKeys m) rec = Inr def" for rec def Q
    using samlDefinitionFromRecord_ids(1) [OF that] samlConfigOf_ids(1) [of m W t def] by fastforce
  ultimately show ?thesis by (simp cong: conj_cong) blast
qed

lemma saml_registry_provider:
  assumes "samlBuildRegistry m W t recs = Inr (Some reg)" "samlRegistryGet (Some reg) i = Inr p"
  shows "validProviderID i \<and> spID (sbProvider p) = i \<and> smReplay m \<noteq> None \<and> spReplay (sbProvider p) = smReplay m \<and>
      spAllowIDPInitiated (sbProvider p) = smAllowIDPInitiated m \<and> 0 < responseLimit (sbProvider p) \<and>
      (\<exists>rec\<in>set recs. mrID rec = i \<and> spAcsURL (sbProvider p) = Some (mrACSURL rec) \<and>
         pfMetadataURL (sbConfig p) = spMetadataFor m t i (mrACSURL rec))"
proof -
  obtain rec def cfg entity where x: "rec \<in> set recs" "mrID rec = i" "samlDefinitionFromRecord (smKeys m) rec = Inr def"
    "samlConfigOf m W t def = Some cfg" "BuildSamlProvider W cfg entity (smReplay m) [] = Inr p"
    using assms(2) unfolding saml_registry_get [OF assms(1)] samlCompletes_def by blast
  have "0 < responseLimit (sbProvider p)" using responseLimit_positive [OF x(5)] by simp
  then show ?thesis
    using BuildSamlProvider_Inr [OF x(5)] samlDefinitionFromRecord_ids [OF x(3)] samlConfigOf_ids [OF x(4)] x(1,2) by auto
qed

text \<open>
  What a tenant's SAML registry holds. A provider is in it exactly when one of the tenant's rows has that id, its key opens, its
  certificate and key parse to a signer, its metadata is fetched and its settings are complete; a row that fails is left out and does
  not hide the others. Every provider in it parses under the manager's replay ledger and policy with a bounded response, names
  the tenant asked for in its metadata URL, and takes responses at the row's own consumer endpoint.
\<close>

theorem saml_registry_exact:
  assumes "samlBuildRegistry m W t recs = Inr (Some reg)"
  shows "(\<forall>i p. samlRegistryGet (Some reg) i = Inr p \<longleftrightarrow>
      (\<exists>rec\<in>set recs. \<exists>def cfg. mrID rec = i \<and> samlDefinitionFromRecord (smKeys m) rec = Inr def \<and> samlConfigOf m W t def = Some cfg \<and>
         samlCompletes W (case smFetcher m of None \<Rightarrow> DefaultMetadataFetcher W | Some fn \<Rightarrow> fn) (smReplay m) cfg p)) \<and>
    (\<forall>i p. samlRegistryGet (Some reg) i = Inr p \<longrightarrow>
      validProviderID i \<and> spID (sbProvider p) = i \<and> smReplay m \<noteq> None \<and> spReplay (sbProvider p) = smReplay m \<and>
      spAllowIDPInitiated (sbProvider p) = smAllowIDPInitiated m \<and> 0 < responseLimit (sbProvider p) \<and>
      (\<exists>rec\<in>set recs. mrID rec = i \<and> spAcsURL (sbProvider p) = Some (mrACSURL rec) \<and>
         pfMetadataURL (sbConfig p) = spMetadataFor m t i (mrACSURL rec)))"
  using saml_registry_get [OF assms] saml_registry_provider [OF assms] by blast

section \<open>The cache of the manager\<close>

lemma samlRecordsFor_unwired: "smInherit m = None \<Longrightarrow> samlListEnabled m s = samlRecordsFor m s"
  by (rule ext) (simp add: samlRecordsFor_def)

lemma samlGetRegistry_cached:
  assumes "samlGetRegistry m W st now t = (out, st')"
  shows "\<exists>regs. getRegistry (smTTL m) (samlListEnabled m (ssStore st))
    (if smInherit m \<noteq> None then Some (samlRecordsFor m (ssStore st)) else None) (samlBuildRegistry m W) (ssRegistries st) t now = (out, regs)"
  using assms by (cases "smInherit m") (auto simp: samlGetRegistry_def Let_def split: prod.splits)

text \<open>
  A SAML provider that is served is configured now. Under any interleaving of row writes, invalidations, lookups and reloads from an
  empty cache, and with the proviso for inheritance that no invalidation overtakes a lookup, a provider found in the registry of a tenant
  whose invalidations have run comes from a row that the store lists for that tenant at this moment, and
  answers at that row's endpoint: a deleted or disabled provider takes no assertion.
\<close>

theorem saml_provider_current:
  assumes "cache_run R (smTTL m) (samlRecordsFor m) (samlBuildRegistry m) w0 w" "wCache w0 = []" "wLocal w0 = []"
    and "rgInherit R \<longleftrightarrow> smInherit m \<noteq> None" "rgInherit R \<longrightarrow> \<not> rgRace R" "\<not> wOwed w t"
    and "samlGetRegistry m W \<lparr>ssStore = wStore w, ssRegistries = wCache w\<rparr> now t = (Inr (Some reg), st')"
    and "samlRegistryGet (Some reg) i = Inr p"
  shows "\<exists>recs rec. samlRecordsFor m (wStore w) t = Inr recs \<and> rec \<in> set recs \<and> mrID rec = i \<and>
    spAcsURL (sbProvider p) = Some (mrACSURL rec) \<and> spReplay (sbProvider p) = smReplay m"
proof -
  obtain regs where "getRegistry (smTTL m) (samlListEnabled m (wStore w)) (if rgInherit R then Some (samlRecordsFor m (wStore w)) else None)
      (samlBuildRegistry m W) (wCache w) t now = (Inr (Some reg), regs)"
    using samlGetRegistry_cached [OF assms(7)] assms(4) by auto
  moreover have "\<not> rgInherit R \<longrightarrow> samlListEnabled m (wStore w) = samlRecordsFor m (wStore w)"
    using samlRecordsFor_unwired [of m "wStore w"] assms(4) by auto
  ultimately have "builtFrom (samlRecordsFor m) (samlBuildRegistry m) (wStore w) t (Some reg)"
    using getRegistry_current [OF assms(1-3,5,6)] by blast
  then obtain recs W' where b: "samlRecordsFor m (wStore w) t = Inr recs" "samlBuildRegistry m W' t recs = Inr (Some reg)"
    by (auto simp: builtFrom_def)
  with saml_registry_provider [OF b(2) assms(8)] show ?thesis by blast
qed

definition exampleSamlRow :: SamlRecord where
  "exampleSamlRow = \<lparr>mrID = ''okta'', mrIdPMetadataURL = ''m'', mrEntityID = ''e'', mrACSURL = ''https://sp/acs'', mrSPSigningCertPEM = ''cert'',
     mrSealedSigningKey = [], mrAttributeMappingGroups = '''', mrAttributeMappingEmail = '''', mrAttributeMappingName = '''',
     mrDisplayName = ''Okta'', mrEnabled = True, mrCreatedAt = 1, mrUpdatedAt = 1\<rparr>"

definition exampleWire :: SamlWire where
  "exampleWire = \<lparr>swPEM = (\<lambda>p. Some (if p = ''cert'' then ''CERTIFICATE'' else ''PRIVATE KEY'', p)), swParseCertificate = Some, swParsePKCS1 = Some, swParseEC = Some,
     swParsePKCS8 = Some, swIsSigner = (\<lambda>k. True), swParseURL = (\<lambda>u. Some (True, ''host'')),
     swFetchMetadata = (\<lambda>u. Some (Some (''idp'', 1))), swMakeRequest = (\<lambda>md acs. Some ''r1''),
     swRedirect = (\<lambda>r relay force ctx. Some ''https://idp/sso'')\<rparr>"

definition exampleSamlManager :: "(MemSamlStore, MemAssertionReplay) SamlManager" where
  "exampleSamlManager = NewSamlManager memSamlPort None
     [WithSamlTTL 100, WithSPMetadataURLForTenant (Some (\<lambda>t i acs. ''https://sp/md'')), WithAssertionReplayStore (Some memConsume)]"

definition exampleSamlConfig :: SamlConfig where
  "exampleSamlConfig = \<lparr>pfID = ''okta'', pfIdPMetadataURL = ''m'', pfEntityID = ''e'', pfACSURL = ''https://sp/acs'', pfMetadataURL = ''https://sp/md'',
     pfSPCert = Some ''cert'', pfSPKey = Some '''', pfDisplayName = ''Okta'', pfAttributeMappingGroups = '''', pfAttributeMappingEmail = '''',
     pfAttributeMappingName = '''', pfAllowIDPInitiated = False, pfSkewTolerance = 0\<rparr>"

definition exampleBuilt :: "MemAssertionReplay SamlBuilt" where
  "exampleBuilt = \<lparr>sbConfig = exampleSamlConfig, sbMetadata = ''idp'',
     sbProvider = \<lparr>spID = ''okta'', spAllowIDPInitiated = False, spAcsURL = Some ''https://sp/acs'', spReplay = Some memConsume, spMaxResponseBytes = 0\<rparr>\<rparr>"

definition exampleSamlRegistry :: "MemAssertionReplay SamlRegistry" where
  "exampleSamlRegistry = \<lparr>sgProviders = [(''okta'', exampleBuilt)], sgOrder = [''okta'']\<rparr>"

lemma exampleSamlManager_simps [simp]:
  "smKeys exampleSamlManager = None" "smFetcher exampleSamlManager = None" "smReplay exampleSamlManager = Some memConsume"
  "smAllowIDPInitiated exampleSamlManager = False" "smSkewTolerance exampleSamlManager = 0" "smInherit exampleSamlManager = None"
  "smTTL exampleSamlManager = 100" "smPort exampleSamlManager = memSamlPort"
  "smMetadataURLForTenant exampleSamlManager = Some (\<lambda>t i acs. ''https://sp/md'')"
  by (simp_all add: exampleSamlManager_def NewSamlManager_def)

lemma example_saml_build: "samlBuildRegistry exampleSamlManager exampleWire t [exampleSamlRow] = Inr (Some exampleSamlRegistry)"
proof -
  have d: "samlDefinitionFromRecord None exampleSamlRow = Inr \<lparr>mdID = ''okta'', mdIdPMetadataURL = ''m'', mdEntityID = ''e'', mdACSURL = ''https://sp/acs'',
      mdSPSigningCertPEM = ''cert'', mdSPSigningKey = '''', mdAttributeMappingGroups = '''', mdAttributeMappingEmail = '''',
      mdAttributeMappingName = '''', mdDisplayName = ''Okta'', mdEnabled = True, mdCreatedAt = 1, mdUpdatedAt = 1\<rparr>"
    by (simp add: samlDefinitionFromRecord_def exampleSamlRow_def stringOfBytes_def)
  have c: "samlConfigOf exampleSamlManager exampleWire t \<lparr>mdID = ''okta'', mdIdPMetadataURL = ''m'', mdEntityID = ''e'', mdACSURL = ''https://sp/acs'',
      mdSPSigningCertPEM = ''cert'', mdSPSigningKey = '''', mdAttributeMappingGroups = '''', mdAttributeMappingEmail = '''',
      mdAttributeMappingName = '''', mdDisplayName = ''Okta'', mdEnabled = True, mdCreatedAt = 1, mdUpdatedAt = 1\<rparr> = Some exampleSamlConfig"
    by (simp add: samlConfigOf_def ParseCertPEM_def ParsePrivateKeyPEM_def exampleWire_def spMetadataFor_def exampleSamlConfig_def)
  have f: "DefaultMetadataFetcher exampleWire ''m'' = Inr ''idp''" by (simp add: DefaultMetadataFetcher_def exampleWire_def)
  have b: "BuildSamlProvider exampleWire exampleSamlConfig ''idp'' (Some memConsume) [] = Inr exampleBuilt"
    by (simp add: BuildSamlProvider_def exampleSamlConfig_def exampleWire_def exampleBuilt_def validProviderID_def isProviderIDChar_def)
  have "pfID exampleSamlConfig = ''okta''" "pfIdPMetadataURL exampleSamlConfig = ''m''" by (simp_all add: exampleSamlConfig_def)
  then show ?thesis
    by (simp add: samlBuildRegistry_def d c map_filter_simps BuildSamlRegistry_def f b exampleSamlRegistry_def)
qed

theorem saml_registry_exact_witness:
  "samlRegistryGet (Some exampleSamlRegistry) ''okta'' = Inr exampleBuilt \<and> spReplay (sbProvider exampleBuilt) = Some memConsume \<and>
   (\<exists>rec\<in>set [exampleSamlRow]. spAcsURL (sbProvider exampleBuilt) = Some (mrACSURL rec))"
proof -
  have "samlRegistryGet (Some exampleSamlRegistry) ''okta'' = Inr exampleBuilt" by (simp add: samlRegistryGet_def exampleSamlRegistry_def)
  then show ?thesis using saml_registry_exact [OF example_saml_build [of Single], THEN conjunct2] by fastforce
qed

theorem saml_provider_current_witness:
  "\<exists>recs rec. samlRecordsFor exampleSamlManager [(''okta'', exampleSamlRow)] Single = Inr recs \<and> rec \<in> set recs \<and> mrID rec = ''okta'' \<and>
     spAcsURL (sbProvider exampleBuilt) = Some (mrACSURL rec) \<and> spReplay (sbProvider exampleBuilt) = smReplay exampleSamlManager"
proof -
  let ?R = "\<lparr>rgInherit = False, rgRace = True, rgWrites = True\<rparr>" and ?rows = "[(''okta'', exampleSamlRow)]"
  let ?w = "\<lparr>wStore = ?rows, wCache = [], wNow = 1, wLocal = [], wOwed = (\<lambda>t. False)\<rparr> :: (MemSamlStore, SamlRecord, MemAssertionReplay SamlRegistry) world"
  have l: "samlListEnabled exampleSamlManager ?rows Single = Inr [exampleSamlRow]"
    by (simp add: samlListEnabled_def memSamlPort_def memListEnabledSaml_def samlSortedLocked_def exampleSamlRow_def)
  then obtain st where "samlGetRegistry exampleSamlManager exampleWire \<lparr>ssStore = wStore ?w, ssRegistries = wCache ?w\<rparr> 5 Single = (Inr (Some exampleSamlRegistry), st)"
    by (simp add: samlGetRegistry_def getRegistry_unwired cachedHit_def rebuildLocked_def example_saml_build storeBuilt_def)
  moreover have "samlRegistryGet (Some exampleSamlRegistry) ''okta'' = Inr exampleBuilt" by (simp add: samlRegistryGet_def exampleSamlRegistry_def)
  ultimately show ?thesis
    using saml_provider_current [of ?R exampleSamlManager ?w ?w Single exampleWire 5 exampleSamlRegistry st "''okta''" exampleBuilt] by auto
qed

end
