(* ===== verification/Espresso_Saml.thy ===== *)
theory Espresso_Saml
  imports Espresso_Federation Saml_Manager
begin

text \<open>
  Package \<^verbatim>\<open>espresso\<close>, the SAML routes (\<^verbatim>\<open>samlroutes.go\<close>): login, link-start, the assertion consumer endpoint and the metadata.
  The ledger of assertions is threaded through the consumer; the descriptor the SAML library writes for a provider is an argument.
\<close>

section \<open>Configuration\<close>

definition samlStateCookieSlotName :: string where
  "samlStateCookieSlotName = ''tamper_saml_state''"

record SAMLOutcome =
  smTokens :: Tokens
  smRedirect :: string
  smLinked :: bool

record SAMLVerified =
  svAssertion :: Assertion
  svState :: SamlState
  svHasState :: bool
  svRelayState :: string

record 's SAMLHooks =
  shkRegistry :: "(request_ctx \<Rightarrow> ID \<Rightarrow> route_err + 's SamlRegistry option) option"
  shkOnFederatedAssertion :: "(request_ctx \<Rightarrow> 's SamlBuilt \<Rightarrow> SAMLVerified \<Rightarrow> route_err + SAMLOutcome) option"
  shkSanitizeRedirect :: "(string \<Rightarrow> string) option"
  shkLinkRedirect :: "(string \<Rightarrow> string) option"
  shkOnStepUpInitiated :: bool
  shkCallingUserID :: "(request_ctx \<Rightarrow> string) option"

record SAMLRouteConfig =
  rcStateCookie :: StateCookieConfig
  rcStateSecret :: string
  rcStateIssuer :: string
  rcStateTTL :: int
  rcCookies :: CookieConfig
  rcMountPrefix :: string

record 's SAMLRoutes =
  srCfg :: SAMLRouteConfig
  srRegistry :: "request_ctx \<Rightarrow> ID \<Rightarrow> route_err + 's SamlRegistry option"
  srOnFederatedAssertion :: "request_ctx \<Rightarrow> 's SamlBuilt \<Rightarrow> SAMLVerified \<Rightarrow> route_err + SAMLOutcome"
  srSanitizeRedirect :: "string \<Rightarrow> string"
  srLinkRedirect :: "(string \<Rightarrow> string) option"
  srOnStepUpInitiated :: bool
  srCallingUserID :: "request_ctx \<Rightarrow> string"

definition NewSAMLRoutes :: "SAMLRouteConfig \<Rightarrow> 's SAMLHooks \<Rightarrow> string + 's SAMLRoutes" where
  "NewSAMLRoutes cfg hooks =
     (case shkRegistry hooks of
        None \<Rightarrow> Inl ''saml routes require a Registry hook''
      | Some registry \<Rightarrow> (case shkOnFederatedAssertion hooks of
          None \<Rightarrow> Inl ''saml routes require an OnFederatedAssertion hook''
        | Some onAssertion \<Rightarrow>
            if \<not> hasPrefix (rcMountPrefix cfg) ''/'' \<or> hasSuffix (rcMountPrefix cfg) ''/'' then Inl ''MountPrefix must start with / and not end with one''
            else (case stateCookieProblem (rcStateCookie cfg) of
                Some problem \<Rightarrow> Inl problem
              | None \<Rightarrow>
                  if rcStateSecret cfg = '''' then Inl ''state cookie signing secret is required''
                  else if rcStateIssuer cfg = '''' then Inl ''state cookie issuer is required''
                  else if rcStateTTL cfg \<le> 0 then Inl ''state cookie TTL must be positive''
                  else if ccName (rcCookies cfg) = '''' then Inl ''refresh cookie name is required''
                  else Inr \<lparr>srCfg = cfg, srRegistry = registry, srOnFederatedAssertion = onAssertion,
                      srSanitizeRedirect = (case shkSanitizeRedirect hooks of None \<Rightarrow> denyAllRedirect | Some fn \<Rightarrow> fn),
                      srLinkRedirect = shkLinkRedirect hooks,
                      srOnStepUpInitiated = shkOnStepUpInitiated hooks,
                      srCallingUserID = (case shkCallingUserID hooks of None \<Rightarrow> defaultCallingUserID | Some fn \<Rightarrow> fn)\<rparr>)))"

definition ReadSamlStateCookie :: "'s SAMLRoutes \<Rightarrow> middleware" where
  "ReadSamlStateCookie s = ReadNamedCookie samlStateCookieSlotName (cookieName (rcStateCookie (srCfg s)))"

definition samlRouteProvider :: "'s SAMLRoutes \<Rightarrow> request_ctx \<Rightarrow> string \<Rightarrow> route_err + 's SamlBuilt" where
  "samlRouteProvider s ctx i =
     (case TenantFromContext ctx of (tid, ok) \<Rightarrow>
        if \<not> ok then Inl (Wire 404 ''SAML_PROVIDER_NOT_FOUND'')
        else (case srRegistry s ctx tid of
            Inl err \<Rightarrow> Inl (Wire 500 ''INTERNAL'')
          | Inr None \<Rightarrow> Inl (Wire 404 ''SAML_NOT_CONFIGURED'')
          | Inr (Some reg) \<Rightarrow> (case samlRegistryGet (Some reg) i of
              Inl err \<Rightarrow> Inl (Wire 404 ''SAML_PROVIDER_NOT_FOUND'')
            | Inr p \<Rightarrow> Inr p)))"

section \<open>The start legs\<close>

definition zeroSamlState :: SamlState where
  "zeroSamlState = \<lparr>ssProviderID = '''', ssRedirectAfterLogin = '''', ssRequestedMaxAgeSeconds = 0, ssRequestedACRValues = [],
     ssCallingUserID = '''', ssRequestID = '''', ssMode = '''', ssUserID = '''', ssPurpose = '''', ssIssuer = '''', ssIssuedAt = 0, ssExpiresAt = 0\<rparr>"

definition signState :: "CookieLib \<Rightarrow> 's SAMLRoutes \<Rightarrow> go_time \<Rightarrow> SamlState \<Rightarrow> route_err + Cookie" where
  "signState L s now claims =
     (case SignStateCookieWithSecret L (rcStateSecret (srCfg s)) claims (rcStateIssuer (srCfg s)) now (rcStateTTL (srCfg s)) of
        Inl err \<Rightarrow> Inl (Wire 500 ''INTERNAL'')
      | Inr value \<Rightarrow> Inr (SetCookie (rcStateCookie (srCfg s)) value))"

definition requestOptions :: "int \<Rightarrow> string list \<Rightarrow> AuthnRequestOptions" where
  "requestOptions maxAge acrValues =
     \<lparr>aoForceAuthn = (maxAge > 0 \<or> acrValues \<noteq> []), aoRequestedACRClass = (case acrValues of [] \<Rightarrow> '''' | v # _ \<Rightarrow> v), aoComparison = ''''\<rparr>"

definition samlLogin :: "CookieLib \<Rightarrow> SamlWire \<Rightarrow> 's SAMLRoutes \<Rightarrow> request_ctx \<Rightarrow> go_time \<Rightarrow> string \<Rightarrow> StartParams
    \<Rightarrow> (route_err + string \<times> Cookie list) \<times> step_up_event list" where
  "samlLogin L W s ctx now providerID p =
     (case samlRouteProvider s ctx providerID of
        Inl err \<Rightarrow> (Inl err, [])
      | Inr prov \<Rightarrow>
          let relayState = srSanitizeRedirect s (stRedirect p);
              maxAge = (if stMaxAge p < 0 then 0 else stMaxAge p);
              acrValues = SplitACRValues (stACRValues p);
              isStepUp = (maxAge > 0 \<or> acrValues \<noteq> []);
              callingUserID = srCallingUserID s ctx
          in (case BuildAuthnRequestURL W (Some prov) relayState (requestOptions maxAge acrValues) of
                Inl err \<Rightarrow> (Inl (Wire 500 ''INTERNAL''), [])
              | Inr (idpURL, authnRequestID) \<Rightarrow>
                  (case signState L s now (zeroSamlState\<lparr>ssProviderID := pfID (sbConfig prov), ssRedirectAfterLogin := relayState,
                        ssRequestedMaxAgeSeconds := maxAge, ssRequestedACRValues := acrValues, ssCallingUserID := callingUserID,
                        ssRequestID := authnRequestID\<rparr>) of
                     Inl err \<Rightarrow> (Inl err, [])
                   | Inr cookie \<Rightarrow>
                       (Inr (idpURL, [cookie]),
                        if isStepUp \<and> srOnStepUpInitiated s then [(callingUserID, maxAge, acrValues)] else []))))"

definition samlLinkStart :: "CookieLib \<Rightarrow> SamlWire \<Rightarrow> 's SAMLRoutes \<Rightarrow> request_ctx \<Rightarrow> go_time \<Rightarrow> string \<Rightarrow> string
    \<Rightarrow> route_err + string \<times> Cookie list" where
  "samlLinkStart L W s ctx now providerID userID =
     (case samlRouteProvider s ctx providerID of
        Inl err \<Rightarrow> Inl err
      | Inr prov \<Rightarrow> (case srLinkRedirect s of
          None \<Rightarrow> Inl (Wire 500 ''INTERNAL'')
        | Some linkRedirect \<Rightarrow>
            let target = linkRedirect (pfID (sbConfig prov)) in
            (case BuildAuthnRequestURL W (Some prov) target (requestOptions 0 []) of
               Inl err \<Rightarrow> Inl (Wire 500 ''INTERNAL'')
             | Inr (idpURL, authnRequestID) \<Rightarrow>
                 (case signState L s now (zeroSamlState\<lparr>ssProviderID := pfID (sbConfig prov), ssRedirectAfterLogin := target,
                       ssMode := ModeLink, ssUserID := userID, ssCallingUserID := userID, ssRequestID := authnRequestID\<rparr>) of
                    Inl err \<Rightarrow> Inl err
                  | Inr cookie \<Rightarrow> Inr (idpURL, [cookie])))))"

section \<open>The consumer endpoint\<close>

definition readState :: "CookieLib \<Rightarrow> 's SAMLRoutes \<Rightarrow> request_ctx \<Rightarrow> go_time \<Rightarrow> string \<Rightarrow> SamlState \<times> bool" where
  "readState L s ctx now providerID =
     (case NamedCookieValue ctx samlStateCookieSlotName of (raw, ok) \<Rightarrow>
        if \<not> ok \<or> raw = '''' then (zeroSamlState, False)
        else (case VerifyStateCookieWithSecret L (rcStateSecret (srCfg s)) raw (rcStateIssuer (srCfg s)) now of
            Inl err \<Rightarrow> (zeroSamlState, False)
          | Inr claims \<Rightarrow> if ssProviderID claims \<noteq> providerID then (zeroSamlState, False) else (claims, True)))"

record SAMLAssertionForm =
  sfSAMLResponse :: string
  sfRelayState :: string

fun acsError :: "saml_err \<Rightarrow> route_err" where
  "acsError ErrReplayStoreUnavailable = Wire 503 ''SAML_REPLAY_STORE_UNAVAILABLE''"
| "acsError ErrAssertionReplayed = Wire 400 ''SAML_ASSERTION_REPLAYED''"
| "acsError ErrUncorrelated = Wire 400 ''SAML_ASSERTION_UNCORRELATED''"
| "acsError ErrNoSubjectConfirmation = Wire 400 ''SAML_ASSERTION_UNCORRELATED''"
| "acsError ErrIdPInitiatedDisabled = Wire 400 ''SAML_IDP_INITIATED_DISABLED''"
| "acsError (ErrAssertionInvalid msg) = Wire 400 ''SAML_ASSERTION_INVALID''"

definition answerAssertion :: "SAMLRouteConfig \<Rightarrow> SAMLOutcome \<Rightarrow> route_err + string \<times> Cookie list" where
  "answerAssertion cfg out =
     (if smLinked out \<and> (tkAccess (smTokens out) \<noteq> '''' \<or> tkRefresh (smTokens out) \<noteq> '''') then Inl (Wire 500 ''INTERNAL'')
      else Inr (smRedirect out,
        (if smLinked out then [] else refreshCookies (rcCookies cfg) (rcMountPrefix cfg) (smTokens out)) @ [ClearCookie (rcStateCookie cfg)]))"

definition ACS :: "CookieLib \<Rightarrow> SamlLib \<Rightarrow> 's SAMLRoutes \<Rightarrow> request_ctx \<Rightarrow> 's \<Rightarrow> go_time \<Rightarrow> string \<Rightarrow> SAMLAssertionForm
    \<Rightarrow> (route_err + string \<times> Cookie list) \<times> 's" where
  "ACS L S s ctx st now providerID form =
     (case samlRouteProvider s ctx providerID of
        Inl err \<Rightarrow> (Inl err, st)
      | Inr prov \<Rightarrow> (case readState L s ctx now (pfID (sbConfig prov)) of (claims, hasState) \<Rightarrow>
          let expectedRequestID = (if hasState then ssRequestID claims else '''') in
          (case ParseAssertion S (sbProvider prov) st now (sfSAMLResponse form) (sfRelayState form) expectedRequestID of
             (Inl err, st') \<Rightarrow> (Inl (acsError err), st')
           | (Inr assertion, st') \<Rightarrow>
               let mode = (if hasState \<and> ssMode claims \<noteq> '''' then ssMode claims else ModeLogin) in
               if mode = ModeLink \<and> (\<not> hasState \<or> ssUserID claims = '''') then (Inl (Wire 400 ''INVALID_STATE''), st')
               else (case srOnFederatedAssertion s ctx prov
                         \<lparr>svAssertion = assertion, svState = claims, svHasState = hasState, svRelayState = sfRelayState form\<rparr> of
                       Inl err \<Rightarrow> (Inl err, st')
                     | Inr out \<Rightarrow> (answerAssertion (srCfg s) out, st')))))"

definition GenerateSPMetadata :: "('s SamlBuilt \<Rightarrow> string option option) \<Rightarrow> 's SamlBuilt option \<Rightarrow> string option" where
  "GenerateSPMetadata describe p =
     (case p of
        None \<Rightarrow> None
      | Some pv \<Rightarrow> (case describe pv of
          None \<Rightarrow> None
        | Some None \<Rightarrow> None
        | Some (Some body) \<Rightarrow> Some (''<?xml version=\"1.0\" encoding=\"UTF-8\"?>'' @ [CHR 0x0A] @ body)))"

definition samlMetadata :: "('s SamlBuilt \<Rightarrow> string option option) \<Rightarrow> 's SAMLRoutes \<Rightarrow> request_ctx \<Rightarrow> string \<Rightarrow> route_err + string" where
  "samlMetadata describe s ctx providerID =
     (case samlRouteProvider s ctx providerID of
        Inl err \<Rightarrow> Inl err
      | Inr prov \<Rightarrow> (case GenerateSPMetadata describe (Some prov) of
          None \<Rightarrow> Inl (Wire 500 ''INTERNAL'')
        | Some body \<Rightarrow> Inr body))"

section \<open>What a session at the consumer has passed\<close>

lemma samlRouteProvider_Inr:
  "samlRouteProvider s ctx i = Inr p \<longleftrightarrow>
     (\<exists>tid reg. cxTenant ctx = Some tid \<and> srRegistry s ctx tid = Inr (Some reg) \<and> samlRegistryGet (Some reg) i = Inr p)"
  by (auto simp: samlRouteProvider_def TenantFromContext_def split: option.splits sum.splits)

lemma answerAssertion_Inr:
  "answerAssertion cfg out = Inr res \<longleftrightarrow>
     (smLinked out \<longrightarrow> tkAccess (smTokens out) = '''' \<and> tkRefresh (smTokens out) = '''') \<and>
     res = (smRedirect out, refreshCookies (rcCookies cfg) (rcMountPrefix cfg) (smTokens out) @ [ClearCookie (rcStateCookie cfg)])"
  by (auto simp: answerAssertion_def refreshCookies_def)

lemma readState_True:
  "readState L s ctx now pid = (claims, True) \<longleftrightarrow>
     (\<exists>raw. NamedCookieValue ctx samlStateCookieSlotName = (raw, True) \<and> raw \<noteq> '''' \<and>
        VerifyStateCookieWithSecret L (rcStateSecret (srCfg s)) raw (rcStateIssuer (srCfg s)) now = Inr claims \<and> ssProviderID claims = pid)"
  by (auto simp: readState_def split: prod.splits sum.splits if_splits)

lemma ACS_Inr:
  assumes "ACS L S s ctx st now pid form = (Inr res, st')"
  shows "\<exists>prov claims hasState a out. samlRouteProvider s ctx pid = Inr prov \<and> readState L s ctx now (pfID (sbConfig prov)) = (claims, hasState) \<and>
    ParseAssertion S (sbProvider prov) st now (sfSAMLResponse form) (sfRelayState form) (if hasState then ssRequestID claims else '''') = (Inr a, st') \<and>
    (hasState \<and> ssMode claims = ModeLink \<longrightarrow> ssUserID claims \<noteq> '''') \<and>
    srOnFederatedAssertion s ctx prov \<lparr>svAssertion = a, svState = claims, svHasState = hasState, svRelayState = sfRelayState form\<rparr> = Inr out \<and>
    answerAssertion (srCfg s) out = Inr res"
proof (cases "samlRouteProvider s ctx pid")
  case prov: (Inr prov)
  obtain claims hasState where rd: "readState L s ctx now (pfID (sbConfig prov)) = (claims, hasState)" by fastforce
  let ?r = "if hasState then ssRequestID claims else ''''"
  obtain x st1 where ps: "ParseAssertion S (sbProvider prov) st now (sfSAMLResponse form) (sfRelayState form) ?r = (x, st1)" by fastforce
  show ?thesis
  proof (cases x)
    case (Inr a)
    let ?v = "\<lparr>svAssertion = a, svState = claims, svHasState = hasState, svRelayState = sfRelayState form\<rparr>"
    let ?mode = "if hasState \<and> ssMode claims \<noteq> '''' then ssMode claims else ModeLogin"
    have eq: "ACS L S s ctx st now pid form =
        (if ?mode = ModeLink \<and> (\<not> hasState \<or> ssUserID claims = '''') then (Inl (Wire 400 ''INVALID_STATE''), st1)
         else (case srOnFederatedAssertion s ctx prov ?v of Inl err \<Rightarrow> (Inl err, st1) | Inr out \<Rightarrow> (answerAssertion (srCfg s) out, st1)))"
      by (simp only: ACS_def prov rd ps Inr Let_def sum.case prod.case)
    have ok: "\<not> (?mode = ModeLink \<and> (\<not> hasState \<or> ssUserID claims = ''''))" using assms unfolding eq by (rule contrapos_pn) simp
    then obtain out where out: "srOnFederatedAssertion s ctx prov ?v = Inr out" "answerAssertion (srCfg s) out = Inr res" "st1 = st'"
      using assms unfolding eq by (cases "srOnFederatedAssertion s ctx prov ?v") auto
    have "hasState \<and> ssMode claims = ModeLink \<longrightarrow> ssUserID claims \<noteq> ''''" using ok by (auto simp: ModeLink_def)
    then show ?thesis using prov rd ps Inr out by blast
  qed (use assms prov rd ps in \<open>simp add: ACS_def\<close>)
qed (use assms in \<open>simp add: ACS_def\<close>)


section \<open>A link flow stays one\<close>

lemma samlLinkStart_Inr:
  assumes "samlLinkStart L W s ctx now pid uid = Inr (url, cks)"
  shows "\<exists>prov target r ck. samlRouteProvider s ctx pid = Inr prov \<and> swMakeRequest W (sbMetadata prov) (pfACSURL (sbConfig prov)) = Some r \<and>
    cks = [ck] \<and> SignStateCookieWithSecret L (rcStateSecret (srCfg s)) (zeroSamlState\<lparr>ssProviderID := pfID (sbConfig prov), ssRedirectAfterLogin := target,
        ssMode := ModeLink, ssUserID := uid, ssCallingUserID := uid, ssRequestID := r\<rparr>) (rcStateIssuer (srCfg s)) now (rcStateTTL (srCfg s)) = Inr (ckValue ck)"
  using assms
  by (auto simp: samlLinkStart_def signState_def BuildAuthnRequestURL_def Let_def SetCookie_def split: sum.splits option.splits prod.splits)

lemma link_cookie_verifies:
  assumes "cookieLibOk L" "samlLinkStart L W s ctx t pid uid = Inr (idpURL, [ck])"
    and "samlRouteProvider s ctx pid = Inr prov" "swMakeRequest W (sbMetadata prov) (pfACSURL (sbConfig prov)) = Some r"
    and "NamedCookieValue ctx' samlStateCookieSlotName = (ckValue ck, True)" "now < numericDate (t + rcStateTTL (srCfg s)) * 10 ^ 9"
  shows "\<exists>claims. readState L s ctx' now (pfID (sbConfig prov)) = (claims, True) \<and>
    ssMode claims = ModeLink \<and> ssUserID claims = uid \<and> ssRequestID claims = r"
proof -
  let ?base = "\<lambda>target. zeroSamlState\<lparr>ssProviderID := pfID (sbConfig prov), ssRedirectAfterLogin := target,
        ssMode := ModeLink, ssUserID := uid, ssCallingUserID := uid, ssRequestID := r\<rparr>"
  obtain target where sg: "SignStateCookieWithSecret L (rcStateSecret (srCfg s)) (?base target) (rcStateIssuer (srCfg s)) t (rcStateTTL (srCfg s)) = Inr (ckValue ck)"
    using samlLinkStart_Inr [OF assms(2)] assms(3,4) by auto
  let ?claims = "stampSamlState (?base target) (rcStateIssuer (srCfg s)) t (rcStateTTL (srCfg s))"
  have "VerifyStateCookieWithSecret L (rcStateSecret (srCfg s)) (ckValue ck) (rcStateIssuer (srCfg s)) now = Inr ?claims"
    using Verify_signed_saml [OF assms(1) sg] assms(6) by simp
  moreover have "ckValue ck \<noteq> ''''" using assms(5) by (auto simp: NamedCookieValue_def split: option.splits)
  ultimately have "readState L s ctx' now (pfID (sbConfig prov)) = (?claims, True)"
    unfolding readState_True using assms(5) by (simp add: stampSamlState_def)
  then show ?thesis by (intro exI [of _ ?claims]) (simp add: stampSamlState_def)
qed

lemma ACS_link:
  assumes "samlRouteProvider s ctx pid = Inr prov" "readState L s ctx now (pfID (sbConfig prov)) = (claims, True)"
    and "ssMode claims = ModeLink" "ssUserID claims \<noteq> ''''"
  shows "ACS L S s ctx st now pid form =
    (case ParseAssertion S (sbProvider prov) st now (sfSAMLResponse form) (sfRelayState form) (ssRequestID claims) of
       (Inl err, st') \<Rightarrow> (Inl (acsError err), st')
     | (Inr a, st') \<Rightarrow> (case srOnFederatedAssertion s ctx prov
           \<lparr>svAssertion = a, svState = claims, svHasState = True, svRelayState = sfRelayState form\<rparr> of
           Inl err \<Rightarrow> (Inl err, st')
         | Inr out \<Rightarrow> (answerAssertion (srCfg s) out, st')))"
proof -
  have "ModeLink \<noteq> ''''" by (simp add: ModeLink_def)
  then show ?thesis using assms by (simp add: ACS_def Let_def split: prod.split sum.split)
qed


section \<open>A link flow, run\<close>

definition exampleSamlRoutes :: "MemAssertionReplay SAMLRoutes" where
  "exampleSamlRoutes = \<lparr>srCfg = \<lparr>rcStateCookie = exampleStateCookie, rcStateSecret = ''k'', rcStateIssuer = ''iss'', rcStateTTL = StateTTL,
       rcCookies = \<lparr>ccName = ''rt'', ccSecure = True, ccMaxAgeSeconds = 60\<rparr>, rcMountPrefix = ''/auth''\<rparr>,
     srRegistry = (\<lambda>ctx tid. Inr (Some exampleSamlRegistry)),
     srOnFederatedAssertion = (\<lambda>ctx p v. Inr \<lparr>smTokens = \<lparr>tkAccess = '''', tkRefresh = '''', tkRefreshExpiresAt = 0\<rparr>,
       smRedirect = ssUserID (svState v), smLinked = True\<rparr>),
     srSanitizeRedirect = denyAllRedirect, srLinkRedirect = Some (\<lambda>i. ''/linked''), srOnStepUpInitiated = False,
     srCallingUserID = defaultCallingUserID\<rparr>"

definition exampleSamlCtx :: request_ctx where
  "exampleSamlCtx = (exampleCtx Single)\<lparr>cxCookies := [(samlStateCookieSlotName, ''a'')]\<rparr>"

definition exampleLinkClaims :: SamlState where
  "exampleLinkClaims = zeroSamlState\<lparr>ssProviderID := ''okta'', ssRedirectAfterLogin := ''/linked'', ssMode := ModeLink, ssUserID := ''u1'',
     ssCallingUserID := ''u1'', ssRequestID := ''r1''\<rparr>"

definition exampleSamlCookieLib :: CookieLib where
  "exampleSamlCookieLib = (let p = encodeSamlState (stampSamlState exampleLinkClaims ''iss'' 100 StateTTL) in twoTokenLib p p)"

lemma example_saml_provider: "samlRouteProvider exampleSamlRoutes exampleSamlCtx ''okta'' = Inr exampleBuilt"
  by (simp add: samlRouteProvider_def TenantFromContext_def exampleSamlCtx_def exampleCtx_def exampleSamlRoutes_def samlRegistryGet_def exampleSamlRegistry_def)

lemma example_link_start:
  "samlLinkStart exampleSamlCookieLib exampleWire exampleSamlRoutes exampleSamlCtx 100 ''okta'' ''u1'' =
     Inr (''https://idp/sso'', [SetCookie exampleStateCookie ''a''])"
proof -
  have u: "BuildAuthnRequestURL exampleWire (Some exampleBuilt) ''/linked'' (requestOptions 0 []) = Inr (''https://idp/sso'', ''r1'')"
    by (simp add: BuildAuthnRequestURL_def exampleWire_def)
  have i: "pfID (sbConfig exampleBuilt) = ''okta''" by (simp add: exampleBuilt_def exampleSamlConfig_def)
  have "signState exampleSamlCookieLib exampleSamlRoutes 100 exampleLinkClaims = Inr (SetCookie exampleStateCookie ''a'')"
    by (simp add: signState_def exampleSamlRoutes_def SignStateCookieWithSecret_def exampleSamlCookieLib_def Let_def twoTokenLib_def)
  moreover have "srLinkRedirect exampleSamlRoutes = Some (\<lambda>i. ''/linked'')" by (simp add: exampleSamlRoutes_def)
  ultimately show ?thesis
    by (simp add: samlLinkStart_def example_saml_provider u i exampleLinkClaims_def)
qed

lemma example_acs_cookie: "NamedCookieValue exampleSamlCtx samlStateCookieSlotName = (ckValue (SetCookie exampleStateCookie ''a''), True)"
  by (simp add: NamedCookieValue_def exampleSamlCtx_def SetCookie_def)

lemma example_parse: "ParseAssertion exampleSamlLib (sbProvider exampleBuilt) [] 120 ''xml'' '''' ''r1'' = (Inr exampleAssertion, [(exampleReplayKey, 390)])"
  unfolding exampleBuilt_def by code_simp

lemma example_acs:
  "ACS exampleSamlCookieLib exampleSamlLib exampleSamlRoutes exampleSamlCtx [] 120 ''okta'' \<lparr>sfSAMLResponse = ''xml'', sfRelayState = ''''\<rparr> =
     (Inr (''u1'', [ClearCookie exampleStateCookie]), [(exampleReplayKey, 390)])"
proof -
  have ok: "cookieLibOk exampleSamlCookieLib" by (simp add: exampleSamlCookieLib_def Let_def twoTokenLib_ok)
  have r: "swMakeRequest exampleWire (sbMetadata exampleBuilt) (pfACSURL (sbConfig exampleBuilt)) = Some ''r1''" by (simp add: exampleWire_def)
  have t: "120 < numericDate (100 + rcStateTTL (srCfg exampleSamlRoutes)) * 10 ^ 9" by (simp add: exampleSamlRoutes_def numericDate_def StateTTL_def)
  obtain claims where c: "readState exampleSamlCookieLib exampleSamlRoutes exampleSamlCtx 120 (pfID (sbConfig exampleBuilt)) = (claims, True)"
    "ssMode claims = ModeLink" "ssUserID claims = ''u1''" "ssRequestID claims = ''r1''"
    using link_cookie_verifies [OF ok example_link_start example_saml_provider r example_acs_cookie t] by blast
  have "ssUserID claims \<noteq> ''''" using c(3) by simp
  from ACS_link [OF example_saml_provider c(1,2) this, of exampleSamlLib "[]" "\<lparr>sfSAMLResponse = ''xml'', sfRelayState = ''''\<rparr>"]
  show ?thesis by (simp add: c(3,4) example_parse) (simp add: exampleSamlRoutes_def c(3) answerAssertion_def)
qed



end
