(* ===== verification/Multitenant_Store.thy ===== *)
theory Multitenant_Store
  imports Identity_Membership
begin

text \<open>
  The pooled example, \<^verbatim>\<open>examples/multitenant/store.go\<close>: a second, hand-written implementation of the \<^verbatim>\<open>identity\<close> store and membership
  ports. It keeps no email index but derives one from the rows, records the first-user signal, and can be told to fail its session
  reads. The function \<^verbatim>\<open>asMem\<close> reads it as a \<^verbatim>\<open>MemStore\<close>; each operation is shown to do there what the reference store does, and the
  contracts of the two ports follow.
\<close>

section \<open>State\<close>

record PooledMem =
  tmUsers :: "(string, User) go_map"
  tmSessions :: "(string, RefreshSession) go_map"
  tmByHash :: "(string, string) go_map"
  tmIdents :: "(string, Identity) go_map"
  tmBootstrapped :: "(string, bool) go_map"
  tmMemberships :: "(string, (ID, unit) go_map) go_map"
  tmSessionReadErr :: "ident_err option"

definition newTenantStore :: PooledMem where
  "newTenantStore = \<lparr>tmUsers = [], tmSessions = [], tmByHash = [], tmIdents = [], tmBootstrapped = [], tmMemberships = [],
     tmSessionReadErr = None\<rparr>"

definition indexKey :: "string \<Rightarrow> string \<Rightarrow> string" where
  "indexKey tenantID v = tenantID @ [CHR 0x00] @ v"

definition wasBootstrapped :: "PooledMem \<Rightarrow> string \<Rightarrow> bool" where
  "wasBootstrapped k userID = (case map_of (tmBootstrapped k) userID of None \<Rightarrow> False | Some b \<Rightarrow> b)"

section \<open>The tenant-scoped surface\<close>

definition ownEmail :: "ID \<Rightarrow> string \<Rightarrow> User \<Rightarrow> bool" where
  "ownEmail tenantID email u = (uTenantID u = IDString tenantID \<and> uEmail u = email)"

definition tsUserByEmail :: "PooledMem \<Rightarrow> ID \<Rightarrow> string \<Rightarrow> ident_err + User" where
  "tsUserByEmail k tenantID email =
     (case find (ownEmail tenantID email) (map snd (tmUsers k)) of None \<Rightarrow> Inl IErrNotFound | Some u \<Rightarrow> Inr u)"

definition tsIdentityByProviderSubject :: "PooledMem \<Rightarrow> ID \<Rightarrow> string \<Rightarrow> string \<Rightarrow> ident_err + Identity" where
  "tsIdentityByProviderSubject k tenantID provider subject =
     (case find (\<lambda>i. inTenantID i = IDString tenantID \<and> inProvider i = provider \<and> inSubject i = subject) (map snd (tmIdents k)) of
        None \<Rightarrow> Inl IErrNotFound
      | Some i \<Rightarrow> Inr i)"

definition tsCountUsers :: "PooledMem \<Rightarrow> ID \<Rightarrow> ident_err + int" where
  "tsCountUsers k tenantID = Inr (int (length (filter (\<lambda>u. uTenantID u = IDString tenantID) (map snd (tmUsers k)))))"

definition tsRevokeAllForTenant :: "PooledMem \<Rightarrow> ID \<Rightarrow> go_time \<Rightarrow> ident_err + PooledMem" where
  "tsRevokeAllForTenant k tenantID at =
     Inr (k\<lparr>tmSessions := map (\<lambda>(i, x). (i, if rsTenantID x = IDString tenantID \<and> \<not> Revoked x
                                              then x\<lparr>rsRevokedAt := at\<rparr> else x)) (tmSessions k)\<rparr>)"

section \<open>The base surface\<close>

definition emailIndexLocked :: "PooledMem \<Rightarrow> (string, string) go_map" where
  "emailIndexLocked k = map (\<lambda>(i, u). (indexKey (uTenantID u) (uEmail u), uID u)) (tmUsers k)"

definition tsUserOf :: "NewUser \<Rightarrow> User" where
  "tsUserOf u = \<lparr>uID = nuID u, uTenantID = nuTenantID u, uEmail = nuEmail u, uPasswordHash = nuPasswordHash u,
     uActive = True, uTOTPEnrolled = False, uCreatedAt = nuCreatedAt u\<rparr>"

definition tsCreateUser :: "PooledMem \<Rightarrow> NewUser \<Rightarrow> bool \<Rightarrow> ident_err + PooledMem" where
  "tsCreateUser k u firstUser =
     (if map_of (emailIndexLocked k) (indexKey (nuTenantID u) (nuEmail u)) \<noteq> None then Inl ErrEmailTaken
      else Inr (k\<lparr>tmUsers := AList.update (nuID u) (tsUserOf u) (tmUsers k),
                   tmBootstrapped := AList.update (nuID u) firstUser (tmBootstrapped k)\<rparr>))"

definition tsUserByID :: "PooledMem \<Rightarrow> string \<Rightarrow> ident_err + User" where
  "tsUserByID k i = (case map_of (tmUsers k) i of None \<Rightarrow> Inl IErrNotFound | Some u \<Rightarrow> Inr u)"

definition tsCreateRefreshSession :: "PooledMem \<Rightarrow> RefreshSession \<Rightarrow> ident_err + PooledMem" where
  "tsCreateRefreshSession k x =
     Inr (k\<lparr>tmSessions := AList.update (rsID x) x (tmSessions k), tmByHash := AList.update (rsTokenHash x) (rsID x) (tmByHash k)\<rparr>)"

definition tsRefreshSessionByHash :: "PooledMem \<Rightarrow> string \<Rightarrow> ident_err + RefreshSession" where
  "tsRefreshSessionByHash k h =
     (case tmSessionReadErr k of
        Some err \<Rightarrow> Inl err
      | None \<Rightarrow> (case map_of (tmByHash k) h of
          None \<Rightarrow> Inl IErrNotFound
        | Some i \<Rightarrow> Inr (case map_of (tmSessions k) i of None \<Rightarrow> zeroSession | Some x \<Rightarrow> x)))"

definition tsRevokeRefreshSession :: "PooledMem \<Rightarrow> string \<Rightarrow> go_time \<Rightarrow> ident_err + PooledMem" where
  "tsRevokeRefreshSession k i at =
     (case map_of (tmSessions k) i of
        None \<Rightarrow> Inr k
      | Some x \<Rightarrow> if \<not> Revoked x then Inr (k\<lparr>tmSessions := AList.update i (x\<lparr>rsRevokedAt := at\<rparr>) (tmSessions k)\<rparr>) else Inr k)"

definition tsRevokeAllForUser :: "PooledMem \<Rightarrow> string \<Rightarrow> go_time \<Rightarrow> ident_err + PooledMem" where
  "tsRevokeAllForUser k uid at =
     Inr (k\<lparr>tmSessions := map (\<lambda>(i, x). (i, if rsUserID x = uid \<and> \<not> Revoked x
                                              then x\<lparr>rsRevokedAt := at\<rparr> else x)) (tmSessions k)\<rparr>)"

definition tsIdentityByID :: "PooledMem \<Rightarrow> string \<Rightarrow> ident_err + Identity" where
  "tsIdentityByID k i = (case map_of (tmIdents k) i of None \<Rightarrow> Inl IErrNotFound | Some x \<Rightarrow> Inr x)"

text \<open>In the order the map is walked in, which Go leaves open; here it is the order of the entries.\<close>

definition tsIdentitiesByUserID :: "PooledMem \<Rightarrow> string \<Rightarrow> ident_err + Identity list" where
  "tsIdentitiesByUserID k uid = Inr (filter (\<lambda>i. inUserID i = uid) (map snd (tmIdents k)))"

definition tsIdentityTaken :: "PooledMem \<Rightarrow> NewIdentity \<Rightarrow> bool" where
  "tsIdentityTaken k ni =
     list_ex (\<lambda>i. inTenantID i = niTenantID ni \<and> inProvider i = niProvider ni \<and> inSubject i = niSubject ni) (map snd (tmIdents k))"

definition tsIdentityOf :: "NewIdentity \<Rightarrow> Identity" where
  "tsIdentityOf ni = \<lparr>inID = niID ni, inUserID = niUserID ni, inTenantID = niTenantID ni, inProvider = niProvider ni,
     inSubject = niSubject ni, inLinkedAt = niLinkedAt ni, inLastLoginAt = niLastLoginAt ni\<rparr>"

definition tsInsertIdentity :: "PooledMem \<Rightarrow> NewIdentity \<Rightarrow> ident_err + PooledMem" where
  "tsInsertIdentity k ni =
     (if tsIdentityTaken k ni then Inl ErrIdentityTaken
      else Inr (k\<lparr>tmIdents := AList.update (niID ni) (tsIdentityOf ni) (tmIdents k)\<rparr>))"

definition tsTouchIdentityLastLogin :: "PooledMem \<Rightarrow> string \<Rightarrow> go_time \<Rightarrow> ident_err + PooledMem" where
  "tsTouchIdentityLastLogin k i at =
     (case map_of (tmIdents k) i of
        None \<Rightarrow> Inl IErrNotFound
      | Some x \<Rightarrow> Inr (k\<lparr>tmIdents := AList.update i (x\<lparr>inLastLoginAt := Some at\<rparr>) (tmIdents k)\<rparr>))"

definition tsDeleteIdentity :: "PooledMem \<Rightarrow> string \<Rightarrow> ident_err + PooledMem" where
  "tsDeleteIdentity k i = Inr (k\<lparr>tmIdents := AList.delete i (tmIdents k)\<rparr>)"

definition tsCountIdentitiesByUserID :: "PooledMem \<Rightarrow> string \<Rightarrow> ident_err + int" where
  "tsCountIdentitiesByUserID k uid = Inr (int (length (filter (\<lambda>i. inUserID i = uid) (map snd (tmIdents k)))))"

definition tsProvisionUserWithIdentity :: "PooledMem \<Rightarrow> NewUser \<Rightarrow> NewIdentity \<Rightarrow> bool
    \<Rightarrow> ident_err + PooledMem \<times> User \<times> Identity" where
  "tsProvisionUserWithIdentity k u ni firstUser =
     (if map_of (emailIndexLocked k) (indexKey (nuTenantID u) (nuEmail u)) \<noteq> None then Inl ErrEmailTaken
      else if tsIdentityTaken k ni then Inl ErrIdentityTaken
      else Inr (k\<lparr>tmUsers := AList.update (nuID u) (tsUserOf u) (tmUsers k),
                   tmIdents := AList.update (niID ni) (tsIdentityOf ni) (tmIdents k),
                   tmBootstrapped := AList.update (nuID u) firstUser (tmBootstrapped k)\<rparr>,
                tsUserOf u, tsIdentityOf ni))"

text \<open>The second factor is not exercised by the example: its state is always the zero one and its writes do nothing.\<close>

definition tsTOTPState :: "PooledMem \<Rightarrow> string \<Rightarrow> ident_err + TOTPState" where
  "tsTOTPState k uid = (if map_of (tmUsers k) uid = None then Inl IErrNotFound else Inr zeroTOTPState)"

definition tsSetTOTPPending :: "PooledMem \<Rightarrow> string \<Rightarrow> byte list \<Rightarrow> string list \<Rightarrow> ident_err + PooledMem" where
  "tsSetTOTPPending k uid envelope hashes = Inr k"

definition tsEnableTOTP :: "PooledMem \<Rightarrow> string \<Rightarrow> byte list \<Rightarrow> string list \<Rightarrow> go_time \<Rightarrow> ident_err + PooledMem" where
  "tsEnableTOTP k uid envelope hashes at = Inr k"

definition tsSetRecoveryCodeHashes :: "PooledMem \<Rightarrow> string \<Rightarrow> string list \<Rightarrow> ident_err + PooledMem" where
  "tsSetRecoveryCodeHashes k uid hashes = Inr k"

definition tsClearTOTP :: "PooledMem \<Rightarrow> string \<Rightarrow> ident_err + PooledMem" where
  "tsClearTOTP k uid = Inr k"

section \<open>Memberships and the ports\<close>

definition tsMembersOf :: "PooledMem \<Rightarrow> string \<Rightarrow> (ID, unit) go_map" where
  "tsMembersOf k userID = (case map_of (tmMemberships k) userID of None \<Rightarrow> [] | Some ts \<Rightarrow> ts)"

definition grantMembership :: "PooledMem \<Rightarrow> string \<Rightarrow> ID \<Rightarrow> PooledMem" where
  "grantMembership k userID tenantID =
     k\<lparr>tmMemberships := AList.update userID (AList.update tenantID () (tsMembersOf k userID)) (tmMemberships k)\<rparr>"

definition revokeMembership :: "PooledMem \<Rightarrow> string \<Rightarrow> ID \<Rightarrow> PooledMem" where
  "revokeMembership k userID tenantID =
     (case map_of (tmMemberships k) userID of
        None \<Rightarrow> k
      | Some ts \<Rightarrow> k\<lparr>tmMemberships := AList.update userID (AList.delete tenantID ts) (tmMemberships k)\<rparr>)"

definition tsIsMember :: "PooledMem \<Rightarrow> string \<Rightarrow> ID \<Rightarrow> ident_err + bool" where
  "tsIsMember k userID tenantID = Inr (map_of (tsMembersOf k userID) tenantID \<noteq> None)"

definition tsMembershipsFor :: "PooledMem \<Rightarrow> string \<Rightarrow> ident_err + ID list" where
  "tsMembershipsFor k userID = Inr (map fst (tsMembersOf k userID))"

definition failSessionReads :: "PooledMem \<Rightarrow> ident_err option \<Rightarrow> PooledMem" where
  "failSessionReads k err = k\<lparr>tmSessionReadErr := err\<rparr>"

definition tenantStore :: "PooledMem Store" where
  "tenantStore = \<lparr>stCreateUser = tsCreateUser, stUserByID = tsUserByID, stUserByEmail = tsUserByEmail,
     stCountUsers = tsCountUsers, stRevokeAllForTenant = tsRevokeAllForTenant,
     stCreateRefreshSession = tsCreateRefreshSession, stRefreshSessionByHash = tsRefreshSessionByHash,
     stRevokeRefreshSession = tsRevokeRefreshSession, stRevokeAllForUser = tsRevokeAllForUser,
     stTOTPState = tsTOTPState, stSetTOTPPending = tsSetTOTPPending, stEnableTOTP = tsEnableTOTP,
     stSetRecoveryCodeHashes = tsSetRecoveryCodeHashes, stClearTOTP = tsClearTOTP,
     stIdentityByProviderSubject = tsIdentityByProviderSubject, stIdentityByID = tsIdentityByID,
     stIdentitiesByUserID = tsIdentitiesByUserID, stInsertIdentity = tsInsertIdentity,
     stTouchIdentityLastLogin = tsTouchIdentityLastLogin, stDeleteIdentity = tsDeleteIdentity,
     stCountIdentitiesByUserID = tsCountIdentitiesByUserID,
     stProvisionUserWithIdentity = tsProvisionUserWithIdentity\<rparr>"

definition tenantMemberships :: "PooledMem MembershipStore" where
  "tenantMemberships = \<lparr>msIsMember = tsIsMember, msMembershipsFor = tsMembershipsFor\<rparr>"

section \<open>The reading as a reference store\<close>

definition asMem :: "PooledMem \<Rightarrow> IdentMem" where
  "asMem k = \<lparr>usersByID = tmUsers k, emailToID = emailIndexLocked k, sessions = tmSessions k, hashToID = tmByHash k, totp = [],
     identities = tmIdents k, invitations = [], invHashToID = [], memberships = tmMemberships k\<rparr>"

definition tenantMemOk :: "PooledMem \<Rightarrow> bool" where
  "tenantMemOk k \<longleftrightarrow> identMemOk (asMem k) \<and> tmSessionReadErr k = None"

lemma asMem_simps [simp]:
  "usersByID (asMem k) = tmUsers k" "emailToID (asMem k) = emailIndexLocked k" "sessions (asMem k) = tmSessions k"
  "hashToID (asMem k) = tmByHash k" "identities (asMem k) = tmIdents k" "memberships (asMem k) = tmMemberships k"
  by (simp_all add: asMem_def)

lemma indexKey_tenantKey: "indexKey = tenantKey"
  by (simp add: fun_eq_iff indexKey_def tenantKey_def)

lemma tsUserOf_userOf: "tsUserOf = userOf"
  by (simp add: fun_eq_iff tsUserOf_def userOf_def)

lemma tsIdentityOf_identityOf: "tsIdentityOf = identityOf"
  by (simp add: fun_eq_iff tsIdentityOf_def identityOf_def)

lemma tsIdentityTaken_mem: "tsIdentityTaken k = identityTaken (asMem k)"
  by (simp add: fun_eq_iff tsIdentityTaken_def identityTaken_def matchesIdentity_def [abs_def])

lemmas same_rows = indexKey_tenantKey tsUserOf_userOf tsIdentityOf_identityOf tsIdentityTaken_mem

text \<open>A new row goes to the end of the derived index, where the reference store's index grows too.\<close>

lemma update_new: "map_of xs i = None \<Longrightarrow> AList.update i v xs = xs @ [(i, v)]"
  by (induction xs) (auto split: if_splits)

lemma emailIndex_insert:
  assumes "map_of (tmUsers k) (nuID u) = None" "map_of (emailIndexLocked k) (tenantKey (nuTenantID u) (nuEmail u)) = None"
  shows "emailIndexLocked (k\<lparr>tmUsers := AList.update (nuID u) (userOf u) (tmUsers k), tmBootstrapped := b\<rparr>) =
    AList.update (tenantKey (nuTenantID u) (nuEmail u)) (nuID u) (emailIndexLocked k)"
  using assms by (simp add: update_new) (simp add: emailIndexLocked_def same_rows)

lemma find_unique:
  assumes "x \<in> set xs" "P x" "\<And>y. y \<in> set xs \<Longrightarrow> P y \<Longrightarrow> y = x"
  shows "find P xs = Some x"
proof -
  obtain y where y: "find P xs = Some y" using assms(1,2) by (cases "find P xs") (auto simp: find_None_iff)
  then have "y \<in> set xs" "P y" by (auto simp: find_Some_iff)
  with y assms(3) show ?thesis by blast
qed

lemma emailIndex_same [simp]:
  "emailIndexLocked (k\<lparr>tmSessions := ss\<rparr>) = emailIndexLocked k"
  "emailIndexLocked (k\<lparr>tmSessions := ss, tmByHash := hs\<rparr>) = emailIndexLocked k"
  "emailIndexLocked (k\<lparr>tmIdents := xs\<rparr>) = emailIndexLocked k"
  "emailIndexLocked (k\<lparr>tmMemberships := ms\<rparr>) = emailIndexLocked k"
  "emailIndexLocked (k\<lparr>tmUsers := us, tmIdents := xs, tmBootstrapped := bs\<rparr>) = emailIndexLocked (k\<lparr>tmUsers := us, tmBootstrapped := bs\<rparr>)"
  by (simp_all add: emailIndexLocked_def)

abbreviation asMemR :: "ident_err + PooledMem \<Rightarrow> ident_err + IdentMem" where
  "asMemR \<equiv> map_sum id asMem"

lemma tsUserByEmail_mem:
  assumes ok: "identMemOk (asMem k)" and e: "nulFree e"
  shows "tsUserByEmail k t e = memUserByEmail (asMem k) t e"
proof (cases "memUserByEmail (asMem k) t e")
  case (Inl err)
  then have n: "map_of (emailIndexLocked k) (tenantKey (IDString t) e) = None"
    by (auto simp: memUserByEmail_def split: option.splits)
  have "\<not> ownEmail t e u" if "u \<in> set (map snd (tmUsers k))" for u
  proof
    assume "ownEmail t e u"
    then have "(tenantKey (IDString t) e, uID u) \<in> set (emailIndexLocked k)"
      using that by (force simp: emailIndexLocked_def ownEmail_def same_rows)
    with n show False by (metis map_of_eq_None_iff fst_conv imageI)
  qed
  then have "tsUserByEmail k t e = Inl IErrNotFound"
    by (auto simp: tsUserByEmail_def find_None_iff split: option.split)
  with Inl n show ?thesis by (simp add: memUserByEmail_def)
next
  case (Inr u)
  note s = memUserByEmail_scoped [OF ok e Inr]
  from s have u: "map_of (tmUsers k) (uID u) = Some u" by (auto simp: memUserByID_def split: option.splits)
  have "find (ownEmail t e) (map snd (tmUsers k)) = Some u"
  proof (rule find_unique)
    show "u \<in> set (map snd (tmUsers k))" using u by (rule map_of_in_snd)
    show "ownEmail t e u" using s by (simp add: ownEmail_def)
    fix v assume v: "v \<in> set (map snd (tmUsers k))" "ownEmail t e v"
    have "distinct (map fst (tmUsers k))" using ok by (simp add: identMemOk_def usersOk_def indexOk_def)
    then have "\<exists>i. map_of (tmUsers k) i = Some v" by (rule in_snd_map_of [OF _ v(1)])
    then obtain i where i: "map_of (tmUsers k) i = Some v" ..
    have "uTenantID v = uTenantID u" "uEmail v = uEmail u" using v(2) s by (simp_all add: ownEmail_def)
    moreover have "map_of (emailIndexLocked k) (tenantKey (uTenantID v) (uEmail v)) = Some i"
      using memOk_user [OF ok, of i v] i by simp
    moreover have "map_of (emailIndexLocked k) (tenantKey (uTenantID u) (uEmail u)) = Some (uID u)"
      using memOk_user [OF ok, of "uID u" u] u by simp
    ultimately have "i = uID u" by (metis option.inject)
    with i u show "v = u" by simp
  qed
  with Inr show ?thesis by (simp add: tsUserByEmail_def)
qed

lemma tsCreateUser_mem:
  assumes "map_of (tmUsers k) (nuID u) = None"
  shows "asMemR (tsCreateUser k u f) = memCreateUser (asMem k) u f"
  using emailIndex_insert [OF assms] by (auto simp: tsCreateUser_def memCreateUser_def same_rows asMem_def)

lemma tsProvision_mem:
  assumes "map_of (tmUsers k) (nuID u) = None"
  shows "map_sum id (map_prod asMem id) (tsProvisionUserWithIdentity k u ni f) = memProvisionUserWithIdentity (asMem k) u ni f"
  using emailIndex_insert [OF assms] by (auto simp: tsProvisionUserWithIdentity_def memProvisionUserWithIdentity_def same_rows asMem_def)

lemma ts_sessions_mem:
  "asMemR (tsRevokeAllForTenant k t at) = memRevokeAllForTenant (asMem k) t at"
  "asMemR (tsCreateRefreshSession k r) = memCreateRefreshSession (asMem k) r"
  "asMemR (tsRevokeRefreshSession k i at) = memRevokeRefreshSession (asMem k) i at"
  "asMemR (tsRevokeAllForUser k i at) = memRevokeAllForUser (asMem k) i at"
  "tmSessionReadErr k = None \<Longrightarrow> tsRefreshSessionByHash k h = memRefreshSessionByHash (asMem k) h"
  by (simp_all add: tsRevokeAllForTenant_def memRevokeAllForTenant_def tsCreateRefreshSession_def memCreateRefreshSession_def
      tsRevokeRefreshSession_def memRevokeRefreshSession_def tsRevokeAllForUser_def memRevokeAllForUser_def
      tsRefreshSessionByHash_def memRefreshSessionByHash_def asMem_def split: option.split)

lemma ts_idents_mem:
  "tsIdentityByProviderSubject k t p s = memIdentityByProviderSubject (asMem k) t p s"
  "tsIdentityByID k i = memIdentityByID (asMem k) i"
  "asMemR (tsInsertIdentity k ni) = memInsertIdentity (asMem k) ni"
  "asMemR (tsTouchIdentityLastLogin k i at) = memTouchIdentityLastLogin (asMem k) i at"
  "asMemR (tsDeleteIdentity k i) = memDeleteIdentity (asMem k) i"
  "tsCountIdentitiesByUserID k uid = memCountIdentitiesByUserID (asMem k) uid"
  by (simp_all add: tsIdentityByProviderSubject_def memIdentityByProviderSubject_def matchesIdentity_def [abs_def]
      tsIdentityByID_def memIdentityByID_def tsInsertIdentity_def memInsertIdentity_def tsTouchIdentityLastLogin_def
      memTouchIdentityLastLogin_def tsDeleteIdentity_def memDeleteIdentity_def tsCountIdentitiesByUserID_def
      memCountIdentitiesByUserID_def same_rows) (simp_all add: asMem_def split: option.split)

lemma ts_members_mem:
  "tsMembersOf k i = membersOf (asMem k) i" "tsIsMember k i t = memIsMember (asMem k) i t" "tsMembershipsFor k i = memMembershipsFor (asMem k) i"
  "asMem (grantMembership k i t) = AddMembership (asMem k) i t" "asMem (revokeMembership k i t) = RemoveMembership (asMem k) i t"
  by (simp_all add: tsMembersOf_def membersOf_def tsIsMember_def memIsMember_def tsMembershipsFor_def memMembershipsFor_def
      grantMembership_def AddMembership_def revokeMembership_def RemoveMembership_def asMem_def split: option.split)

lemma ts_users_mem: "tsUserByID k i = memUserByID (asMem k) i" "tsCountUsers k t = memCountUsers (asMem k) t"
  by (simp_all add: tsUserByID_def memUserByID_def tsCountUsers_def memCountUsers_def)

lemma tsIdentitiesByUserID_mem:
  "\<exists>xs. tsIdentitiesByUserID k i = Inr xs \<and> memIdentitiesByUserID (asMem k) i = Inr (sort_key inLinkedAt xs)"
  by (simp add: tsIdentitiesByUserID_def memIdentitiesByUserID_def)

section \<open>Reachable states\<close>

text \<open>The mutations of the store, under the same provisos on new ids and emails as for the reference store.\<close>

inductive tenantReach :: "PooledMem \<Rightarrow> bool" where
  init: "tenantReach newTenantStore"
| create: "tenantReach k \<Longrightarrow> map_of (tmUsers k) (nuID u) = None \<Longrightarrow> nulFree (nuEmail u) \<Longrightarrow>
    tsCreateUser k u f = Inr k' \<Longrightarrow> tenantReach k'"
| revokeTenant: "tenantReach k \<Longrightarrow> tsRevokeAllForTenant k t at = Inr k' \<Longrightarrow> tenantReach k'"
| newSession: "tenantReach k \<Longrightarrow> map_of (tmSessions k) (rsID r) = None \<Longrightarrow>
    map_of (tmByHash k) (rsTokenHash r) = None \<Longrightarrow> tsCreateRefreshSession k r = Inr k' \<Longrightarrow> tenantReach k'"
| revoke: "tenantReach k \<Longrightarrow> tsRevokeRefreshSession k i at = Inr k' \<Longrightarrow> tenantReach k'"
| revokeUser: "tenantReach k \<Longrightarrow> tsRevokeAllForUser k i at = Inr k' \<Longrightarrow> tenantReach k'"
| totpPending: "tenantReach k \<Longrightarrow> tsSetTOTPPending k i e hs = Inr k' \<Longrightarrow> tenantReach k'"
| totpEnable: "tenantReach k \<Longrightarrow> tsEnableTOTP k i e hs at = Inr k' \<Longrightarrow> tenantReach k'"
| recovery: "tenantReach k \<Longrightarrow> tsSetRecoveryCodeHashes k i hs = Inr k' \<Longrightarrow> tenantReach k'"
| totpClear: "tenantReach k \<Longrightarrow> tsClearTOTP k i = Inr k' \<Longrightarrow> tenantReach k'"
| link: "tenantReach k \<Longrightarrow> map_of (tmIdents k) (niID ni) = None \<Longrightarrow> tsInsertIdentity k ni = Inr k' \<Longrightarrow> tenantReach k'"
| touch: "tenantReach k \<Longrightarrow> tsTouchIdentityLastLogin k i at = Inr k' \<Longrightarrow> tenantReach k'"
| unlink: "tenantReach k \<Longrightarrow> tsDeleteIdentity k i = Inr k' \<Longrightarrow> tenantReach k'"
| provision: "tenantReach k \<Longrightarrow> map_of (tmUsers k) (nuID u) = None \<Longrightarrow> nulFree (nuEmail u) \<Longrightarrow>
    map_of (tmIdents k) (niID ni) = None \<Longrightarrow> tsProvisionUserWithIdentity k u ni f = Inr (k', x) \<Longrightarrow> tenantReach k'"
| grant: "tenantReach k \<Longrightarrow> tenantReach (grantMembership k i t)"
| ungrant: "tenantReach k \<Longrightarrow> tenantReach (revokeMembership k i t)"
| failReads: "tenantReach k \<Longrightarrow> tenantReach (failSessionReads k err)"

lemma asMem_Inr: "r = Inr k' \<Longrightarrow> asMemR r = q \<Longrightarrow> q = Inr (asMem k')"
  by auto

text \<open>Every mutation is one of the reference store, or leaves the reading as it is.\<close>

lemma tenantReach_simulated: "tenantReach k \<Longrightarrow> identReach (asMem k)"
proof (induction rule: tenantReach.induct)
  case init
  then show ?case using identReach.init by (simp add: newTenantStore_def asMem_def emailIndexLocked_def NewIdentMem_def)
next
  case (create k u f k')
  from identReach.create [OF create.IH _ create.hyps(3) asMem_Inr [OF create.hyps(4) tsCreateUser_mem]] create.hyps(2)
  show ?case by simp
next
  case (revokeTenant k t at k')
  from identReach.revokeTenant [OF revokeTenant.IH asMem_Inr [OF revokeTenant.hyps(2) ts_sessions_mem(1)]] show ?case .
next
  case (newSession k r k')
  from identReach.newSession [OF newSession.IH _ _ asMem_Inr [OF newSession.hyps(4) ts_sessions_mem(2)]] newSession.hyps(2,3)
  show ?case by simp
next
  case (revoke k i at k')
  from identReach.revoke [OF revoke.IH asMem_Inr [OF revoke.hyps(2) ts_sessions_mem(3)]] show ?case .
next
  case (revokeUser k i at k')
  from identReach.revokeUser [OF revokeUser.IH asMem_Inr [OF revokeUser.hyps(2) ts_sessions_mem(4)]] show ?case .
next
  case (link k ni k')
  from identReach.link [OF link.IH _ asMem_Inr [OF link.hyps(3) ts_idents_mem(3)]] link.hyps(2) show ?case by simp
next
  case (touch k i at k')
  from identReach.touch [OF touch.IH asMem_Inr [OF touch.hyps(2) ts_idents_mem(4)]] show ?case .
next
  case (unlink k i k')
  from identReach.unlink [OF unlink.IH asMem_Inr [OF unlink.hyps(2) ts_idents_mem(5)]] show ?case .
next
  case (provision k u ni f k' x)
  have "memProvisionUserWithIdentity (asMem k) u ni f = Inr (asMem k', x)"
    using tsProvision_mem [OF provision.hyps(2), of ni f] provision.hyps(5) by simp
  from identReach.provision [OF provision.IH _ provision.hyps(3) _ this] provision.hyps(2,4) show ?case by simp
next
  case (grant k i t)
  then show ?case using identReach.addMember by (simp add: ts_members_mem)
next
  case (ungrant k i t)
  then show ?case using identReach.removeMember by (simp add: ts_members_mem)
next
  case (failReads k err)
  then show ?case by (simp add: failSessionReads_def asMem_def emailIndexLocked_def)
qed (simp_all add: tsSetTOTPPending_def tsEnableTOTP_def tsSetRecoveryCodeHashes_def tsClearTOTP_def)

lemma tenantReach_ok: "tenantReach k \<Longrightarrow> tmSessionReadErr k = None \<Longrightarrow> tenantMemOk k"
  by (simp add: tenantMemOk_def tenantReach_simulated identReach_ok)

section \<open>The contracts\<close>

lemma ts_readErr_kept:
  "tsCreateUser k n f = Inr k' \<Longrightarrow> tmSessionReadErr k' = tmSessionReadErr k"
  "tsCreateRefreshSession k r = Inr k' \<Longrightarrow> tmSessionReadErr k' = tmSessionReadErr k"
  "tsRevokeRefreshSession k i at = Inr k' \<Longrightarrow> tmSessionReadErr k' = tmSessionReadErr k"
  by (auto simp: tsCreateUser_def tsCreateRefreshSession_def tsRevokeRefreshSession_def split: if_splits option.splits)

lemma ts_reads_mem:
  "tsUserByID k = memUserByID (asMem k)"
  "tmSessionReadErr k = None \<Longrightarrow> tsRefreshSessionByHash k = memRefreshSessionByHash (asMem k)"
  by (simp_all add: fun_eq_iff ts_users_mem ts_sessions_mem)

lemmas mem_store_sels = memStore_def Store.simps
lemmas tenant_store_sels = tenantStore_def Store.simps

interpretation pooled_identity: identity_store tenantStore tenantMemOk
proof (unfold_locales, goal_cases)
  case (1 k i u)
  then show ?case
    using mem_identity.user_self [of "asMem k" i u] by (simp add: mem_store_sels tenant_store_sels tenantMemOk_def ts_reads_mem)
next
  case (2 k e t u)
  then show ?case
    using mem_identity.email_scoped [of "asMem k" e t u]
    by (simp add: mem_store_sels tenant_store_sels tenantMemOk_def ts_reads_mem tsUserByEmail_mem)
next
  case (3 k i u)
  then have ok: "identMemOk (asMem k)" and u: "memUserByID (asMem k) i = Inr u"
    by (simp_all add: tenant_store_sels tenantMemOk_def ts_reads_mem)
  then have "nulFree (uEmail u)" using memOk_user [OF ok] by (auto simp: memUserByID_def split: option.splits)
  with ok u show ?case
    using mem_identity.email_complete [of "asMem k" i u] by (simp add: mem_store_sels tenant_store_sels tsUserByEmail_mem)
next
  case (4 k n f k')
  then have ok: "identMemOk (asMem k)" "tmSessionReadErr k = None" and new: "map_of (tmUsers k) (nuID n) = None"
    and c: "tsCreateUser k n f = Inr k'"
    by (auto simp: tenant_store_sels tenantMemOk_def tsUserByID_def split: option.splits)
  have m: "memCreateUser (asMem k) n f = Inr (asMem k')" by (rule asMem_Inr [OF c tsCreateUser_mem [OF new]])
  have "memUserByID (asMem k) (nuID n) = Inl IErrNotFound" using new by (simp add: memUserByID_def)
  with mem_identity.create_ok [of "asMem k" n f "asMem k'"] ok(1) 4(3) m
  have "identMemOk (asMem k') \<and> memUserByID (asMem k') = (memUserByID (asMem k))(nuID n := Inr (userOf n)) \<and>
      memRefreshSessionByHash (asMem k') = memRefreshSessionByHash (asMem k)"
    by (simp add: mem_store_sels)
  with ok(2) ts_readErr_kept(1) [OF c] show ?case by (simp add: tenant_store_sels tenantMemOk_def ts_reads_mem)
next
  case (5 k n f)
  then have ok: "identMemOk (asMem k)" by (simp add: tenantMemOk_def)
  have "tsCreateUser k n f = Inl ErrEmailTaken \<longleftrightarrow> memCreateUser (asMem k) n f = Inl ErrEmailTaken"
    by (simp add: tsCreateUser_def memCreateUser_def same_rows)
  with mem_identity.create_taken [OF ok 5(2), of f] show ?case
    by (simp add: mem_store_sels tenant_store_sels tsUserByEmail_mem [OF ok 5(2)])
next
  case (6 k h r)
  then show ?case
    using mem_identity.session_self [of "asMem k" h r] by (simp add: mem_store_sels tenant_store_sels tenantMemOk_def ts_reads_mem)
next
  case (7 k r k')
  then have ok: "identMemOk (asMem k)" "tmSessionReadErr k = None" and c: "tsCreateRefreshSession k r = Inr k'"
    by (simp_all add: tenant_store_sels tenantMemOk_def)
  have m: "memCreateRefreshSession (asMem k) r = Inr (asMem k')" by (rule asMem_Inr [OF c ts_sessions_mem(2)])
  from mem_identity.session_created [of "asMem k" r "asMem k'"] 7(2,3) ok m
  have "identMemOk (asMem k') \<and> memRefreshSessionByHash (asMem k') = (memRefreshSessionByHash (asMem k))(rsTokenHash r := Inr r) \<and>
      memUserByID (asMem k') = memUserByID (asMem k)"
    by (simp add: mem_store_sels tenant_store_sels ts_reads_mem)
  with ok(2) ts_readErr_kept(2) [OF c] show ?case by (simp add: tenant_store_sels tenantMemOk_def ts_reads_mem)
next
  case (8 k h r at k')
  then have ok: "identMemOk (asMem k)" "tmSessionReadErr k = None" and c: "tsRevokeRefreshSession k (rsID r) at = Inr k'"
    by (simp_all add: tenant_store_sels tenantMemOk_def)
  have m: "memRevokeRefreshSession (asMem k) (rsID r) at = Inr (asMem k')" by (rule asMem_Inr [OF c ts_sessions_mem(3)])
  from mem_identity.session_revoked [of "asMem k" h r at "asMem k'"] 8(2) ok m
  have "identMemOk (asMem k') \<and> memRefreshSessionByHash (asMem k') = (memRefreshSessionByHash (asMem k))
      (h := Inr (if Revoked r then r else r\<lparr>rsRevokedAt := at\<rparr>)) \<and> memUserByID (asMem k') = memUserByID (asMem k)"
    by (simp add: mem_store_sels tenant_store_sels ts_reads_mem)
  with ok(2) ts_readErr_kept(3) [OF c] show ?case by (simp add: tenant_store_sels tenantMemOk_def ts_reads_mem)
qed

interpretation pooled_membership: membership_store tenantMemberships
proof (unfold_locales, goal_cases)
  case (1 k u ts t)
  then show ?case
    using mem_membership.member_listed [of "asMem k" u ts t]
    by (simp add: tenantMemberships_def memMembershipStore_def ts_members_mem)
qed

section \<open>Properties\<close>


definition exampleAcme :: NewUser where
  "exampleAcme = \<lparr>nuID = ''u'', nuTenantID = ''acme'', nuEmail = ''ann@x.io'', nuPasswordHash = ''h'', nuCreatedAt = 5\<rparr>"

definition examplePooled :: PooledMem where
  "examplePooled = newTenantStore\<lparr>tmUsers := [(''u'', userOf exampleAcme)], tmBootstrapped := [(''u'', True)]\<rparr>"

lemma examplePooled_reach: "tenantReach examplePooled"
  by (rule tenantReach.create [OF tenantReach.init, of exampleAcme True])
    (simp_all add: newTenantStore_def exampleAcme_def nulFree_def tsCreateUser_def emailIndexLocked_def examplePooled_def same_rows)


text \<open>The port asks for the oldest link first; this store lists a user's links in whatever order its map has them.\<close>

lemma links_unordered:
  "tsIdentitiesByUserID (newTenantStore\<lparr>tmIdents :=
      [(''a'', \<lparr>inID = ''a'', inUserID = ''u'', inTenantID = ''t'', inProvider = ''p'', inSubject = ''1'', inLinkedAt = 9, inLastLoginAt = None\<rparr>),
       (''b'', \<lparr>inID = ''b'', inUserID = ''u'', inTenantID = ''t'', inProvider = ''q'', inSubject = ''1'', inLinkedAt = 2, inLastLoginAt = None\<rparr>)]\<rparr>) ''u'' =
   Inr xs \<Longrightarrow> map inLinkedAt xs = [9, 2]"
  by (auto simp: tsIdentitiesByUserID_def newTenantStore_def)

end
