(* ===== verification/Espresso_Auth.thy ===== *)
theory Espresso_Auth
  imports Espresso_Federation Identity_Totp
begin

text \<open>
  Package \<^verbatim>\<open>espresso\<close>, the password routes (\<^verbatim>\<open>authroutes.go\<close>, with the requests, answers and error codes of \<^verbatim>\<open>wire.go\<close>):
  register, login, me, the two legs of a second factor, refresh and logout. The port the routes drive is a record of functions
  over its state; an error of the port is the list of the sentinels \<^verbatim>\<open>errors.Is\<close> finds in it, since an implementation may
  wrap several. A handler returns the port's state, the request context after the application's hooks, and its answer: an
  envelope or an error, and \<^verbatim>\<open>None\<close> is a panic. Error messages, and so \<^verbatim>\<open>ValidationMessage\<close>, are not part of the model.
\<close>

section \<open>The port\<close>

type_synonym svc_error = "ident_err list"

record AuthResult =
  auUser :: "User option"
  auTokens :: Tokens

definition noTokens :: Tokens where
  "noTokens = \<lparr>tkAccess = '''', tkRefresh = '''', tkRefreshExpiresAt = 0\<rparr>"

definition zeroAuthResult :: AuthResult where
  "zeroAuthResult = \<lparr>auUser = None, auTokens = noTokens\<rparr>"

record EnrollmentMaterial =
  emOTPAuthURI :: string
  emRecoveryCodes :: "string list"

record 's IdentityService =
  svRegister :: "'s \<Rightarrow> ID \<Rightarrow> string \<Rightarrow> string \<Rightarrow> 's \<times> (svc_error + AuthResult)"
  svLogin :: "'s \<Rightarrow> ID \<Rightarrow> string \<Rightarrow> string \<Rightarrow> 's \<times> AuthResult \<times> svc_error option"
  svMe :: "'s \<Rightarrow> ID \<Rightarrow> string \<Rightarrow> svc_error + User option"
  svRefresh :: "'s \<Rightarrow> ID \<Rightarrow> string \<Rightarrow> 's \<times> (svc_error + AuthResult)"
  svLogout :: "'s \<Rightarrow> ID \<Rightarrow> string \<Rightarrow> 's \<times> svc_error option"
  svIssueTOTPPending :: "'s \<Rightarrow> ID \<Rightarrow> string \<Rightarrow> svc_error + string"
  svVerifyTOTPPending :: "'s \<Rightarrow> ID \<Rightarrow> string \<Rightarrow> svc_error + string"
  svVerifyTOTP :: "'s \<Rightarrow> ID \<Rightarrow> string \<Rightarrow> string \<Rightarrow> 's \<times> svc_error option"
  svVerifyRecoveryCode :: "'s \<Rightarrow> ID \<Rightarrow> string \<Rightarrow> string \<Rightarrow> 's \<times> svc_error option"
  svIssueTokensForUser :: "'s \<Rightarrow> ID \<Rightarrow> string \<Rightarrow> 's \<times> (svc_error + AuthResult)"
  svEnrollTOTP :: "'s \<Rightarrow> ID \<Rightarrow> string \<Rightarrow> 's \<times> (svc_error + EnrollmentMaterial)"
  svDisableTOTP :: "'s \<Rightarrow> ID \<Rightarrow> string \<Rightarrow> string \<Rightarrow> 's \<times> svc_error option"
  svEnrollTOTPViaSession :: "'s \<Rightarrow> ID \<Rightarrow> string \<Rightarrow> string \<Rightarrow> 's \<times> (svc_error + EnrollmentMaterial option \<times> AuthResult option)"

section \<open>Configuration\<close>

record AuthRoutesConfig =
  acMountPrefix :: string
  acTenant :: "(request_ctx \<Rightarrow> ID \<times> bool) option"
  acCookies :: CookieConfig
  acProjectUser :: "(request_ctx \<Rightarrow> User option \<Rightarrow> string) option"
  acOnAuthenticated :: "(request_ctx \<Rightarrow> Actor \<Rightarrow> request_ctx) option"
  acOnTOTPEnrolledViaSession :: "(request_ctx \<Rightarrow> string \<Rightarrow> request_ctx) option"

record 's AuthRoutes =
  arSvc :: "'s IdentityService"
  arMountPrefix :: string
  arTenant :: "request_ctx \<Rightarrow> ID \<times> bool"
  arCookies :: CookieConfig
  arProjectUser :: "request_ctx \<Rightarrow> User option \<Rightarrow> string"
  arOnAuthenticated :: "request_ctx \<Rightarrow> Actor \<Rightarrow> request_ctx"
  arOnTOTPEnrolledViaSession :: "(request_ctx \<Rightarrow> string \<Rightarrow> request_ctx) option"

definition NewAuthRoutes :: "'s IdentityService option \<Rightarrow> AuthRoutesConfig \<Rightarrow> string + 's AuthRoutes" where
  "NewAuthRoutes svc cfg =
     (case svc of
        None \<Rightarrow> Inl ''auth routes require an IdentityService''
      | Some port \<Rightarrow>
          if \<not> hasPrefix (acMountPrefix cfg) ''/'' \<or> hasSuffix (acMountPrefix cfg) ''/'' then Inl ''MountPrefix must start with / and not end with one''
          else if ccName (acCookies cfg) = '''' then Inl ''refresh cookie name is required''
          else (case acProjectUser cfg of
              None \<Rightarrow> Inl ''ProjectUser hook is required''
            | Some project \<Rightarrow> (case acTenant cfg of
                None \<Rightarrow> Inl ''AuthRoutesConfig.Tenant is required''
              | Some resolve \<Rightarrow> Inr \<lparr>arSvc = port, arMountPrefix = acMountPrefix cfg, arTenant = resolve, arCookies = acCookies cfg,
                  arProjectUser = project,
                  arOnAuthenticated = (case acOnAuthenticated cfg of None \<Rightarrow> SetAuditActor | Some fn \<Rightarrow> fn),
                  arOnTOTPEnrolledViaSession = acOnTOTPEnrolledViaSession cfg\<rparr>)))"

text \<open>\<^verbatim>\<open>None\<close> is the panic on an unset tenant.\<close>

definition FixedTenant :: "ID \<Rightarrow> (request_ctx \<Rightarrow> ID \<times> bool) option" where
  "FixedTenant i = (if \<not> Valid i then None else Some (\<lambda>ctx. (i, True)))"

definition errNoTenant :: route_err where
  "errNoTenant = Wire 401 ''UNAUTHENTICATED''"

definition routedTenant :: "'s AuthRoutes \<Rightarrow> request_ctx \<Rightarrow> route_err + ID" where
  "routedTenant a ctx = (case arTenant a ctx of (i, ok) \<Rightarrow> if \<not> ok \<or> \<not> Valid i then Inl errNoTenant else Inr i)"

section \<open>The refresh cookie\<close>

definition refreshCookieSlotName :: string where
  "refreshCookieSlotName = ''tamper_refresh''"

definition TenantPathSegment :: string where
  "TenantPathSegment = ''{tenant}''"

text \<open>\<^verbatim>\<open>strings.ReplaceAll\<close> for a pattern that is not empty, which is how the code calls it.\<close>

function replaceAll :: "string \<Rightarrow> string \<Rightarrow> string \<Rightarrow> string" where
  "replaceAll [] old new = []"
| "replaceAll (c # s) old new =
     (if old \<noteq> [] \<and> hasPrefix (c # s) old then new @ replaceAll (drop (length old) (c # s)) old new
      else c # replaceAll s old new)"
  by pat_completeness auto
termination
  by (relation "measure (\<lambda>(s, old, new). length s)") (auto simp: neq_Nil_conv)

definition authPrefixFor :: "string \<Rightarrow> ID \<Rightarrow> string \<times> bool" where
  "authPrefixFor mount tenantID =
     (if \<not> containsStr mount TenantPathSegment then (mount, True)
      else if \<not> Valid tenantID \<or> IsSingle tenantID then ('''', False)
      else (replaceAll mount TenantPathSegment (IDString tenantID), True))"

definition authRefreshCookies :: "'s AuthRoutes \<Rightarrow> Tokens \<Rightarrow> ID \<Rightarrow> Cookie list" where
  "authRefreshCookies a tokens tenantID =
     (if tkRefresh tokens = '''' then []
      else (case authPrefixFor (arMountPrefix a) tenantID of (p, ok) \<Rightarrow>
        if \<not> ok then []
        else [\<lparr>ckName = ccName (arCookies a), ckValue = tkRefresh tokens, ckPath = p, ckHttpOnly = True, ckSecure = ccSecure (arCookies a),
               ckSameSite = SameSiteLaxMode, ckMaxAge = ccMaxAgeSeconds (arCookies a)\<rparr>]))"

definition clearRefreshCookie :: "'s AuthRoutes \<Rightarrow> ID \<Rightarrow> Cookie option" where
  "clearRefreshCookie a tenantID =
     (case authPrefixFor (arMountPrefix a) tenantID of (p, ok) \<Rightarrow>
        if \<not> ok then None
        else Some \<lparr>ckName = ccName (arCookies a), ckValue = '''', ckPath = p, ckHttpOnly = True, ckSecure = ccSecure (arCookies a),
                   ckSameSite = SameSiteLaxMode, ckMaxAge = -1\<rparr>)"

definition ReadRefreshCookie :: "'s AuthRoutes \<Rightarrow> middleware" where
  "ReadRefreshCookie a = ReadNamedCookie refreshCookieSlotName (ccName (arCookies a))"

fun onlySetCookies :: "Cookie option list \<Rightarrow> Cookie list" where
  "onlySetCookies [] = []"
| "onlySetCookies (None # cs) = onlySetCookies cs"
| "onlySetCookies (Some c # cs) = c # onlySetCookies cs"

section \<open>Wire\<close>

record 'a JSON =
  jsStatusCode :: int
  jsData :: 'a
  jsCookies :: "Cookie list"

record AuthRes =
  aresToken :: string
  aresUser :: string
  aresTOTPRequired :: bool
  aresSessionToken :: string

record RegisterReq =
  rqEmail :: string
  rqPassword :: string

type_synonym LoginReq = RegisterReq

record TOTPVerifyReq =
  tvSessionToken :: string
  tvCode :: string

record TOTPEnrollSessionReq =
  teqSessionToken :: string
  teqCurrentCode :: string

record TOTPEnrollSessionRes =
  tesOTPAuthURI :: string
  tesRecoveryCodes :: "string list"
  tesToken :: string
  tesUser :: string

definition errIs :: "svc_error \<Rightarrow> ident_err \<Rightarrow> bool" where
  "errIs err sentinel = (sentinel \<in> set err)"

definition errInternal :: route_err where
  "errInternal = Wire 500 ''INTERNAL''"

definition mapAuthWireError :: "svc_error \<Rightarrow> route_err" where
  "mapAuthWireError err =
     (if errIs err ErrEmailTaken then Wire 409 ''EMAIL_TAKEN''
      else if errIs err ErrUserInactive then Wire 401 ''USER_INACTIVE''
      else if errIs err ErrInvalidCredentials \<or> errIs err ErrInvalidSession then Wire 401 ''INVALID_CREDENTIALS''
      else if errIs err ErrInvalidEmail \<or> errIs err ErrPasswordPolicy \<or> errIs err ErrInvalidInput then Wire 400 ''VALIDATION_ERROR''
      else errInternal)"

definition mapTOTPWireError :: "svc_error \<Rightarrow> route_err" where
  "mapTOTPWireError err =
     (if errIs err ErrInvalidTOTP then Wire 401 ''INVALID_TOTP''
      else if errIs err ErrTOTPNotEnrolled then Wire 400 ''VALIDATION_ERROR''
      else mapAuthWireError err)"

section \<open>Handlers\<close>

type_synonym ('s, 'a) handled = "'s \<times> request_ctx \<times> (route_err + 'a) option"

definition authRes :: "'s AuthRoutes \<Rightarrow> request_ctx \<Rightarrow> int \<Rightarrow> AuthResult \<Rightarrow> ID \<Rightarrow> route_err + AuthRes JSON" where
  "authRes a ctx status res tenantID =
     (let cookies = authRefreshCookies a (auTokens res) tenantID in
      if tkRefresh (auTokens res) \<noteq> '''' \<and> cookies = [] then Inl (Wire 404 ''NOT_FOUND'')
      else Inr \<lparr>jsStatusCode = status,
        jsData = \<lparr>aresToken = tkAccess (auTokens res), aresUser = arProjectUser a ctx (auUser res), aresTOTPRequired = False, aresSessionToken = ''''\<rparr>,
        jsCookies = cookies\<rparr>)"

definition userActor :: "User \<Rightarrow> ID \<Rightarrow> Actor" where
  "userActor user tid = zeroActor\<lparr>acType := ActorTypeUser, acUserID := uID user, acTenantID := IDString tid\<rparr>"

text \<open>A completed login: the hook names the user, whose absence is a nil dereference, and the envelope ships.\<close>

definition completeLogin :: "'s AuthRoutes \<Rightarrow> request_ctx \<Rightarrow> 's \<Rightarrow> AuthResult \<Rightarrow> ID \<Rightarrow> ('s, AuthRes JSON) handled" where
  "completeLogin a ctx s res tid =
     (case auUser res of
        None \<Rightarrow> (s, ctx, None)
      | Some user \<Rightarrow>
          let ctx = arOnAuthenticated a ctx (userActor user tid) in
          (s, ctx, Some (authRes a ctx 200 res tid)))"

definition AuthRegister :: "'s AuthRoutes \<Rightarrow> request_ctx \<Rightarrow> 's \<Rightarrow> RegisterReq \<Rightarrow> ('s, AuthRes JSON) handled" where
  "AuthRegister a ctx s req =
     (case routedTenant a ctx of
        Inl err \<Rightarrow> (s, ctx, Some (Inl err))
      | Inr tid \<Rightarrow> (case svRegister (arSvc a) s tid (rqEmail req) (rqPassword req) of
          (s, Inl err) \<Rightarrow> (s, ctx, Some (Inl (mapAuthWireError err)))
        | (s, Inr res) \<Rightarrow> (s, ctx, Some (authRes a ctx 201 res tid))))"

definition AuthLogin :: "'s AuthRoutes \<Rightarrow> request_ctx \<Rightarrow> 's \<Rightarrow> LoginReq \<Rightarrow> ('s, AuthRes JSON) handled" where
  "AuthLogin a ctx s req =
     (case routedTenant a ctx of
        Inl err \<Rightarrow> (s, ctx, Some (Inl err))
      | Inr tid \<Rightarrow> (case svLogin (arSvc a) s tid (rqEmail req) (rqPassword req) of
          (s, res, Some err) \<Rightarrow>
            (case auUser res of
               Some user \<Rightarrow>
                 if errIs err ErrTOTPRequired
                 then (case svIssueTOTPPending (arSvc a) s tid (uID user) of
                     Inl mintErr \<Rightarrow> (s, ctx, Some (Inl errInternal))
                   | Inr sessionTok \<Rightarrow> (s, ctx, Some (Inr \<lparr>jsStatusCode = 200,
                       jsData = \<lparr>aresToken = '''', aresUser = arProjectUser a ctx (Some user), aresTOTPRequired = True, aresSessionToken = sessionTok\<rparr>,
                       jsCookies = []\<rparr>)))
                 else (s, ctx, Some (Inl (mapAuthWireError err)))
             | None \<Rightarrow> (s, ctx, Some (Inl (mapAuthWireError err))))
        | (s, res, None) \<Rightarrow> completeLogin a ctx s res tid))"

definition AuthMe :: "'s AuthRoutes \<Rightarrow> request_ctx \<Rightarrow> 's \<Rightarrow> ('s, string JSON) handled" where
  "AuthMe a ctx s =
     (case routedTenant a ctx of
        Inl err \<Rightarrow> (s, ctx, Some (Inl err))
      | Inr tid \<Rightarrow> (case MustGetUserID ctx of
          None \<Rightarrow> (s, ctx, None)
        | Some userID \<Rightarrow> (case svMe (arSvc a) s tid userID of
            Inl err \<Rightarrow> (s, ctx, Some (Inl (if errIs err IErrNotFound then Wire 401 ''UNAUTHENTICATED'' else errInternal)))
          | Inr user \<Rightarrow> (s, ctx, Some (Inr \<lparr>jsStatusCode = 200, jsData = arProjectUser a ctx user, jsCookies = []\<rparr>)))))"

text \<open>The local function of the second leg: a user who is not here has no session to complete.\<close>

definition notHere :: "svc_error \<Rightarrow> route_err" where
  "notHere err = (if errIs err IErrNotFound then Wire 401 ''UNAUTHENTICATED'' else mapTOTPWireError err)"

definition AuthVerifyTOTP :: "'s AuthRoutes \<Rightarrow> request_ctx \<Rightarrow> 's \<Rightarrow> TOTPVerifyReq \<Rightarrow> ('s, AuthRes JSON) handled" where
  "AuthVerifyTOTP a ctx s req =
     (case routedTenant a ctx of
        Inl err \<Rightarrow> (s, ctx, Some (Inl err))
      | Inr tid \<Rightarrow> (case svVerifyTOTPPending (arSvc a) s tid (tvSessionToken req) of
          Inl err \<Rightarrow> (s, ctx, Some (Inl (Wire 401 ''UNAUTHENTICATED'')))
        | Inr userID \<Rightarrow>
            (case (if length (tvCode req) = 6 then svVerifyTOTP (arSvc a) s tid userID (tvCode req)
                   else svVerifyRecoveryCode (arSvc a) s tid userID (tvCode req)) of
               (s, Some err) \<Rightarrow> (s, ctx, Some (Inl (notHere err)))
             | (s, None) \<Rightarrow> (case svIssueTokensForUser (arSvc a) s tid userID of
                 (s, Inl err) \<Rightarrow> (s, ctx, Some (Inl (if errIs err IErrNotFound then Wire 401 ''UNAUTHENTICATED'' else mapAuthWireError err)))
               | (s, Inr res) \<Rightarrow> completeLogin a ctx s res tid))))"

definition AuthEnrollTOTP :: "'s AuthRoutes \<Rightarrow> request_ctx \<Rightarrow> 's \<Rightarrow> ('s, EnrollmentMaterial JSON) handled" where
  "AuthEnrollTOTP a ctx s =
     (case routedTenant a ctx of
        Inl err \<Rightarrow> (s, ctx, Some (Inl err))
      | Inr tid \<Rightarrow> (case MustGetUserID ctx of
          None \<Rightarrow> (s, ctx, None)
        | Some userID \<Rightarrow> (case svEnrollTOTP (arSvc a) s tid userID of
            (s, Inl err) \<Rightarrow> (s, ctx, Some (Inl (if errIs err IErrNotFound then errNoTenant else mapAuthWireError err)))
          | (s, Inr enr) \<Rightarrow> (s, ctx, Some (Inr \<lparr>jsStatusCode = 200,
              jsData = \<lparr>emOTPAuthURI = emOTPAuthURI enr, emRecoveryCodes = emRecoveryCodes enr\<rparr>, jsCookies = []\<rparr>)))))"

definition AuthDisableTOTP :: "'s AuthRoutes \<Rightarrow> request_ctx \<Rightarrow> 's \<Rightarrow> string \<Rightarrow> ('s, int) handled" where
  "AuthDisableTOTP a ctx s code =
     (case routedTenant a ctx of
        Inl err \<Rightarrow> (s, ctx, Some (Inl err))
      | Inr tid \<Rightarrow> (case MustGetUserID ctx of
          None \<Rightarrow> (s, ctx, None)
        | Some userID \<Rightarrow> (case svDisableTOTP (arSvc a) s tid userID code of
            (s, Some err) \<Rightarrow> (s, ctx, Some (Inl (if errIs err IErrNotFound then errNoTenant else mapTOTPWireError err)))
          | (s, None) \<Rightarrow> (s, ctx, Some (Inr 204)))))"

definition AuthEnrollSession :: "'s AuthRoutes \<Rightarrow> request_ctx \<Rightarrow> 's \<Rightarrow> TOTPEnrollSessionReq \<Rightarrow> ('s, TOTPEnrollSessionRes JSON) handled" where
  "AuthEnrollSession a ctx s req =
     (case routedTenant a ctx of
        Inl err \<Rightarrow> (s, ctx, Some (Inl err))
      | Inr tid \<Rightarrow> (case svEnrollTOTPViaSession (arSvc a) s tid (teqSessionToken req) (teqCurrentCode req) of
          (s, Inl err) \<Rightarrow> (s, ctx, Some (Inl
            (if errIs err ErrTOTPAlreadyEnrolled then Wire 409 ''TOTP_ALREADY_ENROLLED''
             else if errIs err ErrInvalidSession then Wire 401 ''UNAUTHENTICATED''
             else mapTOTPWireError err)))
        | (s, Inr (phase1, Some phase2)) \<Rightarrow> (case auUser phase2 of
            None \<Rightarrow> (s, ctx, None)
          | Some user \<Rightarrow>
              let ctx = arOnAuthenticated a ctx (userActor user tid);
                  ctx = (case arOnTOTPEnrolledViaSession a of None \<Rightarrow> ctx | Some fn \<Rightarrow> fn ctx (uID user)) in
              (s, ctx, Some (Inr \<lparr>jsStatusCode = 200,
                jsData = \<lparr>tesOTPAuthURI = '''', tesRecoveryCodes = [], tesToken = tkAccess (auTokens phase2), tesUser = arProjectUser a ctx (Some user)\<rparr>,
                jsCookies = authRefreshCookies a (auTokens phase2) tid\<rparr>)))
        | (s, Inr (None, None)) \<Rightarrow> (s, ctx, None)
        | (s, Inr (Some phase1, None)) \<Rightarrow> (s, ctx, Some (Inr \<lparr>jsStatusCode = 200,
            jsData = \<lparr>tesOTPAuthURI = emOTPAuthURI phase1, tesRecoveryCodes = emRecoveryCodes phase1, tesToken = '''', tesUser = arProjectUser a ctx None\<rparr>,
            jsCookies = []\<rparr>))))"

text \<open>A refusal that carries a cookie, which the error path cannot: the 401 of an inactive user and of an unrouted refresh.\<close>

definition clearingRefusal :: "'s AuthRoutes \<Rightarrow> request_ctx \<Rightarrow> ID \<Rightarrow> AuthRes JSON" where
  "clearingRefusal a ctx tid = \<lparr>jsStatusCode = 401,
     jsData = \<lparr>aresToken = '''', aresUser = arProjectUser a ctx None, aresTOTPRequired = False, aresSessionToken = ''''\<rparr>,
     jsCookies = onlySetCookies [clearRefreshCookie a tid]\<rparr>"

definition AuthRefresh :: "'s AuthRoutes \<Rightarrow> request_ctx \<Rightarrow> 's \<Rightarrow> ('s, AuthRes JSON) handled" where
  "AuthRefresh a ctx s =
     (case routedTenant a ctx of
        Inl err \<Rightarrow> (s, ctx, Some (Inr (clearingRefusal a ctx zeroID)))
      | Inr tid \<Rightarrow> (case NamedCookieValue ctx refreshCookieSlotName of (tok, ok) \<Rightarrow>
          if \<not> ok then (s, ctx, Some (Inl (Wire 401 ''UNAUTHENTICATED'')))
          else (case svRefresh (arSvc a) s tid tok of
              (s, Inl err) \<Rightarrow>
                if errIs err ErrUserInactive then (s, ctx, Some (Inr (clearingRefusal a ctx tid)))
                else if errIs err ErrInvalidSession \<or> errIs err IErrNotFound \<or> errIs err ErrInvalidCredentials
                then (s, ctx, Some (Inl (Wire 401 ''UNAUTHENTICATED'')))
                else (s, ctx, Some (Inl errInternal))
            | (s, Inr res) \<Rightarrow> (s, ctx, Some (authRes a ctx 200 res tid)))))"

definition AuthLogout :: "'s AuthRoutes \<Rightarrow> request_ctx \<Rightarrow> 's \<Rightarrow> ('s, unit JSON) handled" where
  "AuthLogout a ctx s =
     (let tid = (case routedTenant a ctx of Inl err \<Rightarrow> zeroID | Inr tid \<Rightarrow> tid);
          s = (case routedTenant a ctx of
                 Inl err \<Rightarrow> s
               | Inr tid \<Rightarrow> (case NamedCookieValue ctx refreshCookieSlotName of (tok, ok) \<Rightarrow>
                   if ok then fst (svLogout (arSvc a) s tid tok) else s)) in
      (s, ctx, Some (Inr \<lparr>jsStatusCode = 204, jsData = (), jsCookies = onlySetCookies [clearRefreshCookie a tid]\<rparr>)))"

section \<open>Where a cookie lives\<close>

text \<open>The tenant a request's cookies are written for: the routed one, or none.\<close>

definition cookieTenant :: "'s AuthRoutes \<Rightarrow> request_ctx \<Rightarrow> ID" where
  "cookieTenant a ctx = (case routedTenant a ctx of Inl err \<Rightarrow> zeroID | Inr tid \<Rightarrow> tid)"

definition refreshCookieOk :: "'s AuthRoutes \<Rightarrow> ID \<Rightarrow> Cookie \<Rightarrow> bool" where
  "refreshCookieOk a tid c \<longleftrightarrow>
     ckName c = ccName (arCookies a) \<and> authPrefixFor (arMountPrefix a) tid = (ckPath c, True) \<and> ckHttpOnly c \<and>
     ckSameSite c = SameSiteLaxMode \<and> ckSecure c = ccSecure (arCookies a) \<and>
     ckMaxAge c = (if ckValue c = '''' then -1 else ccMaxAgeSeconds (arCookies a))"

definition answerCookies :: "(route_err + 'a JSON) option \<Rightarrow> Cookie list" where
  "answerCookies r = (case r of Some (Inr j) \<Rightarrow> jsCookies j | _ \<Rightarrow> [])"

definition cookiesOk :: "'s AuthRoutes \<Rightarrow> ID \<Rightarrow> Cookie list \<Rightarrow> bool" where
  "cookiesOk a tid cs \<longleftrightarrow> list_all (refreshCookieOk a tid) cs \<and> length cs \<le> 1"

definition fenced :: "'s AuthRoutes \<Rightarrow> request_ctx \<Rightarrow> ('s, 'a JSON) handled \<Rightarrow> bool" where
  "fenced a ctx r = cookiesOk a (cookieTenant a ctx) (answerCookies (snd (snd r)))"

lemma answerCookies_simps [simp]:
  "answerCookies None = []" "answerCookies (Some (Inl e)) = []" "answerCookies (Some (Inr j)) = jsCookies j"
  by (simp_all add: answerCookies_def)

lemma cookiesOk_simps [simp]:
  "cookiesOk a tid []" "cookiesOk a tid (authRefreshCookies a tokens tid)" "cookiesOk a tid (onlySetCookies [clearRefreshCookie a tid])"
  by (simp_all add: cookiesOk_def authRefreshCookies_def clearRefreshCookie_def refreshCookieOk_def split: prod.split)

lemma authRes_cookies [simp]: "cookiesOk a tid (answerCookies (Some (authRes a ctx status res tid)))"
  by (simp add: authRes_def Let_def)

lemma completeLogin_cookies [simp]: "cookiesOk a tid (answerCookies (snd (snd (completeLogin a ctx s res tid))))"
  by (simp add: completeLogin_def Let_def split: option.split)

lemma authRes_Inr:
  "authRes a ctx status res tid = Inr j \<longleftrightarrow>
     (tkRefresh (auTokens res) \<noteq> '''' \<longrightarrow> authRefreshCookies a (auTokens res) tid \<noteq> []) \<and>
     j = \<lparr>jsStatusCode = status,
        jsData = \<lparr>aresToken = tkAccess (auTokens res), aresUser = arProjectUser a ctx (auUser res), aresTOTPRequired = False, aresSessionToken = ''''\<rparr>,
        jsCookies = authRefreshCookies a (auTokens res) tid\<rparr>"
  by (auto simp: authRes_def Let_def)


section \<open>The tenant in the path\<close>

text \<open>How often the pattern is filled in, which fixes the length of the result.\<close>

function fills :: "string \<Rightarrow> string \<Rightarrow> nat" where
  "fills [] old = 0"
| "fills (c # s) old =
     (if old \<noteq> [] \<and> hasPrefix (c # s) old then Suc (fills (drop (length old) (c # s)) old) else fills s old)"
  by pat_completeness auto
termination
  by (relation "measure (\<lambda>(s, old). length s)") (auto simp: neq_Nil_conv)

lemma length_replaceAll: "length (replaceAll s old v) + fills s old * length old = length s + fills s old * length v"
proof (induction s old v rule: replaceAll.induct)
  case (2 c s old v)
  show ?case
  proof (cases "old \<noteq> [] \<and> hasPrefix (c # s) old")
    case True
    then have "length old \<le> length (c # s)"
      by (auto simp: string_simps dest: prefix_length_le)
    with 2(1) [OF True] True show ?thesis by simp
  qed (use 2(2) in auto)
qed simp

lemma fills_pos: "old \<noteq> [] \<Longrightarrow> containsStr s old \<Longrightarrow> 0 < fills s old"
  by (induction s old rule: fills.induct) auto

lemma replaceAll_inj_same_length:
  "length v = length v' \<Longrightarrow> 0 < fills s old \<Longrightarrow> replaceAll s old v = replaceAll s old v' \<Longrightarrow> v = v'"
  by (induction s old v rule: replaceAll.induct) (auto split: if_splits)

lemma replaceAll_inj:
  assumes "old \<noteq> []" "containsStr s old" "replaceAll s old v = replaceAll s old v'"
  shows "v = v'"
proof -
  note pos = fills_pos [OF assms(1,2)]
  have "fills s old * length v = fills s old * length v'"
    using length_replaceAll [of s old v] length_replaceAll [of s old v'] assms(3) by auto
  then have "length v = length v'" using pos by simp
  then show ?thesis using replaceAll_inj_same_length pos assms(3) by blast
qed

text \<open>
  Separate jars. On a mount whose prefix names the tenant, a refresh cookie exists for a named tenant only, and two tenants
  never share its path; on any other mount the path is the prefix itself, whoever the tenant is.
\<close>

theorem cookie_path_names_tenant:
  "(containsStr mount TenantPathSegment \<longrightarrow>
      (snd (authPrefixFor mount t) \<longleftrightarrow> Valid t \<and> \<not> IsSingle t) \<and>
      (snd (authPrefixFor mount t) \<longrightarrow> (authPrefixFor mount t = authPrefixFor mount t' \<longleftrightarrow> t = t'))) \<and>
   (\<not> containsStr mount TenantPathSegment \<longrightarrow> authPrefixFor mount t = (mount, True))"
proof (intro conjI impI)
  assume c: "containsStr mount TenantPathSegment" and ok: "snd (authPrefixFor mount t)"
  show "authPrefixFor mount t = authPrefixFor mount t' \<longleftrightarrow> t = t'"
  proof
    assume e: "authPrefixFor mount t = authPrefixFor mount t'"
    then have v: "Valid t" "Valid t'" using c ok by (auto simp: authPrefixFor_def split: if_splits)
    have "replaceAll mount TenantPathSegment (IDString t) = replaceAll mount TenantPathSegment (IDString t')"
      using e c ok by (auto simp: authPrefixFor_def split: if_splits)
    then have "IDString t = IDString t'"
      by (rule replaceAll_inj [OF _ c, rotated]) (simp add: TenantPathSegment_def)
    then show "t = t'" using v IDString_eq_iff [of t t'] by simp
  qed simp
qed (auto simp: authPrefixFor_def)

lemma example_path:
  "containsStr ''/t/{tenant}/auth'' TenantPathSegment" "authPrefixFor ''/t/{tenant}/auth'' (NewID ''acme'') = (''/t/acme/auth'', True)"
  by code_simp+

theorem cookie_path_names_tenant_witness:
  "authPrefixFor ''/t/{tenant}/auth'' (NewID ''globex'') \<noteq> (''/t/acme/auth'', True)"
proof -
  note c = cookie_path_names_tenant [THEN conjunct1, rule_format, OF example_path(1)]
  have "snd (authPrefixFor ''/t/{tenant}/auth'' (NewID ''acme''))" unfolding example_path(2) by simp
  from c [of "NewID ''acme''" "NewID ''globex''", THEN conjunct2, rule_format, OF this, unfolded example_path(2)]
  have "(''/t/acme/auth'', True) = authPrefixFor ''/t/{tenant}/auth'' (NewID ''globex'') \<longleftrightarrow> NewID ''acme'' = NewID ''globex''" .
  moreover have "NewID ''acme'' \<noteq> NewID ''globex''" by (simp add: NewID_def)
  ultimately show ?thesis by metis
qed

section \<open>What an answer has passed\<close>

lemma routedTenant_Inr: "routedTenant a ctx = Inr tid \<longleftrightarrow> arTenant a ctx = (tid, True) \<and> Valid tid"
  by (auto simp: routedTenant_def split: prod.splits if_splits)

lemma routedTenant_Inl: "routedTenant a ctx = Inl e \<longleftrightarrow> e = errNoTenant \<and> \<not> (snd (arTenant a ctx) \<and> Valid (fst (arTenant a ctx)))"
  by (auto simp: routedTenant_def split: prod.splits if_splits)

text \<open>
  A request routed to no tenant reaches nothing: every handler leaves the port's state and the request's context as they were and answers 401,
  but for the logout, which is a 204 whatever happens; no session, no pending token and no payload leaves, and the two cookie routes clear
  the cookie where the mount prefix is fixed.
\<close>

theorem unrouted_reaches_nothing:
  assumes "\<not> (snd (arTenant a ctx) \<and> Valid (fst (arTenant a ctx)))"
  shows "AuthRegister a ctx s reg = (s, ctx, Some (Inl errNoTenant)) \<and> AuthLogin a ctx s lreq = (s, ctx, Some (Inl errNoTenant)) \<and>
    AuthMe a ctx s = (s, ctx, Some (Inl errNoTenant)) \<and> AuthVerifyTOTP a ctx s ver = (s, ctx, Some (Inl errNoTenant)) \<and>
    AuthEnrollTOTP a ctx s = (s, ctx, Some (Inl errNoTenant)) \<and> AuthDisableTOTP a ctx s code = (s, ctx, Some (Inl errNoTenant)) \<and>
    AuthEnrollSession a ctx s enr = (s, ctx, Some (Inl errNoTenant)) \<and>
    (\<exists>cs. cs = (if containsStr (arMountPrefix a) TenantPathSegment then [] else [the (clearRefreshCookie a zeroID)]) \<and>
       AuthRefresh a ctx s = (s, ctx, Some (Inr \<lparr>jsStatusCode = 401,
         jsData = \<lparr>aresToken = '''', aresUser = arProjectUser a ctx None, aresTOTPRequired = False, aresSessionToken = ''''\<rparr>, jsCookies = cs\<rparr>)) \<and>
       AuthLogout a ctx s = (s, ctx, Some (Inr \<lparr>jsStatusCode = 204, jsData = (), jsCookies = cs\<rparr>)))"
proof -
  have r: "routedTenant a ctx = Inl errNoTenant" using assms by (simp add: routedTenant_Inl)
  have c: "onlySetCookies [clearRefreshCookie a zeroID] =
      (if containsStr (arMountPrefix a) TenantPathSegment then [] else [the (clearRefreshCookie a zeroID)])"
    by (simp add: clearRefreshCookie_def authPrefixFor_def)
  show ?thesis
    by (simp add: AuthRegister_def AuthLogin_def AuthMe_def AuthVerifyTOTP_def AuthEnrollTOTP_def AuthDisableTOTP_def AuthEnrollSession_def
        AuthRefresh_def AuthLogout_def clearingRefusal_def r c)
qed

text \<open>An envelope of a completed login carries the session whole: the access token, and the refresh token in its cookie if there is one.\<close>

definition carriesSession :: "'s AuthRoutes \<Rightarrow> ID \<Rightarrow> Tokens \<Rightarrow> AuthRes JSON \<Rightarrow> bool" where
  "carriesSession a tid tokens j \<longleftrightarrow> aresToken (jsData j) = tkAccess tokens \<and> \<not> aresTOTPRequired (jsData j) \<and> aresSessionToken (jsData j) = '''' \<and>
     jsCookies j = authRefreshCookies a tokens tid \<and> (tkRefresh tokens \<noteq> '''' \<longrightarrow> jsCookies j \<noteq> [])"

lemma authRes_carries: "authRes a ctx status res tid = Inr j \<Longrightarrow> jsStatusCode j = status \<and> carriesSession a tid (auTokens res) j"
  by (auto simp: authRes_Inr carriesSession_def)

lemma completeLogin_Inr:
  "completeLogin a ctx s res tid = (s', ctx', Some (Inr j)) \<longleftrightarrow>
     s' = s \<and> (\<exists>user. auUser res = Some user \<and> ctx' = arOnAuthenticated a ctx (userActor user tid) \<and> authRes a ctx' 200 res tid = Inr j)"
  by (auto simp: completeLogin_def Let_def split: option.splits)

lemma AuthVerifyTOTP_Inr:
  assumes "AuthVerifyTOTP a ctx s req = (s', ctx', Some (Inr j))"
  shows "\<exists>tid userID s1 res user. arTenant a ctx = (tid, True) \<and> Valid tid \<and>
    svVerifyTOTPPending (arSvc a) s tid (tvSessionToken req) = Inr userID \<and>
    (if length (tvCode req) = 6 then svVerifyTOTP (arSvc a) s tid userID (tvCode req)
     else svVerifyRecoveryCode (arSvc a) s tid userID (tvCode req)) = (s1, None) \<and>
    svIssueTokensForUser (arSvc a) s1 tid userID = (s', Inr res) \<and> auUser res = Some user \<and>
    ctx' = arOnAuthenticated a ctx (userActor user tid) \<and> jsStatusCode j = 200 \<and> carriesSession a tid (auTokens res) j"
proof -
  obtain tid where t: "routedTenant a ctx = Inr tid" using assms by (auto simp: AuthVerifyTOTP_def split: sum.splits)
  obtain userID where u: "svVerifyTOTPPending (arSvc a) s tid (tvSessionToken req) = Inr userID"
    using assms t by (auto simp: AuthVerifyTOTP_def split: sum.splits)
  obtain s1 where v: "(if length (tvCode req) = 6 then svVerifyTOTP (arSvc a) s tid userID (tvCode req)
     else svVerifyRecoveryCode (arSvc a) s tid userID (tvCode req)) = (s1, None)" (is "?v = _")
    using assms t u by (cases ?v) (auto simp: AuthVerifyTOTP_def split: option.splits)
  obtain s2 res where i: "svIssueTokensForUser (arSvc a) s1 tid userID = (s2, Inr res)"
    using assms t u v by (auto simp: AuthVerifyTOTP_def split: prod.splits sum.splits)
  have c: "completeLogin a ctx s2 res tid = (s', ctx', Some (Inr j))"
    using assms by (simp add: AuthVerifyTOTP_def t u v i)
  from t have "arTenant a ctx = (tid, True) \<and> Valid tid" by (simp add: routedTenant_Inr)
  with u v i c show ?thesis unfolding completeLogin_Inr by (metis authRes_carries)
qed

text \<open>A login answers a session, or a pending token with nothing else.\<close>

lemma AuthLogin_Inr:
  assumes "AuthLogin a ctx s req = (s', ctx', Some (Inr j))"
  shows "\<exists>tid res err. arTenant a ctx = (tid, True) \<and> Valid tid \<and> jsStatusCode j = 200 \<and>
    svLogin (arSvc a) s tid (rqEmail req) (rqPassword req) = (s', res, err) \<and> auUser res \<noteq> None \<and>
    (case err of
       None \<Rightarrow> ctx' = arOnAuthenticated a ctx (userActor (the (auUser res)) tid) \<and> carriesSession a tid (auTokens res) j
     | Some e \<Rightarrow> errIs e ErrTOTPRequired \<and> ctx' = ctx \<and> aresTOTPRequired (jsData j) \<and> aresToken (jsData j) = '''' \<and> jsCookies j = [] \<and>
         svIssueTOTPPending (arSvc a) s' tid (uID (the (auUser res))) = Inr (aresSessionToken (jsData j)))"
proof -
  obtain tid where t: "routedTenant a ctx = Inr tid" using assms by (auto simp: AuthLogin_def split: sum.splits)
  obtain s1 res err where l: "svLogin (arSvc a) s tid (rqEmail req) (rqPassword req) = (s1, res, err)" by (metis prod_cases3)
  from t have tid: "arTenant a ctx = (tid, True) \<and> Valid tid" by (simp add: routedTenant_Inr)
  show ?thesis
  proof (cases err)
    case None
    then have "completeLogin a ctx s1 res tid = (s', ctx', Some (Inr j))" using assms by (simp add: AuthLogin_def t l)
    with tid l None show ?thesis unfolding completeLogin_Inr by (auto dest: authRes_carries)
  next
    case (Some e)
    then obtain user where "auUser res = Some user" using assms by (auto simp: AuthLogin_def t l split: option.splits)
    with assms Some tid l show ?thesis by (auto simp: AuthLogin_def t split: if_splits sum.splits)
  qed
qed

text \<open>
  Three places where the answer is not what the sources say of it: a throttled login is a server fault on the wire, a refresh that fails keeps
  its cookie, and an enrollment by session token ships a session without the cookie that renews it where the prefix cannot name the tenant.
\<close>

lemma throttled_login_is_internal: "mapAuthWireError [ErrThrottled n] = Wire 500 ''INTERNAL''"
  by (simp add: mapAuthWireError_def errIs_def errInternal_def)

lemma failed_refresh_keeps_cookie:
  assumes "arTenant a ctx = (tid, True)" "Valid tid" "NamedCookieValue ctx refreshCookieSlotName = (tok, True)"
    "svRefresh (arSvc a) s tid tok = (s', Inl [ErrInvalidSession])"
  shows "AuthRefresh a ctx s = (s', ctx, Some (Inl (Wire 401 ''UNAUTHENTICATED'')))"
  using assms by (simp add: AuthRefresh_def routedTenant_def errIs_def)

lemma enroll_session_without_cookie:
  assumes "arTenant a ctx = (Single, True)" "containsStr (arMountPrefix a) TenantPathSegment" "auUser phase2 = Some user"
    "svEnrollTOTPViaSession (arSvc a) s Single (teqSessionToken req) (teqCurrentCode req) = (s', Inr (None, Some phase2))"
  shows "\<exists>ctx' j. AuthEnrollSession a ctx s req = (s', ctx', Some (Inr j)) \<and> jsStatusCode j = 200 \<and>
    tesToken (jsData j) = tkAccess (auTokens phase2) \<and> jsCookies j = []"
  using assms by (simp add: AuthEnrollSession_def routedTenant_def Let_def authRefreshCookies_def authPrefixFor_def IsSingle_def Single_def Valid_def)

end
