(* ===== verification/Multitenant_App.thy ===== *)
theory Multitenant_App
  imports Multitenant_Store Espresso_Auth Espresso_Gates
begin

text \<open>
  The pooled example, \<^verbatim>\<open>examples/multitenant/identity_adapter.go\<close> and \<^verbatim>\<open>main.go\<close>: the adapter from the identity service to the port
  of the password routes, and the mounted routes, each a stack of middleware around a handler. The theorems follow a request from the
  path through the gates, the handler, the adapter and the service to the rows. One request draws once from clock and generator.
\<close>

section \<open>The adapter\<close>

record 's pooledIdentity =
  piCore :: "'s Core"
  piStore :: "'s Store"
  piJwt :: JWTService

definition userIn :: "'s pooledIdentity \<Rightarrow> 's \<Rightarrow> ID \<Rightarrow> string \<Rightarrow> ident_err + User" where
  "userIn p s tenantID userID =
     (case stUserByID (piStore p) s userID of
        Inl err \<Rightarrow> Inl err
      | Inr u \<Rightarrow> if FromStored (uTenantID u) \<noteq> tenantID then Inl IErrNotFound else Inr u)"

text \<open>A result of the service as one of the port: its error is its own sentinel.\<close>

definition asAuthResult :: "'s \<times> (ident_err + User \<times> Tokens) \<Rightarrow> 's \<times> (svc_error + AuthResult)" where
  "asAuthResult r =
     (fst r, case snd r of Inl err \<Rightarrow> Inl [err] | Inr (u, tok) \<Rightarrow> Inr \<lparr>auUser = Some u, auTokens = tok\<rparr>)"

definition asError :: "'s \<times> ident_err option \<Rightarrow> 's \<times> svc_error option" where
  "asError r = (fst r, map_option (\<lambda>err. [err]) (snd r))"

definition pooledLogin :: "CryptoLib \<Rightarrow> JWTLib \<Rightarrow> Draw \<Rightarrow> 's pooledIdentity \<Rightarrow> 's \<Rightarrow> ID \<Rightarrow> string \<Rightarrow> string
    \<Rightarrow> 's \<times> AuthResult \<times> svc_error option" where
  "pooledLogin K L d p s tenantID email password =
     (case Login (piCore p) K L d s tenantID email password of
        (s, evs, Inl (err, u)) \<Rightarrow>
          (s, if err = ErrTOTPRequired then \<lparr>auUser = Some u, auTokens = noTokens\<rparr> else zeroAuthResult, Some [err])
      | (s, evs, Inr (u, tok)) \<Rightarrow> (s, \<lparr>auUser = Some u, auTokens = tok\<rparr>, None))"

definition pooledMe :: "'s pooledIdentity \<Rightarrow> 's \<Rightarrow> ID \<Rightarrow> string \<Rightarrow> svc_error + User option" where
  "pooledMe p s tenantID userID = (case userIn p s tenantID userID of Inl err \<Rightarrow> Inl [err] | Inr u \<Rightarrow> Inr (Some u))"

definition pooledIssueTokensForUser :: "CryptoLib \<Rightarrow> JWTLib \<Rightarrow> Draw \<Rightarrow> 's pooledIdentity \<Rightarrow> 's \<Rightarrow> ID \<Rightarrow> string
    \<Rightarrow> 's \<times> (svc_error + AuthResult)" where
  "pooledIssueTokensForUser K L d p s tenantID userID =
     (case userIn p s tenantID userID of
        Inl err \<Rightarrow> (s, Inl [err])
      | Inr u \<Rightarrow> (case IssueTokensForUser (piCore p) K L d s userID tenantID (drNow d) (coDefaultACR (piCore p)) [] of
          (s, Inl err) \<Rightarrow> (s, Inl [err])
        | (s, Inr tok) \<Rightarrow> (s, Inr \<lparr>auUser = Some u, auTokens = tok\<rparr>)))"

text \<open>The verbs keyed by a bare user id check first that the user is stored in the tenant.\<close>

definition guarded :: "'s pooledIdentity \<Rightarrow> 's \<Rightarrow> ID \<Rightarrow> string \<Rightarrow> 's \<times> ident_err option \<Rightarrow> 's \<times> svc_error option" where
  "guarded p s tenantID userID r = (case userIn p s tenantID userID of Inl err \<Rightarrow> (s, Some [err]) | Inr u \<Rightarrow> asError r)"

definition pooledEnrollTOTP :: "CryptoLib \<Rightarrow> EnrollDraw \<Rightarrow> 's pooledIdentity \<Rightarrow> 's \<Rightarrow> ID \<Rightarrow> string
    \<Rightarrow> 's \<times> (svc_error + EnrollmentMaterial)" where
  "pooledEnrollTOTP K ed p s tenantID userID =
     (case userIn p s tenantID userID of
        Inl err \<Rightarrow> (s, Inl [err])
      | Inr u \<Rightarrow> (case StartTOTPEnrollment (piCore p) K ed s tenantID userID of
          (s, Inl err) \<Rightarrow> (s, Inl [err])
        | (s, Inr e) \<Rightarrow> (s, Inr \<lparr>emOTPAuthURI = teOTPAuthURI e, emRecoveryCodes = teRecoveryCodes e\<rparr>)))"

text \<open>An error of the token service carries none of the identity sentinels, nor does the refusal of the session enrollment.\<close>

definition pooledPort :: "CryptoLib \<Rightarrow> JWTLib \<Rightarrow> Draw \<Rightarrow> EnrollDraw \<Rightarrow> 's pooledIdentity \<Rightarrow> 's IdentityService" where
  "pooledPort K L d ed p = \<lparr>
     svRegister = (\<lambda>s tid email password. asAuthResult (Register (piCore p) K L d s tid email password)),
     svLogin = pooledLogin K L d p,
     svMe = pooledMe p,
     svRefresh = (\<lambda>s tid tok. asAuthResult (Refresh (piCore p) K L d s tid tok)),
     svLogout = (\<lambda>s tid tok. asError (Logout (piCore p) K d s tid tok)),
     svIssueTOTPPending = (\<lambda>s tid userID. map_sum (\<lambda>err. []) id (IssueTOTPPending L (piJwt p) userID tid)),
     svVerifyTOTPPending = (\<lambda>s tid tok. map_sum (\<lambda>err. []) id (VerifyTOTPPending L (piJwt p) tok tid)),
     svVerifyTOTP = (\<lambda>s tid userID code. guarded p s tid userID (s, VerifyTOTP (piCore p) K (drNow d) s tid userID code)),
     svVerifyRecoveryCode = (\<lambda>s tid userID code. guarded p s tid userID (VerifyRecoveryCode (piCore p) K s tid userID code)),
     svIssueTokensForUser = pooledIssueTokensForUser K L d p,
     svEnrollTOTP = pooledEnrollTOTP K ed p,
     svDisableTOTP = (\<lambda>s tid userID code. guarded p s tid userID (DisableTOTP (piCore p) K (drNow d) s tid userID code)),
     svEnrollTOTPViaSession = (\<lambda>s tid tok code. (s, Inl []))\<rparr>"

definition newPooledIdentity :: "'s Core \<Rightarrow> JWTService \<Rightarrow> 's Store \<Rightarrow> 's pooledIdentity" where
  "newPooledIdentity C j st = \<lparr>piCore = C, piStore = st, piJwt = j\<rparr>"

section \<open>The mounted routes\<close>

definition authPrefix :: string where
  "authPrefix = ''/t/'' @ TenantPathSegment @ ''/auth''"

definition routeTenant :: resolver where
  "routeTenant r = (let i = NewID (pathValue r ''tenant'') in (i, Valid i))"

text \<open>The JSON text of the payload is the application's; \<^verbatim>\<open>enc\<close> stands for \<^verbatim>\<open>json.Marshal\<close> of id, tenant and email.\<close>

definition projectUser :: "(string \<times> string \<times> string \<Rightarrow> string) \<Rightarrow> request_ctx \<Rightarrow> User option \<Rightarrow> string" where
  "projectUser enc ctx u = (case u of None \<Rightarrow> ''null'' | Some user \<Rightarrow> enc (uID user, uTenantID user, uEmail user))"

definition multitenantAuthConfig :: "(string \<times> string \<times> string \<Rightarrow> string) \<Rightarrow> AuthRoutesConfig" where
  "multitenantAuthConfig enc = \<lparr>acMountPrefix = authPrefix, acTenant = Some TenantFromContext,
     acCookies = \<lparr>ccName = ''mt_refresh'', ccSecure = False, ccMaxAgeSeconds = 0\<rparr>, acProjectUser = Some (projectUser enc),
     acOnAuthenticated = None, acOnTOTPEnrolledViaSession = None\<rparr>"

text \<open>A route: the request passes the stack, or the stack answers; the handler runs in the context the stack leaves.\<close>

datatype 'a route_reply = Refused response | Replied "(route_err + 'a) option"

definition mounted :: "middleware list \<Rightarrow> (request_ctx \<Rightarrow> 's \<Rightarrow> ('s, 'a) handled) \<Rightarrow> request \<Rightarrow> 's \<Rightarrow> 's \<times> 'a route_reply" where
  "mounted ms handler r s =
     (case serve ms r of
        Stop resp \<Rightarrow> (s, Refused resp)
      | Next r' \<Rightarrow> (case handler (rqCtx r') s of (s', ctx', ans) \<Rightarrow> (s', Replied ans)))"

definition pinRoute :: middleware where
  "pinRoute = the (PinTenant (Some routeTenant))"

definition ownTenantOnly :: middleware where
  "ownTenantOnly = the (RequireTenant (Some TenantFromRoutedContext))"

definition routeLogin :: "'s AuthRoutes \<Rightarrow> LoginReq \<Rightarrow> request \<Rightarrow> 's \<Rightarrow> 's \<times> AuthRes JSON route_reply" where
  "routeLogin a req = mounted [pinRoute] (\<lambda>ctx s. AuthLogin a ctx s req)"

definition routeRegister :: "'s AuthRoutes \<Rightarrow> RegisterReq \<Rightarrow> request \<Rightarrow> 's \<Rightarrow> 's \<times> AuthRes JSON route_reply" where
  "routeRegister a req = mounted [pinRoute] (\<lambda>ctx s. AuthRegister a ctx s req)"

definition routeRefresh :: "'s AuthRoutes \<Rightarrow> request \<Rightarrow> 's \<Rightarrow> 's \<times> AuthRes JSON route_reply" where
  "routeRefresh a = mounted [pinRoute, ReadRefreshCookie a] (AuthRefresh a)"

definition routeLogout :: "'s AuthRoutes \<Rightarrow> request \<Rightarrow> 's \<Rightarrow> 's \<times> unit JSON route_reply" where
  "routeLogout a = mounted [pinRoute, ReadRefreshCookie a] (AuthLogout a)"

definition routeMe :: "JWTLib \<Rightarrow> JWTService \<Rightarrow> 's AuthRoutes \<Rightarrow> request \<Rightarrow> 's \<Rightarrow> 's \<times> string JSON route_reply" where
  "routeMe L j a = mounted [pinRoute, RequireAuth L j, ownTenantOnly] (AuthMe a)"

section \<open>The stacks\<close>

lemma mounted_Next:
  "serve ms r = Next r' \<Longrightarrow> mounted ms h r s = (case h (rqCtx r') s of (s', ctx', ans) \<Rightarrow> (s', Replied ans))"
  by (simp add: mounted_def)

lemma pinRoute_eq:
  "pinRoute r = (if pathValue r ''tenant'' = '''' then Stop NotFoundResponse
     else Next (r\<lparr>rqCtx := (rqCtx r)\<lparr>cxTenant := Some (NewID (pathValue r ''tenant''))\<rparr>\<rparr>))"
  by (simp add: pinRoute_def PinTenant_def routeTenant_def Let_def id_defs)

lemma ownTenantOnly_Next:
  "ownTenantOnly r = Next r' \<longleftrightarrow> (\<exists>t c. cxTenant (rqCtx r) = Some t \<and> Valid t \<and> cxClaims (rqCtx r) = Some c \<and> cTenantID c = IDString t \<and>
     \<not> Impersonated c \<and> \<not> Entered c \<and> r' = r\<lparr>rqCtx := (rqCtx r)\<lparr>cxTenant := Some t\<rparr>\<rparr>)"
  by (auto simp: ownTenantOnly_def RequireTenant_def requireTenant_def TenantFromRoutedContext_def TenantFromContext_def tokenFitsTenant_def
      AccessClaimsFromContext_def split: option.splits)

lemma pooled_routes_built:
  "\<exists>a. NewAuthRoutes (Some port) (multitenantAuthConfig enc) = Inr a \<and> arSvc a = port \<and> arMountPrefix a = authPrefix \<and>
     arTenant a = TenantFromContext \<and> arProjectUser a = projectUser enc \<and> arCookies a = \<lparr>ccName = ''mt_refresh'', ccSecure = False, ccMaxAgeSeconds = 0\<rparr>"
  by (simp add: NewAuthRoutes_def multitenantAuthConfig_def authPrefix_def TenantPathSegment_def suffix_def)

lemma userIn_Inr: "userIn p s t i = Inr u \<longleftrightarrow> stUserByID (piStore p) s i = Inr u \<and> FromStored (uTenantID u) = t"
  by (auto simp: userIn_def split: sum.splits)

lemma FromStored_NewID: "v \<noteq> '''' \<Longrightarrow> FromStored x = NewID v \<longleftrightarrow> x = v"
  by (auto simp: id_defs)

lemma pooled_built_fields:
  assumes "NewAuthRoutes (Some port) (multitenantAuthConfig enc) = Inr a"
  shows "arSvc a = port" "arMountPrefix a = authPrefix" "arTenant a = TenantFromContext" "arProjectUser a = projectUser enc"
    "arCookies a = \<lparr>ccName = ''mt_refresh'', ccSecure = False, ccMaxAgeSeconds = 0\<rparr>"
  using assms pooled_routes_built [of port enc] by auto

text \<open>
  C31. \<^verbatim>\<open>GET /t/{tenant}/auth/me\<close>. A payload leaves only for a verified access token of the tenant in the path that is neither entered nor
  impersonated, and it is the projection of the token's own subject, stored in that tenant; nothing is written and no cookie is set.
\<close>

theorem me_own_tenant:
  assumes "NewAuthRoutes (Some (pooledPort K L d ed (newPooledIdentity C j st))) (multitenantAuthConfig enc) = Inr a"
    "routeMe L j a r s = (s', Replied (Some (Inr ans)))"
  shows "s' = s \<and> jsStatusCode ans = 200 \<and> jsCookies ans = [] \<and> (\<exists>tok c u. bearerToken (rqAuthorization r) = Inr tok \<and>
    ParseAccess L j tok = Inr c \<and> cTenantID c = pathValue r ''tenant'' \<and> cTenantID c \<noteq> '''' \<and> \<not> Impersonated c \<and> \<not> Entered c \<and>
    stUserByID st s (cSubject c) = Inr u \<and> uTenantID u = pathValue r ''tenant'' \<and> jsData ans = enc (uID u, uTenantID u, uEmail u))"
proof -
  note a = pooled_built_fields [OF assms(1)]
  let ?t = "NewID (pathValue r ''tenant'')"
  let ?r1 = "r\<lparr>rqCtx := (rqCtx r)\<lparr>cxTenant := Some ?t\<rparr>\<rparr>"
  obtain r' where "serve [pinRoute, RequireAuth L j, ownTenantOnly] r = Next r'" and h: "AuthMe a (rqCtx r') s = (s', rqCtx r', Some (Inr ans))"
  proof -
    from assms(2) obtain r' ctx' where r': "serve [pinRoute, RequireAuth L j, ownTenantOnly] r = Next r'" "AuthMe a (rqCtx r') s = (s', ctx', Some (Inr ans))"
      by (auto simp: routeMe_def mounted_def split: outcome.splits prod.splits)
    moreover have "ctx' = rqCtx r'" using r'(2) by (auto simp: AuthMe_def split: sum.splits option.splits)
    ultimately show thesis using that by simp
  qed
  then have p: "pathValue r ''tenant'' \<noteq> ''''" and "serve [RequireAuth L j, ownTenantOnly] ?r1 = Next r'"
    by (auto simp: pinRoute_eq split: if_splits)
  then obtain tok c where c: "bearerToken (rqAuthorization r) = Inr tok" "ParseAccess L j tok = Inr c"
    and o: "ownTenantOnly (?r1\<lparr>rqCtx := decorateAuthed (rqCtx ?r1) c\<rparr>) = Next r'"
    by (auto simp: RequireAuth_def split: sum.splits outcome.splits)
  from o have cc: "cTenantID c = pathValue r ''tenant''" "\<not> Impersonated c" "\<not> Entered c"
    and ctx: "cxTenant (rqCtx r') = Some ?t" "cxUserID (rqCtx r') = Some (cSubject c)"
    unfolding ownTenantOnly_Next by (auto simp: decorateAuthed_def WithActor_def)
  have v: "Valid ?t" using p by (simp add: id_defs)
  then have rt: "routedTenant a (rqCtx r') = Inr ?t"
    using ctx(1) by (simp add: routedTenant_Inr a TenantFromContext_def)
  have "MustGetUserID (rqCtx r') \<noteq> None" using h by (auto simp: AuthMe_def rt split: option.splits)
  then have mu: "MustGetUserID (rqCtx r') = Some (cSubject c)"
    using ctx(2) by (simp add: MustGetUserID_def GetUserID_def split: if_splits)
  have svc: "svMe (arSvc a) = pooledMe (newPooledIdentity C j st)" by (simp add: a pooledPort_def)
  obtain u where u: "userIn (newPooledIdentity C j st) s ?t (cSubject c) = Inr u"
    using h by (auto simp: AuthMe_def rt mu svc pooledMe_def split: sum.splits)
  then have "s' = s" "ans = \<lparr>jsStatusCode = 200, jsData = enc (uID u, uTenantID u, uEmail u), jsCookies = []\<rparr>"
    using h by (simp_all add: AuthMe_def rt mu svc pooledMe_def projectUser_def a(4))
  note u = this u
  from u(3) have "stUserByID st s (cSubject c) = Inr u" "uTenantID u = pathValue r ''tenant''"
    using p by (auto simp: userIn_Inr newPooledIdentity_def FromStored_NewID)
  with u(1,2) c cc p show ?thesis by auto
qed

section \<open>A concrete deployment\<close>

definition examplePooledCore :: "PooledMem Core" where
  "examplePooledCore = (defaultCore tenantStore (Some (exampleService 100)))
     \<lparr>coRefreshTTL := 1000, coMemberships := Some tenantMemberships, coEnterTTL := 300\<rparr>"

definition exampleEnroll0 :: EnrollDraw where
  "exampleEnroll0 = \<lparr>edSecret = None, edNonce = None, edCodes = []\<rparr>"

definition examplePort :: "JWTLib \<Rightarrow> PooledMem IdentityService" where
  "examplePort L = pooledPort exampleCrypto L Identity_Sessions.exampleDraw exampleEnroll0 (newPooledIdentity examplePooledCore (exampleService 200) tenantStore)"

definition exampleEnc :: "string \<times> string \<times> string \<Rightarrow> string" where
  "exampleEnc p = fst p @ ''@'' @ fst (snd p)"

definition exampleAuthRoutes :: "JWTLib \<Rightarrow> PooledMem AuthRoutes" where
  "exampleAuthRoutes L = \<lparr>arSvc = examplePort L, arMountPrefix = authPrefix, arTenant = TenantFromContext,
     arCookies = \<lparr>ccName = ''mt_refresh'', ccSecure = False, ccMaxAgeSeconds = 0\<rparr>, arProjectUser = projectUser exampleEnc,
     arOnAuthenticated = SetAuditActor, arOnTOTPEnrolledViaSession = None\<rparr>"

lemma exampleAuthRoutes_built: "NewAuthRoutes (Some (examplePort L)) (multitenantAuthConfig exampleEnc) = Inr (exampleAuthRoutes L)"
  by (simp add: NewAuthRoutes_def multitenantAuthConfig_def authPrefix_def TenantPathSegment_def suffix_def exampleAuthRoutes_def)

definition exampleRouted :: "string \<Rightarrow> request" where
  "exampleRouted tenantID = (exampleRequest ''Bearer tok'')\<lparr>rqPathValues := [(''tenant'', tenantID)], rqCookies := [(''mt_refresh'', ''AA'')]\<rparr>"

lemma example_me:
  "snd (routeMe (oneTokenLib exampleOwn) (exampleService 200) (exampleAuthRoutes (oneTokenLib exampleOwn)) (exampleRouted ''acme'') examplePooled) =
     Replied (Some (Inr \<lparr>jsStatusCode = 200, jsData = ''u@acme'', jsCookies = []\<rparr>))"
  by code_simp

theorem me_own_tenant_witness:
  "\<exists>ans. routeMe (oneTokenLib exampleOwn) (exampleService 200) (exampleAuthRoutes (oneTokenLib exampleOwn)) (exampleRouted ''acme'') examplePooled =
     (examplePooled, Replied (Some (Inr ans))) \<and> jsData ans = ''u@acme'' \<and> jsCookies ans = []"
proof -
  obtain k' where r: "routeMe (oneTokenLib exampleOwn) (exampleService 200) (exampleAuthRoutes (oneTokenLib exampleOwn)) (exampleRouted ''acme'') examplePooled =
     (k', Replied (Some (Inr \<lparr>jsStatusCode = 200, jsData = ''u@acme'', jsCookies = []\<rparr>)))" using example_me by (metis prod.collapse)
  from me_own_tenant [OF exampleAuthRoutes_built [unfolded examplePort_def] r] have "k' = examplePooled" by blast
  with r show ?thesis by simp
qed

section \<open>Refresh, end to end\<close>

lemma routeRefresh_eq:
  assumes "NewAuthRoutes (Some (pooledPort K L d ed (newPooledIdentity C j st))) (multitenantAuthConfig enc) = Inr a"
    "pathValue r ''tenant'' \<noteq> ''''" "map_of (rqCookies r) ''mt_refresh'' = Some tok" "tok \<noteq> ''''"
  defines "t \<equiv> NewID (pathValue r ''tenant'')"
  shows "\<exists>ctx. routeRefresh a r s = (case Refresh C K L d s t tok of
      (s', Inl err) \<Rightarrow> (s', Replied (Some
        (if err = ErrUserInactive then Inr (clearingRefusal a ctx t)
         else if err = ErrInvalidSession \<or> err = IErrNotFound \<or> err = ErrInvalidCredentials then Inl (Wire 401 ''UNAUTHENTICATED'')
         else Inl errInternal)))
    | (s', Inr (u, tk)) \<Rightarrow> (s', Replied (Some (authRes a ctx 200 \<lparr>auUser = Some u, auTokens = tk\<rparr> t))))"
proof -
  note a = pooled_built_fields [OF assms(1)]
  let ?c1 = "(rqCtx r)\<lparr>cxTenant := Some t\<rparr>"
  let ?ctx = "?c1\<lparr>cxCookies := AList.update refreshCookieSlotName tok (cxCookies (rqCtx r))\<rparr>"
  have st: "serve [pinRoute, ReadRefreshCookie a] r = Next (r\<lparr>rqCtx := ?ctx\<rparr>)"
    using assms(2,3) by (simp add: pinRoute_eq ReadRefreshCookie_def ReadNamedCookie_def a t_def)
  have v: "Valid t" using assms(2) by (simp add: t_def id_defs)
  have rt: "routedTenant a ?ctx = Inr t" using v by (simp add: routedTenant_Inr a TenantFromContext_def)
  have ck: "NamedCookieValue ?ctx refreshCookieSlotName = (tok, True)" using assms(4) by (simp add: NamedCookieValue_def alist_simps)
  have svc: "svRefresh (arSvc a) s t tok = asAuthResult (Refresh C K L d s t tok)" by (simp add: a pooledPort_def newPooledIdentity_def)
  obtain s' res where r: "Refresh C K L d s t tok = (s', res)" by (cases "Refresh C K L d s t tok")
  have "routeRefresh a r s = (case AuthRefresh a ?ctx s of (s', ctx', ans) \<Rightarrow> (s', Replied ans))"
    by (simp add: routeRefresh_def mounted_Next [OF st])
  then show ?thesis
    by (intro exI [of _ ?ctx]) (cases res; simp add: AuthRefresh_def rt ck svc r asAuthResult_def errIs_def split: prod.split)
qed

lemma routeRefresh_200:
  assumes "NewAuthRoutes (Some (pooledPort K L d ed (newPooledIdentity C j st))) (multitenantAuthConfig enc) = Inr a"
    "routeRefresh a r s = (s', Replied (Some (Inr ans)))" "jsStatusCode ans = 200"
  shows "\<exists>tok u tk. pathValue r ''tenant'' \<noteq> '''' \<and> map_of (rqCookies r) ''mt_refresh'' = Some tok \<and> tok \<noteq> '''' \<and>
    Refresh C K L d s (NewID (pathValue r ''tenant'')) tok = (s', Inr (u, tk)) \<and> carriesSession a (NewID (pathValue r ''tenant'')) tk ans"
proof -
  note a = pooled_built_fields [OF assms(1)]
  have p: "pathValue r ''tenant'' \<noteq> ''''" using assms(2) by (auto simp: routeRefresh_def mounted_def pinRoute_eq)
  have "\<exists>tok. map_of (rqCookies r) ''mt_refresh'' = Some tok \<and> tok \<noteq> ''''"
  proof (rule ccontr)
    assume n: "\<not> ?thesis"
    let ?c = "(rqCtx r)\<lparr>cxTenant := Some (NewID (pathValue r ''tenant'')), cxCookies := AList.update refreshCookieSlotName '''' (cxCookies (rqCtx r))\<rparr>"
    have "serve [pinRoute, ReadRefreshCookie a] r = Next (r\<lparr>rqCtx := ?c\<rparr>)"
      using n p by (auto simp: pinRoute_eq ReadRefreshCookie_def ReadNamedCookie_def a split: option.split)
    then have "routeRefresh a r s = (case AuthRefresh a ?c s of (s', ctx', ans) \<Rightarrow> (s', Replied ans))"
      by (simp add: routeRefresh_def mounted_Next)
    moreover have "routedTenant a ?c = Inr (NewID (pathValue r ''tenant''))" using p by (simp add: routedTenant_Inr a TenantFromContext_def id_defs)
    moreover have "NamedCookieValue ?c refreshCookieSlotName = ('''', False)" by (simp add: NamedCookieValue_def alist_simps)
    ultimately show False using assms(2) by (simp add: AuthRefresh_def)
  qed
  then obtain tok where tok: "map_of (rqCookies r) ''mt_refresh'' = Some tok" "tok \<noteq> ''''" by blast
  obtain s1 res where rf: "Refresh C K L d s (NewID (pathValue r ''tenant'')) tok = (s1, res)" by (cases "Refresh C K L d s (NewID (pathValue r ''tenant'')) tok")
  show ?thesis
  proof (cases res)
    case (Inl err)
    with routeRefresh_eq [OF assms(1) p tok, of s] rf assms(2,3) show ?thesis
      by (auto simp: clearingRefusal_def split: if_splits)
  next
    case (Inr x)
    obtain u tk where x: "x = (u, tk)" by (cases x)
    from routeRefresh_eq [OF assms(1) p tok, of s] rf Inr x assms(2) obtain ctx where
      "s' = s1" "authRes a ctx 200 \<lparr>auUser = Some u, auTokens = tk\<rparr> (NewID (pathValue r ''tenant'')) = Inr ans" by auto
    with p tok rf Inr x show ?thesis by (auto dest: authRes_carries)
  qed
qed

text \<open>A refresh the service refuses without a write is a 401 without a write.\<close>

lemma routeRefresh_refused:
  assumes "NewAuthRoutes (Some (pooledPort K L d ed (newPooledIdentity C j st))) (multitenantAuthConfig enc) = Inr a"
    "pathValue r ''tenant'' \<noteq> ''''" "map_of (rqCookies r) ''mt_refresh'' = Some tok" "tok \<noteq> ''''"
    "Refresh C K L d s (NewID (pathValue r ''tenant'')) tok = (s, Inl ErrInvalidSession)"
  shows "routeRefresh a r s = (s, Replied (Some (Inl (Wire 401 ''UNAUTHENTICATED''))))"
  using routeRefresh_eq [OF assms(1-4), of s] assms(5) by simp

lemma carriesSession_cookie:
  assumes "carriesSession a (NewID v) tk ans" "tkRefresh tk \<noteq> ''''" "v \<noteq> ''''" "arMountPrefix a = authPrefix"
    "arCookies a = \<lparr>ccName = ''mt_refresh'', ccSecure = False, ccMaxAgeSeconds = 0\<rparr>"
  shows "\<exists>ck. jsCookies ans = [ck] \<and> ckName ck = ''mt_refresh'' \<and> ckValue ck = tkRefresh tk \<and> ckHttpOnly ck \<and> ckPath ck = ''/t/'' @ v @ ''/auth''"
proof -
  have "authPrefixFor authPrefix (NewID v) = (''/t/'' @ v @ ''/auth'', True)"
    using assms(3) by (simp add: authPrefixFor_def authPrefix_def TenantPathSegment_def id_defs)
  with assms show ?thesis by (simp add: carriesSession_def authRefreshCookies_def)
qed

lemma Refresh_token_set:
  assumes "Refresh C K L d s t tok = (s', Inr (u, tk))"
  shows "tkRefresh tk \<noteq> ''''"
proof -
  obtain s1 uid aut acr where ttl: "coRefreshTTL C > 0" and i: "issueTokens C K L d s1 uid t aut acr [] = (s', Inr tk)"
    by (rule Refresh_Inr [OF assms])
  have "\<exists>h'. HashRefreshToken K (tkRefresh tk) = Inr h'" by (rule issueTokens_Inr [OF i]) (use ttl in auto)
  then show ?thesis by (auto simp: HashRefreshToken_def)
qed


definition examplePooledSession :: RefreshSession where
  "examplePooledSession = exampleSession\<lparr>rsUserID := ''u''\<rparr>"

definition examplePooledLive :: PooledMem where
  "examplePooledLive = examplePooled\<lparr>tmSessions := [(''r1'', examplePooledSession)], tmByHash := [(''4141'', ''r1'')]\<rparr>"

lemma examplePooledLive_ok: "tenantMemOk examplePooledLive"
proof (rule tenantReach_ok)
  show "tenantReach examplePooledLive"
    by (rule tenantReach.newSession [OF examplePooled_reach, of examplePooledSession])
      (simp_all add: examplePooled_def newTenantStore_def examplePooledSession_def exampleSession_def tsCreateRefreshSession_def examplePooledLive_def)
qed (simp add: examplePooledLive_def examplePooled_def newTenantStore_def)

lemma example_pooled_refresh:
  "snd (routeRefresh (exampleAuthRoutes exampleJWTLib) (exampleRouted ''acme'') examplePooledLive) =
     Replied (Some (Inr \<lparr>jsStatusCode = 200, jsData = \<lparr>aresToken = ''tok'', aresUser = ''u@acme'', aresTOTPRequired = False, aresSessionToken = ''''\<rparr>,
       jsCookies = [\<lparr>ckName = ''mt_refresh'', ckValue = ''CQkJ'', ckPath = ''/t/acme/auth'', ckHttpOnly = True, ckSecure = False,
                     ckSameSite = SameSiteLaxMode, ckMaxAge = 0\<rparr>]\<rparr>))"
  by code_simp


section \<open>The second leg, end to end\<close>

lemma pending_verifies:
  assumes "hs256Ok L" "defaultPath j0" "defaultPath j" "jSecret j = jSecret j0" "jIssuer j = jIssuer j0" "IssueTOTPPending L j0 u t0 = Inr tok"
  shows "VerifyTOTPPending L j tok t = (if t = t0 \<and> jNow j < jNow j0 + totpPendingTTL then Inr u else Inl
    (if \<not> Valid t then TokenTenantRequired else InvalidToken (if jNow j < jNow j0 + totpPendingTTL then WrongTenant else LibraryRejected)))"
proof -
  let ?c = "\<lparr>cAuthTime = 0, cACR = '''', cAMR = [], cPurpose = purposeTOTPPending, cTenantID = IDString t0, cHomeTenantID = '''',
    cActorID = '''', cSubject = u, cIssuer = jIssuer j0, cIssuedAt = jNow j0, cExpiresAt = jNow j0 + totpPendingTTL\<rparr>"
  have s: "signClaims L j0 ?c = Some tok" "Valid t0" "u \<noteq> ''''"
    using assms(6) by (auto simp: IssueTOTPPending_def split: if_splits option.splits)
  have "parseClaims L j tok = (if jNow j < jNow j0 + totpPendingTTL then Inr ?c else Inl (InvalidToken LibraryRejected))"
    using parseClaims_minted [OF assms(1,2) s(1) assms(4,3)] assms(5) by simp
  then show ?thesis using s(2,3) IDString_eq_iff [of t t0] by (auto simp: VerifyTOTPPending_def)
qed

lemma guarded_None:
  "guarded p s t u r = (s', None) \<longleftrightarrow> (\<exists>user. stUserByID (piStore p) s u = Inr user \<and> FromStored (uTenantID user) = t) \<and> r = (s', None)"
  using userIn_Inr [of p s t u] by (cases r; cases "userIn p s t u") (auto simp: guarded_def asError_def)

lemma pooledIssue_Inr:
  "pooledIssueTokensForUser K L d p s t u = (s', Inr res) \<longleftrightarrow>
     (\<exists>user tk. userIn p s t u = Inr user \<and> res = \<lparr>auUser = Some user, auTokens = tk\<rparr> \<and>
        IssueTokensForUser (piCore p) K L d s u t (drNow d) (coDefaultACR (piCore p)) [] = (s', Inr tk))"
  by (auto simp: pooledIssueTokensForUser_def split: sum.splits prod.splits)

text \<open>
  C33. The second leg, through the port, the adapter and the service, over any store. With the pending token of a password step for user u in tenant
  t0, a session leaves the leg only on t0's routes, within five minutes, for u, who is active and stored in t0, and after the code passed:
  six characters as a code of u's second factor, anything else as a recovery code of u's, which is spent by it. On any other tenant's
  routes, or later, the answer is a 401 that reads and writes nothing.
\<close>

theorem second_leg_bound:
  assumes "hs256Ok L" "defaultPath j0" "defaultPath j" "jSecret j = jSecret j0" "jIssuer j = jIssuer j0"
    "IssueTOTPPending L j0 u t0 = Inr tok"
    "NewAuthRoutes (Some (pooledPort K L d ed (newPooledIdentity C j (coStore C)))) (multitenantAuthConfig enc) = Inr a"
    "TenantFromContext ctx = (t, True)" "Valid t"
  shows "(t \<noteq> t0 \<or> jNow j0 + totpPendingTTL \<le> jNow j \<longrightarrow>
      AuthVerifyTOTP a ctx s \<lparr>tvSessionToken = tok, tvCode = code\<rparr> = (s, ctx, Some (Inl (Wire 401 ''UNAUTHENTICATED'')))) \<and>
    (AuthVerifyTOTP a ctx s \<lparr>tvSessionToken = tok, tvCode = code\<rparr> = (s', ctx', Some (Inr ans)) \<longrightarrow>
      t = t0 \<and> jNow j < jNow j0 + totpPendingTTL \<and>
      (\<exists>s1 user tk. (if length code = 6 then s1 = s \<and> VerifyTOTP C K (drNow d) s t0 u code = None
                    else VerifyRecoveryCode C K s t0 u code = (s1, None)) \<and>
        stUserByID (coStore C) s1 u = Inr user \<and> uActive user \<and> FromStored (uTenantID user) = t0 \<and>
        issueTokens C K L d s1 u t0 (drNow d) (coDefaultACR C) [] = (s', Inr tk) \<and> carriesSession a t0 tk ans))"
proof (intro conjI impI)
  note b = pooled_built_fields [OF assms(7)]
  note pv = pending_verifies [OF assms(1-6), of t]
  have rt: "routedTenant a ctx = Inr t" using assms(8,9) by (simp add: routedTenant_Inr b)
  let ?p = "newPooledIdentity C j (coStore C)"
  have sv: "svVerifyTOTPPending (arSvc a) s t tok = map_sum (\<lambda>err. []) id (VerifyTOTPPending L j tok t)"
    by (simp add: b pooledPort_def newPooledIdentity_def)
  show "AuthVerifyTOTP a ctx s \<lparr>tvSessionToken = tok, tvCode = code\<rparr> = (s, ctx, Some (Inl (Wire 401 ''UNAUTHENTICATED'')))"
    if "t \<noteq> t0 \<or> jNow j0 + totpPendingTTL \<le> jNow j"
    using that pv by (auto simp: AuthVerifyTOTP_def rt sv)
  assume "AuthVerifyTOTP a ctx s \<lparr>tvSessionToken = tok, tvCode = code\<rparr> = (s', ctx', Some (Inr ans))"
  from AuthVerifyTOTP_Inr [OF this, unfolded TOTPVerifyReq.select_convs] obtain tid v s1 and res :: AuthResult where x: "arTenant a ctx = (tid, True)"
    "svVerifyTOTPPending (arSvc a) s tid tok = Inr v"
    "(if length code = 6 then svVerifyTOTP (arSvc a) s tid v code else svVerifyRecoveryCode (arSvc a) s tid v code) = (s1, None)"
    "svIssueTokensForUser (arSvc a) s1 tid v = (s', Inr res)" "carriesSession a tid (auTokens res) ans"
    by blast
  have "tid = t" using x(1) assms(8) b by simp
  then have t: "tid = t0" "v = u" "t = t0" "jNow j < jNow j0 + totpPendingTTL"
    using x(2) sv pv by (auto split: if_splits)
  have code: "if length code = 6 then s1 = s \<and> VerifyTOTP C K (drNow d) s t0 u code = None else VerifyRecoveryCode C K s t0 u code = (s1, None)"
    using x(3) t by (auto simp: b pooledPort_def guarded_None newPooledIdentity_def split: if_splits)
  have "pooledIssueTokensForUser K L d ?p s1 t0 u = (s', Inr res)" using x(4) t by (simp add: b pooledPort_def)
  then obtain user tk where i: "userIn ?p s1 t0 u = Inr user" "res = \<lparr>auUser = Some user, auTokens = tk\<rparr>"
    "IssueTokensForUser C K L d s1 u t0 (drNow d) (coDefaultACR C) [] = (s', Inr tk)"
    unfolding pooledIssue_Inr by (auto simp: newPooledIdentity_def)
  from i(1) have us: "stUserByID (coStore C) s1 u = Inr user" "FromStored (uTenantID user) = t0" by (simp_all add: userIn_Inr newPooledIdentity_def)
  with i(3) have "uActive user" "issueTokens C K L d s1 u t0 (drNow d) (coDefaultACR C) [] = (s', Inr tk)"
    by (auto simp: IssueTokensForUser_def split: sum.splits if_splits)
  note issued = this
  show "t = t0" "jNow j < jNow j0 + totpPendingTTL" by (fact t(3), fact t(4))
  have "carriesSession a t0 tk ans" using x(5) i(2) t(1) by simp
  then show "\<exists>s1 user tk. (if length code = 6 then s1 = s \<and> VerifyTOTP C K (drNow d) s t0 u code = None
                    else VerifyRecoveryCode C K s t0 u code = (s1, None)) \<and>
        stUserByID (coStore C) s1 u = Inr user \<and> uActive user \<and> FromStored (uTenantID user) = t0 \<and>
        issueTokens C K L d s1 u t0 (drNow d) (coDefaultACR C) [] = (s', Inr tk) \<and> carriesSession a t0 tk ans"
    by (intro exI [of _ s1] exI [of _ user] exI [of _ tk] conjI code us issued)
qed

definition examplePending :: Claims where
  "examplePending = \<lparr>cAuthTime = 0, cACR = '''', cAMR = [], cPurpose = purposeTOTPPending, cTenantID = ''acme'', cHomeTenantID = '''',
     cActorID = '''', cSubject = ''u1'', cIssuer = ''tamper'', cIssuedAt = 90, cExpiresAt = 90 + totpPendingTTL\<rparr>"

definition exampleAccess :: Claims where
  "exampleAccess = \<lparr>cAuthTime = 100, cACR = ACRLocalPassword, cAMR = [], cPurpose = purposeAccess, cTenantID = ''acme'', cHomeTenantID = '''',
     cActorID = '''', cSubject = ''u1'', cIssuer = ''tamper'', cIssuedAt = 100, cExpiresAt = 1000\<rparr>"

text \<open>A token library that signs two sets of claims and verifies what it signed.\<close>

definition pairLib :: "Claims \<Rightarrow> Claims \<Rightarrow> JWTLib" where
  "pairLib c0 c1 = (oneTokenLib c0)
     \<lparr>libSignHS256 := (\<lambda>_ c. if c = c0 then Some ''tok'' else if c = c1 then Some ''acc'' else None),
      libParse := (\<lambda>_ issuer now tok.
        if tok = ''tok'' \<and> cIssuer c0 = issuer \<and> now < cExpiresAt c0 then Some c0
        else if tok = ''acc'' \<and> cIssuer c1 = issuer \<and> now < cExpiresAt c1 then Some c1 else None)\<rparr>"

lemma pairLib_ok: "hs256Ok (pairLib c0 c1)"
  by (auto simp: hs256Ok_def pairLib_def)

definition pendingLib :: JWTLib where
  "pendingLib = pairLib examplePending exampleAccess"

lemma pendingLib_ok: "hs256Ok pendingLib"
  by (simp add: pendingLib_def pairLib_ok)

lemma example_services: "defaultPath (exampleService n)" "jSecret (exampleService n) = ''s''" "jIssuer (exampleService n) = ''tamper''" "jNow (exampleService n) = n"
  by (simp_all add: exampleService_def defaultPath_def)

lemma example_pending: "IssueTOTPPending pendingLib (exampleService 90) ''u1'' (NewID ''acme'') = Inr ''tok''"
  by code_simp

definition exampleSecondPort :: "IdentMem IdentityService" where
  "exampleSecondPort = pooledPort exampleCrypto pendingLib Identity_Sessions.exampleDraw exampleEnroll0
     (newPooledIdentity exampleCore (exampleService 100) (coStore exampleCore))"

definition exampleSecond :: "IdentMem AuthRoutes" where
  "exampleSecond = \<lparr>arSvc = exampleSecondPort, arMountPrefix = authPrefix, arTenant = TenantFromContext,
     arCookies = \<lparr>ccName = ''mt_refresh'', ccSecure = False, ccMaxAgeSeconds = 0\<rparr>, arProjectUser = projectUser exampleEnc,
     arOnAuthenticated = SetAuditActor, arOnTOTPEnrolledViaSession = None\<rparr>"

lemma exampleSecond_built: "NewAuthRoutes (Some exampleSecondPort) (multitenantAuthConfig exampleEnc) = Inr exampleSecond"
  by (simp add: NewAuthRoutes_def multitenantAuthConfig_def authPrefix_def TenantPathSegment_def suffix_def exampleSecond_def)

lemma example_second_leg:
  "snd (snd (AuthVerifyTOTP exampleSecond (emptyCtx\<lparr>cxTenant := Some (NewID ''acme'')\<rparr>) exampleTotpMem
     \<lparr>tvSessionToken = ''tok'', tvCode = ''aaaaa aaaaa''\<rparr>)) =
   Some (Inr \<lparr>jsStatusCode = 200, jsData = \<lparr>aresToken = ''acc'', aresUser = ''u1@acme'', aresTOTPRequired = False, aresSessionToken = ''''\<rparr>,
     jsCookies = [\<lparr>ckName = ''mt_refresh'', ckValue = ''CQkJ'', ckPath = ''/t/acme/auth'', ckHttpOnly = True, ckSecure = False,
                   ckSameSite = SameSiteLaxMode, ckMaxAge = 0\<rparr>]\<rparr>)"
  by code_simp

theorem second_leg_bound_witness:
  "(\<exists>s' ctx' ans. AuthVerifyTOTP exampleSecond (emptyCtx\<lparr>cxTenant := Some (NewID ''acme'')\<rparr>) exampleTotpMem
      \<lparr>tvSessionToken = ''tok'', tvCode = ''aaaaa aaaaa''\<rparr> = (s', ctx', Some (Inr ans)) \<and>
      (\<exists>s1. VerifyRecoveryCode exampleCore exampleCrypto exampleTotpMem (NewID ''acme'') ''u1'' ''aaaaa aaaaa'' = (s1, None))) \<and>
   AuthVerifyTOTP exampleSecond (emptyCtx\<lparr>cxTenant := Some (NewID ''globex'')\<rparr>) exampleTotpMem
     \<lparr>tvSessionToken = ''tok'', tvCode = ''aaaaa aaaaa''\<rparr> =
     (exampleTotpMem, emptyCtx\<lparr>cxTenant := Some (NewID ''globex'')\<rparr>, Some (Inl (Wire 401 ''UNAUTHENTICATED'')))"
proof
  note b = second_leg_bound [OF pendingLib_ok example_services(1) example_services(1) _ _ example_pending exampleSecond_built [unfolded exampleSecondPort_def]]
  have c: "TenantFromContext (emptyCtx\<lparr>cxTenant := Some (NewID v)\<rparr>) = (NewID v, True)" "v \<noteq> '''' \<Longrightarrow> Valid (NewID v)" for v
    by (simp_all add: TenantFromContext_def id_defs)
  let ?req = "\<lparr>tvSessionToken = ''tok'', tvCode = ''aaaaa aaaaa''\<rparr>"
  obtain s' ctx' x where r0: "AuthVerifyTOTP exampleSecond (emptyCtx\<lparr>cxTenant := Some (NewID ''acme'')\<rparr>) exampleTotpMem ?req = (s', ctx', x)"
    by (metis prod_cases3)
  have "\<exists>ans. x = Some (Inr ans)" using example_second_leg unfolding r0 snd_conv by blast
  then obtain ans where r: "AuthVerifyTOTP exampleSecond (emptyCtx\<lparr>cxTenant := Some (NewID ''acme'')\<rparr>) exampleTotpMem ?req = (s', ctx', Some (Inr ans))"
    using r0 by blast
  have l: "length ''aaaaa aaaaa'' \<noteq> 6" by simp
  from b [OF _ _ c(1) c(2), THEN conjunct2, rule_format, OF _ _ _ r] l
  have "\<exists>s1. VerifyRecoveryCode exampleCore exampleCrypto exampleTotpMem (NewID ''acme'') ''u1'' ''aaaaa aaaaa'' = (s1, None)"
    by (auto simp: example_services)
  with r show "\<exists>s' ctx' ans. AuthVerifyTOTP exampleSecond (emptyCtx\<lparr>cxTenant := Some (NewID ''acme'')\<rparr>) exampleTotpMem ?req = (s', ctx', Some (Inr ans)) \<and>
      (\<exists>s1. VerifyRecoveryCode exampleCore exampleCrypto exampleTotpMem (NewID ''acme'') ''u1'' ''aaaaa aaaaa'' = (s1, None))" by blast
  have "NewID ''globex'' \<noteq> NewID ''acme''" by (simp add: NewID_def)
  then show "AuthVerifyTOTP exampleSecond (emptyCtx\<lparr>cxTenant := Some (NewID ''globex'')\<rparr>) exampleTotpMem ?req =
     (exampleTotpMem, emptyCtx\<lparr>cxTenant := Some (NewID ''globex'')\<rparr>, Some (Inl (Wire 401 ''UNAUTHENTICATED'')))"
    using b [OF _ _ c(1) c(2), THEN conjunct1] by (simp add: example_services)
qed

section \<open>Entering another tenant\<close>

text \<open>\<^verbatim>\<open>enter.go\<close>: the bodies the two routes of the example write by hand, with their status.\<close>

datatype enter_body = EnterResponse string string | WhoamiResponse string string string bool | ErrorBody string

definition enterTenantRoute :: "'s Core \<Rightarrow> JWTLib \<Rightarrow> string \<Rightarrow> request_ctx \<Rightarrow> 's \<Rightarrow> ('s, int \<times> enter_body) handled" where
  "enterTenantRoute C L target ctx s =
     (case AccessClaimsFromContext ctx of
        None \<Rightarrow> (s, ctx, Some (Inr (401, ErrorBody ''unauthenticated'')))
      | Some claims \<Rightarrow> (case EnterTenant C L s (Some claims) (NewID target) of
          (s, Inr tok) \<Rightarrow> (s, ctx, Some (Inr (200, EnterResponse (tkAccess tok) target)))
        | (s, Inl err) \<Rightarrow> (s, ctx, Some (Inr
            (if err = IErrNotFound then (404, ErrorBody ''not found'')
             else if err = ErrUserInactive then (401, ErrorBody ''user is inactive'')
             else (500, ErrorBody ''internal error''))))))"

definition whoami :: "request_ctx \<Rightarrow> 's \<Rightarrow> ('s, int \<times> enter_body) handled" where
  "whoami ctx s =
     (case AccessClaimsFromContext ctx of
        None \<Rightarrow> (s, ctx, Some (Inr (401, ErrorBody ''unauthenticated'')))
      | Some claims \<Rightarrow> (s, ctx, Some (Inr (200,
          WhoamiResponse (cSubject claims) (cTenantID claims) (ActorTenantID claims) (cHomeTenantID claims \<noteq> '''')))))"

definition enterTenantFromPath :: "'s Core \<Rightarrow> JWTLib \<Rightarrow> request \<Rightarrow> request_ctx \<Rightarrow> 's \<Rightarrow> ('s, int \<times> enter_body) handled" where
  "enterTenantFromPath C L r = enterTenantRoute C L (pathValue r ''target'')"

definition guestsToo :: middleware where
  "guestsToo = the (RequireTenantAllowEntered (Some TenantFromRoutedContext))"

definition routeWhoami :: "JWTLib \<Rightarrow> JWTService \<Rightarrow> request \<Rightarrow> 's \<Rightarrow> 's \<times> (int \<times> enter_body) route_reply" where
  "routeWhoami L j = mounted [pinRoute, RequireAuth L j, guestsToo] whoami"

definition routeEnter :: "'s Core \<Rightarrow> JWTLib \<Rightarrow> JWTService \<Rightarrow> request \<Rightarrow> 's \<Rightarrow> 's \<times> (int \<times> enter_body) route_reply" where
  "routeEnter C L j r = mounted [pinRoute, RequireAuth L j, ownTenantOnly] (enterTenantFromPath C L r) r"

lemma gate_apply:
  assumes "cxTenant (rqCtx r) = Some t" "Valid t" "cxClaims (rqCtx r) = Some c"
  shows "ownTenantOnly r = (if cTenantID c = IDString t \<and> \<not> Impersonated c \<and> \<not> Entered c
      then Next (r\<lparr>rqCtx := (rqCtx r)\<lparr>cxTenant := Some t\<rparr>\<rparr>) else Stop (Unauthenticated ''invalid token''))"
    and "guestsToo r = (if cTenantID c = IDString t \<and> \<not> Impersonated c
      then Next (r\<lparr>rqCtx := (rqCtx r)\<lparr>cxTenant := Some t\<rparr>\<rparr>) else Stop (Unauthenticated ''invalid token''))"
  using assms by (simp_all add: ownTenantOnly_def guestsToo_def RequireTenant_def RequireTenantAllowEntered_def requireTenant_def
      TenantFromRoutedContext_def TenantFromContext_def tokenFitsTenant_def AccessClaimsFromContext_def)

text \<open>What the three protected routes do with a verified token.\<close>

lemma protected_stacks:
  assumes "pathValue r ''tenant'' \<noteq> ''''" "bearerToken (rqAuthorization r) = Inr tok" "ParseAccess L j tok = Inr c"
  defines "ctx \<equiv> (decorateAuthed ((rqCtx r)\<lparr>cxTenant := Some (NewID (pathValue r ''tenant''))\<rparr>) c)"
  shows "serve [pinRoute, RequireAuth L j, ownTenantOnly] r =
      (if cTenantID c = pathValue r ''tenant'' \<and> \<not> Impersonated c \<and> \<not> Entered c then Next (r\<lparr>rqCtx := ctx\<rparr>) else Stop (Unauthenticated ''invalid token''))"
    and "serve [pinRoute, RequireAuth L j, guestsToo] r =
      (if cTenantID c = pathValue r ''tenant'' \<and> \<not> Impersonated c then Next (r\<lparr>rqCtx := ctx\<rparr>) else Stop (Unauthenticated ''invalid token''))"
    and "cxClaims ctx = Some c"
proof -
  let ?t = "NewID (pathValue r ''tenant'')"
  have t: "Valid ?t" using assms(1) by (simp add: id_defs)
  have c: "cxTenant ctx = Some ?t" "cxClaims ctx = Some c" by (simp_all add: ctx_def decorateAuthed_def WithActor_def)
  have same: "ctx\<lparr>cxTenant := Some ?t\<rparr> = ctx" by (simp add: ctx_def decorateAuthed_def WithActor_def)
  have a: "RequireAuth L j (r\<lparr>rqCtx := (rqCtx r)\<lparr>cxTenant := Some ?t\<rparr>\<rparr>) = Next (r\<lparr>rqCtx := ctx\<rparr>)"
    using assms(2,3) by (simp add: RequireAuth_def ctx_def)
  note g = gate_apply [of "r\<lparr>rqCtx := ctx\<rparr>" ?t c]
  show "serve [pinRoute, RequireAuth L j, ownTenantOnly] r =
      (if cTenantID c = pathValue r ''tenant'' \<and> \<not> Impersonated c \<and> \<not> Entered c then Next (r\<lparr>rqCtx := ctx\<rparr>) else Stop (Unauthenticated ''invalid token''))"
    using g(1) t c same assms(1) by (simp add: pinRoute_eq a)
  show "serve [pinRoute, RequireAuth L j, guestsToo] r =
      (if cTenantID c = pathValue r ''tenant'' \<and> \<not> Impersonated c then Next (r\<lparr>rqCtx := ctx\<rparr>) else Stop (Unauthenticated ''invalid token''))"
    using g(2) t c same assms(1) by (simp add: pinRoute_eq a)
  show "cxClaims ctx = Some c" by (rule c)
qed

text \<open>A guest pass on the routes: the whoami of its tenant, and no other.\<close>

lemma guest_pass_routes:
  assumes "ParseAccess L j tok = Inr g" "Entered g" "\<not> Impersonated g" "bearerToken (rqAuthorization r) = Inr tok" "pathValue r ''tenant'' \<noteq> ''''"
  shows "routeWhoami L j r s = (s, if pathValue r ''tenant'' = cTenantID g
      then Replied (Some (Inr (200, WhoamiResponse (cSubject g) (cTenantID g) (ActorTenantID g) True))) else Refused (Unauthenticated ''invalid token''))"
    and "routeMe L j a r s = (s, Refused (Unauthenticated ''invalid token''))"
    and "routeEnter C L j r s = (s, Refused (Unauthenticated ''invalid token''))"
proof -
  note p = protected_stacks [OF assms(5,4,1)]
  have h: "cHomeTenantID g \<noteq> ''''" using assms(2) by (simp add: Entered_def)
  have n: "serve [pinRoute, RequireAuth L j, ownTenantOnly] r = Stop (Unauthenticated ''invalid token'')" using p(1) assms(2) by (simp del: serve.simps)
  show "routeMe L j a r s = (s, Refused (Unauthenticated ''invalid token''))" by (simp only: routeMe_def mounted_def n outcome.case)
  show "routeEnter C L j r s = (s, Refused (Unauthenticated ''invalid token''))" by (simp only: routeEnter_def mounted_def n outcome.case)
  show "routeWhoami L j r s = (s, if pathValue r ''tenant'' = cTenantID g
      then Replied (Some (Inr (200, WhoamiResponse (cSubject g) (cTenantID g) (ActorTenantID g) True))) else Refused (Unauthenticated ''invalid token''))"
    unfolding routeWhoami_def mounted_def p(2) using assms(3) p(3) h by (auto simp: whoami_def AccessClaimsFromContext_def)
qed

lemma routeEnter_200:
  assumes "routeEnter C L j r s = (s', Replied (Some (Inr (200, EnterResponse tok target))))"
  shows "\<exists>sess c tk. bearerToken (rqAuthorization r) = Inr sess \<and> ParseAccess L j sess = Inr c \<and> cTenantID c = pathValue r ''tenant'' \<and>
    pathValue r ''tenant'' \<noteq> '''' \<and> \<not> Impersonated c \<and> \<not> Entered c \<and> target = pathValue r ''target'' \<and>
    EnterTenant C L s (Some c) (NewID target) = (s', Inr tk) \<and> tok = tkAccess tk"
proof -
  have p: "pathValue r ''tenant'' \<noteq> ''''" using assms by (auto simp: routeEnter_def mounted_def pinRoute_eq)
  have "\<exists>sess c. bearerToken (rqAuthorization r) = Inr sess \<and> ParseAccess L j sess = Inr c"
    using assms p by (auto simp: routeEnter_def mounted_def pinRoute_eq RequireAuth_def split: sum.splits)
  then obtain sess c where b: "bearerToken (rqAuthorization r) = Inr sess" "ParseAccess L j sess = Inr c" by blast
  note st = protected_stacks [OF p b]
  have g: "cTenantID c = pathValue r ''tenant''" "\<not> Impersonated c" "\<not> Entered c"
    using assms unfolding routeEnter_def mounted_def st(1) by (auto split: if_splits)
  have "AccessClaimsFromContext (decorateAuthed ((rqCtx r)\<lparr>cxTenant := Some (NewID (pathValue r ''tenant''))\<rparr>) c) = Some c"
    using st(3) by (simp add: AccessClaimsFromContext_def)
  then obtain tk where "target = pathValue r ''target''" "EnterTenant C L s (Some c) (NewID (pathValue r ''target'')) = (s', Inr tk)" "tok = tkAccess tk"
    using assms g unfolding routeEnter_def mounted_def st(1)
    by (auto simp: enterTenantFromPath_def enterTenantRoute_def split: prod.splits sum.splits if_splits)
  with b p g show ?thesis by blast
qed

text \<open>
  C34. \<^verbatim>\<open>POST /t/{tenant}/auth/enter/{target}\<close>. A guest pass leaves only for the bearer of an own, plain token of the tenant in the path, an active
  user stored there and granted the other tenant, and nothing is written. On the routes it opens the target's whoami, which names the
  user and the home tenant, until it expires: nobody's account route accepts it, and it enters nothing further.
\<close>

theorem enter_route_guest_pass:
  assumes "hs256Ok L" "defaultPath j" "coJWT C = Some j" "coStore C = tenantStore" "coMemberships C = Some tenantMemberships"
    "hkOnTenantEntered (coHooks C) = None"
    "routeEnter C L j r k = (k', Replied (Some (Inr (200, EnterResponse tok target))))"
  shows "k' = k \<and> target = pathValue r ''target'' \<and> target \<noteq> pathValue r ''tenant'' \<and>
    (\<exists>sess c user. bearerToken (rqAuthorization r) = Inr sess \<and> ParseAccess L j sess = Inr c \<and> cTenantID c = pathValue r ''tenant'' \<and>
      \<not> Impersonated c \<and> \<not> Entered c \<and> tsUserByID k (cSubject c) = Inr user \<and> uTenantID user = pathValue r ''tenant'' \<and> uActive user \<and>
      tsIsMember k (cSubject c) (NewID target) = Inr True \<and>
      (\<forall>n q s. n < jNow j + cutTTL j (coEnterTTL C) \<and> bearerToken (rqAuthorization q) = Inr tok \<and> pathValue q ''tenant'' \<noteq> '''' \<longrightarrow>
         routeWhoami L (j\<lparr>jNow := n\<rparr>) q s = (s, if pathValue q ''tenant'' = target
           then Replied (Some (Inr (200, WhoamiResponse (cSubject c) target (pathValue r ''tenant'') True)))
           else Refused (Unauthenticated ''invalid token'')) \<and>
         routeMe L (j\<lparr>jNow := n\<rparr>) a q s = (s, Refused (Unauthenticated ''invalid token'')) \<and>
         routeEnter C L (j\<lparr>jNow := n\<rparr>) q s = (s, Refused (Unauthenticated ''invalid token''))))"
proof -
  obtain sess c tk where x: "bearerToken (rqAuthorization r) = Inr sess" "ParseAccess L j sess = Inr c" "cTenantID c = pathValue r ''tenant''"
    "pathValue r ''tenant'' \<noteq> ''''" "\<not> Impersonated c" "\<not> Entered c" "target = pathValue r ''target''"
    "EnterTenant C L k (Some c) (NewID target) = (k', Inr tk)" "tok = tkAccess tk"
    using routeEnter_200 [OF assms(7)] by blast
  obtain user where u: "Valid (NewID target)" "mayEnter C tenantMemberships k c user (NewID target)" "uActive user"
    "IssueAccessEntered L j (cSubject c) (NewID target) (FromStored (uTenantID user)) (cAuthTime c) (cACR c) (coEnterTTL C) [] = Inr tok" "k' = k"
    by (rule EnterTenant_Inr [OF x(8)]) (use assms(3,5,6) x(9) in auto)
  have m: "tsUserByID k (cSubject c) = Inr user" "uTenantID user = pathValue r ''tenant''" "tsIsMember k (cSubject c) (NewID target) = Inr True"
    "FromStored (uTenantID user) \<noteq> NewID target"
    using u(2) x(3) assms(4) by (simp_all add: mayEnter_def tenantStore_def tenantMemberships_def)
  have t: "target \<noteq> ''''" using u(1) by (auto simp: id_defs)
  have ne: "target \<noteq> pathValue r ''tenant''" using m(2,4) t by (auto simp: FromStored_NewID)
  have guest: "routeWhoami L (j\<lparr>jNow := n\<rparr>) q s = (s, if pathValue q ''tenant'' = target
           then Replied (Some (Inr (200, WhoamiResponse (cSubject c) target (pathValue r ''tenant'') True)))
           else Refused (Unauthenticated ''invalid token'')) \<and>
         routeMe L (j\<lparr>jNow := n\<rparr>) a q s = (s, Refused (Unauthenticated ''invalid token'')) \<and>
         routeEnter C L (j\<lparr>jNow := n\<rparr>) q s = (s, Refused (Unauthenticated ''invalid token''))"
    if "n < jNow j + cutTTL j (coEnterTTL C)" "bearerToken (rqAuthorization q) = Inr tok" "pathValue q ''tenant'' \<noteq> ''''" for n q s
  proof -
    have "\<exists>g. VerifyAccess L (j\<lparr>jNow := n\<rparr>) tok (NewID target) = Inr g"
      using entered_verifies [OF assms(1,2) u(4), of n "NewID target", THEN conjunct2] that(1) by simp
    then obtain g where g: "VerifyAccess L (j\<lparr>jNow := n\<rparr>) tok (NewID target) = Inr g" ..
    with entered_verifies [OF assms(1,2) u(4), of n "NewID target" g]
    have f: "Entered g" "\<not> Impersonated g" "cSubject g = cSubject c" "cTenantID g = target" "ActorTenantID g = pathValue r ''tenant''"
      using m(2) by simp_all
    have "ParseAccess L (j\<lparr>jNow := n\<rparr>) tok = Inr g" using g by (simp add: VerifyAccess_Inr_iff)
    note gp = guest_pass_routes [OF this f(1,2) that(2,3), unfolded f(3-5)]
    show ?thesis by (intro conjI gp)
  qed
  then have all: "\<forall>n q s. n < jNow j + cutTTL j (coEnterTTL C) \<and> bearerToken (rqAuthorization q) = Inr tok \<and> pathValue q ''tenant'' \<noteq> '''' \<longrightarrow>
         routeWhoami L (j\<lparr>jNow := n\<rparr>) q s = (s, if pathValue q ''tenant'' = target
           then Replied (Some (Inr (200, WhoamiResponse (cSubject c) target (pathValue r ''tenant'') True)))
           else Refused (Unauthenticated ''invalid token'')) \<and>
         routeMe L (j\<lparr>jNow := n\<rparr>) a q s = (s, Refused (Unauthenticated ''invalid token'')) \<and>
         routeEnter C L (j\<lparr>jNow := n\<rparr>) q s = (s, Refused (Unauthenticated ''invalid token''))"
    by (intro allI impI, elim conjE) (rule guest)
  show ?thesis
    by (intro conjI, fact u(5), fact x(7), fact ne, rule exI [of _ sess], rule exI [of _ c], rule exI [of _ user])
      (intro conjI; fact x(1,2,3,5,6) m(1-3) u(3) all)
qed

definition exampleGuest :: Claims where
  "exampleGuest = \<lparr>cAuthTime = 90, cACR = ''acr'', cAMR = [], cPurpose = purposeAccess, cTenantID = ''globex'', cHomeTenantID = ''acme'',
     cActorID = '''', cSubject = ''u'', cIssuer = ''tamper'', cIssuedAt = 100, cExpiresAt = 400\<rparr>"

definition exampleGranted :: PooledMem where
  "exampleGranted = grantMembership examplePooled ''u'' (NewID ''globex'')"

definition exampleEntering :: "string \<Rightarrow> string \<Rightarrow> request" where
  "exampleEntering authorization tenantID =
     (exampleRequest authorization)\<lparr>rqPathValues := [(''tenant'', tenantID), (''target'', ''globex'')]\<rparr>"

lemma example_enter:
  "snd (routeEnter examplePooledCore (pairLib exampleOwn exampleGuest) (exampleService 100) (exampleEntering ''Bearer tok'' ''acme'') exampleGranted) =
     Replied (Some (Inr (200, EnterResponse ''acc'' ''globex'')))"
  by code_simp

theorem enter_route_guest_pass_witness:
  "routeEnter examplePooledCore (pairLib exampleOwn exampleGuest) (exampleService 100) (exampleEntering ''Bearer tok'' ''acme'') exampleGranted =
     (exampleGranted, Replied (Some (Inr (200, EnterResponse ''acc'' ''globex'')))) \<and>
   routeWhoami (pairLib exampleOwn exampleGuest) (exampleService 350) (exampleEntering ''Bearer acc'' ''globex'') exampleGranted =
     (exampleGranted, Replied (Some (Inr (200, WhoamiResponse ''u'' ''globex'' ''acme'' True)))) \<and>
   routeMe (pairLib exampleOwn exampleGuest) (exampleService 350) (exampleAuthRoutes exampleJWTLib) (exampleEntering ''Bearer acc'' ''globex'') exampleGranted =
     (exampleGranted, Refused (Unauthenticated ''invalid token''))"
proof -
  let ?L = "pairLib exampleOwn exampleGuest" and ?j = "exampleService 100" and ?r = "exampleEntering ''Bearer tok'' ''acme''"
  obtain k' where r: "routeEnter examplePooledCore ?L ?j ?r exampleGranted = (k', Replied (Some (Inr (200, EnterResponse ''acc'' ''globex''))))"
    using example_enter by (metis prod.collapse)
  have w: "coJWT examplePooledCore = Some ?j" "coStore examplePooledCore = tenantStore" "coMemberships examplePooledCore = Some tenantMemberships"
    "hkOnTenantEntered (coHooks examplePooledCore) = None" "coEnterTTL examplePooledCore = 300"
    by (simp_all add: examplePooledCore_def defaultCore_def)
  have b: "bearerToken ''Bearer tok'' = Inr ''tok''" "bearerToken ''Bearer acc'' = Inr ''acc''" by code_simp+
  have p: "ParseAccess ?L ?j ''tok'' = Inr exampleOwn" by code_simp
  have q: "rqAuthorization (exampleEntering x y) = x" "pathValue (exampleEntering x y) ''tenant'' = y" for x y
    by (simp_all add: exampleEntering_def exampleRequest_def pathValue_def)
  have n: "350 < jNow ?j + cutTTL ?j 300" "?j\<lparr>jNow := 350\<rparr> = exampleService 350" by (simp_all add: exampleService_def cutTTL_def)
  from enter_route_guest_pass [OF pairLib_ok example_services(1) w(1-4) r, of "exampleAuthRoutes exampleJWTLib"] obtain sess c where
    "k' = exampleGranted" "bearerToken (rqAuthorization ?r) = Inr sess" "ParseAccess ?L ?j sess = Inr c"
    and g: "\<forall>m q s. m < jNow ?j + cutTTL ?j 300 \<and> bearerToken (rqAuthorization q) = Inr ''acc'' \<and> pathValue q ''tenant'' \<noteq> '''' \<longrightarrow>
         routeWhoami ?L (?j\<lparr>jNow := m\<rparr>) q s = (s, if pathValue q ''tenant'' = ''globex''
           then Replied (Some (Inr (200, WhoamiResponse (cSubject c) ''globex'' (pathValue ?r ''tenant'') True)))
           else Refused (Unauthenticated ''invalid token'')) \<and>
         routeMe ?L (?j\<lparr>jNow := m\<rparr>) (exampleAuthRoutes exampleJWTLib) q s = (s, Refused (Unauthenticated ''invalid token''))"
    unfolding w(5) by blast
  then have c: "k' = exampleGranted" "cSubject c = ''u''" using b(1) p q(1) by (auto simp: exampleOwn_def)
  from g [rule_format, of 350 "exampleEntering ''Bearer acc'' ''globex''" exampleGranted] n b(2) q c(2) r c(1) show ?thesis by simp
qed

end
