(* ===== verification/Scim_Store.thy ===== *)
theory Scim_Store
  imports Scim_Patch Audit_Event
begin

text \<open>
  Package \<^verbatim>\<open>scim\<close>, the persistence ports of the transport (\<^verbatim>\<open>store.go\<close>): the neutral records, what a write carries, and the two
  interfaces as records of functions over the implementation's state. The context a port is handed is the audit package's part of
  the request's. Of an error the transport reads three things: the sentinels \<^verbatim>\<open>errors.Is\<close> finds in it, the messages under
  \<^verbatim>\<open>Unwrap() []error\<close>, and its own message. A read leaves the state alone, except the lists, which an implementation audits.
  The isolation contract of the interfaces is the locale \<^verbatim>\<open>scim_directory\<close>.
\<close>

section \<open>Records\<close>

record ScimEmail =
  emValue :: string
  emPrimary :: bool
  emType :: string

record UserRecord =
  urID :: string
  urUserName :: string
  urFamilyName :: string
  urGivenName :: string
  urEmails :: "ScimEmail list"
  urActive :: bool
  urExternalID :: string
  urCreated :: go_time
  urUpdated :: go_time

record UserWrite =
  uwUserName :: string
  uwFamilyName :: string
  uwGivenName :: string
  uwActive :: bool
  uwExternalID :: string

record UserPage =
  upUsers :: "UserRecord list"
  upTotal :: int

record WriteMeta =
  wmIfMatchPresent :: bool
  wmBefore :: "UserRecord option"

record MemberRef =
  mrValue :: string
  mrType :: string

record GroupRecord =
  grID :: string
  grDisplayName :: string
  grExternalID :: string
  grMembers :: "MemberRef list"
  grCreated :: go_time
  grUpdated :: go_time

record GroupWrite =
  gwDisplayName :: string
  gwExternalID :: string
  gwMembers :: "MemberRef list"
  gwActorServiceAccountID :: string

record GroupPage =
  gpGroups :: "GroupRecord list"
  gpTotal :: int

record GroupWriteMeta =
  gmIfMatchPresent :: bool
  gmBefore :: "GroupRecord option"

section \<open>Errors\<close>

record store_error =
  seIs :: "scim_err list"
  seParts :: "string list"
  seText :: string

definition storeErrIs :: "store_error \<Rightarrow> scim_err \<Rightarrow> bool" where
  "storeErrIs err sentinel = (sentinel \<in> set (seIs err))"

text \<open>A cycle error names its two groups, so it is recognised by its constructor.\<close>

definition storeErrCyclic :: "store_error \<Rightarrow> bool" where
  "storeErrCyclic err = list_ex (\<lambda>e. case e of ErrCyclicGroup _ _ \<Rightarrow> True | _ \<Rightarrow> False) (seIs err)"

section \<open>Ports\<close>

record ('s, 'c) UserStore =
  usCreate :: "'s \<Rightarrow> 'c \<Rightarrow> ID \<Rightarrow> UserWrite \<Rightarrow> WriteMeta \<Rightarrow> 's \<times> (store_error + UserRecord)"
  usGet :: "'s \<Rightarrow> 'c \<Rightarrow> ID \<Rightarrow> string \<Rightarrow> store_error + UserRecord"
  usReplace :: "'s \<Rightarrow> 'c \<Rightarrow> ID \<Rightarrow> string \<Rightarrow> UserWrite \<Rightarrow> WriteMeta \<Rightarrow> 's \<times> (store_error + UserRecord)"
  usDelete :: "'s \<Rightarrow> 'c \<Rightarrow> ID \<Rightarrow> string \<Rightarrow> WriteMeta \<Rightarrow> 's \<times> store_error option"
  usSavePatch :: "'s \<Rightarrow> 'c \<Rightarrow> ID \<Rightarrow> string \<Rightarrow> UserWrite \<Rightarrow> Operation list \<Rightarrow> 's \<times> (store_error + UserRecord)"
  usListFiltered :: "'s \<Rightarrow> 'c \<Rightarrow> ID \<Rightarrow> int \<Rightarrow> int \<Rightarrow> string \<Rightarrow> 's \<times> (store_error + UserPage)"

record ('s, 'c) GroupStore =
  gsCreate :: "'s \<Rightarrow> 'c \<Rightarrow> ID \<Rightarrow> GroupWrite \<Rightarrow> GroupWriteMeta \<Rightarrow> 's \<times> (store_error + GroupRecord)"
  gsGet :: "'s \<Rightarrow> 'c \<Rightarrow> ID \<Rightarrow> string \<Rightarrow> store_error + GroupRecord"
  gsReplace :: "'s \<Rightarrow> 'c \<Rightarrow> ID \<Rightarrow> string \<Rightarrow> GroupWrite \<Rightarrow> GroupWriteMeta \<Rightarrow> 's \<times> (store_error + GroupRecord)"
  gsDelete :: "'s \<Rightarrow> 'c \<Rightarrow> ID \<Rightarrow> string \<Rightarrow> GroupWriteMeta \<Rightarrow> 's \<times> store_error option"
  gsSavePatch :: "'s \<Rightarrow> 'c \<Rightarrow> ID \<Rightarrow> string \<Rightarrow> GroupWrite \<Rightarrow> Operation list \<Rightarrow> 's \<times> (store_error + GroupRecord)"
  gsValidateMembers :: "'s \<Rightarrow> 'c \<Rightarrow> ID \<Rightarrow> MemberRef list \<Rightarrow> store_error option"
  gsListFiltered :: "'s \<Rightarrow> 'c \<Rightarrow> ID \<Rightarrow> int \<Rightarrow> int \<Rightarrow> string \<Rightarrow> 's \<times> (store_error + GroupPage)"

section \<open>The isolation contract\<close>

text \<open>
  The rows of a directory, by tenant and identifier. A read answers what is filed under the tenant it names, a write that succeeds
  changes one row of that tenant and answers the new one, and a write that is refused changes none.
\<close>

definition onlyRow :: "(ID \<Rightarrow> string \<Rightarrow> 'r option) \<Rightarrow> ID \<Rightarrow> string \<Rightarrow> 'r option \<Rightarrow> (ID \<Rightarrow> string \<Rightarrow> 'r option) \<Rightarrow> bool" where
  "onlyRow f t i new f' \<longleftrightarrow> f' t i = new \<and> (\<forall>u j. u \<noteq> t \<or> j \<noteq> i \<longrightarrow> f' u j = f u j)"

locale scim_directory =
  fixes us :: "('s, 'c) UserStore"
    and rows :: "'s \<Rightarrow> ID \<Rightarrow> string \<Rightarrow> UserRecord option"
  assumes get: "usGet us s c t i = Inr rec \<longleftrightarrow> rows s t i = Some rec"
    and create: "usCreate us s c t w m = (s', Inr rec) \<Longrightarrow> onlyRow (rows s) t (urID rec) (Some rec) (rows s')"
    and replace: "usReplace us s c t i w m = (s', Inr rec) \<Longrightarrow> onlyRow (rows s) t i (Some rec) (rows s')"
    and patch: "usSavePatch us s c t i w ops = (s', Inr rec) \<Longrightarrow> onlyRow (rows s) t i (Some rec) (rows s')"
    and delete: "usDelete us s c t i m = (s', None) \<Longrightarrow> onlyRow (rows s) t i None (rows s')"
    and refused: "usCreate us s c t w m = (s', Inl e) \<Longrightarrow> rows s' = rows s"
      "usReplace us s c t i w m = (s', Inl e) \<Longrightarrow> rows s' = rows s"
      "usSavePatch us s c t i w ops = (s', Inl e) \<Longrightarrow> rows s' = rows s"
      "usDelete us s c t i m = (s', Some e) \<Longrightarrow> rows s' = rows s"
    and listing: "usListFiltered us s c t n k f = (s', res) \<Longrightarrow> rows s' = rows s"
begin

lemma others_kept:
  "usCreate us s c t w m = (s', res) \<Longrightarrow> u \<noteq> t \<Longrightarrow> rows s' u = rows s u"
  "usReplace us s c t i w m = (s', res) \<Longrightarrow> u \<noteq> t \<Longrightarrow> rows s' u = rows s u"
  "usSavePatch us s c t i w ops = (s', res) \<Longrightarrow> u \<noteq> t \<Longrightarrow> rows s' u = rows s u"
  "usDelete us s c t i m = (s', err) \<Longrightarrow> u \<noteq> t \<Longrightarrow> rows s' u = rows s u"
proof -
  show "usCreate us s c t w m = (s', res) \<Longrightarrow> u \<noteq> t \<Longrightarrow> rows s' u = rows s u"
    by (cases res) (auto dest: create refused simp: onlyRow_def fun_eq_iff)
  show "usReplace us s c t i w m = (s', res) \<Longrightarrow> u \<noteq> t \<Longrightarrow> rows s' u = rows s u"
    by (cases res) (auto dest: replace refused simp: onlyRow_def fun_eq_iff)
  show "usSavePatch us s c t i w ops = (s', res) \<Longrightarrow> u \<noteq> t \<Longrightarrow> rows s' u = rows s u"
    by (cases res) (auto dest: patch refused simp: onlyRow_def fun_eq_iff)
  show "usDelete us s c t i m = (s', err) \<Longrightarrow> u \<noteq> t \<Longrightarrow> rows s' u = rows s u"
    by (cases err) (auto dest: delete refused simp: onlyRow_def fun_eq_iff)
qed

end

end
