(* ===== verification/Espresso_Scim.thy ===== *)
theory Espresso_Scim
  imports Scim_Store Espresso_StepUp
begin

text \<open>
  Package \<^verbatim>\<open>espresso\<close>, the SCIM surface (\<^verbatim>\<open>scimroutes.go\<close>, \<^verbatim>\<open>scimusers.go\<close>, \<^verbatim>\<open>scimgroups.go\<close>, \<^verbatim>\<open>scimpatch.go\<close>, \<^verbatim>\<open>scimlist.go\<close>,
  \<^verbatim>\<open>scimerror.go\<close>, \<^verbatim>\<open>scimdto.go\<close>): the discovery routes and the verbs of users and groups over the ports of \<^theory_text>\<open>Scim_Store\<close>. A handler
  returns the stores' state and its answer; \<^verbatim>\<open>None\<close> is the panic of a route that was mounted outside the service-account gate.
  Decoding the text of a body, printing numbers and instants, the path grammar and the messages of patch errors are arguments;
  the round trip of a resource through a JSON object, which a patch makes, is written out. Slices that are nil and slices that are
  empty are the same list.
\<close>

section \<open>Wire shapes\<close>

record ResourceMeta =
  rmResourceType :: string
  rmCreated :: string
  rmLastModified :: string
  rmLocation :: string
  rmVersion :: string

record ScimName =
  nmFormatted :: string
  nmFamilyName :: string
  nmGivenName :: string

record UserResource =
  uresSchemas :: "string list"
  uresID :: string
  uresExternalID :: string
  uresUserName :: string
  uresName :: "ScimName option"
  uresEmails :: "ScimEmail list"
  uresActive :: bool
  uresMeta :: ResourceMeta

record UserCreateOrReplace =
  ucSchemas :: "string list"
  ucExternalID :: string
  ucUserName :: string
  ucName :: "ScimName option"
  ucEmails :: "ScimEmail list"
  ucActive :: "bool option"

record GroupMember =
  gmbValue :: string
  gmbRef :: string
  gmbType :: string
  gmbDisplay :: string

record GroupResource =
  gresSchemas :: "string list"
  gresID :: string
  gresExternalID :: string
  gresDisplayName :: string
  gresMembers :: "GroupMember list"
  gresMeta :: ResourceMeta

record GroupCreateOrReplace =
  gcSchemas :: "string list"
  gcExternalID :: string
  gcDisplayName :: string
  gcMembers :: "GroupMember list"

record ResourceTypeEntry =
  rteSchemas :: "string list"
  rteID :: string
  rteName :: string
  rteEndpoint :: string
  rteSchema :: string

record SPCAuthScheme =
  spaType :: string
  spaName :: string
  spaDescription :: string
  spaPrimary :: bool

text \<open>The nested \<^verbatim>\<open>SPCSupported\<close>, \<^verbatim>\<open>SPCBulk\<close> and \<^verbatim>\<open>SPCFilter\<close> are flattened into their fields.\<close>

record ServiceProviderConfig =
  spcSchemas :: "string list"
  spcDocumentationURI :: string
  spcPatch :: bool
  spcBulk :: bool
  spcBulkMaxOperations :: int
  spcBulkMaxPayloadSize :: int
  spcFilter :: bool
  spcFilterMaxResults :: int
  spcChangePassword :: bool
  spcSort :: bool
  spcETag :: bool
  spcAuthenticationSchemes :: "SPCAuthScheme list"
  spcMeta :: ResourceMeta

datatype scim_resource = UserRes UserResource | GroupRes GroupResource | TypeRes ResourceTypeEntry | SchemaRes json

record ListResponse =
  lrSchemas :: "string list"
  lrTotalResults :: int
  lrStartIndex :: int
  lrItemsPerPage :: int
  lrResources :: "scim_resource list"

text \<open>An error envelope is its status, its detail and its \<^verbatim>\<open>scimType\<close>.\<close>

datatype scim_body =
    NoBody
  | ResourceBody scim_resource
  | ListBody ListResponse
  | ConfigBody ServiceProviderConfig
  | ErrorBody int string string

record scim_answer =
  anStatus :: int
  anLocation :: "string option"
  anETag :: "string option"
  anBody :: scim_body

definition SchemaUser :: string where "SchemaUser = ''urn:ietf:params:scim:schemas:core:2.0:User''"
definition SchemaGroup :: string where "SchemaGroup = ''urn:ietf:params:scim:schemas:core:2.0:Group''"
definition SchemaListResponse :: string where "SchemaListResponse = ''urn:ietf:params:scim:api:messages:2.0:ListResponse''"
definition SchemaServiceProviderConfig :: string where
  "SchemaServiceProviderConfig = ''urn:ietf:params:scim:schemas:core:2.0:ServiceProviderConfig''"
definition SchemaResourceType :: string where "SchemaResourceType = ''urn:ietf:params:scim:schemas:core:2.0:ResourceType''"

section \<open>Requests and configuration\<close>

text \<open>What a decoder finds at the head of a text: a complete value, an error with its message, or that the text ends too early.\<close>

datatype 'a scan = Complete 'a | Malformed string | Truncated string

record scim_request = request +
  sqIfMatch :: string
  sqHost :: string
  sqForwardedProto :: string
  sqForwardedHost :: string
  sqTLS :: bool
  sqQuery :: "(string, string list) go_map"
  sqBody :: string

record ScimLib =
  lbPrintInt :: "int \<Rightarrow> string"
  lbRFC3339 :: "go_time \<Rightarrow> string"
  lbUserBody :: "string \<Rightarrow> UserCreateOrReplace scan"
  lbGroupBody :: "string \<Rightarrow> GroupCreateOrReplace scan"
  lbPatchBody :: "string \<Rightarrow> Operation list scan"
  lbJSON :: "string \<Rightarrow> json option"
  lbPath :: "string \<Rightarrow> LibPath option"
  lbErrText :: "scim_err \<Rightarrow> string"

record SCIMConfig =
  scPrefix :: string
  scBaseURL :: string
  scBaseURLForTenant :: "(string \<Rightarrow> string) option"
  scBulkMaxOperations :: int
  scMaxResults :: int
  scMaxPayloadBytes :: int
  scDocumentationURI :: string
  scAuthSchemeDescription :: string

record 's SCIMRoutes =
  srCfg :: SCIMConfig
  srUsers :: "('s, request_ctx) UserStore"
  srGroups :: "('s, request_ctx) GroupStore"

definition defaultSCIMMaxPayloadBytes :: int where
  "defaultSCIMMaxPayloadBytes = push_bit 20 1"

definition NewSCIMRoutes :: "SCIMConfig \<Rightarrow> ('s, request_ctx) UserStore option \<Rightarrow> ('s, request_ctx) GroupStore option
    \<Rightarrow> string + 's SCIMRoutes" where
  "NewSCIMRoutes cfg users groups =
     (if scPrefix cfg = '''' then Inl ''SCIMConfig.Prefix is required''
      else if scMaxResults cfg \<le> 0 then Inl ''SCIMConfig.MaxResults must be positive''
      else (case users of
          None \<Rightarrow> Inl ''SCIMConfig requires a UserStore''
        | Some us \<Rightarrow> (case groups of
            None \<Rightarrow> Inl ''SCIMConfig requires a GroupStore''
          | Some gs \<Rightarrow>
              let cfg = (if scMaxPayloadBytes cfg \<le> 0 then cfg\<lparr>scMaxPayloadBytes := defaultSCIMMaxPayloadBytes\<rparr> else cfg) in
              Inr \<lparr>srCfg = cfg, srUsers = us, srGroups = gs\<rparr>)))"

section \<open>Tenant and base address\<close>

definition MustGetPrincipal :: "request_ctx \<Rightarrow> Principal option" where
  "MustGetPrincipal ctx = GetPrincipal ctx"

definition scimTenant :: "request_ctx \<Rightarrow> ID option" where
  "scimTenant ctx = (case MustGetPrincipal ctx of None \<Rightarrow> None | Some _ \<Rightarrow> Some (fst (tenantOfPrincipal ctx)))"

definition ResolveBaseURL :: "scim_request \<Rightarrow> string \<Rightarrow> string" where
  "ResolveBaseURL r override =
     (if override \<noteq> '''' then override
      else
        let scheme = (if sqForwardedProto r \<noteq> '''' then sqForwardedProto r else if sqTLS r then ''https'' else ''http'');
            host = (if sqForwardedHost r \<noteq> '''' then sqForwardedHost r else sqHost r) in
        scheme @ ''://'' @ host)"

definition baseURL :: "'s SCIMRoutes \<Rightarrow> scim_request \<Rightarrow> string" where
  "baseURL a r =
     (case (scBaseURLForTenant (srCfg a), GetPrincipal (rqCtx r)) of
        (Some f, Some p) \<Rightarrow> if f (prTenantID p) \<noteq> '''' then f (prTenantID p) else ResolveBaseURL r (scBaseURL (srCfg a))
      | _ \<Rightarrow> ResolveBaseURL r (scBaseURL (srCfg a)))"

section \<open>Writers\<close>

definition WriteSCIMErrorTyped :: "int \<Rightarrow> string \<Rightarrow> string \<Rightarrow> scim_answer" where
  "WriteSCIMErrorTyped status detail scimType =
     \<lparr>anStatus = status, anLocation = None, anETag = None, anBody = ErrorBody status detail scimType\<rparr>"

definition WriteSCIMJSON :: "int \<Rightarrow> scim_body \<Rightarrow> scim_answer" where
  "WriteSCIMJSON status body = \<lparr>anStatus = status, anLocation = None, anETag = None, anBody = body\<rparr>"

definition WriteETagHeader :: "string \<Rightarrow> scim_answer \<Rightarrow> scim_answer" where
  "WriteETagHeader v ans = (if v = '''' then ans else ans\<lparr>anETag := Some v\<rparr>)"

datatype decode_error = MaxBytesError int | DecodeError string

text \<open>The decoder reads through a reader that fails after \<^verbatim>\<open>maxBytes\<close>; it stops at the end of the first value.\<close>

definition readSCIMBody :: "(string \<Rightarrow> 'a scan) \<Rightarrow> int \<Rightarrow> string \<Rightarrow> decode_error + 'a" where
  "readSCIMBody dec maxBytes body =
     (case dec (take (nat maxBytes) body) of
        Complete v \<Rightarrow> Inr v
      | Malformed msg \<Rightarrow> Inl (DecodeError msg)
      | Truncated msg \<Rightarrow> Inl (if maxBytes < int (length body) then MaxBytesError maxBytes else DecodeError msg))"

definition decodeSCIMPatch :: "ScimLib \<Rightarrow> int \<Rightarrow> string \<Rightarrow> decode_error + Operation list" where
  "decodeSCIMPatch lib maxBytes body =
     (case readSCIMBody (lbPatchBody lib) maxBytes body of Inl e \<Rightarrow> Inl e | Inr ops \<Rightarrow> Inr (map unmarshalOperation ops))"

definition writeSCIMDecodeError :: "ScimLib \<Rightarrow> decode_error \<Rightarrow> scim_answer" where
  "writeSCIMDecodeError lib e =
     (case e of
        MaxBytesError limit \<Rightarrow> WriteSCIMErrorTyped 413 (''request body exceeds the '' @ lbPrintInt lib limit @ ''-byte limit'') ''''
      | DecodeError msg \<Rightarrow> WriteSCIMErrorTyped 400 msg ''invalidSyntax'')"

definition scimStoreDetail :: "store_error \<Rightarrow> string" where
  "scimStoreDetail err = (if seParts err \<noteq> [] then last (seParts err) else seText err)"

definition writeUserStoreErr :: "store_error \<Rightarrow> scim_answer" where
  "writeUserStoreErr err =
     (if storeErrIs err ScimNotFound then WriteSCIMErrorTyped 404 ''user not found'' ''''
      else if storeErrIs err ScimConflict then WriteSCIMErrorTyped 409 (scimStoreDetail err) ''uniqueness''
      else if storeErrIs err ScimInvalidInput then WriteSCIMErrorTyped 400 (scimStoreDetail err) ''invalidValue''
      else WriteSCIMErrorTyped 500 ''internal error'' '''')"

definition writeGroupStoreErr :: "store_error \<Rightarrow> scim_answer" where
  "writeGroupStoreErr err =
     (if storeErrCyclic err then WriteSCIMErrorTyped 400 (''CIRCULAR_GROUP_REFERENCE: '' @ seText err) ''invalidValue''
      else if storeErrIs err ScimNotFound then WriteSCIMErrorTyped 404 ''group not found'' ''''
      else if storeErrIs err ScimConflict then WriteSCIMErrorTyped 409 (scimStoreDetail err) ''uniqueness''
      else if storeErrIs err ScimInvalidInput then WriteSCIMErrorTyped 400 (scimStoreDetail err) ''invalidValue''
      else WriteSCIMErrorTyped 500 ''internal error'' '''')"

definition writeListErr :: "store_error \<Rightarrow> scim_answer" where
  "writeListErr err =
     (if storeErrIs err ErrInvalidFilter then WriteSCIMErrorTyped 400 (scimStoreDetail err) ''invalidFilter''
      else WriteSCIMErrorTyped 500 ''internal error'' '''')"

definition writePatchApplyError :: "ScimLib \<Rightarrow> scim_err \<Rightarrow> scim_answer" where
  "writePatchApplyError lib err =
     (if err = ErrInvalidPath then WriteSCIMErrorTyped 400 (lbErrText lib err) ''invalidPath''
      else if err = ErrInvalidValue then WriteSCIMErrorTyped 400 (lbErrText lib err) ''invalidValue''
      else WriteSCIMErrorTyped 500 ''internal error'' '''')"

section \<open>Reading a request\<close>

fun firstNonEmpty :: "string list \<Rightarrow> string" where
  "firstNonEmpty [] = ''''"
| "firstNonEmpty (s # ss) = (if trimSpace s \<noteq> '''' then trimSpace s else firstNonEmpty ss)"

definition pickSCIMUserName :: "UserCreateOrReplace \<Rightarrow> string" where
  "pickSCIMUserName body = firstNonEmpty (ucUserName body # map emValue (ucEmails body))"

definition pickSCIMNameParts :: "UserCreateOrReplace \<Rightarrow> string \<times> string" where
  "pickSCIMNameParts body =
     (case ucName body of None \<Rightarrow> ('''', '''') | Some n \<Rightarrow> (trimSpace (nmFamilyName n), trimSpace (nmGivenName n)))"

definition scimTrailingSegment :: "string \<Rightarrow> string" where
  "scimTrailingSegment p = rev (takeWhile (\<lambda>c. c \<noteq> CHR ''/'') (rev p))"

definition groupMemberRefs :: "GroupMember list \<Rightarrow> MemberRef list" where
  "groupMemberRefs members = map (\<lambda>m. \<lparr>mrValue = gmbValue m, mrType = gmbType m\<rparr>) members"

definition firstQueryValue :: "(string, string list) go_map \<Rightarrow> string \<Rightarrow> string" where
  "firstQueryValue q key = (case map_of q key of Some (v # vs) \<Rightarrow> v | _ \<Rightarrow> '''')"

definition digitValue :: "char \<Rightarrow> int" where
  "digitValue c = of_char c - 48"

definition isDigit :: "char \<Rightarrow> bool" where
  "isDigit c = (48 \<le> (of_char c :: nat) \<and> (of_char c :: nat) \<le> 57)"

definition parseDigits :: "string \<Rightarrow> int" where
  "parseDigits s = foldl (\<lambda>n c. 10 * n + digitValue c) 0 s"

text \<open>\<^verbatim>\<open>strconv.Atoi\<close>: an optional sign, decimal digits, and the range of a 64-bit integer.\<close>

definition Atoi :: "string \<Rightarrow> int option" where
  "Atoi s =
     (let neg = (case s of c # _ \<Rightarrow> c = CHR ''-'' | [] \<Rightarrow> False);
          digits = (case s of c # cs \<Rightarrow> if c = CHR ''-'' \<or> c = CHR ''+'' then cs else s | [] \<Rightarrow> []) in
      if digits = [] \<or> \<not> list_all isDigit digits then None
      else let n = (if neg then - parseDigits digits else parseDigits digits) in
        if - (2 ^ 63) \<le> n \<and> n < 2 ^ 63 then Some n else None)"

definition parsePagination :: "'s SCIMRoutes \<Rightarrow> (string, string list) go_map \<Rightarrow> int \<times> int" where
  "parsePagination a q =
     (let startIndex = (case Atoi (firstQueryValue q ''startIndex'') of Some n \<Rightarrow> if 1 \<le> n then n else 1 | None \<Rightarrow> 1);
          count = (case Atoi (firstQueryValue q ''count'') of
              None \<Rightarrow> 20
            | Some n \<Rightarrow>
                let n = (if n < 0 then 0 else n) in
                if scMaxResults (srCfg a) < n then scMaxResults (srCfg a) else n) in
      (startIndex, count))"

section \<open>Rendering\<close>

definition resourceETag :: "ScimLib \<Rightarrow> go_time \<Rightarrow> string" where
  "resourceETag lib t = ResourceETag (lbPrintInt lib) (if t = 0 then None else Some (UnixNano t))"

definition resourceMeta :: "ScimLib \<Rightarrow> string \<Rightarrow> go_time \<Rightarrow> go_time \<Rightarrow> string \<Rightarrow> ResourceMeta" where
  "resourceMeta lib rtype created updated location =
     (let c = lbRFC3339 lib created; etag = resourceETag lib updated in
      \<lparr>rmResourceType = rtype, rmCreated = c, rmLastModified = (if updated = 0 then c else lbRFC3339 lib updated),
       rmLocation = location,
       rmVersion = (if etag = '''' then etagWeakPrefix @ [CHR 0x22] @ c @ [CHR 0x22] else etag)\<rparr>)"

definition userRecordToResource :: "ScimLib \<Rightarrow> UserRecord \<Rightarrow> string \<Rightarrow> string \<Rightarrow> UserResource" where
  "userRecordToResource lib rec base pre =
     \<lparr>uresSchemas = [SchemaUser], uresID = urID rec, uresExternalID = urExternalID rec, uresUserName = urUserName rec,
      uresName = (if urFamilyName rec \<noteq> '''' \<or> urGivenName rec \<noteq> ''''
        then Some \<lparr>nmFormatted = (if urFamilyName rec \<noteq> '''' \<and> urGivenName rec \<noteq> ''''
                     then urGivenName rec @ '' '' @ urFamilyName rec else ''''),
                   nmFamilyName = urFamilyName rec, nmGivenName = urGivenName rec\<rparr>
        else None),
      uresEmails = urEmails rec, uresActive = urActive rec,
      uresMeta = resourceMeta lib ''User'' (urCreated rec) (urUpdated rec) (base @ pre @ ''/Users/'' @ urID rec)\<rparr>"

definition memberToWire :: "string \<Rightarrow> string \<Rightarrow> MemberRef \<Rightarrow> GroupMember" where
  "memberToWire base pre m =
     \<lparr>gmbValue = mrValue m, gmbRef = base @ pre @ (if mrType m = ''Group'' then ''/Groups/'' else ''/Users/'') @ mrValue m,
      gmbType = mrType m, gmbDisplay = ''''\<rparr>"

definition groupRecordToResource :: "ScimLib \<Rightarrow> GroupRecord \<Rightarrow> string \<Rightarrow> string \<Rightarrow> GroupResource" where
  "groupRecordToResource lib rec base pre =
     \<lparr>gresSchemas = [SchemaGroup], gresID = grID rec, gresExternalID = grExternalID rec, gresDisplayName = grDisplayName rec,
      gresMembers = map (memberToWire base pre) (grMembers rec),
      gresMeta = resourceMeta lib ''Group'' (grCreated rec) (grUpdated rec) (base @ pre @ ''/Groups/'' @ grID rec)\<rparr>"

section \<open>Store routing\<close>

text \<open>One helper per method, so that the tenant is handed over in one place each.\<close>

definition userCreate :: "'s SCIMRoutes \<Rightarrow> 's \<Rightarrow> request_ctx \<Rightarrow> UserWrite \<Rightarrow> WriteMeta \<Rightarrow> ('s \<times> (store_error + UserRecord)) option" where
  "userCreate a s ctx w m = map_option (\<lambda>tid. usCreate (srUsers a) s ctx tid w m) (scimTenant ctx)"

definition userGet :: "'s SCIMRoutes \<Rightarrow> 's \<Rightarrow> request_ctx \<Rightarrow> string \<Rightarrow> (store_error + UserRecord) option" where
  "userGet a s ctx i = map_option (\<lambda>tid. usGet (srUsers a) s ctx tid i) (scimTenant ctx)"

definition userReplace :: "'s SCIMRoutes \<Rightarrow> 's \<Rightarrow> request_ctx \<Rightarrow> string \<Rightarrow> UserWrite \<Rightarrow> WriteMeta
    \<Rightarrow> ('s \<times> (store_error + UserRecord)) option" where
  "userReplace a s ctx i w m = map_option (\<lambda>tid. usReplace (srUsers a) s ctx tid i w m) (scimTenant ctx)"

definition userDelete :: "'s SCIMRoutes \<Rightarrow> 's \<Rightarrow> request_ctx \<Rightarrow> string \<Rightarrow> WriteMeta \<Rightarrow> ('s \<times> store_error option) option" where
  "userDelete a s ctx i m = map_option (\<lambda>tid. usDelete (srUsers a) s ctx tid i m) (scimTenant ctx)"

definition userSavePatch :: "'s SCIMRoutes \<Rightarrow> 's \<Rightarrow> request_ctx \<Rightarrow> string \<Rightarrow> UserWrite \<Rightarrow> Operation list
    \<Rightarrow> ('s \<times> (store_error + UserRecord)) option" where
  "userSavePatch a s ctx i w ops = map_option (\<lambda>tid. usSavePatch (srUsers a) s ctx tid i w ops) (scimTenant ctx)"

definition userListFiltered :: "'s SCIMRoutes \<Rightarrow> 's \<Rightarrow> request_ctx \<Rightarrow> int \<Rightarrow> int \<Rightarrow> string \<Rightarrow> ('s \<times> (store_error + UserPage)) option" where
  "userListFiltered a s ctx start count flt = map_option (\<lambda>tid. usListFiltered (srUsers a) s ctx tid start count flt) (scimTenant ctx)"

definition groupCreate :: "'s SCIMRoutes \<Rightarrow> 's \<Rightarrow> request_ctx \<Rightarrow> GroupWrite \<Rightarrow> GroupWriteMeta \<Rightarrow> ('s \<times> (store_error + GroupRecord)) option" where
  "groupCreate a s ctx w m = map_option (\<lambda>tid. gsCreate (srGroups a) s ctx tid w m) (scimTenant ctx)"

definition groupGet :: "'s SCIMRoutes \<Rightarrow> 's \<Rightarrow> request_ctx \<Rightarrow> string \<Rightarrow> (store_error + GroupRecord) option" where
  "groupGet a s ctx i = map_option (\<lambda>tid. gsGet (srGroups a) s ctx tid i) (scimTenant ctx)"

definition groupReplace :: "'s SCIMRoutes \<Rightarrow> 's \<Rightarrow> request_ctx \<Rightarrow> string \<Rightarrow> GroupWrite \<Rightarrow> GroupWriteMeta
    \<Rightarrow> ('s \<times> (store_error + GroupRecord)) option" where
  "groupReplace a s ctx i w m = map_option (\<lambda>tid. gsReplace (srGroups a) s ctx tid i w m) (scimTenant ctx)"

definition groupDelete :: "'s SCIMRoutes \<Rightarrow> 's \<Rightarrow> request_ctx \<Rightarrow> string \<Rightarrow> GroupWriteMeta \<Rightarrow> ('s \<times> store_error option) option" where
  "groupDelete a s ctx i m = map_option (\<lambda>tid. gsDelete (srGroups a) s ctx tid i m) (scimTenant ctx)"

definition groupSavePatch :: "'s SCIMRoutes \<Rightarrow> 's \<Rightarrow> request_ctx \<Rightarrow> string \<Rightarrow> GroupWrite \<Rightarrow> Operation list
    \<Rightarrow> ('s \<times> (store_error + GroupRecord)) option" where
  "groupSavePatch a s ctx i w ops = map_option (\<lambda>tid. gsSavePatch (srGroups a) s ctx tid i w ops) (scimTenant ctx)"

definition groupValidateMembers :: "'s SCIMRoutes \<Rightarrow> 's \<Rightarrow> request_ctx \<Rightarrow> MemberRef list \<Rightarrow> store_error option option" where
  "groupValidateMembers a s ctx ms = map_option (\<lambda>tid. gsValidateMembers (srGroups a) s ctx tid ms) (scimTenant ctx)"

definition groupListFiltered :: "'s SCIMRoutes \<Rightarrow> 's \<Rightarrow> request_ctx \<Rightarrow> int \<Rightarrow> int \<Rightarrow> string \<Rightarrow> ('s \<times> (store_error + GroupPage)) option" where
  "groupListFiltered a s ctx start count flt = map_option (\<lambda>tid. gsListFiltered (srGroups a) s ctx tid start count flt) (scimTenant ctx)"

lemmas store_routing = userCreate_def userGet_def userReplace_def userDelete_def userSavePatch_def userListFiltered_def
  groupCreate_def groupGet_def groupReplace_def groupDelete_def groupSavePatch_def groupValidateMembers_def groupListFiltered_def

section \<open>Users\<close>

text \<open>
  A verb that checks a precondition reads the resource and then writes it, in two calls of the store between which other requests
  may run. The handler is therefore given in two halves: what it decides up to the write, and the write.
\<close>

datatype 'w half = Panicked | Answered scim_answer | Pending 'w

type_synonym 's served = "'s \<times> scim_answer option"

definition finishHalf :: "('s \<Rightarrow> 'w \<Rightarrow> 's served) \<Rightarrow> 's \<Rightarrow> 'w half \<Rightarrow> 's served" where
  "finishHalf write s h = (case h of Panicked \<Rightarrow> (s, None) | Answered ans \<Rightarrow> (s, Some ans) | Pending w \<Rightarrow> write s w)"

definition userAnswer :: "ScimLib \<Rightarrow> 's SCIMRoutes \<Rightarrow> scim_request \<Rightarrow> int \<Rightarrow> UserRecord \<Rightarrow> scim_answer" where
  "userAnswer lib a r status rec =
     WriteETagHeader (resourceETag lib (urUpdated rec))
       (WriteSCIMJSON status (ResourceBody (UserRes (userRecordToResource lib rec (baseURL a r) (scPrefix (srCfg a))))))"

definition preconditionFailed :: scim_answer where
  "preconditionFailed = WriteSCIMErrorTyped 412 ''If-Match precondition failed'' ''''"

definition userWriteOf :: "UserCreateOrReplace \<Rightarrow> string \<Rightarrow> bool \<Rightarrow> UserWrite" where
  "userWriteOf body name absent =
     \<lparr>uwUserName = name, uwFamilyName = fst (pickSCIMNameParts body), uwGivenName = snd (pickSCIMNameParts body),
      uwActive = (case ucActive body of None \<Rightarrow> absent | Some b \<Rightarrow> b), uwExternalID = ucExternalID body\<rparr>"

definition UsersCreate :: "ScimLib \<Rightarrow> 's SCIMRoutes \<Rightarrow> 's \<Rightarrow> scim_request \<Rightarrow> 's served" where
  "UsersCreate lib a s r =
     (case readSCIMBody (lbUserBody lib) (scMaxPayloadBytes (srCfg a)) (sqBody r) of
        Inl e \<Rightarrow> (s, Some (writeSCIMDecodeError lib e))
      | Inr body \<Rightarrow>
          if pickSCIMUserName body = '''' then (s, Some (WriteSCIMErrorTyped 400 ''userName is required'' ''invalidValue''))
          else (case userCreate a s (rqCtx r) (userWriteOf body (pickSCIMUserName body) True) \<lparr>wmIfMatchPresent = False, wmBefore = None\<rparr> of
              None \<Rightarrow> (s, None)
            | Some (s, Inl err) \<Rightarrow> (s, Some (writeUserStoreErr err))
            | Some (s, Inr rec) \<Rightarrow>
                (s, Some ((userAnswer lib a r 201 rec)\<lparr>anLocation := Some (baseURL a r @ scPrefix (srCfg a) @ ''/Users/'' @ urID rec)\<rparr>))))"

definition UsersGet :: "ScimLib \<Rightarrow> 's SCIMRoutes \<Rightarrow> 's \<Rightarrow> scim_request \<Rightarrow> 's served" where
  "UsersGet lib a s r =
     (let i = scimTrailingSegment (rqPath r) in
      if i = '''' then (s, Some (WriteSCIMErrorTyped 404 ''user not found'' ''''))
      else (case userGet a s (rqCtx r) i of
          None \<Rightarrow> (s, None)
        | Some (Inl err) \<Rightarrow> (s, Some (writeUserStoreErr err))
        | Some (Inr rec) \<Rightarrow> (s, Some (userAnswer lib a r 200 rec))))"

definition usersReplaceRead :: "ScimLib \<Rightarrow> 's SCIMRoutes \<Rightarrow> 's \<Rightarrow> scim_request \<Rightarrow> (string \<times> UserWrite \<times> WriteMeta) half" where
  "usersReplaceRead lib a s r =
     (let i = scimTrailingSegment (rqPath r) in
      if i = '''' then Answered (WriteSCIMErrorTyped 404 ''user not found'' '''')
      else (case readSCIMBody (lbUserBody lib) (scMaxPayloadBytes (srCfg a)) (sqBody r) of
          Inl e \<Rightarrow> Answered (writeSCIMDecodeError lib e)
        | Inr body \<Rightarrow>
            if pickSCIMUserName body = '''' then Answered (WriteSCIMErrorTyped 400 ''userName is required'' ''invalidValue'')
            else (case userGet a s (rqCtx r) i of
                None \<Rightarrow> Panicked
              | Some (Inl err) \<Rightarrow> Answered (writeUserStoreErr err)
              | Some (Inr before) \<Rightarrow>
                  if \<not> fst (CheckIfMatch (sqIfMatch r) (resourceETag lib (urUpdated before))) then Answered preconditionFailed
                  else Pending (i, userWriteOf body (pickSCIMUserName body) False,
                                \<lparr>wmIfMatchPresent = sqIfMatch r \<noteq> '''', wmBefore = Some before\<rparr>))))"

definition usersReplaceWrite :: "ScimLib \<Rightarrow> 's SCIMRoutes \<Rightarrow> scim_request \<Rightarrow> 's \<Rightarrow> string \<times> UserWrite \<times> WriteMeta \<Rightarrow> 's served" where
  "usersReplaceWrite lib a r s = (\<lambda>(i, w, m).
     (case userReplace a s (rqCtx r) i w m of
        None \<Rightarrow> (s, None)
      | Some (s, Inl err) \<Rightarrow> (s, Some (writeUserStoreErr err))
      | Some (s, Inr rec) \<Rightarrow> (s, Some (userAnswer lib a r 200 rec))))"

definition UsersReplace :: "ScimLib \<Rightarrow> 's SCIMRoutes \<Rightarrow> 's \<Rightarrow> scim_request \<Rightarrow> 's served" where
  "UsersReplace lib a s r = finishHalf (usersReplaceWrite lib a r) s (usersReplaceRead lib a s r)"

definition usersDeleteRead :: "ScimLib \<Rightarrow> 's SCIMRoutes \<Rightarrow> 's \<Rightarrow> scim_request \<Rightarrow> (string \<times> WriteMeta) half" where
  "usersDeleteRead lib a s r =
     (let i = scimTrailingSegment (rqPath r) in
      if i = '''' then Answered (WriteSCIMErrorTyped 404 ''user not found'' '''')
      else (case userGet a s (rqCtx r) i of
          None \<Rightarrow> Panicked
        | Some (Inl err) \<Rightarrow> Answered (writeUserStoreErr err)
        | Some (Inr before) \<Rightarrow>
            if \<not> fst (CheckIfMatch (sqIfMatch r) (resourceETag lib (urUpdated before))) then Answered preconditionFailed
            else Pending (i, \<lparr>wmIfMatchPresent = sqIfMatch r \<noteq> '''', wmBefore = Some before\<rparr>)))"

definition usersDeleteWrite :: "'s SCIMRoutes \<Rightarrow> scim_request \<Rightarrow> 's \<Rightarrow> string \<times> WriteMeta \<Rightarrow> 's served" where
  "usersDeleteWrite a r s = (\<lambda>(i, m).
     (case userDelete a s (rqCtx r) i m of
        None \<Rightarrow> (s, None)
      | Some (s, Some err) \<Rightarrow> (s, Some (writeUserStoreErr err))
      | Some (s, None) \<Rightarrow> (s, Some (WriteSCIMJSON 204 NoBody))))"

definition UsersDelete :: "ScimLib \<Rightarrow> 's SCIMRoutes \<Rightarrow> 's \<Rightarrow> scim_request \<Rightarrow> 's served" where
  "UsersDelete lib a s r = finishHalf (usersDeleteWrite a r) s (usersDeleteRead lib a s r)"

definition UsersList :: "ScimLib \<Rightarrow> 's SCIMRoutes \<Rightarrow> 's \<Rightarrow> scim_request \<Rightarrow> 's served" where
  "UsersList lib a s r =
     (case parsePagination a (sqQuery r) of (start, count) \<Rightarrow>
        (case userListFiltered a s (rqCtx r) start count (firstQueryValue (sqQuery r) ''filter'') of
           None \<Rightarrow> (s, None)
         | Some (s, Inl err) \<Rightarrow> (s, Some (writeListErr err))
         | Some (s, Inr page) \<Rightarrow>
             let resources = map (\<lambda>u. UserRes (userRecordToResource lib u (baseURL a r) (scPrefix (srCfg a)))) (upUsers page) in
             (s, Some (WriteSCIMJSON 200 (ListBody \<lparr>lrSchemas = [SchemaListResponse], lrTotalResults = upTotal page,
                lrStartIndex = start, lrItemsPerPage = int (length resources), lrResources = resources\<rparr>)))))"

section \<open>Groups\<close>

definition groupAnswer :: "ScimLib \<Rightarrow> 's SCIMRoutes \<Rightarrow> scim_request \<Rightarrow> int \<Rightarrow> GroupRecord \<Rightarrow> scim_answer" where
  "groupAnswer lib a r status rec =
     WriteETagHeader (resourceETag lib (grUpdated rec))
       (WriteSCIMJSON status (ResourceBody (GroupRes (groupRecordToResource lib rec (baseURL a r) (scPrefix (srCfg a))))))"

definition groupWriteOf :: "string \<Rightarrow> string \<Rightarrow> GroupMember list \<Rightarrow> Principal \<Rightarrow> GroupWrite" where
  "groupWriteOf name externalID members p =
     \<lparr>gwDisplayName = name, gwExternalID = externalID, gwMembers = groupMemberRefs members, gwActorServiceAccountID = prID p\<rparr>"

definition GroupsCreate :: "ScimLib \<Rightarrow> 's SCIMRoutes \<Rightarrow> 's \<Rightarrow> scim_request \<Rightarrow> 's served" where
  "GroupsCreate lib a s r =
     (case readSCIMBody (lbGroupBody lib) (scMaxPayloadBytes (srCfg a)) (sqBody r) of
        Inl e \<Rightarrow> (s, Some (writeSCIMDecodeError lib e))
      | Inr body \<Rightarrow>
          if trimSpace (gcDisplayName body) = '''' then (s, Some (WriteSCIMErrorTyped 400 ''displayName is required'' ''invalidValue''))
          else (case MustGetPrincipal (rqCtx r) of
              None \<Rightarrow> (s, None)
            | Some p \<Rightarrow>
                (case groupCreate a s (rqCtx r) (groupWriteOf (trimSpace (gcDisplayName body)) (gcExternalID body) (gcMembers body) p)
                    \<lparr>gmIfMatchPresent = False, gmBefore = None\<rparr> of
                   None \<Rightarrow> (s, None)
                 | Some (s, Inl err) \<Rightarrow> (s, Some (writeGroupStoreErr err))
                 | Some (s, Inr rec) \<Rightarrow>
                     (s, Some ((groupAnswer lib a r 201 rec)\<lparr>anLocation := Some (baseURL a r @ scPrefix (srCfg a) @ ''/Groups/'' @ grID rec)\<rparr>)))))"

definition GroupsGet :: "ScimLib \<Rightarrow> 's SCIMRoutes \<Rightarrow> 's \<Rightarrow> scim_request \<Rightarrow> 's served" where
  "GroupsGet lib a s r =
     (let i = scimTrailingSegment (rqPath r) in
      if i = '''' then (s, Some (WriteSCIMErrorTyped 404 ''group not found'' ''''))
      else (case groupGet a s (rqCtx r) i of
          None \<Rightarrow> (s, None)
        | Some (Inl err) \<Rightarrow> (s, Some (writeGroupStoreErr err))
        | Some (Inr rec) \<Rightarrow> (s, Some (groupAnswer lib a r 200 rec))))"

definition groupsReplaceRead :: "ScimLib \<Rightarrow> 's SCIMRoutes \<Rightarrow> 's \<Rightarrow> scim_request \<Rightarrow> (string \<times> GroupWrite \<times> GroupWriteMeta) half" where
  "groupsReplaceRead lib a s r =
     (let i = scimTrailingSegment (rqPath r) in
      if i = '''' then Answered (WriteSCIMErrorTyped 404 ''group not found'' '''')
      else (case readSCIMBody (lbGroupBody lib) (scMaxPayloadBytes (srCfg a)) (sqBody r) of
          Inl e \<Rightarrow> Answered (writeSCIMDecodeError lib e)
        | Inr body \<Rightarrow>
            if trimSpace (gcDisplayName body) = '''' then Answered (WriteSCIMErrorTyped 400 ''displayName is required'' ''invalidValue'')
            else (case groupValidateMembers a s (rqCtx r) (groupMemberRefs (gcMembers body)) of
                None \<Rightarrow> Panicked
              | Some (Some err) \<Rightarrow> Answered (writeGroupStoreErr err)
              | Some None \<Rightarrow> (case groupGet a s (rqCtx r) i of
                  None \<Rightarrow> Panicked
                | Some (Inl err) \<Rightarrow> Answered (writeGroupStoreErr err)
                | Some (Inr before) \<Rightarrow>
                    if \<not> fst (CheckIfMatch (sqIfMatch r) (resourceETag lib (grUpdated before))) then Answered preconditionFailed
                    else (case MustGetPrincipal (rqCtx r) of
                        None \<Rightarrow> Panicked
                      | Some p \<Rightarrow> Pending (i, groupWriteOf (trimSpace (gcDisplayName body)) (gcExternalID body) (gcMembers body) p,
                                          \<lparr>gmIfMatchPresent = sqIfMatch r \<noteq> '''', gmBefore = Some before\<rparr>))))))"

definition groupsReplaceWrite :: "ScimLib \<Rightarrow> 's SCIMRoutes \<Rightarrow> scim_request \<Rightarrow> 's \<Rightarrow> string \<times> GroupWrite \<times> GroupWriteMeta \<Rightarrow> 's served" where
  "groupsReplaceWrite lib a r s = (\<lambda>(i, w, m).
     (case groupReplace a s (rqCtx r) i w m of
        None \<Rightarrow> (s, None)
      | Some (s, Inl err) \<Rightarrow> (s, Some (writeGroupStoreErr err))
      | Some (s, Inr rec) \<Rightarrow> (s, Some (groupAnswer lib a r 200 rec))))"

definition GroupsReplace :: "ScimLib \<Rightarrow> 's SCIMRoutes \<Rightarrow> 's \<Rightarrow> scim_request \<Rightarrow> 's served" where
  "GroupsReplace lib a s r = finishHalf (groupsReplaceWrite lib a r) s (groupsReplaceRead lib a s r)"

definition groupsDeleteRead :: "ScimLib \<Rightarrow> 's SCIMRoutes \<Rightarrow> 's \<Rightarrow> scim_request \<Rightarrow> (string \<times> GroupWriteMeta) half" where
  "groupsDeleteRead lib a s r =
     (let i = scimTrailingSegment (rqPath r) in
      if i = '''' then Answered (WriteSCIMErrorTyped 404 ''group not found'' '''')
      else (case groupGet a s (rqCtx r) i of
          None \<Rightarrow> Panicked
        | Some (Inl err) \<Rightarrow> Answered (writeGroupStoreErr err)
        | Some (Inr before) \<Rightarrow>
            if \<not> fst (CheckIfMatch (sqIfMatch r) (resourceETag lib (grUpdated before))) then Answered preconditionFailed
            else Pending (i, \<lparr>gmIfMatchPresent = sqIfMatch r \<noteq> '''', gmBefore = Some before\<rparr>)))"

definition groupsDeleteWrite :: "'s SCIMRoutes \<Rightarrow> scim_request \<Rightarrow> 's \<Rightarrow> string \<times> GroupWriteMeta \<Rightarrow> 's served" where
  "groupsDeleteWrite a r s = (\<lambda>(i, m).
     (case groupDelete a s (rqCtx r) i m of
        None \<Rightarrow> (s, None)
      | Some (s, Some err) \<Rightarrow> (s, Some (writeGroupStoreErr err))
      | Some (s, None) \<Rightarrow> (s, Some (WriteSCIMJSON 204 NoBody))))"

definition GroupsDelete :: "ScimLib \<Rightarrow> 's SCIMRoutes \<Rightarrow> 's \<Rightarrow> scim_request \<Rightarrow> 's served" where
  "GroupsDelete lib a s r = finishHalf (groupsDeleteWrite a r) s (groupsDeleteRead lib a s r)"

definition GroupsList :: "ScimLib \<Rightarrow> 's SCIMRoutes \<Rightarrow> 's \<Rightarrow> scim_request \<Rightarrow> 's served" where
  "GroupsList lib a s r =
     (case parsePagination a (sqQuery r) of (start, count) \<Rightarrow>
        (case groupListFiltered a s (rqCtx r) start count (firstQueryValue (sqQuery r) ''filter'') of
           None \<Rightarrow> (s, None)
         | Some (s, Inl err) \<Rightarrow> (s, Some (writeListErr err))
         | Some (s, Inr page) \<Rightarrow>
             let resources = map (\<lambda>g. GroupRes (groupRecordToResource lib g (baseURL a r) (scPrefix (srCfg a)))) (gpGroups page) in
             (s, Some (WriteSCIMJSON 200 (ListBody \<lparr>lrSchemas = [SchemaListResponse], lrTotalResults = gpTotal page,
                lrStartIndex = start, lrItemsPerPage = int (length resources), lrResources = resources\<rparr>)))))"

section \<open>Patch\<close>

text \<open>A field that \<^verbatim>\<open>omitempty\<close> drops when it is the empty string.\<close>

definition optField :: "string \<Rightarrow> string \<Rightarrow> obj" where
  "optField k v = (if v = '''' then [] else [(k, JStr v)])"

definition metaJSON :: "ResourceMeta \<Rightarrow> json" where
  "metaJSON m = JObj ([(''resourceType'', JStr (rmResourceType m))] @ optField ''created'' (rmCreated m)
     @ optField ''lastModified'' (rmLastModified m) @ [(''location'', JStr (rmLocation m))] @ optField ''version'' (rmVersion m))"

definition emailJSON :: "ScimEmail \<Rightarrow> json" where
  "emailJSON e = JObj ([(''value'', JStr (emValue e))] @ (if emPrimary e then [(''primary'', JBool True)] else []) @ optField ''type'' (emType e))"

definition nameJSON :: "ScimName \<Rightarrow> json" where
  "nameJSON n = JObj (optField ''formatted'' (nmFormatted n) @ optField ''familyName'' (nmFamilyName n) @ optField ''givenName'' (nmGivenName n))"

definition userToMap :: "UserResource \<Rightarrow> obj" where
  "userToMap u =
     [(''schemas'', JArr (map JStr (uresSchemas u))), (''id'', JStr (uresID u))] @ optField ''externalId'' (uresExternalID u)
     @ [(''userName'', JStr (uresUserName u))]
     @ (case uresName u of None \<Rightarrow> [] | Some n \<Rightarrow> [(''name'', nameJSON n)])
     @ (if uresEmails u = [] then [] else [(''emails'', JArr (map emailJSON (uresEmails u)))])
     @ [(''active'', JBool (uresActive u)), (''meta'', metaJSON (uresMeta u))]"

definition memberJSON :: "GroupMember \<Rightarrow> json" where
  "memberJSON m = JObj ([(''value'', JStr (gmbValue m))] @ optField ''$ref'' (gmbRef m) @ optField ''type'' (gmbType m)
     @ optField ''display'' (gmbDisplay m))"

definition groupToMap :: "GroupResource \<Rightarrow> obj" where
  "groupToMap g =
     [(''schemas'', JArr (map JStr (gresSchemas g))), (''id'', JStr (gresID g))] @ optField ''externalId'' (gresExternalID g)
     @ [(''displayName'', JStr (gresDisplayName g))]
     @ (if gresMembers g = [] then [] else [(''members'', JArr (map memberJSON (gresMembers g)))])
     @ [(''meta'', metaJSON (gresMeta g))]"

text \<open>
  \<^verbatim>\<open>json.Unmarshal\<close> into a struct: the keys of an object in order, each to the field it names exactly or up to case, others
  ignored; \<^verbatim>\<open>null\<close> leaves a string, a boolean or a struct as it is and empties a slice or a pointer; a value of another type is an
  error, \<^verbatim>\<open>None\<close>.
\<close>

definition jsonField :: "string list \<Rightarrow> string \<Rightarrow> string option" where
  "jsonField names k = (if k \<in> set names then Some k else find (\<lambda>n. equalFold n k) names)"

fun decodeFields :: "(string \<Rightarrow> json \<Rightarrow> 'r \<Rightarrow> 'r option) \<Rightarrow> string list \<Rightarrow> obj \<Rightarrow> 'r \<Rightarrow> 'r option" where
  "decodeFields setField names [] r = Some r"
| "decodeFields setField names ((k, v) # kvs) r =
     (case jsonField names k of
        None \<Rightarrow> decodeFields setField names kvs r
      | Some f \<Rightarrow> (case setField f v r of None \<Rightarrow> None | Some r' \<Rightarrow> decodeFields setField names kvs r'))"

definition decodeStruct :: "(string \<Rightarrow> json \<Rightarrow> 'r \<Rightarrow> 'r option) \<Rightarrow> string list \<Rightarrow> json \<Rightarrow> 'r \<Rightarrow> 'r option" where
  "decodeStruct setField names v r =
     (case v of JNull \<Rightarrow> Some r | JObj kvs \<Rightarrow> decodeFields setField names (sort_key fst kvs) r | _ \<Rightarrow> None)"

definition decodeString :: "json \<Rightarrow> string \<Rightarrow> string option" where
  "decodeString v old = (case v of JNull \<Rightarrow> Some old | JStr s \<Rightarrow> Some s | _ \<Rightarrow> None)"

definition decodeBool :: "json \<Rightarrow> bool \<Rightarrow> bool option" where
  "decodeBool v old = (case v of JNull \<Rightarrow> Some old | JBool b \<Rightarrow> Some b | _ \<Rightarrow> None)"

fun allSome :: "'a option list \<Rightarrow> 'a list option" where
  "allSome [] = Some []"
| "allSome (x # xs) = (case x of None \<Rightarrow> None | Some y \<Rightarrow> map_option ((#) y) (allSome xs))"

definition decodeSlice :: "(json \<Rightarrow> 'a option) \<Rightarrow> json \<Rightarrow> 'a list option" where
  "decodeSlice elem v = (case v of JNull \<Rightarrow> Some [] | JArr vs \<Rightarrow> allSome (map elem vs) | _ \<Rightarrow> None)"

definition zeroMeta :: ResourceMeta where
  "zeroMeta = \<lparr>rmResourceType = '''', rmCreated = '''', rmLastModified = '''', rmLocation = '''', rmVersion = ''''\<rparr>"

definition zeroName :: ScimName where
  "zeroName = \<lparr>nmFormatted = '''', nmFamilyName = '''', nmGivenName = ''''\<rparr>"

definition setMeta :: "string \<Rightarrow> json \<Rightarrow> ResourceMeta \<Rightarrow> ResourceMeta option" where
  "setMeta f v m =
     (if f = ''resourceType'' then map_option (\<lambda>x. m\<lparr>rmResourceType := x\<rparr>) (decodeString v (rmResourceType m))
      else if f = ''created'' then map_option (\<lambda>x. m\<lparr>rmCreated := x\<rparr>) (decodeString v (rmCreated m))
      else if f = ''lastModified'' then map_option (\<lambda>x. m\<lparr>rmLastModified := x\<rparr>) (decodeString v (rmLastModified m))
      else if f = ''location'' then map_option (\<lambda>x. m\<lparr>rmLocation := x\<rparr>) (decodeString v (rmLocation m))
      else map_option (\<lambda>x. m\<lparr>rmVersion := x\<rparr>) (decodeString v (rmVersion m)))"

definition metaFields :: "string list" where
  "metaFields = [''resourceType'', ''created'', ''lastModified'', ''location'', ''version'']"

definition setName :: "string \<Rightarrow> json \<Rightarrow> ScimName \<Rightarrow> ScimName option" where
  "setName f v n =
     (if f = ''formatted'' then map_option (\<lambda>x. n\<lparr>nmFormatted := x\<rparr>) (decodeString v (nmFormatted n))
      else if f = ''familyName'' then map_option (\<lambda>x. n\<lparr>nmFamilyName := x\<rparr>) (decodeString v (nmFamilyName n))
      else map_option (\<lambda>x. n\<lparr>nmGivenName := x\<rparr>) (decodeString v (nmGivenName n)))"

definition decodeName :: "json \<Rightarrow> ScimName option \<Rightarrow> ScimName option option" where
  "decodeName v old =
     (if v = JNull then Some None
      else map_option Some (decodeStruct setName [''formatted'', ''familyName'', ''givenName''] v
             (case old of None \<Rightarrow> zeroName | Some n \<Rightarrow> n)))"

definition setEmail :: "string \<Rightarrow> json \<Rightarrow> ScimEmail \<Rightarrow> ScimEmail option" where
  "setEmail f v e =
     (if f = ''value'' then map_option (\<lambda>x. e\<lparr>emValue := x\<rparr>) (decodeString v (emValue e))
      else if f = ''primary'' then map_option (\<lambda>x. e\<lparr>emPrimary := x\<rparr>) (decodeBool v (emPrimary e))
      else map_option (\<lambda>x. e\<lparr>emType := x\<rparr>) (decodeString v (emType e)))"

definition decodeEmail :: "json \<Rightarrow> ScimEmail option" where
  "decodeEmail v = decodeStruct setEmail [''value'', ''primary'', ''type''] v \<lparr>emValue = '''', emPrimary = False, emType = ''''\<rparr>"

definition setUser :: "string \<Rightarrow> json \<Rightarrow> UserResource \<Rightarrow> UserResource option" where
  "setUser f v u =
     (if f = ''schemas'' then map_option (\<lambda>x. u\<lparr>uresSchemas := x\<rparr>) (decodeSlice (\<lambda>w. decodeString w '''') v)
      else if f = ''id'' then map_option (\<lambda>x. u\<lparr>uresID := x\<rparr>) (decodeString v (uresID u))
      else if f = ''externalId'' then map_option (\<lambda>x. u\<lparr>uresExternalID := x\<rparr>) (decodeString v (uresExternalID u))
      else if f = ''userName'' then map_option (\<lambda>x. u\<lparr>uresUserName := x\<rparr>) (decodeString v (uresUserName u))
      else if f = ''name'' then map_option (\<lambda>x. u\<lparr>uresName := x\<rparr>) (decodeName v (uresName u))
      else if f = ''emails'' then map_option (\<lambda>x. u\<lparr>uresEmails := x\<rparr>) (decodeSlice decodeEmail v)
      else if f = ''active'' then map_option (\<lambda>x. u\<lparr>uresActive := x\<rparr>) (decodeBool v (uresActive u))
      else map_option (\<lambda>x. u\<lparr>uresMeta := x\<rparr>) (decodeStruct setMeta metaFields v (uresMeta u)))"

definition zeroUserResource :: UserResource where
  "zeroUserResource = \<lparr>uresSchemas = [], uresID = '''', uresExternalID = '''', uresUserName = '''', uresName = None, uresEmails = [],
     uresActive = False, uresMeta = zeroMeta\<rparr>"

definition userFields :: "string list" where
  "userFields = [''schemas'', ''id'', ''externalId'', ''userName'', ''name'', ''emails'', ''active'', ''meta'']"

definition mapToUser :: "obj \<Rightarrow> UserResource option" where
  "mapToUser m = decodeStruct setUser userFields (JObj m) zeroUserResource"

definition setMember :: "string \<Rightarrow> json \<Rightarrow> GroupMember \<Rightarrow> GroupMember option" where
  "setMember f v m =
     (if f = ''value'' then map_option (\<lambda>x. m\<lparr>gmbValue := x\<rparr>) (decodeString v (gmbValue m))
      else if f = ''$ref'' then map_option (\<lambda>x. m\<lparr>gmbRef := x\<rparr>) (decodeString v (gmbRef m))
      else if f = ''type'' then map_option (\<lambda>x. m\<lparr>gmbType := x\<rparr>) (decodeString v (gmbType m))
      else map_option (\<lambda>x. m\<lparr>gmbDisplay := x\<rparr>) (decodeString v (gmbDisplay m)))"

definition decodeMember :: "json \<Rightarrow> GroupMember option" where
  "decodeMember v = decodeStruct setMember [''value'', ''$ref'', ''type'', ''display''] v
     \<lparr>gmbValue = '''', gmbRef = '''', gmbType = '''', gmbDisplay = ''''\<rparr>"

definition setGroup :: "string \<Rightarrow> json \<Rightarrow> GroupResource \<Rightarrow> GroupResource option" where
  "setGroup f v g =
     (if f = ''schemas'' then map_option (\<lambda>x. g\<lparr>gresSchemas := x\<rparr>) (decodeSlice (\<lambda>w. decodeString w '''') v)
      else if f = ''id'' then map_option (\<lambda>x. g\<lparr>gresID := x\<rparr>) (decodeString v (gresID g))
      else if f = ''externalId'' then map_option (\<lambda>x. g\<lparr>gresExternalID := x\<rparr>) (decodeString v (gresExternalID g))
      else if f = ''displayName'' then map_option (\<lambda>x. g\<lparr>gresDisplayName := x\<rparr>) (decodeString v (gresDisplayName g))
      else if f = ''members'' then map_option (\<lambda>x. g\<lparr>gresMembers := x\<rparr>) (decodeSlice decodeMember v)
      else map_option (\<lambda>x. g\<lparr>gresMeta := x\<rparr>) (decodeStruct setMeta metaFields v (gresMeta g)))"

definition zeroGroupResource :: GroupResource where
  "zeroGroupResource = \<lparr>gresSchemas = [], gresID = '''', gresExternalID = '''', gresDisplayName = '''', gresMembers = [], gresMeta = zeroMeta\<rparr>"

definition groupFields :: "string list" where
  "groupFields = [''schemas'', ''id'', ''externalId'', ''displayName'', ''members'', ''meta'']"

definition mapToGroup :: "obj \<Rightarrow> GroupResource option" where
  "mapToGroup m = decodeStruct setGroup groupFields (JObj m) zeroGroupResource"

text \<open>An error that is not the applier's is the \<^verbatim>\<open>json\<close> package's.\<close>

definition applyToUserResource :: "ScimLib \<Rightarrow> UserResource \<Rightarrow> Operation list \<Rightarrow> scim_err + UserResource" where
  "applyToUserResource lib current ops =
     (case Apply (lbPath lib) (lbJSON lib) (Some (userToMap current)) ops of
        Inl e \<Rightarrow> Inl e
      | Inr m \<Rightarrow> (case mapToUser m of None \<Rightarrow> Inl (ScimFailure ''json'') | Some u \<Rightarrow> Inr u))"

definition applyToGroupResource :: "ScimLib \<Rightarrow> GroupResource \<Rightarrow> Operation list \<Rightarrow> scim_err + GroupResource" where
  "applyToGroupResource lib current ops =
     (case Apply (lbPath lib) (lbJSON lib) (Some (groupToMap current)) ops of
        Inl e \<Rightarrow> Inl e
      | Inr m \<Rightarrow> (case mapToGroup m of None \<Rightarrow> Inl (ScimFailure ''json'') | Some g \<Rightarrow> Inr g))"

definition noOperations :: scim_answer where
  "noOperations = WriteSCIMErrorTyped 400 ''Operations is required and must be non-empty'' ''invalidValue''"

definition usersPatchRead :: "ScimLib \<Rightarrow> 's SCIMRoutes \<Rightarrow> 's \<Rightarrow> scim_request \<Rightarrow> (string \<times> UserWrite \<times> Operation list) half" where
  "usersPatchRead lib a s r =
     (let i = scimTrailingSegment (rqPath r) in
      if i = '''' then Answered (WriteSCIMErrorTyped 404 ''user not found'' '''')
      else (case userGet a s (rqCtx r) i of
          None \<Rightarrow> Panicked
        | Some (Inl err) \<Rightarrow> Answered (writeUserStoreErr err)
        | Some (Inr rec) \<Rightarrow>
            if \<not> fst (CheckIfMatch (sqIfMatch r) (resourceETag lib (urUpdated rec))) then Answered preconditionFailed
            else (case decodeSCIMPatch lib (scMaxPayloadBytes (srCfg a)) (sqBody r) of
                Inl e \<Rightarrow> Answered (writeSCIMDecodeError lib e)
              | Inr ops \<Rightarrow>
                  if ops = [] then Answered noOperations
                  else (case applyToUserResource lib (userRecordToResource lib rec (baseURL a r) (scPrefix (srCfg a))) ops of
                      Inl e \<Rightarrow> Answered (writePatchApplyError lib e)
                    | Inr patched \<Rightarrow> Pending (i, \<lparr>uwUserName = uresUserName patched, uwFamilyName = '''', uwGivenName = '''',
                                                  uwActive = uresActive patched, uwExternalID = uresExternalID patched\<rparr>, ops)))))"

definition usersPatchWrite :: "ScimLib \<Rightarrow> 's SCIMRoutes \<Rightarrow> scim_request \<Rightarrow> 's \<Rightarrow> string \<times> UserWrite \<times> Operation list \<Rightarrow> 's served" where
  "usersPatchWrite lib a r s = (\<lambda>(i, w, ops).
     (case userSavePatch a s (rqCtx r) i w ops of
        None \<Rightarrow> (s, None)
      | Some (s, Inl err) \<Rightarrow> (s, Some (writeUserStoreErr err))
      | Some (s, Inr rec) \<Rightarrow> (s, Some (userAnswer lib a r 200 rec))))"

definition UsersPatch :: "ScimLib \<Rightarrow> 's SCIMRoutes \<Rightarrow> 's \<Rightarrow> scim_request \<Rightarrow> 's served" where
  "UsersPatch lib a s r = finishHalf (usersPatchWrite lib a r) s (usersPatchRead lib a s r)"

definition groupsPatchRead :: "ScimLib \<Rightarrow> 's SCIMRoutes \<Rightarrow> 's \<Rightarrow> scim_request \<Rightarrow> (string \<times> GroupWrite \<times> Operation list) half" where
  "groupsPatchRead lib a s r =
     (let i = scimTrailingSegment (rqPath r) in
      if i = '''' then Answered (WriteSCIMErrorTyped 404 ''group not found'' '''')
      else (case groupGet a s (rqCtx r) i of
          None \<Rightarrow> Panicked
        | Some (Inl err) \<Rightarrow> Answered (writeGroupStoreErr err)
        | Some (Inr rec) \<Rightarrow>
            if \<not> fst (CheckIfMatch (sqIfMatch r) (resourceETag lib (grUpdated rec))) then Answered preconditionFailed
            else (case decodeSCIMPatch lib (scMaxPayloadBytes (srCfg a)) (sqBody r) of
                Inl e \<Rightarrow> Answered (writeSCIMDecodeError lib e)
              | Inr ops \<Rightarrow>
                  if ops = [] then Answered noOperations
                  else (case applyToGroupResource lib (groupRecordToResource lib rec (baseURL a r) (scPrefix (srCfg a))) ops of
                      Inl e \<Rightarrow> Answered (writePatchApplyError lib e)
                    | Inr patched \<Rightarrow> (case MustGetPrincipal (rqCtx r) of
                          None \<Rightarrow> Panicked
                        | Some p \<Rightarrow> Pending (i, groupWriteOf (gresDisplayName patched) (gresExternalID patched) (gresMembers patched) p, ops))))))"

definition groupsPatchWrite :: "ScimLib \<Rightarrow> 's SCIMRoutes \<Rightarrow> scim_request \<Rightarrow> 's \<Rightarrow> string \<times> GroupWrite \<times> Operation list \<Rightarrow> 's served" where
  "groupsPatchWrite lib a r s = (\<lambda>(i, w, ops).
     (case groupSavePatch a s (rqCtx r) i w ops of
        None \<Rightarrow> (s, None)
      | Some (s, Inl err) \<Rightarrow> (s, Some (writeGroupStoreErr err))
      | Some (s, Inr rec) \<Rightarrow> (s, Some (groupAnswer lib a r 200 rec))))"

definition GroupsPatch :: "ScimLib \<Rightarrow> 's SCIMRoutes \<Rightarrow> 's \<Rightarrow> scim_request \<Rightarrow> 's served" where
  "GroupsPatch lib a s r = finishHalf (groupsPatchWrite lib a r) s (groupsPatchRead lib a s r)"

section \<open>Discovery\<close>

definition scimServiceProviderConfig :: "'s SCIMRoutes \<Rightarrow> scim_request \<Rightarrow> scim_answer" where
  "scimServiceProviderConfig a r =
     WriteSCIMJSON 200 (ConfigBody
       \<lparr>spcSchemas = [SchemaServiceProviderConfig], spcDocumentationURI = scDocumentationURI (srCfg a), spcPatch = True,
        spcBulk = True, spcBulkMaxOperations = scBulkMaxOperations (srCfg a), spcBulkMaxPayloadSize = scMaxPayloadBytes (srCfg a),
        spcFilter = True, spcFilterMaxResults = scMaxResults (srCfg a), spcChangePassword = False, spcSort = False, spcETag = True,
        spcAuthenticationSchemes = [\<lparr>spaType = ''oauthbearertoken'', spaName = ''OAuth Bearer Token'',
          spaDescription = scAuthSchemeDescription (srCfg a), spaPrimary = True\<rparr>],
        spcMeta = zeroMeta\<lparr>rmResourceType := ''ServiceProviderConfig'',
          rmLocation := baseURL a r @ scPrefix (srCfg a) @ ''/ServiceProviderConfig''\<rparr>\<rparr>)"

definition listOf :: "scim_resource list \<Rightarrow> ListResponse" where
  "listOf rs = \<lparr>lrSchemas = [SchemaListResponse], lrTotalResults = int (length rs), lrStartIndex = 1,
     lrItemsPerPage = int (length rs), lrResources = rs\<rparr>"

definition scimResourceTypes :: scim_answer where
  "scimResourceTypes = WriteSCIMJSON 200 (ListBody (listOf
     [TypeRes \<lparr>rteSchemas = [SchemaResourceType], rteID = ''User'', rteName = ''User'', rteEndpoint = ''/Users'', rteSchema = SchemaUser\<rparr>,
      TypeRes \<lparr>rteSchemas = [SchemaResourceType], rteID = ''Group'', rteName = ''Group'', rteEndpoint = ''/Groups'', rteSchema = SchemaGroup\<rparr>]))"

definition schemaAttr :: "string \<Rightarrow> string \<Rightarrow> bool \<Rightarrow> bool \<Rightarrow> obj \<Rightarrow> json" where
  "schemaAttr name ty multi req extra =
     JObj ([(''name'', JStr name), (''type'', JStr ty), (''multiValued'', JBool multi), (''required'', JBool req)]
       @ extra @ [(''mutability'', JStr ''readWrite''), (''returned'', JStr ''default'')])"

definition schemaResource :: "string \<Rightarrow> string \<Rightarrow> string \<Rightarrow> json list \<Rightarrow> json" where
  "schemaResource i name desc attrs =
     JObj [(''id'', JStr i), (''name'', JStr name), (''description'', JStr desc), (''attributes'', JArr attrs),
       (''meta'', JObj [(''resourceType'', JStr ''Schema''), (''location'', JStr (''/scim/v2/Schemas/'' @ i))])]"

definition userSchemaResource :: json where
  "userSchemaResource = schemaResource SchemaUser ''User'' ''Barista SCIM 2.0 User resource (minimal).''
     [schemaAttr ''userName'' ''string'' False True [(''caseExact'', JBool False), (''uniqueness'', JStr ''server'')],
      schemaAttr ''externalId'' ''string'' False False [(''caseExact'', JBool True), (''uniqueness'', JStr ''none'')],
      schemaAttr ''active'' ''boolean'' False False [],
      schemaAttr ''emails'' ''complex'' True False []]"

definition groupSchemaResource :: json where
  "groupSchemaResource = schemaResource SchemaGroup ''Group'' ''Barista SCIM 2.0 Group resource (minimal).''
     [schemaAttr ''displayName'' ''string'' False True [(''uniqueness'', JStr ''server'')],
      schemaAttr ''externalId'' ''string'' False False [(''caseExact'', JBool True), (''uniqueness'', JStr ''none'')],
      schemaAttr ''members'' ''complex'' True False [(''subAttributes'', JArr
        [JObj [(''name'', JStr ''type''), (''type'', JStr ''string''), (''required'', JBool False), (''caseExact'', JBool False),
               (''mutability'', JStr ''readWrite''), (''returned'', JStr ''default''),
               (''canonicalValues'', JArr [JStr ''User'', JStr ''Group''])],
         JObj [(''name'', JStr ''value''), (''type'', JStr ''string''), (''required'', JBool True),
               (''mutability'', JStr ''readWrite''), (''returned'', JStr ''default'')],
         JObj [(''name'', JStr ''$ref''), (''type'', JStr ''reference''), (''required'', JBool False),
               (''mutability'', JStr ''readOnly''), (''returned'', JStr ''default'')]])]]"

definition scimSchemas :: scim_answer where
  "scimSchemas = WriteSCIMJSON 200 (ListBody (listOf [SchemaRes userSchemaResource, SchemaRes groupSchemaResource]))"

section \<open>Lemmas\<close>

lemma digitValue_nonneg: "isDigit c \<Longrightarrow> 0 \<le> digitValue c"
proof -
  assume "isDigit c"
  then have "48 \<le> (of_char c :: nat)" by (simp add: isDigit_def)
  then have "int 48 \<le> int (of_char c :: nat)" by linarith
  moreover have "int (of_char c :: nat) = (of_char c :: int)" by (rule of_nat_of_char)
  ultimately show ?thesis unfolding digitValue_def by linarith
qed

lemma atoi_digits_nonneg: "list_all isDigit s \<Longrightarrow> 0 \<le> n \<Longrightarrow> 0 \<le> foldl (\<lambda>n c. 10 * n + digitValue c) n s"
  by (induction s arbitrary: n) (simp_all add: digitValue_nonneg)

lemma firstNonEmpty_trimmed: "firstNonEmpty ss \<noteq> '''' \<Longrightarrow> \<exists>s\<in>set ss. firstNonEmpty ss = trimSpace s"
  by (induction ss) (auto split: if_splits)

lemma firstNonEmpty_empty: "firstNonEmpty ss = '''' \<longleftrightarrow> (\<forall>s\<in>set ss. trimSpace s = '''')"
  by (induction ss) auto

lemma scimTrailingSegment_append [simp]: "CHR ''/'' \<notin> set i \<Longrightarrow> scimTrailingSegment (p @ CHR ''/'' # i) = i"
  by (simp add: scimTrailingSegment_def takeWhile_append takeWhile_eq_all_conv)

lemma scimTenant_Some: "GetPrincipal ctx = Some p \<Longrightarrow> scimTenant ctx = Some (FromStored (prTenantID p))"
  by (simp add: scimTenant_def MustGetPrincipal_def tenantOfPrincipal_def)

lemma scimTenant_None: "GetPrincipal ctx = None \<Longrightarrow> scimTenant ctx = None"
  by (simp add: scimTenant_def MustGetPrincipal_def)

lemma CheckIfMatch_absent: "fst (CheckIfMatch '''' tag)"
  by (simp add: CheckIfMatch_def trimSpace_def trimBoth_def)

section \<open>Over any store that keeps the contract\<close>

lemma WriteETagHeader_body [simp]: "anBody (WriteETagHeader tag x) = anBody x" "anStatus (WriteETagHeader tag x) = anStatus x"
  by (simp_all add: WriteETagHeader_def)

lemma userAnswer_body: "anBody (userAnswer lib a r n rec) = ResourceBody (UserRes (userRecordToResource lib rec (baseURL a r) (scPrefix (srCfg a))))"
  "anStatus (userAnswer lib a r n rec) = n"
  by (simp_all add: userAnswer_def WriteSCIMJSON_def)

text \<open>The surface over a directory that keeps the contract.\<close>

locale scim_surface = scim_directory "srUsers a" rows
  for a :: "'s SCIMRoutes" and rows :: "'s \<Rightarrow> ID \<Rightarrow> string \<Rightarrow> UserRecord option"
begin

text \<open>What a client created is filed under the identifier it was answered, and read back from there.\<close>

lemma created_is_filed:
  assumes "UsersCreate lib a s r = (s', Some x)" "anStatus x = 201"
  shows "\<exists>rec t. scimTenant (rqCtx r) = Some t \<and> onlyRow (rows s) t (urID rec) (Some rec) (rows s') \<and>
    anBody x = ResourceBody (UserRes (userRecordToResource lib rec (baseURL a r) (scPrefix (srCfg a)))) \<and>
    anLocation x = Some (baseURL a r @ scPrefix (srCfg a) @ ''/Users/'' @ urID rec)"
  using assms
  by (auto simp: UsersCreate_def userCreate_def userAnswer_body writeUserStoreErr_def writeSCIMDecodeError_def WriteSCIMErrorTyped_def
      dest!: create split: sum.splits option.splits prod.splits if_splits decode_error.splits)

lemma read_answers:
  assumes "scimTrailingSegment (rqPath r) = i" "i \<noteq> ''''" "scimTenant (rqCtx r) = Some t" "rows s t i = Some rec"
  shows "UsersGet lib a s r = (s, Some (userAnswer lib a r 200 rec))"
proof -
  have "usGet (srUsers a) s (rqCtx r) t i = Inr rec" using assms(4) by (simp add: get)
  with assms(1-3) show ?thesis by (simp add: UsersGet_def userGet_def)
qed

lemma replaced_is_filed:
  assumes "UsersReplace lib a s r = (s', Some x)" "anStatus x = 200"
  shows "\<exists>rec t. scimTenant (rqCtx r) = Some t \<and> onlyRow (rows s) t (scimTrailingSegment (rqPath r)) (Some rec) (rows s') \<and>
    anBody x = ResourceBody (UserRes (userRecordToResource lib rec (baseURL a r) (scPrefix (srCfg a))))"
  using assms
  by (auto simp: UsersReplace_def finishHalf_def usersReplaceRead_def usersReplaceWrite_def userReplace_def userGet_def Let_def userAnswer_body
      writeUserStoreErr_def writeSCIMDecodeError_def WriteSCIMErrorTyped_def preconditionFailed_def
      dest!: replace split: sum.splits option.splits prod.splits if_splits decode_error.splits half.splits)

lemma deleted_is_gone:
  assumes "UsersDelete lib a s r = (s', Some x)" "anStatus x = 204"
  shows "\<exists>t. scimTenant (rqCtx r) = Some t \<and> onlyRow (rows s) t (scimTrailingSegment (rqPath r)) None (rows s')"
  using assms
  by (auto simp: UsersDelete_def finishHalf_def usersDeleteRead_def usersDeleteWrite_def userDelete_def userGet_def Let_def
      writeUserStoreErr_def WriteSCIMErrorTyped_def preconditionFailed_def
      dest!: delete split: sum.splits option.splits prod.splits if_splits half.splits)

lemma missing_is_refused:
  assumes "scimTenant (rqCtx r) = Some t" "rows s t (scimTrailingSegment (rqPath r)) = None"
  shows "\<exists>x. UsersGet lib a s r = (s, Some x) \<and> 400 \<le> anStatus x"
proof (cases "usGet (srUsers a) s (rqCtx r) t (scimTrailingSegment (rqPath r))")
  case (Inl e)
  with assms(1) show ?thesis
    by (auto simp: UsersGet_def userGet_def Let_def writeUserStoreErr_def WriteSCIMErrorTyped_def)
next
  case (Inr rec)
  then show ?thesis using assms(2) by (simp add: get)
qed

end

end
