(* ===== verification/Provisioning_Store.thy ===== *)
theory Provisioning_Store
  imports Espresso_Scim
begin

text \<open>
  The provisioning example, \<^verbatim>\<open>examples/scim/store.go\<close>: both persistence ports over in-memory maps, for one tenant, with the audit
  rows the port contract leaves to an implementation. A mutex is the atomicity of a call; the order of a map is the order of its
  entries. What a call draws (identifiers, the clock) and the encoders it prints its audit payloads with are its environment
  argument; what it hands to the logger is kept in order, whatever the logger then does.
\<close>

section \<open>State and environment\<close>

record ScimMem =
  xsUsers :: "(string, UserRecord) go_map"
  xsGroups :: "(string, GroupRecord) go_map"
  xsLogged :: "Event list"

definition newScimStores :: ScimMem where
  "newScimStores = \<lparr>xsUsers = [], xsGroups = [], xsLogged = []\<rparr>"

record ScimEnv =
  xeNewID :: string
  xeCreatedAt :: go_time
  xeUpdatedAt :: go_time
  xeEventID :: string
  xeEventAt :: go_time
  xeAudit :: bool
  xeMarshal :: "json \<Rightarrow> string"
  xePatchPayload :: "Operation list \<Rightarrow> int \<Rightarrow> string"
  xeJSON :: "string \<Rightarrow> json option"
  xePrintInt :: "int \<Rightarrow> string"
  xeQuote :: "string \<Rightarrow> string"
  xeFilter :: "string \<Rightarrow> expression option"
  xeErrText :: "scim_err \<Rightarrow> string"

definition actionUserCreate :: string where "actionUserCreate = ''scim.user.create''"
definition actionUserReplace :: string where "actionUserReplace = ''scim.user.replace''"
definition actionUserDelete :: string where "actionUserDelete = ''scim.user.delete''"
definition actionUserPatch :: string where "actionUserPatch = ''scim.user.patch''"
definition actionUserList :: string where "actionUserList = ''scim.user.list''"
definition actionGroupCreate :: string where "actionGroupCreate = ''scim.group.create''"
definition actionGroupReplace :: string where "actionGroupReplace = ''scim.group.replace''"
definition actionGroupDelete :: string where "actionGroupDelete = ''scim.group.delete''"
definition actionGroupPatch :: string where "actionGroupPatch = ''scim.group.patch''"
definition actionGroupList :: string where "actionGroupList = ''scim.group.list''"
definition resourceGroup :: string where "resourceGroup = ''group''"
definition scimResourceUser :: string where "scimResourceUser = ''user''"

lemmas scim_actions = actionUserCreate_def actionUserReplace_def actionUserDelete_def actionUserPatch_def actionUserList_def
  actionGroupCreate_def actionGroupReplace_def actionGroupDelete_def actionGroupPatch_def actionGroupList_def

section \<open>One tenant\<close>

definition holdsTenant :: "ID \<Rightarrow> bool" where
  "holdsTenant tenantID = IsSingle tenantID"

text \<open>An error made with one \<^verbatim>\<open>%w\<close> has no \<^verbatim>\<open>Unwrap() []error\<close>.\<close>

definition wrapped :: "scim_err \<Rightarrow> string \<Rightarrow> store_error" where
  "wrapped e text = \<lparr>seIs = [e], seParts = [], seText = text\<rparr>"

definition errNotFound :: store_error where
  "errNotFound = wrapped ScimNotFound ''scim store: not found''"

definition inSingleTenant :: "ScimEnv \<Rightarrow> ID \<Rightarrow> store_error option" where
  "inSingleTenant E tenantID =
     (if \<not> holdsTenant tenantID then Some (wrapped ScimNotFound (''scim store: not found: tenant '' @ xeQuote E (IDString tenantID))) else None)"

definition userNameTaken :: "ScimEnv \<Rightarrow> string \<Rightarrow> store_error" where
  "userNameTaken E name = wrapped ScimConflict (''scim store: conflict: userName '' @ xeQuote E name @ '' already exists'')"

section \<open>Audit\<close>

definition baseEvent :: "ScimEnv \<Rightarrow> request_ctx \<Rightarrow> string \<Rightarrow> string \<Rightarrow> string \<Rightarrow> string \<Rightarrow> string \<Rightarrow> Event" where
  "baseEvent E ctx action rtype rid before after =
     \<lparr>evID = xeEventID E, evAt = xeEventAt E, evActor = ActorFromContext ctx, evAction = action, evResourceType = rtype,
      evResourceID = rid, evRequestID = '''', evClusterID = '''', evBefore = before, evAfter = after,
      evPrevHash = '''', evHash = '''', evCanonicalVersion = 0, evTenantID = '''', evRowSalt = '''',
      evCommitments = \<lparr>ctActorEmail = '''', ctActorName = '''', ctActorIP = '''', ctBefore = '''', ctAfter = ''''\<rparr>\<rparr>"

definition logEvent :: "ScimEnv \<Rightarrow> Event \<Rightarrow> ScimMem \<Rightarrow> ScimMem" where
  "logEvent E ev s = (if xeAudit E then s\<lparr>xsLogged := xsLogged s @ [ev]\<rparr> else s)"

definition userPayload :: "UserRecord \<Rightarrow> obj" where
  "userPayload r = [(''id'', JStr (urID r)), (''email'', JStr (urUserName r)), (''external_id'', JStr (urExternalID r)),
     (''active'', JBool (urActive r))]"

definition groupPayload :: "ScimEnv \<Rightarrow> GroupRecord \<Rightarrow> obj" where
  "groupPayload E r = [(''id'', JStr (grID r)), (''display_name'', JStr (grDisplayName r)), (''external_id'', JStr (grExternalID r)),
     (''member_count'', JNum (xePrintInt E (int (length (grMembers r)))))]"

definition ifMatchField :: "bool \<Rightarrow> obj" where
  "ifMatchField b = [(''if_match_present'', JBool b)]"

definition emitUser :: "ScimEnv \<Rightarrow> request_ctx \<Rightarrow> string \<Rightarrow> UserRecord option \<Rightarrow> UserRecord option \<Rightarrow> bool \<Rightarrow> ScimMem \<Rightarrow> ScimMem" where
  "emitUser E ctx action after before ifMatch =
     logEvent E (baseEvent E ctx action scimResourceUser
       (case after of Some r \<Rightarrow> urID r | None \<Rightarrow> (case before of Some r \<Rightarrow> urID r | None \<Rightarrow> ''''))
       (case before of None \<Rightarrow> '''' | Some r \<Rightarrow> xeMarshal E (JObj (userPayload r)))
       (case after of
          Some r \<Rightarrow> xeMarshal E (JObj (userPayload r @ (if action = actionUserReplace then ifMatchField ifMatch else [])))
        | None \<Rightarrow> if action = actionUserDelete then xeMarshal E (JObj (ifMatchField ifMatch)) else ''''))"

definition patchPayload :: "ScimEnv \<Rightarrow> Operation list \<Rightarrow> string" where
  "patchPayload E ops = xePatchPayload E (RedactedOps (xeJSON E) (\<lambda>j. Some (xeMarshal E j)) ops) (int (length ops))"

definition emitUserPatch :: "ScimEnv \<Rightarrow> request_ctx \<Rightarrow> string \<Rightarrow> Operation list \<Rightarrow> ScimMem \<Rightarrow> ScimMem" where
  "emitUserPatch E ctx i ops = logEvent E (baseEvent E ctx actionUserPatch scimResourceUser i '''' (patchPayload E ops))"

definition listPayload :: "ScimEnv \<Rightarrow> string \<Rightarrow> int \<Rightarrow> string" where
  "listPayload E flt cnt = xeMarshal E (JObj [(''filter'', JStr flt), (''total_results'', JNum (xePrintInt E cnt))])"

definition emitUserList :: "ScimEnv \<Rightarrow> request_ctx \<Rightarrow> string \<Rightarrow> int \<Rightarrow> ScimMem \<Rightarrow> ScimMem" where
  "emitUserList E ctx flt cnt = logEvent E (baseEvent E ctx actionUserList scimResourceUser '''' '''' (listPayload E flt cnt))"

definition emitGroup :: "ScimEnv \<Rightarrow> request_ctx \<Rightarrow> string \<Rightarrow> GroupRecord option \<Rightarrow> GroupRecord option \<Rightarrow> bool \<Rightarrow> ScimMem \<Rightarrow> ScimMem" where
  "emitGroup E ctx action after before ifMatch =
     logEvent E (baseEvent E ctx action resourceGroup
       (case after of Some r \<Rightarrow> grID r | None \<Rightarrow> (case before of Some r \<Rightarrow> grID r | None \<Rightarrow> ''''))
       (case before of None \<Rightarrow> '''' | Some r \<Rightarrow> xeMarshal E (JObj (groupPayload E r)))
       (case after of
          Some r \<Rightarrow> xeMarshal E (JObj (groupPayload E r @ (if action = actionGroupReplace then ifMatchField ifMatch else [])))
        | None \<Rightarrow> if action = actionGroupDelete then xeMarshal E (JObj (ifMatchField ifMatch)) else ''''))"

definition emitGroupPatch :: "ScimEnv \<Rightarrow> request_ctx \<Rightarrow> string \<Rightarrow> Operation list \<Rightarrow> ScimMem \<Rightarrow> ScimMem" where
  "emitGroupPatch E ctx i ops = logEvent E (baseEvent E ctx actionGroupPatch resourceGroup i '''' (patchPayload E ops))"

definition emitGroupList :: "ScimEnv \<Rightarrow> request_ctx \<Rightarrow> string \<Rightarrow> int \<Rightarrow> ScimMem \<Rightarrow> ScimMem" where
  "emitGroupList E ctx flt cnt = logEvent E (baseEvent E ctx actionGroupList resourceGroup '''' '''' (listPayload E flt cnt))"

lemmas emit_defs = emitUser_def emitUserPatch_def emitUserList_def emitGroup_def emitGroupPatch_def emitGroupList_def

section \<open>Lists\<close>

text \<open>The clause of the one filter the example supports, as the value wanted, or \<^verbatim>\<open>None\<close> for everything.\<close>

definition invalidFilter :: "ScimEnv \<Rightarrow> string \<Rightarrow> store_error" where
  "invalidFilter E attr = wrapped ErrInvalidFilter
     (xeErrText E ErrInvalidFilter @ '': this example supports only '' @ attr @ '' eq '' @ [CHR 0x22] @ ''...'' @ [CHR 0x22])"

definition parseEqFilter :: "ScimEnv \<Rightarrow> string \<Rightarrow> string \<Rightarrow> store_error + string option" where
  "parseEqFilter E flt attr =
     (case ParseFilter (xeFilter E) flt of
        Inl e \<Rightarrow> Inl \<lparr>seIs = [ErrInvalidFilter, e], seParts = [xeErrText E ErrInvalidFilter, xeErrText E e],
                       seText = xeErrText E ErrInvalidFilter @ '': '' @ xeErrText E e\<rparr>
      | Inr None \<Rightarrow> Inr None
      | Inr (Some (AttributeExpression p oper v)) \<Rightarrow>
          if oper \<noteq> EQ \<or> apName p \<noteq> attr then Inl (invalidFilter E attr)
          else Inr (Some (case v of JStr s \<Rightarrow> s | _ \<Rightarrow> ''''))
      | Inr (Some _) \<Rightarrow> Inl (invalidFilter E attr))"

definition sortedUsers :: "(string, UserRecord) go_map \<Rightarrow> UserRecord list" where
  "sortedUsers m = sort_key urID (map snd m)"

definition sortedGroups :: "(string, GroupRecord) go_map \<Rightarrow> GroupRecord list" where
  "sortedGroups m = sort_key grID (map snd m)"

text \<open>\<^verbatim>\<open>pageUsers\<close> and \<^verbatim>\<open>pageGroups\<close> are one function at two types.\<close>

definition pageUsers :: "'a list \<Rightarrow> int \<Rightarrow> int \<Rightarrow> 'a list" where
  "pageUsers rows startIndex count =
     (let lo = (if startIndex - 1 < 0 then 0 else startIndex - 1) in
      if int (length rows) \<le> lo then []
      else
        let hi = (if count \<le> 0 \<or> int (length rows) < lo + count then int (length rows) else lo + count) in
        take (nat (hi - lo)) (drop (nat lo) rows))"

section \<open>Users\<close>

definition userFromWrite :: "string \<Rightarrow> UserWrite \<Rightarrow> go_time \<Rightarrow> go_time \<Rightarrow> UserRecord" where
  "userFromWrite i w created updated =
     \<lparr>urID = i, urUserName = uwUserName w, urFamilyName = uwFamilyName w, urGivenName = uwGivenName w,
      urEmails = [\<lparr>emValue = uwUserName w, emPrimary = True, emType = ''work''\<rparr>], urActive = uwActive w,
      urExternalID = uwExternalID w, urCreated = created, urUpdated = updated\<rparr>"

definition xuCreate :: "ScimEnv \<Rightarrow> ScimMem \<Rightarrow> request_ctx \<Rightarrow> ID \<Rightarrow> UserWrite \<Rightarrow> WriteMeta \<Rightarrow> ScimMem \<times> (store_error + UserRecord)" where
  "xuCreate E s ctx tenantID w meta =
     (case inSingleTenant E tenantID of
        Some err \<Rightarrow> (s, Inl err)
      | None \<Rightarrow>
          if list_ex (\<lambda>rec. urUserName rec = uwUserName w) (map snd (xsUsers s)) then (s, Inl (userNameTaken E (uwUserName w)))
          else
            let rec = userFromWrite (xeNewID E) w (xeCreatedAt E) (xeUpdatedAt E) in
            (emitUser E ctx actionUserCreate (Some rec) None False (s\<lparr>xsUsers := AList.update (urID rec) rec (xsUsers s)\<rparr>), Inr rec))"

definition xuGet :: "ScimEnv \<Rightarrow> ScimMem \<Rightarrow> request_ctx \<Rightarrow> ID \<Rightarrow> string \<Rightarrow> store_error + UserRecord" where
  "xuGet E s ctx tenantID i =
     (case inSingleTenant E tenantID of
        Some err \<Rightarrow> Inl err
      | None \<Rightarrow> (case map_of (xsUsers s) i of None \<Rightarrow> Inl errNotFound | Some rec \<Rightarrow> Inr rec))"

definition xuReplace :: "ScimEnv \<Rightarrow> ScimMem \<Rightarrow> request_ctx \<Rightarrow> ID \<Rightarrow> string \<Rightarrow> UserWrite \<Rightarrow> WriteMeta
    \<Rightarrow> ScimMem \<times> (store_error + UserRecord)" where
  "xuReplace E s ctx tenantID i w meta =
     (case inSingleTenant E tenantID of
        Some err \<Rightarrow> (s, Inl err)
      | None \<Rightarrow> (case map_of (xsUsers s) i of
          None \<Rightarrow> (s, Inl errNotFound)
        | Some existing \<Rightarrow>
            if uwUserName w \<noteq> urUserName existing \<and> list_ex (\<lambda>(oid, rec). oid \<noteq> i \<and> urUserName rec = uwUserName w) (xsUsers s)
            then (s, Inl (userNameTaken E (uwUserName w)))
            else
              let rec = userFromWrite i w (urCreated existing) (xeUpdatedAt E) in
              (emitUser E ctx actionUserReplace (Some rec) (wmBefore meta) (wmIfMatchPresent meta)
                 (s\<lparr>xsUsers := AList.update i rec (xsUsers s)\<rparr>), Inr rec)))"

definition xuDelete :: "ScimEnv \<Rightarrow> ScimMem \<Rightarrow> request_ctx \<Rightarrow> ID \<Rightarrow> string \<Rightarrow> WriteMeta \<Rightarrow> ScimMem \<times> store_error option" where
  "xuDelete E s ctx tenantID i meta =
     (case inSingleTenant E tenantID of
        Some err \<Rightarrow> (s, Some err)
      | None \<Rightarrow> (case map_of (xsUsers s) i of
          None \<Rightarrow> (s, Some errNotFound)
        | Some _ \<Rightarrow> (emitUser E ctx actionUserDelete None (wmBefore meta) (wmIfMatchPresent meta)
                        (s\<lparr>xsUsers := AList.delete i (xsUsers s)\<rparr>), None)))"

definition xuSavePatch :: "ScimEnv \<Rightarrow> ScimMem \<Rightarrow> request_ctx \<Rightarrow> ID \<Rightarrow> string \<Rightarrow> UserWrite \<Rightarrow> Operation list
    \<Rightarrow> ScimMem \<times> (store_error + UserRecord)" where
  "xuSavePatch E s ctx tenantID i w ops =
     (case inSingleTenant E tenantID of
        Some err \<Rightarrow> (s, Inl err)
      | None \<Rightarrow> (case map_of (xsUsers s) i of
          None \<Rightarrow> (s, Inl errNotFound)
        | Some existing \<Rightarrow>
            let rec = existing\<lparr>urUserName := uwUserName w, urExternalID := uwExternalID w, urActive := uwActive w,
              urEmails := [\<lparr>emValue = uwUserName w, emPrimary = True, emType = ''work''\<rparr>], urUpdated := xeUpdatedAt E\<rparr> in
            (emitUserPatch E ctx i ops (s\<lparr>xsUsers := AList.update i rec (xsUsers s)\<rparr>), Inr rec)))"

definition xuListFiltered :: "ScimEnv \<Rightarrow> ScimMem \<Rightarrow> request_ctx \<Rightarrow> ID \<Rightarrow> int \<Rightarrow> int \<Rightarrow> string \<Rightarrow> ScimMem \<times> (store_error + UserPage)" where
  "xuListFiltered E s ctx tenantID startIndex count flt =
     (if \<not> holdsTenant tenantID then (s, Inr \<lparr>upUsers = [], upTotal = 0\<rparr>)
      else (case parseEqFilter E flt ''userName'' of
          Inl err \<Rightarrow> (s, Inl err)
        | Inr want \<Rightarrow>
            let matched = filter (\<lambda>u. want = None \<or> want = Some (urUserName u)) (sortedUsers (xsUsers s));
                cnt = int (length matched) in
            (emitUserList E ctx flt cnt s, Inr \<lparr>upUsers = pageUsers matched startIndex count, upTotal = cnt\<rparr>)))"

section \<open>Groups\<close>

definition unknownMember :: "string \<Rightarrow> string \<Rightarrow> store_error" where
  "unknownMember kind i = wrapped ScimInvalidInput (''scim store: invalid input: member references unknown '' @ kind @ '' '' @ i)"

fun resolveMembers :: "ScimMem \<Rightarrow> MemberRef list \<Rightarrow> store_error + string list \<times> string list" where
  "resolveMembers s [] = Inr ([], [])"
| "resolveMembers s (m # ms) =
     (let i = trimSpace (mrValue m) in
      if toLower (trimSpace (mrType m)) = ''group''
      then (if map_of (xsGroups s) i = None then Inl (unknownMember ''group'' i)
            else (case resolveMembers s ms of Inl e \<Rightarrow> Inl e | Inr (us, gs) \<Rightarrow> Inr (us, i # gs)))
      else (if map_of (xsUsers s) i = None then Inl (unknownMember ''user'' i)
            else (case resolveMembers s ms of Inl e \<Rightarrow> Inl e | Inr (us, gs) \<Rightarrow> Inr (i # us, gs))))"

definition parentEdges :: "(string, GroupRecord) go_map \<Rightarrow> string \<Rightarrow> scim_err + string list" where
  "parentEdges m x = Inr (concat (map (\<lambda>g. map (\<lambda>_. grID g)
     (filter (\<lambda>mr. equalFold (mrType mr) ''group'' \<and> mrValue mr = x) (grMembers g))) (map snd m)))"

text \<open>The loop over the nested groups: the outer \<^verbatim>\<open>None\<close> is not returning, the inner one is no error.\<close>

fun checkChildren :: "(string \<Rightarrow> scim_err + string list) \<Rightarrow> string \<Rightarrow> string list \<Rightarrow> scim_err option option" where
  "checkChildren q i [] = Some None"
| "checkChildren q i (c # cs) =
     (case DetectCycle (Some q) i c of
        None \<Rightarrow> None
      | Some (Some e) \<Rightarrow> Some (Some e)
      | Some None \<Rightarrow> checkChildren q i cs)"

definition memberRows :: "string list \<Rightarrow> string list \<Rightarrow> MemberRef list" where
  "memberRows us gs = map (\<lambda>u. \<lparr>mrValue = u, mrType = ''User''\<rparr>) us @ map (\<lambda>g. \<lparr>mrValue = g, mrType = ''Group''\<rparr>) gs"

definition buildGroup :: "ScimEnv \<Rightarrow> ScimMem \<Rightarrow> string \<Rightarrow> GroupWrite \<Rightarrow> go_time \<Rightarrow> (store_error + GroupRecord) option" where
  "buildGroup E s i w created =
     (case resolveMembers s (gwMembers w) of
        Inl err \<Rightarrow> Some (Inl err)
      | Inr (us, gs) \<Rightarrow> (case checkChildren (parentEdges (xsGroups s)) i gs of
          None \<Rightarrow> None
        | Some (Some e) \<Rightarrow> Some (Inl (wrapped e (xeErrText E e)))
        | Some None \<Rightarrow> Some (Inr \<lparr>grID = i, grDisplayName = gwDisplayName w, grExternalID = gwExternalID w,
              grMembers = memberRows us gs, grCreated = created, grUpdated = xeUpdatedAt E\<rparr>)))"

text \<open>The branch for a \<^verbatim>\<open>buildGroup\<close> that does not return is dead: \<^verbatim>\<open>buildGroup_returns\<close> below.\<close>

definition storeGroup :: "ScimEnv \<Rightarrow> ScimMem \<Rightarrow> string \<Rightarrow> GroupWrite \<Rightarrow> go_time \<Rightarrow> (ScimMem \<Rightarrow> GroupRecord \<Rightarrow> ScimMem)
    \<Rightarrow> ScimMem \<times> (store_error + GroupRecord)" where
  "storeGroup E s i w created emit =
     (case buildGroup E s i w created of
        None \<Rightarrow> (s, Inl (wrapped (ScimFailure ''no result'') ''''))
      | Some (Inl err) \<Rightarrow> (s, Inl err)
      | Some (Inr rec) \<Rightarrow> (emit (s\<lparr>xsGroups := AList.update i rec (xsGroups s)\<rparr>) rec, Inr rec))"

definition xgCreate :: "ScimEnv \<Rightarrow> ScimMem \<Rightarrow> request_ctx \<Rightarrow> ID \<Rightarrow> GroupWrite \<Rightarrow> GroupWriteMeta \<Rightarrow> ScimMem \<times> (store_error + GroupRecord)" where
  "xgCreate E s ctx tenantID w meta =
     (case inSingleTenant E tenantID of
        Some err \<Rightarrow> (s, Inl err)
      | None \<Rightarrow> storeGroup E s (xeNewID E) w (xeCreatedAt E) (\<lambda>s rec. emitGroup E ctx actionGroupCreate (Some rec) None False s))"

definition xgGet :: "ScimEnv \<Rightarrow> ScimMem \<Rightarrow> request_ctx \<Rightarrow> ID \<Rightarrow> string \<Rightarrow> store_error + GroupRecord" where
  "xgGet E s ctx tenantID i =
     (case inSingleTenant E tenantID of
        Some err \<Rightarrow> Inl err
      | None \<Rightarrow> (case map_of (xsGroups s) i of None \<Rightarrow> Inl errNotFound | Some rec \<Rightarrow> Inr rec))"

definition xgReplace :: "ScimEnv \<Rightarrow> ScimMem \<Rightarrow> request_ctx \<Rightarrow> ID \<Rightarrow> string \<Rightarrow> GroupWrite \<Rightarrow> GroupWriteMeta
    \<Rightarrow> ScimMem \<times> (store_error + GroupRecord)" where
  "xgReplace E s ctx tenantID i w meta =
     (case inSingleTenant E tenantID of
        Some err \<Rightarrow> (s, Inl err)
      | None \<Rightarrow>
          if gwActorServiceAccountID w = '''' then (s, Inl (wrapped ScimInvalidInput ''scim store: invalid input: missing service-account actor''))
          else (case map_of (xsGroups s) i of
              None \<Rightarrow> (s, Inl errNotFound)
            | Some existing \<Rightarrow> storeGroup E s i w (grCreated existing)
                (\<lambda>s rec. emitGroup E ctx actionGroupReplace (Some rec) (gmBefore meta) (gmIfMatchPresent meta) s)))"

definition xgDelete :: "ScimEnv \<Rightarrow> ScimMem \<Rightarrow> request_ctx \<Rightarrow> ID \<Rightarrow> string \<Rightarrow> GroupWriteMeta \<Rightarrow> ScimMem \<times> store_error option" where
  "xgDelete E s ctx tenantID i meta =
     (case inSingleTenant E tenantID of
        Some err \<Rightarrow> (s, Some err)
      | None \<Rightarrow> (case map_of (xsGroups s) i of
          None \<Rightarrow> (s, Some errNotFound)
        | Some _ \<Rightarrow> (emitGroup E ctx actionGroupDelete None (gmBefore meta) (gmIfMatchPresent meta)
                        (s\<lparr>xsGroups := AList.delete i (xsGroups s)\<rparr>), None)))"

definition xgSavePatch :: "ScimEnv \<Rightarrow> ScimMem \<Rightarrow> request_ctx \<Rightarrow> ID \<Rightarrow> string \<Rightarrow> GroupWrite \<Rightarrow> Operation list
    \<Rightarrow> ScimMem \<times> (store_error + GroupRecord)" where
  "xgSavePatch E s ctx tenantID i w ops =
     (case inSingleTenant E tenantID of
        Some err \<Rightarrow> (s, Inl err)
      | None \<Rightarrow> (case map_of (xsGroups s) i of
          None \<Rightarrow> (s, Inl errNotFound)
        | Some existing \<Rightarrow> storeGroup E s i w (grCreated existing) (\<lambda>s rec. emitGroupPatch E ctx i ops s)))"

definition xgValidateMembers :: "ScimEnv \<Rightarrow> ScimMem \<Rightarrow> request_ctx \<Rightarrow> ID \<Rightarrow> MemberRef list \<Rightarrow> store_error option" where
  "xgValidateMembers E s ctx tenantID members =
     (case inSingleTenant E tenantID of
        Some err \<Rightarrow> Some err
      | None \<Rightarrow> (case resolveMembers s members of Inl err \<Rightarrow> Some err | Inr _ \<Rightarrow> None))"

definition xgListFiltered :: "ScimEnv \<Rightarrow> ScimMem \<Rightarrow> request_ctx \<Rightarrow> ID \<Rightarrow> int \<Rightarrow> int \<Rightarrow> string \<Rightarrow> ScimMem \<times> (store_error + GroupPage)" where
  "xgListFiltered E s ctx tenantID startIndex count flt =
     (if \<not> holdsTenant tenantID then (s, Inr \<lparr>gpGroups = [], gpTotal = 0\<rparr>)
      else (case parseEqFilter E flt ''displayName'' of
          Inl err \<Rightarrow> (s, Inl err)
        | Inr want \<Rightarrow>
            let matched = filter (\<lambda>g. want = None \<or> want = Some (grDisplayName g)) (sortedGroups (xsGroups s));
                cnt = int (length matched) in
            (emitGroupList E ctx flt cnt s, Inr \<lparr>gpGroups = pageUsers matched startIndex count, gpTotal = cnt\<rparr>)))"

definition scimUsers :: "ScimEnv \<Rightarrow> (ScimMem, request_ctx) UserStore" where
  "scimUsers E = \<lparr>usCreate = xuCreate E, usGet = xuGet E, usReplace = xuReplace E, usDelete = xuDelete E,
     usSavePatch = xuSavePatch E, usListFiltered = xuListFiltered E\<rparr>"

definition scimGroups :: "ScimEnv \<Rightarrow> (ScimMem, request_ctx) GroupStore" where
  "scimGroups E = \<lparr>gsCreate = xgCreate E, gsGet = xgGet E, gsReplace = xgReplace E, gsDelete = xgDelete E,
     gsSavePatch = xgSavePatch E, gsValidateMembers = xgValidateMembers E, gsListFiltered = xgListFiltered E\<rparr>"

lemma ports_sel [simp]:
  "usCreate (scimUsers E) = xuCreate E" "usGet (scimUsers E) = xuGet E" "usReplace (scimUsers E) = xuReplace E"
  "usDelete (scimUsers E) = xuDelete E" "usSavePatch (scimUsers E) = xuSavePatch E" "usListFiltered (scimUsers E) = xuListFiltered E"
  "gsCreate (scimGroups E) = xgCreate E" "gsGet (scimGroups E) = xgGet E" "gsReplace (scimGroups E) = xgReplace E"
  "gsDelete (scimGroups E) = xgDelete E" "gsSavePatch (scimGroups E) = xgSavePatch E"
  "gsValidateMembers (scimGroups E) = xgValidateMembers E" "gsListFiltered (scimGroups E) = xgListFiltered E"
  by (simp_all add: scimUsers_def scimGroups_def)

lemma IsSingle_eq: "IsSingle t \<longleftrightarrow> t = Single"
  by (cases t) (auto simp: IsSingle_def Single_def)

lemma inSingleTenant_None: "inSingleTenant E t = None \<longleftrightarrow> IsSingle t"
  by (simp add: inSingleTenant_def holdsTenant_def)

lemma inSingleTenant_Single [simp]: "inSingleTenant E Single = None"
  by (simp add: inSingleTenant_def holdsTenant_def IsSingle_eq)

lemma xuGet_Inr: "xuGet E s ctx t i = Inr rec \<longleftrightarrow> t = Single \<and> map_of (xsUsers s) i = Some rec"
  by (auto simp: xuGet_def inSingleTenant_def holdsTenant_def IsSingle_eq split: option.splits)

section \<open>The contract\<close>

definition directoryRows :: "ScimMem \<Rightarrow> ID \<Rightarrow> string \<Rightarrow> UserRecord option" where
  "directoryRows s t i = (if t = Single then map_of (xsUsers s) i else None)"

lemma emitters_keep [simp]:
  "xsGroups (emitUser E ctx a af be b s) = xsGroups s" "xsUsers (emitUser E ctx a af be b s) = xsUsers s"
  "xsGroups (emitUserPatch E ctx i ops s) = xsGroups s" "xsUsers (emitUserPatch E ctx i ops s) = xsUsers s"
  "xsGroups (emitUserList E ctx f n s) = xsGroups s" "xsUsers (emitUserList E ctx f n s) = xsUsers s"
  "xsGroups (emitGroup E ctx a afg beg b s) = xsGroups s" "xsUsers (emitGroup E ctx a afg beg b s) = xsUsers s"
  "xsGroups (emitGroupPatch E ctx i ops s) = xsGroups s" "xsUsers (emitGroupPatch E ctx i ops s) = xsUsers s"
  "xsGroups (emitGroupList E ctx f n s) = xsGroups s" "xsUsers (emitGroupList E ctx f n s) = xsUsers s"
  by (simp_all add: emit_defs logEvent_def)

lemma onlyRow_update: "xsUsers s' = AList.update i rec (xsUsers s) \<Longrightarrow> onlyRow (directoryRows s) Single i (Some rec) (directoryRows s')"
  by (auto simp: onlyRow_def directoryRows_def map_of_update)

lemma onlyRow_delete: "xsUsers s' = AList.delete i (xsUsers s) \<Longrightarrow> onlyRow (directoryRows s) Single i None (directoryRows s')"
  by (auto simp: onlyRow_def directoryRows_def map_of_delete)

lemma xuCreate_directory:
  "xuCreate E s c t w m = (s', res) \<Longrightarrow> (case res of Inl e \<Rightarrow> directoryRows s' = directoryRows s
    | Inr rec \<Rightarrow> onlyRow (directoryRows s) t (urID rec) (Some rec) (directoryRows s'))"
  by (auto simp: xuCreate_def Let_def inSingleTenant_None IsSingle_eq intro!: onlyRow_update split: option.splits if_splits)

lemma xuReplace_directory:
  "xuReplace E s c t i w m = (s', res) \<Longrightarrow> (case res of Inl e \<Rightarrow> directoryRows s' = directoryRows s
    | Inr rec \<Rightarrow> onlyRow (directoryRows s) t i (Some rec) (directoryRows s'))"
  by (auto simp: xuReplace_def Let_def inSingleTenant_None IsSingle_eq intro!: onlyRow_update split: option.splits if_splits)

lemma xuSavePatch_directory:
  "xuSavePatch E s c t i w ops = (s', res) \<Longrightarrow> (case res of Inl e \<Rightarrow> directoryRows s' = directoryRows s
    | Inr rec \<Rightarrow> onlyRow (directoryRows s) t i (Some rec) (directoryRows s'))"
  by (auto simp: xuSavePatch_def Let_def inSingleTenant_None IsSingle_eq intro!: onlyRow_update split: option.splits)

lemma xuDelete_directory:
  "xuDelete E s c t i m = (s', err) \<Longrightarrow> (case err of Some e \<Rightarrow> directoryRows s' = directoryRows s
    | None \<Rightarrow> onlyRow (directoryRows s) t i None (directoryRows s'))"
  by (auto simp: xuDelete_def inSingleTenant_None IsSingle_eq intro!: onlyRow_delete split: option.splits)

interpretation prov: scim_directory "scimUsers E" directoryRows for E
proof (unfold_locales, unfold ports_sel, goal_cases)
  case (1 s c t i rec)
  then show ?case by (auto simp: xuGet_Inr directoryRows_def)
next
  case (2 s c t w m s' rec)
  then show ?case by (auto dest: xuCreate_directory)
next
  case (3 s c t i w m s' rec)
  then show ?case by (auto dest: xuReplace_directory)
next
  case (4 s c t i w ops s' rec)
  then show ?case by (auto dest: xuSavePatch_directory)
next
  case (5 s c t i m s')
  then show ?case by (auto dest: xuDelete_directory)
next
  case (6 s c t w m s' e)
  then show ?case by (auto dest: xuCreate_directory)
next
  case (7 s c t i w m s' e)
  then show ?case by (auto dest: xuReplace_directory)
next
  case (8 s c t i w ops s' e)
  then show ?case by (auto dest: xuSavePatch_directory)
next
  case (9 s c t i m s' e)
  then show ?case by (auto dest: xuDelete_directory)
next
  case (10 s c t n k f s' res)
  then show ?case
    by (auto simp: xuListFiltered_def Let_def directoryRows_def fun_eq_iff split: if_splits sum.splits)
qed

section \<open>Nesting\<close>

text \<open>The member edges of the rows, from a group to the groups that have it as a member.\<close>

definition nesting :: "(string, GroupRecord) go_map \<Rightarrow> (string \<times> string) set" where
  "nesting m = {(x, grID g) | x g. g \<in> snd ` set m \<and> (\<exists>mr\<in>set (grMembers g). equalFold (mrType mr) ''group'' \<and> mrValue mr = x)}"

lemma upFrom_parentEdges: "upFrom (parentEdges m) = nesting m"
proof -
  have "(x, p) \<in> upFrom (parentEdges m) \<longleftrightarrow> (x, p) \<in> nesting m" for x p
    unfolding upFrom_def parentEdges_def nesting_def by (simp add: image_iff) blast
  then show ?thesis by auto
qed

lemma finite_nesting: "finite (nesting m)"
proof -
  have "nesting m \<subseteq> (\<Union>g\<in>snd ` set m. (\<lambda>mr. (mrValue mr, grID g)) ` set (grMembers g))"
    unfolding nesting_def by blast
  then show ?thesis by (rule finite_subset) simp
qed

lemma finite_above: "finite {x. (p, x) \<in> (nesting m)\<^sup>*}"
  by (rule finite_subset [OF reach_Range]) (simp add: finite_nesting finite_Range)

text \<open>On this graph, whose every query answers, the check returns, and refuses exactly what is above the group.\<close>

lemma DetectCycle_parentEdges:
  "\<exists>r. DetectCycle (Some (parentEdges m)) p c = Some r \<and> (r = None \<longrightarrow> (p, c) \<notin> (nesting m)\<^sup>*) \<and>
    (p \<noteq> '''' \<and> c \<noteq> '''' \<longrightarrow> r = None \<or> r = Some (ErrCyclicGroup p c) \<and> (p, c) \<in> (nesting m)\<^sup>*)"
proof (cases "p = '''' \<or> c = '''' \<or> p = c")
  case True
  then show ?thesis by (auto simp: DetectCycle_def)
next
  case False
  have "loopInv (parentEdges m) p c [p] [p]" using False by (auto simp: loopInv_def)
  moreover have "finite {x. (p, x) \<in> (upFrom (parentEdges m))\<^sup>*}" by (simp add: upFrom_parentEdges finite_above)
  ultimately obtain r where r: "detectLoop (parentEdges m) p c [p] [p] = Some r" "loopPost (parentEdges m) p c r"
    using detectLoop_returns by blast
  then have "DetectCycle (Some (parentEdges m)) p c = Some r" using False by (simp add: DetectCycle_def)
  moreover have "r = None \<longrightarrow> (p, c) \<notin> (nesting m)\<^sup>*" using r(2) by (auto simp: loopPost_def upFrom_parentEdges)
  moreover have "parentEdges m x \<noteq> Inl e" for x e by (simp add: parentEdges_def)
  then have "r = None \<or> r = Some (ErrCyclicGroup p c) \<and> (p, c) \<in> (nesting m)\<^sup>*"
    using r(2) by (cases r) (auto simp: loopPost_def upFrom_parentEdges dest: trancl_into_rtrancl)
  ultimately show ?thesis by blast
qed

lemma checkChildren_returns:
  "\<exists>r. checkChildren (parentEdges m) i cs = Some r \<and> (r = None \<longrightarrow> (\<forall>c\<in>set cs. (i, c) \<notin> (nesting m)\<^sup>*)) \<and>
    (i \<noteq> '''' \<and> '''' \<notin> set cs \<longrightarrow> r = None \<or> (\<exists>c\<in>set cs. r = Some (ErrCyclicGroup i c) \<and> (i, c) \<in> (nesting m)\<^sup>*))"
proof (induction cs)
  case Nil
  then show ?case by simp
next
  case (Cons c cs)
  obtain r where r: "DetectCycle (Some (parentEdges m)) i c = Some r" "r = None \<longrightarrow> (i, c) \<notin> (nesting m)\<^sup>*"
    "i \<noteq> '''' \<and> c \<noteq> '''' \<longrightarrow> r = None \<or> r = Some (ErrCyclicGroup i c) \<and> (i, c) \<in> (nesting m)\<^sup>*"
    using DetectCycle_parentEdges by blast
  with Cons show ?case by (cases r) auto
qed

lemma buildGroup_returns: "buildGroup E s i w created \<noteq> None"
proof (cases "resolveMembers s (gwMembers w)")
  case (Inl e)
  then show ?thesis by (simp add: buildGroup_def)
next
  case (Inr ug)
  obtain us gs where "ug = (us, gs)" by (cases ug)
  moreover obtain r where "checkChildren (parentEdges (xsGroups s)) i gs = Some r" using checkChildren_returns by blast
  ultimately show ?thesis using Inr by (cases r) (simp_all add: buildGroup_def)
qed

lemma storeGroup_cases:
  obtains err where "storeGroup E s i w created emit = (s, Inl err)"
  | us gs rec where "resolveMembers s (gwMembers w) = Inr (us, gs)" "\<forall>c\<in>set gs. (i, c) \<notin> (nesting (xsGroups s))\<^sup>*"
      "rec = \<lparr>grID = i, grDisplayName = gwDisplayName w, grExternalID = gwExternalID w, grMembers = memberRows us gs,
              grCreated = created, grUpdated = xeUpdatedAt E\<rparr>"
      "storeGroup E s i w created emit = (emit (s\<lparr>xsGroups := AList.update i rec (xsGroups s)\<rparr>) rec, Inr rec)"
proof (cases "resolveMembers s (gwMembers w)")
  case (Inl e)
  then show ?thesis using that(1) by (simp add: storeGroup_def buildGroup_def)
next
  case (Inr ug)
  obtain us gs where ug: "ug = (us, gs)" by (cases ug)
  obtain r where r: "checkChildren (parentEdges (xsGroups s)) i gs = Some r" "r = None \<longrightarrow> (\<forall>c\<in>set gs. (i, c) \<notin> (nesting (xsGroups s))\<^sup>*)"
    using checkChildren_returns by blast
  show ?thesis
  proof (cases r)
    case None
    with r Inr ug that(2) show ?thesis by (simp add: storeGroup_def buildGroup_def)
  next
    case (Some e)
    with r Inr ug that(1) show ?thesis by (simp add: storeGroup_def buildGroup_def)
  qed
qed

definition groupRows :: "(string, GroupRecord) go_map \<Rightarrow> bool" where
  "groupRows m \<longleftrightarrow> distinct (map fst m) \<and> (\<forall>k g. map_of m k = Some g \<longrightarrow> grID g = k) \<and> acyclic (nesting m)"

lemma nesting_map_of:
  assumes "distinct (map fst m)"
  shows "(x, p) \<in> nesting m \<longleftrightarrow> (\<exists>k g. map_of m k = Some g \<and> grID g = p \<and>
    (\<exists>mr\<in>set (grMembers g). equalFold (mrType mr) ''group'' \<and> mrValue mr = x))"
proof -
  have "g \<in> snd ` set m \<longleftrightarrow> (\<exists>k. map_of m k = Some g)" for g
  proof -
    have "g \<in> snd ` set m \<longleftrightarrow> (\<exists>k. (k, g) \<in> set m)" by (force simp: image_iff)
    then show ?thesis using assms by (simp add: map_of_eq_Some_iff)
  qed
  then show ?thesis unfolding nesting_def by blast
qed

lemma memberRows_groups:
  "(\<exists>mr\<in>set (memberRows us gs). equalFold (mrType mr) ''group'' \<and> mrValue mr = x) \<longleftrightarrow> x \<in> set gs"
proof -
  have u: "\<not> equalFold ''User'' ''group''" and g: "equalFold ''Group'' ''group''" by code_simp+
  show ?thesis unfolding memberRows_def set_append set_map bex_Un bex_simps(7) by (simp add: u g)
qed

lemma acyclic_new_children:
  assumes "acyclic R" "\<forall>c\<in>C. (i, c) \<notin> R\<^sup>*"
  shows "acyclic ({(x, p) \<in> R. p \<noteq> i} \<union> (\<lambda>c. (c, i)) ` C)"
proof -
  let ?S = "{(x, p) \<in> R. p \<noteq> i} \<union> (\<lambda>c. (c, i)) ` C"
  have path: "(a, b) \<in> R\<^sup>+ \<or> ((i, b) \<in> R\<^sup>* \<and> (\<exists>c\<in>C. (a, c) \<in> R\<^sup>*))" if "(a, b) \<in> ?S\<^sup>+" for a b
    using that
  proof (induction rule: trancl_induct)
    case (base y)
    then show ?case by auto
  next
    case (step y z)
    from step.hyps(2) consider "(y, z) \<in> R" | c where "c \<in> C" "y = c" "z = i" by auto
    then show ?case
    proof cases
      case 1
      with step.IH show ?thesis by (meson rtrancl.rtrancl_into_rtrancl trancl.trancl_into_trancl)
    next
      case 2
      with step.IH assms(2) show ?thesis by (metis rtrancl.rtrancl_refl trancl_into_rtrancl)
    qed
  qed
  show ?thesis
    unfolding acyclic_def
  proof (intro allI notI)
    fix x assume "(x, x) \<in> ?S\<^sup>+"
    from path [OF this] show False
    proof
      assume "(x, x) \<in> R\<^sup>+"
      with assms(1) show False by (simp add: acyclic_def)
    next
      assume "(i, x) \<in> R\<^sup>* \<and> (\<exists>c\<in>C. (x, c) \<in> R\<^sup>*)"
      then obtain c where "c \<in> C" "(i, c) \<in> R\<^sup>*" by (meson rtrancl_trans)
      with assms(2) show False by blast
    qed
  qed
qed

lemma update_children:
  assumes "groupRows m" "grID rec = i" "grMembers rec = memberRows us gs"
  shows "nesting (AList.update i rec m) = {(x, p) \<in> nesting m. p \<noteq> i} \<union> (\<lambda>c. (c, i)) ` set gs"
proof -
  let ?m = "AList.update i rec m"
  have d: "distinct (map fst m)" "distinct (map fst ?m)" using assms(1) by (simp_all add: groupRows_def alist_simps)
  have keyed: "grID g = k" if "map_of m k = Some g" for k g using assms(1) that by (simp add: groupRows_def)
  have e: "(x, p) \<in> nesting ?m \<longleftrightarrow> (x, p) \<in> {(x, p) \<in> nesting m. p \<noteq> i} \<union> (\<lambda>c. (c, i)) ` set gs" for x p
  proof (cases "p = i")
    case True
    have "(x, i) \<in> nesting ?m \<longleftrightarrow> x \<in> set gs"
      unfolding nesting_map_of [OF d(2)] map_of_update
      using keyed assms(2,3) memberRows_groups [of us gs x] by (auto split: if_splits)
    with True show ?thesis by auto
  next
    case False
    then show ?thesis
      unfolding Un_iff mem_Collect_eq case_prod_conv nesting_map_of [OF d(1)] nesting_map_of [OF d(2)] map_of_update
      using keyed assms(2) by (auto split: if_splits)
  qed
  then show ?thesis by (simp add: set_eq_iff split_paired_all)
qed

lemma groupRows_store:
  assumes "groupRows m" "\<forall>c\<in>set gs. (i, c) \<notin> (nesting m)\<^sup>*" "grID rec = i" "grMembers rec = memberRows us gs"
  shows "groupRows (AList.update i rec m)"
proof -
  have "acyclic (nesting (AList.update i rec m))"
    unfolding update_children [OF assms(1,3,4)] using assms(1,2) by (intro acyclic_new_children) (auto simp: groupRows_def)
  then show ?thesis using assms(1,3) by (auto simp: groupRows_def alist_simps)
qed

lemma groupRows_delete: "groupRows m \<Longrightarrow> groupRows (AList.delete i m)"
proof -
  assume m: "groupRows m"
  have d: "distinct (map fst m)" "distinct (map fst (AList.delete i m))" using m by (simp_all add: groupRows_def alist_simps)
  have "nesting (AList.delete i m) \<subseteq> nesting m"
  proof (rule subrelI)
    fix x p assume "(x, p) \<in> nesting (AList.delete i m)"
    then show "(x, p) \<in> nesting m"
      unfolding nesting_map_of [OF d(1)] nesting_map_of [OF d(2)] map_of_delete by (auto split: if_splits)
  qed
  then have "acyclic (nesting (AList.delete i m))" using m unfolding groupRows_def by (meson acyclic_subset)
  then show ?thesis using m d(2) by (auto simp: groupRows_def alist_simps split: if_splits)
qed

text \<open>Every call of either port, with any environment, context, tenant and payload.\<close>

inductive scimReach :: "ScimMem \<Rightarrow> bool" where
  reach_new: "scimReach newScimStores"
| reach_userCreate: "scimReach s \<Longrightarrow> scimReach (fst (xuCreate E s ctx t w m))"
| reach_userReplace: "scimReach s \<Longrightarrow> scimReach (fst (xuReplace E s ctx t i w m))"
| reach_userDelete: "scimReach s \<Longrightarrow> scimReach (fst (xuDelete E s ctx t i m))"
| reach_userPatch: "scimReach s \<Longrightarrow> scimReach (fst (xuSavePatch E s ctx t i w ops))"
| reach_userList: "scimReach s \<Longrightarrow> scimReach (fst (xuListFiltered E s ctx t start count flt))"
| reach_groupCreate: "scimReach s \<Longrightarrow> scimReach (fst (xgCreate E s ctx t gw gm))"
| reach_groupReplace: "scimReach s \<Longrightarrow> scimReach (fst (xgReplace E s ctx t i gw gm))"
| reach_groupDelete: "scimReach s \<Longrightarrow> scimReach (fst (xgDelete E s ctx t i gm))"
| reach_groupPatch: "scimReach s \<Longrightarrow> scimReach (fst (xgSavePatch E s ctx t i gw ops))"
| reach_groupList: "scimReach s \<Longrightarrow> scimReach (fst (xgListFiltered E s ctx t start count flt))"

lemma storeGroup_keeps:
  assumes "groupRows (xsGroups s)" "\<And>s rec. xsGroups (emit s rec) = xsGroups s"
  shows "groupRows (xsGroups (fst (storeGroup E s i w created emit)))"
proof (cases rule: storeGroup_cases [of E s i w created emit])
  case (1 err)
  with assms(1) show ?thesis by simp
next
  case (2 us gs rec)
  have "groupRows (AList.update i rec (xsGroups s))"
    by (rule groupRows_store [OF assms(1) 2(2)]) (simp_all add: 2(3))
  then show ?thesis by (simp add: 2(4) assms(2))
qed

lemma user_calls_keep_groups [simp]:
  "xsGroups (fst (xuCreate E s ctx t w m)) = xsGroups s"
  "xsGroups (fst (xuReplace E s ctx t i w m)) = xsGroups s"
  "xsGroups (fst (xuDelete E s ctx t i m)) = xsGroups s"
  "xsGroups (fst (xuSavePatch E s ctx t i w ops)) = xsGroups s"
  "xsGroups (fst (xuListFiltered E s ctx t start count flt)) = xsGroups s"
  by (simp_all add: xuCreate_def xuReplace_def xuDelete_def xuSavePatch_def xuListFiltered_def Let_def split: option.split sum.split)

lemma reach_groupRows: "scimReach s \<Longrightarrow> groupRows (xsGroups s)"
proof (induction rule: scimReach.induct)
  case reach_new
  then show ?case by (simp add: newScimStores_def groupRows_def nesting_def acyclic_def)
next
  case (reach_groupCreate s E ctx t gw gm)
  then show ?case by (auto simp: xgCreate_def intro: storeGroup_keeps split: option.split)
next
  case (reach_groupReplace s E ctx t i gw gm)
  then show ?case by (auto simp: xgReplace_def intro: storeGroup_keeps split: option.split)
next
  case (reach_groupDelete s E ctx t i gm)
  then show ?case by (simp add: xgDelete_def groupRows_delete split: option.split)
next
  case (reach_groupPatch s E ctx t i gw ops)
  then show ?case by (auto simp: xgSavePatch_def intro: storeGroup_keeps split: option.split)
next
  case (reach_groupList s E ctx t start count flt)
  then show ?case by (simp add: xgListFiltered_def Let_def split: sum.split)
qed simp_all

lemma acyclic_path_avoids_start:
  assumes "acyclic R" "(i, c) \<in> R\<^sup>*"
  shows "(i, c) \<in> {(x, p) \<in> R. p \<noteq> i}\<^sup>*"
  using assms(2)
proof (induction rule: rtrancl_induct)
  case base
  then show ?case by simp
next
  case (step y z)
  have "z \<noteq> i"
  proof
    assume "z = i"
    with step.hyps have "(i, i) \<in> R\<^sup>+" by (meson rtrancl_into_trancl1)
    with assms(1) show False by (simp add: acyclic_def)
  qed
  with step show ?case by (auto intro: rtrancl_into_rtrancl)
qed

section \<open>Properties\<close>

text \<open>
  C35. Nested groups stay free of cycles, and a write is refused for a cycle only when it would close one. In every state that
  calls of the two ports can reach, in any order and with any payload, the member edges are acyclic; a group write whose members
  resolve is stored exactly when the edges are acyclic with it in place of the group's old row, and is otherwise refused with the
  error the transport answers as \<^verbatim>\<open>CIRCULAR_GROUP_REFERENCE\<close>. The check always returns.
\<close>

theorem nesting_stays_acyclic:
  assumes "scimReach s" "resolveMembers s (gwMembers w) = Inr (us, gs)" "i \<noteq> ''''" "'''' \<notin> set gs"
  shows "acyclic (nesting (xsGroups s)) \<and>
    (\<exists>rec. grID rec = i \<and> grDisplayName rec = gwDisplayName w \<and> grExternalID rec = gwExternalID w \<and> grMembers rec = memberRows us gs \<and>
      (if acyclic (nesting (AList.update i rec (xsGroups s))) then buildGroup E s i w created = Some (Inr rec)
       else (\<exists>err. buildGroup E s i w created = Some (Inl err) \<and> storeErrCyclic err)))"
proof -
  let ?m = "xsGroups s"
  let ?rec = "\<lparr>grID = i, grDisplayName = gwDisplayName w, grExternalID = gwExternalID w, grMembers = memberRows us gs,
    grCreated = created, grUpdated = xeUpdatedAt E\<rparr>"
  have rows: "groupRows ?m" by (rule reach_groupRows [OF assms(1)])
  then have acy: "acyclic (nesting ?m)" by (simp add: groupRows_def)
  have new: "nesting (AList.update i ?rec ?m) = {(x, p) \<in> nesting ?m. p \<noteq> i} \<union> (\<lambda>c. (c, i)) ` set gs"
    by (rule update_children [OF rows]) simp_all
  obtain r where r: "checkChildren (parentEdges ?m) i gs = Some r" "r = None \<longrightarrow> (\<forall>c\<in>set gs. (i, c) \<notin> (nesting ?m)\<^sup>*)"
    "r = None \<or> (\<exists>c\<in>set gs. r = Some (ErrCyclicGroup i c) \<and> (i, c) \<in> (nesting ?m)\<^sup>*)"
    using checkChildren_returns [of ?m i gs] assms(3,4) by blast
  from r(3) have "if acyclic (nesting (AList.update i ?rec ?m)) then buildGroup E s i w created = Some (Inr ?rec)
       else (\<exists>err. buildGroup E s i w created = Some (Inl err) \<and> storeErrCyclic err)"
  proof
    assume n: "r = None"
    with r(2) have "acyclic (nesting (AList.update i ?rec ?m))" unfolding new using acy by (intro acyclic_new_children) simp_all
    then show ?thesis using n r(1) assms(2) by (simp add: buildGroup_def)
  next
    assume "\<exists>c\<in>set gs. r = Some (ErrCyclicGroup i c) \<and> (i, c) \<in> (nesting ?m)\<^sup>*"
    then obtain c where c: "c \<in> set gs" "r = Some (ErrCyclicGroup i c)" "(i, c) \<in> (nesting ?m)\<^sup>*" by blast
    have "(i, c) \<in> (nesting (AList.update i ?rec ?m))\<^sup>*"
      unfolding new by (rule rtrancl_mono [THEN subsetD, OF _ acyclic_path_avoids_start [OF acy c(3)]]) blast
    moreover have "(c, i) \<in> nesting (AList.update i ?rec ?m)" unfolding new using c(1) by blast
    ultimately have "\<not> acyclic (nesting (AList.update i ?rec ?m))" unfolding acyclic_def by (meson rtrancl_into_trancl1)
    then show ?thesis using c(2) r(1) assms(2) by (simp add: buildGroup_def wrapped_def storeErrCyclic_def)
  qed
  then have "grID ?rec = i \<and> grDisplayName ?rec = gwDisplayName w \<and> grExternalID ?rec = gwExternalID w \<and> grMembers ?rec = memberRows us gs \<and>
      (if acyclic (nesting (AList.update i ?rec ?m)) then buildGroup E s i w created = Some (Inr ?rec)
       else (\<exists>err. buildGroup E s i w created = Some (Inl err) \<and> storeErrCyclic err))" by simp
  then show ?thesis using acy by blast
qed

declare detectLoop.simps [code]

definition exampleScimCtx :: request_ctx where
  "exampleScimCtx = \<lparr>axActor = None, axClusterID = None, cxUserID = None, cxClaims = None, cxActorSlot = None, cxTenant = None,
     cxPrincipal = Some \<lparr>prID = ''sa'', prTenantID = '''', prName = ''idp'', prDescription = '''', prCreatedAt = 0\<rparr>,
     cxRemoteIP = None, cxCookies = []\<rparr>"

definition exampleScimEnv :: "string \<Rightarrow> go_time \<Rightarrow> ScimEnv" where
  "exampleScimEnv i t = \<lparr>xeNewID = i, xeCreatedAt = t, xeUpdatedAt = t, xeEventID = ''e'', xeEventAt = t, xeAudit = True,
     xeMarshal = (\<lambda>j. ''payload''), xePatchPayload = (\<lambda>ops n. ''patch''), xeJSON = (\<lambda>_. None), xePrintInt = (\<lambda>n. ''1''),
     xeQuote = (\<lambda>t. t), xeFilter = (\<lambda>_. None), xeErrText = (\<lambda>_. ''error'')\<rparr>"

definition exampleGroupWrite :: "string list \<Rightarrow> GroupWrite" where
  "exampleGroupWrite gs = \<lparr>gwDisplayName = ''g'', gwExternalID = '''', gwMembers = map (\<lambda>g. \<lparr>mrValue = g, mrType = ''group''\<rparr>) gs,
     gwActorServiceAccountID = ''sa''\<rparr>"

text \<open>Group a, and group b with a in it.\<close>

definition exampleScimStores :: ScimMem where
  "exampleScimStores =
     fst (xgCreate (exampleScimEnv ''b'' 2)
       (fst (xgCreate (exampleScimEnv ''a'' 1) newScimStores exampleScimCtx Single (exampleGroupWrite []) \<lparr>gmIfMatchPresent = False, gmBefore = None\<rparr>))
       exampleScimCtx Single (exampleGroupWrite [''a'']) \<lparr>gmIfMatchPresent = False, gmBefore = None\<rparr>)"

lemma exampleScimStores_reach: "scimReach exampleScimStores"
  unfolding exampleScimStores_def by (intro reach_groupCreate reach_new)

text \<open>Putting b into a is refused.\<close>

theorem nesting_stays_acyclic_witness:
  "acyclic (nesting (xsGroups exampleScimStores)) \<and>
   (\<exists>rec. grID rec = ''a'' \<and> grMembers rec = memberRows [] [''b''] \<and>
      \<not> acyclic (nesting (AList.update ''a'' rec (xsGroups exampleScimStores))))"
proof -
  let ?w = "exampleGroupWrite [''b'']" and ?E = "exampleScimEnv ''c'' 3"
  have g: "resolveMembers exampleScimStores (gwMembers ?w) = Inr ([], [''b''])" "isOk (the (buildGroup ?E exampleScimStores ''a'' ?w 1)) = False"
    by code_simp+
  show ?thesis
    using nesting_stays_acyclic [OF exampleScimStores_reach g(1), of "''a''" ?E 1] g(2) by (auto split: if_splits)
qed

end
