(* ===== verification/Provisioning_App.thy ===== *)
theory Provisioning_App
  imports Provisioning_Store
begin

text \<open>
  The provisioning example mounted, \<^verbatim>\<open>examples/scim/main.go\<close>: the routes behind the service-account gate, with the stores of
  \<^theory_text>\<open>Provisioning_Store\<close> behind the handlers of \<^theory_text>\<open>Espresso_Scim\<close>. What a request can reach depends on the principal and on nothing
  else, and every write leaves one audit row of the calling account.
\<close>

section \<open>Routes\<close>

datatype scim_verb =
    VUsersList | VUsersCreate | VUsersGet | VUsersReplace | VUsersPatch | VUsersDelete
  | VGroupsList | VGroupsCreate | VGroupsGet | VGroupsReplace | VGroupsPatch | VGroupsDelete

fun scimHandler :: "ScimLib \<Rightarrow> scim_verb \<Rightarrow> 's SCIMRoutes \<Rightarrow> 's \<Rightarrow> scim_request \<Rightarrow> 's served" where
  "scimHandler lib VUsersList = UsersList lib"
| "scimHandler lib VUsersCreate = UsersCreate lib"
| "scimHandler lib VUsersGet = UsersGet lib"
| "scimHandler lib VUsersReplace = UsersReplace lib"
| "scimHandler lib VUsersPatch = UsersPatch lib"
| "scimHandler lib VUsersDelete = UsersDelete lib"
| "scimHandler lib VGroupsList = GroupsList lib"
| "scimHandler lib VGroupsCreate = GroupsCreate lib"
| "scimHandler lib VGroupsGet = GroupsGet lib"
| "scimHandler lib VGroupsReplace = GroupsReplace lib"
| "scimHandler lib VGroupsPatch = GroupsPatch lib"
| "scimHandler lib VGroupsDelete = GroupsDelete lib"

definition mountedScim :: "SCIMConfig \<Rightarrow> ScimEnv \<Rightarrow> ScimMem SCIMRoutes" where
  "mountedScim cfg E = \<lparr>srCfg = cfg, srUsers = scimUsers E, srGroups = scimGroups E\<rparr>"

text \<open>The gate, on a request that has more to it than the middleware reads.\<close>

definition scimGuard :: "(string \<Rightarrow> validator_err + Principal) \<Rightarrow> scim_request \<Rightarrow> response + scim_request" where
  "scimGuard validate r =
     (case RequireServiceAccount validate (request.truncate r) of
        Stop resp \<Rightarrow> Inl resp
      | Next q \<Rightarrow> Inr (r\<lparr>rqCtx := rqCtx q\<rparr>))"

lemma scimGuard_next:
  assumes "scimGuard validate r0 = Inr r"
  obtains p tok where "bearerToken (rqAuthorization r0) = Inr tok" "validate tok = Inr p" "cxPrincipal (rqCtx r) = Some p"
    "ActorFromContext (rqCtx r) = ActorService (prID p) (prName p) (FromStored (prTenantID p))"
proof -
  from assms obtain tok p where t: "bearerToken (rqAuthorization r0) = Inr tok" "validate tok = Inr p"
    and r: "r = r0\<lparr>rqCtx := WithActor ((rqCtx r0)\<lparr>cxPrincipal := Some p\<rparr>)
        (ActorService (prID p) (prName p) (FromStored (prTenantID p)))\<rparr>"
    by (auto simp: scimGuard_def RequireServiceAccount_def request.defs split: sum.splits validator_err.splits outcome.splits)
  have "cxPrincipal (rqCtx r) = Some p" "ActorFromContext (rqCtx r) = ActorService (prID p) (prName p) (FromStored (prTenantID p))"
    by (simp_all add: r WithActor_def ActorFromContext_def ActorService_def actor_types)
  with t that show thesis by blast
qed

section \<open>What a request can reach\<close>

text \<open>Two mounts whose stores behave alike for one tenant.\<close>

definition agreeAt :: "ID \<Rightarrow> 's SCIMRoutes \<Rightarrow> 's SCIMRoutes \<Rightarrow> bool" where
  "agreeAt tid a b \<longleftrightarrow> srCfg a = srCfg b \<and>
     (\<forall>s ctx. usCreate (srUsers a) s ctx tid = usCreate (srUsers b) s ctx tid \<and> usGet (srUsers a) s ctx tid = usGet (srUsers b) s ctx tid \<and>
       usReplace (srUsers a) s ctx tid = usReplace (srUsers b) s ctx tid \<and> usDelete (srUsers a) s ctx tid = usDelete (srUsers b) s ctx tid \<and>
       usSavePatch (srUsers a) s ctx tid = usSavePatch (srUsers b) s ctx tid \<and>
       usListFiltered (srUsers a) s ctx tid = usListFiltered (srUsers b) s ctx tid \<and>
       gsCreate (srGroups a) s ctx tid = gsCreate (srGroups b) s ctx tid \<and> gsGet (srGroups a) s ctx tid = gsGet (srGroups b) s ctx tid \<and>
       gsReplace (srGroups a) s ctx tid = gsReplace (srGroups b) s ctx tid \<and> gsDelete (srGroups a) s ctx tid = gsDelete (srGroups b) s ctx tid \<and>
       gsSavePatch (srGroups a) s ctx tid = gsSavePatch (srGroups b) s ctx tid \<and>
       gsValidateMembers (srGroups a) s ctx tid = gsValidateMembers (srGroups b) s ctx tid \<and>
       gsListFiltered (srGroups a) s ctx tid = gsListFiltered (srGroups b) s ctx tid)"

lemma routing_agrees:
  assumes "agreeAt tid a b" "scimTenant ctx = Some tid"
  shows "userCreate a s ctx = userCreate b s ctx" "userGet a s ctx = userGet b s ctx" "userReplace a s ctx = userReplace b s ctx"
    "userDelete a s ctx = userDelete b s ctx" "userSavePatch a s ctx = userSavePatch b s ctx"
    "userListFiltered a s ctx = userListFiltered b s ctx" "groupCreate a s ctx = groupCreate b s ctx"
    "groupGet a s ctx = groupGet b s ctx" "groupReplace a s ctx = groupReplace b s ctx" "groupDelete a s ctx = groupDelete b s ctx"
    "groupSavePatch a s ctx = groupSavePatch b s ctx" "groupValidateMembers a s ctx = groupValidateMembers b s ctx"
    "groupListFiltered a s ctx = groupListFiltered b s ctx"
  using assms(1) by (simp_all add: store_routing assms(2) agreeAt_def fun_eq_iff)

lemma routing_panics:
  assumes "scimTenant ctx = None"
  shows "userCreate a s ctx w m = None" "userGet a s ctx i = None" "groupCreate a s ctx gw gm = None" "userListFiltered a s ctx n c f = None"
    "groupGet a s ctx i = None" "groupListFiltered a s ctx n c f = None" "groupValidateMembers a s ctx ms = None"
  by (simp_all add: store_routing assms)

lemmas scim_handler_defs = UsersList_def UsersCreate_def UsersGet_def UsersReplace_def UsersPatch_def UsersDelete_def
  GroupsList_def GroupsCreate_def GroupsGet_def GroupsReplace_def GroupsPatch_def GroupsDelete_def
lemmas scim_half_defs = finishHalf_def usersReplaceRead_def usersReplaceWrite_def usersDeleteRead_def usersDeleteWrite_def
  usersPatchRead_def usersPatchWrite_def groupsReplaceRead_def groupsReplaceWrite_def groupsDeleteRead_def groupsDeleteWrite_def
  groupsPatchRead_def groupsPatchWrite_def

text \<open>What a handler reads of a request besides the context.\<close>

definition sameInput :: "scim_request \<Rightarrow> scim_request \<Rightarrow> bool" where
  "sameInput r r' \<longleftrightarrow> rqCtx r' = rqCtx r \<and> scimTrailingSegment (rqPath r') = scimTrailingSegment (rqPath r) \<and>
     sqIfMatch r' = sqIfMatch r \<and> sqQuery r' = sqQuery r \<and> sqBody r' = sqBody r"

lemma handlers_agree:
  assumes "agreeAt tid a b" "scimTenant (rqCtx r) = Some tid" "sameInput r r'" "baseURL b r' = baseURL a r"
  shows "scimHandler lib v b s r' = scimHandler lib v a s r"
proof -
  have c: "srCfg b = srCfg a" using assms(1) by (simp add: agreeAt_def)
  note i = assms(3) [unfolded sameInput_def]
  have same: "rqCtx r' = rqCtx r" "scimTrailingSegment (rqPath r') = scimTrailingSegment (rqPath r)"
     "sqIfMatch r' = sqIfMatch r" "sqQuery r' = sqQuery r" "sqBody r' = sqBody r" using i by simp_all
  have ans: "userAnswer lib b r' = userAnswer lib a r" "groupAnswer lib b r' = groupAnswer lib a r"
    by (simp_all add: userAnswer_def groupAnswer_def fun_eq_iff assms(4) c)
  have pg: "parsePagination b = parsePagination a" by (rule ext) (simp only: parsePagination_def c)
  show ?thesis
    by (cases v) (simp_all only: scimHandler.simps scim_handler_defs scim_half_defs
        routing_agrees [OF assms(1,2), symmetric] same c assms(4) ans pg)
qed

lemma handlers_panic:
  assumes "scimTenant (rqCtx r) = None"
  shows "fst (scimHandler lib v a s r) = s"
  using assms by (cases v) (simp_all add: scim_handler_defs scim_half_defs routing_panics Let_def split: sum.split prod.split option.split)


definition exampleScimLib :: "UserCreateOrReplace \<Rightarrow> ScimLib" where
  "exampleScimLib body = \<lparr>lbPrintInt = (\<lambda>n. if n = UnixNano 1 then ''1'' else ''2''),
     lbRFC3339 = (\<lambda>t. ''t''), lbUserBody = (\<lambda>text. if text = '''' then Truncated ''EOF'' else Complete body),
     lbGroupBody = (\<lambda>text. Malformed ''no''), lbPatchBody = (\<lambda>text. Malformed ''no''), lbJSON = (\<lambda>text. None), lbPath = (\<lambda>text. None),
     lbErrText = (\<lambda>e. ''error'')\<rparr>"

definition exampleUserBody :: "string \<Rightarrow> UserCreateOrReplace" where
  "exampleUserBody name = \<lparr>ucSchemas = [], ucExternalID = '''', ucUserName = name, ucName = None, ucEmails = [], ucActive = None\<rparr>"

definition exampleScimRequest :: "string \<Rightarrow> string \<Rightarrow> string \<Rightarrow> scim_request" where
  "exampleScimRequest path ifMatch host = \<lparr>rqCtx = exampleScimCtx, rqAuthorization = '''', rqForwardedFor = '''', rqProtocols = [],
     rqRemoteAddr = '''', rqMethod = '''', rqPath = path, rqPathValues = [], rqCookies = [], sqIfMatch = ifMatch, sqHost = host,
     sqForwardedProto = '''', sqForwardedHost = '''', sqTLS = True, sqQuery = [], sqBody = ''{}''\<rparr>"

definition exampleScimCfg :: SCIMConfig where
  "exampleScimCfg = \<lparr>scPrefix = ''/scim/v2'', scBaseURL = '''', scBaseURLForTenant = Some (\<lambda>t. ''https://home''), scBulkMaxOperations = 50,
     scMaxResults = 100, scMaxPayloadBytes = 1024, scDocumentationURI = '''', scAuthSchemeDescription = ''''\<rparr>"


section \<open>Audit\<close>

text \<open>One row is logged, by the context's actor, and only rows under \<^verbatim>\<open>i\<close> have changed.\<close>

definition auditedCall :: "request_ctx \<Rightarrow> string \<Rightarrow> string \<Rightarrow> string \<Rightarrow> ScimMem \<Rightarrow> ScimMem \<Rightarrow> bool" where
  "auditedCall ctx act i before s s' \<longleftrightarrow>
     (\<exists>ev. xsLogged s' = xsLogged s @ [ev] \<and> evActor ev = ActorFromContext ctx \<and> evAction ev = act \<and> evResourceID ev = i \<and>
       evBefore ev = before \<and>
       (\<forall>j. j \<noteq> i \<longrightarrow> map_of (xsUsers s') j = map_of (xsUsers s) j \<and> map_of (xsGroups s') j = map_of (xsGroups s) j))"

definition userBefore :: "ScimEnv \<Rightarrow> UserRecord option \<Rightarrow> string" where
  "userBefore E b = (case b of None \<Rightarrow> '''' | Some rec \<Rightarrow> xeMarshal E (JObj (userPayload rec)))"

definition groupBefore :: "ScimEnv \<Rightarrow> GroupRecord option \<Rightarrow> string" where
  "groupBefore E b = (case b of None \<Rightarrow> '''' | Some rec \<Rightarrow> xeMarshal E (JObj (groupPayload E rec)))"

lemmas audited_simps = auditedCall_def logEvent_def baseEvent_def emit_defs userBefore_def groupBefore_def map_of_update map_of_delete

lemma xuCreate_audited:
  assumes "xuCreate E s ctx t w m = (s', res)" "xeAudit E"
  shows "(s' = s \<and> isl res) \<or> (IsSingle t \<and> isOk res \<and> auditedCall ctx actionUserCreate (xeNewID E) '''' s s')"
  using assms unfolding xuCreate_def
  by (cases "inSingleTenant E t") (auto simp: audited_simps inSingleTenant_None userFromWrite_def Let_def split: if_splits)

lemma xuReplace_audited:
  assumes "xuReplace E s ctx t i w m = (s', res)" "xeAudit E"
  shows "(s' = s \<and> isl res) \<or> (IsSingle t \<and> isOk res \<and> auditedCall ctx actionUserReplace i (userBefore E (wmBefore m)) s s')"
  using assms unfolding xuReplace_def
  by (cases "inSingleTenant E t"; cases "map_of (xsUsers s) i")
    (auto simp: audited_simps inSingleTenant_None userFromWrite_def Let_def split: if_splits)

lemma xuDelete_audited:
  assumes "xuDelete E s ctx t i m = (s', res)" "xeAudit E" "wmBefore m = Some b" "urID b = i"
  shows "(s' = s \<and> res \<noteq> None) \<or> (IsSingle t \<and> res = None \<and> auditedCall ctx actionUserDelete i (userBefore E (wmBefore m)) s s')"
proof (cases "inSingleTenant E t")
  case None
  with assms show ?thesis unfolding xuDelete_def
    by (cases "map_of (xsUsers s) i") (auto simp: audited_simps inSingleTenant_None)
next
  case (Some e)
  with assms(1) show ?thesis by (auto simp: xuDelete_def)
qed

lemma xuSavePatch_audited:
  assumes "xuSavePatch E s ctx t i w ops = (s', res)" "xeAudit E"
  shows "(s' = s \<and> isl res) \<or> (IsSingle t \<and> isOk res \<and> auditedCall ctx actionUserPatch i '''' s s')"
  using assms unfolding xuSavePatch_def
  by (cases "inSingleTenant E t"; cases "map_of (xsUsers s) i") (auto simp: audited_simps inSingleTenant_None Let_def)

lemma xuListFiltered_audited:
  assumes "xuListFiltered E s ctx t n c flt = (s', res)" "xeAudit E"
  shows "s' = s \<or> (IsSingle t \<and> isOk res \<and> auditedCall ctx actionUserList '''' '''' s s')"
  using assms unfolding xuListFiltered_def holdsTenant_def
  by (cases "parseEqFilter E flt ''userName''") (auto simp: audited_simps Let_def split: if_splits)

lemma storeGroup_audited:
  assumes "storeGroup E s i w created emit = (s', res)"
    "\<And>u rec. grID rec = i \<Longrightarrow> auditedCall ctx act i before (u\<lparr>xsLogged := xsLogged s\<rparr>) (emit (u\<lparr>xsLogged := xsLogged s\<rparr>) rec)"
  shows "(s' = s \<and> isl res) \<or> (isOk res \<and> auditedCall ctx act i before s s')"
proof (cases rule: storeGroup_cases [of E s i w created emit])
  case (1 err)
  with assms(1) show ?thesis by auto
next
  case (2 us gs rec)
  let ?u = "s\<lparr>xsGroups := AList.update i rec (xsGroups s)\<rparr>"
  have "auditedCall ctx act i before ?u (emit ?u rec)" using assms(2) [of rec ?u] 2(3) by simp
  moreover have "s' = emit ?u rec" "isOk res" using assms(1) 2(4) by auto
  ultimately show ?thesis by (auto simp: auditedCall_def map_of_update)
qed

lemma xgCreate_audited:
  assumes "xgCreate E s ctx t w m = (s', res)" "xeAudit E"
  shows "(s' = s \<and> isl res) \<or> (IsSingle t \<and> isOk res \<and> auditedCall ctx actionGroupCreate (xeNewID E) '''' s s')"
proof (cases "inSingleTenant E t")
  case None
  then have c: "storeGroup E s (xeNewID E) w (xeCreatedAt E) (\<lambda>s rec. emitGroup E ctx actionGroupCreate (Some rec) None False s) = (s', res)"
    using assms(1) by (simp add: xgCreate_def)
  show ?thesis using storeGroup_audited [OF c, of ctx actionGroupCreate "''''"] None assms(2)
    by (simp add: audited_simps inSingleTenant_None)
next
  case (Some e)
  with assms(1) show ?thesis by (auto simp: xgCreate_def)
qed

lemma xgReplace_audited:
  assumes "xgReplace E s ctx t i w m = (s', res)" "xeAudit E"
  shows "(s' = s \<and> isl res) \<or> (IsSingle t \<and> isOk res \<and> auditedCall ctx actionGroupReplace i (groupBefore E (gmBefore m)) s s')"
proof (cases "inSingleTenant E t = None \<and> gwActorServiceAccountID w \<noteq> '''' \<and> map_of (xsGroups s) i \<noteq> None")
  case True
  then obtain old where "map_of (xsGroups s) i = Some old" by blast
  with True have c: "storeGroup E s i w (grCreated old)
      (\<lambda>s rec. emitGroup E ctx actionGroupReplace (Some rec) (gmBefore m) (gmIfMatchPresent m) s) = (s', res)"
    using assms(1) by (simp add: xgReplace_def)
  show ?thesis using storeGroup_audited [OF c, of ctx actionGroupReplace "groupBefore E (gmBefore m)"] True assms(2)
    by (simp add: audited_simps inSingleTenant_None)
next
  case False
  with assms(1) show ?thesis by (auto simp: xgReplace_def split: option.splits if_splits)
qed

lemma xgDelete_audited:
  assumes "xgDelete E s ctx t i m = (s', res)" "xeAudit E" "gmBefore m = Some b" "grID b = i"
  shows "(s' = s \<and> res \<noteq> None) \<or> (IsSingle t \<and> res = None \<and> auditedCall ctx actionGroupDelete i (groupBefore E (gmBefore m)) s s')"
proof (cases "inSingleTenant E t")
  case None
  with assms show ?thesis unfolding xgDelete_def
    by (cases "map_of (xsGroups s) i") (auto simp: audited_simps inSingleTenant_None)
next
  case (Some e)
  with assms(1) show ?thesis by (auto simp: xgDelete_def)
qed

lemma xgSavePatch_audited:
  assumes "xgSavePatch E s ctx t i w ops = (s', res)" "xeAudit E"
  shows "(s' = s \<and> isl res) \<or> (IsSingle t \<and> isOk res \<and> auditedCall ctx actionGroupPatch i '''' s s')"
proof (cases "inSingleTenant E t = None \<and> map_of (xsGroups s) i \<noteq> None")
  case True
  then obtain old where "map_of (xsGroups s) i = Some old" by blast
  with True have c: "storeGroup E s i w (grCreated old) (\<lambda>s rec. emitGroupPatch E ctx i ops s) = (s', res)"
    using assms(1) by (simp add: xgSavePatch_def)
  show ?thesis using storeGroup_audited [OF c, of ctx actionGroupPatch "''''"] True assms(2)
    by (simp add: audited_simps inSingleTenant_None)
next
  case False
  with assms(1) show ?thesis by (auto simp: xgSavePatch_def split: option.splits)
qed

lemma xgListFiltered_audited:
  assumes "xgListFiltered E s ctx t n c flt = (s', res)" "xeAudit E"
  shows "s' = s \<or> (IsSingle t \<and> isOk res \<and> auditedCall ctx actionGroupList '''' '''' s s')"
  using assms unfolding xgListFiltered_def holdsTenant_def
  by (cases "parseEqFilter E flt ''displayName''") (auto simp: audited_simps Let_def split: if_splits)

lemma error_status [simp]:
  "anStatus (WriteSCIMErrorTyped n d t) = n" "400 \<le> anStatus (writeUserStoreErr e)" "400 \<le> anStatus (writeGroupStoreErr e)"
  "400 \<le> anStatus (writeListErr e)" "400 \<le> anStatus (writePatchApplyError lib pe)" "400 \<le> anStatus (writeSCIMDecodeError lib de)"
  "anStatus preconditionFailed = 412" "anStatus noOperations = 400"
  by (auto simp: WriteSCIMErrorTyped_def writeUserStoreErr_def writeGroupStoreErr_def writeListErr_def writePatchApplyError_def
      writeSCIMDecodeError_def preconditionFailed_def noOperations_def split: decode_error.split)

lemma answer_status [simp]:
  "anStatus (WriteSCIMJSON n body) = n" "anStatus (WriteETagHeader tag x) = anStatus x" "anStatus (x\<lparr>anLocation := l\<rparr>) = anStatus x"
  "anStatus (userAnswer lib a r n u) = n" "anStatus (groupAnswer lib a r n g) = n"
  by (simp_all add: WriteSCIMJSON_def WriteETagHeader_def userAnswer_def groupAnswer_def)

definition isRead :: "scim_verb \<Rightarrow> bool" where
  "isRead v = (v \<in> {VUsersGet, VUsersList, VGroupsGet, VGroupsList})"

fun verbAction :: "scim_verb \<Rightarrow> string" where
  "verbAction VUsersList = actionUserList"
| "verbAction VUsersCreate = actionUserCreate"
| "verbAction VUsersReplace = actionUserReplace"
| "verbAction VUsersPatch = actionUserPatch"
| "verbAction VUsersDelete = actionUserDelete"
| "verbAction VGroupsList = actionGroupList"
| "verbAction VGroupsCreate = actionGroupCreate"
| "verbAction VGroupsReplace = actionGroupReplace"
| "verbAction VGroupsPatch = actionGroupPatch"
| "verbAction VGroupsDelete = actionGroupDelete"
| "verbAction VUsersGet = ''''"
| "verbAction VGroupsGet = ''''"

text \<open>What the row of a replacement or a deletion says was there before.\<close>

fun verbBefore :: "ScimEnv \<Rightarrow> scim_verb \<Rightarrow> ScimMem \<Rightarrow> string \<Rightarrow> string" where
  "verbBefore E VUsersReplace s i = userBefore E (map_of (xsUsers s) i)"
| "verbBefore E VUsersDelete s i = userBefore E (map_of (xsUsers s) i)"
| "verbBefore E VGroupsReplace s i = groupBefore E (map_of (xsGroups s) i)"
| "verbBefore E VGroupsDelete s i = groupBefore E (map_of (xsGroups s) i)"
| "verbBefore E v s i = ''''"

definition scimOutcome :: "ScimEnv \<Rightarrow> request_ctx \<Rightarrow> scim_verb \<Rightarrow> ScimMem \<Rightarrow> ScimMem served \<Rightarrow> bool" where
  "scimOutcome E ctx v s = (\<lambda>(s', ans).
     (s' = s \<and> (\<forall>x. ans = Some x \<longrightarrow> 400 \<le> anStatus x \<or> isRead v)) \<or>
     (\<exists>x i. scimTenant ctx = Some Single \<and> ans = Some x \<and> anStatus x < 300 \<and> auditedCall ctx (verbAction v) i (verbBefore E v s i) s s'))"

definition userRows :: "ScimMem \<Rightarrow> bool" where
  "userRows s \<longleftrightarrow> (\<forall>k u. map_of (xsUsers s) k = Some u \<longrightarrow> urID u = k)"

lemma mounted_sel [simp]:
  "srCfg (mountedScim cfg E) = cfg" "srUsers (mountedScim cfg E) = scimUsers E" "srGroups (mountedScim cfg E) = scimGroups E"
  by (simp_all add: mountedScim_def)

lemma xgGet_Inr: "xgGet E s ctx t i = Inr rec \<longleftrightarrow> t = Single \<and> map_of (xsGroups s) i = Some rec"
  by (auto simp: xgGet_def inSingleTenant_def holdsTenant_def IsSingle_eq split: option.splits)

lemma outcome_panic: "scimOutcome E ctx v s (s, None)"
  by (simp add: scimOutcome_def)

lemma outcome_refused: "400 \<le> anStatus x \<Longrightarrow> scimOutcome E ctx v s (s, Some x)"
  by (simp add: scimOutcome_def)

lemma outcome_read: "isRead v \<Longrightarrow> scimOutcome E ctx v s (s, ans)"
  by (simp add: scimOutcome_def)

lemma outcome_written:
  "scimTenant ctx = Some t \<Longrightarrow> IsSingle t \<Longrightarrow> anStatus x < 300 \<Longrightarrow> auditedCall ctx (verbAction v) i (verbBefore E v s i) s s' \<Longrightarrow>
    scimOutcome E ctx v s (s', Some x)"
  by (auto simp: scimOutcome_def IsSingle_eq)

lemmas outcome_intros = outcome_panic outcome_refused outcome_read

text \<open>The write of a handler, in the form every verb has.\<close>

lemma outcome_call:
  assumes "\<And>t s' res. scimTenant ctx = Some t \<Longrightarrow> f t = (s', res) \<Longrightarrow>
      (s' = s \<and> isl res) \<or> (IsSingle t \<and> isOk res \<and> auditedCall ctx (verbAction v) i (verbBefore E v s i) s s')"
    "\<And>e. 400 \<le> anStatus (onErr e)" "\<And>u. anStatus (onOk u) < 300"
  shows "scimOutcome E ctx v s (case map_option f (scimTenant ctx) of None \<Rightarrow> (s, None)
    | Some (s', Inl e) \<Rightarrow> (s', Some (onErr e)) | Some (s', Inr u) \<Rightarrow> (s', Some (onOk u)))"
proof (cases "scimTenant ctx")
  case None
  then show ?thesis by (simp add: outcome_panic)
next
  case (Some t)
  obtain s' res where sr: "f t = (s', res)" by fastforce
  show ?thesis
  proof (cases res)
    case (Inl e)
    with assms(1) [OF Some sr] assms(2) Some sr show ?thesis by (simp add: outcome_refused)
  next
    case (Inr u)
    with assms(1) [OF Some sr] assms(3) Some sr show ?thesis by (auto intro: outcome_written)
  qed
qed

lemma outcome_delete:
  assumes "\<And>t s' res. scimTenant ctx = Some t \<Longrightarrow> f t = (s', res) \<Longrightarrow>
      (s' = s \<and> res \<noteq> None) \<or> (IsSingle t \<and> res = None \<and> auditedCall ctx (verbAction v) i (verbBefore E v s i) s s')"
    "\<And>e. 400 \<le> anStatus (onErr e)"
  shows "scimOutcome E ctx v s (case map_option f (scimTenant ctx) of None \<Rightarrow> (s, None)
    | Some (s', Some e) \<Rightarrow> (s', Some (onErr e)) | Some (s', None) \<Rightarrow> (s', Some (WriteSCIMJSON 204 NoBody)))"
proof (cases "scimTenant ctx")
  case None
  then show ?thesis by (simp add: outcome_panic)
next
  case (Some t)
  obtain s' res where sr: "f t = (s', res)" by fastforce
  show ?thesis
  proof (cases res)
    case None
    with assms(1) [OF Some sr] Some sr show ?thesis by (auto intro: outcome_written)
  next
    case (Some e)
    with assms(1) [OF \<open>scimTenant ctx = Some t\<close> sr] assms(2) \<open>scimTenant ctx = Some t\<close> sr show ?thesis by (simp add: outcome_refused)
  qed
qed

lemma UsersCreate_outcome:
  assumes "xeAudit E"
  shows "scimOutcome E (rqCtx r) VUsersCreate s (UsersCreate lib (mountedScim cfg E) s r)"
proof (cases "readSCIMBody (lbUserBody lib) (scMaxPayloadBytes cfg) (sqBody r)")
  case (Inl e)
  then show ?thesis by (simp add: UsersCreate_def outcome_refused)
next
  case (Inr body)
  show ?thesis
  proof (cases "pickSCIMUserName body = ''''")
    case True
    with Inr show ?thesis by (simp add: UsersCreate_def outcome_refused)
  next
    case False
    with Inr show ?thesis unfolding UsersCreate_def userCreate_def mounted_sel ports_sel
      by (simp only: sum.case if_False) (rule outcome_call, use xuCreate_audited [OF _ assms] in simp_all)
  qed
qed

lemma UsersList_outcome:
  assumes "xeAudit E"
  shows "scimOutcome E (rqCtx r) VUsersList s (UsersList lib (mountedScim cfg E) s r)"
proof -
  obtain n c where pg: "parsePagination (mountedScim cfg E) (sqQuery r) = (n, c)" by (cases "parsePagination (mountedScim cfg E) (sqQuery r)")
  show ?thesis
  proof (cases "scimTenant (rqCtx r)")
    case None
    then show ?thesis by (simp add: UsersList_def pg userListFiltered_def outcome_read isRead_def)
  next
    case (Some t)
    obtain s' res where c: "xuListFiltered E s (rqCtx r) t n c (firstQueryValue (sqQuery r) ''filter'') = (s', res)" by fastforce
    show ?thesis
      using xuListFiltered_audited [OF c assms] Some
      by (cases res) (auto simp: UsersList_def pg userListFiltered_def c Let_def scimOutcome_def isRead_def IsSingle_eq)
  qed
qed

lemma outcome_half:
  assumes "\<And>x. h = Answered x \<Longrightarrow> 400 \<le> anStatus x" "\<And>w. h = Pending w \<Longrightarrow> scimOutcome E ctx v s (write s w)"
  shows "scimOutcome E ctx v s (finishHalf write s h)"
  using assms by (cases h) (simp_all add: finishHalf_def outcome_panic outcome_refused)

lemma halves_Answered:
  "usersReplaceRead lib a s r = Answered x \<Longrightarrow> 400 \<le> anStatus x"
  "usersDeleteRead lib a s r = Answered x \<Longrightarrow> 400 \<le> anStatus x"
  "usersPatchRead lib a s r = Answered x \<Longrightarrow> 400 \<le> anStatus x"
  "groupsReplaceRead lib a s r = Answered x \<Longrightarrow> 400 \<le> anStatus x"
  "groupsDeleteRead lib a s r = Answered x \<Longrightarrow> 400 \<le> anStatus x"
  "groupsPatchRead lib a s r = Answered x \<Longrightarrow> 400 \<le> anStatus x"
  by (auto simp: usersReplaceRead_def usersDeleteRead_def usersPatchRead_def groupsReplaceRead_def groupsDeleteRead_def
      groupsPatchRead_def Let_def split: if_splits sum.splits option.splits)

text \<open>A write is pending only after the row was read and the precondition held on it, and it carries that row.\<close>

lemma usersReplaceRead_Pending:
  "usersReplaceRead lib a s r = Pending (i, w, m) \<Longrightarrow> \<exists>before. userGet a s (rqCtx r) i = Some (Inr before) \<and> wmBefore m = Some before \<and>
    i = scimTrailingSegment (rqPath r) \<and> fst (CheckIfMatch (sqIfMatch r) (resourceETag lib (urUpdated before)))"
  by (auto simp: usersReplaceRead_def Let_def split: if_splits sum.splits option.splits)

lemma usersDeleteRead_Pending:
  "usersDeleteRead lib a s r = Pending (i, m) \<Longrightarrow> \<exists>before. userGet a s (rqCtx r) i = Some (Inr before) \<and> wmBefore m = Some before \<and>
    i = scimTrailingSegment (rqPath r) \<and> fst (CheckIfMatch (sqIfMatch r) (resourceETag lib (urUpdated before)))"
  by (auto simp: usersDeleteRead_def Let_def split: if_splits sum.splits option.splits)

lemma groupsReplaceRead_Pending:
  "groupsReplaceRead lib a s r = Pending (i, w, m) \<Longrightarrow> \<exists>before. groupGet a s (rqCtx r) i = Some (Inr before) \<and> gmBefore m = Some before \<and>
    i = scimTrailingSegment (rqPath r) \<and> fst (CheckIfMatch (sqIfMatch r) (resourceETag lib (grUpdated before)))"
  by (auto simp: groupsReplaceRead_def Let_def split: if_splits sum.splits option.splits)

lemma groupsDeleteRead_Pending:
  "groupsDeleteRead lib a s r = Pending (i, m) \<Longrightarrow> \<exists>before. groupGet a s (rqCtx r) i = Some (Inr before) \<and> gmBefore m = Some before \<and>
    i = scimTrailingSegment (rqPath r) \<and> fst (CheckIfMatch (sqIfMatch r) (resourceETag lib (grUpdated before)))"
  by (auto simp: groupsDeleteRead_def Let_def split: if_splits sum.splits option.splits)

lemma userGet_mounted: "userGet (mountedScim cfg E) s ctx i = Some (Inr before) \<Longrightarrow> map_of (xsUsers s) i = Some before"
  by (auto simp: userGet_def xuGet_Inr)

lemma groupGet_mounted: "groupGet (mountedScim cfg E) s ctx i = Some (Inr before) \<Longrightarrow> map_of (xsGroups s) i = Some before"
  by (auto simp: groupGet_def xgGet_Inr)

lemma UsersReplace_outcome:
  assumes "xeAudit E"
  shows "scimOutcome E (rqCtx r) VUsersReplace s (UsersReplace lib (mountedScim cfg E) s r)"
  unfolding UsersReplace_def
proof (rule outcome_half)
  fix p assume h: "usersReplaceRead lib (mountedScim cfg E) s r = Pending p"
  obtain i w m where p: "p = (i, w, m)" by (cases p)
  from usersReplaceRead_Pending [OF h [unfolded p]] have "map_of (xsUsers s) i = wmBefore m" using userGet_mounted by fastforce
  then show "scimOutcome E (rqCtx r) VUsersReplace s (usersReplaceWrite lib (mountedScim cfg E) r s p)"
    unfolding usersReplaceWrite_def userReplace_def mounted_sel ports_sel p case_prod_conv
    by - (rule outcome_call [where i = i], use xuReplace_audited [OF _ assms] in simp_all)
qed (rule halves_Answered)

lemma UsersPatch_outcome:
  assumes "xeAudit E"
  shows "scimOutcome E (rqCtx r) VUsersPatch s (UsersPatch lib (mountedScim cfg E) s r)"
  unfolding UsersPatch_def
proof (rule outcome_half)
  fix p assume "usersPatchRead lib (mountedScim cfg E) s r = Pending p"
  obtain i w ops where p: "p = (i, w, ops)" by (cases p)
  show "scimOutcome E (rqCtx r) VUsersPatch s (usersPatchWrite lib (mountedScim cfg E) r s p)"
    unfolding usersPatchWrite_def userSavePatch_def mounted_sel ports_sel p case_prod_conv
    by (rule outcome_call [where i = i], use xuSavePatch_audited [OF _ assms] in simp_all)
qed (rule halves_Answered)

lemma UsersDelete_outcome:
  assumes "xeAudit E" "userRows s"
  shows "scimOutcome E (rqCtx r) VUsersDelete s (UsersDelete lib (mountedScim cfg E) s r)"
  unfolding UsersDelete_def
proof (rule outcome_half)
  fix p assume h: "usersDeleteRead lib (mountedScim cfg E) s r = Pending p"
  obtain i m where p: "p = (i, m)" by (cases p)
  from usersDeleteRead_Pending [OF h [unfolded p]] obtain b where b: "map_of (xsUsers s) i = Some b" "wmBefore m = Some b"
    using userGet_mounted by fastforce
  then have "urID b = i" using assms(2) by (simp add: userRows_def)
  then show "scimOutcome E (rqCtx r) VUsersDelete s (usersDeleteWrite (mountedScim cfg E) r s p)"
    unfolding usersDeleteWrite_def userDelete_def mounted_sel ports_sel p case_prod_conv
    by - (rule outcome_delete [where i = i], use xuDelete_audited [OF _ assms(1) b(2)] b in simp_all)
qed (rule halves_Answered)

lemma GroupsCreate_outcome:
  assumes "xeAudit E"
  shows "scimOutcome E (rqCtx r) VGroupsCreate s (GroupsCreate lib (mountedScim cfg E) s r)"
proof (cases "readSCIMBody (lbGroupBody lib) (scMaxPayloadBytes cfg) (sqBody r)")
  case (Inl e)
  then show ?thesis by (simp add: GroupsCreate_def outcome_refused)
next
  case (Inr body)
  show ?thesis
  proof (cases "trimSpace (gcDisplayName body) = '''' \<or> MustGetPrincipal (rqCtx r) = None")
    case True
    with Inr show ?thesis by (auto simp: GroupsCreate_def outcome_intros)
  next
    case False
    then obtain p where "MustGetPrincipal (rqCtx r) = Some p" "trimSpace (gcDisplayName body) \<noteq> ''''" by blast
    with Inr show ?thesis unfolding GroupsCreate_def groupCreate_def mounted_sel ports_sel
      by (simp only: sum.case if_False option.case) (rule outcome_call, use xgCreate_audited [OF _ assms] in simp_all)
  qed
qed

lemma GroupsList_outcome:
  assumes "xeAudit E"
  shows "scimOutcome E (rqCtx r) VGroupsList s (GroupsList lib (mountedScim cfg E) s r)"
proof -
  obtain n c where pg: "parsePagination (mountedScim cfg E) (sqQuery r) = (n, c)" by (cases "parsePagination (mountedScim cfg E) (sqQuery r)")
  show ?thesis
  proof (cases "scimTenant (rqCtx r)")
    case None
    then show ?thesis by (simp add: GroupsList_def pg groupListFiltered_def outcome_read isRead_def)
  next
    case (Some t)
    obtain s' res where c: "xgListFiltered E s (rqCtx r) t n c (firstQueryValue (sqQuery r) ''filter'') = (s', res)" by fastforce
    show ?thesis
      using xgListFiltered_audited [OF c assms] Some
      by (cases res) (auto simp: GroupsList_def pg groupListFiltered_def c Let_def scimOutcome_def isRead_def IsSingle_eq)
  qed
qed

lemma GroupsReplace_outcome:
  assumes "xeAudit E"
  shows "scimOutcome E (rqCtx r) VGroupsReplace s (GroupsReplace lib (mountedScim cfg E) s r)"
  unfolding GroupsReplace_def
proof (rule outcome_half)
  fix p assume h: "groupsReplaceRead lib (mountedScim cfg E) s r = Pending p"
  obtain i w m where p: "p = (i, w, m)" by (cases p)
  from groupsReplaceRead_Pending [OF h [unfolded p]] have "map_of (xsGroups s) i = gmBefore m" using groupGet_mounted by fastforce
  then show "scimOutcome E (rqCtx r) VGroupsReplace s (groupsReplaceWrite lib (mountedScim cfg E) r s p)"
    unfolding groupsReplaceWrite_def groupReplace_def mounted_sel ports_sel p case_prod_conv
    by - (rule outcome_call [where i = i], use xgReplace_audited [OF _ assms] in simp_all)
qed (rule halves_Answered)

lemma GroupsPatch_outcome:
  assumes "xeAudit E"
  shows "scimOutcome E (rqCtx r) VGroupsPatch s (GroupsPatch lib (mountedScim cfg E) s r)"
  unfolding GroupsPatch_def
proof (rule outcome_half)
  fix p assume "groupsPatchRead lib (mountedScim cfg E) s r = Pending p"
  obtain i w ops where p: "p = (i, w, ops)" by (cases p)
  show "scimOutcome E (rqCtx r) VGroupsPatch s (groupsPatchWrite lib (mountedScim cfg E) r s p)"
    unfolding groupsPatchWrite_def groupSavePatch_def mounted_sel ports_sel p case_prod_conv
    by (rule outcome_call [where i = i], use xgSavePatch_audited [OF _ assms] in simp_all)
qed (rule halves_Answered)

lemma GroupsDelete_outcome:
  assumes "xeAudit E" "groupRows (xsGroups s)"
  shows "scimOutcome E (rqCtx r) VGroupsDelete s (GroupsDelete lib (mountedScim cfg E) s r)"
  unfolding GroupsDelete_def
proof (rule outcome_half)
  fix p assume h: "groupsDeleteRead lib (mountedScim cfg E) s r = Pending p"
  obtain i m where p: "p = (i, m)" by (cases p)
  from groupsDeleteRead_Pending [OF h [unfolded p]] obtain b where b: "map_of (xsGroups s) i = Some b" "gmBefore m = Some b"
    using groupGet_mounted by fastforce
  then have "grID b = i" using assms(2) by (simp add: groupRows_def)
  then show "scimOutcome E (rqCtx r) VGroupsDelete s (groupsDeleteWrite (mountedScim cfg E) r s p)"
    unfolding groupsDeleteWrite_def groupDelete_def mounted_sel ports_sel p case_prod_conv
    by - (rule outcome_delete [where i = i], use xgDelete_audited [OF _ assms(1) b(2)] b in simp_all)
qed (rule halves_Answered)

lemma reads_outcome:
  "scimOutcome E (rqCtx r) VUsersGet s (UsersGet lib (mountedScim cfg E) s r)"
  "scimOutcome E (rqCtx r) VGroupsGet s (GroupsGet lib (mountedScim cfg E) s r)"
  by (simp_all add: UsersGet_def GroupsGet_def Let_def outcome_read isRead_def split: option.split sum.split)

lemma userRows_update: "userRows s \<Longrightarrow> urID rec = i \<Longrightarrow> userRows (s\<lparr>xsUsers := AList.update i rec (xsUsers s)\<rparr>)"
  by (simp add: userRows_def map_of_update)

lemma userRows_cong: "xsUsers s' = xsUsers s \<Longrightarrow> userRows s' = userRows s"
  by (simp add: userRows_def)

lemma group_calls_keep_users [simp]:
  "xsUsers (fst (storeGroup E s i gw t (\<lambda>s rec. emitGroup E ctx a (Some rec) b c s))) = xsUsers s"
  "xsUsers (fst (storeGroup E s i gw t (\<lambda>s rec. emitGroupPatch E ctx i ops s))) = xsUsers s"
  by (simp_all add: storeGroup_def split: option.split sum.split)

lemma reach_userRows: "scimReach s \<Longrightarrow> userRows s"
proof (induction rule: scimReach.induct)
  case reach_new
  then show ?case by (simp add: newScimStores_def userRows_def)
next
  case (reach_userCreate s E ctx t w m)
  then show ?case
    by (auto simp: xuCreate_def Let_def userFromWrite_def emitUser_def logEvent_def userRows_def map_of_update split: option.split)
next
  case (reach_userReplace s E ctx t i w m)
  then show ?case
    by (auto simp: xuReplace_def Let_def userFromWrite_def emitUser_def logEvent_def userRows_def map_of_update split: option.split)
next
  case (reach_userDelete s E ctx t i m)
  then show ?case by (auto simp: xuDelete_def emitUser_def logEvent_def userRows_def map_of_delete split: option.split if_splits)
next
  case (reach_userPatch s E ctx t i w ops)
  then show ?case
    by (auto simp: xuSavePatch_def Let_def emitUserPatch_def logEvent_def userRows_def map_of_update split: option.split)
next
  case (reach_userList s E ctx t n c f)
  then show ?case by (auto simp: xuListFiltered_def Let_def userRows_def split: sum.split)
next
  case (reach_groupCreate s E ctx t gw gm)
  then show ?case by (auto simp: xgCreate_def userRows_def split: option.split)
next
  case (reach_groupReplace s E ctx t i gw gm)
  then show ?case by (auto simp: xgReplace_def userRows_def split: option.split)
next
  case (reach_groupDelete s E ctx t i gm)
  then show ?case by (auto simp: xgDelete_def userRows_def split: option.split)
next
  case (reach_groupPatch s E ctx t i gw ops)
  then show ?case by (auto simp: xgSavePatch_def userRows_def split: option.split)
next
  case (reach_groupList s E ctx t n c f)
  then show ?case by (auto simp: xgListFiltered_def Let_def userRows_def split: sum.split)
qed

lemma handlers_outcome:
  assumes "xeAudit E" "scimReach s"
  shows "scimOutcome E (rqCtx r) v s (scimHandler lib v (mountedScim cfg E) s r)"
  using reach_userRows [OF assms(2)] reach_groupRows [OF assms(2)]
  by (cases v) (simp_all add: assms(1) UsersCreate_outcome UsersList_outcome UsersReplace_outcome UsersPatch_outcome UsersDelete_outcome
      GroupsCreate_outcome GroupsList_outcome GroupsReplace_outcome GroupsPatch_outcome GroupsDelete_outcome reads_outcome)


definition exampleScimValidator :: "string \<Rightarrow> validator_err + Principal" where
  "exampleScimValidator tok = (if tok = ''t'' then Inr \<lparr>prID = ''sa'', prTenantID = '''', prName = ''idp'', prDescription = '''', prCreatedAt = 0\<rparr>
     else Inl ErrInvalidCredential)"

definition exampleGuarded :: scim_request where
  "exampleGuarded = projr (scimGuard exampleScimValidator
     ((exampleScimRequest ''/scim/v2/Users'' '''' ''home'')\<lparr>rqAuthorization := ''Bearer t''\<rparr>))"


end
