(* ===== verification/Provisioning_Clients.thy ===== *)
theory Provisioning_Clients
  imports Provisioning_App
begin

text \<open>
  What the clients of the provisioning example see: what \<^verbatim>\<open>If-Match\<close> excludes and what it does not when two of them write, what the
  pages of a list hold, and that what was provisioned is what is read.
\<close>

section \<open>The precondition\<close>

lemma served_tag_check:
  assumes "inj (lbPrintInt lib)" "\<And>n. CHR '','' \<notin> set (lbPrintInt lib n)" "t \<noteq> 0" "t' \<noteq> 0"
  shows "fst (CheckIfMatch (resourceETag lib t) (resourceETag lib t')) \<longleftrightarrow> t = t'"
proof -
  have "UnixNano t' \<in> set [UnixNano t] \<longleftrightarrow> t = t'" by (auto simp: UnixNano_def)
  then show ?thesis
    using if_match_exact [of "lbPrintInt lib" _ "UnixNano t" "[]" "UnixNano t'", OF assms(1,2) refl] assms(3,4)
    by (simp add: resourceETag_def split: if_splits)
qed

text \<open>A replacement of \<^verbatim>\<open>i\<close> by body \<^verbatim>\<open>b\<close> that carries the tag of the row it saw.\<close>

definition putRequest :: "ScimLib \<Rightarrow> SCIMConfig \<Rightarrow> string \<Rightarrow> UserRecord \<Rightarrow> UserCreateOrReplace \<Rightarrow> scim_request \<Rightarrow> bool" where
  "putRequest lib cfg i seen b r \<longleftrightarrow> scimTenant (rqCtx r) = Some Single \<and> scimTrailingSegment (rqPath r) = i \<and>
     readSCIMBody (lbUserBody lib) (scMaxPayloadBytes cfg) (sqBody r) = Inr b \<and> sqIfMatch r = resourceETag lib (urUpdated seen)"

definition nameFree :: "ScimMem \<Rightarrow> string \<Rightarrow> string \<Rightarrow> bool" where
  "nameFree s i name \<longleftrightarrow> \<not> list_ex (\<lambda>(oid, rec). oid \<noteq> i \<and> urUserName rec = name) (xsUsers s)"

lemma nameFree_update: "nameFree s i name \<Longrightarrow> nameFree (s\<lparr>xsUsers := AList.update i rec (xsUsers s)\<rparr>) i name"
proof -
  assume "nameFree s i name"
  moreover have "set (AList.update i rec m) \<subseteq> insert (i, rec) (set m)" for m by (induction m) auto
  ultimately show ?thesis by (fastforce simp: nameFree_def list_ex_iff)
qed

lemma nameFree_emit [simp]: "nameFree (emitUser E ctx a af be c s) i name = nameFree s i name"
  by (simp add: nameFree_def)

lemma usersReplaceRead_put:
  assumes "putRequest lib cfg i seen b r" "i \<noteq> ''''" "pickSCIMUserName b \<noteq> ''''" "map_of (xsUsers s) i = Some old"
  shows "usersReplaceRead lib (mountedScim cfg E) s r =
    (if fst (CheckIfMatch (resourceETag lib (urUpdated seen)) (resourceETag lib (urUpdated old)))
     then Pending (i, userWriteOf b (pickSCIMUserName b) False, \<lparr>wmIfMatchPresent = sqIfMatch r \<noteq> '''', wmBefore = Some old\<rparr>)
     else Answered preconditionFailed)"
proof -
  have "xuGet E s (rqCtx r) Single i = Inr old" using assms(4) by (simp add: xuGet_Inr)
  then show ?thesis using assms(1-3) by (simp add: usersReplaceRead_def putRequest_def userGet_def)
qed

lemma usersReplaceWrite_put:
  assumes "putRequest lib cfg i seen b r" "map_of (xsUsers s) i = Some cur" "nameFree s i (uwUserName w)"
  shows "usersReplaceWrite lib (mountedScim cfg E) r s (i, w, m) =
    (emitUser E (rqCtx r) actionUserReplace (Some (userFromWrite i w (urCreated cur) (xeUpdatedAt E))) (wmBefore m) (wmIfMatchPresent m)
       (s\<lparr>xsUsers := AList.update i (userFromWrite i w (urCreated cur) (xeUpdatedAt E)) (xsUsers s)\<rparr>),
     Some (userAnswer lib (mountedScim cfg E) r 200 (userFromWrite i w (urCreated cur) (xeUpdatedAt E))))"
  using assms by (simp add: usersReplaceWrite_def putRequest_def userReplace_def xuReplace_def nameFree_def Let_def)

text \<open>
  C38. What \<^verbatim>\<open>If-Match\<close> excludes, and what it does not. Two clients replace a user and both send back the tag of the version they
  read. One after the other, the second is told 412 and nothing of the first is lost. But the handler checks and writes in two calls
  of the store, which does not compare again: when the second client's check ran before the first one's write, both are answered
  200, the second overwrites a version it never saw, and its audit row shows the older version as the one replaced.
\<close>

theorem put_race_loses_an_update:
  assumes "inj (lbPrintInt lib)" "\<And>n. CHR '','' \<notin> set (lbPrintInt lib n)"
    "map_of (xsUsers s) i = Some old" "i \<noteq> ''''" "urUpdated old \<noteq> 0" "xeUpdatedAt E1 \<noteq> 0" "xeUpdatedAt E1 \<noteq> urUpdated old" "xeAudit E2"
    "putRequest lib cfg i old b1 r1" "pickSCIMUserName b1 \<noteq> ''''" "nameFree s i (pickSCIMUserName b1)"
    "putRequest lib cfg i old b2 r2" "pickSCIMUserName b2 \<noteq> ''''" "nameFree s i (pickSCIMUserName b2)"
  shows "\<exists>s1 x1 pending s2 x2 ev. UsersReplace lib (mountedScim cfg E1) s r1 = (s1, Some x1) \<and> anStatus x1 = 200 \<and>
    map_of (xsUsers s1) i = Some (userFromWrite i (userWriteOf b1 (pickSCIMUserName b1) False) (urCreated old) (xeUpdatedAt E1)) \<and>
    UsersReplace lib (mountedScim cfg E2) s1 r2 = (s1, Some preconditionFailed) \<and>
    usersReplaceRead lib (mountedScim cfg E2) s r2 = Pending pending \<and>
    usersReplaceWrite lib (mountedScim cfg E2) r2 s1 pending = (s2, Some x2) \<and> anStatus x2 = 200 \<and>
    map_of (xsUsers s2) i = Some (userFromWrite i (userWriteOf b2 (pickSCIMUserName b2) False) (urCreated old) (xeUpdatedAt E2)) \<and>
    xsLogged s2 = xsLogged s1 @ [ev] \<and> evBefore ev = xeMarshal E2 (JObj (userPayload old))"
proof -
  let ?w1 = "userWriteOf b1 (pickSCIMUserName b1) False" and ?w2 = "userWriteOf b2 (pickSCIMUserName b2) False"
  let ?rec1 = "userFromWrite i ?w1 (urCreated old) (xeUpdatedAt E1)"
  let ?rec2 = "userFromWrite i ?w2 (urCreated ?rec1) (xeUpdatedAt E2)"
  let ?m = "\<lambda>r. \<lparr>wmIfMatchPresent = sqIfMatch r \<noteq> '''', wmBefore = Some old\<rparr>"
  let ?s1 = "emitUser E1 (rqCtx r1) actionUserReplace (Some ?rec1) (Some old) (sqIfMatch r1 \<noteq> '''')
       (s\<lparr>xsUsers := AList.update i ?rec1 (xsUsers s)\<rparr>)"
  let ?s2 = "emitUser E2 (rqCtx r2) actionUserReplace (Some ?rec2) (Some old) (sqIfMatch r2 \<noteq> '''')
       (?s1\<lparr>xsUsers := AList.update i ?rec2 (xsUsers ?s1)\<rparr>)"
  note tag = served_tag_check [OF assms(1,2) assms(5)]
  have w: "uwUserName ?w1 = pickSCIMUserName b1" "uwUserName ?w2 = pickSCIMUserName b2" by (simp_all add: userWriteOf_def)
  have read: "usersReplaceRead lib (mountedScim cfg E1) s r1 = Pending (i, ?w1, ?m r1)"
    "usersReplaceRead lib (mountedScim cfg E2) s r2 = Pending (i, ?w2, ?m r2)"
    using usersReplaceRead_put [OF assms(9,4,10,3)] usersReplaceRead_put [OF assms(12,4,13,3)] tag [OF assms(5)] by simp_all
  have at1: "map_of (xsUsers ?s1) i = Some ?rec1" by (simp add: map_of_update)
  have first: "UsersReplace lib (mountedScim cfg E1) s r1 = (?s1, Some (userAnswer lib (mountedScim cfg E1) r1 200 ?rec1))"
    unfolding UsersReplace_def read(1) finishHalf_def half.case
    using usersReplaceWrite_put [OF assms(9,3), of ?w1 E1 "?m r1"] assms(11) w(1) by simp
  have "\<not> fst (CheckIfMatch (resourceETag lib (urUpdated old)) (resourceETag lib (urUpdated ?rec1)))"
    using tag [of "urUpdated ?rec1"] assms(6,7) by (simp add: userFromWrite_def)
  then have second: "UsersReplace lib (mountedScim cfg E2) ?s1 r2 = (?s1, Some preconditionFailed)"
    unfolding UsersReplace_def usersReplaceRead_put [OF assms(12,4,13) at1] finishHalf_def by simp
  have "nameFree ?s1 i (uwUserName ?w2)" using nameFree_update [OF assms(14)] w(2) by simp
  then have race: "usersReplaceWrite lib (mountedScim cfg E2) r2 ?s1 (i, ?w2, ?m r2) =
      (?s2, Some (userAnswer lib (mountedScim cfg E2) r2 200 ?rec2))"
    using usersReplaceWrite_put [OF assms(12) at1, of ?w2 E2 "?m r2"] by simp
  have created: "urCreated ?rec1 = urCreated old" by (simp add: userFromWrite_def)
  have at2: "map_of (xsUsers ?s2) i = Some (userFromWrite i ?w2 (urCreated old) (xeUpdatedAt E2))"
    by (simp add: map_of_update created)
  have "\<exists>ev. xsLogged ?s2 = xsLogged ?s1 @ [ev] \<and> evBefore ev = xeMarshal E2 (JObj (userPayload old))"
    using assms(8) by (simp add: emitUser_def logEvent_def baseEvent_def)
  then obtain ev where ev: "xsLogged ?s2 = xsLogged ?s1 @ [ev]" "evBefore ev = xeMarshal E2 (JObj (userPayload old))" by blast
  show ?thesis
    by (intro exI conjI) (rule first, simp, rule at1, rule second, rule read(2), rule race, simp, rule at2, rule ev(1), rule ev(2))
qed

definition unaryInt :: "int \<Rightarrow> string" where
  "unaryInt n = (if n < 0 then ''-'' else '''') @ replicate (nat \<bar>n\<bar>) (CHR ''1'')"

lemma unaryInt_inj: "inj unaryInt"
proof (rule injI)
  fix m n assume a: "unaryInt m = unaryInt n"
  then have "length (filter (\<lambda>c. c = CHR ''1'') (unaryInt m)) = length (filter (\<lambda>c. c = CHR ''1'') (unaryInt n))" by simp
  then have "nat \<bar>m\<bar> = nat \<bar>n\<bar>" by (simp add: unaryInt_def split: if_splits)
  moreover have "m < 0 \<longleftrightarrow> n < 0"
    using arg_cong [OF a, of "\<lambda>s. CHR ''-'' \<in> set s"] by (auto simp: unaryInt_def split: if_splits)
  ultimately show "m = n" by linarith
qed

definition examplePutLib :: "string \<Rightarrow> ScimLib" where
  "examplePutLib name = (exampleScimLib (exampleUserBody name))\<lparr>lbPrintInt := unaryInt\<rparr>"

definition exampleOneUser :: ScimMem where
  "exampleOneUser = newScimStores\<lparr>xsUsers := [(''7'', userFromWrite ''7'' (userWriteOf (exampleUserBody ''ann'') ''ann'' True) 1 1)]\<rparr>"

definition examplePut :: scim_request where
  "examplePut = exampleScimRequest ''/scim/v2/Users/7'' (resourceETag (examplePutLib ''bob'') 1) ''home''"

theorem put_race_loses_an_update_witness:
  "\<exists>s1 x1 pending s2 x2. UsersReplace (examplePutLib ''bob'') (mountedScim exampleScimCfg (exampleScimEnv ''x'' 2)) exampleOneUser examplePut = (s1, Some x1) \<and>
     anStatus x1 = 200 \<and>
     usersReplaceRead (examplePutLib ''bob'') (mountedScim exampleScimCfg (exampleScimEnv ''y'' 3)) exampleOneUser examplePut = Pending pending \<and>
     usersReplaceWrite (examplePutLib ''bob'') (mountedScim exampleScimCfg (exampleScimEnv ''y'' 3)) examplePut s1 pending = (s2, Some x2) \<and>
     anStatus x2 = 200"
proof -
  let ?old = "userFromWrite ''7'' (userWriteOf (exampleUserBody ''ann'') ''ann'' True) 1 1"
  have lib: "inj (lbPrintInt (examplePutLib ''bob''))" "\<And>n. CHR '','' \<notin> set (lbPrintInt (examplePutLib ''bob'') n)"
    by (simp_all add: examplePutLib_def unaryInt_inj) (simp add: unaryInt_def)
  have row: "map_of (xsUsers exampleOneUser) ''7'' = Some ?old" by (simp add: exampleOneUser_def)
  have name: "pickSCIMUserName (exampleUserBody ''bob'') \<noteq> ''''"
    "nameFree exampleOneUser ''7'' (pickSCIMUserName (exampleUserBody ''bob''))" by code_simp+
  have times: "urUpdated ?old = 1" "xeUpdatedAt (exampleScimEnv ''x'' 2) = 2" "xeAudit (exampleScimEnv ''y'' 3)"
    by (simp_all add: userFromWrite_def exampleScimEnv_def)
  have "scimTenant exampleScimCtx = Some Single" "scimTrailingSegment ''/scim/v2/Users/7'' = ''7''"
    "readSCIMBody (lbUserBody (exampleScimLib (exampleUserBody ''bob''))) (scMaxPayloadBytes exampleScimCfg) ''{}'' = Inr (exampleUserBody ''bob'')"
    by code_simp+
  then have put: "putRequest (examplePutLib ''bob'') exampleScimCfg ''7'' ?old (exampleUserBody ''bob'') examplePut"
    by (simp add: putRequest_def examplePut_def exampleScimRequest_def times examplePutLib_def)
  have "urUpdated ?old \<noteq> 0" "xeUpdatedAt (exampleScimEnv ''x'' 2) \<noteq> 0" "xeUpdatedAt (exampleScimEnv ''x'' 2) \<noteq> urUpdated ?old"
    by (simp_all add: times)
  from put_race_loses_an_update [OF lib row _ this times(3) put name put name] show ?thesis by fastforce
qed

section \<open>Pages\<close>

lemma Atoi_range: "Atoi t = Some n \<Longrightarrow> n < 2 ^ 63"
  by (auto simp: Atoi_def Let_def split: if_splits)

lemma parsePagination_bounds:
  assumes "parsePagination a q = (start, count)" "0 < scMaxResults (srCfg a)"
  shows "1 \<le> start" "0 \<le> count" "Atoi (firstQueryValue q ''count'') = None \<Longrightarrow> count = 20"
    "Atoi (firstQueryValue q ''count'') \<noteq> None \<Longrightarrow> count \<le> scMaxResults (srCfg a)"
  using assms by (auto simp: parsePagination_def Let_def split: option.splits if_splits)

lemma pageUsers_length:
  assumes "1 \<le> start"
  shows "int (length (pageUsers rows start count)) =
    (if int (length rows) \<le> start - 1 then 0 else if count \<le> 0 then int (length rows) - (start - 1)
     else min count (int (length rows) - (start - 1)))"
  using assms by (auto simp: pageUsers_def Let_def)

text \<open>A page of positive size is a segment of the rows, so pages of one size one after the other are the rows.\<close>

lemma pageUsers_segment: "0 < c \<Longrightarrow> pageUsers rows (int j + 1) (int c) = take c (drop j rows)"
proof -
  assume c: "0 < c"
  consider "length rows \<le> j" | "j < length rows" "length rows < j + c" | "j + c \<le> length rows" by linarith
  then show ?thesis using c by cases (auto simp: pageUsers_def Let_def)
qed

lemma pages_concat:
  assumes "0 < c"
  shows "concat (map (\<lambda>k. pageUsers rows (int (k * c) + 1) (int c)) [0..<n]) = take (n * c) rows"
proof (induction n)
  case 0
  then show ?case by simp
next
  case (Suc n)
  have "Suc n * c = n * c + c" by simp
  then have "take (Suc n * c) rows = take (n * c) rows @ take c (drop (n * c) rows)" by (simp only: take_add)
  with Suc pageUsers_segment [OF assms, of rows "n * c"] show ?case by simp
qed

definition usersMatching :: "string option \<Rightarrow> ScimMem \<Rightarrow> UserRecord list" where
  "usersMatching want s = filter (\<lambda>u. want = None \<or> want = Some (urUserName u)) (sortedUsers (xsUsers s))"

lemma UsersList_page:
  assumes "scimTenant (rqCtx r) = Some Single" "parsePagination (mountedScim cfg E) (sqQuery r) = (start, count)"
    "UsersList lib (mountedScim cfg E) s r = (s', Some x)" "anBody x = ListBody l"
  shows "\<exists>want. parseEqFilter E (firstQueryValue (sqQuery r) ''filter'') ''userName'' = Inr want \<and> lrStartIndex l = start \<and>
    lrTotalResults l = int (length (usersMatching want s)) \<and> lrItemsPerPage l = int (length (lrResources l)) \<and>
    lrResources l = map (\<lambda>u. UserRes (userRecordToResource lib u (baseURL (mountedScim cfg E) r) (scPrefix cfg)))
      (pageUsers (usersMatching want s) start count)"
proof -
  let ?f = "firstQueryValue (sqQuery r) ''filter''"
  show ?thesis
  proof (cases "parseEqFilter E ?f ''userName''")
    case (Inl e)
    then have "x = writeListErr e"
      using assms(1-3) by (simp add: UsersList_def userListFiltered_def xuListFiltered_def holdsTenant_def IsSingle_eq)
    then show ?thesis using assms(4) by (simp add: writeListErr_def WriteSCIMErrorTyped_def split: if_splits)
  next
    case (Inr want)
    then have "x = WriteSCIMJSON 200 (ListBody \<lparr>lrSchemas = [SchemaListResponse], lrTotalResults = int (length (usersMatching want s)),
        lrStartIndex = start, lrItemsPerPage = int (length (pageUsers (usersMatching want s) start count)),
        lrResources = map (\<lambda>u. UserRes (userRecordToResource lib u (baseURL (mountedScim cfg E) r) (scPrefix cfg)))
          (pageUsers (usersMatching want s) start count)\<rparr>)"
      using assms(1-3) by (simp add: UsersList_def userListFiltered_def xuListFiltered_def holdsTenant_def IsSingle_eq usersMatching_def Let_def)
    then show ?thesis using assms(4) Inr by (auto simp: WriteSCIMJSON_def)
  qed
qed


text \<open>With the maximum advertised as 1, a client that asks for no rows gets both.\<close>

definition exampleTwoUsers :: ScimMem where
  "exampleTwoUsers = newScimStores\<lparr>xsUsers := [(''8'', userFromWrite ''8'' (userWriteOf (exampleUserBody ''bob'') ''bob'' True) 1 1),
     (''7'', userFromWrite ''7'' (userWriteOf (exampleUserBody ''ann'') ''ann'' True) 1 1)]\<rparr>"

definition exampleNoRows :: scim_request where
  "exampleNoRows = (exampleScimRequest ''/scim/v2/Users'' '''' ''home'')\<lparr>sqQuery := [(''count'', [''0''])]\<rparr>"


section \<open>Round trip\<close>

interpretation surf: scim_surface "mountedScim cfg E" directoryRows for cfg E
  unfolding scim_surface_def mounted_sel by (rule prov.scim_directory_axioms)

lemma UsersCreate_created:
  assumes "UsersCreate lib (mountedScim cfg E) s r = (s', Some x)" "anStatus x = 201"
  shows "\<exists>b. readSCIMBody (lbUserBody lib) (scMaxPayloadBytes cfg) (sqBody r) = Inr b \<and>
    map_of (xsUsers s') (xeNewID E) = Some (userFromWrite (xeNewID E) (userWriteOf b (pickSCIMUserName b) True) (xeCreatedAt E) (xeUpdatedAt E))"
proof -
  obtain b where b: "readSCIMBody (lbUserBody lib) (scMaxPayloadBytes cfg) (sqBody r) = Inr b"
    using assms by (cases "readSCIMBody (lbUserBody lib) (scMaxPayloadBytes cfg) (sqBody r)")
      (auto simp: UsersCreate_def writeSCIMDecodeError_def WriteSCIMErrorTyped_def split: decode_error.splits)
  let ?w = "userWriteOf b (pickSCIMUserName b) True" and ?m = "\<lparr>wmIfMatchPresent = False, wmBefore = None\<rparr>"
  obtain t where t: "scimTenant (rqCtx r) = Some t"
    using assms b by (cases "scimTenant (rqCtx r)") (auto simp: UsersCreate_def userCreate_def split: if_splits)
  obtain s2 res where c: "xuCreate E s (rqCtx r) t ?w ?m = (s2, res)" by fastforce
  have "anStatus (writeUserStoreErr e) \<noteq> 201" for e using error_status(2) [of e] by linarith
  then have "s2 = s' \<and> isOk res"
    using assms b t c by (cases res) (auto simp: UsersCreate_def userCreate_def split: if_splits)
  moreover from this have "map_of (xsUsers s2) (xeNewID E) = Some (userFromWrite (xeNewID E) ?w (xeCreatedAt E) (xeUpdatedAt E))"
    using c by (auto simp: xuCreate_def Let_def userFromWrite_def map_of_update split: option.splits if_splits)
  ultimately show ?thesis using b by blast
qed



section \<open>Uniqueness\<close>

text \<open>
  A replacement cannot take the user name of another user, but a patch can: \<^verbatim>\<open>SavePatch\<close> does not look. It can also remove the user
  name, which the schema says is required, since the transport checks that only on a create or a replacement.
\<close>

lemma patch_takes_a_name:
  assumes "map_of (xsUsers s) i = Some old" "scimTenant (rqCtx r) = Some Single"
  shows "\<exists>s' rec. usersPatchWrite lib (mountedScim cfg E) r s (i, w, ops) = (s', Some (userAnswer lib (mountedScim cfg E) r 200 rec)) \<and>
    map_of (xsUsers s') i = Some rec \<and> urUserName rec = uwUserName w \<and> (\<forall>j. j \<noteq> i \<longrightarrow> map_of (xsUsers s') j = map_of (xsUsers s) j)"
  using assms by (simp add: usersPatchWrite_def userSavePatch_def xuSavePatch_def Let_def map_of_update)

end
