(* ===== verification/Spec2Isabelle.thy ===== *)
theory Spec2Isabelle
  imports Tenant_Domain Authz_PermissionSet Identity_Totp Identity_Linking Identity_Membership Identity_Invitation Scim_Patch Audit_Query Espresso_Gates Espresso_StepUp Espresso_StartLogin Oidc_Lifecycle Crypto_Throttle Espresso_Saml Multitenant_App Provisioning_Clients
begin

text \<open>
  A verification library for tamper, a multi-tenant identity and access library in Go.

  \<^bold>\<open>The program.\<close> Package \<^verbatim>\<open>tenant\<close> names tenants, arranges them in a hierarchy and says which
  email domains they own. \<^verbatim>\<open>crypto\<close> seals secrets and mints tokens. \<^verbatim>\<open>identity\<close> keeps users, sessions,
  second factors, linked credentials, memberships and invitations behind a store port. \<^verbatim>\<open>authz\<close> decides, by
  ranked roles or by permission sets. \<^verbatim>\<open>scim\<close> serves provisioning clients. \<^verbatim>\<open>audit\<close> keeps a hash-chained log
  of events. \<^verbatim>\<open>oidc\<close> and \<^verbatim>\<open>saml\<close> take identities from outside providers. \<^verbatim>\<open>espresso\<close> is the HTTP layer: a request
  passes authentication, tenant, status, entitlement, decision and step-up gates, runs its handler,
  and leaves an audit row. Packages meet at ports (Go interfaces): the identity core calls a store, a limiter and a
  signer; a gate calls an authorizer and a tenant store; the OIDC manager calls a provider store, the key set and
  the tenant hierarchy.

  \<^bold>\<open>Theories, source and what is shown.\<close>
  \<^item> \<^verbatim>\<open>Tamper_Prelude\<close>: conventions and lemmas shared by all (results, association lists, Go strings).
  \<^item> \<^verbatim>\<open>Tenant_Id\<close>, \<^verbatim>\<open>Tenant_Store\<close>, \<^verbatim>\<open>Tenant_Hierarchy\<close>, \<^verbatim>\<open>Tenant_Domain\<close> (\<^verbatim>\<open>src/tenant\<close>): identifiers, \<^verbatim>\<open>MemStore\<close> and
    its two contracts, the ancestor walk (exactly which chains it returns and refuses, and that writes cannot
    break it), inheritance, plans, and which ancestor's proof lets a tenant claim a subdomain.
  \<^item> \<^verbatim>\<open>Crypto_Keyset\<close>, \<^verbatim>\<open>Crypto_Token\<close>, \<^verbatim>\<open>Crypto_Password\<close> (\<^verbatim>\<open>src/crypto\<close>): envelopes open exactly under the key that
    sealed them; what a verified access token guarantees, minted tokens verify, purposes are disjoint.
  \<^item> \<^verbatim>\<open>Crypto_Throttle\<close> (\<^verbatim>\<open>crypto/throttle.go\<close>): how much a key is admitted over a window, and that the map stays bounded.
  \<^item> \<^verbatim>\<open>Authz_Policy\<close>, \<^verbatim>\<open>Authz_RBAC\<close>, \<^verbatim>\<open>Authz_PermissionSet\<close> (\<^verbatim>\<open>src/authz\<close>): the ranked engine refines the specification
    \<^verbatim>\<open>permitted\<close> and keeps tenants apart even over a store that does not; the set engine agrees with it through the adapter.
  \<^item> \<^verbatim>\<open>Identity_Store\<close>, \<^verbatim>\<open>Identity_Contract\<close>, \<^verbatim>\<open>Identity_Core\<close>, \<^verbatim>\<open>Identity_Sessions\<close>, \<^verbatim>\<open>Identity_Rotation\<close>, \<^verbatim>\<open>Identity_Totp\<close>,
    \<^verbatim>\<open>Identity_Linking\<close>, \<^verbatim>\<open>Identity_Membership\<close>, \<^verbatim>\<open>Identity_Invitation\<close> (\<^verbatim>\<open>src/identity\<close>): the store invariant and its
    preservation, login that answers alike for every wrong credential, rotation of refresh tokens, single-use
    recovery codes and invitations (the latter under concurrent accepters), who may enter another tenant.
  \<^item> \<^verbatim>\<open>Scim_Nesting\<close>, \<^verbatim>\<open>Scim_Filter\<close>, \<^verbatim>\<open>Scim_Patch\<close> (\<^verbatim>\<open>src/scim\<close>): the cycle check terminates on a finite graph and decides,
    the SQL of a filter carries no client text, patch operations fold case and hide secrets from the audit.
  \<^item> \<^verbatim>\<open>Audit_Event\<close>, \<^verbatim>\<open>Audit_Store\<close>, \<^verbatim>\<open>Audit_Chain\<close>, \<^verbatim>\<open>Audit_Log\<close>, \<^verbatim>\<open>Audit_Query\<close> (\<^verbatim>\<open>src/audit\<close>): the chain is tamper evident
    up to a collision, what it cannot show, that any interleaving of writers keeps it, redaction, paging and the boot check.
  \<^item> \<^verbatim>\<open>Saml_Assertion\<close>, \<^verbatim>\<open>Saml_Provider\<close>, \<^verbatim>\<open>Saml_Manager\<close> (\<^verbatim>\<open>src/saml\<close>): an accepted assertion answers this flow and is accepted
    once; what a registry of providers holds, and that a served provider is configured now.
  \<^item> \<^verbatim>\<open>Oidc_Provider\<close>, \<^verbatim>\<open>Registry_Cache\<close>, \<^verbatim>\<open>Oidc_Manager\<close>, \<^verbatim>\<open>Oidc_Lifecycle\<close> (\<^verbatim>\<open>src/oidc\<close>): what a registry holds, what the
    userinfo endpoint can change, that a served registry is never stale, or converges, under interleaving, the race that
    inheritance opens, the life of a managed provider and key rotation.
  \<^item> \<^verbatim>\<open>Federation_State\<close>, \<^verbatim>\<open>Oauth2_Social\<close>, \<^verbatim>\<open>Espresso_Flow\<close>, \<^verbatim>\<open>Espresso_Federation\<close>, \<^verbatim>\<open>Espresso_Saml\<close> (the state cookies of \<^verbatim>\<open>oidc\<close> and
    \<^verbatim>\<open>saml\<close>, \<^verbatim>\<open>src/oauth2social\<close>, and the flows and routes of \<^verbatim>\<open>src/espresso\<close>): a federated sign-in from the redirect to the session, what
    binds its two ends, that a session leaves only after verification, and that a link flow stays one.
  \<^item> \<^verbatim>\<open>Espresso_Context\<close>, \<^verbatim>\<open>Espresso_Audit\<close>, \<^verbatim>\<open>Espresso_Gates\<close>, \<^verbatim>\<open>Espresso_StepUp\<close>, \<^verbatim>\<open>Espresso_StartLogin\<close> (\<^verbatim>\<open>src/espresso\<close>):
    who reaches a handler behind the stacked gates, that a foreign token is answered like a forged one, throttling,
    step-up, and home-realm discovery that discloses nothing. These compose tokens, tenants and decisions.
  \<^item> \<^verbatim>\<open>Espresso_Auth\<close> (\<^verbatim>\<open>espresso/authroutes.go\<close>, \<^verbatim>\<open>wire.go\<close>): the password routes over any identity port, where their cookies
    live, and what a request without a tenant can reach.
  \<^item> \<^verbatim>\<open>Multitenant_Store\<close>, \<^verbatim>\<open>Multitenant_App\<close> (\<^verbatim>\<open>src/examples/multitenant\<close>): the pooled application. Its hand-written store refines
    \<^verbatim>\<open>MemStore\<close>, and requests are followed from the path through gates, handler, adapter and core to the rows: whose data the
    me route shows, what a refresh or a second leg takes and leaves, and what a guest pass opens.

  \<^item> \<^verbatim>\<open>Scim_Store\<close>, \<^verbatim>\<open>Espresso_Scim\<close> (\<^verbatim>\<open>scim/store.go\<close>, \<^verbatim>\<open>espresso/scim*.go\<close>): the persistence ports with their isolation
    contract and the handlers over them; a verb that checks a precondition is given in its two halves, the read and the write.
  \<^item> \<^verbatim>\<open>Provisioning_Store\<close>, \<^verbatim>\<open>Provisioning_App\<close>, \<^verbatim>\<open>Provisioning_Clients\<close> (\<^verbatim>\<open>src/examples/scim\<close>): the provisioning application. Its
    stores keep groups acyclic; the surface acts for the principal's tenant only and leaves one audit row per change; what a client
    reads after it wrote, what pages hold, and the update that two conditional writers can lose.

  \<^bold>\<open>Interfaces.\<close> A port's contract is a locale, interpreted on the model of its implementation: \<^verbatim>\<open>tenant_store\<close> and
  \<^verbatim>\<open>tenant_admin_store\<close>, \<^verbatim>\<open>binding_store\<close>, \<^verbatim>\<open>authorizer\<close> (both engines), \<^verbatim>\<open>permission_store\<close> (the reference store and the
  rank adapter), \<^verbatim>\<open>identity_store\<close> and \<^verbatim>\<open>membership_store\<close> (both twice), \<^verbatim>\<open>invitation_store\<close>, \<^verbatim>\<open>replay_ledger\<close>, \<^verbatim>\<open>registry_builder\<close>,
  \<^verbatim>\<open>scim_directory\<close> and the surface over it, \<^verbatim>\<open>scim_surface\<close>.
  Concurrency is explicit: the inductive relations \<^verbatim>\<open>acceptStep\<close>, the audit log's runs, \<^verbatim>\<open>presented\<close> and \<^verbatim>\<open>cache_step\<close>
  interleave atomic sections in any order.

  \<^bold>\<open>Conventions and bounds.\<close> An error is the sentinel it matches under \<^verbatim>\<open>errors.Is\<close>; prose is not modelled. Times and
  durations count nanoseconds, the zero time being 0; a call, or a critical section, reads the clock once, except where two
  readings are arguments. The hierarchy walk stops at 32 levels as the code does, so it is total; the group
  walk is a partial function whose \<^verbatim>\<open>None\<close> is not returning; a constructor that panics is \<^verbatim>\<open>None\<close> too. Paging is followed
  with fuel, and as many pages as rows are shown to be enough. Case folding and trimming are ASCII. SHA-256, bcrypt,
  AES-GCM, JWT, JSON, base64, XML and SAML validation, OIDC discovery, the filter grammar and the random source are
  arguments with their documented laws as hypotheses; the token counts of the limiter are exact rationals; an SQL query is its condition and its sort key.

  \<^bold>\<open>Not modelled.\<close> The route assembly of \<^verbatim>\<open>espresso\<close>, database opening and generated scanning code, the boot validation of the
  root package, the conformance suites that other packages run against their own stores, bulk requests, which go through a router of
  another package, and the other examples.
\<close>

end
